(* ===== verification/Prelude.thy ===== *)
theory Prelude
  imports Complex_Main "HOL-Library.Sublist" "HOL-Library.Monad_Syntax"
begin

text \<open>
  What every component shares: the JavaScript values that reach the program as
  \<open>unknown\<close> (JSON columns of the database), the string operations the source uses
  (\<open>trim\<close>, \<open>toUpperCase\<close>, \<open>Number\<close>, number to text, \<open>join\<close>), the sum type of
  results with its bind, the collections of rules the component proofs use, and
  lemmas on lists.

  Strings are ASCII (\<open>char list\<close>); integers are unbounded \<open>int\<close>, which is exact for the
  values the program handles (far below \<open>2^53\<close>). A JSON number is an integer here: the program
  stores no fractional number in a JSON column.
\<close>

named_theorems board_simps \<open>how the lookups of a board compute\<close>
named_theorems search_intros \<open>introduction rules for legal selections of patterns\<close>
named_theorems result_simps \<open>fields of evaluation results\<close>
named_theorems table_simps \<open>rows of an updated table\<close>
named_theorems wallet_simps \<open>what an operation does to the wallet store\<close>

section \<open>JavaScript values\<close>

datatype js =
    Undefined
  | Null
  | Bool bool
  | Num int
  | Str string
  | Arr "js list"
  | Obj "(string \<times> js) list"

text \<open>\<open>value.field\<close> on something that passed \<open>typeof value === 'object'\<close>.\<close>

fun js_prop :: "js \<Rightarrow> string \<Rightarrow> js" where
  "js_prop (Obj kvs) k = (case map_of kvs k of None \<Rightarrow> Undefined | Some v \<Rightarrow> v)"
| "js_prop _ _ = Undefined"

text \<open>\<open>!value || typeof value !== 'object'\<close> is the negation of this.\<close>

fun js_is_object :: "js \<Rightarrow> bool" where
  "js_is_object (Arr _) = True"
| "js_is_object (Obj _) = True"
| "js_is_object _ = False"

section \<open>Strings\<close>

definition js_space :: "char \<Rightarrow> bool" where
  "js_space c \<longleftrightarrow> List.member (map char_of [32, 9, 10, 11, 12, 13 :: nat]) c"

definition js_trim :: "string \<Rightarrow> string" where
  "js_trim s = rev (dropWhile js_space (rev (dropWhile js_space s)))"

definition upper_char :: "char \<Rightarrow> char" where
  "upper_char c = (let k = of_char c :: nat in if 97 \<le> k \<and> k \<le> 122 then char_of (k - 32) else c)"

definition js_upper :: "string \<Rightarrow> string" where
  "js_upper s = map upper_char s"

definition lower_char :: "char \<Rightarrow> char" where
  "lower_char c = (let k = of_char c :: nat in if 65 \<le> k \<and> k \<le> 90 then char_of (k + 32) else c)"

definition js_lower :: "string \<Rightarrow> string" where
  "js_lower s = map lower_char s"

lemma upper_char_idem: "upper_char (upper_char ch) = upper_char ch"
proof (cases "97 \<le> (of_char ch :: nat) \<and> (of_char ch :: nat) \<le> 122")
  case True
  then have "((of_char ch :: nat) - 32) mod 256 = of_char ch - 32" by (intro mod_less) linarith
  moreover have "\<not> 97 \<le> (of_char ch :: nat) - 32" using True by linarith
  ultimately show ?thesis using True by (simp add: upper_char_def Let_def)
next
  case False
  then have "upper_char ch = ch" unfolding upper_char_def Let_def by (rule if_not_P)
  then show ?thesis by simp
qed

lemma js_upper_idem: "js_upper (js_upper s) = js_upper s"
  by (simp add: js_upper_def upper_char_idem)

text \<open>The text of a non-negative integer, and of an integer.\<close>

fun show_nat :: "nat \<Rightarrow> string" where
  "show_nat k =
     (if k < 10 then [char_of (48 + k)]
      else show_nat (k div 10) @ [char_of (48 + k mod 10)])"

definition show_int :: "int \<Rightarrow> string" where
  "show_int i = (if i < 0 then CHR ''-'' # show_nat (nat (- i)) else show_nat (nat i))"

text \<open>\<open>xs.join(',')\<close>.\<close>

fun js_join :: "string list \<Rightarrow> string" where
  "js_join [] = []"
| "js_join [s] = s"
| "js_join (s # t # ts) = s @ '','' @ js_join (t # ts)"

section \<open>\<open>Number(text)\<close> on a trimmed, upper-case text\<close>

text \<open>
  \<open>Number\<close> reads an optional sign, digits with an optional fraction and an optional exponent,
  or an unsigned hexadecimal, octal or binary literal. The result here is \<open>Some k\<close> when the
  text denotes the integer \<open>k\<close> and \<open>None\<close> when it denotes \<open>NaN\<close> or a value that is not an
  integer, which no called number equals.
\<close>

definition digit_value :: "char \<Rightarrow> nat option" where
  "digit_value c = (let k = of_char c :: nat in
     if 48 \<le> k \<and> k \<le> 57 then Some (k - 48)
     else if 65 \<le> k \<and> k \<le> 70 then Some (k - 55)
     else None)"

fun read_radix :: "nat \<Rightarrow> nat \<Rightarrow> string \<Rightarrow> nat option" where
  "read_radix radix acc [] = Some acc"
| "read_radix radix acc (c # cs) =
     (case digit_value c of
        None \<Rightarrow> None
      | Some d \<Rightarrow> if d < radix then read_radix radix (acc * radix + d) cs else None)"

definition read_digits :: "nat \<Rightarrow> string \<Rightarrow> nat option" where
  "read_digits radix s = (if s = [] then None else read_radix radix 0 s)"

definition read_signed :: "(string \<Rightarrow> 'a option) \<Rightarrow> string \<Rightarrow> (bool \<times> 'a) option" where
  "read_signed p s =
     (case s of
        [] \<Rightarrow> None
      | c # cs \<Rightarrow>
          if c = CHR ''-'' then map_option (Pair True) (p cs)
          else if c = CHR ''+'' then map_option (Pair False) (p cs)
          else map_option (Pair False) (p s))"

definition signed :: "bool \<times> nat \<Rightarrow> int" where
  "signed p = (if fst p then - int (snd p) else int (snd p))"

text \<open>Mantissa digits and how many of them follow the point.\<close>

definition read_mantissa :: "string \<Rightarrow> (nat \<times> nat) option" where
  "read_mantissa s =
     (let whole = takeWhile (\<lambda>c. c \<noteq> CHR ''.'') s; rest = dropWhile (\<lambda>c. c \<noteq> CHR ''.'') s;
          frac = drop 1 rest
      in map_option (\<lambda>m. (m, length frac)) (read_digits 10 (whole @ frac)))"

definition scale_decimal :: "nat \<Rightarrow> int \<Rightarrow> nat option" where
  "scale_decimal m e =
     (if 0 \<le> e then Some (m * 10 ^ nat e)
      else if m mod 10 ^ nat (- e) = 0 then Some (m div 10 ^ nat (- e)) else None)"

definition read_unsigned :: "string \<Rightarrow> nat option" where
  "read_unsigned s =
     (let mant = takeWhile (\<lambda>c. c \<noteq> CHR ''E'') s; rest = dropWhile (\<lambda>c. c \<noteq> CHR ''E'') s in
      do {
        (m, k) \<leftarrow> read_mantissa mant;
        e \<leftarrow> (if rest = [] then Some 0
              else map_option signed (read_signed (read_digits 10) (tl rest)));
        scale_decimal m (e - int k)
      })"

definition js_number :: "string \<Rightarrow> int option" where
  "js_number s =
     (if take 2 s = ''0X'' then map_option int (read_digits 16 (drop 2 s))
      else if take 2 s = ''0O'' then map_option int (read_digits 8 (drop 2 s))
      else if take 2 s = ''0B'' then map_option int (read_digits 2 (drop 2 s))
      else map_option signed (read_signed read_unsigned s))"

section \<open>Results\<close>

text \<open>\<open>Inl\<close> is a thrown error, \<open>Inr\<close> a returned value.\<close>

definition bind_result :: "'e + 'a \<Rightarrow> ('a \<Rightarrow> 'e + 'b) \<Rightarrow> 'e + 'b" where
  "bind_result r f = (case r of Inl e \<Rightarrow> Inl e | Inr x \<Rightarrow> f x)"

lemma bind_result_simps [simp]:
  "bind_result (Inl e) f = Inl e"
  "bind_result (Inr x) f = f x"
  by (simp_all add: bind_result_def)

lemma bind_result_eq_Inr_iff:
  "bind_result r f = Inr y \<longleftrightarrow> (\<exists>x. r = Inr x \<and> f x = Inr y)"
  by (cases r) simp_all

lemma bind_result_eq_Inl_iff:
  "bind_result r f = Inl e \<longleftrightarrow> r = Inl e \<or> (\<exists>x. r = Inr x \<and> f x = Inl e)"
  by (cases r) simp_all

section \<open>\<open>Array.prototype.sort\<close>\<close>

text \<open>The stable sort by a comparator: negative, zero or positive.\<close>

fun insert_by :: "('a \<Rightarrow> 'a \<Rightarrow> int) \<Rightarrow> 'a \<Rightarrow> 'a list \<Rightarrow> 'a list" where
  "insert_by cmp x [] = [x]"
| "insert_by cmp x (y # ys) = (if cmp x y \<le> 0 then x # y # ys else y # insert_by cmp x ys)"

definition sort_by :: "('a \<Rightarrow> 'a \<Rightarrow> int) \<Rightarrow> 'a list \<Rightarrow> 'a list" where
  "sort_by cmp xs = foldr (insert_by cmp) xs []"

definition prefer_order :: "('a \<Rightarrow> bool) \<Rightarrow> 'a \<Rightarrow> 'a \<Rightarrow> int" where
  "prefer_order P x y = (if P x = P y then 0 else if P x then - 1 else 1)"

lemma insert_by_partition:
  "insert_by (prefer_order P) x (filter P ys @ filter (\<lambda>y. \<not> P y) ys) =
   filter P (x # ys) @ filter (\<lambda>y. \<not> P y) (x # ys)"
proof -
  have skip: "insert_by (prefer_order P) x (as @ bs) = as @ insert_by (prefer_order P) x bs"
    if "\<forall>a\<in>set as. P a" "\<not> P x" for as bs
    using that by (induction as) (auto simp: prefer_order_def)
  have front: "insert_by (prefer_order P) x bs = x # bs" if "\<forall>b\<in>set bs. \<not> P b" for bs
    using that by (cases bs) (auto simp: prefer_order_def)
  have front': "insert_by (prefer_order P) x bs = x # bs" if "P x" for bs
    using that by (cases bs) (auto simp: prefer_order_def)
  show ?thesis
    using skip [of "filter P ys" "filter (\<lambda>y. \<not> P y) ys"] front [of "filter (\<lambda>y. \<not> P y) ys"] front'
    by auto
qed

lemma sort_by_prefer:
  "sort_by (prefer_order P) xs = filter P xs @ filter (\<lambda>x. \<not> P x) xs"
  unfolding sort_by_def
  by (induction xs) (use insert_by_partition in \<open>fastforce+\<close>)

lemma insert_by_zero [simp]: "insert_by (\<lambda>_ _. 0) x ys = x # ys"
  by (cases ys) simp_all

lemma sort_by_zero [simp]: "sort_by (\<lambda>_ _. 0) xs = xs"
  by (induction xs) (simp_all add: sort_by_def)

lemma set_insert_by [simp]: "set (insert_by cmp x ys) = insert x (set ys)"
  by (induction ys) auto

lemma set_sort_by [simp]: "set (sort_by cmp xs) = set xs"
  by (induction xs) (simp_all add: sort_by_def)

lemma length_insert_by [simp]: "length (insert_by cmp x ys) = Suc (length ys)"
  by (induction ys) auto

lemma length_sort_by [simp]: "length (sort_by cmp xs) = length xs"
  by (induction xs) (simp_all add: sort_by_def)

section \<open>Tables\<close>

text \<open>\<open>updateMany\<close> on a table, and the number of rows it touches.\<close>

definition update_where :: "('a \<Rightarrow> bool) \<Rightarrow> ('a \<Rightarrow> 'a) \<Rightarrow> 'a list \<Rightarrow> 'a list" where
  "update_where P f xs = map (\<lambda>x. if P x then f x else x) xs"

definition count_where :: "('a \<Rightarrow> bool) \<Rightarrow> 'a list \<Rightarrow> nat" where
  "count_where P xs = length (filter P xs)"

lemma in_update_where [table_simps]:
  "y \<in> set (update_where P f xs) \<longleftrightarrow> (\<exists>x\<in>set xs. y = (if P x then f x else x))"
  by (auto simp: update_where_def)

lemma ball_update_where [table_simps]:
  "(\<forall>y\<in>set (update_where P f xs). Q y) \<longleftrightarrow> (\<forall>x\<in>set xs. Q (if P x then f x else x))"
  by (auto simp: update_where_def)

lemma map_update_where:
  "(\<And>x. P x \<Longrightarrow> g (f x) = g x) \<Longrightarrow> map g (update_where P f xs) = map g xs"
  by (simp add: update_where_def)

lemma length_update_where [simp]: "length (update_where P f xs) = length xs"
  by (simp add: update_where_def)

lemma filter_update_where:
  "(\<And>x. P x \<Longrightarrow> Q (f x) = Q x) \<Longrightarrow> filter Q (update_where P f xs) = update_where P f (filter Q xs)"
  by (induction xs) (auto simp: update_where_def)

lemma filter_update_where':
  "(\<And>x. x \<in> set xs \<Longrightarrow> P x \<Longrightarrow> Q (f x) = Q x) \<Longrightarrow>
   filter Q (update_where P f xs) = update_where P f (filter Q xs)"
  by (induction xs) (auto simp: update_where_def)

lemma filter_update_other:
  "(\<And>x. x \<in> set xs \<Longrightarrow> P x \<Longrightarrow> \<not> Q x \<and> \<not> Q (f x)) \<Longrightarrow> filter Q (update_where P f xs) = filter Q xs"
  by (induction xs) (auto simp: update_where_def)

lemma map_update_where':
  "(\<And>x. x \<in> set xs \<Longrightarrow> P x \<Longrightarrow> g (f x) = g x) \<Longrightarrow> map g (update_where P f xs) = map g xs"
  by (simp add: update_where_def)

lemma update_where_none: "(\<And>x. x \<in> set xs \<Longrightarrow> \<not> P x) \<Longrightarrow> update_where P f xs = xs"
  by (induction xs) (auto simp: update_where_def)

lemma count_where_zero [table_simps]: "count_where P xs = 0 \<longleftrightarrow> (\<forall>x\<in>set xs. \<not> P x)"
  by (auto simp: count_where_def filter_empty_conv)

lemma count_where_pos [table_simps]: "0 < count_where P xs \<longleftrightarrow> (\<exists>x\<in>set xs. P x)"
  using count_where_zero [of P xs] by auto

lemma count_where_key:
  assumes "distinct (map key xs)" "\<And>x. P x \<Longrightarrow> key x = k"
  shows "count_where P xs \<le> 1"
  using assms(1)
proof (induction xs)
  case (Cons x xs)
  then show ?case
    using assms(2) [of x] assms(2) by (auto simp: count_where_def filter_empty_conv rev_image_eqI)
qed (simp add: count_where_def)

lemma find_key:
  "distinct (map key xs) \<Longrightarrow> x \<in> set xs \<Longrightarrow> find (\<lambda>y. key y = key x) xs = Some x"
  by (induction xs) (auto simp: rev_image_eqI)

lemma find_in: "find P xs = Some x \<Longrightarrow> x \<in> set xs \<and> P x"
  by (auto simp: find_Some_iff)

section \<open>Lists\<close>

lemma subseq_filter_filter: "(\<And>x. P x \<Longrightarrow> Q x) \<Longrightarrow> subseq (filter P xs) (filter Q xs)"
  by (induction xs) auto

lemma subseq_concat_map:
  "(\<And>x. x \<in> set xs \<Longrightarrow> subseq (f x) (g x)) \<Longrightarrow> subseq (concat (map f xs)) (concat (map g xs))"
  by (induction xs) (auto intro: list_emb_append_mono)

lemma subseq_map: "subseq xs ys \<Longrightarrow> subseq (map f xs) (map f ys)"
  by (induction rule: list_emb.induct) auto

lemma subseq_filter_mono: "subseq xs ys \<Longrightarrow> subseq (filter P xs) (filter P ys)"
  by (induction rule: list_emb.induct) auto

lemma subseq_set: "subseq xs ys \<Longrightarrow> set xs \<subseteq> set ys"
  by (induction rule: list_emb.induct) auto

lemma subseq_distinct: "subseq xs ys \<Longrightarrow> distinct ys \<Longrightarrow> distinct xs"
  by (induction rule: list_emb.induct) (auto dest: subseq_set)

lemma map_of_Cons_neq: "k \<noteq> k' \<Longrightarrow> map_of ((k', v) # kvs) k = map_of kvs k"
  by simp

lemma map_via: "map f xs = map f ys \<Longrightarrow> (\<And>x. g x = h (f x)) \<Longrightarrow> map g xs = map g ys"
proof -
  assume a: "map f xs = map f ys" "\<And>x. g x = h (f x)"
  then have "g = h \<circ> f" by auto
  then show ?thesis using a(1) by (metis map_map)
qed

lemma concat_map_filter:
  "concat (map (\<lambda>x. if P x then [f x] else []) xs) = map f (filter P xs)"
  by (induction xs) auto

lemma distinct_map_sorted_wrt: "distinct (map f xs) \<Longrightarrow> sorted_wrt (\<lambda>x y. f x \<noteq> f y) xs"
  by (induction xs) auto

section \<open>Runs\<close>

text \<open>
  A component that changes state by steps: every step keeps an invariant and leads from a state that
  has it to one that follows it (a guarantee on pairs of states).
\<close>

locale protocol =
  fixes step :: "'s \<Rightarrow> 's \<Rightarrow> bool" and inv :: "'s \<Rightarrow> bool" and follows :: "'s \<Rightarrow> 's \<Rightarrow> bool"
  assumes keeps: "inv s \<Longrightarrow> step s s' \<Longrightarrow> inv s'"
    and guarantees: "inv s \<Longrightarrow> step s s' \<Longrightarrow> follows s s'"
begin

lemma run_inv: "step\<^sup>*\<^sup>* s s' \<Longrightarrow> inv s \<Longrightarrow> inv s'"
  by (induction rule: rtranclp_induct) (auto intro: keeps)

text \<open>What every pair of states in a row guarantees and what composes holds of a whole run.\<close>

lemma run_relates:
  assumes "step\<^sup>*\<^sup>* s s'" "inv s" "\<And>x. R x x" "\<And>x y z. R x y \<Longrightarrow> follows y z \<Longrightarrow> R x z"
  shows "R s s'"
  using assms(1)
proof (induction rule: rtranclp_induct)
  case (step y z)
  then show ?case using assms(4) guarantees run_inv [OF _ assms(2)] by blast
qed (rule assms(3))

lemma run_stable:
  assumes "step\<^sup>*\<^sup>* s s'" "inv s" "P s" "\<And>x y. follows x y \<Longrightarrow> P x \<Longrightarrow> P y"
  shows "P s'"
  using run_relates [of s s' "\<lambda>x y. P x \<longrightarrow> P y"] assms by blast

end

end
