(* ===== verification/Board.thy ===== *)
theory Board
  imports Prelude
begin

text \<open>
  The board of a cartela and its marks: \<open>src/src/game-rules/evaluators/board.util.ts\<close> and the
  types of \<open>interfaces/game-rule-evaluator.interface.ts\<close>. A cartela has five JSON columns; rows,
  columns and diagonals are read from them, and a cell is marked when it is free or its number
  has been called. The lemmas show how the lookups compute, that marks only grow as numbers are
  called, and that on a board with five full columns the three line checks agree with the cells
  of the lines.
\<close>

section \<open>Data\<close>

type_synonym board_coord = "int \<times> int"

record cartela =
  cartela_id :: string
  cartela_number :: int
  col_b :: js
  col_i :: js
  col_n :: js
  col_g :: js
  col_o :: js

record called_number =
  cn_letter :: string
  cn_number :: int
  cn_order :: int

record completed_pattern =
  cp_type :: string
  cp_key :: string
  cp_numbers :: "int list"
  cp_cells :: "board_coord list option"

record evaluation_result =
  is_winner :: bool
  matched_pattern :: string
  progress :: rat
  latest_number :: "int option"
  completed_by_latest :: bool
  completed_patterns :: "completed_pattern list"

section \<open>Operations\<close>

fun normalizeColumn :: "js \<Rightarrow> js list" where
  "normalizeColumn (Arr xs) = xs"
| "normalizeColumn _ = []"

definition buildBoardColumns :: "cartela \<Rightarrow> js list list" where
  "buildBoardColumns c =
     [normalizeColumn (col_b c), normalizeColumn (col_i c), normalizeColumn (col_n c),
      normalizeColumn (col_g c), normalizeColumn (col_o c)]"

text \<open>\<open>column[rowIndex] ?? null\<close>\<close>

definition cell_or_null :: "js list \<Rightarrow> nat \<Rightarrow> js" where
  "cell_or_null column k =
     (if k < length column then (if column ! k = Undefined then Null else column ! k) else Null)"

definition buildBoardRows :: "cartela \<Rightarrow> js list list" where
  "buildBoardRows c =
     (let columns = [normalizeColumn (col_b c), normalizeColumn (col_i c),
                     normalizeColumn (col_n c), normalizeColumn (col_g c),
                     normalizeColumn (col_o c)]
      in map (\<lambda>rowIndex. map (\<lambda>column. cell_or_null column rowIndex) columns) [0, 1, 2, 3, 4])"

definition buildRowCells :: "int \<Rightarrow> board_coord list" where
  "buildRowCells rowIndex = map (\<lambda>columnIndex. (rowIndex, columnIndex)) [0, 1, 2, 3, 4]"

definition buildColumnCells :: "int \<Rightarrow> board_coord list" where
  "buildColumnCells columnIndex = map (\<lambda>rowIndex. (rowIndex, columnIndex)) [0, 1, 2, 3, 4]"

definition buildDiagonalCells :: "int \<Rightarrow> board_coord list" where
  "buildDiagonalCells diagonalIndex =
     (if diagonalIndex = 0 then map (\<lambda>index. (index, index)) [0, 1, 2, 3, 4]
      else map (\<lambda>index. (index, 4 - index)) [0, 1, 2, 3, 4])"

definition getBoardDiagonals :: "cartela \<Rightarrow> js list list" where
  "getBoardDiagonals c =
     (let rows = buildBoardRows c in
      [[rows ! 0 ! 0, rows ! 1 ! 1, rows ! 2 ! 2, rows ! 3 ! 3, rows ! 4 ! 4],
       [rows ! 0 ! 4, rows ! 1 ! 3, rows ! 2 ! 2, rows ! 3 ! 1, rows ! 4 ! 0]])"

text \<open>\<open>boardRows[row]?.[col]\<close>\<close>

definition cell_at :: "js list list \<Rightarrow> board_coord \<Rightarrow> js" where
  "cell_at rows rc =
     (if 0 \<le> fst rc \<and> nat (fst rc) < length rows then
        (let row = rows ! nat (fst rc) in
         if 0 \<le> snd rc \<and> nat (snd rc) < length row then row ! nat (snd rc) else Undefined)
      else Undefined)"

fun isMarkedCellValue :: "js \<Rightarrow> int set \<Rightarrow> bool" where
  "isMarkedCellValue Null called = True"
| "isMarkedCellValue Undefined called = True"
| "isMarkedCellValue (Str s) called =
     (let trimmedValue = js_upper (js_trim s) in
      if trimmedValue = ''FREE'' \<or> trimmedValue = [] then True
      else (case js_number trimmedValue of None \<Rightarrow> False | Some k \<Rightarrow> k \<in> called))"
| "isMarkedCellValue (Num k) called = (k \<in> called)"
| "isMarkedCellValue _ called = False"

definition buildCalledNumbersSet :: "called_number list \<Rightarrow> int set" where
  "buildCalledNumbersSet calledNumbers = set (map cn_number calledNumbers)"

definition withoutLatestCalledNumber :: "called_number list \<Rightarrow> called_number list" where
  "withoutLatestCalledNumber calledNumbers =
     (if length calledNumbers \<le> 1 then [] else take (length calledNumbers - 1) calledNumbers)"

definition getLatestCalledNumber :: "called_number list \<Rightarrow> int option" where
  "getLatestCalledNumber calledNumbers =
     (if length calledNumbers > 0 then Some (cn_number (calledNumbers ! (length calledNumbers - 1)))
      else None)"

fun getCellNumber :: "js \<Rightarrow> int option" where
  "getCellNumber (Num k) = Some k"
| "getCellNumber (Str s) =
     (let trimmedValue = js_upper (js_trim s) in
      if trimmedValue = ''FREE'' \<or> trimmedValue = [] then None else js_number trimmedValue)"
| "getCellNumber _ = None"

definition getPatternNumbers :: "js list list \<Rightarrow> board_coord list \<Rightarrow> int list" where
  "getPatternNumbers boardRows cells =
     map the (filter (\<lambda>v. v \<noteq> None) (map (\<lambda>rc. getCellNumber (cell_at boardRows rc)) cells))"

definition all_marked :: "js list \<Rightarrow> int set \<Rightarrow> bool" where
  "all_marked vs called \<longleftrightarrow> list_all (\<lambda>v. isMarkedCellValue v called) vs"

definition getCompletedRowIndexes :: "cartela \<Rightarrow> int set \<Rightarrow> int list" where
  "getCompletedRowIndexes c called =
     concat (map (\<lambda>(index, row). if all_marked row called then [index + 1] else [])
       (zip [0, 1, 2, 3, 4] (buildBoardRows c)))"

definition getCompletedColumnIndexes :: "cartela \<Rightarrow> int set \<Rightarrow> int list" where
  "getCompletedColumnIndexes c called =
     concat (map (\<lambda>(index, column). if all_marked column called then [index] else [])
       (zip [0, 1, 2, 3, 4] (buildBoardColumns c)))"

definition getCompletedDiagonalIndexes :: "cartela \<Rightarrow> int set \<Rightarrow> int list" where
  "getCompletedDiagonalIndexes c called =
     concat (map (\<lambda>(index, diagonal). if all_marked diagonal called then [index + 1] else [])
       (zip [0, 1] (getBoardDiagonals c)))"

definition isFullHouse :: "cartela \<Rightarrow> int set \<Rightarrow> bool" where
  "isFullHouse c called \<longleftrightarrow> length (getCompletedRowIndexes c called) = 5"

section \<open>How the lookups compute\<close>

abbreviation cell_marked :: "cartela \<Rightarrow> int set \<Rightarrow> board_coord \<Rightarrow> bool" where
  "cell_marked c called rc \<equiv> isMarkedCellValue (cell_at (buildBoardRows c) rc) called"

lemma length_buildBoardRows [board_simps]: "length (buildBoardRows c) = 5"
  by (simp add: buildBoardRows_def)

lemma coord_range: "0 \<le> (r::int) \<and> r < 5 \<longleftrightarrow> r = 0 \<or> r = 1 \<or> r = 2 \<or> r = 3 \<or> r = 4"
  by auto

lemma cell_at_board [board_simps]:
  assumes "0 \<le> r" "r < 5" "0 \<le> k" "k < 5"
  shows "cell_at (buildBoardRows c) (r, k) = cell_or_null (buildBoardColumns c ! nat k) (nat r)"
proof -
  have "r = 0 \<or> r = 1 \<or> r = 2 \<or> r = 3 \<or> r = 4" "k = 0 \<or> k = 1 \<or> k = 2 \<or> k = 3 \<or> k = 4"
    using assms by linarith+
  then show ?thesis
    by (elim disjE) (simp_all add: cell_at_def buildBoardRows_def buildBoardColumns_def)
qed

lemma cell_at_outside [board_simps]:
  "\<not> (0 \<le> r \<and> r < 5 \<and> 0 \<le> k \<and> k < 5) \<Longrightarrow> cell_at (buildBoardRows c) (r, k) = Undefined"
  by (auto simp: cell_at_def buildBoardRows_def nth_Cons split: nat.splits)

text \<open>A column read with \<open>?? null\<close> is marked exactly where the column is.\<close>

lemma marked_cell_or_null:
  "k < length column \<Longrightarrow>
   isMarkedCellValue (cell_or_null column k) called = isMarkedCellValue (column ! k) called"
  by (simp add: cell_or_null_def)

section \<open>Marks grow with the called numbers\<close>

lemma isMarkedCellValue_mono:
  "isMarkedCellValue v called \<Longrightarrow> called \<subseteq> called' \<Longrightarrow> isMarkedCellValue v called'"
  by (cases v) (auto simp: Let_def split: if_splits option.splits)

lemma isMarkedCellValue_number:
  "isMarkedCellValue v called \<Longrightarrow> getCellNumber v = Some k \<Longrightarrow> k \<in> called"
  by (cases v) (auto simp: Let_def split: if_splits option.splits)

lemma isMarkedCellValue_iff_number:
  "getCellNumber v = Some k \<Longrightarrow> isMarkedCellValue v called \<longleftrightarrow> k \<in> called"
  by (cases v) (auto simp: Let_def split: if_splits option.splits)

lemma isMarkedCellValue_no_number:
  "getCellNumber v = None \<Longrightarrow> isMarkedCellValue v called = isMarkedCellValue v {}"
  by (cases v) (auto simp: Let_def split: if_splits option.splits)

lemma getPatternNumbers_iff:
  "k \<in> set (getPatternNumbers rows cells) \<longleftrightarrow>
   (\<exists>rc\<in>set cells. getCellNumber (cell_at rows rc) = Some k)"
  by (force simp: getPatternNumbers_def)

section \<open>Lines are their cells\<close>

text \<open>Five columns of five entries each: what every seeded cartela is.\<close>

definition full_board :: "cartela \<Rightarrow> bool" where
  "full_board c \<longleftrightarrow> list_all (\<lambda>column. length column = 5) (buildBoardColumns c)"

lemma length5_conv: "length xs = 5 \<Longrightarrow> xs = [xs ! 0, xs ! 1, xs ! 2, xs ! 3, xs ! 4]"
  by (rule nth_equalityI) (auto simp: nth_Cons numeral_eq_Suc less_Suc_eq split: nat.splits)

lemma getCompletedRowIndexes_eq:
  "getCompletedRowIndexes c called =
   map (\<lambda>i. i + 1)
     (filter (\<lambda>i. list_all (cell_marked c called) (buildRowCells i)) [0, 1, 2, 3, 4])"
  by (simp add: getCompletedRowIndexes_def buildBoardRows_def all_marked_def buildRowCells_def
      cell_at_def)

lemma getCompletedDiagonalIndexes_eq:
  "getCompletedDiagonalIndexes c called =
   map (\<lambda>i. i + 1)
     (filter (\<lambda>i. list_all (cell_marked c called) (buildDiagonalCells i)) [0, 1])"
  by (simp add: getCompletedDiagonalIndexes_def getBoardDiagonals_def buildBoardRows_def
      all_marked_def buildDiagonalCells_def cell_at_def)

lemma all_marked_column:
  assumes "length column = 5"
  shows "all_marked column called \<longleftrightarrow>
    isMarkedCellValue (cell_or_null column 0) called \<and>
    isMarkedCellValue (cell_or_null column 1) called \<and>
    isMarkedCellValue (cell_or_null column 2) called \<and>
    isMarkedCellValue (cell_or_null column 3) called \<and>
    isMarkedCellValue (cell_or_null column 4) called"
proof -
  have "all_marked column called \<longleftrightarrow>
      all_marked [column ! 0, column ! 1, column ! 2, column ! 3, column ! 4] called"
    using length5_conv [OF assms] by simp
  then show ?thesis
    using assms by (simp add: marked_cell_or_null all_marked_def)
qed

lemma getCompletedColumnIndexes_eq:
  assumes "full_board c"
  shows "getCompletedColumnIndexes c called =
    filter (\<lambda>i. list_all (cell_marked c called) (buildColumnCells i)) [0, 1, 2, 3, 4]"
  using assms
  by (simp add: getCompletedColumnIndexes_def buildBoardColumns_def full_board_def
      all_marked_column buildColumnCells_def board_simps)

lemma mem_getCompletedRowIndexes:
  "i \<in> set (getCompletedRowIndexes c called) \<longleftrightarrow>
   i \<in> {1, 2, 3, 4, 5} \<and> list_all (cell_marked c called) (buildRowCells (i - 1))"
  unfolding getCompletedRowIndexes_eq by auto

lemma mem_getCompletedDiagonalIndexes:
  "i \<in> set (getCompletedDiagonalIndexes c called) \<longleftrightarrow>
   i \<in> {1, 2} \<and> list_all (cell_marked c called) (buildDiagonalCells (i - 1))"
  unfolding getCompletedDiagonalIndexes_eq by auto

lemma all_marked_mono: "all_marked vs called \<Longrightarrow> called \<subseteq> called' \<Longrightarrow> all_marked vs called'"
  by (auto simp: all_marked_def list_all_iff intro: isMarkedCellValue_mono)

lemma getCompletedRowIndexes_mono:
  "called \<subseteq> called' \<Longrightarrow>
   subseq (getCompletedRowIndexes c called) (getCompletedRowIndexes c called')"
  unfolding getCompletedRowIndexes_def
  by (rule subseq_concat_map) (auto intro: all_marked_mono)

lemma getCompletedColumnIndexes_mono:
  "called \<subseteq> called' \<Longrightarrow>
   subseq (getCompletedColumnIndexes c called) (getCompletedColumnIndexes c called')"
  unfolding getCompletedColumnIndexes_def
  by (rule subseq_concat_map) (auto intro: all_marked_mono)

lemma getCompletedDiagonalIndexes_mono:
  "called \<subseteq> called' \<Longrightarrow>
   subseq (getCompletedDiagonalIndexes c called) (getCompletedDiagonalIndexes c called')"
  unfolding getCompletedDiagonalIndexes_def
  by (rule subseq_concat_map) (auto intro: all_marked_mono)

lemma isFullHouse_iff:
  "isFullHouse c called \<longleftrightarrow>
   (\<forall>r\<in>{0, 1, 2, 3, 4}. \<forall>k\<in>{0, 1, 2, 3, 4}. cell_marked c called (r, k))"
proof -
  have "length (filter P [0, 1, 2, 3, 4 :: int]) = 5 \<longleftrightarrow> (\<forall>r\<in>{0, 1, 2, 3, 4}. P r)" for P
    by auto
  then show ?thesis
    by (simp add: isFullHouse_def getCompletedRowIndexes_eq buildRowCells_def)
qed

lemma withoutLatestCalledNumber_eq: "withoutLatestCalledNumber xs = butlast xs"
  by (cases xs rule: rev_cases) (auto simp: withoutLatestCalledNumber_def)

lemma getLatestCalledNumber_eq:
  "getLatestCalledNumber xs = (if xs = [] then None else Some (cn_number (last xs)))"
  by (cases xs rule: rev_cases) (auto simp: getLatestCalledNumber_def)

lemma buildCalledNumbersSet_snoc [simp]:
  "buildCalledNumbersSet (xs @ [x]) = insert (cn_number x) (buildCalledNumbersSet xs)"
  by (simp add: buildCalledNumbersSet_def)

end
