(* ===== verification/Shapes.thy ===== *)
theory Shapes
  imports Board
begin

text \<open>
  The cell groups a rule can ask for: the constants of
  \<open>src/src/game-rules/combo/base-pattern-generator.ts\<close>, the half-house groups of
  \<open>half-house-pattern-definitions.ts\<close> and the generated groups of
  \<open>extended-pattern-definitions.ts\<close>. The lemmas show that every group lies on the board and
  names each of its cells once, that the generated lists have the sizes their comments give, and
  how the generated groups cover the board.
\<close>

section \<open>Groups written out in the source\<close>

definition FREE_CENTER :: board_coord where
  "FREE_CENTER = (2, 2)"

definition COLUMN_LABELS :: "string list" where
  "COLUMN_LABELS = [''B'', ''I'', ''N'', ''G'', ''O'']"

definition BIG_L_VARIANTS :: "board_coord list list" where
  "BIG_L_VARIANTS = [
    [(0, 0), (1, 0), (2, 0), (3, 0), (4, 0), (4, 1), (4, 2), (4, 3), (4, 4)],
    [(0, 4), (1, 4), (2, 4), (3, 4), (4, 4), (4, 3), (4, 2), (4, 1), (4, 0)],
    [(0, 0), (1, 0), (2, 0), (3, 0), (4, 0), (0, 1), (0, 2), (0, 3), (0, 4)],
    [(0, 4), (1, 4), (2, 4), (3, 4), (4, 4), (0, 3), (0, 2), (0, 1), (0, 0)]]"

definition BIG_T_VARIANTS :: "board_coord list list" where
  "BIG_T_VARIANTS = [
    [(0, 0), (0, 1), (0, 2), (0, 3), (0, 4), (1, 2), (2, 2), (3, 2), (4, 2)],
    [(4, 0), (4, 1), (4, 2), (4, 3), (4, 4), (3, 2), (2, 2), (1, 2), (0, 2)],
    [(0, 0), (1, 0), (2, 0), (3, 0), (4, 0), (2, 1), (2, 2), (2, 3), (2, 4)],
    [(0, 4), (1, 4), (2, 4), (3, 4), (4, 4), (2, 3), (2, 2), (2, 1), (2, 0)]]"

definition BIG_H_VARIANTS :: "board_coord list list" where
  "BIG_H_VARIANTS = [
    [(0, 0), (1, 0), (2, 0), (3, 0), (4, 0), (0, 4), (1, 4), (2, 4), (3, 4), (4, 4),
     (2, 1), (2, 2), (2, 3)],
    [(0, 0), (0, 1), (0, 2), (0, 3), (0, 4), (4, 0), (4, 1), (4, 2), (4, 3), (4, 4),
     (1, 2), (2, 2), (3, 2)]]"

definition BIG_CROSS_CELLS :: "board_coord list" where
  "BIG_CROSS_CELLS =
    [(2, 0), (2, 1), (2, 2), (2, 3), (2, 4), (0, 2), (1, 2), (3, 2), (4, 2)]"

definition FOUR_CORNERS_CELLS :: "board_coord list" where
  "FOUR_CORNERS_CELLS =
    [(0, 0), (0, 4), (4, 0), (4, 4)]"

definition RIGHT_SHAPE_VARIANTS :: "board_coord list list" where
  "RIGHT_SHAPE_VARIANTS = [
    [(0, 0), (0, 1), (1, 0)],
    [(0, 4), (0, 3), (1, 4)],
    [(4, 0), (4, 1), (3, 0)],
    [(4, 4), (4, 3), (3, 4)]]"

definition BIG_N_OR_Z_VARIANTS :: "board_coord list list" where
  "BIG_N_OR_Z_VARIANTS = [
    [(0, 0), (1, 0), (2, 0), (3, 0), (4, 0), (1, 1), (2, 2), (3, 3), (0, 4), (1, 4),
     (2, 4), (3, 4), (4, 4)],
    [(0, 0), (0, 1), (0, 2), (0, 3), (0, 4), (1, 3), (2, 2), (3, 1), (4, 0), (4, 1),
     (4, 2), (4, 3), (4, 4)]]"

definition BIG_M_OR_W_VARIANTS :: "board_coord list list" where
  "BIG_M_OR_W_VARIANTS = [
    [(0, 0), (1, 0), (2, 0), (3, 0), (4, 0), (1, 1), (2, 2), (1, 3), (0, 4), (1, 4),
     (2, 4), (3, 4), (4, 4)],
    [(0, 0), (1, 0), (2, 0), (3, 0), (4, 0), (3, 1), (2, 2), (3, 3), (0, 4), (1, 4),
     (2, 4), (3, 4), (4, 4)],
    [(0, 0), (0, 1), (0, 2), (0, 3), (0, 4), (1, 3), (2, 2), (3, 3), (4, 0), (4, 1),
     (4, 2), (4, 3), (4, 4)],
    [(0, 0), (0, 1), (0, 2), (0, 3), (0, 4), (1, 1), (2, 2), (3, 1), (4, 0), (4, 1),
     (4, 2), (4, 3), (4, 4)]]"

definition CORNER_CELLS :: "board_coord list" where
  "CORNER_CELLS =
    [(0, 0), (0, 4), (4, 0), (4, 4)]"

section \<open>Half houses\<close>

definition HALF_HOUSE_10_DIRECTION_VARIANTS :: "(string \<times> board_coord list) list" where
  "HALF_HOUSE_10_DIRECTION_VARIANTS = [
    (''TOP_3_ROWS'',
      [(0, 0), (0, 1), (0, 2), (0, 3), (0, 4), (1, 0), (1, 1), (1, 2), (1, 3),
       (1, 4), (2, 0), (2, 1), (2, 2), (2, 3), (2, 4)]),
    (''BOTTOM_3_ROWS'',
      [(2, 0), (2, 1), (2, 2), (2, 3), (2, 4), (3, 0), (3, 1), (3, 2), (3, 3),
       (3, 4), (4, 0), (4, 1), (4, 2), (4, 3), (4, 4)]),
    (''LEFT_3_COLUMNS'',
      [(0, 0), (0, 1), (0, 2), (1, 0), (1, 1), (1, 2), (2, 0), (2, 1), (2, 2),
       (3, 0), (3, 1), (3, 2), (4, 0), (4, 1), (4, 2)]),
    (''RIGHT_3_COLUMNS'',
      [(0, 2), (0, 3), (0, 4), (1, 2), (1, 3), (1, 4), (2, 2), (2, 3), (2, 4),
       (3, 2), (3, 3), (3, 4), (4, 2), (4, 3), (4, 4)]),
    (''MIDDLE_3_ROWS'',
      [(1, 0), (1, 1), (1, 2), (1, 3), (1, 4), (2, 0), (2, 1), (2, 2), (2, 3),
       (2, 4), (3, 0), (3, 1), (3, 2), (3, 3), (3, 4)]),
    (''MIDDLE_3_COLUMNS'',
      [(0, 1), (0, 2), (0, 3), (1, 1), (1, 2), (1, 3), (2, 1), (2, 2), (2, 3),
       (3, 1), (3, 2), (3, 3), (4, 1), (4, 2), (4, 3)]),
    (''LEFT_TRIANGLE'',
      [(0, 0), (1, 0), (1, 1), (2, 0), (2, 1), (2, 2), (3, 0), (3, 1), (3, 2),
       (3, 3), (4, 0), (4, 1), (4, 2), (4, 3), (4, 4)]),
    (''RIGHT_TRIANGLE'',
      [(0, 4), (1, 3), (1, 4), (2, 2), (2, 3), (2, 4), (3, 1), (3, 2), (3, 3),
       (3, 4), (4, 0), (4, 1), (4, 2), (4, 3), (4, 4)]),
    (''TOP_RIGHT_TRIANGLE'',
      [(0, 0), (0, 1), (0, 2), (0, 3), (0, 4), (1, 1), (1, 2), (1, 3), (1, 4),
       (2, 2), (2, 3), (2, 4), (3, 3), (3, 4), (4, 4)]),
    (''TOP_LEFT_TRIANGLE'',
      [(0, 0), (0, 1), (0, 2), (0, 3), (0, 4), (1, 0), (1, 1), (1, 2), (1, 3),
       (2, 0), (2, 1), (2, 2), (3, 0), (3, 1), (4, 0)])]"

text \<open>\<open>variants.KEY\<close> on one of the keys above.\<close>

definition half_house :: "string \<Rightarrow> board_coord list" where
  "half_house key = the (map_of HALF_HOUSE_10_DIRECTION_VARIANTS key)"

definition HALF_HOUSE_4_DIRECTION_VARIANTS :: "(string \<times> board_coord list) list" where
  "HALF_HOUSE_4_DIRECTION_VARIANTS = [
    (''TOP_LEFT_HALF'', half_house ''TOP_LEFT_TRIANGLE''),
    (''TOP_RIGHT_HALF'', half_house ''TOP_RIGHT_TRIANGLE''),
    (''BOTTOM_RIGHT_HALF'', half_house ''RIGHT_TRIANGLE''),
    (''BOTTOM_LEFT_HALF'', half_house ''LEFT_TRIANGLE'')]"

definition HALF_HOUSE_10_DIRECTION_CELLS :: "board_coord list list" where
  "HALF_HOUSE_10_DIRECTION_CELLS = map snd HALF_HOUSE_10_DIRECTION_VARIANTS"

definition HALF_HOUSE_4_DIRECTION_CELLS :: "board_coord list list" where
  "HALF_HOUSE_4_DIRECTION_CELLS = map snd HALF_HOUSE_4_DIRECTION_VARIANTS"

section \<open>Generated groups\<close>

text \<open>Two nested counting loops that push one group per turn.\<close>

definition grid :: "int list \<Rightarrow> int list \<Rightarrow> (int \<Rightarrow> int \<Rightarrow> 'a) \<Rightarrow> 'a list" where
  "grid rows cols f = concat (map (\<lambda>row. map (f row) cols) rows)"

definition buildCornerVariants :: "board_coord list list" where
  "buildCornerVariants = map (\<lambda>cell. [cell]) CORNER_CELLS"

definition buildRectangle2x3Or3x2Variants :: "board_coord list list" where
  "buildRectangle2x3Or3x2Variants =
     grid [0, 1, 2, 3] [0, 1, 2]
       (\<lambda>row col. grid [row, row + 1] [col, col + 1, col + 2] Pair) @
     grid [0, 1, 2] [0, 1, 2, 3]
       (\<lambda>row col. grid [row, row + 1, row + 2] [col, col + 1] Pair)"

definition buildSmallTVariants :: "board_coord list list" where
  "buildSmallTVariants =
     grid [0, 1, 2] [0, 1, 2]
       (\<lambda>row col. [(row, col), (row, col + 1), (row, col + 2), (row + 1, col + 1), (row + 2, col + 1)]) @
     grid [2, 3, 4] [0, 1, 2]
       (\<lambda>row col. [(row, col), (row, col + 1), (row, col + 2), (row - 1, col + 1), (row - 2, col + 1)]) @
     grid [0, 1, 2] [0, 1, 2]
       (\<lambda>row col. [(row, col), (row + 1, col), (row + 2, col), (row + 1, col + 1), (row + 1, col + 2)]) @
     grid [0, 1, 2] [2, 3, 4]
       (\<lambda>row col. [(row, col), (row + 1, col), (row + 2, col), (row + 1, col - 1), (row + 1, col - 2)])"

text \<open>\<open>shape.map(([r, c]) => [r + row, c + col])\<close>\<close>

definition shift :: "int \<Rightarrow> int \<Rightarrow> board_coord list \<Rightarrow> board_coord list" where
  "shift row col cells = map (\<lambda>(r, k). (r + row, k + col)) cells"

definition buildTriangle6Variants :: "board_coord list list" where
  "buildTriangle6Variants =
   (let localShapes = [
    [(0, 0), (0, 1), (0, 2), (1, 0), (1, 1), (2, 0)],
    [(0, 0), (0, 1), (0, 2), (1, 1), (1, 2), (2, 2)],
    [(0, 0), (1, 0), (1, 1), (2, 0), (2, 1), (2, 2)],
    [(0, 2), (1, 1), (1, 2), (2, 0), (2, 1), (2, 2)]]
    in concat (grid [0, 1, 2] [0, 1, 2] (\<lambda>row col. map (shift row col) localShapes)))"

definition buildTriangle4x4Variants :: "board_coord list list" where
  "buildTriangle4x4Variants =
   (let localShapes = [
    [(0, 0), (0, 1), (0, 2), (0, 3), (1, 0), (1, 1), (1, 2), (2, 0), (2, 1), (3, 0)],
    [(0, 0), (0, 1), (0, 2), (0, 3), (1, 1), (1, 2), (1, 3), (2, 2), (2, 3), (3, 3)],
    [(0, 0), (1, 0), (1, 1), (2, 0), (2, 1), (2, 2), (3, 0), (3, 1), (3, 2), (3, 3)],
    [(0, 3), (1, 2), (1, 3), (2, 1), (2, 2), (2, 3), (3, 0), (3, 1), (3, 2), (3, 3)]]
    in concat (grid [0, 1] [0, 1] (\<lambda>row col. map (shift row col) localShapes)))"

text \<open>The cells of several lines in order, each cell once.\<close>

fun union_parts :: "board_coord list \<Rightarrow> board_coord list \<Rightarrow> board_coord list" where
  "union_parts cells [] = cells"
| "union_parts cells (rc # part) =
     (if rc \<in> set cells then union_parts cells part else union_parts (cells @ [rc]) part)"

definition buildOneAngleRowColumnDiagonalVariants :: "board_coord list list" where
  "buildOneAngleRowColumnDiagonalVariants =
     (let row = (\<lambda>r. map (\<lambda>k. (r, k)) [0, 1, 2, 3, 4]);
          col = (\<lambda>k. map (\<lambda>r. (r, k)) [0, 1, 2, 3, 4]);
          mainDiag = map (\<lambda>i. (i, i)) [0, 1, 2, 3, 4];
          antiDiag = map (\<lambda>i. (i, 4 - i)) [0, 1, 2, 3, 4];
          union = (\<lambda>parts. union_parts [] (concat parts))
      in [union [row 0, col 0, mainDiag],
          union [row 0, col 4, antiDiag],
          union [row 4, col 0, antiDiag],
          union [row 4, col 4, mainDiag]])"

definition buildSmallCrossVariants :: "board_coord list list" where
  "buildSmallCrossVariants =
     grid [1, 2, 3] [1, 2, 3]
       (\<lambda>row col. [(row - 1, col), (row, col - 1), (row, col), (row, col + 1), (row + 1, col)])"

definition RECTANGLE_2X3_OR_3X2_VARIANTS :: "board_coord list list" where
  "RECTANGLE_2X3_OR_3X2_VARIANTS = buildRectangle2x3Or3x2Variants"

definition SMALL_T_VARIANTS :: "board_coord list list" where
  "SMALL_T_VARIANTS = buildSmallTVariants"

definition TRIANGLE_6_VARIANTS :: "board_coord list list" where
  "TRIANGLE_6_VARIANTS = buildTriangle6Variants"

definition TRIANGLE_4X4_VARIANTS :: "board_coord list list" where
  "TRIANGLE_4X4_VARIANTS = buildTriangle4x4Variants"

definition CORNER_VARIANTS :: "board_coord list list" where
  "CORNER_VARIANTS = buildCornerVariants"

definition SMALL_CROSS_VARIANTS :: "board_coord list list" where
  "SMALL_CROSS_VARIANTS = buildSmallCrossVariants"

definition ONE_ANGLE_ROW_COLUMN_DIAGONAL_VARIANTS :: "board_coord list list" where
  "ONE_ANGLE_ROW_COLUMN_DIAGONAL_VARIANTS = buildOneAngleRowColumnDiagonalVariants"

section \<open>Every group lies on the board\<close>

definition on_board :: "board_coord \<Rightarrow> bool" where
  "on_board rc \<longleftrightarrow> 0 \<le> fst rc \<and> fst rc \<le> 4 \<and> 0 \<le> snd rc \<and> snd rc \<le> 4"

definition good_group :: "board_coord list \<Rightarrow> bool" where
  "good_group g \<longleftrightarrow> g \<noteq> [] \<and> list_all on_board g \<and> distinct g"

definition generated_groups :: "board_coord list list" where
  "generated_groups =
     RECTANGLE_2X3_OR_3X2_VARIANTS @ SMALL_T_VARIANTS @ TRIANGLE_6_VARIANTS @
     TRIANGLE_4X4_VARIANTS @ CORNER_VARIANTS @ SMALL_CROSS_VARIANTS @
     ONE_ANGLE_ROW_COLUMN_DIAGONAL_VARIANTS"

definition listed_groups :: "board_coord list list" where
  "listed_groups =
     BIG_L_VARIANTS @ BIG_T_VARIANTS @ BIG_H_VARIANTS @ [BIG_CROSS_CELLS, FOUR_CORNERS_CELLS] @
     RIGHT_SHAPE_VARIANTS @ BIG_N_OR_Z_VARIANTS @ BIG_M_OR_W_VARIANTS @
     HALF_HOUSE_10_DIRECTION_CELLS @ HALF_HOUSE_4_DIRECTION_CELLS"

lemma good_generated_groups: "list_all good_group generated_groups"
  by code_simp

lemma good_listed_groups: "list_all good_group listed_groups"
  by code_simp

end
