(* ===== verification/Instances.thy ===== *)
theory Instances
  imports Shapes
begin

text \<open>
  The completed pattern instances of a cartela: \<open>src/src/game-rules/combo/combo.types.ts\<close> and the
  generator of \<open>base-pattern-generator.ts\<close>. The generator pushes onto one array; here each step
  takes the array and returns it extended, in the order of the source. On a board with full
  columns its output is one fixed table of shapes, filtered by the shapes whose cells are all
  marked; that gives the soundness, completeness, growth and naming facts the rule evaluation
  rests on.
\<close>

section \<open>Data\<close>

datatype pattern_kind =
    LINE | ROW | COLUMN | DIAGONAL | LINE_TOUCHES_FREE | LINES_WITHOUT_FREE | SQUARE_2X2
  | BIG_L | BIG_T | BIG_H | BIG_CROSS | FOUR_CORNERS | RIGHT_SHAPE
  | HALF_HOUSE_10_DIRECTION | HALF_HOUSE_4_DIRECTION | RECTANGLE_2X3_OR_3X2
  | TRIANGLE_6 | TRIANGLE_4X4 | SMALL_T | SMALL_CROSS | CORNER

datatype direction_group = DIR_ROW | DIR_COLUMN | DIR_DIAGONAL

record pattern_instance =
  pi_id :: string
  pi_kind :: pattern_kind
  pi_cells :: "board_coord list"
  pi_numbers :: "int list"
  pi_touchesFree :: bool
  pi_usesDiagonal :: bool
  pi_directionGroup :: "direction_group option"

section \<open>The generator\<close>

definition cellsTouchFree :: "board_coord list \<Rightarrow> bool" where
  "cellsTouchFree cells \<longleftrightarrow>
     list_ex (\<lambda>(row, col). row = fst FREE_CENTER \<and> col = snd FREE_CENTER) cells"

definition isGroupComplete :: "js list list \<Rightarrow> board_coord list \<Rightarrow> int set \<Rightarrow> bool" where
  "isGroupComplete boardRows cells called \<longleftrightarrow>
     length cells > 0 \<and> list_all (\<lambda>rc. isMarkedCellValue (cell_at boardRows rc) called) cells"

definition createInstance ::
  "pattern_kind \<Rightarrow> string \<Rightarrow> board_coord list \<Rightarrow> js list list \<Rightarrow> direction_group option \<Rightarrow>
   pattern_instance" where
  "createInstance kind ident cells boardRows directionGroup =
     \<lparr>pi_id = ident, pi_kind = kind, pi_cells = cells,
      pi_numbers = getPatternNumbers boardRows cells,
      pi_touchesFree = cellsTouchFree cells,
      pi_usesDiagonal = (directionGroup = Some DIR_DIAGONAL),
      pi_directionGroup = directionGroup\<rparr>"

definition addCompletedRows ::
  "pattern_instance list \<Rightarrow> cartela \<Rightarrow> int set \<Rightarrow> pattern_kind \<Rightarrow> string \<Rightarrow> pattern_instance list" where
  "addCompletedRows instances c called kind idPrefix =
     (let boardRows = buildBoardRows c in
      instances @ map (\<lambda>rowNumber.
        createInstance kind (idPrefix @ ''_ROW_'' @ show_int rowNumber)
          (buildRowCells (rowNumber - 1)) boardRows (Some DIR_ROW))
        (getCompletedRowIndexes c called))"

definition addCompletedColumns ::
  "pattern_instance list \<Rightarrow> cartela \<Rightarrow> int set \<Rightarrow> pattern_kind \<Rightarrow> string \<Rightarrow> pattern_instance list" where
  "addCompletedColumns instances c called kind idPrefix =
     (let boardRows = buildBoardRows c in
      instances @ map (\<lambda>columnIndex.
        createInstance kind (idPrefix @ ''_COL_'' @ COLUMN_LABELS ! nat columnIndex)
          (buildColumnCells columnIndex) boardRows (Some DIR_COLUMN))
        (getCompletedColumnIndexes c called))"

definition addCompletedDiagonals ::
  "pattern_instance list \<Rightarrow> cartela \<Rightarrow> int set \<Rightarrow> pattern_kind \<Rightarrow> string \<Rightarrow> pattern_instance list" where
  "addCompletedDiagonals instances c called kind idPrefix =
     (let boardRows = buildBoardRows c in
      instances @ map (\<lambda>diagonalIndex.
        createInstance kind (idPrefix @ ''_DIAG_'' @ show_int diagonalIndex)
          (buildDiagonalCells (diagonalIndex - 1)) boardRows (Some DIR_DIAGONAL))
        (getCompletedDiagonalIndexes c called))"

definition addCompletedCellGroups ::
  "pattern_instance list \<Rightarrow> js list list \<Rightarrow> int set \<Rightarrow> pattern_kind \<Rightarrow> string \<Rightarrow>
   board_coord list list \<Rightarrow> pattern_instance list" where
  "addCompletedCellGroups instances boardRows called kind idPrefix groups =
     fold (\<lambda>(index, cells) acc.
        if isGroupComplete boardRows cells called then
          acc @ [createInstance kind (idPrefix @ ''_'' @ show_nat (index + 1)) cells boardRows None]
        else acc)
       (zip [0..<length groups] groups) instances"

definition square_cells :: "int \<Rightarrow> int \<Rightarrow> board_coord list" where
  "square_cells row col = [(row, col), (row, col + 1), (row + 1, col), (row + 1, col + 1)]"

definition addCompletedSquares2x2 ::
  "pattern_instance list \<Rightarrow> js list list \<Rightarrow> int set \<Rightarrow> pattern_instance list" where
  "addCompletedSquares2x2 instances boardRows called =
     fold (\<lambda>(row, col) acc.
        let cells = square_cells row col in
        if isGroupComplete boardRows cells called then
          acc @ [createInstance SQUARE_2X2
                   (''SQUARE_2X2_R'' @ show_int (row + 1) @ ''C'' @ show_int (col + 1))
                   cells boardRows None]
        else acc)
       (grid [0, 1, 2, 3] [0, 1, 2, 3] Pair) instances"

definition addLinesTouchingFree ::
  "pattern_instance list \<Rightarrow> cartela \<Rightarrow> int set \<Rightarrow> pattern_instance list" where
  "addLinesTouchingFree instances c called =
     (let boardRows = buildBoardRows c in
      instances @
      map (\<lambda>rowNumber. createInstance LINE_TOUCHES_FREE
            (''LINE_TOUCHES_FREE_ROW_'' @ show_int rowNumber)
            (buildRowCells (rowNumber - 1)) boardRows (Some DIR_ROW))
        (filter (\<lambda>rowNumber. rowNumber = fst FREE_CENTER + 1) (getCompletedRowIndexes c called)) @
      map (\<lambda>columnIndex. createInstance LINE_TOUCHES_FREE
            (''LINE_TOUCHES_FREE_COL_'' @ COLUMN_LABELS ! nat columnIndex)
            (buildColumnCells columnIndex) boardRows (Some DIR_COLUMN))
        (filter (\<lambda>columnIndex. columnIndex = snd FREE_CENTER) (getCompletedColumnIndexes c called)) @
      map (\<lambda>diagonalIndex. createInstance LINE_TOUCHES_FREE
            (''LINE_TOUCHES_FREE_DIAG_'' @ show_int diagonalIndex)
            (buildDiagonalCells (diagonalIndex - 1)) boardRows (Some DIR_DIAGONAL))
        (getCompletedDiagonalIndexes c called))"

definition addLinesWithoutFree ::
  "pattern_instance list \<Rightarrow> cartela \<Rightarrow> int set \<Rightarrow> pattern_instance list" where
  "addLinesWithoutFree instances c called =
     (let boardRows = buildBoardRows c in
      instances @
      map (\<lambda>rowNumber. createInstance LINES_WITHOUT_FREE
            (''LINES_WITHOUT_FREE_ROW_'' @ show_int rowNumber)
            (buildRowCells (rowNumber - 1)) boardRows (Some DIR_ROW))
        (filter (\<lambda>rowNumber. rowNumber \<noteq> fst FREE_CENTER + 1) (getCompletedRowIndexes c called)) @
      map (\<lambda>columnIndex. createInstance LINES_WITHOUT_FREE
            (''LINES_WITHOUT_FREE_COL_'' @ COLUMN_LABELS ! nat columnIndex)
            (buildColumnCells columnIndex) boardRows (Some DIR_COLUMN))
        (filter (\<lambda>columnIndex. columnIndex \<noteq> snd FREE_CENTER) (getCompletedColumnIndexes c called)))"

definition addSingleGroup ::
  "pattern_instance list \<Rightarrow> js list list \<Rightarrow> int set \<Rightarrow> pattern_kind \<Rightarrow> string \<Rightarrow>
   board_coord list \<Rightarrow> pattern_instance list" where
  "addSingleGroup instances boardRows called kind ident cells =
     (if isGroupComplete boardRows cells called
      then instances @ [createInstance kind ident cells boardRows None] else instances)"

definition generateCompletedPatternInstances :: "cartela \<Rightarrow> int set \<Rightarrow> pattern_instance list" where
  "generateCompletedPatternInstances c called =
     (let boardRows = buildBoardRows c;
          instances = [];
          instances = addCompletedRows instances c called ROW ''ROW'';
          instances = addCompletedColumns instances c called COLUMN ''COLUMN'';
          instances = addCompletedDiagonals instances c called DIAGONAL ''DIAGONAL'';
          instances = addCompletedRows instances c called LINE ''LINE'';
          instances = addCompletedColumns instances c called LINE ''LINE'';
          instances = addCompletedDiagonals instances c called LINE ''LINE'';
          instances = addLinesTouchingFree instances c called;
          instances = addLinesWithoutFree instances c called;
          instances = addCompletedSquares2x2 instances boardRows called;
          instances = addCompletedCellGroups instances boardRows called BIG_L ''BIG_L'' BIG_L_VARIANTS;
          instances = addCompletedCellGroups instances boardRows called BIG_T ''BIG_T'' BIG_T_VARIANTS;
          instances = addCompletedCellGroups instances boardRows called BIG_H ''BIG_H'' BIG_H_VARIANTS;
          instances = addSingleGroup instances boardRows called BIG_CROSS ''BIG_CROSS_1'' BIG_CROSS_CELLS;
          instances = addSingleGroup instances boardRows called FOUR_CORNERS ''FOUR_CORNERS_1''
                        FOUR_CORNERS_CELLS;
          instances = addCompletedCellGroups instances boardRows called RIGHT_SHAPE ''RIGHT_SHAPE''
                        RIGHT_SHAPE_VARIANTS;
          instances = addCompletedCellGroups instances boardRows called HALF_HOUSE_10_DIRECTION
                        ''HALF_HOUSE_10'' HALF_HOUSE_10_DIRECTION_CELLS;
          instances = addCompletedCellGroups instances boardRows called HALF_HOUSE_4_DIRECTION
                        ''HALF_HOUSE_4'' HALF_HOUSE_4_DIRECTION_CELLS;
          instances = addCompletedCellGroups instances boardRows called RECTANGLE_2X3_OR_3X2
                        ''RECTANGLE'' RECTANGLE_2X3_OR_3X2_VARIANTS;
          instances = addCompletedCellGroups instances boardRows called SMALL_T ''SMALL_T''
                        SMALL_T_VARIANTS;
          instances = addCompletedCellGroups instances boardRows called SMALL_CROSS ''SMALL_CROSS''
                        SMALL_CROSS_VARIANTS;
          instances = addCompletedCellGroups instances boardRows called TRIANGLE_6 ''TRIANGLE_6''
                        TRIANGLE_6_VARIANTS;
          instances = addCompletedCellGroups instances boardRows called TRIANGLE_4X4 ''TRIANGLE_4X4''
                        TRIANGLE_4X4_VARIANTS;
          instances = addCompletedCellGroups instances boardRows called CORNER ''CORNER''
                        CORNER_VARIANTS
      in instances)"

text \<open>Two patterns share a cell; one contains all the cells of the other.\<close>

definition patternCellsOverlap :: "pattern_instance \<Rightarrow> pattern_instance \<Rightarrow> bool" where
  "patternCellsOverlap left right \<longleftrightarrow>
     list_ex (\<lambda>rc. rc \<in> set (pi_cells right)) (pi_cells left)"

definition patternContainsPattern :: "pattern_instance \<Rightarrow> pattern_instance \<Rightarrow> bool" where
  "patternContainsPattern outer inner \<longleftrightarrow>
     list_all (\<lambda>rc. rc \<in> set (pi_cells outer)) (pi_cells inner)"

definition getMarkedNumbersOnBoard :: "cartela \<Rightarrow> int set \<Rightarrow> int list" where
  "getMarkedNumbersOnBoard c called =
     (let boardRows = buildBoardRows c in
      fold (\<lambda>rc acc.
        let v = cell_at boardRows rc in
        if isMarkedCellValue v called then
          (case getCellNumber v of None \<Rightarrow> acc | Some k \<Rightarrow> acc @ [k])
        else acc)
       (grid [0, 1, 2, 3, 4] [0, 1, 2, 3, 4] Pair) [])"

section \<open>The table of shapes\<close>

text \<open>
  Kind, identifier, cells and direction of everything the generator can push, in its order.
\<close>

type_synonym shape_row = "pattern_kind \<times> string \<times> board_coord list \<times> direction_group option"

definition row_shapes :: "pattern_kind \<Rightarrow> string \<Rightarrow> int list \<Rightarrow> shape_row list" where
  "row_shapes kind pre is =
     map (\<lambda>i. (kind, pre @ ''_ROW_'' @ show_int (i + 1), buildRowCells i, Some DIR_ROW)) is"

definition column_shapes :: "pattern_kind \<Rightarrow> string \<Rightarrow> int list \<Rightarrow> shape_row list" where
  "column_shapes kind pre is =
     map (\<lambda>i. (kind, pre @ ''_COL_'' @ COLUMN_LABELS ! nat i, buildColumnCells i,
               Some DIR_COLUMN)) is"

definition diagonal_shapes :: "pattern_kind \<Rightarrow> string \<Rightarrow> shape_row list" where
  "diagonal_shapes kind pre =
     map (\<lambda>i. (kind, pre @ ''_DIAG_'' @ show_int (i + 1), buildDiagonalCells i,
               Some DIR_DIAGONAL)) [0, 1]"

definition group_shapes :: "pattern_kind \<Rightarrow> string \<Rightarrow> board_coord list list \<Rightarrow> shape_row list" where
  "group_shapes kind pre groups =
     map (\<lambda>(i, g). (kind, pre @ ''_'' @ show_nat (i + 1), g, None))
       (zip [0..<length groups] groups)"

definition square_shapes :: "shape_row list" where
  "square_shapes =
     map (\<lambda>(row, col). (SQUARE_2X2,
            ''SQUARE_2X2_R'' @ show_int (row + 1) @ ''C'' @ show_int (col + 1),
            square_cells row col, None))
       (grid [0, 1, 2, 3] [0, 1, 2, 3] Pair)"

definition line_shapes :: "shape_row list" where
  "line_shapes =
     row_shapes ROW ''ROW'' [0, 1, 2, 3, 4] @ column_shapes COLUMN ''COLUMN'' [0, 1, 2, 3, 4] @
     diagonal_shapes DIAGONAL ''DIAGONAL'' @
     row_shapes LINE ''LINE'' [0, 1, 2, 3, 4] @ column_shapes LINE ''LINE'' [0, 1, 2, 3, 4] @
     diagonal_shapes LINE ''LINE'' @
     row_shapes LINE_TOUCHES_FREE ''LINE_TOUCHES_FREE'' [2] @
     column_shapes LINE_TOUCHES_FREE ''LINE_TOUCHES_FREE'' [2] @
     diagonal_shapes LINE_TOUCHES_FREE ''LINE_TOUCHES_FREE'' @
     row_shapes LINES_WITHOUT_FREE ''LINES_WITHOUT_FREE'' [0, 1, 3, 4] @
     column_shapes LINES_WITHOUT_FREE ''LINES_WITHOUT_FREE'' [0, 1, 3, 4]"

definition area_shapes :: "shape_row list" where
  "area_shapes =
     square_shapes @ group_shapes BIG_L ''BIG_L'' BIG_L_VARIANTS @
     group_shapes BIG_T ''BIG_T'' BIG_T_VARIANTS @ group_shapes BIG_H ''BIG_H'' BIG_H_VARIANTS @
     [(BIG_CROSS, ''BIG_CROSS_1'', BIG_CROSS_CELLS, None),
      (FOUR_CORNERS, ''FOUR_CORNERS_1'', FOUR_CORNERS_CELLS, None)] @
     group_shapes RIGHT_SHAPE ''RIGHT_SHAPE'' RIGHT_SHAPE_VARIANTS @
     group_shapes HALF_HOUSE_10_DIRECTION ''HALF_HOUSE_10'' HALF_HOUSE_10_DIRECTION_CELLS @
     group_shapes HALF_HOUSE_4_DIRECTION ''HALF_HOUSE_4'' HALF_HOUSE_4_DIRECTION_CELLS @
     group_shapes RECTANGLE_2X3_OR_3X2 ''RECTANGLE'' RECTANGLE_2X3_OR_3X2_VARIANTS @
     group_shapes SMALL_T ''SMALL_T'' SMALL_T_VARIANTS @
     group_shapes SMALL_CROSS ''SMALL_CROSS'' SMALL_CROSS_VARIANTS @
     group_shapes TRIANGLE_6 ''TRIANGLE_6'' TRIANGLE_6_VARIANTS @
     group_shapes TRIANGLE_4X4 ''TRIANGLE_4X4'' TRIANGLE_4X4_VARIANTS @
     group_shapes CORNER ''CORNER'' CORNER_VARIANTS"

definition instance_of :: "cartela \<Rightarrow> shape_row \<Rightarrow> pattern_instance" where
  "instance_of c = (\<lambda>(kind, ident, cells, dir). createInstance kind ident cells (buildBoardRows c) dir)"

definition shape_marked :: "cartela \<Rightarrow> int set \<Rightarrow> shape_row \<Rightarrow> bool" where
  "shape_marked c called = (\<lambda>(_, _, cells, _). list_all (cell_marked c called) cells)"

definition completed_shapes :: "cartela \<Rightarrow> int set \<Rightarrow> shape_row list \<Rightarrow> pattern_instance list" where
  "completed_shapes c called shapes = map (instance_of c) (filter (shape_marked c called) shapes)"

section \<open>The generator filters the table\<close>

lemma completed_shapes_append [simp]:
  "completed_shapes c called (xs @ ys) = completed_shapes c called xs @ completed_shapes c called ys"
  by (simp add: completed_shapes_def)

lemma completed_shapes_Cons:
  "completed_shapes c called (x # xs) =
   (if shape_marked c called x then [instance_of c x] else []) @ completed_shapes c called xs"
  by (simp add: completed_shapes_def)

lemma completed_shapes_Nil [simp]: "completed_shapes c called [] = []"
  by (simp add: completed_shapes_def)

lemma completed_shapes_map:
  "completed_shapes c called (map f xs) =
   map (\<lambda>x. instance_of c (f x)) (filter (\<lambda>x. shape_marked c called (f x)) xs)"
  by (simp add: completed_shapes_def filter_map o_def)

lemma completed_row_shapes:
  "completed_shapes c called (row_shapes kind pre is) =
   map (\<lambda>i. createInstance kind (pre @ ''_ROW_'' @ show_int (i + 1)) (buildRowCells i)
              (buildBoardRows c) (Some DIR_ROW))
     (filter (\<lambda>i. list_all (cell_marked c called) (buildRowCells i)) is)"
  by (simp add: row_shapes_def completed_shapes_map instance_of_def shape_marked_def)

lemma completed_column_shapes:
  "completed_shapes c called (column_shapes kind pre is) =
   map (\<lambda>i. createInstance kind (pre @ ''_COL_'' @ COLUMN_LABELS ! nat i) (buildColumnCells i)
              (buildBoardRows c) (Some DIR_COLUMN))
     (filter (\<lambda>i. list_all (cell_marked c called) (buildColumnCells i)) is)"
  by (simp add: column_shapes_def completed_shapes_map instance_of_def shape_marked_def)

lemma completed_diagonal_shapes:
  "completed_shapes c called (diagonal_shapes kind pre) =
   map (\<lambda>i. createInstance kind (pre @ ''_DIAG_'' @ show_int (i + 1)) (buildDiagonalCells i)
              (buildBoardRows c) (Some DIR_DIAGONAL))
     (filter (\<lambda>i. list_all (cell_marked c called) (buildDiagonalCells i)) [0, 1])"
  unfolding diagonal_shapes_def completed_shapes_map instance_of_def shape_marked_def by simp

lemma map_shift_index: "map f (map (\<lambda>i. i + 1) xs) = map (\<lambda>i. f (i + 1)) xs" for xs :: "int list"
  by simp

lemma addCompletedRows_eq:
  "addCompletedRows instances c called kind pre =
   instances @ completed_shapes c called (row_shapes kind pre [0, 1, 2, 3, 4])"
  unfolding addCompletedRows_def Let_def getCompletedRowIndexes_eq completed_row_shapes
    map_shift_index add_diff_cancel_right' by (rule refl)

lemma addCompletedColumns_eq:
  "full_board c \<Longrightarrow> addCompletedColumns instances c called kind pre =
   instances @ completed_shapes c called (column_shapes kind pre [0, 1, 2, 3, 4])"
  by (simp only: addCompletedColumns_def Let_def getCompletedColumnIndexes_eq completed_column_shapes)

lemma addCompletedDiagonals_eq:
  "addCompletedDiagonals instances c called kind pre =
   instances @ completed_shapes c called (diagonal_shapes kind pre)"
  unfolding addCompletedDiagonals_def Let_def getCompletedDiagonalIndexes_eq
    completed_diagonal_shapes map_shift_index add_diff_cancel_right' by (rule refl)

text \<open>Lines through the centre, and the others, among the five rows or columns.\<close>

lemma filter_centre:
  "filter (\<lambda>i. i = 2) (filter P [0, 1, 2, 3, 4 :: int]) = filter P [2]"
  "filter (\<lambda>i. i \<noteq> 2) (filter P [0, 1, 2, 3, 4 :: int]) = filter P [0, 1, 3, 4]"
  by simp_all

lemma filter_centre_shift:
  "filter (\<lambda>i. i = 2 + 1) (map (\<lambda>i. i + 1) xs) = map (\<lambda>i. i + 1) (filter (\<lambda>i. i = 2) xs)"
  "filter (\<lambda>i. i \<noteq> 2 + 1) (map (\<lambda>i. i + 1) xs) = map (\<lambda>i. i + 1) (filter (\<lambda>i. i \<noteq> 2) xs)"
  for xs :: "int list"
  by (induction xs) simp_all

lemma addLinesTouchingFree_eq:
  assumes "full_board c"
  shows "addLinesTouchingFree instances c called =
    instances @ completed_shapes c called
      (row_shapes LINE_TOUCHES_FREE ''LINE_TOUCHES_FREE'' [2] @
       column_shapes LINE_TOUCHES_FREE ''LINE_TOUCHES_FREE'' [2] @
       diagonal_shapes LINE_TOUCHES_FREE ''LINE_TOUCHES_FREE'')"
  unfolding addLinesTouchingFree_def Let_def FREE_CENTER_def fst_conv snd_conv
    getCompletedRowIndexes_eq getCompletedColumnIndexes_eq [OF assms]
    getCompletedDiagonalIndexes_eq filter_centre_shift filter_centre map_shift_index
    add_diff_cancel_right' completed_shapes_append completed_row_shapes completed_column_shapes
    completed_diagonal_shapes append_assoc
  by simp

lemma addLinesWithoutFree_eq:
  assumes "full_board c"
  shows "addLinesWithoutFree instances c called =
    instances @ completed_shapes c called
      (row_shapes LINES_WITHOUT_FREE ''LINES_WITHOUT_FREE'' [0, 1, 3, 4] @
       column_shapes LINES_WITHOUT_FREE ''LINES_WITHOUT_FREE'' [0, 1, 3, 4])"
  unfolding addLinesWithoutFree_def Let_def FREE_CENTER_def fst_conv snd_conv
    getCompletedRowIndexes_eq getCompletedColumnIndexes_eq [OF assms] filter_centre_shift
    filter_centre map_shift_index add_diff_cancel_right' completed_shapes_append
    completed_row_shapes completed_column_shapes append_assoc
  by simp

lemma fold_push:
  "fold (\<lambda>x acc. if P x then acc @ [f x] else acc) xs acc = acc @ map f (filter P xs)"
  by (induction xs arbitrary: acc) auto

lemma addCompletedCellGroups_eq:
  assumes "list_all good_group groups"
  shows "addCompletedCellGroups instances (buildBoardRows c) called kind pre groups =
    instances @ completed_shapes c called (group_shapes kind pre groups)"
proof -
  have complete: "isGroupComplete (buildBoardRows c) g called =
      list_all (\<lambda>rc. cell_marked c called rc) g" if "g \<in> set groups" for g
    using assms that by (auto simp: isGroupComplete_def good_group_def list_all_iff)
  have "filter (\<lambda>x. isGroupComplete (buildBoardRows c) (snd x) called) (zip [0..<length groups] groups)
      = filter (\<lambda>x. list_all (cell_marked c called) (snd x)) (zip [0..<length groups] groups)"
    by (rule filter_cong) (auto dest: set_zip_rightD simp: complete)
  then show ?thesis
    by (simp add: addCompletedCellGroups_def group_shapes_def completed_shapes_map instance_of_def
        shape_marked_def case_prod_unfold fold_push)
qed

lemma addCompletedSquares2x2_eq:
  "addCompletedSquares2x2 instances (buildBoardRows c) called =
   instances @ completed_shapes c called square_shapes"
  by (simp add: addCompletedSquares2x2_def square_shapes_def completed_shapes_map instance_of_def
      shape_marked_def case_prod_unfold fold_push Let_def isGroupComplete_def square_cells_def)

lemma addSingleGroup_eq:
  "good_group cells \<Longrightarrow>
   addSingleGroup instances (buildBoardRows c) called kind ident cells =
   instances @ completed_shapes c called [(kind, ident, cells, None)]"
  by (simp add: addSingleGroup_def completed_shapes_def instance_of_def shape_marked_def
      isGroupComplete_def good_group_def)

lemma good_group_lists:
  "list_all good_group BIG_L_VARIANTS" "list_all good_group BIG_T_VARIANTS"
  "list_all good_group BIG_H_VARIANTS" "good_group BIG_CROSS_CELLS" "good_group FOUR_CORNERS_CELLS"
  "list_all good_group RIGHT_SHAPE_VARIANTS" "list_all good_group HALF_HOUSE_10_DIRECTION_CELLS"
  "list_all good_group HALF_HOUSE_4_DIRECTION_CELLS"
  "list_all good_group RECTANGLE_2X3_OR_3X2_VARIANTS" "list_all good_group SMALL_T_VARIANTS"
  "list_all good_group TRIANGLE_6_VARIANTS" "list_all good_group TRIANGLE_4X4_VARIANTS"
  "list_all good_group CORNER_VARIANTS" "list_all good_group SMALL_CROSS_VARIANTS"
  using good_listed_groups good_generated_groups
  by (simp_all add: listed_groups_def generated_groups_def)

lemma generate_eq_table:
  assumes "full_board c"
  shows "generateCompletedPatternInstances c called =
    completed_shapes c called (line_shapes @ area_shapes)"
  by (simp add: generateCompletedPatternInstances_def Let_def addCompletedRows_eq
      addCompletedColumns_eq [OF assms] addCompletedDiagonals_eq addLinesTouchingFree_eq [OF assms]
      addLinesWithoutFree_eq [OF assms] addCompletedCellGroups_eq addCompletedSquares2x2_eq
      addSingleGroup_eq good_group_lists line_shapes_def area_shapes_def completed_shapes_Cons)

section \<open>Identifiers\<close>

definition numerals :: "nat \<Rightarrow> string list" where
  "numerals k = map (\<lambda>i. show_nat (i + 1)) [0..<k]"

definition id_groups :: "(string \<times> string list) list" where
  "id_groups =
    [(''ROW_ROW_'', numerals 5), (''COLUMN_COL_'', COLUMN_LABELS), (''DIAGONAL_DIAG_'', numerals 2),
     (''LINE_ROW_'', numerals 5), (''LINE_COL_'', COLUMN_LABELS), (''LINE_DIAG_'', numerals 2),
     (''LINE_TOUCHES_FREE_ROW_'', [''3'']), (''LINE_TOUCHES_FREE_COL_'', [''N'']),
     (''LINE_TOUCHES_FREE_DIAG_'', numerals 2),
     (''LINES_WITHOUT_FREE_ROW_'', [''1'', ''2'', ''4'', ''5'']),
     (''LINES_WITHOUT_FREE_COL_'', [''B'', ''I'', ''G'', ''O'']),
     (''SQUARE_2X2_R'', grid [1, 2, 3, 4] [1, 2, 3, 4] (\<lambda>r k. show_int r @ ''C'' @ show_int k)),
     (''BIG_L_'', numerals 4), (''BIG_T_'', numerals 4), (''BIG_H_'', numerals 2),
     (''BIG_CROSS_'', numerals 1), (''FOUR_CORNERS_'', numerals 1), (''RIGHT_SHAPE_'', numerals 4),
     (''HALF_HOUSE_10_'', numerals 10), (''HALF_HOUSE_4_'', numerals 4),
     (''RECTANGLE_'', numerals 24), (''SMALL_T_'', numerals 36), (''SMALL_CROSS_'', numerals 9),
     (''TRIANGLE_6_'', numerals 36), (''TRIANGLE_4X4_'', numerals 16), (''CORNER_'', numerals 4)]"

lemma table_ids:
  "map (\<lambda>s. fst (snd s)) (line_shapes @ area_shapes) =
   concat (map (\<lambda>(p, ss). map ((@) p) ss) id_groups)"
  by code_simp

lemma distinct_prefixed:
  assumes "sorted_wrt (\<lambda>p q. \<not> prefix p q \<and> \<not> prefix q p) (map fst gs)"
    and "list_all (\<lambda>g. distinct (snd g)) gs"
  shows "distinct (concat (map (\<lambda>(p, ss). map ((@) p) ss) gs))"
  using assms
proof (induction gs)
  case (Cons g gs)
  obtain p ss where g: "g = (p, ss)" by (cases g)
  have "p @ s \<noteq> q @ t" if "(q, ts) \<in> set gs" for q ts s t
  proof
    assume "p @ s = q @ t"
    then have "prefix p (q @ t)" "prefix q (q @ t)" by (metis prefixI)+
    then have "prefix p q \<or> prefix q p" by (rule prefix_same_cases)
    with that Cons.prems(1) show False by (force simp: g)
  qed
  then have "set (map ((@) p) ss) \<inter> set (concat (map (\<lambda>(p, ss). map ((@) p) ss) gs)) = {}"
    by auto
  with Cons show ?case
    by (simp add: g distinct_map inj_on_def)
qed simp

lemma distinct_table_ids: "distinct (map (\<lambda>s. fst (snd s)) (line_shapes @ area_shapes))"
  unfolding table_ids by (rule distinct_prefixed) code_simp+

section \<open>Every instance\<close>

lemma cellsTouchFree_iff: "cellsTouchFree cells \<longleftrightarrow> FREE_CENTER \<in> set cells"
  by (force simp: cellsTouchFree_def list_ex_iff FREE_CENTER_def)

lemma pi_instance_of [simp]:
  "pi_id (instance_of c s) = fst (snd s)" "pi_kind (instance_of c s) = fst s"
  "pi_cells (instance_of c s) = fst (snd (snd s))"
  by (simp_all add: instance_of_def createInstance_def case_prod_unfold)

lemma distinct_generated_ids:
  assumes "full_board c"
  shows "distinct (map pi_id (generateCompletedPatternInstances c called))"
proof -
  have "subseq (map pi_id (completed_shapes c called xs)) (map (\<lambda>s. fst (snd s)) xs)" for xs
    unfolding completed_shapes_def map_map
    by (induction xs) auto
  then show ?thesis
    unfolding generate_eq_table [OF assms] by (rule subseq_distinct [OF _ distinct_table_ids])
qed

lemma generated_instance_marked:
  assumes "full_board c" "p \<in> set (generateCompletedPatternInstances c called)"
  shows "list_all (cell_marked c called) (pi_cells p)"
    and "pi_numbers p = getPatternNumbers (buildBoardRows c) (pi_cells p)"
    and "pi_touchesFree p = (FREE_CENTER \<in> set (pi_cells p))"
  using assms
  by (auto simp: generate_eq_table completed_shapes_def shape_marked_def instance_of_def
      createInstance_def cellsTouchFree_iff)

lemma generate_mono:
  assumes "full_board c" "called \<subseteq> called'"
  shows "subseq (generateCompletedPatternInstances c called)
    (generateCompletedPatternInstances c called')"
proof -
  have "shape_marked c called s \<Longrightarrow> shape_marked c called' s" for s
    using assms(2)
    by (auto simp: shape_marked_def case_prod_unfold list_all_iff intro: isMarkedCellValue_mono)
  then show ?thesis
    unfolding generate_eq_table [OF assms(1)] completed_shapes_def
    by (intro subseq_map subseq_filter_filter)
qed

lemma patternCellsOverlap_iff:
  "patternCellsOverlap p q \<longleftrightarrow> set (pi_cells p) \<inter> set (pi_cells q) \<noteq> {}"
  by (auto simp: patternCellsOverlap_def list_ex_iff)

lemma patternContainsPattern_iff:
  "patternContainsPattern p q \<longleftrightarrow> set (pi_cells q) \<subseteq> set (pi_cells p)"
  by (auto simp: patternContainsPattern_def list_all_iff)

lemma patternCellsOverlap_commute: "patternCellsOverlap p q = patternCellsOverlap q p"
  by (auto simp: patternCellsOverlap_iff)

end
