(* ===== verification/ComboSolver.thy ===== *)
theory ComboSolver
  imports Instances
begin

text \<open>
  The combination solver: \<open>src/src/game-rules/combo/combo-solver.ts\<close>. A combo rule asks for a
  number of patterns of given kinds; the solver enumerates the selections from the completed
  patterns by backtracking, in three overlap modes, and a second, shorter test decides whether
  any selection exists.

  The backtracking functions take the pools still to serve and the patterns selected so far; the
  mixed mode also threads the map from a selected pattern's identifier to the requirement it was
  selected for, which the source updates and clears in place.
\<close>

section \<open>Data\<close>

datatype overlap_mode = ALLOW | DISALLOW | MIXED

record pattern_constraints =
  cs_touchesFree :: "bool option"
  cs_allowDiagonal :: "bool option"
  cs_parallelOnly :: "bool option"

record combo_requirement =
  rq_kind :: pattern_kind
  rq_count :: int
  rq_group :: "string option"
  rq_mustNotOverlapGroups :: "string list option"
  rq_mustNotBeContainedInGroups :: "string list option"
  rq_constraints :: "pattern_constraints option"

record combo_pattern =
  cb_overlap :: overlap_mode
  cb_requires :: "combo_requirement list"

record combo_solve_result =
  sr_isWinner :: bool
  sr_selectedPatterns :: "pattern_instance list"

record requirement_pool =
  rp_requirement :: combo_requirement
  rp_candidates :: "pattern_instance list"

section \<open>Candidates\<close>

definition matchesConstraints :: "pattern_instance \<Rightarrow> pattern_constraints option \<Rightarrow> bool" where
  "matchesConstraints inst constraints =
     (case constraints of
        None \<Rightarrow> True
      | Some cs \<Rightarrow>
          if cs_touchesFree cs \<noteq> None \<and> Some (pi_touchesFree inst) \<noteq> cs_touchesFree cs then False
          else if cs_allowDiagonal cs = Some False \<and> pi_usesDiagonal inst then False
          else True)"

definition filterCandidates :: "pattern_instance list \<Rightarrow> combo_requirement \<Rightarrow> pattern_instance list" where
  "filterCandidates instances requirement =
     filter (\<lambda>inst. pi_kind inst = rq_kind requirement \<and>
                    matchesConstraints inst (rq_constraints requirement)) instances"

definition buildRequirementPools :: "combo_pattern \<Rightarrow> pattern_instance list \<Rightarrow> requirement_pool list" where
  "buildRequirementPools combo instances =
     map (\<lambda>requirement. \<lparr>rp_requirement = requirement,
                         rp_candidates = filterCandidates instances requirement\<rparr>)
       (cb_requires combo)"

definition hasParallelOnly :: "combo_pattern \<Rightarrow> bool" where
  "hasParallelOnly combo \<longleftrightarrow>
     list_ex (\<lambda>requirement. case rq_constraints requirement of
                None \<Rightarrow> False | Some cs \<Rightarrow> cs_parallelOnly cs = Some True) (cb_requires combo)"

definition getRelevantCompletedPatterns ::
  "combo_pattern \<Rightarrow> pattern_instance list \<Rightarrow> pattern_instance list" where
  "getRelevantCompletedPatterns combo instances =
     snd (fold (\<lambda>requirement st.
            fold (\<lambda>pattern (seen, relevantPatterns).
                    if pi_id pattern \<in> seen then (seen, relevantPatterns)
                    else (insert (pi_id pattern) seen, relevantPatterns @ [pattern]))
              (filterCandidates instances requirement) st)
          (cb_requires combo) ({}, []))"

definition isLatestNumberInAnyCompletedRelevantPattern ::
  "combo_pattern \<Rightarrow> pattern_instance list \<Rightarrow> int \<Rightarrow> bool" where
  "isLatestNumberInAnyCompletedRelevantPattern combo instances latestCalledNumber \<longleftrightarrow>
     list_ex (\<lambda>pattern. latestCalledNumber \<in> set (pi_numbers pattern))
       (getRelevantCompletedPatterns combo instances)"

section \<open>Backtracking\<close>

fun patternsAreDisjoint :: "pattern_instance list \<Rightarrow> bool" where
  "patternsAreDisjoint [] = True"
| "patternsAreDisjoint (left # rest) =
     (if list_ex (\<lambda>right. patternCellsOverlap left right) rest then False
      else patternsAreDisjoint rest)"

text \<open>\<open>backtrack(start, current)\<close>: \<open>rest\<close> is the suffix of the candidates from \<open>start\<close>.\<close>

fun combinations_bt :: "'a list \<Rightarrow> int \<Rightarrow> 'a list \<Rightarrow> 'a list list"
  and combinations_loop :: "'a list \<Rightarrow> int \<Rightarrow> 'a list \<Rightarrow> 'a list list" where
  "combinations_bt rest count current =
     (if int (length current) = count then [current] else combinations_loop rest count current)"
| "combinations_loop [] count current = []"
| "combinations_loop (candidate # rest) count current =
     combinations_bt rest count (current @ [candidate]) @ combinations_loop rest count current"

definition chooseCombinations :: "'a list \<Rightarrow> int \<Rightarrow> 'a list list" where
  "chooseCombinations candidates count = combinations_bt candidates count []"

fun allow_bt :: "requirement_pool list \<Rightarrow> pattern_instance list \<Rightarrow> pattern_instance list list" where
  "allow_bt [] current = [current]"
| "allow_bt (p # pool) current =
     (if int (length (rp_candidates p)) < rq_count (rp_requirement p) then []
      else concat (map (\<lambda>combination. allow_bt pool (current @ combination))
             (chooseCombinations (rp_candidates p) (rq_count (rp_requirement p)))))"

definition selectAllFromPoolAllow :: "requirement_pool list \<Rightarrow> pattern_instance list list" where
  "selectAllFromPoolAllow pool = allow_bt pool []"

fun disallow_bt :: "requirement_pool list \<Rightarrow> pattern_instance list \<Rightarrow> pattern_instance list list" where
  "disallow_bt [] selected = [selected]"
| "disallow_bt (p # pool) selected =
     (if int (length (rp_candidates p)) < rq_count (rp_requirement p) then []
      else concat (map (\<lambda>combination.
               if \<not> patternsAreDisjoint (selected @ combination) then []
               else disallow_bt pool (selected @ combination))
             (chooseCombinations (rp_candidates p) (rq_count (rp_requirement p)))))"

definition selectAllFromPoolDisallow :: "requirement_pool list \<Rightarrow> pattern_instance list list" where
  "selectAllFromPoolDisallow pool = disallow_bt pool []"

text \<open>\<open>existingRequirement?.group\<close> is missing or empty, or not one of the blocked groups.\<close>

definition in_blocked_group :: "string set \<Rightarrow> combo_requirement option \<Rightarrow> bool" where
  "in_blocked_group blockedGroups existingRequirement \<longleftrightarrow>
     (case existingRequirement of
        None \<Rightarrow> False
      | Some r \<Rightarrow>
          (case rq_group r of
             None \<Rightarrow> False
           | Some g \<Rightarrow> g \<noteq> [] \<and> g \<in> blockedGroups))"

definition groups_or_empty :: "string list option \<Rightarrow> string set" where
  "groups_or_empty gs = (case gs of None \<Rightarrow> {} | Some xs \<Rightarrow> set xs)"

type_synonym requirement_map = "string \<Rightarrow> combo_requirement option"

definition violatesMixedOverlap ::
  "pattern_instance list \<Rightarrow> requirement_map \<Rightarrow> pattern_instance \<Rightarrow> combo_requirement \<Rightarrow> bool" where
  "violatesMixedOverlap selected byId pattern requirement =
     (let blockedGroups = groups_or_empty (rq_mustNotOverlapGroups requirement) in
      if blockedGroups = {} then False
      else list_ex (\<lambda>existing.
             if \<not> in_blocked_group blockedGroups (byId (pi_id existing)) then False
             else patternCellsOverlap existing pattern) selected)"

definition violatesContainment ::
  "pattern_instance list \<Rightarrow> requirement_map \<Rightarrow> pattern_instance \<Rightarrow> combo_requirement \<Rightarrow> bool" where
  "violatesContainment selected byId pattern requirement =
     (let blockedGroups = groups_or_empty (rq_mustNotBeContainedInGroups requirement) in
      if blockedGroups = {} then False
      else list_ex (\<lambda>existing.
             if \<not> in_blocked_group blockedGroups (byId (pi_id existing)) then False
             else patternContainsPattern existing pattern) selected)"

definition set_requirements ::
  "pattern_instance list \<Rightarrow> combo_requirement \<Rightarrow> requirement_map \<Rightarrow> requirement_map" where
  "set_requirements combination requirement byId =
     fold (\<lambda>pattern m. m(pi_id pattern := Some requirement)) combination byId"

definition delete_requirements :: "pattern_instance list \<Rightarrow> requirement_map \<Rightarrow> requirement_map" where
  "delete_requirements combination byId =
     fold (\<lambda>pattern m. m(pi_id pattern := None)) combination byId"

text \<open>Returns what the call pushes onto the results, and the map as the call leaves it.\<close>

fun mixed_bt ::
  "requirement_pool list \<Rightarrow> pattern_instance list \<Rightarrow> requirement_map \<Rightarrow>
   pattern_instance list list \<times> requirement_map" where
  "mixed_bt [] selected byId = ([selected], byId)"
| "mixed_bt (p # pool) selected byId =
     (let requirement = rp_requirement p; candidates = rp_candidates p in
      if int (length candidates) < rq_count requirement then ([], byId)
      else fold (\<lambda>combination (results, byId).
               if list_ex (\<lambda>pattern. violatesMixedOverlap selected byId pattern requirement \<or>
                                     violatesContainment selected byId pattern requirement)
                    combination
               then (results, byId)
               else let below = mixed_bt pool (selected @ combination)
                                  (set_requirements combination requirement byId)
                    in (results @ fst below, delete_requirements combination (snd below)))
             (chooseCombinations candidates (rq_count requirement)) ([], byId))"

definition selectAllFromPoolMixed :: "requirement_pool list \<Rightarrow> pattern_instance list list" where
  "selectAllFromPoolMixed pool = fst (mixed_bt pool [] (\<lambda>_. None))"

definition selectAllForOverlap ::
  "combo_pattern \<Rightarrow> requirement_pool list \<Rightarrow> pattern_instance list list" where
  "selectAllForOverlap combo pool =
     (case cb_overlap combo of
        ALLOW \<Rightarrow> selectAllFromPoolAllow pool
      | DISALLOW \<Rightarrow> selectAllFromPoolDisallow pool
      | MIXED \<Rightarrow> selectAllFromPoolMixed pool)"

section \<open>Solving\<close>

definition parallel_instances ::
  "direction_group \<Rightarrow> pattern_instance list \<Rightarrow> pattern_instance list" where
  "parallel_instances directionGroup instances =
     filter (\<lambda>inst.
        if pi_kind inst \<noteq> LINE then True
        else if pi_directionGroup inst = Some DIR_DIAGONAL then False
        else pi_directionGroup inst = Some directionGroup) instances"

definition findAllWithParallelLineConstraint ::
  "combo_pattern \<Rightarrow> pattern_instance list \<Rightarrow> pattern_instance list list" where
  "findAllWithParallelLineConstraint combo instances =
     fold (\<lambda>directionGroup results.
        let filteredInstances = parallel_instances directionGroup instances;
            pool = buildRequirementPools combo filteredInstances
        in results @ selectAllForOverlap combo pool) [DIR_ROW, DIR_COLUMN] []"

definition findAllWinningCombinations ::
  "combo_pattern \<Rightarrow> pattern_instance list \<Rightarrow> pattern_instance list list" where
  "findAllWinningCombinations combo instances =
     (if hasParallelOnly combo then findAllWithParallelLineConstraint combo instances
      else selectAllForOverlap combo (buildRequirementPools combo instances))"

definition pickPreferredCombination ::
  "pattern_instance list list \<Rightarrow> int option \<Rightarrow> pattern_instance list option" where
  "pickPreferredCombination combinations preferLatestCalledNumber =
     (case combinations of
        [] \<Rightarrow> None
      | first # _ \<Rightarrow>
          (case preferLatestCalledNumber of
             None \<Rightarrow> Some first
           | Some k \<Rightarrow>
               (case find (\<lambda>combination.
                        list_ex (\<lambda>pattern. k \<in> set (pi_numbers pattern)) combination) combinations of
                  Some withLatest \<Rightarrow> Some withLatest
                | None \<Rightarrow> Some first)))"

definition solveCombo ::
  "combo_pattern \<Rightarrow> pattern_instance list \<Rightarrow> int option \<Rightarrow> combo_solve_result" where
  "solveCombo combo instances preferLatestCalledNumber =
     (let combinations = findAllWinningCombinations combo instances in
      case pickPreferredCombination combinations preferLatestCalledNumber of
        None \<Rightarrow> \<lparr>sr_isWinner = False, sr_selectedPatterns = []\<rparr>
      | Some selectedPatterns \<Rightarrow> \<lparr>sr_isWinner = True, sr_selectedPatterns = selectedPatterns\<rparr>)"

definition solveComboWithParallelLineConstraint ::
  "combo_pattern \<Rightarrow> pattern_instance list \<Rightarrow> combo_solve_result" where
  "solveComboWithParallelLineConstraint combo instances =
     (case findAllWithParallelLineConstraint combo instances of
        [] \<Rightarrow> \<lparr>sr_isWinner = False, sr_selectedPatterns = []\<rparr>
      | selectedPatterns # _ \<Rightarrow> \<lparr>sr_isWinner = True, sr_selectedPatterns = selectedPatterns\<rparr>)"

definition isMinimumRuleSatisfied :: "combo_pattern \<Rightarrow> pattern_instance list \<Rightarrow> bool" where
  "isMinimumRuleSatisfied combo instances =
     (if hasParallelOnly combo then length (findAllWithParallelLineConstraint combo instances) > 0
      else if cb_overlap combo = ALLOW then
        list_all (\<lambda>p. int (length (rp_candidates p)) \<ge> rq_count (rp_requirement p))
          (buildRequirementPools combo instances)
      else sr_isWinner (solveCombo combo instances None))"

definition computeComboProgress :: "combo_pattern \<Rightarrow> pattern_instance list \<Rightarrow> rat" where
  "computeComboProgress combo instances =
     (if length instances = 0 then 0
      else
        let pool = buildRequirementPools combo instances;
            ratios = map (\<lambda>p. min (of_nat (length (rp_candidates p)) /
                                     of_int (rq_count (rp_requirement p))) 1) pool
        in if length ratios = 0 then 0 else sum_list ratios / of_nat (length ratios))"

definition isCombinationNewlyCompletedByLatestNumber ::
  "pattern_instance list \<Rightarrow> int \<Rightarrow> string set \<Rightarrow> bool" where
  "isCombinationNewlyCompletedByLatestNumber combination latestCalledNumber beforeIds =
     (let patternsWithLatest =
            filter (\<lambda>pattern. latestCalledNumber \<in> set (pi_numbers pattern)) combination in
      if length patternsWithLatest = 0 then False
      else if list_all (\<lambda>pattern. pi_id pattern \<in> beforeIds) combination then False
      else list_ex (\<lambda>pattern. pi_id pattern \<notin> beforeIds) patternsWithLatest)"

end
