(* ===== verification/Selections.thy ===== *)
theory Selections
  imports ComboSolver
begin

text \<open>
  What the backtracking of \<open>combo-solver.ts\<close> computes. A legal selection takes, requirement by
  requirement, a sub-list of the candidates of the requested length that a guard admits given
  what is already selected. The locale \<open>selection_search\<close> is the interface of a search: two
  equations and an invariant; inside it the search is shown to enumerate exactly the legal
  selections, and to keep finding one when candidates are added. The three overlap modes of the
  source interpret it.
\<close>

section \<open>Combinations are the sub-lists of the requested length\<close>

lemma subseq_Cons_right:
  "subseq zs (x # rest) \<longleftrightarrow> subseq zs rest \<or> (\<exists>ws. zs = x # ws \<and> subseq ws rest)"
  by (cases zs) (auto simp: subseq_Cons2_iff split: if_splits dest: subseq_Cons')

lemma combinations_bt_iff:
  "ys \<in> set (combinations_bt rest count current) \<longleftrightarrow>
     (\<exists>zs. subseq zs rest \<and> ys = current @ zs \<and> int (length ys) = count)"
  if "int (length current) \<le> count"
  using that
proof (induction rest arbitrary: current)
  case Nil
  then show ?case by auto
next
  case (Cons x rest)
  show ?case
  proof (cases "int (length current) = count")
    case True
    then show ?thesis by auto
  next
    case False
    have loop: "ys \<in> set (combinations_loop rest count current) \<longleftrightarrow>
        (\<exists>zs. subseq zs rest \<and> ys = current @ zs \<and> int (length ys) = count)"
      using Cons.IH [of current] Cons.prems False by simp
    have here: "ys \<in> set (combinations_bt rest count (current @ [x])) \<longleftrightarrow>
        (\<exists>zs. subseq zs rest \<and> ys = (current @ [x]) @ zs \<and> int (length ys) = count)"
      using Cons.IH [of "current @ [x]"] Cons.prems False by simp
    have "ys \<in> set (combinations_bt (x # rest) count current) \<longleftrightarrow>
        (\<exists>zs. subseq zs rest \<and> ys = current @ x # zs \<and> int (length ys) = count) \<or>
        (\<exists>zs. subseq zs rest \<and> ys = current @ zs \<and> int (length ys) = count)"
      using False here loop by simp
    also have "\<dots> \<longleftrightarrow>
        (\<exists>zs. subseq zs (x # rest) \<and> ys = current @ zs \<and> int (length ys) = count)"
      unfolding subseq_Cons_right by blast
    finally show ?thesis .
  qed
qed

lemma combinations_negative:
  "count < 0 \<Longrightarrow> combinations_loop rest count current = []"
  by (induction rest arbitrary: current) auto

lemma set_chooseCombinations [simp]:
  "set (chooseCombinations candidates count) =
   {ys. subseq ys candidates \<and> int (length ys) = count}"
proof (cases "count < 0")
  case True
  then show ?thesis by (simp add: chooseCombinations_def combinations_negative)
next
  case False
  then show ?thesis
    by (auto simp: chooseCombinations_def combinations_bt_iff simp del: combinations_bt.simps)
qed

lemma length_combinations_bt:
  "int (length current) \<le> count \<Longrightarrow>
   length (combinations_bt rest count current) = length rest choose nat (count - int (length current))"
proof (induction rest arbitrary: current)
  case Nil
  then show ?case by auto
next
  case (Cons x rest)
  show ?case
  proof (cases "int (length current) = count")
    case False
    obtain d where d: "nat (count - int (length current)) = Suc d"
      using Cons.prems False by (cases "nat (count - int (length current))") auto
    have d': "nat (count - int (length (current @ [x]))) = d"
      using d by simp
    have loop: "length (combinations_loop rest count current) = length rest choose Suc d"
      using Cons.IH [of current] Cons.prems False d by simp
    have here: "length (combinations_bt rest count (current @ [x])) = length rest choose d"
      using Cons.IH [of "current @ [x]"] Cons.prems False d' by simp
    show ?thesis using False loop here d by simp
  qed simp
qed

section \<open>Legal selections\<close>

type_synonym tagged = "combo_requirement \<times> pattern_instance"
type_synonym guard = "combo_requirement \<Rightarrow> tagged list \<Rightarrow> pattern_instance list \<Rightarrow> bool"

definition choices :: "requirement_pool \<Rightarrow> pattern_instance list list" where
  "choices p =
     (if int (length (rp_candidates p)) < rq_count (rp_requirement p) then []
      else chooseCombinations (rp_candidates p) (rq_count (rp_requirement p)))"

abbreviation tag :: "combo_requirement \<Rightarrow> pattern_instance list \<Rightarrow> tagged list" where
  "tag r ps \<equiv> map (Pair r) ps"

fun legal :: "guard \<Rightarrow> requirement_pool list \<Rightarrow> tagged list \<Rightarrow> pattern_instance list list \<Rightarrow> bool" where
  "legal guard [] sel [] = True"
| "legal guard (p # ps) sel (c # cs) =
     (c \<in> set (choices p) \<and> guard (rp_requirement p) sel c \<and>
      legal guard ps (sel @ tag (rp_requirement p) c) cs)"
| "legal guard _ _ _ = False"

definition pool_grows :: "requirement_pool \<Rightarrow> requirement_pool \<Rightarrow> bool" where
  "pool_grows p q \<longleftrightarrow>
     rp_requirement p = rp_requirement q \<and> subseq (rp_candidates p) (rp_candidates q)"

lemma set_choices:
  "set (choices p) =
   {c. subseq c (rp_candidates p) \<and> int (length c) = rq_count (rp_requirement p)}"
  by (auto simp: choices_def dest: list_emb_length)

lemma choices_mono: "pool_grows p q \<Longrightarrow> set (choices p) \<subseteq> set (choices q)"
  by (auto simp: pool_grows_def set_choices intro: subseq_order.trans)

lemma legal_mono:
  "legal guard ps sel cs \<Longrightarrow> list_all2 pool_grows ps qs \<Longrightarrow> legal guard qs sel cs"
proof (induction guard ps sel cs arbitrary: qs rule: legal.induct)
  case (2 guard p ps sel c cs)
  from 2(3) obtain q qs' where qs: "qs = q # qs'" "pool_grows p q" "list_all2 pool_grows ps qs'"
    by (auto simp: list_all2_Cons1)
  have "rp_requirement q = rp_requirement p" using qs(2) by (simp add: pool_grows_def)
  then show ?case
    using 2(1) [OF _ qs(3)] 2(2) choices_mono [OF qs(2)] by (auto simp: qs(1))
qed auto

lemma legal_lengths:
  "legal guard ps sel cs \<Longrightarrow> list_all2 (\<lambda>p c. c \<in> set (choices p)) ps cs"
  by (induction guard ps sel cs rule: legal.induct) auto

lemma legal_always:
  "(\<And>r sel c. guard r sel c) \<Longrightarrow>
   legal guard ps sel cs \<longleftrightarrow> list_all2 (\<lambda>p c. c \<in> set (choices p)) ps cs"
  by (induction guard ps sel cs rule: legal.induct) auto

section \<open>The interface of a search\<close>

locale selection_search =
  fixes search :: "requirement_pool list \<Rightarrow> tagged list \<Rightarrow> pattern_instance list list"
    and guard :: guard
    and admissible :: "requirement_pool list \<Rightarrow> tagged list \<Rightarrow> bool"
  assumes search_Nil: "search [] sel = [map snd sel]"
    and search_Cons: "admissible (p # ps) sel \<Longrightarrow>
      search (p # ps) sel =
      concat (map (\<lambda>c. if guard (rp_requirement p) sel c
                       then search ps (sel @ tag (rp_requirement p) c) else []) (choices p))"
    and admissible_step:
      "admissible (p # ps) sel \<Longrightarrow> c \<in> set (choices p) \<Longrightarrow>
       admissible ps (sel @ tag (rp_requirement p) c)"
begin

lemma set_search:
  "admissible ps sel \<Longrightarrow>
   set (search ps sel) = {map snd sel @ concat cs |cs. legal guard ps sel cs}"
proof (induction ps arbitrary: sel)
  case Nil
  have "legal guard [] sel cs \<longleftrightarrow> cs = []" for cs
    by (cases cs) simp_all
  then show ?case by (auto simp: search_Nil)
next
  case (Cons p ps)
  let ?next = "\<lambda>c. sel @ tag (rp_requirement p) c"
  have "set (search (p # ps) sel) =
      (\<Union>c\<in>{c \<in> set (choices p). guard (rp_requirement p) sel c}. set (search ps (?next c)))"
    by (auto simp: search_Cons [OF Cons.prems])
  also have "\<dots> = {map snd sel @ concat cs |cs. legal guard (p # ps) sel cs}" (is "?L = ?R")
  proof
    show "?L \<subseteq> ?R"
    proof
      fix x assume "x \<in> ?L"
      then obtain c cs where c: "c \<in> set (choices p)" "guard (rp_requirement p) sel c"
        and x: "x = map snd (?next c) @ concat cs" "legal guard ps (?next c) cs"
        using Cons.IH [OF admissible_step [OF Cons.prems]] by auto
      then have "legal guard (p # ps) sel (c # cs)" "x = map snd sel @ concat (c # cs)"
        by (simp_all add: o_def)
      then show "x \<in> ?R" by blast
    qed
    show "?R \<subseteq> ?L"
    proof
      fix x assume "x \<in> ?R"
      then obtain cs' where x: "x = map snd sel @ concat cs'" "legal guard (p # ps) sel cs'"
        by blast
      from x(2) obtain c cs where cs': "cs' = c # cs" by (cases cs') auto
      have "x = map snd (?next c) @ concat cs" using x(1) by (simp add: cs' o_def)
      then show "x \<in> ?L"
        using x(2) Cons.IH [OF admissible_step [OF Cons.prems]] by (auto simp: cs')
    qed
  qed
  finally show ?case .
qed

lemma search_found: "admissible ps sel \<Longrightarrow> search ps sel \<noteq> [] \<longleftrightarrow> (\<exists>cs. legal guard ps sel cs)"
  using set_search [of ps sel] by (auto simp flip: set_empty2)

lemma search_found_mono:
  "admissible ps sel \<Longrightarrow> admissible qs sel \<Longrightarrow> list_all2 pool_grows ps qs \<Longrightarrow>
   search ps sel \<noteq> [] \<Longrightarrow> search qs sel \<noteq> []"
  unfolding search_found using legal_mono by blast

end

section \<open>The three overlap modes\<close>

definition allow_guard :: guard where
  "allow_guard r sel c \<longleftrightarrow> True"

definition disallow_guard :: guard where
  "disallow_guard r sel c \<longleftrightarrow> patternsAreDisjoint (map snd sel @ c)"

definition blocked_by :: "string list option \<Rightarrow> combo_requirement \<Rightarrow> bool" where
  "blocked_by gs r \<longleftrightarrow> in_blocked_group (groups_or_empty gs) (Some r)"

definition mixed_guard :: guard where
  "mixed_guard r sel c \<longleftrightarrow>
     (\<forall>p\<in>set c. \<forall>(r', q)\<in>set sel.
        \<not> (blocked_by (rq_mustNotOverlapGroups r) r' \<and> patternCellsOverlap q p) \<and>
        \<not> (blocked_by (rq_mustNotBeContainedInGroups r) r' \<and> patternContainsPattern q p))"

interpretation allow: selection_search "\<lambda>ps sel. allow_bt ps (map snd sel)" allow_guard "\<lambda>_ _. True"
  by unfold_locales (simp_all add: allow_guard_def choices_def o_def)

interpretation disallow: selection_search
  "\<lambda>ps sel. disallow_bt ps (map snd sel)" disallow_guard "\<lambda>_ _. True"
  by unfold_locales (auto simp: disallow_guard_def choices_def o_def if_distrib cong: if_cong
      intro!: arg_cong [where f = concat] map_cong)


section \<open>The map of the mixed mode\<close>

lemma set_requirements_apply:
  "set_requirements c r m i = (if i \<in> pi_id ` set c then Some r else m i)"
  unfolding set_requirements_def by (induction c arbitrary: m) auto

lemma delete_requirements_apply:
  "delete_requirements c m i = (if i \<in> pi_id ` set c then None else m i)"
  unfolding delete_requirements_def by (induction c arbitrary: m) auto

definition pool_ids :: "requirement_pool \<Rightarrow> string set" where
  "pool_ids p = pi_id ` set (rp_candidates p)"

text \<open>
  No identifier is a candidate of two pools still to serve, none of them is selected already,
  and the selected ones each have one requirement.
\<close>

definition separate :: "requirement_pool list \<Rightarrow> tagged list \<Rightarrow> bool" where
  "separate ps sel \<longleftrightarrow>
     sorted_wrt (\<lambda>p q. pool_ids p \<inter> pool_ids q = {}) ps \<and>
     (\<forall>p\<in>set ps. \<forall>(r, q)\<in>set sel. pi_id q \<notin> pool_ids p) \<and>
     (\<forall>(r, p)\<in>set sel. \<forall>(r', p')\<in>set sel. pi_id p = pi_id p' \<longrightarrow> r = r')"

definition agrees :: "requirement_map \<Rightarrow> tagged list \<Rightarrow> bool" where
  "agrees m sel \<longleftrightarrow> (\<forall>(r, p)\<in>set sel. m (pi_id p) = Some r)"

definition tag_map :: "tagged list \<Rightarrow> requirement_map" where
  "tag_map sel = map_of (map (\<lambda>(r, p). (pi_id p, r)) sel)"

lemma choices_subset: "c \<in> set (choices p) \<Longrightarrow> set c \<subseteq> set (rp_candidates p)"
  by (auto simp: set_choices dest: subseq_set)

lemma separate_step:
  assumes "separate (p # ps) sel" "c \<in> set (choices p)"
  shows "separate ps (sel @ tag (rp_requirement p) c)"
proof -
  have "\<And>q. q \<in> set c \<Longrightarrow> pi_id q \<in> pool_ids p"
    using choices_subset [OF assms(2)] by (auto simp: pool_ids_def)
  then show ?thesis
    using assms(1) by (fastforce simp: separate_def)
qed

lemma agrees_tag_map:
  assumes "separate ps sel"
  shows "agrees (tag_map sel) sel"
proof -
  have "tag_map sel (pi_id p) = Some r" if "(r, p) \<in> set sel" for r p
  proof -
    have "(pi_id p, r) \<in> set (map (\<lambda>(r, p). (pi_id p, r)) sel)"
      using that by force
    then obtain r' where r': "tag_map sel (pi_id p) = Some r'"
      unfolding tag_map_def by (metis weak_map_of_SomeI)
    then have "(pi_id p, r') \<in> set (map (\<lambda>(r, p). (pi_id p, r)) sel)"
      unfolding tag_map_def by (rule map_of_SomeD)
    then obtain p' where "(r', p') \<in> set sel" "pi_id p' = pi_id p" by auto
    then have "r' = r" using assms that unfolding separate_def by blast
    with r' show ?thesis by simp
  qed
  then show ?thesis by (auto simp: agrees_def)
qed

lemma violates_iff:
  assumes "agrees m sel"
  shows "violatesMixedOverlap (map snd sel) m p r \<longleftrightarrow>
      (\<exists>(r', q)\<in>set sel. blocked_by (rq_mustNotOverlapGroups r) r' \<and> patternCellsOverlap q p)"
    and "violatesContainment (map snd sel) m p r \<longleftrightarrow>
      (\<exists>(r', q)\<in>set sel. blocked_by (rq_mustNotBeContainedInGroups r) r' \<and>
        patternContainsPattern q p)"
proof -
  have m: "m (pi_id q) = Some r'" if "(r', q) \<in> set sel" for r' q
    using assms that by (auto simp: agrees_def)
  have empty: "\<not> in_blocked_group {} x" for x
    by (auto simp: in_blocked_group_def split: option.splits)
  show "violatesMixedOverlap (map snd sel) m p r \<longleftrightarrow>
      (\<exists>(r', q)\<in>set sel. blocked_by (rq_mustNotOverlapGroups r) r' \<and> patternCellsOverlap q p)"
    by (force simp: violatesMixedOverlap_def Let_def list_ex_iff blocked_by_def m empty)
  show "violatesContainment (map snd sel) m p r \<longleftrightarrow>
      (\<exists>(r', q)\<in>set sel. blocked_by (rq_mustNotBeContainedInGroups r) r' \<and>
        patternContainsPattern q p)"
    by (force simp: violatesContainment_def Let_def list_ex_iff blocked_by_def m empty)
qed

lemma blocked_combination_iff:
  assumes "agrees m sel"
  shows "list_ex (\<lambda>p. violatesMixedOverlap (map snd sel) m p r \<or>
                      violatesContainment (map snd sel) m p r) c \<longleftrightarrow> \<not> mixed_guard r sel c"
  unfolding violates_iff [OF assms] mixed_guard_def list_ex_iff by blast

text \<open>The body of the loop over the combinations of one pool.\<close>

definition mixed_step ::
  "requirement_pool list \<Rightarrow> pattern_instance list \<Rightarrow> combo_requirement \<Rightarrow> pattern_instance list \<Rightarrow>
   pattern_instance list list \<times> requirement_map \<Rightarrow> pattern_instance list list \<times> requirement_map" where
  "mixed_step ps selected r c st =
     (if list_ex (\<lambda>q. violatesMixedOverlap selected (snd st) q r \<or>
                      violatesContainment selected (snd st) q r) c
      then st
      else let below = mixed_bt ps (selected @ c) (set_requirements c r (snd st))
           in (fst st @ fst below, delete_requirements c (snd below)))"

lemma mixed_bt_Cons:
  "mixed_bt (p # ps) selected m =
   fold (mixed_step ps selected (rp_requirement p)) (choices p) ([], m)"
  unfolding mixed_bt.simps Let_def choices_def mixed_step_def
  by (simp add: case_prod_unfold Let_def cong: if_cong)

declare mixed_bt.simps(2) [simp del]

lemma mixed_bt_frame:
  "i \<notin> (\<Union>p\<in>set ps. pool_ids p) \<Longrightarrow> snd (mixed_bt ps sel m) i = m i"
proof (induction ps arbitrary: sel m)
  case (Cons p ps)
  have step: "snd (mixed_step ps sel (rp_requirement p) c st) i = snd st i"
    if "i \<notin> pi_id ` set c" for c st
    using that Cons.prems Cons.IH
    by (simp add: mixed_step_def Let_def delete_requirements_apply set_requirements_apply)
  have "snd (fold (mixed_step ps sel (rp_requirement p)) cl st) i = snd st i"
    if "\<forall>c\<in>set cl. i \<notin> pi_id ` set c" for cl st
    using that by (induction cl arbitrary: st) (simp_all add: step)
  moreover have "\<forall>c\<in>set (choices p). i \<notin> pi_id ` set c"
    using Cons.prems choices_subset by (fastforce simp: pool_ids_def)
  ultimately show ?case by (simp add: mixed_bt_Cons)
qed simp

fun select_all :: "guard \<Rightarrow> requirement_pool list \<Rightarrow> tagged list \<Rightarrow> pattern_instance list list" where
  "select_all guard [] sel = [map snd sel]"
| "select_all guard (p # ps) sel =
     concat (map (\<lambda>c. if guard (rp_requirement p) sel c
                      then select_all guard ps (sel @ tag (rp_requirement p) c) else [])
       (choices p))"


lemma mixed_bt_select:
  "separate ps sel \<Longrightarrow> agrees m sel \<Longrightarrow>
   fst (mixed_bt ps (map snd sel) m) = select_all mixed_guard ps sel"
proof (induction ps arbitrary: sel m)
  case (Cons p ps)
  let ?r = "rp_requirement p"
  let ?f = "\<lambda>c. if mixed_guard ?r sel c then select_all mixed_guard ps (sel @ tag ?r c) else []"
  have "fst (fold (mixed_step ps (map snd sel) ?r) cl (res, m)) = res @ concat (map ?f cl)"
    if "set cl \<subseteq> set (choices p)" "agrees m sel" for cl res m
    using that
  proof (induction cl arbitrary: res m)
    case (Cons c cl)
    have c: "c \<in> set (choices p)" using Cons.prems(1) by simp
    have ids: "pi_id q \<in> pool_ids p" if "q \<in> set c" for q
      using choices_subset [OF c] that by (auto simp: pool_ids_def)
    have selp: "pi_id q \<notin> pool_ids p" "pi_id q \<notin> (\<Union>p\<in>set ps. pool_ids p)"
      if "(r', q) \<in> set sel" for r' q
      using \<open>separate (p # ps) sel\<close> that by (auto simp: separate_def)
    have set_ok: "agrees (set_requirements c ?r m) (sel @ tag ?r c)"
      using Cons.prems(2) ids selp by (fastforce simp: agrees_def set_requirements_apply)
    let ?below = "mixed_bt ps (map snd (sel @ tag ?r c)) (set_requirements c ?r m)"
    have below: "fst ?below = select_all mixed_guard ps (sel @ tag ?r c)"
      by (rule \<open>\<And>sel m. separate ps sel \<Longrightarrow> agrees m sel \<Longrightarrow> _\<close>)
        (rule separate_step [OF \<open>separate (p # ps) sel\<close> c], rule set_ok)
    have del_ok: "agrees (delete_requirements c (snd ?below)) sel"
      using Cons.prems(2) ids selp
      by (fastforce simp: agrees_def delete_requirements_apply set_requirements_apply mixed_bt_frame)
    have "mixed_step ps (map snd sel) ?r c (res, m) =
        (if mixed_guard ?r sel c
         then (res @ fst ?below, delete_requirements c (snd ?below)) else (res, m))"
      unfolding mixed_step_def snd_conv blocked_combination_iff [OF Cons.prems(2)]
      by (simp add: Let_def o_def)
    then show ?case
      using Cons.IH Cons.prems del_ok below by auto
  qed simp
  from this [of "choices p" m "[]"] Cons.prems show ?case by (simp add: mixed_bt_Cons)
qed simp

interpretation mixed: selection_search
  "\<lambda>ps sel. fst (mixed_bt ps (map snd sel) (tag_map sel))" mixed_guard separate
proof unfold_locales
  fix p ps sel
  assume sep: "separate (p # ps) sel"
  have "fst (mixed_bt ps (map snd (sel @ tag (rp_requirement p) c))
          (tag_map (sel @ tag (rp_requirement p) c))) =
      select_all mixed_guard ps (sel @ tag (rp_requirement p) c)" if "c \<in> set (choices p)" for c
    using separate_step [OF sep that] by (intro mixed_bt_select agrees_tag_map)
  then show "fst (mixed_bt (p # ps) (map snd sel) (tag_map sel)) =
      concat (map (\<lambda>c. if mixed_guard (rp_requirement p) sel c
        then fst (mixed_bt ps (map snd (sel @ tag (rp_requirement p) c))
               (tag_map (sel @ tag (rp_requirement p) c)))
        else []) (choices p))"
    using mixed_bt_select [OF sep agrees_tag_map [OF sep]]
    by (auto intro!: arg_cong [where f = concat] map_cong)
qed (auto intro: separate_step)


section \<open>The modes, stated on whole selections\<close>

abbreviation served :: "requirement_pool list \<Rightarrow> pattern_instance list list \<Rightarrow> bool" where
  "served ps cs \<equiv> list_all2 (\<lambda>p c. c \<in> set (choices p)) ps cs"

lemma patternsAreDisjoint_sorted_wrt:
  "patternsAreDisjoint ps = sorted_wrt (\<lambda>p q. \<not> patternCellsOverlap p q) ps"
  by (induction ps) (auto simp: list_ex_iff)

lemma patternsAreDisjoint_append:
  "patternsAreDisjoint (ps @ qs) \<Longrightarrow> patternsAreDisjoint ps"
  by (simp add: patternsAreDisjoint_sorted_wrt sorted_wrt_append)

lemma legal_allow: "legal allow_guard ps sel cs \<longleftrightarrow> served ps cs"
  by (rule legal_always) (simp add: allow_guard_def)

lemma legal_disallow:
  "patternsAreDisjoint (map snd sel) \<Longrightarrow>
   legal disallow_guard ps sel cs \<longleftrightarrow>
   served ps cs \<and> patternsAreDisjoint (map snd sel @ concat cs)"
proof (induction ps arbitrary: sel cs)
  case Nil
  then show ?case by (cases cs) simp_all
next
  case (Cons p ps)
  show ?case
  proof (cases cs)
    case (Cons c cs')
    let ?sel = "sel @ tag (rp_requirement p) c"
    have guard: "disallow_guard (rp_requirement p) sel c = patternsAreDisjoint (map snd sel @ c)"
      by (simp add: disallow_guard_def)
    show ?thesis
    proof (cases "patternsAreDisjoint (map snd sel @ c)")
      case True
      then have "legal disallow_guard ps ?sel cs' \<longleftrightarrow>
          served ps cs' \<and> patternsAreDisjoint (map snd ?sel @ concat cs')"
        by (intro Cons.IH) (simp add: o_def)
      then show ?thesis using True guard by (auto simp: Cons o_def)
    next
      case False
      then have "\<not> patternsAreDisjoint ((map snd sel @ c) @ concat cs')"
        using patternsAreDisjoint_append by blast
      then show ?thesis using False guard by (simp add: Cons)
    qed
  qed simp
qed

lemma served_iff:
  "(\<exists>cs. served ps cs) \<longleftrightarrow> list_all (\<lambda>p. set (choices p) \<noteq> {}) ps"
proof (induction ps)
  case (Cons p ps)
  have "(\<exists>cs. served (p # ps) cs) \<longleftrightarrow> (\<exists>c. c \<in> set (choices p)) \<and> (\<exists>cs. served ps cs)"
    by (auto simp: list_all2_Cons1)
  with Cons show ?case by auto
qed simp

lemma choices_found:
  assumes "0 \<le> rq_count (rp_requirement p)"
  shows "set (choices p) \<noteq> {} \<longleftrightarrow>
    rq_count (rp_requirement p) \<le> int (length (rp_candidates p))" (is "?L \<longleftrightarrow> ?R")
proof
  assume ?L
  then show ?R by (auto simp: set_choices dest: list_emb_length)
next
  let ?c = "take (nat (rq_count (rp_requirement p))) (rp_candidates p)"
  assume ?R
  then have "int (length ?c) = rq_count (rp_requirement p)" using assms by simp
  moreover have "subseq ?c (rp_candidates p)"
    using prefix_imp_subseq take_is_prefix by blast
  ultimately show ?L by (auto simp: set_choices)
qed

section \<open>Pools of a combo\<close>

definition guard_of :: "overlap_mode \<Rightarrow> guard" where
  "guard_of m = (case m of ALLOW \<Rightarrow> allow_guard | DISALLOW \<Rightarrow> disallow_guard | MIXED \<Rightarrow> mixed_guard)"

text \<open>In the mixed mode every requirement asks for a kind of its own.\<close>

definition kinds_apart :: "combo_pattern \<Rightarrow> bool" where
  "kinds_apart combo \<longleftrightarrow>
     (cb_overlap combo = MIXED \<longrightarrow> distinct (map rq_kind (cb_requires combo)))"

definition counts_positive :: "combo_pattern \<Rightarrow> bool" where
  "counts_positive combo \<longleftrightarrow> list_all (\<lambda>r. 0 < rq_count r) (cb_requires combo)"

lemma pools_grow:
  "subseq instances instances' \<Longrightarrow>
   list_all2 pool_grows (buildRequirementPools combo instances)
     (buildRequirementPools combo instances')"
  by (auto simp: buildRequirementPools_def list_all2_map1 list_all2_map2 pool_grows_def
      filterCandidates_def subseq_filter_mono intro!: list_all2_refl)

lemma separate_pools:
  assumes "distinct (map pi_id instances)" "distinct (map rq_kind (cb_requires combo))"
  shows "separate (buildRequirementPools combo instances) []"
proof -
  have same: "p = q" if "p \<in> set instances" "q \<in> set instances" "pi_id p = pi_id q" for p q
    using assms(1) that by (auto simp: distinct_map dest: inj_onD)
  have "sorted_wrt (\<lambda>r s. rq_kind r \<noteq> rq_kind s) (cb_requires combo)"
    using assms(2) by (rule distinct_map_sorted_wrt)
  then show ?thesis
    by (auto simp: separate_def buildRequirementPools_def sorted_wrt_map pool_ids_def
        filterCandidates_def elim!: sorted_wrt_mono_rel [rotated] dest: same)
qed

lemma set_selectAllForOverlap:
  assumes "kinds_apart combo" "distinct (map pi_id instances)"
  shows "set (selectAllForOverlap combo (buildRequirementPools combo instances)) =
    {concat cs |cs. legal (guard_of (cb_overlap combo)) (buildRequirementPools combo instances) [] cs}"
proof (cases "cb_overlap combo")
  case ALLOW
  then show ?thesis
    using allow.set_search [of "buildRequirementPools combo instances" "[]"]
    by (simp add: selectAllForOverlap_def selectAllFromPoolAllow_def guard_of_def)
next
  case DISALLOW
  then show ?thesis
    using disallow.set_search [of "buildRequirementPools combo instances" "[]"]
    by (simp add: selectAllForOverlap_def selectAllFromPoolDisallow_def guard_of_def)
next
  case MIXED
  then have "separate (buildRequirementPools combo instances) []"
    using assms by (intro separate_pools) (simp_all add: kinds_apart_def)
  from mixed.set_search [OF this] MIXED show ?thesis
    by (simp add: selectAllForOverlap_def selectAllFromPoolMixed_def guard_of_def tag_map_def)
qed

section \<open>What solving decides\<close>

text \<open>The lists of instances the solver draws from: one, or the row and the column view.\<close>

definition instance_views :: "combo_pattern \<Rightarrow> pattern_instance list \<Rightarrow> pattern_instance list list" where
  "instance_views combo instances =
     (if hasParallelOnly combo
      then [parallel_instances DIR_ROW instances, parallel_instances DIR_COLUMN instances]
      else [instances])"

lemma findAllWinningCombinations_views:
  "findAllWinningCombinations combo instances =
   concat (map (\<lambda>view. selectAllForOverlap combo (buildRequirementPools combo view))
     (instance_views combo instances))"
  by (simp add: findAllWinningCombinations_def instance_views_def Let_def
      findAllWithParallelLineConstraint_def)

lemma distinct_view_ids:
  "distinct (map pi_id instances) \<Longrightarrow> view \<in> set (instance_views combo instances) \<Longrightarrow>
   distinct (map pi_id view)"
  by (auto simp: instance_views_def parallel_instances_def distinct_map_filter split: if_splits)

lemma set_findAllWinningCombinations:
  assumes "kinds_apart combo" "distinct (map pi_id instances)"
  shows "set (findAllWinningCombinations combo instances) =
    {concat cs |cs view. view \<in> set (instance_views combo instances) \<and>
       legal (guard_of (cb_overlap combo)) (buildRequirementPools combo view) [] cs}"
  unfolding findAllWinningCombinations_views
  using set_selectAllForOverlap [OF assms(1) distinct_view_ids [OF assms(2)]] by auto

lemma pickPreferredCombination_cases:
  "(case pickPreferredCombination combinations pref of
      None \<Rightarrow> combinations = [] | Some c \<Rightarrow> c \<in> set combinations)"
  by (auto simp: pickPreferredCombination_def find_Some_iff in_set_conv_nth
      split: list.splits option.splits)

lemma solveCombo_winner:
  "sr_isWinner (solveCombo combo instances pref) \<longleftrightarrow>
   findAllWinningCombinations combo instances \<noteq> []"
  using pickPreferredCombination_cases [of "findAllWinningCombinations combo instances" pref]
  by (auto simp: solveCombo_def Let_def split: option.splits)

lemma solveCombo_selected:
  "sr_isWinner (solveCombo combo instances pref) \<Longrightarrow>
   sr_selectedPatterns (solveCombo combo instances pref) \<in>
     set (findAllWinningCombinations combo instances)"
  using pickPreferredCombination_cases [of "findAllWinningCombinations combo instances" pref]
  by (auto simp: solveCombo_def Let_def split: option.splits)

lemma solveCombo_loser:
  "\<not> sr_isWinner (solveCombo combo instances pref) \<Longrightarrow>
   sr_selectedPatterns (solveCombo combo instances pref) = []"
  by (auto simp: solveCombo_def Let_def split: option.splits)

lemma solveCombo_prefers:
  "sr_isWinner (solveCombo combo instances (Some k)) \<Longrightarrow>
   list_ex (\<lambda>p. k \<in> set (pi_numbers p)) (sr_selectedPatterns (solveCombo combo instances (Some k)))
   \<longleftrightarrow> (\<exists>c\<in>set (findAllWinningCombinations combo instances).
          list_ex (\<lambda>p. k \<in> set (pi_numbers p)) c)"
  by (auto simp: solveCombo_def Let_def pickPreferredCombination_def find_None_iff find_Some_iff
      split: list.splits option.splits)

lemma isMinimumRuleSatisfied_found:
  assumes "counts_positive combo"
  shows "isMinimumRuleSatisfied combo instances \<longleftrightarrow>
    findAllWinningCombinations combo instances \<noteq> []"
proof (cases "\<not> hasParallelOnly combo \<and> cb_overlap combo = ALLOW")
  case True
  let ?pools = "buildRequirementPools combo instances"
  have "list_all (\<lambda>p. 0 \<le> rq_count (rp_requirement p)) ?pools"
    using assms by (auto simp: counts_positive_def buildRequirementPools_def list_all_iff)
  then have "isMinimumRuleSatisfied combo instances \<longleftrightarrow> list_all (\<lambda>p. set (choices p) \<noteq> {}) ?pools"
    using True choices_found by (fastforce simp: isMinimumRuleSatisfied_def list_all_iff)
  also have "\<dots> \<longleftrightarrow> allow_bt ?pools [] \<noteq> []"
    using allow.search_found [of ?pools "[]"] by (simp add: legal_allow served_iff)
  finally show ?thesis
    using True by (simp add: findAllWinningCombinations_def selectAllForOverlap_def
        selectAllFromPoolAllow_def)
next
  case False
  then show ?thesis
    by (auto simp: isMinimumRuleSatisfied_def solveCombo_winner findAllWinningCombinations_def)
qed

lemma instance_views_grow:
  "subseq instances instances' \<Longrightarrow> view \<in> set (instance_views combo instances) \<Longrightarrow>
   \<exists>view'\<in>set (instance_views combo instances'). subseq view view'"
  by (auto simp: instance_views_def parallel_instances_def intro: subseq_filter_mono split: if_splits)

lemma findAllWinningCombinations_found:
  assumes "kinds_apart combo" "distinct (map pi_id instances)"
  shows "findAllWinningCombinations combo instances \<noteq> [] \<longleftrightarrow>
    (\<exists>view\<in>set (instance_views combo instances). \<exists>cs.
       legal (guard_of (cb_overlap combo)) (buildRequirementPools combo view) [] cs)"
proof -
  have "findAllWinningCombinations combo instances \<noteq> [] \<longleftrightarrow>
      set (findAllWinningCombinations combo instances) \<noteq> {}" by simp
  then show ?thesis unfolding set_findAllWinningCombinations [OF assms] by blast
qed

lemma findAllWinningCombinations_grow:
  assumes "kinds_apart combo" "subseq instances instances'" "distinct (map pi_id instances')"
    and "findAllWinningCombinations combo instances \<noteq> []"
  shows "findAllWinningCombinations combo instances' \<noteq> []"
proof -
  have ids: "distinct (map pi_id instances)"
    using subseq_distinct [OF subseq_map [OF assms(2)] assms(3)] .
  obtain cs view where view: "view \<in> set (instance_views combo instances)"
    and cs: "legal (guard_of (cb_overlap combo)) (buildRequirementPools combo view) [] cs"
    using assms(4) findAllWinningCombinations_found [OF assms(1) ids] by blast
  obtain view' where "view' \<in> set (instance_views combo instances')" "subseq view view'"
    using instance_views_grow [OF assms(2) view] by blast
  then show ?thesis
    using findAllWinningCombinations_found [OF assms(1,3)] legal_mono [OF cs pools_grow] by blast
qed

section \<open>Winning combinations by mode\<close>

lemma served_pools:
  "served (buildRequirementPools combo instances) cs \<longleftrightarrow>
   list_all2 (\<lambda>r sel. subseq sel (filterCandidates instances r) \<and> int (length sel) = rq_count r)
     (cb_requires combo) cs"
  by (simp add: buildRequirementPools_def list_all2_map1 set_choices)

lemma found_by_mode:
  assumes "kinds_apart combo" "distinct (map pi_id instances)"
    and "cb_overlap combo \<noteq> MIXED" "\<not> hasParallelOnly combo"
  shows "set (findAllWinningCombinations combo instances) =
    {concat cs |cs.
       list_all2 (\<lambda>r sel. subseq sel (filterCandidates instances r) \<and> int (length sel) = rq_count r)
         (cb_requires combo) cs \<and>
       (cb_overlap combo = DISALLOW \<longrightarrow>
          sorted_wrt (\<lambda>p q. set (pi_cells p) \<inter> set (pi_cells q) = {}) (concat cs))}"
proof -
  have "legal (guard_of (cb_overlap combo)) (buildRequirementPools combo instances) [] cs \<longleftrightarrow>
      served (buildRequirementPools combo instances) cs \<and>
      (cb_overlap combo = DISALLOW \<longrightarrow> patternsAreDisjoint (concat cs))" for cs
    using assms(3) by (cases "cb_overlap combo") (simp_all add: guard_of_def legal_allow legal_disallow)
  then show ?thesis
    unfolding set_findAllWinningCombinations [OF assms(1,2)] served_pools
    using assms(4) by (simp add: instance_views_def patternsAreDisjoint_sorted_wrt patternCellsOverlap_iff)
qed

lemma legal_mixed_pairs:
  "legal mixed_guard ps sel cs \<Longrightarrow> i < length cs \<Longrightarrow> p \<in> set (cs ! i) \<Longrightarrow>
   (r', q) \<in> set sel \<or> (\<exists>j<i. r' = rp_requirement (ps ! j) \<and> q \<in> set (cs ! j)) \<Longrightarrow>
   \<not> (blocked_by (rq_mustNotOverlapGroups (rp_requirement (ps ! i))) r' \<and> patternCellsOverlap q p) \<and>
   \<not> (blocked_by (rq_mustNotBeContainedInGroups (rp_requirement (ps ! i))) r' \<and>
      patternContainsPattern q p)"
proof (induction mixed_guard ps sel cs arbitrary: i rule: legal.induct)
  case (2 p' ps sel c cs)
  show ?case
  proof (cases i)
    case 0
    then show ?thesis using 2 by (auto simp: mixed_guard_def)
  next
    case (Suc k)
    have "(r', q) \<in> set (sel @ tag (rp_requirement p') c) \<or>
        (\<exists>j<k. r' = rp_requirement (ps ! j) \<and> q \<in> set (cs ! j))"
      using 2(5) by (auto simp: Suc less_Suc_eq_0_disj)
    then show ?thesis using 2(1) [of k] 2(2,3,4) by (simp add: Suc)
  qed
qed auto

lemma legal_length: "legal guard ps sel cs \<Longrightarrow> length cs = length ps"
  by (induction guard ps sel cs rule: legal.induct) auto

lemma mixed_found:
  assumes "cb_overlap combo = MIXED" "kinds_apart combo" "distinct (map pi_id instances)"
    and "sel \<in> set (findAllWinningCombinations combo instances)"
  shows "\<exists>cs. sel = concat cs \<and> length cs = length (cb_requires combo) \<and>
    (\<forall>i < length cs. \<forall>j < i. \<forall>p\<in>set (cs ! i). \<forall>q\<in>set (cs ! j).
       let r = cb_requires combo ! i; r' = cb_requires combo ! j in
       pi_kind p = rq_kind r \<and>
       (blocked_by (rq_mustNotOverlapGroups r) r' \<longrightarrow> set (pi_cells q) \<inter> set (pi_cells p) = {}) \<and>
       (blocked_by (rq_mustNotBeContainedInGroups r) r' \<longrightarrow> \<not> set (pi_cells p) \<subseteq> set (pi_cells q)))"
proof -
  obtain cs view where sel: "sel = concat cs"
    and legal: "legal mixed_guard (buildRequirementPools combo view) [] cs"
    using assms(1,4) set_findAllWinningCombinations [OF assms(2,3)] by (auto simp: guard_of_def)
  have len: "length cs = length (cb_requires combo)"
    using legal_length [OF legal] by (simp add: buildRequirementPools_def)
  have req: "rp_requirement (buildRequirementPools combo view ! i) = cb_requires combo ! i"
    if "i < length cs" for i using that len by (simp add: buildRequirementPools_def)
  have kind: "pi_kind p = rq_kind (cb_requires combo ! i)"
    if "i < length cs" "p \<in> set (cs ! i)" for i p
  proof -
    have "cs ! i \<in> set (choices (buildRequirementPools combo view ! i))"
      using list_all2_nthD2 [OF legal_lengths [OF legal] that(1)] .
    then have "p \<in> set (filterCandidates view (cb_requires combo ! i))"
      using that len subseq_set by (auto simp: set_choices buildRequirementPools_def)
    then show ?thesis by (simp add: filterCandidates_def)
  qed
  have "pi_kind p = rq_kind (cb_requires combo ! i) \<and>
      (blocked_by (rq_mustNotOverlapGroups (cb_requires combo ! i)) (cb_requires combo ! j) \<longrightarrow>
         set (pi_cells q) \<inter> set (pi_cells p) = {}) \<and>
      (blocked_by (rq_mustNotBeContainedInGroups (cb_requires combo ! i)) (cb_requires combo ! j) \<longrightarrow>
         \<not> set (pi_cells p) \<subseteq> set (pi_cells q))"
    if "i < length cs" "j < i" "p \<in> set (cs ! i)" "q \<in> set (cs ! j)" for i j p q
  proof -
    have "\<exists>k<i. cb_requires combo ! j = rp_requirement (buildRequirementPools combo view ! k) \<and>
        q \<in> set (cs ! k)"
      using that req [of j] by (intro exI [of _ j]) simp
    then show ?thesis
      using legal_mixed_pairs [OF legal that(1,3), of "cb_requires combo ! j" q] kind [OF that(1,3)]
        req [OF that(1)]
      by (simp add: patternCellsOverlap_iff patternContainsPattern_iff)
  qed
  then show ?thesis using sel len unfolding Let_def by blast
qed

end
