(* ===== verification/RuleCatalog.thy ===== *)
theory RuleCatalog
  imports Selections
begin

text \<open>
  The catalogue of rules: \<open>src/src/game-rules/combo/combo-pattern-definitions.ts\<close> and the
  definitions of \<open>src/src/game-rules/patterns/game-rule.patterns.ts\<close>. An object literal keyed by
  rule key is an association list in the order of the source; spreading objects into one, where
  a later key replaces an earlier one, is a lookup from the end. The lemmas show that every
  product rule key has a definition and that every definition is well formed.
\<close>

section \<open>Combo rules\<close>

definition unconstrained :: pattern_constraints where
  "unconstrained =
     \<lparr>cs_touchesFree = None, cs_allowDiagonal = None, cs_parallelOnly = None\<rparr>"

definition need :: "pattern_kind \<Rightarrow> int \<Rightarrow> combo_requirement" where
  "need kind count =
     \<lparr>rq_kind = kind, rq_count = count, rq_group = None, rq_mustNotOverlapGroups = None,
      rq_mustNotBeContainedInGroups = None, rq_constraints = None\<rparr>"

definition combo_rules_1 :: "(string \<times> combo_pattern) list" where
  "combo_rules_1 = [
    (''TWO_COLUMNS_TWO_ROWS_ONE_DIAGONAL'', \<lparr>cb_overlap = ALLOW, cb_requires =
      [need COLUMN 2,
       need ROW 2,
       need DIAGONAL 1]\<rparr>),
    (''FOUR_SQUARES'', \<lparr>cb_overlap = DISALLOW, cb_requires =
      [need SQUARE_2X2 4]\<rparr>),
    (''THREE_COLUMNS_ONE_DIAGONAL'', \<lparr>cb_overlap = ALLOW, cb_requires =
      [need COLUMN 3,
       need DIAGONAL 1]\<rparr>),
    (''BIG_T_TWO_SQUARES'', \<lparr>cb_overlap = DISALLOW, cb_requires =
      [need BIG_T 1,
       need SQUARE_2X2 2]\<rparr>),
    (''FIVE_LINES'', \<lparr>cb_overlap = ALLOW, cb_requires =
      [need LINE 5]\<rparr>),
    (''THREE_LINES_WITHOUT_FREE'', \<lparr>cb_overlap = ALLOW, cb_requires =
      [(need LINE 3)\<lparr>rq_constraints := Some (unconstrained\<lparr>cs_touchesFree := Some False\<rparr>)\<rparr>]\<rparr>),
    (''BIG_L_ONE_DIAGONAL'', \<lparr>cb_overlap = ALLOW, cb_requires =
      [need BIG_L 1,
       need DIAGONAL 1]\<rparr>),
    (''TWO_ROWS_ONE_SQUARE'', \<lparr>cb_overlap = DISALLOW, cb_requires =
      [need ROW 2,
       need SQUARE_2X2 1]\<rparr>),
    (''COLUMNS_ROWS_DIAGONAL'', \<lparr>cb_overlap = ALLOW, cb_requires =
      [need COLUMN 1,
       need ROW 1,
       need DIAGONAL 1]\<rparr>),
    (''SEVEN_LINES'', \<lparr>cb_overlap = ALLOW, cb_requires =
      [need LINE 7]\<rparr>),
    (''THREE_SQUARES'', \<lparr>cb_overlap = DISALLOW, cb_requires =
      [need SQUARE_2X2 3]\<rparr>),
    (''THREE_LINES_TOUCH_FREE'', \<lparr>cb_overlap = ALLOW, cb_requires =
      [(need LINE 3)\<lparr>rq_constraints := Some (unconstrained\<lparr>cs_touchesFree := Some True\<rparr>)\<rparr>]\<rparr>),
    (''TWO_COLUMNS_TWO_ROWS'', \<lparr>cb_overlap = ALLOW, cb_requires =
      [need COLUMN 2,
       need ROW 2]\<rparr>),
    (''ONE_LINE_WITH_FREE_TWO_LINES_WITHOUT_FREE'', \<lparr>cb_overlap = ALLOW, cb_requires =
      [(need LINE 1)\<lparr>rq_constraints := Some (unconstrained\<lparr>cs_touchesFree := Some True\<rparr>)\<rparr>,
       (need LINE 2)\<lparr>rq_constraints := Some (unconstrained\<lparr>cs_touchesFree := Some False\<rparr>)\<rparr>]\<rparr>)]"

definition combo_rules_2 :: "(string \<times> combo_pattern) list" where
  "combo_rules_2 = [
    (''THREE_LINES'', \<lparr>cb_overlap = ALLOW, cb_requires =
      [need LINE 3]\<rparr>),
    (''THREE_ROWS_ONE_DIAGONAL'', \<lparr>cb_overlap = ALLOW, cb_requires =
      [need ROW 3,
       need DIAGONAL 1]\<rparr>),
    (''TWO_DIAGONALS_ONE_ROW'', \<lparr>cb_overlap = ALLOW, cb_requires =
      [need DIAGONAL 2,
       need ROW 1]\<rparr>),
    (''THREE_PARALLEL_LINES'', \<lparr>cb_overlap = DISALLOW, cb_requires =
      [(need LINE 3)\<lparr>rq_constraints := Some (unconstrained\<lparr>cs_parallelOnly := Some True\<rparr>)\<rparr>]\<rparr>),
    (''FOUR_LINES_WITHOUT_DIAGONAL'', \<lparr>cb_overlap = ALLOW, cb_requires =
      [(need LINE 4)\<lparr>rq_constraints := Some (unconstrained\<lparr>cs_allowDiagonal := Some False\<rparr>)\<rparr>]\<rparr>),
    (''BIG_CROSS_ONE_DIAGONAL'', \<lparr>cb_overlap = ALLOW, cb_requires =
      [need BIG_CROSS 1,
       need DIAGONAL 1]\<rparr>),
    (''SIX_LINES'', \<lparr>cb_overlap = ALLOW, cb_requires =
      [need LINE 6]\<rparr>),
    (''THREE_COLUMNS'', \<lparr>cb_overlap = ALLOW, cb_requires =
      [need COLUMN 3]\<rparr>),
    (''FOUR_PARALLEL_LINES'', \<lparr>cb_overlap = DISALLOW, cb_requires =
      [(need LINE 4)\<lparr>rq_constraints := Some (unconstrained\<lparr>cs_parallelOnly := Some True\<rparr>)\<rparr>]\<rparr>),
    (''FOUR_ANGLES_TWO_SQUARES'', \<lparr>cb_overlap = MIXED, cb_requires =
      [(need FOUR_CORNERS 1)\<lparr>rq_group := Some ''ANGLES''\<rparr>,
       (need SQUARE_2X2 2)\<lparr>rq_group := Some ''SQUARES'',
         rq_mustNotOverlapGroups := Some [''SQUARES'', ''ANGLES'']\<rparr>]\<rparr>),
    (''FOUR_LINES'', \<lparr>cb_overlap = ALLOW, cb_requires =
      [need LINE 4]\<rparr>),
    (''THREE_ROWS'', \<lparr>cb_overlap = ALLOW, cb_requires =
      [need ROW 3]\<rparr>),
    (''TWO_ROWS_ONE_COLUMN'', \<lparr>cb_overlap = ALLOW, cb_requires =
      [need ROW 2,
       need COLUMN 1]\<rparr>),
    (''TWO_DIAGONALS'', \<lparr>cb_overlap = ALLOW, cb_requires =
      [need DIAGONAL 2]\<rparr>),
    (''ONE_COLUMN_ONE_ROW_ONE_SQUARE'', \<lparr>cb_overlap = MIXED, cb_requires =
      [(need COLUMN 1)\<lparr>rq_group := Some ''LINES''\<rparr>,
       (need ROW 1)\<lparr>rq_group := Some ''LINES''\<rparr>,
       (need SQUARE_2X2 1)\<lparr>rq_mustNotOverlapGroups := Some [''LINES'']\<rparr>]\<rparr>)]"

definition combo_rules_3 :: "(string \<times> combo_pattern) list" where
  "combo_rules_3 = [
    (''BIG_T_ONE_DIAGONAL'', \<lparr>cb_overlap = ALLOW, cb_requires =
      [need BIG_T 1,
       need DIAGONAL 1]\<rparr>),
    (''BIG_H'', \<lparr>cb_overlap = ALLOW, cb_requires =
      [need BIG_H 1]\<rparr>),
    (''THREE_RECTANGLES'', \<lparr>cb_overlap = DISALLOW, cb_requires =
      [need RECTANGLE_2X3_OR_3X2 3]\<rparr>),
    (''BIG_T_TWO_LINES'', \<lparr>cb_overlap = MIXED, cb_requires =
      [(need BIG_T 1)\<lparr>rq_group := Some ''BIG_T''\<rparr>,
       (need LINE 2)\<lparr>rq_group := Some ''LINES'',
         rq_mustNotBeContainedInGroups := Some [''BIG_T'']\<rparr>]\<rparr>),
    (''ONE_LINE_TWO_TRIANGLES'', \<lparr>cb_overlap = DISALLOW, cb_requires =
      [need LINE 1,
       need TRIANGLE_6 2]\<rparr>),
    (''SMALL_T_TWO_SQUARES'', \<lparr>cb_overlap = DISALLOW, cb_requires =
      [need SMALL_T 1,
       need SQUARE_2X2 2]\<rparr>),
    (''ONE_LINE_TRIANGLE_4X4'', \<lparr>cb_overlap = DISALLOW, cb_requires =
      [need LINE 1,
       need TRIANGLE_4X4 1]\<rparr>),
    (''BIG_L_ONE_RECTANGLE'', \<lparr>cb_overlap = DISALLOW, cb_requires =
      [need BIG_L 1,
       need RECTANGLE_2X3_OR_3X2 1]\<rparr>),
    (''TWO_ANGLES_THREE_LINES'', \<lparr>cb_overlap = MIXED, cb_requires =
      [(need LINE 3)\<lparr>rq_group := Some ''LINES''\<rparr>,
       (need CORNER 2)\<lparr>rq_group := Some ''ANGLES'',
         rq_mustNotOverlapGroups := Some [''LINES'']\<rparr>]\<rparr>),
    (''BIG_T_ONE_DIAGONAL_ONE_SQUARE'', \<lparr>cb_overlap = MIXED, cb_requires =
      [(need BIG_T 1)\<lparr>rq_group := Some ''BIG_T''\<rparr>,
       (need DIAGONAL 1)\<lparr>rq_group := Some ''DIAGONAL''\<rparr>,
       (need SQUARE_2X2 1)\<lparr>rq_group := Some ''SQUARE'',
         rq_mustNotOverlapGroups := Some [''BIG_T'', ''DIAGONAL'']\<rparr>]\<rparr>),
    (''TWO_LINES_TWO_SQUARES'', \<lparr>cb_overlap = MIXED, cb_requires =
      [(need LINE 2)\<lparr>rq_group := Some ''LINES''\<rparr>,
       (need SQUARE_2X2 2)\<lparr>rq_group := Some ''SQUARES'',
         rq_mustNotOverlapGroups := Some [''SQUARES'', ''LINES'']\<rparr>]\<rparr>),
    (''ONE_LINE_THREE_SQUARES'', \<lparr>cb_overlap = DISALLOW, cb_requires =
      [need LINE 1,
       need SQUARE_2X2 3]\<rparr>),
    (''EIGHT_LINES'', \<lparr>cb_overlap = ALLOW, cb_requires =
      [need LINE 8]\<rparr>)]"

definition combo_rules_4 :: "(string \<times> combo_pattern) list" where
  "combo_rules_4 = [
    (''THREE_ROWS_TWO_COLUMNS'', \<lparr>cb_overlap = ALLOW, cb_requires =
      [need ROW 3,
       need COLUMN 2]\<rparr>),
    (''FOUR_ANGLES_TWO_RECTANGLES'', \<lparr>cb_overlap = DISALLOW, cb_requires =
      [need FOUR_CORNERS 1,
       need RECTANGLE_2X3_OR_3X2 2]\<rparr>),
    (''TWO_PARALLEL_LINES_TWO_DIAGONALS'', \<lparr>cb_overlap = ALLOW, cb_requires =
      [(need LINE 2)\<lparr>rq_constraints := Some (unconstrained\<lparr>cs_parallelOnly := Some True\<rparr>)\<rparr>,
       need DIAGONAL 2]\<rparr>),
    (''THREE_PARALLEL_LINES_ONE_DIAGONAL'', \<lparr>cb_overlap = ALLOW, cb_requires =
      [(need LINE 3)\<lparr>rq_constraints := Some (unconstrained\<lparr>cs_parallelOnly := Some True\<rparr>)\<rparr>,
       need DIAGONAL 1]\<rparr>),
    (''BIG_T_THREE_SQUARES'', \<lparr>cb_overlap = DISALLOW, cb_requires =
      [need BIG_T 1,
       need SQUARE_2X2 3]\<rparr>),
    (''THREE_SMALL_T'', \<lparr>cb_overlap = DISALLOW, cb_requires =
      [need SMALL_T 3]\<rparr>),
    (''BIG_CROSS_ONE_SQUARE'', \<lparr>cb_overlap = DISALLOW, cb_requires =
      [need BIG_CROSS 1,
       need SQUARE_2X2 1]\<rparr>),
    (''TWO_LINES_FREE_TWO_WITHOUT_FREE'', \<lparr>cb_overlap = ALLOW, cb_requires =
      [(need LINE 2)\<lparr>rq_constraints := Some (unconstrained\<lparr>cs_touchesFree := Some True\<rparr>)\<rparr>,
       (need LINE 2)\<lparr>rq_constraints := Some (unconstrained\<lparr>cs_touchesFree := Some False\<rparr>)\<rparr>]\<rparr>),
    (''SMALL_CROSS_TRIANGLE_SQUARE'', \<lparr>cb_overlap = DISALLOW, cb_requires =
      [need SMALL_CROSS 1,
       need TRIANGLE_6 1,
       need SQUARE_2X2 1]\<rparr>),
    (''FOUR_LINES_WITHOUT_FREE'', \<lparr>cb_overlap = ALLOW, cb_requires =
      [(need LINE 4)\<lparr>rq_constraints := Some (unconstrained\<lparr>cs_touchesFree := Some False\<rparr>)\<rparr>]\<rparr>),
    (''THREE_SQUARES_TWO_ANGLES'', \<lparr>cb_overlap = DISALLOW, cb_requires =
      [need SQUARE_2X2 3,
       need CORNER 2]\<rparr>)]"

definition COMBO_RULE_PATTERN_DEFINITIONS :: "(string \<times> combo_pattern) list" where
  "COMBO_RULE_PATTERN_DEFINITIONS = combo_rules_1 @ combo_rules_2 @ combo_rules_3 @ combo_rules_4"

definition MIX_KEY_TO_COMBO_RULE :: "(string \<times> string) list" where
  "MIX_KEY_TO_COMBO_RULE = [
    (''MIX_01'', ''TWO_COLUMNS_TWO_ROWS_ONE_DIAGONAL''),
    (''MIX_02'', ''FOUR_SQUARES''),
    (''MIX_03'', ''THREE_COLUMNS_ONE_DIAGONAL''),
    (''MIX_04'', ''BIG_T_TWO_SQUARES''),
    (''MIX_05'', ''FIVE_LINES''),
    (''MIX_06'', ''THREE_LINES_WITHOUT_FREE''),
    (''MIX_07'', ''BIG_L_ONE_DIAGONAL''),
    (''MIX_08'', ''TWO_ROWS_ONE_SQUARE''),
    (''MIX_09'', ''COLUMNS_ROWS_DIAGONAL''),
    (''MIX_10'', ''SEVEN_LINES''),
    (''MIX_11'', ''THREE_SQUARES''),
    (''MIX_12'', ''THREE_LINES_TOUCH_FREE''),
    (''MIX_13'', ''TWO_COLUMNS_TWO_ROWS''),
    (''MIX_14'', ''ONE_LINE_WITH_FREE_TWO_LINES_WITHOUT_FREE'')]"

section \<open>All rules\<close>

datatype game_rule_pattern =
    Full_House
  | Rows_Required int
  | Any_Line
  | Any_Row
  | Any_Column
  | Any_Diagonal
  | Line_Touches_Free
  | Line_Without_Free
  | Pattern_Group "board_coord list list"
  | Combo combo_pattern

definition LEGACY_RULE_PATTERN_DEFINITIONS :: "(string \<times> game_rule_pattern) list" where
  "LEGACY_RULE_PATTERN_DEFINITIONS = [
    (''FULL_HOUSE'', Full_House),
    (''HALF_HOUSE'', Rows_Required 3),
    (''LINE'', Any_Line),
    (''ROWS'', Any_Row),
    (''COLUMNS'', Any_Column),
    (''DIAGONAL'', Any_Diagonal),
    (''FOUR_CORNERS'', Pattern_Group [[(0, 0), (0, 4), (4, 0), (4, 4)]]),
    (''LINE_TOUCHES_FREE'', Line_Touches_Free),
    (''LINES_WITHOUT_FREE'', Line_Without_Free),
    (''BIG_T'', Pattern_Group BIG_T_VARIANTS),
    (''BIG_L_SHAPE'', Pattern_Group BIG_L_VARIANTS),
    (''BIG_CROSS'', Pattern_Group
      [[(2, 0), (2, 1), (2, 2), (2, 3), (2, 4), (0, 2), (1, 2), (3, 2), (4, 2)]]),
    (''SMALL_T'', Pattern_Group [[(1, 1), (1, 2), (1, 3), (2, 2), (3, 2)]]),
    (''SMALL_X'', Pattern_Group
      [[(0, 0), (0, 4), (1, 1), (1, 3), (2, 2), (3, 1), (3, 3), (4, 0), (4, 4)]]),
    (''SMALL_CROSS'', Pattern_Group [[(1, 2), (2, 1), (2, 2), (2, 3), (3, 2)]]),
    (''HALF_HOUSE_10_DIRECTIONS'', Combo \<lparr>cb_overlap = ALLOW,
      cb_requires = [need HALF_HOUSE_10_DIRECTION 1]\<rparr>),
    (''HALF_HOUSE_4_DIRECTIONS'', Combo \<lparr>cb_overlap = ALLOW,
      cb_requires = [need HALF_HOUSE_4_DIRECTION 1]\<rparr>)]"

text \<open>\<open>COMBO_RULE_PATTERN_DEFINITIONS[key]\<close> on one of its keys.\<close>

definition combo_rule :: "string \<Rightarrow> combo_pattern" where
  "combo_rule key = the (map_of COMBO_RULE_PATTERN_DEFINITIONS key)"

definition MIX_RULE_PATTERN_DEFINITIONS :: "(string \<times> game_rule_pattern) list" where
  "MIX_RULE_PATTERN_DEFINITIONS =
     map (\<lambda>(mixKey, comboKey). (mixKey, Combo (combo_rule comboKey))) MIX_KEY_TO_COMBO_RULE"

definition rule_entries :: "(string \<times> game_rule_pattern) list" where
  "rule_entries =
     LEGACY_RULE_PATTERN_DEFINITIONS @
     map (\<lambda>(key, combo). (key, Combo combo)) COMBO_RULE_PATTERN_DEFINITIONS @
     MIX_RULE_PATTERN_DEFINITIONS @
     [(''TWO_ROWS_ONE_SQUARE_ALT'', Combo (combo_rule ''TWO_ROWS_ONE_SQUARE'')),
      (''BIG_N_OR_Z'', Pattern_Group BIG_N_OR_Z_VARIANTS),
      (''BIG_M_OR_W'', Pattern_Group BIG_M_OR_W_VARIANTS),
      (''ONE_ANGLE_ROW_COLUMN_DIAGONAL'', Pattern_Group ONE_ANGLE_ROW_COLUMN_DIAGONAL_VARIANTS)]"

definition RULE_PATTERN_DEFINITIONS :: "string \<Rightarrow> game_rule_pattern option" where
  "RULE_PATTERN_DEFINITIONS key = map_of (rev rule_entries) key"

definition PRODUCT_RULE_KEYS :: "string list" where
  "PRODUCT_RULE_KEYS = [
    ''FULL_HOUSE'', ''MIX_01'', ''MIX_02'', ''MIX_03'', ''MIX_04'', ''MIX_05'', ''MIX_06'',
    ''MIX_07'', ''MIX_08'', ''MIX_09'', ''MIX_10'', ''MIX_11'', ''MIX_12'', ''BIG_H'',
    ''MIX_13'', ''HALF_HOUSE_10_DIRECTIONS'', ''THREE_LINES'', ''THREE_ROWS_ONE_DIAGONAL'',
    ''TWO_DIAGONALS_ONE_ROW'', ''THREE_PARALLEL_LINES'', ''FOUR_LINES_WITHOUT_DIAGONAL'',
    ''HALF_HOUSE_4_DIRECTIONS'', ''MIX_14'', ''BIG_CROSS_ONE_DIAGONAL'',
    ''TWO_ROWS_ONE_SQUARE_ALT'', ''SIX_LINES'', ''THREE_COLUMNS'', ''FOUR_PARALLEL_LINES'',
    ''FOUR_ANGLES_TWO_SQUARES'', ''FOUR_LINES'', ''THREE_ROWS'', ''TWO_ROWS_ONE_COLUMN'',
    ''TWO_DIAGONALS'', ''ONE_COLUMN_ONE_ROW_ONE_SQUARE'', ''BIG_T_ONE_DIAGONAL'',
    ''BIG_N_OR_Z'', ''BIG_M_OR_W'', ''THREE_RECTANGLES'', ''BIG_T_TWO_LINES'',
    ''ONE_LINE_TWO_TRIANGLES'', ''SMALL_T_TWO_SQUARES'', ''ONE_LINE_TRIANGLE_4X4'',
    ''BIG_L_ONE_RECTANGLE'', ''TWO_ANGLES_THREE_LINES'', ''ONE_ANGLE_ROW_COLUMN_DIAGONAL'',
    ''BIG_T_ONE_DIAGONAL_ONE_SQUARE'', ''TWO_LINES_TWO_SQUARES'',
    ''ONE_LINE_THREE_SQUARES'', ''EIGHT_LINES'', ''THREE_ROWS_TWO_COLUMNS'',
    ''FOUR_ANGLES_TWO_RECTANGLES'', ''TWO_PARALLEL_LINES_TWO_DIAGONALS'',
    ''THREE_PARALLEL_LINES_ONE_DIAGONAL'', ''BIG_T_THREE_SQUARES'', ''THREE_SMALL_T'',
    ''BIG_CROSS_ONE_SQUARE'', ''TWO_LINES_FREE_TWO_WITHOUT_FREE'',
    ''SMALL_CROSS_TRIANGLE_SQUARE'', ''FOUR_LINES_WITHOUT_FREE'',
    ''THREE_SQUARES_TWO_ANGLES'']"

definition RULE_ACTIVE_KEYS :: "string set" where
  "RULE_ACTIVE_KEYS = set PRODUCT_RULE_KEYS"

definition getRulePattern :: "string \<Rightarrow> game_rule_pattern option" where
  "getRulePattern ruleKey = RULE_PATTERN_DEFINITIONS (js_upper (js_trim ruleKey))"

section \<open>Well-formed patterns\<close>

definition wf_groups :: "string list option \<Rightarrow> bool" where
  "wf_groups gs =
     (case gs of None \<Rightarrow> True | Some xs \<Rightarrow> xs \<noteq> [] \<and> list_all (\<lambda>g. js_trim g \<noteq> []) xs)"

definition wf_requirement :: "combo_requirement \<Rightarrow> bool" where
  "wf_requirement r \<longleftrightarrow>
     0 < rq_count r \<and>
     (case rq_group r of None \<Rightarrow> True | Some g \<Rightarrow> g \<noteq> [] \<and> js_trim g = g) \<and>
     wf_groups (rq_mustNotOverlapGroups r) \<and> wf_groups (rq_mustNotBeContainedInGroups r) \<and>
     (case rq_constraints r of
        None \<Rightarrow> True
      | Some cs \<Rightarrow> cs_touchesFree cs \<noteq> None \<or> cs_allowDiagonal cs \<noteq> None \<or> cs_parallelOnly cs \<noteq> None)"

fun wf_pattern :: "game_rule_pattern \<Rightarrow> bool" where
  "wf_pattern (Rows_Required count) = (0 < count)"
| "wf_pattern (Pattern_Group groups) =
     (groups \<noteq> [] \<and> list_all (\<lambda>g. g \<noteq> [] \<and> list_all on_board g) groups)"
| "wf_pattern (Combo combo) =
     (cb_requires combo \<noteq> [] \<and> list_all wf_requirement (cb_requires combo))"
| "wf_pattern _ = True"

fun mixed_kinds_apart :: "game_rule_pattern \<Rightarrow> bool" where
  "mixed_kinds_apart (Combo combo) = kinds_apart combo"
| "mixed_kinds_apart _ = True"

lemma rule_entries_wf: "list_all (\<lambda>e. wf_pattern (snd e)) rule_entries"
  by code_simp

lemma rule_entries_kinds_apart: "list_all (\<lambda>e. mixed_kinds_apart (snd e)) rule_entries"
  by code_simp

lemma RULE_PATTERN_DEFINITIONS_mem:
  "RULE_PATTERN_DEFINITIONS key = Some p \<Longrightarrow> (key, p) \<in> set rule_entries"
  unfolding RULE_PATTERN_DEFINITIONS_def by (metis map_of_SomeD set_rev)

lemma definition_wf: "RULE_PATTERN_DEFINITIONS key = Some p \<Longrightarrow> wf_pattern p \<and> mixed_kinds_apart p"
  using rule_entries_wf rule_entries_kinds_apart RULE_PATTERN_DEFINITIONS_mem
  unfolding list_all_iff by fastforce

lemma getRulePattern_wf: "getRulePattern key = Some p \<Longrightarrow> wf_pattern p \<and> mixed_kinds_apart p"
  unfolding getRulePattern_def by (rule definition_wf)

lemma wf_counts_positive: "wf_pattern (Combo combo) \<Longrightarrow> counts_positive combo"
  by (auto simp: counts_positive_def list_all_iff wf_requirement_def)

end
