(* ===== verification/RuleJson.thy ===== *)
theory RuleJson
  imports RuleCatalog
begin

text \<open>
  Reading a rule pattern from the JSON column of a game rule and writing it there:
  \<open>parseGameRulePattern\<close>, its helpers and \<open>toSeedPatternJson\<close> of
  \<open>src/src/game-rules/patterns/game-rule.patterns.ts\<close>. Whatever the parser accepts is well
  formed, and it reads back every well-formed pattern that was written.
\<close>

section \<open>Names\<close>

fun kind_name :: "pattern_kind \<Rightarrow> string" where
  "kind_name LINE = ''LINE''"
| "kind_name ROW = ''ROW''"
| "kind_name COLUMN = ''COLUMN''"
| "kind_name DIAGONAL = ''DIAGONAL''"
| "kind_name LINE_TOUCHES_FREE = ''LINE_TOUCHES_FREE''"
| "kind_name LINES_WITHOUT_FREE = ''LINES_WITHOUT_FREE''"
| "kind_name SQUARE_2X2 = ''SQUARE_2X2''"
| "kind_name BIG_L = ''BIG_L''"
| "kind_name BIG_T = ''BIG_T''"
| "kind_name BIG_H = ''BIG_H''"
| "kind_name BIG_CROSS = ''BIG_CROSS''"
| "kind_name FOUR_CORNERS = ''FOUR_CORNERS''"
| "kind_name RIGHT_SHAPE = ''RIGHT_SHAPE''"
| "kind_name HALF_HOUSE_10_DIRECTION = ''HALF_HOUSE_10_DIRECTION''"
| "kind_name HALF_HOUSE_4_DIRECTION = ''HALF_HOUSE_4_DIRECTION''"
| "kind_name RECTANGLE_2X3_OR_3X2 = ''RECTANGLE_2X3_OR_3X2''"
| "kind_name TRIANGLE_6 = ''TRIANGLE_6''"
| "kind_name TRIANGLE_4X4 = ''TRIANGLE_4X4''"
| "kind_name SMALL_T = ''SMALL_T''"
| "kind_name SMALL_CROSS = ''SMALL_CROSS''"
| "kind_name CORNER = ''CORNER''"

definition validKinds :: "pattern_kind list" where
  "validKinds =
     [LINE, ROW, COLUMN, DIAGONAL, LINE_TOUCHES_FREE, LINES_WITHOUT_FREE, SQUARE_2X2, BIG_L, BIG_T,
      BIG_H, BIG_CROSS, FOUR_CORNERS, RIGHT_SHAPE, HALF_HOUSE_10_DIRECTION,
      HALF_HOUSE_4_DIRECTION, RECTANGLE_2X3_OR_3X2, TRIANGLE_6, TRIANGLE_4X4, SMALL_T,
      SMALL_CROSS, CORNER]"

fun overlap_name :: "overlap_mode \<Rightarrow> string" where
  "overlap_name ALLOW = ''ALLOW''"
| "overlap_name DISALLOW = ''DISALLOW''"
| "overlap_name MIXED = ''MIXED''"

section \<open>Parsing\<close>

text \<open>\<open>xs.filter((x) => x !== null)\<close>\<close>

definition non_null :: "'a option list \<Rightarrow> 'a list" where
  "non_null xs = map the (filter (\<lambda>x. x \<noteq> None) xs)"

text \<open>The loop over the cells of a group; one bad cell discards the whole group.\<close>

fun parse_cells :: "js list \<Rightarrow> board_coord list \<Rightarrow> board_coord list option" where
  "parse_cells [] coords = Some coords"
| "parse_cells (cell # cells) coords =
     (case cell of
        Arr [Num row, Num col] \<Rightarrow>
          if row < 0 \<or> row > 4 \<or> col < 0 \<or> col > 4 then None
          else parse_cells cells (coords @ [(row, col)])
      | _ \<Rightarrow> None)"

fun parsePatternGroup :: "js \<Rightarrow> board_coord list option" where
  "parsePatternGroup (Arr cells) =
     (case parse_cells cells [] of
        None \<Rightarrow> None
      | Some coords \<Rightarrow> if length coords > 0 then Some coords else None)"
| "parsePatternGroup _ = None"

fun js_bool :: "js \<Rightarrow> bool option" where
  "js_bool (Bool x) = Some x"
| "js_bool _ = None"

definition parsePatternConstraints :: "js \<Rightarrow> pattern_constraints option" where
  "parsePatternConstraints v =
     (if \<not> js_is_object v then None
      else
        let cs = \<lparr>cs_touchesFree = js_bool (js_prop v ''touchesFree''),
                  cs_allowDiagonal = js_bool (js_prop v ''allowDiagonal''),
                  cs_parallelOnly = js_bool (js_prop v ''parallelOnly'')\<rparr>
        in if cs_touchesFree cs \<noteq> None \<or> cs_allowDiagonal cs \<noteq> None \<or> cs_parallelOnly cs \<noteq> None
           then Some cs else None)"

fun js_nonblank :: "js \<Rightarrow> bool" where
  "js_nonblank (Str s) = (length (js_trim s) > 0)"
| "js_nonblank _ = False"

fun js_text :: "js \<Rightarrow> string" where
  "js_text (Str s) = s"
| "js_text _ = []"

definition parse_group_names :: "js \<Rightarrow> string list option" where
  "parse_group_names v =
     (case v of
        Arr entries \<Rightarrow>
          (let groups = map js_text (filter js_nonblank entries) in
           if length groups > 0 then Some groups else None)
      | _ \<Rightarrow> None)"

text \<open>The requirement built once its kind and count are read.\<close>

definition read_requirement :: "js \<Rightarrow> pattern_kind \<Rightarrow> int \<Rightarrow> combo_requirement" where
  "read_requirement v parsedKind count =
     \<lparr>rq_kind = parsedKind, rq_count = count,
      rq_group = (if js_nonblank (js_prop v ''group'')
                  then Some (js_trim (js_text (js_prop v ''group''))) else None),
      rq_mustNotOverlapGroups = parse_group_names (js_prop v ''mustNotOverlapGroups''),
      rq_mustNotBeContainedInGroups = parse_group_names (js_prop v ''mustNotBeContainedInGroups''),
      rq_constraints = parsePatternConstraints (js_prop v ''constraints'')\<rparr>"

definition parseComboRequirement :: "js \<Rightarrow> combo_requirement option" where
  "parseComboRequirement v =
     (if \<not> js_is_object v then None
      else
        (case js_prop v ''kind'' of
           Str kind \<Rightarrow>
             (case js_prop v ''count'' of
                Num count \<Rightarrow>
                  if count \<le> 0 then None
                  else map_option (\<lambda>parsedKind. read_requirement v parsedKind count)
                    (find (\<lambda>k. kind_name k = js_upper (js_trim kind)) validKinds)
              | _ \<Rightarrow> None)
         | _ \<Rightarrow> None))"

definition parse_overlap :: "js \<Rightarrow> overlap_mode option" where
  "parse_overlap v =
     (case v of
        Str s \<Rightarrow> find (\<lambda>m. overlap_name m = s) [ALLOW, DISALLOW, MIXED]
      | _ \<Rightarrow> None)"

definition parseComboPattern :: "js \<Rightarrow> combo_pattern option" where
  "parseComboPattern candidate =
     (case parse_overlap (js_prop candidate ''overlap'') of
        None \<Rightarrow> None
      | Some overlap \<Rightarrow>
          (case js_prop candidate ''requires'' of
             Arr entries \<Rightarrow>
               (let requires = non_null (map parseComboRequirement entries) in
                if length requires = 0 then None
                else Some \<lparr>cb_overlap = overlap, cb_requires = requires\<rparr>)
           | _ \<Rightarrow> None))"

definition parseGameRulePattern :: "js \<Rightarrow> game_rule_pattern option" where
  "parseGameRulePattern patterns =
     (if \<not> js_is_object patterns then None
      else
        (case js_prop patterns ''type'' of
           Str type \<Rightarrow>
             if type = [] then None
             else if type = ''FULL_HOUSE'' then Some Full_House
             else if type = ''ROWS_REQUIRED'' then
               (case js_prop patterns ''count'' of
                  Num count \<Rightarrow> if count > 0 then Some (Rows_Required count) else None
                | _ \<Rightarrow> None)
             else if type = ''ANY_LINE'' then Some Any_Line
             else if type = ''ANY_ROW'' then Some Any_Row
             else if type = ''ANY_COLUMN'' then Some Any_Column
             else if type = ''ANY_DIAGONAL'' then Some Any_Diagonal
             else if type = ''LINE_TOUCHES_FREE'' then Some Line_Touches_Free
             else if type = ''LINE_WITHOUT_FREE'' then Some Line_Without_Free
             else if type = ''PATTERN_GROUP'' then
               (case js_prop patterns ''patterns'' of
                  Arr entries \<Rightarrow>
                    (let parsedPatterns = non_null (map parsePatternGroup entries) in
                     if length parsedPatterns > 0 then Some (Pattern_Group parsedPatterns) else None)
                | _ \<Rightarrow> None)
             else if type = ''COMBO'' then map_option Combo (parseComboPattern patterns)
             else None
         | _ \<Rightarrow> None))"

section \<open>Writing\<close>

definition opt_prop :: "string \<Rightarrow> ('a \<Rightarrow> js) \<Rightarrow> 'a option \<Rightarrow> (string \<times> js) list" where
  "opt_prop key f x = (case x of None \<Rightarrow> [] | Some v \<Rightarrow> [(key, f v)])"

definition strings_json :: "string list \<Rightarrow> js" where
  "strings_json ss = Arr (map Str ss)"

definition constraints_json :: "pattern_constraints \<Rightarrow> js" where
  "constraints_json cs =
     Obj (opt_prop ''touchesFree'' Bool (cs_touchesFree cs) @
          opt_prop ''allowDiagonal'' Bool (cs_allowDiagonal cs) @
          opt_prop ''parallelOnly'' Bool (cs_parallelOnly cs))"

definition requirement_json :: "combo_requirement \<Rightarrow> js" where
  "requirement_json r =
     Obj ([(''kind'', Str (kind_name (rq_kind r))), (''count'', Num (rq_count r))] @
          opt_prop ''group'' Str (rq_group r) @
          opt_prop ''mustNotOverlapGroups'' strings_json (rq_mustNotOverlapGroups r) @
          opt_prop ''mustNotBeContainedInGroups'' strings_json (rq_mustNotBeContainedInGroups r) @
          opt_prop ''constraints'' constraints_json (rq_constraints r))"

definition coord_json :: "board_coord \<Rightarrow> js" where
  "coord_json rc = Arr [Num (fst rc), Num (snd rc)]"

fun toSeedPatternJson :: "game_rule_pattern \<Rightarrow> js" where
  "toSeedPatternJson Full_House = Obj [(''type'', Str ''FULL_HOUSE'')]"
| "toSeedPatternJson (Rows_Required count) =
     Obj [(''type'', Str ''ROWS_REQUIRED''), (''count'', Num count)]"
| "toSeedPatternJson Any_Line = Obj [(''type'', Str ''ANY_LINE'')]"
| "toSeedPatternJson Any_Row = Obj [(''type'', Str ''ANY_ROW'')]"
| "toSeedPatternJson Any_Column = Obj [(''type'', Str ''ANY_COLUMN'')]"
| "toSeedPatternJson Any_Diagonal = Obj [(''type'', Str ''ANY_DIAGONAL'')]"
| "toSeedPatternJson Line_Touches_Free = Obj [(''type'', Str ''LINE_TOUCHES_FREE'')]"
| "toSeedPatternJson Line_Without_Free = Obj [(''type'', Str ''LINE_WITHOUT_FREE'')]"
| "toSeedPatternJson (Pattern_Group groups) =
     Obj [(''type'', Str ''PATTERN_GROUP''),
          (''patterns'', Arr (map (\<lambda>g. Arr (map coord_json g)) groups))]"
| "toSeedPatternJson (Combo combo) =
     Obj [(''type'', Str ''COMBO''), (''overlap'', Str (overlap_name (cb_overlap combo))),
          (''requires'', Arr (map requirement_json (cb_requires combo)))]"

section \<open>What the parser accepts is well formed\<close>

lemma parse_cells_on_board:
  "parse_cells cells coords = Some out \<Longrightarrow> list_all on_board coords \<Longrightarrow> list_all on_board out"
  by (induction cells coords rule: parse_cells.induct)
    (auto simp: on_board_def split: js.splits list.splits if_splits)

lemma parsePatternGroup_wf:
  "parsePatternGroup v = Some g \<Longrightarrow> g \<noteq> [] \<and> list_all on_board g"
  by (cases v) (auto split: option.splits if_splits dest: parse_cells_on_board)

lemma parse_group_names_wf: "wf_groups (parse_group_names v)"
  by (cases v) (auto simp: wf_groups_def parse_group_names_def Let_def list_all_iff
      elim!: js_nonblank.elims)

lemma js_trim_idem: "js_trim (js_trim s) = js_trim s"
proof -
  define t where "t = dropWhile js_space s"
  define u where "u = dropWhile js_space (rev t)"
  have "t = rev u @ rev (takeWhile js_space (rev t))"
    unfolding u_def by (metis rev_append rev_rev_ident takeWhile_dropWhile_id)
  then have "rev u = [] \<or> hd (rev u) = hd t" by (metis hd_append2)
  moreover have "t = [] \<or> \<not> js_space (hd t)"
    unfolding t_def by (metis hd_dropWhile)
  ultimately have "dropWhile js_space (rev u) = rev u"
    using \<open>t = rev u @ _\<close> by (metis append_is_Nil_conv dropWhile_eq_self_iff)
  moreover have "dropWhile js_space u = u" by (simp add: u_def dropWhile_idem)
  ultimately show ?thesis by (simp add: js_trim_def flip: t_def u_def)
qed

lemma list_all_non_null:
  "(\<And>v r. f v = Some r \<Longrightarrow> P r) \<Longrightarrow> list_all P (non_null (map f vs))"
  by (induction vs) (auto simp: non_null_def)

lemma read_requirement_wf: "0 < count \<Longrightarrow> wf_requirement (read_requirement v kind count)"
proof -
  have "case parsePatternConstraints w of
        None \<Rightarrow> True
      | Some cs \<Rightarrow> cs_touchesFree cs \<noteq> None \<or> cs_allowDiagonal cs \<noteq> None \<or> cs_parallelOnly cs \<noteq> None"
    for w
    by (simp add: parsePatternConstraints_def Let_def)
  moreover have "js_nonblank w \<Longrightarrow> js_trim (js_text w) \<noteq> []" for w
    by (cases w) simp_all
  ultimately show "0 < count \<Longrightarrow> wf_requirement (read_requirement v kind count)"
    by (simp add: wf_requirement_def read_requirement_def parse_group_names_wf js_trim_idem)
qed

lemma parseComboRequirement_wf: "parseComboRequirement v = Some r \<Longrightarrow> wf_requirement r"
  unfolding parseComboRequirement_def
  by (auto split: if_splits js.splits intro: read_requirement_wf)

lemma parseComboPattern_wf: "parseComboPattern v = Some combo \<Longrightarrow> wf_pattern (Combo combo)"
  unfolding parseComboPattern_def Let_def
  by (auto split: if_splits js.splits option.splits
      intro!: list_all_non_null parseComboRequirement_wf)

lemma parseGameRulePattern_wf: "parseGameRulePattern v = Some p \<Longrightarrow> wf_pattern p"
  unfolding parseGameRulePattern_def Let_def
  by (auto simp del: parsePatternGroup.simps split: if_splits js.splits
      intro!: list_all_non_null dest: parsePatternGroup_wf parseComboPattern_wf)

section \<open>Round trip\<close>

lemma find_kind: "find (\<lambda>k. kind_name k = kind_name kind) validKinds = Some kind"
  by (cases kind) (simp_all add: validKinds_def)

lemma kind_name_normal: "js_upper (js_trim (kind_name kind)) = kind_name kind"
  by (cases kind) (simp_all, code_simp+)

lemma parse_coords: "list_all on_board g \<Longrightarrow> parse_cells (map coord_json g) acc = Some (acc @ g)"
  by (induction g arbitrary: acc) (auto simp: coord_json_def on_board_def)

lemma parse_strings_json:
  "wf_groups (Some gs) \<Longrightarrow> parse_group_names (strings_json gs) = Some gs"
  by (simp add: parse_group_names_def strings_json_def wf_groups_def filter_map o_def list_all_iff)

lemma parse_constraints_json:
  "cs_touchesFree cs \<noteq> None \<or> cs_allowDiagonal cs \<noteq> None \<or> cs_parallelOnly cs \<noteq> None \<Longrightarrow>
   parsePatternConstraints (constraints_json cs) = Some cs"
  by (cases cs) (auto simp: parsePatternConstraints_def constraints_json_def opt_prop_def
      split: option.splits)

lemma requirement_json_props:
  "js_prop (requirement_json r) ''kind'' = Str (kind_name (rq_kind r))"
  "js_prop (requirement_json r) ''count'' = Num (rq_count r)"
  "js_prop (requirement_json r) ''group'' =
     (case rq_group r of None \<Rightarrow> Undefined | Some g \<Rightarrow> Str g)"
  "js_prop (requirement_json r) ''mustNotOverlapGroups'' =
     (case rq_mustNotOverlapGroups r of None \<Rightarrow> Undefined | Some gs \<Rightarrow> strings_json gs)"
  "js_prop (requirement_json r) ''mustNotBeContainedInGroups'' =
     (case rq_mustNotBeContainedInGroups r of None \<Rightarrow> Undefined | Some gs \<Rightarrow> strings_json gs)"
  "js_prop (requirement_json r) ''constraints'' =
     (case rq_constraints r of None \<Rightarrow> Undefined | Some cs \<Rightarrow> constraints_json cs)"
  "js_is_object (requirement_json r)"
  by (simp_all add: requirement_json_def opt_prop_def split: option.splits)

lemma parse_undefined:
  "parse_group_names Undefined = None" "parsePatternConstraints Undefined = None"
  by (simp_all add: parse_group_names_def parsePatternConstraints_def)

lemma parse_optional_groups:
  "wf_groups gs \<Longrightarrow>
   parse_group_names (case gs of None \<Rightarrow> Undefined | Some xs \<Rightarrow> strings_json xs) = gs"
  by (cases gs) (simp_all add: parse_strings_json parse_undefined)

lemma read_requirement_json:
  assumes "wf_requirement r"
  shows "read_requirement (requirement_json r) (rq_kind r) (rq_count r) = r"
proof -
  have wf: "wf_groups (rq_mustNotOverlapGroups r)" "wf_groups (rq_mustNotBeContainedInGroups r)"
    using assms by (simp_all add: wf_requirement_def)
  have constraints: "parsePatternConstraints
      (case rq_constraints r of None \<Rightarrow> Undefined | Some cs \<Rightarrow> constraints_json cs) = rq_constraints r"
    using assms unfolding wf_requirement_def
    by (cases "rq_constraints r") (simp_all add: parse_constraints_json parse_undefined)
  have group: "(if js_nonblank (case rq_group r of None \<Rightarrow> Undefined | Some g \<Rightarrow> Str g)
      then Some (js_trim (js_text (case rq_group r of None \<Rightarrow> Undefined | Some g \<Rightarrow> Str g)))
      else None) = rq_group r"
    using assms by (cases "rq_group r") (auto simp: wf_requirement_def)
  show ?thesis
    unfolding read_requirement_def requirement_json_props parse_optional_groups [OF wf(1)]
      parse_optional_groups [OF wf(2)] constraints group
    by simp
qed

lemma parse_requirement_json:
  "wf_requirement r \<Longrightarrow> parseComboRequirement (requirement_json r) = Some r"
  by (simp add: parseComboRequirement_def requirement_json_props kind_name_normal find_kind
      read_requirement_json) (simp add: wf_requirement_def)

lemma parse_overlap_name: "parse_overlap (Str (overlap_name m)) = Some m"
  by (cases m) (simp_all add: parse_overlap_def)

lemma non_null_written:
  "list_all P xs \<Longrightarrow> (\<And>x. P x \<Longrightarrow> parse (write x) = Some x) \<Longrightarrow>
   non_null (map parse (map write xs)) = xs"
  by (induction xs) (auto simp: non_null_def)

lemma parse_combo_json:
  assumes "wf_pattern (Combo combo)"
  shows "parseComboPattern (toSeedPatternJson (Combo combo)) = Some combo"
proof -
  have "non_null (map parseComboRequirement (map requirement_json (cb_requires combo))) =
      cb_requires combo"
    using assms by (intro non_null_written [of wf_requirement]) (simp_all add: parse_requirement_json)
  then show ?thesis
    using assms by (simp add: parseComboPattern_def parse_overlap_name Let_def del: map_map)
qed

lemma parse_groups_json:
  assumes "list_all (\<lambda>g. g \<noteq> [] \<and> list_all on_board g) groups"
  shows "non_null (map parsePatternGroup (map (\<lambda>g. Arr (map coord_json g)) groups)) = groups"
  using assms by (rule non_null_written) (simp add: parse_coords)

lemma parse_written: "wf_pattern p \<Longrightarrow> parseGameRulePattern (toSeedPatternJson p) = Some p"
proof (cases p)
  case (Combo combo)
  then show "wf_pattern p \<Longrightarrow> parseGameRulePattern (toSeedPatternJson p) = Some p"
    using parse_combo_json by (simp add: parseGameRulePattern_def)
next
  case (Pattern_Group groups)
  then show "wf_pattern p \<Longrightarrow> parseGameRulePattern (toSeedPatternJson p) = Some p"
    using parse_groups_json by (simp add: parseGameRulePattern_def Let_def del: map_map)
qed (simp_all add: parseGameRulePattern_def)

end
