(* ===== verification/SeedRules.thy ===== *)
theory SeedRules
  imports RuleJson
begin

text \<open>
  Seeding the game rules: \<open>src/src/game-rules/game-rule.seed-data.ts\<close>, the clean-up of removed
  rules in \<open>game-rule-legacy-cleanup.ts\<close> and \<open>src/src/seed/seed-game-rules-from-json.ts\<close>. The
  table of game rules is a list of rows with one row per key; the number of game slots that
  reference a rule is a function of its id, which these operations do not change. The lemmas
  show that seeding has a definition for every rule it names, and which rows the clean-up
  deletes, deactivates and leaves alone.
\<close>

section \<open>Seed data\<close>

definition LEGACY_REMOVED_KEYS :: "string list" where
  "LEGACY_REMOVED_KEYS = [
    ''MANUAL'', ''HALF_HOUSE'', ''LINE'', ''COLUMNS'', ''ROWS'', ''DIAGONAL'',
    ''FOUR_CORNERS'', ''LINE_TOUCHES_FREE'', ''LINES_WITHOUT_FREE'', ''SQUARE'',
    ''RECTANGLE'', ''TWO_TRIANGLE'', ''FOUR_BY_FOUR_TRIANGLE'', ''PYRAMID'',
    ''BIG_L_SHAPE'', ''BIG_T'', ''BIG_N'', ''BIG_Y'', ''BIG_CROSS'', ''RIGHT_SHAPE'',
    ''SMALL_T'', ''SMALL_X'', ''SMALL_O'', ''SMALL_H'', ''SMALL_CROSS'', ''SMALL_L'',
    ''MIXED_JOIN'', ''FIVE_LINES'', ''SEVEN_LINES'', ''BIG_L_ONE_DIAGONAL'']"

definition ruleNames_1 :: "(string \<times> string \<times> string) list" where
  "ruleNames_1 = [
    (''FULL_HOUSE'', ''Full House'',
      ''Complete all 25 cells on the cartela.''),
    (''MIX_01'', ''2 Col + 2 Row + 1 Diag'',
      ''Complete 2 columns, 2 rows, and 1 diagonal. Overlap allowed.''),
    (''MIX_02'', ''4 Squares'',
      ''Complete 4 separate 2x2 squares. Overlap not allowed.''),
    (''MIX_03'', ''3 Col + 1 Diag'',
      ''Complete 3 columns and 1 diagonal. Overlap allowed.''),
    (''MIX_04'', ''Big T + 2 Squares'',
      ''Complete a big T and 2 squares. Overlap not allowed.''),
    (''MIX_05'', ''5 Lines'',
      ''Complete 5 lines (row, column, or diagonal). Overlap allowed.''),
    (''MIX_06'', ''3 Lines Without Free'',
      ''Complete 3 lines that do not pass through FREE. Overlap allowed.''),
    (''MIX_07'', ''Big L + 1 Diag'',
      ''Complete a big L and 1 diagonal. Overlap allowed.''),
    (''MIX_08'', ''2 Rows + 1 Square'',
      ''Complete 2 rows and 1 square. Overlap not allowed.''),
    (''MIX_09'', ''1 Col + 1 Row + 1 Diag'',
      ''Complete 1 column, 1 row, and 1 diagonal. Overlap allowed.''),
    (''MIX_10'', ''7 Lines'',
      ''Complete 7 lines (row, column, or diagonal). Overlap allowed.''),
    (''MIX_11'', ''3 Squares'',
      ''Complete 3 separate 2x2 squares. Overlap not allowed.''),
    (''MIX_12'', ''3 Lines Touching Free'',
      ''Complete 3 lines that pass through FREE. Overlap allowed.''),
    (''BIG_H'', ''Big H'',
      ''Complete the big H shape pattern. Overlap allowed.''),
    (''MIX_13'', ''2 Col + 2 Row'',
      ''Complete 2 columns and 2 rows. Overlap allowed.''),
    (''HALF_HOUSE_10_DIRECTIONS'', ''Half House'',
      ''Complete one of the 10 half-house patterns.''),
    (''THREE_LINES'', ''3 Lines'',
      ''Complete 3 lines (row, column, or diagonal). Overlap allowed.''),
    (''THREE_ROWS_ONE_DIAGONAL'', ''3 Rows + 1 Diag'',
      ''Complete 3 rows and 1 diagonal. Overlap allowed.''),
    (''TWO_DIAGONALS_ONE_ROW'', ''2 Diags + 1 Row'',
      ''Complete 2 diagonals and 1 row. Overlap allowed.''),
    (''THREE_PARALLEL_LINES'', ''3 Parallel Lines'',
      ''Complete 3 parallel lines (all rows or all columns). Overlap not allowed.''),
    (''FOUR_LINES_WITHOUT_DIAGONAL'', ''4 Lines Without Diag'',
      ''Complete 4 lines using rows/columns only (no diagonals). Overlap allowed.''),
    (''HALF_HOUSE_4_DIRECTIONS'', ''Half House 4 Directions'',
      ''Complete one of the 4 diagonal half-house patterns.'')]"

definition ruleNames_2 :: "(string \<times> string \<times> string) list" where
  "ruleNames_2 = [
    (''MIX_14'', ''1 Line With Free + 2 Without'',
      ''Complete 1 line through FREE and 2 lines that avoid FREE. Overlap allowed.''),
    (''BIG_CROSS_ONE_DIAGONAL'', ''Big Cross + 1 Diag'',
      ''Complete a big cross and 1 diagonal. Overlap allowed.''),
    (''TWO_ROWS_ONE_SQUARE_ALT'', ''2 Rows + 1 Square'',
      ''Complete 2 rows and 1 square. Overlap not allowed.''),
    (''SIX_LINES'', ''6 Lines'',
      ''Complete 6 lines (row, column, or diagonal). Overlap allowed.''),
    (''THREE_COLUMNS'', ''3 Columns'',
      ''Complete any 3 full columns. Overlap allowed.''),
    (''FOUR_PARALLEL_LINES'', ''4 Parallel Lines'',
      ''Complete 4 parallel lines (all rows or all columns). Overlap not allowed.''),
    (''FOUR_ANGLES_TWO_SQUARES'', ''4 Angles + 2 Squares'',
      ''Complete the 4 corner cells and 2 squares. Squares must not overlap each other or any corner cell.''),
    (''FOUR_LINES'', ''4 Lines'',
      ''Complete 4 lines (row, column, or diagonal). Overlap allowed.''),
    (''THREE_ROWS'', ''3 Rows'',
      ''Complete any 3 full rows. Overlap allowed.''),
    (''TWO_ROWS_ONE_COLUMN'', ''2 Rows + 1 Col'',
      ''Complete 2 rows and 1 column. Overlap allowed.''),
    (''TWO_DIAGONALS'', ''2 Diagonals'',
      ''Complete both diagonals. Overlap allowed.''),
    (''ONE_COLUMN_ONE_ROW_ONE_SQUARE'', ''1 Col + 1 Row + 1 Square'',
      ''Complete 1 column, 1 row, and 1 square. Column and row may overlap; square must not overlap the line patterns.''),
    (''BIG_T_ONE_DIAGONAL'', ''Big T + 1 Diag'',
      ''Complete a big T and 1 diagonal. Overlap allowed.''),
    (''BIG_N_OR_Z'', ''Big N / Z'',
      ''Complete the big N or the big Z (2 orientations).''),
    (''BIG_M_OR_W'', ''Big M / W'',
      ''Complete the big M, big W, or either sideways orientation (4 options).''),
    (''THREE_RECTANGLES'', ''3 Rectangles'',
      ''Complete 3 non-overlapping rectangles. Each rectangle is 3x2 or 2x3.''),
    (''BIG_T_TWO_LINES'', ''Big T & 2 Lines'',
      ''Complete a big T plus 2 more lines (row, column, or diagonal). The 2 lines must be different from the T's own row and column, but they may cross it.''),
    (''ONE_LINE_TWO_TRIANGLES'', ''1 Line & 2 Triangles'',
      ''Complete 1 line and 2 triangles. Overlap not allowed.''),
    (''SMALL_T_TWO_SQUARES'', ''Small T & 2 Squares'',
      ''Complete 1 small T and 2 squares. Overlap not allowed.''),
    (''ONE_LINE_TRIANGLE_4X4'', ''1 Line & Triangle 4x4'',
      ''Complete 1 line and one 4x4 triangle. Overlap not allowed.'')]"

definition ruleNames_3 :: "(string \<times> string \<times> string) list" where
  "ruleNames_3 = [
    (''BIG_L_ONE_RECTANGLE'', ''Big L & Rectangle'',
      ''Complete a big L and 1 rectangle (2x3 or 3x2). Overlap not allowed.''),
    (''TWO_ANGLES_THREE_LINES'', ''2 Angles & 3 Lines'',
      ''Complete 2 of the 4 corner angles and 3 lines. Lines may overlap; angles must not sit on the lines.''),
    (''ONE_ANGLE_ROW_COLUMN_DIAGONAL'', ''1 Angle Row Col Diag'',
      ''Complete the row, column, and diagonal that meet at one of the four corner angles (B1, O1, B5, or O5).''),
    (''BIG_T_ONE_DIAGONAL_ONE_SQUARE'', ''Big T + Diag + Square'',
      ''Complete a big T, 1 diagonal, and 1 square. Big T and diagonal may overlap; the square must not overlap either.''),
    (''TWO_LINES_TWO_SQUARES'', ''2 Lines & 2 Squares'',
      ''Complete 2 lines and 2 squares. Lines may overlap; squares must not overlap each other or the lines.''),
    (''ONE_LINE_THREE_SQUARES'', ''1 Line & 3 Squares'',
      ''Complete 1 line and 3 squares. Overlap not allowed.''),
    (''EIGHT_LINES'', ''8 Lines'',
      ''Complete 8 lines (row, column, or diagonal). Overlap allowed.''),
    (''THREE_ROWS_TWO_COLUMNS'', ''3 Rows & 2 Columns'',
      ''Complete 3 rows and 2 columns. Overlap allowed.''),
    (''FOUR_ANGLES_TWO_RECTANGLES'', ''4 Angles & 2 Rectangles'',
      ''Complete the 4 corner cells and 2 rectangles (2x3 or 3x2). Overlap not allowed.''),
    (''TWO_PARALLEL_LINES_TWO_DIAGONALS'', ''2 Parallel Lines & 2 Diags'',
      ''Complete 2 parallel lines (all rows or all columns) and both diagonals. Overlap allowed.''),
    (''THREE_PARALLEL_LINES_ONE_DIAGONAL'', ''3 Parallel Lines & 1 Diag'',
      ''Complete 3 parallel lines (all rows or all columns) and 1 diagonal. Overlap allowed.''),
    (''BIG_T_THREE_SQUARES'', ''Big T & 3 Squares'',
      ''Complete a big T and 3 squares. Overlap not allowed.''),
    (''THREE_SMALL_T'', ''3 Small T'',
      ''Complete 3 small T shapes. Overlap not allowed.''),
    (''BIG_CROSS_ONE_SQUARE'', ''Big Cross & 1 Square'',
      ''Complete a big cross and 1 square. Overlap not allowed.''),
    (''TWO_LINES_FREE_TWO_WITHOUT_FREE'', ''2 Free Lines & 2 Without Free'',
      ''Complete 2 lines that pass through FREE and 2 lines that avoid FREE. Overlap allowed.''),
    (''SMALL_CROSS_TRIANGLE_SQUARE'', ''Small Cross + Triangle + Square'',
      ''Complete 1 small cross, one 6-cell triangle, and 1 square. Overlap not allowed.''),
    (''FOUR_LINES_WITHOUT_FREE'', ''4 Lines Without Free'',
      ''Complete 4 lines that do not pass through FREE. Overlap allowed.''),
    (''THREE_SQUARES_TWO_ANGLES'', ''3 Squares & 2 Angles'',
      ''Complete 3 squares and 2 of the 4 corner angles. Overlap not allowed.'')]"

definition ruleNames :: "(string \<times> string \<times> string) list" where
  "ruleNames = ruleNames_1 @ ruleNames_2 @ ruleNames_3"

record seed_rule =
  sd_key :: string
  sd_name :: string
  sd_description :: string
  sd_isActive :: bool
  sd_sortOrder :: nat
  sd_patterns :: js

datatype seed_error = Missing_Pattern_Definition string | Seed_File_Empty

fun seed_rules :: "nat \<Rightarrow> (string \<times> string \<times> string) list \<Rightarrow> seed_error + seed_rule list" where
  "seed_rules index [] = Inr []"
| "seed_rules index ((key, name, description) # rules) =
     (case RULE_PATTERN_DEFINITIONS key of
        None \<Rightarrow> Inl (Missing_Pattern_Definition key)
      | Some patternDefinition \<Rightarrow>
          bind_result (seed_rules (index + 1) rules) (\<lambda>rest.
            Inr (\<lparr>sd_key = key, sd_name = name, sd_description = description, sd_isActive = True,
                  sd_sortOrder = index + 1, sd_patterns = toSeedPatternJson patternDefinition\<rparr>
                 # rest)))"

definition seededGameRules :: "seed_error + seed_rule list" where
  "seededGameRules = seed_rules 0 ruleNames"

section \<open>The table of game rules\<close>

record rule_row =
  gr_id :: string
  gr_key :: string
  gr_name :: string
  gr_description :: "string option"
  gr_isActive :: bool
  gr_sortOrder :: int
  gr_patterns :: js

type_synonym rule_table = "rule_row list"

definition legacy_prefix :: string where
  "legacy_prefix = ''Legacy - ''"

definition starts_with :: "string \<Rightarrow> string \<Rightarrow> bool" where
  "starts_with s pre \<longleftrightarrow> take (length pre) s = pre"

definition legacy_name :: "string \<Rightarrow> string" where
  "legacy_name name = (if starts_with name legacy_prefix then name else legacy_prefix @ name)"

definition delete_rule :: "string \<Rightarrow> rule_table \<Rightarrow> rule_table" where
  "delete_rule ident table = filter (\<lambda>row. gr_id row \<noteq> ident) table"

definition deactivate_rule :: "string \<Rightarrow> string \<Rightarrow> rule_table \<Rightarrow> rule_table" where
  "deactivate_rule ident name table =
     map (\<lambda>row. if gr_id row = ident then row\<lparr>gr_isActive := False, gr_name := name\<rparr> else row) table"

record cleanup_result =
  cl_table :: rule_table
  cl_deletedCount :: nat
  cl_deactivatedCount :: nat

definition cleanup_one :: "(string \<Rightarrow> nat) \<Rightarrow> rule_row \<Rightarrow> cleanup_result \<Rightarrow> cleanup_result" where
  "cleanup_one slotCount rule st =
     (if \<not> List.member LEGACY_REMOVED_KEYS (gr_key rule) then st
      else if slotCount (gr_id rule) = 0 then
        st\<lparr>cl_table := delete_rule (gr_id rule) (cl_table st),
           cl_deletedCount := cl_deletedCount st + 1\<rparr>
      else
        st\<lparr>cl_table := deactivate_rule (gr_id rule) (legacy_name (gr_name rule)) (cl_table st),
           cl_deactivatedCount := cl_deactivatedCount st + 1\<rparr>)"

definition cleanupLegacyGameRules :: "(string \<Rightarrow> nat) \<Rightarrow> rule_table \<Rightarrow> cleanup_result" where
  "cleanupLegacyGameRules slotCount table =
     fold (cleanup_one slotCount) table
       \<lparr>cl_table = table, cl_deletedCount = 0, cl_deactivatedCount = 0\<rparr>"

definition upsert_rule :: "rule_row \<Rightarrow> rule_table \<Rightarrow> rule_table" where
  "upsert_rule rule table =
     (if list_ex (\<lambda>row. gr_key row = gr_key rule) table
      then map (\<lambda>row. if gr_key row = gr_key rule
                      then rule\<lparr>gr_id := gr_id row\<rparr> else row) table
      else table @ [rule])"

record seed_summary =
  ss_table :: rule_table
  ss_seededCount :: nat
  ss_deletedLegacyCount :: nat
  ss_deactivatedLegacyCount :: nat

definition seedGameRulesFromJson ::
  "(string \<Rightarrow> nat) \<Rightarrow> rule_row list \<Rightarrow> rule_table \<Rightarrow> seed_error + seed_summary" where
  "seedGameRulesFromJson slotCount rules table =
     (if length rules = 0 then Inl Seed_File_Empty
      else
        let cleanup = cleanupLegacyGameRules slotCount (fold upsert_rule rules table)
        in Inr \<lparr>ss_table = cl_table cleanup, ss_seededCount = length rules,
                ss_deletedLegacyCount = cl_deletedCount cleanup,
                ss_deactivatedLegacyCount = cl_deactivatedCount cleanup\<rparr>)"

section \<open>What seeding and cleaning do\<close>

lemma product_keys_are_rule_names: "map fst ruleNames = PRODUCT_RULE_KEYS"
  by code_simp

lemma product_keys_distinct: "distinct PRODUCT_RULE_KEYS"
  by code_simp

lemma product_keys_not_legacy:
  "list_all (\<lambda>key. \<not> List.member LEGACY_REMOVED_KEYS key) PRODUCT_RULE_KEYS"
  by code_simp

lemma product_keys_defined:
  "list_all (\<lambda>key. RULE_PATTERN_DEFINITIONS key \<noteq> None) PRODUCT_RULE_KEYS"
  by code_simp

lemma seed_rules_defined:
  "list_all (\<lambda>rule. RULE_PATTERN_DEFINITIONS (fst rule) \<noteq> None) rules \<Longrightarrow>
   \<exists>seeds. seed_rules k rules = Inr seeds \<and> map sd_key seeds = map fst rules \<and>
     map sd_sortOrder seeds = map Suc [k..<k + length rules] \<and>
     list_all (\<lambda>s. sd_isActive s \<and>
       (\<exists>p. RULE_PATTERN_DEFINITIONS (sd_key s) = Some p \<and> sd_patterns s = toSeedPatternJson p)) seeds"
proof (induction k rules rule: seed_rules.induct)
  case (2 k key name description rules)
  from 2(2) obtain p where p: "RULE_PATTERN_DEFINITIONS key = Some p" by auto
  with 2 obtain seeds where "seed_rules (k + 1) rules = Inr seeds" "map sd_key seeds = map fst rules"
    "map sd_sortOrder seeds = map Suc [Suc k..<k + Suc (length rules)]"
    "list_all (\<lambda>s. sd_isActive s \<and>
       (\<exists>p. RULE_PATTERN_DEFINITIONS (sd_key s) = Some p \<and> sd_patterns s = toSeedPatternJson p)) seeds"
    by auto
  with p show ?case by (simp add: upt_conv_Cons del: upt_Suc)
qed simp

text \<open>One row after the clean-up; the rows do not influence each other.\<close>

definition cleaned_row :: "(string \<Rightarrow> nat) \<Rightarrow> rule_row \<Rightarrow> rule_row list" where
  "cleaned_row slotCount row =
     (if \<not> List.member LEGACY_REMOVED_KEYS (gr_key row) then [row]
      else if slotCount (gr_id row) = 0 then []
      else [row\<lparr>gr_isActive := False, gr_name := legacy_name (gr_name row)\<rparr>])"

lemma cleaned_row_id: "r \<in> set (cleaned_row slotCount row) \<Longrightarrow> gr_id r = gr_id row"
  by (auto simp: cleaned_row_def split: if_splits)

lemma delete_other: "gr_id row \<notin> gr_id ` set rows \<Longrightarrow> delete_rule (gr_id row) rows = rows"
  unfolding delete_rule_def by (induction rows) auto

lemma deactivate_other: "gr_id row \<notin> gr_id ` set rows \<Longrightarrow> deactivate_rule (gr_id row) name rows = rows"
  unfolding deactivate_rule_def by (induction rows) auto

lemma cleanup_one_table:
  assumes "gr_id row \<notin> gr_id ` set clean" "gr_id row \<notin> gr_id ` set todo"
    and "cl_table st = clean @ row # todo"
  shows "cl_table (cleanup_one slotCount row st) = clean @ cleaned_row slotCount row @ todo"
proof -
  have "delete_rule (gr_id row) (clean @ row # todo) = clean @ todo"
    using delete_other [OF assms(1)] delete_other [OF assms(2)] by (simp add: delete_rule_def)
  moreover have "deactivate_rule (gr_id row) name (clean @ row # todo) =
      clean @ row\<lparr>gr_isActive := False, gr_name := name\<rparr> # todo" for name
    using deactivate_other [OF assms(1)] deactivate_other [OF assms(2)]
    by (simp add: deactivate_rule_def)
  ultimately show ?thesis using assms(3) by (simp add: cleanup_one_def cleaned_row_def)
qed

lemma fold_cleanup_table:
  "cl_table st = clean @ todo \<Longrightarrow> distinct (map gr_id todo) \<Longrightarrow>
   gr_id ` set clean \<inter> gr_id ` set todo = {} \<Longrightarrow>
   cl_table (fold (cleanup_one slotCount) todo st) =
   clean @ concat (map (cleaned_row slotCount) todo)"
proof (induction todo arbitrary: st clean)
  case (Cons row todo)
  have "cl_table (cleanup_one slotCount row st) = (clean @ cleaned_row slotCount row) @ todo"
    using Cons.prems by (subst cleanup_one_table [where todo = todo]) auto
  moreover have "gr_id ` set (clean @ cleaned_row slotCount row) \<inter> gr_id ` set todo = {}"
    using Cons.prems cleaned_row_id by fastforce
  ultimately have "cl_table (fold (cleanup_one slotCount) todo (cleanup_one slotCount row st)) =
      (clean @ cleaned_row slotCount row) @ concat (map (cleaned_row slotCount) todo)"
    using Cons.prems by (intro Cons.IH) simp_all
  then show ?case by simp
qed simp

lemma cleanup_table:
  "distinct (map gr_id table) \<Longrightarrow>
   cl_table (cleanupLegacyGameRules slotCount table) = concat (map (cleaned_row slotCount) table)"
  unfolding cleanupLegacyGameRules_def
  using fold_cleanup_table [of _ "[]" table] by simp

lemma legacy_name_idem: "legacy_name (legacy_name name) = legacy_name name"
  by (simp add: legacy_name_def starts_with_def)

lemma cleaned_row_idem:
  "r \<in> set (cleaned_row slotCount row) \<Longrightarrow> cleaned_row slotCount r = [r]"
  by (auto simp: cleaned_row_def legacy_name_idem split: if_splits)

lemma cleaned_row_length: "length (cleaned_row slotCount row) \<le> 1"
  by (simp add: cleaned_row_def)

lemma cleaned_ids:
  "map gr_id (concat (map (cleaned_row slotCount) table)) =
   map gr_id (filter (\<lambda>row. gr_key row \<in> set LEGACY_REMOVED_KEYS \<longrightarrow> slotCount (gr_id row) \<noteq> 0) table)"
  by (induction table) (auto simp: cleaned_row_def)

lemma cleanup_deleted:
  "cl_deletedCount (fold (cleanup_one slotCount) rows st) =
   cl_deletedCount st +
     length (filter (\<lambda>row. gr_key row \<in> set LEGACY_REMOVED_KEYS \<and> slotCount (gr_id row) = 0) rows)"
  by (induction rows arbitrary: st) (simp_all add: cleanup_one_def)

lemma cleaned_length:
  "length (filter (\<lambda>row. gr_key row \<in> set LEGACY_REMOVED_KEYS \<and> slotCount (gr_id row) = 0) table) +
   length (concat (map (cleaned_row slotCount) table)) = length table"
  by (induction table) (auto simp: cleaned_row_def)

lemma concat_map_single: "(\<And>r. r \<in> set rows \<Longrightarrow> f r = [r]) \<Longrightarrow> concat (map f rows) = rows"
  by (induction rows) auto

lemma legacy_name_prefixed: "starts_with (legacy_name name) ''Legacy - ''"
  by (simp add: legacy_name_def starts_with_def legacy_prefix_def)

lemma cleanup_effect:
  assumes "distinct (map gr_id table)"
  shows "map gr_id (cl_table (cleanupLegacyGameRules slotCount table)) =
      map gr_id (filter (\<lambda>row. gr_key row \<in> set LEGACY_REMOVED_KEYS \<longrightarrow> slotCount (gr_id row) \<noteq> 0) table) \<and>
    (\<forall>row\<in>set table. gr_key row \<notin> set LEGACY_REMOVED_KEYS \<longrightarrow>
       row \<in> set (cl_table (cleanupLegacyGameRules slotCount table))) \<and>
    (\<forall>row\<in>set (cl_table (cleanupLegacyGameRules slotCount table)).
       gr_key row \<in> set LEGACY_REMOVED_KEYS \<longrightarrow>
       \<not> gr_isActive row \<and> starts_with (gr_name row) ''Legacy - '') \<and>
    cl_deletedCount (cleanupLegacyGameRules slotCount table) +
      length (cl_table (cleanupLegacyGameRules slotCount table)) = length table \<and>
    cl_table (cleanupLegacyGameRules slotCount (cl_table (cleanupLegacyGameRules slotCount table))) =
      cl_table (cleanupLegacyGameRules slotCount table)"
proof -
  let ?rows = "concat (map (cleaned_row slotCount) table)"
  have t: "cl_table (cleanupLegacyGameRules slotCount table) = ?rows" by (rule cleanup_table [OF assms])
  have dist: "distinct (map gr_id ?rows)"
    unfolding cleaned_ids using assms by (rule distinct_map_filter)
  have again: "cl_table (cleanupLegacyGameRules slotCount ?rows) = ?rows"
    unfolding cleanup_table [OF dist] by (rule concat_map_single) (auto dest: cleaned_row_idem)
  have kept: "\<forall>row\<in>set table. gr_key row \<notin> set LEGACY_REMOVED_KEYS \<longrightarrow> row \<in> set ?rows"
    by (auto simp: cleaned_row_def intro!: bexI)
  have marked: "\<forall>row\<in>set ?rows. gr_key row \<in> set LEGACY_REMOVED_KEYS \<longrightarrow>
      \<not> gr_isActive row \<and> starts_with (gr_name row) ''Legacy - ''"
    by (auto simp: cleaned_row_def legacy_name_prefixed split: if_splits)
  have count: "cl_deletedCount (cleanupLegacyGameRules slotCount table) + length ?rows = length table"
    using cleaned_length [of slotCount table] by (simp add: cleanupLegacyGameRules_def cleanup_deleted)
  show ?thesis unfolding t using cleaned_ids again kept marked count by blast
qed

end
