(* ===== verification/PatternEvaluator.thy ===== *)
theory PatternEvaluator
  imports SeedRules
begin

text \<open>
  Rule evaluation: \<open>evaluators/pattern-display.util.ts\<close>, \<open>combo/combo-rule.evaluator.ts\<close>,
  \<open>evaluators/pattern-rule.evaluator.ts\<close>, the six legacy evaluators and
  \<open>game-rule-evaluation.service.ts\<close> of \<open>src/src/game-rules\<close>. A cartela, the numbers called so far
  in calling order and a rule give a verdict: is the cartela a winner, was it the latest number
  that completed a pattern, and which patterns to show.

  \<open>progress\<close> is the exact rational that the source computes in floating point.
\<close>

section \<open>Choosing patterns to show\<close>

definition patternIncludesLatest :: "completed_pattern \<Rightarrow> int \<Rightarrow> bool" where
  "patternIncludesLatest pattern latestCalledNumber \<longleftrightarrow>
     latestCalledNumber \<in> set (cp_numbers pattern)"

definition comparePatternPreference ::
  "int option \<Rightarrow> completed_pattern \<Rightarrow> completed_pattern \<Rightarrow> int" where
  "comparePatternPreference latestCalledNumber left right =
     (case latestCalledNumber of
        None \<Rightarrow> 0
      | Some k \<Rightarrow>
          (let leftHasLatest = patternIncludesLatest left k;
               rightHasLatest = patternIncludesLatest right k
           in if leftHasLatest = rightHasLatest then 0 else if leftHasLatest then - 1 else 1))"

text \<open>\<open>xs.slice(0, n)\<close>\<close>

definition slice_to :: "int \<Rightarrow> 'a list \<Rightarrow> 'a list" where
  "slice_to k xs = (if 0 \<le> k then take (nat k) xs else take (length xs - nat (- k)) xs)"

definition selectCompletedPatternsForDisplay ::
  "completed_pattern list \<Rightarrow> int option \<Rightarrow> int option \<Rightarrow> completed_pattern list" where
  "selectCompletedPatternsForDisplay patterns requiredCount latestCalledNumber =
     (if length patterns = 0 then patterns
      else
        let sorted = sort_by (comparePatternPreference latestCalledNumber) patterns in
        (case requiredCount of
           None \<Rightarrow>
             (case latestCalledNumber of
                None \<Rightarrow> sorted
              | Some k \<Rightarrow>
                  if length patterns = 1 then sorted
                  else
                    let withLatest = filter (\<lambda>pattern. patternIncludesLatest pattern k) sorted in
                    if length withLatest > 0 then [withLatest ! 0] else [sorted ! 0])
         | Some count \<Rightarrow> slice_to count sorted))"

section \<open>Combo rules\<close>

definition toCompletedPatterns :: "pattern_instance list \<Rightarrow> completed_pattern list" where
  "toCompletedPatterns patterns =
     map (\<lambda>pattern. \<lparr>cp_type = kind_name (pi_kind pattern), cp_key = pi_id pattern,
            cp_numbers = pi_numbers pattern, cp_cells = Some (pi_cells pattern)\<rparr>) patterns"

definition resolveWinningComboPatterns ::
  "combo_pattern \<Rightarrow> pattern_instance list \<Rightarrow> int option \<Rightarrow> pattern_instance list" where
  "resolveWinningComboPatterns combo instances latestCalledNumber =
     (if \<not> isMinimumRuleSatisfied combo instances then []
      else sr_selectedPatterns (solveCombo combo instances latestCalledNumber))"

definition computeCompletedByLatestNumber ::
  "combo_pattern \<Rightarrow> pattern_instance list \<Rightarrow> int option \<Rightarrow> bool \<Rightarrow> bool" where
  "computeCompletedByLatestNumber combo instances latestCalledNumber isWinner =
     (case latestCalledNumber of
        None \<Rightarrow> False
      | Some k \<Rightarrow>
          if \<not> isWinner then False
          else list_ex (\<lambda>pattern. k \<in> set (pi_numbers pattern))
                 (resolveWinningComboPatterns combo instances latestCalledNumber))"

text \<open>\<open>`${ruleKey}:${patterns.map((pattern) => pattern.key).join(',')}`\<close>\<close>

definition keyed :: "string \<Rightarrow> string \<Rightarrow> string" where
  "keyed ruleKey text = ruleKey @ '':'' @ text"

definition keys_text :: "completed_pattern list \<Rightarrow> string" where
  "keys_text patterns = js_join (map cp_key patterns)"

definition comboEvaluate ::
  "cartela \<Rightarrow> called_number list \<Rightarrow> string \<Rightarrow> combo_pattern \<Rightarrow> evaluation_result" where
  "comboEvaluate c calledNumbers ruleKey combo =
     (let normalizedRuleKey = js_upper (js_trim ruleKey);
          calledNumbersSet = buildCalledNumbersSet calledNumbers;
          latestCalledNumber = getLatestCalledNumber calledNumbers;
          instances = generateCompletedPatternInstances c calledNumbersSet;
          isWinner = isMinimumRuleSatisfied combo instances;
          winningPatterns =
            (if isWinner then resolveWinningComboPatterns combo instances latestCalledNumber else []);
          completedPatterns = toCompletedPatterns winningPatterns
      in \<lparr>is_winner = isWinner,
          matched_pattern =
            (if isWinner then keyed normalizedRuleKey (keys_text completedPatterns)
             else keyed normalizedRuleKey ''NONE''),
          progress = (if isWinner then 1 else computeComboProgress combo instances),
          latest_number = latestCalledNumber,
          completed_by_latest =
            computeCompletedByLatestNumber combo instances latestCalledNumber isWinner,
          completed_patterns = completedPatterns\<rparr>)"

section \<open>Pattern rules\<close>

definition createResult ::
  "bool \<Rightarrow> string \<Rightarrow> rat \<Rightarrow> int option \<Rightarrow> completed_pattern list \<Rightarrow> bool option \<Rightarrow>
   evaluation_result" where
  "createResult isWinner matchedPattern prog latestCalledNumber completedPatterns byLatest =
     \<lparr>is_winner = isWinner, matched_pattern = matchedPattern, progress = prog,
      latest_number = latestCalledNumber,
      completed_by_latest =
        (case byLatest of
           Some x \<Rightarrow> x
         | None \<Rightarrow>
             (case latestCalledNumber of
                None \<Rightarrow> False
              | Some k \<Rightarrow> list_ex (\<lambda>pattern. k \<in> set (cp_numbers pattern)) completedPatterns)),
      completed_patterns = completedPatterns\<rparr>"

definition row_pattern :: "js list list \<Rightarrow> int \<Rightarrow> completed_pattern" where
  "row_pattern boardRows rowNumber =
     (let cells = buildRowCells (rowNumber - 1) in
      \<lparr>cp_type = ''ROW'', cp_key = ''ROW_'' @ show_int rowNumber,
       cp_numbers = getPatternNumbers boardRows cells, cp_cells = Some cells\<rparr>)"

definition getCompletedRowPatterns :: "cartela \<Rightarrow> int set \<Rightarrow> completed_pattern list" where
  "getCompletedRowPatterns c called =
     map (row_pattern (buildBoardRows c)) (getCompletedRowIndexes c called)"

definition getCompletedColumnPatterns :: "cartela \<Rightarrow> int set \<Rightarrow> completed_pattern list" where
  "getCompletedColumnPatterns c called =
     (let boardRows = buildBoardRows c in
      map (\<lambda>columnIndex.
         let cells = buildColumnCells columnIndex in
         \<lparr>cp_type = ''COLUMN'', cp_key = ''COL_'' @ COLUMN_LABELS ! nat columnIndex,
          cp_numbers = getPatternNumbers boardRows cells, cp_cells = Some cells\<rparr>)
       (getCompletedColumnIndexes c called))"

definition getCompletedDiagonalPatterns :: "cartela \<Rightarrow> int set \<Rightarrow> completed_pattern list" where
  "getCompletedDiagonalPatterns c called =
     (let boardRows = buildBoardRows c in
      map (\<lambda>diagonalIndex.
         let cells = buildDiagonalCells (diagonalIndex - 1) in
         \<lparr>cp_type = ''DIAGONAL'', cp_key = ''DIAG_'' @ show_int diagonalIndex,
          cp_numbers = getPatternNumbers boardRows cells, cp_cells = Some cells\<rparr>)
       (getCompletedDiagonalIndexes c called))"

definition some_includes :: "int option \<Rightarrow> completed_pattern list \<Rightarrow> bool" where
  "some_includes latestCalledNumber patterns =
     (case latestCalledNumber of
        None \<Rightarrow> False
      | Some k \<Rightarrow> list_ex (\<lambda>pattern. k \<in> set (cp_numbers pattern)) patterns)"

definition evaluateFullHouse ::
  "cartela \<Rightarrow> called_number list \<Rightarrow> int set \<Rightarrow> int option \<Rightarrow> string \<Rightarrow> evaluation_result" where
  "evaluateFullHouse c calledNumbers called latestCalledNumber ruleKey =
     (let completedRows = getCompletedRowIndexes c called;
          boardRows = buildBoardRows c;
          completedPatterns = map (\<lambda>rowNumber.
            \<lparr>cp_type = ''ROW'', cp_key = ''ROW_'' @ show_int rowNumber,
             cp_numbers = getPatternNumbers boardRows (buildRowCells (rowNumber - 1)),
             cp_cells = Some (buildRowCells (rowNumber - 1))\<rparr>) completedRows;
          isWinner = isFullHouse c called;
          prog = of_nat (length completedRows) / 5;
          beforeLatestSet = buildCalledNumbersSet (withoutLatestCalledNumber calledNumbers);
          wasWinnerBeforeLatest = isFullHouse c beforeLatestSet;
          completedByLatestNumber =
            (isWinner \<and> latestCalledNumber \<noteq> None \<and> \<not> wasWinnerBeforeLatest \<and>
             some_includes latestCalledNumber completedPatterns);
          rowsText = js_join (map show_int completedRows)
      in createResult isWinner
           (if isWinner then keyed ruleKey ''ALL_ROWS''
            else keyed ruleKey (''ROWS_'' @ (if rowsText = [] then ''NONE'' else rowsText)))
           prog latestCalledNumber completedPatterns (Some completedByLatestNumber))"

definition evaluateRowsRequired ::
  "cartela \<Rightarrow> called_number list \<Rightarrow> int set \<Rightarrow> int option \<Rightarrow> string \<Rightarrow> int \<Rightarrow> evaluation_result" where
  "evaluateRowsRequired c calledNumbers called latestCalledNumber ruleKey count =
     (let completedPatterns = getCompletedRowPatterns c called;
          completedRowCount = int (length completedPatterns);
          isWinner = (completedRowCount \<ge> count);
          displayPatterns =
            (if isWinner
             then selectCompletedPatternsForDisplay completedPatterns (Some count) latestCalledNumber
             else completedPatterns);
          beforeLatestSet = buildCalledNumbersSet (withoutLatestCalledNumber calledNumbers);
          completedRowsBeforeLatest = int (length (getCompletedRowIndexes c beforeLatestSet));
          completedByLatestNumber =
            (isWinner \<and> latestCalledNumber \<noteq> None \<and> completedRowsBeforeLatest < count \<and>
             some_includes latestCalledNumber completedPatterns)
      in createResult isWinner
           (if length completedPatterns > 0 then keyed ruleKey (keys_text completedPatterns)
            else keyed ruleKey ''NONE'')
           (min (of_int completedRowCount / of_int count) 1)
           latestCalledNumber displayPatterns (Some completedByLatestNumber))"

text \<open>The shared tail of the rules that ask for one line of some kind.\<close>

definition shown_for_any :: "completed_pattern list \<Rightarrow> int option \<Rightarrow> completed_pattern list" where
  "shown_for_any allPatterns latestCalledNumber =
     (if length allPatterns > 0
      then selectCompletedPatternsForDisplay allPatterns None latestCalledNumber else allPatterns)"

definition keys_or_none :: "string \<Rightarrow> completed_pattern list \<Rightarrow> string" where
  "keys_or_none ruleKey patterns =
     (if length patterns > 0 then keyed ruleKey (keys_text patterns) else keyed ruleKey ''NONE'')"

definition evaluateAnyLine ::
  "cartela \<Rightarrow> int set \<Rightarrow> int option \<Rightarrow> string \<Rightarrow> evaluation_result" where
  "evaluateAnyLine c called latestCalledNumber ruleKey =
     (let allPatterns = getCompletedRowPatterns c called @ getCompletedColumnPatterns c called @
                        getCompletedDiagonalPatterns c called;
          isWinner = (length allPatterns > 0);
          completedPatterns = shown_for_any allPatterns latestCalledNumber
      in createResult isWinner (keys_or_none ruleKey completedPatterns)
           (if length completedPatterns > 0 then 1 else 0) latestCalledNumber completedPatterns None)"

definition evaluateAnyRow ::
  "cartela \<Rightarrow> int set \<Rightarrow> int option \<Rightarrow> string \<Rightarrow> evaluation_result" where
  "evaluateAnyRow c called latestCalledNumber ruleKey =
     (let allPatterns = getCompletedRowPatterns c called;
          isWinner = (length allPatterns > 0);
          completedPatterns = shown_for_any allPatterns latestCalledNumber
      in createResult isWinner (keys_or_none ruleKey completedPatterns)
           (if length completedPatterns > 0 then 1 else of_nat (length completedPatterns) / 5)
           latestCalledNumber completedPatterns None)"

definition evaluateAnyColumn ::
  "cartela \<Rightarrow> int set \<Rightarrow> int option \<Rightarrow> string \<Rightarrow> evaluation_result" where
  "evaluateAnyColumn c called latestCalledNumber ruleKey =
     (let allPatterns = getCompletedColumnPatterns c called;
          isWinner = (length allPatterns > 0);
          completedPatterns = shown_for_any allPatterns latestCalledNumber
      in createResult isWinner (keys_or_none ruleKey completedPatterns)
           (if length completedPatterns > 0 then 1 else of_nat (length completedPatterns) / 5)
           latestCalledNumber completedPatterns None)"

definition evaluateAnyDiagonal ::
  "cartela \<Rightarrow> int set \<Rightarrow> int option \<Rightarrow> string \<Rightarrow> evaluation_result" where
  "evaluateAnyDiagonal c called latestCalledNumber ruleKey =
     (let allPatterns = getCompletedDiagonalPatterns c called;
          isWinner = (length allPatterns > 0);
          completedPatterns = shown_for_any allPatterns latestCalledNumber
      in createResult isWinner (keys_or_none ruleKey completedPatterns)
           (if length completedPatterns > 0 then 1 else 0) latestCalledNumber completedPatterns None)"

definition centre_row_key :: string where
  "centre_row_key = ''ROW_'' @ show_int (fst FREE_CENTER + 1)"

definition centre_column_key :: string where
  "centre_column_key = ''COL_'' @ COLUMN_LABELS ! nat (snd FREE_CENTER)"

definition evaluateLineTouchesFree ::
  "cartela \<Rightarrow> int set \<Rightarrow> int option \<Rightarrow> string \<Rightarrow> evaluation_result" where
  "evaluateLineTouchesFree c called latestCalledNumber ruleKey =
     (let rowPatterns =
            filter (\<lambda>pattern. cp_key pattern = centre_row_key) (getCompletedRowPatterns c called);
          columnPatterns =
            filter (\<lambda>pattern. cp_key pattern = centre_column_key) (getCompletedColumnPatterns c called);
          diagonalPatterns = getCompletedDiagonalPatterns c called;
          completedPatterns = rowPatterns @ columnPatterns @ diagonalPatterns;
          isWinner = (length completedPatterns > 0);
          displayPatterns = shown_for_any completedPatterns latestCalledNumber
      in createResult isWinner (keys_or_none ruleKey displayPatterns)
           (if length displayPatterns > 0 then 1 else 0) latestCalledNumber displayPatterns None)"

definition evaluateLineWithoutFree ::
  "cartela \<Rightarrow> int set \<Rightarrow> int option \<Rightarrow> string \<Rightarrow> evaluation_result" where
  "evaluateLineWithoutFree c called latestCalledNumber ruleKey =
     (let allPatterns =
            filter (\<lambda>pattern. cp_key pattern \<noteq> centre_row_key) (getCompletedRowPatterns c called) @
            filter (\<lambda>pattern. cp_key pattern \<noteq> centre_column_key) (getCompletedColumnPatterns c called);
          isWinner = (length allPatterns > 0);
          completedPatterns = shown_for_any allPatterns latestCalledNumber
      in createResult isWinner (keys_or_none ruleKey completedPatterns)
           (if length completedPatterns > 0 then 1 else 0) latestCalledNumber completedPatterns None)"

definition marked_count :: "js list list \<Rightarrow> int set \<Rightarrow> board_coord list \<Rightarrow> nat" where
  "marked_count boardRows called cells =
     length (filter (\<lambda>rc. isMarkedCellValue (cell_at boardRows rc) called) cells)"

text \<open>The body of the \<open>forEach\<close> over the groups; the state is what it pushes and the best progress.\<close>

definition group_step ::
  "js list list \<Rightarrow> int set \<Rightarrow> string \<Rightarrow> nat \<times> board_coord list \<Rightarrow>
   completed_pattern list \<times> rat \<Rightarrow> completed_pattern list \<times> rat" where
  "group_step boardRows called ruleKey entry state =
     (let (index, cells) = entry; (completedPatterns, bestProgress) = state;
          markedCount = marked_count boardRows called cells;
          prog = (if length cells > 0 then of_nat markedCount / of_nat (length cells) else 0);
          isComplete = (length cells > 0 \<and> markedCount = length cells);
          bestProgress = (if prog > bestProgress then prog else bestProgress)
      in (if isComplete
          then completedPatterns @
                 [\<lparr>cp_type = ruleKey, cp_key = ''PATTERN_'' @ show_nat (index + 1),
                   cp_numbers = getPatternNumbers boardRows cells, cp_cells = Some cells\<rparr>]
          else completedPatterns, bestProgress))"

definition evaluatePatternGroup ::
  "cartela \<Rightarrow> int set \<Rightarrow> int option \<Rightarrow> string \<Rightarrow> board_coord list list \<Rightarrow> evaluation_result" where
  "evaluatePatternGroup c called latestCalledNumber ruleKey patternGroups =
     (let boardRows = buildBoardRows c;
          (completedPatterns, bestProgress) =
            fold (group_step boardRows called ruleKey)
              (zip [0..<length patternGroups] patternGroups) ([], 0);
          displayPatterns =
            (if length completedPatterns > 0
             then selectCompletedPatternsForDisplay completedPatterns (Some 1) latestCalledNumber
             else completedPatterns)
      in createResult (length completedPatterns > 0) (keys_or_none ruleKey displayPatterns)
           (min bestProgress 1) latestCalledNumber displayPatterns None)"

definition patternEvaluate ::
  "cartela \<Rightarrow> called_number list \<Rightarrow> string \<Rightarrow> game_rule_pattern \<Rightarrow> evaluation_result" where
  "patternEvaluate c calledNumbers ruleKey pattern =
     (let normalizedRuleKey = js_upper (js_trim ruleKey);
          called = buildCalledNumbersSet calledNumbers;
          latestCalledNumber = getLatestCalledNumber calledNumbers
      in case pattern of
           Full_House \<Rightarrow> evaluateFullHouse c calledNumbers called latestCalledNumber normalizedRuleKey
         | Rows_Required count \<Rightarrow>
             evaluateRowsRequired c calledNumbers called latestCalledNumber normalizedRuleKey count
         | Any_Line \<Rightarrow> evaluateAnyLine c called latestCalledNumber normalizedRuleKey
         | Any_Row \<Rightarrow> evaluateAnyRow c called latestCalledNumber normalizedRuleKey
         | Any_Column \<Rightarrow> evaluateAnyColumn c called latestCalledNumber normalizedRuleKey
         | Any_Diagonal \<Rightarrow> evaluateAnyDiagonal c called latestCalledNumber normalizedRuleKey
         | Line_Touches_Free \<Rightarrow> evaluateLineTouchesFree c called latestCalledNumber normalizedRuleKey
         | Line_Without_Free \<Rightarrow> evaluateLineWithoutFree c called latestCalledNumber normalizedRuleKey
         | Pattern_Group patterns \<Rightarrow>
             evaluatePatternGroup c called latestCalledNumber normalizedRuleKey patterns
         | Combo combo \<Rightarrow> comboEvaluate c calledNumbers normalizedRuleKey combo)"

section \<open>The evaluation service\<close>

text \<open>The interface of an evaluator, and the six evaluators kept for old rule keys.\<close>

record rule_evaluator =
  ev_supports :: "string \<Rightarrow> bool"
  ev_evaluate :: "cartela \<Rightarrow> called_number list \<Rightarrow> string \<Rightarrow> evaluation_result"

definition FullHouseRuleEvaluator :: rule_evaluator where
  "FullHouseRuleEvaluator =
     \<lparr>ev_supports = (\<lambda>gameType. js_upper gameType = ''FULL_HOUSE''),
      ev_evaluate = (\<lambda>c calledNumbers gameType.
        patternEvaluate c calledNumbers gameType (the (getRulePattern ''FULL_HOUSE'')))\<rparr>"

definition HalfHouseRuleEvaluator :: rule_evaluator where
  "HalfHouseRuleEvaluator =
     \<lparr>ev_supports = (\<lambda>gameType. js_upper gameType = ''HALF_HOUSE''),
      ev_evaluate = (\<lambda>c calledNumbers gameType.
        patternEvaluate c calledNumbers gameType (the (getRulePattern ''HALF_HOUSE'')))\<rparr>"

definition LineRuleEvaluator :: rule_evaluator where
  "LineRuleEvaluator =
     \<lparr>ev_supports = (\<lambda>gameType. js_upper gameType = ''LINE''),
      ev_evaluate = (\<lambda>c calledNumbers gameType.
        patternEvaluate c calledNumbers gameType (the (getRulePattern ''LINE'')))\<rparr>"

definition RowsRuleEvaluator :: rule_evaluator where
  "RowsRuleEvaluator =
     \<lparr>ev_supports = (\<lambda>gameType. js_upper gameType = ''ROWS''),
      ev_evaluate = (\<lambda>c calledNumbers gameType.
        patternEvaluate c calledNumbers gameType (the (getRulePattern ''ROWS'')))\<rparr>"

definition ColumnsRuleEvaluator :: rule_evaluator where
  "ColumnsRuleEvaluator =
     \<lparr>ev_supports = (\<lambda>gameType. js_upper gameType = ''COLUMNS''),
      ev_evaluate = (\<lambda>c calledNumbers gameType.
        patternEvaluate c calledNumbers gameType (the (getRulePattern ''COLUMNS'')))\<rparr>"

definition DiagonalRuleEvaluator :: rule_evaluator where
  "DiagonalRuleEvaluator =
     \<lparr>ev_supports = (\<lambda>gameType. js_upper gameType = ''DIAGONAL''),
      ev_evaluate = (\<lambda>c calledNumbers gameType.
        patternEvaluate c calledNumbers gameType (the (getRulePattern ''DIAGONAL'')))\<rparr>"

definition legacyEvaluators :: "rule_evaluator list" where
  "legacyEvaluators =
     [FullHouseRuleEvaluator, HalfHouseRuleEvaluator, LineRuleEvaluator, RowsRuleEvaluator,
      ColumnsRuleEvaluator, DiagonalRuleEvaluator]"

definition isManualRule :: "string option \<Rightarrow> bool" where
  "isManualRule ruleKey \<longleftrightarrow>
     js_upper (js_trim (case ruleKey of None \<Rightarrow> ''MANUAL'' | Some k \<Rightarrow> k)) = ''MANUAL''"

definition evaluate ::
  "cartela \<Rightarrow> called_number list \<Rightarrow> string \<Rightarrow> js \<Rightarrow> evaluation_result" where
  "evaluate c calledNumbers ruleKey patterns =
     (let normalizedRuleKey = js_upper (js_trim ruleKey);
          resolvedPattern =
            (case parseGameRulePattern patterns of
               Some p \<Rightarrow> Some p
             | None \<Rightarrow> getRulePattern normalizedRuleKey)
      in case resolvedPattern of
           Some p \<Rightarrow> patternEvaluate c calledNumbers normalizedRuleKey p
         | None \<Rightarrow>
             (case find (\<lambda>entry. ev_supports entry normalizedRuleKey) legacyEvaluators of
                None \<Rightarrow>
                  \<lparr>is_winner = False, matched_pattern = keyed normalizedRuleKey ''UNSUPPORTED'',
                   progress = 0, latest_number = getLatestCalledNumber calledNumbers,
                   completed_by_latest = False, completed_patterns = []\<rparr>
              | Some legacyEvaluator \<Rightarrow> ev_evaluate legacyEvaluator c calledNumbers normalizedRuleKey))"

end
