(* ===== verification/Wallet.thy ===== *)
theory Wallet
  imports Prelude
begin

text \<open>
  The wallet: \<open>src/src/wallet/wallet.service.ts\<close> with \<open>wallet.mapper.ts\<close> and
  \<open>common/utils/pagination.util.ts\<close>. The state is the part of the database the service touches: the
  wallets by user, the ledger \<open>WalletTransaction\<close> in the order its rows were created, the users a
  ledger row may refer to and the registered cartelas that are counted. An operation returns its
  result or the exception it throws, together with the state it leaves.

  Amounts are exact decimals (\<open>rat\<close>); the columns hold two decimals and the amounts that reach the
  service have no more. The identifier of a new ledger row is chosen by the database client: it is
  an argument. So is \<open>others\<close>, what other transactions commit between the look-up of a ledger key
  and the insertion of a row with that key.
\<close>

section \<open>Data\<close>

datatype wallet_transaction_type =
    DEPOSIT | WITHDRAW_REQUEST | WITHDRAW_PAID | WITHDRAW_REFUND | GAME_ENTRY | PRIZE_WIN | REFUND
  | ADMIN_ADJUSTMENT

datatype mutation_direction = CREDIT | DEBIT

datatype balance_mode = AVAILABLE | AVAILABLE_TO_LOCKED | LOCKED_TO_AVAILABLE | LOCKED_ONLY

datatype http_error =
    Bad_Request string
  | Coded_Request string string
  | Not_Found string
  | Conflict string
  | Coded_Conflict string string
  | Forbidden string
  | Claim_Lost string
  | Too_Many_Requests string
  | Unauthorized string
  | Unavailable string
  | Db_Error string

record wallet_row =
  wa_id :: string
  wa_userId :: string
  wa_balance :: rat
  wa_lockedBalance :: rat
  wa_bonusCartelaBalance :: int

record ledger_row =
  wt_id :: string
  wt_userId :: string
  wt_type :: wallet_transaction_type
  wt_amount :: rat
  wt_balanceBefore :: rat
  wt_balanceAfter :: rat
  wt_referenceType :: string
  wt_referenceId :: string
  wt_description :: "string option"

record wallet_db =
  db_users :: "string set"
  db_wallets :: "string \<Rightarrow> wallet_row option"
  db_ledger :: "ledger_row list"

record ledger_meta =
  me_type :: wallet_transaction_type
  me_referenceType :: string
  me_referenceId :: string
  me_description :: "string option"

record mutation_params = ledger_meta +
  mp_userId :: string
  mp_amount :: rat
  mp_direction :: mutation_direction
  mp_balanceMode :: "balance_mode option"

record mutation_result =
  mr_applied :: bool
  mr_ledgerId :: string
  mr_wallet :: wallet_row

record mutation_plan =
  pl_incBalance :: rat
  pl_incLocked :: rat
  pl_minimumAvailableBalance :: "rat option"
  pl_minimumLockedBalance :: "rat option"
  pl_insufficientBalanceMessage :: string

type_synonym 'a outcome = "(http_error + 'a) \<times> wallet_db"

section \<open>Reading\<close>

definition getWalletOrThrow :: "wallet_db \<Rightarrow> string \<Rightarrow> http_error + wallet_row" where
  "getWalletOrThrow db userId =
     (case db_wallets db userId of
        None \<Rightarrow> Inl (Not_Found ''Wallet not found'')
      | Some wallet \<Rightarrow> Inr wallet)"

definition has_key :: "string \<Rightarrow> ledger_meta \<Rightarrow> ledger_row \<Rightarrow> bool" where
  "has_key userId meta row \<longleftrightarrow>
     wt_userId row = userId \<and> wt_type row = me_type meta \<and>
     wt_referenceType row = me_referenceType meta \<and> wt_referenceId row = me_referenceId meta"

definition findExistingLedgerEntry :: "wallet_db \<Rightarrow> string \<Rightarrow> ledger_meta \<Rightarrow> string option" where
  "findExistingLedgerEntry db userId meta =
     map_option wt_id (find (has_key userId meta) (db_ledger db))"

section \<open>Checks\<close>

definition assertPositiveAmount :: "rat \<Rightarrow> http_error + unit" where
  "assertPositiveAmount amount =
     (if amount \<le> 0 then Inl (Bad_Request ''Amount must be greater than zero'') else Inr ())"

definition assertIdempotencyKey :: "ledger_meta \<Rightarrow> http_error + unit" where
  "assertIdempotencyKey meta =
     (if js_trim (me_referenceType meta) = [] \<or> js_trim (me_referenceId meta) = []
      then Inl (Bad_Request ''Wallet mutation requires referenceType and referenceId'')
      else Inr ())"

section \<open>The ledger row of a mutation\<close>

text \<open>
  \<open>create\<close> fails when the key is taken (error \<open>P2002\<close>, which the service turns into the existing
  row) and when the user does not exist (a foreign-key error, which it rethrows).
\<close>

definition createPendingLedgerEntry ::
  "string \<Rightarrow> wallet_db \<Rightarrow> string \<Rightarrow> rat \<Rightarrow> ledger_meta \<Rightarrow> (string \<times> bool) outcome" where
  "createPendingLedgerEntry newId db userId amount meta =
     (if list_ex (has_key userId meta) (db_ledger db) then
        (case findExistingLedgerEntry db userId meta of
           Some existing \<Rightarrow> (Inr (existing, False), db)
         | None \<Rightarrow> (Inl (Db_Error ''P2002''), db))
      else if userId \<notin> db_users db then (Inl (Db_Error ''P2003''), db)
      else
        (Inr (newId, True),
         db\<lparr>db_ledger := db_ledger db @
              [\<lparr>wt_id = newId, wt_userId = userId, wt_type = me_type meta, wt_amount = amount,
                wt_balanceBefore = 0, wt_balanceAfter = 0,
                wt_referenceType = me_referenceType meta, wt_referenceId = me_referenceId meta,
                wt_description = me_description meta\<rparr>]\<rparr>))"

definition deletePendingLedgerEntry :: "wallet_db \<Rightarrow> string \<Rightarrow> wallet_db" where
  "deletePendingLedgerEntry db ledgerId =
     db\<lparr>db_ledger := filter (\<lambda>row. wt_id row \<noteq> ledgerId) (db_ledger db)\<rparr>"

definition update_ledger_row :: "wallet_db \<Rightarrow> string \<Rightarrow> rat \<Rightarrow> rat \<Rightarrow> wallet_db" where
  "update_ledger_row db ledgerId balanceBefore balanceAfter =
     db\<lparr>db_ledger := map (\<lambda>row. if wt_id row = ledgerId
          then row\<lparr>wt_balanceBefore := balanceBefore, wt_balanceAfter := balanceAfter\<rparr> else row)
        (db_ledger db)\<rparr>"

section \<open>The balances of a mutation\<close>

definition resolveMutationPlan ::
  "rat \<Rightarrow> mutation_direction \<Rightarrow> balance_mode \<Rightarrow> http_error + mutation_plan" where
  "resolveMutationPlan amount direction balanceMode =
     (case balanceMode of
        AVAILABLE \<Rightarrow>
          (if direction = CREDIT
           then Inr \<lparr>pl_incBalance = amount, pl_incLocked = 0, pl_minimumAvailableBalance = None,
                     pl_minimumLockedBalance = None,
                     pl_insufficientBalanceMessage = ''Insufficient wallet balance''\<rparr>
           else Inr \<lparr>pl_incBalance = - amount, pl_incLocked = 0,
                     pl_minimumAvailableBalance = Some amount, pl_minimumLockedBalance = None,
                     pl_insufficientBalanceMessage = ''Insufficient wallet balance''\<rparr>)
      | AVAILABLE_TO_LOCKED \<Rightarrow>
          (if direction \<noteq> DEBIT
           then Inl (Bad_Request ''Locked fund reservation must debit available balance'')
           else Inr \<lparr>pl_incBalance = - amount, pl_incLocked = amount,
                     pl_minimumAvailableBalance = Some amount, pl_minimumLockedBalance = None,
                     pl_insufficientBalanceMessage = ''Insufficient wallet balance''\<rparr>)
      | LOCKED_TO_AVAILABLE \<Rightarrow>
          (if direction \<noteq> CREDIT
           then Inl (Bad_Request ''Locked fund release must credit available balance'')
           else Inr \<lparr>pl_incBalance = amount, pl_incLocked = - amount,
                     pl_minimumAvailableBalance = None, pl_minimumLockedBalance = Some amount,
                     pl_insufficientBalanceMessage = ''Locked balance is insufficient''\<rparr>)
      | LOCKED_ONLY \<Rightarrow>
          (if direction \<noteq> DEBIT
           then Inl (Bad_Request ''Locked fund consumption must debit locked balance'')
           else Inr \<lparr>pl_incBalance = 0, pl_incLocked = - amount,
                     pl_minimumAvailableBalance = None, pl_minimumLockedBalance = Some amount,
                     pl_insufficientBalanceMessage = ''Locked balance is insufficient''\<rparr>))"

definition throwMutationPreconditionError :: "wallet_db \<Rightarrow> string \<Rightarrow> string \<Rightarrow> http_error" where
  "throwMutationPreconditionError db userId insufficientBalanceMessage =
     (if db_wallets db userId = None then Not_Found ''Wallet not found''
      else Bad_Request insufficientBalanceMessage)"

definition at_least :: "rat option \<Rightarrow> rat \<Rightarrow> bool" where
  "at_least minimum x \<longleftrightarrow> (case minimum of None \<Rightarrow> True | Some k \<Rightarrow> k \<le> x)"

definition mutateWalletBalances ::
  "wallet_db \<Rightarrow> string \<Rightarrow> rat \<Rightarrow> mutation_direction \<Rightarrow> balance_mode \<Rightarrow> wallet_row outcome" where
  "mutateWalletBalances db userId amount direction balanceMode =
     (case resolveMutationPlan amount direction balanceMode of
        Inl e \<Rightarrow> (Inl e, db)
      | Inr plan \<Rightarrow>
          (case db_wallets db userId of
             Some w \<Rightarrow>
               (if at_least (pl_minimumAvailableBalance plan) (wa_balance w) \<and>
                   at_least (pl_minimumLockedBalance plan) (wa_lockedBalance w)
                then
                  let w' = w\<lparr>wa_balance := wa_balance w + pl_incBalance plan,
                             wa_lockedBalance := wa_lockedBalance w + pl_incLocked plan\<rparr>;
                      db' = db\<lparr>db_wallets := (db_wallets db)(userId \<mapsto> w')\<rparr>
                  in (getWalletOrThrow db' userId, db')
                else
                  (Inl (throwMutationPreconditionError db userId
                          (pl_insufficientBalanceMessage plan)), db))
           | None \<Rightarrow>
               (Inl (throwMutationPreconditionError db userId
                       (pl_insufficientBalanceMessage plan)), db)))"

definition resolveLedgerBalances ::
  "wallet_row \<Rightarrow> rat \<Rightarrow> mutation_direction \<Rightarrow> balance_mode \<Rightarrow> rat \<times> rat" where
  "resolveLedgerBalances wallet amount direction balanceMode =
     (case balanceMode of
        AVAILABLE \<Rightarrow>
          (if direction = CREDIT then (wa_balance wallet - amount, wa_balance wallet)
           else (wa_balance wallet + amount, wa_balance wallet))
      | AVAILABLE_TO_LOCKED \<Rightarrow> (wa_balance wallet + amount, wa_balance wallet)
      | LOCKED_TO_AVAILABLE \<Rightarrow> (wa_balance wallet - amount, wa_balance wallet)
      | LOCKED_ONLY \<Rightarrow> (wa_balance wallet, wa_balance wallet))"

section \<open>A mutation\<close>

definition mode_of :: "mutation_params \<Rightarrow> balance_mode" where
  "mode_of params = (case mp_balanceMode params of None \<Rightarrow> AVAILABLE | Some m \<Rightarrow> m)"

definition meta_of :: "mutation_params \<Rightarrow> ledger_meta" where
  "meta_of params = ledger_meta.truncate params"

text \<open>The answer when the key is taken: the wallet as it is.\<close>

definition already_applied :: "wallet_db \<Rightarrow> string \<Rightarrow> string \<Rightarrow> mutation_result outcome" where
  "already_applied db userId ledgerId =
     (case getWalletOrThrow db userId of
        Inl e \<Rightarrow> (Inl e, db)
      | Inr wallet \<Rightarrow> (Inr \<lparr>mr_applied = False, mr_ledgerId = ledgerId, mr_wallet = wallet\<rparr>, db))"

text \<open>The \<open>try\<close> block and its handler, which removes the pending row again.\<close>

definition apply_pending :: "wallet_db \<Rightarrow> string \<Rightarrow> mutation_params \<Rightarrow> mutation_result outcome" where
  "apply_pending db ledgerId params =
     (case mutateWalletBalances db (mp_userId params) (mp_amount params) (mp_direction params)
             (mode_of params) of
        (Inl e, db') \<Rightarrow> (Inl e, deletePendingLedgerEntry db' ledgerId)
      | (Inr wallet, db') \<Rightarrow>
          let (balanceBefore, balanceAfter) =
                resolveLedgerBalances wallet (mp_amount params) (mp_direction params) (mode_of params)
          in (Inr \<lparr>mr_applied = True, mr_ledgerId = ledgerId, mr_wallet = wallet\<rparr>,
              update_ledger_row db' ledgerId balanceBefore balanceAfter))"

definition applyWalletMutation ::
  "string \<Rightarrow> (wallet_db \<Rightarrow> wallet_db) \<Rightarrow> wallet_db \<Rightarrow> mutation_params \<Rightarrow> mutation_result outcome" where
  "applyWalletMutation newId others db params =
     (case assertPositiveAmount (mp_amount params) of
        Inl e \<Rightarrow> (Inl e, db)
      | Inr _ \<Rightarrow>
     (case assertIdempotencyKey (meta_of params) of
        Inl e \<Rightarrow> (Inl e, db)
      | Inr _ \<Rightarrow>
     (case findExistingLedgerEntry db (mp_userId params) (meta_of params) of
        Some existing \<Rightarrow> already_applied db (mp_userId params) existing
      | None \<Rightarrow>
     (case createPendingLedgerEntry newId (others db) (mp_userId params) (mp_amount params)
             (meta_of params) of
        (Inl e, db') \<Rightarrow> (Inl e, db')
      | (Inr (ledgerId, created), db') \<Rightarrow>
          (if \<not> created then already_applied db' (mp_userId params) ledgerId
           else apply_pending db' ledgerId params)))))"

section \<open>The operations of the service\<close>

definition with_meta ::
  "ledger_meta \<Rightarrow> string \<Rightarrow> rat \<Rightarrow> mutation_direction \<Rightarrow> balance_mode \<Rightarrow> mutation_params" where
  "with_meta meta userId amount direction balanceMode =
     ledger_meta.extend meta \<lparr>mp_userId = userId, mp_amount = amount, mp_direction = direction,
       mp_balanceMode = Some balanceMode\<rparr>"

record serialized_wallet =
  sw_wallet :: wallet_row
  sw_totalBalance :: rat
  sw_isFirstTimePlayer :: bool

definition serializeWallet :: "wallet_row \<Rightarrow> bool option \<Rightarrow> serialized_wallet" where
  "serializeWallet wallet context =
     \<lparr>sw_wallet = wallet, sw_totalBalance = wa_balance wallet + wa_lockedBalance wallet,
      sw_isFirstTimePlayer = (case context of None \<Rightarrow> False | Some first \<Rightarrow> first)\<rparr>"

definition map_outcome :: "('a \<Rightarrow> 'b) \<Rightarrow> 'a outcome \<Rightarrow> 'b outcome" where
  "map_outcome f out = (map_sum id f (fst out), snd out)"

definition creditWallet ::
  "string \<Rightarrow> (wallet_db \<Rightarrow> wallet_db) \<Rightarrow> wallet_db \<Rightarrow> string \<Rightarrow> rat \<Rightarrow> ledger_meta \<Rightarrow> string outcome" where
  "creditWallet newId others db userId amount meta =
     map_outcome mr_ledgerId
       (applyWalletMutation newId others db (with_meta meta userId amount CREDIT AVAILABLE))"

definition debitWallet ::
  "string \<Rightarrow> (wallet_db \<Rightarrow> wallet_db) \<Rightarrow> wallet_db \<Rightarrow> string \<Rightarrow> rat \<Rightarrow> ledger_meta \<Rightarrow>
   serialized_wallet outcome" where
  "debitWallet newId others db userId amount meta =
     map_outcome (\<lambda>r. serializeWallet (mr_wallet r) None)
       (applyWalletMutation newId others db (with_meta meta userId amount DEBIT AVAILABLE))"

definition moveBalanceToLocked ::
  "string \<Rightarrow> (wallet_db \<Rightarrow> wallet_db) \<Rightarrow> wallet_db \<Rightarrow> string \<Rightarrow> rat \<Rightarrow> ledger_meta \<Rightarrow>
   serialized_wallet outcome" where
  "moveBalanceToLocked newId others db userId amount meta =
     map_outcome (\<lambda>r. serializeWallet (mr_wallet r) None)
       (applyWalletMutation newId others db (with_meta meta userId amount DEBIT AVAILABLE_TO_LOCKED))"

definition releaseLockedFunds ::
  "string \<Rightarrow> (wallet_db \<Rightarrow> wallet_db) \<Rightarrow> wallet_db \<Rightarrow> string \<Rightarrow> rat \<Rightarrow> ledger_meta \<Rightarrow>
   serialized_wallet outcome" where
  "releaseLockedFunds newId others db userId amount meta =
     map_outcome (\<lambda>r. serializeWallet (mr_wallet r) None)
       (applyWalletMutation newId others db (with_meta meta userId amount CREDIT LOCKED_TO_AVAILABLE))"

definition consumeLockedFunds ::
  "string \<Rightarrow> (wallet_db \<Rightarrow> wallet_db) \<Rightarrow> wallet_db \<Rightarrow> string \<Rightarrow> rat \<Rightarrow> ledger_meta \<Rightarrow>
   serialized_wallet outcome" where
  "consumeLockedFunds newId others db userId amount meta =
     map_outcome (\<lambda>r. serializeWallet (mr_wallet r) None)
       (applyWalletMutation newId others db (with_meta meta userId amount DEBIT LOCKED_ONLY))"

definition consumeBonusCartela :: "wallet_db \<Rightarrow> string \<Rightarrow> wallet_row outcome" where
  "consumeBonusCartela db userId =
     (case db_wallets db userId of
        Some w \<Rightarrow>
          (if 1 \<le> wa_bonusCartelaBalance w then
             let db' = db\<lparr>db_wallets := (db_wallets db)(userId \<mapsto>
                   w\<lparr>wa_bonusCartelaBalance := wa_bonusCartelaBalance w - 1\<rparr>)\<rparr>
             in (getWalletOrThrow db' userId, db')
           else
             (Inl (throwMutationPreconditionError db userId ''Insufficient bonus cartela balance''), db))
      | None \<Rightarrow>
          (Inl (throwMutationPreconditionError db userId ''Insufficient bonus cartela balance''), db))"

text \<open>\<open>wallet.update\<close> on a missing row is the database error \<open>P2025\<close>.\<close>

definition creditBonusCartelas :: "wallet_db \<Rightarrow> string \<Rightarrow> int \<Rightarrow> wallet_row outcome" where
  "creditBonusCartelas db userId count =
     (if count \<le> 0 then (getWalletOrThrow db userId, db)
      else
        (case db_wallets db userId of
           None \<Rightarrow> (Inl (Db_Error ''P2025''), db)
         | Some w \<Rightarrow>
             let db' = db\<lparr>db_wallets := (db_wallets db)(userId \<mapsto>
                   w\<lparr>wa_bonusCartelaBalance := wa_bonusCartelaBalance w + count\<rparr>)\<rparr>
             in (getWalletOrThrow db' userId, db')))"

definition getSerializedWallet :: "wallet_db \<Rightarrow> nat \<Rightarrow> string \<Rightarrow> http_error + serialized_wallet" where
  "getSerializedWallet db registeredCartelasCount userId =
     (case db_wallets db userId of
        None \<Rightarrow> Inl (Not_Found ''Wallet not found'')
      | Some wallet \<Rightarrow> Inr (serializeWallet wallet (Some (registeredCartelasCount = 0))))"

section \<open>Pages of transactions\<close>

record pagination_query =
  pq_page :: "int option"
  pq_pageSize :: "int option"

record pagination_meta =
  pm_page :: int
  pm_pageSize :: int
  pm_totalItems :: int
  pm_totalPages :: int

definition or_else :: "'a option \<Rightarrow> 'a \<Rightarrow> 'a" where
  "or_else v d = (case v of None \<Rightarrow> d | Some x \<Rightarrow> x)"

text \<open>page, pageSize, skip and take\<close>

definition getPaginationParams :: "pagination_query \<Rightarrow> int \<times> int \<times> int \<times> int" where
  "getPaginationParams query =
     (let page = or_else (pq_page query) 1; pageSize = or_else (pq_pageSize query) 20
      in (page, pageSize, (page - 1) * pageSize, pageSize))"

text \<open>\<open>Math.ceil (a / b)\<close> for a positive \<open>b\<close>\<close>

definition ceil_div :: "int \<Rightarrow> int \<Rightarrow> int" where
  "ceil_div a b = - ((- a) div b)"

definition buildPaginationMeta :: "int \<Rightarrow> int \<Rightarrow> int \<Rightarrow> pagination_meta" where
  "buildPaginationMeta page pageSize totalItems =
     \<lparr>pm_page = page, pm_pageSize = pageSize, pm_totalItems = totalItems,
      pm_totalPages = max 1 (ceil_div totalItems pageSize)\<rparr>"

definition getMyTransactions ::
  "wallet_db \<Rightarrow> string \<Rightarrow> pagination_query \<Rightarrow> ledger_row list \<times> pagination_meta" where
  "getMyTransactions db userId query =
     (let (page, pageSize, skip, take_n) = getPaginationParams query;
          mine = filter (\<lambda>row. wt_userId row = userId) (db_ledger db)
      in (take (nat take_n) (drop (nat skip) (rev mine)),
          buildPaginationMeta page pageSize (int (length mine))))"

end
