(* ===== verification/GameState.thy ===== *)
theory GameState
  imports PatternEvaluator Wallet
begin

text \<open>
  The state of the game: the rows of \<open>prisma/schema.prisma\<close> that playing a session reads and writes
  (slots, sessions, the cartelas of a session, the numbers called, the claims) beside the wallets.
  A table is the list of its rows in the order they were created. A transaction is a function from
  the database to an exception or a result with the database it commits: when it throws, nothing is
  committed. Times are milliseconds; the clock is an argument of an operation, read once.
\<close>

section \<open>Enumerations\<close>

datatype game_status =
    NEXT | READY | CHECKING | PLAYING | WINNER_WINDOW | FINISHED | NO_WINNER | CANCELLED

datatype operation_mode = MANUAL | AUTO

datatype game_category = NORMAL | BONUS | BIG_GOTD | BIG_GAME

datatype cartela_status = REGISTERED | WINNER | BLOCKED | CARTELA_CANCELLED

datatype claim_status = PENDING | VALID | INVALID

datatype claim_reason = INVALID_PATTERN | INVALID_LATE_CLAIM | ALREADY_BLOCKED | ALREADY_WINNER

datatype payment_source = MONEY_WALLET | BONUS_CARTELA

datatype fee_source = FEE_MONEY | FEE_BONUS

datatype reservation_status = ACTIVE | CONFIRMED | RESERVATION_CANCELLED | EXPIRED

section \<open>Rows\<close>

text \<open>The rule a slot refers to.\<close>

record rule_ref =
  ru_id :: string
  ru_key :: string
  ru_patterns :: js

record slot_row =
  sl_id :: string
  sl_gameType :: string
  sl_gameRule :: "rule_ref option"
  sl_status :: game_status
  sl_entryFee :: rat
  sl_prizePerCartela :: rat
  sl_category :: game_category
  sl_fixedPrizeAmount :: "rat option"
  sl_maxCartelasPerPlayer :: "int option"
  sl_removeAfterFinish :: bool
  sl_sortOrder :: "int option"
  sl_operationMode :: operation_mode
  sl_registrationDurationSeconds :: "int option"
  sl_autoCallIntervalSeconds :: "int option"

record session_row =
  gs_id :: string
  gs_slotId :: string
  gs_playCode :: string
  gs_entryFee :: rat
  gs_prizePerCartela :: rat
  gs_companyFeePerCartela :: rat
  gs_prizeAmount :: rat
  gs_companyRevenue :: rat
  gs_status :: game_status
  gs_autoCallEnabled :: bool
  gs_autoCallIntervalMs :: "int option"
  gs_nextAutoCallAt :: "int option"
  gs_registrationOpensAt :: "int option"
  gs_scheduledStartAt :: "int option"
  gs_startedAt :: int
  gs_finishedAt :: "int option"
  gs_cancelledReason :: "string option"
  gs_noWinnerGraceEndsAt :: "int option"
  gs_noWinnerReason :: "string option"
  gs_winnerWindowStartedAt :: "int option"
  gs_winnerWindowEndsAt :: "int option"
  gs_prizeFinalizedAt :: "int option"
  gs_winnerCartelaId :: "string option"
  gs_updatedAt :: int

record game_cartela =
  gc_id :: string
  gc_sessionId :: string
  gc_userId :: string
  gc_board :: cartela
  gc_status :: cartela_status
  gc_isWinner :: bool
  gc_blockedAt :: "int option"
  gc_paymentSource :: "payment_source option"
  gc_entryFeeCents :: int
  gc_prizeContributionCents :: int
  gc_companyFeeCents :: int
  gc_companyFeeSource :: "fee_source option"

record called_row = called_number +
  cr_sessionId :: string

record claim_row =
  bc_id :: string
  bc_sessionId :: string
  bc_userId :: string
  bc_gameCartelaId :: string
  bc_status :: claim_status
  bc_checkedPattern :: string
  bc_reason :: "string option"
  bc_reasonCode :: "claim_reason option"
  bc_winningBall :: "(string \<times> int) option"
  bc_checkedAt :: "int option"

record reservation_row =
  rv_id :: string
  rv_sessionId :: string
  rv_cartelaId :: string
  rv_userId :: string
  rv_expiresAt :: int
  rv_status :: reservation_status

text \<open>
  The tables: slots, sessions, the cards (\<open>Cartela\<close>), the cartelas registered in a session with their
  card, reservations, numbers, claims and the wallets.
\<close>

record game_db =
  gd_slots :: "slot_row list"
  gd_sessions :: "session_row list"
  gd_boards :: "cartela list"
  gd_cartelas :: "game_cartela list"
  gd_reservations :: "reservation_row list"
  gd_numbers :: "called_row list"
  gd_claims :: "claim_row list"
  gd_wallet :: wallet_db

text \<open>The timing configuration in force.\<close>

record timing_config =
  tc_registrationDurationSeconds :: int
  tc_autoCallIntervalSeconds :: int
  tc_winnerWindowSeconds :: int
  tc_winnerWindowClaimGraceMs :: int
  tc_finishedResultDisplaySeconds :: int
  tc_noWinnerGraceSeconds :: int

section \<open>Transactions\<close>

type_synonym 'a tx = "http_error + 'a \<times> game_db"

type_synonym 'a game_outcome = "(http_error + 'a) \<times> game_db"

text \<open>What a transaction leaves: its commit, or the database as it was.\<close>

definition transaction :: "game_db \<Rightarrow> 'a tx \<Rightarrow> 'a game_outcome" where
  "transaction db r = (case r of Inl e \<Rightarrow> (Inl e, db) | Inr (x, db') \<Rightarrow> (Inr x, db'))"

text \<open>A wallet operation inside a transaction.\<close>

definition wallet_tx :: "(wallet_db \<Rightarrow> 'a outcome) \<Rightarrow> game_db \<Rightarrow> 'a tx" where
  "wallet_tx post db =
     (case post (gd_wallet db) of
        (Inl e, w) \<Rightarrow> Inl e
      | (Inr x, w) \<Rightarrow> Inr (x, db\<lparr>gd_wallet := w\<rparr>))"

text \<open>\<open>findUnique\<close> by identifier.\<close>

definition find_slot :: "game_db \<Rightarrow> string \<Rightarrow> slot_row option" where
  "find_slot db ident = find (\<lambda>s. sl_id s = ident) (gd_slots db)"

definition find_session :: "game_db \<Rightarrow> string \<Rightarrow> session_row option" where
  "find_session db ident = find (\<lambda>s. gs_id s = ident) (gd_sessions db)"

definition find_cartela :: "game_db \<Rightarrow> string \<Rightarrow> game_cartela option" where
  "find_cartela db ident = find (\<lambda>c. gc_id c = ident) (gd_cartelas db)"

definition find_claim :: "game_db \<Rightarrow> string \<Rightarrow> claim_row option" where
  "find_claim db ident = find (\<lambda>c. bc_id c = ident) (gd_claims db)"

text \<open>\<open>updateMany\<close> on sessions, cartelas and claims: how many rows matched, and the new state.\<close>

definition update_sessions ::
  "int \<Rightarrow> (session_row \<Rightarrow> bool) \<Rightarrow> (session_row \<Rightarrow> session_row) \<Rightarrow> game_db \<Rightarrow> nat \<times> game_db" where
  "update_sessions now P f db =
     (count_where P (gd_sessions db),
      db\<lparr>gd_sessions := update_where P (\<lambda>s. (f s)\<lparr>gs_updatedAt := now\<rparr>) (gd_sessions db)\<rparr>)"

definition update_cartelas ::
  "(game_cartela \<Rightarrow> bool) \<Rightarrow> (game_cartela \<Rightarrow> game_cartela) \<Rightarrow> game_db \<Rightarrow> nat \<times> game_db" where
  "update_cartelas P f db =
     (count_where P (gd_cartelas db), db\<lparr>gd_cartelas := update_where P f (gd_cartelas db)\<rparr>)"

definition update_claims ::
  "(claim_row \<Rightarrow> bool) \<Rightarrow> (claim_row \<Rightarrow> claim_row) \<Rightarrow> game_db \<Rightarrow> nat \<times> game_db" where
  "update_claims P f db =
     (count_where P (gd_claims db), db\<lparr>gd_claims := update_where P f (gd_claims db)\<rparr>)"

text \<open>\<open>update\<close> of one row, which fails with \<open>P2025\<close> when there is none.\<close>

definition update_slot :: "string \<Rightarrow> (slot_row \<Rightarrow> slot_row) \<Rightarrow> game_db \<Rightarrow> http_error + game_db" where
  "update_slot ident f db =
     (if find_slot db ident = None then Inl (Db_Error ''P2025'')
      else Inr (db\<lparr>gd_slots := update_where (\<lambda>s. sl_id s = ident) f (gd_slots db)\<rparr>))"

definition update_session ::
  "int \<Rightarrow> string \<Rightarrow> (session_row \<Rightarrow> session_row) \<Rightarrow> game_db \<Rightarrow> http_error + game_db" where
  "update_session now ident f db =
     (if find_session db ident = None then Inl (Db_Error ''P2025'')
      else Inr (snd (update_sessions now (\<lambda>s. gs_id s = ident) f db)))"

definition update_claim :: "string \<Rightarrow> (claim_row \<Rightarrow> claim_row) \<Rightarrow> game_db \<Rightarrow> http_error + game_db" where
  "update_claim ident f db =
     (if find_claim db ident = None then Inl (Db_Error ''P2025'')
      else Inr (snd (update_claims (\<lambda>c. bc_id c = ident) f db)))"

text \<open>The sessions that hold the table: \<open>PLAYING\<close>, \<open>WINNER_WINDOW\<close>, \<open>CHECKING\<close>.\<close>

definition live :: "game_status \<Rightarrow> bool" where
  "live status \<longleftrightarrow> status = PLAYING \<or> status = WINNER_WINDOW \<or> status = CHECKING"

text \<open>The numbers called in a session, in the order they were called.\<close>

definition order_cmp :: "called_row \<Rightarrow> called_row \<Rightarrow> int" where
  "order_cmp x y = cn_order x - cn_order y"

definition called_rows :: "game_db \<Rightarrow> string \<Rightarrow> called_row list" where
  "called_rows db sessionId =
     sort_by order_cmp (filter (\<lambda>row. cr_sessionId row = sessionId) (gd_numbers db))"

definition called_numbers :: "game_db \<Rightarrow> string \<Rightarrow> called_number list" where
  "called_numbers db sessionId = map called_number.truncate (called_rows db sessionId)"

section \<open>Status rules\<close>

fun allowedGameStatusTransitions :: "game_status \<Rightarrow> game_status list" where
  "allowedGameStatusTransitions NEXT = [READY, CANCELLED]"
| "allowedGameStatusTransitions READY = [PLAYING, CANCELLED]"
| "allowedGameStatusTransitions CHECKING = [PLAYING, FINISHED, NO_WINNER, CANCELLED]"
| "allowedGameStatusTransitions PLAYING = [CHECKING, WINNER_WINDOW, NO_WINNER, CANCELLED]"
| "allowedGameStatusTransitions WINNER_WINDOW = [FINISHED, CANCELLED]"
| "allowedGameStatusTransitions FINISHED = []"
| "allowedGameStatusTransitions NO_WINNER = []"
| "allowedGameStatusTransitions CANCELLED = []"

definition canTransitionGameStatus :: "game_status \<Rightarrow> game_status \<Rightarrow> bool" where
  "canTransitionGameStatus current next_status \<longleftrightarrow>
     List.member (allowedGameStatusTransitions current) next_status"

definition assertValidGameStatusTransition :: "game_status \<Rightarrow> game_status \<Rightarrow> http_error + unit" where
  "assertValidGameStatusTransition current next_status =
     (if \<not> canTransitionGameStatus current next_status
      then Inl (Bad_Request ''Invalid game status transition'') else Inr ())"

end
