(* ===== verification/GameMoney.thy ===== *)
theory GameMoney
  imports GameState
begin

text \<open>
  Money of a game: the categories of a slot and what a session of each costs and pays
  (\<open>games/game-category.util.ts\<close>), how a registration is accounted
  (\<open>games/registration-payment.util.ts\<close>) and how a prize is split between winners
  (\<open>bingo-claims/prize-split.util.ts\<close>), with the lemmas that make these correct. Decimals are exact
  rationals: the library computes with twenty digits, more than a column of twelve can need.
\<close>

section \<open>Categories\<close>

definition DEFAULT_BONUS_MAX_CARTELAS_PER_PLAYER :: int where
  "DEFAULT_BONUS_MAX_CARTELAS_PER_PLAYER = 5"

definition isBonusCategory :: "game_category option \<Rightarrow> bool" where
  "isBonusCategory category \<longleftrightarrow> category = Some BONUS"

definition isBigGotdCategory :: "game_category option \<Rightarrow> bool" where
  "isBigGotdCategory category \<longleftrightarrow> category = Some BIG_GOTD"

definition isBonusLikeCategory :: "game_category option \<Rightarrow> bool" where
  "isBonusLikeCategory category \<longleftrightarrow> isBonusCategory category \<or> isBigGotdCategory category"

definition isBigGameCategory :: "game_category option \<Rightarrow> bool" where
  "isBigGameCategory category \<longleftrightarrow> category = Some BIG_GAME"

definition isFreeEntryCategory :: "game_category option \<Rightarrow> bool" where
  "isFreeEntryCategory category \<longleftrightarrow> isBonusCategory category"

definition isNormalCategory :: "game_category option \<Rightarrow> bool" where
  "isNormalCategory category \<longleftrightarrow> category = Some NORMAL"

definition canUseBonusCartelaBalance :: "game_category option \<Rightarrow> bool" where
  "canUseBonusCartelaBalance category \<longleftrightarrow> isNormalCategory category"

definition isFixedPrizeCategory :: "game_category option \<Rightarrow> bool" where
  "isFixedPrizeCategory category \<longleftrightarrow> isBonusLikeCategory category \<or> isBigGameCategory category"

definition isStandardQueueCategory :: "game_category option \<Rightarrow> bool" where
  "isStandardQueueCategory category \<longleftrightarrow> \<not> isBigGameCategory category"

datatype cartela_pool = Standard | Big_Game_Pool

definition cartelaPoolForCategory :: "game_category option \<Rightarrow> cartela_pool" where
  "cartelaPoolForCategory category = (if isBigGameCategory category then Big_Game_Pool else Standard)"

definition sharesCartelaPool :: "game_category option \<Rightarrow> game_category option \<Rightarrow> bool" where
  "sharesCartelaPool left right \<longleftrightarrow> cartelaPoolForCategory left = cartelaPoolForCategory right"

definition liveCartelaPoolCategoryFilter :: "cartela_pool \<Rightarrow> game_category list" where
  "liveCartelaPoolCategoryFilter pool =
     (if pool = Big_Game_Pool then [BIG_GAME] else [NORMAL, BONUS, BIG_GOTD])"

definition getBonusCartelaLimit :: "int option \<Rightarrow> int" where
  "getBonusCartelaLimit limit = or_else limit DEFAULT_BONUS_MAX_CARTELAS_PER_PLAYER"

definition MAX_SAFE_INTEGER :: int where
  "MAX_SAFE_INTEGER = 9007199254740991"

definition compareSortOrder :: "int option \<Rightarrow> int option \<Rightarrow> int" where
  "compareSortOrder left right = or_else left MAX_SAFE_INTEGER - or_else right MAX_SAFE_INTEGER"

definition isDueBigGameReady ::
  "game_category option \<Rightarrow> game_status option \<Rightarrow> int option \<Rightarrow> int \<Rightarrow> bool" where
  "isDueBigGameReady category status scheduledStartAt now \<longleftrightarrow>
     isBigGameCategory category \<and> status = Some READY \<and>
     (case scheduledStartAt of None \<Rightarrow> False | Some start \<Rightarrow> start \<le> now)"

definition getRuntimeQueuePriority ::
  "game_category option \<Rightarrow> game_status option \<Rightarrow> int option \<Rightarrow> int \<Rightarrow> int" where
  "getRuntimeQueuePriority category status scheduledStartAt now =
     (if isDueBigGameReady category status scheduledStartAt now then 0
      else if isBigGameCategory category then 3
      else 2)"

record money_config =
  mc_entryFee :: rat
  mc_prizePerCartela :: rat
  mc_companyFeePerCartela :: rat
  mc_prizeAmount :: rat
  mc_companyRevenue :: rat

definition buildSessionMoneyConfig :: "slot_row \<Rightarrow> money_config" where
  "buildSessionMoneyConfig slot =
     (if isFreeEntryCategory (Some (sl_category slot)) then
        \<lparr>mc_entryFee = 0, mc_prizePerCartela = 0, mc_companyFeePerCartela = 0,
         mc_prizeAmount = or_else (sl_fixedPrizeAmount slot) 0, mc_companyRevenue = 0\<rparr>
      else if isBigGotdCategory (Some (sl_category slot)) \<or> isBigGameCategory (Some (sl_category slot)) then
        \<lparr>mc_entryFee = sl_entryFee slot, mc_prizePerCartela = 0,
         mc_companyFeePerCartela = sl_entryFee slot,
         mc_prizeAmount = or_else (sl_fixedPrizeAmount slot) 0, mc_companyRevenue = 0\<rparr>
      else
        \<lparr>mc_entryFee = sl_entryFee slot, mc_prizePerCartela = sl_prizePerCartela slot,
         mc_companyFeePerCartela = sl_entryFee slot - sl_prizePerCartela slot,
         mc_prizeAmount = 0, mc_companyRevenue = 0\<rparr>)"

section \<open>The account of a registration\<close>

record registration_accounting =
  ra_paymentSource :: "payment_source option"
  ra_entryFeeCents :: int
  ra_prizeContributionCents :: int
  ra_companyFeeCents :: int
  ra_companyFeeSource :: "fee_source option"

record session_economics =
  se_entryFee :: rat
  se_prizePerCartela :: rat
  se_companyFeePerCartela :: rat
  se_category :: game_category

text \<open>\<open>round\<close> of a decimal: the nearest integer, halves away from zero.\<close>

definition round_half_up :: "rat \<Rightarrow> int" where
  "round_half_up x = (if 0 \<le> x then \<lfloor>x + 1/2\<rfloor> else \<lceil>x - 1/2\<rceil>)"

definition decimalToCents :: "rat \<Rightarrow> int" where
  "decimalToCents amount = round_half_up (amount * 100)"

definition centsToDecimal :: "int \<Rightarrow> rat" where
  "centsToDecimal cents = of_int cents / 100"

definition buildFreeEntryAccounting :: registration_accounting where
  "buildFreeEntryAccounting =
     \<lparr>ra_paymentSource = None, ra_entryFeeCents = 0, ra_prizeContributionCents = 0,
      ra_companyFeeCents = 0, ra_companyFeeSource = None\<rparr>"

definition buildPaidEntryAccounting ::
  "session_economics \<Rightarrow> payment_source \<Rightarrow> registration_accounting" where
  "buildPaidEntryAccounting session paymentSource =
     \<lparr>ra_paymentSource = Some paymentSource,
      ra_entryFeeCents = decimalToCents (se_entryFee session),
      ra_prizeContributionCents = decimalToCents (se_prizePerCartela session),
      ra_companyFeeCents = decimalToCents (se_companyFeePerCartela session),
      ra_companyFeeSource = Some (if paymentSource = BONUS_CARTELA then FEE_BONUS else FEE_MONEY)\<rparr>"

text \<open>The account and whether the entry is free.\<close>

definition resolveRegistrationAccounting ::
  "session_economics \<Rightarrow> int \<Rightarrow> registration_accounting \<times> bool" where
  "resolveRegistrationAccounting session bonusCartelaBalance =
     (if isFreeEntryCategory (Some (se_category session)) then (buildFreeEntryAccounting, True)
      else
        let paymentSource =
              (if canUseBonusCartelaBalance (Some (se_category session)) \<and> 0 < bonusCartelaBalance
               then BONUS_CARTELA else MONEY_WALLET)
        in (buildPaidEntryAccounting session paymentSource, False))"

section \<open>Splitting a prize\<close>

text \<open>\<open>toDecimalPlaces(0, ROUND_DOWN)\<close>: towards zero.\<close>

definition round_down :: "rat \<Rightarrow> int" where
  "round_down x = (if 0 \<le> x then \<lfloor>x\<rfloor> else \<lceil>x\<rceil>)"

text \<open>The loop over the winners; \<open>index < remainderCents\<close> gives the extra cent.\<close>

definition splitPrizeAmount :: "rat \<Rightarrow> int \<Rightarrow> string + rat list" where
  "splitPrizeAmount prizeAmount winnerCount =
     (if winnerCount \<le> 0 then Inl ''winnerCount must be greater than zero''
      else
        let totalCents = round_down (prizeAmount * 100);
            baseShareCents = round_down (of_int totalCents / of_int winnerCount);
            remainderCents = totalCents - baseShareCents * winnerCount
        in Inr (map (\<lambda>index.
             of_int (round_down (of_int (baseShareCents + (if index < remainderCents then 1 else 0)) / 100 * 100)) / 100)
             [0..winnerCount - 1]))"

section \<open>What the split guarantees\<close>

lemma round_down_of_int [simp]: "round_down (of_int k) = k"
  by (simp add: round_down_def)

lemma round_down_div:
  assumes "0 \<le> a" "0 < n"
  shows "round_down (of_int a / of_int n) = a div n"
  using assms by (simp add: round_down_def floor_divide_of_int_eq)

lemma splitPrizeAmount_eq:
  assumes "0 \<le> amount" "0 < n"
  defines "t \<equiv> \<lfloor>amount * 100\<rfloor>"
  shows "splitPrizeAmount amount n =
    Inr (map (\<lambda>i. of_int (t div n + (if i < t mod n then 1 else 0)) / 100) [0..n - 1])"
proof -
  have t: "round_down (amount * 100) = t" "0 \<le> t"
    using assms by (simp_all add: round_down_def t_def)
  have cents: "round_down (of_int k / 100 * 100) = k" for k by simp
  have "\<not> n \<le> 0" using assms(2) by simp
  then show ?thesis
    using assms(2) t
    by (simp only: splitPrizeAmount_def Let_def round_down_div minus_div_mult_eq_mod cents if_False)
qed

lemma sum_extra:
  assumes "0 \<le> r" "r \<le> n"
  shows "sum_list (map (\<lambda>i. if i < r then 1 else (0::int)) [0..n - 1]) = r"
proof -
  have "sum_list (map (\<lambda>i. if i < r then 1 else (0::int)) [0..n - 1]) =
      (\<Sum>i\<in>{0..n - 1}. if i < r then 1 else 0)"
    by (simp add: sum_list_distinct_conv_sum_set)
  also have "\<dots> = int (card {i\<in>{0..n - 1}. i < r})"
    by (simp add: sum.If_cases Int_def)
  also have "{i\<in>{0..n - 1}. i < r} = {0..<r}"
    using assms by auto
  finally show ?thesis using assms(1) by simp
qed

lemma split_total:
  assumes "0 \<le> amount" "0 < n" "splitPrizeAmount amount n = Inr shares"
  shows "sum_list shares = of_int \<lfloor>amount * 100\<rfloor> / 100"
proof -
  let ?t = "\<lfloor>amount * 100\<rfloor>"
  let ?cents = "\<lambda>i. ?t div n + (if i < ?t mod n then 1 else 0)"
  have shares: "shares = map (\<lambda>i. of_int (?cents i) / 100) [0..n - 1]"
    using assms splitPrizeAmount_eq [OF assms(1,2)] by simp
  have "sum_list (map ?cents [0..n - 1]) = n * (?t div n) + ?t mod n"
    using assms(2) sum_extra [of "?t mod n" n]
    by (simp add: sum_list_addf sum_list_triv pos_mod_bound less_imp_le)
  also have "\<dots> = ?t" by simp
  finally have cents: "sum_list (map ?cents [0..n - 1]) = ?t" .
  have "sum_list (map (\<lambda>i. of_int (f i) / (100::rat)) xs) = of_int (sum_list (map f xs)) / 100" for f and xs :: "int list"
    by (induction xs) (simp_all add: add_divide_distrib)
  then show ?thesis using shares cents by metis
qed

lemma split_shares:
  assumes "0 \<le> amount" "0 < n" "splitPrizeAmount amount n = Inr shares"
  shows "length shares = nat n" and "\<forall>s\<in>set shares. 0 \<le> s"
    and "\<forall>s\<in>set shares. \<forall>s'\<in>set shares. \<bar>s - s'\<bar> \<le> 1 / 100"
proof -
  let ?b = "\<lfloor>amount * 100\<rfloor> div n"
  have shares: "shares = map (\<lambda>i. of_int (?b + (if i < \<lfloor>amount * 100\<rfloor> mod n then 1 else 0)) / 100) [0..n - 1]"
    using assms splitPrizeAmount_eq [OF assms(1,2)] by simp
  show "length shares = nat n" using shares by simp
  have b: "0 \<le> ?b" using assms by (simp add: pos_imp_zdiv_nonneg_iff)
  have elem: "s = of_int ?b / 100 \<or> s = of_int (?b + 1) / 100" if "s \<in> set shares" for s
    using that shares by (auto split: if_splits)
  show "\<forall>s\<in>set shares. 0 \<le> s" using elem b by force
  have step: "of_int (?b + 1) / (100::rat) = of_int ?b / 100 + 1 / 100"
    by (simp add: add_divide_distrib)
  have near: "\<bar>s - s'\<bar> \<le> 1 / 100"
    if "s = x \<or> s = x + 1 / 100" "s' = x \<or> s' = x + 1 / 100" for s s' x :: rat
    using that by auto
  show "\<forall>s\<in>set shares. \<forall>s'\<in>set shares. \<bar>s - s'\<bar> \<le> 1 / 100"
  proof (intro ballI)
    fix s s' assume "s \<in> set shares" "s' \<in> set shares"
    then show "\<bar>s - s'\<bar> \<le> 1 / 100"
      using near [OF elem [of s, unfolded step] elem [of s', unfolded step]] by blast
  qed
qed

lemma split_defined: "0 < n \<Longrightarrow> \<exists>shares. splitPrizeAmount amount n = Inr shares"
  by (simp add: splitPrizeAmount_def Let_def)

end
