(* ===== verification/GameQueue.thy ===== *)
theory GameQueue
  imports GameMoney
begin

text \<open>
  The queue of slots: \<open>games/game-queue-diversity.ts\<close>, \<open>games/game-queue.service.ts\<close> and the opener
  of the next registration, \<open>games/post-game-registration-opener.service.ts\<close>. PostgreSQL puts a null
  last in an ascending order and first in a descending one; slots with equal order keep the order of
  the table. Identifier and play code of a new session are chosen elsewhere: they are arguments, as
  is whether the advisory lock of the opener is free.
\<close>

section \<open>Diversity of the queue\<close>

definition QUEUE_RULE_DIVERSITY_WINDOW :: nat where
  "QUEUE_RULE_DIVERSITY_WINDOW = 5"

definition QUEUE_RULE_DIVERSITY_MESSAGE :: string where
  "QUEUE_RULE_DIVERSITY_MESSAGE = ''First 5 queue games must use different rules.''"

text \<open>The loop: the rules seen so far.\<close>

fun all_diverse :: "string set \<Rightarrow> string option list \<Rightarrow> http_error + unit" where
  "all_diverse seen [] = Inr ()"
| "all_diverse seen (ruleId # rest) =
     (case ruleId of
        None \<Rightarrow> all_diverse seen rest
      | Some r \<Rightarrow>
          if r = [] then all_diverse seen rest
          else if r \<in> seen then Inl (Bad_Request QUEUE_RULE_DIVERSITY_MESSAGE)
          else all_diverse (insert r seen) rest)"

definition assertTopFiveQueueRuleDiversity :: "string option list \<Rightarrow> http_error + unit" where
  "assertTopFiveQueueRuleDiversity gameRuleIds =
     all_diverse {} (take QUEUE_RULE_DIVERSITY_WINDOW gameRuleIds)"

definition sl_gameRuleId :: "slot_row \<Rightarrow> string option" where
  "sl_gameRuleId slot = map_option ru_id (sl_gameRule slot)"

definition shouldDeferDuplicateRuleInTopFive :: "slot_row list \<Rightarrow> string \<Rightarrow> bool" where
  "shouldDeferDuplicateRuleInTopFive queueSlots gameRuleId \<longleftrightarrow>
     list_ex (\<lambda>slot. sl_gameRuleId slot = Some gameRuleId)
       (take QUEUE_RULE_DIVERSITY_WINDOW queueSlots)"

definition resolveInsertAfterSortOrder :: "slot_row list \<Rightarrow> int" where
  "resolveInsertAfterSortOrder queueSlots =
     (if queueSlots = [] then 0
      else
        let anchorIndex = min (QUEUE_RULE_DIVERSITY_WINDOW - 1) (length queueSlots - 1)
        in or_else (sl_sortOrder (queueSlots ! anchorIndex)) (int anchorIndex + 1))"

section \<open>The queue service\<close>

definition asc_nulls_last :: "slot_row \<Rightarrow> slot_row \<Rightarrow> int" where
  "asc_nulls_last x y =
     (case (sl_sortOrder x, sl_sortOrder y) of
        (None, None) \<Rightarrow> 0 | (None, Some _) \<Rightarrow> 1 | (Some _, None) \<Rightarrow> - 1 | (Some a, Some b) \<Rightarrow> a - b)"

definition desc_nulls_first :: "slot_row \<Rightarrow> slot_row \<Rightarrow> int" where
  "desc_nulls_first x y = - asc_nulls_last x y"

definition listQueueOrderingSlots :: "game_db \<Rightarrow> slot_row list" where
  "listQueueOrderingSlots db =
     sort_by asc_nulls_last
       (filter (\<lambda>s. sl_status s = NEXT \<and> sl_category s \<noteq> BIG_GAME) (gd_slots db))"

text \<open>\<open>maxSortOrder?.sortOrder ?? 0\<close> of the first slot in descending order.\<close>

definition max_sort_order :: "game_db \<Rightarrow> int" where
  "max_sort_order db =
     (case sort_by desc_nulls_first (gd_slots db) of
        [] \<Rightarrow> 0
      | s # _ \<Rightarrow> or_else (sl_sortOrder s) 0)"

definition assignSortOrderOnCreate :: "game_db \<Rightarrow> string \<Rightarrow> int \<times> game_db" where
  "assignSortOrderOnCreate db gameRuleId =
     (let queueSlots = listQueueOrderingSlots db in
      if queueSlots = [] then (max_sort_order db + 1, db)
      else if \<not> shouldDeferDuplicateRuleInTopFive queueSlots gameRuleId then (max_sort_order db + 1, db)
      else
        let anchorSortOrder = resolveInsertAfterSortOrder queueSlots;
            behind = (\<lambda>s. sl_status s = NEXT \<and>
              (case sl_sortOrder s of None \<Rightarrow> False | Some k \<Rightarrow> anchorSortOrder < k));
            shift = (\<lambda>s. s\<lparr>sl_sortOrder := map_option (\<lambda>k. k + 1) (sl_sortOrder s)\<rparr>)
        in (anchorSortOrder + 1, db\<lparr>gd_slots := update_where behind shift (gd_slots db)\<rparr>))"

definition assertReorderRuleDiversity :: "string option list \<Rightarrow> http_error + unit" where
  "assertReorderRuleDiversity orderedGameRuleIds = assertTopFiveQueueRuleDiversity orderedGameRuleIds"

fun updateQueueOrder :: "int \<Rightarrow> string list \<Rightarrow> game_db \<Rightarrow> http_error + game_db" where
  "updateQueueOrder i [] db = Inr db"
| "updateQueueOrder i (slotId # slotIds) db =
     bind_result (update_slot slotId (\<lambda>s. s\<lparr>sl_sortOrder := Some (i + 1)\<rparr>) db)
       (updateQueueOrder (i + 1) slotIds)"

definition moveSlotToBack :: "string \<Rightarrow> game_db \<Rightarrow> http_error + game_db" where
  "moveSlotToBack slotId db =
     update_slot slotId (\<lambda>s. s\<lparr>sl_status := NEXT, sl_sortOrder := Some (max_sort_order db + 1)\<rparr>) db"

datatype restored = Requeued | Removed

definition restoreSlotAfterSession :: "string \<Rightarrow> game_db \<Rightarrow> restored tx" where
  "restoreSlotAfterSession slotId db =
     (if (case find_slot db slotId of None \<Rightarrow> False | Some slot \<Rightarrow> sl_removeAfterFinish slot) then
        bind_result (update_slot slotId (\<lambda>s. s\<lparr>sl_status := CANCELLED\<rparr>) db)
          (\<lambda>db'. Inr (Removed, db'))
      else bind_result (moveSlotToBack slotId db) (\<lambda>db'. Inr (Requeued, db')))"

text \<open>The newest \<open>READY\<close> session of a slot, and when it starts.\<close>

definition ready_start :: "game_db \<Rightarrow> slot_row \<Rightarrow> int option" where
  "ready_start db slot =
     (case rev (filter (\<lambda>s. gs_slotId s = sl_id slot \<and> gs_status s = READY) (gd_sessions db)) of
        [] \<Rightarrow> None
      | s # _ \<Rightarrow> gs_scheduledStartAt s)"

definition due_cmp :: "game_db \<Rightarrow> slot_row \<Rightarrow> slot_row \<Rightarrow> int" where
  "due_cmp db left right =
     (let scheduledDiff = or_else (ready_start db left) 0 - or_else (ready_start db right) 0
      in if scheduledDiff \<noteq> 0 then scheduledDiff
         else compareSortOrder (sl_sortOrder left) (sl_sortOrder right))"

definition assertSlotReady :: "int \<Rightarrow> game_db \<Rightarrow> string \<Rightarrow> http_error + unit" where
  "assertSlotReady now db slotId =
     (case find_slot db slotId of
        None \<Rightarrow> Inl (Bad_Request ''Game slot not found'')
      | Some slot \<Rightarrow>
          if sl_status slot \<noteq> NEXT \<and> sl_status slot \<noteq> READY
          then Inl (Bad_Request ''Only NEXT or READY slots can be started.'')
          else
            let candidateSlots = filter (\<lambda>s. sl_status s = NEXT \<or> sl_status s = READY) (gd_slots db);
                dueBigGameSlots = sort_by (due_cmp db)
                  (filter (\<lambda>s. isDueBigGameReady (Some (sl_category s)) (Some READY) (ready_start db s) now)
                    candidateSlots)
            in case dueBigGameSlots of
                 dueBigGameSlot # _ \<Rightarrow>
                   if sl_id dueBigGameSlot \<noteq> slotId
                   then Inl (Bad_Request ''A due Big Game must start before lower-priority games'')
                   else Inr ()
               | [] \<Rightarrow>
                   if isBigGameCategory (Some (sl_category slot))
                   then Inl (Bad_Request ''Big Game can only start at or after its scheduled start time'')
                   else
                     (case sort_by (\<lambda>x y. compareSortOrder (sl_sortOrder x) (sl_sortOrder y))
                         (filter (\<lambda>s. \<not> isBigGameCategory (Some (sl_category s))) candidateSlots) of
                        [] \<Rightarrow> Inl (Bad_Request ''Only the first slot in the queue can be started'')
                      | firstSlot # _ \<Rightarrow>
                          if sl_id firstSlot \<noteq> slotId
                          then Inl (Bad_Request ''Only the first slot in the queue can be started'')
                          else Inr ()))"

section \<open>Opening the next registration\<close>

record open_options =
  op_ignoreReviewGrace :: bool
  op_allowBehindActiveLive :: bool
  op_deferred :: bool

datatype emit_reason = Scheduler_Tick | Deferred_Behind_Live | Existing_Ready_Activated

record opened_registration =
  od_sessionId :: string
  od_slotId :: string
  od_scheduledStartAt :: "int option"
  od_emitReason :: emit_reason
  od_wasCreated :: bool

text \<open>A session as it is created, with the defaults of its columns.\<close>

definition new_session ::
  "int \<Rightarrow> string \<times> string \<Rightarrow> string \<Rightarrow> money_config \<Rightarrow> game_status \<Rightarrow> int option \<Rightarrow> session_row" where
  "new_session now codes slotId money status scheduledStartAt =
     \<lparr>gs_id = fst codes, gs_slotId = slotId, gs_playCode = snd codes,
      gs_entryFee = mc_entryFee money, gs_prizePerCartela = mc_prizePerCartela money,
      gs_companyFeePerCartela = mc_companyFeePerCartela money,
      gs_prizeAmount = mc_prizeAmount money, gs_companyRevenue = mc_companyRevenue money,
      gs_status = status, gs_autoCallEnabled = False, gs_autoCallIntervalMs = Some 7000,
      gs_nextAutoCallAt = None, gs_registrationOpensAt = None, gs_scheduledStartAt = scheduledStartAt, gs_startedAt = now,
      gs_finishedAt = None, gs_cancelledReason = None, gs_noWinnerGraceEndsAt = None,
      gs_noWinnerReason = None, gs_winnerWindowStartedAt = None, gs_winnerWindowEndsAt = None,
      gs_prizeFinalizedAt = None, gs_winnerCartelaId = None, gs_updatedAt = now\<rparr>"

definition create_session :: "session_row \<Rightarrow> game_db \<Rightarrow> http_error + game_db" where
  "create_session session db =
     (if list_ex (\<lambda>s. gs_playCode s = gs_playCode session) (gd_sessions db)
      then Inl (Db_Error ''P2002'')
      else Inr (db\<lparr>gd_sessions := gd_sessions db @ [session]\<rparr>))"

definition active_cartelas :: "game_db \<Rightarrow> string \<Rightarrow> game_cartela list" where
  "active_cartelas db sessionId =
     filter (\<lambda>c. gc_sessionId c = sessionId \<and> gc_status c \<noteq> CARTELA_CANCELLED) (gd_cartelas db)"

fun softRetireEmptyNonHeadReadySessions ::
  "int \<Rightarrow> session_row list \<Rightarrow> game_db \<Rightarrow> http_error + game_db" where
  "softRetireEmptyNonHeadReadySessions now [] db = Inr db"
| "softRetireEmptyNonHeadReadySessions now (session # sessions) db =
     (if active_cartelas db (gs_id session) \<noteq> []
      then softRetireEmptyNonHeadReadySessions now sessions db
      else
        bind_result
          (update_session now (gs_id session)
             (\<lambda>s. s\<lparr>gs_status := CANCELLED, gs_cancelledReason := Some ''not_queue_head'',
                   gs_scheduledStartAt := None\<rparr>) db)
          (softRetireEmptyNonHeadReadySessions now sessions))"

definition slot_of :: "game_db \<Rightarrow> session_row \<Rightarrow> slot_row option" where
  "slot_of db session = find_slot db (gs_slotId session)"

text \<open>\<open>gameSlot: \{ P \}\<close> in a \<open>where\<close> clause.\<close>

definition slot_where :: "game_db \<Rightarrow> (slot_row \<Rightarrow> bool) \<Rightarrow> session_row \<Rightarrow> bool" where
  "slot_where db P session = (case slot_of db session of None \<Rightarrow> False | Some slot \<Rightarrow> P slot)"

definition session_sort_order :: "game_db \<Rightarrow> session_row \<Rightarrow> int option" where
  "session_sort_order db session =
     (case slot_of db session of None \<Rightarrow> None | Some slot \<Rightarrow> sl_sortOrder slot)"

definition standardReadyOrdered :: "game_db \<Rightarrow> session_row list" where
  "standardReadyOrdered db =
     sort_by (\<lambda>x y. compareSortOrder (session_sort_order db x) (session_sort_order db y))
       (filter (\<lambda>s. gs_status s = READY \<and>
            slot_where db (\<lambda>slot. sl_status slot \<noteq> CANCELLED \<and>
              isStandardQueueCategory (Some (sl_category slot))) s)
          (gd_sessions db))"

text \<open>Why the slot may not get a ready session; \<open>None\<close> is a valid slot.\<close>

fun status_name :: "game_status \<Rightarrow> string" where
  "status_name NEXT = ''NEXT''"
| "status_name READY = ''READY''"
| "status_name CHECKING = ''CHECKING''"
| "status_name PLAYING = ''PLAYING''"
| "status_name WINNER_WINDOW = ''WINNER_WINDOW''"
| "status_name FINISHED = ''FINISHED''"
| "status_name NO_WINNER = ''NO_WINNER''"
| "status_name CANCELLED = ''CANCELLED''"

definition isSlotValidForReadySession :: "game_db \<Rightarrow> string \<Rightarrow> string option" where
  "isSlotValidForReadySession db slotId =
     (case find_slot db slotId of
        None \<Rightarrow> Some ''slot_not_found''
      | Some slot \<Rightarrow>
          if sl_status slot = CANCELLED then Some ''slot_cancelled''
          else if sl_status slot \<noteq> NEXT \<and> sl_status slot \<noteq> READY
          then Some (''slot_in_invalid_state_'' @ status_name (sl_status slot))
          else None)"

definition set_durations :: "timing_config \<Rightarrow> slot_row \<Rightarrow> slot_row" where
  "set_durations cfg slot =
     slot\<lparr>sl_registrationDurationSeconds := Some (tc_registrationDurationSeconds cfg),
          sl_autoCallIntervalSeconds := Some (tc_autoCallIntervalSeconds cfg)\<rparr>"

text \<open>
  The head of the ready sessions (its countdown starts when the table is free), or a new session for
  the head of the queue.
\<close>

definition activate_head ::
  "timing_config \<Rightarrow> int \<Rightarrow> bool \<Rightarrow> int option \<Rightarrow> session_row \<Rightarrow> session_row list \<Rightarrow> game_db \<Rightarrow>
   opened_registration option tx" where
  "activate_head cfg now active scheduledStartAt headReady others db =
     bind_result (softRetireEmptyNonHeadReadySessions now others db) (\<lambda>db1.
       if \<not> active \<and> gs_scheduledStartAt headReady = None \<and>
          slot_where db (\<lambda>slot. sl_operationMode slot = AUTO) headReady
       then
         bind_result (update_slot (gs_slotId headReady) (set_durations cfg) db1) (\<lambda>db2.
         bind_result (update_session now (gs_id headReady)
             (\<lambda>s. s\<lparr>gs_scheduledStartAt := scheduledStartAt\<rparr>) db2) (\<lambda>db3.
           Inr (Some \<lparr>od_sessionId = gs_id headReady, od_slotId = gs_slotId headReady,
                      od_scheduledStartAt = scheduledStartAt,
                      od_emitReason = Existing_Ready_Activated, od_wasCreated = False\<rparr>, db3)))
       else Inr (None, db1))"

definition open_queue_head ::
  "timing_config \<Rightarrow> int \<Rightarrow> string \<times> string \<Rightarrow> bool \<Rightarrow> int option \<Rightarrow> game_db \<Rightarrow>
   opened_registration option tx" where
  "open_queue_head cfg now codes behindLive scheduledStartAt db =
     (case sort_by (\<lambda>x y. compareSortOrder (sl_sortOrder x) (sl_sortOrder y))
         (filter (\<lambda>s. sl_status s = NEXT) (gd_slots db)) of
        [] \<Rightarrow> Inr (None, db)
      | queueHead # _ \<Rightarrow>
          if sl_operationMode queueHead \<noteq> AUTO then Inr (None, db)
          else if isSlotValidForReadySession db (sl_id queueHead) \<noteq> None then Inr (None, db)
          else if list_ex (\<lambda>s. gs_slotId s = sl_id queueHead \<and> gs_status s = READY) (gd_sessions db)
          then Inr (None, db)
          else
            bind_result (update_slot (sl_id queueHead) (set_durations cfg) db) (\<lambda>db1.
            bind_result (create_session
                (new_session now codes (sl_id queueHead) (buildSessionMoneyConfig queueHead) READY
                  scheduledStartAt) db1) (\<lambda>db2.
              Inr (Some \<lparr>od_sessionId = fst codes, od_slotId = sl_id queueHead,
                         od_scheduledStartAt = scheduledStartAt,
                         od_emitReason = (if behindLive then Deferred_Behind_Live else Scheduler_Tick),
                         od_wasCreated = True\<rparr>, db2))))"

definition openNextAutoQueueRegistrationInTransaction ::
  "timing_config \<Rightarrow> int \<Rightarrow> bool \<Rightarrow> string \<times> string \<Rightarrow> open_options \<Rightarrow> game_db \<Rightarrow>
   opened_registration option tx" where
  "openNextAutoQueueRegistrationInTransaction cfg now lockFree codes options db =
     (if \<not> lockFree then Inr (None, db)
      else
        let deferredRequested = op_allowBehindActiveLive options \<and> op_deferred options;
            active = list_ex (\<lambda>s. live (gs_status s)) (gd_sessions db);
            graceCutoff = now - tc_finishedResultDisplaySeconds cfg * 1000
        in if active \<and> \<not> deferredRequested then Inr (None, db)
           else if \<not> op_ignoreReviewGrace options \<and>
             list_ex (\<lambda>s. (gs_status s = FINISHED \<or> gs_status s = NO_WINNER) \<and>
               graceCutoff \<le> gs_updatedAt s) (gd_sessions db)
           then Inr (None, db)
           else if list_ex (\<lambda>s. gs_status s = READY \<and>
               (case gs_scheduledStartAt s of None \<Rightarrow> False | Some start \<Rightarrow> start \<le> now) \<and>
               slot_where db (\<lambda>slot. sl_category slot = BIG_GAME \<and> sl_status slot \<noteq> CANCELLED) s)
             (gd_sessions db)
           then Inr (None, db)
           else
             let scheduledStartAt =
                   (if active then None else Some (now + tc_registrationDurationSeconds cfg * 1000))
             in case standardReadyOrdered db of
                  headReady # others \<Rightarrow>
                    activate_head cfg now active scheduledStartAt headReady others db
                | [] \<Rightarrow> open_queue_head cfg now codes (active \<and> deferredRequested) scheduledStartAt db)"

definition openNextAutoQueueRegistration ::
  "timing_config \<Rightarrow> int \<Rightarrow> bool \<Rightarrow> string \<times> string \<Rightarrow> open_options \<Rightarrow> game_db \<Rightarrow>
   opened_registration option game_outcome" where
  "openNextAutoQueueRegistration cfg now lockFree codes options db =
     transaction db (openNextAutoQueueRegistrationInTransaction cfg now lockFree codes options db)"

end
