(* ===== verification/GameEngine.thy ===== *)
theory GameEngine
  imports GameQueue
begin

text \<open>
  The engine of a game, \<open>game-engine/game-engine.service.ts\<close>: starting the game of a slot, finishing a
  session with a winner, the grace period after the last number and the end without a winner. What
  the service emits to sockets, caches, logs and push notifications is left out: it does not touch
  the database. The decimal texts of a start request are given as the decimals they denote.
\<close>

section \<open>Fees of a session started by hand\<close>

record session_config =
  sc_entryFee :: "rat option"
  sc_prizePerCartela :: "rat option"
  sc_companyFeePerCartela :: "rat option"

definition parseMoney :: "rat \<Rightarrow> string \<Rightarrow> bool \<Rightarrow> http_error + rat" where
  "parseMoney amount fieldName allowZero =
     (if (if allowZero then amount < 0 else amount \<le> 0)
      then Inl (Bad_Request (if allowZero then fieldName @ '' must be zero or greater''
                             else fieldName @ '' must be greater than zero''))
      else Inr amount)"

definition resolveFeeConfig :: "session_config \<Rightarrow> slot_row \<Rightarrow> http_error + rat \<times> rat \<times> rat" where
  "resolveFeeConfig config slot =
     bind_result (parseMoney (or_else (sc_entryFee config) (sl_entryFee slot)) ''entryFee'' False) (\<lambda>entryFee.
     bind_result (parseMoney (or_else (sc_prizePerCartela config) (sl_prizePerCartela slot))
         ''prizePerCartela'' True) (\<lambda>prizePerCartela.
     bind_result (parseMoney (or_else (sc_companyFeePerCartela config) (entryFee - prizePerCartela))
         ''companyFeePerCartela'' True) (\<lambda>companyFeePerCartela.
       if entryFee \<noteq> prizePerCartela + companyFeePerCartela
       then Inl (Bad_Request ''entryFee must equal prizePerCartela plus companyFeePerCartela'')
       else Inr (entryFee, prizePerCartela, companyFeePerCartela))))"

section \<open>Starting a game\<close>

text \<open>The fees of a session that is created at the start; its prize starts at zero.\<close>

definition started_money :: "session_config \<Rightarrow> slot_row \<Rightarrow> http_error + money_config" where
  "started_money config slot =
     bind_result
       (if isBonusCategory (Some (sl_category slot)) then
          let m = buildSessionMoneyConfig slot
          in Inr (mc_entryFee m, mc_prizePerCartela m, mc_companyFeePerCartela m)
        else resolveFeeConfig config slot)
       (\<lambda>(entryFee, prizePerCartela, companyFeePerCartela).
         Inr \<lparr>mc_entryFee = entryFee, mc_prizePerCartela = prizePerCartela,
              mc_companyFeePerCartela = companyFeePerCartela, mc_prizeAmount = 0,
              mc_companyRevenue = 0\<rparr>)"

text \<open>The session that now plays, and whether the next registration may open behind it.\<close>

definition start_session ::
  "int \<Rightarrow> string \<times> string \<Rightarrow> string \<Rightarrow> session_config \<Rightarrow> game_db \<Rightarrow> (string \<times> bool) tx" where
  "start_session now codes slotId config db =
     (case find_slot db slotId of
        None \<Rightarrow> Inl (Not_Found ''Game slot not found'')
      | Some slot \<Rightarrow>
          if list_ex (\<lambda>s. live (gs_status s)) (gd_sessions db)
          then Inl (Bad_Request ''Another game session is already active. Finish or cancel it before starting a new one.'')
          else
            let readySession = find (\<lambda>s. gs_slotId s = slotId \<and> gs_status s = READY) (gd_sessions db)
            in bind_result (assertSlotReady now db slotId) (\<lambda>_.
               bind_result (update_slot slotId (\<lambda>s. s\<lparr>sl_status := PLAYING\<rparr>) db) (\<lambda>db1.
                 case readySession of
                   Some ready \<Rightarrow>
                     let (count, db2) = update_sessions now
                           (\<lambda>s. gs_id s = gs_id ready \<and> gs_status s = READY)
                           (\<lambda>s. s\<lparr>gs_status := PLAYING, gs_startedAt := now\<rparr>) db1
                     in if count \<noteq> 1
                        then Inl (Bad_Request ''Game session is no longer ready to start.'')
                        else Inr ((gs_id ready, sl_operationMode slot = AUTO \<and>
                               isStandardQueueCategory (Some (sl_category slot))), db2)
                 | None \<Rightarrow>
                     bind_result (started_money config slot) (\<lambda>money.
                     bind_result (create_session
                         (new_session now codes slotId money PLAYING None) db1) (\<lambda>db2.
                       Inr ((fst codes, False), db2))))))"

definition startGame ::
  "timing_config \<Rightarrow> int \<Rightarrow> bool \<Rightarrow> string \<times> string \<Rightarrow> string \<times> string \<Rightarrow> string \<Rightarrow> session_config \<Rightarrow>
   game_db \<Rightarrow> string game_outcome" where
  "startGame cfg now lockFree codes nextCodes slotId config db =
     (case find (\<lambda>s. gs_slotId s = slotId \<and> live (gs_status s)) (gd_sessions db) of
        Some existing \<Rightarrow> (Inr (gs_id existing), db)
      | None \<Rightarrow>
          (case start_session now codes slotId config db of
             Inl e \<Rightarrow> (Inl e, db)
           | Inr ((sessionId, shouldOpenDeferredRegistration), db') \<Rightarrow>
               (Inr sessionId,
                if shouldOpenDeferredRegistration then
                  snd (openNextAutoQueueRegistration cfg now lockFree nextCodes
                    \<lparr>op_ignoreReviewGrace = True, op_allowBehindActiveLive = True, op_deferred = True\<rparr> db')
                else db')))"

section \<open>Finishing a session\<close>

definition after_finish :: open_options where
  "after_finish =
     \<lparr>op_ignoreReviewGrace = True, op_allowBehindActiveLive = False, op_deferred = False\<rparr>"

definition finishGameWithWinner ::
  "timing_config \<Rightarrow> int \<Rightarrow> bool \<Rightarrow> string \<times> string \<Rightarrow> string \<Rightarrow> string \<Rightarrow> game_db \<Rightarrow>
   (bool \<times> opened_registration option) tx" where
  "finishGameWithWinner cfg finishedAt lockFree codes sessionId winnerCartelaId db =
     (case find_session db sessionId of
        None \<Rightarrow> Inr ((False, None), db)
      | Some session \<Rightarrow>
          let (count, db1) = update_sessions finishedAt
                (\<lambda>s. gs_id s = sessionId \<and> live (gs_status s) \<and> gs_winnerCartelaId s = None)
                (\<lambda>s. s\<lparr>gs_status := FINISHED, gs_winnerCartelaId := Some winnerCartelaId,
                      gs_finishedAt := Some finishedAt, gs_noWinnerGraceEndsAt := None,
                      gs_noWinnerReason := None\<rparr>) db
          in if count = 1 then
               bind_result (restoreSlotAfterSession (gs_slotId session) db1) (\<lambda>(_, db2).
               bind_result (openNextAutoQueueRegistrationInTransaction cfg finishedAt lockFree codes
                   after_finish db2) (\<lambda>(opened, db3).
                 Inr ((True, opened), db3)))
             else Inr ((False, None), db1))"

section \<open>No winner\<close>

text \<open>Whether the grace period started, and when it ends.\<close>

definition startNoWinnerGrace ::
  "timing_config \<Rightarrow> int \<Rightarrow> string \<Rightarrow> game_db \<Rightarrow> (bool \<times> int option) \<times> game_db" where
  "startNoWinnerGrace cfg now sessionId db =
     (let noWinnerGraceEndsAt = now + tc_noWinnerGraceSeconds cfg * 1000;
          (count, db') = update_sessions now
            (\<lambda>s. gs_id s = sessionId \<and> gs_status s = PLAYING \<and> gs_winnerCartelaId s = None \<and>
                 gs_noWinnerGraceEndsAt s = None)
            (\<lambda>s. s\<lparr>gs_autoCallEnabled := False, gs_nextAutoCallAt := None,
                  gs_noWinnerGraceEndsAt := Some noWinnerGraceEndsAt,
                  gs_noWinnerReason := Some ''ALL_NUMBERS_CALLED''\<rparr>) db
      in if count = 1 then ((True, Some noWinnerGraceEndsAt), db')
         else ((False, case find_session db' sessionId of
                  None \<Rightarrow> None | Some s \<Rightarrow> gs_noWinnerGraceEndsAt s), db'))"

definition grace_expired :: "int \<Rightarrow> session_row \<Rightarrow> bool" where
  "grace_expired now s \<longleftrightarrow>
     (gs_status s = PLAYING \<or> gs_status s = CHECKING) \<and> gs_winnerCartelaId s = None \<and>
     (case gs_noWinnerGraceEndsAt s of None \<Rightarrow> False | Some ends \<Rightarrow> ends \<le> now)"

definition no_winner_tx ::
  "timing_config \<Rightarrow> int \<Rightarrow> bool \<Rightarrow> string \<times> string \<Rightarrow> string \<Rightarrow> game_db \<Rightarrow> bool tx" where
  "no_winner_tx cfg now lockFree codes sessionId db =
     (case find_session db sessionId of
        None \<Rightarrow> Inr (False, db)
      | Some session \<Rightarrow>
          let (count, db1) = update_sessions now
                (\<lambda>s. gs_id s = sessionId \<and> grace_expired now s)
                (\<lambda>s. s\<lparr>gs_status := NO_WINNER, gs_finishedAt := Some now,
                      gs_autoCallEnabled := False, gs_nextAutoCallAt := None\<rparr>) db
          in if count \<noteq> 1 then Inr (False, db1)
             else
               let (_, db2) = update_cartelas
                     (\<lambda>c. gc_sessionId c = sessionId \<and> gc_status c = REGISTERED \<and> \<not> gc_isWinner c)
                     (\<lambda>c. c\<lparr>gc_status := BLOCKED, gc_blockedAt := Some now\<rparr>) db1;
                   (_, db3) = update_claims
                     (\<lambda>c. bc_sessionId c = sessionId \<and> bc_status c = PENDING)
                     (\<lambda>c. c\<lparr>bc_status := INVALID,
                           bc_reason := Some ''Game ended with no winner after all numbers were called'',
                           bc_checkedAt := Some now\<rparr>) db2
               in bind_result (restoreSlotAfterSession (gs_slotId session) db3) (\<lambda>(_, db4).
                  bind_result (openNextAutoQueueRegistrationInTransaction cfg now lockFree codes
                      after_finish db4) (\<lambda>(_, db5).
                    Inr (True, db5))))"

definition finalizeNoWinner ::
  "timing_config \<Rightarrow> int \<Rightarrow> bool \<Rightarrow> string \<times> string \<Rightarrow> string \<Rightarrow> game_db \<Rightarrow> bool game_outcome" where
  "finalizeNoWinner cfg now lockFree codes sessionId db =
     transaction db (no_winner_tx cfg now lockFree codes sessionId db)"

text \<open>The loop over the sessions found; an exception ends it. The result counts the finalized ones.\<close>

fun finalize_each ::
  "timing_config \<Rightarrow> int \<Rightarrow> bool \<Rightarrow> (string \<Rightarrow> string \<times> string) \<Rightarrow> string list \<Rightarrow> game_db \<Rightarrow> nat game_outcome" where
  "finalize_each cfg now lockFree codes [] db = (Inr 0, db)"
| "finalize_each cfg now lockFree codes (sessionId # rest) db =
     (case finalizeNoWinner cfg now lockFree (codes sessionId) sessionId db of
        (Inl e, db') \<Rightarrow> (Inl e, db')
      | (Inr finalized, db') \<Rightarrow>
          (case finalize_each cfg now lockFree codes rest db' of
             (Inl e, db'') \<Rightarrow> (Inl e, db'')
           | (Inr k, db'') \<Rightarrow> (Inr (if finalized then k + 1 else k), db'')))"

definition finalizeExpiredNoWinnerSessions ::
  "timing_config \<Rightarrow> int \<Rightarrow> bool \<Rightarrow> (string \<Rightarrow> string \<times> string) \<Rightarrow> game_db \<Rightarrow> nat game_outcome" where
  "finalizeExpiredNoWinnerSessions cfg now lockFree codes db =
     finalize_each cfg now lockFree codes
       (map gs_id (filter (grace_expired now) (gd_sessions db))) db"

end
