(* ===== verification/CalledNumbers.thy ===== *)
theory CalledNumbers
  imports GameEngine
begin

text \<open>
  The numbers of a session: \<open>called-numbers/called-numbers.service.ts\<close> and the automatic caller
  \<open>games/auto-call.service.ts\<close>. \<open>others\<close> is what other transactions commit between the reads of a
  call and the insertion of its row; the two unique indices (session and number, session and order)
  then decide. \<open>draw\<close> is the random choice among the remaining numbers.
\<close>

section \<open>One number\<close>

text \<open>\<open>create\<close> under the unique indices\<close>

definition create_number :: "called_row \<Rightarrow> game_db \<Rightarrow> http_error + game_db" where
  "create_number row db =
     (if list_ex (\<lambda>r. cr_sessionId r = cr_sessionId row \<and>
           (cn_number r = cn_number row \<or> cn_order r = cn_order row)) (gd_numbers db)
      then Inl (Db_Error ''P2002'')
      else Inr (db\<lparr>gd_numbers := gd_numbers db @ [row]\<rparr>))"

definition called_row_of :: "string \<Rightarrow> string \<Rightarrow> int \<Rightarrow> int \<Rightarrow> called_row" where
  "called_row_of sessionId letter number order =
     \<lparr>cn_letter = letter, cn_number = number, cn_order = order, cr_sessionId = sessionId\<rparr>"

text \<open>\<open>latestCalledNumber?.order ?? 0\<close>\<close>

definition latest_order :: "game_db \<Rightarrow> string \<Rightarrow> int" where
  "latest_order db sessionId =
     (case rev (called_rows db sessionId) of [] \<Rightarrow> 0 | row # _ \<Rightarrow> cn_order row)"

definition call_transaction ::
  "(game_db \<Rightarrow> game_db) \<Rightarrow> string \<Rightarrow> string \<Rightarrow> int \<Rightarrow> game_db \<Rightarrow> called_row game_outcome" where
  "call_transaction others sessionId letter number db =
     (case find_session db sessionId of
        None \<Rightarrow> (Inl (Not_Found ''Game session not found''), db)
      | Some session \<Rightarrow>
          if gs_status session \<noteq> PLAYING
          then (Inl (Bad_Request ''Only PLAYING sessions can receive called numbers''), db)
          else if list_ex (\<lambda>r. cr_sessionId r = sessionId \<and> cn_number r = number) (gd_numbers db)
          then (Inl (Conflict ''This number has already been called for the session''), db)
          else
            let row = called_row_of sessionId letter number (latest_order db sessionId + 1)
            in transaction (others db)
                 (bind_result (create_number row (others db)) (\<lambda>db'. Inr (row, db'))))"

text \<open>The attempts that are left; a conflict on an index is tried again, the last one is reported.\<close>

fun call_attempts ::
  "(game_db \<Rightarrow> game_db) list \<Rightarrow> string \<Rightarrow> string \<Rightarrow> int \<Rightarrow> game_db \<Rightarrow> called_row game_outcome" where
  "call_attempts [] sessionId letter number db =
     (Inl (Conflict ''Called number already exists or ordering conflict occurred''), db)"
| "call_attempts (others # rest) sessionId letter number db =
     (case call_transaction others sessionId letter number db of
        (Inl e, db') \<Rightarrow>
          if e = Db_Error ''P2002'' then
            (if rest \<noteq> [] then call_attempts rest sessionId letter number db'
             else (Inl (Conflict ''Called number already exists or ordering conflict occurred''), db'))
          else (Inl e, db')
      | (Inr row, db') \<Rightarrow> (Inr row, db'))"

record call_payload =
  pay_row :: called_row
  pay_autoCallEnabled :: bool
  pay_autoCallIntervalMs :: "int option"
  pay_nextAutoCallAt :: "int option"
  pay_noWinnerGraceEndsAt :: "int option"
  pay_noWinnerReason :: "string option"

definition call_reply :: "called_row \<Rightarrow> int option \<Rightarrow> session_row option \<Rightarrow> call_payload" where
  "call_reply row grace state =
     (case state of
        None \<Rightarrow>
          \<lparr>pay_row = row, pay_autoCallEnabled = False, pay_autoCallIntervalMs = None,
           pay_nextAutoCallAt = None, pay_noWinnerGraceEndsAt = grace, pay_noWinnerReason = None\<rparr>
      | Some s \<Rightarrow>
          \<lparr>pay_row = row, pay_autoCallEnabled = gs_autoCallEnabled s,
           pay_autoCallIntervalMs = gs_autoCallIntervalMs s,
           pay_nextAutoCallAt = (if gs_autoCallEnabled s then gs_nextAutoCallAt s else None),
           pay_noWinnerGraceEndsAt =
             (case gs_noWinnerGraceEndsAt s of Some t \<Rightarrow> Some t | None \<Rightarrow> grace),
           pay_noWinnerReason = gs_noWinnerReason s\<rparr>)"

definition callNumber ::
  "timing_config \<Rightarrow> int \<Rightarrow> (game_db \<Rightarrow> game_db) \<times> (game_db \<Rightarrow> game_db) \<Rightarrow> string \<Rightarrow> string \<Rightarrow> int \<Rightarrow>
   game_db \<Rightarrow> call_payload game_outcome" where
  "callNumber cfg now others sessionId letter number db =
     (case call_attempts [fst others, snd others] sessionId letter number db of
        (Inl e, db') \<Rightarrow> (Inl e, db')
      | (Inr row, db') \<Rightarrow>
          let (noWinnerGrace, db'') =
                (if 75 \<le> cn_order row then startNoWinnerGrace cfg now sessionId db'
                 else ((False, None), db'))
          in (Inr (call_reply row (snd noWinnerGrace) (find_session db'' sessionId)), db''))"

section \<open>A random number\<close>

definition getLetterForNumber :: "int \<Rightarrow> string" where
  "getLetterForNumber number =
     (if 1 \<le> number \<and> number \<le> 15 then ''B''
      else if 16 \<le> number \<and> number \<le> 30 then ''I''
      else if 31 \<le> number \<and> number \<le> 45 then ''N''
      else if 46 \<le> number \<and> number \<le> 60 then ''G''
      else ''O'')"

definition remaining_numbers :: "game_db \<Rightarrow> string \<Rightarrow> int list" where
  "remaining_numbers db sessionId =
     filter (\<lambda>n. \<not> list_ex (\<lambda>r. cr_sessionId r = sessionId \<and> cn_number r = n) (gd_numbers db)) [1..75]"

text \<open>The number drawn and how many remained.\<close>

definition queryRandomRemainingNumber :: "nat \<Rightarrow> game_db \<Rightarrow> string \<Rightarrow> (int \<times> nat) option" where
  "queryRandomRemainingNumber draw db sessionId =
     (let remaining = remaining_numbers db sessionId in
      if remaining = [] then None
      else Some (remaining ! (draw mod length remaining), length remaining))"

definition callRandomNumber ::
  "timing_config \<Rightarrow> int \<Rightarrow> nat \<Rightarrow> (game_db \<Rightarrow> game_db) \<times> (game_db \<Rightarrow> game_db) \<Rightarrow> string \<Rightarrow> game_db \<Rightarrow>
   call_payload game_outcome" where
  "callRandomNumber cfg now draw others sessionId db =
     (case queryRandomRemainingNumber draw db sessionId of
        None \<Rightarrow> (Inl (Bad_Request ''All numbers have been called''), db)
      | Some (number, _) \<Rightarrow>
          callNumber cfg now others sessionId (getLetterForNumber number) number db)"

section \<open>A number called by the clock\<close>

definition auto_due :: "int \<Rightarrow> session_row \<Rightarrow> bool" where
  "auto_due now s \<longleftrightarrow>
     gs_status s = PLAYING \<and> gs_autoCallEnabled s \<and>
     (case gs_nextAutoCallAt s of None \<Rightarrow> False | Some due \<Rightarrow> due \<le> now)"

definition auto_call_tx ::
  "int \<Rightarrow> string \<Rightarrow> int \<Rightarrow> nat \<Rightarrow> int \<Rightarrow> game_db \<Rightarrow> (called_row \<times> session_row) tx" where
  "auto_call_tx now sessionId number remainingCount nextAutoCallAt db =
     (case find_session db sessionId of
        None \<Rightarrow> Inl (Not_Found ''Game session not found'')
      | Some session \<Rightarrow>
          if gs_status session \<noteq> PLAYING
          then Inl (Bad_Request ''Only PLAYING sessions can receive called numbers'')
          else if \<not> gs_autoCallEnabled session
          then Inl (Claim_Lost ''Auto-call disabled for session'')
          else
            let isLastNumber = remainingCount \<le> 1;
                (count, db1) = update_sessions now
                  (\<lambda>s. gs_id s = sessionId \<and> auto_due now s)
                  (\<lambda>s. if isLastNumber then s\<lparr>gs_autoCallEnabled := False, gs_nextAutoCallAt := None\<rparr>
                       else s\<lparr>gs_nextAutoCallAt := Some nextAutoCallAt\<rparr>) db
            in if count \<noteq> 1 then Inl (Claim_Lost ''Auto-call due claim lost'')
               else
                 let row = called_row_of sessionId (getLetterForNumber number) number
                       (int (length (called_rows db sessionId)) + 1)
                 in bind_result (create_number row db1) (\<lambda>db2. Inr ((row, session), db2)))"

definition auto_reply ::
  "called_row \<Rightarrow> session_row \<Rightarrow> bool \<Rightarrow> int \<Rightarrow> int \<Rightarrow> bool \<times> int option \<Rightarrow> call_payload" where
  "auto_reply row session isLastNumber intervalMs nextAutoCallAt grace =
     \<lparr>pay_row = row,
      pay_autoCallEnabled =
        (if fst grace then False else if isLastNumber then False else gs_autoCallEnabled session),
      pay_autoCallIntervalMs = Some (or_else (gs_autoCallIntervalMs session) intervalMs),
      pay_nextAutoCallAt = (if fst grace \<or> isLastNumber then None else Some nextAutoCallAt),
      pay_noWinnerGraceEndsAt =
        (case snd grace of Some t \<Rightarrow> Some t | None \<Rightarrow> gs_noWinnerGraceEndsAt session),
      pay_noWinnerReason =
        (if fst grace then Some ''ALL_NUMBERS_CALLED'' else gs_noWinnerReason session)\<rparr>"

definition callRandomNumberForAutoCall ::
  "timing_config \<Rightarrow> int \<Rightarrow> nat \<Rightarrow> (game_db \<Rightarrow> game_db) \<Rightarrow> string \<Rightarrow> int \<Rightarrow> int \<Rightarrow> game_db \<Rightarrow>
   call_payload game_outcome" where
  "callRandomNumberForAutoCall cfg now draw others sessionId intervalMs nextAutoCallAt db =
     (case queryRandomRemainingNumber draw db sessionId of
        None \<Rightarrow> (Inl (Bad_Request ''All numbers have been called''), db)
      | Some (number, remainingCount) \<Rightarrow>
          let isLastNumber = remainingCount \<le> 1
          in case auto_call_tx now sessionId number remainingCount nextAutoCallAt (others db) of
               Inl e \<Rightarrow> (Inl e, others db)
             | Inr ((row, session), db') \<Rightarrow>
                 let (noWinnerGrace, db'') =
                       (if isLastNumber then startNoWinnerGrace cfg now sessionId db'
                        else ((False, None), db'))
                 in (Inr (auto_reply row session isLastNumber intervalMs nextAutoCallAt noWinnerGrace),
                     db''))"

definition getCalledNumbers :: "game_db \<Rightarrow> string \<Rightarrow> http_error + (nat \<times> called_row list)" where
  "getCalledNumbers db sessionId =
     (let rows = called_rows db sessionId in
      if length rows = 0 \<and> find_session db sessionId = None
      then Inl (Not_Found ''Game session not found'')
      else Inr (length rows, rows))"

section \<open>The automatic caller\<close>

definition getAutoCallIntervalMs :: "timing_config \<Rightarrow> int" where
  "getAutoCallIntervalMs cfg = tc_autoCallIntervalSeconds cfg * 1000"

definition disableAutoCall :: "int \<Rightarrow> string \<Rightarrow> game_db \<Rightarrow> game_db" where
  "disableAutoCall now sessionId db =
     snd (update_sessions now (\<lambda>s. gs_id s = sessionId \<and> gs_autoCallEnabled s)
       (\<lambda>s. s\<lparr>gs_autoCallEnabled := False, gs_nextAutoCallAt := None\<rparr>) db)"

definition stopAutoCall :: "int \<Rightarrow> string \<Rightarrow> game_db \<Rightarrow> game_db" where
  "stopAutoCall now sessionId db = disableAutoCall now sessionId db"

text \<open>Whether the first ball was called at once; an exception of that call is only logged.\<close>

definition startAutoCall ::
  "timing_config \<Rightarrow> int \<Rightarrow> nat \<Rightarrow> string \<Rightarrow> bool \<Rightarrow> game_db \<Rightarrow> bool game_outcome" where
  "startAutoCall cfg now draw sessionId callFirstImmediately db =
     (case find_session db sessionId of
        None \<Rightarrow> (Inl (Not_Found ''Session not found''), db)
      | Some session \<Rightarrow>
          if gs_status session \<noteq> PLAYING
          then (Inl (Bad_Request ''Auto-call only works for PLAYING sessions''), db)
          else
            let intervalMs = or_else (gs_autoCallIntervalMs session) (getAutoCallIntervalMs cfg);
                enabled = update_session now sessionId
                  (\<lambda>s. s\<lparr>gs_autoCallEnabled := True, gs_nextAutoCallAt := Some (now + intervalMs)\<rparr>) db
            in case enabled of
                 Inl e \<Rightarrow> (Inl e, db)
               | Inr db' \<Rightarrow>
                   if callFirstImmediately \<and> called_rows db sessionId = [] then
                     (Inr True, snd (callRandomNumber cfg now draw (id, id) sessionId db'))
                   else (Inr False, db'))"

definition isTerminalAutoCallError :: "http_error \<Rightarrow> bool" where
  "isTerminalAutoCallError e =
     (case e of
        Not_Found _ \<Rightarrow> True
      | Bad_Request m \<Rightarrow>
          sublist ''playing'' (js_lower m) \<or> sublist ''all numbers have been called'' (js_lower m)
      | _ \<Rightarrow> False)"

definition processSession ::
  "timing_config \<Rightarrow> int \<Rightarrow> nat \<Rightarrow> (game_db \<Rightarrow> game_db) \<Rightarrow> string \<Rightarrow> int option \<Rightarrow> game_db \<Rightarrow> game_db" where
  "processSession cfg now draw others sessionId intervalMs db =
     (let delayMs = or_else intervalMs (getAutoCallIntervalMs cfg) in
      case callRandomNumberForAutoCall cfg now draw others sessionId delayMs (now + delayMs) db of
        (Inr _, db') \<Rightarrow> db'
      | (Inl e, db') \<Rightarrow>
          (case e of
             Claim_Lost _ \<Rightarrow> db'
           | _ \<Rightarrow> if isTerminalAutoCallError e then disableAutoCall now sessionId db' else db'))"

text \<open>\<open>orderBy: nextAutoCallAt asc\<close>\<close>

definition due_sessions :: "int \<Rightarrow> game_db \<Rightarrow> session_row list" where
  "due_sessions now db =
     sort_by (\<lambda>x y. or_else (gs_nextAutoCallAt x) 0 - or_else (gs_nextAutoCallAt y) 0)
       (filter (auto_due now) (gd_sessions db))"

definition tick ::
  "timing_config \<Rightarrow> int \<Rightarrow> bool \<Rightarrow> (string \<Rightarrow> nat) \<Rightarrow> (string \<Rightarrow> string \<times> string) \<Rightarrow> game_db \<Rightarrow> game_db" where
  "tick cfg now lockFree draws codes db =
     (let db' = fold (\<lambda>s. processSession cfg now (draws (gs_id s)) id (gs_id s) (gs_autoCallIntervalMs s))
            (due_sessions now db) db
      in snd (finalizeExpiredNoWinnerSessions cfg now lockFree codes db'))"

end
