(* ===== verification/BingoClaims.thy ===== *)
theory BingoClaims
  imports CalledNumbers
begin

text \<open>
  Claims: \<open>bingo-claims/bingo-claims.service.ts\<close> with \<open>winning-ball.util.ts\<close>,
  \<open>completed-patterns.mapper.ts\<close> and the scheduler \<open>winner-window-finalizer.service.ts\<close>.
  A claim loads its cartela first; \<open>others\<close> is what other transactions commit before it goes on, so
  the loaded session may be out of date. Audit rows, sockets and push notifications are left out.
\<close>

section \<open>The winning ball and the shown patterns\<close>

definition resolveWinningBallRecord :: "called_number list \<Rightarrow> int option \<Rightarrow> (string \<times> int) option" where
  "resolveWinningBallRecord calledNumbers winningBallNumber =
     (case winningBallNumber of
        None \<Rightarrow> None
      | Some n \<Rightarrow>
          map_option (\<lambda>entry. (cn_letter entry, cn_number entry))
            (find (\<lambda>entry. cn_number entry = n) calledNumbers))"

definition resolveWinningBallFromEvaluation ::
  "called_number list \<Rightarrow> evaluation_result \<Rightarrow> (string \<times> int) option" where
  "resolveWinningBallFromEvaluation calledNumbers evaluation =
     resolveWinningBallRecord calledNumbers (latest_number evaluation)"

definition resolveWinningBallFromCalledNumbersSnapshot ::
  "called_number list \<Rightarrow> (string \<times> int) option" where
  "resolveWinningBallFromCalledNumbersSnapshot calledNumbers =
     resolveWinningBallRecord calledNumbers (getLatestCalledNumber calledNumbers)"

definition deriveCellsFromNumbers :: "js list list \<Rightarrow> int list \<Rightarrow> board_coord list" where
  "deriveCellsFromNumbers boardRows numbers =
     filter (\<lambda>rc. case getCellNumber (cell_at boardRows rc) of
                None \<Rightarrow> False | Some n \<Rightarrow> List.member numbers n)
       (concat (map (\<lambda>row. map (\<lambda>col. (row, col)) [0, 1, 2, 3, 4]) [0, 1, 2, 3, 4]))"

record serialized_pattern =
  sp_type :: string
  sp_key :: "string option"
  sp_numbers :: "int list"
  sp_cells :: "board_coord list"

definition serializeCompletedPatterns :: "completed_pattern list \<Rightarrow> cartela \<Rightarrow> serialized_pattern list" where
  "serializeCompletedPatterns patterns c =
     (let boardRows = buildBoardRows c in
      map (\<lambda>p.
        let cells = or_else (cp_cells p) [];
            shown = (if cells = [] \<and> cp_numbers p \<noteq> []
                     then deriveCellsFromNumbers boardRows (cp_numbers p) else cells)
        in \<lparr>sp_type = cp_type p, sp_key = (if cp_key p = [] then None else Some (cp_key p)),
            sp_numbers = cp_numbers p, sp_cells = shown\<rparr>) patterns)"

section \<open>Loading\<close>

record claim_cartela =
  cc_cartela :: game_cartela
  cc_session :: session_row
  cc_slot :: slot_row

definition loadClaimCartela :: "game_db \<Rightarrow> string \<Rightarrow> string \<Rightarrow> string \<Rightarrow> http_error + claim_cartela" where
  "loadClaimCartela db sessionId userId gameCartelaId =
     (case find_cartela db gameCartelaId of
        None \<Rightarrow> Inl (Not_Found ''Game cartela not found'')
      | Some c \<Rightarrow>
          if gc_sessionId c \<noteq> sessionId \<or> gc_userId c \<noteq> userId
          then Inl (Forbidden ''Cartela does not belong to this user or session'')
          else
            (case find_session db (gc_sessionId c) of
               None \<Rightarrow> Inl (Db_Error ''missing session'')
             | Some s \<Rightarrow>
                 (case find_slot db (gs_slotId s) of
                    None \<Rightarrow> Inl (Db_Error ''missing slot'')
                  | Some slot \<Rightarrow> Inr \<lparr>cc_cartela = c, cc_session = s, cc_slot = slot\<rparr>)))"

definition assertClaimableCartela :: "claim_cartela \<Rightarrow> http_error + unit" where
  "assertClaimableCartela cc =
     (if gc_status (cc_cartela cc) \<noteq> REGISTERED
      then Inl (Bad_Request ''This cartela cannot make a bingo claim'')
      else if gs_status (cc_session cc) = FINISHED \<or> gs_status (cc_session cc) = NO_WINNER
      then Inl (Bad_Request ''Game already finished'')
      else Inr ())"

definition rule_key_of :: "slot_row \<Rightarrow> string" where
  "rule_key_of slot = (case sl_gameRule slot of None \<Rightarrow> sl_gameType slot | Some r \<Rightarrow> ru_key r)"

definition resolveRuleKey :: "claim_cartela \<Rightarrow> string" where
  "resolveRuleKey cc = rule_key_of (cc_slot cc)"

definition rule_patterns_of :: "slot_row \<Rightarrow> js" where
  "rule_patterns_of slot = (case sl_gameRule slot of None \<Rightarrow> Undefined | Some r \<Rightarrow> ru_patterns r)"

definition getTerminalClaimReasonCode :: "claim_cartela \<Rightarrow> claim_reason option" where
  "getTerminalClaimReasonCode cc =
     (if gc_status (cc_cartela cc) = BLOCKED then Some ALREADY_BLOCKED
      else if gc_status (cc_cartela cc) = WINNER \<or> gc_isWinner (cc_cartela cc) then Some ALREADY_WINNER
      else None)"

section \<open>Answers\<close>

datatype claim_kind = Already_Resolved | Manual_Pending | Auto_Invalid | Auto_Valid_Open | Auto_Valid_Join

record claim_answer =
  an_kind :: claim_kind
  an_claim :: claim_row
  an_progress :: "rat option"
  an_isWinner :: bool
  an_gameStatus :: game_status
  an_gameCartelaStatus :: cartela_status
  an_winnerWindowEndsAt :: "int option"
  an_reasonCode :: "claim_reason option"
  an_completedPatterns :: "serialized_pattern list"
  an_lastCalledNumber :: "(string \<times> int) option"
  an_nextAutoCallAt :: "int option"

definition AUTO_INVALID_REASONS :: "claim_reason \<Rightarrow> string" where
  "AUTO_INVALID_REASONS reasonCode =
     (if reasonCode = INVALID_PATTERN then ''Claim did not match the active game rule pattern''
      else ''Claim was too late because the latest called number did not complete the winning pattern'')"

definition TERMINAL_CLAIM_REASONS :: "claim_reason \<Rightarrow> string" where
  "TERMINAL_CLAIM_REASONS reasonCode =
     (if reasonCode = ALREADY_BLOCKED then ''Blocked cartelas cannot claim bingo again''
      else ''This cartela is already the winner'')"

definition create_claim :: "claim_row \<Rightarrow> game_db \<Rightarrow> game_db" where
  "create_claim claim db = db\<lparr>gd_claims := gd_claims db @ [claim]\<rparr>"

definition claim_of ::
  "string \<Rightarrow> claim_cartela \<Rightarrow> string \<Rightarrow> claim_status \<Rightarrow> string \<Rightarrow> string option \<Rightarrow> claim_reason option \<Rightarrow>
   (string \<times> int) option \<Rightarrow> int option \<Rightarrow> claim_row" where
  "claim_of newId cc userId status checkedPattern reason reasonCode ball checkedAt =
     \<lparr>bc_id = newId, bc_sessionId = gc_sessionId (cc_cartela cc), bc_userId = userId,
      bc_gameCartelaId = gc_id (cc_cartela cc), bc_status = status,
      bc_checkedPattern = checkedPattern, bc_reason = reason, bc_reasonCode = reasonCode,
      bc_winningBall = ball, bc_checkedAt = checkedAt\<rparr>"

section \<open>A claim of a cartela that is decided\<close>

definition latest_checked :: "claim_row \<Rightarrow> claim_row \<Rightarrow> int" where
  "latest_checked x y =
     (case (bc_checkedAt x, bc_checkedAt y) of
        (None, None) \<Rightarrow> 0 | (None, Some _) \<Rightarrow> - 1 | (Some _, None) \<Rightarrow> 1 | (Some a, Some b) \<Rightarrow> b - a)"

definition createAlreadyResolvedClaimResponse ::
  "int \<Rightarrow> string \<Rightarrow> claim_cartela \<Rightarrow> string \<Rightarrow> claim_reason \<Rightarrow> game_db \<Rightarrow> claim_answer tx" where
  "createAlreadyResolvedClaimResponse now newId cc userId reasonCode db =
     (let c = cc_cartela cc;
          wanted = (\<lambda>row. bc_sessionId row = gc_sessionId c \<and> bc_gameCartelaId row = gc_id c \<and>
            (if reasonCode = ALREADY_WINNER then bc_status row = VALID
             else bc_status row = VALID \<or> bc_status row = INVALID));
          (claim, db') =
            (case sort_by latest_checked (rev (filter wanted (gd_claims db))) of
               existing # _ \<Rightarrow> (existing, db)
             | [] \<Rightarrow>
                 let new = claim_of newId cc userId INVALID (resolveRuleKey cc)
                       (Some (TERMINAL_CLAIM_REASONS reasonCode)) (Some reasonCode) None (Some now)
                 in (new, create_claim new db))
      in Inr (\<lparr>an_kind = Already_Resolved, an_claim = claim\<lparr>bc_reasonCode := Some reasonCode\<rparr>,
              an_progress = None, an_isWinner = (reasonCode = ALREADY_WINNER),
              an_gameStatus = gs_status (cc_session cc), an_gameCartelaStatus = gc_status c,
              an_winnerWindowEndsAt = gs_winnerWindowEndsAt (cc_session cc),
              an_reasonCode = Some reasonCode, an_completedPatterns = [],
              an_lastCalledNumber = None, an_nextAutoCallAt = None\<rparr>, db'))"

section \<open>A claim an admin has to confirm\<close>

definition createManualPendingClaim ::
  "int \<Rightarrow> string \<Rightarrow> claim_cartela \<Rightarrow> string \<Rightarrow> string \<Rightarrow> game_db \<Rightarrow> claim_answer tx" where
  "createManualPendingClaim now newId cc userId ruleKey db =
     bind_result (assertClaimableCartela cc) (\<lambda>_.
       if gs_status (cc_session cc) \<noteq> PLAYING
       then Inl (Bad_Request ''Game must be PLAYING to claim bingo'')
       else if list_ex (\<lambda>row. bc_sessionId row = gc_sessionId (cc_cartela cc) \<and>
           bc_gameCartelaId row = gc_id (cc_cartela cc) \<and> bc_status row = PENDING) (gd_claims db)
       then Inl (Bad_Request ''A bingo claim for this cartela is already pending review'')
       else
         let claim = claim_of newId cc userId PENDING ruleKey (Some ''Waiting for admin confirmation'')
               None None None
         in bind_result (update_session now (gc_sessionId (cc_cartela cc))
              (\<lambda>s. s\<lparr>gs_status := CHECKING, gs_autoCallEnabled := False, gs_nextAutoCallAt := None\<rparr>)
              (create_claim claim db)) (\<lambda>db'.
              Inr (\<lparr>an_kind = Manual_Pending, an_claim = claim, an_progress = None,
                    an_isWinner = False, an_gameStatus = CHECKING,
                    an_gameCartelaStatus = REGISTERED, an_winnerWindowEndsAt = None,
                    an_reasonCode = None, an_completedPatterns = [], an_lastCalledNumber = None,
                    an_nextAutoCallAt = None\<rparr>, db')))"

section \<open>A claim that is checked at once\<close>

definition computeInvalidClaimResumeAt :: "int \<Rightarrow> int \<Rightarrow> bool \<Rightarrow> int \<Rightarrow> int option \<Rightarrow> int" where
  "computeInvalidClaimResumeAt now pausedRemainingMs hadScheduledAutoCall defaultAutoCallIntervalMs
      autoCallIntervalMs =
     (if 0 < pausedRemainingMs then now + pausedRemainingMs
      else if hadScheduledAutoCall then now
      else now + or_else autoCallIntervalMs defaultAutoCallIntervalMs)"

definition createAutoInvalidClaim ::
  "int \<Rightarrow> string \<Rightarrow> claim_cartela \<Rightarrow> string \<Rightarrow> string \<Rightarrow> claim_reason \<Rightarrow> string \<Rightarrow> int \<Rightarrow> int \<Rightarrow> bool \<Rightarrow>
   (string \<times> int) option \<Rightarrow> game_db \<Rightarrow> claim_answer tx" where
  "createAutoInvalidClaim now newId cc userId ruleKey reasonCode matchedPattern
      defaultAutoCallIntervalMs pausedRemainingMs hadScheduledAutoCall activeBall db =
     (let c = cc_cartela cc; session = cc_session cc;
          (count, db1) = update_cartelas (\<lambda>x. gc_id x = gc_id c \<and> gc_status x = REGISTERED)
            (\<lambda>x. x\<lparr>gc_status := BLOCKED, gc_blockedAt := Some now\<rparr>) db
      in if count \<noteq> 1 then Inl (Conflict ''Cartela could not be blocked'')
         else
           let claim = claim_of newId cc userId INVALID
                 (if matchedPattern = [] then ruleKey else matchedPattern)
                 (Some (AUTO_INVALID_REASONS reasonCode)) (Some reasonCode) activeBall (Some now);
               restoredNextAutoCallAt =
                 (if gs_autoCallEnabled session \<and> gs_status session = PLAYING
                  then Some (computeInvalidClaimResumeAt now pausedRemainingMs hadScheduledAutoCall
                         defaultAutoCallIntervalMs (gs_autoCallIntervalMs session))
                  else None);
               db2 = create_claim claim db1;
               db3 = (case restoredNextAutoCallAt of
                   None \<Rightarrow> db2
                 | Some resume \<Rightarrow>
                     snd (update_sessions now
                       (\<lambda>s. gs_id s = gc_sessionId c \<and> gs_status s = PLAYING \<and> gs_autoCallEnabled s)
                       (\<lambda>s. s\<lparr>gs_nextAutoCallAt := Some resume\<rparr>) db2))
           in Inr (\<lparr>an_kind = Auto_Invalid, an_claim = claim, an_progress = None,
                    an_isWinner = False, an_gameStatus = gs_status session,
                    an_gameCartelaStatus = BLOCKED, an_winnerWindowEndsAt = None,
                    an_reasonCode = Some reasonCode, an_completedPatterns = [],
                    an_lastCalledNumber = None, an_nextAutoCallAt = restoredNextAutoCallAt\<rparr>, db3))"

definition mark_winner :: "string \<Rightarrow> game_db \<Rightarrow> nat \<times> game_db" where
  "mark_winner gameCartelaId db =
     update_cartelas (\<lambda>c. gc_id c = gameCartelaId \<and> gc_status c = REGISTERED \<and> \<not> gc_isWinner c)
       (\<lambda>c. c\<lparr>gc_status := WINNER, gc_isWinner := True, gc_blockedAt := None\<rparr>) db"

definition valid_answer ::
  "claim_kind \<Rightarrow> claim_row \<Rightarrow> rat \<Rightarrow> int \<Rightarrow> serialized_pattern list \<Rightarrow> claim_answer" where
  "valid_answer kind claim progress_value endsAt completedPatterns =
     \<lparr>an_kind = kind, an_claim = claim, an_progress = Some progress_value, an_isWinner = True,
      an_gameStatus = WINNER_WINDOW, an_gameCartelaStatus = WINNER,
      an_winnerWindowEndsAt = Some endsAt, an_reasonCode = None,
      an_completedPatterns = completedPatterns, an_lastCalledNumber = bc_winningBall claim,
      an_nextAutoCallAt = None\<rparr>"

definition createAutoValidJoinWindowClaim ::
  "int \<Rightarrow> string \<Rightarrow> claim_cartela \<Rightarrow> string \<Rightarrow> string \<Rightarrow> serialized_pattern list \<Rightarrow> int \<Rightarrow>
   (string \<times> int) option \<Rightarrow> game_db \<Rightarrow> claim_answer tx" where
  "createAutoValidJoinWindowClaim now newId cc userId matchedPattern completedPatterns
      winnerWindowClaimGraceMs winningBall db =
     (case gs_winnerWindowEndsAt (cc_session cc) of
        None \<Rightarrow> Inl (Bad_Request ''Winner window has already closed'')
      | Some endsAt \<Rightarrow>
          if endsAt + winnerWindowClaimGraceMs < now
          then Inl (Bad_Request ''Winner window has already closed'')
          else
            let (count, db1) = mark_winner (gc_id (cc_cartela cc)) db in
            if count \<noteq> 1 then Inl (Conflict ''Cartela could not be marked as winner'')
            else
              let claim = claim_of newId cc userId VALID matchedPattern None None winningBall (Some now)
              in Inr (valid_answer Auto_Valid_Join claim 1 endsAt completedPatterns,
                      create_claim claim db1))"

definition createAutoValidOpenOrJoinWindowClaim ::
  "int \<Rightarrow> string \<Rightarrow> claim_cartela \<Rightarrow> string \<Rightarrow> string \<Rightarrow> rat \<Rightarrow> int \<Rightarrow> serialized_pattern list \<Rightarrow> int \<Rightarrow>
   (string \<times> int) option \<Rightarrow> game_db \<Rightarrow> claim_answer tx" where
  "createAutoValidOpenOrJoinWindowClaim now newId cc userId matchedPattern progress_value
      winnerWindowDurationMs completedPatterns winnerWindowClaimGraceMs winningBall db =
     (let sessionId = gc_sessionId (cc_cartela cc);
          proposedWindowEndsAt = now + winnerWindowDurationMs;
          (opened, db1) = update_sessions now (\<lambda>s. gs_id s = sessionId \<and> gs_status s = PLAYING)
            (\<lambda>s. s\<lparr>gs_status := WINNER_WINDOW, gs_winnerWindowStartedAt := Some now,
                  gs_winnerWindowEndsAt := Some proposedWindowEndsAt, gs_autoCallEnabled := False,
                  gs_nextAutoCallAt := None, gs_noWinnerGraceEndsAt := None,
                  gs_noWinnerReason := None\<rparr>) db
      in if opened = 0 then
           (case find_session db1 sessionId of
              None \<Rightarrow> Inl (Conflict ''Winner window could not be opened'')
            | Some activeSession \<Rightarrow>
                if gs_status activeSession \<noteq> WINNER_WINDOW \<or> gs_winnerWindowEndsAt activeSession = None
                then Inl (Conflict ''Winner window could not be opened'')
                else createAutoValidJoinWindowClaim now newId
                  (cc\<lparr>cc_session := (cc_session cc)\<lparr>gs_status := WINNER_WINDOW,
                        gs_winnerWindowEndsAt := gs_winnerWindowEndsAt activeSession\<rparr>\<rparr>)
                  userId matchedPattern completedPatterns winnerWindowClaimGraceMs winningBall db1)
         else
           let (count, db2) = mark_winner (gc_id (cc_cartela cc)) db1 in
           if count \<noteq> 1 then Inl (Conflict ''Cartela could not be marked as winner'')
           else
             let claim = claim_of newId cc userId VALID matchedPattern None None winningBall (Some now)
             in Inr (valid_answer Auto_Valid_Open claim progress_value proposedWindowEndsAt completedPatterns,
                     create_claim claim db2))"

text \<open>The automatic caller is paused while the claim is checked: what remained of its countdown.\<close>

definition pause_auto_call :: "int \<Rightarrow> claim_cartela \<Rightarrow> game_db \<Rightarrow> (int \<times> bool) \<times> game_db" where
  "pause_auto_call now cc db =
     (let session = cc_session cc in
      if gs_status session = PLAYING \<and> gs_autoCallEnabled session then
        ((case gs_nextAutoCallAt session of
            None \<Rightarrow> (0, False)
          | Some scheduledAt \<Rightarrow> (if now < scheduledAt then scheduledAt - now else 0, True)),
         snd (update_sessions now
           (\<lambda>s. gs_id s = gc_sessionId (cc_cartela cc) \<and> gs_status s = PLAYING \<and> gs_autoCallEnabled s)
           (\<lambda>s. s\<lparr>gs_nextAutoCallAt := None\<rparr>) db))
      else ((0, False), db))"

definition claim_verdict :: "claim_cartela \<Rightarrow> string \<Rightarrow> game_db \<Rightarrow> evaluation_result" where
  "claim_verdict cc ruleKey db =
     evaluate (gc_board (cc_cartela cc)) (called_numbers db (gc_sessionId (cc_cartela cc))) ruleKey
       (rule_patterns_of (cc_slot cc))"

definition createAutoValidatedClaim ::
  "timing_config \<Rightarrow> int \<Rightarrow> string \<Rightarrow> claim_cartela \<Rightarrow> string \<Rightarrow> string \<Rightarrow> game_db \<Rightarrow> claim_answer tx" where
  "createAutoValidatedClaim cfg now newId cc userId ruleKey db =
     bind_result (assertClaimableCartela cc) (\<lambda>_.
       let sessionStatus = gs_status (cc_session cc) in
       if sessionStatus \<noteq> PLAYING \<and> sessionStatus \<noteq> WINNER_WINDOW
       then Inl (Bad_Request ''Game must be PLAYING or in the winner window to claim bingo'')
       else
         let ((pausedRemainingMs, hadScheduledAutoCall), db1) = pause_auto_call now cc db;
             evaluation = claim_verdict cc ruleKey db1;
             activeBall = resolveWinningBallFromCalledNumbersSnapshot
               (called_numbers db1 (gc_sessionId (cc_cartela cc)));
             invalid = (\<lambda>reasonCode. createAutoInvalidClaim now newId cc userId ruleKey reasonCode
               (matched_pattern evaluation) (getAutoCallIntervalMs cfg) pausedRemainingMs
               hadScheduledAutoCall activeBall db1)
         in if \<not> is_winner evaluation then invalid INVALID_PATTERN
            else if \<not> completed_by_latest evaluation then invalid INVALID_LATE_CLAIM
            else
              let shown = serializeCompletedPatterns (completed_patterns evaluation) (gc_board (cc_cartela cc))
              in if sessionStatus = WINNER_WINDOW then
                   createAutoValidJoinWindowClaim now newId cc userId (matched_pattern evaluation)
                     shown (tc_winnerWindowClaimGraceMs cfg) activeBall db1
                 else
                   createAutoValidOpenOrJoinWindowClaim now newId cc userId (matched_pattern evaluation)
                     (progress evaluation) (tc_winnerWindowSeconds cfg * 1000) shown
                     (tc_winnerWindowClaimGraceMs cfg) activeBall db1)"

definition claim_tx ::
  "timing_config \<Rightarrow> int \<Rightarrow> string \<Rightarrow> claim_cartela \<Rightarrow> string \<Rightarrow> game_db \<Rightarrow> claim_answer tx" where
  "claim_tx cfg now newId cc userId db =
     (case getTerminalClaimReasonCode cc of
        Some reasonCode \<Rightarrow> createAlreadyResolvedClaimResponse now newId cc userId reasonCode db
      | None \<Rightarrow>
          let ruleKey = resolveRuleKey cc in
          if isManualRule (Some ruleKey) then createManualPendingClaim now newId cc userId ruleKey db
          else createAutoValidatedClaim cfg now newId cc userId ruleKey db)"

definition claimBingo ::
  "timing_config \<Rightarrow> int \<Rightarrow> string \<Rightarrow> (game_db \<Rightarrow> game_db) \<Rightarrow> string \<Rightarrow> string \<Rightarrow> string \<Rightarrow> game_db \<Rightarrow>
   claim_answer game_outcome" where
  "claimBingo cfg now newId others sessionId userId gameCartelaId db =
     (case loadClaimCartela db sessionId userId gameCartelaId of
        Inl e \<Rightarrow> (Inl e, db)
      | Inr cc \<Rightarrow> transaction (others db) (claim_tx cfg now newId cc userId (others db)))"

section \<open>Closing the winner window\<close>

definition prize_meta :: "session_row \<Rightarrow> string \<Rightarrow> ledger_meta" where
  "prize_meta session gameCartelaId =
     \<lparr>me_type = PRIZE_WIN, me_referenceType = ''GAME_CARTELA'', me_referenceId = gameCartelaId,
      me_description = Some (''Prize win for session '' @ gs_playCode session)\<rparr>"

text \<open>The loop over the winners; \<open>newId\<close> gives the identifier of each ledger row.\<close>

fun credit_winners ::
  "(string \<Rightarrow> string) \<Rightarrow> session_row \<Rightarrow> (game_cartela \<times> rat) list \<Rightarrow> game_db \<Rightarrow> http_error + game_db" where
  "credit_winners newId session [] db = Inr db"
| "credit_winners newId session ((winner, share) # rest) db =
     bind_result
       (wallet_tx (\<lambda>w. creditWallet (newId (gc_id winner)) id w (gc_userId winner) share
           (prize_meta session (gc_id winner))) db)
       (\<lambda>(_, db'). credit_winners newId session rest db')"

definition session_winners :: "game_db \<Rightarrow> string \<Rightarrow> game_cartela list" where
  "session_winners db sessionId =
     filter (\<lambda>c. gc_sessionId c = sessionId \<and> gc_isWinner c \<and> gc_status c = WINNER) (gd_cartelas db)"

definition window_due :: "int \<Rightarrow> session_row \<Rightarrow> bool" where
  "window_due finalizeAfter s \<longleftrightarrow>
     gs_status s = WINNER_WINDOW \<and> gs_prizeFinalizedAt s = None \<and>
     (case gs_winnerWindowEndsAt s of None \<Rightarrow> False | Some ends \<Rightarrow> ends \<le> finalizeAfter)"

text \<open>An exception of the opener is caught and logged.\<close>

definition try_open_next ::
  "timing_config \<Rightarrow> int \<Rightarrow> bool \<Rightarrow> string \<times> string \<Rightarrow> game_db \<Rightarrow> opened_registration option \<times> game_db" where
  "try_open_next cfg now lockFree codes db =
     (case openNextAutoQueueRegistrationInTransaction cfg now lockFree codes after_finish db of
        Inl e \<Rightarrow> (None, db)
      | Inr (opened, db') \<Rightarrow> (opened, db'))"

definition finalize_tx ::
  "timing_config \<Rightarrow> int \<Rightarrow> bool \<Rightarrow> string \<times> string \<Rightarrow> (string \<Rightarrow> string) \<Rightarrow> string \<Rightarrow> game_db \<Rightarrow>
   string list option tx" where
  "finalize_tx cfg now lockFree codes newId sessionId db =
     (let finalizeAfter = now - tc_winnerWindowClaimGraceMs cfg;
          (locked, db1) = update_sessions now (\<lambda>s. gs_id s = sessionId \<and> window_due finalizeAfter s)
            (\<lambda>s. s\<lparr>gs_prizeFinalizedAt := Some now\<rparr>) db
      in if locked \<noteq> 1 then Inr (None, db1)
         else
           case find_session db1 sessionId of
             None \<Rightarrow> Inl (Conflict ''Winner window could not be finalized without winners'')
           | Some session \<Rightarrow>
               let winners = session_winners db1 sessionId in
               if winners = [] then Inl (Conflict ''Winner window could not be finalized without winners'')
               else
                 case splitPrizeAmount (gs_prizeAmount session) (int (length winners)) of
                   Inl m \<Rightarrow> Inl (Db_Error m)
                 | Inr prizeShares \<Rightarrow>
                     bind_result (credit_winners newId session (zip winners prizeShares) db1) (\<lambda>db2.
                       let (finished, db3) = update_sessions now
                             (\<lambda>s. gs_id s = sessionId \<and> gs_status s = WINNER_WINDOW \<and>
                                  gs_prizeFinalizedAt s \<noteq> None \<and> gs_winnerCartelaId s = None)
                             (\<lambda>s. s\<lparr>gs_status := FINISHED,
                                   gs_winnerCartelaId := Some (gc_id (hd winners)),
                                   gs_finishedAt := Some now, gs_noWinnerGraceEndsAt := None,
                                   gs_noWinnerReason := None\<rparr>) db2
                       in if finished \<noteq> 1 then Inl (Conflict ''Winner window already finalized'')
                          else
                            bind_result (restoreSlotAfterSession (gs_slotId session) db3) (\<lambda>(_, db4).
                              let (_, db5) = try_open_next cfg now lockFree codes db4
                              in Inr (Some (map gc_userId winners), db5))))"

definition finalizeWinnerWindow ::
  "timing_config \<Rightarrow> int \<Rightarrow> bool \<Rightarrow> string \<times> string \<Rightarrow> (string \<Rightarrow> string) \<Rightarrow> string \<Rightarrow> game_db \<Rightarrow>
   string list option game_outcome" where
  "finalizeWinnerWindow cfg now lockFree codes newId sessionId db =
     transaction db (finalize_tx cfg now lockFree codes newId sessionId db)"

text \<open>Whether the window was closed, and the number of winners.\<close>

definition finalizeWinnerWindowEarly ::
  "timing_config \<Rightarrow> int \<Rightarrow> bool \<Rightarrow> string \<times> string \<Rightarrow> (string \<Rightarrow> string) \<Rightarrow> string \<Rightarrow> game_db \<Rightarrow>
   (bool \<times> nat) game_outcome" where
  "finalizeWinnerWindowEarly cfg now lockFree codes newId sessionId db =
     (let (claimed, db1) = update_sessions now
            (\<lambda>s. gs_id s = sessionId \<and> gs_status s = WINNER_WINDOW \<and> gs_prizeFinalizedAt s = None)
            (\<lambda>s. s\<lparr>gs_winnerWindowEndsAt := Some now\<rparr>) db
      in if claimed \<noteq> 1 then (Inl (Bad_Request ''Session is not in an open winner window''), db1)
         else
           case finalizeWinnerWindow cfg now lockFree codes newId sessionId db1 of
             (Inl e, db2) \<Rightarrow> (Inl e, db2)
           | (Inr finalized, db2) \<Rightarrow>
               (Inr (finalized \<noteq> None, case finalized of None \<Rightarrow> 0 | Some users \<Rightarrow> length users), db2))"

text \<open>The scheduler: the windows that have ended, the first to end first; exceptions are logged.\<close>

definition finalizer_tick ::
  "timing_config \<Rightarrow> int \<Rightarrow> bool \<Rightarrow> (string \<Rightarrow> string \<times> string) \<Rightarrow> (string \<Rightarrow> string) \<Rightarrow> game_db \<Rightarrow> game_db" where
  "finalizer_tick cfg now lockFree codes newId db =
     fold (\<lambda>s d. snd (finalizeWinnerWindow cfg now lockFree (codes (gs_id s)) newId (gs_id s) d))
       (sort_by (\<lambda>x y. or_else (gs_winnerWindowEndsAt x) 0 - or_else (gs_winnerWindowEndsAt y) 0)
         (filter (window_due now) (gd_sessions db))) db"

section \<open>The admin's decision\<close>

definition load_claim :: "game_db \<Rightarrow> string \<Rightarrow> (claim_row \<times> claim_cartela) option" where
  "load_claim db claimId =
     (case find_claim db claimId of
        None \<Rightarrow> None
      | Some claim \<Rightarrow>
          (case (find_cartela db (bc_gameCartelaId claim), find_session db (bc_sessionId claim)) of
             (Some c, Some s) \<Rightarrow>
               (case find_slot db (gs_slotId s) of
                  None \<Rightarrow> None
                | Some slot \<Rightarrow> Some (claim, \<lparr>cc_cartela = c, cc_session = s, cc_slot = slot\<rparr>))
           | _ \<Rightarrow> None))"

definition approve_tx ::
  "timing_config \<Rightarrow> int \<Rightarrow> bool \<Rightarrow> string \<times> string \<Rightarrow> string \<Rightarrow> string \<Rightarrow> game_db \<Rightarrow> claim_row tx" where
  "approve_tx cfg now lockFree codes newId claimId db =
     (case load_claim db claimId of
        None \<Rightarrow> Inl (Not_Found ''Bingo claim not found'')
      | Some (claim, cc) \<Rightarrow>
          if bc_status claim \<noteq> PENDING then Inl (Bad_Request ''Only pending claims can be approved'')
          else if gs_status (cc_session cc) = FINISHED \<or> gs_status (cc_session cc) = NO_WINNER
          then Inl (Bad_Request ''Game already finished'')
          else if \<not> isManualRule (Some (resolveRuleKey cc))
          then Inl (Bad_Request ''Automatic game rules finalize winners without manual approval'')
          else
            let (count, db1) = mark_winner (gc_id (cc_cartela cc)) db in
            if count \<noteq> 1 then Inl (Conflict ''Cartela could not be finalized as winner'')
            else
              bind_result (finishGameWithWinner cfg now lockFree codes (gs_id (cc_session cc))
                  (gc_id (cc_cartela cc)) db1) (\<lambda>((finished, _), db2).
                if \<not> finished then Inl (Conflict ''Game already finished'')
                else
                  bind_result (wallet_tx (\<lambda>w. creditWallet newId id w (bc_userId claim)
                      (gs_prizeAmount (cc_session cc))
                      (prize_meta (cc_session cc) (gc_id (cc_cartela cc)))) db2) (\<lambda>(_, db3).
                  bind_result (update_claim (bc_id claim)
                      (\<lambda>c. c\<lparr>bc_status := VALID, bc_reason := None, bc_reasonCode := None,
                            bc_checkedAt := Some now\<rparr>) db3) (\<lambda>db4.
                    Inr (claim\<lparr>bc_status := VALID, bc_reason := None, bc_reasonCode := None,
                               bc_checkedAt := Some now\<rparr>, db4)))))"

definition approveClaim ::
  "timing_config \<Rightarrow> int \<Rightarrow> bool \<Rightarrow> string \<times> string \<Rightarrow> string \<Rightarrow> string \<Rightarrow> game_db \<Rightarrow> claim_row game_outcome" where
  "approveClaim cfg now lockFree codes newId claimId db =
     transaction db (approve_tx cfg now lockFree codes newId claimId db)"

definition reject_reason :: "string option \<Rightarrow> string" where
  "reject_reason reason =
     (case reason of
        None \<Rightarrow> ''Rejected after manual admin review''
      | Some r \<Rightarrow> if js_trim r = [] then ''Rejected after manual admin review'' else js_trim r)"

definition reject_tx :: "int \<Rightarrow> string \<Rightarrow> string option \<Rightarrow> game_db \<Rightarrow> claim_row tx" where
  "reject_tx now claimId reason db =
     (case load_claim db claimId of
        None \<Rightarrow> Inl (Not_Found ''Bingo claim not found'')
      | Some (claim, cc) \<Rightarrow>
          if bc_status claim \<noteq> PENDING then Inl (Bad_Request ''Only pending claims can be rejected'')
          else if \<not> isManualRule (Some (resolveRuleKey cc))
          then Inl (Bad_Request ''Automatic game rules reject invalid claims immediately on submit'')
          else
            let (count, db1) = update_cartelas
                  (\<lambda>c. gc_id c = gc_id (cc_cartela cc) \<and> gc_status c = REGISTERED)
                  (\<lambda>c. c\<lparr>gc_status := BLOCKED, gc_blockedAt := Some now\<rparr>) db
            in if count \<noteq> 1 then Inl (Conflict ''Cartela could not be blocked'')
               else
                 let activeBall = resolveWinningBallFromCalledNumbersSnapshot
                       (called_numbers db1 (bc_sessionId claim));
                     decide = (\<lambda>c. c\<lparr>bc_status := INVALID, bc_reason := Some (reject_reason reason),
                       bc_reasonCode := None, bc_checkedAt := Some now, bc_winningBall := activeBall\<rparr>)
                 in bind_result (update_claim (bc_id claim) decide db1) (\<lambda>db2.
                    bind_result (update_session now (bc_sessionId claim)
                        (\<lambda>s. s\<lparr>gs_status := PLAYING\<rparr>) db2) (\<lambda>db3.
                      Inr (decide claim, db3))))"

definition rejectClaim :: "int \<Rightarrow> string \<Rightarrow> string option \<Rightarrow> game_db \<Rightarrow> claim_row game_outcome" where
  "rejectClaim now claimId reason db = transaction db (reject_tx now claimId reason db)"

end
