(* ===== verification/GameLifecycle.thy ===== *)
theory GameLifecycle
  imports BingoClaims
begin

text \<open>
  Cancelling a session with its refunds: \<open>games/game-lifecycle.service.ts\<close>. \<open>others\<close> is what other
  transactions commit between the first look at the session and the transaction that cancels it.
  Time-outs of the database are left out, and so is what is emitted after the commit.
\<close>

datatype cancel_reason = No_Players | Admin_Cancelled | Queue_Cleared

fun reason_text :: "cancel_reason \<Rightarrow> string" where
  "reason_text No_Players = ''no_players''"
| "reason_text Admin_Cancelled = ''admin_cancelled''"
| "reason_text Queue_Cleared = ''queue_cleared''"

record cancel_options =
  co_requeueSlot :: bool
  co_abortIfPlayersRegistered :: bool

record cancel_done =
  cd_sessionId :: string
  cd_slotId :: string
  cd_reason :: cancel_reason
  cd_refundedCount :: nat
  cd_alreadyCancelled :: bool

datatype cancel_result = Aborted | Cancelled_Session cancel_done

text \<open>What stops the transaction: a signal of its own, or an exception.\<close>

datatype cancel_stop = Cancel_Aborted | Already_Completed string "string option" | Thrown http_error

definition CANCELLABLE_SESSION_STATUSES :: "game_status list" where
  "CANCELLABLE_SESSION_STATUSES = [READY, PLAYING, CHECKING]"

definition cancellable :: "game_status \<Rightarrow> bool" where
  "cancellable status \<longleftrightarrow> List.member CANCELLABLE_SESSION_STATUSES status"

definition buildAlreadyCancelledResult ::
  "string \<Rightarrow> string \<Rightarrow> string option \<Rightarrow> cancel_reason \<Rightarrow> cancel_result" where
  "buildAlreadyCancelledResult sessionId slotId storedReason fallbackReason =
     Cancelled_Session
       \<lparr>cd_sessionId = sessionId, cd_slotId = slotId,
        cd_reason =
          (if storedReason = Some ''no_players'' then No_Players
           else if storedReason = Some ''admin_cancelled'' then Admin_Cancelled
           else if storedReason = Some ''queue_cleared'' then Queue_Cleared
           else fallbackReason),
        cd_refundedCount = 0, cd_alreadyCancelled = True\<rparr>"

text \<open>The refunds by user, in the order the users first appear: paid and bonus cartelas.\<close>

type_synonym refund_totals = "(string \<times> nat \<times> nat) list"

fun set_totals :: "string \<Rightarrow> nat \<times> nat \<Rightarrow> refund_totals \<Rightarrow> refund_totals" where
  "set_totals userId totals [] = [(userId, totals)]"
| "set_totals userId totals ((u, t) # rest) =
     (if u = userId then (u, totals) # rest else (u, t) # set_totals userId totals rest)"

definition add_refund :: "game_cartela \<Rightarrow> refund_totals \<Rightarrow> refund_totals" where
  "add_refund c refunds =
     (let (money, bonus) = or_else (map_of refunds (gc_userId c)) (0, 0)
      in set_totals (gc_userId c)
           (case gc_paymentSource c of
              Some BONUS_CARTELA \<Rightarrow> (money, bonus + 1)
            | Some MONEY_WALLET \<Rightarrow> (money + 1, bonus)
            | None \<Rightarrow> (money, bonus)) refunds)"

definition refundTotalsByUser :: "game_cartela list \<Rightarrow> refund_totals" where
  "refundTotalsByUser paidCartelas = fold add_refund paidCartelas []"

definition refund_meta :: "session_row \<Rightarrow> string \<Rightarrow> nat \<Rightarrow> ledger_meta" where
  "refund_meta session userId moneyCount =
     \<lparr>me_type = REFUND, me_referenceType = ''GAME_SESSION_CANCEL'',
      me_referenceId = gs_id session @ '':'' @ userId,
      me_description = Some (''Entry fee refund for '' @ show_nat moneyCount @
        '' cartela(s) in cancelled game '' @ gs_playCode session)\<rparr>"

fun refund_users ::
  "(string \<Rightarrow> string) \<Rightarrow> session_row \<Rightarrow> refund_totals \<Rightarrow> game_db \<Rightarrow> http_error + game_db" where
  "refund_users newId session [] db = Inr db"
| "refund_users newId session ((userId, money, bonus) # rest) db =
     bind_result
       (if 0 < money then
          bind_result
            (wallet_tx (\<lambda>w. creditWallet (newId userId) id w userId
               (gs_entryFee session * of_nat money) (refund_meta session userId money)) db)
            (\<lambda>(_, db'). Inr db')
        else Inr db) (\<lambda>db1.
     bind_result
       (if 0 < bonus then
          bind_result (wallet_tx (\<lambda>w. creditBonusCartelas w userId (int bonus)) db1) (\<lambda>(_, db'). Inr db')
        else Inr db1)
       (refund_users newId session rest))"

definition cancel_options_open :: open_options where
  "cancel_options_open =
     \<lparr>op_ignoreReviewGrace = True, op_allowBehindActiveLive = True, op_deferred = True\<rparr>"

definition thrown :: "http_error + 'a \<Rightarrow> cancel_stop + 'a" where
  "thrown r = (case r of Inl e \<Rightarrow> Inl (Thrown e) | Inr x \<Rightarrow> Inr x)"

text \<open>Claim the status, then refund, cancel the cartelas and bring the slot back.\<close>

definition cancel_tx ::
  "timing_config \<Rightarrow> int \<Rightarrow> bool \<Rightarrow> string \<times> string \<Rightarrow> (string \<Rightarrow> string) \<Rightarrow> string \<Rightarrow> cancel_reason \<Rightarrow>
   cancel_options \<Rightarrow> game_db \<Rightarrow> cancel_stop + cancel_done \<times> game_db" where
  "cancel_tx cfg now lockFree codes newId sessionId reason options db =
     (case find_session db sessionId of
        None \<Rightarrow> Inl (Thrown (Not_Found ''Session not found''))
      | Some session \<Rightarrow>
          if gs_status session = WINNER_WINDOW
          then Inl (Thrown (Bad_Request ''Winner window sessions cannot be cancelled. Finalize the winner window early to pay winners and finish the game.''))
          else if gs_status session = CANCELLED then Inl (Already_Completed (gs_slotId session) None)
          else if \<not> cancellable (gs_status session)
          then Inl (Thrown (Bad_Request ''Session is already over and cannot be cancelled''))
          else
            let (claimed, db1) = update_sessions now
                  (\<lambda>s. gs_id s = sessionId \<and> cancellable (gs_status s))
                  (\<lambda>s. s\<lparr>gs_status := CANCELLED, gs_cancelledReason := Some (reason_text reason),
                        gs_autoCallEnabled := False, gs_nextAutoCallAt := None,
                        gs_scheduledStartAt := None\<rparr>) db
            in if claimed \<noteq> 1 then
                 (case find_session db1 sessionId of
                    Some current \<Rightarrow>
                      if gs_status current = CANCELLED
                      then Inl (Already_Completed (gs_slotId current) (gs_cancelledReason current))
                      else Inl (Thrown (Conflict ''Session was already finished or cancelled''))
                  | None \<Rightarrow> Inl (Thrown (Conflict ''Session was already finished or cancelled'')))
               else
                 let paidCartelas = active_cartelas db1 sessionId in
                 if co_abortIfPlayersRegistered options \<and> 0 < length paidCartelas
                 then Inl Cancel_Aborted
                 else
                   bind_result (thrown
                     (if 0 < gs_entryFee session
                      then refund_users newId session (refundTotalsByUser paidCartelas) db1
                      else Inr db1)) (\<lambda>db2.
                   let db3 = snd (update_cartelas
                         (\<lambda>c. gc_sessionId c = sessionId \<and> gc_status c \<noteq> CARTELA_CANCELLED)
                         (\<lambda>c. c\<lparr>gc_status := CARTELA_CANCELLED\<rparr>) db2)
                   in bind_result (thrown
                        (if co_requeueSlot options then
                           bind_result (restoreSlotAfterSession (gs_slotId session) db3) (\<lambda>(_, db'). Inr db')
                         else Inr db3)) (\<lambda>db4.
                      bind_result (thrown
                        (if co_requeueSlot options \<and> reason \<noteq> Queue_Cleared then
                           bind_result (openNextAutoQueueRegistrationInTransaction cfg now lockFree codes
                             cancel_options_open db4) (\<lambda>(_, db'). Inr db')
                         else Inr db4)) (\<lambda>db5.
                        Inr (\<lparr>cd_sessionId = sessionId, cd_slotId = gs_slotId session,
                              cd_reason = reason, cd_refundedCount = length paidCartelas,
                              cd_alreadyCancelled = False\<rparr>, db5)))))"

definition cancelSession ::
  "timing_config \<Rightarrow> int \<Rightarrow> bool \<Rightarrow> string \<times> string \<Rightarrow> (string \<Rightarrow> string) \<Rightarrow> (game_db \<Rightarrow> game_db) \<Rightarrow>
   string \<Rightarrow> cancel_reason \<Rightarrow> cancel_options \<Rightarrow> game_db \<Rightarrow> cancel_result game_outcome" where
  "cancelSession cfg now lockFree codes newId others sessionId reason options db =
     (case find_session db sessionId of
        None \<Rightarrow> (Inl (Not_Found ''Session not found''), db)
      | Some existing \<Rightarrow>
          if gs_status existing = WINNER_WINDOW
          then (Inl (Bad_Request ''Winner window sessions cannot be cancelled. Finalize the winner window early to pay winners and finish the game.''), db)
          else if gs_status existing = CANCELLED
          then (Inr (buildAlreadyCancelledResult sessionId (gs_slotId existing)
                  (gs_cancelledReason existing) reason), db)
          else if \<not> cancellable (gs_status existing)
          then (Inl (Bad_Request ''Session is already over and cannot be cancelled''), db)
          else
            let db1 = disableAutoCall now sessionId (others db) in
            case cancel_tx cfg now lockFree codes newId sessionId reason options db1 of
              Inr (r, db2) \<Rightarrow> (Inr (Cancelled_Session r), db2)
            | Inl Cancel_Aborted \<Rightarrow> (Inr Aborted, db1)
            | Inl (Already_Completed slotId storedReason) \<Rightarrow>
                (Inr (buildAlreadyCancelledResult sessionId slotId storedReason reason), db1)
            | Inl (Thrown e) \<Rightarrow> (Inl e, db1))"

end
