(* ===== verification/WalletLedger.thy ===== *)
theory WalletLedger
  imports Wallet
begin

text \<open>
  What the wallet service guarantees. \<open>intended\<close> is the specification of a mutation on the pair of
  available and locked balance; \<open>applyWalletMutation\<close> implements it and books one ledger row whose
  balances are those of the wallet before and after. The locale \<open>posting\<close> is the interface the
  paying components rely on: a posting with a taken key changes nothing, a failed one leaves no
  trace, a successful one takes its key; it is interpreted on \<open>applyWalletMutation\<close>.
\<close>

section \<open>The specification of a mutation\<close>

fun intended :: "mutation_direction \<Rightarrow> balance_mode \<Rightarrow> rat \<Rightarrow> rat \<times> rat \<Rightarrow> (rat \<times> rat) option" where
  "intended CREDIT AVAILABLE a (b, l) = Some (b + a, l)"
| "intended DEBIT AVAILABLE a (b, l) = (if a \<le> b then Some (b - a, l) else None)"
| "intended DEBIT AVAILABLE_TO_LOCKED a (b, l) = (if a \<le> b then Some (b - a, l + a) else None)"
| "intended CREDIT LOCKED_TO_AVAILABLE a (b, l) = (if a \<le> l then Some (b + a, l - a) else None)"
| "intended DEBIT LOCKED_ONLY a (b, l) = (if a \<le> l then Some (b, l - a) else None)"
| "intended _ _ _ _ = None"

definition balances :: "wallet_row \<Rightarrow> rat \<times> rat" where
  "balances w = (wa_balance w, wa_lockedBalance w)"

definition set_balances :: "rat \<times> rat \<Rightarrow> wallet_row \<Rightarrow> wallet_row" where
  "set_balances bl w = w\<lparr>wa_balance := fst bl, wa_lockedBalance := snd bl\<rparr>"

definition intended_on :: "mutation_params \<Rightarrow> wallet_row \<Rightarrow> wallet_row option" where
  "intended_on params w =
     map_option (\<lambda>bl. set_balances bl w)
       (intended (mp_direction params) (mode_of params) (mp_amount params) (balances w))"

lemma balances_set_balances [simp]: "balances (set_balances bl w) = bl"
  by (simp add: balances_def set_balances_def)

lemma getWalletOrThrow_updated [wallet_simps]:
  "getWalletOrThrow (db\<lparr>db_wallets := (db_wallets db)(u \<mapsto> w)\<rparr>) u = Inr w"
  by (simp add: getWalletOrThrow_def)

lemma mutateWalletBalances_intended:
  "mutateWalletBalances db userId amount direction mode =
   (case db_wallets db userId of
      None \<Rightarrow> (Inl (case resolveMutationPlan amount direction mode of
                Inl e \<Rightarrow> e | Inr _ \<Rightarrow> Not_Found ''Wallet not found''), db)
    | Some w \<Rightarrow>
        (case intended direction mode amount (balances w) of
           None \<Rightarrow> (Inl (case resolveMutationPlan amount direction mode of
                Inl e \<Rightarrow> e | Inr plan \<Rightarrow> Bad_Request (pl_insufficientBalanceMessage plan)), db)
         | Some bl \<Rightarrow> (Inr (set_balances bl w),
              db\<lparr>db_wallets := (db_wallets db)(userId \<mapsto> set_balances bl w)\<rparr>)))"
  by (cases direction; cases mode; cases "db_wallets db userId")
    (simp_all add: mutateWalletBalances_def resolveMutationPlan_def balances_def set_balances_def
      at_least_def throwMutationPreconditionError_def Let_def wallet_simps)

lemma resolveLedgerBalances_intended:
  "intended direction mode amount (balances w) = Some bl \<Longrightarrow>
   resolveLedgerBalances (set_balances bl w) amount direction mode = (wa_balance w, fst bl)"
  by (cases direction; cases mode)
    (auto simp: balances_def resolveLedgerBalances_def set_balances_def split: if_splits)

section \<open>What a mutation does to the state\<close>

type_synonym ledger_key = "string \<times> wallet_transaction_type \<times> string \<times> string"

definition row_key :: "ledger_row \<Rightarrow> ledger_key" where
  "row_key row = (wt_userId row, wt_type row, wt_referenceType row, wt_referenceId row)"

definition params_key :: "mutation_params \<Rightarrow> ledger_key" where
  "params_key params =
     (mp_userId params, me_type params, me_referenceType params, me_referenceId params)"

definition posted :: "wallet_db \<Rightarrow> ledger_key set" where
  "posted db = row_key ` set (db_ledger db)"

definition ledger_ids :: "wallet_db \<Rightarrow> string set" where
  "ledger_ids db = wt_id ` set (db_ledger db)"

definition ledger_entry :: "string \<Rightarrow> mutation_params \<Rightarrow> rat \<Rightarrow> rat \<Rightarrow> ledger_row" where
  "ledger_entry newId params balanceBefore balanceAfter =
     \<lparr>wt_id = newId, wt_userId = mp_userId params, wt_type = me_type params,
      wt_amount = mp_amount params, wt_balanceBefore = balanceBefore,
      wt_balanceAfter = balanceAfter, wt_referenceType = me_referenceType params,
      wt_referenceId = me_referenceId params, wt_description = me_description params\<rparr>"

definition valid_params :: "mutation_params \<Rightarrow> bool" where
  "valid_params params \<longleftrightarrow>
     0 < mp_amount params \<and> js_trim (me_referenceType params) \<noteq> [] \<and>
     js_trim (me_referenceId params) \<noteq> []"

lemma meta_of_sel [simp]:
  "me_type (meta_of params) = me_type params"
  "me_referenceType (meta_of params) = me_referenceType params"
  "me_referenceId (meta_of params) = me_referenceId params"
  "me_description (meta_of params) = me_description params"
  by (simp_all add: meta_of_def ledger_meta.defs)

lemma has_key_iff: "has_key (mp_userId params) (meta_of params) row \<longleftrightarrow> row_key row = params_key params"
  by (auto simp: has_key_def row_key_def params_key_def)

lemma findExisting_None:
  "findExistingLedgerEntry db (mp_userId params) (meta_of params) = None \<longleftrightarrow>
   params_key params \<notin> posted db"
  by (force simp: findExistingLedgerEntry_def find_None_iff has_key_iff posted_def)

lemma findExisting_Some:
  "findExistingLedgerEntry db (mp_userId params) (meta_of params) = Some ident \<Longrightarrow>
   \<exists>row\<in>set (db_ledger db). row_key row = params_key params \<and> wt_id row = ident"
  by (auto simp: findExistingLedgerEntry_def find_Some_iff has_key_iff)

lemma list_ex_has_key:
  "list_ex (has_key (mp_userId params) (meta_of params)) (db_ledger db) \<longleftrightarrow>
   params_key params \<in> posted db"
  by (force simp: list_ex_iff has_key_iff posted_def)

lemma ledger_fresh:
  assumes "newId \<notin> ledger_ids db"
  shows "filter (\<lambda>row. wt_id row \<noteq> newId) (db_ledger db) = db_ledger db"
    and "map (\<lambda>row. if wt_id row = newId then f row else row) (db_ledger db) = db_ledger db"
  using assms by (auto simp: ledger_ids_def intro!: filter_True map_idI)

text \<open>The rejected cases, the repeated ones and the posting one.\<close>

lemma applyWalletMutation_rejected:
  "\<not> valid_params params \<Longrightarrow> \<exists>e. applyWalletMutation newId others db params = (Inl e, db)"
  by (auto simp: valid_params_def applyWalletMutation_def assertPositiveAmount_def
      assertIdempotencyKey_def)

lemma applyWalletMutation_repeated:
  assumes "valid_params params" "params_key params \<in> posted db"
  shows "\<exists>row\<in>set (db_ledger db). row_key row = params_key params \<and>
    applyWalletMutation newId others db params = already_applied db (mp_userId params) (wt_id row)"
proof -
  obtain ident where "findExistingLedgerEntry db (mp_userId params) (meta_of params) = Some ident"
    using assms(2) findExisting_None by (metis option.exhaust)
  with findExisting_Some [OF this] assms(1) show ?thesis
    by (auto simp: valid_params_def applyWalletMutation_def assertPositiveAmount_def
        assertIdempotencyKey_def)
qed

lemma applyWalletMutation_raced:
  assumes "valid_params params" "params_key params \<notin> posted db" "params_key params \<in> posted (others db)"
  shows "\<exists>row\<in>set (db_ledger (others db)). row_key row = params_key params \<and>
    applyWalletMutation newId others db params =
      already_applied (others db) (mp_userId params) (wt_id row)"
proof -
  obtain ident where
    found: "findExistingLedgerEntry (others db) (mp_userId params) (meta_of params) = Some ident"
    using assms(3) findExisting_None by (metis option.exhaust)
  have "applyWalletMutation newId others db params =
      already_applied (others db) (mp_userId params) ident"
    using assms findExisting_None [of db params]
    by (simp add: valid_params_def applyWalletMutation_def assertPositiveAmount_def
        assertIdempotencyKey_def createPendingLedgerEntry_def list_ex_has_key found)
  then show ?thesis using findExisting_Some [OF found] by auto
qed

lemma applyWalletMutation_posting:
  assumes "valid_params params" "params_key params \<notin> posted db"
    and "params_key params \<notin> posted db1" "newId \<notin> ledger_ids db1" "db1 = others db"
  shows "applyWalletMutation newId others db params =
    (if mp_userId params \<notin> db_users db1 then (Inl (Db_Error ''P2003''), db1)
     else
       (case db_wallets db1 (mp_userId params) of
          None \<Rightarrow> (Inl (case resolveMutationPlan (mp_amount params) (mp_direction params)
                              (mode_of params) of
                Inl e \<Rightarrow> e | Inr _ \<Rightarrow> Not_Found ''Wallet not found''), db1)
        | Some w \<Rightarrow>
            (case intended_on params w of
               None \<Rightarrow> (Inl (case resolveMutationPlan (mp_amount params) (mp_direction params)
                                   (mode_of params) of
                  Inl e \<Rightarrow> e | Inr plan \<Rightarrow> Bad_Request (pl_insufficientBalanceMessage plan)), db1)
             | Some w' \<Rightarrow>
                 (Inr \<lparr>mr_applied = True, mr_ledgerId = newId, mr_wallet = w'\<rparr>,
                  db1\<lparr>db_wallets := (db_wallets db1)(mp_userId params \<mapsto> w'),
                      db_ledger := db_ledger db1 @
                        [ledger_entry newId params (wa_balance w) (wa_balance w')]\<rparr>))))"
proof -
  let ?db2 = "db1\<lparr>db_ledger := db_ledger db1 @ [ledger_entry newId params 0 0]\<rparr>"
  have start: "applyWalletMutation newId others db params =
      (if mp_userId params \<notin> db_users db1 then (Inl (Db_Error ''P2003''), db1)
       else apply_pending ?db2 newId params)"
    using assms findExisting_None [of db params] list_ex_has_key [of params db1]
    by (simp add: valid_params_def applyWalletMutation_def assertPositiveAmount_def
        assertIdempotencyKey_def createPendingLedgerEntry_def ledger_entry_def)
  have del: "deletePendingLedgerEntry ?db2 newId = db1"
    using ledger_fresh(1) [OF assms(4)] by (simp add: deletePendingLedgerEntry_def ledger_entry_def)
  have upd: "update_ledger_row (?db2\<lparr>db_wallets := ws\<rparr>) newId x y =
      db1\<lparr>db_wallets := ws, db_ledger := db_ledger db1 @ [ledger_entry newId params x y]\<rparr>" for ws x y
    using ledger_fresh(2) [OF assms(4)] by (simp add: update_ledger_row_def ledger_entry_def)
  show ?thesis
    unfolding start apply_pending_def mutateWalletBalances_intended
    using resolveLedgerBalances_intended
    by (auto simp: del upd intended_on_def set_balances_def split: option.splits)
qed

section \<open>The invariant\<close>

definition wallet_ok :: "string \<Rightarrow> wallet_row \<Rightarrow> bool" where
  "wallet_ok u w \<longleftrightarrow>
     wa_userId w = u \<and> 0 \<le> wa_balance w \<and> 0 \<le> wa_lockedBalance w \<and> 0 \<le> wa_bonusCartelaBalance w"

definition row_ok :: "wallet_db \<Rightarrow> ledger_row \<Rightarrow> bool" where
  "row_ok db row \<longleftrightarrow>
     0 < wt_amount row \<and> 0 \<le> wt_balanceBefore row \<and> 0 \<le> wt_balanceAfter row \<and>
     wt_userId row \<in> db_users db"

definition db_ok :: "wallet_db \<Rightarrow> bool" where
  "db_ok db \<longleftrightarrow>
     (\<forall>u w. db_wallets db u = Some w \<longrightarrow> wallet_ok u w) \<and>
     distinct (map row_key (db_ledger db)) \<and> distinct (map wt_id (db_ledger db)) \<and>
     (\<forall>row\<in>set (db_ledger db). row_ok db row)"

lemma intended_nonneg:
  "intended direction mode a (b, l) = Some (b', l') \<Longrightarrow> 0 < a \<Longrightarrow> 0 \<le> b \<Longrightarrow> 0 \<le> l \<Longrightarrow>
   0 \<le> b' \<and> 0 \<le> l'"
  by (cases direction; cases mode) (auto split: if_splits)

lemma intended_on_Some:
  "intended_on params w = Some w' \<Longrightarrow>
   intended (mp_direction params) (mode_of params) (mp_amount params)
     (wa_balance w, wa_lockedBalance w) = Some (wa_balance w', wa_lockedBalance w')"
  by (auto simp: intended_on_def set_balances_def balances_def)

lemma intended_on_ok:
  "intended_on params w = Some w' \<Longrightarrow> wallet_ok u w \<Longrightarrow> 0 < mp_amount params \<Longrightarrow> wallet_ok u w'"
  using intended_nonneg
  by (fastforce simp: intended_on_def wallet_ok_def set_balances_def balances_def)

text \<open>One way to leave a state: unchanged, or with one posting.\<close>

definition posting_of :: "wallet_db \<Rightarrow> mutation_params \<Rightarrow> string \<Rightarrow> wallet_row \<Rightarrow> wallet_row \<Rightarrow> wallet_db" where
  "posting_of db params newId w w' =
     db\<lparr>db_wallets := (db_wallets db)(mp_userId params \<mapsto> w'),
        db_ledger := db_ledger db @ [ledger_entry newId params (wa_balance w) (wa_balance w')]\<rparr>"

lemma already_applied_state [simp]: "snd (already_applied db userId ledgerId) = db"
  by (simp add: already_applied_def split: sum.splits)

lemma mutation_state:
  assumes "newId \<notin> ledger_ids db"
  shows "(case applyWalletMutation newId id db params of
      (Inl e, db') \<Rightarrow> db' = db
    | (Inr r, db') \<Rightarrow>
        (if mr_applied r then
           valid_params params \<and> params_key params \<notin> posted db \<and> mp_userId params \<in> db_users db \<and>
           mr_ledgerId r = newId \<and>
           (\<exists>w. db_wallets db (mp_userId params) = Some w \<and> intended_on params w = Some (mr_wallet r) \<and>
              db' = posting_of db params newId w (mr_wallet r))
         else
           db' = db \<and> params_key params \<in> posted db \<and>
           db_wallets db (mp_userId params) = Some (mr_wallet r) \<and>
           (\<exists>row\<in>set (db_ledger db). row_key row = params_key params \<and> wt_id row = mr_ledgerId r)))"
proof (cases "valid_params params")
  case False
  then show ?thesis using applyWalletMutation_rejected [of params newId id db] by auto
next
  case valid: True
  show ?thesis
  proof (cases "params_key params \<in> posted db")
    case True
    obtain row where row: "row \<in> set (db_ledger db)" "row_key row = params_key params"
      "applyWalletMutation newId id db params = already_applied db (mp_userId params) (wt_id row)"
      using applyWalletMutation_repeated [OF valid True] by blast
    then show ?thesis
      using True by (auto simp: already_applied_def getWalletOrThrow_def split: option.splits)
  next
    case False
    then show ?thesis
      using valid unfolding applyWalletMutation_posting [OF valid False, of "db" newId id, simplified, OF False assms]
      by (auto simp: posting_of_def split: option.splits)
  qed
qed

lemma posting_ok:
  assumes "db_ok db" "newId \<notin> ledger_ids db" "valid_params params" "params_key params \<notin> posted db"
    and "mp_userId params \<in> db_users db" "db_wallets db (mp_userId params) = Some w"
    and "intended_on params w = Some w'"
  shows "db_ok (posting_of db params newId w w')"
proof -
  have w: "wallet_ok (mp_userId params) w" using assms(1,6) by (simp add: db_ok_def)
  have w': "wallet_ok (mp_userId params) w'"
    using intended_on_ok [OF assms(7) w] assms(3) by (simp add: valid_params_def)
  have sel: "row_key (ledger_entry newId params x y) = params_key params"
    "wt_id (ledger_entry newId params x y) = newId"
    "wt_amount (ledger_entry newId params x y) = mp_amount params"
    "wt_balanceBefore (ledger_entry newId params x y) = x"
    "wt_balanceAfter (ledger_entry newId params x y) = y"
    "wt_userId (ledger_entry newId params x y) = mp_userId params" for x y
    by (simp_all add: row_key_def params_key_def ledger_entry_def)
  show ?thesis
    using assms(1-5) w w'
    by (auto simp: db_ok_def posting_of_def sel posted_def ledger_ids_def row_ok_def
        valid_params_def wallet_ok_def)
qed

lemma mutation_ok:
  assumes "db_ok db" "newId \<notin> ledger_ids db"
  shows "db_ok (snd (applyWalletMutation newId id db params))"
  using mutation_state [OF assms(2), of params] posting_ok [OF assms]
  by (auto split: prod.splits sum.splits if_splits simp: assms(1))

text \<open>With other transactions committing in between.\<close>

lemma mutation_failed:
  assumes "newId \<notin> ledger_ids (others db)" "applyWalletMutation newId others db params = (Inl e, db')"
  shows "db' = db \<or> db' = others db"
proof (cases "valid_params params \<and> params_key params \<notin> posted db \<and> params_key params \<notin> posted (others db)")
  case True
  then show ?thesis
    using assms(2) applyWalletMutation_posting [of params db "others db" newId others] assms(1)
    by (auto split: if_splits option.splits)
next
  case False
  then consider "\<not> valid_params params" | "valid_params params" "params_key params \<in> posted db"
    | "valid_params params" "params_key params \<notin> posted db" "params_key params \<in> posted (others db)"
    by blast
  then show ?thesis
  proof cases
    case 1
    then show ?thesis using applyWalletMutation_rejected [of params newId others db] assms(2) by auto
  next
    case 2
    then show ?thesis
      using applyWalletMutation_repeated [OF 2, of newId others] assms(2)
      by (metis already_applied_state snd_conv)
  next
    case 3
    then show ?thesis
      using applyWalletMutation_raced [of params db others newId] assms(2)
      by (metis already_applied_state snd_conv)
  qed
qed

lemma already_applied_result:
  "already_applied db userId ledgerId = (res, db') \<Longrightarrow>
   db' = db \<and> (case res of Inl e \<Rightarrow> True | Inr r \<Rightarrow> \<not> mr_applied r \<and> mr_ledgerId r = ledgerId)"
  by (auto simp: already_applied_def split: sum.splits)

lemma mutation_taken:
  assumes "params_key params \<in> posted (others db)"
    and "applyWalletMutation newId others db params = (res, db')"
  shows "(db' = db \<or> db' = others db) \<and>
    (case res of Inl e \<Rightarrow> True
     | Inr r \<Rightarrow> \<not> mr_applied r \<and>
         (\<exists>row\<in>set (db_ledger db'). row_key row = params_key params \<and> wt_id row = mr_ledgerId r))"
proof (cases "valid_params params")
  case False
  then show ?thesis using applyWalletMutation_rejected [of params newId others db] assms(2) by auto
next
  case True
  have "\<exists>s\<in>{db, others db}. \<exists>row\<in>set (db_ledger s). row_key row = params_key params \<and>
      (res, db') = already_applied s (mp_userId params) (wt_id row)"
    using applyWalletMutation_repeated [OF True, of db newId others]
      applyWalletMutation_raced [of params db others newId, OF True _ assms(1)] assms(2)
    by (cases "params_key params \<in> posted db") auto
  then obtain s row where s: "s \<in> {db, others db}" "row \<in> set (db_ledger s)"
      "row_key row = params_key params" "(res, db') = already_applied s (mp_userId params) (wt_id row)"
    by blast
  show ?thesis
    using already_applied_result [OF s(4) [symmetric]] s(1,2,3) by (auto split: sum.splits)
qed

section \<open>The interface of a ledger\<close>

text \<open>
  A ledger takes posting requests. \<open>ready\<close> says that the state is sound for a request (its new
  identifier is free); \<open>apart\<close> that two requests do not get in each other's way.
\<close>

locale posting =
  fixes post :: "'op \<Rightarrow> 'db \<Rightarrow> ('e + 'r) \<times> 'db" and key_of :: "'op \<Rightarrow> 'k"
    and taken :: "'db \<Rightarrow> 'k set" and ready :: "'op \<Rightarrow> 'db \<Rightarrow> bool" and apart :: "'op \<Rightarrow> 'op \<Rightarrow> bool"
  assumes failed: "ready op db \<Longrightarrow> post op db = (Inl e, db') \<Longrightarrow> db' = db"
    and takes: "ready op db \<Longrightarrow> post op db = (Inr r, db') \<Longrightarrow> taken db' = insert (key_of op) (taken db)"
    and repeated: "ready op db \<Longrightarrow> key_of op \<in> taken db \<Longrightarrow> snd (post op db) = db"
    and stays_ready: "ready op db \<Longrightarrow> ready op' db \<Longrightarrow> apart op op' \<Longrightarrow> ready op' (snd (post op db))"
begin

text \<open>Requests are sent one after the other; the first failure stops the run.\<close>

fun post_all :: "'op list \<Rightarrow> 'db \<Rightarrow> ('e + 'r list) \<times> 'db" where
  "post_all [] db = (Inr [], db)"
| "post_all (op # ops) db =
     (case post op db of
        (Inl e, db') \<Rightarrow> (Inl e, db')
      | (Inr r, db') \<Rightarrow>
          (case post_all ops db' of
             (Inl e, db'') \<Rightarrow> (Inl e, db'')
           | (Inr rs, db'') \<Rightarrow> (Inr (r # rs), db'')))"

lemma ready_after:
  "ready op db \<Longrightarrow> (\<forall>x\<in>set ops. ready x db) \<Longrightarrow> (\<forall>x\<in>set ops. apart op x) \<Longrightarrow> post op db = (r, db') \<Longrightarrow>
   \<forall>x\<in>set ops. ready x db'"
  using stays_ready by force

lemma post_all_takes:
  "(\<forall>x\<in>set ops. ready x db) \<Longrightarrow> sorted_wrt apart ops \<Longrightarrow> post_all ops db = (Inr rs, db') \<Longrightarrow>
   taken db' = key_of ` set ops \<union> taken db"
proof (induction ops arbitrary: db rs)
  case (Cons op ops)
  obtain r db1 where p: "post op db = (Inr r, db1)"
    using Cons.prems(3) by (auto split: prod.splits sum.splits)
  obtain rs1 where "post_all ops db1 = (Inr rs1, db')"
    using Cons.prems(3) p by (auto split: prod.splits sum.splits)
  with Cons.IH [of db1 rs1] Cons.prems(1,2) ready_after [OF _ _ _ p, of ops] takes [OF _ p]
  show ?case by auto
qed simp

text \<open>Requests whose keys are all taken change nothing, however often they are sent.\<close>

lemma post_all_repeated:
  "(\<forall>x\<in>set ops. ready x db \<and> key_of x \<in> taken db) \<Longrightarrow> snd (post_all ops db) = db"
proof (induction ops)
  case (Cons op ops)
  then have "snd (post op db) = db" using repeated by simp
  then show ?case using Cons by (auto split: prod.splits sum.splits)
qed simp

lemma post_all_replay:
  assumes "\<forall>x\<in>set ops. ready x db" "sorted_wrt apart ops" "post_all ops db = (Inr rs, db')"
    and "\<forall>x\<in>set again. ready x db'" "key_of ` set again \<subseteq> key_of ` set ops"
  shows "snd (post_all again db') = db'"
  by (rule post_all_repeated) (use assms post_all_takes [OF assms(1-3)] in auto)

end

text \<open>A request to the wallet: the identifier its ledger row would get, and the mutation.\<close>

type_synonym wallet_request = "string \<times> mutation_params"

definition wallet_post :: "wallet_request \<Rightarrow> wallet_db \<Rightarrow> mutation_result outcome" where
  "wallet_post request db = applyWalletMutation (fst request) id db (snd request)"

definition wallet_ready :: "wallet_request \<Rightarrow> wallet_db \<Rightarrow> bool" where
  "wallet_ready request db \<longleftrightarrow> fst request \<notin> ledger_ids db"

interpretation wallet: posting
  wallet_post "\<lambda>request. params_key (snd request)" posted wallet_ready "\<lambda>x y. fst x \<noteq> fst y"
proof
  fix op :: wallet_request and db e db'
  assume "wallet_ready op db" "wallet_post op db = (Inl e, db')"
  then show "db' = db" using mutation_state [of "fst op" db "snd op"]
    by (simp add: wallet_ready_def wallet_post_def)
next
  fix op :: wallet_request and db r db'
  assume a: "wallet_ready op db" "wallet_post op db = (Inr r, db')"
  have key: "row_key (ledger_entry newId params x y) = params_key params" for newId params x y
    by (simp add: row_key_def params_key_def ledger_entry_def)
  show "posted db' = insert (params_key (snd op)) (posted db)"
    using mutation_state [of "fst op" db "snd op"] a
    by (auto simp: wallet_ready_def wallet_post_def posting_of_def posted_def key split: if_splits)
next
  fix op :: wallet_request and db
  assume a: "wallet_ready op db" "params_key (snd op) \<in> posted db"
  then show "snd (wallet_post op db) = db"
    using mutation_state [of "fst op" db "snd op"]
    by (auto simp: wallet_ready_def wallet_post_def split: prod.splits sum.splits if_splits)
next
  fix op op' :: wallet_request and db
  assume "wallet_ready op db" "wallet_ready op' db" "fst op \<noteq> fst op'"
  then show "wallet_ready op' (snd (wallet_post op db))"
    using mutation_state [of "fst op" db "snd op"]
    by (auto simp: wallet_ready_def wallet_post_def posting_of_def ledger_ids_def ledger_entry_def
        split: prod.splits sum.splits if_splits)
qed

section \<open>The ledger explains the balances\<close>

definition booked :: "wallet_db \<Rightarrow> string \<Rightarrow> rat" where
  "booked db u =
     sum_list (map (\<lambda>row. wt_balanceAfter row - wt_balanceBefore row)
       (filter (\<lambda>row. wt_userId row = u) (db_ledger db)))"

definition available :: "wallet_db \<Rightarrow> string \<Rightarrow> rat" where
  "available db u = (case db_wallets db u of None \<Rightarrow> 0 | Some w \<Rightarrow> wa_balance w)"

lemma posting_booked:
  "db_wallets db (mp_userId params) = Some w \<Longrightarrow>
   available (posting_of db params newId w w') u - booked (posting_of db params newId w w') u =
   available db u - booked db u"
  by (simp add: available_def booked_def posting_of_def ledger_entry_def)

lemma mutation_booked:
  assumes "newId \<notin> ledger_ids db"
  shows "available (snd (applyWalletMutation newId id db params)) u -
      booked (snd (applyWalletMutation newId id db params)) u = available db u - booked db u"
  using mutation_state [OF assms, of params] posting_booked
  by (auto split: prod.splits sum.splits if_splits)

section \<open>Bonus cartelas\<close>

lemma snd_map_outcome [simp]: "snd (map_outcome f out) = snd out"
  by (simp add: map_outcome_def)

lemma bonus_state:
  "snd (consumeBonusCartela db u) = db \<or>
   (\<exists>w. db_wallets db u = Some w \<and> 1 \<le> wa_bonusCartelaBalance w \<and>
      snd (consumeBonusCartela db u) = db\<lparr>db_wallets := (db_wallets db)(u \<mapsto>
        w\<lparr>wa_bonusCartelaBalance := wa_bonusCartelaBalance w - 1\<rparr>)\<rparr>)"
  "snd (creditBonusCartelas db u count) = db \<or>
   (\<exists>w. db_wallets db u = Some w \<and> 0 < count \<and>
      snd (creditBonusCartelas db u count) = db\<lparr>db_wallets := (db_wallets db)(u \<mapsto>
        w\<lparr>wa_bonusCartelaBalance := wa_bonusCartelaBalance w + count\<rparr>)\<rparr>)"
  by (auto simp: consumeBonusCartela_def creditBonusCartelas_def Let_def split: option.splits)

lemma bonus_update_ok:
  "db_ok db \<Longrightarrow> db_wallets db u = Some w \<Longrightarrow> 0 \<le> k \<Longrightarrow>
   db_ok (db\<lparr>db_wallets := (db_wallets db)(u \<mapsto> w\<lparr>wa_bonusCartelaBalance := k\<rparr>)\<rparr>)"
  by (auto simp: db_ok_def wallet_ok_def row_ok_def)

lemma bonus_booked:
  "db_wallets db v = Some w \<Longrightarrow>
   available (db\<lparr>db_wallets := (db_wallets db)(v \<mapsto> w\<lparr>wa_bonusCartelaBalance := k\<rparr>)\<rparr>) u -
   booked (db\<lparr>db_wallets := (db_wallets db)(v \<mapsto> w\<lparr>wa_bonusCartelaBalance := k\<rparr>)\<rparr>) u =
   available db u - booked db u"
  by (simp add: available_def booked_def)

section \<open>The parameters of an operation\<close>

definition meta_key :: "string \<Rightarrow> ledger_meta \<Rightarrow> ledger_key" where
  "meta_key u meta = (u, me_type meta, me_referenceType meta, me_referenceId meta)"

lemma with_meta_sel [simp]:
  "mp_userId (with_meta meta u a d m) = u" "mp_amount (with_meta meta u a d m) = a"
  "mp_direction (with_meta meta u a d m) = d" "mode_of (with_meta meta u a d m) = m"
  "params_key (with_meta meta u a d m) = meta_key u meta"
  "valid_params (with_meta meta u a d m) \<longleftrightarrow>
     0 < a \<and> js_trim (me_referenceType meta) \<noteq> [] \<and> js_trim (me_referenceId meta) \<noteq> []"
  by (simp_all add: with_meta_def mode_of_def ledger_meta.defs params_key_def valid_params_def meta_key_def)

text \<open>The reference of a prize is not blank.\<close>

lemma card_reference: "js_trim ''GAME_CARTELA'' \<noteq> []"
  by code_simp

end
