(* ===== verification/GameInvariant.thy ===== *)
theory GameInvariant
  imports GameLifecycle WalletLedger
begin

text \<open>
  The invariant of the game tables and how transactions keep it. \<open>touches sid\<close> says that a
  transaction leaves everything outside one session as it is; it composes, so a transaction of
  several updates is reduced to what it does to its own session (\<open>session_ok\<close>). \<open>opens\<close> is what
  opening the next registration may do to the table of sessions.
\<close>

section \<open>Views\<close>

definition cartelas_of :: "game_db \<Rightarrow> string \<Rightarrow> game_cartela list" where
  "cartelas_of db sid = filter (\<lambda>c. gc_sessionId c = sid) (gd_cartelas db)"

definition claims_of :: "game_db \<Rightarrow> string \<Rightarrow> claim_row list" where
  "claims_of db sid = filter (\<lambda>k. bc_sessionId k = sid) (gd_claims db)"

definition numbers_of :: "game_db \<Rightarrow> string \<Rightarrow> called_row list" where
  "numbers_of db sid = filter (\<lambda>r. cr_sessionId r = sid) (gd_numbers db)"

definition prize_key :: "string \<Rightarrow> string \<Rightarrow> ledger_key" where
  "prize_key u cid = (u, PRIZE_WIN, ''GAME_CARTELA'', cid)"

definition paid :: "game_db \<Rightarrow> ledger_key set" where
  "paid db = posted (gd_wallet db)"

section \<open>The invariant\<close>

text \<open>The numbers of a session: drawn from 1 to 75, none twice, in the order 1, 2, 3, ...\<close>

definition numbers_ok :: "called_row list \<Rightarrow> bool" where
  "numbers_ok rows \<longleftrightarrow>
     distinct (map cn_number rows) \<and> set (map cn_number rows) \<subseteq> {1..75} \<and>
     map cn_order rows = [1..int (length rows)]"

definition pending_ok :: "game_status \<Rightarrow> claim_row \<Rightarrow> game_cartela \<Rightarrow> bool" where
  "pending_ok status k c \<longleftrightarrow>
     gc_id c = bc_gameCartelaId k \<and> gc_userId c = bc_userId k \<and>
     (bc_status k = PENDING \<longrightarrow>
        status = CHECKING \<and> gc_status c = REGISTERED \<or>
        status = CANCELLED \<and> gc_status c = CARTELA_CANCELLED)"

definition cartela_ok :: "game_status \<Rightarrow> ledger_key set \<Rightarrow> game_cartela \<Rightarrow> bool" where
  "cartela_ok status P c \<longleftrightarrow>
     gc_isWinner c = (gc_status c = WINNER) \<and>
     (gc_isWinner c \<longrightarrow> status = WINNER_WINDOW \<or> status = FINISHED) \<and>
     (\<forall>u. prize_key u (gc_id c) \<in> P \<longleftrightarrow> u = gc_userId c \<and> status = FINISHED \<and> gc_isWinner c)"

definition session_ok ::
  "session_row \<Rightarrow> game_cartela list \<Rightarrow> claim_row list \<Rightarrow> ledger_key set \<Rightarrow> bool" where
  "session_ok s cs ks P \<longleftrightarrow>
     (gs_winnerCartelaId s \<noteq> None \<longrightarrow> gs_status s = FINISHED) \<and>
     (gs_prizeFinalizedAt s \<noteq> None \<longrightarrow> gs_status s = FINISHED) \<and>
     (gs_status s = WINNER_WINDOW \<longrightarrow>
        gs_winnerWindowEndsAt s \<noteq> None \<and> (\<exists>c\<in>set cs. gc_isWinner c)) \<and>
     (\<forall>c\<in>set cs. cartela_ok (gs_status s) P c) \<and>
     (\<forall>k\<in>set ks. \<exists>c\<in>set cs. pending_ok (gs_status s) k c) \<and>
     length (filter (\<lambda>k. bc_status k = PENDING) ks) \<le> 1"

definition keys_ok :: "game_db \<Rightarrow> bool" where
  "keys_ok db \<longleftrightarrow>
     distinct (map sl_id (gd_slots db)) \<and> distinct (map gs_id (gd_sessions db)) \<and>
     distinct (map gc_id (gd_cartelas db)) \<and> distinct (map bc_id (gd_claims db)) \<and>
     gs_slotId ` set (gd_sessions db) \<subseteq> sl_id ` set (gd_slots db) \<and>
     gc_sessionId ` set (gd_cartelas db) \<subseteq> gs_id ` set (gd_sessions db) \<and>
     bc_sessionId ` set (gd_claims db) \<subseteq> gs_id ` set (gd_sessions db) \<and>
     cr_sessionId ` set (gd_numbers db) \<subseteq> gs_id ` set (gd_sessions db) \<and>
     (\<forall>u cid. prize_key u cid \<in> paid db \<longrightarrow> cid \<in> gc_id ` set (gd_cartelas db))"

lemma keys_okD:
  assumes "keys_ok db"
  shows "distinct (map sl_id (gd_slots db))" "distinct (map gs_id (gd_sessions db))"
    "distinct (map gc_id (gd_cartelas db))" "distinct (map bc_id (gd_claims db))"
    "gs_slotId ` set (gd_sessions db) \<subseteq> sl_id ` set (gd_slots db)"
    "gc_sessionId ` set (gd_cartelas db) \<subseteq> gs_id ` set (gd_sessions db)"
    "bc_sessionId ` set (gd_claims db) \<subseteq> gs_id ` set (gd_sessions db)"
    "cr_sessionId ` set (gd_numbers db) \<subseteq> gs_id ` set (gd_sessions db)"
    "\<forall>u cid. prize_key u cid \<in> paid db \<longrightarrow> cid \<in> gc_id ` set (gd_cartelas db)"
  using assms unfolding keys_ok_def by simp_all

definition sessions_ok :: "game_db \<Rightarrow> bool" where
  "sessions_ok db \<longleftrightarrow>
     (\<forall>s\<in>set (gd_sessions db).
        session_ok s (cartelas_of db (gs_id s)) (claims_of db (gs_id s)) (paid db))"

definition one_live :: "game_db \<Rightarrow> bool" where
  "one_live db \<longleftrightarrow>
     (\<forall>s\<in>set (gd_sessions db). \<forall>s'\<in>set (gd_sessions db).
        live (gs_status s) \<longrightarrow> live (gs_status s') \<longrightarrow> gs_id s = gs_id s')"

definition game_ok :: "game_db \<Rightarrow> bool" where
  "game_ok db \<longleftrightarrow>
     keys_ok db \<and> sessions_ok db \<and> one_live db \<and> (\<forall>sid. numbers_ok (numbers_of db sid)) \<and>
     db_ok (gd_wallet db)"

lemma game_okD:
  "game_ok db \<Longrightarrow> keys_ok db" "game_ok db \<Longrightarrow> sessions_ok db" "game_ok db \<Longrightarrow> one_live db"
  "game_ok db \<Longrightarrow> numbers_ok (numbers_of db sid)" "game_ok db \<Longrightarrow> db_ok (gd_wallet db)"
  by (simp_all add: game_ok_def)

section \<open>Looking up rows\<close>

lemma find_session_iff:
  "keys_ok db \<Longrightarrow> find_session db sid = Some s \<longleftrightarrow> s \<in> set (gd_sessions db) \<and> gs_id s = sid"
  using find_key [of gs_id "gd_sessions db" s] find_in [of "\<lambda>s. gs_id s = sid" "gd_sessions db" s]
  by (auto simp: keys_ok_def find_session_def)

lemma find_cartela_iff:
  "keys_ok db \<Longrightarrow> find_cartela db cid = Some c \<longleftrightarrow> c \<in> set (gd_cartelas db) \<and> gc_id c = cid"
  using find_key [of gc_id "gd_cartelas db" c] find_in [of "\<lambda>c. gc_id c = cid" "gd_cartelas db" c]
  by (auto simp: keys_ok_def find_cartela_def)

lemma find_claim_iff:
  "keys_ok db \<Longrightarrow> find_claim db cid = Some k \<longleftrightarrow> k \<in> set (gd_claims db) \<and> bc_id k = cid"
  using find_key [of bc_id "gd_claims db" k] find_in [of "\<lambda>c. bc_id c = cid" "gd_claims db" k]
  by (auto simp: keys_ok_def find_claim_def)

lemma session_unique:
  "keys_ok db \<Longrightarrow> s \<in> set (gd_sessions db) \<Longrightarrow> s' \<in> set (gd_sessions db) \<Longrightarrow> gs_id s = gs_id s' \<Longrightarrow> s = s'"
  using find_session_iff by (metis option.inject)

lemma cartela_unique:
  "keys_ok db \<Longrightarrow> c \<in> set (gd_cartelas db) \<Longrightarrow> c' \<in> set (gd_cartelas db) \<Longrightarrow> gc_id c = gc_id c' \<Longrightarrow> c = c'"
  using find_cartela_iff by (metis option.inject)

lemma claim_unique:
  "keys_ok db \<Longrightarrow> k \<in> set (gd_claims db) \<Longrightarrow> k' \<in> set (gd_claims db) \<Longrightarrow> bc_id k = bc_id k' \<Longrightarrow> k = k'"
  using find_claim_iff by (metis option.inject)

lemma session_okI:
  "sessions_ok db \<Longrightarrow> s \<in> set (gd_sessions db) \<Longrightarrow>
   session_ok s (cartelas_of db (gs_id s)) (claims_of db (gs_id s)) (paid db)"
  by (simp add: sessions_ok_def)

lemma no_rows:
  assumes "keys_ok db" "sid \<notin> gs_id ` set (gd_sessions db)"
  shows "cartelas_of db sid = []" "claims_of db sid = []" "numbers_of db sid = []"
  unfolding cartelas_of_def claims_of_def numbers_of_def filter_empty_conv
  using assms(2) keys_okD(6,7,8) [OF assms(1)] by (blast intro: rev_image_eqI)+

section \<open>Transactions on one session\<close>

definition touches :: "string \<Rightarrow> game_db \<Rightarrow> game_db \<Rightarrow> bool" where
  "touches sid db db' \<longleftrightarrow>
     map sl_id (gd_slots db') = map sl_id (gd_slots db) \<and>
     map (\<lambda>s. (gs_id s, gs_slotId s)) (gd_sessions db') = map (\<lambda>s. (gs_id s, gs_slotId s)) (gd_sessions db) \<and>
     filter (\<lambda>s. gs_id s \<noteq> sid) (gd_sessions db') = filter (\<lambda>s. gs_id s \<noteq> sid) (gd_sessions db) \<and>
     map (\<lambda>c. (gc_id c, gc_sessionId c)) (gd_cartelas db') = map (\<lambda>c. (gc_id c, gc_sessionId c)) (gd_cartelas db) \<and>
     filter (\<lambda>c. gc_sessionId c \<noteq> sid) (gd_cartelas db') = filter (\<lambda>c. gc_sessionId c \<noteq> sid) (gd_cartelas db) \<and>
     filter (\<lambda>k. bc_sessionId k \<noteq> sid) (gd_claims db') = filter (\<lambda>k. bc_sessionId k \<noteq> sid) (gd_claims db) \<and>
     filter (\<lambda>r. cr_sessionId r \<noteq> sid) (gd_numbers db') = filter (\<lambda>r. cr_sessionId r \<noteq> sid) (gd_numbers db) \<and>
     (\<forall>u cid. cid \<notin> gc_id ` set (cartelas_of db sid) \<longrightarrow> prize_key u cid \<in> paid db' \<longleftrightarrow> prize_key u cid \<in> paid db)"

lemma touches_refl [simp]: "touches sid db db"
  by (simp add: touches_def)

lemma cartelas_of_keys:
  "map (\<lambda>c. (gc_id c, gc_sessionId c)) xs = map (\<lambda>c. (gc_id c, gc_sessionId c)) ys \<Longrightarrow>
   gc_id ` set (filter (\<lambda>c. gc_sessionId c = sid) xs) = gc_id ` set (filter (\<lambda>c. gc_sessionId c = sid) ys)"
proof -
  assume "map (\<lambda>c. (gc_id c, gc_sessionId c)) xs = map (\<lambda>c. (gc_id c, gc_sessionId c)) ys"
  then have "(\<lambda>c. (gc_id c, gc_sessionId c)) ` set xs = (\<lambda>c. (gc_id c, gc_sessionId c)) ` set ys"
    by (metis set_map)
  then have "(i, sid) \<in> (\<lambda>c. (gc_id c, gc_sessionId c)) ` set xs \<longleftrightarrow>
      (i, sid) \<in> (\<lambda>c. (gc_id c, gc_sessionId c)) ` set ys" for i
    by simp
  then show ?thesis by (auto simp: image_iff) (metis+)
qed

lemma touches_trans:
  assumes "touches sid db db'" "touches sid db' db''"
  shows "touches sid db db''"
proof -
  have "gc_id ` set (cartelas_of db' sid) = gc_id ` set (cartelas_of db sid)"
    unfolding cartelas_of_def using assms(1) by (intro cartelas_of_keys) (simp add: touches_def)
  then show ?thesis using assms unfolding touches_def by simp
qed

lemma filter_other_set:
  "filter (\<lambda>x. key x \<noteq> sid) xs = filter (\<lambda>x. key x \<noteq> sid) ys \<Longrightarrow> x \<in> set xs \<Longrightarrow> key x \<noteq> sid \<Longrightarrow> x \<in> set ys"
proof -
  assume a: "filter (\<lambda>x. key x \<noteq> sid) xs = filter (\<lambda>x. key x \<noteq> sid) ys" "x \<in> set xs" "key x \<noteq> sid"
  have "x \<in> set (filter (\<lambda>x. key x \<noteq> sid) xs)" using a(2,3) by simp
  then have "x \<in> set (filter (\<lambda>x. key x \<noteq> sid) ys)" unfolding a(1) .
  then show ?thesis by simp
qed

lemma filter_other_key:
  assumes "filter (\<lambda>x. key x \<noteq> sid) xs = filter (\<lambda>x. key x \<noteq> sid) ys" "sid' \<noteq> sid"
  shows "filter (\<lambda>x. key x = sid') xs = filter (\<lambda>x. key x = sid') ys"
proof -
  have "filter (\<lambda>x. key x = sid') zs = filter (\<lambda>x. key x = sid') (filter (\<lambda>x. key x \<noteq> sid) zs)" for zs
    using assms(2) by (auto intro!: filter_cong)
  then show ?thesis using assms(1) by metis
qed

lemma touches_others:
  assumes "touches sid db db'" "sid' \<noteq> sid"
  shows "cartelas_of db' sid' = cartelas_of db sid'" "claims_of db' sid' = claims_of db sid'"
    "numbers_of db' sid' = numbers_of db sid'"
proof -
  have t: "filter (\<lambda>c. gc_sessionId c \<noteq> sid) (gd_cartelas db') = filter (\<lambda>c. gc_sessionId c \<noteq> sid) (gd_cartelas db)"
    "filter (\<lambda>k. bc_sessionId k \<noteq> sid) (gd_claims db') = filter (\<lambda>k. bc_sessionId k \<noteq> sid) (gd_claims db)"
    "filter (\<lambda>r. cr_sessionId r \<noteq> sid) (gd_numbers db') = filter (\<lambda>r. cr_sessionId r \<noteq> sid) (gd_numbers db)"
    using assms(1) unfolding touches_def by blast+
  show "cartelas_of db' sid' = cartelas_of db sid'" "claims_of db' sid' = claims_of db sid'"
    "numbers_of db' sid' = numbers_of db sid'"
    unfolding cartelas_of_def claims_of_def numbers_of_def
    by (rule filter_other_key [OF t(1) assms(2)] filter_other_key [OF t(2) assms(2)]
        filter_other_key [OF t(3) assms(2)])+
qed

lemma touches_session:
  assumes "touches sid db db'" "s \<in> set (gd_sessions db')" "gs_id s \<noteq> sid"
  shows "s \<in> set (gd_sessions db)"
proof -
  have "filter (\<lambda>s. gs_id s \<noteq> sid) (gd_sessions db') = filter (\<lambda>s. gs_id s \<noteq> sid) (gd_sessions db)"
    using assms(1) by (simp add: touches_def)
  from filter_other_set [of gs_id, OF this assms(2,3)] show ?thesis .
qed

lemma session_ok_paid:
  "(\<forall>c\<in>set cs. \<forall>u. prize_key u (gc_id c) \<in> P' \<longleftrightarrow> prize_key u (gc_id c) \<in> P) \<Longrightarrow>
   session_ok s cs ks P' = session_ok s cs ks P"
proof -
  assume "\<forall>c\<in>set cs. \<forall>u. prize_key u (gc_id c) \<in> P' \<longleftrightarrow> prize_key u (gc_id c) \<in> P"
  then have "(\<forall>c\<in>set cs. cartela_ok (gs_status s) P' c) = (\<forall>c\<in>set cs. cartela_ok (gs_status s) P c)"
    by (simp add: cartela_ok_def)
  then show ?thesis by (simp add: session_ok_def)
qed

text \<open>A change of status the table allows, or none.\<close>

definition moves :: "game_status \<Rightarrow> game_status \<Rightarrow> bool" where
  "moves a b \<longleftrightarrow> a = b \<or> canTransitionGameStatus a b"

text \<open>What a transaction on one session has to show of that session.\<close>

definition local_ok :: "string \<Rightarrow> game_db \<Rightarrow> game_db \<Rightarrow> bool" where
  "local_ok sid db db' \<longleftrightarrow>
     (\<forall>s\<in>set (gd_sessions db'). gs_id s = sid \<longrightarrow>
        session_ok s (cartelas_of db' sid) (claims_of db' sid) (paid db') \<and>
        (live (gs_status s) \<longrightarrow>
           (\<forall>s0\<in>set (gd_sessions db). live (gs_status s0) \<longrightarrow> gs_id s0 = sid)) \<and>
        (\<forall>s0\<in>set (gd_sessions db). gs_id s0 = sid \<longrightarrow> moves (gs_status s0) (gs_status s))) \<and>
     distinct (map bc_id (gd_claims db')) \<and>
     sid \<in> gs_id ` set (gd_sessions db) \<and>
     numbers_ok (numbers_of db' sid) \<and> db_ok (gd_wallet db')"

lemma keys_ok_touches:
  assumes "keys_ok db" "touches sid db db'" "distinct (map bc_id (gd_claims db'))"
    and "sid \<in> gs_id ` set (gd_sessions db)"
  shows "keys_ok db'"
proof -
  have t: "map (\<lambda>s. (gs_id s, gs_slotId s)) (gd_sessions db') = map (\<lambda>s. (gs_id s, gs_slotId s)) (gd_sessions db)"
    "map (\<lambda>c. (gc_id c, gc_sessionId c)) (gd_cartelas db') = map (\<lambda>c. (gc_id c, gc_sessionId c)) (gd_cartelas db)"
    "map sl_id (gd_slots db') = map sl_id (gd_slots db)"
    using assms(2) by (simp_all add: touches_def)
  have ids: "map gs_id (gd_sessions db') = map gs_id (gd_sessions db)"
    "map gs_slotId (gd_sessions db') = map gs_slotId (gd_sessions db)"
    "map gc_id (gd_cartelas db') = map gc_id (gd_cartelas db)"
    "map gc_sessionId (gd_cartelas db') = map gc_sessionId (gd_cartelas db)"
    using map_via [OF t(1), of gs_id fst] map_via [OF t(1), of gs_slotId snd]
      map_via [OF t(2), of gc_id fst] map_via [OF t(2), of gc_sessionId snd]
    by simp_all
  have sets: "gs_id ` set (gd_sessions db') = gs_id ` set (gd_sessions db)"
    "gs_slotId ` set (gd_sessions db') = gs_slotId ` set (gd_sessions db)"
    "gc_id ` set (gd_cartelas db') = gc_id ` set (gd_cartelas db)"
    "gc_sessionId ` set (gd_cartelas db') = gc_sessionId ` set (gd_cartelas db)"
    "sl_id ` set (gd_slots db') = sl_id ` set (gd_slots db)"
    using ids t(3) by (metis set_map)+
  have claims: "bc_sessionId k \<in> gs_id ` set (gd_sessions db)" if "k \<in> set (gd_claims db')" for k
  proof (cases "bc_sessionId k = sid")
    case False
    then have "k \<in> set (gd_claims db)"
      using that assms(2) filter_other_set [of bc_sessionId sid "gd_claims db'" "gd_claims db" k]
      by (simp add: touches_def)
    then show ?thesis using assms(1) by (auto simp: keys_ok_def)
  qed (use assms(4) in simp)
  have numbers: "cr_sessionId r \<in> gs_id ` set (gd_sessions db)" if "r \<in> set (gd_numbers db')" for r
  proof (cases "cr_sessionId r = sid")
    case False
    then have "r \<in> set (gd_numbers db)"
      using that assms(2) filter_other_set [of cr_sessionId sid "gd_numbers db'" "gd_numbers db" r]
      by (simp add: touches_def)
    then show ?thesis using assms(1) by (auto simp: keys_ok_def)
  qed (use assms(4) in simp)
  have prizes: "cid \<in> gc_id ` set (gd_cartelas db)" if "prize_key u cid \<in> paid db'" for u cid
  proof (cases "cid \<in> gc_id ` set (cartelas_of db sid)")
    case True
    then show ?thesis by (auto simp: cartelas_of_def)
  next
    case False
    then have "prize_key u cid \<in> paid db" using that assms(2) by (simp add: touches_def)
    then show ?thesis using assms(1) by (auto simp: keys_ok_def)
  qed
  show ?thesis
    unfolding keys_ok_def ids t(3) sets
    using assms(1,3) claims numbers prizes by (auto simp: keys_ok_def)
qed

lemma sessions_ok_touches:
  assumes "keys_ok db" "sessions_ok db" "touches sid db db'" "local_ok sid db db'"
  shows "sessions_ok db'"
  unfolding sessions_ok_def
proof
  fix s assume s: "s \<in> set (gd_sessions db')"
  show "session_ok s (cartelas_of db' (gs_id s)) (claims_of db' (gs_id s)) (paid db')"
  proof (cases "gs_id s = sid")
    case True
    then show ?thesis using assms(4) s by (auto simp: local_ok_def)
  next
    case False
    have other: "\<forall>c\<in>set (cartelas_of db (gs_id s)). gc_id c \<notin> gc_id ` set (cartelas_of db sid)"
    proof (intro ballI notI)
      fix c assume c: "c \<in> set (cartelas_of db (gs_id s))" "gc_id c \<in> gc_id ` set (cartelas_of db sid)"
      then obtain x where "x \<in> set (cartelas_of db sid)" "gc_id c = gc_id x" by auto
      then have "c = x" using c cartela_unique [OF assms(1), of c x] by (simp add: cartelas_of_def)
      then show False using c(1) \<open>x \<in> _\<close> False by (simp add: cartelas_of_def)
    qed
    have "session_ok s (cartelas_of db (gs_id s)) (claims_of db (gs_id s)) (paid db)"
      using touches_session [OF assms(3) s False] assms(2) by (simp add: sessions_ok_def)
    then show ?thesis
      using touches_others [OF assms(3) False] other assms(3)
      by (simp add: touches_def session_ok_paid [of "cartelas_of db (gs_id s)" "paid db'" "paid db"])
  qed
qed

lemma one_live_touches:
  assumes "one_live db" "touches sid db db'" "local_ok sid db db'"
  shows "one_live db'"
  unfolding one_live_def
proof (intro ballI impI)
  fix s s' assume s: "s \<in> set (gd_sessions db')" "s' \<in> set (gd_sessions db')"
    and lv: "live (gs_status s)" "live (gs_status s')"
  have old: "x \<in> set (gd_sessions db)" if "x \<in> set (gd_sessions db')" "gs_id x \<noteq> sid" for x
    using touches_session [OF assms(2) that] .
  show "gs_id s = gs_id s'"
    using assms(1,3) s lv old unfolding one_live_def local_ok_def by metis
qed

lemma game_ok_touches:
  assumes "game_ok db" "touches sid db db'" "local_ok sid db db'"
  shows "game_ok db'"
proof -
  have "numbers_ok (numbers_of db' sid')" for sid'
    using assms touches_others [OF assms(2), of sid'] by (cases "sid' = sid") (auto simp: game_ok_def local_ok_def)
  moreover have "keys_ok db'"
    using assms by (intro keys_ok_touches [OF _ assms(2)]) (auto simp: game_ok_def local_ok_def)
  moreover have "sessions_ok db'"
    using assms by (intro sessions_ok_touches [OF _ _ assms(2,3)]) (auto simp: game_ok_def)
  moreover have "one_live db'"
    using assms by (intro one_live_touches [OF _ assms(2,3)]) (auto simp: game_ok_def)
  ultimately show ?thesis using assms(3) by (simp add: game_ok_def local_ok_def)
qed

section \<open>Every session advances\<close>

definition advances :: "game_db \<Rightarrow> game_db \<Rightarrow> bool" where
  "advances db db' \<longleftrightarrow>
     list_all2 (\<lambda>s s'. gs_id s' = gs_id s \<and> moves (gs_status s) (gs_status s'))
       (gd_sessions db) (take (length (gd_sessions db)) (gd_sessions db')) \<and>
     (\<forall>s\<in>set (drop (length (gd_sessions db)) (gd_sessions db')). gs_status s = READY \<or> gs_status s = PLAYING)"

lemma moves_refl [simp]: "moves a a"
  by (simp add: moves_def)

lemma advances_refl [simp]: "advances db db"
  by (simp add: advances_def list.rel_refl)

lemma advances_touches:
  assumes "keys_ok db" "touches sid db db'" "local_ok sid db db'"
  shows "advances db db'"
proof -
  have t: "map (\<lambda>s. (gs_id s, gs_slotId s)) (gd_sessions db') = map (\<lambda>s. (gs_id s, gs_slotId s)) (gd_sessions db)"
    using assms(2) by (simp add: touches_def)
  have ids: "map gs_id (gd_sessions db') = map gs_id (gd_sessions db)"
    using map_via [OF t, of gs_id fst] by simp
  then have len: "length (gd_sessions db') = length (gd_sessions db)"
    by (metis length_map)
  have step: "gs_id (gd_sessions db' ! i) = gs_id (gd_sessions db ! i) \<and>
      moves (gs_status (gd_sessions db ! i)) (gs_status (gd_sessions db' ! i))"
    if i: "i < length (gd_sessions db)" for i
  proof -
    have id: "gs_id (gd_sessions db' ! i) = gs_id (gd_sessions db ! i)"
      using i ids len by (metis nth_map)
    have mem: "gd_sessions db' ! i \<in> set (gd_sessions db')" "gd_sessions db ! i \<in> set (gd_sessions db)"
      using i len by simp_all
    show ?thesis
    proof (cases "gs_id (gd_sessions db' ! i) = sid")
      case True
      then show ?thesis using assms(3) mem id by (simp add: local_ok_def)
    next
      case False
      then have "gd_sessions db' ! i = gd_sessions db ! i"
        using session_unique [OF assms(1) touches_session [OF assms(2) mem(1)] mem(2)] id by simp
      then show ?thesis by simp
    qed
  qed
  then have "list_all2 (\<lambda>s s'. gs_id s' = gs_id s \<and> moves (gs_status s) (gs_status s'))
      (gd_sessions db) (gd_sessions db')"
    using len by (simp add: list_all2_conv_all_nth)
  then show ?thesis using len by (simp add: advances_def)
qed

section \<open>Changes outside a game: the queue and the next registration\<close>

text \<open>
  The row of a session outside a game may only lose its countdown or get one, or be retired while it
  is \<open>READY\<close>; the columns that matter to the invariant stay.
\<close>

definition quiet :: "session_row \<Rightarrow> session_row \<Rightarrow> bool" where
  "quiet s s' \<longleftrightarrow>
     gs_id s' = gs_id s \<and> gs_slotId s' = gs_slotId s \<and> gs_winnerCartelaId s' = gs_winnerCartelaId s \<and>
     gs_prizeFinalizedAt s' = gs_prizeFinalizedAt s \<and>
     gs_winnerWindowEndsAt s' = gs_winnerWindowEndsAt s \<and>
     (gs_status s' = gs_status s \<or> gs_status s = READY \<and> gs_status s' = CANCELLED)"

definition fresh_session :: "game_db \<Rightarrow> string \<Rightarrow> session_row \<Rightarrow> bool" where
  "fresh_session db newId s \<longleftrightarrow>
     gs_id s = newId \<and> gs_slotId s \<in> sl_id ` set (gd_slots db) \<and> gs_winnerCartelaId s = None \<and>
     gs_prizeFinalizedAt s = None \<and>
     (gs_status s = READY \<or>
      gs_status s = PLAYING \<and> (\<forall>x\<in>set (gd_sessions db). \<not> live (gs_status x)))"

definition opens :: "string \<Rightarrow> game_db \<Rightarrow> game_db \<Rightarrow> bool" where
  "opens newId db db' \<longleftrightarrow>
     (\<exists>slots old new. db' = db\<lparr>gd_slots := slots, gd_sessions := old @ new\<rparr> \<and>
        map sl_id slots = map sl_id (gd_slots db) \<and> list_all2 quiet (gd_sessions db) old \<and>
        (new = [] \<or> (\<exists>s. new = [s] \<and> fresh_session db newId s)))"

lemma quiet_refl [simp]: "quiet s s"
  by (simp add: quiet_def)

lemma quiet_trans: "quiet s s' \<Longrightarrow> quiet s' s'' \<Longrightarrow> quiet s s''"
  by (auto simp: quiet_def)

lemma quiet_moves: "quiet s s' \<Longrightarrow> moves (gs_status s) (gs_status s')"
  by (auto simp: quiet_def moves_def canTransitionGameStatus_def)

lemma moves_quiet: "moves a (gs_status s) \<Longrightarrow> quiet s s' \<Longrightarrow> moves a (gs_status s')"
  by (cases a) (auto simp: quiet_def moves_def canTransitionGameStatus_def)

lemma quiet_live: "quiet s s' \<Longrightarrow> live (gs_status s') = live (gs_status s)"
  by (auto simp: quiet_def live_def)

lemma pending_ok_retired: "pending_ok READY k c \<Longrightarrow> pending_ok CANCELLED k c"
  by (auto simp: pending_ok_def)

lemma cartela_ok_retired: "cartela_ok READY P c \<Longrightarrow> cartela_ok CANCELLED P c"
  by (auto simp: cartela_ok_def)

lemma session_ok_quiet: "session_ok s cs ks P \<Longrightarrow> quiet s s' \<Longrightarrow> session_ok s' cs ks P"
proof (cases "gs_status s' = gs_status s")
  case False
  assume a: "session_ok s cs ks P" "quiet s s'"
  then have st: "gs_status s = READY" "gs_status s' = CANCELLED" using False by (auto simp: quiet_def)
  have "\<forall>c\<in>set cs. cartela_ok CANCELLED P c"
    using a(1) st cartela_ok_retired by (simp add: session_ok_def)
  moreover have "\<forall>k\<in>set ks. \<exists>c\<in>set cs. pending_ok CANCELLED k c"
    using a(1) st pending_ok_retired unfolding session_ok_def by fastforce
  ultimately show ?thesis using a st by (simp add: session_ok_def quiet_def)
qed (simp add: session_ok_def quiet_def)

lemma opens_refl [simp]: "opens newId db db"
  unfolding opens_def
  by (intro exI [of _ "gd_slots db"] exI [of _ "gd_sessions db"] exI [of _ "[]"])
    (simp add: list.rel_refl)

text \<open>A change of slots, or a quiet change of sessions, before anything is opened.\<close>

lemma opens_trans:
  assumes "opens newId db db1" "length (gd_sessions db1) = length (gd_sessions db)" "opens newId db1 db2"
  shows "opens newId db db2"
proof -
  obtain S1 old1 new1 where 1: "db1 = db\<lparr>gd_slots := S1, gd_sessions := old1 @ new1\<rparr>"
    "map sl_id S1 = map sl_id (gd_slots db)" "list_all2 quiet (gd_sessions db) old1"
    using assms(1) unfolding opens_def by blast
  have new1: "new1 = []"
    using 1 assms(2) list_all2_lengthD [OF 1(3)] by simp
  obtain S2 old2 new2 where 2: "db2 = db1\<lparr>gd_slots := S2, gd_sessions := old2 @ new2\<rparr>"
    "map sl_id S2 = map sl_id (gd_slots db1)" "list_all2 quiet (gd_sessions db1) old2"
    "new2 = [] \<or> (\<exists>s. new2 = [s] \<and> fresh_session db1 newId s)"
    using assms(3) unfolding opens_def by blast
  have slots: "sl_id ` set S1 = sl_id ` set (gd_slots db)"
    using 1(2) by (metis set_map)
  have lives: "(\<forall>x\<in>set old1. \<not> live (gs_status x)) \<Longrightarrow> (\<forall>x\<in>set (gd_sessions db). \<not> live (gs_status x))"
    using 1(3) quiet_live by (fastforce simp: list_all2_conv_all_nth in_set_conv_nth)
  have "list_all2 quiet (gd_sessions db) old2"
    using list_all2_trans [OF quiet_trans 1(3)] 2(3) 1(1) new1 by simp
  moreover have "fresh_session db newId s" if "fresh_session db1 newId s" for s
    using that lives slots 1(1) new1 by (auto simp: fresh_session_def)
  ultimately show ?thesis
    unfolding opens_def using 1 2 new1
    by (intro exI [of _ S2] exI [of _ old2] exI [of _ new2]) auto
qed

lemma opens_slots:
  "map sl_id slots = map sl_id (gd_slots db) \<Longrightarrow> opens newId db (db\<lparr>gd_slots := slots\<rparr>)"
  unfolding opens_def
  by (intro exI [of _ slots] exI [of _ "gd_sessions db"] exI [of _ "[]"]) (simp add: list.rel_refl)

lemma opens_sessions:
  "(\<And>s. s \<in> set (gd_sessions db) \<Longrightarrow> P s \<Longrightarrow> quiet s ((f s)\<lparr>gs_updatedAt := now\<rparr>)) \<Longrightarrow>
   opens newId db (snd (update_sessions now P f db))"
  unfolding opens_def update_sessions_def update_where_def
  by (intro exI [of _ "gd_slots db"] exI [of _ "map (\<lambda>s. if P s then (f s)\<lparr>gs_updatedAt := now\<rparr> else s) (gd_sessions db)"] exI [of _ "[]"])
    (auto simp: list_all2_conv_all_nth)

lemma opens_create:
  "fresh_session db newId s \<Longrightarrow> opens newId db (db\<lparr>gd_sessions := gd_sessions db @ [s]\<rparr>)"
  unfolding opens_def
  by (intro exI [of _ "gd_slots db"] exI [of _ "gd_sessions db"] exI [of _ "[s]"])
    (simp add: list.rel_refl)

lemma opens_advances:
  assumes "opens newId db db'"
  shows "advances db db'"
proof -
  obtain slots old new where 1: "db' = db\<lparr>gd_slots := slots, gd_sessions := old @ new\<rparr>"
    "list_all2 quiet (gd_sessions db) old" "new = [] \<or> (\<exists>s. new = [s] \<and> fresh_session db newId s)"
    using assms unfolding opens_def by blast
  have "list_all2 (\<lambda>s s'. gs_id s' = gs_id s \<and> moves (gs_status s) (gs_status s')) (gd_sessions db) old"
    using 1(2) by (rule list_all2_mono) (auto simp: quiet_moves, simp add: quiet_def)
  then show ?thesis
    using 1 list_all2_lengthD [OF 1(2)] by (auto simp: advances_def fresh_session_def)
qed

lemma advances_opens:
  assumes "advances db db1" "length (gd_sessions db1) = length (gd_sessions db)" "opens newId db1 db2"
  shows "advances db db2"
proof -
  let ?R = "\<lambda>s s'. gs_id s' = gs_id s \<and> moves (gs_status s) (gs_status s')"
  obtain slots old new where 2: "db2 = db1\<lparr>gd_slots := slots, gd_sessions := old @ new\<rparr>"
    "list_all2 quiet (gd_sessions db1) old" "new = [] \<or> (\<exists>s. new = [s] \<and> fresh_session db1 newId s)"
    using assms(3) unfolding opens_def by blast
  have "list_all2 ?R (gd_sessions db) (gd_sessions db1)"
    using assms(1,2) by (simp add: advances_def)
  then have "list_all2 ?R (gd_sessions db) old"
    by (rule list_all2_trans [rotated, OF _ 2(2)]) (auto simp: moves_quiet, simp add: quiet_def)
  then show ?thesis
    using 2 assms(2) list_all2_lengthD [OF 2(2)] by (auto simp: advances_def fresh_session_def)
qed

lemma game_ok_opens:
  assumes "game_ok db" "opens newId db db'" "newId \<notin> gs_id ` set (gd_sessions db)"
  shows "game_ok db'"
proof -
  obtain slots old new where o: "db' = db\<lparr>gd_slots := slots, gd_sessions := old @ new\<rparr>"
    "map sl_id slots = map sl_id (gd_slots db)" "list_all2 quiet (gd_sessions db) old"
    "new = [] \<or> (\<exists>s. new = [s] \<and> fresh_session db newId s)"
    using assms(2) unfolding opens_def by blast
  have ids: "map gs_id old = map gs_id (gd_sessions db)" "map gs_slotId old = map gs_slotId (gd_sessions db)"
    using o(3) by (auto simp: list_all2_conv_all_nth quiet_def intro!: nth_equalityI)
  have slots: "sl_id ` set slots = sl_id ` set (gd_slots db)" "gs_id ` set old = gs_id ` set (gd_sessions db)"
    "gs_slotId ` set old = gs_slotId ` set (gd_sessions db)"
    using o(2) ids by (metis set_map)+
  have keys: "keys_ok db" using assms(1) by (simp add: game_ok_def)
  have "gs_id ` set new \<inter> gs_id ` set (gd_sessions db) = {}"
    using o(4) assms(3) by (elim disjE exE) (simp_all add: fresh_session_def)
  moreover have "distinct (map gs_id new)" using o(4) by auto
  moreover have "distinct (map gs_id old)" using keys ids(1) by (simp add: keys_ok_def)
  ultimately have d: "distinct (map gs_id (old @ new))"
    unfolding map_append distinct_append set_map slots(2) by blast
  have sl: "gs_slotId ` set (old @ new) \<subseteq> sl_id ` set slots"
  proof -
    have "gs_slotId ` set new \<subseteq> sl_id ` set (gd_slots db)"
      using o(4) by (auto simp: fresh_session_def)
    moreover have "gs_slotId ` set old \<subseteq> sl_id ` set (gd_slots db)"
      unfolding slots(3) using keys by (simp add: keys_ok_def)
    ultimately show ?thesis unfolding slots(1) set_append image_Un by blast
  qed
  have up: "gs_id ` set (gd_sessions db) \<subseteq> gs_id ` set (old @ new)"
    unfolding set_append image_Un slots(2) by blast
  have sel: "gd_slots db' = slots" "gd_sessions db' = old @ new" "gd_cartelas db' = gd_cartelas db"
    "gd_numbers db' = gd_numbers db" "gd_claims db' = gd_claims db" "paid db' = paid db"
    by (simp_all add: o(1) paid_def)
  note k = keys_okD [OF keys]
  have keys': "keys_ok db'"
    unfolding keys_ok_def sel
    by (intro conjI d sl k(3,4,9) subset_trans [OF k(6) up] subset_trans [OF k(7) up]
        subset_trans [OF k(8) up]) (simp add: o(2) k(1))
  have before: "\<exists>s0\<in>set (gd_sessions db). quiet s0 s" if "s \<in> set old" for s
    using o(3) that by (metis in_set_conv_nth list_all2_conv_all_nth)
  have views: "cartelas_of db' sid = cartelas_of db sid" "claims_of db' sid = claims_of db sid"
    "numbers_of db' sid = numbers_of db sid" "paid db' = paid db" for sid
    by (simp_all add: o(1) cartelas_of_def claims_of_def numbers_of_def paid_def)
  have "session_ok s (cartelas_of db (gs_id s)) (claims_of db (gs_id s)) (paid db)" if s: "s \<in> set (old @ new)" for s
  proof (cases "s \<in> set old")
    case True
    then obtain s0 where "s0 \<in> set (gd_sessions db)" "quiet s0 s" using before by blast
    then show ?thesis
      using session_ok_quiet [of s0 _ _ _ s] session_okI [of db s0] assms(1) by (simp add: game_ok_def quiet_def)
  next
    case False
    then have f: "fresh_session db newId s" using s o(4) by auto
    then have "cartelas_of db (gs_id s) = []" "claims_of db (gs_id s) = []"
      using no_rows [OF keys assms(3)] by (simp_all add: fresh_session_def)
    then show ?thesis using f by (auto simp: session_ok_def fresh_session_def)
  qed
  then have "sessions_ok db'"
    unfolding sessions_ok_def views by (simp add: o(1))
  moreover have "one_live db'"
    unfolding one_live_def
  proof (intro ballI impI)
    fix s s' assume s: "s \<in> set (gd_sessions db')" "s' \<in> set (gd_sessions db')"
      and lv: "live (gs_status s)" "live (gs_status s')"
    have "(\<exists>s0\<in>set (gd_sessions db). live (gs_status s0) \<and> gs_id s0 = gs_id x) \<or>
        (\<forall>s0\<in>set (gd_sessions db). \<not> live (gs_status s0)) \<and> gs_id x = newId"
      if x: "x \<in> set (gd_sessions db')" "live (gs_status x)" for x
    proof (cases "x \<in> set old")
      case True
      then obtain s0 where s0: "s0 \<in> set (gd_sessions db)" "quiet s0 x" using before by blast
      have "gs_id s0 = gs_id x" using s0(2) by (simp add: quiet_def)
      then show ?thesis using s0(1) quiet_live [OF s0(2)] x(2) by blast
    next
      case False
      then have "fresh_session db newId x" using x(1) o(4) by (auto simp: o(1))
      then show ?thesis using x(2) by (auto simp: fresh_session_def live_def)
    qed
    from this [OF s(1) lv(1)] this [OF s(2) lv(2)] show "gs_id s = gs_id s'"
      using assms(1) unfolding game_ok_def one_live_def by metis
  qed
  ultimately show ?thesis
    using assms(1) keys' unfolding game_ok_def views by (simp add: o(1))
qed

end
