(* ===== verification/GameSteps.thy ===== *)
theory GameSteps
  imports GameInvariant
begin

text \<open>
  Every transaction of the game keeps the invariant and advances every session along the table of
  status rules: one lemma for each transaction, by what it does to its session.
\<close>

section \<open>Frames\<close>

lemma update_sessions_sel [table_simps]:
  "gd_slots (snd (update_sessions now P f db)) = gd_slots db"
  "gd_cartelas (snd (update_sessions now P f db)) = gd_cartelas db"
  "gd_numbers (snd (update_sessions now P f db)) = gd_numbers db"
  "gd_claims (snd (update_sessions now P f db)) = gd_claims db"
  "gd_wallet (snd (update_sessions now P f db)) = gd_wallet db"
  by (simp_all add: update_sessions_def)

lemma update_cartelas_sel [table_simps]:
  "gd_slots (snd (update_cartelas P f db)) = gd_slots db"
  "gd_sessions (snd (update_cartelas P f db)) = gd_sessions db"
  "gd_numbers (snd (update_cartelas P f db)) = gd_numbers db"
  "gd_claims (snd (update_cartelas P f db)) = gd_claims db"
  "gd_wallet (snd (update_cartelas P f db)) = gd_wallet db"
  by (simp_all add: update_cartelas_def)

lemma update_claims_sel [table_simps]:
  "gd_slots (snd (update_claims P f db)) = gd_slots db"
  "gd_sessions (snd (update_claims P f db)) = gd_sessions db"
  "gd_cartelas (snd (update_claims P f db)) = gd_cartelas db"
  "gd_numbers (snd (update_claims P f db)) = gd_numbers db"
  "gd_wallet (snd (update_claims P f db)) = gd_wallet db"
  by (simp_all add: update_claims_def)

lemma create_claim_sel [table_simps]:
  "gd_slots (create_claim k db) = gd_slots db" "gd_sessions (create_claim k db) = gd_sessions db"
  "gd_cartelas (create_claim k db) = gd_cartelas db" "gd_numbers (create_claim k db) = gd_numbers db"
  "gd_wallet (create_claim k db) = gd_wallet db" "gd_claims (create_claim k db) = gd_claims db @ [k]"
  by (simp_all add: create_claim_def)

lemma views_same [table_simps]:
  "cartelas_of (snd (update_sessions now P f db)) sid = cartelas_of db sid"
  "claims_of (snd (update_sessions now P f db)) sid = claims_of db sid"
  "numbers_of (snd (update_sessions now P f db)) sid = numbers_of db sid"
  "paid (snd (update_sessions now P f db)) = paid db"
  "claims_of (snd (update_cartelas Q g db)) sid = claims_of db sid"
  "numbers_of (snd (update_cartelas Q g db)) sid = numbers_of db sid"
  "paid (snd (update_cartelas Q g db)) = paid db"
  "cartelas_of (snd (update_claims R h db)) sid = cartelas_of db sid"
  "numbers_of (snd (update_claims R h db)) sid = numbers_of db sid"
  "paid (snd (update_claims R h db)) = paid db"
  "cartelas_of (create_claim k db) sid = cartelas_of db sid"
  "numbers_of (create_claim k db) sid = numbers_of db sid"
  "paid (create_claim k db) = paid db"
  by (simp_all add: table_simps cartelas_of_def claims_of_def numbers_of_def paid_def)

lemma claims_of_create [table_simps]:
  "claims_of (create_claim k db) sid = claims_of db sid @ (if bc_sessionId k = sid then [k] else [])"
  by (simp add: claims_of_def table_simps)

lemma cartelas_of_update:
  "(\<And>c. P c \<Longrightarrow> gc_sessionId (f c) = gc_sessionId c) \<Longrightarrow>
   cartelas_of (snd (update_cartelas P f db)) sid = update_where P f (cartelas_of db sid)"
  by (simp add: cartelas_of_def update_cartelas_def filter_update_where)

lemma claims_of_update:
  "(\<And>k. P k \<Longrightarrow> bc_sessionId (f k) = bc_sessionId k) \<Longrightarrow>
   claims_of (snd (update_claims P f db)) sid = update_where P f (claims_of db sid)"
  by (simp add: claims_of_def update_claims_def filter_update_where)

lemma touches_update_sessions:
  assumes "\<And>s. P s \<Longrightarrow> gs_id s = sid" "\<And>s. gs_id (f s) = gs_id s" "\<And>s. gs_slotId (f s) = gs_slotId s"
  shows "touches sid db (snd (update_sessions now P f db))"
proof -
  have "filter (\<lambda>s. gs_id s \<noteq> sid) (update_where P (\<lambda>s. (f s)\<lparr>gs_updatedAt := now\<rparr>) (gd_sessions db)) =
      filter (\<lambda>s. gs_id s \<noteq> sid) (gd_sessions db)"
    by (rule filter_update_other) (use assms in auto)
  then show ?thesis
    using assms by (simp add: touches_def update_sessions_def map_update_where paid_def)
qed

lemma touches_update_cartelas:
  assumes "\<And>c. c \<in> set (gd_cartelas db) \<Longrightarrow> P c \<Longrightarrow> gc_sessionId c = sid"
    and "\<And>c. gc_id (f c) = gc_id c" "\<And>c. gc_sessionId (f c) = gc_sessionId c"
  shows "touches sid db (snd (update_cartelas P f db))"
proof -
  have "filter (\<lambda>c. gc_sessionId c \<noteq> sid) (update_where P f (gd_cartelas db)) =
      filter (\<lambda>c. gc_sessionId c \<noteq> sid) (gd_cartelas db)"
    by (rule filter_update_other) (use assms in auto)
  then show ?thesis
    using assms by (simp add: touches_def update_cartelas_def map_update_where paid_def)
qed

lemma touches_update_claims:
  assumes "\<And>k. k \<in> set (gd_claims db) \<Longrightarrow> P k \<Longrightarrow> bc_sessionId k = sid"
    and "\<And>k. bc_sessionId (f k) = bc_sessionId k"
  shows "touches sid db (snd (update_claims P f db))"
proof -
  have "filter (\<lambda>k. bc_sessionId k \<noteq> sid) (update_where P f (gd_claims db)) =
      filter (\<lambda>k. bc_sessionId k \<noteq> sid) (gd_claims db)"
    by (rule filter_update_other) (use assms in auto)
  then show ?thesis by (simp add: touches_def update_claims_def paid_def)
qed

lemma touches_create_claim: "bc_sessionId k = sid \<Longrightarrow> touches sid db (create_claim k db)"
  by (simp add: touches_def table_simps)

lemma touches_slots: "map sl_id slots = map sl_id (gd_slots db) \<Longrightarrow> touches sid db (db\<lparr>gd_slots := slots\<rparr>)"
  by (simp add: touches_def paid_def)

lemma touches_wallet:
  "(\<And>u cid. cid \<notin> gc_id ` set (cartelas_of db sid) \<Longrightarrow>
      prize_key u cid \<in> posted w \<longleftrightarrow> prize_key u cid \<in> posted (gd_wallet db)) \<Longrightarrow>
   touches sid db (db\<lparr>gd_wallet := w\<rparr>)"
  by (simp add: touches_def paid_def)

text \<open>The row of the session after an update.\<close>

lemma in_update_sessions:
  "s \<in> set (gd_sessions (snd (update_sessions now P f db))) \<longleftrightarrow>
   (\<exists>x\<in>set (gd_sessions db). s = (if P x then (f x)\<lparr>gs_updatedAt := now\<rparr> else x))"
  by (simp add: update_sessions_def in_update_where)

lemma updated_session:
  assumes "s0 \<in> set (gd_sessions db)" "P s0"
  shows "(f s0)\<lparr>gs_updatedAt := now\<rparr> \<in> set (gd_sessions (snd (update_sessions now P f db)))"
  unfolding in_update_sessions by (intro bexI [of _ s0]) (use assms in simp_all)

lemma update_session_Inr:
  "update_session now ident f db = Inr db' \<longleftrightarrow>
   find_session db ident \<noteq> None \<and> db' = snd (update_sessions now (\<lambda>s. gs_id s = ident) f db)"
  by (auto simp: update_session_def)

lemma update_claim_Inr:
  "update_claim ident f db = Inr db' \<longleftrightarrow>
   find_claim db ident \<noteq> None \<and> db' = snd (update_claims (\<lambda>k. bc_id k = ident) f db)"
  by (auto simp: update_claim_def)

lemma session_after:
  assumes "keys_ok db" "s0 \<in> set (gd_sessions db)" "\<And>s. gs_id (f s) = gs_id s"
    and "s \<in> set (gd_sessions (snd (update_sessions now P f db)))" "gs_id s = gs_id s0"
  shows "s = (if P s0 then (f s0)\<lparr>gs_updatedAt := now\<rparr> else s0)"
proof -
  obtain x where x: "x \<in> set (gd_sessions db)" "s = (if P x then (f x)\<lparr>gs_updatedAt := now\<rparr> else x)"
    using assms(4) unfolding in_update_sessions by blast
  then have "gs_id x = gs_id s0" using assms(3,5) by (auto split: if_splits)
  then show ?thesis using session_unique [OF assms(1) x(1) assms(2)] x(2) by simp
qed

lemma count_matches:
  "fst (update_sessions now P f db) = Suc 0 \<Longrightarrow> \<exists>s\<in>set (gd_sessions db). P s"
  "fst (update_cartelas Q g db) = Suc 0 \<Longrightarrow> \<exists>c\<in>set (gd_cartelas db). Q c"
  using count_where_pos [of P "gd_sessions db"] count_where_pos [of Q "gd_cartelas db"]
  by (simp_all add: update_sessions_def update_cartelas_def)

text \<open>A transaction on one session, and what it may open afterwards.\<close>

lemma transaction_ok:
  assumes "game_ok db" "touches sid db db1" "local_ok sid db db1" "opens newId db1 db'"
    and "newId \<notin> gs_id ` set (gd_sessions db)"
  shows "game_ok db' \<and> advances db db'"
proof -
  have ids: "map (\<lambda>s. (gs_id s, gs_slotId s)) (gd_sessions db1) = map (\<lambda>s. (gs_id s, gs_slotId s)) (gd_sessions db)"
    using assms(2) by (simp add: touches_def)
  have ids': "map gs_id (gd_sessions db1) = map gs_id (gd_sessions db)"
    using map_via [OF ids, of gs_id fst] by simp
  have "newId \<notin> gs_id ` set (gd_sessions db1)"
    using assms(5) ids' by (metis set_map)
  moreover have "length (gd_sessions db1) = length (gd_sessions db)"
    using ids' by (metis length_map)
  ultimately show ?thesis
    using game_ok_opens [OF game_ok_touches [OF assms(1-3)] assms(4)]
      advances_opens [OF advances_touches [OF _ assms(2,3)] _ assms(4)] assms(1)
    by (simp add: game_ok_def)
qed

section \<open>The queue and the opener\<close>

lemma update_slot_opens:
  assumes "update_slot ident f db = Inr db'" "\<And>s. sl_id (f s) = sl_id s"
  shows "opens newId db db' \<and> gd_sessions db' = gd_sessions db"
  using assms by (auto simp: update_slot_def map_update_where intro!: opens_slots split: if_splits)

lemma restoreSlot_opens:
  "restoreSlotAfterSession slotId db = Inr (r, db') \<Longrightarrow> opens newId db db' \<and> gd_sessions db' = gd_sessions db"
  using update_slot_opens
  by (fastforce simp: restoreSlotAfterSession_def moveSlotToBack_def bind_result_eq_Inr_iff split: if_splits)

lemma length_update_sessions [simp]:
  "length (gd_sessions (snd (update_sessions now P f db))) = length (gd_sessions db)"
  by (simp add: update_sessions_def)

lemma update_session_opens:
  assumes "update_session now ident f db = Inr db'"
    and "\<And>s. s \<in> set (gd_sessions db) \<Longrightarrow> gs_id s = ident \<Longrightarrow> quiet s ((f s)\<lparr>gs_updatedAt := now\<rparr>)"
  shows "opens newId db db' \<and> length (gd_sessions db') = length (gd_sessions db)"
  using assms opens_sessions [of db "\<lambda>s. gs_id s = ident" now f newId]
  by (auto simp: update_session_def split: if_splits)

lemma softRetire_opens:
  "softRetireEmptyNonHeadReadySessions now ss db = Inr db' \<Longrightarrow>
   \<forall>s\<in>set ss. \<forall>x\<in>set (gd_sessions db). gs_id x = gs_id s \<longrightarrow> gs_status x = READY \<or> gs_status x = CANCELLED \<Longrightarrow>
   opens newId db db' \<and> length (gd_sessions db') = length (gd_sessions db)"
proof (induction now ss db rule: softRetireEmptyNonHeadReadySessions.induct)
  case (2 now s ss db)
  show ?case
  proof (cases "active_cartelas db (gs_id s) \<noteq> []")
    case True
    then show ?thesis using 2 by simp
  next
    case False
    let ?f = "\<lambda>s. s\<lparr>gs_status := CANCELLED, gs_cancelledReason := Some ''not_queue_head'', gs_scheduledStartAt := None\<rparr>"
    obtain db1 where 1: "update_session now (gs_id s) ?f db = Inr db1"
      "softRetireEmptyNonHeadReadySessions now ss db1 = Inr db'"
      using 2(3) False by (auto simp: bind_result_eq_Inr_iff)
    have o1: "opens newId db db1 \<and> length (gd_sessions db1) = length (gd_sessions db)"
      using 2(4) by (intro update_session_opens [OF 1(1)]) (auto simp: quiet_def)
    have "\<forall>s\<in>set ss. \<forall>x\<in>set (gd_sessions db1). gs_id x = gs_id s \<longrightarrow> gs_status x = READY \<or> gs_status x = CANCELLED"
    proof (intro ballI impI)
      fix t x assume t: "t \<in> set ss" "x \<in> set (gd_sessions db1)" "gs_id x = gs_id t"
      have "\<exists>y\<in>set (gd_sessions db). x = (if gs_id y = gs_id s then (?f y)\<lparr>gs_updatedAt := now\<rparr> else y)"
        using 1(1) t(2) unfolding update_session_Inr by (elim conjE) (simp only: in_update_sessions)
      then obtain y where y: "y \<in> set (gd_sessions db)"
        "x = (if gs_id y = gs_id s then (?f y)\<lparr>gs_updatedAt := now\<rparr> else y)" by blast
      then have "gs_id x = gs_id y \<and> (gs_status x = gs_status y \<or> gs_status x = CANCELLED)" by simp
      with y(1) show "gs_status x = READY \<or> gs_status x = CANCELLED" using 2(4) t(1,3) by fastforce
    qed
    then have "opens newId db1 db' \<and> length (gd_sessions db') = length (gd_sessions db1)"
      using 2(2) [OF False 1(2)] by simp
    then show ?thesis using o1 opens_trans by auto
  qed
qed simp

lemma activate_head_opens:
  assumes "activate_head cfg now active start headReady rest db = Inr (r, db')"
    and "\<forall>s\<in>set rest. \<forall>x\<in>set (gd_sessions db). gs_id x = gs_id s \<longrightarrow> gs_status x = READY \<or> gs_status x = CANCELLED"
  shows "opens newId db db'"
proof -
  obtain db1 where 1: "softRetireEmptyNonHeadReadySessions now rest db = Inr db1"
    using assms(1) by (auto simp: activate_head_def bind_result_eq_Inr_iff)
  have o1: "opens newId db db1" "length (gd_sessions db1) = length (gd_sessions db)"
    using softRetire_opens [OF 1 assms(2)] by simp_all
  show ?thesis
  proof (cases "db' = db1")
    case True
    then show ?thesis using o1 by simp
  next
    case False
    then obtain db2 where 2: "update_slot (gs_slotId headReady) (set_durations cfg) db1 = Inr db2"
      "update_session now (gs_id headReady) (\<lambda>s. s\<lparr>gs_scheduledStartAt := start\<rparr>) db2 = Inr db'"
      using assms(1) 1 by (auto simp: activate_head_def bind_result_eq_Inr_iff split: if_splits)
    have "opens newId db1 db2 \<and> gd_sessions db2 = gd_sessions db1"
      by (rule update_slot_opens [OF 2(1)]) (simp add: set_durations_def)
    moreover have "opens newId db2 db'"
      using update_session_opens [OF 2(2), of newId] by (simp add: quiet_def)
    ultimately show ?thesis using o1 opens_trans by metis
  qed
qed

lemma open_queue_head_opens:
  assumes "open_queue_head cfg now codes behind start db = Inr (r, db')"
  shows "opens (fst codes) db db'"
proof (cases "db' = db")
  case False
  obtain head rest where h: "sort_by (\<lambda>x y. compareSortOrder (sl_sortOrder x) (sl_sortOrder y))
      (filter (\<lambda>s. sl_status s = NEXT) (gd_slots db)) = head # rest"
    using assms False by (cases "sort_by (\<lambda>x y. compareSortOrder (sl_sortOrder x) (sl_sortOrder y))
      (filter (\<lambda>s. sl_status s = NEXT) (gd_slots db))") (auto simp: open_queue_head_def)
  have "head \<in> set (head # rest)" by simp
  then have "head \<in> set (gd_slots db)" unfolding h [symmetric] by simp
  obtain db1 where 1: "update_slot (sl_id head) (set_durations cfg) db = Inr db1"
    "create_session (new_session now codes (sl_id head) (buildSessionMoneyConfig head) READY start) db1 = Inr db'"
    using assms False h by (auto simp: open_queue_head_def bind_result_eq_Inr_iff split: if_splits)
  have o1: "opens (fst codes) db db1 \<and> gd_sessions db1 = gd_sessions db"
    by (rule update_slot_opens [OF 1(1)]) (simp add: set_durations_def)
  have "map sl_id (gd_slots db1) = map sl_id (gd_slots db)"
    using 1(1) by (auto simp: update_slot_def map_update_where set_durations_def split: if_splits)
  then have "sl_id head \<in> sl_id ` set (gd_slots db1)"
    using \<open>head \<in> set (gd_slots db)\<close> by (metis image_eqI set_map)
  then have "fresh_session db1 (fst codes) (new_session now codes (sl_id head) (buildSessionMoneyConfig head) READY start)"
    by (simp add: fresh_session_def new_session_def)
  then have "opens (fst codes) db1 db'"
    using 1(2) opens_create by (auto simp: create_session_def split: if_splits)
  then show ?thesis using o1 opens_trans by metis
qed simp

lemma opener_opens:
  assumes "keys_ok db"
    and "openNextAutoQueueRegistrationInTransaction cfg now lockFree codes options db = Inr (r, db')"
  shows "opens (fst codes) db db'"
proof (cases "standardReadyOrdered db")
  case Nil
  then show ?thesis
    using assms(2) open_queue_head_opens
    by (auto simp: openNextAutoQueueRegistrationInTransaction_def Let_def split: if_splits)
next
  case (Cons headReady rest)
  have "set rest \<subseteq> {s\<in>set (gd_sessions db). gs_status s = READY}"
    using arg_cong [OF Cons, of set] by (auto simp: standardReadyOrdered_def)
  then have "\<forall>s\<in>set rest. \<forall>x\<in>set (gd_sessions db). gs_id x = gs_id s \<longrightarrow> gs_status x = READY \<or> gs_status x = CANCELLED"
    using session_unique [OF assms(1)] by blast
  then show ?thesis
    using assms(2) activate_head_opens Cons
    by (auto simp: openNextAutoQueueRegistrationInTransaction_def Let_def split: if_splits)
qed

section \<open>What one transaction has to show\<close>

lemma quiet_update_ok:
  assumes "game_ok db" "\<And>s. P s \<Longrightarrow> quiet s ((f s)\<lparr>gs_updatedAt := now\<rparr>)"
  shows "game_ok (snd (update_sessions now P f db)) \<and> advances db (snd (update_sessions now P f db))"
proof -
  obtain newId :: string where "newId \<notin> gs_id ` set (gd_sessions db)"
    using ex_new_if_finite [OF infinite_UNIV_listI] by (metis finite_imageI finite_set)
  moreover have "opens newId db (snd (update_sessions now P f db))"
    using assms(2) by (intro opens_sessions)
  ultimately show ?thesis using game_ok_opens [OF assms(1)] opens_advances by blast
qed

lemma local_okI:
  assumes "game_ok db" "s0 \<in> set (gd_sessions db)" "gs_id s0 = sid"
    and "\<And>s. s \<in> set (gd_sessions db1) \<Longrightarrow> gs_id s = sid \<Longrightarrow>
      session_ok s (cartelas_of db1 sid) (claims_of db1 sid) (paid db1) \<and>
      moves (gs_status s0) (gs_status s) \<and>
      (live (gs_status s) \<longrightarrow> live (gs_status s0) \<or> (\<forall>x\<in>set (gd_sessions db). \<not> live (gs_status x)))"
    and "distinct (map bc_id (gd_claims db1))" "numbers_ok (numbers_of db1 sid)" "db_ok (gd_wallet db1)"
  shows "local_ok sid db db1"
  unfolding local_ok_def
proof (intro conjI ballI impI)
  fix s s1 assume s: "s \<in> set (gd_sessions db1)" "gs_id s = sid"
  show "session_ok s (cartelas_of db1 sid) (claims_of db1 sid) (paid db1)"
    using assms(4) [OF s] by blast
  show "gs_id s1 = sid" if "live (gs_status s)" "s1 \<in> set (gd_sessions db)" "live (gs_status s1)"
    using assms(4) [OF s] that assms(1,2,3) unfolding game_ok_def one_live_def by metis
  show "moves (gs_status s1) (gs_status s)" if "s1 \<in> set (gd_sessions db)" "gs_id s1 = sid"
    using assms(4) [OF s] session_unique [OF _ that(1) assms(2)] that(2) assms(1,3) by (simp add: game_ok_def)
qed (use assms in auto)

lemma claim_ids_update: "(\<And>k. bc_id (f k) = bc_id k) \<Longrightarrow>
    map bc_id (gd_claims (snd (update_claims P f db))) = map bc_id (gd_claims db)"
  by (simp add: update_claims_def map_update_where)

text \<open>Claims keep their cartela when cartelas change in place.\<close>

lemma pending_update:
  assumes "\<forall>k\<in>set ks. \<exists>c\<in>set cs. pending_ok st k c"
    and "\<And>c. gc_id (f c) = gc_id c" "\<And>c. gc_userId (f c) = gc_userId c"
    and "\<And>k c. k \<in> set ks \<Longrightarrow> c \<in> set cs \<Longrightarrow> pending_ok st k c \<Longrightarrow> bc_status k = PENDING \<Longrightarrow>
       st' = CHECKING \<and> gc_status (if P c then f c else c) = REGISTERED \<or>
       st' = CANCELLED \<and> gc_status (if P c then f c else c) = CARTELA_CANCELLED"
  shows "\<forall>k\<in>set ks. \<exists>c\<in>set (update_where P f cs). pending_ok st' k c"
proof
  fix k assume k: "k \<in> set ks"
  then obtain c where c: "c \<in> set cs" "pending_ok st k c" using assms(1) by blast
  have "pending_ok st' k (if P c then f c else c)"
    using assms(2-4) k c unfolding pending_ok_def by simp
  moreover have "(if P c then f c else c) \<in> set (update_where P f cs)"
    using c(1) by (auto simp: table_simps)
  ultimately show "\<exists>c\<in>set (update_where P f cs). pending_ok st' k c" by blast
qed

lemma no_pending:
  assumes "session_ok s cs ks P" "gs_status s \<noteq> CHECKING" "gs_status s \<noteq> CANCELLED" "k \<in> set ks"
  shows "bc_status k \<noteq> PENDING"
  using assms unfolding session_ok_def pending_ok_def by metis

lemma pending_none:
  "session_ok s cs ks P \<Longrightarrow> gs_status s \<noteq> CHECKING \<Longrightarrow> gs_status s \<noteq> CANCELLED \<Longrightarrow>
   filter (\<lambda>k. bc_status k = PENDING) ks = []"
  using no_pending by (simp add: filter_empty_conv)

lemma no_winner_yet:
  "session_ok s cs ks P \<Longrightarrow> gs_status s \<noteq> WINNER_WINDOW \<Longrightarrow> gs_status s \<noteq> FINISHED \<Longrightarrow> c \<in> set cs \<Longrightarrow>
   \<not> gc_isWinner c \<and> gc_status c \<noteq> WINNER"
  by (auto simp: session_ok_def cartela_ok_def)

lemma not_paid_yet:
  "session_ok s cs ks P \<Longrightarrow> gs_status s \<noteq> FINISHED \<Longrightarrow> c \<in> set cs \<Longrightarrow> prize_key u (gc_id c) \<notin> P"
  by (auto simp: session_ok_def cartela_ok_def)

section \<open>Numbers\<close>

lemma numbers_ok_snoc:
  assumes "numbers_ok rows" "cn_number r \<notin> set (map cn_number rows)" "1 \<le> cn_number r" "cn_number r \<le> 75"
    and "cn_order r = int (length rows) + 1"
  shows "numbers_ok (rows @ [r])"
proof -
  have "[1..int (length rows) + 1] = [1..int (length rows)] @ [int (length rows) + 1]"
    using upto_rec2 [of 1 "int (length rows) + 1"] by simp
  then show ?thesis using assms by (auto simp: numbers_ok_def add.commute)
qed

lemma insert_by_ordered: "(\<And>y. y \<in> set ys \<Longrightarrow> cmp x y \<le> 0) \<Longrightarrow> insert_by cmp x ys = x # ys"
  by (cases ys) auto

lemma sort_by_ordered: "sorted_wrt (\<lambda>x y. cmp x y \<le> 0) xs \<Longrightarrow> sort_by cmp xs = xs"
  by (induction xs) (simp_all add: sort_by_def insert_by_ordered)

lemma called_rows_eq:
  assumes "numbers_ok (numbers_of db sid)"
  shows "called_rows db sid = numbers_of db sid"
proof -
  have "sorted_wrt (<) (map cn_order (numbers_of db sid))"
    using assms by (simp add: numbers_ok_def)
  then have "sorted_wrt (\<lambda>x y. cn_order x < cn_order y) (numbers_of db sid)"
    by (simp add: sorted_wrt_map)
  then have "sorted_wrt (\<lambda>x y. order_cmp x y \<le> 0) (numbers_of db sid)"
    by (rule sorted_wrt_mono_rel [rotated]) (simp add: order_cmp_def)
  then show ?thesis by (simp add: called_rows_def numbers_of_def sort_by_ordered)
qed

lemma latest_order_eq:
  assumes "numbers_ok (numbers_of db sid)"
  shows "latest_order db sid = int (length (numbers_of db sid))"
proof (cases "numbers_of db sid" rule: rev_cases)
  case (snoc rows r)
  have "cn_order r = last [1..int (length (numbers_of db sid))]"
    using assms snoc by (simp add: numbers_ok_def) (metis last_snoc)
  then show ?thesis
    using snoc called_rows_eq [OF assms] by (simp add: latest_order_def last_conv_nth nth_upto)
qed (use called_rows_eq [OF assms] in \<open>simp add: latest_order_def\<close>)

lemma create_number_ok:
  assumes "game_ok db" "s0 \<in> set (gd_sessions db)" "cr_sessionId row = gs_id s0"
    and "create_number row db = Inr db'" "1 \<le> cn_number row" "cn_number row \<le> 75"
    and "cn_order row = int (length (numbers_of db (gs_id s0))) + 1"
  shows "game_ok db' \<and> advances db db'"
proof -
  have db': "db' = db\<lparr>gd_numbers := gd_numbers db @ [row]\<rparr>"
    and new: "cn_number row \<notin> set (map cn_number (numbers_of db (gs_id s0)))"
    using assms(3,4) by (auto simp: create_number_def list_ex_iff numbers_of_def split: if_splits)
  have views: "cartelas_of db' sid = cartelas_of db sid" "claims_of db' sid = claims_of db sid"
    "paid db' = paid db" "numbers_of db' (gs_id s0) = numbers_of db (gs_id s0) @ [row]" for sid
    by (simp_all add: db' cartelas_of_def claims_of_def numbers_of_def paid_def assms(3))
  have t: "touches (gs_id s0) db db'"
    using assms(3) by (simp add: touches_def db' paid_def)
  have "local_ok (gs_id s0) db db'"
  proof (rule local_okI [OF assms(1,2) refl])
    fix s assume s: "s \<in> set (gd_sessions db')" "gs_id s = gs_id s0"
    then have "s = s0"
      using session_unique [of db s s0] assms(1,2) by (simp add: db' game_ok_def)
    then show "session_ok s (cartelas_of db' (gs_id s0)) (claims_of db' (gs_id s0)) (paid db') \<and>
        moves (gs_status s0) (gs_status s) \<and>
        (live (gs_status s) \<longrightarrow> live (gs_status s0) \<or> (\<forall>x\<in>set (gd_sessions db). \<not> live (gs_status x)))"
      using session_okI [of db s0] assms(1,2) by (simp add: views game_ok_def)
  next
    show "numbers_ok (numbers_of db' (gs_id s0))"
      unfolding views using assms new by (intro numbers_ok_snoc) (auto simp: game_ok_def)
  qed (use assms(1) in \<open>simp_all add: db' game_ok_def keys_ok_def\<close>)
  then show ?thesis
    using game_ok_touches [OF assms(1) t] advances_touches [OF _ t] assms(1) by (simp add: game_ok_def)
qed

lemma call_transaction_ok:
  assumes "game_ok db" "1 \<le> number" "number \<le> 75"
    and "call_transaction id sid letter number db = (Inr row, db')"
  shows "game_ok db' \<and> advances db db'"
proof -
  obtain s0 where s0: "find_session db sid = Some s0"
    and c: "create_number (called_row_of sid letter number (latest_order db sid + 1)) db = Inr db'"
    using assms(4) by (auto simp: call_transaction_def transaction_def Let_def bind_result_def
        split: option.splits if_splits sum.splits)
  have "s0 \<in> set (gd_sessions db)" "gs_id s0 = sid"
    using s0 find_session_iff [of db sid s0] assms(1) by (simp_all add: game_ok_def)
  then show ?thesis
    using create_number_ok [OF assms(1) _ _ c] latest_order_eq [of db sid] assms
    by (simp add: called_row_of_def game_ok_def)
qed

end
