(* ===== verification/ClaimSteps.thy ===== *)
theory ClaimSteps
  imports GameSteps
begin

text \<open>
  The transactions of the caller and of a claim keep the invariant: a number called by the clock, a
  claim of a decided cartela, a claim an admin has to confirm, and the claims that are decided at once.
\<close>

section \<open>Steps in a row\<close>

definition statuses :: "game_db \<Rightarrow> (string \<times> game_status) list" where
  "statuses db = map (\<lambda>s. (gs_id s, gs_status s)) (gd_sessions db)"

lemma advances_statuses:
  "advances db db' \<longleftrightarrow>
     list_all2 (\<lambda>p s'. gs_id s' = fst p \<and> moves (snd p) (gs_status s'))
       (statuses db) (take (length (statuses db)) (gd_sessions db')) \<and>
     (\<forall>s\<in>set (drop (length (statuses db)) (gd_sessions db')). gs_status s = READY \<or> gs_status s = PLAYING)"
  by (simp add: advances_def statuses_def list_all2_map1)

lemma advances_cong: "statuses db = statuses db1 \<Longrightarrow> advances db1 db2 \<Longrightarrow> advances db db2"
  by (simp add: advances_statuses)

lemma advances_cong2: "advances db db1 \<Longrightarrow> statuses db2 = statuses db1 \<Longrightarrow> advances db db2"
proof -
  assume a: "advances db db1" "statuses db2 = statuses db1"
  have *: "advances db db' \<longleftrightarrow>
      list_all2 (\<lambda>s p. fst p = gs_id s \<and> moves (gs_status s) (snd p))
        (gd_sessions db) (take (length (gd_sessions db)) (statuses db')) \<and>
      (\<forall>p\<in>set (drop (length (gd_sessions db)) (statuses db')). snd p = READY \<or> snd p = PLAYING)" for db'
    by (simp add: advances_def statuses_def take_map drop_map list_all2_map2)
  show ?thesis using a unfolding * by simp
qed

lemma statuses_update:
  "(\<And>s. gs_id (f s) = gs_id s \<and> gs_status (f s) = gs_status s) \<Longrightarrow>
   statuses (snd (update_sessions now P f db)) = statuses db"
  by (simp add: statuses_def update_sessions_def map_update_where)

lemma statuses_same [table_simps]:
  "statuses (snd (update_cartelas P g db)) = statuses db"
  "statuses (snd (update_claims Q h db)) = statuses db"
  "statuses (create_claim k db) = statuses db"
  "statuses (db\<lparr>gd_wallet := w\<rparr>) = statuses db"
  by (simp_all add: statuses_def table_simps)

text \<open>Columns that no rule depends on change first.\<close>

definition idle :: "session_row \<Rightarrow> session_row \<Rightarrow> bool" where
  "idle s s' \<longleftrightarrow> quiet s s' \<and> gs_status s' = gs_status s"

lemma idle_update:
  assumes "game_ok db" "\<And>s. idle s ((f s)\<lparr>gs_updatedAt := now\<rparr>)"
  shows "game_ok (snd (update_sessions now P f db)) \<and> statuses (snd (update_sessions now P f db)) = statuses db"
proof
  show "game_ok (snd (update_sessions now P f db))"
    using quiet_update_ok [OF assms(1)] assms(2) by (simp add: idle_def)
  show "statuses (snd (update_sessions now P f db)) = statuses db"
    using assms(2) by (intro statuses_update) (simp add: idle_def quiet_def)
qed

lemma idle_update_ok:
  assumes "game_ok db" "\<And>s. idle s ((f s)\<lparr>gs_updatedAt := now\<rparr>)"
  shows "game_ok (snd (update_sessions now P f db)) \<and> advances db (snd (update_sessions now P f db))"
  using quiet_update_ok [OF assms(1)] assms(2) by (simp add: idle_def)

section \<open>A number called by the clock\<close>

lemma remaining_range: "n \<in> set (remaining_numbers db sid) \<Longrightarrow> 1 \<le> n \<and> n \<le> 75"
  by (simp add: remaining_numbers_def)

lemma auto_call_ok:
  assumes "game_ok db" "1 \<le> number" "number \<le> 75"
    and "auto_call_tx now sid number remaining due db = Inr (r, db')"
  shows "game_ok db' \<and> advances db db'"
proof -
  let ?f = "\<lambda>s. if remaining \<le> 1 then s\<lparr>gs_autoCallEnabled := False, gs_nextAutoCallAt := None\<rparr>
      else s\<lparr>gs_nextAutoCallAt := Some due\<rparr>"
  let ?db1 = "snd (update_sessions now (\<lambda>s. gs_id s = sid \<and> auto_due now s) ?f db)"
  obtain s0 where s0: "find_session db sid = Some s0"
    and c: "create_number (called_row_of sid (getLetterForNumber number) number
        (int (length (called_rows db sid)) + 1)) ?db1 = Inr db'"
  proof (cases "find_session db sid")
    case (Some s)
    let ?row = "called_row_of sid (getLetterForNumber number) number (int (length (called_rows db sid)) + 1)"
    have "bind_result (create_number ?row ?db1) (\<lambda>db2. Inr ((?row, s), db2)) = Inr (r, db')"
      using assms(4) Some by (simp add: auto_call_tx_def Let_def case_prod_beta split: if_split_asm)
    then show ?thesis using Some that by (auto simp: bind_result_eq_Inr_iff)
  qed (use assms(4) in \<open>simp add: auto_call_tx_def\<close>)
  have mem: "s0 \<in> set (gd_sessions db)" "gs_id s0 = sid"
    using s0 find_session_iff [of db sid s0] assms(1) by (simp_all add: game_ok_def)
  define db1 where "db1 = ?db1"
  have i: "game_ok db1" "statuses db1 = statuses db"
    unfolding db1_def
    by (rule idle_update [OF assms(1), THEN conjunct1] idle_update [OF assms(1), THEN conjunct2],
        simp add: idle_def quiet_def)+
  have "numbers_of db1 sid = called_rows db sid"
    unfolding db1_def views_same called_rows_eq [OF game_okD(4) [OF assms(1)]] ..
  have "map gs_id (gd_sessions db1) = map gs_id (gd_sessions db)"
    by (simp add: db1_def update_sessions_def map_update_where)
  then have "gs_id ` set (gd_sessions db1) = gs_id ` set (gd_sessions db)" by (metis set_map)
  then obtain s1 where s1: "s1 \<in> set (gd_sessions db1)" "gs_id s1 = sid"
    using mem by (metis image_iff)
  have "game_ok db' \<and> advances db1 db'"
    using create_number_ok [OF i(1) s1(1) _ c [folded db1_def]] s1(2) \<open>numbers_of db1 sid = _\<close> assms(2,3)
    by (simp add: called_row_of_def)
  then show ?thesis using advances_cong [of db db1 db'] i(2) by simp
qed

section \<open>Claims\<close>

lemma fresh_claim_ids:
  "distinct (map bc_id (gd_claims db)) \<Longrightarrow> bc_id k \<notin> bc_id ` set (gd_claims db) \<Longrightarrow>
   distinct (map bc_id (gd_claims (create_claim k db)))"
  by (simp add: create_claim_def)

text \<open>What a claim has loaded is what the database holds.\<close>

definition loaded :: "game_db \<Rightarrow> claim_cartela \<Rightarrow> session_row \<Rightarrow> bool" where
  "loaded db cc s \<longleftrightarrow>
     cc_cartela cc \<in> set (gd_cartelas db) \<and> s \<in> set (gd_sessions db) \<and>
     gs_id s = gc_sessionId (cc_cartela cc) \<and> gs_status s = gs_status (cc_session cc) \<and>
     gs_winnerWindowEndsAt s = gs_winnerWindowEndsAt (cc_session cc)"

lemma loadClaimCartela_loaded:
  assumes "keys_ok db" "loadClaimCartela db sid u cid = Inr cc"
  shows "loaded db cc (cc_session cc)" "gc_userId (cc_cartela cc) = u" "gc_sessionId (cc_cartela cc) = sid"
    "gc_id (cc_cartela cc) = cid"
  using assms(2)
  by (auto simp: loadClaimCartela_def loaded_def find_cartela_iff [OF assms(1)] find_session_iff [OF assms(1)]
      split: option.splits if_splits)

lemma claim_of_sel [simp]:
  "bc_id (claim_of newId cc u st pat reason code ball checked) = newId"
  "bc_sessionId (claim_of newId cc u st pat reason code ball checked) = gc_sessionId (cc_cartela cc)"
  "bc_userId (claim_of newId cc u st pat reason code ball checked) = u"
  "bc_gameCartelaId (claim_of newId cc u st pat reason code ball checked) = gc_id (cc_cartela cc)"
  "bc_status (claim_of newId cc u st pat reason code ball checked) = st"
  "bc_winningBall (claim_of newId cc u st pat reason code ball checked) = ball"
  by (simp_all add: claim_of_def)

lemma session_ok_claim:
  assumes "session_ok s cs ks P" "c \<in> set cs" "bc_gameCartelaId k = gc_id c" "bc_userId k = gc_userId c"
    and "bc_status k \<noteq> PENDING"
  shows "session_ok s cs (ks @ [k]) P"
proof -
  have "pending_ok (gs_status s) k c" using assms(3-5) by (simp add: pending_ok_def)
  then show ?thesis using assms(1,2,5) unfolding session_ok_def by auto
qed

lemma live_status: "live PLAYING" "live WINNER_WINDOW" "live CHECKING" "\<not> live FINISHED" "\<not> live CANCELLED"
  "\<not> live NO_WINNER" "\<not> live READY" "\<not> live NEXT"
  by (simp_all add: live_def)

text \<open>A claim recorded with its decision, nothing else.\<close>

lemma record_claim_ok:
  assumes "game_ok db" "loaded db cc s0" "bc_id k \<notin> bc_id ` set (gd_claims db)"
    and "bc_sessionId k = gs_id s0" "bc_gameCartelaId k = gc_id (cc_cartela cc)"
    and "bc_userId k = gc_userId (cc_cartela cc)" "bc_status k \<noteq> PENDING"
  shows "game_ok (create_claim k db) \<and> advances db (create_claim k db)"
proof -
  let ?sid = "gs_id s0"
  have s0: "s0 \<in> set (gd_sessions db)" and c: "cc_cartela cc \<in> set (cartelas_of db ?sid)"
    using assms(2) by (simp_all add: loaded_def cartelas_of_def)
  have t: "touches ?sid db (create_claim k db)"
    using assms(4) by (rule touches_create_claim)
  have "local_ok ?sid db (create_claim k db)"
  proof (rule local_okI [OF assms(1) s0 refl])
    fix s assume s: "s \<in> set (gd_sessions (create_claim k db))" "gs_id s = ?sid"
    then have "s = s0"
      using session_unique [of db s s0] assms(1) s0 by (simp add: table_simps game_ok_def)
    then show "session_ok s (cartelas_of (create_claim k db) ?sid) (claims_of (create_claim k db) ?sid)
          (paid (create_claim k db)) \<and> moves (gs_status s0) (gs_status s) \<and>
        (live (gs_status s) \<longrightarrow> live (gs_status s0) \<or> (\<forall>x\<in>set (gd_sessions db). \<not> live (gs_status x)))"
      using session_ok_claim [OF session_okI [of db s0] c] assms s0
      by (simp add: table_simps game_ok_def)
  qed (use assms(1,3) fresh_claim_ids in \<open>auto simp: game_ok_def keys_ok_def table_simps\<close>)
  then show ?thesis
    using game_ok_touches [OF assms(1) t] advances_touches [OF _ t] assms(1) by (simp add: game_ok_def)
qed

lemma already_resolved_ok:
  assumes "game_ok db" "loaded db cc s0" "newId \<notin> bc_id ` set (gd_claims db)"
    and "createAlreadyResolvedClaimResponse now newId cc (gc_userId (cc_cartela cc)) code db = Inr (r, db')"
  shows "game_ok db' \<and> advances db db'"
proof -
  let ?k = "claim_of newId cc (gc_userId (cc_cartela cc)) INVALID (resolveRuleKey cc)
      (Some (TERMINAL_CLAIM_REASONS code)) (Some code) None (Some now)"
  have "db' = db \<or> db' = create_claim ?k db"
    using assms(4) by (auto simp: createAlreadyResolvedClaimResponse_def Let_def split: list.splits)
  moreover have "game_ok (create_claim ?k db) \<and> advances db (create_claim ?k db)"
    by (rule record_claim_ok [OF assms(1,2)]) (use assms(2,3) in \<open>simp_all add: loaded_def\<close>)
  ultimately show ?thesis using assms(1) by auto
qed

section \<open>A claim waiting for an admin\<close>

lemma manual_pending_ok:
  assumes "game_ok db" "loaded db cc s0" "newId \<notin> bc_id ` set (gd_claims db)"
    and "createManualPendingClaim now newId cc (gc_userId (cc_cartela cc)) key db = Inr (r, db')"
  shows "game_ok db' \<and> advances db db'"
proof -
  let ?sid = "gs_id s0" and ?c = "cc_cartela cc"
  let ?k = "claim_of newId cc (gc_userId ?c) PENDING key (Some ''Waiting for admin confirmation'') None None None"
  let ?f = "\<lambda>s. s\<lparr>gs_status := CHECKING, gs_autoCallEnabled := False, gs_nextAutoCallAt := None\<rparr>"
  let ?db1 = "snd (update_sessions now (\<lambda>s. gs_id s = ?sid) ?f (create_claim ?k db))"
  have sid: "gc_sessionId ?c = ?sid" and s0: "s0 \<in> set (gd_sessions db)"
    and c: "?c \<in> set (cartelas_of db ?sid)" and keys: "keys_ok db"
    using assms(1,2) by (simp_all add: loaded_def cartelas_of_def game_ok_def)
  have st: "gs_status s0 = PLAYING" "gc_status ?c = REGISTERED" and db': "db' = ?db1"
    using assms(2,4) by (auto simp: createManualPendingClaim_def bind_result_eq_Inr_iff Let_def sid
        assertClaimableCartela_def loaded_def update_session_Inr split: if_splits)
  have ok: "session_ok s0 (cartelas_of db ?sid) (claims_of db ?sid) (paid db)"
    using session_okI s0 assms(1) by (simp add: game_ok_def)
  have t: "touches ?sid db ?db1"
    by (rule touches_trans [OF touches_create_claim touches_update_sessions]) (simp_all add: sid)
  have "local_ok ?sid db ?db1"
  proof (rule local_okI [OF assms(1) s0 refl])
    fix s assume s: "s \<in> set (gd_sessions ?db1)" "gs_id s = ?sid"
    have "keys_ok (create_claim ?k db) \<Longrightarrow> s = (?f s0)\<lparr>gs_updatedAt := now\<rparr>"
      using session_after [OF _ _ _ s(1), of s0] s0 s(2) by (simp add: table_simps)
    moreover have "keys_ok (create_claim ?k db)"
      by (rule keys_ok_touches [OF keys touches_create_claim [of _ ?sid]])
        (use keys_okD(4) [OF keys] assms(3) s0 in \<open>simp_all add: sid fresh_claim_ids\<close>)
    ultimately have s1: "s = (?f s0)\<lparr>gs_updatedAt := now\<rparr>" by blast
    have cs: "\<forall>x\<in>set (cartelas_of db ?sid). cartela_ok CHECKING (paid db) x"
      using ok st by (auto simp: session_ok_def cartela_ok_def)
    have ks: "\<forall>x\<in>set (claims_of db ?sid). \<exists>y\<in>set (cartelas_of db ?sid). pending_ok CHECKING x y"
      using ok st(1) no_pending [OF ok] unfolding session_ok_def pending_ok_def by fastforce
    have k: "pending_ok CHECKING ?k ?c" using st by (simp add: pending_ok_def)
    have "session_ok s (cartelas_of db ?sid) (claims_of db ?sid @ [?k]) (paid db)"
      using ok st(1) cs ks k c pending_none [OF ok] unfolding session_ok_def s1 by auto
    then show "session_ok s (cartelas_of ?db1 ?sid) (claims_of ?db1 ?sid) (paid ?db1) \<and>
        moves (gs_status s0) (gs_status s) \<and>
        (live (gs_status s) \<longrightarrow> live (gs_status s0) \<or> (\<forall>x\<in>set (gd_sessions db). \<not> live (gs_status x)))"
      using st(1) by (simp add: table_simps sid s1 moves_def canTransitionGameStatus_def live_def)
  qed (use assms(1,3) fresh_claim_ids keys_okD(4) [OF keys] in \<open>simp_all add: table_simps game_ok_def\<close>)
  then show ?thesis
    using game_ok_touches [OF assms(1) t] advances_touches [OF keys t] db' by simp
qed

section \<open>A claim that is decided at once\<close>

text \<open>
  The cartela is blocked or becomes a winner, the session opens its winner window or stays, and the
  decision is recorded.
\<close>

lemma decided_session:
  assumes "session_ok s cs ks P" "gs_status s = PLAYING \<or> gs_status s = WINNER_WINDOW"
    and "c \<in> set cs" "sel c" "\<And>x. x \<in> set cs \<Longrightarrow> sel x \<Longrightarrow> x = c"
    and "gc_id (g c) = gc_id c" "gc_userId (g c) = gc_userId c"
    and "gs_winnerCartelaId s1 = gs_winnerCartelaId s" "gs_prizeFinalizedAt s1 = gs_prizeFinalizedAt s"
    and "gc_status c = REGISTERED"
    and "gs_status s1 = gs_status s \<and> gs_winnerWindowEndsAt s1 = gs_winnerWindowEndsAt s \<and>
         \<not> gc_isWinner (g c) \<and> gc_status (g c) \<noteq> WINNER \<or>
       gs_status s1 = WINNER_WINDOW \<and> gs_winnerWindowEndsAt s1 \<noteq> None \<and>
         gc_isWinner (g c) \<and> gc_status (g c) = WINNER"
  shows "session_ok s1 (update_where sel g cs) ks P"
proof -
  let ?u = "\<lambda>x. if sel x then g x else x"
  have not_c: "\<not> gc_isWinner c" using assms(1,3,10) by (auto simp: session_ok_def cartela_ok_def)
  have other: "?u x = x" if "x \<in> set cs" "x \<noteq> c" for x using assms(5) that by auto
  have st: "gs_status s1 = PLAYING \<and> gs_status s = PLAYING \<or> gs_status s1 = WINNER_WINDOW"
    using assms(2,11) by auto
  have none: "gs_winnerCartelaId s1 = None" "gs_prizeFinalizedAt s1 = None"
    using assms(1,2,8,9) by (auto simp: session_ok_def)
  have unpaid: "prize_key u (gc_id x) \<notin> P" if "x \<in> set cs" for u x
    using not_paid_yet [OF assms(1) _ that] assms(2) by auto
  have window: "gs_winnerWindowEndsAt s1 \<noteq> None \<and> (\<exists>y\<in>set (update_where sel g cs). gc_isWinner y)"
    if "gs_status s1 = WINNER_WINDOW"
  proof (cases "gc_isWinner (g c)")
    case True
    moreover have "g c \<in> set (update_where sel g cs)" using assms(3,4) by (auto simp: in_update_where)
    ultimately show ?thesis using assms(11) by auto
  next
    case False
    then have w: "gs_status s = WINNER_WINDOW" "gs_winnerWindowEndsAt s1 = gs_winnerWindowEndsAt s"
      using assms(11) that by auto
    then obtain y where y: "y \<in> set cs" "gc_isWinner y" using assms(1) by (auto simp: session_ok_def)
    then have "y \<in> set (update_where sel g cs)"
      unfolding in_update_where using other [OF y(1)] not_c by metis
    then show ?thesis using w assms(1) y(2) by (auto simp: session_ok_def)
  qed
  have cart: "cartela_ok (gs_status s1) P (?u x)" if x: "x \<in> set cs" for x
  proof (cases "x = c")
    case True
    then show ?thesis
      using assms(4,6,11) unpaid [OF assms(3)] st by (auto simp: cartela_ok_def)
  next
    case False
    have "cartela_ok (gs_status s) P x" using assms(1) x by (simp add: session_ok_def)
    then show ?thesis using other [OF x False] unpaid [OF x] st by (auto simp: cartela_ok_def)
  qed
  have claims: "\<exists>y\<in>set (update_where sel g cs). pending_ok (gs_status s1) k y" if k: "k \<in> set ks" for k
  proof -
    obtain y where y: "y \<in> set cs" "pending_ok (gs_status s) k y" using assms(1) k by (auto simp: session_ok_def)
    have "bc_status k \<noteq> PENDING" using no_pending [OF assms(1) _ _ k] assms(2) by auto
    then have "pending_ok (gs_status s1) k (?u y)"
      using y(2) other [OF y(1)] assms(6,7) by (cases "y = c") (auto simp: pending_ok_def)
    moreover have "?u y \<in> set (update_where sel g cs)" unfolding in_update_where using y(1) by blast
    ultimately show ?thesis by blast
  qed
  show ?thesis
    using none window cart claims assms(1) by (simp add: session_ok_def ball_update_where)
qed

lemma decided_ok:
  assumes "game_ok db" "loaded db cc s0" "gs_status s0 = PLAYING \<or> gs_status s0 = WINNER_WINDOW"
    and "bc_id k \<notin> bc_id ` set (gd_claims db)" "bc_sessionId k = gs_id s0"
    and "bc_gameCartelaId k = gc_id (cc_cartela cc)" "bc_userId k = gc_userId (cc_cartela cc)"
    and "bc_status k \<noteq> PENDING"
    and "\<And>x. sel x \<Longrightarrow> gc_id x = gc_id (cc_cartela cc) \<and> gc_status x = REGISTERED"
    and "\<exists>x\<in>set (gd_cartelas db). sel x"
    and "\<And>x. gc_id (g x) = gc_id x \<and> gc_sessionId (g x) = gc_sessionId x \<and> gc_userId (g x) = gc_userId x"
    and "\<And>s. R s \<Longrightarrow> gs_id s = gs_id s0"
    and "\<And>s. gs_id (f s) = gs_id s \<and> gs_slotId (f s) = gs_slotId s \<and>
       gs_winnerCartelaId (f s) = gs_winnerCartelaId s \<and> gs_prizeFinalizedAt (f s) = gs_prizeFinalizedAt s"
    and "s1 = (if R s0 then (f s0)\<lparr>gs_updatedAt := now\<rparr> else s0)"
    and "\<not> gc_isWinner (cc_cartela cc) \<Longrightarrow>
       gs_status s1 = gs_status s0 \<and> gs_winnerWindowEndsAt s1 = gs_winnerWindowEndsAt s0 \<and>
         \<not> gc_isWinner (g (cc_cartela cc)) \<and> gc_status (g (cc_cartela cc)) \<noteq> WINNER \<or>
       gs_status s1 = WINNER_WINDOW \<and> gs_winnerWindowEndsAt s1 \<noteq> None \<and>
         gc_isWinner (g (cc_cartela cc)) \<and> gc_status (g (cc_cartela cc)) = WINNER"
    and "db' = create_claim k (snd (update_cartelas sel g (snd (update_sessions now R f db))))"
  shows "game_ok db' \<and> advances db db'"
proof -
  let ?sid = "gs_id s0" and ?c = "cc_cartela cc"
  define db1 where "db1 = snd (update_sessions now R f db)"
  define db2 where "db2 = snd (update_cartelas sel g db1)"
  have db': "db' = create_claim k db2" using assms(16) by (simp add: db1_def db2_def)
  have s0: "s0 \<in> set (gd_sessions db)" and c: "?c \<in> set (gd_cartelas db)" "gc_sessionId ?c = ?sid"
    and keys: "keys_ok db"
    using assms(1,2) by (simp_all add: loaded_def game_ok_def)
  have only: "x = ?c" if "x \<in> set (gd_cartelas db)" "sel x" for x
    using cartela_unique [OF keys that(1) c(1)] assms(9) [OF that(2)] by simp
  then have sel: "sel ?c" using assms(10) by auto
  have reg: "gc_status ?c = REGISTERED" using assms(9) [OF sel] by simp
  have ok: "session_ok s0 (cartelas_of db ?sid) (claims_of db ?sid) (paid db)"
    using session_okI s0 assms(1) by (simp add: game_ok_def)
  have c': "?c \<in> set (cartelas_of db ?sid)" using c by (simp add: cartelas_of_def)
  have not_w: "\<not> gc_isWinner ?c" using ok c' reg by (auto simp: session_ok_def cartela_ok_def)
  have sel1: "gd_cartelas db1 = gd_cartelas db" by (simp add: db1_def table_simps)
  have t1: "touches ?sid db db1"
    unfolding db1_def by (rule touches_update_sessions) (use assms(12,13) in auto)
  have t2: "touches ?sid db1 db2"
    unfolding db2_def by (rule touches_update_cartelas) (use only c(2) assms(11) in \<open>auto simp: sel1\<close>)
  have t: "touches ?sid db db'"
    unfolding db' by (rule touches_trans [OF touches_trans [OF t1 t2] touches_create_claim [OF assms(5)]])
  have views: "cartelas_of db' ?sid = update_where sel g (cartelas_of db ?sid)"
    "claims_of db' ?sid = claims_of db ?sid @ [k]" "paid db' = paid db"
    "numbers_of db' ?sid = numbers_of db ?sid" "gd_sessions db' = gd_sessions db1"
    "gd_claims db' = gd_claims db @ [k]" "gd_wallet db' = gd_wallet db"
    using assms(5,11) by (simp_all add: db' db2_def db1_def table_simps cartelas_of_update)
  have "session_ok s1 (update_where sel g (cartelas_of db ?sid)) (claims_of db ?sid) (paid db)"
  proof (rule decided_session [where sel = sel, OF ok assms(3) c' sel])
    show "x = ?c" if "x \<in> set (cartelas_of db ?sid)" "sel x" for x
      using only that by (simp add: cartelas_of_def)
    show "gs_status s1 = gs_status s0 \<and> gs_winnerWindowEndsAt s1 = gs_winnerWindowEndsAt s0 \<and>
         \<not> gc_isWinner (g ?c) \<and> gc_status (g ?c) \<noteq> WINNER \<or>
       gs_status s1 = WINNER_WINDOW \<and> gs_winnerWindowEndsAt s1 \<noteq> None \<and>
         gc_isWinner (g ?c) \<and> gc_status (g ?c) = WINNER"
      by (rule assms(15) [OF not_w])
  qed (use assms(11,13,14) reg in simp_all)
  then have ok1: "session_ok s1 (update_where sel g (cartelas_of db ?sid)) (claims_of db ?sid @ [k]) (paid db)"
    by (rule session_ok_claim [where c = "g ?c"])
      (use sel c' assms(6-8,11) in \<open>auto simp: in_update_where\<close>)
  have "local_ok ?sid db db'"
  proof (rule local_okI [OF assms(1) s0 refl])
    fix s assume s: "s \<in> set (gd_sessions db')" "gs_id s = ?sid"
    have "s = s1"
      using session_after [OF keys s0 _ s(1) [unfolded views db1_def] s(2)] assms(13,14) by simp
    then show "session_ok s (cartelas_of db' ?sid) (claims_of db' ?sid) (paid db') \<and>
        moves (gs_status s0) (gs_status s) \<and>
        (live (gs_status s) \<longrightarrow> live (gs_status s0) \<or> (\<forall>x\<in>set (gd_sessions db). \<not> live (gs_status x)))"
      using ok1 assms(3) assms(15) [OF not_w]
      by (auto simp: views moves_def canTransitionGameStatus_def live_def)
  next
    show "distinct (map bc_id (gd_claims db'))"
      using assms(4) keys_okD(4) [OF keys] by (simp add: views)
  qed (use assms(1) in \<open>simp_all add: views game_ok_def\<close>)
  then show ?thesis
    using game_ok_touches [OF assms(1) t] advances_touches [OF keys t] by simp
qed

lemma mark_winner_matches:
  "fst (mark_winner cid db) = 1 \<Longrightarrow> \<exists>x\<in>set (gd_cartelas db). gc_id x = cid \<and> gc_status x = REGISTERED \<and> \<not> gc_isWinner x"
  unfolding mark_winner_def by (rule count_matches(2)) simp

lemma auto_invalid_ok:
  assumes "game_ok db" "loaded db cc s0" "newId \<notin> bc_id ` set (gd_claims db)"
    and "gs_status s0 = PLAYING \<or> gs_status s0 = WINNER_WINDOW"
    and "createAutoInvalidClaim now newId cc (gc_userId (cc_cartela cc)) key code pat dflt rest had ball db = Inr (r, db')"
  shows "game_ok db' \<and> advances db db'"
proof -
  let ?c = "cc_cartela cc" and ?sel = "\<lambda>x. gc_id x = gc_id (cc_cartela cc) \<and> gc_status x = REGISTERED"
  let ?g = "\<lambda>x. x\<lparr>gc_status := BLOCKED, gc_blockedAt := Some now\<rparr>"
  let ?k = "claim_of newId cc (gc_userId ?c) INVALID (if pat = [] then key else pat)
      (Some (AUTO_INVALID_REASONS code)) (Some code) ball (Some now)"
  define db2 where "db2 = create_claim ?k (snd (update_cartelas ?sel ?g db))"
  have n: "fst (update_cartelas ?sel ?g db) = 1" and db': "db' = db2 \<or> (\<exists>resume.
      db' = snd (update_sessions now (\<lambda>s. gs_id s = gc_sessionId ?c \<and> gs_status s = PLAYING \<and> gs_autoCallEnabled s)
        (\<lambda>s. s\<lparr>gs_nextAutoCallAt := Some resume\<rparr>) db2))"
    using assms(5) by (auto simp: createAutoInvalidClaim_def Let_def case_prod_beta db2_def split: if_split_asm)
  have "\<exists>x\<in>set (gd_cartelas db). ?sel x"
    using n by (intro count_matches(2)) simp
  then have 2: "game_ok db2 \<and> advances db db2"
    using assms(2-4)
    by (intro decided_ok [OF assms(1,2,4), where sel = ?sel and g = ?g and R = "\<lambda>_. False" and f = id and k = ?k and ?s1.0 = s0])
      (auto simp: loaded_def db2_def update_sessions_def update_where_def)
  show ?thesis
  proof (cases "db' = db2")
    case False
    then obtain resume where 3: "db' = snd (update_sessions now
        (\<lambda>s. gs_id s = gc_sessionId ?c \<and> gs_status s = PLAYING \<and> gs_autoCallEnabled s)
        (\<lambda>s. s\<lparr>gs_nextAutoCallAt := Some resume\<rparr>) db2)" using db' by blast
    have i: "game_ok db'" "statuses db' = statuses db2"
      unfolding 3 by (rule idle_update [OF conjunct1 [OF 2], THEN conjunct1]
        idle_update [OF conjunct1 [OF 2], THEN conjunct2], simp add: idle_def quiet_def)+
    moreover have "advances db db'"
      using 2 i(2) advances_cong2 by blast
    ultimately show ?thesis by simp
  qed (use 2 in simp)
qed

lemma auto_join_ok:
  assumes "game_ok db" "loaded db cc s0" "newId \<notin> bc_id ` set (gd_claims db)"
    and "gs_status s0 = WINNER_WINDOW"
    and "createAutoValidJoinWindowClaim now newId cc (gc_userId (cc_cartela cc)) pat shown grace ball db = Inr (r, db')"
  shows "game_ok db' \<and> advances db db'"
proof -
  let ?sel = "\<lambda>x. gc_id x = gc_id (cc_cartela cc) \<and> gc_status x = REGISTERED \<and> \<not> gc_isWinner x"
  let ?g = "\<lambda>x. x\<lparr>gc_status := WINNER, gc_isWinner := True, gc_blockedAt := None\<rparr>"
  let ?k = "claim_of newId cc (gc_userId (cc_cartela cc)) VALID pat None None ball (Some now)"
  obtain ends where "gs_winnerWindowEndsAt (cc_session cc) = Some ends"
    and n: "fst (mark_winner (gc_id (cc_cartela cc)) db) = 1"
    and db': "db' = create_claim ?k (snd (mark_winner (gc_id (cc_cartela cc)) db))"
    using assms(5) by (auto simp: createAutoValidJoinWindowClaim_def Let_def case_prod_beta
        split: if_split_asm option.splits)
  then have "gs_winnerWindowEndsAt s0 \<noteq> None" using assms(2) by (simp add: loaded_def)
  then show ?thesis
    using assms(2-4) mark_winner_matches [OF n]
    by (intro decided_ok [OF assms(1,2), where sel = ?sel and g = ?g and R = "\<lambda>_. False" and f = id and k = ?k and ?s1.0 = s0])
      (auto simp: loaded_def db' mark_winner_def update_sessions_def update_where_def)
qed

lemma auto_open_ok:
  assumes "game_ok db" "loaded db cc s0" "newId \<notin> bc_id ` set (gd_claims db)"
    and "gs_status s0 = PLAYING"
    and "createAutoValidOpenOrJoinWindowClaim now newId cc (gc_userId (cc_cartela cc)) pat prog dur shown grace ball db = Inr (r, db')"
  shows "game_ok db' \<and> advances db db'"
proof -
  let ?sel = "\<lambda>x. gc_id x = gc_id (cc_cartela cc) \<and> gc_status x = REGISTERED \<and> \<not> gc_isWinner x"
  let ?g = "\<lambda>x. x\<lparr>gc_status := WINNER, gc_isWinner := True, gc_blockedAt := None\<rparr>"
  let ?k = "claim_of newId cc (gc_userId (cc_cartela cc)) VALID pat None None ball (Some now)"
  let ?R = "\<lambda>s. gs_id s = gc_sessionId (cc_cartela cc) \<and> gs_status s = PLAYING"
  let ?f = "\<lambda>s. s\<lparr>gs_status := WINNER_WINDOW, gs_winnerWindowStartedAt := Some now,
                  gs_winnerWindowEndsAt := Some (now + dur), gs_autoCallEnabled := False,
                  gs_nextAutoCallAt := None, gs_noWinnerGraceEndsAt := None, gs_noWinnerReason := None\<rparr>"
  let ?up = "update_sessions now ?R ?f db"
  have "s0 \<in> set (gd_sessions db) \<and> ?R s0" using assms(2,4) by (simp add: loaded_def)
  then have "fst ?up \<noteq> 0"
    using count_where_zero [of ?R "gd_sessions db"] by (auto simp: update_sessions_def)
  then have n: "fst (mark_winner (gc_id (cc_cartela cc)) (snd ?up)) = 1"
    and db': "db' = create_claim ?k (snd (mark_winner (gc_id (cc_cartela cc)) (snd ?up)))"
    using assms(5) by (auto simp: createAutoValidOpenOrJoinWindowClaim_def Let_def case_prod_beta
        split: if_split_asm)
  have m: "\<exists>x\<in>set (gd_cartelas db). ?sel x"
    using mark_winner_matches [OF n] by (simp add: table_simps)
  show ?thesis
    using assms(2-4) m
    by (intro decided_ok [OF assms(1,2), where sel = ?sel and g = ?g and R = ?R and f = ?f and k = ?k
          and ?s1.0 = "(?f s0)\<lparr>gs_updatedAt := now\<rparr>" and now = now])
      (auto simp: loaded_def db' mark_winner_def)
qed

section \<open>The transaction of a claim\<close>

lemma pause_loaded:
  assumes "game_ok db" "loaded db cc s0"
  obtains s1 where "game_ok (snd (pause_auto_call now cc db))" "loaded (snd (pause_auto_call now cc db)) cc s1"
    "statuses (snd (pause_auto_call now cc db)) = statuses db" "gs_status s1 = gs_status s0"
    "gd_claims (snd (pause_auto_call now cc db)) = gd_claims db"
proof (cases "gs_status (cc_session cc) = PLAYING \<and> gs_autoCallEnabled (cc_session cc)")
  case True
  let ?P = "\<lambda>s. gs_id s = gc_sessionId (cc_cartela cc) \<and> gs_status s = PLAYING \<and> gs_autoCallEnabled s"
  let ?f = "\<lambda>s. s\<lparr>gs_nextAutoCallAt := None\<rparr>"
  let ?s1 = "if ?P s0 then (?f s0)\<lparr>gs_updatedAt := now\<rparr> else s0"
  have eq: "snd (pause_auto_call now cc db) = snd (update_sessions now ?P ?f db)"
    using True by (simp add: pause_auto_call_def Let_def)
  have i: "game_ok (snd (pause_auto_call now cc db))" "statuses (snd (pause_auto_call now cc db)) = statuses db"
    unfolding eq by (rule idle_update [OF assms(1), THEN conjunct1] idle_update [OF assms(1), THEN conjunct2],
        simp add: idle_def quiet_def)+
  have "s0 \<in> set (gd_sessions db)" using assms(2) by (simp add: loaded_def)
  then have "?s1 \<in> set (gd_sessions (snd (pause_auto_call now cc db)))"
    unfolding eq in_update_sessions by blast
  then have "loaded (snd (pause_auto_call now cc db)) cc ?s1"
    using assms(2) by (simp add: loaded_def eq table_simps)
  then show ?thesis using that [OF i(1) _ i(2)] by (simp add: eq table_simps)
next
  case False
  then have "snd (pause_auto_call now cc db) = db" by (auto simp: pause_auto_call_def Let_def)
  then show ?thesis using assms that by simp
qed

lemma auto_validated_ok:
  assumes "game_ok db" "loaded db cc s0" "newId \<notin> bc_id ` set (gd_claims db)"
    and "createAutoValidatedClaim cfg now newId cc (gc_userId (cc_cartela cc)) key db = Inr (r, db')"
  shows "game_ok db' \<and> advances db db'"
proof -
  obtain rest had db1 where p: "pause_auto_call now cc db = ((rest, had), db1)" by (metis prod.exhaust)
  obtain s1 where 1: "game_ok db1" "loaded db1 cc s1" "statuses db1 = statuses db" "gs_status s1 = gs_status s0"
    "gd_claims db1 = gd_claims db"
    using pause_loaded [OF assms(1,2), of now] p by auto
  have st: "gs_status s1 = gs_status (cc_session cc)" using 1(2) by (simp add: loaded_def)
  have fresh: "newId \<notin> bc_id ` set (gd_claims db1)" using assms(3) 1(5) by simp
  note ok1 = 1(1,2)
  have st1: "gs_status s1 = PLAYING \<or> gs_status s1 = WINNER_WINDOW"
    using assms(4) st by (auto simp: createAutoValidatedClaim_def bind_result_eq_Inr_iff Let_def p split: if_split_asm)
  consider
    code ball pat where "createAutoInvalidClaim now newId cc (gc_userId (cc_cartela cc)) key code pat
      (getAutoCallIntervalMs cfg) rest had ball db1 = Inr (r, db')"
  | pat shown ball where "gs_status s1 = WINNER_WINDOW" "createAutoValidJoinWindowClaim now newId cc
      (gc_userId (cc_cartela cc)) pat shown (tc_winnerWindowClaimGraceMs cfg) ball db1 = Inr (r, db')"
  | pat prog shown ball where "gs_status s1 \<noteq> WINNER_WINDOW" "createAutoValidOpenOrJoinWindowClaim now newId cc
      (gc_userId (cc_cartela cc)) pat prog (tc_winnerWindowSeconds cfg * 1000) shown
      (tc_winnerWindowClaimGraceMs cfg) ball db1 = Inr (r, db')"
    using assms(4) st by (auto simp: createAutoValidatedClaim_def bind_result_eq_Inr_iff Let_def p split: if_split_asm)
  then have "game_ok db' \<and> advances db1 db'"
  proof cases
    case 1
    then show ?thesis using auto_invalid_ok [OF ok1 fresh st1] by simp
  next
    case 2
    then show ?thesis using auto_join_ok [OF ok1 fresh] by simp
  next
    case 3
    then show ?thesis using auto_open_ok [OF ok1 fresh] st1 by simp
  qed
  then show ?thesis using advances_cong [OF 1(3) [symmetric]] by simp
qed

lemma claim_tx_ok:
  assumes "game_ok db" "loaded db cc s0" "newId \<notin> bc_id ` set (gd_claims db)"
    and "claim_tx cfg now newId cc (gc_userId (cc_cartela cc)) db = Inr (r, db')"
  shows "game_ok db' \<and> advances db db'"
  using assms(4) already_resolved_ok [OF assms(1-3)] manual_pending_ok [OF assms(1-3)]
    auto_validated_ok [OF assms(1-3)]
  by (auto simp: claim_tx_def Let_def split: option.splits if_split_asm)

end
