(* ===== verification/WindowSteps.thy ===== *)
theory WindowSteps
  imports ClaimSteps
begin

text \<open>
  The transaction that closes a winner window keeps the invariant. What a credit inside a transaction
  does to the wallets, the loop over the winners, the states the transaction goes through.
\<close>

section \<open>Credits inside a transaction\<close>

definition bonus_of :: "wallet_db \<Rightarrow> string \<Rightarrow> int" where
  "bonus_of w u = (case db_wallets w u of None \<Rightarrow> 0 | Some row \<Rightarrow> wa_bonusCartelaBalance row)"

lemma posting_views:
  "posted (posting_of w params newId row row') = insert (params_key params) (posted w)"
  "ledger_ids (posting_of w params newId row row') = insert newId (ledger_ids w)"
  by (simp_all add: posting_of_def posted_def ledger_ids_def ledger_entry_def row_key_def params_key_def)

lemma credit_state:
  assumes "creditWallet newId id w u amount meta = (Inr r, w')" "newId \<notin> ledger_ids w" "db_ok w"
  shows "db_ok w' \<and> posted w' = insert (meta_key u meta) (posted w) \<and>
    ledger_ids w' \<subseteq> insert newId (ledger_ids w) \<and> 0 < amount \<and>
    (\<forall>v. available w' v = available w v + (if v = u \<and> meta_key u meta \<notin> posted w then amount else 0)) \<and>
    (\<forall>v. bonus_of w' v = bonus_of w v)"
proof -
  let ?p = "with_meta meta u amount CREDIT AVAILABLE"
  obtain m where m: "applyWalletMutation newId id w ?p = (Inr m, w')"
    using assms(1) by (cases "applyWalletMutation newId id w ?p"; cases "fst (applyWalletMutation newId id w ?p)")
      (auto simp: creditWallet_def map_outcome_def)
  have ok: "db_ok w'" using mutation_ok [OF assms(3,2), of ?p] m by simp
  have valid: "0 < amount"
    using m applyWalletMutation_rejected [of ?p newId id w] by (auto simp: valid_params_def wallet_simps)
  show ?thesis
  proof (cases "mr_applied m")
    case True
    obtain row where row: "db_wallets w u = Some row" "intended_on ?p row = Some (mr_wallet m)"
      "w' = posting_of w ?p newId row (mr_wallet m)" "meta_key u meta \<notin> posted w"
      using mutation_state [OF assms(2), of ?p] m True by (auto simp: wallet_simps)
    have "mr_wallet m = set_balances (wa_balance row + amount, wa_lockedBalance row) row"
      using row(2) by (simp add: intended_on_def wallet_simps balances_def)
    then have "available w' v = available w v + (if v = u then amount else 0) \<and> bonus_of w' v = bonus_of w v" for v
      using row(1,3) by (simp add: wallet_simps available_def bonus_of_def posting_of_def set_balances_def)
    then show ?thesis
      using ok valid row(4) unfolding row(3) by (simp add: posting_views wallet_simps)
  next
    case False
    then have "w' = w" "meta_key u meta \<in> posted w"
      using mutation_state [OF assms(2), of ?p] m by (auto simp: wallet_simps)
    then show ?thesis using ok valid by auto
  qed
qed

lemma credit_tx:
  assumes "wallet_tx (\<lambda>w. creditWallet newId id w u amount meta) db = Inr (r, db')"
    and "newId \<notin> ledger_ids (gd_wallet db)" "db_ok (gd_wallet db)"
  obtains w' where "db' = db\<lparr>gd_wallet := w'\<rparr>" "db_ok w'"
    "posted w' = insert (meta_key u meta) (posted (gd_wallet db))"
    "ledger_ids w' \<subseteq> insert newId (ledger_ids (gd_wallet db))" "0 < amount"
    "\<And>v. available w' v = available (gd_wallet db) v +
       (if v = u \<and> meta_key u meta \<notin> posted (gd_wallet db) then amount else 0)"
    "\<And>v. bonus_of w' v = bonus_of (gd_wallet db) v"
proof -
  obtain w' where w: "creditWallet newId id (gd_wallet db) u amount meta = (Inr r, w')" "db' = db\<lparr>gd_wallet := w'\<rparr>"
    using assms(1) by (auto simp: wallet_tx_def split: prod.splits sum.splits)
  show ?thesis using that [OF w(2)] credit_state [OF w(1) assms(2,3)] by blast
qed

lemma prize_meta_key: "meta_key u (prize_meta s cid) = prize_key u cid"
  by (simp add: meta_key_def prize_meta_def prize_key_def)

text \<open>The loop over the winners: one row for each, nothing else.\<close>

definition prizes_of :: "(game_cartela \<times> rat) list \<Rightarrow> ledger_key set" where
  "prizes_of ws = (\<lambda>(c, _). prize_key (gc_userId c) (gc_id c)) ` set ws"

definition winnings :: "string \<Rightarrow> (game_cartela \<times> rat) list \<Rightarrow> rat" where
  "winnings u ws = sum_list (map snd (filter (\<lambda>(c, _). gc_userId c = u) ws))"

definition ids_free :: "(string \<Rightarrow> string) \<Rightarrow> string list \<Rightarrow> wallet_db \<Rightarrow> bool" where
  "ids_free newId ks w \<longleftrightarrow> distinct (map newId ks) \<and> newId ` set ks \<inter> ledger_ids w = {}"

lemma ids_free_Cons:
  assumes "ids_free newId (k # ks) w" "ledger_ids w' \<subseteq> insert (newId k) (ledger_ids w)"
  shows "newId k \<notin> ledger_ids w \<and> ids_free newId ks w'"
proof -
  have a: "newId k \<notin> newId ` set ks" "distinct (map newId ks)" "newId k \<notin> ledger_ids w"
    "newId ` set ks \<inter> ledger_ids w = {}"
    using assms(1) by (simp_all add: ids_free_def)
  have "newId ` set ks \<inter> ledger_ids w' \<subseteq> newId ` set ks \<inter> insert (newId k) (ledger_ids w)"
    by (rule Int_mono [OF subset_refl assms(2)])
  also have "\<dots> = {}" using a(1,4) by (simp add: Int_insert_right)
  finally show ?thesis using a(2,3) by (simp only: ids_free_def subset_empty simp_thms)
qed

lemma prize_key_inj: "prize_key u c = prize_key u' c' \<longleftrightarrow> u = u' \<and> c = c'"
  by (simp add: prize_key_def)

lemma credit_winners_state:
  assumes "credit_winners newId s ws db = Inr db'" "ids_free newId (map (\<lambda>(c, _). gc_id c) ws) (gd_wallet db)"
    and "db_ok (gd_wallet db)" "distinct (map (\<lambda>(c, _). gc_id c) ws)"
  shows "\<exists>w'. db' = db\<lparr>gd_wallet := w'\<rparr> \<and> db_ok w' \<and> posted w' = prizes_of ws \<union> posted (gd_wallet db) \<and>
    (prizes_of ws \<inter> posted (gd_wallet db) = {} \<longrightarrow>
      (\<forall>v. available w' v = available (gd_wallet db) v + winnings v ws)) \<and>
    (\<forall>(c, share)\<in>set ws. 0 < share)"
  using assms
proof (induction ws arbitrary: db)
  case Nil
  then show ?case by (intro exI [of _ "gd_wallet db"]) (simp add: prizes_of_def winnings_def)
next
  case (Cons p ws)
  obtain c share where p: "p = (c, share)" by (cases p)
  let ?key = "prize_key (gc_userId c) (gc_id c)"
  obtain r db1 where 1: "wallet_tx (\<lambda>w. creditWallet (newId (gc_id c)) id w (gc_userId c) share
      (prize_meta s (gc_id c))) db = Inr (r, db1)" "credit_winners newId s ws db1 = Inr db'"
    using Cons.prems(1) by (auto simp: p bind_result_eq_Inr_iff)
  have "newId (gc_id c) \<notin> ledger_ids (gd_wallet db)"
    using Cons.prems(2) by (simp add: p ids_free_def)
  from credit_tx [OF 1(1) this Cons.prems(3)] obtain w1 where w1: "db1 = db\<lparr>gd_wallet := w1\<rparr>" "db_ok w1"
    "posted w1 = insert ?key (posted (gd_wallet db))"
    "ledger_ids w1 \<subseteq> insert (newId (gc_id c)) (ledger_ids (gd_wallet db))" "0 < share"
    "\<And>v. available w1 v = available (gd_wallet db) v +
       (if v = gc_userId c \<and> ?key \<notin> posted (gd_wallet db) then share else 0)"
    unfolding prize_meta_key by blast
  have "ids_free newId (map (\<lambda>(c, _). gc_id c) ws) (gd_wallet db1)"
    using ids_free_Cons [OF Cons.prems(2) [unfolded p list.map prod.case] w1(4)] by (simp add: w1(1))
  then obtain w' where w': "db' = db1\<lparr>gd_wallet := w'\<rparr>" "db_ok w'" "posted w' = prizes_of ws \<union> posted w1"
    "prizes_of ws \<inter> posted w1 = {} \<longrightarrow> (\<forall>v. available w' v = available w1 v + winnings v ws)"
    "\<forall>(c, share)\<in>set ws. 0 < share"
    using Cons.IH [OF 1(2)] Cons.prems(4) w1(1,2) by auto
  have keys: "prizes_of (p # ws) = insert ?key (prizes_of ws)" by (simp add: prizes_of_def p)
  have apart: "?key \<notin> prizes_of ws"
    using Cons.prems(4) by (auto simp: prizes_of_def p prize_key_inj)
  have win: "winnings v (p # ws) = (if v = gc_userId c then share else 0) + winnings v ws" for v
    by (simp add: winnings_def p)
  have "available w' v = available (gd_wallet db) v + winnings v (p # ws)"
    if free: "prizes_of (p # ws) \<inter> posted (gd_wallet db) = {}" for v
  proof -
    have "prizes_of ws \<inter> posted w1 = {}" "?key \<notin> posted (gd_wallet db)"
      using free apart by (auto simp: keys w1(3))
    then show ?thesis using w'(4) w1(6) [of v] by (simp add: win)
  qed
  then show ?case
    using w' w1(1,3,5) keys by (intro exI [of _ w']) (simp add: p)
qed

section \<open>Closing the winner window\<close>

lemma try_open_opens:
  "keys_ok db \<Longrightarrow> opens (fst codes) db (snd (try_open_next cfg now lockFree codes db))"
  by (auto simp: try_open_next_def opener_opens split: sum.splits)

lemma opens_map_id:
  "opens newId db db' \<Longrightarrow> gd_cartelas db' = gd_cartelas db \<and> gd_claims db' = gd_claims db \<and>
     gd_numbers db' = gd_numbers db \<and> gd_wallet db' = gd_wallet db"
  unfolding opens_def by auto

lemma keys_ok_opens:
  assumes "game_ok db" "touches sid db db1" "local_ok sid db db1" "opens newId db1 db2"
    and "newId \<notin> gs_id ` set (gd_sessions db)"
  shows "keys_ok db2"
  using transaction_ok [OF assms] by (simp add: game_ok_def)

lemma session_winners_eq:
  assumes "session_ok s (cartelas_of db sid) ks P"
  shows "session_winners db sid = filter gc_isWinner (cartelas_of db sid)"
proof -
  have "filter (\<lambda>c. gc_sessionId c = sid \<and> gc_isWinner c \<and> gc_status c = WINNER) (gd_cartelas db) =
      filter (\<lambda>c. gc_sessionId c = sid \<and> gc_isWinner c) (gd_cartelas db)"
    using assms by (intro filter_cong refl) (auto simp: session_ok_def cartela_ok_def cartelas_of_def)
  then show ?thesis by (simp add: session_winners_def cartelas_of_def conj_commute)
qed

lemma zip_fst: "length xs = length ys \<Longrightarrow> map (\<lambda>(c, _). f c) (zip xs ys) = map f xs"
  by (induction xs ys rule: list_induct2) simp_all

lemma split_length: "splitPrizeAmount amount n = Inr shares \<Longrightarrow> length shares = nat n"
  by (auto simp: splitPrizeAmount_def Let_def split: if_splits)

text \<open>What the transaction that closes a window does, when it does anything.\<close>

definition finalize_lock :: "int \<Rightarrow> int \<Rightarrow> string \<Rightarrow> game_db \<Rightarrow> game_db" where
  "finalize_lock now after sessionId db =
     snd (update_sessions now (\<lambda>s. gs_id s = sessionId \<and> window_due after s)
       (\<lambda>s. s\<lparr>gs_prizeFinalizedAt := Some now\<rparr>) db)"

definition finalize_finish :: "int \<Rightarrow> string \<Rightarrow> string \<Rightarrow> game_db \<Rightarrow> game_db" where
  "finalize_finish now sessionId winnerId db =
     snd (update_sessions now
       (\<lambda>s. gs_id s = sessionId \<and> gs_status s = WINNER_WINDOW \<and> gs_prizeFinalizedAt s \<noteq> None \<and>
            gs_winnerCartelaId s = None)
       (\<lambda>s. s\<lparr>gs_status := FINISHED, gs_winnerCartelaId := Some winnerId, gs_finishedAt := Some now,
             gs_noWinnerGraceEndsAt := None, gs_noWinnerReason := None\<rparr>) db)"

lemma finalize_cases:
  assumes "finalize_tx cfg now lockFree codes newId sid db = Inr (r, db')" "keys_ok db"
  obtains (skipped) "r = None" "db' = db"
  | (paid) s0 shares db2 db4 slotted where
      "s0 \<in> set (gd_sessions db)" "gs_id s0 = sid" "window_due (now - tc_winnerWindowClaimGraceMs cfg) s0"
      "session_winners db sid \<noteq> []"
      "splitPrizeAmount (gs_prizeAmount s0) (int (length (session_winners db sid))) = Inr shares"
      "credit_winners newId (s0\<lparr>gs_prizeFinalizedAt := Some now, gs_updatedAt := now\<rparr>)
         (zip (session_winners db sid) shares)
         (finalize_lock now (now - tc_winnerWindowClaimGraceMs cfg) sid db) = Inr db2"
      "restoreSlotAfterSession (gs_slotId s0)
         (finalize_finish now sid (gc_id (hd (session_winners db sid))) db2) = Inr (slotted, db4)"
      "db' = snd (try_open_next cfg now lockFree codes db4)"
      "r = Some (map gc_userId (session_winners db sid))"
proof (cases "\<exists>s\<in>set (gd_sessions db). gs_id s = sid \<and> window_due (now - tc_winnerWindowClaimGraceMs cfg) s")
  case False
  let ?P = "\<lambda>s. gs_id s = sid \<and> window_due (now - tc_winnerWindowClaimGraceMs cfg) s"
  have "count_where ?P (gd_sessions db) = 0" using False by (auto simp: count_where_zero)
  moreover have "update_where ?P f (gd_sessions db) = gd_sessions db" for f
    using False by (intro update_where_none) auto
  ultimately have "r = None \<and> db' = db"
    using assms(1) by (simp add: finalize_tx_def Let_def update_sessions_def)
  then show ?thesis using skipped by simp
next
  case True
  then obtain s0 where s0: "s0 \<in> set (gd_sessions db)" "gs_id s0 = sid"
    "window_due (now - tc_winnerWindowClaimGraceMs cfg) s0" by blast
  let ?P = "\<lambda>s. gs_id s = sid \<and> window_due (now - tc_winnerWindowClaimGraceMs cfg) s"
  let ?db1 = "finalize_lock now (now - tc_winnerWindowClaimGraceMs cfg) sid db"
  let ?s1 = "s0\<lparr>gs_prizeFinalizedAt := Some now, gs_updatedAt := now\<rparr>"
  have "0 < count_where ?P (gd_sessions db)" using s0 by (auto simp: count_where_pos)
  moreover have "count_where ?P (gd_sessions db) \<le> 1"
    by (rule count_where_key [OF keys_okD(2) [OF assms(2)]]) simp
  ultimately have n: "count_where ?P (gd_sessions db) = 1" by simp
  have s1: "?s1 \<in> set (gd_sessions ?db1)"
    using s0 unfolding finalize_lock_def in_update_sessions by (intro bexI [of _ s0]) simp_all
  have "map gs_id (gd_sessions ?db1) = map gs_id (gd_sessions db)"
    by (simp add: finalize_lock_def update_sessions_def map_update_where)
  then have "distinct (map gs_id (gd_sessions ?db1))" using keys_okD(2) [OF assms(2)] by simp
  then have f: "find_session ?db1 sid = Some ?s1"
    using find_key [of gs_id, OF _ s1] s0(2) by (simp add: find_session_def)
  have w: "session_winners ?db1 sid = session_winners db sid"
    by (simp add: session_winners_def finalize_lock_def table_simps)
  have "\<exists>shares db2 slotted db4. session_winners db sid \<noteq> [] \<and>
      splitPrizeAmount (gs_prizeAmount s0) (int (length (session_winners db sid))) = Inr shares \<and>
      credit_winners newId ?s1 (zip (session_winners db sid) shares) ?db1 = Inr db2 \<and>
      restoreSlotAfterSession (gs_slotId s0)
         (finalize_finish now sid (gc_id (hd (session_winners db sid))) db2) = Inr (slotted, db4) \<and>
      db' = snd (try_open_next cfg now lockFree codes db4) \<and> r = Some (map gc_userId (session_winners db sid))"
    using assms(1) n f w
    by (auto simp: finalize_tx_def Let_def case_prod_beta bind_result_eq_Inr_iff finalize_finish_def
        finalize_lock_def [symmetric] update_sessions_def [of now ?P] split: if_split_asm sum.splits)
  then show ?thesis using paid s0 by blast
qed

lemma touches_finalize_lock: "touches sid db (finalize_lock now after sid db)"
  unfolding finalize_lock_def by (rule touches_update_sessions) simp_all

lemma touches_finalize_finish: "touches sid db (finalize_finish now sid winnerId db)"
  unfolding finalize_finish_def by (rule touches_update_sessions) simp_all

text \<open>A session that finishes: exactly its winners are paid.\<close>

lemma finished_session:
  assumes "session_ok s cs ks P" "gs_status s \<noteq> FINISHED" "gs_status s1 = FINISHED"
    and "\<forall>k\<in>set ks'. bc_status k \<noteq> PENDING \<and> (\<exists>c\<in>set cs'. gc_id c = bc_gameCartelaId k \<and> gc_userId c = bc_userId k)"
    and "\<forall>c\<in>set cs'. gc_isWinner c = (gc_status c = WINNER)"
    and "gc_id ` set cs' = gc_id ` set cs"
    and "\<forall>c\<in>set cs'. \<forall>x\<in>set cs'. gc_id x = gc_id c \<longrightarrow> x = c"
    and "P' = (\<lambda>c. prize_key (gc_userId c) (gc_id c)) ` {c\<in>set cs'. gc_isWinner c} \<union> P"
  shows "session_ok s1 cs' ks' P'"
proof -
  have cart: "cartela_ok FINISHED P' c" if c: "c \<in> set cs'" for c
  proof -
    have "gc_id c \<in> gc_id ` set cs" using assms(6) c by blast
    then obtain y where "y \<in> set cs" "gc_id y = gc_id c" by auto
    then have unpaid: "prize_key u (gc_id c) \<notin> P" for u
      using not_paid_yet [OF assms(1,2)] by metis
    have "prize_key u (gc_id c) \<in> P' \<longleftrightarrow> u = gc_userId c \<and> gc_isWinner c" for u
    proof
      assume "prize_key u (gc_id c) \<in> P'"
      then obtain x where "x \<in> set cs'" "gc_isWinner x" "prize_key u (gc_id c) = prize_key (gc_userId x) (gc_id x)"
        unfolding assms(8) using unpaid by blast
      then show "u = gc_userId c \<and> gc_isWinner c" using assms(7) c unfolding prize_key_inj by metis
    qed (use c in \<open>auto simp: assms(8)\<close>)
    then show ?thesis using assms(5) c by (simp add: cartela_ok_def)
  qed
  have "filter (\<lambda>k. bc_status k = PENDING) ks' = []" using assms(4) by (simp add: filter_empty_conv)
  then show ?thesis using cart assms(3,4) by (auto simp: session_ok_def pending_ok_def)
qed

lemma unique_in_session:
  "keys_ok db \<Longrightarrow> \<forall>c\<in>set (cartelas_of db sid). \<forall>x\<in>set (cartelas_of db sid). gc_id x = gc_id c \<longrightarrow> x = c"
  using cartela_unique by (auto simp: cartelas_of_def)

lemma touches_prizes:
  assumes "posted w = Q \<union> paid db" "Q \<subseteq> (\<lambda>c. prize_key (gc_userId c) (gc_id c)) ` set (cartelas_of db sid)"
  shows "touches sid db (db\<lparr>gd_wallet := w\<rparr>)"
proof (rule touches_wallet)
  fix u cid assume cid: "cid \<notin> gc_id ` set (cartelas_of db sid)"
  have "prize_key u cid \<notin> Q"
  proof
    assume "prize_key u cid \<in> Q"
    then obtain c where "c \<in> set (cartelas_of db sid)" "prize_key u cid = prize_key (gc_userId c) (gc_id c)"
      using assms(2) by blast
    then show False using cid by (auto simp: prize_key_inj)
  qed
  then show "prize_key u cid \<in> posted w \<longleftrightarrow> prize_key u cid \<in> posted (gd_wallet db)"
    using assms(1) by (simp add: paid_def)
qed

text \<open>The queue and the next registration come last.\<close>

lemma restored_ok:
  assumes "game_ok db" "touches sid db db1" "local_ok sid db db1"
    and "restoreSlotAfterSession slotId db1 = Inr (r, db2)"
    and "\<And>db'. keys_ok db2 \<Longrightarrow> db' = f db2 \<Longrightarrow> opens newId db2 db'"
    and "newId \<notin> gs_id ` set (gd_sessions db)"
  shows "game_ok (f db2) \<and> advances db (f db2) \<and> opens newId db1 (f db2)"
proof -
  have r: "opens newId db1 db2 \<and> gd_sessions db2 = gd_sessions db1"
    by (rule restoreSlot_opens [OF assms(4)])
  then have "keys_ok db2" using keys_ok_opens [OF assms(1-3) _ assms(6)] by blast
  then have "opens newId db2 (f db2)" using assms(5) by blast
  then have "opens newId db1 (f db2)" using r opens_trans by metis
  then show ?thesis using transaction_ok [OF assms(1-3) _ assms(6)] by blast
qed

lemma zip_prizes:
  "length ws = length shares \<Longrightarrow>
   prizes_of (zip ws shares) = (\<lambda>c. prize_key (gc_userId c) (gc_id c)) ` set ws"
  by (induction ws shares rule: list_induct2) (simp_all add: prizes_of_def)

text \<open>The effect: every winner gets a share, the session is finished.\<close>

definition window_closed :: "string \<Rightarrow> game_db \<Rightarrow> game_db \<Rightarrow> string list \<Rightarrow> bool" where
  "window_closed sid db db' users \<longleftrightarrow>
     users = map gc_userId (session_winners db sid) \<and>
     (\<exists>s0\<in>set (gd_sessions db). gs_id s0 = sid \<and> gs_status s0 = WINNER_WINDOW \<and>
       (\<exists>shares. splitPrizeAmount (gs_prizeAmount s0) (int (length users)) = Inr shares \<and>
          length shares = length users \<and> (\<forall>share\<in>set shares. 0 < share) \<and>
          (\<forall>v. available (gd_wallet db') v =
             available (gd_wallet db) v + winnings v (zip (session_winners db sid) shares)))) \<and>
     (\<exists>s\<in>set (gd_sessions db'). gs_id s = sid \<and> gs_status s = FINISHED)"

lemma opens_session:
  assumes "opens newId db db'" "s \<in> set (gd_sessions db)"
  shows "\<exists>s'\<in>set (gd_sessions db'). quiet s s'"
proof -
  obtain slots old new where o: "db' = db\<lparr>gd_slots := slots, gd_sessions := old @ new\<rparr>"
    "list_all2 quiet (gd_sessions db) old"
    using assms(1) unfolding opens_def by blast
  obtain i where i: "i < length (gd_sessions db)" "s = gd_sessions db ! i" using assms(2) by (metis in_set_conv_nth)
  then have "quiet s (old ! i)" "i < length old" using o(2) by (auto simp: list_all2_conv_all_nth)
  then show ?thesis using o(1) by auto
qed

lemma finalize_paid:
  assumes "game_ok db" "finalize_tx cfg now lockFree codes newId sid db = Inr (r, db')"
    and "ids_free newId (map gc_id (session_winners db sid)) (gd_wallet db)"
    and "fst codes \<notin> gs_id ` set (gd_sessions db)"
  shows "game_ok db' \<and> advances db db' \<and> (case r of None \<Rightarrow> db' = db | Some users \<Rightarrow> window_closed sid db db' users)"
proof (cases rule: finalize_cases [OF assms(2) game_okD(1) [OF assms(1)]])
  case 1
  then show ?thesis using assms(1) by simp
next
  case (2 s0 shares db2 db4 slotted)
  let ?winners = "session_winners db sid" and ?after = "now - tc_winnerWindowClaimGraceMs cfg"
  define d1 where "d1 = finalize_lock now ?after sid db"
  define d3 where "d3 = finalize_finish now sid (gc_id (hd ?winners)) db2"
  note keys = game_okD(1) [OF assms(1)]
  have st: "gs_status s0 = WINNER_WINDOW" using 2(3) by (simp add: window_due_def)
  have ok: "session_ok s0 (cartelas_of db sid) (claims_of db sid) (paid db)"
    using session_okI [OF game_okD(2) [OF assms(1)] 2(1)] 2(2) by simp
  have winners: "?winners = filter gc_isWinner (cartelas_of db sid)"
    by (rule session_winners_eq [OF ok])
  have len: "length ?winners = length shares" using split_length [OF 2(5)] by simp
  have w1: "gd_wallet d1 = gd_wallet db" by (simp add: d1_def finalize_lock_def table_simps)
  have dist: "distinct (map gc_id ?winners)"
    unfolding session_winners_def by (rule distinct_map_filter [OF keys_okD(3) [OF keys]])
  have unpaid: "(\<lambda>c. prize_key (gc_userId c) (gc_id c)) ` set ?winners \<inter> posted (gd_wallet db) = {}"
    using not_paid_yet [OF ok] st by (auto simp: winners paid_def)
  obtain w where w: "db2 = d1\<lparr>gd_wallet := w\<rparr>" "db_ok w"
    "posted w = (\<lambda>c. prize_key (gc_userId c) (gc_id c)) ` set ?winners \<union> paid db"
    "\<forall>v. available w v = available (gd_wallet db) v + winnings v (zip ?winners shares)"
    "\<forall>(c, share)\<in>set (zip ?winners shares). 0 < share"
    using credit_winners_state [OF 2(6) [folded d1_def]] assms(3) dist game_okD(5) [OF assms(1)] unpaid
    by (auto simp: zip_fst [OF len] zip_prizes [OF len] w1 paid_def)
  have views: "cartelas_of d3 sid = cartelas_of db sid" "claims_of d3 sid = claims_of db sid"
    "numbers_of d3 sid = numbers_of db sid" "gd_claims d3 = gd_claims db" "gd_wallet d3 = w" "paid d3 = posted w"
    by (simp_all add: d3_def finalize_finish_def w(1) d1_def finalize_lock_def cartelas_of_def claims_of_def
        numbers_of_def paid_def table_simps)
  have t1: "touches sid db d1" unfolding d1_def by (rule touches_finalize_lock)
  have "touches sid d1 db2"
    unfolding w(1) by (rule touches_prizes [of w "(\<lambda>c. prize_key (gc_userId c) (gc_id c)) ` set ?winners"])
      (auto simp: w(3) paid_def w1 winners d1_def finalize_lock_def table_simps)
  then have t2: "touches sid db db2" using touches_trans t1 by blast
  have t: "touches sid db d3" unfolding d3_def by (rule touches_trans [OF t2 touches_finalize_finish])
  have sid: "sid \<in> gs_id ` set (gd_sessions db)" using 2(1,2) by blast
  have cl: "gd_claims db2 = gd_claims db" by (simp add: w(1) d1_def finalize_lock_def table_simps)
  have keys2: "keys_ok db2"
    using keys_ok_touches [OF keys t2 _ sid] keys_okD(4) [OF keys] cl by simp
  let ?s1 = "s0\<lparr>gs_prizeFinalizedAt := Some now, gs_updatedAt := now\<rparr>"
  have s1: "?s1 \<in> set (gd_sessions db2)"
    using 2(1-3) unfolding w(1) d1_def finalize_lock_def
    by simp (simp add: in_update_sessions, intro bexI [of _ s0], simp_all)
  have row: "gs_status s = FINISHED" if s: "s \<in> set (gd_sessions d3)" "gs_id s = sid" for s
  proof -
    have "gs_winnerCartelaId s0 = None" using ok st by (auto simp: session_ok_def)
    then show ?thesis
      using session_after [OF keys2 s1 _ s(1) [unfolded d3_def finalize_finish_def]] s(2) 2(2) st by simp
  qed
  have local: "local_ok sid db d3"
  proof (rule local_okI [OF assms(1) 2(1,2)])
    fix s assume s: "s \<in> set (gd_sessions d3)" "gs_id s = sid"
    have "session_ok s (cartelas_of db sid) (claims_of db sid) (posted w)"
    proof (rule finished_session [OF ok _ row [OF s]])
      show "\<forall>k\<in>set (claims_of db sid). bc_status k \<noteq> PENDING \<and>
          (\<exists>c\<in>set (cartelas_of db sid). gc_id c = bc_gameCartelaId k \<and> gc_userId c = bc_userId k)"
        using ok no_pending [OF ok] st unfolding session_ok_def pending_ok_def by fastforce
      show "\<forall>c\<in>set (cartelas_of db sid). gc_isWinner c = (gc_status c = WINNER)"
        using ok by (simp add: session_ok_def cartela_ok_def)
    qed (use unique_in_session [OF keys] st in \<open>simp_all add: w(3) winners\<close>)
    then show "session_ok s (cartelas_of d3 sid) (claims_of d3 sid) (paid d3) \<and> moves (gs_status s0) (gs_status s) \<and>
        (live (gs_status s) \<longrightarrow> live (gs_status s0) \<or> (\<forall>x\<in>set (gd_sessions db). \<not> live (gs_status x)))"
      by (simp add: views row [OF s] st moves_def canTransitionGameStatus_def live_def)
  qed (use w(2) keys_okD(4) [OF keys] game_okD(4) [OF assms(1)] in \<open>simp_all add: views\<close>)
  have fine: "game_ok db' \<and> advances db db' \<and> opens (fst codes) d3 db'"
    using restored_ok [OF assms(1) t local 2(7) [folded d3_def] _ assms(4), of "\<lambda>d. snd (try_open_next cfg now lockFree codes d)"]
      try_open_opens 2(8) by blast
  have "map gs_id (gd_sessions d3) = map gs_id (gd_sessions db2)"
    by (simp add: d3_def finalize_finish_def update_sessions_def map_update_where)
  then have "gs_id ?s1 \<in> gs_id ` set (gd_sessions d3)" using s1 by (metis image_eqI set_map)
  then obtain s3 where s3: "s3 \<in> set (gd_sessions d3)" "gs_id s3 = sid" using 2(2) by auto
  obtain s' where "s' \<in> set (gd_sessions db')" "quiet s3 s'" using opens_session [OF _ s3(1)] fine by blast
  then have fin: "\<exists>s\<in>set (gd_sessions db'). gs_id s = sid \<and> gs_status s = FINISHED"
    using row [OF s3] s3(2) by (auto simp: quiet_def)
  have "gd_wallet db' = w" using opens_map_id fine views(5) by metis
  moreover have "\<forall>share\<in>set shares. 0 < share"
  proof
    fix share assume "share \<in> set shares"
    then obtain i where "i < length shares" "share = shares ! i" by (metis in_set_conv_nth)
    then have "(?winners ! i, share) \<in> set (zip ?winners shares)" using len by (force simp: set_zip)
    then show "0 < share" using w(5) by blast
  qed
  ultimately have "window_closed sid db db' (map gc_userId ?winners)"
    unfolding window_closed_def using fin 2(1,2,5) st len w(4) by auto
  then show ?thesis using fine 2(9) by simp
qed

lemma finalize_tx_ok:
  assumes "game_ok db" "finalize_tx cfg now lockFree codes newId sid db = Inr (r, db')"
    and "ids_free newId (map gc_id (session_winners db sid)) (gd_wallet db)"
    and "fst codes \<notin> gs_id ` set (gd_sessions db)"
  shows "game_ok db' \<and> advances db db'"
  using finalize_paid [OF assms] by blast

end
