(* ===== verification/EndSteps.thy ===== *)
theory EndSteps
  imports WindowSteps
begin

text \<open>
  The other transactions that start a session or end it keep the invariant: the start of a game, the
  decision of an admin, the end without a winner, a cancellation with its refunds, and the mark that
  closes a window early.
\<close>

section \<open>Sessions without winners\<close>

definition plain :: "game_status \<Rightarrow> bool" where
  "plain status \<longleftrightarrow> status \<noteq> WINNER_WINDOW \<and> status \<noteq> FINISHED"

lemma plain_simps [simp]: "plain NEXT" "plain READY" "plain CHECKING" "plain PLAYING" "plain NO_WINNER"
  "plain CANCELLED" "\<not> plain WINNER_WINDOW" "\<not> plain FINISHED"
  by (simp_all add: plain_def)

lemma count_update_le:
  "(\<And>x. P x \<Longrightarrow> Q (f x) \<Longrightarrow> Q x) \<Longrightarrow> length (filter Q (update_where P f xs)) \<le> length (filter Q xs)"
  by (induction xs) (auto simp: update_where_def)

lemma plain_session:
  assumes "session_ok s cs ks P" "plain (gs_status s)" "plain (gs_status s1)"
    and "gs_winnerCartelaId s1 = gs_winnerCartelaId s" "gs_prizeFinalizedAt s1 = gs_prizeFinalizedAt s"
    and g: "\<And>c. gc_id (g c) = gc_id c \<and> gc_isWinner (g c) = gc_isWinner c \<and> gc_status (g c) \<noteq> WINNER"
    and h: "\<And>k. bc_status (h k) = PENDING \<Longrightarrow> bc_status k = PENDING"
    and pend: "\<And>k c. k \<in> set ks \<Longrightarrow> c \<in> set cs \<Longrightarrow> pending_ok (gs_status s) k c \<Longrightarrow>
      pending_ok (gs_status s1) (if selk k then h k else k) (if sel c then g c else c)"
    and P': "\<And>u cid. prize_key u cid \<in> P' \<longleftrightarrow> prize_key u cid \<in> P"
  shows "session_ok s1 (update_where sel g cs) (update_where selk h ks) P'"
proof -
  have st: "gs_status s \<noteq> WINNER_WINDOW" "gs_status s \<noteq> FINISHED" "gs_status s1 \<noteq> WINNER_WINDOW"
    "gs_status s1 \<noteq> FINISHED" using assms(2,3) by (simp_all add: plain_def)
  have cart: "cartela_ok (gs_status s1) P' (if sel c then g c else c)" if c: "c \<in> set cs" for c
  proof -
    have "\<not> gc_isWinner c \<and> gc_status c \<noteq> WINNER" by (rule no_winner_yet [OF assms(1) st(1,2) c])
    then show ?thesis
      using g not_paid_yet [OF assms(1) st(2) c] st(4) by (auto simp: cartela_ok_def P')
  qed
  have claims: "\<exists>c\<in>set (update_where sel g cs). pending_ok (gs_status s1) (if selk k then h k else k) c"
    if k: "k \<in> set ks" for k
  proof -
    obtain c where c: "c \<in> set cs" "pending_ok (gs_status s) k c" using assms(1) k by (auto simp: session_ok_def)
    have "(if sel c then g c else c) \<in> set (update_where sel g cs)" unfolding in_update_where using c(1) by blast
    then show ?thesis using pend [OF k c] by blast
  qed
  have "length (filter (\<lambda>k. bc_status k = PENDING) (update_where selk h ks)) \<le>
      length (filter (\<lambda>k. bc_status k = PENDING) ks)"
    by (rule count_update_le) (use h in blast)
  moreover have "length (filter (\<lambda>k. bc_status k = PENDING) ks) \<le> 1" using assms(1) by (simp add: session_ok_def)
  moreover have "gs_winnerCartelaId s = None" "gs_prizeFinalizedAt s = None"
    using assms(1) st(2) by (auto simp: session_ok_def)
  ultimately show ?thesis
    using cart claims st(3) assms(4,5) by (simp add: session_ok_def ball_update_where)
qed

lemma update_where_never [simp]: "update_where (\<lambda>_. False) f xs = xs"
  by (simp add: update_where_def)

text \<open>A transaction on a session that has no winner before or after it.\<close>

lemma plain_local_ok:
  assumes "game_ok db" "s0 \<in> set (gd_sessions db)" "gs_id s0 = sid" "plain (gs_status s0)"
    and "\<And>s. s \<in> set (gd_sessions d1) \<Longrightarrow> gs_id s = sid \<Longrightarrow>
      gs_status s = st \<and> gs_winnerCartelaId s = gs_winnerCartelaId s0 \<and>
      gs_prizeFinalizedAt s = gs_prizeFinalizedAt s0"
    and "plain st" "moves (gs_status s0) st"
    and "live st \<longrightarrow> live (gs_status s0) \<or> (\<forall>x\<in>set (gd_sessions db). \<not> live (gs_status x))"
    and "cartelas_of d1 sid = update_where sel g (cartelas_of db sid)"
    and "claims_of d1 sid = update_where selk h (claims_of db sid)"
    and "\<And>c. gc_id (g c) = gc_id c \<and> gc_isWinner (g c) = gc_isWinner c \<and> gc_status (g c) \<noteq> WINNER"
    and "\<And>k. bc_status (h k) = PENDING \<Longrightarrow> bc_status k = PENDING"
    and "\<And>k c. k \<in> set (claims_of db sid) \<Longrightarrow> c \<in> set (cartelas_of db sid) \<Longrightarrow>
      pending_ok (gs_status s0) k c \<Longrightarrow>
      pending_ok st (if selk k then h k else k) (if sel c then g c else c)"
    and "\<And>u cid. prize_key u cid \<in> paid d1 \<longleftrightarrow> prize_key u cid \<in> paid db"
    and "map bc_id (gd_claims d1) = map bc_id (gd_claims db)" "numbers_of d1 sid = numbers_of db sid"
    and "db_ok (gd_wallet d1)"
  shows "local_ok sid db d1"
proof (rule local_okI [OF assms(1-3)])
  fix s assume s: "s \<in> set (gd_sessions d1)" "gs_id s = sid"
  have ok: "session_ok s0 (cartelas_of db sid) (claims_of db sid) (paid db)"
    using session_okI [OF game_okD(2) [OF assms(1)] assms(2)] assms(3) by simp
  have "session_ok s (cartelas_of d1 sid) (claims_of d1 sid) (paid d1)"
    unfolding assms(9,10) using assms(5) [OF s] assms(6,11-14)
    by (intro plain_session [OF ok assms(4)]) simp_all
  then show "session_ok s (cartelas_of d1 sid) (claims_of d1 sid) (paid d1) \<and> moves (gs_status s0) (gs_status s) \<and>
      (live (gs_status s) \<longrightarrow> live (gs_status s0) \<or> (\<forall>x\<in>set (gd_sessions db). \<not> live (gs_status x)))"
    using assms(5) [OF s] assms(7,8) by simp
next
  show "distinct (map bc_id (gd_claims d1))" "numbers_ok (numbers_of d1 sid)"
    unfolding assms(15,16) using keys_okD(4) game_okD(1,4) assms(1) by blast+
qed (rule assms(17))

section \<open>The start of a game\<close>

lemma find_memD: "find P xs = Some x \<Longrightarrow> x \<in> set xs" "find P xs = Some x \<Longrightarrow> P x"
  using find_in by metis+

lemma start_session_ok:
  assumes "game_ok db" "start_session now codes slotId config db = Inr (r, db')"
    and "fst codes \<notin> gs_id ` set (gd_sessions db)"
  shows "game_ok db' \<and> advances db db'"
proof -
  note keys = game_okD(1) [OF assms(1)]
  obtain db1 where free: "\<forall>x\<in>set (gd_sessions db). \<not> live (gs_status x)"
    and 1: "update_slot slotId (\<lambda>s. s\<lparr>sl_status := PLAYING\<rparr>) db = Inr db1"
    using assms(2) by (auto simp: start_session_def Let_def bind_result_eq_Inr_iff list_ex_iff
        split: option.splits if_split_asm)
  have o1: "opens (fst codes) db db1 \<and> gd_sessions db1 = gd_sessions db"
    by (rule update_slot_opens [OF 1]) simp
  have slots: "map sl_id (gd_slots db1) = map sl_id (gd_slots db)" "db1 = db\<lparr>gd_slots := gd_slots db1\<rparr>"
    using 1 by (auto simp: update_slot_def map_update_where split: if_splits)
  show ?thesis
  proof (cases "find (\<lambda>s. gs_slotId s = slotId \<and> gs_status s = READY) (gd_sessions db)")
    case None
    obtain money where m: "create_session (new_session now codes slotId money PLAYING None) db1 = Inr db'"
      using assms(2) 1 free None by (auto simp: start_session_def Let_def bind_result_eq_Inr_iff list_ex_iff
          split: option.splits if_split_asm)
    have "slotId \<in> sl_id ` set (gd_slots db)"
      using 1 by (force simp: update_slot_def find_slot_def find_None_iff split: if_splits)
    then have "slotId \<in> sl_id ` set (gd_slots db1)" using slots(1) by (metis set_map)
    then have "fresh_session db1 (fst codes) (new_session now codes slotId money PLAYING None)"
      using free o1 by (simp add: fresh_session_def new_session_def)
    then have "opens (fst codes) db1 db'"
      using m opens_create by (auto simp: create_session_def split: if_splits)
    then have "opens (fst codes) db db'" using o1 opens_trans by metis
    then show ?thesis using game_ok_opens [OF assms(1) _ assms(3)] opens_advances by blast
  next
    case (Some ready)
    note ready = find_memD [OF Some]
    define db2 where "db2 = snd (update_sessions now (\<lambda>s. gs_id s = gs_id ready \<and> gs_status s = READY)
        (\<lambda>s. s\<lparr>gs_status := PLAYING, gs_startedAt := now\<rparr>) db1)"
    have db': "db' = db2"
      using assms(2) 1 free Some by (auto simp: start_session_def Let_def bind_result_eq_Inr_iff list_ex_iff
          case_prod_beta db2_def split: option.splits if_split_asm)
    have t1: "touches (gs_id ready) db db1" using touches_slots slots by metis
    have t: "touches (gs_id ready) db db2"
      unfolding db2_def by (rule touches_trans [OF t1 touches_update_sessions]) simp_all
    have v1: "cartelas_of db1 = cartelas_of db" "claims_of db1 = claims_of db" "numbers_of db1 = numbers_of db"
      "paid db1 = paid db" "gd_claims db1 = gd_claims db" "gd_wallet db1 = gd_wallet db"
      using slots(2) by (metis (no_types, lifting) ext cartelas_of_def claims_of_def numbers_of_def paid_def
          game_db.select_convs game_db.update_convs game_db.surjective)+
    have "local_ok (gs_id ready) db db2"
    proof (rule plain_local_ok [OF assms(1) ready(1) refl, where st = PLAYING and sel = "\<lambda>_. False" and selk = "\<lambda>_. False" and g = "\<lambda>c. c\<lparr>gc_status := BLOCKED\<rparr>" and h = id])
      fix s assume s: "s \<in> set (gd_sessions db2)" "gs_id s = gs_id ready"
      have "keys_ok db1"
        using keys_ok_touches [OF keys t1] keys_okD(4) [OF keys] ready(1) v1(5) by simp
      then show "gs_status s = PLAYING \<and> gs_winnerCartelaId s = gs_winnerCartelaId ready \<and>
          gs_prizeFinalizedAt s = gs_prizeFinalizedAt ready"
        using session_after [OF _ _ _ s(1) [unfolded db2_def] s(2)] o1 ready by simp
    qed (use ready free game_okD(5) [OF assms(1)] in \<open>simp_all add: db2_def table_simps v1 moves_def
        canTransitionGameStatus_def pending_ok_def\<close>)
    then show ?thesis
      using game_ok_touches [OF assms(1) t] advances_touches [OF keys t] db' by simp
  qed
qed

section \<open>The mark that closes a window early\<close>

definition mark_early :: "int \<Rightarrow> string \<Rightarrow> game_db \<Rightarrow> nat \<times> game_db" where
  "mark_early now sid db =
     update_sessions now
       (\<lambda>s. gs_id s = sid \<and> gs_status s = WINNER_WINDOW \<and> gs_prizeFinalizedAt s = None)
       (\<lambda>s. s\<lparr>gs_winnerWindowEndsAt := Some now\<rparr>) db"

lemma session_ok_window:
  "session_ok s cs ks P \<Longrightarrow> gs_status s' = gs_status s \<Longrightarrow> gs_winnerCartelaId s' = gs_winnerCartelaId s \<Longrightarrow>
   gs_prizeFinalizedAt s' = gs_prizeFinalizedAt s \<Longrightarrow>
   (gs_winnerWindowEndsAt s' = gs_winnerWindowEndsAt s \<or> gs_winnerWindowEndsAt s' \<noteq> None) \<Longrightarrow>
   session_ok s' cs ks P"
  by (auto simp: session_ok_def)

lemma mark_early_ok:
  assumes "game_ok db"
  shows "game_ok (snd (mark_early now sid db)) \<and> statuses (snd (mark_early now sid db)) = statuses db"
proof (cases "sid \<in> gs_id ` set (gd_sessions db)")
  case False
  then have "update_where (\<lambda>s. gs_id s = sid \<and> gs_status s = WINNER_WINDOW \<and> gs_prizeFinalizedAt s = None) f
      (gd_sessions db) = gd_sessions db" for f
    by (intro update_where_none) auto
  then have "snd (mark_early now sid db) = db" by (simp add: mark_early_def update_sessions_def)
  then show ?thesis using assms by simp
next
  case True
  then obtain s0 where s0: "s0 \<in> set (gd_sessions db)" "gs_id s0 = sid" by auto
  note keys = game_okD(1) [OF assms]
  let ?d = "snd (mark_early now sid db)"
  have t: "touches sid db ?d" unfolding mark_early_def by (rule touches_update_sessions) simp_all
  have "local_ok sid db ?d"
  proof (rule local_okI [OF assms s0])
    fix s assume s: "s \<in> set (gd_sessions ?d)" "gs_id s = sid"
    let ?P = "\<lambda>s. gs_id s = sid \<and> gs_status s = WINNER_WINDOW \<and> gs_prizeFinalizedAt s = None"
    have row: "s = (if ?P s0 then s0\<lparr>gs_winnerWindowEndsAt := Some now, gs_updatedAt := now\<rparr> else s0)"
      using session_after [OF keys s0(1) _ s(1) [unfolded mark_early_def]] s(2) s0(2) by simp
    have "session_ok s0 (cartelas_of db sid) (claims_of db sid) (paid db)"
      using session_okI [OF game_okD(2) [OF assms] s0(1)] s0(2) by simp
    then have "session_ok s (cartelas_of db sid) (claims_of db sid) (paid db)"
      by (rule session_ok_window) (simp_all add: row)
    then show "session_ok s (cartelas_of ?d sid) (claims_of ?d sid) (paid ?d) \<and> moves (gs_status s0) (gs_status s) \<and>
        (live (gs_status s) \<longrightarrow> live (gs_status s0) \<or> (\<forall>x\<in>set (gd_sessions db). \<not> live (gs_status x)))"
      by (simp add: mark_early_def table_simps row)
  qed (use keys_okD(4) [OF keys] game_okD(4,5) [OF assms] in \<open>simp_all add: mark_early_def table_simps\<close>)
  moreover have "statuses ?d = statuses db"
    unfolding mark_early_def by (rule statuses_update) simp
  ultimately show ?thesis using game_ok_touches [OF assms t] by simp
qed

section \<open>The end without a winner\<close>

lemma no_winner_ok:
  assumes "game_ok db" "no_winner_tx cfg now lockFree codes sid db = Inr (r, db')"
    and "fst codes \<notin> gs_id ` set (gd_sessions db)"
  shows "game_ok db' \<and> advances db db'"
proof (cases "\<exists>s\<in>set (gd_sessions db). gs_id s = sid \<and> grace_expired now s")
  case False
  let ?P = "\<lambda>s. gs_id s = sid \<and> grace_expired now s"
  have "count_where ?P (gd_sessions db) = 0" using False by (auto simp: count_where_zero)
  moreover have "update_where ?P f (gd_sessions db) = gd_sessions db" for f
    using False by (intro update_where_none) auto
  ultimately have "db' = db"
    using assms(2) by (auto simp: no_winner_tx_def Let_def update_sessions_def split: option.splits)
  then show ?thesis using assms(1) by simp
next
  case True
  then obtain s0 where s0: "s0 \<in> set (gd_sessions db)" "gs_id s0 = sid" "grace_expired now s0" by blast
  note keys = game_okD(1) [OF assms(1)]
  let ?P = "\<lambda>s. gs_id s = sid \<and> grace_expired now s"
  let ?f = "\<lambda>s. s\<lparr>gs_status := NO_WINNER, gs_finishedAt := Some now, gs_autoCallEnabled := False,
      gs_nextAutoCallAt := None\<rparr>"
  let ?sel = "\<lambda>c. gc_sessionId c = sid \<and> gc_status c = REGISTERED \<and> \<not> gc_isWinner c"
  let ?g = "\<lambda>c. c\<lparr>gc_status := BLOCKED, gc_blockedAt := Some now\<rparr>"
  let ?selk = "\<lambda>k. bc_sessionId k = sid \<and> bc_status k = PENDING"
  let ?h = "\<lambda>k. k\<lparr>bc_status := INVALID,
      bc_reason := Some ''Game ended with no winner after all numbers were called'', bc_checkedAt := Some now\<rparr>"
  define d1 where "d1 = snd (update_sessions now ?P ?f db)"
  define d3 where "d3 = snd (update_claims ?selk ?h (snd (update_cartelas ?sel ?g d1)))"
  have "0 < count_where ?P (gd_sessions db)" using s0 by (auto simp: count_where_pos)
  moreover have "count_where ?P (gd_sessions db) \<le> 1"
    by (rule count_where_key [OF keys_okD(2) [OF keys]]) simp
  ultimately have n: "fst (update_sessions now ?P ?f db) = 1" by (simp add: update_sessions_def)
  have f: "find_session db sid = Some s0" using find_session_iff [OF keys] s0(1,2) by simp
  obtain x db4 opened where x: "restoreSlotAfterSession (gs_slotId s0) d3 = Inr (x, db4)"
    "openNextAutoQueueRegistrationInTransaction cfg now lockFree codes after_finish db4 = Inr (opened, db')"
    using assms(2) f n by (auto simp: no_winner_tx_def Let_def case_prod_beta bind_result_eq_Inr_iff d1_def d3_def)
  have t1: "touches sid db d1" unfolding d1_def by (rule touches_update_sessions) simp_all
  have t: "touches sid db d3"
    unfolding d3_def by (rule touches_trans [OF touches_trans [OF t1 touches_update_cartelas] touches_update_claims]) simp_all
  have st: "gs_status s0 = PLAYING \<or> gs_status s0 = CHECKING" "gs_winnerCartelaId s0 = None"
    using s0(3) by (simp_all add: grace_expired_def)
  have local: "local_ok sid db d3"
  proof (rule plain_local_ok [OF assms(1) s0(1,2), where st = NO_WINNER and sel = ?sel and selk = ?selk and g = ?g and h = ?h])
    fix s assume s: "s \<in> set (gd_sessions d3)" "gs_id s = sid"
    then show "gs_status s = NO_WINNER \<and> gs_winnerCartelaId s = gs_winnerCartelaId s0 \<and>
        gs_prizeFinalizedAt s = gs_prizeFinalizedAt s0"
      using session_after [OF keys s0(1) _ _ , of ?f s now ?P] s0(2,3) by (simp add: d3_def d1_def table_simps)
  next
    show "moves (gs_status s0) NO_WINNER" using st(1) by (auto simp: moves_def canTransitionGameStatus_def)
    show "plain (gs_status s0)" using st(1) by auto
    show "claims_of d3 sid = update_where ?selk ?h (claims_of db sid)"
      unfolding d3_def by (subst claims_of_update) (simp_all add: d1_def table_simps)
    show "cartelas_of d3 sid = update_where ?sel ?g (cartelas_of db sid)"
      unfolding d3_def views_same by (subst cartelas_of_update) (simp_all add: d1_def table_simps)
    show "map bc_id (gd_claims d3) = map bc_id (gd_claims db)"
      unfolding d3_def by (subst claim_ids_update) (simp_all add: d1_def table_simps)
    fix k c assume "k \<in> set (claims_of db sid)"
    then show "pending_ok NO_WINNER (if ?selk k then ?h k else k) (if ?sel c then ?g c else c)"
      if "pending_ok (gs_status s0) k c" using that by (auto simp: pending_ok_def claims_of_def)
  qed (use game_okD(5) [OF assms(1)] in \<open>simp_all add: d3_def d1_def table_simps live_def\<close>)
  have "game_ok db' \<and> advances db db' \<and> opens (fst codes) d3 db'"
    using restored_ok [OF assms(1) t local x(1) _ assms(3), of "\<lambda>_. db'"] opener_opens [OF _ x(2)] by blast
  then show ?thesis by blast
qed

section \<open>The decision of an admin\<close>

lemma load_claim_loaded:
  assumes "game_ok db" "load_claim db claimId = Some (claim, cc)"
  shows "claim \<in> set (gd_claims db)" "bc_id claim = claimId" "loaded db cc (cc_session cc)"
    "gc_sessionId (cc_cartela cc) = bc_sessionId claim" "pending_ok (gs_status (cc_session cc)) claim (cc_cartela cc)"
proof -
  note keys = game_okD(1) [OF assms(1)]
  obtain c s where f: "find_claim db claimId = Some claim" "find_cartela db (bc_gameCartelaId claim) = Some c"
    "find_session db (bc_sessionId claim) = Some s" "cc_cartela cc = c" "cc_session cc = s"
    using assms(2) by (auto simp: load_claim_def split: option.splits)
  have s: "s \<in> set (gd_sessions db)" "gs_id s = bc_sessionId claim" using f(3) find_session_iff [OF keys] by simp_all
  have c: "c \<in> set (gd_cartelas db)" "gc_id c = bc_gameCartelaId claim" using f(2) find_cartela_iff [OF keys] by simp_all
  show k: "claim \<in> set (gd_claims db)" "bc_id claim = claimId" using f(1) find_claim_iff [OF keys] by simp_all
  have "session_ok s (cartelas_of db (gs_id s)) (claims_of db (gs_id s)) (paid db)"
    by (rule session_okI [OF game_okD(2) [OF assms(1)] s(1)])
  moreover have "claim \<in> set (claims_of db (gs_id s))" using k(1) s(2) by (simp add: claims_of_def)
  ultimately obtain x where x: "x \<in> set (cartelas_of db (gs_id s))" "pending_ok (gs_status s) claim x"
    by (auto simp: session_ok_def)
  then have "x = c"
    using cartela_unique [OF keys, of x c] c by (simp add: cartelas_of_def pending_ok_def)
  then show "gc_sessionId (cc_cartela cc) = bc_sessionId claim" "pending_ok (gs_status (cc_session cc)) claim (cc_cartela cc)"
    "loaded db cc (cc_session cc)"
    using x s c f(4,5) by (simp_all add: cartelas_of_def loaded_def)
qed

lemma only_pending:
  assumes "session_ok s cs ks P" "k \<in> set ks" "bc_status k = PENDING" "k' \<in> set ks" "bc_status k' = PENDING"
  shows "k' = k"
proof -
  have "length (filter (\<lambda>k. bc_status k = PENDING) ks) \<le> 1" using assms(1) by (simp add: session_ok_def)
  then obtain x where "set (filter (\<lambda>k. bc_status k = PENDING) ks) \<subseteq> {x}"
    by (cases "filter (\<lambda>k. bc_status k = PENDING) ks") auto
  moreover have "k \<in> set (filter (\<lambda>k. bc_status k = PENDING) ks)" "k' \<in> set (filter (\<lambda>k. bc_status k = PENDING) ks)"
    using assms(2-5) by simp_all
  ultimately show ?thesis by blast
qed

lemma reject_ok:
  assumes "game_ok db" "reject_tx now claimId reason db = Inr (r, db')"
  shows "game_ok db' \<and> advances db db'"
proof -
  note keys = game_okD(1) [OF assms(1)]
  obtain claim cc where l: "load_claim db claimId = Some (claim, cc)"
    using assms(2) by (cases "load_claim db claimId") (auto simp: reject_tx_def)
  note k = load_claim_loaded [OF assms(1) l]
  let ?c = "cc_cartela cc" and ?s0 = "cc_session cc" and ?sid = "bc_sessionId claim"
  let ?sel = "\<lambda>c. gc_id c = gc_id (cc_cartela cc) \<and> gc_status c = REGISTERED"
  let ?g = "\<lambda>c. c\<lparr>gc_status := BLOCKED, gc_blockedAt := Some now\<rparr>"
  let ?selk = "\<lambda>c. bc_id c = bc_id claim"
  define d1 where "d1 = snd (update_cartelas ?sel ?g db)"
  let ?h = "\<lambda>c. c\<lparr>bc_status := INVALID, bc_reason := Some (reject_reason reason), bc_reasonCode := None,
      bc_checkedAt := Some now,
      bc_winningBall := resolveWinningBallFromCalledNumbersSnapshot (called_numbers d1 ?sid)\<rparr>"
  define d2 where "d2 = snd (update_claims ?selk ?h d1)"
  have pend: "bc_status claim = PENDING" and n: "fst (update_cartelas ?sel ?g db) = 1"
    and db': "db' = snd (update_sessions now (\<lambda>s. gs_id s = ?sid) (\<lambda>s. s\<lparr>gs_status := PLAYING\<rparr>) d2)"
    using assms(2) l by (auto simp: reject_tx_def Let_def case_prod_beta bind_result_eq_Inr_iff
        update_claim_Inr update_session_Inr d1_def d2_def split: if_split_asm)
  have "\<exists>c\<in>set (gd_cartelas db). ?sel c" using n by (intro count_matches(2)) simp
  moreover have c: "?c \<in> set (gd_cartelas db)" and s0: "?s0 \<in> set (gd_sessions db)" "gs_id ?s0 = ?sid"
    using k(3,4) by (simp_all add: loaded_def)
  ultimately have reg: "gc_status ?c = REGISTERED" using cartela_unique [OF keys _ c] by auto
  then have st: "gs_status ?s0 = CHECKING" using k(5) pend by (simp add: pending_ok_def)
  have sid: "gc_sessionId x = ?sid" if "x \<in> set (gd_cartelas db)" "?sel x" for x
    using cartela_unique [OF keys that(1) c] that(2) k(4) by simp
  have ksid: "bc_sessionId x = ?sid" if "x \<in> set (gd_claims db)" "?selk x" for x
    using claim_unique [OF keys that(1) k(1)] that(2) by simp
  have t1: "touches ?sid db d1"
    unfolding d1_def by (rule touches_update_cartelas) (use sid in simp_all)
  have t2: "touches ?sid d1 d2"
    unfolding d2_def by (rule touches_update_claims) (use ksid in \<open>simp_all add: d1_def table_simps\<close>)
  have t: "touches ?sid db db'"
    unfolding db' by (rule touches_trans [OF touches_trans [OF t1 t2] touches_update_sessions]) simp_all
  have ids: "map bc_id (gd_claims d2) = map bc_id (gd_claims db)"
    unfolding d2_def by (subst claim_ids_update) (simp_all add: d1_def table_simps)
  have keys2: "keys_ok d2"
    using keys_ok_touches [OF keys touches_trans [OF t1 t2]] keys_okD(4) [OF keys] s0 by (metis ids image_eqI)
  have sess: "gd_sessions d2 = gd_sessions db" by (simp add: d2_def d1_def table_simps)
  have ok: "session_ok ?s0 (cartelas_of db ?sid) (claims_of db ?sid) (paid db)"
    using session_okI [OF game_okD(2) [OF assms(1)] s0(1)] s0(2) by simp
  have "local_ok ?sid db db'"
  proof (rule plain_local_ok [OF assms(1) s0, where st = PLAYING and sel = ?sel and selk = ?selk and g = ?g and h = ?h])
    fix s assume s: "s \<in> set (gd_sessions db')" "gs_id s = ?sid"
    then show "gs_status s = PLAYING \<and> gs_winnerCartelaId s = gs_winnerCartelaId ?s0 \<and>
        gs_prizeFinalizedAt s = gs_prizeFinalizedAt ?s0"
      using session_after [OF keys2 _ _ s(1) [unfolded db'], of ?s0] s0 sess by simp
  next
    show "claims_of db' ?sid = update_where ?selk ?h (claims_of db ?sid)"
      unfolding db' views_same d2_def by (subst claims_of_update) (simp_all add: d1_def table_simps)
    show "cartelas_of db' ?sid = update_where ?sel ?g (cartelas_of db ?sid)"
      unfolding db' views_same d2_def d1_def by (subst cartelas_of_update) simp_all
    show "map bc_id (gd_claims db') = map bc_id (gd_claims db)"
      unfolding db' update_sessions_sel by (rule ids)
    fix x c assume x: "x \<in> set (claims_of db ?sid)" "pending_ok (gs_status ?s0) x c"
    have "claim \<in> set (claims_of db ?sid)" using k(1) by (simp add: claims_of_def)
    then have "bc_status x = PENDING \<Longrightarrow> x = claim" using only_pending [OF ok _ pend x(1)] by blast
    then show "pending_ok PLAYING (if ?selk x then ?h x else x) (if ?sel c then ?g c else c)"
      using x(2) by (auto simp: pending_ok_def)
  qed (use game_okD(5) [OF assms(1)] st in \<open>simp_all add: db' d2_def d1_def table_simps live_def moves_def
      canTransitionGameStatus_def\<close>)
  then show ?thesis
    using game_ok_touches [OF assms(1) t] advances_touches [OF keys t] by simp
qed

text \<open>An approval opens the next registration before it pays and decides the claim.\<close>

lemma opens_after:
  assumes "opens newId d d'"
  shows "opens newId (d\<lparr>gd_wallet := w, gd_claims := ks\<rparr>) (d'\<lparr>gd_wallet := w, gd_claims := ks\<rparr>)"
proof -
  obtain slots old new where o: "d' = d\<lparr>gd_slots := slots, gd_sessions := old @ new\<rparr>"
    "map sl_id slots = map sl_id (gd_slots d)" "list_all2 quiet (gd_sessions d) old"
    "new = [] \<or> (\<exists>s. new = [s] \<and> fresh_session d newId s)"
    using assms unfolding opens_def by blast
  then show ?thesis
    unfolding opens_def
    by (intro exI [of _ slots] exI [of _ old] exI [of _ new]) (auto simp: fresh_session_def)
qed

lemma restore_touches:
  assumes "restoreSlotAfterSession slotId db = Inr (r, db')"
  shows "touches sid db db'" "gd_claims db' = gd_claims db" "gd_sessions db' = gd_sessions db"
proof -
  fix newId
  have o: "opens newId db db'" "gd_sessions db' = gd_sessions db" using restoreSlot_opens [OF assms] by blast+
  obtain slots where s: "db' = db\<lparr>gd_slots := slots, gd_sessions := gd_sessions db\<rparr>" "map sl_id slots = map sl_id (gd_slots db)"
    using o unfolding opens_def by auto
  have "db' = db\<lparr>gd_slots := slots\<rparr>" using s(1) by simp
  then show "touches sid db db'" using touches_slots [OF s(2)] by simp
  show "gd_claims db' = gd_claims db" "gd_sessions db' = gd_sessions db" using s(1) by simp_all
qed

lemma approve_ok:
  assumes "game_ok db" "approve_tx cfg now lockFree codes newId claimId db = Inr (r, db')"
    and "fst codes \<notin> gs_id ` set (gd_sessions db)" "newId \<notin> ledger_ids (gd_wallet db)"
  shows "game_ok db' \<and> advances db db'"
proof -
  note keys = game_okD(1) [OF assms(1)]
  obtain claim cc where l: "load_claim db claimId = Some (claim, cc)"
    using assms(2) by (cases "load_claim db claimId") (auto simp: approve_tx_def)
  note k = load_claim_loaded [OF assms(1) l]
  let ?c = "cc_cartela cc" and ?s0 = "cc_session cc" and ?sid = "bc_sessionId claim"
  let ?sel = "\<lambda>x. gc_id x = gc_id (cc_cartela cc) \<and> gc_status x = REGISTERED \<and> \<not> gc_isWinner x"
  let ?g = "\<lambda>x. x\<lparr>gc_status := WINNER, gc_isWinner := True, gc_blockedAt := None\<rparr>"
  let ?P = "\<lambda>s. gs_id s = bc_sessionId claim \<and> live (gs_status s) \<and> gs_winnerCartelaId s = None"
  let ?f = "\<lambda>s. s\<lparr>gs_status := FINISHED, gs_winnerCartelaId := Some (gc_id (cc_cartela cc)),
      gs_finishedAt := Some now, gs_noWinnerGraceEndsAt := None, gs_noWinnerReason := None\<rparr>"
  let ?selk = "\<lambda>c. bc_id c = bc_id claim"
  let ?h = "\<lambda>c. c\<lparr>bc_status := VALID, bc_reason := None, bc_reasonCode := None, bc_checkedAt := Some now\<rparr>"
  have c: "?c \<in> set (gd_cartelas db)" "gc_sessionId ?c = ?sid" and s0: "?s0 \<in> set (gd_sessions db)" "gs_id ?s0 = ?sid"
    using k(3,4) by (simp_all add: loaded_def)
  define d1 where "d1 = snd (update_cartelas ?sel ?g db)"
  define d2 where "d2 = snd (update_sessions now ?P ?f d1)"
  have f: "find_session d1 ?sid = Some ?s0"
    using find_session_iff [OF keys, of ?sid ?s0] s0 by (simp add: find_session_def d1_def table_simps)
  have pend: "bc_status claim = PENDING" and n: "fst (mark_winner (gc_id ?c) db) = 1"
    using assms(2) l by (auto simp: approve_tx_def Let_def case_prod_beta split: if_split_asm)
  have m1: "snd (mark_winner (gc_id ?c) db) = d1" by (simp add: mark_winner_def d1_def)
  obtain opened d4 where fin: "finishGameWithWinner cfg now lockFree codes ?sid (gc_id ?c) d1 = Inr ((True, opened), d4)"
    and rest: "bind_result (wallet_tx (\<lambda>w. creditWallet newId id w (bc_userId claim) (gs_prizeAmount ?s0)
        (prize_meta ?s0 (gc_id ?c))) d4) (\<lambda>(_, db3).
      bind_result (update_claim (bc_id claim) ?h db3) (\<lambda>db4. Inr (?h claim, db4))) = Inr (r, db')"
    using assms(2) l n s0(2) by (auto simp: approve_tx_def Let_def case_prod_beta bind_result_eq_Inr_iff m1 split: if_split_asm)
  obtain x d3 where tx: "restoreSlotAfterSession (gs_slotId ?s0) d2 = Inr (x, d3)"
    "openNextAutoQueueRegistrationInTransaction cfg now lockFree codes after_finish d3 = Inr (opened, d4)"
    using fin f by (auto simp: finishGameWithWinner_def Let_def case_prod_beta bind_result_eq_Inr_iff d2_def split: if_split_asm)
  obtain ident d5 where pay: "wallet_tx (\<lambda>w. creditWallet newId id w (bc_userId claim) (gs_prizeAmount ?s0)
        (prize_meta ?s0 (gc_id ?c))) d4 = Inr (ident, d5)"
    and db': "db' = snd (update_claims ?selk ?h d5)"
    using rest by (auto simp: bind_result_eq_Inr_iff update_claim_Inr)
  have "\<exists>x\<in>set (gd_cartelas db). ?sel x" by (rule mark_winner_matches [OF n])
  then have reg: "?sel ?c" using cartela_unique [OF keys _ c(1)] by auto
  then have st: "gs_status ?s0 = CHECKING" using k(5) pend by (simp add: pending_ok_def)
  have only: "x = ?c" if "x \<in> set (gd_cartelas db)" "?sel x" for x
    using cartela_unique [OF keys that(1) c(1)] that(2) by simp
  have ok: "session_ok ?s0 (cartelas_of db ?sid) (claims_of db ?sid) (paid db)"
    using session_okI [OF game_okD(2) [OF assms(1)] s0(1)] s0(2) by simp
  have t1: "touches ?sid db d1"
    unfolding d1_def by (rule touches_update_cartelas) (use only c(2) in auto)
  have t2: "touches ?sid db d2"
    unfolding d2_def by (rule touches_trans [OF t1 touches_update_sessions]) simp_all
  have sid: "?sid \<in> gs_id ` set (gd_sessions db)" using s0 by (metis image_eqI)
  have cl2: "gd_claims d2 = gd_claims db" "gd_wallet d2 = gd_wallet db" by (simp_all add: d2_def d1_def table_simps)
  have keys1: "keys_ok d1"
    using keys_ok_touches [OF keys t1 _ sid] keys_okD(4) [OF keys] by (simp add: d1_def table_simps)
  have keys3: "keys_ok d3"
    using keys_ok_touches [OF keys touches_trans [OF t2 restore_touches(1) [OF tx(1)]] _ sid] keys_okD(4) [OF keys]
    by (simp add: restore_touches(2) [OF tx(1)] cl2)
  have o: "opens (fst codes) d2 d4"
    using restoreSlot_opens [OF tx(1)] opener_opens [OF keys3 tx(2)] opens_trans by metis
  have w4: "gd_wallet d4 = gd_wallet db" "gd_claims d4 = gd_claims db" using opens_map_id [OF o] cl2 by simp_all
  have user: "bc_userId claim = gc_userId ?c" using k(5) by (simp add: pending_ok_def)
  obtain w where w: "d5 = d4\<lparr>gd_wallet := w\<rparr>" "db_ok w" "posted w = insert (prize_key (gc_userId ?c) (gc_id ?c)) (paid db)"
    using credit_tx [OF pay] assms(4) game_okD(5) [OF assms(1)] by (auto simp: w4 prize_meta_key user paid_def)
  define ks where "ks = update_where ?selk ?h (gd_claims db)"
  define d6 where "d6 = d2\<lparr>gd_wallet := w, gd_claims := ks\<rparr>"
  have db'': "db' = d4\<lparr>gd_wallet := w, gd_claims := ks\<rparr>"
    unfolding db' w(1) ks_def by (simp add: update_claims_def w4)
  have o6: "opens (fst codes) d6 db'" unfolding d6_def db'' by (rule opens_after [OF o])
  have d6: "d6 = snd (update_claims ?selk ?h (d2\<lparr>gd_wallet := w\<rparr>))"
    by (simp add: d6_def update_claims_def cl2 ks_def)
  have views: "cartelas_of d6 ?sid = update_where ?sel ?g (cartelas_of db ?sid)"
    "claims_of d6 ?sid = update_where ?selk ?h (claims_of db ?sid)" "paid d6 = posted w"
    "numbers_of d6 ?sid = numbers_of db ?sid" "gd_wallet d6 = w" "gd_sessions d6 = gd_sessions d2"
  proof -
    have "cartelas_of d6 ?sid = cartelas_of d1 ?sid" by (simp add: d6_def d2_def cartelas_of_def table_simps)
    then show "cartelas_of d6 ?sid = update_where ?sel ?g (cartelas_of db ?sid)"
      by (simp add: d1_def cartelas_of_update)
    show "claims_of d6 ?sid = update_where ?selk ?h (claims_of db ?sid)"
      unfolding d6 by (subst claims_of_update) (simp_all add: claims_of_def cl2)
  qed (simp_all add: d6_def d2_def d1_def paid_def numbers_of_def table_simps)
  have "touches ?sid d2 (d2\<lparr>gd_wallet := w\<rparr>)"
  proof (rule touches_prizes [where Q = "{prize_key (gc_userId ?c) (gc_id ?c)}"])
    show "posted w = {prize_key (gc_userId ?c) (gc_id ?c)} \<union> paid d2"
      by (simp add: w(3) paid_def cl2)
    have "?g ?c \<in> set (cartelas_of d2 ?sid)"
      using c reg by (auto simp: d2_def d1_def cartelas_of_update cartelas_of_def table_simps update_cartelas_def)
    then show "{prize_key (gc_userId ?c) (gc_id ?c)} \<subseteq> (\<lambda>c. prize_key (gc_userId c) (gc_id c)) ` set (cartelas_of d2 ?sid)"
      by (intro subsetI, simp) (rule image_eqI [where x = "?g ?c"], simp_all)
  qed
  moreover have "touches ?sid (d2\<lparr>gd_wallet := w\<rparr>) d6"
    unfolding d6 by (rule touches_update_claims) (use claim_unique [OF keys _ k(1)] in \<open>auto simp: cl2\<close>)
  ultimately have t: "touches ?sid db d6" using touches_trans t2 by blast
  have c': "?c \<in> set (cartelas_of db ?sid)" using c by (simp add: cartelas_of_def)
  have M: "set (update_where ?sel ?g (cartelas_of db ?sid)) = insert (?g ?c) (set (cartelas_of db ?sid) - {?c})"
  proof -
    have "(if ?sel x then ?g x else x) = (if x = ?c then ?g ?c else x)" if "x \<in> set (cartelas_of db ?sid)" for x
      using only [of x] reg that by (auto simp: cartelas_of_def)
    then have "set (update_where ?sel ?g (cartelas_of db ?sid)) =
        (\<lambda>x. if x = ?c then ?g ?c else x) ` set (cartelas_of db ?sid)"
      unfolding update_where_def set_map by (rule image_cong [OF refl])
    then show ?thesis using c' by auto
  qed
  have losers: "\<not> gc_isWinner x \<and> gc_status x \<noteq> WINNER" if "x \<in> set (cartelas_of db ?sid)" for x
    using no_winner_yet [OF ok _ _ that] st by simp
  have "local_ok ?sid db d6"
  proof (rule local_okI [OF assms(1) s0])
    fix s assume s: "s \<in> set (gd_sessions d6)" "gs_id s = ?sid"
    have "gs_winnerCartelaId ?s0 = None" using ok st by (auto simp: session_ok_def)
    then have fin: "gs_status s = FINISHED"
      using session_after [OF keys1 _ _ s(1) [unfolded views d2_def], of ?s0] s0 s(2) st
      by (simp add: d1_def table_simps live_def)
    have "session_ok s (cartelas_of d6 ?sid) (claims_of d6 ?sid) (paid d6)"
      unfolding views
    proof (rule finished_session [OF ok _ fin])
      show "\<forall>k\<in>set (update_where ?selk ?h (claims_of db ?sid)). bc_status k \<noteq> PENDING \<and>
          (\<exists>c\<in>set (update_where ?sel ?g (cartelas_of db ?sid)). gc_id c = bc_gameCartelaId k \<and> gc_userId c = bc_userId k)"
        unfolding M
      proof (rule ball_update_where [THEN iffD2], intro ballI)
        fix x assume x: "x \<in> set (claims_of db ?sid)"
        have "claim \<in> set (claims_of db ?sid)" using k(1) by (simp add: claims_of_def)
        then have "bc_status x = PENDING \<Longrightarrow> x = claim" using only_pending [OF ok _ pend x] by blast
        moreover obtain y where "y \<in> set (cartelas_of db ?sid)" "gc_id y = bc_gameCartelaId x" "gc_userId y = bc_userId x"
          using ok x by (auto simp: session_ok_def pending_ok_def)
        moreover have "gc_id (?g ?c) = gc_id ?c \<and> gc_userId (?g ?c) = gc_userId ?c" by simp
        ultimately show "bc_status (if ?selk x then ?h x else x) \<noteq> PENDING \<and>
            (\<exists>c\<in>insert (?g ?c) (set (cartelas_of db ?sid) - {?c}).
              gc_id c = bc_gameCartelaId (if ?selk x then ?h x else x) \<and>
              gc_userId c = bc_userId (if ?selk x then ?h x else x))"
          by (cases "y = ?c") auto
      qed
      show "\<forall>c\<in>set (update_where ?sel ?g (cartelas_of db ?sid)). gc_isWinner c = (gc_status c = WINNER)"
        unfolding M using losers by simp
      show "gc_id ` set (update_where ?sel ?g (cartelas_of db ?sid)) = gc_id ` set (cartelas_of db ?sid)"
        unfolding M using c by (auto simp: cartelas_of_def image_iff)
      show "\<forall>a\<in>set (update_where ?sel ?g (cartelas_of db ?sid)). \<forall>x\<in>set (update_where ?sel ?g (cartelas_of db ?sid)).
          gc_id x = gc_id a \<longrightarrow> x = a"
        unfolding M using unique_in_session [OF keys, of ?sid] c' by auto
      have "{a \<in> insert (?g ?c) (set (cartelas_of db ?sid) - {?c}). gc_isWinner a} = {?g ?c}"
        using losers by auto
      then show "posted w = (\<lambda>c. prize_key (gc_userId c) (gc_id c)) `
          {a \<in> set (update_where ?sel ?g (cartelas_of db ?sid)). gc_isWinner a} \<union> paid db"
        unfolding M w(3) by simp
    qed (use st in simp)
    then show "session_ok s (cartelas_of d6 ?sid) (claims_of d6 ?sid) (paid d6) \<and> moves (gs_status ?s0) (gs_status s) \<and>
        (live (gs_status s) \<longrightarrow> live (gs_status ?s0) \<or> (\<forall>x\<in>set (gd_sessions db). \<not> live (gs_status x)))"
      by (simp add: fin st moves_def canTransitionGameStatus_def live_def)
  next
    show "distinct (map bc_id (gd_claims d6))"
      unfolding d6 by (subst claim_ids_update) (use keys_okD(4) [OF keys] in \<open>simp_all add: cl2\<close>)
  qed (use game_okD(4) [OF assms(1)] w(2) in \<open>simp_all add: views\<close>)
  then show ?thesis using transaction_ok [OF assms(1) t _ o6 assms(3)] by blast
qed

end
