(* ===== verification/CancelSteps.thy ===== *)
theory CancelSteps
  imports EndSteps
begin

text \<open>
  A cancellation keeps the invariant, and its refunds give every user what the cartelas cost: the
  totals by user, the loop over the users, the transaction.
\<close>

section \<open>The totals by user\<close>

definition bought :: "payment_source \<Rightarrow> string \<Rightarrow> game_cartela list \<Rightarrow> nat" where
  "bought source u cs =
     length (filter (\<lambda>c. gc_userId c = u \<and> gc_paymentSource c = Some source) cs)"

definition total_of :: "refund_totals \<Rightarrow> string \<Rightarrow> nat \<times> nat" where
  "total_of refunds u = or_else (map_of refunds u) (0, 0)"

lemma total_of_set_totals:
  "total_of (set_totals u t refunds) v = (if v = u then t else total_of refunds v)"
  by (induction u t refunds rule: set_totals.induct) (auto simp: total_of_def or_else_def)

lemma fst_set_totals: "fst ` set (set_totals u t refunds) = insert u (fst ` set refunds)"
  by (induction u t refunds rule: set_totals.induct) auto

lemma distinct_set_totals: "distinct (map fst refunds) \<Longrightarrow> distinct (map fst (set_totals u t refunds))"
  by (induction u t refunds rule: set_totals.induct) (auto simp: fst_set_totals)

lemma add_refund_total:
  "total_of (add_refund c refunds) u =
     (if u = gc_userId c then
        (fst (total_of refunds u) + bought MONEY_WALLET u [c], snd (total_of refunds u) + bought BONUS_CARTELA u [c])
      else total_of refunds u)"
proof -
  have eq: "add_refund c refunds = set_totals (gc_userId c)
      (fst (total_of refunds (gc_userId c)) + bought MONEY_WALLET (gc_userId c) [c],
       snd (total_of refunds (gc_userId c)) + bought BONUS_CARTELA (gc_userId c) [c]) refunds"
    by (cases "gc_paymentSource c"; cases "the (gc_paymentSource c)")
      (simp_all add: add_refund_def total_of_def bought_def case_prod_beta)
  show ?thesis unfolding eq total_of_set_totals by simp
qed

lemma refunds_fold:
  "distinct (map fst refunds) \<Longrightarrow>
   distinct (map fst (fold add_refund cs refunds)) \<and>
   total_of (fold add_refund cs refunds) u =
     (fst (total_of refunds u) + bought MONEY_WALLET u cs, snd (total_of refunds u) + bought BONUS_CARTELA u cs)"
proof (induction cs arbitrary: refunds)
  case (Cons c cs)
  have "distinct (map fst (add_refund c refunds))"
    using distinct_set_totals [OF Cons.prems] by (simp add: add_refund_def case_prod_beta)
  then show ?case
    using Cons.IH [of "add_refund c refunds"] by (simp add: add_refund_total) (simp add: bought_def)
qed (simp add: bought_def)

lemma refundTotalsByUser_totals:
  "distinct (map fst (refundTotalsByUser cs))"
  "total_of (refundTotalsByUser cs) u = (bought MONEY_WALLET u cs, bought BONUS_CARTELA u cs)"
  using refunds_fold [of "[]" cs u] by (simp_all add: refundTotalsByUser_def total_of_def or_else_def)

lemma users_of_totals: "fst ` set (refundTotalsByUser cs) = gc_userId ` set cs"
proof -
  have "fst ` set (fold add_refund cs refunds) = gc_userId ` set cs \<union> fst ` set refunds" for refunds
  proof (induction cs arbitrary: refunds)
    case (Cons c cs)
    have "fst ` set (add_refund c refunds) = insert (gc_userId c) (fst ` set refunds)"
      by (simp add: add_refund_def case_prod_beta fst_set_totals)
    then show ?case using Cons by simp
  qed simp
  then show ?thesis by (simp add: refundTotalsByUser_def)
qed

section \<open>The loop over the users\<close>

lemma credit_bonus_state:
  assumes "creditBonusCartelas w u k = (Inr r, w')" "0 < k" "db_ok w"
  shows "db_ok w' \<and> posted w' = posted w \<and> ledger_ids w' = ledger_ids w \<and>
    (\<forall>v. available w' v = available w v) \<and> (\<forall>v. bonus_of w' v = bonus_of w v + (if v = u then k else 0))"
proof -
  obtain row where row: "db_wallets w u = Some row"
    "w' = w\<lparr>db_wallets := (db_wallets w)(u \<mapsto> row\<lparr>wa_bonusCartelaBalance := wa_bonusCartelaBalance row + k\<rparr>)\<rparr>"
    using assms(1,2) by (auto simp: creditBonusCartelas_def Let_def split: option.splits if_splits)
  have "0 \<le> wa_bonusCartelaBalance row" using assms(3) row(1) by (auto simp: db_ok_def wallet_ok_def)
  then have "db_ok w'"
    unfolding row(2) using bonus_update_ok [OF assms(3) row(1)] assms(2) by simp
  then show ?thesis
    using row by (simp add: posted_def ledger_ids_def available_def bonus_of_def)
qed

definition refund_key :: "string \<Rightarrow> session_row \<Rightarrow> ledger_key" where
  "refund_key u s = meta_key u (refund_meta s u 0)"

lemma refund_key_eq: "meta_key u (refund_meta s u k) = refund_key u s"
  by (simp add: refund_key_def meta_key_def refund_meta_def del: show_nat.simps)

lemma refund_key_apart: "prize_key u cid \<noteq> refund_key v s"
  by (simp add: prize_key_def refund_key_def meta_key_def refund_meta_def)

definition refunded :: "session_row \<Rightarrow> refund_totals \<Rightarrow> wallet_db \<Rightarrow> wallet_db \<Rightarrow> bool" where
  "refunded s refunds w w' \<longleftrightarrow>
     db_ok w' \<and> (\<forall>u cid. prize_key u cid \<in> posted w' \<longleftrightarrow> prize_key u cid \<in> posted w) \<and>
     posted w' \<subseteq> posted w \<union> (\<lambda>u. refund_key u s) ` fst ` set refunds \<and>
     (\<forall>v. bonus_of w' v = bonus_of w v + int (snd (total_of refunds v))) \<and>
     ((\<forall>v\<in>fst ` set refunds. refund_key v s \<notin> posted w) \<longrightarrow>
       (\<forall>v. available w' v = available w v + gs_entryFee s * of_nat (fst (total_of refunds v))))"

lemma money_step:
  assumes "(if 0 < money then
      bind_result (wallet_tx (\<lambda>w. creditWallet ident id w u (gs_entryFee s * of_nat money) (refund_meta s u money)) db)
        (\<lambda>(_, db'). Inr db')
    else Inr db) = Inr db1"
    and "ident \<notin> ledger_ids (gd_wallet db)" "db_ok (gd_wallet db)"
  shows "\<exists>w1. db1 = db\<lparr>gd_wallet := w1\<rparr> \<and> db_ok w1 \<and>
    posted w1 \<subseteq> insert (refund_key u s) (posted (gd_wallet db)) \<and> posted (gd_wallet db) \<subseteq> posted w1 \<and>
    ledger_ids w1 \<subseteq> insert ident (ledger_ids (gd_wallet db)) \<and>
    (\<forall>v. bonus_of w1 v = bonus_of (gd_wallet db) v) \<and>
    (refund_key u s \<notin> posted (gd_wallet db) \<longrightarrow>
      (\<forall>v. available w1 v = available (gd_wallet db) v + (if v = u then gs_entryFee s * of_nat money else 0)))"
proof (cases "0 < money")
  case True
  obtain r where r: "wallet_tx (\<lambda>w. creditWallet ident id w u (gs_entryFee s * of_nat money) (refund_meta s u money)) db = Inr (r, db1)"
    using assms(1) True by (auto simp: bind_result_eq_Inr_iff)
  show ?thesis
    using credit_tx [OF r assms(2,3)] unfolding refund_key_eq by (smt (verit) insert_iff subset_iff)
next
  case False
  then have "db1 = db" using assms(1) by simp
  then show ?thesis using False assms(3) by (intro exI [of _ "gd_wallet db"]) auto
qed

lemma bonus_step:
  assumes "(if 0 < bonus then bind_result (wallet_tx (\<lambda>w. creditBonusCartelas w u (int bonus)) db) (\<lambda>(_, db'). Inr db')
      else Inr db) = Inr db1"
    and "db_ok (gd_wallet db)"
  shows "\<exists>w1. db1 = db\<lparr>gd_wallet := w1\<rparr> \<and> db_ok w1 \<and> posted w1 = posted (gd_wallet db) \<and>
    ledger_ids w1 = ledger_ids (gd_wallet db) \<and> (\<forall>v. available w1 v = available (gd_wallet db) v) \<and>
    (\<forall>v. bonus_of w1 v = bonus_of (gd_wallet db) v + (if v = u then int bonus else 0))"
proof (cases "0 < bonus")
  case True
  obtain r w1 where "creditBonusCartelas (gd_wallet db) u (int bonus) = (Inr r, w1)" "db1 = db\<lparr>gd_wallet := w1\<rparr>"
    using assms(1) True by (auto simp: bind_result_eq_Inr_iff wallet_tx_def split: prod.splits sum.splits)
  then show ?thesis using credit_bonus_state [of "gd_wallet db" u "int bonus" r w1] True assms(2) by auto
next
  case False
  then show ?thesis using assms by (intro exI [of _ "gd_wallet db"]) auto
qed

lemma refund_users_state:
  assumes "refund_users newId s refunds db = Inr db'" "ids_free newId (map fst refunds) (gd_wallet db)"
    and "db_ok (gd_wallet db)" "distinct (map fst refunds)"
  shows "\<exists>w'. db' = db\<lparr>gd_wallet := w'\<rparr> \<and> refunded s refunds (gd_wallet db) w'"
  using assms
proof (induction refunds arbitrary: db)
  case Nil
  then show ?case by (intro exI [of _ "gd_wallet db"]) (simp add: refunded_def total_of_def or_else_def)
next
  case (Cons p rest)
  obtain u money bonus where p: "p = (u, money, bonus)" by (metis prod.exhaust)
  obtain db1 db2 where s1: "(if 0 < money then
      bind_result (wallet_tx (\<lambda>w. creditWallet (newId u) id w u (gs_entryFee s * of_nat money) (refund_meta s u money)) db)
        (\<lambda>(_, db'). Inr db')
    else Inr db) = Inr db1"
    and s2: "(if 0 < bonus then bind_result (wallet_tx (\<lambda>w. creditBonusCartelas w u (int bonus)) db1) (\<lambda>(_, db'). Inr db')
      else Inr db1) = Inr db2"
    and s3: "refund_users newId s rest db2 = Inr db'"
    using Cons.prems(1) unfolding p refund_users.simps bind_result_eq_Inr_iff by blast
  have fresh: "newId u \<notin> ledger_ids (gd_wallet db)" using Cons.prems(2) by (simp add: p ids_free_def)
  obtain w1 where w1: "db1 = db\<lparr>gd_wallet := w1\<rparr>" "db_ok w1"
    "posted w1 \<subseteq> insert (refund_key u s) (posted (gd_wallet db))" "posted (gd_wallet db) \<subseteq> posted w1"
    "ledger_ids w1 \<subseteq> insert (newId u) (ledger_ids (gd_wallet db))" "\<forall>v. bonus_of w1 v = bonus_of (gd_wallet db) v"
    "refund_key u s \<notin> posted (gd_wallet db) \<longrightarrow>
      (\<forall>v. available w1 v = available (gd_wallet db) v + (if v = u then gs_entryFee s * of_nat money else 0))"
    using money_step [OF s1 fresh Cons.prems(3)] by blast
  obtain w2 where w2: "db2 = db\<lparr>gd_wallet := w2\<rparr>" "db_ok w2" "posted w2 = posted w1" "ledger_ids w2 = ledger_ids w1"
    "\<forall>v. available w2 v = available w1 v" "\<forall>v. bonus_of w2 v = bonus_of w1 v + (if v = u then int bonus else 0)"
    using bonus_step [OF s2] w1(1,2) by auto
  have free2: "ids_free newId (map fst rest) (gd_wallet db2)"
    using ids_free_Cons [of newId u "map fst rest" "gd_wallet db" w2] Cons.prems(2) w1(5) w2(1,4) by (simp add: p)
  obtain w' where w': "db' = db2\<lparr>gd_wallet := w'\<rparr>" "refunded s rest w2 w'"
    using Cons.IH [OF s3 free2] w2(1,2) Cons.prems(4) by auto
  have u: "u \<notin> fst ` set rest" using Cons.prems(4) by (simp add: p)
  have "map_of rest u = None" using u by (simp add: map_of_eq_None_iff)
  then have none: "total_of rest u = (0, 0)" by (simp add: total_of_def or_else_def)
  have tot: "total_of (p # rest) v = (if v = u then (money, bonus) else total_of rest v)" for v
    by (simp add: p total_of_def or_else_def)
  note r = w'(2) [unfolded refunded_def]
  have posts: "posted w' \<subseteq> posted (gd_wallet db) \<union> (\<lambda>u. refund_key u s) ` fst ` set (p # rest)"
    using r w1(3) w2(3) by (auto simp: p)
  have prize: "prize_key v cid \<in> posted w' \<longleftrightarrow> prize_key v cid \<in> posted (gd_wallet db)" for v cid
    using r w1(3,4) w2(3) refund_key_apart by fastforce
  have bonuses: "bonus_of w' v = bonus_of (gd_wallet db) v + int (snd (total_of (p # rest) v))" for v
    using r w1(6) w2(6) none by (simp add: tot)
  have money': "available w' v = available (gd_wallet db) v + gs_entryFee s * of_nat (fst (total_of (p # rest) v))"
    if free: "\<forall>v\<in>fst ` set (p # rest). refund_key v s \<notin> posted (gd_wallet db)" for v
  proof -
    have "refund_key x s \<notin> posted w2" if "x \<in> fst ` set rest" for x
    proof -
      have "x \<noteq> u" using that u by blast
      then have "refund_key x s \<noteq> refund_key u s" by (simp add: refund_key_def meta_key_def)
      then show ?thesis using free that w1(3) w2(3) by auto
    qed
    then have "available w' v = available w2 v + gs_entryFee s * of_nat (fst (total_of rest v))" using r by blast
    moreover have "refund_key u s \<notin> posted (gd_wallet db)" using free by (simp add: p)
    ultimately show ?thesis using w1(7) w2(5) none by (simp add: tot)
  qed
  show ?case
    using w'(1) w2(1) r posts prize bonuses money' by (intro exI [of _ w']) (simp add: refunded_def)
qed

section \<open>The transaction\<close>

definition cancel_mark :: "int \<Rightarrow> string \<Rightarrow> cancel_reason \<Rightarrow> game_db \<Rightarrow> game_db" where
  "cancel_mark now sid reason db =
     snd (update_sessions now (\<lambda>s. gs_id s = sid \<and> cancellable (gs_status s))
       (\<lambda>s. s\<lparr>gs_status := CANCELLED, gs_cancelledReason := Some (reason_text reason),
             gs_autoCallEnabled := False, gs_nextAutoCallAt := None, gs_scheduledStartAt := None\<rparr>) db)"

definition cancel_cartelas :: "string \<Rightarrow> game_db \<Rightarrow> game_db" where
  "cancel_cartelas sid db =
     snd (update_cartelas (\<lambda>c. gc_sessionId c = sid \<and> gc_status c \<noteq> CARTELA_CANCELLED)
       (\<lambda>c. c\<lparr>gc_status := CARTELA_CANCELLED\<rparr>) db)"

lemma thrown_Inr [simp]: "thrown r = Inr x \<longleftrightarrow> r = Inr x"
  by (cases r) (simp_all add: thrown_def)

lemma cancel_cases:
  assumes "cancel_tx cfg now lockFree codes newId sid reason options db = Inr (r, db')" "keys_ok db"
  obtains s0 db2 db4 where
    "s0 \<in> set (gd_sessions db)" "gs_id s0 = sid" "cancellable (gs_status s0)"
    "(if 0 < gs_entryFee s0 then refund_users newId s0 (refundTotalsByUser (active_cartelas db sid)) (cancel_mark now sid reason db)
      else Inr (cancel_mark now sid reason db)) = Inr db2"
    "db4 = cancel_cartelas sid db2 \<and> db' = db4 \<or>
     (\<exists>x. restoreSlotAfterSession (gs_slotId s0) (cancel_cartelas sid db2) = Inr (x, db4)) \<and>
       (db' = db4 \<or> (\<exists>opened. openNextAutoQueueRegistrationInTransaction cfg now lockFree codes cancel_options_open db4
          = Inr (opened, db')))"
    "cd_refundedCount r = length (active_cartelas db sid)"
    "\<not> (co_abortIfPlayersRegistered options \<and> active_cartelas db sid \<noteq> [])"
proof -
  obtain s0 where f: "find_session db sid = Some s0"
    using assms(1) by (cases "find_session db sid") (simp_all add: cancel_tx_def)
  have s0: "s0 \<in> set (gd_sessions db)" "gs_id s0 = sid" using find_session_iff [OF assms(2)] f by simp_all
  have can: "cancellable (gs_status s0)" using assms(1) f by (auto simp: cancel_tx_def split: if_split_asm)
  have act: "active_cartelas (cancel_mark now sid reason db) sid = active_cartelas db sid"
    by (simp add: active_cartelas_def cancel_mark_def table_simps)
  let ?P = "\<lambda>s. gs_id s = sid \<and> cancellable (gs_status s)"
  have "0 < count_where ?P (gd_sessions db)" using s0 can by (auto simp: count_where_pos)
  moreover have "count_where ?P (gd_sessions db) \<le> 1"
    by (rule count_where_key [OF keys_okD(2) [OF assms(2)]]) simp
  ultimately have n: "fst (update_sessions now ?P g db) = 1" for g by (simp add: update_sessions_def)
  obtain db2 db4 db5 where tx:
    "(if 0 < gs_entryFee s0 then refund_users newId s0 (refundTotalsByUser (active_cartelas db sid)) (cancel_mark now sid reason db)
      else Inr (cancel_mark now sid reason db)) = Inr db2"
    "(if co_requeueSlot options then
        bind_result (restoreSlotAfterSession (gs_slotId s0) (cancel_cartelas sid db2)) (\<lambda>(_, db'). Inr db')
      else Inr (cancel_cartelas sid db2)) = Inr db4"
    "(if co_requeueSlot options \<and> reason \<noteq> Queue_Cleared then
        bind_result (openNextAutoQueueRegistrationInTransaction cfg now lockFree codes cancel_options_open db4) (\<lambda>(_, db'). Inr db')
      else Inr db4) = Inr db5" "db' = db5" "cd_refundedCount r = length (active_cartelas db sid)"
    "\<not> (co_abortIfPlayersRegistered options \<and> active_cartelas db sid \<noteq> [])"
    using assms(1) f can n act
    by (auto simp: cancel_tx_def Let_def case_prod_beta bind_result_eq_Inr_iff cancel_mark_def [symmetric]
        cancel_cartelas_def [symmetric] split: if_split_asm)
  have "db4 = cancel_cartelas sid db2 \<and> db' = db4 \<or>
     (\<exists>x. restoreSlotAfterSession (gs_slotId s0) (cancel_cartelas sid db2) = Inr (x, db4)) \<and>
       (db' = db4 \<or> (\<exists>opened. openNextAutoQueueRegistrationInTransaction cfg now lockFree codes cancel_options_open db4
          = Inr (opened, db')))"
    using tx(2-4) by (cases "co_requeueSlot options"; cases "reason = Queue_Cleared") (auto simp: bind_result_eq_Inr_iff)
  then show ?thesis by (rule that [OF s0 can tx(1) _ tx(5,6)])
qed

text \<open>
  What a cancellation of \<open>sid\<close> does: the session and its cartelas are cancelled; every user gets the
  bonus cartelas back and, unless a refund of this session is booked already, the fees.
\<close>

definition session_cancelled :: "string \<Rightarrow> game_db \<Rightarrow> game_db \<Rightarrow> bool" where
  "session_cancelled sid db db' \<longleftrightarrow>
     (\<exists>s0\<in>set (gd_sessions db). gs_id s0 = sid \<and>
       (\<forall>v. bonus_of (gd_wallet db') v = bonus_of (gd_wallet db) v +
          (if 0 < gs_entryFee s0 then int (bought BONUS_CARTELA v (active_cartelas db sid)) else 0)) \<and>
       ((\<forall>v. refund_key v s0 \<notin> paid db) \<longrightarrow>
          (\<forall>v. available (gd_wallet db') v = available (gd_wallet db) v +
             (if 0 < gs_entryFee s0 then gs_entryFee s0 * of_nat (bought MONEY_WALLET v (active_cartelas db sid))
              else 0)))) \<and>
     (\<exists>s\<in>set (gd_sessions db'). gs_id s = sid \<and> gs_status s = CANCELLED) \<and>
     (\<forall>c\<in>set (gd_cartelas db'). gc_sessionId c = sid \<longrightarrow> gc_status c = CARTELA_CANCELLED)"

lemma cancel_refunds:
  assumes "game_ok db" "cancel_tx cfg now lockFree codes newId sid reason options db = Inr (r, db')"
    and "fst codes \<notin> gs_id ` set (gd_sessions db)"
    and "ids_free newId (map fst (refundTotalsByUser (active_cartelas db sid))) (gd_wallet db)"
  shows "game_ok db' \<and> advances db db' \<and> session_cancelled sid db db'"
proof (rule cancel_cases [OF assms(2) game_okD(1) [OF assms(1)]])
  fix s0 db2 db4
  assume s0: "s0 \<in> set (gd_sessions db)" "gs_id s0 = sid" and can: "cancellable (gs_status s0)"
    and pay: "(if 0 < gs_entryFee s0 then refund_users newId s0 (refundTotalsByUser (active_cartelas db sid)) (cancel_mark now sid reason db)
      else Inr (cancel_mark now sid reason db)) = Inr db2"
    and tail: "db4 = cancel_cartelas sid db2 \<and> db' = db4 \<or>
     (\<exists>x. restoreSlotAfterSession (gs_slotId s0) (cancel_cartelas sid db2) = Inr (x, db4)) \<and>
       (db' = db4 \<or> (\<exists>opened. openNextAutoQueueRegistrationInTransaction cfg now lockFree codes cancel_options_open db4
          = Inr (opened, db')))"
  note keys = game_okD(1) [OF assms(1)]
  let ?d1 = "cancel_mark now sid reason db"
  define d3 where "d3 = cancel_cartelas sid db2"
  have w1: "gd_wallet ?d1 = gd_wallet db" by (simp add: cancel_mark_def table_simps)
  obtain w where w: "db2 = ?d1\<lparr>gd_wallet := w\<rparr>" "db_ok w"
    "\<And>u cid. prize_key u cid \<in> posted w \<longleftrightarrow> prize_key u cid \<in> posted (gd_wallet db)"
    and given: "\<And>v. bonus_of w v = bonus_of (gd_wallet db) v +
      (if 0 < gs_entryFee s0 then int (bought BONUS_CARTELA v (active_cartelas db sid)) else 0)"
    "\<And>v. (\<forall>x. refund_key x s0 \<notin> paid db) \<Longrightarrow> available w v = available (gd_wallet db) v +
      (if 0 < gs_entryFee s0 then gs_entryFee s0 * of_nat (bought MONEY_WALLET v (active_cartelas db sid)) else 0)"
  proof (cases "0 < gs_entryFee s0")
    case True
    let ?totals = "refundTotalsByUser (active_cartelas db sid)"
    have "refund_users newId s0 ?totals ?d1 = Inr db2" using pay True by simp
    then obtain w where r: "db2 = ?d1\<lparr>gd_wallet := w\<rparr>" "refunded s0 ?totals (gd_wallet db) w"
      using refund_users_state [of newId s0 _ ?d1 db2] assms(4) game_okD(5) [OF assms(1)]
        refundTotalsByUser_totals(1) [of "active_cartelas db sid"] unfolding w1 by blast
    note r' = r(2) [unfolded refunded_def refundTotalsByUser_totals(2) fst_conv snd_conv]
    show ?thesis
    proof (rule that [OF r(1)])
      show "available w v = available (gd_wallet db) v +
          (if 0 < gs_entryFee s0 then gs_entryFee s0 * of_nat (bought MONEY_WALLET v (active_cartelas db sid)) else 0)"
        if "\<forall>v. refund_key v s0 \<notin> paid db" for v
        using r' that True unfolding paid_def by simp
    qed (use r' True in simp_all)
  next
    case False
    then show ?thesis using that [of "gd_wallet db"] pay game_okD(5) [OF assms(1)] w1 by auto
  qed
  have t: "touches sid db d3"
  proof -
    have "touches sid db ?d1" unfolding cancel_mark_def by (rule touches_update_sessions) simp_all
    moreover have "touches sid ?d1 db2" unfolding w(1) by (rule touches_wallet) (simp add: w(3) w1)
    moreover have "touches sid db2 d3" unfolding d3_def cancel_cartelas_def by (rule touches_update_cartelas) simp_all
    ultimately show ?thesis using touches_trans by blast
  qed
  have st: "gs_status s0 = READY \<or> gs_status s0 = PLAYING \<or> gs_status s0 = CHECKING"
    using can by (auto simp: cancellable_def CANCELLABLE_SESSION_STATUSES_def)
  have local: "local_ok sid db d3"
  proof (rule plain_local_ok [OF assms(1) s0, where st = CANCELLED and selk = "\<lambda>_. False" and h = id
        and sel = "\<lambda>c. gc_sessionId c = sid \<and> gc_status c \<noteq> CARTELA_CANCELLED"
        and g = "\<lambda>c. c\<lparr>gc_status := CARTELA_CANCELLED\<rparr>"])
    fix s assume s: "s \<in> set (gd_sessions d3)" "gs_id s = sid"
    have "s \<in> set (gd_sessions ?d1)" using s(1) by (simp add: d3_def cancel_cartelas_def table_simps w(1))
    show "gs_status s = CANCELLED \<and> gs_winnerCartelaId s = gs_winnerCartelaId s0 \<and>
        gs_prizeFinalizedAt s = gs_prizeFinalizedAt s0"
      using session_after [OF keys s0(1) _ \<open>s \<in> set (gd_sessions ?d1)\<close> [unfolded cancel_mark_def]] s(2) s0(2) can
      by simp
  next
    show "cartelas_of d3 sid = update_where (\<lambda>c. gc_sessionId c = sid \<and> gc_status c \<noteq> CARTELA_CANCELLED)
        (\<lambda>c. c\<lparr>gc_status := CARTELA_CANCELLED\<rparr>) (cartelas_of db sid)"
      unfolding d3_def cancel_cartelas_def
      by (subst cartelas_of_update) (simp_all add: w(1) cartelas_of_def cancel_mark_def table_simps)
    fix k c assume k: "c \<in> set (cartelas_of db sid)" "pending_ok (gs_status s0) k c"
    then show "pending_ok CANCELLED (if False then id k else k)
        (if gc_sessionId c = sid \<and> gc_status c \<noteq> CARTELA_CANCELLED then c\<lparr>gc_status := CARTELA_CANCELLED\<rparr> else c)"
      using st by (auto simp: pending_ok_def cartelas_of_def)
  qed (use st w in \<open>auto simp: d3_def cancel_cartelas_def cancel_mark_def table_simps live_def moves_def
      canTransitionGameStatus_def paid_def claims_of_def numbers_of_def\<close>)
  have all: "game_ok db' \<and> advances db db' \<and> (db' = d3 \<or> opens (fst codes) d3 db')"
    using tail
  proof (elim disjE conjE)
    assume "db4 = cancel_cartelas sid db2" "db' = db4"
    then show ?thesis
      using game_ok_touches [OF assms(1) t local] advances_touches [OF keys t local] by (simp add: d3_def)
  next
    assume r: "\<exists>x. restoreSlotAfterSession (gs_slotId s0) (cancel_cartelas sid db2) = Inr (x, db4)"
    assume "db' = db4"
    with r show ?thesis
      using restored_ok [OF assms(1) t local, of _ _ db4 "\<lambda>d. d" "fst codes"] assms(3)
      unfolding d3_def by auto
  next
    assume r: "\<exists>x. restoreSlotAfterSession (gs_slotId s0) (cancel_cartelas sid db2) = Inr (x, db4)"
    assume "\<exists>opened. openNextAutoQueueRegistrationInTransaction cfg now lockFree codes cancel_options_open db4
        = Inr (opened, db')"
    with r show ?thesis
      using restored_ok [OF assms(1) t local, of _ _ db4 "\<lambda>_. db'" "fst codes"] assms(3) opener_opens
      unfolding d3_def by blast
  qed
  have wallet: "gd_wallet d3 = w" by (simp add: d3_def cancel_cartelas_def table_simps w(1))
  have marked: "\<forall>c\<in>set (gd_cartelas d3). gc_sessionId c = sid \<longrightarrow> gc_status c = CARTELA_CANCELLED"
  proof (intro ballI impI)
    fix c assume c: "c \<in> set (gd_cartelas d3)" "gc_sessionId c = sid"
    let ?P = "\<lambda>c. gc_sessionId c = sid \<and> gc_status c \<noteq> CARTELA_CANCELLED"
    obtain x where x: "c = (if ?P x then x\<lparr>gc_status := CARTELA_CANCELLED\<rparr> else x)"
      using c(1) by (auto simp: d3_def cancel_cartelas_def update_cartelas_def in_update_where)
    show "gc_status c = CARTELA_CANCELLED" by (cases "?P x") (use x c(2) in auto)
  qed
  obtain s3 where s3: "s3 \<in> set (gd_sessions d3)" "gs_id s3 = sid" "gs_status s3 = CANCELLED"
  proof -
    have "\<exists>s\<in>set (gd_sessions ?d1). gs_id s = sid \<and> gs_status s = CANCELLED"
      unfolding cancel_mark_def by (rule bexI [OF _ updated_session]) (use s0 can in auto)
    then show ?thesis using that by (auto simp: d3_def cancel_cartelas_def table_simps w(1))
  qed
  have same: "gd_wallet db' = w" "gd_cartelas db' = gd_cartelas d3"
    and s': "\<exists>s\<in>set (gd_sessions db'). gs_id s = sid \<and> gs_status s = CANCELLED"
    using all wallet s3 opens_session [of "fst codes" d3 db' s3] by (auto simp: opens_def quiet_def)
  have "session_cancelled sid db db'"
    unfolding session_cancelled_def same using s0 given marked s' by blast
  then show "game_ok db' \<and> advances db db' \<and> session_cancelled sid db db'" using all by blast
qed

lemma cancel_ok:
  assumes "game_ok db" "cancel_tx cfg now lockFree codes newId sid reason options db = Inr (r, db')"
    and "fst codes \<notin> gs_id ` set (gd_sessions db)"
    and "ids_free newId (map fst (refundTotalsByUser (active_cartelas db sid))) (gd_wallet db)"
  shows "game_ok db' \<and> advances db db'"
  using cancel_refunds [OF assms] by blast

end
