(* ===== verification/Registration.thy ===== *)
theory Registration
  imports GameQueue
begin

text \<open>
  Registering cartelas in a session: the registration window (\<open>games/games.operation-mode.ts\<close>), the
  limits (\<open>games/registration-limits.ts\<close>), and of \<open>games/games.service.ts\<close> reserving a cartela, confirming
  or cancelling the reservation, registering one cartela or many, and the session a slot registers
  into; \<open>games/cartela-reservation-expirer.service.ts\<close> ends the reservations that are due. Identifiers
  of new rows are arguments. \<open>others\<close> is what other transactions commit between two statements that
  are not in one transaction. A row \<open>GameSession\<close> has its slot (a foreign key), so looking up both
  together is one look-up.
\<close>

section \<open>When registration is open\<close>

definition canRegisterForOperationMode ::
  "int \<Rightarrow> operation_mode \<Rightarrow> game_status \<Rightarrow> int option \<Rightarrow> bool" where
  "canRegisterForOperationMode now operationMode sessionStatus scheduledStartAt =
     (if sessionStatus = READY then
        (if operationMode = AUTO \<and>
            (case scheduledStartAt of None \<Rightarrow> False | Some start \<Rightarrow> start \<le> now)
         then False else True)
      else if sessionStatus = PLAYING \<and> operationMode = MANUAL then True
      else False)"

definition canRegisterForBigGameWindow :: "int \<Rightarrow> int option \<Rightarrow> int option \<Rightarrow> bool" where
  "canRegisterForBigGameWindow now registrationOpensAt scheduledStartAt =
     (case (registrationOpensAt, scheduledStartAt) of
        (Some opens, Some start) \<Rightarrow> opens \<le> now \<and> now < start
      | _ \<Rightarrow> False)"

definition assertBigGameRegistrationAllowed ::
  "int \<Rightarrow> int option \<Rightarrow> int option \<Rightarrow> http_error + unit" where
  "assertBigGameRegistrationAllowed now registrationOpensAt scheduledStartAt =
     (if (case registrationOpensAt of None \<Rightarrow> True | Some opens \<Rightarrow> now < opens)
      then Inl (Coded_Request ''Big Game registration is not open yet'' ''BIG_GAME_REGISTRATION_NOT_OPEN'')
      else if (case scheduledStartAt of None \<Rightarrow> True | Some start \<Rightarrow> start \<le> now)
      then Inl (Coded_Request ''Big Game registration is closed'' ''BIG_GAME_REGISTRATION_CLOSED'')
      else Inr ())"

definition assertRegistrationAllowed ::
  "int \<Rightarrow> operation_mode \<Rightarrow> game_status \<Rightarrow> int option \<Rightarrow> http_error + unit" where
  "assertRegistrationAllowed now operationMode sessionStatus scheduledStartAt =
     (if \<not> canRegisterForOperationMode now operationMode sessionStatus scheduledStartAt
      then Inl (Coded_Request ''Cartela registration is closed for this game'' ''REGISTRATION_CLOSED'')
      else Inr ())"

definition hasActiveBlockingSession :: "game_db \<Rightarrow> bool" where
  "hasActiveBlockingSession db = list_ex (\<lambda>s. live (gs_status s)) (gd_sessions db)"

definition canRegisterForSession :: "int \<Rightarrow> session_row \<Rightarrow> slot_row \<Rightarrow> bool \<Rightarrow> bool" where
  "canRegisterForSession now session slot activeBlocking =
     (if isBigGameCategory (Some (sl_category slot)) then
        gs_status session = READY \<and>
        canRegisterForBigGameWindow now (gs_registrationOpensAt session) (gs_scheduledStartAt session)
      else if activeBlocking \<and> gs_status session = READY \<and> \<not> isBigGameCategory (Some (sl_category slot))
      then True
      else canRegisterForOperationMode now (sl_operationMode slot) (gs_status session)
             (gs_scheduledStartAt session))"

definition assertSessionRegistrationAllowed ::
  "int \<Rightarrow> game_db \<Rightarrow> session_row \<Rightarrow> slot_row \<Rightarrow> http_error + unit" where
  "assertSessionRegistrationAllowed now db session slot =
     (if isBigGameCategory (Some (sl_category slot)) then
        (if gs_status session \<noteq> READY
         then Inl (Coded_Request ''Big Game registration is closed'' ''BIG_GAME_REGISTRATION_CLOSED'')
         else assertBigGameRegistrationAllowed now (gs_registrationOpensAt session)
                (gs_scheduledStartAt session))
      else if hasActiveBlockingSession db \<and> gs_status session = READY \<and>
              \<not> isBigGameCategory (Some (sl_category slot))
      then Inr ()
      else assertRegistrationAllowed now (sl_operationMode slot) (gs_status session)
             (gs_scheduledStartAt session))"

section \<open>What a registration checks\<close>

definition find_board :: "game_db \<Rightarrow> string \<Rightarrow> cartela option" where
  "find_board db ident = find (\<lambda>b. cartela_id b = ident) (gd_boards db)"

definition gc_cartelaId :: "game_cartela \<Rightarrow> string" where
  "gc_cartelaId c = cartela_id (gc_board c)"

definition getSessionForRegistrationWrite :: "game_db \<Rightarrow> string \<Rightarrow> (session_row \<times> slot_row) option" where
  "getSessionForRegistrationWrite db sessionId =
     (case find_session db sessionId of
        None \<Rightarrow> None
      | Some session \<Rightarrow> map_option (\<lambda>slot. (session, slot)) (slot_of db session))"

definition shouldLockCartelasAgainstLiveRound :: "session_row \<Rightarrow> slot_row \<Rightarrow> bool" where
  "shouldLockCartelasAgainstLiveRound session slot \<longleftrightarrow>
     gs_status session \<noteq> READY \<or> isBigGameCategory (Some (sl_category slot))"

text \<open>\<open>gameSession: liveSessionWhere\<close>: the row belongs to a live session of the same pool of cartelas.\<close>

definition in_live_round :: "game_db \<Rightarrow> game_category \<Rightarrow> string \<Rightarrow> bool" where
  "in_live_round db requestingCategory sessionId =
     (case find_session db sessionId of
        None \<Rightarrow> False
      | Some s \<Rightarrow>
          live (gs_status s) \<and>
          slot_where db (\<lambda>slot. List.member
            (liveCartelaPoolCategoryFilter (cartelaPoolForCategory (Some requestingCategory)))
            (sl_category slot)) s)"

definition live_registrations ::
  "game_db \<Rightarrow> string \<Rightarrow> (string \<Rightarrow> bool) \<Rightarrow> game_category \<Rightarrow> game_cartela list" where
  "live_registrations db sessionId wanted requestingCategory =
     filter (\<lambda>c. gc_sessionId c \<noteq> sessionId \<and> wanted (gc_cartelaId c) \<and>
         gc_status c \<noteq> CARTELA_CANCELLED \<and> in_live_round db requestingCategory (gc_sessionId c))
       (gd_cartelas db)"

definition live_reservations ::
  "int \<Rightarrow> game_db \<Rightarrow> string \<Rightarrow> (string \<Rightarrow> bool) \<Rightarrow> game_category \<Rightarrow> reservation_row list" where
  "live_reservations now db sessionId wanted requestingCategory =
     filter (\<lambda>r. rv_sessionId r \<noteq> sessionId \<and> wanted (rv_cartelaId r) \<and> rv_status r = ACTIVE \<and>
         now < rv_expiresAt r \<and> in_live_round db requestingCategory (rv_sessionId r))
       (gd_reservations db)"

definition assertCartelaNotLockedByLiveRound ::
  "int \<Rightarrow> game_db \<Rightarrow> string \<Rightarrow> string \<Rightarrow> game_category \<Rightarrow> http_error + unit" where
  "assertCartelaNotLockedByLiveRound now db sessionId cartelaId requestingCategory =
     (if live_registrations db sessionId (\<lambda>i. i = cartelaId) requestingCategory \<noteq> [] \<or>
         live_reservations now db sessionId (\<lambda>i. i = cartelaId) requestingCategory \<noteq> []
      then Inl (Conflict ''This cartela is already in use in the current live game'')
      else Inr ())"

text \<open>The set as a list of its elements.\<close>

definition findLiveLockedCartelaIds ::
  "int \<Rightarrow> game_db \<Rightarrow> string \<Rightarrow> string list \<Rightarrow> game_category \<Rightarrow> string list" where
  "findLiveLockedCartelaIds now db sessionId cartelaIds requestingCategory =
     (if cartelaIds = [] then []
      else
        map gc_cartelaId (live_registrations db sessionId (List.member cartelaIds) requestingCategory) @
        map rv_cartelaId (live_reservations now db sessionId (List.member cartelaIds) requestingCategory))"

definition user_cartelas :: "game_db \<Rightarrow> string \<Rightarrow> string \<Rightarrow> game_cartela list" where
  "user_cartelas db sessionId userId =
     filter (\<lambda>c. gc_userId c = userId) (active_cartelas db sessionId)"

definition assertCategoryCartelaLimit ::
  "game_db \<Rightarrow> string \<Rightarrow> string \<Rightarrow> game_category option \<Rightarrow> int option \<Rightarrow> http_error + unit" where
  "assertCategoryCartelaLimit db sessionId userId category maxCartelasPerPlayer =
     (let existingCartelas = int (length (user_cartelas db sessionId userId)) in
      if \<not> isBonusLikeCategory category \<and> \<not> isBigGameCategory category then Inr ()
      else if isBonusLikeCategory category \<and> getBonusCartelaLimit maxCartelasPerPlayer \<le> existingCartelas
      then Inl (if isBigGotdCategory category
                then Coded_Request ''Big GOTD cartela limit reached for this session''
                       ''BIG_GOTD_CARTELA_LIMIT_REACHED''
                else Coded_Request ''Bonus cartela limit reached for this session''
                       ''BONUS_CARTELA_LIMIT_REACHED'')
      else if isBigGameCategory category \<and>
              (case maxCartelasPerPlayer of None \<Rightarrow> False | Some limit \<Rightarrow> limit \<le> existingCartelas)
      then Inl (Coded_Request ''Big Game cartela limit reached for this session''
                  ''BIG_GAME_CARTELA_LIMIT_REACHED'')
      else Inr ())"

section \<open>Paying for a cartela\<close>

definition economics_of :: "session_row \<Rightarrow> slot_row \<Rightarrow> session_economics" where
  "economics_of session slot =
     \<lparr>se_entryFee = gs_entryFee session, se_prizePerCartela = gs_prizePerCartela session,
      se_companyFeePerCartela = gs_companyFeePerCartela session, se_category = sl_category slot\<rparr>"

type_synonym payment_plan = "registration_accounting \<times> bool"

definition resolveRegistrationPaymentPlan ::
  "game_db \<Rightarrow> string \<Rightarrow> session_row \<Rightarrow> slot_row \<Rightarrow> http_error + payment_plan" where
  "resolveRegistrationPaymentPlan db userId session slot =
     (if isFreeEntryCategory (Some (sl_category slot))
      then Inr (resolveRegistrationAccounting (economics_of session slot) 0)
      else
        bind_result (getWalletOrThrow (gd_wallet db) userId) (\<lambda>wallet.
          Inr (resolveRegistrationAccounting (economics_of session slot)
                 (wa_bonusCartelaBalance wallet))))"

definition resolveRegistrationPaymentPlanFromBonusBalance ::
  "session_row \<Rightarrow> slot_row \<Rightarrow> int \<Rightarrow> payment_plan" where
  "resolveRegistrationPaymentPlanFromBonusBalance session slot bonusCartelaBalance =
     (if isFreeEntryCategory (Some (sl_category slot))
      then resolveRegistrationAccounting (economics_of session slot) 0
      else resolveRegistrationAccounting (economics_of session slot) bonusCartelaBalance)"

text \<open>A wallet operation inside a transaction, with the state it leaves when it throws.\<close>

definition wallet_call :: "(wallet_db \<Rightarrow> 'a outcome) \<Rightarrow> game_db \<Rightarrow> 'a game_outcome" where
  "wallet_call post db = (let (r, w) = post (gd_wallet db) in (r, db\<lparr>gd_wallet := w\<rparr>))"

definition entry_meta :: "session_row \<Rightarrow> string \<Rightarrow> ledger_meta" where
  "entry_meta session gameCartelaId =
     \<lparr>me_type = GAME_ENTRY, me_referenceType = ''GAME_CARTELA'', me_referenceId = gameCartelaId,
      me_description = Some (''Game entry fee for '' @ gs_playCode session)\<rparr>"

definition applyRegistrationPayment ::
  "string \<Rightarrow> string \<Rightarrow> session_row \<Rightarrow> string \<Rightarrow> registration_accounting \<Rightarrow> game_db \<Rightarrow>
   serialized_wallet option game_outcome" where
  "applyRegistrationPayment ledgerId userId session gameCartelaId accounting db =
     (case ra_paymentSource accounting of
        None \<Rightarrow> (Inr None, db)
      | Some BONUS_CARTELA \<Rightarrow>
          (case wallet_call (\<lambda>w. consumeBonusCartela w userId) db of
             (Inl e, db') \<Rightarrow> (Inl e, db')
           | (Inr _, db') \<Rightarrow> (Inr None, db'))
      | Some MONEY_WALLET \<Rightarrow>
          (case wallet_call (\<lambda>w. debitWallet ledgerId id w userId (gs_entryFee session)
                  (entry_meta session gameCartelaId)) db of
             (Inl e, db') \<Rightarrow> (Inl e, db')
           | (Inr snapshot, db') \<Rightarrow> (Inr (Some snapshot), db')))"

text \<open>A throw inside a transaction gives up the state.\<close>

definition committing :: "'a game_outcome \<Rightarrow> 'a tx" where
  "committing out = (case out of (Inl e, _) \<Rightarrow> Inl e | (Inr x, db) \<Rightarrow> Inr (x, db))"

text \<open>
  \<open>create\<close> fails with \<open>P2002\<close> when the session has the cartela already and with \<open>P2003\<close> when a
  row it refers to is missing.
\<close>

definition seat_taken :: "game_db \<Rightarrow> string \<Rightarrow> string \<Rightarrow> bool" where
  "seat_taken db sessionId cartelaId =
     list_ex (\<lambda>c. gc_sessionId c = sessionId \<and> gc_cartelaId c = cartelaId) (gd_cartelas db)"

definition create_cartela ::
  "string \<Rightarrow> string \<Rightarrow> string \<Rightarrow> string \<Rightarrow> registration_accounting \<Rightarrow> game_db \<Rightarrow> game_cartela tx" where
  "create_cartela newId sessionId userId cartelaId accounting db =
     (if seat_taken db sessionId cartelaId then Inl (Db_Error ''P2002'')
      else
        case find_board db cartelaId of
          None \<Rightarrow> Inl (Db_Error ''P2003'')
        | Some board \<Rightarrow>
            if userId \<notin> db_users (gd_wallet db) then Inl (Db_Error ''P2003'')
            else
              let c = \<lparr>gc_id = newId, gc_sessionId = sessionId, gc_userId = userId, gc_board = board,
                       gc_status = REGISTERED, gc_isWinner = False, gc_blockedAt = None,
                       gc_paymentSource = ra_paymentSource accounting,
                       gc_entryFeeCents = ra_entryFeeCents accounting,
                       gc_prizeContributionCents = ra_prizeContributionCents accounting,
                       gc_companyFeeCents = ra_companyFeeCents accounting,
                       gc_companyFeeSource = ra_companyFeeSource accounting\<rparr>
              in Inr (c, db\<lparr>gd_cartelas := gd_cartelas db @ [c]\<rparr>))"

definition add_contributions :: "rat \<Rightarrow> session_row \<Rightarrow> session_row \<Rightarrow> session_row" where
  "add_contributions count session s =
     s\<lparr>gs_prizeAmount := gs_prizeAmount s + gs_prizePerCartela session * count,
       gs_companyRevenue := gs_companyRevenue s + gs_companyFeePerCartela session * count\<rparr>"

record registered =
  rg_cartela :: game_cartela
  rg_session :: "session_row option"
  rg_wallet :: "serialized_wallet option"

text \<open>The account, the row, the payment and the session's amounts.\<close>

definition enter_cartela ::
  "int \<Rightarrow> string \<times> string \<Rightarrow> session_row \<Rightarrow> slot_row \<Rightarrow> string \<Rightarrow> string \<Rightarrow> game_db \<Rightarrow> registered tx" where
  "enter_cartela now newIds session slot userId cartelaId db =
     bind_result (resolveRegistrationPaymentPlan db userId session slot) (\<lambda>(accounting, isFreeEntry).
     bind_result (create_cartela (fst newIds) (gs_id session) userId cartelaId accounting db) (\<lambda>(c, db1).
     bind_result
       (if isFreeEntry then Inr (None, db1)
        else committing (applyRegistrationPayment (snd newIds) userId session (gc_id c) accounting db1))
       (\<lambda>(snapshot, db2).
     bind_result
       (if isBonusCategory (Some (sl_category slot)) then Inr db2
        else update_session now (gs_id session) (add_contributions 1 session) db2) (\<lambda>db3.
       Inr (\<lparr>rg_cartela = c, rg_session = find_session db3 (gs_id session), rg_wallet = snapshot\<rparr>, db3)))))"

end
