(* ===== verification/Reservations.thy ===== *)
theory Reservations
  imports Registration
begin

text \<open>
  Holding a cartela and registering it, one at a time: \<open>reserveCartela\<close>, \<open>confirmReservation\<close>,
  \<open>cancelReservation\<close>, \<open>registerCartela\<close> and \<open>registerCartelaForSlot\<close> of \<open>games/games.service.ts\<close>, and
  \<open>expireDueReservations\<close>. \<open>withinLimit\<close> is the answer of the rate limiter.
\<close>

definition USER_ACTION_RATE_LIMIT_MESSAGE :: string where
  "USER_ACTION_RATE_LIMIT_MESSAGE = ''Too many attempts. Please wait a moment.''"

section \<open>Reservations\<close>

definition find_reservation :: "game_db \<Rightarrow> string \<Rightarrow> reservation_row option" where
  "find_reservation db ident = find (\<lambda>r. rv_id r = ident) (gd_reservations db)"

definition update_reservations ::
  "(reservation_row \<Rightarrow> bool) \<Rightarrow> (reservation_row \<Rightarrow> reservation_row) \<Rightarrow> game_db \<Rightarrow> nat \<times> game_db" where
  "update_reservations P f db =
     (count_where P (gd_reservations db),
      db\<lparr>gd_reservations := update_where P f (gd_reservations db)\<rparr>)"

text \<open>\<open>update\<close> by identifier: the row as it is afterwards.\<close>

definition update_reservation ::
  "string \<Rightarrow> (reservation_row \<Rightarrow> reservation_row) \<Rightarrow> game_db \<Rightarrow> reservation_row tx" where
  "update_reservation ident f db =
     (case find_reservation db ident of
        None \<Rightarrow> Inl (Db_Error ''P2025'')
      | Some r \<Rightarrow> Inr (f r, snd (update_reservations (\<lambda>x. rv_id x = ident) f db)))"

definition set_reservation_status :: "reservation_status \<Rightarrow> reservation_row \<Rightarrow> reservation_row" where
  "set_reservation_status status r = r\<lparr>rv_status := status\<rparr>"

text \<open>The reservations that hold a cartela of a session now.\<close>

definition holds_now :: "int \<Rightarrow> string \<Rightarrow> (string \<Rightarrow> bool) \<Rightarrow> reservation_row \<Rightarrow> bool" where
  "holds_now now sessionId wanted r \<longleftrightarrow>
     rv_sessionId r = sessionId \<and> wanted (rv_cartelaId r) \<and> rv_status r = ACTIVE \<and>
     now < rv_expiresAt r"

definition activeReservation :: "int \<Rightarrow> game_db \<Rightarrow> string \<Rightarrow> string \<Rightarrow> reservation_row option" where
  "activeReservation now db sessionId cartelaId =
     find (holds_now now sessionId (\<lambda>i. i = cartelaId)) (gd_reservations db)"

text \<open>
  \<open>create\<close> fails with \<open>P2002\<close> when an active reservation holds the cartela already (the partial unique
  index of the migration) and with \<open>P2003\<close> when a row it refers to is missing.
\<close>

definition create_reservation ::
  "string \<Rightarrow> string \<Rightarrow> string \<Rightarrow> string \<Rightarrow> int \<Rightarrow> game_db \<Rightarrow> reservation_row tx" where
  "create_reservation newId sessionId userId cartelaId expiresAt db =
     (if list_ex (\<lambda>r. rv_sessionId r = sessionId \<and> rv_cartelaId r = cartelaId \<and> rv_status r = ACTIVE)
           (gd_reservations db)
      then Inl (Db_Error ''P2002'')
      else if find_session db sessionId = None \<or> find_board db cartelaId = None \<or>
              userId \<notin> db_users (gd_wallet db)
      then Inl (Db_Error ''P2003'')
      else
        let r = \<lparr>rv_id = newId, rv_sessionId = sessionId, rv_cartelaId = cartelaId,
                 rv_userId = userId, rv_expiresAt = expiresAt, rv_status = ACTIVE\<rparr>
        in Inr (r, db\<lparr>gd_reservations := gd_reservations db @ [r]\<rparr>))"

text \<open>The reservations of some cartelas of a session whose time is over are marked.\<close>

definition expire_reservations :: "int \<Rightarrow> string \<Rightarrow> (string \<Rightarrow> bool) \<Rightarrow> game_db \<Rightarrow> game_db" where
  "expire_reservations now sessionId wanted db =
     snd (update_reservations
       (\<lambda>r. rv_sessionId r = sessionId \<and> wanted (rv_cartelaId r) \<and> rv_status r = ACTIVE \<and>
          rv_expiresAt r \<le> now)
       (set_reservation_status EXPIRED) db)"

definition duplicate_hold :: "http_error \<Rightarrow> http_error" where
  "duplicate_hold e =
     (if e = Db_Error ''P2002'' then Conflict ''Another player is choosing this cartela'' else e)"

text \<open>An existing hold of the user is prolonged, otherwise a row is created.\<close>

definition hold_cartela ::
  "int \<Rightarrow> string \<Rightarrow> bool \<Rightarrow> string \<Rightarrow> string \<Rightarrow> string \<Rightarrow> reservation_row option \<Rightarrow> game_db \<Rightarrow>
   reservation_row tx" where
  "hold_cartela expiresAt newId preserveOtherReservations sessionId userId cartelaId active db =
     (case active of
        Some r \<Rightarrow>
          if rv_userId r \<noteq> userId then Inl (Conflict ''Another player is choosing this cartela'')
          else update_reservation (rv_id r) (\<lambda>x. x\<lparr>rv_expiresAt := expiresAt\<rparr>) db
      | None \<Rightarrow>
          let db1 = (if preserveOtherReservations then db
                     else snd (update_reservations
                       (\<lambda>r. rv_sessionId r = sessionId \<and> rv_userId r = userId \<and> rv_status r = ACTIVE)
                       (set_reservation_status RESERVATION_CANCELLED) db))
          in map_sum duplicate_hold id (create_reservation newId sessionId userId cartelaId expiresAt db1))"

definition reserve_tx ::
  "int \<Rightarrow> int \<Rightarrow> string \<Rightarrow> bool \<Rightarrow> string \<Rightarrow> string \<Rightarrow> string \<Rightarrow> game_db \<Rightarrow> reservation_row tx" where
  "reserve_tx now expiresAt newId preserveOtherReservations sessionId userId cartelaId db =
     (let db1 = expire_reservations now sessionId (\<lambda>i. i = cartelaId) db in
      case getSessionForRegistrationWrite db1 sessionId of
        None \<Rightarrow> Inl (Not_Found ''Game session not found'')
      | Some (session, slot) \<Rightarrow>
          bind_result (assertSessionRegistrationAllowed now db1 session slot) (\<lambda>_.
          if find_board db1 cartelaId = None then Inl (Not_Found ''Cartela not found'')
          else
            bind_result
              (if shouldLockCartelasAgainstLiveRound session slot
               then assertCartelaNotLockedByLiveRound now db1 sessionId cartelaId (sl_category slot)
               else Inr ()) (\<lambda>_.
            if list_ex (\<lambda>c. gc_cartelaId c = cartelaId) (active_cartelas db1 sessionId)
            then Inl (Conflict ''This cartela is already registered for this session'')
            else
              bind_result (assertCategoryCartelaLimit db1 sessionId userId (Some (sl_category slot))
                (sl_maxCartelasPerPlayer slot)) (\<lambda>_.
              hold_cartela expiresAt newId preserveOtherReservations sessionId userId cartelaId
                (activeReservation now db1 sessionId cartelaId) db1))))"

definition reserveCartela ::
  "int \<Rightarrow> int \<Rightarrow> bool \<Rightarrow> string \<Rightarrow> bool option \<Rightarrow> int option \<Rightarrow> string \<Rightarrow> string \<Rightarrow> string \<Rightarrow> game_db \<Rightarrow>
   reservation_row game_outcome" where
  "reserveCartela now cartelaHoldMs withinLimit newId preserve holdMs sessionId userId cartelaId db =
     (if \<not> withinLimit then (Inl (Too_Many_Requests USER_ACTION_RATE_LIMIT_MESSAGE), db)
      else
        case transaction db (reserve_tx now (now + or_else holdMs cartelaHoldMs) newId
               (or_else preserve True) sessionId userId cartelaId db) of
          (Inl e, db1) \<Rightarrow> (Inl e, db1)
        | (Inr r, db1) \<Rightarrow>
            if find_board db1 cartelaId = None then (Inl (Not_Found ''Cartela not found''), db1)
            else (Inr r, db1))"

definition cancelReservation ::
  "bool \<Rightarrow> string \<Rightarrow> string \<Rightarrow> game_db \<Rightarrow> unit game_outcome" where
  "cancelReservation withinLimit reservationId userId db =
     (if \<not> withinLimit then (Inl (Too_Many_Requests USER_ACTION_RATE_LIMIT_MESSAGE), db)
      else
        let (count, db1) = update_reservations
              (\<lambda>r. rv_id r = reservationId \<and> rv_userId r = userId \<and> rv_status r = ACTIVE)
              (set_reservation_status RESERVATION_CANCELLED) db
        in if count = 0 then (Inl (Not_Found ''Active reservation not found''), db1)
           else (Inr (), db1))"

text \<open>The identifiers are read first; the update names them only.\<close>

definition due_reservations :: "int \<Rightarrow> game_db \<Rightarrow> reservation_row list" where
  "due_reservations now db =
     filter (\<lambda>r. rv_status r = ACTIVE \<and> rv_expiresAt r \<le> now) (gd_reservations db)"

definition expireDueReservations :: "int \<Rightarrow> (game_db \<Rightarrow> game_db) \<Rightarrow> game_db \<Rightarrow> game_db" where
  "expireDueReservations now others db =
     (let due = due_reservations now db in
      if due = [] then db
      else snd (update_reservations (\<lambda>r. List.member (map rv_id due) (rv_id r))
             (set_reservation_status EXPIRED) (others db)))"

section \<open>Registering one cartela\<close>

definition myRegistration :: "game_db \<Rightarrow> string \<Rightarrow> string \<Rightarrow> string \<Rightarrow> game_cartela option" where
  "myRegistration db sessionId cartelaId userId =
     find (\<lambda>c. gc_sessionId c = sessionId \<and> gc_cartelaId c = cartelaId \<and> gc_userId c = userId)
       (gd_cartelas db)"

text \<open>The checks before a cartela is entered, the hold of another player apart.\<close>

definition assertMayRegister ::
  "int \<Rightarrow> game_db \<Rightarrow> session_row \<Rightarrow> slot_row \<Rightarrow> string \<Rightarrow> string \<Rightarrow> http_error + unit" where
  "assertMayRegister now db session slot userId cartelaId =
     bind_result
       (if shouldLockCartelasAgainstLiveRound session slot
        then assertCartelaNotLockedByLiveRound now db (gs_id session) cartelaId (sl_category slot)
        else Inr ()) (\<lambda>_.
     assertCategoryCartelaLimit db (gs_id session) userId (Some (sl_category slot))
       (sl_maxCartelasPerPlayer slot))"

definition confirm_own ::
  "string \<Rightarrow> reservation_row option \<Rightarrow> game_db \<Rightarrow> http_error + game_db" where
  "confirm_own userId active db =
     (case active of
        None \<Rightarrow> Inr db
      | Some r \<Rightarrow>
          if rv_userId r = userId
          then bind_result (update_reservation (rv_id r) (set_reservation_status CONFIRMED) db) (\<lambda>(_, db'). Inr db')
          else Inr db)"

definition register_tx ::
  "int \<Rightarrow> string \<times> string \<Rightarrow> string \<Rightarrow> string \<Rightarrow> string \<Rightarrow> game_db \<Rightarrow> registered tx" where
  "register_tx now newIds sessionId userId cartelaId db =
     (case getSessionForRegistrationWrite db sessionId of
        None \<Rightarrow> Inl (Not_Found ''Game session not found'')
      | Some (session, slot) \<Rightarrow>
          bind_result (assertSessionRegistrationAllowed now db session slot) (\<lambda>_.
          if find_board db cartelaId = None then Inl (Not_Found ''Cartela not found'')
          else
            bind_result (assertMayRegister now db session slot userId cartelaId) (\<lambda>_.
            let active = activeReservation now db sessionId cartelaId in
            if (case active of None \<Rightarrow> False | Some r \<Rightarrow> rv_userId r \<noteq> userId)
            then Inl (Conflict ''Another player is choosing this cartela'')
            else
              bind_result (enter_cartela now newIds session slot userId cartelaId db) (\<lambda>(entered, db1).
              bind_result (confirm_own userId active db1) (\<lambda>db2. Inr (entered, db2))))))"

text \<open>A registration found after the transaction ran into the unique index is the answer.\<close>

definition registered_meanwhile ::
  "game_db \<Rightarrow> string \<Rightarrow> string \<Rightarrow> string \<Rightarrow> http_error \<Rightarrow> game_cartela game_outcome" where
  "registered_meanwhile db sessionId cartelaId userId e =
     (if e = Db_Error ''P2002'' then
        (case myRegistration db sessionId cartelaId userId of
           Some c \<Rightarrow> (Inr c, db)
         | None \<Rightarrow> (Inl (Conflict ''This cartela is already registered for this session''), db))
      else (Inl e, db))"

definition registerCartela ::
  "int \<Rightarrow> string \<times> string \<Rightarrow> (game_db \<Rightarrow> game_db) \<Rightarrow> string \<Rightarrow> string \<Rightarrow> string \<Rightarrow> game_db \<Rightarrow>
   game_cartela game_outcome" where
  "registerCartela now newIds others sessionId userId cartelaId db =
     (case myRegistration db sessionId cartelaId userId of
        Some c \<Rightarrow> (Inr c, db)
      | None \<Rightarrow>
          let db1 = others db in
          case register_tx now newIds sessionId userId cartelaId db1 of
            Inl e \<Rightarrow> registered_meanwhile db1 sessionId cartelaId userId e
          | Inr (entered, db2) \<Rightarrow>
              if rg_session entered = None then (Inl (Not_Found ''Game session not found''), db2)
              else (Inr (rg_cartela entered), db2))"

section \<open>Confirming a reservation\<close>

text \<open>A throw gives up what the transaction wrote, also the mark of a reservation that is over.\<close>

definition confirm_tx ::
  "int \<Rightarrow> string \<times> string \<Rightarrow> string \<Rightarrow> string \<Rightarrow> game_db \<Rightarrow> registered tx" where
  "confirm_tx now newIds reservationId userId db =
     (case find_reservation db reservationId of
        None \<Rightarrow> Inl (Not_Found ''Reservation not found'')
      | Some r \<Rightarrow>
          if rv_userId r \<noteq> userId then Inl (Bad_Request ''Reservation does not belong to user'')
          else if rv_status r \<noteq> ACTIVE then Inl (Bad_Request ''Reservation is no longer active'')
          else if rv_expiresAt r \<le> now then
            bind_result (update_reservation reservationId (set_reservation_status EXPIRED) db) (\<lambda>_.
              Inl (Bad_Request ''Reservation has expired''))
          else
            case getSessionForRegistrationWrite db (rv_sessionId r) of
              None \<Rightarrow> Inl (Not_Found ''Game session not found'')
            | Some (session, slot) \<Rightarrow>
                bind_result (assertSessionRegistrationAllowed now db session slot) (\<lambda>_.
                bind_result (assertMayRegister now db session slot userId (rv_cartelaId r)) (\<lambda>_.
                bind_result (enter_cartela now newIds session slot userId (rv_cartelaId r) db)
                  (\<lambda>(entered, db1).
                bind_result (update_reservation reservationId (set_reservation_status CONFIRMED) db1)
                  (\<lambda>(_, db2). Inr (entered, db2))))))"

definition confirmReservation ::
  "int \<Rightarrow> bool \<Rightarrow> string \<times> string \<Rightarrow> string \<Rightarrow> string \<Rightarrow> game_db \<Rightarrow> game_cartela game_outcome" where
  "confirmReservation now withinLimit newIds reservationId userId db =
     (if \<not> withinLimit then (Inl (Too_Many_Requests USER_ACTION_RATE_LIMIT_MESSAGE), db)
      else
        case confirm_tx now newIds reservationId userId db of
          Inr (entered, db1) \<Rightarrow>
            if rg_session entered = None then (Inl (Not_Found ''Game session not found''), db1)
            else (Inr (rg_cartela entered), db1)
        | Inl e \<Rightarrow>
            (if e = Db_Error ''P2002'' then
               (case find_reservation db reservationId of
                  None \<Rightarrow> (Inl (Conflict ''This cartela is already registered for this session''), db)
                | Some r \<Rightarrow> registered_meanwhile db (rv_sessionId r) (rv_cartelaId r) userId e)
             else (Inl e, db)))"

section \<open>The session a slot registers into\<close>

definition registration_session :: "game_db \<Rightarrow> string \<Rightarrow> session_row option" where
  "registration_session db slotId =
     find (\<lambda>s. gs_slotId s = slotId \<and>
         (gs_status s = READY \<or> gs_status s = PLAYING \<or> gs_status s = CHECKING))
       (rev (gd_sessions db))"

definition not_ready_error :: http_error where
  "not_ready_error = Coded_Request ''No active session found for this slot'' ''SESSION_NOT_READY''"

text \<open>The newest session of the slot that is not over, or a new one while the slot waits its turn.\<close>

definition resolve_tx ::
  "int \<Rightarrow> string \<times> string \<Rightarrow> string \<Rightarrow> game_db \<Rightarrow> session_row tx" where
  "resolve_tx now codes slotId db =
     (case find_slot db slotId of
        None \<Rightarrow> Inl (Not_Found ''Game slot not found'')
      | Some slot \<Rightarrow>
          if sl_status slot \<noteq> NEXT \<and> sl_status slot \<noteq> PLAYING
          then Inl (Bad_Request ''Cartela registration is only allowed for NEXT or PLAYING slots'')
          else
            bind_result
              (case registration_session db slotId of
                 Some session \<Rightarrow> Inr (session, db)
               | None \<Rightarrow>
                   if sl_status slot \<noteq> NEXT then Inl not_ready_error
                   else if isBigGameCategory (Some (sl_category slot)) then Inl not_ready_error
                   else
                     (case isSlotValidForReadySession db slotId of
                        Some reason \<Rightarrow> Inl (Bad_Request (''Cannot create session: '' @ reason))
                      | None \<Rightarrow>
                          let session = new_session now codes slotId (buildSessionMoneyConfig slot) READY None
                          in bind_result (create_session session db) (\<lambda>db'. Inr (session, db'))))
              (\<lambda>(session, db1).
            bind_result (assertSessionRegistrationAllowed now db1 session slot) (\<lambda>_.
              Inr (session, db1))))"

definition resolveRegistrationSessionForSlot ::
  "int \<Rightarrow> string \<times> string \<Rightarrow> string \<Rightarrow> game_db \<Rightarrow> session_row game_outcome" where
  "resolveRegistrationSessionForSlot now codes slotId db =
     transaction db (resolve_tx now codes slotId db)"

definition registerCartelaForSlot ::
  "int \<Rightarrow> string \<times> string \<Rightarrow> string \<times> string \<Rightarrow> (game_db \<Rightarrow> game_db) \<Rightarrow> string \<Rightarrow> string \<Rightarrow> string \<Rightarrow>
   game_db \<Rightarrow> game_cartela game_outcome" where
  "registerCartelaForSlot now codes newIds others slotId userId cartelaId db =
     (case resolveRegistrationSessionForSlot now codes slotId db of
        (Inl e, db1) \<Rightarrow> (Inl e, db1)
      | (Inr session, db1) \<Rightarrow> registerCartela now newIds others (gs_id session) userId cartelaId db1)"

definition reserveCartelaForSlot ::
  "int \<Rightarrow> int \<Rightarrow> bool \<Rightarrow> string \<times> string \<Rightarrow> string \<Rightarrow> bool option \<Rightarrow> int option \<Rightarrow> string \<Rightarrow> string \<Rightarrow>
   string \<Rightarrow> game_db \<Rightarrow> reservation_row game_outcome" where
  "reserveCartelaForSlot now cartelaHoldMs withinLimit codes newId preserve holdMs slotId userId cartelaId db =
     (case resolveRegistrationSessionForSlot now codes slotId db of
        (Inl e, db1) \<Rightarrow> (Inl e, db1)
      | (Inr session, db1) \<Rightarrow>
          reserveCartela now cartelaHoldMs withinLimit newId preserve holdMs (gs_id session) userId
            cartelaId db1)"

end
