(* ===== verification/BulkRegistration.thy ===== *)
theory BulkRegistration
  imports Reservations
begin

text \<open>
  Many cartelas in one request: \<open>reserveCartelasBulk\<close> and \<open>registerCartelasForSlotBulk\<close> of
  \<open>games/games.service.ts\<close>, with \<open>games/registration-limits.ts\<close>. A registration is committed in chunks of
  twenty; a chunk is one transaction whose loop gathers successes and failures. \<open>newIds\<close> gives the
  identifiers of the rows created for a cartela; \<open>busy\<close> is the error with which the database turns an
  attempt away before it runs, if it does.
\<close>

section \<open>Limits\<close>

definition MAX_BULK_CARTELAS_PER_REQUEST :: nat where
  "MAX_BULK_CARTELAS_PER_REQUEST = 100"

definition BULK_COMMIT_CHUNK_SIZE :: nat where
  "BULK_COMMIT_CHUNK_SIZE = 20"

text \<open>The loop does not end when a chunk has no room; it is called with a positive size.\<close>

fun chunkCartelaItems :: "'a list \<Rightarrow> nat \<Rightarrow> 'a list list" where
  "chunkCartelaItems items chunkSize =
     (if items = [] \<or> chunkSize = 0 then []
      else take chunkSize items # chunkCartelaItems (drop chunkSize items) chunkSize)"

declare chunkCartelaItems.simps [simp del]

definition assertBulkCartelasWithinLimit :: "nat \<Rightarrow> http_error + unit" where
  "assertBulkCartelasWithinLimit cartelaCount =
     (if MAX_BULK_CARTELAS_PER_REQUEST < cartelaCount
      then Inl (Coded_Request ''Bulk registration supports at most 100 cartelas per request''
                  ''BULK_CARTELAS_LIMIT_EXCEEDED'')
      else Inr ())"

text \<open>\<open>text.includes(part)\<close>.\<close>

definition js_includes :: "string \<Rightarrow> string \<Rightarrow> bool" where
  "js_includes part text = list_ex (\<lambda>i. take (length part) (drop i text) = part) [0..<length text + 1]"

text \<open>\<open>[...new Set(xs)]\<close>: the first of equal elements stays.\<close>

definition js_unique :: "'a list \<Rightarrow> 'a list" where
  "js_unique xs = rev (remdups (rev xs))"

text \<open>\<open>new Map(rows.map(row => [key, row]))\<close>: the last of equal keys stays.\<close>

definition js_index :: "('a \<Rightarrow> string) \<Rightarrow> 'a list \<Rightarrow> string \<Rightarrow> 'a option" where
  "js_index key rows = map_of (map (\<lambda>row. (key row, row)) (rev rows))"

section \<open>Reserving many\<close>

record bulk_reservations =
  br_reservations :: "reservation_row list"
  br_failures :: "(string \<times> string) list"
  br_db :: game_db

definition reserve_failure :: "string \<Rightarrow> string \<Rightarrow> bulk_reservations \<Rightarrow> bulk_reservations" where
  "reserve_failure cartelaId reason st =
     st\<lparr>br_failures := br_failures st @ [(cartelaId, reason)]\<rparr>"

definition reserve_step ::
  "int \<Rightarrow> (string \<Rightarrow> string) \<Rightarrow> string \<Rightarrow> string \<Rightarrow> string list \<Rightarrow> string list \<Rightarrow>
   (string \<Rightarrow> game_cartela option) \<Rightarrow> string list \<Rightarrow> (string \<Rightarrow> reservation_row option) \<Rightarrow>
   string \<Rightarrow> bulk_reservations \<Rightarrow> http_error + bulk_reservations" where
  "reserve_step expiresAt newIds sessionId userId known owned registeredBy locked activeBy cartelaId st =
     (if \<not> List.member known cartelaId then Inr (reserve_failure cartelaId ''Cartela not found'' st)
      else if List.member owned cartelaId then Inr st
      else if (case registeredBy cartelaId of None \<Rightarrow> False | Some c \<Rightarrow> gc_userId c \<noteq> userId)
      then Inr (reserve_failure cartelaId ''This cartela is already registered for this session'' st)
      else if List.member locked cartelaId
      then Inr (reserve_failure cartelaId ''This cartela is already in use in the current live game'' st)
      else
        case hold_cartela expiresAt (newIds cartelaId) True sessionId userId cartelaId
               (activeBy cartelaId) (br_db st) of
          Inr (r, db) \<Rightarrow> Inr (st\<lparr>br_reservations := br_reservations st @ [r], br_db := db\<rparr>)
        | Inl (Conflict m) \<Rightarrow>
            Inr (reserve_failure cartelaId ''Another player is choosing this cartela'' st)
        | Inl e \<Rightarrow> Inl e)"

fun reserve_each ::
  "(string \<Rightarrow> bulk_reservations \<Rightarrow> http_error + bulk_reservations) \<Rightarrow> string list \<Rightarrow>
   bulk_reservations \<Rightarrow> http_error + bulk_reservations" where
  "reserve_each step [] st = Inr st"
| "reserve_each step (cartelaId # rest) st = bind_result (step cartelaId st) (reserve_each step rest)"

text \<open>
  The registrations and the reservations of the requested cartelas are read once, before the loop.
\<close>

definition reserve_bulk_tx ::
  "int \<Rightarrow> int \<Rightarrow> (string \<Rightarrow> string) \<Rightarrow> string \<Rightarrow> string \<Rightarrow> string list \<Rightarrow> game_db \<Rightarrow>
   (reservation_row list \<times> (string \<times> string) list) tx" where
  "reserve_bulk_tx now expiresAt newIds sessionId userId cartelaIds db =
     (let uniqueCartelaIds = js_unique cartelaIds;
          db1 = expire_reservations now sessionId (List.member uniqueCartelaIds) db
      in case getSessionForRegistrationWrite db1 sessionId of
           None \<Rightarrow> Inl (Not_Found ''Game session not found'')
         | Some (session, slot) \<Rightarrow>
             bind_result (assertSessionRegistrationAllowed now db1 session slot) (\<lambda>_.
             let known = map cartela_id (filter (\<lambda>b. List.member uniqueCartelaIds (cartela_id b)) (gd_boards db1));
                 locked = (if shouldLockCartelasAgainstLiveRound session slot
                           then findLiveLockedCartelaIds now db1 sessionId uniqueCartelaIds (sl_category slot)
                           else []);
                 registeredCartelas = filter (\<lambda>c. List.member uniqueCartelaIds (gc_cartelaId c))
                   (active_cartelas db1 sessionId);
                 owned = map gc_cartelaId (filter (\<lambda>c. gc_userId c = userId) registeredCartelas);
                 toReserve = filter (\<lambda>i. \<not> List.member owned i) uniqueCartelaIds;
                 activeReservations = filter (holds_now now sessionId (List.member toReserve)) (gd_reservations db1)
             in bind_result
                  (reserve_each
                    (reserve_step expiresAt newIds sessionId userId known owned
                      (js_index gc_cartelaId registeredCartelas) locked (js_index rv_cartelaId activeReservations))
                    uniqueCartelaIds \<lparr>br_reservations = [], br_failures = [], br_db = db1\<rparr>)
                  (\<lambda>st. Inr ((br_reservations st, br_failures st), br_db st))))"

definition reserveCartelasBulk ::
  "int \<Rightarrow> int \<Rightarrow> bool \<Rightarrow> (string \<Rightarrow> string) \<Rightarrow> string \<Rightarrow> string \<Rightarrow> string list \<Rightarrow> game_db \<Rightarrow>
   (reservation_row list \<times> (string \<times> string) list) game_outcome" where
  "reserveCartelasBulk now bulkHoldMs withinLimit newIds sessionId userId cartelaIds db =
     (if \<not> withinLimit then (Inl (Too_Many_Requests USER_ACTION_RATE_LIMIT_MESSAGE), db)
      else
        case assertBulkCartelasWithinLimit (length cartelaIds) of
          Inl e \<Rightarrow> (Inl e, db)
        | Inr _ \<Rightarrow>
            transaction db (reserve_bulk_tx now (now + bulkHoldMs) newIds sessionId userId cartelaIds db))"

definition reserveCartelasBulkForSlot ::
  "int \<Rightarrow> int \<Rightarrow> bool \<Rightarrow> string \<times> string \<Rightarrow> (string \<Rightarrow> string) \<Rightarrow> string \<Rightarrow> string \<Rightarrow> string list \<Rightarrow>
   game_db \<Rightarrow> (reservation_row list \<times> (string \<times> string) list) game_outcome" where
  "reserveCartelasBulkForSlot now bulkHoldMs withinLimit codes newIds slotId userId cartelaIds db =
     (case resolveRegistrationSessionForSlot now codes slotId db of
        (Inl e, db1) \<Rightarrow> (Inl e, db1)
      | (Inr session, db1) \<Rightarrow>
          reserveCartelasBulk now bulkHoldMs withinLimit newIds (gs_id session) userId cartelaIds db1)"

section \<open>Registering many\<close>

record bulk_item =
  bi_cartelaId :: string
  bi_cartelaNumber :: int

record bulk_failure =
  bf_cartelaId :: string
  bf_cartelaNumber :: int
  bf_reason :: string

definition buildBulkRegistrationFailure :: "bulk_item \<Rightarrow> string \<Rightarrow> bulk_failure" where
  "buildBulkRegistrationFailure cartela reason =
     \<lparr>bf_cartelaId = bi_cartelaId cartela, bf_cartelaNumber = bi_cartelaNumber cartela,
      bf_reason = reason\<rparr>"

text \<open>\<open>extractExceptionMessage\<close> of an exception that is a bad request.\<close>

definition bad_request_message :: "http_error \<Rightarrow> string option" where
  "bad_request_message e =
     (case e of Bad_Request m \<Rightarrow> Some m | Coded_Request m code \<Rightarrow> Some m | _ \<Rightarrow> None)"

definition isWalletBalanceMessage :: "string \<Rightarrow> bool" where
  "isWalletBalanceMessage message =
     (let normalized = js_lower message in
      js_includes ''insufficient wallet balance'' normalized \<or>
      js_includes ''insufficient bonus cartela balance'' normalized)"

definition extractRegistrationClosedReason :: "http_error \<Rightarrow> string option" where
  "extractRegistrationClosedReason e =
     (case e of
        Coded_Request m code \<Rightarrow>
          if code = ''REGISTRATION_CLOSED'' \<or> code = ''BIG_GAME_REGISTRATION_CLOSED'' then Some m else None
      | _ \<Rightarrow> None)"

text \<open>
  The variables of the loop. \<open>bs_slots\<close> is \<open>None\<close> for an infinite number of places left, \<open>bs_bonus\<close> is
  \<open>None\<close> for a null balance.
\<close>

record bulk_state =
  bs_db :: game_db
  bs_mine :: "string \<Rightarrow> game_cartela option"
  bs_taken :: "string \<Rightarrow> string option"
  bs_walletFailure :: "string option"
  bs_registered :: nat
  bs_slots :: "int option"
  bs_bonus :: "int option"
  bs_confirm :: "string list"
  bs_successes :: "game_cartela list"
  bs_failures :: "bulk_failure list"
  bs_wallet :: "serialized_wallet option"

text \<open>What the loop reads of the request and of the database before it starts.\<close>

record bulk_context =
  bx_newIds :: "string \<Rightarrow> string \<times> string"
  bx_session :: session_row
  bx_slot :: slot_row
  bx_userId :: string
  bx_known :: "string list"
  bx_locked :: "string list"
  bx_active :: "string \<Rightarrow> reservation_row option"

definition bulk_fail :: "bulk_item \<Rightarrow> string \<Rightarrow> bulk_state \<Rightarrow> bulk_state" where
  "bulk_fail cartela reason st =
     st\<lparr>bs_failures := bs_failures st @ [buildBulkRegistrationFailure cartela reason]\<rparr>"

definition TAKEN_MESSAGE :: string where
  "TAKEN_MESSAGE = ''This cartela is already taken for this session''"

definition bulk_plan :: "bulk_context \<Rightarrow> bulk_state \<Rightarrow> http_error + payment_plan" where
  "bulk_plan cx st =
     (case bs_bonus st of
        Some balance \<Rightarrow>
          Inr (resolveRegistrationPaymentPlanFromBonusBalance (bx_session cx) (bx_slot cx) balance)
      | None \<Rightarrow> resolveRegistrationPaymentPlan (bs_db st) (bx_userId cx) (bx_session cx) (bx_slot cx))"

definition delete_cartela :: "string \<Rightarrow> game_db \<Rightarrow> game_db" where
  "delete_cartela ident db = db\<lparr>gd_cartelas := filter (\<lambda>c. gc_id c \<noteq> ident) (gd_cartelas db)\<rparr>"

text \<open>The cartela is entered: what the loop records of it.\<close>

definition bulk_entered ::
  "bulk_context \<Rightarrow> bulk_item \<Rightarrow> game_cartela \<Rightarrow> bulk_state \<Rightarrow> bulk_state" where
  "bulk_entered cx cartela c st =
     st\<lparr>bs_confirm := bs_confirm st @
          (case bx_active cx (bi_cartelaId cartela) of
             None \<Rightarrow> []
           | Some r \<Rightarrow> if rv_userId r = bx_userId cx then [rv_id r] else []),
        bs_successes := bs_successes st @ [c],
        bs_mine := (bs_mine st)(bi_cartelaId cartela \<mapsto> c),
        bs_taken := (bs_taken st)(bi_cartelaId cartela \<mapsto> bx_userId cx),
        bs_registered := bs_registered st + 1,
        bs_slots := (if isBonusLikeCategory (Some (sl_category (bx_slot cx)))
                     then map_option (\<lambda>k. k - 1) (bs_slots st) else bs_slots st)\<rparr>"

text \<open>
  The payment of a created cartela. When the wallet refuses, the row is deleted and the message stops
  the rest of the request; another exception goes on, with the row deleted.
\<close>

definition bulk_pay ::
  "bulk_context \<Rightarrow> bulk_item \<Rightarrow> payment_plan \<Rightarrow> game_cartela \<Rightarrow> bulk_state \<Rightarrow>
   (http_error \<times> bulk_state) + bulk_state" where
  "bulk_pay cx cartela plan c st =
     (if snd plan then Inr (bulk_entered cx cartela c st)
      else
        case applyRegistrationPayment (snd (bx_newIds cx (bi_cartelaId cartela))) (bx_userId cx)
               (bx_session cx) (gc_id c) (fst plan) (bs_db st) of
          (Inl e, db) \<Rightarrow>
            let st1 = st\<lparr>bs_db := delete_cartela (gc_id c) db\<rparr> in
            (case e of
               Not_Found m \<Rightarrow> Inr (bulk_fail cartela m (st1\<lparr>bs_walletFailure := Some m\<rparr>))
             | _ \<Rightarrow>
                 (case bad_request_message e of
                    Some m \<Rightarrow> Inr (bulk_fail cartela m (st1\<lparr>bs_walletFailure := Some m\<rparr>))
                  | None \<Rightarrow> Inl (e, st1)))
        | (Inr snapshot, db) \<Rightarrow>
            Inr (bulk_entered cx cartela c
              (st\<lparr>bs_db := db, bs_wallet := snapshot,
                 bs_bonus := (if ra_paymentSource (fst plan) = Some BONUS_CARTELA
                              then map_option (\<lambda>k. k - 1) (bs_bonus st) else bs_bonus st)\<rparr>)))"

text \<open>One cartela of the request, up to the exceptions the loop catches.\<close>

definition bulk_try ::
  "bulk_context \<Rightarrow> bulk_item \<Rightarrow> bulk_state \<Rightarrow> (http_error \<times> bulk_state) + bulk_state" where
  "bulk_try cx cartela st =
     (let cid = bi_cartelaId cartela;
          category = Some (sl_category (bx_slot cx))
      in case bs_mine st cid of
           Some c \<Rightarrow> Inr (st\<lparr>bs_successes := bs_successes st @ [c]\<rparr>)
         | None \<Rightarrow>
             if bs_taken st cid \<noteq> None then Inr (bulk_fail cartela TAKEN_MESSAGE st)
             else if \<not> List.member (bx_known cx) cid then Inr (bulk_fail cartela ''Cartela not found'' st)
             else if List.member (bx_locked cx) cid
             then Inr (bulk_fail cartela ''This cartela is already in use in the current live game'' st)
             else if isBonusLikeCategory category \<and>
               (case bs_slots st of None \<Rightarrow> False | Some k \<Rightarrow> k \<le> 0)
             then Inr (bulk_fail cartela
               (if isBigGotdCategory category then ''Big GOTD cartela limit reached for this session''
                else ''Bonus cartela limit reached for this session'') st)
             else if (case bx_active cx cid of None \<Rightarrow> False | Some r \<Rightarrow> rv_userId r \<noteq> bx_userId cx)
             then Inr (bulk_fail cartela TAKEN_MESSAGE st)
             else
               case bulk_plan cx st of
                 Inl e \<Rightarrow> Inl (e, st)
               | Inr plan \<Rightarrow>
                   case create_cartela (fst (bx_newIds cx cid)) (gs_id (bx_session cx)) (bx_userId cx) cid
                          (fst plan) (bs_db st) of
                     Inr (c, db) \<Rightarrow> bulk_pay cx cartela plan c (st\<lparr>bs_db := db\<rparr>)
                   | Inl e \<Rightarrow>
                       if e = Db_Error ''P2002'' then
                         (case myRegistration (bs_db st) (gs_id (bx_session cx)) cid (bx_userId cx) of
                            Some c \<Rightarrow>
                              Inr (st\<lparr>bs_successes := bs_successes st @ [c],
                                     bs_mine := (bs_mine st)(cid \<mapsto> c)\<rparr>)
                          | None \<Rightarrow> Inr (bulk_fail cartela TAKEN_MESSAGE st))
                       else Inl (e, st))"

definition bulk_item_step ::
  "bulk_context \<Rightarrow> bulk_item \<Rightarrow> bulk_state \<Rightarrow> http_error + bulk_state" where
  "bulk_item_step cx cartela st =
     (case bs_walletFailure st of
        Some m \<Rightarrow> Inr (bulk_fail cartela m st)
      | None \<Rightarrow>
          case bulk_try cx cartela st of
            Inr st1 \<Rightarrow> Inr st1
          | Inl (Conflict m, st1) \<Rightarrow> Inr (bulk_fail cartela TAKEN_MESSAGE st1)
          | Inl (e, st1) \<Rightarrow>
              (case bad_request_message e of
                 Some m \<Rightarrow>
                   Inr ((bulk_fail cartela m st1)\<lparr>bs_walletFailure :=
                     (if isWalletBalanceMessage m then Some m else bs_walletFailure st1)\<rparr>)
               | None \<Rightarrow> Inl e))"

fun bulk_loop :: "bulk_context \<Rightarrow> bulk_item list \<Rightarrow> bulk_state \<Rightarrow> http_error + bulk_state" where
  "bulk_loop cx [] st = Inr st"
| "bulk_loop cx (cartela # rest) st = bind_result (bulk_item_step cx cartela st) (bulk_loop cx rest)"

section \<open>A chunk\<close>

record bulk_result =
  bz_successes :: "game_cartela list"
  bz_failures :: "bulk_failure list"
  bz_session :: "session_row option"
  bz_wallet :: "serialized_wallet option"

text \<open>What is read before the loop.\<close>

definition bulk_start ::
  "int \<Rightarrow> (string \<Rightarrow> string \<times> string) \<Rightarrow> session_row \<Rightarrow> slot_row \<Rightarrow> string \<Rightarrow> bulk_item list \<Rightarrow> game_db \<Rightarrow>
   http_error + bulk_context \<times> bulk_state" where
  "bulk_start now newIds session slot userId requested db =
     (let sid = gs_id session;
          category = Some (sl_category slot);
          uniqueCartelaIds = js_unique (map bi_cartelaId requested);
          wanted = List.member uniqueCartelaIds;
          locked = (if shouldLockCartelasAgainstLiveRound session slot
                    then findLiveLockedCartelaIds now db sid uniqueCartelaIds (sl_category slot) else []);
          mine = filter (\<lambda>c. gc_sessionId c = sid \<and> gc_userId c = userId \<and> wanted (gc_cartelaId c)) (gd_cartelas db);
          taken = filter (\<lambda>c. wanted (gc_cartelaId c)) (active_cartelas db sid);
          active = filter (holds_now now sid wanted) (gd_reservations db)
      in bind_result
           (if \<not> isFreeEntryCategory category \<and>
               (\<not> isBonusLikeCategory category \<and> \<not> isBigGameCategory category)
            then bind_result (getWalletOrThrow (gd_wallet db) userId)
                   (\<lambda>wallet. Inr (Some (wa_bonusCartelaBalance wallet)))
            else Inr None)
           (\<lambda>bonus. Inr
             (\<lparr>bx_newIds = newIds, bx_session = session, bx_slot = slot, bx_userId = userId,
               bx_known = map cartela_id (filter (\<lambda>b. wanted (cartela_id b)) (gd_boards db)),
               bx_locked = locked, bx_active = js_index rv_cartelaId active\<rparr>,
              \<lparr>bs_db = db, bs_mine = js_index gc_cartelaId mine,
               bs_taken = (\<lambda>i. map_option gc_userId (js_index gc_cartelaId taken i)),
               bs_walletFailure = None, bs_registered = 0,
               bs_slots = (if isBonusLikeCategory category
                           then Some (getBonusCartelaLimit (sl_maxCartelasPerPlayer slot) -
                                  int (length (user_cartelas db sid userId)))
                           else None),
               bs_bonus = bonus, bs_confirm = [], bs_successes = [], bs_failures = [],
               bs_wallet = None\<rparr>)))"

text \<open>What is written after the loop.\<close>

definition bulk_finish :: "int \<Rightarrow> bulk_context \<Rightarrow> bulk_state \<Rightarrow> bulk_result tx" where
  "bulk_finish now cx st =
     (let sid = gs_id (bx_session cx);
          db1 = (if bs_confirm st \<noteq> []
                 then snd (update_reservations (\<lambda>r. List.member (bs_confirm st) (rv_id r))
                        (set_reservation_status CONFIRMED) (bs_db st))
                 else bs_db st)
      in bind_result
           (if 0 < bs_registered st \<and> \<not> isFreeEntryCategory (Some (sl_category (bx_slot cx)))
            then update_session now sid (add_contributions (of_nat (bs_registered st)) (bx_session cx)) db1
            else Inr db1)
           (\<lambda>db2. Inr
             (\<lparr>bz_successes = bs_successes st, bz_failures = bs_failures st,
               bz_session = (if 0 < bs_registered st then find_session db2 sid else None),
               bz_wallet = bs_wallet st\<rparr>, db2)))"

definition bulk_tx ::
  "int \<Rightarrow> (string \<Rightarrow> string \<times> string) \<Rightarrow> string \<Rightarrow> string \<Rightarrow> bulk_item list \<Rightarrow> game_db \<Rightarrow> bulk_result tx" where
  "bulk_tx now newIds sessionId userId requested db =
     (case getSessionForRegistrationWrite db sessionId of
        None \<Rightarrow> Inl (Not_Found ''Game session not found'')
      | Some (session, slot) \<Rightarrow>
          bind_result (assertSessionRegistrationAllowed now db session slot) (\<lambda>_.
          bind_result (bulk_start now newIds session slot userId requested db) (\<lambda>(cx, st).
          bind_result (bulk_loop cx requested st) (\<lambda>st1. bulk_finish now cx st1))))"

definition isBulkRegisterRetryablePrismaError :: "http_error \<Rightarrow> bool" where
  "isBulkRegisterRetryablePrismaError e \<longleftrightarrow> e = Db_Error ''P2028'' \<or> e = Db_Error ''P2034''"

definition busy_error :: http_error where
  "busy_error = Unavailable ''Registration is busy. Please try again.''"

text \<open>The attempts: \<open>busy\<close> has one entry for each of them.\<close>

fun bulk_attempts :: "string option list \<Rightarrow> (game_db \<Rightarrow> bulk_result tx) \<Rightarrow> game_db \<Rightarrow> bulk_result tx" where
  "bulk_attempts [] run db = Inl busy_error"
| "bulk_attempts (turnedAway # later) run db =
     (case (case turnedAway of Some code \<Rightarrow> Inl (Db_Error code) | None \<Rightarrow> run db) of
        Inr r \<Rightarrow> Inr r
      | Inl e \<Rightarrow>
          if \<not> isBulkRegisterRetryablePrismaError e \<or> later = [] then
            Inl (if isBulkRegisterRetryablePrismaError e then busy_error else e)
          else bulk_attempts later run db)"

definition registerCartelasBulkChunkWithRetry ::
  "string option \<times> string option \<Rightarrow> int \<Rightarrow> (string \<Rightarrow> string \<times> string) \<Rightarrow> string \<Rightarrow> string \<Rightarrow>
   bulk_item list \<Rightarrow> game_db \<Rightarrow> bulk_result tx" where
  "registerCartelasBulkChunkWithRetry busy now newIds sessionId userId chunkCartelas db =
     bulk_attempts [fst busy, snd busy] (bulk_tx now newIds sessionId userId chunkCartelas) db"

section \<open>The request\<close>

record bulk_progress =
  bp_successes :: "game_cartela list"
  bp_failures :: "bulk_failure list"
  bp_closed :: "string option"

definition fail_all :: "bulk_item list \<Rightarrow> string \<Rightarrow> bulk_progress \<Rightarrow> bulk_progress" where
  "fail_all items reason p =
     p\<lparr>bp_failures := bp_failures p @ map (\<lambda>c. buildBulkRegistrationFailure c reason) items\<rparr>"

text \<open>The loop over the chunks: each commits on its own; a closed registration ends them.\<close>

fun bulk_chunks ::
  "(bulk_item list \<Rightarrow> game_db \<Rightarrow> bulk_result tx) \<Rightarrow> bulk_item list list \<Rightarrow> bulk_progress \<Rightarrow> game_db \<Rightarrow>
   bulk_progress game_outcome" where
  "bulk_chunks run [] p db = (Inr p, db)"
| "bulk_chunks run (chunk # rest) p db =
     (case bp_closed p of
        Some reason \<Rightarrow> bulk_chunks run rest (fail_all chunk reason p) db
      | None \<Rightarrow>
          case run chunk db of
            Inr (r, db1) \<Rightarrow>
              bulk_chunks run rest
                (p\<lparr>bp_successes := bp_successes p @ bz_successes r,
                   bp_failures := bp_failures p @ bz_failures r\<rparr>) db1
          | Inl e \<Rightarrow>
              (case extractRegistrationClosedReason e of
                 Some reason \<Rightarrow> bulk_chunks run rest (fail_all chunk reason (p\<lparr>bp_closed := Some reason\<rparr>)) db
               | None \<Rightarrow> (Inl e, db)))"

record bulk_answer =
  ba_sessionId :: string
  ba_successes :: "game_cartela list"
  ba_failures :: "bulk_failure list"
  ba_myCartelas :: "game_cartela list"

definition registerCartelasBulkInternal ::
  "string option \<times> string option \<Rightarrow> int \<Rightarrow> (string \<Rightarrow> string \<times> string) \<Rightarrow> string \<Rightarrow> string \<Rightarrow>
   bulk_item list \<Rightarrow> game_db \<Rightarrow> bulk_answer game_outcome" where
  "registerCartelasBulkInternal busy now newIds sessionId userId cartelas db =
     (case assertBulkCartelasWithinLimit (length cartelas) of
        Inl e \<Rightarrow> (Inl e, db)
      | Inr _ \<Rightarrow>
          case bulk_chunks (registerCartelasBulkChunkWithRetry busy now newIds sessionId userId)
                 (chunkCartelaItems cartelas BULK_COMMIT_CHUNK_SIZE)
                 \<lparr>bp_successes = [], bp_failures = [], bp_closed = None\<rparr> db of
            (Inl e, db1) \<Rightarrow> (Inl e, db1)
          | (Inr p, db1) \<Rightarrow>
              (Inr \<lparr>ba_sessionId = sessionId, ba_successes = bp_successes p, ba_failures = bp_failures p,
                    ba_myCartelas = user_cartelas db1 sessionId userId\<rparr>, db1))"

definition registerCartelasForSlotBulk ::
  "string option \<times> string option \<Rightarrow> int \<Rightarrow> string \<times> string \<Rightarrow> (string \<Rightarrow> string \<times> string) \<Rightarrow> string \<Rightarrow>
   string \<Rightarrow> bulk_item list \<Rightarrow> game_db \<Rightarrow> bulk_answer game_outcome" where
  "registerCartelasForSlotBulk busy now codes newIds slotId userId cartelas db =
     (case assertBulkCartelasWithinLimit (length cartelas) of
        Inl e \<Rightarrow> (Inl e, db)
      | Inr _ \<Rightarrow>
          case resolveRegistrationSessionForSlot now codes slotId db of
            (Inl e, db1) \<Rightarrow> (Inl e, db1)
          | (Inr session, db1) \<Rightarrow>
              registerCartelasBulkInternal busy now newIds (gs_id session) userId cartelas db1)"

end
