(* ===== verification/RegistrationSteps.thy ===== *)
theory RegistrationSteps
  imports ClaimSteps BulkRegistration
begin

text \<open>
  What registering does to the tables. \<open>seated\<close> is the common effect of the single and the bulk
  operations: cartelas entered one after the other, each in a free place and charged as its account
  says. Every transaction of a registration is reduced to it, and it keeps the invariant of the game.
\<close>

section \<open>A charge\<close>

definition entry_key :: "string \<Rightarrow> string \<Rightarrow> ledger_key" where
  "entry_key u cid = (u, GAME_ENTRY, ''GAME_CARTELA'', cid)"

definition entry_row :: "string \<Rightarrow> session_row \<Rightarrow> game_cartela \<Rightarrow> rat \<Rightarrow> ledger_row" where
  "entry_row ident s c balance =
     \<lparr>wt_id = ident, wt_userId = gc_userId c, wt_type = GAME_ENTRY, wt_amount = gs_entryFee s,
      wt_balanceBefore = balance, wt_balanceAfter = balance - gs_entryFee s,
      wt_referenceType = ''GAME_CARTELA'', wt_referenceId = gc_id c,
      wt_description = Some (''Game entry fee for '' @ gs_playCode s)\<rparr>"

text \<open>What the account of a cartela takes from its player's wallet.\<close>

definition charged :: "session_row \<Rightarrow> string \<Rightarrow> game_cartela \<Rightarrow> wallet_db \<Rightarrow> wallet_db \<Rightarrow> bool" where
  "charged s ident c w w' \<longleftrightarrow>
     (case gc_paymentSource c of
        None \<Rightarrow> w' = w
      | Some BONUS_CARTELA \<Rightarrow>
          (\<exists>row. db_wallets w (gc_userId c) = Some row \<and> 1 \<le> wa_bonusCartelaBalance row \<and>
             w' = w\<lparr>db_wallets := (db_wallets w)(gc_userId c \<mapsto>
               row\<lparr>wa_bonusCartelaBalance := wa_bonusCartelaBalance row - 1\<rparr>)\<rparr>)
      | Some MONEY_WALLET \<Rightarrow>
          (\<exists>row. ident \<notin> ledger_ids w \<and> entry_key (gc_userId c) (gc_id c) \<notin> posted w \<and>
             gc_userId c \<in> db_users w \<and> db_wallets w (gc_userId c) = Some row \<and>
             0 < gs_entryFee s \<and> gs_entryFee s \<le> wa_balance row \<and>
             w' = w\<lparr>db_wallets := (db_wallets w)(gc_userId c \<mapsto>
                      row\<lparr>wa_balance := wa_balance row - gs_entryFee s\<rparr>),
                    db_ledger := db_ledger w @ [entry_row ident s c (wa_balance row)]\<rparr>))"

lemma entry_row_key [simp]:
  "row_key (entry_row ident s c b) = entry_key (gc_userId c) (gc_id c)" "wt_id (entry_row ident s c b) = ident"
  by (simp_all add: row_key_def entry_row_def entry_key_def)

lemma charged_ok:
  assumes "charged s ident c w w'" "db_ok w"
  shows "db_ok w'"
proof (cases "gc_paymentSource c")
  case (Some p)
  show ?thesis
  proof (cases p)
    case MONEY_WALLET
    then obtain row where r: "ident \<notin> ledger_ids w" "entry_key (gc_userId c) (gc_id c) \<notin> posted w"
      "gc_userId c \<in> db_users w" "db_wallets w (gc_userId c) = Some row"
      "0 < gs_entryFee s" "gs_entryFee s \<le> wa_balance row"
      "w' = w\<lparr>db_wallets := (db_wallets w)(gc_userId c \<mapsto> row\<lparr>wa_balance := wa_balance row - gs_entryFee s\<rparr>),
              db_ledger := db_ledger w @ [entry_row ident s c (wa_balance row)]\<rparr>"
      using assms(1) Some by (auto simp: charged_def)
    have "wallet_ok (gc_userId c) row" using assms(2) r(4) by (simp add: db_ok_def)
    then have "row_ok w' (entry_row ident s c (wa_balance row))"
      using r(3,5,6) by (simp add: row_ok_def entry_row_def r(7) wallet_ok_def)
    then show ?thesis
      using assms(2) r(1,2,4,6) unfolding r(7)
      by (auto simp: db_ok_def posted_def ledger_ids_def row_ok_def wallet_ok_def)
  next
    case BONUS_CARTELA
    then obtain row where "db_wallets w (gc_userId c) = Some row" "1 \<le> wa_bonusCartelaBalance row"
      "w' = w\<lparr>db_wallets := (db_wallets w)(gc_userId c \<mapsto>
               row\<lparr>wa_bonusCartelaBalance := wa_bonusCartelaBalance row - 1\<rparr>)\<rparr>"
      using assms(1) Some by (auto simp: charged_def)
    then show ?thesis using bonus_update_ok [OF assms(2), of "gc_userId c" row] by simp
  qed
qed (use assms in \<open>simp add: charged_def\<close>)

lemma charged_posted:
  "charged s ident c w w' \<Longrightarrow> posted w' =
     (if gc_paymentSource c = Some MONEY_WALLET then insert (entry_key (gc_userId c) (gc_id c)) (posted w)
      else posted w)"
  by (auto simp: charged_def posted_def split: option.splits payment_source.splits)

lemma charged_users: "charged s ident c w w' \<Longrightarrow> db_users w' = db_users w"
  by (auto simp: charged_def split: option.splits payment_source.splits)

lemma prize_entry_apart [simp]: "prize_key u cid \<noteq> entry_key v cid'"
  by (simp add: prize_key_def entry_key_def)

text \<open>The payment of the code is this charge, when the identifiers are new.\<close>

lemma entry_key_meta: "meta_key u (entry_meta s cid) = entry_key u cid"
  by (simp add: meta_key_def entry_meta_def entry_key_def)

lemma debit_intended:
  "intended_on (with_meta meta u a DEBIT AVAILABLE) row = Some row' \<longleftrightarrow>
   a \<le> wa_balance row \<and> row' = row\<lparr>wa_balance := wa_balance row - a\<rparr>"
  by (auto simp: intended_on_def set_balances_def balances_def)

lemma payment_charged:
  assumes "applyRegistrationPayment ledgerId u s (gc_id c) acc db = (r, db')"
    and "gc_userId c = u" "gc_paymentSource c = ra_paymentSource acc" "ra_paymentSource acc \<noteq> None"
    and "ledgerId \<notin> ledger_ids (gd_wallet db)" "entry_key u (gc_id c) \<notin> posted (gd_wallet db)"
  shows "\<exists>w. db' = db\<lparr>gd_wallet := w\<rparr> \<and>
    (case r of Inl e \<Rightarrow> w = gd_wallet db | Inr x \<Rightarrow> charged s ledgerId c (gd_wallet db) w)"
proof (cases "ra_paymentSource acc")
  case (Some p)
  show ?thesis
  proof (cases p)
    case BONUS_CARTELA
    then show ?thesis
      using assms(1-3) Some bonus_state(1) [of "gd_wallet db" u]
      by (auto simp: applyRegistrationPayment_def wallet_call_def charged_def consumeBonusCartela_def getWalletOrThrow_def Let_def
          split: prod.splits sum.splits option.splits if_splits)
  next
    case MONEY_WALLET
    let ?params = "with_meta (entry_meta s (gc_id c)) u (gs_entryFee s) DEBIT AVAILABLE"
    obtain res w where m: "applyWalletMutation ledgerId id (gd_wallet db) ?params = (res, w)" by fastforce
    have key: "params_key ?params \<notin> posted (gd_wallet db)" using assms(6) by (simp add: entry_key_meta)
    have db': "db' = db\<lparr>gd_wallet := w\<rparr>" "(\<exists>e. r = Inl e) \<longleftrightarrow> (\<exists>e. res = Inl e)"
      using assms(1) Some MONEY_WALLET m
      by (simp_all add: applyRegistrationPayment_def wallet_call_def debitWallet_def map_outcome_def
          split: sum.splits) (auto simp: map_sum_def split: sum.splits)
    note st = mutation_state [OF assms(5), of ?params, unfolded m, simplified]
    show ?thesis
    proof (cases res)
      case (Inl e)
      then show ?thesis using db' st by auto
    next
      case (Inr x)
      obtain row where row: "0 < gs_entryFee s" "u \<in> db_users (gd_wallet db)" "db_wallets (gd_wallet db) u = Some row"
        "intended_on ?params row = Some (mr_wallet x)"
        "w = posting_of (gd_wallet db) ?params ledgerId row (mr_wallet x)"
        using st Inr key by (auto split: if_splits)
      have paid: "gs_entryFee s \<le> wa_balance row" "mr_wallet x = row\<lparr>wa_balance := wa_balance row - gs_entryFee s\<rparr>"
        using row(4) unfolding debit_intended by simp_all
      have "ledger_entry ledgerId ?params (wa_balance row) (wa_balance (mr_wallet x)) =
          entry_row ledgerId s c (wa_balance row)"
        using assms(2) paid(2)
        by (simp add: ledger_entry_def entry_row_def with_meta_def ledger_meta.defs entry_meta_def)
      then have "charged s ledgerId c (gd_wallet db) w"
        using Some MONEY_WALLET assms(2,3,5,6) row(1-3) paid
        unfolding charged_def row(5) posting_of_def by auto
      then show ?thesis using db' Inr by (auto split: sum.splits)
    qed
  qed
qed (use assms(4) in simp)

lemma charged_ids:
  "charged s ident c w w' \<Longrightarrow> ledger_ids w' \<subseteq> insert ident (ledger_ids w)"
  by (auto simp: charged_def ledger_ids_def split: option.splits payment_source.splits)

section \<open>An entry\<close>

text \<open>The account on the row of a cartela is the one of its session and category.\<close>

definition accounted :: "session_row \<Rightarrow> slot_row \<Rightarrow> game_cartela \<Rightarrow> bool" where
  "accounted s slot c \<longleftrightarrow>
     (if isFreeEntryCategory (Some (sl_category slot)) then
        gc_paymentSource c = None \<and> gc_entryFeeCents c = 0 \<and> gc_prizeContributionCents c = 0 \<and>
        gc_companyFeeCents c = 0 \<and> gc_companyFeeSource c = None
      else
        (gc_paymentSource c = Some BONUS_CARTELA \<and> sl_category slot = NORMAL \<and>
           gc_companyFeeSource c = Some FEE_BONUS \<or>
         gc_paymentSource c = Some MONEY_WALLET \<and> gc_companyFeeSource c = Some FEE_MONEY) \<and>
        gc_entryFeeCents c = decimalToCents (gs_entryFee s) \<and>
        gc_prizeContributionCents c = decimalToCents (gs_prizePerCartela s) \<and>
        gc_companyFeeCents c = decimalToCents (gs_companyFeePerCartela s))"

definition seat_row ::
  "session_row \<Rightarrow> slot_row \<Rightarrow> string \<Rightarrow> string \<Rightarrow> game_db \<Rightarrow> game_cartela \<Rightarrow> bool" where
  "seat_row s slot u ident db c \<longleftrightarrow>
     gc_id c = ident \<and> gc_sessionId c = gs_id s \<and> gc_userId c = u \<and> gc_status c = REGISTERED \<and>
     \<not> gc_isWinner c \<and> gc_blockedAt c = None \<and> gc_board c \<in> set (gd_boards db) \<and>
     \<not> seat_taken db (gs_id s) (gc_cartelaId c) \<and> ident \<notin> gc_id ` set (gd_cartelas db) \<and>
     accounted s slot c"

text \<open>Cartelas entered one after the other; \<open>ids\<close> gives the identifiers of each.\<close>

inductive seated ::
  "session_row \<Rightarrow> slot_row \<Rightarrow> string \<Rightarrow> (string \<Rightarrow> string \<times> string) \<Rightarrow> game_db \<Rightarrow> game_cartela list \<Rightarrow>
   game_db \<Rightarrow> bool"
  for s slot u ids db where
  seated_none: "seated s slot u ids db [] db"
| seated_more: "seated s slot u ids db cs db1 \<Longrightarrow>
    seat_row s slot u (fst (ids (gc_cartelaId c))) db1 c \<Longrightarrow>
    charged s (snd (ids (gc_cartelaId c))) c (gd_wallet db1) w \<Longrightarrow>
    seated s slot u ids db (cs @ [c]) (db1\<lparr>gd_cartelas := gd_cartelas db1 @ [c], gd_wallet := w\<rparr>)"

lemma seated_sel:
  assumes "seated s slot u ids db cs db'"
  shows "gd_slots db' = gd_slots db" "gd_sessions db' = gd_sessions db" "gd_boards db' = gd_boards db"
    "gd_cartelas db' = gd_cartelas db @ cs" "gd_reservations db' = gd_reservations db"
    "gd_numbers db' = gd_numbers db" "gd_claims db' = gd_claims db"
  using assms by (induction rule: seated.induct) simp_all

lemma seated_frame:
  "seated s slot u ids db cs db' \<Longrightarrow>
   db' = db\<lparr>gd_cartelas := gd_cartelas db @ cs, gd_wallet := gd_wallet db'\<rparr>"
  by (rule game_db.equality) (simp_all add: seated_sel)

lemma seated_one:
  assumes "seat_row s slot u (fst newIds) db c" "charged s (snd newIds) c (gd_wallet db) w"
  shows "seated s slot u (\<lambda>_. newIds) db [c] (db\<lparr>gd_cartelas := gd_cartelas db @ [c], gd_wallet := w\<rparr>)"
  using seated_more [OF seated_none, of s slot u "\<lambda>_. newIds" c db w] assms by simp

definition seat_of :: "session_row \<Rightarrow> slot_row \<Rightarrow> string \<Rightarrow> (string \<Rightarrow> string \<times> string) \<Rightarrow> game_db \<Rightarrow>
   game_cartela \<Rightarrow> bool" where
  "seat_of s slot u ids db c \<longleftrightarrow>
     gc_sessionId c = gs_id s \<and> gc_userId c = u \<and> gc_status c = REGISTERED \<and>
     \<not> gc_isWinner c \<and> gc_board c \<in> set (gd_boards db) \<and> gc_id c = fst (ids (gc_cartelaId c)) \<and>
     accounted s slot c \<and> \<not> seat_taken db (gs_id s) (gc_cartelaId c)"

lemma seat_taken_append:
  "gd_cartelas db' = gd_cartelas db @ cs \<Longrightarrow>
   seat_taken db' sid cid \<longleftrightarrow> seat_taken db sid cid \<or> (\<exists>c\<in>set cs. gc_sessionId c = sid \<and> gc_cartelaId c = cid)"
  by (auto simp: seat_taken_def list_ex_iff)

lemma seated_rows:
  "seated s slot u ids db cs db' \<Longrightarrow>
   (\<forall>c\<in>set cs. seat_of s slot u ids db c) \<and> distinct (map gc_cartelaId cs)"
proof (induction rule: seated.induct)
  case (seated_more cs db1 c w)
  note sel = seated_sel [OF seated_more(1)]
  have taken: "\<not> seat_taken db1 (gs_id s) (gc_cartelaId c)" using seated_more(2) by (simp add: seat_row_def)
  have "seat_of s slot u ids db c"
    using seated_more(2) taken seat_taken_append [OF sel(4)] by (simp add: seat_row_def seat_of_def sel)
  moreover have "gc_cartelaId c \<notin> gc_cartelaId ` set cs"
    using taken seated_more.IH seat_taken_append [OF sel(4), of "gs_id s" "gc_cartelaId c"]
    unfolding seat_of_def by (metis imageE)
  ultimately show ?case using seated_more.IH by simp
qed simp

lemma seated_users: "seated s slot u ids db cs db' \<Longrightarrow> db_users (gd_wallet db') = db_users (gd_wallet db)"
  by (induction rule: seated.induct) (auto dest: charged_users)

lemma seated_wallet:
  assumes "seated s slot u ids db cs db'"
  shows "db_ok (gd_wallet db) \<longrightarrow> db_ok (gd_wallet db')"
    and "paid db' = paid db \<union> (\<lambda>c. entry_key u (gc_id c)) ` {c\<in>set cs. gc_paymentSource c = Some MONEY_WALLET}"
    and "ledger_ids (gd_wallet db') \<subseteq> ledger_ids (gd_wallet db) \<union> (\<lambda>c. snd (ids (gc_cartelaId c))) ` set cs"
proof -
  show "db_ok (gd_wallet db) \<longrightarrow> db_ok (gd_wallet db')"
    using assms by (induction rule: seated.induct) (simp_all add: charged_ok)
  show "paid db' = paid db \<union> (\<lambda>c. entry_key u (gc_id c)) ` {c\<in>set cs. gc_paymentSource c = Some MONEY_WALLET}"
    using assms
  proof (induction rule: seated.induct)
    case (seated_more cs db1 c w)
    have "gc_userId c = u" using seated_more(2) by (simp add: seat_row_def)
    then have w: "posted w = (if gc_paymentSource c = Some MONEY_WALLET then insert (entry_key u (gc_id c)) (paid db1) else paid db1)"
      using charged_posted [OF seated_more(3)] by (simp add: paid_def)
    have split: "{x\<in>set (cs @ [c]). P x} = (if P c then insert c {x\<in>set cs. P x} else {x\<in>set cs. P x})" for P
      by auto
    show ?case unfolding split using w seated_more.IH by (simp add: paid_def)
  qed simp
  show "ledger_ids (gd_wallet db') \<subseteq> ledger_ids (gd_wallet db) \<union> (\<lambda>c. snd (ids (gc_cartelaId c))) ` set cs"
    using assms
  proof (induction rule: seated.induct)
    case (seated_more cs db1 c w)
    then show ?case using charged_ids [OF seated_more(3)] by auto
  qed simp
qed

section \<open>An entry keeps the invariant\<close>

lemma entry_views:
  "cartelas_of (db\<lparr>gd_cartelas := gd_cartelas db @ [c], gd_wallet := w\<rparr>) sid =
     cartelas_of db sid @ (if gc_sessionId c = sid then [c] else [])"
  "claims_of (db\<lparr>gd_cartelas := gd_cartelas db @ [c], gd_wallet := w\<rparr>) sid = claims_of db sid"
  "numbers_of (db\<lparr>gd_cartelas := gd_cartelas db @ [c], gd_wallet := w\<rparr>) sid = numbers_of db sid"
  "paid (db\<lparr>gd_cartelas := gd_cartelas db @ [c], gd_wallet := w\<rparr>) = posted w"
  by (simp_all add: cartelas_of_def claims_of_def numbers_of_def paid_def)

lemma session_ok_snoc:
  "session_ok x cs ks P \<Longrightarrow> cartela_ok (gs_status x) P c \<Longrightarrow> session_ok x (cs @ [c]) ks P"
  by (simp add: session_ok_def ball_Un bex_Un)

lemma entry_game_ok:
  assumes "game_ok db" "s \<in> set (gd_sessions db)" "seat_row s slot u ident db c"
    and "charged s lid c (gd_wallet db) w"
  shows "game_ok (db\<lparr>gd_cartelas := gd_cartelas db @ [c], gd_wallet := w\<rparr>)"
proof -
  let ?d = "db\<lparr>gd_cartelas := gd_cartelas db @ [c], gd_wallet := w\<rparr>"
  note keys = game_okD(1) [OF assms(1)]
  note k = keys_okD [OF keys]
  have c: "gc_sessionId c = gs_id s" "gc_status c = REGISTERED" "\<not> gc_isWinner c"
    "gc_id c \<notin> gc_id ` set (gd_cartelas db)"
    using assms(3) by (auto simp: seat_row_def)
  have prize: "prize_key v cid \<in> posted w \<longleftrightarrow> prize_key v cid \<in> paid db" for v cid
    using charged_posted [OF assms(4)] by (simp add: paid_def)
  have unpaid: "prize_key v (gc_id c) \<notin> paid db" for v using k(9) c(4) by blast
  have "keys_ok ?d"
    unfolding keys_ok_def entry_views
  proof (intro conjI allI impI)
    show "distinct (map gc_id (gd_cartelas ?d))" using k(3) c(4) by simp
    show "gc_sessionId ` set (gd_cartelas ?d) \<subseteq> gs_id ` set (gd_sessions ?d)"
      using k(6) c(1) assms(2) by simp
    show "cid \<in> gc_id ` set (gd_cartelas ?d)" if "prize_key v cid \<in> posted w" for v cid
      using k(9) that by (simp add: prize)
  qed (use k in simp_all)
  moreover have "sessions_ok ?d"
    unfolding sessions_ok_def entry_views
  proof (intro ballI)
    fix x assume "x \<in> set (gd_sessions ?d)"
    then have x: "session_ok x (cartelas_of db (gs_id x)) (claims_of db (gs_id x)) (paid db)"
      using session_okI [OF game_okD(2) [OF assms(1)]] by simp
    have "cartela_ok (gs_status x) (paid db) c"
      using c unpaid by (simp add: cartela_ok_def)
    then have "session_ok x (cartelas_of db (gs_id x) @ (if gc_sessionId c = gs_id x then [c] else []))
        (claims_of db (gs_id x)) (paid db)"
      using x session_ok_snoc by simp
    then show "session_ok x (cartelas_of db (gs_id x) @ (if gc_sessionId c = gs_id x then [c] else []))
        (claims_of db (gs_id x)) (posted w)"
      by (subst session_ok_paid [of _ "posted w" "paid db"]) (simp add: prize)
  qed
  moreover have "one_live ?d \<longleftrightarrow> one_live db" by (simp add: one_live_def)
  with game_okD(3) [OF assms(1)] have "one_live ?d" by blast
  moreover have "db_ok (gd_wallet ?d)" using charged_ok [OF assms(4) game_okD(5) [OF assms(1)]] by simp
  ultimately show ?thesis
    unfolding game_ok_def entry_views by (intro conjI allI game_okD(4) [OF assms(1)])
qed

lemma seated_game_ok:
  "seated s slot u ids db cs db' \<Longrightarrow> game_ok db \<Longrightarrow> s \<in> set (gd_sessions db) \<Longrightarrow> game_ok db'"
proof (induction rule: seated.induct)
  case (seated_more cs db1 c w)
  then show ?case using entry_game_ok [OF _ _ seated_more(2,3)] seated_sel(2) [OF seated_more(1)] by simp
qed

section \<open>The operations enter cartelas\<close>

definition account_of :: "game_cartela \<Rightarrow> registration_accounting" where
  "account_of c =
     \<lparr>ra_paymentSource = gc_paymentSource c, ra_entryFeeCents = gc_entryFeeCents c,
      ra_prizeContributionCents = gc_prizeContributionCents c,
      ra_companyFeeCents = gc_companyFeeCents c, ra_companyFeeSource = gc_companyFeeSource c\<rparr>"

lemma plan_accounted:
  assumes "resolveRegistrationAccounting (economics_of s slot) b = (account_of c, free)"
  shows "accounted s slot c" "free = (gc_paymentSource c = None)"
    "free = isFreeEntryCategory (Some (sl_category slot))"
proof -
  let ?r = "resolveRegistrationAccounting (economics_of s slot) b"
  have a: "fst ?r = account_of c" "free = snd ?r" using assms by simp_all
  have f: "gc_paymentSource c = ra_paymentSource (fst ?r)" "gc_entryFeeCents c = ra_entryFeeCents (fst ?r)"
    "gc_prizeContributionCents c = ra_prizeContributionCents (fst ?r)"
    "gc_companyFeeCents c = ra_companyFeeCents (fst ?r)" "gc_companyFeeSource c = ra_companyFeeSource (fst ?r)"
    unfolding a(1) by (simp_all add: account_of_def)
  show "accounted s slot c" "free = (gc_paymentSource c = None)"
    "free = isFreeEntryCategory (Some (sl_category slot))"
    by (simp_all add: accounted_def f a(2) resolveRegistrationAccounting_def economics_of_def Let_def
        buildFreeEntryAccounting_def buildPaidEntryAccounting_def canUseBonusCartelaBalance_def
        isNormalCategory_def)
qed

lemma create_seat:
  assumes "create_cartela newId (gs_id s) u cid acc db = Inr (c, db1)"
    and "resolveRegistrationAccounting (economics_of s slot) b = (acc, free)"
    and "newId \<notin> gc_id ` set (gd_cartelas db)"
  shows "db1 = db\<lparr>gd_cartelas := gd_cartelas db @ [c]\<rparr>" "seat_row s slot u newId db c"
    "gc_cartelaId c = cid" "account_of c = acc" "free = (gc_paymentSource c = None)"
    "free = isFreeEntryCategory (Some (sl_category slot))" "gc_id c = newId" "gc_userId c = u"
proof -
  obtain board where b: "find_board db cid = Some board" "\<not> seat_taken db (gs_id s) cid"
    using assms(1) by (auto simp: create_cartela_def Let_def split: if_splits option.splits)
  have board: "board \<in> set (gd_boards db)" "cartela_id board = cid"
    using find_in b(1) unfolding find_board_def by fastforce+
  have c: "gc_id c = newId" "gc_sessionId c = gs_id s" "gc_userId c = u" "gc_board c = board"
    "gc_status c = REGISTERED" "\<not> gc_isWinner c" "gc_blockedAt c = None" "account_of c = acc"
    "db1 = db\<lparr>gd_cartelas := gd_cartelas db @ [c]\<rparr>"
    using assms(1) b by (auto simp: create_cartela_def Let_def account_of_def split: if_splits)
  note p = plan_accounted [of s slot b c free, unfolded c(8), OF assms(2)]
  show "db1 = db\<lparr>gd_cartelas := gd_cartelas db @ [c]\<rparr>" "account_of c = acc" "gc_id c = newId" "gc_userId c = u"
    by (fact c)+
  show cid: "gc_cartelaId c = cid" using c(4) board(2) by (simp add: gc_cartelaId_def)
  show "free = (gc_paymentSource c = None)" "free = isFreeEntryCategory (Some (sl_category slot))"
    by (fact p)+
  show "seat_row s slot u newId db c"
    using c b(2) board(1) cid p(1) assms(3) by (simp add: seat_row_def)
qed

text \<open>Identifiers that no row of the database has or refers to.\<close>

definition fresh_ids :: "string \<times> string \<Rightarrow> game_db \<Rightarrow> bool" where
  "fresh_ids newIds db \<longleftrightarrow>
     fst newIds \<notin> gc_id ` set (gd_cartelas db) \<and> (\<forall>u. entry_key u (fst newIds) \<notin> paid db) \<and>
     snd newIds \<notin> ledger_ids (gd_wallet db)"

text \<open>The amounts of the session after some entries.\<close>

definition count_in :: "int \<Rightarrow> session_row \<Rightarrow> slot_row \<Rightarrow> nat \<Rightarrow> game_db \<Rightarrow> game_db" where
  "count_in now s slot n db =
     (if isFreeEntryCategory (Some (sl_category slot)) \<or> n = 0 then db
      else snd (update_sessions now (\<lambda>x. gs_id x = gs_id s) (add_contributions (of_nat n) s) db))"

lemma committing_Inr [simp]: "committing out = Inr (x, db) \<longleftrightarrow> out = (Inr x, db)"
  by (auto simp: committing_def split: prod.splits sum.splits)

lemma plan_resolves:
  "resolveRegistrationPaymentPlan db u s slot = Inr (acc, free) \<Longrightarrow>
   \<exists>b. resolveRegistrationAccounting (economics_of s slot) b = (acc, free)"
  by (auto simp: resolveRegistrationPaymentPlan_def bind_result_eq_Inr_iff split: if_splits)

text \<open>A created cartela with its payment is an entry.\<close>

lemma paid_entry:
  assumes "create_cartela (fst newIds) (gs_id s) u cid acc db = Inr (c, db1)"
    and "resolveRegistrationAccounting (economics_of s slot) b = (acc, free)" "fresh_ids newIds db"
    and "\<not> free \<Longrightarrow> applyRegistrationPayment (snd newIds) u s (gc_id c) acc db1 = (Inr x, db2)"
    and "free \<Longrightarrow> db2 = db1"
  shows "\<exists>w. db2 = db\<lparr>gd_cartelas := gd_cartelas db @ [c], gd_wallet := w\<rparr> \<and>
    seat_row s slot u (fst newIds) db c \<and> charged s (snd newIds) c (gd_wallet db) w"
proof -
  have f: "fst newIds \<notin> gc_id ` set (gd_cartelas db)" "entry_key u (fst newIds) \<notin> posted (gd_wallet db)"
    "snd newIds \<notin> ledger_ids (gd_wallet db)"
    using assms(3) by (simp_all add: fresh_ids_def paid_def)
  note c = create_seat [OF assms(1,2) f(1)]
  have src: "gc_paymentSource c = ra_paymentSource acc" using c(4) by (auto simp: account_of_def)
  show ?thesis
  proof (cases free)
    case True
    then have "gc_paymentSource c = None" "db2 = db1" using c(5) assms(5) by simp_all
    then show ?thesis using c(1,2) by (intro exI [of _ "gd_wallet db"]) (simp add: charged_def)
  next
    case False
    then obtain w where "db2 = db1\<lparr>gd_wallet := w\<rparr>" "charged s (snd newIds) c (gd_wallet db1) w"
      using payment_charged [OF assms(4) c(8) src] f c(1,5,7) src by auto
    then show ?thesis using c(1,2) by (intro exI [of _ w]) simp
  qed
qed

lemma enter_cartela_seated:
  assumes "enter_cartela now newIds s slot u cid db = Inr (e, db')" "fresh_ids newIds db"
  shows "\<exists>db1. seated s slot u (\<lambda>_. newIds) db [rg_cartela e] db1 \<and> gc_cartelaId (rg_cartela e) = cid \<and>
    db' = count_in now s slot 1 db1 \<and> rg_session e = find_session db' (gs_id s)"
proof -
  obtain acc free c db1 x db2 where e: "resolveRegistrationPaymentPlan db u s slot = Inr (acc, free)"
    "create_cartela (fst newIds) (gs_id s) u cid acc db = Inr (c, db1)"
    "(if free then Inr (None, db1)
      else committing (applyRegistrationPayment (snd newIds) u s (gc_id c) acc db1)) = Inr (x, db2)"
    "(if isBonusCategory (Some (sl_category slot)) then Inr db2
      else update_session now (gs_id s) (add_contributions 1 s) db2) = Inr db'"
    "e = \<lparr>rg_cartela = c, rg_session = find_session db' (gs_id s), rg_wallet = x\<rparr>"
    using assms(1) by (auto simp: enter_cartela_def bind_result_eq_Inr_iff)
  obtain b where b: "resolveRegistrationAccounting (economics_of s slot) b = (acc, free)"
    using plan_resolves [OF e(1)] by blast
  have fr: "fst newIds \<notin> gc_id ` set (gd_cartelas db)" using assms(2) by (simp add: fresh_ids_def)
  obtain w where w: "db2 = db\<lparr>gd_cartelas := gd_cartelas db @ [c], gd_wallet := w\<rparr>"
    "seat_row s slot u (fst newIds) db c" "charged s (snd newIds) c (gd_wallet db) w"
    using paid_entry [OF e(2) b assms(2), of x db2] e(3) by (auto split: if_splits)
  have "db' = count_in now s slot 1 db2"
    using e(4) by (auto simp: count_in_def update_session_Inr isFreeEntryCategory_def split: if_splits)
  then show ?thesis
    using seated_one [OF w(2,3)] w(1) create_seat(3) [OF e(2) b fr] e(5) by auto
qed

section \<open>Reservations\<close>

definition active_seats :: "reservation_row list \<Rightarrow> (string \<times> string) list" where
  "active_seats rs = map (\<lambda>r. (rv_sessionId r, rv_cartelaId r)) (filter (\<lambda>r. rv_status r = ACTIVE) rs)"

lemma active_seats_update:
  assumes "\<And>r. rv_sessionId (f r) = rv_sessionId r" "\<And>r. rv_cartelaId (f r) = rv_cartelaId r"
    and "\<And>r. rv_status (f r) = ACTIVE \<Longrightarrow> rv_status r = ACTIVE"
  shows "subseq (active_seats (update_where P f rs)) (active_seats rs)"
proof (induction rs)
  case (Cons r rs)
  have "active_seats (update_where P f (r # rs)) =
      (if rv_status (if P r then f r else r) = ACTIVE then [(rv_sessionId r, rv_cartelaId r)] else []) @
      active_seats (update_where P f rs)"
    using assms(1,2) by (simp add: active_seats_def update_where_def)
  moreover have "active_seats (r # rs) =
      (if rv_status r = ACTIVE then [(rv_sessionId r, rv_cartelaId r)] else []) @ active_seats rs"
    by (simp add: active_seats_def)
  ultimately show ?case
    using Cons assms(3) [of r] by (auto intro: list_emb_append_mono)
qed (simp add: active_seats_def update_where_def)

lemma active_seats_status:
  "st \<noteq> ACTIVE \<Longrightarrow> subseq (active_seats (update_where P (set_reservation_status st) rs)) (active_seats rs)"
  by (rule active_seats_update) (simp_all add: set_reservation_status_def)

section \<open>The transactions of a registration\<close>

text \<open>Entries, the amounts of their session, and holds that end.\<close>

definition registers ::
  "int \<Rightarrow> session_row \<Rightarrow> slot_row \<Rightarrow> string \<Rightarrow> (string \<Rightarrow> string \<times> string) \<Rightarrow> game_db \<Rightarrow>
   game_cartela list \<Rightarrow> game_db \<Rightarrow> bool" where
  "registers now s slot u ids db cs db' \<longleftrightarrow>
     find_session db (gs_id s) = Some s \<and> slot_of db s = Some slot \<and>
     (\<exists>db1 rs. seated s slot u ids db cs db1 \<and>
        subseq (active_seats rs) (active_seats (gd_reservations db)) \<and>
        db' = (count_in now s slot (length cs) db1)\<lparr>gd_reservations := rs\<rparr>)"

lemma update_reservation_Inr:
  "update_reservation ident f db = Inr (r, db') \<Longrightarrow>
   db' = db\<lparr>gd_reservations := update_where (\<lambda>x. rv_id x = ident) f (gd_reservations db)\<rparr>"
  by (auto simp: update_reservation_def update_reservations_def split: option.splits)

lemma count_in_reservations [simp]: "gd_reservations (count_in now s slot n db) = gd_reservations db"
  by (simp add: count_in_def update_sessions_def)

lemma confirmed_subseq:
  assumes "update_reservation ident (set_reservation_status CONFIRMED) db = Inr (r, db')"
  shows "\<exists>rs. db' = db\<lparr>gd_reservations := rs\<rparr> \<and> subseq (active_seats rs) (active_seats (gd_reservations db))"
  using update_reservation_Inr [OF assms] active_seats_status [of CONFIRMED] by blast

lemma session_for_write:
  assumes "getSessionForRegistrationWrite db sid = Some (s, slot)"
  shows "find_session db sid = Some s" "slot_of db s = Some slot" "gs_id s = sid" "s \<in> set (gd_sessions db)"
proof -
  show s: "find_session db sid = Some s" "slot_of db s = Some slot"
    using assms by (auto simp: getSessionForRegistrationWrite_def split: option.splits)
  show "gs_id s = sid" "s \<in> set (gd_sessions db)"
    using find_in s(1) unfolding find_session_def by fastforce+
qed

lemma register_tx_registers:
  assumes "register_tx now newIds sid u cid db = Inr (e, db')" "fresh_ids newIds db"
  shows "\<exists>s slot. getSessionForRegistrationWrite db sid = Some (s, slot) \<and>
    assertSessionRegistrationAllowed now db s slot = Inr () \<and>
    assertMayRegister now db s slot u cid = Inr () \<and>
    registers now s slot u (\<lambda>_. newIds) db [rg_cartela e] db' \<and> gc_cartelaId (rg_cartela e) = cid"
proof -
  obtain s slot db1 where r: "getSessionForRegistrationWrite db sid = Some (s, slot)"
    "assertSessionRegistrationAllowed now db s slot = Inr ()"
    "assertMayRegister now db s slot u cid = Inr ()"
    "enter_cartela now newIds s slot u cid db = Inr (e, db1)"
    "confirm_own u (activeReservation now db sid cid) db1 = Inr db'"
    using assms(1) by (auto simp: register_tx_def bind_result_eq_Inr_iff Let_def split: option.splits if_splits)
  obtain d where d: "seated s slot u (\<lambda>_. newIds) db [rg_cartela e] d" "gc_cartelaId (rg_cartela e) = cid"
    "db1 = count_in now s slot 1 d"
    using enter_cartela_seated [OF r(4) assms(2)] by blast
  have "db' = db1 \<or> (\<exists>ident x. update_reservation ident (set_reservation_status CONFIRMED) db1 = Inr (x, db'))"
    using r(5) by (auto simp: confirm_own_def bind_result_eq_Inr_iff split: option.splits if_splits)
  then have "\<exists>rs. db' = db1\<lparr>gd_reservations := rs\<rparr> \<and> subseq (active_seats rs) (active_seats (gd_reservations db1))"
  proof
    assume "db' = db1"
    then show ?thesis by (intro exI [of _ "gd_reservations db1"]) simp
  qed (use confirmed_subseq in blast)
  then have "registers now s slot u (\<lambda>_. newIds) db [rg_cartela e] db'"
    unfolding registers_def using d session_for_write [OF r(1)] seated_sel(5) [OF d(1)] by auto
  then show ?thesis using r(1-3) d(2) by blast
qed

lemma confirm_tx_registers:
  assumes "confirm_tx now newIds rid u db = Inr (e, db')" "fresh_ids newIds db"
  shows "\<exists>r s slot. find_reservation db rid = Some r \<and> rv_userId r = u \<and> rv_status r = ACTIVE \<and>
    now < rv_expiresAt r \<and> getSessionForRegistrationWrite db (rv_sessionId r) = Some (s, slot) \<and>
    assertSessionRegistrationAllowed now db s slot = Inr () \<and>
    assertMayRegister now db s slot u (rv_cartelaId r) = Inr () \<and>
    registers now s slot u (\<lambda>_. newIds) db [rg_cartela e] db' \<and>
    gc_cartelaId (rg_cartela e) = rv_cartelaId r"
proof -
  obtain r s slot db1 x where r: "find_reservation db rid = Some r" "rv_userId r = u" "rv_status r = ACTIVE"
    "now < rv_expiresAt r" "getSessionForRegistrationWrite db (rv_sessionId r) = Some (s, slot)"
    "assertSessionRegistrationAllowed now db s slot = Inr ()"
    "assertMayRegister now db s slot u (rv_cartelaId r) = Inr ()"
    "enter_cartela now newIds s slot u (rv_cartelaId r) db = Inr (e, db1)"
    "update_reservation rid (set_reservation_status CONFIRMED) db1 = Inr (x, db')"
    using assms(1) by (auto simp: confirm_tx_def bind_result_eq_Inr_iff split: option.splits if_splits)
  obtain d where d: "seated s slot u (\<lambda>_. newIds) db [rg_cartela e] d" "gc_cartelaId (rg_cartela e) = rv_cartelaId r"
    "db1 = count_in now s slot 1 d"
    using enter_cartela_seated [OF r(8) assms(2)] by blast
  have "registers now s slot u (\<lambda>_. newIds) db [rg_cartela e] db'"
    unfolding registers_def
    using confirmed_subseq [OF r(9)] d session_for_write [OF r(5)] seated_sel(5) [OF d(1)] by auto
  then show ?thesis using r d(2) by blast
qed

lemma count_in_ok:
  assumes "game_ok db"
  shows "game_ok (count_in now s slot n db) \<and> advances db (count_in now s slot n db)"
  using idle_update_ok [OF assms, where f = "add_contributions (of_nat n) s" and now = now and P = "\<lambda>x. gs_id x = gs_id s"] assms
  by (simp add: count_in_def idle_def quiet_def add_contributions_def)

lemma game_ok_reservations [simp]: "game_ok (db\<lparr>gd_reservations := rs\<rparr>) = game_ok db"
  by (simp add: game_ok_def keys_ok_def sessions_ok_def one_live_def cartelas_of_def claims_of_def
      numbers_of_def paid_def)

lemma advances_reservations [simp]: "advances db (db'\<lparr>gd_reservations := rs\<rparr>) = advances db db'"
  by (simp add: advances_def)

lemma registers_ok:
  assumes "registers now s slot u ids db cs db'" "game_ok db"
  shows "game_ok db' \<and> advances db db'"
proof -
  obtain db1 rs where r: "seated s slot u ids db cs db1" "find_session db (gs_id s) = Some s"
    "db' = (count_in now s slot (length cs) db1)\<lparr>gd_reservations := rs\<rparr>"
    using assms(1) unfolding registers_def by blast
  have "s \<in> set (gd_sessions db)" using find_in r(2) unfolding find_session_def by fastforce
  then have "game_ok db1" by (rule seated_game_ok [OF r(1) assms(2)])
  moreover have "statuses db = statuses db1" by (simp add: statuses_def seated_sel(2) [OF r(1)])
  ultimately show ?thesis using count_in_ok advances_cong r(3) by simp
qed

section \<open>Registering many\<close>

text \<open>Identifiers for every requested cartela the session does not have yet.\<close>

definition all_fresh :: "string \<Rightarrow> (string \<Rightarrow> string \<times> string) \<Rightarrow> string set \<Rightarrow> game_db \<Rightarrow> bool" where
  "all_fresh sid ids K db \<longleftrightarrow>
     (\<forall>i\<in>K. seat_taken db sid i \<or> fresh_ids (ids i) db) \<and>
     (\<forall>i\<in>K. \<forall>j\<in>K. i \<noteq> j \<longrightarrow> fst (ids i) \<noteq> fst (ids j) \<and> snd (ids i) \<noteq> snd (ids j))"

lemma all_freshI:
  "inj_on (fst \<circ> ids) K \<Longrightarrow> inj_on (snd \<circ> ids) K \<Longrightarrow> (\<And>i. i \<in> K \<Longrightarrow> fresh_ids (ids i) db) \<Longrightarrow> all_fresh sid ids K db"
  by (auto simp: all_fresh_def inj_on_def)

lemma all_fresh_subset: "all_fresh sid ids K db \<Longrightarrow> K' \<subseteq> K \<Longrightarrow> all_fresh sid ids K' db"
  by (auto simp: all_fresh_def)

lemma fresh_after:
  assumes "seated s slot u ids db cs db'" "all_fresh (gs_id s) ids K db" "gc_cartelaId ` set cs \<subseteq> K" "i \<in> K"
    and "\<not> seat_taken db' (gs_id s) i"
  shows "fresh_ids (ids i) db'"
proof -
  have row: "gc_id c = fst (ids (gc_cartelaId c))" "gc_sessionId c = gs_id s" if "c \<in> set cs" for c
    using that seated_rows [OF assms(1)] by (simp_all add: seat_of_def)
  note taken = seat_taken_append [OF seated_sel(4) [OF assms(1)], of "gs_id s" i]
  have other: "gc_cartelaId c \<noteq> i" "gc_cartelaId c \<in> K" if "c \<in> set cs" for c
    using that assms(3,5) row(2) [OF that] taken by auto
  have diff: "fst (ids i) \<noteq> gc_id c" "snd (ids i) \<noteq> snd (ids (gc_cartelaId c))" if "c \<in> set cs" for c
    using assms(2,4) other [OF that] row(1) [OF that] unfolding all_fresh_def by metis+
  have "fresh_ids (ids i) db" using assms(2,4,5) taken by (auto simp: all_fresh_def)
  then have old: "fst (ids i) \<notin> gc_id ` set (gd_cartelas db)" "\<forall>v. entry_key v (fst (ids i)) \<notin> paid db"
    "snd (ids i) \<notin> ledger_ids (gd_wallet db)"
    by (auto simp: fresh_ids_def)
  have "fst (ids i) \<notin> gc_id ` set (gd_cartelas db')"
    using old(1) diff(1) by (auto simp: seated_sel(4) [OF assms(1)])
  moreover have "entry_key v (fst (ids i)) \<notin> paid db'" for v
    using old(2) diff(1) unfolding seated_wallet(2) [OF assms(1)] by (auto simp: entry_key_def)
  moreover have "snd (ids i) \<notin> ledger_ids (gd_wallet db')"
    using old(3) diff(2) seated_wallet(3) [OF assms(1)] by auto
  ultimately show ?thesis by (simp add: fresh_ids_def)
qed

lemma all_fresh_after:
  assumes "seated s slot u ids db cs db'" "all_fresh (gs_id s) ids K db" "gc_cartelaId ` set cs \<subseteq> K"
  shows "all_fresh (gs_id s) ids K db'"
  using assms fresh_after [OF assms] unfolding all_fresh_def by blast

text \<open>The loop so far: some cartelas are entered, and the counters agree.\<close>

definition mine :: "bulk_context \<Rightarrow> game_db \<Rightarrow> game_cartela \<Rightarrow> bool" where
  "mine cx db c \<longleftrightarrow>
     c \<in> set (gd_cartelas db) \<and> gc_sessionId c = gs_id (bx_session cx) \<and> gc_userId c = bx_userId cx"

definition bulk_inv ::
  "bulk_context \<Rightarrow> string set \<Rightarrow> game_db \<Rightarrow> int option \<Rightarrow> game_cartela list \<Rightarrow> bulk_state \<Rightarrow> bool" where
  "bulk_inv cx K db places cs st \<longleftrightarrow>
     seated (bx_session cx) (bx_slot cx) (bx_userId cx) (bx_newIds cx) db cs (bs_db st) \<and>
     gc_cartelaId ` set cs \<subseteq> K \<and> bs_registered st = length cs \<and> set cs \<subseteq> set (bs_successes st) \<and>
     (\<forall>i c. bs_mine st i = Some c \<longrightarrow> mine cx (bs_db st) c) \<and>
     (\<forall>c\<in>set (bs_successes st). mine cx (bs_db st) c) \<and>
     (isBonusLikeCategory (Some (sl_category (bx_slot cx))) \<longrightarrow>
        (\<forall>k. places = Some k \<longrightarrow> bs_slots st = Some (k - int (length cs)) \<and> (cs = [] \<or> int (length cs) \<le> k)))"

lemma bulk_invD:
  assumes "bulk_inv cx K db places cs st"
  shows "seated (bx_session cx) (bx_slot cx) (bx_userId cx) (bx_newIds cx) db cs (bs_db st)"
    "gc_cartelaId ` set cs \<subseteq> K" "bs_registered st = length cs"
    "bs_mine st i = Some c \<Longrightarrow> mine cx (bs_db st) c"
    "c \<in> set (bs_successes st) \<Longrightarrow> mine cx (bs_db st) c"
    "set cs \<subseteq> set (bs_successes st)"
  using assms by (auto simp: bulk_inv_def)

text \<open>What the loop only records does not matter.\<close>

lemma bulk_inv_record [simp]:
  "bulk_inv cx K db places cs (bulk_fail item m st) = bulk_inv cx K db places cs st"
  "bulk_inv cx K db places cs (st\<lparr>bs_walletFailure := x\<rparr>) = bulk_inv cx K db places cs st"
  by (simp_all add: bulk_inv_def bulk_fail_def)

lemma bulk_inv_success:
  "bulk_inv cx K db places cs st \<Longrightarrow> mine cx (bs_db st) c \<Longrightarrow>
   bulk_inv cx K db places cs (st\<lparr>bs_successes := bs_successes st @ [c]\<rparr>)"
  "bulk_inv cx K db places cs st \<Longrightarrow> mine cx (bs_db st) c \<Longrightarrow>
   bulk_inv cx K db places cs (st\<lparr>bs_successes := bs_successes st @ [c], bs_mine := (bs_mine st)(i \<mapsto> c)\<rparr>)"
  by (auto simp: bulk_inv_def)

lemma mine_append: "mine cx db c \<Longrightarrow> mine cx (db\<lparr>gd_cartelas := gd_cartelas db @ [c'], gd_wallet := w\<rparr>) c"
  by (simp add: mine_def)

lemma bulk_inv_entered:
  assumes "bulk_inv cx K db places cs st" "bi_cartelaId item \<in> K" "gc_cartelaId c = bi_cartelaId item"
    and "seat_row (bx_session cx) (bx_slot cx) (bx_userId cx) (fst (bx_newIds cx (bi_cartelaId item))) (bs_db st) c"
    and "charged (bx_session cx) (snd (bx_newIds cx (bi_cartelaId item))) c (gd_wallet (bs_db st)) w"
    and "isBonusLikeCategory (Some (sl_category (bx_slot cx))) \<Longrightarrow> (\<forall>k. bs_slots st = Some k \<longrightarrow> 0 < k)"
    and "bs_mine st' = bs_mine st" "bs_successes st' = bs_successes st" "bs_slots st' = bs_slots st"
    and "bs_registered st' = bs_registered st"
    and "bs_db st' = (bs_db st)\<lparr>gd_cartelas := gd_cartelas (bs_db st) @ [c], gd_wallet := w\<rparr>"
  shows "bulk_inv cx K db places (cs @ [c]) (bulk_entered cx item c st')"
proof -
  note i = bulk_invD [OF assms(1)]
  have own: "mine cx (bs_db st') c"
    using assms(4) by (simp add: mine_def seat_row_def assms(11))
  have keep: "mine cx (bs_db st') x" if "mine cx (bs_db st) x" for x
    using mine_append [OF that] by (simp add: assms(11))
  have seated: "seated (bx_session cx) (bx_slot cx) (bx_userId cx) (bx_newIds cx) db (cs @ [c]) (bs_db st')"
    unfolding assms(11) using seated_more [OF i(1)] assms(3-5) by metis
  have slots: "\<forall>k. places = Some k \<longrightarrow> map_option (\<lambda>k. k - 1) (bs_slots st) = Some (k - int (length (cs @ [c]))) \<and>
      int (length (cs @ [c])) \<le> k"
    if "isBonusLikeCategory (Some (sl_category (bx_slot cx)))"
    using assms(1) assms(6) [OF that] that unfolding bulk_inv_def by auto
  show ?thesis
    unfolding bulk_inv_def
  proof (intro conjI allI impI ballI)
    show "seated (bx_session cx) (bx_slot cx) (bx_userId cx) (bx_newIds cx) db (cs @ [c]) (bs_db (bulk_entered cx item c st'))"
      using seated by (simp add: bulk_entered_def)
    show "gc_cartelaId ` set (cs @ [c]) \<subseteq> K" using i(2) assms(2,3) by simp
    show "bs_registered (bulk_entered cx item c st') = length (cs @ [c])"
      using i(3) assms(10) by (simp add: bulk_entered_def)
    show "set (cs @ [c]) \<subseteq> set (bs_successes (bulk_entered cx item c st'))"
      using i(6) assms(8) by (auto simp: bulk_entered_def)
    show "mine cx (bs_db (bulk_entered cx item c st')) x" if "bs_mine (bulk_entered cx item c st') j = Some x" for j x
      using that own keep i(4) by (auto simp: bulk_entered_def assms(7) split: if_splits)
    show "mine cx (bs_db (bulk_entered cx item c st')) x" if "x \<in> set (bs_successes (bulk_entered cx item c st'))" for x
      using that own keep i(5) by (auto simp: bulk_entered_def assms(8))
    show "bs_slots (bulk_entered cx item c st') = Some (k - int (length (cs @ [c])))"
      if "isBonusLikeCategory (Some (sl_category (bx_slot cx)))" "places = Some k" for k
      using slots [OF that(1)] that by (simp add: bulk_entered_def assms(9))
    show "cs @ [c] = [] \<or> int (length (cs @ [c])) \<le> k"
      if "isBonusLikeCategory (Some (sl_category (bx_slot cx)))" "places = Some k" for k
      using slots [OF that(1)] that by blast
  qed
qed

lemma delete_created:
  "newId \<notin> gc_id ` set (gd_cartelas db) \<Longrightarrow> gc_id c = newId \<Longrightarrow>
   delete_cartela newId (db\<lparr>gd_cartelas := gd_cartelas db @ [c]\<rparr>) = db"
proof -
  assume a: "newId \<notin> gc_id ` set (gd_cartelas db)" "gc_id c = newId"
  have "filter (\<lambda>x. gc_id x \<noteq> newId) (gd_cartelas db) = gd_cartelas db"
    by (rule filter_True) (use a(1) in auto)
  then show ?thesis using a(2) by (simp add: delete_cartela_def)
qed

definition still :: "(bulk_state \<Rightarrow> game_cartela list \<Rightarrow> bool) \<Rightarrow> (http_error \<times> bulk_state) + bulk_state \<Rightarrow> bool" where
  "still Q r \<longleftrightarrow> (case r of Inl (e, st) \<Rightarrow> \<exists>cs. Q st cs | Inr st \<Rightarrow> \<exists>cs. Q st cs)"

lemma bulk_pay_inv:
  assumes "bulk_inv cx K db places cs st" "bi_cartelaId item \<in> K"
    and "create_cartela (fst (bx_newIds cx (bi_cartelaId item))) (gs_id (bx_session cx)) (bx_userId cx)
        (bi_cartelaId item) acc (bs_db st) = Inr (c, db1)"
    and "resolveRegistrationAccounting (economics_of (bx_session cx) (bx_slot cx)) b = (acc, free)"
    and "fresh_ids (bx_newIds cx (bi_cartelaId item)) (bs_db st)"
    and "isBonusLikeCategory (Some (sl_category (bx_slot cx))) \<Longrightarrow> (\<forall>k. bs_slots st = Some k \<longrightarrow> 0 < k)"
  shows "still (\<lambda>st' cs'. bulk_inv cx K db places cs' st') (bulk_pay cx item (acc, free) c (st\<lparr>bs_db := db1\<rparr>))"
proof -
  let ?ids = "bx_newIds cx (bi_cartelaId item)"
  have fr: "fst ?ids \<notin> gc_id ` set (gd_cartelas (bs_db st))" "snd ?ids \<notin> ledger_ids (gd_wallet (bs_db st))"
    "entry_key (bx_userId cx) (fst ?ids) \<notin> posted (gd_wallet (bs_db st))"
    using assms(5) by (simp_all add: fresh_ids_def paid_def)
  note c = create_seat [OF assms(3,4) fr(1)]
  show ?thesis
  proof (cases free)
    case True
    have ch: "charged (bx_session cx) (snd ?ids) c (gd_wallet (bs_db st)) (gd_wallet (bs_db st))"
      using True c(5) by (simp add: charged_def)
    have "bulk_inv cx K db places (cs @ [c]) (bulk_entered cx item c (st\<lparr>bs_db := db1\<rparr>))"
      by (rule bulk_inv_entered [OF assms(1,2) c(3,2) ch assms(6)]) (simp_all add: c(1))
    then show ?thesis using True by (auto simp: still_def bulk_pay_def)
  next
    case False
    obtain r db2 where p: "applyRegistrationPayment (snd ?ids) (bx_userId cx) (bx_session cx) (gc_id c) acc db1 = (r, db2)"
      by fastforce
    have src: "gc_paymentSource c = ra_paymentSource acc" "ra_paymentSource acc \<noteq> None"
      using c(4,5) False by (auto simp: account_of_def)
    obtain w where w: "db2 = db1\<lparr>gd_wallet := w\<rparr>"
      "case r of Inl e \<Rightarrow> w = gd_wallet db1 | Inr x \<Rightarrow> charged (bx_session cx) (snd ?ids) c (gd_wallet db1) w"
      using payment_charged [OF p c(8) src] fr(2,3) c(1,7) by auto
    show ?thesis
    proof (cases r)
      case (Inl e)
      then have "db2 = db1" using w by simp
      then have "delete_cartela (gc_id c) db2 = bs_db st"
        using delete_created [OF fr(1) c(7)] c(1,7) by simp
      then have same: "(st\<lparr>bs_db := db1\<rparr>)\<lparr>bs_db := delete_cartela (gc_id c) db2\<rparr> = st" by simp
      then have "\<exists>st'. bulk_inv cx K db places cs st' \<and>
          (bulk_pay cx item (acc, free) c (st\<lparr>bs_db := db1\<rparr>) = Inr st' \<or>
           bulk_pay cx item (acc, free) c (st\<lparr>bs_db := db1\<rparr>) = Inl (e, st'))"
        using assms(1) False p Inl unfolding bulk_pay_def Let_def
        by (simp add: same bad_request_message_def split: http_error.splits)
      then show ?thesis by (auto simp: still_def)
    next
      case (Inr x)
      have ch: "charged (bx_session cx) (snd ?ids) c (gd_wallet (bs_db st)) w" using w(2) Inr c(1) by simp
      let ?st = "st\<lparr>bs_db := db2, bs_wallet := x,
        bs_bonus := (if ra_paymentSource acc = Some BONUS_CARTELA then map_option (\<lambda>k. k - 1) (bs_bonus st) else bs_bonus st)\<rparr>"
      have "bulk_inv cx K db places (cs @ [c]) (bulk_entered cx item c ?st)"
        by (rule bulk_inv_entered [OF assms(1,2) c(3,2) ch assms(6)]) (simp_all add: w(1) c(1))
      moreover have "bulk_pay cx item (acc, free) c (st\<lparr>bs_db := db1\<rparr>) = Inr (bulk_entered cx item c ?st)"
        using False p Inr by (simp add: bulk_pay_def)
      ultimately show ?thesis by (auto simp: still_def)
    qed
  qed
qed

lemma my_registration:
  "myRegistration db (gs_id (bx_session cx)) cid (bx_userId cx) = Some c \<Longrightarrow> mine cx db c"
  using find_in unfolding myRegistration_def mine_def by fastforce

lemma bulk_plan_resolves:
  "bulk_plan cx st = Inr (acc, free) \<Longrightarrow>
   \<exists>b. resolveRegistrationAccounting (economics_of (bx_session cx) (bx_slot cx)) b = (acc, free)"
  using plan_resolves
  by (auto simp: bulk_plan_def resolveRegistrationPaymentPlanFromBonusBalance_def split: option.splits if_splits)

lemma bulk_try_inv:
  assumes "bulk_inv cx K db places cs st" "bi_cartelaId item \<in> K" "all_fresh (gs_id (bx_session cx)) (bx_newIds cx) K db"
  shows "still (\<lambda>st' cs'. bulk_inv cx K db places cs' st') (bulk_try cx item st)"
proof -
  let ?Q = "\<lambda>st' cs'. bulk_inv cx K db places cs' st'"
  let ?cid = "bi_cartelaId item"
  have stay: "still ?Q (Inr (bulk_fail item m st))" for m
    using assms(1) by (auto simp: still_def)
  show ?thesis
  proof (cases "bs_mine st ?cid")
    case (Some c)
    then show ?thesis
      using bulk_inv_success(1) [OF assms(1) bulk_invD(4) [OF assms(1) Some]]
      by (auto simp: still_def bulk_try_def Let_def)
  next
    case None
    show ?thesis
    proof (cases "bs_taken st ?cid \<noteq> None \<or> \<not> List.member (bx_known cx) ?cid \<or> List.member (bx_locked cx) ?cid \<or>
        isBonusLikeCategory (Some (sl_category (bx_slot cx))) \<and> (case bs_slots st of None \<Rightarrow> False | Some k \<Rightarrow> k \<le> 0) \<or>
        (case bx_active cx ?cid of None \<Rightarrow> False | Some r \<Rightarrow> rv_userId r \<noteq> bx_userId cx)")
      case True
      have ladder: "\<exists>m. (if a then Inr (bulk_fail item m1 st) else if b then Inr (bulk_fail item m2 st)
          else if c then Inr (bulk_fail item m3 st) else if d then Inr (bulk_fail item m4 st)
          else if e then Inr (bulk_fail item m5 st) else rest) = Inr (bulk_fail item m st)"
        if "a \<or> b \<or> c \<or> d \<or> e" for a b c d e m1 m2 m3 m4 m5 and rest :: "(http_error \<times> bulk_state) + bulk_state"
        using that by auto
      have "\<exists>m. bulk_try cx item st = Inr (bulk_fail item m st)"
        unfolding bulk_try_def Let_def None option.case by (rule ladder [OF True])
      then show ?thesis using stay by auto
    next
      case False
      have free: "\<forall>k. bs_slots st = Some k \<longrightarrow> 0 < k" if "isBonusLikeCategory (Some (sl_category (bx_slot cx)))"
        using False that by auto
      show ?thesis
      proof (cases "bulk_plan cx st")
        case (Inl e)
        then show ?thesis using None False assms(1) by (auto simp: still_def bulk_try_def Let_def)
      next
        case (Inr plan)
        obtain acc fr where plan: "plan = (acc, fr)" by fastforce
        obtain b where b: "resolveRegistrationAccounting (economics_of (bx_session cx) (bx_slot cx)) b = (acc, fr)"
          using bulk_plan_resolves Inr plan by blast
        show ?thesis
        proof (cases "create_cartela (fst (bx_newIds cx ?cid)) (gs_id (bx_session cx)) (bx_userId cx) ?cid acc (bs_db st)")
          case (Inl e)
          then show ?thesis
            using None False Inr plan assms(1) stay bulk_inv_success(2) [OF assms(1) my_registration]
            by (auto simp: still_def bulk_try_def Let_def split: option.splits)
        next
          case created: (Inr p)
          obtain c db1 where p: "p = (c, db1)" by fastforce
          have "\<not> seat_taken (bs_db st) (gs_id (bx_session cx)) ?cid"
            using created by (auto simp: create_cartela_def)
          then have ids: "fresh_ids (bx_newIds cx ?cid) (bs_db st)"
            using fresh_after [OF bulk_invD(1) [OF assms(1)] assms(3) bulk_invD(2) [OF assms(1)] assms(2)] by blast
          have "bulk_try cx item st = bulk_pay cx item (acc, fr) c (st\<lparr>bs_db := db1\<rparr>)"
            using None False Inr plan created p by (auto simp: bulk_try_def Let_def)
          then show ?thesis
            using bulk_pay_inv [OF assms(1,2) created [unfolded p] b ids free] by simp
        qed
      qed
    qed
  qed
qed

lemma bulk_item_inv:
  assumes "bulk_item_step cx item st = Inr st'" "bulk_inv cx K db places cs st" "bi_cartelaId item \<in> K"
    and "all_fresh (gs_id (bx_session cx)) (bx_newIds cx) K db"
  shows "\<exists>cs'. bulk_inv cx K db places cs' st'"
proof (cases "bs_walletFailure st")
  case (Some m)
  then show ?thesis using assms(1,2) by (auto simp: bulk_item_step_def)
next
  case None
  note tried = bulk_try_inv [OF assms(2-4)]
  show ?thesis
  proof (cases "bulk_try cx item st")
    case (Inr st1)
    then show ?thesis using assms(1) None tried by (auto simp: bulk_item_step_def still_def)
  next
    case (Inl q)
    obtain e st1 where q: "q = (e, st1)" by fastforce
    obtain cs1 where cs1: "bulk_inv cx K db places cs1 st1" using tried Inl q by (auto simp: still_def)
    have "\<exists>m x. st' = bulk_fail item m st1 \<or> st' = (bulk_fail item m st1)\<lparr>bs_walletFailure := x\<rparr>"
      using assms(1) None Inl q
      by (auto simp: bulk_item_step_def bad_request_message_def split: http_error.splits)
    then show ?thesis using cs1 by auto
  qed
qed

lemma bulk_loop_inv:
  assumes "bulk_loop cx items st = Inr st'" "bulk_inv cx K db places cs st"
    and "bi_cartelaId ` set items \<subseteq> K" "all_fresh (gs_id (bx_session cx)) (bx_newIds cx) K db"
  shows "\<exists>cs'. bulk_inv cx K db places cs' st'"
  using assms
proof (induction items arbitrary: st cs)
  case (Cons item items)
  obtain st1 where 1: "bulk_item_step cx item st = Inr st1" "bulk_loop cx items st1 = Inr st'"
    using Cons.prems(1) by (auto simp: bind_result_eq_Inr_iff)
  obtain cs1 where "bulk_inv cx K db places cs1 st1"
    using bulk_item_inv [OF 1(1) Cons.prems(2)] Cons.prems(3,4) by auto
  then show ?case using Cons.IH [OF 1(2)] Cons.prems(3,4) by simp
qed auto

lemma js_index_Some: "js_index key rows i = Some r \<Longrightarrow> r \<in> set rows \<and> key r = i"
  unfolding js_index_def by (drule map_of_SomeD) auto

lemma bulk_start_inv:
  assumes "bulk_start now newIds s slot u requested db = Inr (cx, st)"
  shows "bx_session cx = s" "bx_slot cx = slot" "bx_userId cx = u" "bx_newIds cx = newIds"
    "bulk_inv cx K db (bs_slots st) [] st"
    "isBonusLikeCategory (Some (sl_category slot)) \<Longrightarrow>
       bs_slots st = Some (getBonusCartelaLimit (sl_maxCartelasPerPlayer slot) - int (length (user_cartelas db (gs_id s) u)))"
proof -
  show cx: "bx_session cx = s" "bx_slot cx = slot" "bx_userId cx = u" "bx_newIds cx = newIds"
    using assms by (auto simp: bulk_start_def Let_def bind_result_eq_Inr_iff)
  have st: "bs_db st = db" "bs_registered st = 0" "bs_successes st = []"
    "bs_mine st = js_index gc_cartelaId (filter (\<lambda>c. gc_sessionId c = gs_id s \<and> gc_userId c = u \<and>
        List.member (js_unique (map bi_cartelaId requested)) (gc_cartelaId c)) (gd_cartelas db))"
    using assms by (auto simp: bulk_start_def Let_def bind_result_eq_Inr_iff)
  have "mine cx (bs_db st) c" if "bs_mine st i = Some c" for i c
    using js_index_Some [OF that [unfolded st(4)]] by (simp add: mine_def cx st(1))
  then show "bulk_inv cx K db (bs_slots st) [] st"
    by (simp add: bulk_inv_def st(1-3) seated_none)
  show "bs_slots st = Some (getBonusCartelaLimit (sl_maxCartelasPerPlayer slot) - int (length (user_cartelas db (gs_id s) u)))"
    if "isBonusLikeCategory (Some (sl_category slot))"
    using assms that by (auto simp: bulk_start_def Let_def bind_result_eq_Inr_iff)
qed

lemma count_in_commute:
  "count_in now s slot n (db\<lparr>gd_reservations := rs\<rparr>) = (count_in now s slot n db)\<lparr>gd_reservations := rs\<rparr>"
  by (simp add: count_in_def update_sessions_def)

lemma bulk_finish_state:
  assumes "bulk_finish now cx st = Inr (r, db')"
  shows "\<exists>rs. subseq (active_seats rs) (active_seats (gd_reservations (bs_db st))) \<and>
    db' = (count_in now (bx_session cx) (bx_slot cx) (bs_registered st) (bs_db st))\<lparr>gd_reservations := rs\<rparr>"
    "bz_successes r = bs_successes st" "bz_failures r = bs_failures st"
proof -
  let ?d = "bs_db st"
  define rs where "rs = (if bs_confirm st \<noteq> [] then update_where (\<lambda>r. List.member (bs_confirm st) (rv_id r))
      (set_reservation_status CONFIRMED) (gd_reservations ?d) else gd_reservations ?d)"
  have d1: "(if bs_confirm st \<noteq> [] then snd (update_reservations (\<lambda>r. List.member (bs_confirm st) (rv_id r))
      (set_reservation_status CONFIRMED) ?d) else ?d) = ?d\<lparr>gd_reservations := rs\<rparr>"
    by (simp add: rs_def update_reservations_def)
  have "subseq (active_seats rs) (active_seats (gd_reservations ?d))"
    using active_seats_status [of CONFIRMED] by (simp add: rs_def)
  moreover have "db' = count_in now (bx_session cx) (bx_slot cx) (bs_registered st) (?d\<lparr>gd_reservations := rs\<rparr>)"
    using assms unfolding bulk_finish_def Let_def d1
    by (auto simp: bind_result_eq_Inr_iff update_session_Inr count_in_def split: if_splits)
  ultimately show "\<exists>rs. subseq (active_seats rs) (active_seats (gd_reservations ?d)) \<and>
      db' = (count_in now (bx_session cx) (bx_slot cx) (bs_registered st) ?d)\<lparr>gd_reservations := rs\<rparr>"
    using count_in_commute by metis
  show "bz_successes r = bs_successes st" "bz_failures r = bs_failures st"
    using assms by (auto simp: bulk_finish_def Let_def bind_result_eq_Inr_iff)
qed

lemma bulk_tx_registers:
  assumes "bulk_tx now newIds sid u requested db = Inr (r, db')"
    and "all_fresh sid newIds (bi_cartelaId ` set requested) db"
  shows "\<exists>s slot cs. getSessionForRegistrationWrite db sid = Some (s, slot) \<and>
    assertSessionRegistrationAllowed now db s slot = Inr () \<and>
    registers now s slot u newIds db cs db' \<and> gc_cartelaId ` set cs \<subseteq> bi_cartelaId ` set requested \<and>
    (\<forall>c\<in>set (bz_successes r). c \<in> set (gd_cartelas db') \<and> gc_sessionId c = sid \<and> gc_userId c = u) \<and>
    set cs \<subseteq> set (bz_successes r) \<and>
    (isBonusLikeCategory (Some (sl_category slot)) \<longrightarrow> cs = [] \<or>
       int (length (user_cartelas db sid u)) + int (length cs) \<le> getBonusCartelaLimit (sl_maxCartelasPerPlayer slot))"
proof -
  obtain s slot cx st st1 where t: "getSessionForRegistrationWrite db sid = Some (s, slot)"
    "assertSessionRegistrationAllowed now db s slot = Inr ()"
    "bulk_start now newIds s slot u requested db = Inr (cx, st)"
    "bulk_loop cx requested st = Inr st1" "bulk_finish now cx st1 = Inr (r, db')"
    using assms(1) by (auto simp: bulk_tx_def bind_result_eq_Inr_iff split: option.splits)
  let ?K = "bi_cartelaId ` set requested"
  note cx = bulk_start_inv [OF t(3)]
  note sid = session_for_write [OF t(1)]
  obtain cs where cs: "bulk_inv cx ?K db (bs_slots st) cs st1"
    using bulk_loop_inv [OF t(4) cx(5) [of ?K]] assms(2) cx(1,4) sid(3) by auto
  note i = bulk_invD [OF cs, unfolded cx(1-4)]
  obtain rs where rs: "subseq (active_seats rs) (active_seats (gd_reservations (bs_db st1)))"
    "db' = (count_in now s slot (bs_registered st1) (bs_db st1))\<lparr>gd_reservations := rs\<rparr>"
    using bulk_finish_state(1) [OF t(5)] cx(1,2) by auto
  have "registers now s slot u newIds db cs db'"
    unfolding registers_def using sid i(1,3) rs seated_sel(5) [OF i(1)] by auto
  moreover have cart: "gd_cartelas db' = gd_cartelas (bs_db st1)"
    by (simp add: rs(2) count_in_def table_simps)
  have "c \<in> set (gd_cartelas db') \<and> gc_sessionId c = sid \<and> gc_userId c = u" if "c \<in> set (bz_successes r)" for c
    using i(5) that bulk_finish_state(2) [OF t(5)] cx(1,3) sid(3) by (simp add: mine_def cart)
  moreover have "cs = [] \<or> int (length (user_cartelas db sid u)) + int (length cs) \<le> getBonusCartelaLimit (sl_maxCartelasPerPlayer slot)"
    if "isBonusLikeCategory (Some (sl_category slot))"
    using cs cx(6) that sid(3) unfolding bulk_inv_def cx(2) by auto
  moreover have "set cs \<subseteq> set (bz_successes r)" using i(6) bulk_finish_state(2) [OF t(5)] by simp
  ultimately show ?thesis using t(1,2) i(2) by blast
qed

section \<open>The transactions of a reservation\<close>

text \<open>Only reservations change, and no cartela of a session is held twice.\<close>

definition holds_ok :: "game_db \<Rightarrow> bool" where
  "holds_ok db \<longleftrightarrow> distinct (active_seats (gd_reservations db))"

definition reserves :: "game_db \<Rightarrow> game_db \<Rightarrow> bool" where
  "reserves db db' \<longleftrightarrow> (\<exists>rs. db' = db\<lparr>gd_reservations := rs\<rparr>) \<and> (holds_ok db \<longrightarrow> holds_ok db')"

lemma reserves_refl [simp]: "reserves db db"
  unfolding reserves_def by (intro conjI exI [of _ "gd_reservations db"]) simp_all

lemma reserves_trans: "reserves db db1 \<Longrightarrow> reserves db1 db2 \<Longrightarrow> reserves db db2"
  unfolding reserves_def by auto

lemma reserves_update:
  assumes "\<And>r. rv_sessionId (f r) = rv_sessionId r" "\<And>r. rv_cartelaId (f r) = rv_cartelaId r"
    and "\<And>r. rv_status (f r) = ACTIVE \<Longrightarrow> rv_status r = ACTIVE"
  shows "reserves db (snd (update_reservations P f db))"
  using subseq_distinct [OF active_seats_update [OF assms]]
  by (auto simp: reserves_def holds_ok_def update_reservations_def)

lemma reserves_status: "st \<noteq> ACTIVE \<Longrightarrow> reserves db (snd (update_reservations P (set_reservation_status st) db))"
  by (rule reserves_update) (simp_all add: set_reservation_status_def)

lemma create_reservation_reserves:
  assumes "create_reservation newId sid u cid expires db = Inr (r, db')"
  shows "reserves db db'"
proof -
  have r: "db' = db\<lparr>gd_reservations := gd_reservations db @ [r]\<rparr>" "rv_sessionId r = sid" "rv_cartelaId r = cid"
    "rv_status r = ACTIVE"
    "\<forall>x\<in>set (gd_reservations db). rv_sessionId x = sid \<longrightarrow> rv_cartelaId x = cid \<longrightarrow> rv_status x \<noteq> ACTIVE"
    using assms by (auto simp: create_reservation_def Let_def list_ex_iff split: if_splits)
  then have "(sid, cid) \<notin> set (active_seats (gd_reservations db))" by (auto simp: active_seats_def)
  then show ?thesis using r by (auto simp: reserves_def holds_ok_def active_seats_def)
qed

lemma hold_cartela_reserves:
  assumes "hold_cartela expires newId preserve sid u cid active db = Inr (r, db')"
  shows "reserves db db'"
proof (cases active)
  case None
  let ?d = "if preserve then db else snd (update_reservations
      (\<lambda>r. rv_sessionId r = sid \<and> rv_userId r = u \<and> rv_status r = ACTIVE)
      (set_reservation_status RESERVATION_CANCELLED) db)"
  have "create_reservation newId sid u cid expires ?d = Inr (r, db')"
    using assms None
    by (cases "create_reservation newId sid u cid expires ?d") (simp_all add: hold_cartela_def Let_def split: if_splits)
  moreover have "reserves db ?d" using reserves_status by simp
  ultimately show ?thesis using create_reservation_reserves reserves_trans by blast
next
  case (Some x)
  then have "update_reservation (rv_id x) (\<lambda>x. x\<lparr>rv_expiresAt := expires\<rparr>) db = Inr (r, db')"
    using assms by (simp add: hold_cartela_def split: if_splits)
  then have "db' = snd (update_reservations (\<lambda>y. rv_id y = rv_id x) (\<lambda>x. x\<lparr>rv_expiresAt := expires\<rparr>) db)"
    by (auto simp: update_reservation_def split: option.splits)
  then show ?thesis by (simp only:) (rule reserves_update; simp)
qed

lemma reserve_tx_reserves:
  assumes "reserve_tx now expires newId preserve sid u cid db = Inr (r, db')"
  shows "reserves db db'"
proof -
  let ?d = "expire_reservations now sid (\<lambda>i. i = cid) db"
  have "hold_cartela expires newId preserve sid u cid (activeReservation now ?d sid cid) ?d = Inr (r, db')"
    using assms by (auto simp: reserve_tx_def Let_def bind_result_eq_Inr_iff split: option.splits if_splits)
  moreover have "reserves db ?d" unfolding expire_reservations_def by (rule reserves_status) simp
  ultimately show ?thesis using hold_cartela_reserves reserves_trans by blast
qed

lemma reserve_each_reserves:
  assumes "reserve_each (reserve_step expires newIds sid u known owned registeredBy locked activeBy) ids st = Inr st'"
  shows "reserves (br_db st) (br_db st')"
  using assms
proof (induction ids arbitrary: st)
  case (Cons i ids)
  obtain st1 where 1: "reserve_step expires newIds sid u known owned registeredBy locked activeBy i st = Inr st1"
    "reserve_each (reserve_step expires newIds sid u known owned registeredBy locked activeBy) ids st1 = Inr st'"
    using Cons.prems by (auto simp: bind_result_eq_Inr_iff)
  have "br_db st1 = br_db st \<or>
      (\<exists>r. hold_cartela expires (newIds i) True sid u i (activeBy i) (br_db st) = Inr (r, br_db st1))"
    using 1(1) by (auto simp: reserve_step_def reserve_failure_def split: if_splits sum.splits prod.splits http_error.splits)
  then have "reserves (br_db st) (br_db st1)" using hold_cartela_reserves by auto
  then show ?case using Cons.IH [OF 1(2)] reserves_trans by blast
qed simp

lemma reserve_bulk_tx_reserves:
  assumes "reserve_bulk_tx now expires newIds sid u ids db = Inr (r, db')"
  shows "reserves db db'"
proof -
  let ?d = "expire_reservations now sid (List.member (js_unique ids)) db"
  obtain known owned registeredBy locked activeBy st where
    "reserve_each (reserve_step expires newIds sid u known owned registeredBy locked activeBy) (js_unique ids)
      \<lparr>br_reservations = [], br_failures = [], br_db = ?d\<rparr> = Inr st" "db' = br_db st"
    using assms by (auto simp: reserve_bulk_tx_def Let_def bind_result_eq_Inr_iff split: option.splits)
  then have "reserves ?d db'" using reserve_each_reserves by fastforce
  moreover have "reserves db ?d" unfolding expire_reservations_def by (rule reserves_status) simp
  ultimately show ?thesis using reserves_trans by blast
qed

lemma reserves_ok: "reserves db db' \<Longrightarrow> game_ok db \<Longrightarrow> game_ok db' \<and> advances db db'"
  by (auto simp: reserves_def)

section \<open>The session of a slot\<close>

lemma resolve_tx_opens:
  assumes "resolve_tx now codes slotId db = Inr (s, db')"
  shows "opens (fst codes) db db'"
    and "gd_cartelas db' = gd_cartelas db" "gd_wallet db' = gd_wallet db"
proof -
  obtain slot where slot: "find_slot db slotId = Some slot"
    "db' = db \<or> create_session (new_session now codes slotId (buildSessionMoneyConfig slot) READY None) db = Inr db'"
    using assms
    by (auto simp: resolve_tx_def Let_def bind_result_eq_Inr_iff split: option.splits if_splits)
  have "slot \<in> set (gd_slots db) \<and> sl_id slot = slotId"
    using find_in slot(1) unfolding find_slot_def by fastforce
  then have fresh: "fresh_session db (fst codes) (new_session now codes slotId (buildSessionMoneyConfig slot) READY None)"
    by (auto simp: fresh_session_def new_session_def)
  have "db' = db \<or> db' = db\<lparr>gd_sessions := gd_sessions db @ [new_session now codes slotId (buildSessionMoneyConfig slot) READY None]\<rparr>"
    using slot(2) by (auto simp: create_session_def split: if_splits)
  then show "opens (fst codes) db db'" "gd_cartelas db' = gd_cartelas db" "gd_wallet db' = gd_wallet db"
    using opens_create [OF fresh] by auto
qed

text \<open>What a transaction leaves fresh.\<close>

lemma fresh_ids_same:
  "gd_cartelas db' = gd_cartelas db \<Longrightarrow> gd_wallet db' = gd_wallet db \<Longrightarrow> fresh_ids ids db' = fresh_ids ids db"
  by (simp add: fresh_ids_def paid_def)

lemma all_fresh_registers:
  assumes "registers now s slot u ids db cs db'" "all_fresh (gs_id s) ids K db" "gc_cartelaId ` set cs \<subseteq> K"
  shows "all_fresh (gs_id s) ids K db'"
proof -
  obtain db1 rs where r: "seated s slot u ids db cs db1" "db' = (count_in now s slot (length cs) db1)\<lparr>gd_reservations := rs\<rparr>"
    using assms(1) unfolding registers_def by blast
  have same: "gd_cartelas db' = gd_cartelas db1" "gd_wallet db' = gd_wallet db1"
    by (simp_all add: r(2) count_in_def table_simps)
  have "seat_taken db' sid i = seat_taken db1 sid i" for sid i by (simp add: seat_taken_def same)
  then show ?thesis
    using all_fresh_after [OF r(1) assms(2,3)] by (simp add: all_fresh_def fresh_ids_same [OF same])
qed

end
