(* ===== verification/AutoStart.thy ===== *)
theory AutoStart
  imports GameLifecycle
begin

text \<open>
  The clock that starts games: \<open>games/game-auto-start-scheduler.service.ts\<close> and the countdowns it
  repairs first, \<open>games/auto-ready-countdown-repair.service.ts\<close>. It calls the lifecycle, the engine, the
  automatic caller and the opener of the next registration. What is emitted to sockets and the flags
  that keep two ticks of one process apart are left out; one instant \<open>now\<close> stands for the clock.
\<close>

section \<open>Repair of the countdowns\<close>

definition hasBlockingSession :: "game_db \<Rightarrow> bool" where
  "hasBlockingSession db = list_ex (\<lambda>s. live (gs_status s)) (gd_sessions db)"

definition auto_slot :: "slot_row \<Rightarrow> bool" where
  "auto_slot slot \<longleftrightarrow> sl_operationMode slot = AUTO \<and> sl_status slot \<noteq> CANCELLED"

definition start_due :: "int \<Rightarrow> session_row \<Rightarrow> bool" where
  "start_due now s \<longleftrightarrow> (case gs_scheduledStartAt s of None \<Rightarrow> False | Some start \<Rightarrow> start \<le> now)"

definition set_start :: "int option \<Rightarrow> session_row \<Rightarrow> session_row" where
  "set_start at_time s = s\<lparr>gs_scheduledStartAt := at_time\<rparr>"

definition set_interval :: "int option \<Rightarrow> session_row \<Rightarrow> session_row" where
  "set_interval ms s = s\<lparr>gs_autoCallIntervalMs := ms\<rparr>"

definition repairBlockedExpiredReadyCountdowns :: "int \<Rightarrow> game_db \<Rightarrow> nat \<times> game_db" where
  "repairBlockedExpiredReadyCountdowns now db =
     (if \<not> hasBlockingSession db then (0, db)
      else update_sessions now (\<lambda>s. gs_status s = READY \<and> start_due now s \<and> slot_where db auto_slot s)
        (set_start None) db)"

definition ensureAutoReadySessionHasCountdown ::
  "timing_config \<Rightarrow> int \<Rightarrow> string \<Rightarrow> game_db \<Rightarrow> bool \<times> game_db" where
  "ensureAutoReadySessionHasCountdown cfg now sessionId db =
     (if hasBlockingSession db then (False, db)
      else
        let (count, db') = update_sessions now
              (\<lambda>s. gs_id s = sessionId \<and> gs_status s = READY \<and> gs_scheduledStartAt s = None \<and>
                 slot_where db auto_slot s)
              (set_start (Some (now + tc_registrationDurationSeconds cfg * 1000))) db
        in if count \<noteq> 1 then (False, db') else (find_session db' sessionId \<noteq> None, db'))"

definition session_category :: "game_db \<Rightarrow> session_row \<Rightarrow> game_category option" where
  "session_category db s = map_option sl_category (slot_of db s)"

definition repairAllMissingAutoReadyCountdowns :: "timing_config \<Rightarrow> int \<Rightarrow> game_db \<Rightarrow> nat \<times> game_db" where
  "repairAllMissingAutoReadyCountdowns cfg now db =
     (let (cleared, db1) = repairBlockedExpiredReadyCountdowns now db in
      if hasBlockingSession db1 then (0, db1)
      else
        (case sort_by (\<lambda>x y. compareSortOrder (session_sort_order db1 x) (session_sort_order db1 y))
            (filter (\<lambda>s. isStandardQueueCategory (session_category db1 s))
              (filter (\<lambda>s. gs_status s = READY \<and> gs_scheduledStartAt s = None \<and> slot_where db1 auto_slot s)
                (gd_sessions db1))) of
           [] \<Rightarrow> (0, db1)
         | headSession # _ \<Rightarrow>
             (let (repaired, db2) = ensureAutoReadySessionHasCountdown cfg now (gs_id headSession) db1
              in (if repaired then 1 else 0, db2))))"

section \<open>The sessions that are due\<close>

definition findStandardReadyHeadSortOrder :: "game_db \<Rightarrow> int option" where
  "findStandardReadyHeadSortOrder db =
     (case standardReadyOrdered db of [] \<Rightarrow> None | head # _ \<Rightarrow> session_sort_order db head)"

definition ready_priority :: "game_db \<Rightarrow> int \<Rightarrow> session_row \<Rightarrow> int" where
  "ready_priority db now s =
     getRuntimeQueuePriority (session_category db s) (Some READY) (gs_scheduledStartAt s) now"

definition prioritizedDueSessions :: "int \<Rightarrow> game_db \<Rightarrow> session_row list" where
  "prioritizedDueSessions now db =
     (let dueSessions = filter (\<lambda>s. gs_status s = READY \<and> start_due now s) (gd_sessions db);
          standardReadyHeadSortOrder = findStandardReadyHeadSortOrder db
      in sort_by
           (\<lambda>x y. let priorityDiff = ready_priority db now x - ready_priority db now y in
              if priorityDiff \<noteq> 0 then priorityDiff
              else compareSortOrder (session_sort_order db x) (session_sort_order db y))
           (filter (\<lambda>s. \<not> isStandardQueueCategory (session_category db s) \<or>
                standardReadyHeadSortOrder = None \<or>
                compareSortOrder (session_sort_order db s) standardReadyHeadSortOrder = 0) dueSessions))"

section \<open>One due session\<close>

text \<open>The identifiers, play codes and the draw a start may need, and whether the advisory lock is free.\<close>

record start_values =
  sv_lockFree :: bool
  sv_start :: "string \<times> string"
  sv_deferred :: "string \<times> string"
  sv_cancel :: "string \<times> string"
  sv_refund :: "string \<Rightarrow> string"
  sv_draw :: nat

definition no_config :: session_config where
  "no_config = \<lparr>sc_entryFee = None, sc_prizePerCartela = None, sc_companyFeePerCartela = None\<rparr>"

text \<open>After a failure the session is due again at once.\<close>

definition retry_start :: "int \<Rightarrow> string \<Rightarrow> game_db \<Rightarrow> game_db" where
  "retry_start now sessionId db =
     snd (update_sessions now
       (\<lambda>s. gs_id s = sessionId \<and> gs_status s = READY \<and> gs_scheduledStartAt s = None) (set_start (Some now)) db)"

definition start_due_session ::
  "timing_config \<Rightarrow> int \<Rightarrow> start_values \<Rightarrow> string \<Rightarrow> string \<Rightarrow> bool \<Rightarrow> game_db \<Rightarrow> game_db" where
  "start_due_session cfg now sv sessionId slotId auto db =
     (case startGame cfg now (sv_lockFree sv) (sv_start sv) (sv_deferred sv) slotId no_config db of
        (Inl e, db1) \<Rightarrow> retry_start now sessionId db1
      | (Inr startedSession, db1) \<Rightarrow>
          if \<not> auto then db1
          else
            (case update_session now startedSession
                (set_interval (Some (tc_autoCallIntervalSeconds cfg * 1000))) db1 of
               Inl e \<Rightarrow> retry_start now sessionId db1
             | Inr db2 \<Rightarrow>
                 (case startAutoCall cfg now (sv_draw sv) startedSession True db2 of
                    (Inl e, db3) \<Rightarrow> retry_start now sessionId db3
                  | (Inr _, db3) \<Rightarrow> db3)))"

definition claim_start :: "int \<Rightarrow> string \<Rightarrow> game_db \<Rightarrow> nat \<times> game_db" where
  "claim_start now sessionId =
     update_sessions now (\<lambda>s. gs_id s = sessionId \<and> gs_status s = READY \<and> start_due now s) (set_start None)"

definition has_players :: "game_db \<Rightarrow> string \<Rightarrow> bool" where
  "has_players db sessionId =
     list_ex (\<lambda>c. gc_sessionId c = sessionId \<and> gc_status c \<noteq> CARTELA_CANCELLED) (gd_cartelas db)"

text \<open>
  Whether the tick is over; a cancellation that throws ends the tick. \<open>others\<close> is what other
  transactions commit after the look at the live sessions, and within the cancellation.
\<close>

definition processDueSession ::
  "timing_config \<Rightarrow> int \<Rightarrow> start_values \<Rightarrow> (game_db \<Rightarrow> game_db) \<times> (game_db \<Rightarrow> game_db) \<Rightarrow> string \<Rightarrow> string \<Rightarrow>
   game_db \<Rightarrow> bool game_outcome" where
  "processDueSession cfg now sv others sessionId slotId db =
     (if hasBlockingSession db then (Inr True, db)
      else
        let (count, db1) = claim_start now sessionId (fst others db) in
        if count \<noteq> 1 then (Inr False, db1)
        else
          (case find_session db1 sessionId of
             None \<Rightarrow> (Inr True, db1)
           | Some session \<Rightarrow>
          (case slot_of db1 session of
             None \<Rightarrow> (Inr True, db1)
           | Some slot \<Rightarrow>
               if \<not> isBigGameCategory (Some (sl_category slot)) \<and> sl_operationMode slot \<noteq> AUTO
               then (Inr True, db1)
               else
                 let go = (\<lambda>d. (Inr True, start_due_session cfg now sv sessionId slotId (sl_operationMode slot = AUTO) d))
                 in if has_players db1 sessionId then go db1
                    else
                      (case cancelSession cfg now (sv_lockFree sv) (sv_cancel sv) (sv_refund sv) (snd others)
                          sessionId No_Players \<lparr>co_requeueSlot = True, co_abortIfPlayersRegistered = True\<rparr> db1 of
                         (Inl e, db2) \<Rightarrow> (Inl e, db2)
                       | (Inr (Cancelled_Session _), db2) \<Rightarrow> (Inr True, db2)
                       | (Inr Aborted, db2) \<Rightarrow> go db2))))"

section \<open>One tick\<close>

fun process_due ::
  "timing_config \<Rightarrow> int \<Rightarrow> start_values \<Rightarrow> (string \<times> string) list \<Rightarrow> game_db \<Rightarrow> unit game_outcome" where
  "process_due cfg now sv [] db = (Inr (), db)"
| "process_due cfg now sv ((sessionId, slotId) # rest) db =
     (case processDueSession cfg now sv (id, id) sessionId slotId db of
        (Inl e, db') \<Rightarrow> (Inl e, db')
      | (Inr handled, db') \<Rightarrow> if handled then (Inr (), db') else process_due cfg now sv rest db')"

definition deferred_options :: open_options where
  "deferred_options = \<lparr>op_ignoreReviewGrace = False, op_allowBehindActiveLive = True, op_deferred = True\<rparr>"

definition scheduler_tick :: "timing_config \<Rightarrow> int \<Rightarrow> start_values \<Rightarrow> string \<times> string \<Rightarrow> game_db \<Rightarrow> game_db" where
  "scheduler_tick cfg now sv codes db =
     (let db1 = snd (repairAllMissingAutoReadyCountdowns cfg now db);
          due = map (\<lambda>s. (gs_id s, gs_slotId s)) (prioritizedDueSessions now db1)
      in case process_due cfg now sv due db1 of
           (Inl e, db2) \<Rightarrow> db2
         | (Inr _, db2) \<Rightarrow> snd (openNextAutoQueueRegistration cfg now (sv_lockFree sv) codes deferred_options db2))"

end
