(* ===== verification/GameRuns.thy ===== *)
theory GameRuns
  imports CancelSteps RegistrationSteps AutoStart
begin

text \<open>
  The game as a state machine. \<open>game_tx\<close> has one rule for each transaction the services commit, each
  with any clock, any draw and any fresh identifiers; PostgreSQL commits transactions one after the
  other, so a run of the program is a sequence of these steps. \<open>game_op\<close> is a call of a service or of
  a scheduler that nothing interrupts; each is a run of transactions.
\<close>

section \<open>Transactions\<close>

inductive game_tx :: "game_db \<Rightarrow> game_db \<Rightarrow> bool" where
  start: "start_session now codes slotId config db = Inr (r, db') \<Longrightarrow>
    fst codes \<notin> gs_id ` set (gd_sessions db) \<Longrightarrow> game_tx db db'"
| open_next: "openNextAutoQueueRegistrationInTransaction cfg now lockFree codes options db = Inr (opened, db') \<Longrightarrow>
    fst codes \<notin> gs_id ` set (gd_sessions db) \<Longrightarrow> game_tx db db'"
| call: "call_transaction id sid letter number db = (Inr row, db') \<Longrightarrow> 1 \<le> number \<Longrightarrow> number \<le> 75 \<Longrightarrow>
    game_tx db db'"
| auto_call: "auto_call_tx now sid number remaining due db = Inr (called, db') \<Longrightarrow> 1 \<le> number \<Longrightarrow>
    number \<le> 75 \<Longrightarrow> game_tx db db'"
| auto_on: "startAutoCall cfg now draw sid False db = (Inr first, db') \<Longrightarrow> game_tx db db'"
| auto_off: "game_tx db (disableAutoCall now sid db)"
| grace: "game_tx db (snd (startNoWinnerGrace cfg now sid db))"
| no_winner: "no_winner_tx cfg now lockFree codes sid db = Inr (ended, db') \<Longrightarrow>
    fst codes \<notin> gs_id ` set (gd_sessions db) \<Longrightarrow> game_tx db db'"
| claim: "loadClaimCartela db sid u cid = Inr cc \<Longrightarrow> claim_tx cfg now newId cc u db = Inr (answer, db') \<Longrightarrow>
    newId \<notin> bc_id ` set (gd_claims db) \<Longrightarrow> game_tx db db'"
| early: "game_tx db (snd (mark_early now sid db))"
| finalize: "finalize_tx cfg now lockFree codes newIds sid db = Inr (winners, db') \<Longrightarrow>
    ids_free newIds (map gc_id (session_winners db sid)) (gd_wallet db) \<Longrightarrow>
    fst codes \<notin> gs_id ` set (gd_sessions db) \<Longrightarrow> game_tx db db'"
| approve: "approve_tx cfg now lockFree codes newId claimId db = Inr (decided, db') \<Longrightarrow>
    newId \<notin> ledger_ids (gd_wallet db) \<Longrightarrow> fst codes \<notin> gs_id ` set (gd_sessions db) \<Longrightarrow> game_tx db db'"
| reject: "reject_tx now claimId reason db = Inr (decided, db') \<Longrightarrow> game_tx db db'"
| cancel: "cancel_tx cfg now lockFree codes newIds sid cause options db = Inr (result, db') \<Longrightarrow>
    ids_free newIds (map fst (refundTotalsByUser (active_cartelas db sid))) (gd_wallet db) \<Longrightarrow>
    fst codes \<notin> gs_id ` set (gd_sessions db) \<Longrightarrow> game_tx db db'"
| resolve: "resolve_tx now codes slotId db = Inr (session, db') \<Longrightarrow>
    fst codes \<notin> gs_id ` set (gd_sessions db) \<Longrightarrow> game_tx db db'"
| register: "register_tx now seatIds sid u board db = Inr (entered, db') \<Longrightarrow> fresh_ids seatIds db \<Longrightarrow> game_tx db db'"
| confirm: "confirm_tx now seatIds rid u db = Inr (entered, db') \<Longrightarrow> fresh_ids seatIds db \<Longrightarrow> game_tx db db'"
| register_many: "bulk_tx now idsOf sid u requested db = Inr (answers, db') \<Longrightarrow>
    all_fresh sid idsOf (bi_cartelaId ` set requested) db \<Longrightarrow> game_tx db db'"
| reserve: "reserve_tx now expires newId preserve sid u board db = Inr (hold, db') \<Longrightarrow> game_tx db db'"
| reserve_many: "reserve_bulk_tx now expires holdIds sid u cards db = Inr (holds, db') \<Longrightarrow> game_tx db db'"
| end_holds: "status \<noteq> ACTIVE \<Longrightarrow>
    game_tx db (snd (update_reservations over (set_reservation_status status) db))"
| schedule: "game_tx db (snd (update_sessions now due (set_start start_time) db))"
| interval: "game_tx db (snd (update_sessions now due (set_interval ms) db))"

lemma disableAutoCall_ok: "game_ok db \<Longrightarrow> game_ok (disableAutoCall now sid db) \<and> advances db (disableAutoCall now sid db)"
  unfolding disableAutoCall_def by (rule idle_update_ok) (simp_all add: idle_def quiet_def)

lemma startNoWinnerGrace_ok:
  "game_ok db \<Longrightarrow> game_ok (snd (startNoWinnerGrace cfg now sid db)) \<and>
   advances db (snd (startNoWinnerGrace cfg now sid db))"
  by (simp add: startNoWinnerGrace_def Let_def case_prod_beta idle_update_ok idle_def quiet_def)

lemma startAutoCall_ok:
  assumes "game_ok db" "startAutoCall cfg now draw sid False db = (Inr first, db')"
  shows "game_ok db' \<and> advances db db'"
proof -
  obtain t where "db' = snd (update_sessions now (\<lambda>s. gs_id s = sid)
      (\<lambda>s. s\<lparr>gs_autoCallEnabled := True, gs_nextAutoCallAt := Some t\<rparr>) db)"
    using assms(2) by (auto simp: startAutoCall_def Let_def update_session_Inr split: option.splits sum.splits if_split_asm)
  then show ?thesis using idle_update_ok [OF assms(1)] by (simp add: idle_def quiet_def)
qed

lemma schedule_ok:
  "game_ok db \<Longrightarrow> game_ok (snd (update_sessions now due (set_start t) db)) \<and>
   advances db (snd (update_sessions now due (set_start t) db))"
  by (rule idle_update_ok) (simp_all add: idle_def quiet_def set_start_def)

lemma interval_ok:
  "game_ok db \<Longrightarrow> game_ok (snd (update_sessions now due (set_interval ms) db)) \<and>
   advances db (snd (update_sessions now due (set_interval ms) db))"
  by (rule idle_update_ok) (simp_all add: idle_def quiet_def set_interval_def)

lemma game_tx_ok: "game_tx db db' \<Longrightarrow> game_ok db \<Longrightarrow> game_ok db' \<and> advances db db'"
proof (induction rule: game_tx.induct)
  case (open_next cfg now lockFree codes options db opened db')
  have "opens (fst codes) db db'" by (rule opener_opens [OF game_okD(1) [OF open_next(3)] open_next(1)])
  then show ?case using game_ok_opens [OF open_next(3) _ open_next(2)] opens_advances by blast
next
  case (claim db sid u cid cc cfg now newId answer db')
  note l = loadClaimCartela_loaded [OF game_okD(1) [OF claim(4)] claim(1)]
  show ?case using claim_tx_ok [OF claim(4) l(1) claim(3)] claim(2) l(2) by simp
next
  case (early db now sid)
  then show ?case using mark_early_ok [OF early] advances_cong2 [OF advances_refl] by blast
next
  case (resolve now codes slotId db session db')
  then show ?case using game_ok_opens [OF resolve(3) _ resolve(2)] resolve_tx_opens(1) opens_advances by blast
next
  case (register now seatIds sid u board db entered db')
  then show ?case using register_tx_registers [OF register(1,2)] registers_ok by blast
next
  case (confirm now seatIds rid u db entered db')
  then show ?case using confirm_tx_registers [OF confirm(1,2)] registers_ok by blast
next
  case (register_many now idsOf sid u requested db answers db')
  obtain s slot cs where "registers now s slot u idsOf db cs db'"
    using bulk_tx_registers [OF register_many(1,2)] by (elim exE conjE)
  then show ?case using registers_ok register_many(3) by blast
next
  case (reserve now expires newId preserve sid u board db hold db')
  then show ?case using reserve_tx_reserves reserves_ok by blast
next
  case (reserve_many now expires holdIds sid u cards db holds db')
  then show ?case using reserve_bulk_tx_reserves reserves_ok by blast
next
  case (end_holds status db over)
  then show ?case using reserves_status reserves_ok by blast
qed (rule start_session_ok call_transaction_ok auto_call_ok startAutoCall_ok disableAutoCall_ok
      startNoWinnerGrace_ok schedule_ok interval_ok no_winner_ok finalize_tx_ok approve_ok reject_ok cancel_ok; assumption)+

interpretation game_run: protocol game_tx game_ok advances
  by unfold_locales (simp_all add: game_tx_ok)

section \<open>Calls of the services\<close>

lemma session_ids_update [table_simps]:
  "(\<And>s. gs_id (f s) = gs_id s) \<Longrightarrow>
   gs_id ` set (gd_sessions (snd (update_sessions now P f db))) = gs_id ` set (gd_sessions db)"
proof -
  assume "\<And>s. gs_id (f s) = gs_id s"
  then have "map gs_id (gd_sessions (snd (update_sessions now P f db))) = map gs_id (gd_sessions db)"
    by (simp add: update_sessions_def map_update_where)
  then show ?thesis by (metis set_map)
qed

lemma run_transaction:
  assumes "\<And>x db'. r = Inr (x, db') \<Longrightarrow> game_tx db db'"
  shows "game_tx\<^sup>*\<^sup>* db (snd (transaction db r))"
proof (cases r)
  case (Inr p)
  then show ?thesis using assms by (cases p) (simp add: transaction_def r_into_rtranclp)
qed (simp add: transaction_def)

lemma run_call_transaction:
  "1 \<le> number \<Longrightarrow> number \<le> 75 \<Longrightarrow> game_tx\<^sup>*\<^sup>* db (snd (call_transaction id sid letter number db))"
proof -
  assume n: "1 \<le> number" "number \<le> 75"
  obtain r db' where c: "call_transaction id sid letter number db = (r, db')" by fastforce
  show ?thesis
  proof (cases r)
    case (Inl e)
    then have "db' = db" using c by (auto simp: call_transaction_def transaction_def Let_def split: option.splits if_split_asm sum.splits)
    then show ?thesis using c by simp
  next
    case (Inr row)
    then show ?thesis using game_tx.call n c by (simp add: r_into_rtranclp)
  qed
qed

lemma run_call_attempts:
  "1 \<le> number \<Longrightarrow> number \<le> 75 \<Longrightarrow> set tries \<subseteq> {id} \<Longrightarrow>
   game_tx\<^sup>*\<^sup>* db (snd (call_attempts tries sid letter number db))"
proof (induction tries arbitrary: db)
  case (Cons t tries)
  obtain r db' where c: "call_transaction id sid letter number db = (r, db')" by fastforce
  have t: "t = id" using Cons.prems(3) by (metis insert_subset list.set(2) singletonD)
  have run: "game_tx\<^sup>*\<^sup>* db db'"
    using run_call_transaction [OF Cons.prems(1,2), of db sid letter] c by simp
  have "game_tx\<^sup>*\<^sup>* db' (snd (call_attempts tries sid letter number db'))" using Cons by simp
  then show ?case using run c t by (auto split: sum.splits)
qed simp

lemma run_callNumber:
  assumes "1 \<le> number" "number \<le> 75"
  shows "game_tx\<^sup>*\<^sup>* db (snd (callNumber cfg now (id, id) sid letter number db))"
proof -
  obtain r db' where c: "call_attempts [id, id] sid letter number db = (r, db')" by fastforce
  have "game_tx\<^sup>*\<^sup>* db db'"
    using run_call_attempts [OF assms, of "[id, id]" db sid letter] c by simp
  moreover have "game_tx\<^sup>*\<^sup>* db' (snd (startNoWinnerGrace cfg now sid db'))"
    by (rule r_into_rtranclp, rule game_tx.grace)
  ultimately show ?thesis
    using c by (auto simp: callNumber_def Let_def case_prod_beta split: sum.splits)
qed

lemma random_range:
  "queryRandomRemainingNumber draw db sid = Some (number, k) \<Longrightarrow> 1 \<le> number \<and> number \<le> 75"
  using remaining_range [of "remaining_numbers db sid ! (draw mod length (remaining_numbers db sid))" db sid]
  by (auto simp: queryRandomRemainingNumber_def Let_def split: if_split_asm)

lemma run_callRandomNumber: "game_tx\<^sup>*\<^sup>* db (snd (callRandomNumber cfg now draw (id, id) sid db))"
  using random_range run_callNumber by (auto simp: callRandomNumber_def split: option.splits)

lemma run_autoCallRandom:
  "game_tx\<^sup>*\<^sup>* db (snd (callRandomNumberForAutoCall cfg now draw id sid interval due db))"
proof (cases "queryRandomRemainingNumber draw db sid")
  case (Some p)
  obtain number k where p: "p = (number, k)" by fastforce
  show ?thesis
  proof (cases "auto_call_tx now sid number k due db")
    case (Inr q)
    obtain row s db' where q: "q = ((row, s), db')" by (metis prod.exhaust)
    have "game_tx\<^sup>*\<^sup>* db db'"
      using game_tx.auto_call [OF Inr [unfolded q]] random_range Some p by (simp add: r_into_rtranclp)
    moreover have "game_tx\<^sup>*\<^sup>* db' (snd (startNoWinnerGrace cfg now sid db'))"
      by (rule r_into_rtranclp, rule game_tx.grace)
    ultimately show ?thesis
      using Some Inr p q by (auto simp: callRandomNumberForAutoCall_def Let_def case_prod_beta)
  qed (use Some p in \<open>simp add: callRandomNumberForAutoCall_def Let_def\<close>)
qed (simp add: callRandomNumberForAutoCall_def)

lemma run_processSession: "game_tx\<^sup>*\<^sup>* db (processSession cfg now draw id sid interval db)"
proof -
  obtain r db' where c: "callRandomNumberForAutoCall cfg now draw id sid
      (or_else interval (getAutoCallIntervalMs cfg)) (now + or_else interval (getAutoCallIntervalMs cfg)) db = (r, db')"
    by fastforce
  then have run: "game_tx\<^sup>*\<^sup>* db db'"
    using run_autoCallRandom by (metis snd_conv)
  have off: "game_tx\<^sup>*\<^sup>* db' (disableAutoCall now sid db')"
    by (rule r_into_rtranclp, rule game_tx.auto_off)
  have "processSession cfg now draw id sid interval db \<in> {db', disableAutoCall now sid db'}"
    using c by (auto simp: processSession_def Let_def split: sum.splits http_error.splits)
  then show ?thesis using run off by (metis insertE rtranclp_trans singletonD)
qed

lemma run_claimBingo:
  assumes "newId \<notin> bc_id ` set (gd_claims db)"
  shows "game_tx\<^sup>*\<^sup>* db (snd (claimBingo cfg now newId id sid u cid db))"
proof (cases "loadClaimCartela db sid u cid")
  case (Inr cc)
  have "game_tx\<^sup>*\<^sup>* db (snd (transaction db (claim_tx cfg now newId cc u db)))"
    by (rule run_transaction) (rule game_tx.claim [OF Inr _ assms])
  then show ?thesis by (simp add: claimBingo_def Inr)
qed (simp add: claimBingo_def)

definition ids_ready ::
  "string \<times> string \<Rightarrow> (string \<Rightarrow> string) \<Rightarrow> string list \<Rightarrow> game_db \<Rightarrow> bool" where
  "ids_ready codes newIds ks db \<longleftrightarrow>
     fst codes \<notin> gs_id ` set (gd_sessions db) \<and> ids_free newIds ks (gd_wallet db)"

lemma run_finalizeWinnerWindow:
  assumes "ids_ready codes newIds (map gc_id (session_winners db sid)) db"
  shows "game_tx\<^sup>*\<^sup>* db (snd (finalizeWinnerWindow cfg now lockFree codes newIds sid db))"
  unfolding finalizeWinnerWindow_def
  by (rule run_transaction) (use assms in \<open>auto simp: ids_ready_def intro: game_tx.finalize\<close>)

lemma finalizeWinnerWindowEarly_eq:
  "finalizeWinnerWindowEarly cfg now lockFree codes newIds sid db =
     (if fst (mark_early now sid db) \<noteq> 1
      then (Inl (Bad_Request ''Session is not in an open winner window''), snd (mark_early now sid db))
      else
        case finalizeWinnerWindow cfg now lockFree codes newIds sid (snd (mark_early now sid db)) of
          (Inl e, db2) \<Rightarrow> (Inl e, db2)
        | (Inr finalized, db2) \<Rightarrow>
            (Inr (finalized \<noteq> None, case finalized of None \<Rightarrow> 0 | Some users \<Rightarrow> length users), db2))"
  by (simp add: finalizeWinnerWindowEarly_def mark_early_def Let_def case_prod_beta)

lemma run_finalizeEarly:
  assumes "ids_ready codes newIds (map gc_id (session_winners db sid)) db"
  shows "game_tx\<^sup>*\<^sup>* db (snd (finalizeWinnerWindowEarly cfg now lockFree codes newIds sid db))"
proof -
  let ?d = "snd (mark_early now sid db)"
  have m: "game_tx\<^sup>*\<^sup>* db ?d" by (rule r_into_rtranclp, rule game_tx.early)
  have "session_winners ?d sid = session_winners db sid" "gd_wallet ?d = gd_wallet db"
    by (simp_all add: session_winners_def mark_early_def table_simps)
  moreover have "gs_id ` set (gd_sessions ?d) = gs_id ` set (gd_sessions db)"
    by (simp add: mark_early_def table_simps)
  ultimately have "game_tx\<^sup>*\<^sup>* ?d (snd (finalizeWinnerWindow cfg now lockFree codes newIds sid ?d))"
    using assms by (intro run_finalizeWinnerWindow) (simp add: ids_ready_def)
  then show ?thesis
    using m unfolding finalizeWinnerWindowEarly_eq by (auto split: prod.splits sum.splits)
qed

lemma run_cancelSession:
  assumes "ids_ready codes newIds (map fst (refundTotalsByUser (active_cartelas db sid))) db"
  shows "game_tx\<^sup>*\<^sup>* db (snd (cancelSession cfg now lockFree codes newIds id sid cause options db))"
proof -
  let ?d = "disableAutoCall now sid db"
  have off: "game_tx\<^sup>*\<^sup>* db ?d" by (rule r_into_rtranclp, rule game_tx.auto_off)
  have same: "active_cartelas ?d sid = active_cartelas db sid" "gd_wallet ?d = gd_wallet db"
    "gs_id ` set (gd_sessions ?d) = gs_id ` set (gd_sessions db)"
    by (simp_all add: active_cartelas_def disableAutoCall_def table_simps)
  have tx: "game_tx ?d db'" if "cancel_tx cfg now lockFree codes newIds sid cause options ?d = Inr (r, db')" for r db'
    by (rule game_tx.cancel [OF that])
      (use assms in \<open>unfold ids_ready_def same, blast+\<close>)
  show ?thesis
  proof (cases "find_session db sid")
    case (Some s)
    have "snd (cancelSession cfg now lockFree codes newIds id sid cause options db) \<in> {db, ?d} \<or>
        (\<exists>r. cancel_tx cfg now lockFree codes newIds sid cause options ?d =
          Inr (r, snd (cancelSession cfg now lockFree codes newIds id sid cause options db)))"
      using Some by (auto simp: cancelSession_def Let_def split: sum.splits prod.splits cancel_stop.splits)
    then show ?thesis using off tx by (metis insertE rtranclp.simps singletonD)
  qed (simp add: cancelSession_def)
qed

lemma start_session_ids:
  assumes "start_session now codes slotId config db = Inr (r, db')"
  shows "gs_id ` set (gd_sessions db') \<subseteq> insert (fst codes) (gs_id ` set (gd_sessions db))"
proof -
  have slot: "gd_sessions db1 = gd_sessions db" if "update_slot slotId f db = Inr db1" for f db1
    using that by (auto simp: update_slot_def split: if_split_asm)
  show ?thesis
  proof (cases "find (\<lambda>s. gs_slotId s = slotId \<and> gs_status s = READY) (gd_sessions db)")
    case None
    then obtain db1 money where "update_slot slotId (\<lambda>s. s\<lparr>sl_status := PLAYING\<rparr>) db = Inr db1"
      "create_session (new_session now codes slotId money PLAYING None) db1 = Inr db'"
      using assms by (auto simp: start_session_def Let_def bind_result_eq_Inr_iff case_prod_beta
          split: option.splits if_split_asm)
    then show ?thesis using slot by (auto simp: create_session_def new_session_def split: if_split_asm)
  next
    case (Some ready)
    then obtain db1 where "update_slot slotId (\<lambda>s. s\<lparr>sl_status := PLAYING\<rparr>) db = Inr db1"
      "db' = snd (update_sessions now (\<lambda>s. gs_id s = gs_id ready \<and> gs_status s = READY)
        (\<lambda>s. s\<lparr>gs_status := PLAYING, gs_startedAt := now\<rparr>) db1)"
      using assms by (auto simp: start_session_def Let_def bind_result_eq_Inr_iff case_prod_beta
          split: option.splits if_split_asm)
    then show ?thesis using slot by (auto simp: session_ids_update)
  qed
qed

lemma run_startGame:
  assumes "fst codes \<notin> gs_id ` set (gd_sessions db)" "fst nextCodes \<notin> gs_id ` set (gd_sessions db)"
    and "fst nextCodes \<noteq> fst codes"
  shows "game_tx\<^sup>*\<^sup>* db (snd (startGame cfg now lockFree codes nextCodes slotId config db))"
proof (cases "find (\<lambda>s. gs_slotId s = slotId \<and> live (gs_status s)) (gd_sessions db)")
  case None
  show ?thesis
  proof (cases "start_session now codes slotId config db")
    case (Inr p)
    obtain sid open_now db' where p: "p = ((sid, open_now), db')" by (metis prod.exhaust)
    have start: "game_tx db db'" by (rule game_tx.start [OF Inr [unfolded p] assms(1)])
    have ids: "gs_id ` set (gd_sessions db') \<subseteq> insert (fst codes) (gs_id ` set (gd_sessions db))"
      by (rule start_session_ids [OF Inr [unfolded p]])
    have "game_tx\<^sup>*\<^sup>* db' (snd (openNextAutoQueueRegistration cfg now lockFree nextCodes
        \<lparr>op_ignoreReviewGrace = True, op_allowBehindActiveLive = True, op_deferred = True\<rparr> db'))"
      unfolding openNextAutoQueueRegistration_def
      by (rule run_transaction, erule game_tx.open_next) (use ids assms(2,3) in blast)
    then show ?thesis using None Inr p start by (auto simp: startGame_def)
  qed (simp add: startGame_def None)
qed (simp add: startGame_def)

text \<open>Registering and reserving.\<close>

lemma run_registerCartela:
  assumes "fresh_ids seatIds db"
  shows "game_tx\<^sup>*\<^sup>* db (snd (registerCartela now seatIds id sid u board db))"
proof (cases "register_tx now seatIds sid u board db")
  case (Inr p)
  obtain e db' where p: "p = (e, db')" by fastforce
  have "game_tx db db'" by (rule game_tx.register [OF Inr [unfolded p] assms])
  then show ?thesis
    using Inr p by (auto simp: registerCartela_def Let_def split: option.splits)
qed (auto simp: registerCartela_def registered_meanwhile_def Let_def split: option.splits)

lemma run_confirmReservation:
  assumes "fresh_ids seatIds db"
  shows "game_tx\<^sup>*\<^sup>* db (snd (confirmReservation now withinLimit seatIds rid u db))"
proof (cases "confirm_tx now seatIds rid u db")
  case (Inr p)
  obtain e db' where p: "p = (e, db')" by fastforce
  have "game_tx db db'" by (rule game_tx.confirm [OF Inr [unfolded p] assms])
  then show ?thesis using Inr p by (auto simp: confirmReservation_def)
qed (auto simp: confirmReservation_def registered_meanwhile_def split: option.splits)

lemma run_reserveCartela:
  "game_tx\<^sup>*\<^sup>* db (snd (reserveCartela now holdMs withinLimit newId preserve ms sid u board db))"
proof (cases "reserve_tx now (now + or_else ms holdMs) newId (or_else preserve True) sid u board db")
  case (Inr p)
  obtain r db' where p: "p = (r, db')" by fastforce
  have "game_tx db db'" by (rule game_tx.reserve [OF Inr [unfolded p]])
  then show ?thesis using Inr p by (auto simp: reserveCartela_def transaction_def)
qed (auto simp: reserveCartela_def transaction_def)

lemma run_cancelReservation: "game_tx\<^sup>*\<^sup>* db (snd (cancelReservation withinLimit rid u db))"
proof (cases withinLimit)
  case True
  have "snd (cancelReservation withinLimit rid u db) = snd (update_reservations
      (\<lambda>r. rv_id r = rid \<and> rv_userId r = u \<and> rv_status r = ACTIVE) (set_reservation_status RESERVATION_CANCELLED) db)"
    using True by (simp add: cancelReservation_def case_prod_beta)
  then show ?thesis by (simp only:) (rule r_into_rtranclp, rule game_tx.end_holds, simp)
qed (simp add: cancelReservation_def)

lemma run_expireDueReservations: "game_tx\<^sup>*\<^sup>* db (expireDueReservations now id db)"
proof (cases "due_reservations now db = []")
  case False
  then show ?thesis
    unfolding expireDueReservations_def Let_def if_not_P [OF False] id_apply
    by (intro r_into_rtranclp game_tx.end_holds) simp
qed (simp add: expireDueReservations_def)

lemma run_reserveBulk:
  "game_tx\<^sup>*\<^sup>* db (snd (reserveCartelasBulk now holdMs withinLimit holdIds sid u boards db))"
proof -
  have "game_tx\<^sup>*\<^sup>* db (snd (transaction db (reserve_bulk_tx now (now + holdMs) holdIds sid u boards db)))"
    by (rule run_transaction) (rule game_tx.reserve_many)
  then show ?thesis by (auto simp: reserveCartelasBulk_def split: sum.splits)
qed

lemma run_resolve:
  "fst codes \<notin> gs_id ` set (gd_sessions db) \<Longrightarrow>
   game_tx\<^sup>*\<^sup>* db (snd (resolveRegistrationSessionForSlot now codes slotId db))"
  unfolding resolveRegistrationSessionForSlot_def by (rule run_transaction) (rule game_tx.resolve)

lemma resolved_same:
  "gd_cartelas (snd (resolveRegistrationSessionForSlot now codes slotId db)) = gd_cartelas db"
  "gd_wallet (snd (resolveRegistrationSessionForSlot now codes slotId db)) = gd_wallet db"
  using resolve_tx_opens(2,3)
  by (auto simp: resolveRegistrationSessionForSlot_def transaction_def split: sum.splits)

lemma run_registerForSlot:
  assumes "fst codes \<notin> gs_id ` set (gd_sessions db)" "fresh_ids seatIds db"
  shows "game_tx\<^sup>*\<^sup>* db (snd (registerCartelaForSlot now codes seatIds id slotId u board db))"
proof -
  obtain r db1 where r: "resolveRegistrationSessionForSlot now codes slotId db = (r, db1)" by fastforce
  have 1: "game_tx\<^sup>*\<^sup>* db db1" using run_resolve [OF assms(1), of now slotId] r by simp
  have "fresh_ids seatIds db1"
    using fresh_ids_same [of db1 db seatIds] resolved_same [of now codes slotId db] r assms(2) by simp
  then show ?thesis
    using rtranclp_trans [OF 1 run_registerCartela] 1 r by (auto simp: registerCartelaForSlot_def split: sum.splits)
qed

lemma run_after_resolve:
  assumes "fst codes \<notin> gs_id ` set (gd_sessions db)" "\<And>sid d. game_tx\<^sup>*\<^sup>* d (snd (f sid d))"
  shows "game_tx\<^sup>*\<^sup>* db (snd (case resolveRegistrationSessionForSlot now codes slotId db of
    (Inl e, d) \<Rightarrow> (Inl e, d) | (Inr session, d) \<Rightarrow> f (gs_id session) d))"
proof -
  obtain r db1 where r: "resolveRegistrationSessionForSlot now codes slotId db = (r, db1)" by fastforce
  have 1: "game_tx\<^sup>*\<^sup>* db db1" using run_resolve [OF assms(1), of now slotId] r by simp
  then show ?thesis using rtranclp_trans [OF 1 assms(2)] r by (auto split: sum.splits)
qed

lemma run_reserveForSlot:
  "fst codes \<notin> gs_id ` set (gd_sessions db) \<Longrightarrow> game_tx\<^sup>*\<^sup>* db
     (snd (reserveCartelaForSlot now holdMs withinLimit codes newId preserve ms slotId u board db))"
  unfolding reserveCartelaForSlot_def by (erule run_after_resolve) (rule run_reserveCartela)

lemma run_reserveBulkForSlot:
  "fst codes \<notin> gs_id ` set (gd_sessions db) \<Longrightarrow> game_tx\<^sup>*\<^sup>* db
     (snd (reserveCartelasBulkForSlot now holdMs withinLimit codes holdIds slotId u boards db))"
  unfolding reserveCartelasBulkForSlot_def by (erule run_after_resolve) (rule run_reserveBulk)

lemma bulk_attempts_run:
  "bulk_attempts tries run db = Inr (r, db') \<Longrightarrow> run db = Inr (r, db')"
  by (induction tries run db rule: bulk_attempts.induct) (auto split: option.splits sum.splits if_splits)

lemma run_bulk_chunks:
  assumes "all_fresh sid idsOf K db" "\<forall>chunk\<in>set chunks. bi_cartelaId ` set chunk \<subseteq> K"
  shows "game_tx\<^sup>*\<^sup>* db (snd (bulk_chunks (registerCartelasBulkChunkWithRetry busy now idsOf sid u) chunks p db))"
  using assms
proof (induction chunks arbitrary: p db)
  case (Cons chunk chunks)
  let ?run = "registerCartelasBulkChunkWithRetry busy now idsOf sid u"
  have rest: "\<forall>chunk\<in>set chunks. bi_cartelaId ` set chunk \<subseteq> K" using Cons.prems(2) by simp
  show ?case
  proof (cases "bp_closed p")
    case (Some reason)
    then show ?thesis using Cons.IH [OF Cons.prems(1) rest] by simp
  next
    case None
    show ?thesis
    proof (cases "?run chunk db")
      case (Inl e)
      then show ?thesis
        using None Cons.IH [OF Cons.prems(1) rest] by (auto split: option.splits)
    next
      case (Inr q)
      obtain r db1 where q: "q = (r, db1)" by fastforce
      have tx: "bulk_tx now idsOf sid u chunk db = Inr (r, db1)"
        using Inr unfolding q registerCartelasBulkChunkWithRetry_def by (rule bulk_attempts_run)
      have sub: "bi_cartelaId ` set chunk \<subseteq> K" using Cons.prems(2) by simp
      have ids: "all_fresh sid idsOf (bi_cartelaId ` set chunk) db"
        by (rule all_fresh_subset [OF Cons.prems(1) sub])
      have 1: "game_tx db db1" by (rule game_tx.register_many [OF tx ids])
      obtain s slot cs where s: "getSessionForRegistrationWrite db sid = Some (s, slot)"
        "registers now s slot u idsOf db cs db1" "gc_cartelaId ` set cs \<subseteq> bi_cartelaId ` set chunk"
        using bulk_tx_registers [OF tx ids] by (elim exE conjE)
      have "all_fresh sid idsOf K db1"
        using all_fresh_registers [OF s(2)] session_for_write(3) [OF s(1)] Cons.prems(1) s(3) sub by auto
      then have "game_tx\<^sup>*\<^sup>* db1 (snd (bulk_chunks ?run chunks p' db1))" for p'
        by (rule Cons.IH [OF _ rest])
      then show ?thesis using None Inr q converse_rtranclp_into_rtranclp [where r = game_tx, OF 1] by simp
    qed
  qed
qed simp

lemma chunks_within:
  "chunk \<in> set (chunkCartelaItems items k) \<Longrightarrow> set chunk \<subseteq> set items"
proof (induction items k rule: chunkCartelaItems.induct)
  case (1 items k)
  show ?case
  proof (cases "items = [] \<or> k = 0")
    case False
    then have "chunk = take k items \<or> chunk \<in> set (chunkCartelaItems (drop k items) k)"
      using 1(2) by (subst (asm) chunkCartelaItems.simps) simp
    then show ?thesis using 1(1) [OF False] set_take_subset set_drop_subset by fastforce
  qed (use 1(2) in \<open>simp add: chunkCartelaItems.simps\<close>)
qed

lemma run_registerMany:
  assumes "fst codes \<notin> gs_id ` set (gd_sessions db)"
    and "inj_on (fst \<circ> idsOf) (bi_cartelaId ` set items)" "inj_on (snd \<circ> idsOf) (bi_cartelaId ` set items)"
    and "\<forall>i\<in>bi_cartelaId ` set items. fresh_ids (idsOf i) db"
  shows "game_tx\<^sup>*\<^sup>* db (snd (registerCartelasForSlotBulk busy now codes idsOf slotId u items db))"
proof -
  obtain r db1 where r: "resolveRegistrationSessionForSlot now codes slotId db = (r, db1)" by fastforce
  have 1: "game_tx\<^sup>*\<^sup>* db db1" using run_resolve [OF assms(1), of now slotId] r by simp
  have same: "fresh_ids ids db1 = fresh_ids ids db" for ids
    using fresh_ids_same [of db1 db ids] resolved_same [of now codes slotId db] r by simp
  have fresh: "all_fresh sid idsOf (bi_cartelaId ` set items) db1" for sid
    using assms(2-4) by (intro all_freshI) (auto simp: same)
  have "\<forall>chunk\<in>set (chunkCartelaItems items BULK_COMMIT_CHUNK_SIZE). bi_cartelaId ` set chunk \<subseteq> bi_cartelaId ` set items"
    using chunks_within by (intro ballI image_mono) blast
  then have 2: "game_tx\<^sup>*\<^sup>* db1 (snd (bulk_chunks (registerCartelasBulkChunkWithRetry busy now idsOf sid u)
      (chunkCartelaItems items BULK_COMMIT_CHUNK_SIZE) p db1))" for sid p
    by (rule run_bulk_chunks [OF fresh])
  have "snd (registerCartelasBulkInternal busy now idsOf sid u items db1) =
      (if MAX_BULK_CARTELAS_PER_REQUEST < length items then db1
       else snd (bulk_chunks (registerCartelasBulkChunkWithRetry busy now idsOf sid u)
         (chunkCartelaItems items BULK_COMMIT_CHUNK_SIZE) \<lparr>bp_successes = [], bp_failures = [], bp_closed = None\<rparr> db1))" for sid
    by (simp add: registerCartelasBulkInternal_def assertBulkCartelasWithinLimit_def split: prod.splits sum.splits)
  then have "game_tx\<^sup>*\<^sup>* db1 (snd (registerCartelasBulkInternal busy now idsOf sid u items db1))" for sid
    using 2 by simp
  then show ?thesis
    using rtranclp_trans [OF 1] 1 r by (auto simp: registerCartelasForSlotBulk_def split: sum.splits)
qed

lemma run_startAutoCall: "game_tx\<^sup>*\<^sup>* db (snd (startAutoCall cfg now draw sid immediately db))"
proof (cases "startAutoCall cfg now draw sid False db")
  case (Pair r db1)
  show ?thesis
  proof (cases r)
    case (Inl e)
    then have "snd (startAutoCall cfg now draw sid immediately db) = db"
      using Pair by (auto simp: startAutoCall_def Let_def update_session_def split: option.splits if_split_asm)
    then show ?thesis by simp
  next
    case (Inr first)
    have 1: "game_tx db db1" by (rule game_tx.auto_on [OF Pair [unfolded Inr]])
    have "snd (startAutoCall cfg now draw sid immediately db) \<in>
        {db1, snd (callRandomNumber cfg now draw (id, id) sid db1)}"
      using Pair Inr by (auto simp: startAutoCall_def Let_def split: option.splits if_split_asm sum.splits)
    then show ?thesis
      using 1 run_callRandomNumber [of db1 cfg now draw sid] by (metis converse_rtranclp_into_rtranclp insertE r_into_rtranclp singletonD)
  qed
qed

section \<open>The clock that starts games\<close>

lemma run_schedule: "game_tx\<^sup>*\<^sup>* db (snd (update_sessions now due (set_start t) db))"
  by (rule r_into_rtranclp, rule game_tx.schedule)

lemma scheduled_same:
  "gs_id ` set (gd_sessions (snd (update_sessions now due (set_start t) db))) = gs_id ` set (gd_sessions db)"
  by (simp add: table_simps set_start_def)

lemma run_repair: "game_tx\<^sup>*\<^sup>* db (snd (repairAllMissingAutoReadyCountdowns cfg now db))"
proof -
  obtain n db1 where 1: "repairBlockedExpiredReadyCountdowns now db = (n, db1)" by fastforce
  have run1: "game_tx\<^sup>*\<^sup>* db db1"
    using 1 run_schedule [of db now _ None] by (auto simp: repairBlockedExpiredReadyCountdowns_def split: if_splits) (metis snd_conv)
  have ensure: "game_tx\<^sup>*\<^sup>* db1 (snd (ensureAutoReadySessionHasCountdown cfg now sid db1))" for sid
    using run_schedule by (auto simp: ensureAutoReadySessionHasCountdown_def Let_def case_prod_beta)
  then have "game_tx\<^sup>*\<^sup>* db (snd (ensureAutoReadySessionHasCountdown cfg now sid db1))" for sid
    using rtranclp_trans [OF run1] by blast
  then show ?thesis
    using run1 by (auto simp: repairAllMissingAutoReadyCountdowns_def 1 Let_def case_prod_beta split: list.split)
qed

lemma run_retry: "game_tx\<^sup>*\<^sup>* db db' \<Longrightarrow> game_tx\<^sup>*\<^sup>* db (retry_start now sid db')"
  unfolding retry_start_def by (erule rtranclp_trans) (rule run_schedule)

text \<open>The identifiers a start may draw are new.\<close>

definition values_ready :: "start_values \<Rightarrow> game_db \<Rightarrow> bool" where
  "values_ready sv db \<longleftrightarrow>
     fst (sv_start sv) \<notin> gs_id ` set (gd_sessions db) \<and> fst (sv_deferred sv) \<notin> gs_id ` set (gd_sessions db) \<and>
     fst (sv_cancel sv) \<notin> gs_id ` set (gd_sessions db) \<and> fst (sv_deferred sv) \<noteq> fst (sv_start sv)"

lemma values_ready_scheduled [simp]:
  "values_ready sv (snd (update_sessions now due (set_start t) db)) = values_ready sv db"
  by (simp add: values_ready_def scheduled_same)

lemma run_start_due:
  assumes "values_ready sv db"
  shows "game_tx\<^sup>*\<^sup>* db (start_due_session cfg now sv sid slotId auto db)"
proof -
  obtain r db1 where g: "startGame cfg now (sv_lockFree sv) (sv_start sv) (sv_deferred sv) slotId no_config db = (r, db1)"
    by fastforce
  have run1: "game_tx\<^sup>*\<^sup>* db db1"
    using run_startGame [of "sv_start sv" db "sv_deferred sv" cfg now "sv_lockFree sv" slotId no_config] g assms
    by (simp add: values_ready_def)
  have run2: "game_tx\<^sup>*\<^sup>* db db2" if "update_session now started (set_interval ms) db1 = Inr db2" for started ms db2
    using that rtranclp.rtrancl_into_rtrancl [OF run1, of db2] game_tx.interval [of db1 now _ ms]
    by (auto simp: update_session_Inr)
  have run3: "game_tx\<^sup>*\<^sup>* db (snd (startAutoCall cfg now draw started True db2))" if "game_tx\<^sup>*\<^sup>* db db2" for draw started db2
    by (rule rtranclp_trans [OF that run_startAutoCall])
  show ?thesis
    using run1 run2 run3 run_retry [OF run1] run_retry [OF run3]
    by (auto simp: start_due_session_def g split: sum.split prod.split) (metis snd_conv)+
qed

lemma run_processDueSession:
  assumes "values_ready sv db"
  shows "game_tx\<^sup>*\<^sup>* db (snd (processDueSession cfg now sv (id, id) sid slotId db))"
proof -
  let ?db1 = "snd (claim_start now sid db)"
  have run1: "game_tx\<^sup>*\<^sup>* db ?db1" unfolding claim_start_def by (rule run_schedule)
  have v1: "values_ready sv ?db1" using assms by (simp add: claim_start_def)
  have go: "game_tx\<^sup>*\<^sup>* db (start_due_session cfg now sv sid slotId auto d)" if "game_tx\<^sup>*\<^sup>* db d" "values_ready sv d" for auto d
    by (rule rtranclp_trans [OF that(1) run_start_due [OF that(2)]])
  let ?opts = "\<lparr>co_requeueSlot = True, co_abortIfPlayersRegistered = True\<rparr>"
  let ?cancel = "cancelSession cfg now (sv_lockFree sv) (sv_cancel sv) (sv_refund sv) id sid No_Players ?opts ?db1"
  have cancelled: "game_tx\<^sup>*\<^sup>* db (snd ?cancel)" if "\<not> has_players ?db1 sid"
  proof -
    have "active_cartelas ?db1 sid = []"
      using that by (auto simp: has_players_def active_cartelas_def filter_empty_conv list_ex_iff)
    then have "ids_ready (sv_cancel sv) (sv_refund sv) (map fst (refundTotalsByUser (active_cartelas ?db1 sid))) ?db1"
      using v1 by (simp add: ids_ready_def values_ready_def refundTotalsByUser_def ids_free_def)
    then show ?thesis by (intro rtranclp_trans [OF run1] run_cancelSession)
  qed
  have aborted: "values_ready sv d" if "?cancel = (Inr Aborted, d)" for d
  proof -
    have "d = disableAutoCall now sid ?db1 \<or> d = ?db1"
      using that by (auto simp: cancelSession_def buildAlreadyCancelledResult_def Let_def
          split: option.splits if_splits sum.splits prod.splits cancel_stop.splits)
    moreover have "gs_id ` set (gd_sessions (disableAutoCall now sid ?db1)) = gs_id ` set (gd_sessions ?db1)"
      by (simp add: disableAutoCall_def table_simps)
    ultimately show ?thesis using v1 by (elim disjE) (simp_all add: values_ready_def)
  qed
  show ?thesis
  proof (cases "hasBlockingSession db \<or> fst (claim_start now sid db) \<noteq> 1")
    case True
    then show ?thesis using run1 by (auto simp: processDueSession_def Let_def case_prod_beta)
  next
    case False
    note unfold = processDueSession_def Let_def case_prod_beta
    show ?thesis
    proof (cases "find_session ?db1 sid")
      case None
      then show ?thesis using False run1 by (simp add: unfold)
    next
      case (Some session)
      note f = Some
      show ?thesis
      proof (cases "slot_of ?db1 session")
        case None
        then show ?thesis using False run1 f by (simp add: unfold)
      next
        case (Some slot)
        obtain r d where c: "?cancel = (r, d)" by fastforce
        show ?thesis
        proof (cases "has_players ?db1 sid")
          case True
          then show ?thesis using False f Some run1 go [OF run1 v1] by (simp add: unfold)
        next
          case none: False
          have run2: "game_tx\<^sup>*\<^sup>* db d" using cancelled [OF none] c by simp
          have go2: "game_tx\<^sup>*\<^sup>* db (start_due_session cfg now sv sid slotId auto d)" if "r = Inr Aborted" for auto
            by (rule go [OF run2 aborted]) (simp add: c that)
          show ?thesis
            using False f Some none run1 run2 go2 c by (simp add: unfold split: sum.split cancel_result.split)
        qed
      qed
    qed
  qed
qed

lemma run_process_due:
  "values_ready sv db \<Longrightarrow> game_tx\<^sup>*\<^sup>* db (snd (process_due cfg now sv due db))"
proof (induction cfg now sv due db rule: process_due.induct)
  case (2 cfg now sv sid slotId rest db)
  obtain r db1 where p: "processDueSession cfg now sv (id, id) sid slotId db = (r, db1)" by fastforce
  have run1: "game_tx\<^sup>*\<^sup>* db db1"
    using run_processDueSession [OF 2(2), of cfg now sid slotId] p by simp
  show ?case
  proof (cases "r = Inr False")
    case True
    then have "db1 = snd (claim_start now sid db)"
      using p by (auto simp: processDueSession_def Let_def case_prod_beta
          split: if_splits option.splits sum.splits prod.splits cancel_result.splits)
    then have "values_ready sv db1" using 2(2) by (simp add: claim_start_def)
    then have "game_tx\<^sup>*\<^sup>* db1 (snd (process_due cfg now sv rest db1))"
      using 2(1) [of "Inr False" db1 False] p True by simp
    then show ?thesis using rtranclp_trans [OF run1] p True by simp
  next
    case False
    then show ?thesis using run1 p by (auto split: sum.split)
  qed
qed simp

lemma repair_ready:
  "values_ready sv (snd (repairAllMissingAutoReadyCountdowns cfg now db)) = values_ready sv db"
proof -
  obtain n db1 where 1: "repairBlockedExpiredReadyCountdowns now db = (n, db1)" by fastforce
  have v1: "values_ready sv db1 = values_ready sv db"
    using 1 by (auto simp: repairBlockedExpiredReadyCountdowns_def split: if_splits) (metis snd_conv values_ready_scheduled)+
  have "values_ready sv (snd (ensureAutoReadySessionHasCountdown cfg now sid db1)) = values_ready sv db1" for sid
    by (simp add: ensureAutoReadySessionHasCountdown_def Let_def case_prod_beta)
  then show ?thesis
    using v1 by (simp add: repairAllMissingAutoReadyCountdowns_def 1 Let_def case_prod_beta split: list.split)
qed

text \<open>The identifier of the last registration is new when the due sessions are through.\<close>

lemma run_scheduler_tick:
  fixes cfg now sv codes db
  defines "db1 \<equiv> snd (repairAllMissingAutoReadyCountdowns cfg now db)"
  defines "db2 \<equiv> snd (process_due cfg now sv (map (\<lambda>s. (gs_id s, gs_slotId s)) (prioritizedDueSessions now db1)) db1)"
  assumes "values_ready sv db" "fst codes \<notin> gs_id ` set (gd_sessions db2)"
  shows "game_tx\<^sup>*\<^sup>* db (scheduler_tick cfg now sv codes db)"
proof -
  have run1: "game_tx\<^sup>*\<^sup>* db db1" unfolding db1_def by (rule run_repair)
  have "values_ready sv db1" using assms(3) by (simp add: db1_def repair_ready)
  then have run2: "game_tx\<^sup>*\<^sup>* db db2"
    unfolding db2_def by (intro rtranclp_trans [OF run1] run_process_due)
  have "game_tx\<^sup>*\<^sup>* db2 (snd (openNextAutoQueueRegistration cfg now (sv_lockFree sv) codes deferred_options db2))"
    unfolding openNextAutoQueueRegistration_def
    by (rule run_transaction, erule game_tx.open_next) (rule assms(4))
  then show ?thesis
    using run2 rtranclp_trans [OF run2] unfolding scheduler_tick_def Let_def db1_def [symmetric] db2_def
    by (auto split: sum.splits prod.splits)
qed

text \<open>One rule for each call.\<close>

inductive game_op :: "game_db \<Rightarrow> game_db \<Rightarrow> bool" where
  op_startGame: "fst codes \<notin> gs_id ` set (gd_sessions db) \<Longrightarrow>
    fst nextCodes \<notin> gs_id ` set (gd_sessions db) \<Longrightarrow> fst nextCodes \<noteq> fst codes \<Longrightarrow>
    game_op db (snd (startGame cfg now lockFree codes nextCodes slotId config db))"
| op_openNext: "fst codes \<notin> gs_id ` set (gd_sessions db) \<Longrightarrow>
    game_op db (snd (openNextAutoQueueRegistration cfg now lockFree codes options db))"
| op_callNumber: "1 \<le> number \<Longrightarrow> number \<le> 75 \<Longrightarrow>
    game_op db (snd (callNumber cfg now (id, id) sid letter number db))"
| op_callRandom: "game_op db (snd (callRandomNumber cfg now draw (id, id) sid db))"
| op_startAutoCall: "game_op db (snd (startAutoCall cfg now draw sid immediately db))"
| op_stopAutoCall: "game_op db (stopAutoCall now sid db)"
| op_processSession: "game_op db (processSession cfg now draw id sid interval db)"
| op_noWinner: "fst codes \<notin> gs_id ` set (gd_sessions db) \<Longrightarrow>
    game_op db (snd (finalizeNoWinner cfg now lockFree codes sid db))"
| op_claimBingo: "newId \<notin> bc_id ` set (gd_claims db) \<Longrightarrow>
    game_op db (snd (claimBingo cfg now newId id sid u cid db))"
| op_finalize: "ids_ready codes newIds (map gc_id (session_winners db sid)) db \<Longrightarrow>
    game_op db (snd (finalizeWinnerWindow cfg now lockFree codes newIds sid db))"
| op_finalizeEarly: "ids_ready codes newIds (map gc_id (session_winners db sid)) db \<Longrightarrow>
    game_op db (snd (finalizeWinnerWindowEarly cfg now lockFree codes newIds sid db))"
| op_approve: "newId \<notin> ledger_ids (gd_wallet db) \<Longrightarrow> fst codes \<notin> gs_id ` set (gd_sessions db) \<Longrightarrow>
    game_op db (snd (approveClaim cfg now lockFree codes newId claimId db))"
| op_reject: "game_op db (snd (rejectClaim now claimId reason db))"
| op_cancel: "ids_ready codes newIds (map fst (refundTotalsByUser (active_cartelas db sid))) db \<Longrightarrow>
    game_op db (snd (cancelSession cfg now lockFree codes newIds id sid cause options db))"
| op_register: "fresh_ids seatIds db \<Longrightarrow> game_op db (snd (registerCartela now seatIds id sid u board db))"
| op_registerForSlot: "fst codes \<notin> gs_id ` set (gd_sessions db) \<Longrightarrow> fresh_ids seatIds db \<Longrightarrow>
    game_op db (snd (registerCartelaForSlot now codes seatIds id slotId u board db))"
| op_registerMany: "fst codes \<notin> gs_id ` set (gd_sessions db) \<Longrightarrow>
    inj_on (fst \<circ> idsOf) (bi_cartelaId ` set items) \<Longrightarrow> inj_on (snd \<circ> idsOf) (bi_cartelaId ` set items) \<Longrightarrow>
    \<forall>i\<in>bi_cartelaId ` set items. fresh_ids (idsOf i) db \<Longrightarrow>
    game_op db (snd (registerCartelasForSlotBulk busy now codes idsOf slotId u items db))"
| op_confirm: "fresh_ids seatIds db \<Longrightarrow>
    game_op db (snd (confirmReservation now withinLimit seatIds rid u db))"
| op_reserve: "game_op db (snd (reserveCartela now holdMs withinLimit newId preserve ms sid u board db))"
| op_reserveMany: "game_op db (snd (reserveCartelasBulk now holdMs withinLimit holdIds sid u boards db))"
| op_reserveForSlot: "fst codes \<notin> gs_id ` set (gd_sessions db) \<Longrightarrow>
    game_op db (snd (reserveCartelaForSlot now holdMs withinLimit codes newId preserve ms slotId u board db))"
| op_reserveManyForSlot: "fst codes \<notin> gs_id ` set (gd_sessions db) \<Longrightarrow>
    game_op db (snd (reserveCartelasBulkForSlot now holdMs withinLimit codes holdIds slotId u boards db))"
| op_cancelReservation: "game_op db (snd (cancelReservation withinLimit rid u db))"
| op_expire: "game_op db (expireDueReservations now id db)"
| op_due: "values_ready sv db \<Longrightarrow> game_op db (snd (processDueSession cfg now sv (id, id) sid slotId db))"
| op_scheduler: "values_ready sv db \<Longrightarrow>
    fst codes \<notin> gs_id ` set (gd_sessions (snd (process_due cfg now sv
      (map (\<lambda>s. (gs_id s, gs_slotId s))
        (prioritizedDueSessions now (snd (repairAllMissingAutoReadyCountdowns cfg now db))))
      (snd (repairAllMissingAutoReadyCountdowns cfg now db))))) \<Longrightarrow>
    game_op db (scheduler_tick cfg now sv codes db)"

lemma game_op_run: "game_op db db' \<Longrightarrow> game_tx\<^sup>*\<^sup>* db db'"
proof (induction rule: game_op.induct)
  case (op_openNext codes db cfg now lockFree options)
  then show ?case
    unfolding openNextAutoQueueRegistration_def by (intro run_transaction) (auto intro: game_tx.open_next)
next
  case (op_stopAutoCall now sid db)
  show ?case unfolding stopAutoCall_def by (rule r_into_rtranclp, rule game_tx.auto_off)
next
  case (op_noWinner codes db cfg now lockFree sid)
  then show ?case unfolding finalizeNoWinner_def by (intro run_transaction) (auto intro: game_tx.no_winner)
next
  case (op_approve newId db codes cfg now lockFree claimId)
  then show ?case unfolding approveClaim_def by (intro run_transaction) (auto intro: game_tx.approve)
next
  case (op_reject db now claimId reason)
  show ?case unfolding rejectClaim_def by (intro run_transaction) (auto intro: game_tx.reject)
qed (assumption | rule run_startGame run_callNumber run_callRandomNumber run_startAutoCall run_processSession
      run_claimBingo run_finalizeWinnerWindow run_finalizeEarly run_cancelSession
      run_registerCartela run_registerForSlot run_registerMany run_confirmReservation run_reserveCartela
      run_reserveBulk run_reserveForSlot run_reserveBulkForSlot run_cancelReservation run_expireDueReservations
      run_processDueSession run_scheduler_tick)+

end
