(* ===== verification/GameOutcomes.thy ===== *)
theory GameOutcomes
  imports GameRuns
begin

text \<open>
  What the calls achieve: a window that is due closes, a claim is decided by its verdict, a
  cancellation refunds, the automatic caller calls every number; and a prize below one cent a
  winner is never paid.
\<close>

section \<open>Credits that succeed\<close>

definition can_receive :: "wallet_db \<Rightarrow> string \<Rightarrow> bool" where
  "can_receive w u \<longleftrightarrow> u \<in> db_users w \<and> db_wallets w u \<noteq> None"

lemma credit_succeeds:
  assumes "0 < amount" "can_receive w u" "newId \<notin> ledger_ids w"
    and "js_trim (me_referenceType meta) \<noteq> []" "js_trim (me_referenceId meta) \<noteq> []"
  shows "\<exists>r w'. creditWallet newId id w u amount meta = (Inr r, w') \<and>
    (\<forall>v. can_receive w' v = can_receive w v) \<and> ledger_ids w' \<subseteq> insert newId (ledger_ids w)"
proof -
  let ?p = "with_meta meta u amount CREDIT AVAILABLE"
  have valid: "valid_params ?p" using assms(1,4,5) by simp
  obtain row where row: "db_wallets w u = Some row" using assms(2) by (auto simp: can_receive_def)
  show ?thesis
  proof (cases "params_key ?p \<in> posted w")
    case True
    obtain x :: ledger_row where "applyWalletMutation newId id w ?p = already_applied w u (wt_id x)"
      using applyWalletMutation_repeated [OF valid True, of newId id] unfolding with_meta_sel by blast
    then show ?thesis
      using row by (auto simp: creditWallet_def map_outcome_def already_applied_def getWalletOrThrow_def)
  next
    case False
    let ?row' = "set_balances (wa_balance row + amount, wa_lockedBalance row) row"
    have user: "mp_userId ?p = u" by simp
    have into: "intended_on ?p row = Some ?row'" by (simp add: intended_on_def balances_def)
    have "applyWalletMutation newId id w ?p =
        (Inr \<lparr>mr_applied = True, mr_ledgerId = newId, mr_wallet = ?row'\<rparr>,
         w\<lparr>db_wallets := (db_wallets w)(u \<mapsto> ?row'),
           db_ledger := db_ledger w @ [ledger_entry newId ?p (wa_balance row) (wa_balance ?row')]\<rparr>)"
      using assms(2) unfolding applyWalletMutation_posting [where others = id, OF valid False False assms(3) id_apply [symmetric]] user
      by (simp only: row into option.case can_receive_def simp_thms if_False)
    then show ?thesis
      by (simp add: creditWallet_def map_outcome_def can_receive_def ledger_ids_def ledger_entry_def)
        (use row in auto)
  qed
qed

lemma prize_reference: "js_trim (me_referenceType (prize_meta s cid)) \<noteq> []"
  using card_reference by (simp add: prize_meta_def)

lemma credit_winners_succeeds:
  assumes "\<forall>(c, share)\<in>set ws. 0 < share \<and> can_receive (gd_wallet db) (gc_userId c) \<and> js_trim (gc_id c) \<noteq> []"
    and "ids_free newId (map (\<lambda>(c, _). gc_id c) ws) (gd_wallet db)"
  shows "\<exists>w. credit_winners newId s ws db = Inr (db\<lparr>gd_wallet := w\<rparr>)"
  using assms
proof (induction ws arbitrary: db)
  case Nil
  then show ?case by (intro exI [of _ "gd_wallet db"]) simp
next
  case (Cons p ws)
  obtain c share where p: "p = (c, share)" by (cases p)
  have fresh: "newId (gc_id c) \<notin> ledger_ids (gd_wallet db)" using Cons.prems(2) by (simp add: p ids_free_def)
  have a: "0 < share" "can_receive (gd_wallet db) (gc_userId c)" "js_trim (gc_id c) \<noteq> []"
    using Cons.prems(1) by (simp_all add: p)
  have ref: "js_trim (me_referenceId (prize_meta s (gc_id c))) \<noteq> []" using a(3) by (simp add: prize_meta_def)
  obtain r w where w: "creditWallet (newId (gc_id c)) id (gd_wallet db) (gc_userId c) share (prize_meta s (gc_id c)) = (Inr r, w)"
    "\<forall>v. can_receive w v = can_receive (gd_wallet db) v" "ledger_ids w \<subseteq> insert (newId (gc_id c)) (ledger_ids (gd_wallet db))"
    using credit_succeeds [OF a(1,2) fresh prize_reference ref] by blast
  let ?d = "db\<lparr>gd_wallet := w\<rparr>"
  have "ids_free newId (map (\<lambda>(c, _). gc_id c) ws) (gd_wallet ?d)"
    using ids_free_Cons [OF Cons.prems(2) [unfolded p list.map prod.case] w(3)] by simp
  moreover have "\<forall>(c, share)\<in>set ws. 0 < share \<and> can_receive (gd_wallet ?d) (gc_userId c) \<and> js_trim (gc_id c) \<noteq> []"
    using Cons.prems(1) w(2) by simp
  ultimately obtain w' where "credit_winners newId s ws ?d = Inr (?d\<lparr>gd_wallet := w'\<rparr>)"
    using Cons.IH [of ?d] by blast
  then have "credit_winners newId s (p # ws) db = Inr (db\<lparr>gd_wallet := w'\<rparr>)"
    using w(1) by (simp add: p wallet_tx_def)
  then show ?case by blast
qed

lemma credit_winners_positive:
  "credit_winners newId s ws db = Inr db' \<Longrightarrow> \<forall>(c, share)\<in>set ws. 0 < share"
proof (induction ws arbitrary: db)
  case (Cons p ws)
  obtain c share where p: "p = (c, share)" by (cases p)
  obtain r db1 where 1: "wallet_tx (\<lambda>w. creditWallet (newId (gc_id c)) id w (gc_userId c) share (prize_meta s (gc_id c))) db = Inr (r, db1)"
    "credit_winners newId s ws db1 = Inr db'"
    using Cons.prems by (auto simp: p bind_result_eq_Inr_iff)
  have "0 < share"
  proof (rule ccontr)
    assume "\<not> 0 < share"
    then have "\<exists>e. creditWallet (newId (gc_id c)) id (gd_wallet db) (gc_userId c) share (prize_meta s (gc_id c)) = (Inl e, gd_wallet db)"
      by (simp add: creditWallet_def map_outcome_def applyWalletMutation_def assertPositiveAmount_def)
    then show False using 1(1) by (auto simp: wallet_tx_def)
  qed
  then show ?case using Cons.IH [OF 1(2)] by (simp add: p)
qed simp

section \<open>A window that is due closes\<close>

lemma update_slot_succeeds: "sid \<in> sl_id ` set (gd_slots db) \<Longrightarrow> \<exists>db'. update_slot sid f db = Inr db'"
  by (force simp: update_slot_def find_slot_def find_None_iff)

lemma restoreSlot_succeeds:
  "sid \<in> sl_id ` set (gd_slots db) \<Longrightarrow> \<exists>r db'. restoreSlotAfterSession sid db = Inr (r, db')"
  using update_slot_succeeds [of sid db "\<lambda>s. s\<lparr>sl_status := CANCELLED\<rparr>"]
    update_slot_succeeds [of sid db "\<lambda>s. s\<lparr>sl_status := NEXT, sl_sortOrder := Some (max_sort_order db + 1)\<rparr>"]
  by (auto simp: restoreSlotAfterSession_def moveSlotToBack_def)

text \<open>A share is at least a cent when the prize has a cent for every winner.\<close>

lemma split_positive:
  assumes "of_int n \<le> amount * 100" "0 < n" "splitPrizeAmount amount n = Inr shares"
  shows "\<forall>share\<in>set shares. 0 < share"
proof -
  let ?t = "\<lfloor>amount * 100\<rfloor>"
  have "n \<le> ?t" using assms(1) by (simp add: le_floor_iff)
  then have "0 < ?t div n" using assms(2) by (simp add: pos_imp_zdiv_pos_iff)
  moreover have "0 \<le> amount * 100" using assms(1,2) by (meson le_less_trans less_imp_le of_int_0_le_iff order_trans)
  then have "0 \<le> amount" by simp
  ultimately show ?thesis
    using splitPrizeAmount_eq [of amount n] assms(2,3) by auto
qed

lemma split_zero:
  assumes "0 \<le> amount" "amount * 100 < of_int n" "0 < n" "splitPrizeAmount amount n = Inr shares"
  shows "0 \<in> set shares"
proof -
  let ?t = "\<lfloor>amount * 100\<rfloor>"
  have t: "0 \<le> ?t" "?t < n" using assms(1,2) by (simp_all add: floor_less_iff)
  then have trivial: "?t div n = 0" "?t mod n = ?t" by (rule div_pos_pos_trivial, rule mod_pos_pos_trivial)
  have "shares = map (\<lambda>i. of_int (?t div n + (if i < ?t mod n then 1 else 0)) / 100) [0..n - 1]"
    using splitPrizeAmount_eq [OF assms(1,3)] assms(4) by (simp only: sum.inject)
  then have shares: "shares = map (\<lambda>i. of_int (if i < ?t then 1 else 0) / 100) [0..n - 1]"
    unfolding trivial by simp
  have mem: "n - 1 \<in> set [0..n - 1]" using assms(3) by simp
  have "0 = (of_int (if n - 1 < ?t then 1 else 0) / 100 :: rat)" using t by simp
  then show ?thesis unfolding shares set_map by (rule image_eqI) (rule mem)
qed

lemma finalize_closes:
  assumes "game_ok db" "s0 \<in> set (gd_sessions db)" "gs_id s0 = sid"
    and "window_due (now - tc_winnerWindowClaimGraceMs cfg) s0"
    and "of_nat (length (session_winners db sid)) \<le> gs_prizeAmount s0 * 100"
    and "\<forall>c\<in>set (session_winners db sid). can_receive (gd_wallet db) (gc_userId c) \<and> js_trim (gc_id c) \<noteq> []"
    and "ids_free newIds (map gc_id (session_winners db sid)) (gd_wallet db)"
  shows "\<exists>users db'. finalize_tx cfg now lockFree codes newIds sid db = Inr (Some users, db')"
proof -
  let ?after = "now - tc_winnerWindowClaimGraceMs cfg" and ?winners = "session_winners db sid"
  let ?P = "\<lambda>s. gs_id s = sid \<and> window_due ?after s"
  let ?Q = "\<lambda>s. gs_id s = sid \<and> gs_status s = WINNER_WINDOW \<and> gs_prizeFinalizedAt s \<noteq> None \<and> gs_winnerCartelaId s = None"
  note keys = game_okD(1) [OF assms(1)]
  define d1 where "d1 = finalize_lock now ?after sid db"
  let ?s1 = "s0\<lparr>gs_prizeFinalizedAt := Some now, gs_updatedAt := now\<rparr>"
  have ok: "session_ok s0 (cartelas_of db sid) (claims_of db sid) (paid db)"
    using session_okI [OF game_okD(2) [OF assms(1)] assms(2)] assms(3) by simp
  have st: "gs_status s0 = WINNER_WINDOW" using assms(4) by (simp add: window_due_def)
  have winners: "?winners = filter gc_isWinner (cartelas_of db sid)" by (rule session_winners_eq [OF ok])
  then have some: "?winners \<noteq> []" using ok st by (auto simp: session_ok_def filter_empty_conv)
  have one: "count_where R xs = 1" if "\<exists>x\<in>set xs. R x" "distinct (map gs_id xs)" "\<And>x. R x \<Longrightarrow> gs_id x = sid" for R xs
  proof -
    have "0 < count_where R xs" using that(1) by (auto simp: count_where_pos)
    then show ?thesis using count_where_key [OF that(2), of R sid] that(3) by simp
  qed
  have n1: "fst (update_sessions now ?P f db) = 1" for f
    using one [of "gd_sessions db" ?P] assms(2-4) keys_okD(2) [OF keys] by (auto simp: update_sessions_def)
  have s1: "?s1 \<in> set (gd_sessions d1)"
    unfolding d1_def finalize_lock_def by (rule updated_session) (use assms(2-4) in simp_all)
  have dist: "distinct (map gs_id (gd_sessions d1))"
    using keys_okD(2) [OF keys] by (simp add: d1_def finalize_lock_def update_sessions_def map_update_where)
  have f: "find_session d1 sid = Some ?s1"
    using find_key [of gs_id, OF dist s1] assms(3) by (simp add: find_session_def)
  have w: "session_winners d1 sid = ?winners" "gd_wallet d1 = gd_wallet db" "gd_slots d1 = gd_slots db"
    by (simp_all add: session_winners_def d1_def finalize_lock_def table_simps)
  have pos: "0 < int (length ?winners)" using some by simp
  obtain shares where sh: "splitPrizeAmount (gs_prizeAmount s0) (int (length ?winners)) = Inr shares"
    using split_defined [OF pos] by blast
  have len: "length ?winners = length shares" using split_length [OF sh] by simp
  have "\<forall>share\<in>set shares. 0 < share" using split_positive [OF _ pos sh] assms(5) by simp
  then have each: "\<forall>(c, share)\<in>set (zip ?winners shares). 0 < share \<and> can_receive (gd_wallet d1) (gc_userId c) \<and> js_trim (gc_id c) \<noteq> []"
    using assms(6) by (auto simp: w dest: set_zip_leftD set_zip_rightD)
  obtain w2 where w2: "credit_winners newIds ?s1 (zip ?winners shares) d1 = Inr (d1\<lparr>gd_wallet := w2\<rparr>)"
    using credit_winners_succeeds [OF each] assms(7) by (auto simp: zip_fst [OF len] w)
  let ?d2 = "d1\<lparr>gd_wallet := w2\<rparr>"
  have "gs_winnerCartelaId s0 = None" using ok st by (auto simp: session_ok_def)
  then have "\<exists>x\<in>set (gd_sessions d1). ?Q x" using assms(3) st by (intro bexI [OF _ s1]) simp
  then have n2: "fst (update_sessions now ?Q f ?d2) = 1" for f
    using one [of "gd_sessions d1" ?Q] dist by (simp add: update_sessions_def)
  have "gs_slotId s0 \<in> sl_id ` set (gd_slots (snd (update_sessions now ?Q f ?d2)))" for f
    using keys_okD(5) [OF keys] assms(2) by (auto simp: table_simps w)
  from restoreSlot_succeeds [OF this] obtain slotted d4 where
    r: "restoreSlotAfterSession (gs_slotId s0) (finalize_finish now sid (gc_id (hd ?winners)) ?d2) = Inr (slotted, d4)"
    unfolding finalize_finish_def by blast
  show ?thesis
    using n1 n2 f w sh w2 r [unfolded finalize_finish_def] some
    by (simp add: finalize_tx_def Let_def case_prod_beta d1_def [symmetric] finalize_lock_def [symmetric])
qed

text \<open>The scheduler finds one window at most, and closes it.\<close>

lemma filter_single:
  assumes "distinct xs" "s \<in> set xs" "P s" "\<And>x. x \<in> set xs \<Longrightarrow> P x \<Longrightarrow> x = s"
  shows "filter P xs = [s]"
proof -
  have set: "set (filter P xs) = {s}" unfolding set_filter using assms(2-4) by blast
  have dist: "distinct (filter P xs)" using assms(1) by simp
  obtain ys where ys: "filter P xs = s # ys" using set by (cases "filter P xs") auto
  have "set ys \<subseteq> {s}" "s \<notin> set ys" using set dist unfolding ys by auto
  then have "ys = []" by (cases ys) auto
  then show ?thesis using ys by simp
qed

lemma sort_by_single: "sort_by cmp [x] = [x]"
  by (simp add: sort_by_def)

lemma finalizer_tick_single:
  assumes "game_ok db" "s0 \<in> set (gd_sessions db)" "window_due now s0"
  shows "finalizer_tick cfg now lockFree codes newIds db =
    snd (finalizeWinnerWindow cfg now lockFree (codes (gs_id s0)) newIds (gs_id s0) db)"
proof -
  note keys = game_okD(1) [OF assms(1)]
  have "filter (window_due now) (gd_sessions db) = [s0]"
  proof (rule filter_single [where P = "window_due now", OF _ assms(2,3)])
    show "distinct (gd_sessions db)" using keys_okD(2) [OF keys] by (simp add: distinct_map)
    show "x = s0" if "x \<in> set (gd_sessions db)" "window_due now x" for x
    proof -
      have "gs_id x = gs_id s0"
        using game_okD(3) [OF assms(1)] that assms(2,3) unfolding one_live_def window_due_def live_def by blast
      then show ?thesis using session_unique [OF keys that(1) assms(2)] by simp
    qed
  qed
  then show ?thesis unfolding finalizer_tick_def by (simp only: sort_by_single fold_simps)
qed

section \<open>A prize of less than a cent for each winner\<close>

lemma finalize_stuck:
  assumes "game_ok db" "s0 \<in> set (gd_sessions db)" "gs_id s0 = sid"
    and "0 \<le> gs_prizeAmount s0" "gs_prizeAmount s0 * 100 < of_nat (length (session_winners db sid))"
  shows "snd (finalizeWinnerWindow cfg now lockFree codes newIds sid db) = db \<and>
    fst (finalizeWinnerWindow cfg now lockFree codes newIds sid db) \<noteq> Inr (Some users)"
proof (cases "finalize_tx cfg now lockFree codes newIds sid db")
  case (Inr p)
  obtain r db' where p: "p = (r, db')" by fastforce
  note keys = game_okD(1) [OF assms(1)]
  have "r = None \<and> db' = db"
  proof (cases rule: finalize_cases [OF Inr [unfolded p] keys])
    case (2 s1 shares db2 db4 slotted)
    have "s1 = s0" using session_unique [OF keys 2(1) assms(2)] 2(2) assms(3) by simp
    then have "0 \<in> set shares"
      using split_zero [OF assms(4) _ _ 2(5) [unfolded \<open>s1 = s0\<close>]] assms(5) 2(4) by simp
    then obtain i where "i < length shares" "shares ! i = 0" by (metis in_set_conv_nth)
    then have "(session_winners db sid ! i, 0) \<in> set (zip (session_winners db sid) shares)"
      using split_length [OF 2(5)] by (force simp: set_zip)
    then show ?thesis using credit_winners_positive [OF 2(6)] by fastforce
  qed simp
  then show ?thesis by (simp add: finalizeWinnerWindow_def transaction_def Inr p)
qed (simp add: finalizeWinnerWindow_def transaction_def)

section \<open>A claim is decided by its verdict\<close>

lemma in_update_cartelas:
  "c \<in> set (gd_cartelas (snd (update_cartelas P f db))) \<longleftrightarrow>
   (\<exists>x\<in>set (gd_cartelas db). c = (if P x then f x else x))"
  by (simp add: update_cartelas_def in_update_where)

lemma called_numbers_pause [table_simps]:
  "called_numbers (snd (pause_auto_call now cc db)) sid = called_numbers db sid"
  by (simp add: called_numbers_def called_rows_def pause_auto_call_def Let_def table_simps)

lemma claim_verdict_pause [table_simps]:
  "claim_verdict cc key (snd (pause_auto_call now cc db)) = claim_verdict cc key db"
  by (simp add: claim_verdict_def table_simps)

lemma still_there:
  assumes "s0 \<in> set (gd_sessions db)" "\<And>s. gs_id (f s) = gs_id s \<and> gs_status (f s) = gs_status s"
  shows "\<exists>s\<in>set (gd_sessions (snd (update_sessions now P f db))). gs_id s = gs_id s0 \<and> gs_status s = gs_status s0"
proof -
  have "(if P s0 then (f s0)\<lparr>gs_updatedAt := now\<rparr> else s0) \<in> set (gd_sessions (snd (update_sessions now P f db)))"
    unfolding in_update_sessions using assms(1) by blast
  moreover have "gs_id (if P s0 then (f s0)\<lparr>gs_updatedAt := now\<rparr> else s0) = gs_id s0 \<and>
      gs_status (if P s0 then (f s0)\<lparr>gs_updatedAt := now\<rparr> else s0) = gs_status s0"
    using assms(2) [of s0] by simp
  ultimately show ?thesis by blast
qed

lemma one_cartela:
  assumes "keys_ok db" "c \<in> set (gd_cartelas db)" "P c" "\<And>x. P x \<Longrightarrow> gc_id x = gc_id c"
  shows "fst (update_cartelas P f db) = 1"
proof -
  have "0 < count_where P (gd_cartelas db)" using assms(2,3) by (auto simp: count_where_pos)
  moreover have "count_where P (gd_cartelas db) \<le> 1"
    by (rule count_where_key [OF keys_okD(3) [OF assms(1)] assms(4)])
  ultimately show ?thesis by (simp add: update_cartelas_def)
qed

definition claim_decided ::
  "timing_config \<Rightarrow> int \<Rightarrow> bool \<Rightarrow> string \<Rightarrow> string \<Rightarrow> game_db \<Rightarrow> claim_answer \<Rightarrow> game_db \<Rightarrow> bool" where
  "claim_decided cfg now wins sid cid db answer db' \<longleftrightarrow>
     an_isWinner answer = wins \<and> gd_claims db' = gd_claims db @ [an_claim answer] \<and>
     bc_gameCartelaId (an_claim answer) = cid \<and>
     bc_status (an_claim answer) = (if wins then VALID else INVALID) \<and>
     (\<exists>c\<in>set (gd_cartelas db'). gc_id c = cid \<and> gc_status c = (if wins then WINNER else BLOCKED)) \<and>
     (\<exists>s\<in>set (gd_sessions db'). gs_id s = sid \<and>
        gs_status s = (if wins then WINNER_WINDOW else PLAYING) \<and>
        (wins \<longrightarrow> gs_winnerWindowEndsAt s = Some (now + tc_winnerWindowSeconds cfg * 1000)))"

lemma invalid_decided:
  assumes "game_ok db" "loaded db cc s0" "gs_status s0 = PLAYING" "gc_status (cc_cartela cc) = REGISTERED"
  shows "\<exists>answer db'. createAutoInvalidClaim now newId cc u key code pat dflt rest had ball db = Inr (answer, db') \<and>
    claim_decided cfg now False (gs_id s0) (gc_id (cc_cartela cc)) db answer db'"
proof -
  let ?c = "cc_cartela cc" and ?P = "\<lambda>x. gc_id x = gc_id (cc_cartela cc) \<and> gc_status x = REGISTERED"
  let ?g = "\<lambda>x. x\<lparr>gc_status := BLOCKED, gc_blockedAt := Some now\<rparr>"
  have c: "?c \<in> set (gd_cartelas db)" and s0: "s0 \<in> set (gd_sessions db)" using assms(2) by (simp_all add: loaded_def)
  have n: "fst (update_cartelas ?P ?g db) = 1"
    by (rule one_cartela [OF game_okD(1) [OF assms(1)] c]) (use assms(4) in simp_all)
  have c': "?g ?c \<in> set (gd_cartelas (snd (update_cartelas ?P ?g db)))"
    unfolding in_update_cartelas using c assms(4) by (intro bexI [of _ ?c]) simp_all
  define db2 where "db2 = create_claim (claim_of newId cc u INVALID (if pat = [] then key else pat)
      (Some (AUTO_INVALID_REASONS code)) (Some code) ball (Some now)) (snd (update_cartelas ?P ?g db))"
  obtain answer db' where r: "createAutoInvalidClaim now newId cc u key code pat dflt rest had ball db = Inr (answer, db')"
    "an_isWinner answer = False" "an_claim answer = claim_of newId cc u INVALID (if pat = [] then key else pat)
      (Some (AUTO_INVALID_REASONS code)) (Some code) ball (Some now)"
    "db' = db2 \<or> (\<exists>resume. db' = snd (update_sessions now
        (\<lambda>s. gs_id s = gc_sessionId ?c \<and> gs_status s = PLAYING \<and> gs_autoCallEnabled s)
        (\<lambda>s. s\<lparr>gs_nextAutoCallAt := Some resume\<rparr>) db2))"
    using n by (cases "gs_autoCallEnabled (cc_session cc) \<and> gs_status (cc_session cc) = PLAYING")
      (auto simp: createAutoInvalidClaim_def Let_def case_prod_beta db2_def)
  have "s0 \<in> set (gd_sessions db2)" using s0 by (simp add: db2_def table_simps)
  then have "\<exists>s\<in>set (gd_sessions db'). gs_id s = gs_id s0 \<and> gs_status s = PLAYING"
    using r(4) assms(3) still_there [of s0 db2] by fastforce
  moreover have "gd_claims db' = gd_claims db @ [an_claim answer]" "gd_cartelas db' = gd_cartelas (snd (update_cartelas ?P ?g db))"
    using r(3,4) by (auto simp: db2_def table_simps)
  ultimately have "claim_decided cfg now False (gs_id s0) (gc_id ?c) db answer db'"
    using r(2,3) bexI [OF _ c'] unfolding claim_decided_def by simp
  then show ?thesis using r(1) by blast
qed

lemma valid_decided:
  assumes "game_ok db" "loaded db cc s0" "gs_status s0 = PLAYING" "gc_status (cc_cartela cc) = REGISTERED"
  shows "\<exists>answer db'. createAutoValidOpenOrJoinWindowClaim now newId cc u pat prog
      (tc_winnerWindowSeconds cfg * 1000) shown grace ball db = Inr (answer, db') \<and>
    claim_decided cfg now True (gs_id s0) (gc_id (cc_cartela cc)) db answer db'"
proof -
  let ?c = "cc_cartela cc" and ?ends = "now + tc_winnerWindowSeconds cfg * 1000"
  let ?P = "\<lambda>x. gc_id x = gc_id (cc_cartela cc) \<and> gc_status x = REGISTERED \<and> \<not> gc_isWinner x"
  let ?g = "\<lambda>x. x\<lparr>gc_status := WINNER, gc_isWinner := True, gc_blockedAt := None\<rparr>"
  let ?R = "\<lambda>s. gs_id s = gc_sessionId (cc_cartela cc) \<and> gs_status s = PLAYING"
  let ?f = "\<lambda>s. s\<lparr>gs_status := WINNER_WINDOW, gs_winnerWindowStartedAt := Some now,
      gs_winnerWindowEndsAt := Some (now + tc_winnerWindowSeconds cfg * 1000), gs_autoCallEnabled := False,
      gs_nextAutoCallAt := None, gs_noWinnerGraceEndsAt := None, gs_noWinnerReason := None\<rparr>"
  have c: "?c \<in> set (gd_cartelas db)" and s0: "s0 \<in> set (gd_sessions db)" "gs_id s0 = gc_sessionId ?c"
    using assms(2) by (simp_all add: loaded_def)
  define d1 where "d1 = snd (update_sessions now ?R ?f db)"
  have o: "fst (update_sessions now ?R ?f db) \<noteq> 0"
    using count_where_zero [of ?R "gd_sessions db"] s0 assms(3) by (auto simp: update_sessions_def)
  have "session_ok s0 (cartelas_of db (gs_id s0)) (claims_of db (gs_id s0)) (paid db)"
    by (rule session_okI [OF game_okD(2) [OF assms(1)] s0(1)])
  then have "\<not> gc_isWinner ?c" using c s0(2) assms(4) by (auto simp: session_ok_def cartela_ok_def cartelas_of_def)
  then have P: "?P ?c" using assms(4) by simp
  have "fst (update_cartelas ?P ?g db) = 1" by (rule one_cartela [where P = ?P, OF game_okD(1) [OF assms(1)] c P]) simp
  then have m: "fst (mark_winner (gc_id ?c) d1) = 1"
    by (simp add: mark_winner_def update_cartelas_def d1_def table_simps)
  let ?k = "claim_of newId cc u VALID pat None None ball (Some now)"
  let ?db' = "create_claim ?k (snd (mark_winner (gc_id ?c) d1))"
  have r: "createAutoValidOpenOrJoinWindowClaim now newId cc u pat prog (tc_winnerWindowSeconds cfg * 1000) shown grace ball db =
      Inr (valid_answer Auto_Valid_Open ?k prog ?ends shown, ?db')"
    using o m by (simp add: createAutoValidOpenOrJoinWindowClaim_def Let_def case_prod_beta d1_def)
  have "?g ?c \<in> set (gd_cartelas (snd (update_cartelas ?P ?g d1)))"
    unfolding in_update_cartelas using c P by (intro bexI [of _ ?c]) (simp_all add: d1_def table_simps)
  then have c': "?g ?c \<in> set (gd_cartelas ?db')" by (simp add: mark_winner_def table_simps)
  have "(?f s0)\<lparr>gs_updatedAt := now\<rparr> \<in> set (gd_sessions d1)"
    unfolding d1_def by (rule updated_session) (use s0 assms(3) in simp_all)
  then have s': "(?f s0)\<lparr>gs_updatedAt := now\<rparr> \<in> set (gd_sessions ?db')" by (simp add: mark_winner_def table_simps)
  have "gd_claims ?db' = gd_claims db @ [?k]" by (simp add: mark_winner_def d1_def table_simps)
  then have "claim_decided cfg now True (gs_id s0) (gc_id ?c) db (valid_answer Auto_Valid_Open ?k prog ?ends shown) ?db'"
    using bexI [OF _ c'] bexI [OF _ s'] unfolding claim_decided_def by (simp add: valid_answer_def)
  then show ?thesis using r by blast
qed

lemma claim_by_verdict:
  assumes "game_ok db" "loadClaimCartela db sid u cid = Inr cc" "gs_status (cc_session cc) = PLAYING"
    and "gc_status (cc_cartela cc) = REGISTERED" "\<not> isManualRule (Some (resolveRuleKey cc))"
    and "ev = claim_verdict cc (resolveRuleKey cc) db"
  shows "\<exists>answer db'. claimBingo cfg now newId id sid u cid db = (Inr answer, db') \<and>
    claim_decided cfg now (is_winner ev \<and> completed_by_latest ev) sid cid db answer db'"
proof -
  note l = loadClaimCartela_loaded [OF game_okD(1) [OF assms(1)] assms(2)]
  obtain rest had d1 where p: "pause_auto_call now cc db = ((rest, had), d1)" by (metis prod.exhaust)
  obtain s1 where 1: "game_ok d1" "loaded d1 cc s1" "gs_status s1 = PLAYING" "gd_claims d1 = gd_claims db"
    using pause_loaded [OF assms(1) l(1), of now] p assms(3) by auto
  have id1: "gs_id s1 = sid" using 1(2) l(3) by (simp add: loaded_def)
  have v: "claim_verdict cc (resolveRuleKey cc) d1 = ev"
    using claim_verdict_pause [of cc "resolveRuleKey cc" now db] p assms(6) by simp
  have same: "claim_decided cf n w sid cid d1 a x = claim_decided cf n w sid cid db a x" for cf n w a x
    by (simp add: claim_decided_def 1(4))
  have nt: "getTerminalClaimReasonCode cc = None"
  proof -
    have "session_ok (cc_session cc) (cartelas_of db sid) (claims_of db sid) (paid db)"
      using session_okI [OF game_okD(2) [OF assms(1)], of "cc_session cc"] l(1,3) by (simp add: loaded_def)
    then have "\<not> gc_isWinner (cc_cartela cc)"
      using l(1,3) assms(4) by (auto simp: session_ok_def cartela_ok_def cartelas_of_def loaded_def)
    then show ?thesis using assms(4) by (simp add: getTerminalClaimReasonCode_def)
  qed
  have ok: "assertClaimableCartela cc = Inr ()" using assms(3,4) by (simp add: assertClaimableCartela_def)
  have tx: "claim_tx cfg now newId cc u db =
      (if \<not> is_winner ev \<or> \<not> completed_by_latest ev then
         createAutoInvalidClaim now newId cc u (resolveRuleKey cc)
           (if \<not> is_winner ev then INVALID_PATTERN else INVALID_LATE_CLAIM) (matched_pattern ev)
           (getAutoCallIntervalMs cfg) rest had
           (resolveWinningBallFromCalledNumbersSnapshot (called_numbers d1 (gc_sessionId (cc_cartela cc)))) d1
       else createAutoValidOpenOrJoinWindowClaim now newId cc u (matched_pattern ev) (progress ev)
           (tc_winnerWindowSeconds cfg * 1000)
           (serializeCompletedPatterns (completed_patterns ev) (gc_board (cc_cartela cc)))
           (tc_winnerWindowClaimGraceMs cfg)
           (resolveWinningBallFromCalledNumbersSnapshot (called_numbers d1 (gc_sessionId (cc_cartela cc)))) d1)"
    using assms(3,5) nt ok p v by (simp add: claim_tx_def createAutoValidatedClaim_def Let_def)
  have "\<exists>answer db'. claim_tx cfg now newId cc u db = Inr (answer, db') \<and>
      claim_decided cfg now (is_winner ev \<and> completed_by_latest ev) sid cid db answer db'"
  proof (cases "is_winner ev \<and> completed_by_latest ev")
    case True
    then show ?thesis
      using valid_decided [OF 1(1-3) assms(4)] tx True unfolding id1 l(4) by (simp add: same)
  next
    case False
    then have w: "(is_winner ev \<and> completed_by_latest ev) = False" by simp
    have no: "\<not> is_winner ev \<or> \<not> completed_by_latest ev" using False by blast
    show ?thesis
      using invalid_decided [OF 1(1-3) assms(4)] unfolding id1 l(4) w tx if_P [OF no] by (simp add: same)
  qed
  then show ?thesis using assms(2) by (auto simp: claimBingo_def transaction_def)
qed

section \<open>A cancellation refunds\<close>

text \<open>\<open>refund_balances fee db db' cs\<close>: everybody got back the fees and the bonus cartelas of \<open>cs\<close>.\<close>

definition refund_balances :: "rat \<Rightarrow> game_db \<Rightarrow> game_db \<Rightarrow> game_cartela list \<Rightarrow> bool" where
  "refund_balances fee db db' cs \<longleftrightarrow>
     (\<forall>u. available (gd_wallet db') u = available (gd_wallet db) u + fee * of_nat (bought MONEY_WALLET u cs) \<and>
        bonus_of (gd_wallet db') u = bonus_of (gd_wallet db) u + int (bought BONUS_CARTELA u cs))"

lemma cancelSession_refunds:
  assumes "game_ok db" "s0 \<in> set (gd_sessions db)" "gs_id s0 = sid" "0 < gs_entryFee s0"
    and "cancelSession cfg now lockFree codes newIds id sid cause options db = (Inr (Cancelled_Session r), db')"
    and "\<not> cd_alreadyCancelled r" "fst codes \<notin> gs_id ` set (gd_sessions db)"
    and "ids_free newIds (map fst (refundTotalsByUser (active_cartelas db sid))) (gd_wallet db)"
    and "\<forall>u. refund_key u s0 \<notin> paid db"
  shows "refund_balances (gs_entryFee s0) db db' (active_cartelas db sid) \<and>
    (\<exists>s\<in>set (gd_sessions db'). gs_id s = sid \<and> gs_status s = CANCELLED) \<and>
    (\<forall>c\<in>set (gd_cartelas db'). gc_sessionId c = sid \<longrightarrow> gc_status c = CARTELA_CANCELLED)"
proof -
  define d where "d = disableAutoCall now sid db"
  note keys = game_okD(1) [OF assms(1)]
  have ok: "game_ok d" using disableAutoCall_ok [OF assms(1)] by (simp add: d_def)
  have same: "active_cartelas d sid = active_cartelas db sid" "gd_wallet d = gd_wallet db" "paid d = paid db"
    "gs_id ` set (gd_sessions d) = gs_id ` set (gd_sessions db)"
    by (simp_all add: active_cartelas_def d_def disableAutoCall_def table_simps paid_def)
  have "find_session db sid = Some s0" using find_session_iff [OF keys] assms(2,3) by simp
  then have tx: "cancel_tx cfg now lockFree codes newIds sid cause options d = Inr (r, db')"
    using assms(5,6) by (auto simp: cancelSession_def Let_def d_def buildAlreadyCancelledResult_def
        split: if_split_asm sum.splits cancel_stop.splits prod.splits)
  have "session_cancelled sid d db'"
    using cancel_refunds [OF ok tx] assms(7,8) unfolding same by blast
  moreover have "gs_entryFee s1 = gs_entryFee s0 \<and> (\<forall>u. refund_key u s1 = refund_key u s0)"
    if "s1 \<in> set (gd_sessions d)" "gs_id s1 = sid" for s1
  proof -
    have "s1 = s0 \<or> s1 = (s0\<lparr>gs_autoCallEnabled := False, gs_nextAutoCallAt := None\<rparr>)\<lparr>gs_updatedAt := now\<rparr>"
      using session_after [OF keys assms(2) _ that(1) [unfolded d_def disableAutoCall_def]] that(2) assms(3)
      by (auto split: if_split_asm)
    then show ?thesis by (auto simp: refund_key_def refund_meta_def meta_key_def)
  qed
  ultimately show ?thesis
    using assms(4,9) unfolding session_cancelled_def refund_balances_def same by fastforce
qed

section \<open>The automatic caller calls every number\<close>

lemma remaining_set:
  "set (remaining_numbers db sid) = {1..75} - set (map cn_number (numbers_of db sid))"
  by (auto simp: remaining_numbers_def numbers_of_def list_ex_iff)

lemma remaining_length:
  assumes "numbers_ok (numbers_of db sid)"
  shows "length (remaining_numbers db sid) + length (numbers_of db sid) = 75"
proof -
  let ?called = "map cn_number (numbers_of db sid)"
  have "distinct (remaining_numbers db sid)" by (simp add: remaining_numbers_def)
  then have "length (remaining_numbers db sid) = card ({1..75} - set ?called)"
    using distinct_card [of "remaining_numbers db sid"] remaining_set [of db sid] by simp
  also have "\<dots> = 75 - card (set ?called)"
    using assms by (subst card_Diff_subset) (simp_all add: numbers_ok_def)
  also have "card (set ?called) = length (numbers_of db sid)"
    using distinct_card [of ?called] assms by (simp add: numbers_ok_def)
  finally have eq: "length (remaining_numbers db sid) = 75 - length (numbers_of db sid)" .
  have "card (set ?called) \<le> card {1..75::int}" using assms by (intro card_mono) (simp_all add: numbers_ok_def)
  then have "length (numbers_of db sid) \<le> 75" using distinct_card [of ?called] assms by (simp add: numbers_ok_def)
  then show ?thesis using eq by simp
qed

lemma create_number_succeeds:
  assumes "numbers_ok (numbers_of db sid)" "n \<in> set (remaining_numbers db sid)"
  shows "create_number (called_row_of sid letter n (int (length (numbers_of db sid)) + 1)) db =
    Inr (db\<lparr>gd_numbers := gd_numbers db @ [called_row_of sid letter n (int (length (numbers_of db sid)) + 1)]\<rparr>)"
proof -
  have "n \<notin> cn_number ` set (numbers_of db sid)" using assms(2) remaining_set [of db sid] by auto
  moreover have "int (length (numbers_of db sid)) + 1 \<notin> cn_order ` set (numbers_of db sid)"
  proof -
    have "cn_order ` set (numbers_of db sid) = {1..int (length (numbers_of db sid))}"
      using assms(1) by (metis numbers_ok_def set_map set_upto)
    then show ?thesis by simp
  qed
  ultimately have "\<not> (\<exists>r\<in>set (numbers_of db sid). cn_number r = n \<or>
      cn_order r = int (length (numbers_of db sid)) + 1)" by (metis image_eqI)
  then have "\<not> list_ex (\<lambda>r. cr_sessionId r = sid \<and>
      (cn_number r = n \<or> cn_order r = int (length (numbers_of db sid)) + 1)) (gd_numbers db)"
    by (simp add: list_ex_iff) (simp add: numbers_of_def)
  then show ?thesis by (simp add: create_number_def called_row_of_def)
qed

text \<open>One call of the caller on the session \<open>s0\<close>.\<close>

lemma auto_call_succeeds:
  assumes "game_ok db" "s0 \<in> set (gd_sessions db)" "gs_id s0 = sid" "auto_due now s0"
    and "n \<in> set (remaining_numbers db sid)"
  shows "\<exists>s1 db' row. auto_call_tx now sid n k due db = Inr ((row, s0), db') \<and>
    numbers_of db' sid = numbers_of db sid @ [row] \<and>
    s1 \<in> set (gd_sessions db') \<and> gs_status s1 = PLAYING \<and> gs_id s1 = sid \<and>
    gs_winnerCartelaId s1 = None \<and> gs_noWinnerGraceEndsAt s1 = gs_noWinnerGraceEndsAt s0 \<and>
    gs_autoCallIntervalMs s1 = gs_autoCallIntervalMs s0 \<and>
    (1 < k \<longrightarrow> gs_autoCallEnabled s1 \<and> gs_nextAutoCallAt s1 = Some due)"
proof -
  note keys = game_okD(1) [OF assms(1)]
  let ?P = "\<lambda>s. gs_id s = sid \<and> auto_due now s"
  let ?f = "\<lambda>s. if k \<le> 1 then s\<lparr>gs_autoCallEnabled := False, gs_nextAutoCallAt := None\<rparr>
      else s\<lparr>gs_nextAutoCallAt := Some due\<rparr>"
  note s0 = assms(2-4)
  have f: "find_session db sid = Some s0" using find_session_iff [OF keys] s0(1,2) by simp
  have st: "gs_status s0 = PLAYING" "gs_autoCallEnabled s0" using s0(3) by (simp_all add: auto_due_def)
  have "0 < count_where ?P (gd_sessions db)" using s0 by (auto simp: count_where_pos)
  moreover have "count_where ?P (gd_sessions db) \<le> 1"
    by (rule count_where_key [OF keys_okD(2) [OF keys]]) simp
  ultimately have n: "fst (update_sessions now ?P ?f db) = 1" by (simp add: update_sessions_def)
  define d1 where "d1 = snd (update_sessions now ?P ?f db)"
  have nums: "numbers_of d1 sid = numbers_of db sid" "remaining_numbers d1 sid = remaining_numbers db sid"
    "called_rows db sid = numbers_of db sid"
    using called_rows_eq [OF game_okD(4) [OF assms(1)]] by (simp_all add: d1_def table_simps remaining_numbers_def)
  let ?row = "called_row_of sid (getLetterForNumber n) n (int (length (numbers_of db sid)) + 1)"
  let ?db' = "d1\<lparr>gd_numbers := gd_numbers d1 @ [?row]\<rparr>"
  have c: "create_number ?row d1 = Inr ?db'"
    using create_number_succeeds [of d1 sid n "getLetterForNumber n"] game_okD(4) [OF assms(1)] assms(5) nums by simp
  have tx: "auto_call_tx now sid n k due db = Inr ((?row, s0), ?db')"
    using f st n c nums(3) by (simp add: auto_call_tx_def Let_def case_prod_beta d1_def)
  have "(?f s0)\<lparr>gs_updatedAt := now\<rparr> \<in> set (gd_sessions d1)"
    unfolding d1_def by (rule updated_session) (use s0 in simp_all)
  then have "(?f s0)\<lparr>gs_updatedAt := now\<rparr> \<in> set (gd_sessions ?db')" by simp
  moreover have "gs_winnerCartelaId s0 = None"
    using session_okI [OF game_okD(2) [OF assms(1)] s0(1)] st by (auto simp: session_ok_def)
  moreover have "numbers_of ?db' sid = numbers_of db sid @ [?row]"
    using nums(1) by (simp add: numbers_of_def called_row_of_def)
  ultimately show ?thesis
    using tx s0 st by (intro exI [of _ "(?f s0)\<lparr>gs_updatedAt := now\<rparr>"] exI [of _ ?db'] exI [of _ ?row]) simp
qed

lemma grace_starts:
  assumes "keys_ok db" "s0 \<in> set (gd_sessions db)" "gs_id s0 = sid" "gs_status s0 = PLAYING"
    and "gs_winnerCartelaId s0 = None" "gs_noWinnerGraceEndsAt s0 = None"
  shows "\<exists>s1\<in>set (gd_sessions (snd (startNoWinnerGrace cfg now sid db))). gs_id s1 = sid \<and>
    gs_status s1 = PLAYING \<and> \<not> gs_autoCallEnabled s1 \<and>
    gs_noWinnerGraceEndsAt s1 = Some (now + tc_noWinnerGraceSeconds cfg * 1000)"
  unfolding startNoWinnerGrace_def Let_def case_prod_beta if_distrib [of snd] snd_conv if_cancel in_update_sessions
  using assms(2-6) by (intro bexI [of _ "(s0\<lparr>gs_autoCallEnabled := False, gs_nextAutoCallAt := None,
      gs_noWinnerGraceEndsAt := Some (now + tc_noWinnerGraceSeconds cfg * 1000),
      gs_noWinnerReason := Some ''ALL_NUMBERS_CALLED''\<rparr>)\<lparr>gs_updatedAt := now\<rparr>"])
    (auto simp: in_update_sessions intro!: bexI [of _ s0])

text \<open>
  A session that waits for its next number, \<open>k\<close> of them left; a session whose caller is done.
\<close>

definition calling :: "int \<Rightarrow> string \<Rightarrow> int option \<Rightarrow> nat \<Rightarrow> game_db \<Rightarrow> bool" where
  "calling due sid interval k db \<longleftrightarrow>
     game_ok db \<and> length (remaining_numbers db sid) = k \<and>
     (\<exists>s\<in>set (gd_sessions db). gs_id s = sid \<and> gs_status s = PLAYING \<and> gs_autoCallEnabled s \<and>
        gs_nextAutoCallAt s = Some due \<and> gs_autoCallIntervalMs s = interval \<and> gs_noWinnerGraceEndsAt s = None)"

definition all_called :: "int \<Rightarrow> string \<Rightarrow> game_db \<Rightarrow> bool" where
  "all_called ends sid db \<longleftrightarrow>
     game_ok db \<and> remaining_numbers db sid = [] \<and>
     (\<exists>s\<in>set (gd_sessions db). gs_id s = sid \<and> gs_status s = PLAYING \<and> \<not> gs_autoCallEnabled s \<and>
        gs_noWinnerGraceEndsAt s = Some ends)"

lemma processSession_calls:
  assumes "calling due sid interval k db" "due \<le> now" "0 < k"
  shows "if k \<le> 1 then all_called (now + tc_noWinnerGraceSeconds cfg * 1000) sid
      (processSession cfg now draw id sid interval db)
    else calling (now + or_else interval (getAutoCallIntervalMs cfg)) sid interval (k - 1)
      (processSession cfg now draw id sid interval db)"
proof -
  let ?delay = "or_else interval (getAutoCallIntervalMs cfg)" and ?rem = "remaining_numbers db sid"
  let ?d = "processSession cfg now draw id sid interval db"
  obtain s0 where s0: "s0 \<in> set (gd_sessions db)" "gs_id s0 = sid" "gs_status s0 = PLAYING" "gs_autoCallEnabled s0"
    "gs_nextAutoCallAt s0 = Some due" "gs_autoCallIntervalMs s0 = interval" "gs_noWinnerGraceEndsAt s0 = None"
    using assms(1) by (auto simp: calling_def)
  have ok: "game_ok db" and k: "length ?rem = k" using assms(1) by (simp_all add: calling_def)
  have due: "auto_due now s0" using s0 assms(2) by (simp add: auto_due_def)
  let ?n = "?rem ! (draw mod length ?rem)"
  have n: "?n \<in> set ?rem" using assms(3) k by (intro nth_mem) simp
  obtain s1 d1 row where t: "auto_call_tx now sid ?n k (now + ?delay) db = Inr ((row, s0), d1)"
    "numbers_of d1 sid = numbers_of db sid @ [row]" "s1 \<in> set (gd_sessions d1)" "gs_status s1 = PLAYING"
    "gs_id s1 = sid" "gs_winnerCartelaId s1 = None" "gs_noWinnerGraceEndsAt s1 = None"
    "gs_autoCallIntervalMs s1 = interval"
    "1 < k \<longrightarrow> gs_autoCallEnabled s1 \<and> gs_nextAutoCallAt s1 = Some (now + ?delay)"
    using auto_call_succeeds [OF ok s0(1,2) due n, of k "now + ?delay"] s0(6,7) by metis
  have q: "queryRandomRemainingNumber draw db sid = Some (?n, k)"
    using k assms(3) by (auto simp: queryRandomRemainingNumber_def Let_def)
  have ok': "game_ok ?d" by (rule game_run.run_inv [OF run_processSession ok])
  have d: "?d = (if k \<le> 1 then snd (startNoWinnerGrace cfg now sid d1) else d1)"
    using q t(1) by (simp add: processSession_def callRandomNumberForAutoCall_def Let_def case_prod_beta)
  have nums: "numbers_of ?d sid = numbers_of db sid @ [row]"
    unfolding d using t(2) by (simp add: startNoWinnerGrace_def Let_def case_prod_beta table_simps)
  have rem: "length (remaining_numbers ?d sid) = k - 1"
    using remaining_length [OF game_okD(4) [OF ok'], of sid] remaining_length [OF game_okD(4) [OF ok], of sid] k nums
    by simp
  show ?thesis
  proof (cases "k \<le> 1")
    case False
    then have "?d = d1" using d by simp
    then show ?thesis using False ok' rem t(3-9) by (auto simp: calling_def)
  next
    case True
    have "game_ok d1"
      using auto_call_ok [OF ok _ _ t(1)] remaining_range [OF n] by simp
    then have "\<exists>s\<in>set (gd_sessions ?d). gs_id s = sid \<and> gs_status s = PLAYING \<and> \<not> gs_autoCallEnabled s \<and>
        gs_noWinnerGraceEndsAt s = Some (now + tc_noWinnerGraceSeconds cfg * 1000)"
      using grace_starts [OF game_okD(1) t(3,5,4,6,7), of cfg now] True d by simp
    then show ?thesis using True ok' rem assms(3) by (simp add: all_called_def)
  qed
qed

text \<open>The clock finds that session only, and has no session to end.\<close>

lemma tick_single:
  assumes "game_ok db" "s0 \<in> set (gd_sessions db)" "auto_due now s0"
    and "d = processSession cfg now (draws (gs_id s0)) id (gs_id s0) (gs_autoCallIntervalMs s0) db"
    and "game_ok d" "s1 \<in> set (gd_sessions d)" "live (gs_status s1)" "\<not> grace_expired now s1"
  shows "tick cfg now lockFree draws codes db = d"
proof -
  note keys = game_okD(1) [OF assms(1)]
  have "filter (auto_due now) (gd_sessions db) = [s0]"
  proof (rule filter_single [where P = "auto_due now", OF _ assms(2,3)])
    show "distinct (gd_sessions db)" using keys_okD(2) [OF keys] by (simp add: distinct_map)
    show "x = s0" if "x \<in> set (gd_sessions db)" "auto_due now x" for x
    proof -
      have "gs_id x = gs_id s0"
        using game_okD(3) [OF assms(1)] that assms(2,3) unfolding one_live_def auto_due_def live_def by blast
      then show ?thesis using session_unique [OF keys that(1) assms(2)] by simp
    qed
  qed
  then have due: "due_sessions now db = [s0]" unfolding due_sessions_def by (simp only: sort_by_single)
  have "\<not> grace_expired now x" if x: "x \<in> set (gd_sessions d)" for x
  proof
    assume g: "grace_expired now x"
    then have "live (gs_status x)" by (auto simp: grace_expired_def live_def)
    then have "gs_id x = gs_id s1" using game_okD(3) [OF assms(5)] x assms(6,7) unfolding one_live_def by blast
    then have "x = s1" using session_unique [OF game_okD(1) [OF assms(5)] x assms(6)] by simp
    then show False using g assms(8) by simp
  qed
  then have none: "filter (grace_expired now) (gd_sessions d) = []" unfolding filter_empty_conv by blast
  show ?thesis
    unfolding tick_def due fold.simps o_apply id_apply assms(4) [symmetric] Let_def
      finalizeExpiredNoWinnerSessions_def none by simp
qed

text \<open>The ticks of the clock, each at its time and with its draw.\<close>

fun ticks ::
  "timing_config \<Rightarrow> bool \<Rightarrow> (string \<Rightarrow> string \<times> string) \<Rightarrow> (int \<times> nat) list \<Rightarrow> game_db \<Rightarrow> game_db" where
  "ticks cfg lockFree codes [] db = db"
| "ticks cfg lockFree codes ((now, draw) # rest) db =
     ticks cfg lockFree codes rest (tick cfg now lockFree (\<lambda>_. draw) codes db)"

lemma tick_calls:
  assumes "calling due sid interval k db" "due \<le> now" "0 < k" "0 < tc_noWinnerGraceSeconds cfg"
  shows "if k \<le> 1 then all_called (now + tc_noWinnerGraceSeconds cfg * 1000) sid (tick cfg now lockFree (\<lambda>_. draw) codes db)
    else calling (now + or_else interval (getAutoCallIntervalMs cfg)) sid interval (k - 1)
      (tick cfg now lockFree (\<lambda>_. draw) codes db)"
proof -
  let ?d = "processSession cfg now draw id sid interval db"
  note called = processSession_calls [OF assms(1-3), of cfg draw]
  obtain s0 where s0: "s0 \<in> set (gd_sessions db)" "gs_id s0 = sid" "auto_due now s0" "gs_autoCallIntervalMs s0 = interval"
    using assms(1,2) by (auto simp: calling_def auto_due_def)
  obtain s1 where s1: "s1 \<in> set (gd_sessions ?d)" "live (gs_status s1)" "\<not> grace_expired now s1" and ok: "game_ok ?d"
    using called assms(4) by (auto simp: calling_def all_called_def live_def grace_expired_def split: if_split_asm)
  have "game_ok db" using assms(1) by (simp add: calling_def)
  then have "tick cfg now lockFree (\<lambda>_. draw) codes db = ?d"
    by (rule tick_single [OF _ s0(1,3) _ ok s1]) (simp add: s0)
  then show ?thesis using called by (simp only:)
qed

lemma ticks_call_all:
  assumes "calling due sid interval (length schedule) db" "schedule \<noteq> []" "due \<le> fst (hd schedule)"
    and "successively (\<lambda>x y. fst x + or_else interval (getAutoCallIntervalMs cfg) \<le> fst y) schedule"
    and "0 < tc_noWinnerGraceSeconds cfg"
  shows "all_called (fst (last schedule) + tc_noWinnerGraceSeconds cfg * 1000) sid (ticks cfg lockFree codes schedule db)"
  using assms(1-4)
proof (induction schedule arbitrary: due db)
  case (Cons p rest)
  obtain now draw where p: "p = (now, draw)" by fastforce
  note round = tick_calls [OF Cons.prems(1) _ _ assms(5), of now lockFree draw codes]
  show ?case
  proof (cases rest)
    case Nil
    then show ?thesis using round Cons.prems(3) by (simp add: p)
  next
    case (Cons q rest')
    then show ?thesis
      using round Cons.IH [of "now + or_else interval (getAutoCallIntervalMs cfg)" "tick cfg now lockFree (\<lambda>_. draw) codes db"]
        Cons.prems(3,4) by (simp add: p)
  qed
qed simp

end
