(* ===== verification/RuleVerdicts.thy ===== *)
theory RuleVerdicts
  imports PatternEvaluator
begin

text \<open>
  What the evaluators of \<open>src/src/game-rules\<close> decide. \<open>pattern_wins\<close> states, for each pattern,
  when a set of called numbers wins on a board; \<open>fair\<close> is the contract of a verdict with such a
  condition. The locale \<open>pattern_source\<close> is the interface of the routines that list completed
  patterns, the locale \<open>judge\<close> the one an evaluator offers to the claim flow; both are interpreted
  on the definitions of the evaluators.
\<close>

section \<open>A number that completes a pattern is one of its numbers\<close>

abbreviation marked_all :: "cartela \<Rightarrow> int set \<Rightarrow> board_coord list \<Rightarrow> bool" where
  "marked_all c called cells \<equiv> list_all (cell_marked c called) cells"

lemma marked_all_mono: "marked_all c S cells \<Longrightarrow> S \<subseteq> S' \<Longrightarrow> marked_all c S' cells"
  by (auto simp: list_all_iff intro: isMarkedCellValue_mono)

lemma newly_marked_number:
  assumes "marked_all c (insert k S) cells" "\<not> marked_all c S cells"
  shows "k \<in> set (getPatternNumbers (buildBoardRows c) cells)"
proof -
  obtain rc where rc: "rc \<in> set cells" "\<not> cell_marked c S rc" "cell_marked c (insert k S) rc"
    using assms by (auto simp: list_all_iff)
  have "getCellNumber (cell_at (buildBoardRows c) rc) = Some k"
  proof (cases "getCellNumber (cell_at (buildBoardRows c) rc)")
    case None
    then show ?thesis
      using rc(2,3) isMarkedCellValue_no_number [OF None, of S]
        isMarkedCellValue_no_number [OF None, of "insert k S"] by simp
  next
    case (Some m)
    then show ?thesis
      using rc(2,3) by (simp add: isMarkedCellValue_iff_number)
  qed
  then show ?thesis using rc(1) by (auto simp: getPatternNumbers_iff)
qed

lemma number_newly_marked:
  "k \<in> set (getPatternNumbers (buildBoardRows c) cells) \<Longrightarrow> k \<notin> S \<Longrightarrow> \<not> marked_all c S cells"
  by (force simp: getPatternNumbers_iff list_all_iff isMarkedCellValue_iff_number)

section \<open>Lists of completed patterns\<close>

definition pattern_on :: "cartela \<Rightarrow> completed_pattern \<Rightarrow> board_coord list \<Rightarrow> bool" where
  "pattern_on c p cells \<longleftrightarrow>
     cells \<noteq> [] \<and> cp_cells p = Some cells \<and>
     cp_numbers p = getPatternNumbers (buildBoardRows c) cells"

definition shown_ok :: "cartela \<Rightarrow> int set \<Rightarrow> completed_pattern \<Rightarrow> bool" where
  "shown_ok c S p \<longleftrightarrow> (\<exists>cells. pattern_on c p cells \<and> marked_all c S cells)"

text \<open>
  The interface of the routines that list the completed patterns of one sort: every listed
  pattern lies on marked cells, and the listed patterns are those of a fixed set whose cells are
  marked.
\<close>

locale pattern_source =
  fixes listed :: "cartela \<Rightarrow> int set \<Rightarrow> completed_pattern list"
  assumes listed_ok: "full_board c \<Longrightarrow> p \<in> set (listed c S) \<Longrightarrow> shown_ok c S p"
    and listed_mono: "full_board c \<Longrightarrow> S \<subseteq> S' \<Longrightarrow> set (listed c S) \<subseteq> set (listed c S')"
    and listed_if_marked:
      "full_board c \<Longrightarrow> p \<in> set (listed c S') \<Longrightarrow> cp_cells p = Some cells \<Longrightarrow>
       marked_all c S cells \<Longrightarrow> p \<in> set (listed c S)"
begin

lemma unlisted_before:
  assumes "full_board c" "p \<in> set (listed c (insert k S))" "p \<notin> set (listed c S)"
  shows "k \<in> set (cp_numbers p)"
proof -
  obtain cells where p: "pattern_on c p cells" "marked_all c (insert k S) cells"
    using listed_ok [OF assms(1,2)] by (auto simp: shown_ok_def)
  then have "\<not> marked_all c S cells"
    using listed_if_marked [OF assms(1,2)] assms(3) by (auto simp: pattern_on_def)
  then show ?thesis
    using newly_marked_number [OF p(2)] p(1) by (simp add: pattern_on_def)
qed

lemma with_new_number:
  assumes "full_board c" "p \<in> set (listed c S')" "k \<in> set (cp_numbers p)" "k \<notin> S"
  shows "p \<notin> set (listed c S)"
proof
  assume "p \<in> set (listed c S)"
  then obtain cells where "pattern_on c p cells" "marked_all c S cells"
    using listed_ok [OF assms(1)] unfolding shown_ok_def by blast
  then show False
    using number_newly_marked [of k c cells S] assms(3,4) by (simp add: pattern_on_def)
qed

lemma first_completed:
  "full_board c \<Longrightarrow> listed c S = [] \<Longrightarrow> p \<in> set (listed c (insert k S)) \<Longrightarrow>
   k \<in> set (cp_numbers p)"
  using unlisted_before by auto

end

text \<open>Lists made of the members of a fixed list of lines, in order.\<close>

lemma pattern_source_lines:
  assumes "\<And>c S. full_board c \<Longrightarrow>
      listed c S = map (pat c) (filter (\<lambda>x. marked_all c S (cells x)) xs)"
    and "\<And>c x. x \<in> set xs \<Longrightarrow> pattern_on c (pat c x) (cells x)"
  shows "pattern_source listed"
proof
  fix c p S
  assume "full_board c" "p \<in> set (listed c S)"
  then show "shown_ok c S p" using assms by (fastforce simp: shown_ok_def)
next
  fix c S S'
  assume "full_board c" "S \<subseteq> (S' :: int set)"
  then show "set (listed c S) \<subseteq> set (listed c S')"
    using assms(1) marked_all_mono by fastforce
next
  fix c p S' cs S
  assume a: "full_board c" "p \<in> set (listed c S')" "cp_cells p = Some cs" "marked_all c S cs"
  then obtain x where "x \<in> set xs" "p = pat c x" using assms(1) by auto
  then show "p \<in> set (listed c S)"
    using a assms by (force simp: pattern_on_def)
qed

definition column_pattern :: "js list list \<Rightarrow> int \<Rightarrow> completed_pattern" where
  "column_pattern boardRows columnIndex =
     \<lparr>cp_type = ''COLUMN'', cp_key = ''COL_'' @ COLUMN_LABELS ! nat columnIndex,
      cp_numbers = getPatternNumbers boardRows (buildColumnCells columnIndex),
      cp_cells = Some (buildColumnCells columnIndex)\<rparr>"

definition diagonal_pattern :: "js list list \<Rightarrow> int \<Rightarrow> completed_pattern" where
  "diagonal_pattern boardRows diagonalIndex =
     \<lparr>cp_type = ''DIAGONAL'', cp_key = ''DIAG_'' @ show_int diagonalIndex,
      cp_numbers = getPatternNumbers boardRows (buildDiagonalCells (diagonalIndex - 1)),
      cp_cells = Some (buildDiagonalCells (diagonalIndex - 1))\<rparr>"

lemma getCompletedRowPatterns_eq:
  "getCompletedRowPatterns c S =
   map (\<lambda>i. row_pattern (buildBoardRows c) (i + 1))
     (filter (\<lambda>i. marked_all c S (buildRowCells i)) [0, 1, 2, 3, 4])"
  unfolding getCompletedRowPatterns_def getCompletedRowIndexes_eq map_map o_def by (rule refl)

lemma getCompletedColumnPatterns_eq:
  "full_board c \<Longrightarrow> getCompletedColumnPatterns c S =
   map (column_pattern (buildBoardRows c))
     (filter (\<lambda>i. marked_all c S (buildColumnCells i)) [0, 1, 2, 3, 4])"
  unfolding getCompletedColumnPatterns_def Let_def
  by (simp only: getCompletedColumnIndexes_eq column_pattern_def [abs_def])

lemma getCompletedDiagonalPatterns_eq:
  "getCompletedDiagonalPatterns c S =
   map (\<lambda>i. diagonal_pattern (buildBoardRows c) (i + 1))
     (filter (\<lambda>i. marked_all c S (buildDiagonalCells i)) [0, 1])"
  unfolding getCompletedDiagonalPatterns_def Let_def getCompletedDiagonalIndexes_eq map_map o_def
    diagonal_pattern_def by (rule refl)

lemma pattern_on_row: "pattern_on c (row_pattern (buildBoardRows c) (i + 1)) (buildRowCells i)"
  by (simp add: pattern_on_def row_pattern_def Let_def buildRowCells_def)

lemma pattern_on_column: "pattern_on c (column_pattern (buildBoardRows c) i) (buildColumnCells i)"
  by (simp add: pattern_on_def column_pattern_def buildColumnCells_def)

lemma pattern_on_diagonal:
  "pattern_on c (diagonal_pattern (buildBoardRows c) (i + 1)) (buildDiagonalCells i)"
  by (simp add: pattern_on_def diagonal_pattern_def buildDiagonalCells_def)

interpretation rows: pattern_source getCompletedRowPatterns
  by (rule pattern_source_lines, rule getCompletedRowPatterns_eq, rule pattern_on_row)

interpretation columns: pattern_source getCompletedColumnPatterns
  by (rule pattern_source_lines, erule getCompletedColumnPatterns_eq, rule pattern_on_column)

interpretation diagonals: pattern_source getCompletedDiagonalPatterns
  by (rule pattern_source_lines, rule getCompletedDiagonalPatterns_eq, rule pattern_on_diagonal)

lemma pattern_source_append:
  assumes f: "pattern_source f" and g: "pattern_source g"
  shows "pattern_source (\<lambda>c S. f c S @ g c S)"
proof
  fix c p S
  assume "full_board c" "p \<in> set (f c S @ g c S)"
  then show "shown_ok c S p"
    using pattern_source.listed_ok [OF f, of c p S] pattern_source.listed_ok [OF g, of c p S] by auto
next
  fix c S S'
  assume a: "full_board c" "S \<subseteq> (S' :: int set)"
  show "set (f c S @ g c S) \<subseteq> set (f c S' @ g c S')"
    using pattern_source.listed_mono [OF f a] pattern_source.listed_mono [OF g a] by auto
next
  fix c p S' cs S
  assume a: "full_board c" "p \<in> set (f c S' @ g c S')" "cp_cells p = Some cs" "marked_all c S cs"
  then consider "p \<in> set (f c S')" | "p \<in> set (g c S')" by auto
  then show "p \<in> set (f c S @ g c S)"
    using pattern_source.listed_if_marked [OF f a(1) _ a(3,4)]
      pattern_source.listed_if_marked [OF g a(1) _ a(3,4)] by cases auto
qed

lemma pattern_source_filter:
  assumes "pattern_source f"
  shows "pattern_source (\<lambda>c S. filter P (f c S))"
proof
  fix c p S
  assume "full_board c" "p \<in> set (filter P (f c S))"
  then show "shown_ok c S p" using pattern_source.listed_ok [OF assms] by simp
next
  fix c S S'
  assume "full_board c" "S \<subseteq> (S' :: int set)"
  then show "set (filter P (f c S)) \<subseteq> set (filter P (f c S'))"
    using pattern_source.listed_mono [OF assms, of c S S'] by auto
next
  fix c p S' cs S
  assume "full_board c" "p \<in> set (filter P (f c S'))" "cp_cells p = Some cs" "marked_all c S cs"
  then show "p \<in> set (filter P (f c S))" using pattern_source.listed_if_marked [OF assms] by auto
qed

section \<open>What is shown\<close>

lemma comparePatternPreference_Some:
  "comparePatternPreference (Some k) = prefer_order (\<lambda>p. patternIncludesLatest p k)"
  by (intro ext) (simp add: comparePatternPreference_def prefer_order_def Let_def)

lemma comparePatternPreference_None: "comparePatternPreference None = (\<lambda>_ _. 0)"
  by (intro ext) (simp add: comparePatternPreference_def)

lemma selectCompletedPatternsForDisplay_sorted:
  "xs \<noteq> [] \<Longrightarrow> selectCompletedPatternsForDisplay xs (Some n) (Some k) =
   slice_to n (filter (\<lambda>p. patternIncludesLatest p k) xs @
               filter (\<lambda>p. \<not> patternIncludesLatest p k) xs)"
  by (simp add: selectCompletedPatternsForDisplay_def comparePatternPreference_Some sort_by_prefer)

lemma set_slice_to: "set (slice_to n xs) \<subseteq> set xs"
  by (auto simp: slice_to_def dest: in_set_takeD)

lemma selectCompletedPatternsForDisplay_subset:
  "set (selectCompletedPatternsForDisplay xs n k) \<subseteq> set xs"
proof (cases n)
  case None
  have head: "ys ! 0 \<in> set xs" if "set ys \<subseteq> set xs" "ys \<noteq> []" for ys :: "completed_pattern list"
    using that nth_mem [of 0 ys] by auto
  have "sort_by cmp xs \<noteq> []" if "xs \<noteq> []" for cmp
    using that by (metis length_0_conv length_sort_by)
  then show ?thesis
    using None
    by (auto simp: selectCompletedPatternsForDisplay_def Let_def split: option.splits if_splits
        intro!: head)
next
  case (Some m)
  then show ?thesis
    using set_slice_to [of m "sort_by (comparePatternPreference k) xs"]
    by (simp add: selectCompletedPatternsForDisplay_def)
qed

lemma selectCompletedPatternsForDisplay_nonempty:
  assumes "xs \<noteq> []" "n = None \<or> (\<exists>m. n = Some m \<and> 0 < m)"
  shows "selectCompletedPatternsForDisplay xs n k \<noteq> []"
proof -
  have "sort_by cmp xs \<noteq> []" for cmp
    using assms(1) by (metis length_0_conv length_sort_by)
  then show ?thesis
    using assms by (auto simp: selectCompletedPatternsForDisplay_def Let_def slice_to_def
        split: option.splits)
qed

text \<open>If some pattern contains the latest number, so does one that is shown.\<close>

lemma selectCompletedPatternsForDisplay_latest:
  assumes "n = None \<or> (\<exists>m. n = Some m \<and> 0 < m)" "p \<in> set xs" "k \<in> set (cp_numbers p)"
  shows "\<exists>q\<in>set (selectCompletedPatternsForDisplay xs n (Some k)). k \<in> set (cp_numbers q)"
proof -
  let ?P = "\<lambda>p. patternIncludesLatest p k"
  let ?with = "filter ?P xs"
  have ne: "?with \<noteq> []" using assms(2,3) by (auto simp: patternIncludesLatest_def filter_empty_conv)
  have xs: "xs \<noteq> []" using assms(2) by auto
  obtain w ws where w: "?with = w # ws" using ne by (cases ?with) auto
  have first: "?P w" using arg_cong [OF w, of set] by auto
  show ?thesis
  proof (cases n)
    case None
    show ?thesis
    proof (cases "length xs = 1")
      case True
      then have "xs = [p]" using assms(2) by (cases xs) auto
      then show ?thesis
        using None assms(3) by (simp add: selectCompletedPatternsForDisplay_def sort_by_def)
    next
      case False
      then have "selectCompletedPatternsForDisplay xs n (Some k) = [w]"
        using None xs w first
        by (simp add: selectCompletedPatternsForDisplay_def Let_def comparePatternPreference_Some
            sort_by_prefer)
      then show ?thesis using first w by (simp add: patternIncludesLatest_def)
    qed
  next
    case (Some m)
    then have "0 < m" using assms(1) by auto
    then obtain j where j: "nat m = Suc j" by (cases "nat m") auto
    have "w \<in> set (selectCompletedPatternsForDisplay xs n (Some k))"
      using Some xs w j \<open>0 < m\<close>
      by (simp add: selectCompletedPatternsForDisplay_sorted slice_to_def)
    then show ?thesis using first w by (auto simp: patternIncludesLatest_def)
  qed
qed

section \<open>The contract of an evaluator\<close>

text \<open>
  \<open>fair\<close> relates a verdict to the condition that decides winning and to the numbers called
  before the latest one.
\<close>

definition fair ::
  "cartela \<Rightarrow> (int set \<Rightarrow> bool) \<Rightarrow> called_number list \<Rightarrow> evaluation_result \<Rightarrow> bool" where
  "fair c wins calls r \<longleftrightarrow>
     (is_winner r = wins (buildCalledNumbersSet calls)) \<and>
     (latest_number r = getLatestCalledNumber calls) \<and>
     (completed_by_latest r \<longrightarrow> is_winner r) \<and>
     (is_winner r \<longrightarrow> completed_patterns r \<noteq> [] \<and> progress r = 1) \<and>
     (0 \<le> progress r \<and> progress r \<le> 1) \<and>
     (\<forall>p\<in>set (completed_patterns r). shown_ok c (buildCalledNumbersSet calls) p) \<and>
     (is_winner r \<and> calls \<noteq> [] \<and> \<not> wins (buildCalledNumbersSet (butlast calls)) \<longrightarrow>
        completed_by_latest r) \<and>
     (completed_by_latest r \<longrightarrow>
        calls \<noteq> [] \<and>
        (\<exists>p\<in>set (completed_patterns r). cn_number (last calls) \<in> set (cp_numbers p)))"

lemma called_split:
  "calls \<noteq> [] \<Longrightarrow>
   buildCalledNumbersSet calls =
     insert (cn_number (last calls)) (buildCalledNumbersSet (butlast calls))"
  by (cases calls rule: rev_cases) auto

lemma createResult_sel [result_simps]:
  "is_winner (createResult w m pr l ps b) = w"
  "progress (createResult w m pr l ps b) = pr"
  "latest_number (createResult w m pr l ps b) = l"
  "completed_patterns (createResult w m pr l ps b) = ps"
  "completed_by_latest (createResult w m pr l ps None) =
     (case l of None \<Rightarrow> False | Some k \<Rightarrow> list_ex (\<lambda>p. k \<in> set (cp_numbers p)) ps)"
  "completed_by_latest (createResult w m pr l ps (Some x)) = x"
  by (simp_all add: createResult_def)

text \<open>The rules that ask for one pattern of some sort.\<close>

lemma fair_one_of:
  assumes src: "pattern_source listed" and board: "full_board c"
    and calls: "S = buildCalledNumbersSet calls" "l = getLatestCalledNumber calls"
    and n: "n = None \<or> (\<exists>m. n = Some m \<and> 0 < m)"
    and shown: "shown = (if length (listed c S) > 0
        then selectCompletedPatternsForDisplay (listed c S) n l else listed c S)"
    and pr: "0 \<le> pr" "pr \<le> 1" "listed c S \<noteq> [] \<Longrightarrow> pr = 1"
  shows "fair c (\<lambda>S. listed c S \<noteq> []) calls
    (createResult (length (listed c S) > 0) m pr l shown None)"
proof -
  have sub: "set shown \<subseteq> set (listed c S)"
    using shown selectCompletedPatternsForDisplay_subset by (auto split: if_splits)
  have ok: "\<forall>p\<in>set shown. shown_ok c S p"
    using sub pattern_source.listed_ok [OF src board] by blast
  have ne: "shown \<noteq> []" if "listed c S \<noteq> []"
    using that shown n selectCompletedPatternsForDisplay_nonempty by (auto split: if_splits)
  have latest: "\<exists>q\<in>set shown. k \<in> set (cp_numbers q)"
    if "p \<in> set (listed c S)" "k \<in> set (cp_numbers p)" "l = Some k" for p k
  proof -
    have "shown = selectCompletedPatternsForDisplay (listed c S) n (Some k)"
      using that(1,3) shown by (cases "listed c S") auto
    then show ?thesis using selectCompletedPatternsForDisplay_latest [OF n that(1,2)] by simp
  qed
  have newly: "\<exists>q\<in>set shown. cn_number (last calls) \<in> set (cp_numbers q)"
    if "listed c S \<noteq> []" "calls \<noteq> []" "listed c (buildCalledNumbersSet (butlast calls)) = []"
  proof -
    have p: "hd (listed c S) \<in> set (listed c S)" by (rule hd_in_set [OF that(1)])
    have "cn_number (last calls) \<in> set (cp_numbers (hd (listed c S)))"
      using pattern_source.first_completed [OF src board that(3)] p
      unfolding calls(1) called_split [OF that(2)] by blast
    then show ?thesis using latest [OF p] that(2) calls(2) by (simp add: getLatestCalledNumber_eq)
  qed
  show ?thesis
    using ok ne newly pr sub
    by (auto simp: fair_def result_simps calls getLatestCalledNumber_eq list_ex_iff split: if_splits)
qed

declare show_nat.simps [simp del]

section \<open>Line rules\<close>

definition all_line_patterns :: "cartela \<Rightarrow> int set \<Rightarrow> completed_pattern list" where
  "all_line_patterns c S =
     getCompletedRowPatterns c S @ getCompletedColumnPatterns c S @ getCompletedDiagonalPatterns c S"

definition free_line_patterns :: "cartela \<Rightarrow> int set \<Rightarrow> completed_pattern list" where
  "free_line_patterns c S =
     filter (\<lambda>p. cp_key p = centre_row_key) (getCompletedRowPatterns c S) @
     filter (\<lambda>p. cp_key p = centre_column_key) (getCompletedColumnPatterns c S) @
     getCompletedDiagonalPatterns c S"

definition other_line_patterns :: "cartela \<Rightarrow> int set \<Rightarrow> completed_pattern list" where
  "other_line_patterns c S =
     filter (\<lambda>p. cp_key p \<noteq> centre_row_key) (getCompletedRowPatterns c S) @
     filter (\<lambda>p. cp_key p \<noteq> centre_column_key) (getCompletedColumnPatterns c S)"

interpretation all_lines: pattern_source all_line_patterns
  unfolding all_line_patterns_def [abs_def]
  by (intro pattern_source_append rows.pattern_source_axioms columns.pattern_source_axioms
      diagonals.pattern_source_axioms)

interpretation free_lines: pattern_source free_line_patterns
  unfolding free_line_patterns_def [abs_def]
  by (intro pattern_source_append pattern_source_filter rows.pattern_source_axioms
      columns.pattern_source_axioms diagonals.pattern_source_axioms)

interpretation other_lines: pattern_source other_line_patterns
  unfolding other_line_patterns_def [abs_def]
  by (intro pattern_source_append pattern_source_filter rows.pattern_source_axioms
      columns.pattern_source_axioms)

lemma shown_for_any_empty: "shown_for_any xs l = [] \<longleftrightarrow> xs = []"
  using selectCompletedPatternsForDisplay_nonempty [of xs None l]
  by (auto simp: shown_for_any_def)

lemma shown_for_any_Nil [simp]: "shown_for_any [] l = []"
  by (simp add: shown_for_any_def)

text \<open>The set and the latest number an evaluator is given for a list of called numbers.\<close>

abbreviation at_calls ::
  "(int set \<Rightarrow> int option \<Rightarrow> evaluation_result) \<Rightarrow> called_number list \<Rightarrow> evaluation_result" where
  "at_calls ev calls \<equiv> ev (buildCalledNumbersSet calls) (getLatestCalledNumber calls)"

lemma one_of:
  assumes "pattern_source listed" "full_board c"
    and "0 \<le> pr" "pr \<le> 1" "listed c (buildCalledNumbersSet calls) \<noteq> [] \<Longrightarrow> pr = 1"
  shows "fair c (\<lambda>S. listed c S \<noteq> []) calls
    (createResult (length (listed c (buildCalledNumbersSet calls)) > 0) m pr
      (getLatestCalledNumber calls)
      (shown_for_any (listed c (buildCalledNumbersSet calls)) (getLatestCalledNumber calls)) None)"
  by (rule fair_one_of [OF assms(1,2) refl refl, where n = None])
    (use assms in \<open>auto simp: shown_for_any_def\<close>)

lemma fair_any_line:
  "full_board c \<Longrightarrow>
   fair c (\<lambda>S. all_line_patterns c S \<noteq> []) calls
     (at_calls (\<lambda>S l. evaluateAnyLine c S l ruleKey) calls)"
  unfolding evaluateAnyLine_def Let_def all_line_patterns_def [symmetric]
  by (rule one_of [OF all_lines.pattern_source_axioms]) (auto simp: shown_for_any_empty)

lemma fair_any_row:
  "full_board c \<Longrightarrow>
   fair c (\<lambda>S. getCompletedRowPatterns c S \<noteq> []) calls
     (at_calls (\<lambda>S l. evaluateAnyRow c S l ruleKey) calls)"
  unfolding evaluateAnyRow_def Let_def
  by (rule one_of [OF rows.pattern_source_axioms]) (auto simp: shown_for_any_empty)

lemma fair_any_column:
  "full_board c \<Longrightarrow>
   fair c (\<lambda>S. getCompletedColumnPatterns c S \<noteq> []) calls
     (at_calls (\<lambda>S l. evaluateAnyColumn c S l ruleKey) calls)"
  unfolding evaluateAnyColumn_def Let_def
  by (rule one_of [OF columns.pattern_source_axioms]) (auto simp: shown_for_any_empty)

lemma fair_any_diagonal:
  "full_board c \<Longrightarrow>
   fair c (\<lambda>S. getCompletedDiagonalPatterns c S \<noteq> []) calls
     (at_calls (\<lambda>S l. evaluateAnyDiagonal c S l ruleKey) calls)"
  unfolding evaluateAnyDiagonal_def Let_def
  by (rule one_of [OF diagonals.pattern_source_axioms]) (auto simp: shown_for_any_empty)

lemma fair_touches_free:
  "full_board c \<Longrightarrow>
   fair c (\<lambda>S. free_line_patterns c S \<noteq> []) calls
     (at_calls (\<lambda>S l. evaluateLineTouchesFree c S l ruleKey) calls)"
  unfolding evaluateLineTouchesFree_def Let_def free_line_patterns_def [symmetric]
  by (rule one_of [OF free_lines.pattern_source_axioms]) (auto simp: shown_for_any_empty)

lemma fair_without_free:
  "full_board c \<Longrightarrow>
   fair c (\<lambda>S. other_line_patterns c S \<noteq> []) calls
     (at_calls (\<lambda>S l. evaluateLineWithoutFree c S l ruleKey) calls)"
  unfolding evaluateLineWithoutFree_def Let_def other_line_patterns_def [symmetric]
  by (rule one_of [OF other_lines.pattern_source_axioms]) (auto simp: shown_for_any_empty)

section \<open>Rows required and full house\<close>

lemma set_rows_mono: "S \<subseteq> S' \<Longrightarrow> subseq (getCompletedRowPatterns c S) (getCompletedRowPatterns c S')"
  unfolding getCompletedRowPatterns_def by (intro subseq_map getCompletedRowIndexes_mono)

lemma length_getCompletedRowPatterns:
  "length (getCompletedRowPatterns c S) = length (getCompletedRowIndexes c S)"
  by (simp add: getCompletedRowPatterns_def)

lemma length_rows_le: "length (getCompletedRowIndexes c S) \<le> 5"
  using length_filter_le [of "\<lambda>i. marked_all c S (buildRowCells i)" "[0, 1, 2, 3, 4]"]
  unfolding getCompletedRowIndexes_eq by simp

text \<open>More completed rows than before: one of them contains the new number.\<close>

lemma more_rows:
  assumes "full_board c"
    and "length (getCompletedRowIndexes c S) < length (getCompletedRowIndexes c (insert k S))"
  shows "\<exists>p\<in>set (getCompletedRowPatterns c (insert k S)). k \<in> set (cp_numbers p)"
proof (rule ccontr)
  let ?new = "getCompletedRowPatterns c (insert k S)" and ?old = "getCompletedRowPatterns c S"
  assume none: "\<not> ?thesis"
  have sub: "set ?new \<subseteq> set ?old"
    using rows.unlisted_before [OF assms(1)] none by blast
  have dist: "distinct ?new" for S
    unfolding getCompletedRowPatterns_eq distinct_map
    by (auto intro!: inj_onI simp: row_pattern_def Let_def buildRowCells_def)
  have "length ?new = card (set ?new)" using dist by (simp add: distinct_card)
  also have "\<dots> \<le> card (set ?old)" using sub by (intro card_mono) auto
  also have "\<dots> \<le> length ?old" by (rule card_length)
  finally show False using assms(2) by (simp add: length_getCompletedRowPatterns)
qed

lemma fair_rows_required:
  assumes board: "full_board c" and n: "0 < n"
    and S: "S = buildCalledNumbersSet calls" and l: "l = getLatestCalledNumber calls"
  shows "fair c (\<lambda>S. n \<le> int (length (getCompletedRowIndexes c S))) calls
    (evaluateRowsRequired c calls S l ruleKey n)"
proof -
  let ?all = "getCompletedRowPatterns c S"
  let ?before = "buildCalledNumbersSet (butlast calls)"
  let ?shown = "if n \<le> int (length ?all) then selectCompletedPatternsForDisplay ?all (Some n) l
    else ?all"
  have ok: "\<forall>p\<in>set ?shown. shown_ok c S p"
    using rows.listed_ok [OF board] selectCompletedPatternsForDisplay_subset [of ?all "Some n" l]
    by (auto split: if_splits)
  have ne: "?shown \<noteq> []" if win: "n \<le> int (length ?all)"
  proof -
    have "?all \<noteq> []" using win n by force
    then show ?thesis
      using win n selectCompletedPatternsForDisplay_nonempty [of ?all "Some n" l] by simp
  qed
  have newly: "\<exists>p\<in>set ?all. cn_number (last calls) \<in> set (cp_numbers p)"
    if "n \<le> int (length ?all)" "calls \<noteq> []" "int (length (getCompletedRowIndexes c ?before)) < n"
    using more_rows [OF board, of ?before "cn_number (last calls)"] that
    by (simp add: S called_split [symmetric] length_getCompletedRowPatterns)
  have shown: "\<exists>q\<in>set ?shown. k \<in> set (cp_numbers q)"
    if "n \<le> int (length ?all)" "p \<in> set ?all" "k \<in> set (cp_numbers p)" "l = Some k" for p k
    using selectCompletedPatternsForDisplay_latest [of "Some n" p ?all k] n that by simp
  have pr: "0 \<le> min (of_int (int (length ?all)) / of_int n :: rat) 1"
    "n \<le> int (length ?all) \<Longrightarrow> min (of_int (int (length ?all)) / of_int n :: rat) 1 = 1"
    using n by (auto simp: min_def field_simps)
  show ?thesis
    unfolding fair_def evaluateRowsRequired_def Let_def result_simps withoutLatestCalledNumber_eq
      some_includes_def S [symmetric]
    using ok ne newly shown pr
    by (auto simp: l getLatestCalledNumber_eq list_ex_iff length_getCompletedRowPatterns
        split: option.splits if_splits)
qed

lemma fair_full_house:
  assumes board: "full_board c"
    and S: "S = buildCalledNumbersSet calls" and l: "l = getLatestCalledNumber calls"
  shows "fair c (isFullHouse c) calls (evaluateFullHouse c calls S l ruleKey)"
proof -
  let ?all = "getCompletedRowPatterns c S"
  let ?before = "buildCalledNumbersSet (butlast calls)"
  have rows: "map (\<lambda>rowNumber.
      \<lparr>cp_type = ''ROW'', cp_key = ''ROW_'' @ show_int rowNumber,
       cp_numbers = getPatternNumbers (buildBoardRows c) (buildRowCells (rowNumber - 1)),
       cp_cells = Some (buildRowCells (rowNumber - 1))\<rparr>) (getCompletedRowIndexes c S) = ?all"
    by (simp add: getCompletedRowPatterns_def row_pattern_def Let_def)
  have ok: "\<forall>p\<in>set ?all. shown_ok c S p"
    using rows.listed_ok [OF board] by auto
  have ne: "?all \<noteq> []" if "isFullHouse c S"
    using that by (auto simp: isFullHouse_def getCompletedRowPatterns_def)
  have newly: "\<exists>p\<in>set ?all. cn_number (last calls) \<in> set (cp_numbers p)"
    if "isFullHouse c S" "calls \<noteq> []" "\<not> isFullHouse c ?before"
    using more_rows [OF board, of ?before "cn_number (last calls)"] that length_rows_le [of c ?before]
    by (simp add: S called_split [symmetric] isFullHouse_def)
  have pr: "(of_nat (length (getCompletedRowIndexes c S)) / 5 :: rat) \<le> 1"
    using length_rows_le [of c S] by simp
  show ?thesis
    unfolding fair_def evaluateFullHouse_def Let_def rows result_simps withoutLatestCalledNumber_eq
      some_includes_def S [symmetric]
    using ok ne newly pr
    by (auto simp: l getLatestCalledNumber_eq list_ex_iff isFullHouse_def split: option.splits)
qed

section \<open>Groups of cells\<close>

definition group_pattern :: "cartela \<Rightarrow> string \<Rightarrow> nat \<times> board_coord list \<Rightarrow> completed_pattern" where
  "group_pattern c ruleKey entry =
     \<lparr>cp_type = ruleKey, cp_key = ''PATTERN_'' @ show_nat (fst entry + 1),
      cp_numbers = getPatternNumbers (buildBoardRows c) (snd entry), cp_cells = Some (snd entry)\<rparr>"

definition group_patterns ::
  "string \<Rightarrow> board_coord list list \<Rightarrow> cartela \<Rightarrow> int set \<Rightarrow> completed_pattern list" where
  "group_patterns ruleKey groups c S =
     map (group_pattern c ruleKey)
       (filter (\<lambda>e. marked_all c S (snd e))
         (filter (\<lambda>e. snd e \<noteq> []) (zip [0..<length groups] groups)))"

lemma length_filter_all: "length (filter P xs) = length xs \<longleftrightarrow> list_all P xs"
proof
  assume "length (filter P xs) = length xs"
  then show "list_all P xs"
    unfolding list_all_iff using length_filter_less [of _ xs P] by fastforce
qed (simp add: list_all_iff)

lemma marked_count_all:
  "marked_count (buildBoardRows c) S cells = length cells \<longleftrightarrow> marked_all c S cells"
  unfolding marked_count_def by (rule length_filter_all)

lemma group_step_eq:
  "fst (group_step (buildBoardRows c) S ruleKey e (acc, best)) =
   acc @ map (group_pattern c ruleKey) (if snd e \<noteq> [] \<and> marked_all c S (snd e) then [e] else [])"
  by (cases e) (simp add: group_step_def group_pattern_def marked_count_all Let_def)

lemma group_step_fst:
  "fst (fold (group_step (buildBoardRows c) S ruleKey) es (acc, best)) =
   acc @ map (group_pattern c ruleKey)
     (filter (\<lambda>e. marked_all c S (snd e)) (filter (\<lambda>e. snd e \<noteq> []) es))"
proof (induction es arbitrary: acc best)
  case (Cons e es)
  obtain acc' best' where step: "group_step (buildBoardRows c) S ruleKey e (acc, best) = (acc', best')"
    by (rule prod.exhaust)
  then have "acc' = acc @ map (group_pattern c ruleKey)
      (if snd e \<noteq> [] \<and> marked_all c S (snd e) then [e] else [])"
    using group_step_eq [of c S ruleKey e acc best] by simp
  then show ?case unfolding fold.simps o_apply step Cons.IH by simp
qed simp

lemma marked_count_le: "marked_count rows S cells \<le> length cells"
  by (simp add: marked_count_def)

lemma group_step_snd:
  "0 \<le> best \<Longrightarrow> best \<le> 1 \<Longrightarrow>
   (let b = snd (fold (group_step (buildBoardRows c) S ruleKey) es (acc, best)) in
     best \<le> b \<and> b \<le> 1 \<and> ((\<exists>e\<in>set es. snd e \<noteq> [] \<and> marked_all c S (snd e)) \<longrightarrow> b = 1))"
proof (induction es arbitrary: acc best)
  case (Cons e es)
  obtain i cells where e: "e = (i, cells)" by force
  define r :: rat where "r = (if length cells > 0
    then of_nat (marked_count (buildBoardRows c) S cells) / of_nat (length cells) else 0)"
  obtain acc' where step: "group_step (buildBoardRows c) S ruleKey (i, cells) (acc, best) = (acc', max best r)"
    by (auto simp: group_step_def Let_def max_def r_def)
  have r: "r \<le> 1" using marked_count_le by (simp add: r_def divide_le_eq_1)
  have full: "r = 1" if "cells \<noteq> []" "marked_all c S cells"
    using that by (simp add: r_def marked_count_all [THEN iffD2])
  have "0 \<le> max best r" "max best r \<le> 1" using Cons.prems r by auto
  note ih = Cons.IH [OF this, of acc', unfolded Let_def]
  have one: "max best r = 1" if "cells \<noteq> []" "marked_all c S cells"
    using full [OF that] Cons.prems by simp
  show ?case
    unfolding Let_def e fold.simps o_apply step using ih one by (auto simp: Let_def)
qed simp

lemma pattern_source_groups: "pattern_source (group_patterns ruleKey groups)"
proof (rule pattern_source_lines)
  show "group_patterns ruleKey groups c S = map (group_pattern c ruleKey)
      (filter (\<lambda>x. marked_all c S (snd x)) (filter (\<lambda>e. snd e \<noteq> []) (zip [0..<length groups] groups)))"
    for c S by (rule group_patterns_def)
qed (simp add: pattern_on_def group_pattern_def)

lemma fair_groups:
  assumes board: "full_board c"
    and S: "S = buildCalledNumbersSet calls" and l: "l = getLatestCalledNumber calls"
  shows "fair c (\<lambda>S. group_patterns ruleKey groups c S \<noteq> []) calls
    (evaluatePatternGroup c S l ruleKey groups)"
proof -
  let ?es = "zip [0..<length groups] groups"
  obtain found best where
    fold: "fold (group_step (buildBoardRows c) S ruleKey) ?es ([], 0) = (found, best)" by force
  have found: "found = group_patterns ruleKey groups c S"
    using group_step_fst [of c S ruleKey ?es "[]" 0] by (simp add: fold group_patterns_def)
  have best: "0 \<le> best" "best \<le> 1"
      "(\<exists>e\<in>set ?es. snd e \<noteq> [] \<and> marked_all c S (snd e)) \<longrightarrow> best = 1"
    using group_step_snd [of 0 c S ruleKey ?es "[]"] by (simp_all add: fold)
  have one: "best = 1" if "group_patterns ruleKey groups c S \<noteq> []"
    using that best(3) by (auto simp: group_patterns_def filter_empty_conv)
  show ?thesis
    unfolding evaluatePatternGroup_def Let_def fold prod.case found
    by (rule fair_one_of [OF pattern_source_groups board S l, where n = "Some 1"])
      (use best one in auto)
qed

section \<open>Combos\<close>

definition combo_wins :: "combo_pattern \<Rightarrow> cartela \<Rightarrow> int set \<Rightarrow> bool" where
  "combo_wins combo c S \<longleftrightarrow>
     (\<exists>view\<in>set (instance_views combo (generateCompletedPatternInstances c S)). \<exists>cs.
        legal (guard_of (cb_overlap combo)) (buildRequirementPools combo view) [] cs)"

lemma combo_wins_found:
  "full_board c \<Longrightarrow> kinds_apart combo \<Longrightarrow>
   combo_wins combo c S \<longleftrightarrow>
   findAllWinningCombinations combo (generateCompletedPatternInstances c S) \<noteq> []"
  using findAllWinningCombinations_found distinct_generated_ids by (simp add: combo_wins_def)

lemma combo_wins_mono:
  "full_board c \<Longrightarrow> kinds_apart combo \<Longrightarrow> combo_wins combo c S \<Longrightarrow> S \<subseteq> S' \<Longrightarrow>
   combo_wins combo c S'"
  using findAllWinningCombinations_grow [OF _ generate_mono distinct_generated_ids, of combo c S S']
  by (simp add: combo_wins_found)

text \<open>A selection lies on instances of its view.\<close>

lemma legal_subset:
  "legal guard ps sel cs \<Longrightarrow> set (concat cs) \<subseteq> (\<Union>p\<in>set ps. set (rp_candidates p))"
proof (induction guard ps sel cs rule: legal.induct)
  case (2 guard p ps sel c cs)
  then show ?case using subseq_set [of c "rp_candidates p"] by (auto simp: set_choices)
qed auto

lemma legal_filter:
  assumes "legal guard ps sel cs" "\<forall>x\<in>set (concat cs). Q x"
    and "list_all2 (\<lambda>p q. rp_requirement q = rp_requirement p \<and>
           rp_candidates q = filter Q (rp_candidates p)) ps qs"
  shows "legal guard qs sel cs"
  using assms
proof (induction guard ps sel cs arbitrary: qs rule: legal.induct)
  case (2 guard p ps sel c cs)
  from 2(4) obtain q qs' where qs: "qs = q # qs'" "rp_requirement q = rp_requirement p"
      "rp_candidates q = filter Q (rp_candidates p)"
    and rest: "list_all2 (\<lambda>p q. rp_requirement q = rp_requirement p \<and>
           rp_candidates q = filter Q (rp_candidates p)) ps qs'"
    by (auto simp: list_all2_Cons1)
  have "subseq (filter Q c) (filter Q (rp_candidates p))"
    using 2(2) by (auto simp: set_choices intro: subseq_filter)
  then have "c \<in> set (choices q)"
    using 2(2,3) by (auto simp: set_choices qs filter_True)
  then show ?case using 2(1) [OF _ _ rest] 2(2,3) by (simp add: qs)
qed auto

lemma generate_restrict:
  assumes "full_board c" "S \<subseteq> S'"
  shows "generateCompletedPatternInstances c S =
    filter (\<lambda>p. marked_all c S (pi_cells p)) (generateCompletedPatternInstances c S')"
proof -
  have "shape_marked c S s \<Longrightarrow> shape_marked c S' s" for s
    using marked_all_mono assms(2) by (cases s) (auto simp: shape_marked_def)
  then have "filter (shape_marked c S) (filter (shape_marked c S') xs) = filter (shape_marked c S) xs"
    for xs by (auto intro: filter_cong)
  moreover have "marked_all c S (pi_cells (instance_of c s)) = shape_marked c S s" for s
    by (simp add: shape_marked_def case_prod_unfold)
  ultimately show ?thesis
    unfolding generate_eq_table [OF assms(1)] completed_shapes_def filter_map o_def by simp
qed

lemma instance_views_filter:
  "instance_views combo (filter Q xs) = map (filter Q) (instance_views combo xs)"
  by (auto simp: instance_views_def parallel_instances_def conj_commute intro!: filter_cong)

lemma pools_filter:
  "list_all2 (\<lambda>p q. rp_requirement q = rp_requirement p \<and>
      rp_candidates q = filter Q (rp_candidates p))
    (buildRequirementPools combo view) (buildRequirementPools combo (filter Q view))"
  by (auto simp: buildRequirementPools_def list_all2_map1 list_all2_map2 filterCandidates_def
      conj_commute intro!: list_all2_refl filter_cong)

lemma view_subset:
  "view \<in> set (instance_views combo xs) \<Longrightarrow> p \<in> set (buildRequirementPools combo view) \<Longrightarrow>
   set (rp_candidates p) \<subseteq> set xs"
  by (auto simp: instance_views_def parallel_instances_def buildRequirementPools_def
      filterCandidates_def split: if_splits)

lemma found_instances:
  assumes "full_board c" "kinds_apart combo"
    and "sel \<in> set (findAllWinningCombinations combo (generateCompletedPatternInstances c S))"
  shows "set sel \<subseteq> set (generateCompletedPatternInstances c S)"
proof -
  obtain cs view where "sel = concat cs"
      and view: "view \<in> set (instance_views combo (generateCompletedPatternInstances c S))"
      "legal (guard_of (cb_overlap combo)) (buildRequirementPools combo view) [] cs"
    using assms(3) set_findAllWinningCombinations [OF assms(2) distinct_generated_ids [OF assms(1)]]
    by blast
  then show ?thesis using legal_subset [OF view(2)] view_subset [OF view(1)] by blast
qed

text \<open>A winning selection that did not exist before contains the new number.\<close>

lemma new_selection:
  assumes board: "full_board c" and apart: "kinds_apart combo"
    and sel: "sel \<in> set (findAllWinningCombinations combo
      (generateCompletedPatternInstances c (insert k S)))"
    and before: "\<not> combo_wins combo c S"
  shows "\<exists>p\<in>set sel. k \<in> set (pi_numbers p)"
proof (rule ccontr)
  let ?now = "generateCompletedPatternInstances c (insert k S)"
  let ?Q = "\<lambda>p. marked_all c S (pi_cells p)"
  assume none: "\<not> ?thesis"
  have old: "generateCompletedPatternInstances c S = filter ?Q ?now"
    by (rule generate_restrict [OF board]) auto
  have "?Q p" if p: "p \<in> set sel" for p
  proof (rule ccontr)
    assume notQ: "\<not> ?Q p"
    have mem: "p \<in> set ?now" using found_instances [OF board apart sel] p by blast
    have "k \<in> set (pi_numbers p)"
      using newly_marked_number [OF generated_instance_marked(1) [OF board mem] notQ]
        generated_instance_marked(2) [OF board mem] by simp
    then show False using none p by blast
  qed
  moreover obtain cs view where cs: "sel = concat cs" "view \<in> set (instance_views combo ?now)"
      "legal (guard_of (cb_overlap combo)) (buildRequirementPools combo view) [] cs"
    using sel set_findAllWinningCombinations [OF apart distinct_generated_ids [OF board]] by blast
  ultimately have "legal (guard_of (cb_overlap combo))
      (buildRequirementPools combo (filter ?Q view)) [] cs"
    by (intro legal_filter [OF cs(3) _ pools_filter]) simp
  then have "combo_wins combo c S"
    unfolding combo_wins_def old instance_views_filter using cs(2) by auto
  then show False using before by simp
qed

lemma computeComboProgress_bounds:
  assumes "counts_positive combo"
  shows "0 \<le> computeComboProgress combo instances" "computeComboProgress combo instances \<le> 1"
proof -
  define ratios :: "rat list" where "ratios = map (\<lambda>p. min (of_nat (length (rp_candidates p)) /
      of_int (rq_count (rp_requirement p))) 1) (buildRequirementPools combo instances)"
  have each: "0 \<le> x \<and> x \<le> 1" if "x \<in> set ratios" for x
    using that assms
    by (fastforce simp: ratios_def buildRequirementPools_def counts_positive_def list_all_iff)
  have nonneg: "0 \<le> sum_list ratios"
    by (rule sum_list_nonneg) (use each in auto)
  have "sum_list xs \<le> of_nat (length xs)" if "\<forall>x\<in>set xs. x \<le> (1 :: rat)" for xs
    using that by (induction xs) auto
  then have "sum_list ratios \<le> of_nat (length ratios)" using each by blast
  then show "0 \<le> computeComboProgress combo instances" "computeComboProgress combo instances \<le> 1"
    using nonneg
    by (auto simp: computeComboProgress_def Let_def ratios_def [symmetric] divide_le_eq_1
        simp del: length_map)
qed

lemma legal_first_count:
  "legal guard (p # ps) sel cs \<Longrightarrow> 0 < rq_count (rp_requirement p) \<Longrightarrow> concat cs \<noteq> []"
  by (cases cs) (auto simp: set_choices)

lemma nonempty_selection:
  assumes "wf_pattern (Combo combo)" "kinds_apart combo" "distinct (map pi_id instances)"
    and "sel \<in> set (findAllWinningCombinations combo instances)"
  shows "sel \<noteq> []"
proof -
  obtain r rs where r: "cb_requires combo = r # rs" "0 < rq_count r"
    using assms(1) by (cases "cb_requires combo") (auto simp: wf_requirement_def)
  obtain cs view where cs: "sel = concat cs"
      "legal (guard_of (cb_overlap combo)) (buildRequirementPools combo view) [] cs"
    using assms(4) set_findAllWinningCombinations [OF assms(2,3)] by blast
  show ?thesis
    using legal_first_count r cs by (auto simp: buildRequirementPools_def)
qed

lemma shown_ok_instance:
  assumes "full_board c" "p \<in> set (generateCompletedPatternInstances c S)"
  shows "\<forall>q\<in>set (toCompletedPatterns [p]). shown_ok c S q"
proof -
  have "list_all (\<lambda>s. fst (snd (snd s)) \<noteq> []) (line_shapes @ area_shapes)"
    by code_simp
  moreover obtain s where "p = instance_of c s" "s \<in> set (line_shapes @ area_shapes)"
    using assms unfolding generate_eq_table [OF assms(1)] completed_shapes_def by auto
  ultimately have "pi_cells p \<noteq> []" unfolding list_all_iff by simp
  then show ?thesis
    using generated_instance_marked(1,2) [OF assms]
    by (auto simp: toCompletedPatterns_def shown_ok_def pattern_on_def)
qed

lemma fair_combo:
  assumes board: "full_board c" and wf: "wf_pattern (Combo combo)" and apart: "kinds_apart combo"
  shows "fair c (combo_wins combo c) calls (comboEvaluate c calls ruleKey combo)"
proof -
  define S where "S = buildCalledNumbersSet calls"
  define l where "l = getLatestCalledNumber calls"
  define inst where "inst = generateCompletedPatternInstances c S"
  define sel where "sel = sr_selectedPatterns (solveCombo combo inst l)"
  have counts: "counts_positive combo" by (rule wf_counts_positive [OF wf])
  have win: "isMinimumRuleSatisfied combo inst \<longleftrightarrow> combo_wins combo c S"
    using isMinimumRuleSatisfied_found [OF counts] combo_wins_found [OF board apart]
    by (simp add: inst_def)
  have found: "findAllWinningCombinations combo inst \<noteq> []" if "combo_wins combo c S"
    using that combo_wins_found [OF board apart] by (simp add: inst_def)
  have sel_in: "sel \<in> set (findAllWinningCombinations combo inst)" if "combo_wins combo c S"
    using solveCombo_selected solveCombo_winner found [OF that] unfolding sel_def by blast
  have sub: "set sel \<subseteq> set inst" if "combo_wins combo c S"
    using found_instances [OF board apart] sel_in [OF that] unfolding inst_def by blast
  have ok: "\<forall>q\<in>set (toCompletedPatterns sel). shown_ok c S q" if "combo_wins combo c S"
    using shown_ok_instance [OF board] sub [OF that]
    by (fastforce simp: toCompletedPatterns_def inst_def)
  have ne: "sel \<noteq> []" if "combo_wins combo c S"
    using sel_in [OF that] nonempty_selection wf apart distinct_generated_ids [OF board]
    unfolding inst_def by blast
  have newly: "\<exists>p\<in>set sel. cn_number (last calls) \<in> set (pi_numbers p)"
    if "combo_wins combo c S" "calls \<noteq> []" "\<not> combo_wins combo c (buildCalledNumbersSet (butlast calls))"
    using new_selection [OF board apart _ that(3)] sel_in [OF that(1)]
    unfolding inst_def S_def called_split [OF that(2)] by blast
  have resolve: "resolveWinningComboPatterns combo inst l = (if combo_wins combo c S then sel else [])"
    by (simp add: resolveWinningComboPatterns_def win sel_def)
  show ?thesis
    unfolding fair_def comboEvaluate_def Let_def S_def [symmetric] l_def [symmetric]
      inst_def [symmetric] computeCompletedByLatestNumber_def resolve win
    using ok ne newly computeComboProgress_bounds [OF counts, of inst]
    by (auto simp: l_def getLatestCalledNumber_eq list_ex_iff toCompletedPatterns_def)
qed

section \<open>The condition each pattern stands for\<close>

definition line_cells :: "board_coord list list" where
  "line_cells =
     map buildRowCells [0, 1, 2, 3, 4] @ map buildColumnCells [0, 1, 2, 3, 4] @
     map buildDiagonalCells [0, 1]"

fun pattern_wins :: "cartela \<Rightarrow> game_rule_pattern \<Rightarrow> int set \<Rightarrow> bool" where
  "pattern_wins c Full_House S =
     (\<forall>r\<in>{0, 1, 2, 3, 4}. \<forall>k\<in>{0, 1, 2, 3, 4}. cell_marked c S (r, k))"
| "pattern_wins c (Rows_Required count) S =
     (count \<le> int (card {r \<in> {0, 1, 2, 3, 4}. marked_all c S (buildRowCells r)}))"
| "pattern_wins c Any_Line S = (\<exists>cells\<in>set line_cells. marked_all c S cells)"
| "pattern_wins c Any_Row S = (\<exists>r\<in>{0, 1, 2, 3, 4}. marked_all c S (buildRowCells r))"
| "pattern_wins c Any_Column S = (\<exists>k\<in>{0, 1, 2, 3, 4}. marked_all c S (buildColumnCells k))"
| "pattern_wins c Any_Diagonal S = (\<exists>d\<in>{0, 1}. marked_all c S (buildDiagonalCells d))"
| "pattern_wins c Line_Touches_Free S =
     (\<exists>cells\<in>set line_cells. FREE_CENTER \<in> set cells \<and> marked_all c S cells)"
| "pattern_wins c Line_Without_Free S =
     (\<exists>cells\<in>set line_cells. FREE_CENTER \<notin> set cells \<and> marked_all c S cells)"
| "pattern_wins c (Pattern_Group groups) S =
     (\<exists>cells\<in>set groups. cells \<noteq> [] \<and> marked_all c S cells)"
| "pattern_wins c (Combo combo) S = combo_wins combo c S"

lemma some_rows: "getCompletedRowPatterns c S \<noteq> [] \<longleftrightarrow>
    (\<exists>r\<in>{0, 1, 2, 3, 4}. marked_all c S (buildRowCells r))"
  unfolding getCompletedRowPatterns_eq by (simp add: filter_empty_conv)

lemma some_columns: "full_board c \<Longrightarrow> getCompletedColumnPatterns c S \<noteq> [] \<longleftrightarrow>
    (\<exists>k\<in>{0, 1, 2, 3, 4}. marked_all c S (buildColumnCells k))"
  by (simp add: getCompletedColumnPatterns_eq filter_empty_conv)

lemma some_diagonals: "getCompletedDiagonalPatterns c S \<noteq> [] \<longleftrightarrow>
    (\<exists>d\<in>{0, 1}. marked_all c S (buildDiagonalCells d))"
  unfolding getCompletedDiagonalPatterns_eq by (simp add: filter_empty_conv)

lemma key_of_pattern:
  "cp_key (row_pattern rows i) = ''ROW_'' @ show_int i"
  "cp_key (column_pattern rows k) = ''COL_'' @ COLUMN_LABELS ! nat k"
  by (simp_all add: row_pattern_def column_pattern_def Let_def)

lemma keys_centre:
  "list_all (\<lambda>i. (''ROW_'' @ show_int (i + 1) = centre_row_key) =
     List.member (buildRowCells i) FREE_CENTER) [0, 1, 2, 3, 4]"
  "list_all (\<lambda>i. (''COL_'' @ COLUMN_LABELS ! nat i = centre_column_key) =
     List.member (buildColumnCells i) FREE_CENTER) [0, 1, 2, 3, 4]"
  by code_simp+

lemma some_any_row: "getCompletedRowPatterns c S \<noteq> [] \<longleftrightarrow> pattern_wins c Any_Row S"
  by (simp only: some_rows pattern_wins.simps)

lemma some_any_column:
  "full_board c \<Longrightarrow> getCompletedColumnPatterns c S \<noteq> [] \<longleftrightarrow> pattern_wins c Any_Column S"
  by (simp only: some_columns pattern_wins.simps)

lemma some_any_diagonal: "getCompletedDiagonalPatterns c S \<noteq> [] \<longleftrightarrow> pattern_wins c Any_Diagonal S"
  by (simp only: some_diagonals pattern_wins.simps)

lemma row_key_centre:
  "i \<in> set [0, 1, 2, 3, 4] \<Longrightarrow>
   (cp_key (row_pattern rows (i + 1)) = centre_row_key) = (FREE_CENTER \<in> set (buildRowCells i))"
  using keys_centre(1) by (simp only: key_of_pattern list_all_iff List.member_iff)

lemma column_key_centre:
  "i \<in> set [0, 1, 2, 3, 4] \<Longrightarrow>
   (cp_key (column_pattern rows i) = centre_column_key) = (FREE_CENTER \<in> set (buildColumnCells i))"
  using keys_centre(2) by (simp only: key_of_pattern list_all_iff List.member_iff)

lemma filter_map_nonempty:
  assumes "\<And>i. i \<in> set xs \<Longrightarrow> (K (f i) = k) = F i"
  shows "filter (\<lambda>p. P (K p = k)) (map f (filter Q xs)) \<noteq> [] \<longleftrightarrow> (\<exists>i\<in>set xs. P (F i) \<and> Q i)"
  using assms by (auto simp: filter_empty_conv)

lemma filter_row_patterns:
  "filter (\<lambda>p. P (cp_key p = centre_row_key)) (getCompletedRowPatterns c S) \<noteq> [] \<longleftrightarrow>
   (\<exists>i\<in>set [0, 1, 2, 3, 4]. P (FREE_CENTER \<in> set (buildRowCells i)) \<and> marked_all c S (buildRowCells i))"
  unfolding getCompletedRowPatterns_eq by (rule filter_map_nonempty, rule row_key_centre)

lemma filter_column_patterns:
  "full_board c \<Longrightarrow>
   filter (\<lambda>p. P (cp_key p = centre_column_key)) (getCompletedColumnPatterns c S) \<noteq> [] \<longleftrightarrow>
   (\<exists>i\<in>set [0, 1, 2, 3, 4]. P (FREE_CENTER \<in> set (buildColumnCells i)) \<and> marked_all c S (buildColumnCells i))"
  unfolding getCompletedColumnPatterns_eq by (rule filter_map_nonempty, rule column_key_centre)

lemma centre_on_diagonals: "d \<in> {0, 1} \<Longrightarrow> FREE_CENTER \<in> set (buildDiagonalCells d)"
  by (auto simp: buildDiagonalCells_def FREE_CENTER_def)

lemma bex_line_cells:
  "(\<exists>cells\<in>set line_cells. P cells) \<longleftrightarrow>
   (\<exists>r\<in>set [0, 1, 2, 3, 4]. P (buildRowCells r)) \<or> (\<exists>k\<in>set [0, 1, 2, 3, 4]. P (buildColumnCells k)) \<or>
   (\<exists>d\<in>{0, 1}. P (buildDiagonalCells d))"
  unfolding line_cells_def by auto

lemma some_lines:
  "full_board c \<Longrightarrow> all_line_patterns c S \<noteq> [] \<longleftrightarrow> pattern_wins c Any_Line S"
  unfolding pattern_wins.simps bex_line_cells all_line_patterns_def append_is_Nil_conv de_Morgan_conj
  by (simp only: some_rows some_columns some_diagonals list.set)

lemma some_free_lines:
  assumes "full_board c"
  shows "free_line_patterns c S \<noteq> [] \<longleftrightarrow> pattern_wins c Line_Touches_Free S"
proof -
  have "(\<exists>d\<in>{0, 1}. FREE_CENTER \<in> set (buildDiagonalCells d) \<and> marked_all c S (buildDiagonalCells d))
      \<longleftrightarrow> (\<exists>d\<in>{0, 1}. marked_all c S (buildDiagonalCells d))"
    using centre_on_diagonals by blast
  then show ?thesis
    unfolding pattern_wins.simps bex_line_cells free_line_patterns_def append_is_Nil_conv
      de_Morgan_conj some_diagonals
    by (simp only: filter_row_patterns [of "\<lambda>b. b"] filter_column_patterns [OF assms, of "\<lambda>b. b"])
qed

lemma some_other_lines:
  assumes "full_board c"
  shows "other_line_patterns c S \<noteq> [] \<longleftrightarrow> pattern_wins c Line_Without_Free S"
proof -
  have "\<not> (\<exists>d\<in>{0, 1}. FREE_CENTER \<notin> set (buildDiagonalCells d) \<and> marked_all c S (buildDiagonalCells d))"
    using centre_on_diagonals by blast
  then show ?thesis
    unfolding pattern_wins.simps bex_line_cells other_line_patterns_def append_is_Nil_conv
      de_Morgan_conj
    by (simp only: filter_row_patterns [of Not] filter_column_patterns [OF assms, of Not] simp_thms)
qed

lemma some_groups:
  "group_patterns ruleKey groups c S \<noteq> [] \<longleftrightarrow> pattern_wins c (Pattern_Group groups) S"
proof -
  have "set groups = snd ` set (zip [0..<length groups] groups)"
    by (simp only: set_map [symmetric] map_snd_zip length_upt minus_nat.diff_0)
  then have "(\<exists>g\<in>set groups. P g) \<longleftrightarrow> (\<exists>e\<in>set (zip [0..<length groups] groups). P (snd e))" for P
    by simp
  then show ?thesis
    by (simp only: group_patterns_def map_is_Nil_conv filter_filter filter_empty_conv
        pattern_wins.simps) simp
qed

lemma length_filter_card: "distinct xs \<Longrightarrow> length (filter P xs) = card {x \<in> set xs. P x}"
  using distinct_card [OF distinct_filter, of xs P] by simp

lemma enough_rows:
  "n \<le> int (length (getCompletedRowIndexes c S)) \<longleftrightarrow> pattern_wins c (Rows_Required n) S"
proof -
  have "length (filter P [0, 1, 2, 3, 4]) = card {x \<in> {0, 1, 2, 3, 4}. P x}"
    for P :: "int \<Rightarrow> bool"
    using length_filter_card [of "[0, 1, 2, 3, 4]" P] by (simp only: list.set) simp
  then show ?thesis
    by (simp only: getCompletedRowIndexes_eq length_map pattern_wins.simps)
qed

definition rule_ok :: "cartela \<Rightarrow> game_rule_pattern \<Rightarrow> bool" where
  "rule_ok c p \<longleftrightarrow> full_board c \<and> wf_pattern p \<and> mixed_kinds_apart p"

lemma patternEvaluate_fair:
  assumes "rule_ok c p"
  shows "fair c (pattern_wins c p) calls (patternEvaluate c calls ruleKey p)"
proof -
  have board: "full_board c" and wf: "wf_pattern p" and apart: "mixed_kinds_apart p"
    using assms by (simp_all add: rule_ok_def)
  show ?thesis
  proof (cases p)
    case Full_House
    have "pattern_wins c Full_House = isFullHouse c" by (intro ext) (simp add: isFullHouse_iff)
    then show ?thesis
      using fair_full_house [OF board refl refl] Full_House by (simp add: patternEvaluate_def del: pattern_wins.simps)
  next
    case (Rows_Required n)
    then show ?thesis
      using fair_rows_required [OF board _ refl refl, of n calls] wf
      unfolding enough_rows by (simp add: patternEvaluate_def del: pattern_wins.simps)
  next
    case Any_Line
    then show ?thesis
      using fair_any_line [OF board] unfolding some_lines [OF board]
      by (simp add: patternEvaluate_def del: pattern_wins.simps)
  next
    case Any_Row
    then show ?thesis
      using fair_any_row [OF board] unfolding some_any_row
      by (simp add: patternEvaluate_def del: pattern_wins.simps)
  next
    case Any_Column
    then show ?thesis
      using fair_any_column [OF board] unfolding some_any_column [OF board]
      by (simp add: patternEvaluate_def del: pattern_wins.simps)
  next
    case Any_Diagonal
    then show ?thesis
      using fair_any_diagonal [OF board] unfolding some_any_diagonal
      by (simp add: patternEvaluate_def del: pattern_wins.simps)
  next
    case Line_Touches_Free
    then show ?thesis
      using fair_touches_free [OF board] unfolding some_free_lines [OF board]
      by (simp add: patternEvaluate_def del: pattern_wins.simps)
  next
    case Line_Without_Free
    then show ?thesis
      using fair_without_free [OF board] unfolding some_other_lines [OF board]
      by (simp add: patternEvaluate_def del: pattern_wins.simps)
  next
    case (Pattern_Group groups)
    then show ?thesis
      using fair_groups [OF board refl refl] unfolding some_groups
      by (simp add: patternEvaluate_def del: pattern_wins.simps)
  next
    case (Combo combo)
    have "pattern_wins c (Combo combo) = combo_wins combo c" by (intro ext) simp
    then show ?thesis
      using fair_combo [OF board, of combo calls] wf apart Combo by (simp add: patternEvaluate_def)
  qed
qed

lemma generated_mono_wins:
  assumes "rule_ok c p" "pattern_wins c p S" "S \<subseteq> S'"
  shows "pattern_wins c p S'"
proof (cases p)
  case (Rows_Required n)
  have "card {r \<in> {0, 1, 2, 3, 4}. marked_all c S (buildRowCells r)} \<le>
      card {r \<in> {0, 1, 2, 3, 4}. marked_all c S' (buildRowCells r)}"
    using marked_all_mono [OF _ assms(3)] by (intro card_mono) auto
  then show ?thesis using assms(2) Rows_Required unfolding Rows_Required pattern_wins.simps by linarith
next
  case (Combo combo)
  then show ?thesis
    using combo_wins_mono [of c combo S S'] assms by (simp add: rule_ok_def)
qed (use assms(2,3) in \<open>auto simp only: pattern_wins.simps
    intro: marked_all_mono isMarkedCellValue_mono\<close>)

lemma shown_numbers_called:
  assumes "marked_all c (buildCalledNumbersSet calls) cells"
  shows "set (getPatternNumbers (buildBoardRows c) cells) \<subseteq> set (map cn_number calls)"
  using assms isMarkedCellValue_number
  by (fastforce simp: getPatternNumbers_iff list_all_iff buildCalledNumbersSet_def)

lemma shown_needs_number: "k \<in> set (cp_numbers p) \<Longrightarrow> k \<notin> S \<Longrightarrow> \<not> shown_ok c S p"
  using number_newly_marked by (auto simp: shown_ok_def pattern_on_def)

section \<open>The contract of the evaluator for its clients\<close>

text \<open>
  A \<open>judge\<close> decides from the list of called numbers. What the claim flow relies on follows from
  fairness of each verdict and from winning being kept.
\<close>

locale judge =
  fixes valid :: "'r \<Rightarrow> bool" and board_of :: "'r \<Rightarrow> cartela"
    and verdict :: "'r \<Rightarrow> called_number list \<Rightarrow> evaluation_result"
    and wins :: "'r \<Rightarrow> int set \<Rightarrow> bool"
  assumes verdict_fair: "valid r \<Longrightarrow> fair (board_of r) (wins r) calls (verdict r calls)"
    and wins_mono: "valid r \<Longrightarrow> wins r S \<Longrightarrow> S \<subseteq> S' \<Longrightarrow> wins r S'"
begin

lemma winner_iff: "valid r \<Longrightarrow> is_winner (verdict r calls) = wins r (buildCalledNumbersSet calls)"
  using verdict_fair by (simp add: fair_def)

lemma winner_kept:
  "valid r \<Longrightarrow> is_winner (verdict r calls) \<Longrightarrow> is_winner (verdict r (calls @ further))"
  using wins_mono by (auto simp: winner_iff buildCalledNumbersSet_def)

lemma order_irrelevant:
  "valid r \<Longrightarrow> set (map cn_number calls) = set (map cn_number calls') \<Longrightarrow>
   is_winner (verdict r calls) = is_winner (verdict r calls')"
  by (simp add: winner_iff buildCalledNumbersSet_def)

lemma by_latest_wins:
  "valid r \<Longrightarrow> completed_by_latest (verdict r calls) \<Longrightarrow> is_winner (verdict r calls)"
  using verdict_fair [of r calls] unfolding fair_def by blast

lemma first_win_by_latest:
  "valid r \<Longrightarrow> is_winner (verdict r (calls @ [x])) \<Longrightarrow> \<not> is_winner (verdict r calls) \<Longrightarrow>
   completed_by_latest (verdict r (calls @ [x]))"
  using verdict_fair [of r "calls @ [x]"] by (simp add: fair_def winner_iff)

lemma shown_marked:
  "valid r \<Longrightarrow> p \<in> set (completed_patterns (verdict r calls)) \<Longrightarrow>
   shown_ok (board_of r) (buildCalledNumbersSet calls) p"
  using verdict_fair [of r calls] unfolding fair_def by blast

lemma by_latest_shows:
  "valid r \<Longrightarrow> completed_by_latest (verdict r calls) \<Longrightarrow>
   is_winner (verdict r calls) \<and> calls \<noteq> [] \<and>
   (\<exists>p\<in>set (completed_patterns (verdict r calls)). cn_number (last calls) \<in> set (cp_numbers p))"
  using verdict_fair [of r calls] unfolding fair_def by blast

lemma progress_range:
  "valid r \<Longrightarrow> 0 \<le> progress (verdict r calls) \<and> progress (verdict r calls) \<le> 1 \<and>
   (is_winner (verdict r calls) \<longrightarrow>
      progress (verdict r calls) = 1 \<and> completed_patterns (verdict r calls) \<noteq> []) \<and>
   latest_number (verdict r calls) = getLatestCalledNumber calls"
  using verdict_fair [of r calls] unfolding fair_def by blast

text \<open>There is exactly one draw at which the cartela starts to win, and it is credited to it.\<close>

lemma winning_draw:
  assumes "valid r" "is_winner (verdict r calls)" "\<not> is_winner (verdict r [])"
  shows "\<exists>!k. k < length calls \<and> \<not> is_winner (verdict r (take k calls)) \<and>
    is_winner (verdict r (take (Suc k) calls))"
    and "\<exists>k<length calls. \<not> is_winner (verdict r (take k calls)) \<and>
      is_winner (verdict r (take (Suc k) calls)) \<and>
      completed_by_latest (verdict r (take (Suc k) calls))"
proof -
  let ?w = "\<lambda>k. is_winner (verdict r (take k calls))"
  have up: "?w i \<Longrightarrow> i \<le> j \<Longrightarrow> ?w j" for i j
    using winner_kept [OF assms(1), of "take i calls" "drop i (take j calls)"]
      append_take_drop_id [of i "take j calls"] by (simp add: min_absorb1)
  define k where "k = (LEAST n. ?w n)"
  have wk: "?w k" unfolding k_def by (rule LeastI [of ?w "length calls"]) (simp add: assms(2))
  have least: "\<not> ?w n" if "n < k" for n using that not_less_Least unfolding k_def by blast
  have "k \<noteq> 0" using wk assms(3) by (cases k) auto
  then obtain m where m: "k = Suc m" by (cases k) auto
  have "k \<le> length calls" unfolding k_def by (rule Least_le) (simp add: assms(2))
  then have mlen: "m < length calls" using m by simp
  have turn: "\<not> ?w m" "?w (Suc m)" using least wk m by auto
  have uniq: "n = m" if "\<not> ?w n" "?w (Suc n)" for n
  proof (rule linorder_cases [of n m])
    assume "n < m"
    then show ?thesis using up [OF that(2), of m] turn(1) by simp
  next
    assume "m < n"
    then show ?thesis using up [OF turn(2), of n] that(1) by simp
  qed
  show "\<exists>!k. k < length calls \<and> \<not> ?w k \<and> ?w (Suc k)"
    using mlen turn uniq by blast
  have "completed_by_latest (verdict r (take (Suc m) calls))"
    using first_win_by_latest [OF assms(1), of "take m calls" "calls ! m"] turn mlen
    by (simp add: take_Suc_conv_app_nth)
  then show "\<exists>k<length calls. \<not> ?w k \<and> ?w (Suc k) \<and>
      completed_by_latest (verdict r (take (Suc k) calls))"
    using mlen turn by blast
qed

end

text \<open>A rule applied to a cartela: the board, the key it is reported under and the pattern.\<close>

type_synonym rule_use = "cartela \<times> string \<times> game_rule_pattern"

interpretation pattern_judge: judge
  "\<lambda>(c, key, p). rule_ok c p" fst
  "\<lambda>(c, key, p) calls. patternEvaluate c calls key p" "\<lambda>(c, key, p). pattern_wins c p"
  by unfold_locales (auto intro: patternEvaluate_fair generated_mono_wins)

section \<open>The evaluation service\<close>

definition resolved_pattern :: "string \<Rightarrow> js \<Rightarrow> game_rule_pattern option" where
  "resolved_pattern ruleKey patterns =
     (case parseGameRulePattern patterns of
        Some p \<Rightarrow> Some p | None \<Rightarrow> getRulePattern (js_upper (js_trim ruleKey)))"

lemma evaluate_resolved:
  "resolved_pattern ruleKey patterns = Some p \<Longrightarrow>
   evaluate c calls ruleKey patterns = patternEvaluate c calls (js_upper (js_trim ruleKey)) p"
  by (simp add: evaluate_def resolved_pattern_def Let_def)

lemma resolved_wf: "resolved_pattern ruleKey patterns = Some p \<Longrightarrow> wf_pattern p"
  using parseGameRulePattern_wf getRulePattern_wf
  by (auto simp: resolved_pattern_def split: option.splits)

lemma legacy_keys_defined:
  "list_all (\<lambda>key. getRulePattern key \<noteq> None)
     [''FULL_HOUSE'', ''HALF_HOUSE'', ''LINE'', ''ROWS'', ''COLUMNS'', ''DIAGONAL'']"
  by code_simp

lemma legacy_supports:
  "find (\<lambda>entry. ev_supports entry key) legacyEvaluators \<noteq> None \<Longrightarrow>
   js_upper key \<in> set [''FULL_HOUSE'', ''HALF_HOUSE'', ''LINE'', ''ROWS'', ''COLUMNS'', ''DIAGONAL'']"
  by (auto simp: legacyEvaluators_def FullHouseRuleEvaluator_def HalfHouseRuleEvaluator_def
      LineRuleEvaluator_def RowsRuleEvaluator_def ColumnsRuleEvaluator_def
      DiagonalRuleEvaluator_def split: if_splits)

text \<open>A key no pattern is found for is not one of the old keys either.\<close>

lemma legacy_unreachable:
  assumes "getRulePattern (js_upper (js_trim ruleKey)) = None"
  shows "find (\<lambda>entry. ev_supports entry (js_upper (js_trim ruleKey))) legacyEvaluators = None"
proof (rule ccontr)
  assume "\<not> ?thesis"
  from legacy_supports [OF this] have "js_upper (js_trim ruleKey) \<in>
      set [''FULL_HOUSE'', ''HALF_HOUSE'', ''LINE'', ''ROWS'', ''COLUMNS'', ''DIAGONAL'']"
    unfolding js_upper_idem .
  then show False using legacy_keys_defined assms unfolding list_all_iff by metis
qed

lemma evaluate_unresolved:
  assumes "resolved_pattern ruleKey patterns = None"
  shows "evaluate c calls ruleKey patterns =
    \<lparr>is_winner = False, matched_pattern = keyed (js_upper (js_trim ruleKey)) ''UNSUPPORTED'',
     progress = 0, latest_number = getLatestCalledNumber calls,
     completed_by_latest = False, completed_patterns = []\<rparr>"
  using assms legacy_unreachable [of ruleKey]
  by (auto simp: evaluate_def resolved_pattern_def Let_def split: option.splits)

definition service_ok :: "cartela \<times> string \<times> js \<Rightarrow> bool" where
  "service_ok u \<longleftrightarrow>
     (case u of (c, key, patterns) \<Rightarrow>
        full_board c \<and>
        (case resolved_pattern key patterns of None \<Rightarrow> True | Some p \<Rightarrow> mixed_kinds_apart p))"

definition service_wins :: "cartela \<times> string \<times> js \<Rightarrow> int set \<Rightarrow> bool" where
  "service_wins u S =
     (case u of (c, key, patterns) \<Rightarrow>
        (case resolved_pattern key patterns of None \<Rightarrow> False | Some p \<Rightarrow> pattern_wins c p S))"

definition service_verdict :: "cartela \<times> string \<times> js \<Rightarrow> called_number list \<Rightarrow> evaluation_result" where
  "service_verdict u calls = (case u of (c, key, patterns) \<Rightarrow> evaluate c calls key patterns)"

lemma service_rule_ok:
  "service_ok (c, key, patterns) \<Longrightarrow> resolved_pattern key patterns = Some p \<Longrightarrow> rule_ok c p"
  by (simp add: service_ok_def rule_ok_def resolved_wf)

interpretation service_judge: judge service_ok fst service_verdict service_wins
proof
  fix u calls
  assume ok: "service_ok u"
  obtain c key patterns where u: "u = (c, key, patterns)" by (cases u)
  show "fair (fst u) (service_wins u) calls (service_verdict u calls)"
  proof (cases "resolved_pattern key patterns")
    case None
    then show ?thesis
      by (simp add: u service_verdict_def service_wins_def evaluate_unresolved fair_def)
  next
    case (Some p)
    have "service_wins u = pattern_wins c p"
      by (intro ext) (simp add: u service_wins_def Some)
    then show ?thesis
      using patternEvaluate_fair [OF service_rule_ok [OF ok [unfolded u] Some]]
      by (simp add: u service_verdict_def evaluate_resolved [OF Some])
  qed
next
  fix u S S'
  assume "service_ok u" "service_wins u S" "S \<subseteq> (S' :: int set)"
  then show "service_wins u S'"
    using generated_mono_wins service_rule_ok
    by (cases u) (auto simp: service_wins_def split: option.splits)
qed

end
