(* ===== verification/GameRuleProperties.thy ===== *)
theory GameRuleProperties
  imports RuleVerdicts
begin

text \<open>
  The properties of the rule evaluation of \<open>src/src/game-rules\<close>, over the definitions of the
  earlier theories, each with a run on a sample board.
\<close>

section \<open>A sample board\<close>

definition sample_cartela :: cartela where
  "sample_cartela =
     \<lparr>cartela_id = ''C1'', cartela_number = 1,
      col_b = Arr [Num 1, Num 2, Num 3, Num 4, Num 5],
      col_i = Arr [Num 16, Num 17, Num 18, Num 19, Num 20],
      col_n = Arr [Num 31, Num 32, Str ''FREE'', Num 34, Num 35],
      col_g = Arr [Num 46, Num 47, Num 48, Num 49, Num 50],
      col_o = Arr [Num 61, Num 62, Num 63, Num 64, Num 65]\<rparr>"

definition draws :: "int list \<Rightarrow> called_number list" where
  "draws ks = map (\<lambda>(i, k). \<lparr>cn_letter = ''B'', cn_number = k, cn_order = i\<rparr>) (zip [1..int (length ks)] ks)"

lemma sample_board: "full_board sample_cartela"
  by code_simp

lemma sample_line: "resolved_pattern '' line '' Undefined = Some Any_Line"
  by code_simp

lemma sample_service_ok: "service_ok (sample_cartela, '' line '', Undefined)"
  by (simp add: service_ok_def sample_board sample_line)

section \<open>Verdicts\<close>



text \<open>
  A winning cartela stays a winner whatever is called next.
\<close>

theorem winner_never_lost:
  assumes "service_ok (c, key, patterns)" "is_winner (evaluate c calls key patterns)"
  shows "is_winner (evaluate c (calls @ further) key patterns)"
  using service_judge.winner_kept [OF assms(1), of calls further] assms(2)
  by (simp add: service_verdict_def)

theorem winner_never_lost_witness:
  "is_winner (evaluate sample_cartela (draws [3, 18, 48, 63] @ draws [7, 1]) '' line '' Undefined)"
  by (rule winner_never_lost [OF sample_service_ok]) code_simp

text \<open>
  A cartela that does not win without calls starts to win at exactly one draw, and the verdict
  at that draw credits the drawn number: \<open>completedByLatestNumber\<close> is set there.
\<close>

theorem winning_draw_credited:
  assumes "service_ok (c, key, patterns)"
    and "is_winner (evaluate c calls key patterns)" "\<not> is_winner (evaluate c [] key patterns)"
  shows "(\<exists>!k. k < length calls \<and> \<not> is_winner (evaluate c (take k calls) key patterns) \<and>
      is_winner (evaluate c (take (Suc k) calls) key patterns)) \<and>
    (\<exists>k<length calls. \<not> is_winner (evaluate c (take k calls) key patterns) \<and>
      is_winner (evaluate c (take (Suc k) calls) key patterns) \<and>
      completed_by_latest (evaluate c (take (Suc k) calls) key patterns))"
  using service_judge.winning_draw [OF assms(1), of calls] assms(2,3)
  by (simp_all add: service_verdict_def)

theorem winning_draw_credited_witness:
  "let ev = (\<lambda>n. evaluate sample_cartela (take n (draws [3, 18, 9, 48, 63, 1])) '' line '' Undefined)
   in (\<exists>!k. k < length (draws [3, 18, 9, 48, 63, 1]) \<and> \<not> is_winner (ev k) \<and> is_winner (ev (Suc k))) \<and>
      (\<exists>k<length (draws [3, 18, 9, 48, 63, 1]). \<not> is_winner (ev k) \<and> is_winner (ev (Suc k)) \<and>
         completed_by_latest (ev (Suc k)))"
  unfolding Let_def by (rule winning_draw_credited [OF sample_service_ok]) code_simp+

text \<open>
  A verdict never shows a pattern that is not there: each shown pattern has cells, all of them
  marked, its numbers are the numbers of those cells, and every one of them has been called.
\<close>

theorem shown_patterns_genuine:
  assumes "service_ok (c, key, patterns)"
    and "p \<in> set (completed_patterns (evaluate c calls key patterns))"
  shows "\<exists>cells. cp_cells p = Some cells \<and> cells \<noteq> [] \<and>
    list_all (cell_marked c (buildCalledNumbersSet calls)) cells \<and>
    cp_numbers p = getPatternNumbers (buildBoardRows c) cells \<and>
    set (cp_numbers p) \<subseteq> set (map cn_number calls)"
proof -
  have "shown_ok c (buildCalledNumbersSet calls) p"
    using service_judge.shown_marked [OF assms(1), of p calls] assms(2)
    by (simp add: service_verdict_def)
  then show ?thesis
    using shown_numbers_called by (fastforce simp: shown_ok_def pattern_on_def buildCalledNumbersSet_def)
qed

theorem shown_patterns_genuine_witness:
  "\<exists>cells. cp_cells (row_pattern (buildBoardRows sample_cartela) 3) = Some cells \<and> cells \<noteq> [] \<and>
    list_all (cell_marked sample_cartela (buildCalledNumbersSet (draws [3, 18, 48, 63]))) cells \<and>
    cp_numbers (row_pattern (buildBoardRows sample_cartela) 3) =
      getPatternNumbers (buildBoardRows sample_cartela) cells \<and>
    set (cp_numbers (row_pattern (buildBoardRows sample_cartela) 3)) \<subseteq>
      set (map cn_number (draws [3, 18, 48, 63]))"
proof (rule shown_patterns_genuine [OF sample_service_ok])
  have "completed_patterns (evaluate sample_cartela (draws [3, 18, 48, 63]) '' line '' Undefined) =
      [row_pattern (buildBoardRows sample_cartela) 3]" by code_simp
  then show "row_pattern (buildBoardRows sample_cartela) 3 \<in>
      set (completed_patterns (evaluate sample_cartela (draws [3, 18, 48, 63]) '' line '' Undefined))"
    by simp
qed

text \<open>
  \<open>completedByLatestNumber\<close> is never set without cause: the cartela wins, some number has been
  called, and some shown pattern contains the latest number and, when that number had not been
  called before, was not complete without it.
\<close>

theorem completed_by_latest_sound:
  assumes "service_ok (c, key, patterns)"
    and "completed_by_latest (evaluate c calls key patterns)"
  shows "is_winner (evaluate c calls key patterns) \<and> calls \<noteq> [] \<and>
    (\<exists>p\<in>set (completed_patterns (evaluate c calls key patterns)).
      cn_number (last calls) \<in> set (cp_numbers p) \<and>
      (cn_number (last calls) \<notin> set (map cn_number (butlast calls)) \<longrightarrow>
         \<not> shown_ok c (buildCalledNumbersSet (butlast calls)) p))"
  using service_judge.by_latest_shows [OF assms(1), of calls] assms(2) shown_needs_number
  by (auto simp: service_verdict_def buildCalledNumbersSet_def)

theorem completed_by_latest_sound_witness:
  "let calls = draws [3, 18, 48, 63]; r = evaluate sample_cartela calls '' line '' Undefined
   in is_winner r \<and> calls \<noteq> [] \<and>
      (\<exists>p\<in>set (completed_patterns r). cn_number (last calls) \<in> set (cp_numbers p) \<and>
         (cn_number (last calls) \<notin> set (map cn_number (butlast calls)) \<longrightarrow>
            \<not> shown_ok sample_cartela (buildCalledNumbersSet (butlast calls)) p))"
  unfolding Let_def by (rule completed_by_latest_sound [OF sample_service_ok]) code_simp

text \<open>
  The progress of a verdict lies between 0 and 1; a winner has progress 1 and shows at least
  one pattern; the reported latest number is the last one called.
\<close>

theorem progress_bounds:
  assumes "service_ok (c, key, patterns)" "r = evaluate c calls key patterns"
  shows "0 \<le> progress r \<and> progress r \<le> 1 \<and>
    (is_winner r \<longrightarrow> progress r = 1 \<and> completed_patterns r \<noteq> []) \<and>
    latest_number r = (if calls = [] then None else Some (cn_number (last calls)))"
  using service_judge.progress_range [OF assms(1), of calls] assms(2)
  by (simp add: service_verdict_def getLatestCalledNumber_eq)

theorem progress_bounds_witness:
  "let calls = draws [3, 18, 48, 63]; r = evaluate sample_cartela calls '' line '' Undefined
   in 0 \<le> progress r \<and> progress r \<le> 1 \<and>
      (is_winner r \<longrightarrow> progress r = 1 \<and> completed_patterns r \<noteq> []) \<and>
      latest_number r = (if calls = [] then None else Some (cn_number (last calls)))"
  unfolding Let_def by (rule progress_bounds [OF sample_service_ok refl])

text \<open>
  A rule with neither a readable pattern nor a known key is never won: the verdict is the
  fixed \<open>UNSUPPORTED\<close> one. The six evaluators kept for old keys are not reached, since every old
  key resolves to a pattern.
\<close>

theorem unsupported_rule_never_wins:
  assumes "parseGameRulePattern patterns = None" "getRulePattern (js_upper (js_trim key)) = None"
  shows "evaluate c calls key patterns =
    \<lparr>is_winner = False, matched_pattern = js_upper (js_trim key) @ '':UNSUPPORTED'', progress = 0,
     latest_number = getLatestCalledNumber calls, completed_by_latest = False,
     completed_patterns = []\<rparr>"
  using evaluate_unresolved [of key patterns c calls] assms
  by (simp add: resolved_pattern_def keyed_def)

theorem unsupported_rule_never_wins_witness:
  "evaluate sample_cartela (draws [3, 18]) ''no such rule'' Null =
    \<lparr>is_winner = False, matched_pattern = js_upper (js_trim ''no such rule'') @ '':UNSUPPORTED'',
     progress = 0, latest_number = getLatestCalledNumber (draws [3, 18]),
     completed_by_latest = False, completed_patterns = []\<rparr>"
  by (rule unsupported_rule_never_wins) code_simp+

section \<open>The combo solver\<close>

text \<open>
  C33. For a combo without the parallel-lines constraint in the \<open>ALLOW\<close> or \<open>DISALLOW\<close> mode, the
  solver finds every winning combination and nothing else: one sub-list of the requirement's
  candidates, of the requested length, for each requirement in order, and in the \<open>DISALLOW\<close> mode
  no two of the selected patterns share a cell.
\<close>

theorem solver_finds_exactly:
  assumes "full_board c" "cb_overlap combo \<noteq> MIXED" "\<not> hasParallelOnly combo"
    and "instances = generateCompletedPatternInstances c S"
  shows "set (findAllWinningCombinations combo instances) =
    {concat cs |cs.
       list_all2 (\<lambda>r sel. subseq sel (filterCandidates instances r) \<and> int (length sel) = rq_count r)
         (cb_requires combo) cs \<and>
       (cb_overlap combo = DISALLOW \<longrightarrow>
          sorted_wrt (\<lambda>p q. set (pi_cells p) \<inter> set (pi_cells q) = {}) (concat cs))}"
proof -
  have "kinds_apart combo" using assms(2) by (simp add: kinds_apart_def)
  moreover have "distinct (map pi_id instances)"
    using distinct_generated_ids assms(1,4) by simp
  ultimately show ?thesis by (rule found_by_mode [OF _ _ assms(2,3)])
qed

theorem solver_finds_exactly_witness:
  "let combo = \<lparr>cb_overlap = DISALLOW, cb_requires = [need LINE 2]\<rparr>;
       instances = generateCompletedPatternInstances sample_cartela {3, 18, 48, 63}
   in set (findAllWinningCombinations combo instances) =
      {concat cs |cs.
         list_all2 (\<lambda>r sel. subseq sel (filterCandidates instances r) \<and> int (length sel) = rq_count r)
           (cb_requires combo) cs \<and>
         (cb_overlap combo = DISALLOW \<longrightarrow>
            sorted_wrt (\<lambda>p q. set (pi_cells p) \<inter> set (pi_cells q) = {}) (concat cs))}"
  unfolding Let_def
  by (rule solver_finds_exactly [OF sample_board _ _ refl]) (simp_all, code_simp)

text \<open>
  In the \<open>MIXED\<close> mode a selection never breaks a requirement's own list of groups: a pattern
  selected for a requirement shares no cell with a pattern of an earlier requirement whose group it
  must not overlap, and is not contained in one of a group it must not be contained in.
\<close>

theorem mixed_selection_respects_groups:
  assumes "full_board c" "cb_overlap combo = MIXED" "kinds_apart combo"
    and "sel \<in> set (findAllWinningCombinations combo (generateCompletedPatternInstances c S))"
  shows "\<exists>cs. sel = concat cs \<and> length cs = length (cb_requires combo) \<and>
    (\<forall>i < length cs. \<forall>j < i. \<forall>p\<in>set (cs ! i). \<forall>q\<in>set (cs ! j).
       let r = cb_requires combo ! i; r' = cb_requires combo ! j in
       pi_kind p = rq_kind r \<and>
       (blocked_by (rq_mustNotOverlapGroups r) r' \<longrightarrow> set (pi_cells q) \<inter> set (pi_cells p) = {}) \<and>
       (blocked_by (rq_mustNotBeContainedInGroups r) r' \<longrightarrow> \<not> set (pi_cells p) \<subseteq> set (pi_cells q)))"
  using mixed_found [OF assms(2,3) distinct_generated_ids [OF assms(1)] assms(4)] .

definition column_row_square :: combo_pattern where
  "column_row_square = combo_rule ''ONE_COLUMN_ONE_ROW_ONE_SQUARE''"

definition column_row_square_found :: "pattern_instance list list" where
  "column_row_square_found = findAllWinningCombinations column_row_square
     (generateCompletedPatternInstances sample_cartela
       {1, 2, 3, 4, 5, 16, 31, 46, 61, 19, 34, 20, 35})"

theorem mixed_selection_respects_groups_witness:
  "\<exists>cs. column_row_square_found ! 0 = concat cs \<and> length cs = length (cb_requires column_row_square) \<and>
    (\<forall>i < length cs. \<forall>j < i. \<forall>p\<in>set (cs ! i). \<forall>q\<in>set (cs ! j).
       let r = cb_requires column_row_square ! i; r' = cb_requires column_row_square ! j in
       pi_kind p = rq_kind r \<and>
       (blocked_by (rq_mustNotOverlapGroups r) r' \<longrightarrow> set (pi_cells q) \<inter> set (pi_cells p) = {}) \<and>
       (blocked_by (rq_mustNotBeContainedInGroups r) r' \<longrightarrow> \<not> set (pi_cells p) \<subseteq> set (pi_cells q)))"
proof (rule mixed_selection_respects_groups [OF sample_board])
  show "column_row_square_found ! 0 \<in> set (findAllWinningCombinations column_row_square
      (generateCompletedPatternInstances sample_cartela
        {1, 2, 3, 4, 5, 16, 31, 46, 61, 19, 34, 20, 35}))"
    unfolding column_row_square_found_def [symmetric] by (rule nth_mem) code_simp
qed code_simp+

text \<open>
  The quick test \<open>isMinimumRuleSatisfied\<close> used for the verdict and the full search of
  \<open>solveCombo\<close> used for the patterns to show agree, whatever number is preferred.
\<close>

theorem minimum_rule_iff_solver:
  assumes "wf_pattern (Combo combo)"
  shows "isMinimumRuleSatisfied combo instances = sr_isWinner (solveCombo combo instances pref)"
  using isMinimumRuleSatisfied_found [OF wf_counts_positive [OF assms]] solveCombo_winner by simp

theorem minimum_rule_iff_solver_witness:
  "isMinimumRuleSatisfied (combo_rule ''TWO_DIAGONALS'') (generateCompletedPatternInstances sample_cartela {}) =
   sr_isWinner (solveCombo (combo_rule ''TWO_DIAGONALS'')
     (generateCompletedPatternInstances sample_cartela {}) (Some 7))"
  by (rule minimum_rule_iff_solver) code_simp

text \<open>
  When a number is preferred, the solver's selection contains it whenever any winning
  combination does; otherwise it is still a winning combination.
\<close>

theorem solver_prefers_latest:
  assumes "sr_isWinner (solveCombo combo instances (Some k))"
  shows "sr_selectedPatterns (solveCombo combo instances (Some k)) \<in>
      set (findAllWinningCombinations combo instances) \<and>
    ((\<exists>p\<in>set (sr_selectedPatterns (solveCombo combo instances (Some k))). k \<in> set (pi_numbers p)) \<longleftrightarrow>
     (\<exists>sel\<in>set (findAllWinningCombinations combo instances). \<exists>p\<in>set sel. k \<in> set (pi_numbers p)))"
  using solveCombo_selected [OF assms] solveCombo_prefers [OF assms] by (simp add: list_ex_iff)

theorem solver_prefers_latest_witness:
  "let combo = combo_rule ''TWO_DIAGONALS'';
       instances = generateCompletedPatternInstances sample_cartela {1, 17, 49, 65, 61, 47, 19, 5}
   in sr_selectedPatterns (solveCombo combo instances (Some 19)) \<in>
        set (findAllWinningCombinations combo instances) \<and>
      ((\<exists>p\<in>set (sr_selectedPatterns (solveCombo combo instances (Some 19))). 19 \<in> set (pi_numbers p)) \<longleftrightarrow>
       (\<exists>sel\<in>set (findAllWinningCombinations combo instances). \<exists>p\<in>set sel. 19 \<in> set (pi_numbers p)))"
  unfolding Let_def by (rule solver_prefers_latest) code_simp

text \<open>
  \<open>chooseCombinations\<close> returns the sub-lists of the candidates of the requested length, one
  for every way of choosing: there are binomially many.
\<close>

theorem chooseCombinations_complete:
  assumes "0 \<le> count"
  shows "set (chooseCombinations candidates count) =
      {sel. subseq sel candidates \<and> int (length sel) = count} \<and>
    length (chooseCombinations candidates count) = length candidates choose nat count"
proof (intro conjI set_chooseCombinations)
  show "length (chooseCombinations candidates count) = length candidates choose nat count"
    using assms length_combinations_bt [of "[]" count candidates]
    by (simp add: chooseCombinations_def del: combinations_bt.simps)
qed

theorem chooseCombinations_complete_witness:
  "set (chooseCombinations ''abcd'' 2) = {sel. subseq sel ''abcd'' \<and> int (length sel) = 2} \<and>
   length (chooseCombinations ''abcd'' 2) = length ''abcd'' choose nat 2"
  by (rule chooseCombinations_complete) simp

lemma parallel_line_direction:
  "p \<in> set (parallel_instances dir instances) \<Longrightarrow> pi_kind p = LINE \<Longrightarrow> pi_directionGroup p = Some dir"
  by (simp add: parallel_instances_def split: if_splits)

text \<open>
  A combo with the parallel-lines constraint never mixes directions: in a winning combination
  all lines are rows or all are columns, and none is a diagonal.
\<close>

theorem parallel_lines_same_direction:
  assumes "full_board c" "kinds_apart combo" "hasParallelOnly combo"
    and "sel \<in> set (findAllWinningCombinations combo (generateCompletedPatternInstances c S))"
  shows "(\<forall>p\<in>set sel. pi_kind p = LINE \<longrightarrow> pi_directionGroup p = Some DIR_ROW) \<or>
    (\<forall>p\<in>set sel. pi_kind p = LINE \<longrightarrow> pi_directionGroup p = Some DIR_COLUMN)"
proof -
  obtain cs view where "sel = concat cs"
      and view: "view \<in> set (instance_views combo (generateCompletedPatternInstances c S))"
      "legal (guard_of (cb_overlap combo)) (buildRequirementPools combo view) [] cs"
    using assms(4) set_findAllWinningCombinations [OF assms(2) distinct_generated_ids [OF assms(1)]]
    by blast
  then have "set sel \<subseteq> set view"
    using legal_subset [OF view(2)] by (auto simp: buildRequirementPools_def filterCandidates_def)
  moreover have "view = parallel_instances DIR_ROW (generateCompletedPatternInstances c S) \<or>
      view = parallel_instances DIR_COLUMN (generateCompletedPatternInstances c S)"
    using view(1) assms(3) by (auto simp: instance_views_def)
  ultimately show ?thesis using parallel_line_direction by blast
qed

definition parallel_found :: "pattern_instance list list" where
  "parallel_found = findAllWinningCombinations (combo_rule ''THREE_PARALLEL_LINES'')
     (generateCompletedPatternInstances sample_cartela
       {1, 2, 3, 16, 17, 18, 31, 32, 46, 47, 48, 61, 62, 63})"

theorem parallel_lines_same_direction_witness:
  "(\<forall>p\<in>set (parallel_found ! 0). pi_kind p = LINE \<longrightarrow> pi_directionGroup p = Some DIR_ROW) \<or>
   (\<forall>p\<in>set (parallel_found ! 0). pi_kind p = LINE \<longrightarrow> pi_directionGroup p = Some DIR_COLUMN)"
proof (rule parallel_lines_same_direction [OF sample_board])
  show "parallel_found ! 0 \<in> set (findAllWinningCombinations (combo_rule ''THREE_PARALLEL_LINES'')
     (generateCompletedPatternInstances sample_cartela
       {1, 2, 3, 16, 17, 18, 31, 32, 46, 47, 48, 61, 62, 63}))"
    unfolding parallel_found_def [symmetric] by (rule nth_mem) code_simp
qed code_simp+

section \<open>Pattern instances and shapes\<close>

text \<open>
  The generated instances are the entries of a fixed table of 207 placed patterns whose cells
  are all marked, in the table's order; their identifiers are distinct, so the map from
  identifiers to requirements in the mixed mode never confuses two patterns.
\<close>

theorem generated_instances_are_marked_shapes:
  assumes "full_board c"
  shows "generateCompletedPatternInstances c S =
      map (instance_of c) (filter (\<lambda>(kind, ident, cells, dir). list_all (cell_marked c S) cells)
        (line_shapes @ area_shapes)) \<and>
    length (line_shapes @ area_shapes) = 207 \<and>
    distinct (map pi_id (generateCompletedPatternInstances c S))"
proof (intro conjI)
  show "length (line_shapes @ area_shapes) = 207" by code_simp
  show "distinct (map pi_id (generateCompletedPatternInstances c S))"
    by (rule distinct_generated_ids [OF assms])
  show "generateCompletedPatternInstances c S =
      map (instance_of c) (filter (\<lambda>(kind, ident, cells, dir). list_all (cell_marked c S) cells)
        (line_shapes @ area_shapes))"
    unfolding generate_eq_table [OF assms] completed_shapes_def shape_marked_def by (rule refl)
qed

theorem generated_instances_are_marked_shapes_witness:
  "let c = sample_cartela; S = {3, 18, 48, 63} in
   generateCompletedPatternInstances c S =
      map (instance_of c) (filter (\<lambda>(kind, ident, cells, dir). list_all (cell_marked c S) cells)
        (line_shapes @ area_shapes)) \<and>
    length (line_shapes @ area_shapes) = 207 \<and>
    distinct (map pi_id (generateCompletedPatternInstances c S))"
  unfolding Let_def by (rule generated_instances_are_marked_shapes [OF sample_board])

text \<open>The orientations of each generated shape, drawn in the top left corner.\<close>

definition shape_templates :: "(board_coord list list \<times> board_coord list list \<times> nat) list" where
  "shape_templates =
     [([grid [0, 1] [0, 1, 2] Pair, grid [0, 1, 2] [0, 1] Pair], RECTANGLE_2X3_OR_3X2_VARIANTS, 24),
      ([[(0, 0), (0, 1), (0, 2), (1, 1), (2, 1)], [(2, 0), (2, 1), (2, 2), (1, 1), (0, 1)],
        [(0, 0), (1, 0), (2, 0), (1, 1), (1, 2)], [(0, 2), (1, 2), (2, 2), (1, 1), (1, 0)]],
       SMALL_T_VARIANTS, 36),
      ([[(0, 0), (0, 1), (0, 2), (1, 0), (1, 1), (2, 0)], [(0, 0), (0, 1), (0, 2), (1, 1), (1, 2), (2, 2)],
        [(0, 0), (1, 0), (1, 1), (2, 0), (2, 1), (2, 2)], [(0, 2), (1, 1), (1, 2), (2, 0), (2, 1), (2, 2)]],
       TRIANGLE_6_VARIANTS, 36),
      ([[(0, 0), (0, 1), (0, 2), (0, 3), (1, 0), (1, 1), (1, 2), (2, 0), (2, 1), (3, 0)],
        [(0, 0), (0, 1), (0, 2), (0, 3), (1, 1), (1, 2), (1, 3), (2, 2), (2, 3), (3, 3)],
        [(0, 0), (1, 0), (1, 1), (2, 0), (2, 1), (2, 2), (3, 0), (3, 1), (3, 2), (3, 3)],
        [(0, 3), (1, 2), (1, 3), (2, 1), (2, 2), (2, 3), (3, 0), (3, 1), (3, 2), (3, 3)]],
       TRIANGLE_4X4_VARIANTS, 16),
      ([[(0, 1), (1, 0), (1, 1), (1, 2), (2, 1)]], SMALL_CROSS_VARIANTS, 9)]"

definition cells_mask :: "board_coord list \<Rightarrow> bool list" where
  "cells_mask g = map (List.member g) (grid [0, 1, 2, 3, 4] [0, 1, 2, 3, 4] Pair)"

definition offsets :: "(int \<times> int) list" where
  "offsets = grid [0, 1, 2, 3, 4] [0, 1, 2, 3, 4] Pair"

lemma placements_listed:
  "list_all (\<lambda>(templates, variants, count).
     list_all (\<lambda>t. list_all (\<lambda>(r, k). list_all on_board (shift r k t) \<longrightarrow>
       List.member variants (shift r k t)) offsets) templates) shape_templates"
  by code_simp

lemma templates_anchored:
  "list_all (\<lambda>(templates, variants, count).
     list_all (\<lambda>t. list_ex (\<lambda>rc. fst rc = 0) t \<and> list_ex (\<lambda>rc. snd rc = 0) t) templates \<and>
     list_all (\<lambda>g. list_all on_board g) variants \<and>
     length variants = count \<and> distinct (map cells_mask variants)) shape_templates"
  by code_simp

lemma mem_grid_Pair: "(r, k) \<in> set (grid rows cols Pair) \<longleftrightarrow> r \<in> set rows \<and> k \<in> set cols"
  by (auto simp: grid_def)

lemma on_board_range: "on_board (r, k) \<Longrightarrow> 0 \<le> r \<and> r \<le> 4 \<and> 0 \<le> k \<and> k \<le> 4"
  by (simp add: on_board_def)

lemma on_board_offset:
  assumes "list_ex (\<lambda>rc. fst rc = 0) t" "list_ex (\<lambda>rc. snd rc = 0) t" "list_all on_board (shift r k t)"
  shows "(r, k) \<in> set offsets"
proof -
  obtain a b where "(0, a) \<in> set t" "(b, 0) \<in> set t"
    using assms(1,2) by (auto simp: list_ex_iff)
  then have "(0 + r, a + k) \<in> set (shift r k t)" "(b + r, 0 + k) \<in> set (shift r k t)"
    unfolding shift_def by force+
  then have "on_board (0 + r, a + k)" "on_board (b + r, 0 + k)"
    using assms(3) by (simp_all only: list_all_iff)
  then have "0 \<le> r \<and> r \<le> 4" "0 \<le> k \<and> k \<le> 4" using on_board_range by fastforce+
  then have "r \<in> set [0, 1, 2, 3, 4]" "k \<in> set [0, 1, 2, 3, 4]"
    unfolding list.set insert_iff empty_iff by linarith+
  then show ?thesis unfolding offsets_def mem_grid_Pair by (rule conjI)
qed

text \<open>
  The generated shape lists are complete: for each shape (2x3 rectangles, small T, 6-cell and
  10-cell triangles, small crosses) the list holds every shift of every orientation that fits on
  the board and nothing off the board; it has the size its comment gives (24, 36, 36, 16, 9), and no
  two entries cover the same cells.
\<close>

theorem shape_lists_complete:
  assumes "(templates, variants, count) \<in> set shape_templates" "t \<in> set templates"
  shows "(shift r k t \<in> set variants \<longleftrightarrow> list_all on_board (shift r k t)) \<and>
    length variants = count \<and> distinct (map cells_mask variants)"
proof -
  have a: "list_ex (\<lambda>rc. fst rc = 0) t" "list_ex (\<lambda>rc. snd rc = 0) t"
      "list_all (\<lambda>g. list_all on_board g) variants" "length variants = count"
      "distinct (map cells_mask variants)"
    using bspec [OF templates_anchored [unfolded list_all_iff] assms(1)] assms(2)
    by (auto simp: list_all_iff)
  have "list_all on_board (shift r k t) \<Longrightarrow> (r, k) \<in> set offsets \<Longrightarrow> shift r k t \<in> set variants"
    using bspec [OF placements_listed [unfolded list_all_iff] assms(1)] assms(2)
    by (auto simp: list_all_iff)
  then show ?thesis using a on_board_offset [OF a(1,2)] by (auto simp: list_all_iff)
qed

theorem shape_lists_complete_witness:
  "let t = [(0, 1), (1, 0), (1, 1), (1, 2), (2, 1)] in
   (shift 2 1 t \<in> set SMALL_CROSS_VARIANTS \<longleftrightarrow> list_all on_board (shift 2 1 t)) \<and>
    length SMALL_CROSS_VARIANTS = 9 \<and> distinct (map cells_mask SMALL_CROSS_VARIANTS)"
  unfolding Let_def
  by (rule shape_lists_complete [of "[[(0, 1), (1, 0), (1, 1), (1, 2), (2, 1)]]"])
    (simp_all add: shape_templates_def)

section \<open>Stored rules\<close>

text \<open>
  C34. Writing a well-formed pattern as seed JSON and reading it back gives the pattern again.
\<close>

theorem pattern_json_round_trip:
  assumes "wf_pattern p"
  shows "parseGameRulePattern (toSeedPatternJson p) = Some p"
  by (rule parse_written [OF assms])

theorem pattern_json_round_trip_witness:
  "parseGameRulePattern (toSeedPatternJson (Combo (combo_rule ''THREE_PARALLEL_LINES''))) =
   Some (Combo (combo_rule ''THREE_PARALLEL_LINES''))"
  by (rule pattern_json_round_trip) code_simp



text \<open>
  The seed list is built without an error: one active rule for each product key, in the order
  of the product catalogue with sort orders from 1 on, whose stored JSON resolves to the well-formed
  pattern the catalogue has for the key; so the verdict properties apply to every product rule on
  every full board.
\<close>

theorem product_rules_seeded:
  "\<exists>seeds. seededGameRules = Inr seeds \<and> map sd_key seeds = PRODUCT_RULE_KEYS \<and>
    distinct PRODUCT_RULE_KEYS \<and> map sd_sortOrder seeds = [1..<Suc (length PRODUCT_RULE_KEYS)] \<and>
    (\<forall>s\<in>set seeds. sd_isActive s \<and>
       (\<exists>p. RULE_PATTERN_DEFINITIONS (sd_key s) = Some p \<and> wf_pattern p \<and>
          resolved_pattern (sd_key s) (sd_patterns s) = Some p)) \<and>
    (\<forall>s\<in>set seeds. \<forall>c. full_board c \<longrightarrow> service_ok (c, sd_key s, sd_patterns s))"
proof -
  have "list_all (\<lambda>rule. RULE_PATTERN_DEFINITIONS (fst rule) \<noteq> None) ruleNames"
    using product_keys_defined unfolding product_keys_are_rule_names [symmetric]
    by (simp add: list_all_iff)
  from seed_rules_defined [OF this, of 0] obtain seeds where
    seeds: "seededGameRules = Inr seeds" "map sd_key seeds = map fst ruleNames"
    "map sd_sortOrder seeds = map Suc [0..<0 + length ruleNames]"
    and each: "list_all (\<lambda>s. sd_isActive s \<and>
       (\<exists>p. RULE_PATTERN_DEFINITIONS (sd_key s) = Some p \<and> sd_patterns s = toSeedPatternJson p)) seeds"
    unfolding seededGameRules_def by blast
  have stored: "\<exists>p. RULE_PATTERN_DEFINITIONS (sd_key s) = Some p \<and> wf_pattern p \<and> mixed_kinds_apart p \<and>
      resolved_pattern (sd_key s) (sd_patterns s) = Some p" if s: "s \<in> set seeds" for s
  proof -
    obtain p where p: "RULE_PATTERN_DEFINITIONS (sd_key s) = Some p" "sd_patterns s = toSeedPatternJson p"
      using each [unfolded list_all_iff] s by blast
    have "wf_pattern p \<and> mixed_kinds_apart p" by (rule definition_wf [OF p(1)])
    then show ?thesis using p parse_written by (simp add: resolved_pattern_def)
  qed
  have "length ruleNames = length PRODUCT_RULE_KEYS"
    using arg_cong [OF product_keys_are_rule_names, of length] by simp
  then have orders: "map sd_sortOrder seeds = [1..<Suc (length PRODUCT_RULE_KEYS)]"
    using seeds(3) by (simp add: map_Suc_upt)
  show ?thesis
  proof (intro exI [of _ seeds] conjI ballI allI impI)
    show "seededGameRules = Inr seeds" by (rule seeds(1))
    show "map sd_key seeds = PRODUCT_RULE_KEYS" using seeds(2) product_keys_are_rule_names by simp
    show "distinct PRODUCT_RULE_KEYS" by (rule product_keys_distinct)
    show "map sd_sortOrder seeds = [1..<Suc (length PRODUCT_RULE_KEYS)]" by (rule orders)
  next
    fix s assume s: "s \<in> set seeds"
    then show "sd_isActive s" using each by (simp add: list_all_iff)
    show "\<exists>p. RULE_PATTERN_DEFINITIONS (sd_key s) = Some p \<and> wf_pattern p \<and>
        resolved_pattern (sd_key s) (sd_patterns s) = Some p"
      using stored [OF s] by blast
  next
    fix s c assume s: "s \<in> set seeds" "full_board c"
    then show "service_ok (c, sd_key s, sd_patterns s)"
      using stored [OF s(1)] by (auto simp: service_ok_def)
  qed
qed

definition product_seeds :: "seed_rule list" where
  "product_seeds = (case seededGameRules of Inl _ \<Rightarrow> [] | Inr seeds \<Rightarrow> seeds)"

theorem product_rules_seeded_witness:
  "seededGameRules = Inr product_seeds \<and> map sd_key product_seeds = PRODUCT_RULE_KEYS"
proof -
  obtain seeds where seeds: "seededGameRules = Inr seeds" "map sd_key seeds = PRODUCT_RULE_KEYS"
    using product_rules_seeded by blast
  have "product_seeds = seeds" unfolding product_seeds_def seeds(1) by (rule sum.case(2))
  then show ?thesis using seeds by simp
qed

text \<open>
  The clean-up of old rules, on a table whose identifiers are distinct, removes exactly the
  rows with a legacy key that no game slot uses, keeps every row with another key as it is, turns
  a legacy row in use into an inactive one marked as legacy, and counts both; running it again
  changes nothing.
\<close>

theorem legacy_cleanup_safe:
  assumes "distinct (map gr_id table)"
    and "result = cleanupLegacyGameRules slotCount table"
  shows "map gr_id (cl_table result) =
      map gr_id (filter (\<lambda>row. gr_key row \<in> set LEGACY_REMOVED_KEYS \<longrightarrow> slotCount (gr_id row) \<noteq> 0) table) \<and>
    (\<forall>row\<in>set table. gr_key row \<notin> set LEGACY_REMOVED_KEYS \<longrightarrow> row \<in> set (cl_table result)) \<and>
    (\<forall>row\<in>set (cl_table result). gr_key row \<in> set LEGACY_REMOVED_KEYS \<longrightarrow>
       \<not> gr_isActive row \<and> starts_with (gr_name row) ''Legacy - '') \<and>
    cl_deletedCount result + length (cl_table result) = length table \<and>
    cl_table (cleanupLegacyGameRules slotCount (cl_table result)) = cl_table result"
  using cleanup_effect [OF assms(1)] unfolding assms(2) by blast

definition rule_sample :: "string \<Rightarrow> string \<Rightarrow> rule_row" where
  "rule_sample ident key =
     \<lparr>gr_id = ident, gr_key = key, gr_name = key, gr_description = None, gr_isActive = True,
      gr_sortOrder = 1, gr_patterns = Null\<rparr>"

theorem legacy_cleanup_safe_witness:
  "let table = [rule_sample ''a'' ''FULL_HOUSE'', rule_sample ''b'' (LEGACY_REMOVED_KEYS ! 0),
                rule_sample ''c'' (LEGACY_REMOVED_KEYS ! 1)];
       slotCount = (\<lambda>ident. if ident = ''b'' then 2 else 0);
       result = cleanupLegacyGameRules slotCount table
   in map gr_id (cl_table result) =
      map gr_id (filter (\<lambda>row. gr_key row \<in> set LEGACY_REMOVED_KEYS \<longrightarrow> slotCount (gr_id row) \<noteq> 0) table) \<and>
    (\<forall>row\<in>set table. gr_key row \<notin> set LEGACY_REMOVED_KEYS \<longrightarrow> row \<in> set (cl_table result)) \<and>
    (\<forall>row\<in>set (cl_table result). gr_key row \<in> set LEGACY_REMOVED_KEYS \<longrightarrow>
       \<not> gr_isActive row \<and> starts_with (gr_name row) ''Legacy - '') \<and>
    cl_deletedCount result + length (cl_table result) = length table \<and>
    cl_table (cleanupLegacyGameRules slotCount (cl_table result)) = cl_table result"
  unfolding Let_def by (rule legacy_cleanup_safe [OF _ refl]) (simp add: rule_sample_def)

section \<open>Overlapping squares in a mixed rule\<close>

definition overlapping_draws :: "called_number list" where
  "overlapping_draws = draws [1, 5, 61, 65, 17, 18, 32, 47, 48]"

text \<open>
  The rule \<open>FOUR_ANGLES_TWO_SQUARES\<close>, described to the players as \<open>Squares must not overlap
  each other\<close>, is won with two overlapping squares: the group \<open>SQUARES\<close> is listed among the groups a
  square must not overlap, but the mixed search compares a combination only with what earlier
  requirements selected, never the two squares of the same combination with each other.
\<close>

theorem mixed_rule_accepts_overlapping_squares:
  "let r = evaluate sample_cartela overlapping_draws ''FOUR_ANGLES_TWO_SQUARES'' Undefined;
       shown = completed_patterns r
   in is_winner r \<and> map cp_key shown = [''FOUR_CORNERS_1'', ''SQUARE_2X2_R2C2'', ''SQUARE_2X2_R2C3''] \<and>
      32 \<in> set (cp_numbers (shown ! 1)) \<and> 32 \<in> set (cp_numbers (shown ! 2))"
  by code_simp

end
