(* ===== verification/GameProperties.thy ===== *)
theory GameProperties
  imports GameOutcomes GameRuleProperties
begin

text \<open>
  The properties of playing a game, over runs of transactions and calls of the services, with runs on
  a sample database: one session that plays, and the same session in its winner window.
\<close>

section \<open>A sample database\<close>

definition sample_slot :: slot_row where
  "sample_slot =
     \<lparr>sl_id = ''slot'', sl_gameType = ''line'',
      sl_gameRule = Some \<lparr>ru_id = ''rule'', ru_key = '' line '', ru_patterns = Undefined\<rparr>,
      sl_status = PLAYING, sl_entryFee = 10, sl_prizePerCartela = 8, sl_category = NORMAL,
      sl_fixedPrizeAmount = None, sl_maxCartelasPerPlayer = None, sl_removeAfterFinish = False, sl_sortOrder = Some 1,
      sl_operationMode = AUTO, sl_registrationDurationSeconds = None, sl_autoCallIntervalSeconds = None\<rparr>"

definition sample_session :: session_row where
  "sample_session =
     \<lparr>gs_id = ''game'', gs_slotId = ''slot'', gs_playCode = ''G1'', gs_entryFee = 10,
      gs_prizePerCartela = 8, gs_companyFeePerCartela = 2, gs_prizeAmount = 16 + 1/100, gs_companyRevenue = 4,
      gs_status = PLAYING, gs_autoCallEnabled = True, gs_autoCallIntervalMs = Some 7000,
      gs_nextAutoCallAt = Some 0, gs_registrationOpensAt = None, gs_scheduledStartAt = None, gs_startedAt = 0, gs_finishedAt = None,
      gs_cancelledReason = None, gs_noWinnerGraceEndsAt = None, gs_noWinnerReason = None,
      gs_winnerWindowStartedAt = None, gs_winnerWindowEndsAt = None, gs_prizeFinalizedAt = None,
      gs_winnerCartelaId = None, gs_updatedAt = 0\<rparr>"

definition sample_game_cartela :: "string \<Rightarrow> string \<Rightarrow> game_cartela" where
  "sample_game_cartela ident u =
     \<lparr>gc_id = ident, gc_sessionId = ''game'', gc_userId = u, gc_board = sample_cartela\<lparr>cartela_id := ident\<rparr>,
      gc_status = REGISTERED, gc_isWinner = False, gc_blockedAt = None,
      gc_paymentSource = Some MONEY_WALLET, gc_entryFeeCents = 1000, gc_prizeContributionCents = 800,
      gc_companyFeeCents = 200, gc_companyFeeSource = Some FEE_MONEY\<rparr>"

definition sample_wallet_of :: "string \<Rightarrow> wallet_row" where
  "sample_wallet_of u =
     \<lparr>wa_id = ''w'' @ u, wa_userId = u, wa_balance = 50, wa_lockedBalance = 0, wa_bonusCartelaBalance = 0\<rparr>"

definition sample_wallets :: wallet_db where
  "sample_wallets =
     \<lparr>db_users = {''ana'', ''ben''},
      db_wallets = [''ana'' \<mapsto> sample_wallet_of ''ana'', ''ben'' \<mapsto> sample_wallet_of ''ben''],
      db_ledger = []\<rparr>"

definition sample_numbers :: "called_row list" where
  "sample_numbers =
     map (\<lambda>(i, n). called_row_of ''game'' (getLetterForNumber n) n i) [(1, 3), (2, 18), (3, 48), (4, 63)]"

definition playing_db :: game_db where
  "playing_db =
     \<lparr>gd_slots = [sample_slot], gd_sessions = [sample_session],
      gd_boards = map (\<lambda>i. sample_cartela\<lparr>cartela_id := i\<rparr>) [''c1'', ''c2'', ''c3''],
      gd_cartelas = [sample_game_cartela ''c1'' ''ana'', sample_game_cartela ''c2'' ''ben''],
      gd_reservations = [], gd_numbers = sample_numbers, gd_claims = [], gd_wallet = sample_wallets\<rparr>"

definition window_db :: game_db where
  "window_db = playing_db
     \<lparr>gd_sessions := [sample_session\<lparr>gs_status := WINNER_WINDOW, gs_autoCallEnabled := False,
         gs_nextAutoCallAt := None, gs_winnerWindowEndsAt := Some 1000\<rparr>],
      gd_cartelas := map (\<lambda>c. c\<lparr>gc_status := WINNER, gc_isWinner := True\<rparr>) (gd_cartelas playing_db)\<rparr>"

definition sample_cfg :: timing_config where
  "sample_cfg =
     \<lparr>tc_registrationDurationSeconds = 60, tc_autoCallIntervalSeconds = 7, tc_winnerWindowSeconds = 3,
      tc_winnerWindowClaimGraceMs = 2000, tc_finishedResultDisplaySeconds = 10, tc_noWinnerGraceSeconds = 5\<rparr>"

lemmas sample_defs =
  playing_db_def window_db_def sample_session_def sample_slot_def sample_game_cartela_def
  sample_wallets_def sample_numbers_def

lemma playing_db_ok: "game_ok playing_db"
proof -
  have "keys_ok playing_db" by (simp add: keys_ok_def sample_defs called_row_of_def paid_def posted_def)
  moreover have "sessions_ok playing_db"
    by (simp add: sessions_ok_def session_ok_def cartela_ok_def cartelas_of_def claims_of_def paid_def
        posted_def sample_defs)
  moreover have "one_live playing_db" by (simp add: one_live_def sample_defs)
  moreover have "numbers_ok (numbers_of playing_db sid)" for sid
  proof (cases "sid = ''game''")
    case True
    have "map cn_order sample_numbers = [1..int (length sample_numbers)]" by code_simp
    moreover have "numbers_of playing_db sid = sample_numbers"
      by (simp add: True numbers_of_def playing_db_def sample_numbers_def called_row_of_def)
    ultimately show ?thesis
      by (simp add: numbers_ok_def) (simp add: sample_numbers_def called_row_of_def)
  qed (simp add: numbers_ok_def numbers_of_def sample_defs called_row_of_def)
  moreover have "db_ok (gd_wallet playing_db)"
    by (simp add: db_ok_def playing_db_def sample_wallets_def sample_wallet_of_def wallet_ok_def)
  ultimately show ?thesis by (simp add: game_ok_def)
qed

lemma window_db_ok: "game_ok window_db"
proof -
  have same: "gd_numbers window_db = gd_numbers playing_db" "gd_wallet window_db = gd_wallet playing_db"
    by (simp_all add: window_db_def)
  have "keys_ok window_db" by (simp add: keys_ok_def sample_defs called_row_of_def paid_def posted_def)
  moreover have "sessions_ok window_db"
    by (simp add: sessions_ok_def session_ok_def cartela_ok_def cartelas_of_def claims_of_def paid_def
        posted_def sample_defs)
  moreover have "one_live window_db" by (simp add: one_live_def sample_defs)
  moreover have "numbers_of window_db sid = numbers_of playing_db sid" for sid
    by (simp add: numbers_of_def same)
  ultimately show ?thesis using playing_db_ok same by (simp add: game_ok_def)
qed

section \<open>Properties of every run\<close>

text \<open>
  C19. A prize is split exactly: one share for each winner, no share negative, no two shares apart by
  more than a cent, and together they are the prize, to the cent.
\<close>

theorem prize_split_exact:
  assumes "0 \<le> amount" "0 < n"
  shows "\<exists>shares. splitPrizeAmount amount n = Inr shares \<and> int (length shares) = n \<and>
    sum_list shares = of_int \<lfloor>amount * 100\<rfloor> / 100 \<and> (\<forall>s\<in>set shares. 0 \<le> s) \<and>
    (\<forall>s\<in>set shares. \<forall>s'\<in>set shares. \<bar>s - s'\<bar> \<le> 1 / 100)"
proof -
  obtain shares where s: "splitPrizeAmount amount n = Inr shares" using split_defined [OF assms(2)] by blast
  have "int (length shares) = n" using split_shares(1) [OF assms s] assms(2) by simp
  then show ?thesis
    using s split_total [OF assms s] split_shares(2,3) [OF assms s] by blast
qed

theorem prize_split_exact_witness:
  "\<exists>shares. splitPrizeAmount (16 + 1/100) 3 = Inr shares \<and> int (length shares) = 3 \<and>
    sum_list shares = of_int \<lfloor>(16 + 1/100) * 100 :: rat\<rfloor> / 100 \<and> (\<forall>s\<in>set shares. 0 \<le> s) \<and>
    (\<forall>s\<in>set shares. \<forall>s'\<in>set shares. \<bar>s - s'\<bar> \<le> 1 / 100)"
  by (rule prize_split_exact) simp_all



lemma sample_run:
  "game_tx\<^sup>*\<^sup>* playing_db (snd (claimBingo sample_cfg 10 ''k1'' id ''game'' ''ana'' ''c1'' playing_db))"
  by (rule run_claimBingo) (simp add: playing_db_def)



lemma final_stays: "canTransitionGameStatus\<^sup>*\<^sup>* a b \<Longrightarrow> allowedGameStatusTransitions a = [] \<Longrightarrow> b = a"
  by (erule converse_rtranclpE) (simp_all add: canTransitionGameStatus_def)

text \<open>
  C14. Over any run the status of a session moves along the table of \<open>game-status.rules.ts\<close>, so a
  finished, cancelled or winnerless session stays what it is, and no session disappears.
\<close>

theorem statuses_follow_table:
  assumes "game_ok db" "game_tx\<^sup>*\<^sup>* db db'" "s \<in> set (gd_sessions db)"
  shows "\<exists>s'\<in>set (gd_sessions db'). gs_id s' = gs_id s \<and>
    canTransitionGameStatus\<^sup>*\<^sup>* (gs_status s) (gs_status s') \<and>
    (gs_status s = FINISHED \<or> gs_status s = NO_WINNER \<or> gs_status s = CANCELLED \<longrightarrow> gs_status s' = gs_status s)"
proof -
  let ?R = "\<lambda>x y. \<forall>s\<in>set (gd_sessions x). \<exists>s'\<in>set (gd_sessions y). gs_id s' = gs_id s \<and>
    canTransitionGameStatus\<^sup>*\<^sup>* (gs_status s) (gs_status s')"
  have "?R db db'"
  proof (rule game_run.run_relates [OF assms(2,1)])
    fix x y z assume xy: "?R x y" and yz: "advances y z"
    show "?R x z"
    proof
      fix s assume "s \<in> set (gd_sessions x)"
      then obtain t where t: "t \<in> set (gd_sessions y)" "gs_id t = gs_id s"
        "canTransitionGameStatus\<^sup>*\<^sup>* (gs_status s) (gs_status t)" using xy by blast
      obtain i where i: "i < length (gd_sessions y)" "t = gd_sessions y ! i" using t(1) by (metis in_set_conv_nth)
      let ?u = "take (length (gd_sessions y)) (gd_sessions z) ! i"
      have "gs_id ?u = gs_id t \<and> moves (gs_status t) (gs_status ?u)" "i < length (take (length (gd_sessions y)) (gd_sessions z))"
        using yz i unfolding advances_def list_all2_conv_all_nth by auto
      moreover from this(2) have "?u \<in> set (gd_sessions z)" by (meson in_set_takeD nth_mem)
      ultimately show "\<exists>s'\<in>set (gd_sessions z). gs_id s' = gs_id s \<and>
          canTransitionGameStatus\<^sup>*\<^sup>* (gs_status s) (gs_status s')"
        using t(2,3) unfolding moves_def by (metis rtranclp.rtrancl_into_rtrancl)
    qed
  qed blast
  then obtain s' where s': "s' \<in> set (gd_sessions db')" "gs_id s' = gs_id s"
    "canTransitionGameStatus\<^sup>*\<^sup>* (gs_status s) (gs_status s')" using assms(3) by blast
  moreover have "gs_status s = FINISHED \<or> gs_status s = NO_WINNER \<or> gs_status s = CANCELLED \<longrightarrow> gs_status s' = gs_status s"
    using final_stays [OF s'(3)] by auto
  ultimately show ?thesis by blast
qed

theorem statuses_follow_table_witness:
  "\<exists>s'\<in>set (gd_sessions (snd (claimBingo sample_cfg 10 ''k1'' id ''game'' ''ana'' ''c1'' playing_db))).
    gs_id s' = ''game'' \<and> canTransitionGameStatus\<^sup>*\<^sup>* PLAYING (gs_status s')"
  using statuses_follow_table [OF playing_db_ok sample_run, of sample_session]
  by (auto simp: playing_db_def sample_session_def)



text \<open>
  C18. The numbers of a session, as \<open>getCalledNumbers\<close> lists them in any reachable state, carry the
  orders 1, 2, 3, and so on without a gap, are drawn from 1 to 75 and are all different.
\<close>

theorem called_numbers_sound:
  assumes "game_ok db" "game_tx\<^sup>*\<^sup>* db db'" "getCalledNumbers db' sid = Inr (n, rows)"
  shows "n = length rows \<and> n \<le> 75 \<and> map cn_order rows = [1..int n] \<and> distinct (map cn_number rows) \<and>
    set (map cn_number rows) \<subseteq> {1..75}"
proof -
  have "game_ok db'" by (rule game_run.run_inv [OF assms(2,1)])
  then have ok: "numbers_ok rows" "n = length rows"
    using assms(3) called_rows_eq [OF game_okD(4), of db' sid] game_okD(4) [of db' sid]
    by (auto simp: getCalledNumbers_def Let_def split: if_split_asm)
  then have "card (set (map cn_number rows)) \<le> card {1..75::int}"
    by (intro card_mono) (simp_all add: numbers_ok_def)
  moreover have "card (set (map cn_number rows)) = length rows"
    using distinct_card [of "map cn_number rows"] ok(1) by (simp add: numbers_ok_def)
  ultimately show ?thesis using ok by (simp add: numbers_ok_def)
qed

theorem called_numbers_sound_witness:
  "map cn_order sample_numbers = [1..4] \<and> distinct (map cn_number sample_numbers)"
proof -
  have "getCalledNumbers playing_db ''game'' = Inr (4, sample_numbers)" by code_simp
  then show ?thesis
    using called_numbers_sound [OF playing_db_ok rtranclp.rtrancl_refl] by fastforce
qed

section \<open>What a call achieves\<close>

text \<open>
  C1. When \<open>finalizeWinnerWindow\<close> closes a window, the winners are paid exactly the prize: one
  positive share for each of them, all together the prize to the cent; the available balance of every
  user grows by the shares of that user's cartelas and of nobody else's; the session is finished.
\<close>

theorem prize_paid_exactly:
  assumes "game_ok db" "ids_ready codes newIds (map gc_id (session_winners db sid)) db"
    and "\<forall>s\<in>set (gd_sessions db). 0 \<le> gs_prizeAmount s"
    and "finalizeWinnerWindow cfg now lockFree codes newIds sid db = (Inr (Some users), db')"
  shows "users = map gc_userId (session_winners db sid) \<and>
    (\<exists>s0\<in>set (gd_sessions db). gs_id s0 = sid \<and> gs_status s0 = WINNER_WINDOW \<and>
      (\<exists>shares. length shares = length users \<and> (\<forall>share\<in>set shares. 0 < share) \<and>
        sum_list shares = of_int \<lfloor>gs_prizeAmount s0 * 100\<rfloor> / 100 \<and>
        (\<forall>v. available (gd_wallet db') v =
           available (gd_wallet db) v + winnings v (zip (session_winners db sid) shares)))) \<and>
    (\<exists>s\<in>set (gd_sessions db'). gs_id s = sid \<and> gs_status s = FINISHED)"
proof -
  have "finalize_tx cfg now lockFree codes newIds sid db = Inr (Some users, db')"
    using assms(4) by (auto simp: finalizeWinnerWindow_def transaction_def split: sum.splits prod.splits)
  then have closed: "window_closed sid db db' users"
    using finalize_paid [OF assms(1), of cfg now lockFree codes newIds sid "Some users" db'] assms(2)
    by (simp add: ids_ready_def)
  then obtain s0 shares where s: "s0 \<in> set (gd_sessions db)" "gs_id s0 = sid" "gs_status s0 = WINNER_WINDOW"
    "splitPrizeAmount (gs_prizeAmount s0) (int (length users)) = Inr shares"
    unfolding window_closed_def by blast
  have some: "0 < int (length users)" using s(4) by (simp add: splitPrizeAmount_def split: if_split_asm)
  show ?thesis
    using closed split_total [OF _ some] assms(3) unfolding window_closed_def by blast
qed

lemma sample_window:
  "sample_session\<lparr>gs_status := WINNER_WINDOW, gs_autoCallEnabled := False, gs_nextAutoCallAt := None,
     gs_winnerWindowEndsAt := Some 1000\<rparr> \<in> set (gd_sessions window_db)"
  by (simp add: window_db_def)

definition sample_ids :: "string \<Rightarrow> string" where
  "sample_ids k = ''l'' @ k"

lemma sample_winners:
  "map gc_id (session_winners window_db ''game'') = [''c1'', ''c2'']"
  "map gc_userId (session_winners window_db ''game'') = [''ana'', ''ben'']"
  "\<forall>c\<in>set (session_winners window_db ''game''). can_receive (gd_wallet window_db) (gc_userId c) \<and> js_trim (gc_id c) \<noteq> []"
proof -
  have "js_trim ''c1'' \<noteq> []" "js_trim ''c2'' \<noteq> []" by code_simp+
  then show "\<forall>c\<in>set (session_winners window_db ''game''). can_receive (gd_wallet window_db) (gc_userId c) \<and> js_trim (gc_id c) \<noteq> []"
    by (simp add: session_winners_def sample_defs can_receive_def)
qed (simp_all add: session_winners_def sample_defs)

lemma sample_ready: "ids_ready (''next'', ''G2'') sample_ids (map gc_id (session_winners window_db ''game'')) window_db"
  unfolding sample_winners by (simp add: ids_ready_def ids_free_def sample_ids_def ledger_ids_def sample_defs)

theorem prize_paid_exactly_witness:
  "\<exists>db'. finalizeWinnerWindow sample_cfg 3000 True (''next'', ''G2'') sample_ids ''game'' window_db =
      (Inr (Some [''ana'', ''ben'']), db') \<and>
    (\<exists>shares. length shares = 2 \<and> sum_list shares = 16 + 1/100 \<and>
      (\<forall>v. available (gd_wallet db') v =
         available (gd_wallet window_db) v + winnings v (zip (session_winners window_db ''game'') shares))) \<and>
    (\<exists>s\<in>set (gd_sessions db'). gs_id s = ''game'' \<and> gs_status s = FINISHED)"
proof -
  have "\<exists>users db'. finalize_tx sample_cfg 3000 True (''next'', ''G2'') sample_ids ''game'' window_db = Inr (Some users, db')"
  proof (rule finalize_closes [OF window_db_ok sample_window])
    show "of_nat (length (session_winners window_db ''game'')) \<le> gs_prizeAmount (sample_session
        \<lparr>gs_status := WINNER_WINDOW, gs_autoCallEnabled := False, gs_nextAutoCallAt := None,
         gs_winnerWindowEndsAt := Some 1000\<rparr>) * 100"
      using arg_cong [OF sample_winners(1), of length] by (simp add: sample_session_def)
  qed (use sample_ready sample_winners in \<open>simp_all add: window_due_def sample_session_def sample_cfg_def ids_ready_def\<close>)
  then obtain users db' where r: "finalizeWinnerWindow sample_cfg 3000 True (''next'', ''G2'') sample_ids ''game'' window_db =
      (Inr (Some users), db')" by (auto simp: finalizeWinnerWindow_def transaction_def)
  have prizes: "\<forall>s\<in>set (gd_sessions window_db). gs_prizeAmount s = 16 + 1/100"
    by (simp add: window_db_def sample_session_def)
  have "\<forall>s\<in>set (gd_sessions window_db). 0 \<le> gs_prizeAmount s"
    by (simp add: window_db_def sample_session_def)
  note paid = prize_paid_exactly [OF window_db_ok sample_ready this r]
  have users: "users = [''ana'', ''ben'']" using paid sample_winners(2) by simp
  have cents: "of_int \<lfloor>(16 + 1/100) * 100 :: rat\<rfloor> / 100 = (16 + 1/100 :: rat)" by simp
  have two: "length users = 2" by (simp add: users)
  have "\<exists>shares. length shares = 2 \<and> sum_list shares = 16 + 1/100 \<and>
      (\<forall>v. available (gd_wallet db') v =
         available (gd_wallet window_db) v + winnings v (zip (session_winners window_db ''game'') shares))"
    using paid prizes cents two by metis
  then show ?thesis using r paid unfolding users by blast
qed

text \<open>
  C38. A winner window ends by itself: the first scheduler tick after its end and the grace period
  finishes the session and pays the winners their shares, whose sum is the prize to the cent. Each
  winner needs a wallet, and the prize a cent for each winner (C37 shows what happens otherwise).
\<close>

theorem due_window_closes:
  assumes "game_ok db" "s0 \<in> set (gd_sessions db)" "gs_status s0 = WINNER_WINDOW" "gs_prizeFinalizedAt s0 = None"
    and "gs_winnerWindowEndsAt s0 = Some ends" "ends + tc_winnerWindowClaimGraceMs cfg \<le> now"
    and "0 \<le> tc_winnerWindowClaimGraceMs cfg"
    and "of_nat (length (session_winners db (gs_id s0))) \<le> gs_prizeAmount s0 * 100"
    and "\<forall>c\<in>set (session_winners db (gs_id s0)). can_receive (gd_wallet db) (gc_userId c) \<and> js_trim (gc_id c) \<noteq> []"
    and "ids_ready (codes (gs_id s0)) newIds (map gc_id (session_winners db (gs_id s0))) db"
  shows "\<exists>shares. length shares = length (session_winners db (gs_id s0)) \<and>
    sum_list shares = of_int \<lfloor>gs_prizeAmount s0 * 100\<rfloor> / 100 \<and>
    (\<forall>v. available (gd_wallet (finalizer_tick cfg now lockFree codes newIds db)) v =
       available (gd_wallet db) v + winnings v (zip (session_winners db (gs_id s0)) shares)) \<and>
    (\<exists>s\<in>set (gd_sessions (finalizer_tick cfg now lockFree codes newIds db)).
       gs_id s = gs_id s0 \<and> gs_status s = FINISHED)"
proof -
  let ?sid = "gs_id s0" and ?winners = "session_winners db (gs_id s0)"
  have due: "window_due (now - tc_winnerWindowClaimGraceMs cfg) s0" "window_due now s0"
    using assms(3-7) by (simp_all add: window_due_def)
  have free: "ids_free newIds (map gc_id ?winners) (gd_wallet db)" "fst (codes ?sid) \<notin> gs_id ` set (gd_sessions db)"
    using assms(10) by (simp_all add: ids_ready_def)
  obtain users db' where r: "finalize_tx cfg now lockFree (codes ?sid) newIds ?sid db = Inr (Some users, db')"
    using finalize_closes [OF assms(1,2) refl due(1) assms(8,9) free(1)] by blast
  have tick: "finalizer_tick cfg now lockFree codes newIds db = db'"
    using finalizer_tick_single [OF assms(1,2) due(2)] r by (simp add: finalizeWinnerWindow_def transaction_def)
  have closed: "window_closed ?sid db db' users" using finalize_paid [OF assms(1) r free] by simp
  then obtain s1 shares where s: "s1 \<in> set (gd_sessions db)" "gs_id s1 = ?sid" "length shares = length users"
    "splitPrizeAmount (gs_prizeAmount s1) (int (length users)) = Inr shares"
    "\<forall>v. available (gd_wallet db') v = available (gd_wallet db) v + winnings v (zip ?winners shares)"
    and fin: "\<exists>s\<in>set (gd_sessions db'). gs_id s = ?sid \<and> gs_status s = FINISHED"
    and users: "users = map gc_userId ?winners"
    unfolding window_closed_def by blast
  have "s1 = s0" using session_unique [OF game_okD(1) [OF assms(1)] s(1) assms(2) s(2)] .
  moreover have "0 < int (length users)" using s(4) by (simp add: splitPrizeAmount_def split: if_split_asm)
  moreover have "0 \<le> gs_prizeAmount s0 * 100"
    using assms(8) by (meson of_nat_0_le_iff order_trans)
  then have "0 \<le> gs_prizeAmount s0" by simp
  ultimately have "sum_list shares = of_int \<lfloor>gs_prizeAmount s0 * 100\<rfloor> / 100"
    using split_total s(4) by blast
  then show ?thesis using s(3,5) fin users unfolding tick by auto
qed

lemma sample_cfg_simps:
  "tc_winnerWindowClaimGraceMs sample_cfg = 2000" "tc_noWinnerGraceSeconds sample_cfg = 5"
  by (simp_all add: sample_cfg_def)

theorem due_window_closes_witness:
  "\<exists>s\<in>set (gd_sessions (finalizer_tick sample_cfg 3000 True (\<lambda>_. (''next'', ''G2'')) sample_ids window_db)).
    gs_id s = ''game'' \<and> gs_status s = FINISHED"
proof -
  define s0 where "s0 = sample_session\<lparr>gs_status := WINNER_WINDOW, gs_autoCallEnabled := False,
    gs_nextAutoCallAt := None, gs_winnerWindowEndsAt := Some 1000\<rparr>"
  have s0: "s0 \<in> set (gd_sessions window_db)" "gs_id s0 = ''game''" "gs_status s0 = WINNER_WINDOW"
    "gs_prizeFinalizedAt s0 = None" "gs_winnerWindowEndsAt s0 = Some 1000" "gs_prizeAmount s0 = 16 + 1/100"
    using sample_window by (simp_all add: s0_def sample_session_def)
  have len: "length (session_winners window_db ''game'') = 2"
    using arg_cong [OF sample_winners(1), of length] by simp
  show ?thesis
    using due_window_closes [OF window_db_ok s0(1,3,4,5), of sample_cfg 3000 "\<lambda>_. (''next'', ''G2'')" sample_ids True]
    unfolding s0(2,6) len sample_cfg_simps using sample_ready sample_winners(3) by auto
qed

text \<open>
  C39. A window whose prize is below a cent for each winner never ends: \<open>creditWallet\<close> refuses the
  share of 0, the exception rolls the transaction back, and so does every later tick. The session
  cannot be cancelled either, and no other slot can start a game while it holds the table.
\<close>

theorem zero_share_window_stuck:
  assumes "game_ok db" "s0 \<in> set (gd_sessions db)" "gs_status s0 = WINNER_WINDOW"
    and "0 \<le> gs_prizeAmount s0" "gs_prizeAmount s0 * 100 < of_nat (length (session_winners db (gs_id s0)))"
    and "slotId \<noteq> gs_slotId s0"
  shows "finalizer_tick cfg now lockFree codes newIds db = db \<and>
    (\<exists>e. cancelSession cfg now lockFree code newIds others (gs_id s0) cause options db = (Inl e, db)) \<and>
    (\<exists>e. startGame cfg now lockFree code nextCode slotId config db = (Inl e, db))"
proof -
  note keys = game_okD(1) [OF assms(1)]
  have live: "live (gs_status s0)" using assms(3) by (simp add: live_def)
  have only: "x = s0" if "x \<in> set (gd_sessions db)" "live (gs_status x)" for x
    using session_unique [OF keys that(1) assms(2)] game_okD(3) [OF assms(1)] that assms(2) live
    unfolding one_live_def by blast
  have "finalizer_tick cfg now lockFree codes newIds db = db"
  proof (cases "window_due now s0")
    case True
    then show ?thesis
      using finalizer_tick_single [OF assms(1,2) True] finalize_stuck [OF assms(1,2) refl assms(4,5)] by metis
  next
    case False
    have "\<not> window_due now x" if "x \<in> set (gd_sessions db)" for x
      using only [OF that] False by (auto simp: window_due_def live_def)
    then have "filter (window_due now) (gd_sessions db) = []" unfolding filter_empty_conv by blast
    then show ?thesis by (simp add: finalizer_tick_def sort_by_def)
  qed
  moreover have "find_session db (gs_id s0) = Some s0" using find_session_iff [OF keys] assms(2) by simp
  then have "\<exists>e. cancelSession cfg now lockFree code newIds others (gs_id s0) cause options db = (Inl e, db)"
    using assms(3) by (simp add: cancelSession_def)
  moreover have "find (\<lambda>s. gs_slotId s = slotId \<and> live (gs_status s)) (gd_sessions db) = None"
    using only assms(6) by (force simp: find_None_iff)
  then have "\<exists>e. startGame cfg now lockFree code nextCode slotId config db = (Inl e, db)"
    using assms(2) live by (auto simp: startGame_def start_session_def list_ex_iff split: option.splits)
  ultimately show ?thesis by blast
qed

definition poor_db :: game_db where
  "poor_db = window_db\<lparr>gd_sessions := map (\<lambda>s. s\<lparr>gs_prizeAmount := 1/100\<rparr>) (gd_sessions window_db)\<rparr>"

lemma poor_db_ok: "game_ok poor_db"
proof -
  have same: "gd_numbers poor_db = gd_numbers window_db" "gd_wallet poor_db = gd_wallet window_db"
    by (simp_all add: poor_db_def)
  have "keys_ok poor_db" by (simp add: keys_ok_def poor_db_def sample_defs called_row_of_def paid_def posted_def)
  moreover have "sessions_ok poor_db"
    by (simp add: sessions_ok_def session_ok_def cartela_ok_def cartelas_of_def claims_of_def paid_def
        posted_def poor_db_def sample_defs)
  moreover have "one_live poor_db" by (simp add: one_live_def poor_db_def sample_defs)
  moreover have "numbers_of poor_db sid = numbers_of window_db sid" for sid
    by (simp add: numbers_of_def same)
  ultimately show ?thesis using window_db_ok same by (simp add: game_ok_def)
qed

theorem zero_share_window_stuck_witness:
  "finalizer_tick sample_cfg 3000 True (\<lambda>_. (''next'', ''G2'')) sample_ids poor_db = poor_db"
proof -
  obtain s0 where s0: "gd_sessions poor_db = [s0]" "gs_id s0 = ''game''" "gs_status s0 = WINNER_WINDOW"
    "gs_prizeAmount s0 = 1/100" "gs_slotId s0 = ''slot''"
    by (simp add: poor_db_def window_db_def sample_session_def)
  have "length (session_winners poor_db ''game'') = 2"
    by (simp add: session_winners_def poor_db_def sample_defs)
  then show ?thesis
    using zero_share_window_stuck [OF poor_db_ok, of s0 "''other''"] s0 by simp
qed

text \<open>
  C12. A claim for a registered cartela of a session that plays is decided by the verdict of its rule,
  and by nothing else: an automatic rule accepts it exactly when the cartela wins with the last number
  called. An accepted claim makes the cartela a winner and opens the window with its full length; a
  refused one blocks the cartela and the game goes on. One claim row records the decision.
\<close>

theorem claim_decided_by_verdict:
  assumes "game_ok db" "loadClaimCartela db sid u cid = Inr cc" "gs_status (cc_session cc) = PLAYING"
    and "gc_status (cc_cartela cc) = REGISTERED" "\<not> isManualRule (Some (resolveRuleKey cc))"
    and "wins = (is_winner (claim_verdict cc (resolveRuleKey cc) db) \<and>
           completed_by_latest (claim_verdict cc (resolveRuleKey cc) db))"
  shows "\<exists>answer db'. claimBingo cfg now newId id sid u cid db = (Inr answer, db') \<and>
    an_isWinner answer = wins \<and> gd_claims db' = gd_claims db @ [an_claim answer] \<and>
    bc_gameCartelaId (an_claim answer) = cid \<and> bc_status (an_claim answer) = (if wins then VALID else INVALID) \<and>
    (\<exists>c\<in>set (gd_cartelas db'). gc_id c = cid \<and> gc_status c = (if wins then WINNER else BLOCKED)) \<and>
    (\<exists>s\<in>set (gd_sessions db'). gs_id s = sid \<and> gs_status s = (if wins then WINNER_WINDOW else PLAYING) \<and>
       (wins \<longrightarrow> gs_winnerWindowEndsAt s = Some (now + tc_winnerWindowSeconds cfg * 1000)))"
proof -
  obtain answer db' where r: "claimBingo cfg now newId id sid u cid db = (Inr answer, db')"
    "claim_decided cfg now wins sid cid db answer db'"
    using claim_by_verdict [OF assms(1-5) refl, of cfg now newId] unfolding assms(6) by blast
  show ?thesis using r(1) r(2) [unfolded claim_decided_def] by blast
qed

theorem claim_decided_by_verdict_witness:
  "\<exists>cc answer db'. loadClaimCartela playing_db ''game'' ''ana'' ''c1'' = Inr cc \<and>
    claimBingo sample_cfg 10 ''k1'' id ''game'' ''ana'' ''c1'' playing_db = (Inr answer, db') \<and>
    an_isWinner answer = (is_winner (claim_verdict cc (resolveRuleKey cc) playing_db) \<and>
      completed_by_latest (claim_verdict cc (resolveRuleKey cc) playing_db))"
proof -
  obtain cc where cc: "loadClaimCartela playing_db ''game'' ''ana'' ''c1'' = Inr cc" "cc_session cc = sample_session"
    "gc_status (cc_cartela cc) = REGISTERED" "resolveRuleKey cc = '' line ''"
    by (simp add: loadClaimCartela_def find_cartela_def find_session_def find_slot_def playing_db_def
        sample_session_def sample_slot_def sample_game_cartela_def resolveRuleKey_def rule_key_of_def)
  have "\<not> isManualRule (Some '' line '')" by code_simp
  moreover have "gs_status sample_session = PLAYING" by (simp add: sample_session_def)
  ultimately show ?thesis
    using claim_decided_by_verdict [OF playing_db_ok cc(1) _ cc(3) _ refl, of sample_cfg 10 "''k1''"] cc by metis
qed

text \<open>
  C13. A cancellation gives everybody back exactly what was paid: a user's available balance grows by
  the entry fee for each active cartela bought with money, the bonus cartelas by those bought with
  bonus cartelas. The session and all its cartelas are cancelled. No refund of this session may have
  been booked before.
\<close>

theorem cancellation_refunds_exactly:
  assumes "game_ok db" "s0 \<in> set (gd_sessions db)" "gs_id s0 = sid" "0 < gs_entryFee s0"
    and "cancelSession cfg now lockFree codes newIds id sid cause options db = (Inr (Cancelled_Session r), db')"
    and "\<not> cd_alreadyCancelled r" "\<forall>u. refund_key u s0 \<notin> paid db"
    and "ids_ready codes newIds (map fst (refundTotalsByUser (active_cartelas db sid))) db"
  shows "(\<forall>u. available (gd_wallet db') u = available (gd_wallet db) u +
        gs_entryFee s0 * of_nat (bought MONEY_WALLET u (active_cartelas db sid)) \<and>
      bonus_of (gd_wallet db') u = bonus_of (gd_wallet db) u + int (bought BONUS_CARTELA u (active_cartelas db sid))) \<and>
    (\<exists>s\<in>set (gd_sessions db'). gs_id s = sid \<and> gs_status s = CANCELLED) \<and>
    (\<forall>c\<in>set (gd_cartelas db'). gc_sessionId c = sid \<longrightarrow> gc_status c = CARTELA_CANCELLED)"
  using cancelSession_refunds [OF assms(1-6) _ _ assms(7)] assms(8) unfolding refund_balances_def ids_ready_def by blast

definition sample_cancel :: cancel_options where
  "sample_cancel = \<lparr>co_requeueSlot = True, co_abortIfPlayersRegistered = False\<rparr>"

theorem cancellation_refunds_exactly_witness:
  "\<exists>r db'. cancelSession sample_cfg 10 True (''next'', ''G2'') sample_ids id ''game'' Admin_Cancelled sample_cancel playing_db =
      (Inr (Cancelled_Session r), db') \<and>
    available (gd_wallet db') ''ana'' = 60 \<and> available (gd_wallet db') ''ben'' = 60"
proof -
  let ?call = "cancelSession sample_cfg 10 True (''next'', ''G2'') sample_ids id ''game'' Admin_Cancelled sample_cancel playing_db"
  have run: "case fst ?call of Inl e \<Rightarrow> False | Inr Aborted \<Rightarrow> False | Inr (Cancelled_Session r) \<Rightarrow> \<not> cd_alreadyCancelled r"
    by code_simp
  obtain r db' where r: "?call = (Inr (Cancelled_Session r), db')" "\<not> cd_alreadyCancelled r"
    using run by (cases ?call) (auto split: sum.splits cancel_result.splits)
  have s0: "sample_session \<in> set (gd_sessions playing_db)" "gs_id sample_session = ''game''" "0 < gs_entryFee sample_session"
    "gs_entryFee sample_session = 10"
    by (simp_all add: playing_db_def sample_session_def)
  have act: "active_cartelas playing_db ''game'' = [sample_game_cartela ''c1'' ''ana'', sample_game_cartela ''c2'' ''ben'']"
    by (simp add: active_cartelas_def playing_db_def sample_game_cartela_def)
  have "map fst (refundTotalsByUser (active_cartelas playing_db ''game'')) = [''ana'', ''ben'']"
    by (simp add: act refundTotalsByUser_def add_refund_def or_else_def sample_game_cartela_def)
  then have free: "\<forall>u. refund_key u sample_session \<notin> paid playing_db" "ids_ready (''next'', ''G2'') sample_ids
      (map fst (refundTotalsByUser (active_cartelas playing_db ''game''))) playing_db"
    by (simp_all add: ids_ready_def ids_free_def sample_ids_def ledger_ids_def paid_def posted_def playing_db_def
        sample_session_def sample_wallets_def)
  note refunds = cancellation_refunds_exactly [OF playing_db_ok s0(1-3) r free]
  have before: "available (gd_wallet playing_db) ''ana'' = 50" "available (gd_wallet playing_db) ''ben'' = 50"
    by (simp_all add: available_def playing_db_def sample_wallets_def sample_wallet_of_def)
  have "bought MONEY_WALLET ''ana'' (active_cartelas playing_db ''game'') = 1"
    "bought MONEY_WALLET ''ben'' (active_cartelas playing_db ''game'') = 1"
    by (simp_all add: act bought_def sample_game_cartela_def)
  then show ?thesis using r(1) refunds before s0(4) by auto
qed

text \<open>
  C40. The automatic caller terminates with the whole board called: from a session whose caller is on
  and \<open>k\<close> numbers to go, \<open>k\<close> ticks of the clock, each at least the interval after the one before and
  whatever the draws are, call all 75 numbers; the caller is then off and the grace period of a game
  without a winner runs.
\<close>

theorem caller_calls_all_numbers:
  assumes "game_ok db" "s0 \<in> set (gd_sessions db)" "gs_id s0 = sid" "gs_status s0 = PLAYING"
    and "gs_autoCallEnabled s0" "gs_nextAutoCallAt s0 = Some due" "gs_noWinnerGraceEndsAt s0 = None"
    and "length schedule = 75 - length (numbers_of db sid)" "schedule \<noteq> []" "due \<le> fst (hd schedule)"
    and "successively (\<lambda>x y. fst x + or_else (gs_autoCallIntervalMs s0) (getAutoCallIntervalMs cfg) \<le> fst y) schedule"
    and "0 < tc_noWinnerGraceSeconds cfg"
  shows "\<exists>rows. getCalledNumbers (ticks cfg lockFree codes schedule db) sid = Inr (75, rows) \<and>
    set (map cn_number rows) = {1..75} \<and>
    (\<exists>s\<in>set (gd_sessions (ticks cfg lockFree codes schedule db)). gs_id s = sid \<and> gs_status s = PLAYING \<and>
      \<not> gs_autoCallEnabled s \<and>
      gs_noWinnerGraceEndsAt s = Some (fst (last schedule) + tc_noWinnerGraceSeconds cfg * 1000))"
proof -
  let ?d = "ticks cfg lockFree codes schedule db"
  have "length (remaining_numbers db sid) = length schedule"
    using remaining_length [OF game_okD(4) [OF assms(1)], of sid] assms(8) by simp
  then have "calling due sid (gs_autoCallIntervalMs s0) (length schedule) db"
    using assms(1-7) by (auto simp: calling_def)
  then have called: "all_called (fst (last schedule) + tc_noWinnerGraceSeconds cfg * 1000) sid ?d"
    using ticks_call_all assms(9-12) by blast
  then have ok: "game_ok ?d" "remaining_numbers ?d sid = []" by (simp_all add: all_called_def)
  have "length (numbers_of ?d sid) = 75"
    using remaining_length [OF game_okD(4) [OF ok(1)], of sid] ok(2) by simp
  then have "getCalledNumbers ?d sid = Inr (75, numbers_of ?d sid)"
    using called_rows_eq [OF game_okD(4) [OF ok(1)], of sid] by (auto simp: getCalledNumbers_def Let_def)
  moreover have "set (map cn_number (numbers_of ?d sid)) \<subseteq> {1..75}"
    using game_okD(4) [OF ok(1), of sid] by (simp add: numbers_ok_def)
  then have "set (map cn_number (numbers_of ?d sid)) = {1..75}" using remaining_set [of ?d sid] ok(2) by auto
  ultimately show ?thesis using called unfolding all_called_def by blast
qed

lemma sample_schedule: "successively (\<lambda>x y. fst x + 7000 \<le> fst y) (map (\<lambda>i. (int i * 7000, i)) [0..<k])"
proof (induction k)
  case (Suc k)
  then show ?case by (cases k) (simp_all add: successively_append_iff)
qed simp

theorem caller_calls_all_numbers_witness:
  "\<exists>rows. getCalledNumbers (ticks sample_cfg True (\<lambda>_. (''next'', ''G2'')) (map (\<lambda>i. (int i * 7000, i)) [0..<71]) playing_db)
      ''game'' = Inr (75, rows) \<and> set (map cn_number rows) = {1..75}"
proof -
  have s0: "sample_session \<in> set (gd_sessions playing_db)" "gs_id sample_session = ''game''" "gs_status sample_session = PLAYING"
    "gs_autoCallEnabled sample_session" "gs_nextAutoCallAt sample_session = Some 0"
    "gs_noWinnerGraceEndsAt sample_session = None" "or_else (gs_autoCallIntervalMs sample_session) x = 7000" for x
    by (simp_all add: playing_db_def sample_session_def or_else_def)
  have "length (numbers_of playing_db ''game'') = 4"
    by (simp add: numbers_of_def playing_db_def sample_numbers_def called_row_of_def)
  then have n: "length (map (\<lambda>i. (int i * 7000, i)) [0..<71]) = 75 - length (numbers_of playing_db ''game'')" by simp
  have first: "map (\<lambda>i. (int i * 7000, i)) [0..<71] \<noteq> []" "0 \<le> fst (hd (map (\<lambda>i. (int i * 7000, i)) [0..<71]))"
    by (simp_all add: upt_rec)
  have "0 < tc_noWinnerGraceSeconds sample_cfg" by (simp add: sample_cfg_def)
  then show ?thesis
    using caller_calls_all_numbers [OF playing_db_ok s0(1-6) n first, of sample_cfg True "\<lambda>_. (''next'', ''G2'')"]
      sample_schedule [of 71] unfolding s0(7) by blast
qed

end
