(* ===== verification/WalletProperties.thy ===== *)
theory WalletProperties
  imports WalletLedger
begin

text \<open>
  The properties of the wallet service, with runs on a sample database. The step relation
  \<open>wallet_step\<close> has one rule for each operation that changes the state; its reachable states keep the
  invariant and a ledger that explains every balance.
\<close>

section \<open>The wallet as a state machine\<close>

inductive wallet_step :: "wallet_db \<Rightarrow> wallet_db \<Rightarrow> bool" where
  credit: "newId \<notin> ledger_ids db \<Longrightarrow> wallet_step db (snd (creditWallet newId id db u amount meta))"
| debit: "newId \<notin> ledger_ids db \<Longrightarrow> wallet_step db (snd (debitWallet newId id db u amount meta))"
| lock: "newId \<notin> ledger_ids db \<Longrightarrow> wallet_step db (snd (moveBalanceToLocked newId id db u amount meta))"
| release: "newId \<notin> ledger_ids db \<Longrightarrow> wallet_step db (snd (releaseLockedFunds newId id db u amount meta))"
| consume: "newId \<notin> ledger_ids db \<Longrightarrow> wallet_step db (snd (consumeLockedFunds newId id db u amount meta))"
| use_bonus: "wallet_step db (snd (consumeBonusCartela db u))"
| give_bonus: "wallet_step db (snd (creditBonusCartelas db u count))"

lemmas service_operations =
  creditWallet_def debitWallet_def moveBalanceToLocked_def releaseLockedFunds_def
  consumeLockedFunds_def

lemma wallet_step_ok: "wallet_step db db' \<Longrightarrow> db_ok db \<Longrightarrow> db_ok db'"
proof (induction rule: wallet_step.induct)
  case (use_bonus db u)
  then show ?case
    using bonus_state(1) [of db u] bonus_update_ok [OF use_bonus] by fastforce
next
  case (give_bonus db u count)
  have "0 \<le> wa_bonusCartelaBalance w" if "db_wallets db u = Some w" for w
    using give_bonus that by (auto simp: db_ok_def wallet_ok_def)
  then show ?case
    using bonus_state(2) [of db u count] bonus_update_ok [OF give_bonus] give_bonus by fastforce
qed (simp_all add: service_operations mutation_ok)

lemma wallet_step_booked:
  "wallet_step db db' \<Longrightarrow> available db' u - booked db' u = available db u - booked db u"
proof (induction rule: wallet_step.induct)
  case (use_bonus db v)
  then show ?case using bonus_state(1) [of db v] bonus_booked by fastforce
next
  case (give_bonus db v count)
  then show ?case using bonus_state(2) [of db v count] bonus_booked by fastforce
qed (unfold service_operations snd_map_outcome, (erule mutation_booked)+)

text \<open>Every step keeps the invariant and the books.\<close>

interpretation wallet_run: protocol wallet_step db_ok
  "\<lambda>db db'. \<forall>u. available db' u - booked db' u = available db u - booked db u"
  by unfold_locales (auto simp: wallet_step_booked intro: wallet_step_ok)

section \<open>A sample database\<close>

definition wallet_sample :: wallet_db where
  "wallet_sample =
     \<lparr>db_users = {''ana'', ''ben''},
      db_wallets = [''ana'' \<mapsto> \<lparr>wa_id = ''w1'', wa_userId = ''ana'', wa_balance = 50,
          wa_lockedBalance = 0, wa_bonusCartelaBalance = 1\<rparr>],
      db_ledger = []\<rparr>"

definition win_meta :: "string \<Rightarrow> ledger_meta" where
  "win_meta ref = \<lparr>me_type = PRIZE_WIN, me_referenceType = ''GAME_CARTELA'', me_referenceId = ref,
     me_description = None\<rparr>"

definition win :: "string \<Rightarrow> rat \<Rightarrow> mutation_params" where
  "win ref amount = with_meta (win_meta ref) ''ana'' amount CREDIT AVAILABLE"

lemma wallet_sample_ok: "db_ok wallet_sample"
  by (simp add: db_ok_def wallet_sample_def wallet_ok_def)

lemma wallet_sample_ids: "newId \<notin> ledger_ids wallet_sample"
  by (simp add: ledger_ids_def wallet_sample_def)

lemma sample_runs:
  "(case applyWalletMutation ''t1'' id wallet_sample (win ''c1'' 20) of
      (Inl _, _) \<Rightarrow> False | (Inr r, _) \<Rightarrow> mr_applied r)"
  "(case applyWalletMutation ''t1'' id wallet_sample
        (with_meta (win_meta ''c1'') ''ana'' 80 DEBIT AVAILABLE) of
      (Inl _, _) \<Rightarrow> True | (Inr _, _) \<Rightarrow> False)"
  by code_simp+

lemma sample_win:
  "\<exists>r db'. applyWalletMutation ''t1'' id wallet_sample (win ''c1'' 20) = (Inr r, db') \<and> mr_applied r"
  using sample_runs(1) by (auto split: prod.splits sum.splits)

lemma sample_overdraft:
  "\<exists>e db'. applyWalletMutation ''t1'' id wallet_sample
     (with_meta (win_meta ''c1'') ''ana'' 80 DEBIT AVAILABLE) = (Inl e, db')"
  using sample_runs(2) by (auto split: prod.splits sum.splits)

lemma sample_credit_step:
  "wallet_step\<^sup>*\<^sup>* wallet_sample (snd (creditWallet ''t1'' id wallet_sample ''ana'' 20 (win_meta ''c1'')))"
  by (intro r_into_rtranclp wallet_step.credit wallet_sample_ids)

section \<open>Properties\<close>

text \<open>
  C4. A mutation that is applied does what its direction and mode intend on the pair of available
  and locked balance of that user's wallet, touches no other wallet, and books exactly one ledger
  row under the request's key whose balances are those of the wallet before and after.
\<close>

theorem wallet_mutation_refines:
  assumes "newId \<notin> ledger_ids db"
    and "applyWalletMutation newId id db params = (Inr r, db')" "mr_applied r"
  shows "\<exists>w. db_wallets db (mp_userId params) = Some w \<and>
    intended (mp_direction params) (mode_of params) (mp_amount params)
      (wa_balance w, wa_lockedBalance w) = Some (wa_balance (mr_wallet r), wa_lockedBalance (mr_wallet r)) \<and>
    db_wallets db' = (db_wallets db)(mp_userId params \<mapsto> mr_wallet r) \<and>
    db_ledger db' = db_ledger db @
      [\<lparr>wt_id = mr_ledgerId r, wt_userId = mp_userId params, wt_type = me_type params,
        wt_amount = mp_amount params, wt_balanceBefore = wa_balance w,
        wt_balanceAfter = wa_balance (mr_wallet r), wt_referenceType = me_referenceType params,
        wt_referenceId = me_referenceId params, wt_description = me_description params\<rparr>]"
  using mutation_state [OF assms(1), of params] assms(2,3)
  by (auto simp: posting_of_def ledger_entry_def dest: intended_on_Some)

theorem wallet_mutation_refines_witness:
  "\<exists>r db'. applyWalletMutation ''t1'' id wallet_sample (win ''c1'' 20) = (Inr r, db') \<and>
    (\<exists>w. db_wallets wallet_sample ''ana'' = Some w \<and>
       intended CREDIT AVAILABLE 20 (wa_balance w, wa_lockedBalance w) =
         Some (wa_balance (mr_wallet r), wa_lockedBalance (mr_wallet r)))"
proof -
  obtain r db' where run: "applyWalletMutation ''t1'' id wallet_sample (win ''c1'' 20) = (Inr r, db')"
      "mr_applied r"
    using sample_win by blast
  show ?thesis
    using wallet_mutation_refines [OF wallet_sample_ids run] run(1)
    by (auto simp: win_def with_meta_def mode_of_def ledger_meta.defs)
qed

text \<open>
  C36. A mutation that throws leaves no trace: the pending ledger row is removed again and the state
  is the one other transactions had left.
\<close>

theorem wallet_failure_leaves_no_trace:
  assumes "newId \<notin> ledger_ids (others db)"
    and "applyWalletMutation newId others db params = (Inl e, db')"
  shows "db' = db \<or> db' = others db"
  using mutation_failed [OF assms] .

theorem wallet_failure_leaves_no_trace_witness:
  "snd (applyWalletMutation ''t1'' id wallet_sample (with_meta (win_meta ''c1'') ''ana'' 80 DEBIT AVAILABLE)) =
   wallet_sample"
proof -
  obtain e db' where run: "applyWalletMutation ''t1'' id wallet_sample
      (with_meta (win_meta ''c1'') ''ana'' 80 DEBIT AVAILABLE) = (Inl e, db')"
    using sample_overdraft by blast
  show ?thesis
    using wallet_failure_leaves_no_trace [OF _ run] wallet_sample_ids run by auto
qed

text \<open>
  A request whose ledger key is taken, already or by a transaction that commits between the
  look-up and the insertion, moves no money: it leaves the state as it is, reports that nothing was
  applied and returns the identifier of the row that holds the key, or fails.
\<close>

theorem wallet_request_idempotent:
  assumes "params_key params \<in> posted (others db)"
    and "applyWalletMutation newId others db params = (res, db')"
  shows "(db' = db \<or> db' = others db) \<and>
    (case res of Inl e \<Rightarrow> True
     | Inr r \<Rightarrow> \<not> mr_applied r \<and>
         (\<exists>row\<in>set (db_ledger db'). row_key row = params_key params \<and> wt_id row = mr_ledgerId r))"
  by (rule mutation_taken [OF assms])

theorem wallet_request_idempotent_witness:
  "\<exists>db1. posted db1 = {params_key (win ''c1'' 20)} \<and>
    snd (applyWalletMutation ''t2'' id db1 (win ''c1'' 20)) = db1"
proof -
  obtain r db1 where run: "applyWalletMutation ''t1'' id wallet_sample (win ''c1'' 20) = (Inr r, db1)"
      "mr_applied r"
    using sample_win by blast
  have posted: "posted db1 = {params_key (win ''c1'' 20)}"
    using wallet.takes [of "(''t1'', win ''c1'' 20)" wallet_sample r db1] run(1)
    by (simp add: wallet_ready_def wallet_post_def wallet_sample_ids) (simp add: posted_def wallet_sample_def)
  have "snd (applyWalletMutation ''t2'' id db1 (win ''c1'' 20)) = db1"
    using wallet_request_idempotent [of "win ''c1'' 20" id db1 "''t2''"] posted
    by (cases "applyWalletMutation ''t2'' id db1 (win ''c1'' 20)") auto
  then show ?thesis using posted by blast
qed

text \<open>
  C17. Every state the wallet service reaches from a sound one is sound: no available, locked or
  bonus balance is negative, no two ledger rows share a key or an identifier, every booked amount
  is positive and belongs to an existing user.
\<close>

theorem wallet_invariant:
  assumes "db_ok db" "wallet_step\<^sup>*\<^sup>* db db'"
  shows "(\<forall>u w. db_wallets db' u = Some w \<longrightarrow>
      wa_userId w = u \<and> 0 \<le> wa_balance w \<and> 0 \<le> wa_lockedBalance w \<and> 0 \<le> wa_bonusCartelaBalance w) \<and>
    distinct (map row_key (db_ledger db')) \<and> distinct (map wt_id (db_ledger db')) \<and>
    (\<forall>row\<in>set (db_ledger db'). 0 < wt_amount row \<and> wt_userId row \<in> db_users db')"
proof -
  from assms(2,1) have "db_ok db'" by (rule wallet_run.run_inv)
  then show ?thesis by (simp add: db_ok_def wallet_ok_def row_ok_def)
qed

theorem wallet_invariant_witness:
  "distinct (map row_key (db_ledger (snd (creditWallet ''t1'' id wallet_sample ''ana'' 20 (win_meta ''c1'')))))"
  using wallet_invariant [OF wallet_sample_ok sample_credit_step]
  by blast

text \<open>
  C16. The ledger explains the balances: over any run of the service, the available balance of a
  user changes by exactly what the ledger rows of the user book, the sum of after minus before.
\<close>

theorem ledger_explains_balance:
  assumes "wallet_step\<^sup>*\<^sup>* db db'"
  shows "available db' u - available db u = booked db' u - booked db u"
proof -
  have "available db' u - booked db' u = available db u - booked db u"
    using assms by (induction rule: rtranclp_induct) (simp_all add: wallet_step_booked)
  then show ?thesis by simp
qed

theorem ledger_explains_balance_witness:
  "let db' = snd (creditWallet ''t1'' id wallet_sample ''ana'' 20 (win_meta ''c1''))
   in available db' ''ana'' - available wallet_sample ''ana'' =
      booked db' ''ana'' - booked wallet_sample ''ana''"
  unfolding Let_def
  by (rule ledger_explains_balance [OF sample_credit_step])

text \<open>
  Sending a whole run of requests again, in any order and with new identifiers, after it has
  succeeded changes nothing: nobody is paid twice.
\<close>

theorem payments_not_repeated:
  assumes "\<forall>x\<in>set requests. fst x \<notin> ledger_ids db" "distinct (map fst requests)"
    and "wallet.post_all requests db = (Inr results, db')"
    and "\<forall>x\<in>set again. fst x \<notin> ledger_ids db'"
    and "(\<lambda>x. params_key (snd x)) ` set again \<subseteq> (\<lambda>x. params_key (snd x)) ` set requests"
  shows "snd (wallet.post_all again db') = db'"
  using assms
  by (intro wallet.post_all_replay [of requests db results db'])
    (auto simp: wallet_ready_def distinct_map_sorted_wrt)

theorem payments_not_repeated_witness:
  "\<exists>results db'. wallet.post_all [(''t1'', win ''c1'' 20)] wallet_sample = (Inr results, db') \<and>
    snd (wallet.post_all [(''t2'', win ''c1'' 20), (''t3'', win ''c1'' 20)] db') = db'"
proof -
  obtain r db' where run: "applyWalletMutation ''t1'' id wallet_sample (win ''c1'' 20) = (Inr r, db')"
      "mr_applied r"
    using sample_win by blast
  have ids: "ledger_ids db' = {''t1''}"
    using mutation_state [OF wallet_sample_ids [of "''t1''"], of "win ''c1'' 20"] run
    by (auto simp: posting_of_def ledger_ids_def ledger_entry_def wallet_sample_def)
  have all: "wallet.post_all [(''t1'', win ''c1'' 20)] wallet_sample = (Inr [r], db')"
    using run by (simp add: wallet_post_def)
  have "snd (wallet.post_all [(''t2'', win ''c1'' 20), (''t3'', win ''c1'' 20)] db') = db'"
    by (rule payments_not_repeated [OF _ _ all]) (simp_all add: ids wallet_sample_ids)
  then show ?thesis using all by blast
qed

lemma lock_effect:
  assumes "id1 \<notin> ledger_ids db" "meta_key u m1 \<notin> posted db"
    and "moveBalanceToLocked id1 id db u a m1 = (Inr sw, db1)"
  shows "\<exists>w w'. db_wallets db u = Some w \<and> 0 < a \<and> a \<le> wa_balance w \<and> u \<in> db_users db \<and>
    w' = w\<lparr>wa_balance := wa_balance w - a, wa_lockedBalance := wa_lockedBalance w + a\<rparr> \<and>
    sw = serializeWallet w' None \<and> db_users db1 = db_users db \<and>
    db_wallets db1 = (db_wallets db)(u \<mapsto> w') \<and> posted db1 = insert (meta_key u m1) (posted db)"
proof -
  let ?p = "with_meta m1 u a DEBIT AVAILABLE_TO_LOCKED"
  obtain r where r: "applyWalletMutation id1 id db ?p = (Inr r, db1)" "sw = serializeWallet (mr_wallet r) None"
    using assms(3) by (cases "applyWalletMutation id1 id db ?p")
      (auto simp: moveBalanceToLocked_def map_outcome_def map_sum_def split: sum.splits)
  have key: "params_key ?p = meta_key u m1" by (simp add: meta_key_def)
  then show ?thesis
    using mutation_state [OF assms(1), of ?p] r assms(2) wallet.takes [of "(id1, ?p)" db r db1] assms(1)
    by (auto simp: wallet_ready_def wallet_post_def posting_of_def intended_on_def balances_def
        set_balances_def split: if_splits)
qed

text \<open>
  Locking an amount of the available balance keeps the total, and releasing it again under
  another reference succeeds and restores every wallet.
\<close>

theorem lock_release_round_trip:
  assumes "db_ok db" "id1 \<notin> ledger_ids db" "id2 \<notin> ledger_ids db1"
    and "meta_key u m1 \<notin> posted db" "meta_key u m2 \<notin> posted db1"
    and "js_trim (me_referenceType m2) \<noteq> []" "js_trim (me_referenceId m2) \<noteq> []"
    and "moveBalanceToLocked id1 id db u a m1 = (Inr sw, db1)"
  shows "\<exists>w sw2 db2. db_wallets db u = Some w \<and>
    sw_totalBalance sw = wa_balance w + wa_lockedBalance w \<and>
    releaseLockedFunds id2 id db1 u a m2 = (Inr sw2, db2) \<and> db_wallets db2 = db_wallets db"
proof -
  obtain w w' where w: "db_wallets db u = Some w" "0 < a" "a \<le> wa_balance w" "u \<in> db_users db"
      "w' = w\<lparr>wa_balance := wa_balance w - a, wa_lockedBalance := wa_lockedBalance w + a\<rparr>"
      "sw = serializeWallet w' None" "db_users db1 = db_users db" "db_wallets db1 = (db_wallets db)(u \<mapsto> w')"
    using lock_effect [OF assms(2,4,8)] by blast
  have "0 \<le> wa_lockedBalance w" using assms(1) w(1) by (simp add: db_ok_def wallet_ok_def)
  then show ?thesis
    using w assms(3,5-7)
      applyWalletMutation_posting [of "with_meta m2 u a CREDIT LOCKED_TO_AVAILABLE" db1 db1 id2 id]
    by (auto simp: releaseLockedFunds_def map_outcome_def meta_key_def intended_on_def balances_def
        set_balances_def serializeWallet_def fun_upd_idem)
qed

lemma sample_trims: "js_trim ''b'' \<noteq> []"
  by code_simp+

lemma sample_lock:
  "(case moveBalanceToLocked ''t1'' id wallet_sample ''ana'' 30 (win_meta ''a'') of
      (Inl _, _) \<Rightarrow> False
    | (Inr _, db1) \<Rightarrow> map wt_id (db_ledger db1) = [''t1''] \<and>
        map row_key (db_ledger db1) = [meta_key ''ana'' (win_meta ''a'')])"
  by code_simp

theorem lock_release_round_trip_witness:
  "\<exists>w sw db1 sw2 db2. db_wallets wallet_sample ''ana'' = Some w \<and>
    moveBalanceToLocked ''t1'' id wallet_sample ''ana'' 30 (win_meta ''a'') = (Inr sw, db1) \<and>
    releaseLockedFunds ''t2'' id db1 ''ana'' 30 (win_meta ''b'') = (Inr sw2, db2) \<and>
    db_wallets db2 = db_wallets wallet_sample"
proof -
  obtain sw db1 where run: "moveBalanceToLocked ''t1'' id wallet_sample ''ana'' 30 (win_meta ''a'') = (Inr sw, db1)"
      and ids: "map wt_id (db_ledger db1) = [''t1'']" "map row_key (db_ledger db1) = [meta_key ''ana'' (win_meta ''a'')]"
    using sample_lock by (auto split: prod.splits sum.splits)
  have "ledger_ids db1 = {''t1''}" "posted db1 = {meta_key ''ana'' (win_meta ''a'')}"
    using arg_cong [OF ids(1), of set] arg_cong [OF ids(2), of set]
    by (simp_all add: ledger_ids_def posted_def)
  then have "\<exists>w sw2 db2. db_wallets wallet_sample ''ana'' = Some w \<and>
      sw_totalBalance sw = wa_balance w + wa_lockedBalance w \<and>
      releaseLockedFunds ''t2'' id db1 ''ana'' 30 (win_meta ''b'') = (Inr sw2, db2) \<and>
      db_wallets db2 = db_wallets wallet_sample"
    by (intro lock_release_round_trip [OF wallet_sample_ok wallet_sample_ids _ _ _ _ _ run])
      (use card_reference sample_trims in \<open>simp_all add: meta_key_def win_meta_def posted_def wallet_sample_def\<close>)
  then show ?thesis using run by blast
qed

text \<open>
  The pages of a user's transactions, from the first to the last the meta data announces, show
  every transaction of the user exactly once, newest first.
\<close>

lemma pages_append:
  assumes "0 < k"
  shows "concat (map (\<lambda>p. take k (drop (p * k) xs)) [0..<n]) = take (n * k) xs"
proof (induction n)
  case (Suc n)
  have "take (n * k) xs @ take k (drop (n * k) xs) = take (Suc n * k) xs"
    using take_add [of "n * k" k xs] by (simp add: add.commute)
  then show ?case using Suc by simp
qed simp

lemma ceil_div_ge:
  assumes "0 < b"
  shows "a \<le> ceil_div a b * b"
proof -
  have "(- a) div b * b + (- a) mod b = - a" by (rule div_mult_mod_eq)
  moreover have "0 \<le> (- a) mod b" using assms by (rule pos_mod_sign)
  moreover have "ceil_div a b * b = - ((- a) div b * b)" by (simp add: ceil_div_def)
  ultimately show ?thesis by linarith
qed

lemma page_content:
  assumes "1 \<le> p" "1 \<le> k"
  shows "fst (getMyTransactions db u \<lparr>pq_page = Some p, pq_pageSize = Some k\<rparr>) =
    take (nat k) (drop (nat (p - 1) * nat k) (rev (filter (\<lambda>row. wt_userId row = u) (db_ledger db))))"
  using assms by (simp add: getMyTransactions_def getPaginationParams_def or_else_def nat_mult_distrib Let_def)

theorem transaction_pages_complete:
  assumes "1 \<le> k"
    and "pages = pm_totalPages (snd (getMyTransactions db u \<lparr>pq_page = Some 1, pq_pageSize = Some k\<rparr>))"
  shows "concat (map (\<lambda>p. fst (getMyTransactions db u \<lparr>pq_page = Some p, pq_pageSize = Some k\<rparr>)) [1..pages]) =
    rev (filter (\<lambda>row. wt_userId row = u) (db_ledger db))"
proof -
  let ?mine = "rev (filter (\<lambda>row. wt_userId row = u) (db_ledger db))"
  have pages: "pages = max 1 (ceil_div (int (length ?mine)) k)"
    using assms by (simp add: getMyTransactions_def getPaginationParams_def or_else_def
        buildPaginationMeta_def Let_def)
  have "[1..pages] = map (\<lambda>n. int n + 1) [0..<nat pages]"
    by (rule nth_equalityI) (simp_all add: nth_upto)
  then have "concat (map (\<lambda>p. fst (getMyTransactions db u \<lparr>pq_page = Some p, pq_pageSize = Some k\<rparr>)) [1..pages]) =
      concat (map (\<lambda>n. take (nat k) (drop (n * nat k) ?mine)) [0..<nat pages])"
    using page_content [OF _ assms(1)] by (simp add: o_def)
  also have "\<dots> = take (nat pages * nat k) ?mine"
    using assms(1) by (intro pages_append) simp
  also have "int (length ?mine) \<le> pages * k"
  proof -
    have "int (length ?mine) \<le> ceil_div (int (length ?mine)) k * k"
      using assms(1) by (intro ceil_div_ge) simp
    also have "\<dots> \<le> pages * k" using pages assms(1) by (intro mult_right_mono) auto
    finally show ?thesis .
  qed
  then have "length ?mine \<le> nat pages * nat k"
    using assms(1) pages by (simp add: nat_mult_distrib [symmetric] le_nat_iff)
  then have "take (nat pages * nat k) ?mine = ?mine" by simp
  finally show ?thesis .
qed

definition paged_sample :: wallet_db where
  "paged_sample =
     snd (wallet_post (''t3'', win ''c3'' 1)
       (snd (wallet_post (''t2'', win ''c2'' 5)
         (snd (wallet_post (''t1'', win ''c1'' 20) wallet_sample)))))"

theorem transaction_pages_complete_witness:
  "concat (map (\<lambda>p. fst (getMyTransactions paged_sample ''ana'' \<lparr>pq_page = Some p, pq_pageSize = Some 2\<rparr>)) [1..2]) =
    rev (filter (\<lambda>row. wt_userId row = ''ana'') (db_ledger paged_sample))"
proof (rule transaction_pages_complete)
  show "2 = pm_totalPages (snd (getMyTransactions paged_sample ''ana'' \<lparr>pq_page = Some 1, pq_pageSize = Some 2\<rparr>))"
    by code_simp
qed simp

end
