(* ===== verification/GameBooks.thy ===== *)
theory GameBooks
  imports GameRuns
begin

text \<open>
  The books of the game along a run: the cartelas of a session, what they paid, and the amounts of the
  session. \<open>kept\<close> is the frame of the transactions that play a game, which leave the books alone;
  \<open>books\<close> is what every transaction guarantees, registrations included.
\<close>

section \<open>Views\<close>

definition cartela_entry :: "game_cartela \<Rightarrow>
   (string \<times> string \<times> string \<times> cartela) \<times> registration_accounting" where
  "cartela_entry c = ((gc_id c, gc_sessionId c, gc_userId c, gc_board c), account_of c)"

definition session_money :: "session_row \<Rightarrow> string \<times> rat \<times> rat \<times> rat \<times> rat \<times> rat" where
  "session_money s =
     (gs_id s, gs_entryFee s, gs_prizePerCartela s, gs_companyFeePerCartela s, gs_prizeAmount s,
      gs_companyRevenue s)"

definition entries :: "game_db \<Rightarrow> ((string \<times> string \<times> string \<times> cartela) \<times> registration_accounting) list" where
  "entries db = map cartela_entry (gd_cartelas db)"

definition accounts :: "game_db \<Rightarrow> (string \<times> rat \<times> rat \<times> rat \<times> rat \<times> rat) list" where
  "accounts db = map session_money (gd_sessions db)"

named_theorems book_simps \<open>what an operation leaves of the books\<close>

lemma entries_frames [book_simps]:
  "entries (snd (update_sessions now P f db)) = entries db"
  "entries (snd (update_claims Q h db)) = entries db"
  "entries (create_claim k db) = entries db"
  "entries (db\<lparr>gd_slots := sl\<rparr>) = entries db" "entries (db\<lparr>gd_sessions := ss\<rparr>) = entries db"
  "entries (db\<lparr>gd_numbers := ns\<rparr>) = entries db" "entries (db\<lparr>gd_wallet := w\<rparr>) = entries db"
  by (simp_all add: entries_def table_simps)

lemma accounts_frames [book_simps]:
  "accounts (snd (update_cartelas P g db)) = accounts db"
  "accounts (snd (update_claims Q h db)) = accounts db"
  "accounts (create_claim k db) = accounts db"
  "accounts (db\<lparr>gd_slots := sl\<rparr>) = accounts db"
  "accounts (db\<lparr>gd_numbers := ns\<rparr>) = accounts db" "accounts (db\<lparr>gd_wallet := w\<rparr>) = accounts db"
  by (simp_all add: accounts_def table_simps)

lemma reservations_frames [book_simps]:
  "gd_reservations (snd (update_sessions now R f db)) = gd_reservations db"
  "gd_reservations (snd (update_cartelas P g db)) = gd_reservations db"
  "gd_reservations (snd (update_claims Q h db)) = gd_reservations db"
  "gd_reservations (create_claim k db) = gd_reservations db"
  by (simp_all add: update_sessions_def update_cartelas_def update_claims_def create_claim_def)

lemma entries_update [book_simps]:
  "(\<And>c. cartela_entry (f c) = cartela_entry c) \<Longrightarrow> entries (snd (update_cartelas P f db)) = entries db"
  by (simp add: entries_def update_cartelas_def map_update_where)

lemma accounts_update [book_simps]:
  "(\<And>s. session_money ((f s)\<lparr>gs_updatedAt := now\<rparr>) = session_money s) \<Longrightarrow>
   accounts (snd (update_sessions now P f db)) = accounts db"
  by (simp add: accounts_def update_sessions_def map_update_where)

section \<open>Transactions that leave the books alone\<close>

definition framed :: "game_db \<Rightarrow> game_db \<Rightarrow> bool" where
  "framed db db' \<longleftrightarrow>
     entries db' = entries db \<and> gd_reservations db' = gd_reservations db \<and>
     prefix (accounts db) (accounts db') \<and> gd_wallet db' = gd_wallet db"

lemma framed_refl [simp]: "framed db db"
  by (simp add: framed_def)

lemma framed_trans: "framed db db1 \<Longrightarrow> framed db1 db2 \<Longrightarrow> framed db db2"
  unfolding framed_def using prefix_order.trans by fastforce

lemma framed_frames:
  "(\<And>s. session_money ((f s)\<lparr>gs_updatedAt := now\<rparr>) = session_money s) \<Longrightarrow> framed db (snd (update_sessions now P f db))"
  "(\<And>c. cartela_entry (g c) = cartela_entry c) \<Longrightarrow> framed db (snd (update_cartelas Q g db))"
  "framed db (snd (update_claims R h db))" "framed db (create_claim k db)"
  "framed db (db\<lparr>gd_slots := sl\<rparr>)" "framed db (db\<lparr>gd_numbers := ns\<rparr>)"
  by (simp_all add: framed_def book_simps table_simps paid_def)

lemma framed_update_session:
  assumes "update_session now ident f db = Inr db'"
    and "\<And>s. session_money ((f s)\<lparr>gs_updatedAt := now\<rparr>) = session_money s"
  shows "framed db db'"
  using assms(1) framed_frames(1) [where f = f and now = now, OF assms(2)] by (auto simp: update_session_Inr)

lemma framed_update_slot: "update_slot ident f db = Inr db' \<Longrightarrow> framed db db'"
  by (auto simp: update_slot_def framed_frames split: if_splits)

lemma framed_update_claim: "update_claim ident f db = Inr db' \<Longrightarrow> framed db db'"
  by (auto simp: update_claim_Inr framed_frames)

lemma framed_create_number: "create_number row db = Inr db' \<Longrightarrow> framed db db'"
  by (auto simp: create_number_def framed_frames split: if_splits)

lemma framed_create_session: "create_session s db = Inr db' \<Longrightarrow> framed db db'"
  by (auto simp: create_session_def framed_def entries_def accounts_def paid_def split: if_splits)

lemma framed_restore: "restoreSlotAfterSession slotId db = Inr (r, db') \<Longrightarrow> framed db db'"
  using framed_update_slot
  by (auto simp: restoreSlotAfterSession_def moveSlotToBack_def bind_result_eq_Inr_iff split: if_splits)

lemma framed_soft_retire: "softRetireEmptyNonHeadReadySessions now ss db = Inr db' \<Longrightarrow> framed db db'"
proof (induction now ss db rule: softRetireEmptyNonHeadReadySessions.induct)
  case (2 now s ss db)
  show ?case
  proof (cases "active_cartelas db (gs_id s) \<noteq> []")
    case False
    obtain db1 where 1: "update_session now (gs_id s)
        (\<lambda>s. s\<lparr>gs_status := CANCELLED, gs_cancelledReason := Some ''not_queue_head'', gs_scheduledStartAt := None\<rparr>) db = Inr db1"
      "softRetireEmptyNonHeadReadySessions now ss db1 = Inr db'"
      using 2(3) False by (auto simp: bind_result_eq_Inr_iff)
    have "framed db db1" by (rule framed_update_session [OF 1(1)]) (simp add: session_money_def)
    then show ?thesis using 2(2) [OF False 1(2)] framed_trans by blast
  qed (use 2(1,3) in simp)
qed simp

lemma framed_activate_head:
  assumes "activate_head cfg now active start headReady rest db = Inr (r, db')"
  shows "framed db db'"
proof -
  obtain db1 where 1: "softRetireEmptyNonHeadReadySessions now rest db = Inr db1"
    "db' = db1 \<or> (\<exists>db2. update_slot (gs_slotId headReady) (set_durations cfg) db1 = Inr db2 \<and>
       update_session now (gs_id headReady) (\<lambda>s. s\<lparr>gs_scheduledStartAt := start\<rparr>) db2 = Inr db')"
    using assms by (auto simp: activate_head_def bind_result_eq_Inr_iff split: if_splits)
  have "framed db2 db'" if "update_session now (gs_id headReady) (\<lambda>s. s\<lparr>gs_scheduledStartAt := start\<rparr>) db2 = Inr db'" for db2
    by (rule framed_update_session [OF that]) (simp add: session_money_def)
  then show ?thesis using 1 framed_soft_retire [OF 1(1)] framed_update_slot framed_trans by blast
qed

lemma framed_open_queue_head:
  assumes "open_queue_head cfg now codes behind start db = Inr (r, db')"
  shows "framed db db'"
proof (cases "db' = db")
  case False
  then obtain h db1 s where "update_slot h (set_durations cfg) db = Inr db1" "create_session s db1 = Inr db'"
    using assms by (auto simp: open_queue_head_def bind_result_eq_Inr_iff split: list.splits if_splits)
  then show ?thesis using framed_update_slot framed_create_session framed_trans by blast
qed simp

lemma framed_opener:
  "openNextAutoQueueRegistrationInTransaction cfg now lockFree codes options db = Inr (r, db') \<Longrightarrow> framed db db'"
  using framed_activate_head framed_open_queue_head
  by (auto simp: openNextAutoQueueRegistrationInTransaction_def Let_def split: if_splits list.splits)

lemma framed_start:
  assumes "start_session now codes slotId config db = Inr (r, db')"
  shows "framed db db'"
proof -
  obtain db1 where 1: "update_slot slotId (\<lambda>s. s\<lparr>sl_status := PLAYING\<rparr>) db = Inr db1"
    "(\<exists>P. db' = snd (update_sessions now P (\<lambda>s. s\<lparr>gs_status := PLAYING, gs_startedAt := now\<rparr>) db1)) \<or>
     (\<exists>s. create_session s db1 = Inr db')"
    using assms by (auto simp: start_session_def Let_def bind_result_eq_Inr_iff case_prod_beta split: option.splits if_splits)
  have "framed db1 (snd (update_sessions now P (\<lambda>s. s\<lparr>gs_status := PLAYING, gs_startedAt := now\<rparr>) db1))" for P
    by (rule framed_frames) (simp add: session_money_def)
  then show ?thesis using 1 framed_update_slot framed_create_session framed_trans by blast
qed

lemma framed_call:
  assumes "call_transaction id sid letter number db = (Inr row, db')"
  shows "framed db db'"
  using assms framed_create_number
  by (auto simp: call_transaction_def transaction_def Let_def bind_result_eq_Inr_iff
      split: option.splits if_splits sum.splits)

lemma framed_auto_call:
  assumes "auto_call_tx now sid number remaining due db = Inr (r, db')"
  shows "framed db db'"
proof -
  let ?f = "\<lambda>s. if remaining \<le> 1 then s\<lparr>gs_autoCallEnabled := False, gs_nextAutoCallAt := None\<rparr>
    else s\<lparr>gs_nextAutoCallAt := Some due\<rparr>"
  obtain row where "create_number row (snd (update_sessions now (\<lambda>s. gs_id s = sid \<and> auto_due now s) ?f db)) = Inr db'"
    using assms by (auto simp: auto_call_tx_def Let_def bind_result_eq_Inr_iff case_prod_beta split: option.splits if_split_asm)
  moreover have "framed db (snd (update_sessions now (\<lambda>s. gs_id s = sid \<and> auto_due now s) ?f db))"
    by (rule framed_frames) (simp add: session_money_def)
  ultimately show ?thesis using framed_create_number framed_trans by blast
qed

lemma framed_auto_on:
  assumes "startAutoCall cfg now draw sid False db = (Inr first, db')"
  shows "framed db db'"
proof -
  obtain t where "update_session now sid (\<lambda>s. s\<lparr>gs_autoCallEnabled := True, gs_nextAutoCallAt := Some t\<rparr>) db = Inr db'"
    using assms by (auto simp: startAutoCall_def Let_def split: option.splits sum.splits if_split_asm)
  then show ?thesis by (rule framed_update_session) (simp add: session_money_def)
qed

lemma framed_auto_off: "framed db (disableAutoCall now sid db)"
  unfolding disableAutoCall_def by (rule framed_frames) (simp add: session_money_def)

lemma framed_grace: "framed db (snd (startNoWinnerGrace cfg now sid db))"
  by (simp add: startNoWinnerGrace_def Let_def case_prod_beta framed_frames session_money_def)

lemma framed_early: "framed db (snd (mark_early now sid db))"
  unfolding mark_early_def by (rule framed_frames) (simp add: session_money_def)

text \<open>The slot is restored and the next registration may open.\<close>

lemma framed_end:
  assumes "framed db d1" "framed d1 d2"
    and "db' = d1 \<or> (\<exists>x d3 opened. restoreSlotAfterSession slotId d2 = Inr (x, d3) \<and>
      openNextAutoQueueRegistrationInTransaction cfg now lockFree codes options d3 = Inr (opened, db'))"
  shows "framed db db'"
  using assms(3)
proof (elim disjE exE conjE)
  fix x d3 opened
  assume "restoreSlotAfterSession slotId d2 = Inr (x, d3)"
    "openNextAutoQueueRegistrationInTransaction cfg now lockFree codes options d3 = Inr (opened, db')"
  then have "framed d2 d3" "framed d3 db'" using framed_restore framed_opener by blast+
  then show ?thesis using framed_trans [OF framed_trans [OF assms(1,2)]] framed_trans by blast
qed (use assms(1) in simp)

lemma framed_no_winner:
  assumes "no_winner_tx cfg now lockFree codes sid db = Inr (r, db')"
  shows "framed db db'"
proof (cases "find_session db sid")
  case (Some session)
  let ?d1 = "snd (update_sessions now (\<lambda>s. gs_id s = sid \<and> grace_expired now s)
      (\<lambda>s. s\<lparr>gs_status := NO_WINNER, gs_finishedAt := Some now, gs_autoCallEnabled := False, gs_nextAutoCallAt := None\<rparr>) db)"
  let ?d2 = "snd (update_cartelas (\<lambda>c. gc_sessionId c = sid \<and> gc_status c = REGISTERED \<and> \<not> gc_isWinner c)
      (\<lambda>c. c\<lparr>gc_status := BLOCKED, gc_blockedAt := Some now\<rparr>) ?d1)"
  let ?d3 = "snd (update_claims (\<lambda>c. bc_sessionId c = sid \<and> bc_status c = PENDING)
      (\<lambda>c. c\<lparr>bc_status := INVALID, bc_reason := Some ''Game ended with no winner after all numbers were called'',
            bc_checkedAt := Some now\<rparr>) ?d2)"
  have 1: "framed db ?d1" by (rule framed_frames) (simp add: session_money_def)
  have 2: "framed ?d1 ?d2" by (rule framed_frames) (simp add: cartela_entry_def account_of_def)
  have 3: "framed ?d2 ?d3" by (rule framed_frames)
  have "db' = ?d1 \<or> (\<exists>x db4 o'. restoreSlotAfterSession (gs_slotId session) ?d3 = Inr (x, db4) \<and>
      openNextAutoQueueRegistrationInTransaction cfg now lockFree codes after_finish db4 = Inr (o', db'))"
    using assms Some by (auto simp: no_winner_tx_def Let_def bind_result_eq_Inr_iff case_prod_beta split: if_split_asm)
  then show ?thesis by (rule framed_end [OF 1 framed_trans [OF 2 3]])
qed (use assms in \<open>simp add: no_winner_tx_def\<close>)

lemma framed_mark_winner: "framed db (snd (mark_winner cid db))"
  unfolding mark_winner_def by (rule framed_frames) (simp add: cartela_entry_def account_of_def)

lemma framed_marked: "framed db (create_claim k (snd (mark_winner cid db)))"
  using framed_trans [OF framed_mark_winner framed_frames(4)] .

lemma framed_join:
  assumes "createAutoValidJoinWindowClaim now newId cc u matched shown grace ball db = Inr (r, db')"
  shows "framed db db'"
proof -
  obtain k where "db' = create_claim k (snd (mark_winner (gc_id (cc_cartela cc)) db))"
    using assms by (auto simp: createAutoValidJoinWindowClaim_def Let_def case_prod_beta split: option.splits if_split_asm)
  then show ?thesis using framed_marked by simp
qed

lemma framed_open_or_join:
  assumes "createAutoValidOpenOrJoinWindowClaim now newId cc u matched p duration shown grace ball db = Inr (r, db')"
  shows "framed db db'"
proof -
  let ?d1 = "snd (update_sessions now (\<lambda>s. gs_id s = gc_sessionId (cc_cartela cc) \<and> gs_status s = PLAYING)
      (\<lambda>s. s\<lparr>gs_status := WINNER_WINDOW, gs_winnerWindowStartedAt := Some now,
            gs_winnerWindowEndsAt := Some (now + duration), gs_autoCallEnabled := False,
            gs_nextAutoCallAt := None, gs_noWinnerGraceEndsAt := None, gs_noWinnerReason := None\<rparr>) db)"
  have 1: "framed db ?d1" by (rule framed_frames) (simp add: session_money_def)
  have "(\<exists>cc'. createAutoValidJoinWindowClaim now newId cc' u matched shown grace ball ?d1 = Inr (r, db')) \<or>
      (\<exists>k. db' = create_claim k (snd (mark_winner (gc_id (cc_cartela cc)) ?d1)))"
    using assms by (auto simp: createAutoValidOpenOrJoinWindowClaim_def Let_def case_prod_beta split: option.splits if_split_asm)
  then have "framed ?d1 db'" by (elim disjE exE) (rule framed_join, assumption, simp add: framed_marked)
  then show ?thesis by (rule framed_trans [OF 1])
qed

lemma framed_invalid:
  assumes "createAutoInvalidClaim now newId cc u ruleKey reason matched interval paused had ball db = Inr (r, db')"
  shows "framed db db'"
proof -
  let ?d1 = "snd (update_cartelas (\<lambda>x. gc_id x = gc_id (cc_cartela cc) \<and> gc_status x = REGISTERED)
      (\<lambda>x. x\<lparr>gc_status := BLOCKED, gc_blockedAt := Some now\<rparr>) db)"
  have 1: "framed db ?d1" by (rule framed_frames) (simp add: cartela_entry_def account_of_def)
  obtain k P resume where "db' = create_claim k ?d1 \<or>
      db' = snd (update_sessions now P (\<lambda>s. s\<lparr>gs_nextAutoCallAt := Some resume\<rparr>) (create_claim k ?d1))"
    using assms by (auto simp: createAutoInvalidClaim_def Let_def case_prod_beta split: option.splits if_split_asm)
  moreover have "framed d (snd (update_sessions now P (\<lambda>s. s\<lparr>gs_nextAutoCallAt := Some resume\<rparr>) d))" for d
    by (rule framed_frames) (simp add: session_money_def)
  ultimately show ?thesis using 1 framed_frames(4) framed_trans by blast
qed

lemma framed_pause: "framed db (snd (pause_auto_call now cc db))"
  by (simp add: pause_auto_call_def Let_def framed_frames session_money_def)

lemma framed_auto_claim:
  assumes "createAutoValidatedClaim cfg now newId cc u ruleKey db = Inr (r, db')"
  shows "framed db db'"
proof -
  have "framed (snd (pause_auto_call now cc db)) db'"
    using assms framed_invalid framed_join framed_open_or_join
    by (auto simp: createAutoValidatedClaim_def Let_def case_prod_beta bind_result_eq_Inr_iff split: if_split_asm)
  then show ?thesis using framed_pause framed_trans by blast
qed

lemma framed_claim:
  assumes "claim_tx cfg now newId cc u db = Inr (r, db')"
  shows "framed db db'"
proof (cases "getTerminalClaimReasonCode cc")
  case (Some reason)
  then have "db' = db \<or> (\<exists>k. db' = create_claim k db)"
    using assms by (auto simp: claim_tx_def createAlreadyResolvedClaimResponse_def Let_def case_prod_beta split: list.splits)
  then show ?thesis using framed_frames(4) by auto
next
  case None
  have manual: "framed db db'" if m: "createManualPendingClaim now newId cc u ruleKey db = Inr (r, db')" for ruleKey
  proof -
    obtain k where "update_session now (gc_sessionId (cc_cartela cc))
        (\<lambda>s. s\<lparr>gs_status := CHECKING, gs_autoCallEnabled := False, gs_nextAutoCallAt := None\<rparr>)
        (create_claim k db) = Inr db'"
      using m by (auto simp: createManualPendingClaim_def Let_def bind_result_eq_Inr_iff split: if_split_asm)
    then have "framed (create_claim k db) db'" by (rule framed_update_session) (simp add: session_money_def)
    then show ?thesis using framed_frames(4) framed_trans by blast
  qed
  show ?thesis
    using assms None manual framed_auto_claim by (auto simp: claim_tx_def Let_def split: if_split_asm)
qed

lemma framed_try_open: "framed db (snd (try_open_next cfg now lockFree codes db))"
  using framed_opener by (auto simp: try_open_next_def split: sum.splits)

lemma framed_finish:
  assumes "finishGameWithWinner cfg now lockFree codes sid cid db = Inr (r, db')"
  shows "framed db db'"
proof (cases "find_session db sid")
  case (Some session)
  let ?d1 = "snd (update_sessions now
      (\<lambda>s. gs_id s = sid \<and> live (gs_status s) \<and> gs_winnerCartelaId s = None)
      (\<lambda>s. s\<lparr>gs_status := FINISHED, gs_winnerCartelaId := Some cid, gs_finishedAt := Some now,
            gs_noWinnerGraceEndsAt := None, gs_noWinnerReason := None\<rparr>) db)"
  have 1: "framed db ?d1" by (rule framed_frames) (simp add: session_money_def)
  have "db' = ?d1 \<or> (\<exists>x db2 o'. restoreSlotAfterSession (gs_slotId session) ?d1 = Inr (x, db2) \<and>
      openNextAutoQueueRegistrationInTransaction cfg now lockFree codes after_finish db2 = Inr (o', db'))"
    using assms Some by (auto simp: finishGameWithWinner_def Let_def bind_result_eq_Inr_iff case_prod_beta split: if_split_asm)
  then show ?thesis by (rule framed_end [OF 1 framed_refl])
qed (use assms in \<open>simp add: finishGameWithWinner_def\<close>)

lemma framed_reject:
  assumes "reject_tx now claimId reason db = Inr (r, db')"
  shows "framed db db'"
proof -
  obtain P ident f db2 sid where
    "update_claim ident f (snd (update_cartelas P (\<lambda>c. c\<lparr>gc_status := BLOCKED, gc_blockedAt := Some now\<rparr>) db)) = Inr db2"
    "update_session now sid (\<lambda>s. s\<lparr>gs_status := PLAYING\<rparr>) db2 = Inr db'"
    using assms by (auto simp: reject_tx_def Let_def bind_result_eq_Inr_iff case_prod_beta split: option.splits if_split_asm)
  moreover have "framed db (snd (update_cartelas P (\<lambda>c. c\<lparr>gc_status := BLOCKED, gc_blockedAt := Some now\<rparr>) db))"
    by (rule framed_frames) (simp add: cartela_entry_def account_of_def)
  moreover have "framed db2 db'"
    by (rule framed_update_session [OF calculation(2)]) (simp add: session_money_def)
  ultimately show ?thesis using framed_update_claim framed_trans by blast
qed

section \<open>Paying adds to the ledger\<close>

definition kept :: "game_db \<Rightarrow> game_db \<Rightarrow> bool" where
  "kept db db' \<longleftrightarrow>
     entries db' = entries db \<and> gd_reservations db' = gd_reservations db \<and>
     prefix (accounts db) (accounts db') \<and> paid db \<subseteq> paid db'"

lemma kept_refl [simp]: "kept db db"
  by (simp add: kept_def)

lemma kept_trans: "kept db db1 \<Longrightarrow> kept db1 db2 \<Longrightarrow> kept db db2"
  unfolding kept_def using prefix_order.trans by fastforce

lemma framed_kept: "framed db db' \<Longrightarrow> kept db db'"
  by (simp add: framed_def kept_def paid_def)

lemma kept_credit:
  assumes "wallet_tx (\<lambda>w. creditWallet newId id w u amount meta) db = Inr (r, db')"
    and "newId \<notin> ledger_ids (gd_wallet db)"
  shows "kept db db' \<and> ledger_ids (gd_wallet db') \<subseteq> insert newId (ledger_ids (gd_wallet db))"
proof -
  let ?p = "with_meta meta u amount CREDIT AVAILABLE"
  obtain res w where m: "applyWalletMutation newId id (gd_wallet db) ?p = (res, w)" by fastforce
  have db': "db' = db\<lparr>gd_wallet := w\<rparr>" "\<exists>x. res = Inr x"
    using assms(1) m by (simp_all add: wallet_tx_def creditWallet_def map_outcome_def split: sum.splits)
      (auto simp: map_sum_def split: sum.splits)
  have "posted (gd_wallet db) \<subseteq> posted w \<and> ledger_ids w \<subseteq> insert newId (ledger_ids (gd_wallet db))"
    using mutation_state [OF assms(2), of ?p, unfolded m] db'(2)
    by (auto simp: posting_of_def posted_def ledger_ids_def ledger_entry_def split: if_splits)
  then show ?thesis by (simp add: db'(1) kept_def book_simps paid_def)
qed

section \<open>Playing leaves the books alone\<close>

lemma kept_credit_winners:
  "credit_winners newId s ws db = Inr db' \<Longrightarrow> ids_free newId (map (\<lambda>(c, _). gc_id c) ws) (gd_wallet db) \<Longrightarrow>
   kept db db'"
proof (induction ws arbitrary: db)
  case (Cons p ws)
  obtain c share where p: "p = (c, share)" by fastforce
  obtain x db1 where 1: "wallet_tx (\<lambda>w. creditWallet (newId (gc_id c)) id w (gc_userId c) share
      (prize_meta s (gc_id c))) db = Inr (x, db1)" "credit_winners newId s ws db1 = Inr db'"
    using Cons.prems(1) by (auto simp: p bind_result_eq_Inr_iff)
  have "newId (gc_id c) \<notin> ledger_ids (gd_wallet db)" using Cons.prems(2) by (simp add: p ids_free_def)
  note k = kept_credit [OF 1(1) this]
  have "ids_free newId (map (\<lambda>(c, _). gc_id c) ws) (gd_wallet db1)"
    using ids_free_Cons [OF Cons.prems(2) [unfolded p list.map prod.case]] k by blast
  then show ?case using Cons.IH [OF 1(2)] k kept_trans by blast
qed simp

lemma map_fst_zip_via: "length xs = length ys \<Longrightarrow> map (\<lambda>(x, _). f x) (zip xs ys) = map f xs"
  by (induction xs ys rule: list_induct2) simp_all

lemma kept_finalize:
  assumes "finalize_tx cfg now lockFree codes newIds sid db = Inr (r, db')" "keys_ok db"
    and "ids_free newIds (map gc_id (session_winners db sid)) (gd_wallet db)"
  shows "kept db db'"
  using assms(1,2)
proof (cases rule: finalize_cases)
  case (paid s0 shares db2 db4 slotted)
  let ?d1 = "finalize_lock now (now - tc_winnerWindowClaimGraceMs cfg) sid db"
  have 1: "kept db ?d1"
    unfolding finalize_lock_def by (rule framed_kept, rule framed_frames) (simp add: session_money_def)
  have "length shares = length (session_winners db sid)"
    using paid(5) by (auto simp: splitPrizeAmount_def Let_def split: if_splits)
  then have "map (\<lambda>(c, _). gc_id c) (zip (session_winners db sid) shares) = map gc_id (session_winners db sid)"
    by (intro map_fst_zip_via) simp
  then have 2: "kept ?d1 db2"
    using kept_credit_winners [OF paid(6)] assms(3) by (simp add: finalize_lock_def table_simps)
  have 3: "kept db2 (finalize_finish now sid (gc_id (hd (session_winners db sid))) db2)"
    unfolding finalize_finish_def by (rule framed_kept, rule framed_frames) (simp add: session_money_def)
  have 4: "kept db4 db'" using framed_kept [OF framed_try_open] paid(8) by simp
  show ?thesis
    using kept_trans [OF kept_trans [OF kept_trans [OF 1 2] 3] kept_trans [OF framed_kept [OF framed_restore [OF paid(7)]] 4]] .
qed simp

lemma kept_approve:
  assumes "approve_tx cfg now lockFree codes newId claimId db = Inr (r, db')"
    and "newId \<notin> ledger_ids (gd_wallet db)"
  shows "kept db db'"
proof -
  obtain claim cc where l: "load_claim db claimId = Some (claim, cc)"
    using assms(1) by (auto simp: approve_tx_def split: option.splits)
  obtain x db2 y db3 where a:
    "finishGameWithWinner cfg now lockFree codes (gs_id (cc_session cc)) (gc_id (cc_cartela cc))
       (snd (mark_winner (gc_id (cc_cartela cc)) db)) = Inr (x, db2)"
    "wallet_tx (\<lambda>w. creditWallet newId id w (bc_userId claim) (gs_prizeAmount (cc_session cc))
       (prize_meta (cc_session cc) (gc_id (cc_cartela cc)))) db2 = Inr (y, db3)"
    "update_claim (bc_id claim) (\<lambda>c. c\<lparr>bc_status := VALID, bc_reason := None, bc_reasonCode := None,
       bc_checkedAt := Some now\<rparr>) db3 = Inr db'"
    using assms(1) l by (auto simp: approve_tx_def Let_def bind_result_eq_Inr_iff case_prod_beta split: if_split_asm)
  have f: "framed db db2" using framed_mark_winner framed_finish [OF a(1)] framed_trans by blast
  then have "gd_wallet db2 = gd_wallet db" by (simp add: framed_def)
  then have "kept db2 db3" using kept_credit [OF a(2)] assms(2) by simp
  then show ?thesis
    using framed_kept [OF f] framed_kept [OF framed_update_claim [OF a(3)]] kept_trans by blast
qed

lemma kept_refunds:
  "refund_users newId s refunds db = Inr db' \<Longrightarrow> ids_free newId (map fst refunds) (gd_wallet db) \<Longrightarrow> kept db db'"
proof (induction refunds arbitrary: db)
  case (Cons p rest)
  obtain u money bonus where p: "p = (u, money, bonus)" by (metis prod.exhaust)
  obtain db1 db2 where s1: "(if 0 < money then
      bind_result (wallet_tx (\<lambda>w. creditWallet (newId u) id w u (gs_entryFee s * of_nat money) (refund_meta s u money)) db)
        (\<lambda>(_, db'). Inr db')
    else Inr db) = Inr db1"
    and s2: "(if 0 < bonus then bind_result (wallet_tx (\<lambda>w. creditBonusCartelas w u (int bonus)) db1) (\<lambda>(_, db'). Inr db')
      else Inr db1) = Inr db2"
    and s3: "refund_users newId s rest db2 = Inr db'"
    using Cons.prems(1) unfolding p refund_users.simps bind_result_eq_Inr_iff by blast
  have fresh: "newId u \<notin> ledger_ids (gd_wallet db)" using Cons.prems(2) by (simp add: p ids_free_def)
  have 1: "kept db db1 \<and> ledger_ids (gd_wallet db1) \<subseteq> insert (newId u) (ledger_ids (gd_wallet db))"
  proof (cases "0 < money")
    case True
    then obtain r where "wallet_tx (\<lambda>w. creditWallet (newId u) id w u (gs_entryFee s * of_nat money) (refund_meta s u money)) db = Inr (r, db1)"
      using s1 by (auto simp: bind_result_eq_Inr_iff)
    then show ?thesis by (rule kept_credit [OF _ fresh])
  qed (use s1 in auto)
  have 2: "kept db1 db2 \<and> ledger_ids (gd_wallet db2) = ledger_ids (gd_wallet db1)"
  proof (cases "0 < bonus")
    case True
    then obtain r w where w: "creditBonusCartelas (gd_wallet db1) u (int bonus) = (r, w)" "db2 = db1\<lparr>gd_wallet := w\<rparr>"
      using s2 by (auto simp: bind_result_eq_Inr_iff wallet_tx_def split: prod.splits sum.splits)
    have "db_ledger w = db_ledger (gd_wallet db1)"
      using bonus_state(2) [of "gd_wallet db1" u "int bonus"] w(1) by auto
    then show ?thesis by (simp add: w(2) kept_def book_simps paid_def posted_def ledger_ids_def)
  qed (use s2 in simp)
  have "ids_free newId (map fst rest) (gd_wallet db2)"
    using ids_free_Cons [of newId u "map fst rest" "gd_wallet db" "gd_wallet db2"] Cons.prems(2) 1 2 by (simp add: p)
  then have "kept db2 db'" by (rule Cons.IH [OF s3])
  then show ?case by (rule kept_trans [OF kept_trans [OF conjunct1 [OF 1] conjunct1 [OF 2]]])
qed simp

lemma kept_cancel:
  assumes "cancel_tx cfg now lockFree codes newIds sid cause options db = Inr (r, db')" "keys_ok db"
    and "ids_free newIds (map fst (refundTotalsByUser (active_cartelas db sid))) (gd_wallet db)"
  shows "kept db db'"
  using assms(1,2)
proof (cases rule: cancel_cases)
  case (1 s0 db2 db4)
  let ?d1 = "cancel_mark now sid cause db"
  have f1: "kept db ?d1"
    unfolding cancel_mark_def by (rule framed_kept, rule framed_frames) (simp add: session_money_def)
  have "gd_wallet ?d1 = gd_wallet db" by (simp add: cancel_mark_def table_simps)
  then have "kept ?d1 db2"
    using 1(4) kept_refunds [of newIds s0 "refundTotalsByUser (active_cartelas db sid)" ?d1 db2] assms(3)
    by (auto split: if_splits)
  moreover have "kept db2 (cancel_cartelas sid db2)"
    unfolding cancel_cartelas_def by (rule framed_kept, rule framed_frames) (simp add: cartela_entry_def account_of_def)
  moreover have "kept (cancel_cartelas sid db2) db'"
  proof -
    have "kept (cancel_cartelas sid db2) db4"
      using 1(5) framed_kept [OF framed_restore] by (elim disjE conjE exE) simp_all
    moreover have "kept db4 db'"
      using 1(5) framed_kept [OF framed_opener] by (elim disjE conjE exE) simp_all
    ultimately show ?thesis by (rule kept_trans)
  qed
  ultimately show ?thesis using f1 kept_trans by blast
qed

section \<open>What every transaction guarantees of the books\<close>

text \<open>The cents booked on the cartelas of a session.\<close>

definition booked_prizes :: "game_db \<Rightarrow> string \<Rightarrow> int" where
  "booked_prizes db sid = sum_list (map gc_prizeContributionCents (cartelas_of db sid))"

definition booked_fees :: "game_db \<Rightarrow> string \<Rightarrow> int" where
  "booked_fees db sid = sum_list (map gc_companyFeeCents (cartelas_of db sid))"

definition whole_cents :: "rat \<Rightarrow> bool" where
  "whole_cents x \<longleftrightarrow> of_int \<lfloor>x * 100\<rfloor> = x * 100"

text \<open>The row of a session: its fees stay, and its amounts grow by what is booked.\<close>

definition row_books :: "game_db \<Rightarrow> game_db \<Rightarrow> session_row \<Rightarrow> session_row \<Rightarrow> bool" where
  "row_books db db' s s' \<longleftrightarrow>
     gs_id s' = gs_id s \<and> gs_entryFee s' = gs_entryFee s \<and>
     gs_prizePerCartela s' = gs_prizePerCartela s \<and> gs_companyFeePerCartela s' = gs_companyFeePerCartela s \<and>
     (whole_cents (gs_prizePerCartela s) \<longrightarrow>
        gs_prizeAmount s' - of_int (booked_prizes db' (gs_id s)) / 100 =
        gs_prizeAmount s - of_int (booked_prizes db (gs_id s)) / 100) \<and>
     (whole_cents (gs_companyFeePerCartela s) \<longrightarrow>
        gs_companyRevenue s' - of_int (booked_fees db' (gs_id s)) / 100 =
        gs_companyRevenue s - of_int (booked_fees db (gs_id s)) / 100)"

definition seats :: "game_db \<Rightarrow> (string \<times> string) list" where
  "seats db = map (\<lambda>c. (gc_sessionId c, gc_cartelaId c)) (gd_cartelas db)"

definition books :: "game_db \<Rightarrow> game_db \<Rightarrow> bool" where
  "books db db' \<longleftrightarrow>
     prefix (entries db) (entries db') \<and> paid db \<subseteq> paid db' \<and>
     (\<forall>c\<in>set (drop (length (gd_cartelas db)) (gd_cartelas db')). gc_paymentSource c = Some MONEY_WALLET \<longrightarrow>
        entry_key (gc_userId c) (gc_id c) \<in> paid db') \<and>
     (\<exists>old new. gd_sessions db' = old @ new \<and> list_all2 (row_books db db') (gd_sessions db) old) \<and>
     (distinct (seats db) \<longrightarrow> distinct (seats db')) \<and> (holds_ok db \<longrightarrow> holds_ok db')"

lemma entries_views:
  assumes "entries db' = entries db @ map cartela_entry new"
  shows "seats db' = seats db @ map (\<lambda>c. (gc_sessionId c, gc_cartelaId c)) new"
    "booked_prizes db' sid = booked_prizes db sid +
       sum_list (map gc_prizeContributionCents (filter (\<lambda>c. gc_sessionId c = sid) new))"
    "booked_fees db' sid = booked_fees db sid +
       sum_list (map gc_companyFeeCents (filter (\<lambda>c. gc_sessionId c = sid) new))"
proof -
  have e: "map cartela_entry (gd_cartelas db') = map cartela_entry (gd_cartelas db @ new)"
    using assms by (simp add: entries_def)
  show "seats db' = seats db @ map (\<lambda>c. (gc_sessionId c, gc_cartelaId c)) new"
    using map_via [OF e, of "\<lambda>c. (gc_sessionId c, gc_cartelaId c)" "\<lambda>e. (fst (snd (fst e)), cartela_id (snd (snd (snd (fst e)))))"]
    by (simp add: seats_def cartela_entry_def gc_cartelaId_def)
  have sum: "sum_list (map f (filter (\<lambda>c. gc_sessionId c = sid) cs)) =
      sum_list (map (\<lambda>c. if gc_sessionId c = sid then f c else 0) cs)" for f :: "game_cartela \<Rightarrow> int" and cs
    by (induction cs) simp_all
  show "booked_prizes db' sid = booked_prizes db sid +
       sum_list (map gc_prizeContributionCents (filter (\<lambda>c. gc_sessionId c = sid) new))"
  proof -
    have "map (\<lambda>c. if gc_sessionId c = sid then gc_prizeContributionCents c else 0) (gd_cartelas db') =
        map (\<lambda>c. if gc_sessionId c = sid then gc_prizeContributionCents c else 0) (gd_cartelas db @ new)"
      by (rule map_via [OF e, where h = "\<lambda>e. if fst (snd (fst e)) = sid then ra_prizeContributionCents (snd e) else 0"])
        (simp add: cartela_entry_def account_of_def)
    then show ?thesis by (simp add: booked_prizes_def cartelas_of_def sum)
  qed
  show "booked_fees db' sid = booked_fees db sid +
       sum_list (map gc_companyFeeCents (filter (\<lambda>c. gc_sessionId c = sid) new))"
  proof -
    have "map (\<lambda>c. if gc_sessionId c = sid then gc_companyFeeCents c else 0) (gd_cartelas db') =
        map (\<lambda>c. if gc_sessionId c = sid then gc_companyFeeCents c else 0) (gd_cartelas db @ new)"
      by (rule map_via [OF e, where h = "\<lambda>e. if fst (snd (fst e)) = sid then ra_companyFeeCents (snd e) else 0"])
        (simp add: cartela_entry_def account_of_def)
    then show ?thesis by (simp add: booked_fees_def cartelas_of_def sum)
  qed
qed

lemma kept_books:
  assumes "kept db db'"
  shows "books db db'"
proof -
  have k: "entries db' = entries db @ map cartela_entry []" "gd_reservations db' = gd_reservations db"
    "prefix (accounts db) (accounts db')" "paid db \<subseteq> paid db'"
    using assms by (simp_all add: kept_def)
  note v = entries_views [OF k(1)]
  have "length (gd_cartelas db') = length (gd_cartelas db)"
    using k(1) by (metis append_Nil2 entries_def length_map list.simps(8))
  moreover have "\<exists>old new. gd_sessions db' = old @ new \<and> list_all2 (row_books db db') (gd_sessions db) old"
  proof (intro exI conjI)
    let ?n = "length (gd_sessions db)"
    show "gd_sessions db' = take ?n (gd_sessions db') @ drop ?n (gd_sessions db')" by simp
    obtain zs where "map session_money (gd_sessions db') = map session_money (gd_sessions db) @ zs"
      using k(3) by (auto simp: accounts_def prefix_def)
    then have "map session_money (gd_sessions db) = map session_money (take ?n (gd_sessions db'))"
      by (metis append_eq_conv_conj length_map take_map)
    then have "list_all2 (=) (map session_money (gd_sessions db)) (map session_money (take ?n (gd_sessions db')))"
      by (simp add: list.rel_refl)
    then have same: "list_all2 (\<lambda>s s'. session_money s = session_money s') (gd_sessions db) (take ?n (gd_sessions db'))"
      by (simp add: list_all2_map1 list_all2_map2)
    show "list_all2 (row_books db db') (gd_sessions db) (take ?n (gd_sessions db'))"
      by (rule list_all2_mono [OF same]) (simp add: row_books_def session_money_def v)
  qed
  ultimately show ?thesis using k v(1) by (simp add: books_def holds_ok_def)
qed

end
