(* ===== verification/BookSteps.thy ===== *)
theory BookSteps
  imports GameBooks
begin

text \<open>
  What a registration does to the books, and that every transaction of the game keeps them: the
  step relation \<open>game_tx\<close> guarantees \<open>books\<close>, so along any run the amounts of a session follow what is
  booked on its cartelas.
\<close>

section \<open>Reservations\<close>

lemma row_books_reservations [simp]: "row_books db (db'\<lparr>gd_reservations := rs\<rparr>) = row_books db db'"
  by (intro ext) (simp add: row_books_def booked_prizes_def booked_fees_def cartelas_of_def)

lemma books_reservations:
  assumes "books db db'" "holds_ok db \<Longrightarrow> holds_ok (db'\<lparr>gd_reservations := rs\<rparr>)"
  shows "books db (db'\<lparr>gd_reservations := rs\<rparr>)"
  using assms by (simp add: books_def entries_def seats_def paid_def)

lemma books_refl: "books db db"
  by (rule kept_books) simp

lemma reserves_books:
  assumes "reserves db db'"
  shows "books db db'"
proof -
  obtain rs where db': "db' = db\<lparr>gd_reservations := rs\<rparr>" using assms by (auto simp: reserves_def)
  show ?thesis
    unfolding db' by (rule books_reservations [OF books_refl]) (use assms db' in \<open>simp add: reserves_def\<close>)
qed

section \<open>Registrations\<close>

lemma whole_cents_exact: "whole_cents x \<Longrightarrow> of_int (decimalToCents x) = x * 100"
proof -
  assume "whole_cents x"
  then obtain n :: int where n: "x * 100 = of_int n" unfolding whole_cents_def by metis
  have "round_half_up (of_int n) = n" by (simp add: round_half_up_def) linarith
  then show ?thesis by (simp add: decimalToCents_def n)
qed

lemma sum_booked:
  assumes "\<forall>c\<in>set cs. gc_sessionId c = sid" "\<forall>c\<in>set cs. f c = (k :: int)"
  shows "sum_list (map f (filter (\<lambda>c. gc_sessionId c = sid') cs)) =
    (if sid' = sid then int (length cs) * k else 0)"
  using assms by (induction cs) (auto simp: algebra_simps)

lemma count_in_cartelas [simp]:
  "gd_cartelas (count_in now s slot n db) = gd_cartelas db" "gd_wallet (count_in now s slot n db) = gd_wallet db"
  by (simp_all add: count_in_def update_sessions_def)

definition counted :: "int \<Rightarrow> session_row \<Rightarrow> slot_row \<Rightarrow> nat \<Rightarrow> session_row \<Rightarrow> session_row" where
  "counted now s slot n x =
     (if isFreeEntryCategory (Some (sl_category slot)) \<or> n = 0 \<or> gs_id x \<noteq> gs_id s then x
      else (add_contributions (of_nat n) s x)\<lparr>gs_updatedAt := now\<rparr>)"

lemma count_in_sessions: "gd_sessions (count_in now s slot n db) = map (counted now s slot n) (gd_sessions db)"
  by (simp add: count_in_def counted_def [abs_def] update_sessions_def update_where_def map_idI cong: map_cong)

lemma registers_rows:
  assumes "registers now s slot u ids db cs db'"
  shows "entries db' = entries db @ map cartela_entry cs" "gd_cartelas db' = gd_cartelas db @ cs"
    "\<forall>c\<in>set cs. gc_sessionId c = gs_id s \<and> gc_userId c = u \<and> accounted s slot c"
    "distinct (map gc_cartelaId cs)" "\<forall>c\<in>set cs. \<not> seat_taken db (gs_id s) (gc_cartelaId c)"
    "paid db' = paid db \<union> (\<lambda>c. entry_key u (gc_id c)) ` {c\<in>set cs. gc_paymentSource c = Some MONEY_WALLET}"
    "gd_sessions db' = map (counted now s slot (length cs)) (gd_sessions db)"
    "find_session db (gs_id s) = Some s"
    "subseq (active_seats (gd_reservations db')) (active_seats (gd_reservations db))"
proof -
  obtain db1 rs where r: "seated s slot u ids db cs db1" "find_session db (gs_id s) = Some s"
    "subseq (active_seats rs) (active_seats (gd_reservations db))"
    "db' = (count_in now s slot (length cs) db1)\<lparr>gd_reservations := rs\<rparr>"
    using assms unfolding registers_def by blast
  show "gd_cartelas db' = gd_cartelas db @ cs" by (simp add: r(4) seated_sel(4) [OF r(1)])
  then show "entries db' = entries db @ map cartela_entry cs" by (simp add: entries_def)
  show "\<forall>c\<in>set cs. gc_sessionId c = gs_id s \<and> gc_userId c = u \<and> accounted s slot c"
    "distinct (map gc_cartelaId cs)" "\<forall>c\<in>set cs. \<not> seat_taken db (gs_id s) (gc_cartelaId c)"
    using seated_rows [OF r(1)] by (simp_all add: seat_of_def)
  show "paid db' = paid db \<union> (\<lambda>c. entry_key u (gc_id c)) ` {c\<in>set cs. gc_paymentSource c = Some MONEY_WALLET}"
    using seated_wallet(2) [OF r(1)] by (simp add: r(4) paid_def)
  show "gd_sessions db' = map (counted now s slot (length cs)) (gd_sessions db)"
    by (simp add: r(4) count_in_sessions seated_sel(2) [OF r(1)])
  show "find_session db (gs_id s) = Some s" "subseq (active_seats (gd_reservations db')) (active_seats (gd_reservations db))"
    by (simp_all add: r)
qed

lemma counted_row:
  assumes "gs_id x = gs_id s \<Longrightarrow> x = s" "\<forall>c\<in>set cs. gc_sessionId c = gs_id s \<and> gc_userId c = u \<and> accounted s slot c"
    and "entries db' = entries db @ map cartela_entry cs"
  shows "row_books db db' x (counted now s slot (length cs) x)"
proof -
  note v = entries_views(2,3) [OF assms(3), of "gs_id x"]
  let ?free = "isFreeEntryCategory (Some (sl_category slot))"
  have p: "\<forall>c\<in>set cs. gc_prizeContributionCents c = (if ?free then 0 else decimalToCents (gs_prizePerCartela s))"
    and f: "\<forall>c\<in>set cs. gc_companyFeeCents c = (if ?free then 0 else decimalToCents (gs_companyFeePerCartela s))"
    and sid: "\<forall>c\<in>set cs. gc_sessionId c = gs_id s"
    using assms(2) by (auto simp: accounted_def)
  show ?thesis
  proof (cases "gs_id x = gs_id s")
    case True
    then have x: "x = s" by (rule assms(1))
    show ?thesis
      unfolding x
      by (auto simp: row_books_def counted_def v [unfolded x] sum_booked [OF sid p] sum_booked [OF sid f] add_contributions_def
          whole_cents_exact field_simps)
  qed (simp add: row_books_def counted_def v sum_booked [OF sid p] sum_booked [OF sid f])
qed

lemma registers_books:
  assumes "registers now s slot u ids db cs db'" "keys_ok db"
  shows "books db db'"
proof -
  note r = registers_rows [OF assms(1)]
  have same: "x = s" if "x \<in> set (gd_sessions db)" "gs_id x = gs_id s" for x
    using that r(8) keys_okD(2) [OF assms(2)] find_in [of _ "gd_sessions db"] unfolding find_session_def
    by (metis eq_key_imp_eq_value map_of_SomeD distinct_map inj_on_def)
  have "list_all2 (row_books db db') (gd_sessions db) (gd_sessions db')"
    unfolding r(7) list_all2_map2
    by (rule list.rel_refl_strong) (rule counted_row [OF same r(3,1)])
  moreover have "distinct (seats db) \<longrightarrow> distinct (seats db')"
  proof
    assume d: "distinct (seats db)"
    have "distinct (map (\<lambda>c. (gc_sessionId c, gc_cartelaId c)) cs)"
      using r(4) by (auto simp: distinct_map inj_on_def)
    moreover have "(gc_sessionId c, gc_cartelaId c) \<notin> set (seats db)" if "c \<in> set cs" for c
      using that bspec [OF r(3) that] bspec [OF r(5) that] by (fastforce simp: seats_def seat_taken_def list_ex_iff)
    ultimately show "distinct (seats db')" using d entries_views(1) [OF r(1)] by auto
  qed
  moreover have "holds_ok db \<longrightarrow> holds_ok db'" using subseq_distinct [OF r(9)] by (simp add: holds_ok_def)
  moreover have "\<forall>c\<in>set cs. gc_paymentSource c = Some MONEY_WALLET \<longrightarrow> entry_key (gc_userId c) (gc_id c) \<in> paid db'"
    using r(3,6) by auto
  ultimately show ?thesis
    unfolding books_def r(1,2) using r(6) by (intro conjI exI [of _ "gd_sessions db'"] exI [of _ "[]"]) auto
qed

section \<open>Every transaction keeps the books\<close>

lemma framed_resolve:
  assumes "resolve_tx now codes slotId db = Inr (s, db')"
  shows "framed db db'"
proof -
  obtain slot where
    "db' = db \<or> create_session (new_session now codes slotId (buildSessionMoneyConfig slot) READY None) db = Inr db'"
    using assms
    by (auto simp: resolve_tx_def Let_def bind_result_eq_Inr_iff split: option.splits if_splits)
  then show ?thesis using framed_create_session by auto
qed

lemma framed_books: "framed db db' \<Longrightarrow> books db db'"
  by (rule kept_books [OF framed_kept])

lemma framed_schedule: "framed db (snd (update_sessions now due (set_start t) db))"
  by (rule framed_frames(1)) (simp add: set_start_def session_money_def)

lemma framed_interval: "framed db (snd (update_sessions now due (set_interval ms) db))"
  by (rule framed_frames(1)) (simp add: set_interval_def session_money_def)

lemma game_tx_books: "game_tx db db' \<Longrightarrow> game_ok db \<Longrightarrow> books db db'"
proof (induction rule: game_tx.induct)
  case (finalize cfg now lockFree codes newIds sid db winners db')
  then show ?case using kept_books [OF kept_finalize [OF finalize(1) game_okD(1) finalize(2)]] by blast
next
  case (cancel cfg now lockFree codes newIds sid cause options db result db')
  then show ?case using kept_books [OF kept_cancel [OF cancel(1) game_okD(1) cancel(2)]] by blast
next
  case (register now seatIds sid u board db entered db')
  then show ?case using register_tx_registers [OF register(1,2)] registers_books game_okD(1) by blast
next
  case (confirm now seatIds rid u db entered db')
  then show ?case using confirm_tx_registers [OF confirm(1,2)] registers_books game_okD(1) by blast
next
  case (register_many now idsOf sid u requested db answers db')
  obtain s slot cs where "registers now s slot u idsOf db cs db'"
    using bulk_tx_registers [OF register_many(1,2)] by (elim exE conjE)
  then show ?case using registers_books game_okD(1) [OF register_many(3)] by blast
next
  case (reserve now expires newId preserve sid u board db hold db')
  then show ?case using reserve_tx_reserves reserves_books by blast
next
  case (reserve_many now expires holdIds sid u cards db holds db')
  then show ?case using reserve_bulk_tx_reserves reserves_books by blast
next
  case (end_holds status db over)
  then show ?case using reserves_status reserves_books by blast
next
  case (approve cfg now lockFree codes newId claimId db decided db')
  then show ?case using kept_books [OF kept_approve] by blast
qed (erule framed_books [OF framed_start] framed_books [OF framed_opener] framed_books [OF framed_call]
    framed_books [OF framed_auto_call] framed_books [OF framed_auto_on] framed_books [OF framed_no_winner]
    framed_books [OF framed_claim] framed_books [OF framed_reject] framed_books [OF framed_resolve] |
    rule framed_books [OF framed_auto_off] framed_books [OF framed_grace] framed_books [OF framed_early]
      framed_books [OF framed_schedule] framed_books [OF framed_interval])+

interpretation book_run: protocol game_tx game_ok books
  by unfold_locales (simp_all add: game_tx_ok game_tx_books)

section \<open>Runs\<close>

lemma row_books_trans: "row_books db db1 s s1 \<Longrightarrow> row_books db1 db2 s1 s2 \<Longrightarrow> row_books db db2 s s2"
  by (simp add: row_books_def)

lemma row_books_refl: "row_books db db s s"
  by (simp add: row_books_def)

definition rows_follow :: "game_db \<Rightarrow> game_db \<Rightarrow> bool" where
  "rows_follow db db' \<longleftrightarrow> (\<forall>s\<in>set (gd_sessions db). \<exists>s'\<in>set (gd_sessions db'). row_books db db' s s')"

lemma books_rows:
  assumes "books db db'" "s \<in> set (gd_sessions db)"
  shows "\<exists>s'\<in>set (gd_sessions db'). row_books db db' s s'"
proof -
  obtain old new where "gd_sessions db' = old @ new" "list_all2 (row_books db db') (gd_sessions db) old"
    using assms(1) by (auto simp: books_def)
  then show ?thesis using assms(2) list_all2_lengthD by (fastforce simp: in_set_conv_nth list_all2_conv_all_nth)
qed

lemma rows_follow_trans: "rows_follow db db1 \<Longrightarrow> books db1 db2 \<Longrightarrow> rows_follow db db2"
  unfolding rows_follow_def using books_rows row_books_trans by blast

lemma run_rows: "game_tx\<^sup>*\<^sup>* db db' \<Longrightarrow> game_ok db \<Longrightarrow> rows_follow db db'"
proof (erule book_run.run_relates)
  show "rows_follow x x" for x using row_books_refl by (auto simp: rows_follow_def)
qed (assumption, rule rows_follow_trans)

text \<open>Every cartela paid from the money wallet has its row in the ledger.\<close>

definition entries_paid :: "game_db \<Rightarrow> bool" where
  "entries_paid db \<longleftrightarrow>
     (\<forall>c\<in>set (gd_cartelas db). gc_paymentSource c = Some MONEY_WALLET \<longrightarrow>
        entry_key (gc_userId c) (gc_id c) \<in> paid db)"

lemma entries_paid_view:
  "entries_paid db \<longleftrightarrow> (\<forall>e\<in>set (entries db). ra_paymentSource (snd e) = Some MONEY_WALLET \<longrightarrow>
     entry_key (fst (snd (snd (fst e)))) (fst (fst e)) \<in> paid db)"
  by (auto simp: entries_paid_def entries_def cartela_entry_def account_of_def)

lemma books_entries_paid:
  assumes "books db db'" "entries_paid db"
  shows "entries_paid db'"
proof -
  let ?n = "length (gd_cartelas db)"
  have e: "take ?n (entries db') = entries db"
    using assms(1) by (auto simp: books_def prefix_def entries_def)
  have "entry_key (gc_userId c) (gc_id c) \<in> paid db'"
    if c: "c \<in> set (gd_cartelas db')" "gc_paymentSource c = Some MONEY_WALLET" for c
  proof -
    have "c \<in> set (take ?n (gd_cartelas db')) \<or> c \<in> set (drop ?n (gd_cartelas db'))"
      using c(1) by (metis UnE append_take_drop_id set_append)
    then show ?thesis
    proof
      assume "c \<in> set (take ?n (gd_cartelas db'))"
      then have "cartela_entry c \<in> set (entries db)"
        unfolding e [symmetric] by (auto simp: entries_def take_map)
      then have "entry_key (gc_userId c) (gc_id c) \<in> paid db"
        using assms(2) c(2) unfolding entries_paid_view by (force simp: cartela_entry_def account_of_def)
      then show ?thesis using assms(1) by (auto simp: books_def)
    qed (use assms(1) c(2) in \<open>simp add: books_def\<close>)
  qed
  then show ?thesis by (simp add: entries_paid_def)
qed

lemma books_seats: "books db db' \<Longrightarrow> distinct (seats db) \<Longrightarrow> distinct (seats db')"
  by (simp add: books_def)

lemma books_holds: "books db db' \<Longrightarrow> holds_ok db \<Longrightarrow> holds_ok db'"
  by (simp add: books_def)

lemma run_entries: "game_tx\<^sup>*\<^sup>* db db' \<Longrightarrow> game_ok db \<Longrightarrow> prefix (entries db) (entries db')"
  by (erule book_run.run_relates) (auto simp: books_def intro: prefix_order.trans)

end
