(* ===== verification/RegistrationOutcomes.thy ===== *)
theory RegistrationOutcomes
  imports BookSteps "HOL-Library.Multiset"
begin

text \<open>
  What the calls of a registration return and leave: the row a registration adds and who pays for it,
  the answers of a bulk request, and the limits of the categories.
\<close>

section \<open>One cartela\<close>

lemma payment_frame:
  "applyRegistrationPayment ledgerId u s gid acc db = (r, db') \<Longrightarrow> \<exists>w. db' = db\<lparr>gd_wallet := w\<rparr>"
  by (auto simp: applyRegistrationPayment_def wallet_call_def Let_def split: option.splits payment_source.splits
      prod.splits sum.splits intro: exI [of _ "gd_wallet db"])

lemma create_cartela_row:
  "create_cartela newId sid u cid acc db = Inr (c, db') \<Longrightarrow>
   db' = db\<lparr>gd_cartelas := gd_cartelas db @ [c]\<rparr> \<and> \<not> seat_taken db sid cid \<and> gc_cartelaId c = cid \<and>
   gc_userId c = u \<and> gc_sessionId c = sid"
  using find_in by (fastforce simp: create_cartela_def find_board_def gc_cartelaId_def Let_def split: option.splits if_splits)

lemma enter_cartela_row:
  assumes "enter_cartela now newIds s slot u cid db = Inr (e, db')"
  shows "gd_cartelas db' = gd_cartelas db @ [rg_cartela e]" "\<not> seat_taken db (gs_id s) cid"
    "gc_cartelaId (rg_cartela e) = cid" "gc_userId (rg_cartela e) = u" "gc_sessionId (rg_cartela e) = gs_id s"
    "gd_reservations db' = gd_reservations db"
proof -
  obtain acc free c db1 x db2 where e: "create_cartela (fst newIds) (gs_id s) u cid acc db = Inr (c, db1)"
    "(if free then Inr (None, db1)
      else committing (applyRegistrationPayment (snd newIds) u s (gc_id c) acc db1)) = Inr (x, db2)"
    "(if isBonusCategory (Some (sl_category slot)) then Inr db2
      else update_session now (gs_id s) (add_contributions 1 s) db2) = Inr db'"
    "rg_cartela e = c"
    using assms by (auto simp: enter_cartela_def bind_result_eq_Inr_iff)
  note c = create_cartela_row [OF e(1)]
  obtain w where "db2 = db1\<lparr>gd_wallet := w\<rparr>"
  proof (cases free)
    case True
    then have "db2 = db1\<lparr>gd_wallet := gd_wallet db1\<rparr>" using e(2) by simp
    then show ?thesis by (rule that)
  qed (use e(2) payment_frame that in fastforce)
  then have d: "gd_cartelas db2 = gd_cartelas db @ [c]" "gd_reservations db2 = gd_reservations db"
    using c by simp_all
  have "gd_cartelas db' = gd_cartelas db2 \<and> gd_reservations db' = gd_reservations db2"
    using e(3) by (auto simp: update_session_Inr update_sessions_def split: if_splits)
  then show "gd_cartelas db' = gd_cartelas db @ [rg_cartela e]" "gd_reservations db' = gd_reservations db"
    using d e(4) by simp_all
  show "\<not> seat_taken db (gs_id s) cid" "gc_cartelaId (rg_cartela e) = cid" "gc_userId (rg_cartela e) = u"
    "gc_sessionId (rg_cartela e) = gs_id s"
    using c e(4) by simp_all
qed

lemma find_snoc: "\<forall>x\<in>set xs. \<not> P x \<Longrightarrow> P y \<Longrightarrow> find P (xs @ [y]) = Some y"
  by (induction xs) simp_all

lemma my_registration_appended:
  assumes "gd_cartelas db' = gd_cartelas db @ [c]" "\<not> seat_taken db sid cid" "gc_cartelaId c = cid" "gc_userId c = u"
    "gc_sessionId c = sid"
  shows "myRegistration db' sid cid u = Some c"
proof -
  have "\<forall>x\<in>set (gd_cartelas db). \<not> (gc_sessionId x = sid \<and> gc_cartelaId x = cid)"
    using assms(2) by (auto simp: seat_taken_def list_ex_iff)
  then have "find (\<lambda>c. gc_sessionId c = sid \<and> gc_cartelaId c = cid \<and> gc_userId c = u) (gd_cartelas db @ [c]) = Some c"
    using assms(3-5) by (intro find_snoc) auto
  then show ?thesis by (simp add: myRegistration_def assms(1))
qed

definition confirmed_own :: "string \<Rightarrow> reservation_row option \<Rightarrow> reservation_row list \<Rightarrow> reservation_row list" where
  "confirmed_own u active rs =
     (case active of None \<Rightarrow> rs
      | Some r \<Rightarrow> if rv_userId r = u then update_where (\<lambda>x. rv_id x = rv_id r) (set_reservation_status CONFIRMED) rs else rs)"

lemma confirm_own_Inr:
  "confirm_own u active db = Inr db' \<Longrightarrow>
   db' = db\<lparr>gd_reservations := confirmed_own u active (gd_reservations db)\<rparr>"
  by (auto simp: confirm_own_def confirmed_own_def bind_result_eq_Inr_iff dest!: update_reservation_Inr
      split: option.splits if_splits)

lemma seated_single:
  assumes "seated s slot u ids db [c] d"
  shows "\<exists>w. seat_row s slot u (fst (ids (gc_cartelaId c))) db c \<and>
    charged s (snd (ids (gc_cartelaId c))) c (gd_wallet db) w \<and>
    d = db\<lparr>gd_cartelas := gd_cartelas db @ [c], gd_wallet := w\<rparr>"
  using assms
proof (cases rule: seated.cases)
  case (seated_more cs db1 c' w)
  then have "seated s slot u ids db [] db1" "c' = c" by simp_all
  moreover have "db1 = db" using calculation(1) by (cases rule: seated.cases) simp_all
  ultimately show ?thesis using seated_more by blast
qed

text \<open>A registration that went through, in full.\<close>

lemma register_tx_effect:
  assumes "register_tx now newIds sid u cid db = Inr (e, db')" "fresh_ids newIds db"
  shows "\<exists>s slot w. find_session db sid = Some s \<and> slot_of db s = Some slot \<and>
    assertSessionRegistrationAllowed now db s slot = Inr () \<and>
    (\<forall>r. activeReservation now db sid cid = Some r \<longrightarrow> rv_userId r = u) \<and>
    seat_row s slot u (fst newIds) db (rg_cartela e) \<and> gc_cartelaId (rg_cartela e) = cid \<and>
    charged s (snd newIds) (rg_cartela e) (gd_wallet db) w \<and>
    db' = db\<lparr>gd_sessions := map (counted now s slot 1) (gd_sessions db),
      gd_cartelas := gd_cartelas db @ [rg_cartela e],
      gd_reservations := confirmed_own u (activeReservation now db sid cid) (gd_reservations db), gd_wallet := w\<rparr>"
proof -
  obtain s slot db1 where r: "getSessionForRegistrationWrite db sid = Some (s, slot)"
    "assertSessionRegistrationAllowed now db s slot = Inr ()"
    "\<not> (case activeReservation now db sid cid of None \<Rightarrow> False | Some r \<Rightarrow> rv_userId r \<noteq> u)"
    "enter_cartela now newIds s slot u cid db = Inr (e, db1)"
    "confirm_own u (activeReservation now db sid cid) db1 = Inr db'"
    using assms(1) by (auto simp: register_tx_def bind_result_eq_Inr_iff Let_def split: option.splits if_splits)
  obtain d where d: "seated s slot u (\<lambda>_. newIds) db [rg_cartela e] d" "gc_cartelaId (rg_cartela e) = cid"
    "db1 = count_in now s slot 1 d"
    using enter_cartela_seated [OF r(4) assms(2)] by blast
  obtain w where w: "seat_row s slot u (fst newIds) db (rg_cartela e)"
    "charged s (snd newIds) (rg_cartela e) (gd_wallet db) w"
    "d = db\<lparr>gd_cartelas := gd_cartelas db @ [rg_cartela e], gd_wallet := w\<rparr>"
    using seated_single [OF d(1)] by blast
  have "count_in now s slot 1 d = d\<lparr>gd_sessions := map (counted now s slot 1) (gd_sessions d)\<rparr>"
    by (rule game_db.equality) (simp_all add: count_in_sessions, simp_all add: count_in_def update_sessions_def)
  then have "db' = db\<lparr>gd_sessions := map (counted now s slot 1) (gd_sessions db),
      gd_cartelas := gd_cartelas db @ [rg_cartela e],
      gd_reservations := confirmed_own u (activeReservation now db sid cid) (gd_reservations db), gd_wallet := w\<rparr>"
    using confirm_own_Inr [OF r(5)] by (simp add: d(3) w(3))
  then show ?thesis
    using session_for_write [OF r(1)] r(2,3) w(1,2) d(2) by (auto split: option.splits)
qed

lemma registerCartela_Inr:
  assumes "registerCartela now newIds id sid u cid db = (Inr c, db')" "myRegistration db sid cid u = None"
  shows "\<exists>e. register_tx now newIds sid u cid db = Inr (e, db') \<and> c = rg_cartela e"
  using assms by (auto simp: registerCartela_def registered_meanwhile_def Let_def split: sum.splits if_splits)

text \<open>A call that returned a cartela finds it again.\<close>

lemma registerCartela_found:
  assumes "registerCartela now newIds others sid u cid db = (Inr c, db')"
  shows "myRegistration db' sid cid u = Some c"
proof (cases "myRegistration db sid cid u")
  case None
  show ?thesis
  proof (cases "register_tx now newIds sid u cid (others db)")
    case (Inl x)
    then show ?thesis
      using assms None by (auto simp: registerCartela_def registered_meanwhile_def Let_def split: if_splits option.splits)
  next
    case (Inr p)
    obtain e where p: "p = (e, db')" "c = rg_cartela e"
      using assms None Inr by (auto simp: registerCartela_def Let_def split: if_splits prod.splits)
    obtain s slot db1 where r: "getSessionForRegistrationWrite (others db) sid = Some (s, slot)"
      "enter_cartela now newIds s slot u cid (others db) = Inr (e, db1)"
      "confirm_own u (activeReservation now (others db) sid cid) db1 = Inr db'"
      using Inr p by (auto simp: register_tx_def bind_result_eq_Inr_iff Let_def split: option.splits if_splits)
    have "gd_cartelas db' = gd_cartelas db1" using confirm_own_Inr [OF r(3)] by simp
    then show ?thesis
      using my_registration_appended enter_cartela_row [OF r(2)] session_for_write(3) [OF r(1)] p(2) by simp
  qed
qed (use assms in \<open>simp add: registerCartela_def\<close>)

section \<open>When registration is open\<close>

lemma registration_open:
  "assertSessionRegistrationAllowed now db s slot = Inr () \<longleftrightarrow>
   canRegisterForSession now s slot (hasActiveBlockingSession db)"
  by (simp add: assertSessionRegistrationAllowed_def canRegisterForSession_def assertBigGameRegistrationAllowed_def
      canRegisterForBigGameWindow_def assertRegistrationAllowed_def split: option.splits)

section \<open>The answers of a bulk request\<close>

definition answers :: "game_cartela list \<Rightarrow> bulk_failure list \<Rightarrow> string multiset" where
  "answers successes failures = mset (map gc_cartelaId successes) + mset (map bf_cartelaId failures)"

abbreviation answered :: "bulk_state \<Rightarrow> string multiset" where
  "answered st \<equiv> answers (bs_successes st) (bs_failures st)"

definition mine_keyed :: "bulk_state \<Rightarrow> bool" where
  "mine_keyed st \<longleftrightarrow> (\<forall>i c. bs_mine st i = Some c \<longrightarrow> gc_cartelaId c = i)"

lemma answered_fail [simp]:
  "answered (bulk_fail item m st) = add_mset (bi_cartelaId item) (answered st)" "mine_keyed (bulk_fail item m st) = mine_keyed st"
  by (simp_all add: bulk_fail_def answers_def mine_keyed_def buildBulkRegistrationFailure_def)

text \<open>An item adds its own answer, or throws with the answers as they were.\<close>

definition answers_item :: "bulk_item \<Rightarrow> bulk_state \<Rightarrow> (http_error \<times> bulk_state) + bulk_state \<Rightarrow> bool" where
  "answers_item item st r \<longleftrightarrow>
     (case r of
        Inr st' \<Rightarrow> answered st' = add_mset (bi_cartelaId item) (answered st) \<and> mine_keyed st'
      | Inl (e, st') \<Rightarrow> answered st' = answered st \<and> mine_keyed st')"

lemma answers_item_simps [simp]:
  "answers_item item st (Inr st') \<longleftrightarrow> answered st' = add_mset (bi_cartelaId item) (answered st) \<and> mine_keyed st'"
  "answers_item item st (Inl (e, st')) \<longleftrightarrow> answered st' = answered st \<and> mine_keyed st'"
  by (simp_all add: answers_item_def)

lemma answered_record [simp]:
  "answered (st\<lparr>bs_db := d\<rparr>) = answered st" "mine_keyed (st\<lparr>bs_db := d\<rparr>) = mine_keyed st"
  "answered (st\<lparr>bs_walletFailure := m\<rparr>) = answered st" "mine_keyed (st\<lparr>bs_walletFailure := m\<rparr>) = mine_keyed st"
  by (simp_all add: mine_keyed_def)

lemma answered_entered:
  "gc_cartelaId c = bi_cartelaId item \<Longrightarrow> mine_keyed st \<Longrightarrow>
   answered (bulk_entered cx item c st) = add_mset (bi_cartelaId item) (answered st) \<and> mine_keyed (bulk_entered cx item c st)"
  by (simp add: bulk_entered_def answers_def mine_keyed_def)

lemma bulk_pay_answers:
  assumes "gc_cartelaId c = bi_cartelaId item" "mine_keyed st"
  shows "answers_item item st (bulk_pay cx item plan c (st\<lparr>bs_db := d\<rparr>))"
proof (cases "snd plan")
  case True
  then show ?thesis using answered_entered [of c item "st\<lparr>bs_db := d\<rparr>"] assms by (simp add: bulk_pay_def)
next
  case False
  obtain r d' where p: "applyRegistrationPayment (snd (bx_newIds cx (bi_cartelaId item))) (bx_userId cx)
      (bx_session cx) (gc_id c) (fst plan) d = (r, d')" by fastforce
  show ?thesis
  proof (cases r)
    case (Inl e)
    then show ?thesis
      using False p assms(2)
      by (auto simp: bulk_pay_def Let_def split: http_error.splits option.splits)
  next
    case (Inr x)
    let ?st = "st\<lparr>bs_db := d', bs_wallet := x,
      bs_bonus := (if ra_paymentSource (fst plan) = Some BONUS_CARTELA then map_option (\<lambda>k. k - 1) (bs_bonus st) else bs_bonus st)\<rparr>"
    have "mine_keyed ?st" "answered ?st = answered st" using assms(2) by (simp_all add: mine_keyed_def)
    moreover have "bulk_pay cx item plan c (st\<lparr>bs_db := d\<rparr>) = Inr (bulk_entered cx item c ?st)"
      using False p Inr by (simp add: bulk_pay_def)
    ultimately show ?thesis
      using answered_entered [OF assms(1), of ?st cx] by (simp only: answers_item_simps)
  qed
qed

lemma answered_success:
  "gc_cartelaId c = bi_cartelaId item \<Longrightarrow> mine_keyed st \<Longrightarrow>
   answers_item item st (Inr (st\<lparr>bs_successes := bs_successes st @ [c]\<rparr>)) \<and>
   answers_item item st (Inr (st\<lparr>bs_successes := bs_successes st @ [c], bs_mine := (bs_mine st)(bi_cartelaId item \<mapsto> c)\<rparr>))"
  by (simp add: answers_def mine_keyed_def)

lemma bulk_try_answers:
  assumes "mine_keyed st"
  shows "answers_item item st (bulk_try cx item st)"
proof (cases "bs_mine st (bi_cartelaId item)")
  case (Some c)
  then show ?thesis using assms answered_success [of c item st] by (simp add: bulk_try_def mine_keyed_def)
next
  case None
  have mine: "gc_cartelaId c = bi_cartelaId item"
    if "myRegistration (bs_db st) (gs_id (bx_session cx)) (bi_cartelaId item) (bx_userId cx) = Some c" for c
    using find_in that unfolding myRegistration_def by fastforce
  have create: "answers_item item st (bulk_pay cx item plan c (st\<lparr>bs_db := d\<rparr>))"
    if "create_cartela (fst (bx_newIds cx (bi_cartelaId item))) (gs_id (bx_session cx)) (bx_userId cx)
      (bi_cartelaId item) (fst plan) (bs_db st) = Inr (c, d)" for plan c d
    using create_cartela_row [OF that] by (intro bulk_pay_answers assms) simp
  have fail: "answers_item item st (Inr (bulk_fail item m st))" for m using assms by simp
  have entered: "answers_item item st
      (case create_cartela (fst (bx_newIds cx (bi_cartelaId item))) (gs_id (bx_session cx)) (bx_userId cx)
         (bi_cartelaId item) (fst plan) (bs_db st) of
         Inr (c, db) \<Rightarrow> bulk_pay cx item plan c (st\<lparr>bs_db := db\<rparr>)
       | Inl e \<Rightarrow>
           if e = Db_Error ''P2002'' then
             (case myRegistration (bs_db st) (gs_id (bx_session cx)) (bi_cartelaId item) (bx_userId cx) of
                Some c \<Rightarrow> Inr (st\<lparr>bs_successes := bs_successes st @ [c], bs_mine := (bs_mine st)(bi_cartelaId item \<mapsto> c)\<rparr>)
              | None \<Rightarrow> Inr (bulk_fail item TAKEN_MESSAGE st))
           else Inl (e, st))" for plan
  proof (cases "create_cartela (fst (bx_newIds cx (bi_cartelaId item))) (gs_id (bx_session cx)) (bx_userId cx)
         (bi_cartelaId item) (fst plan) (bs_db st)")
    case (Inl e)
    show ?thesis
    proof (cases "myRegistration (bs_db st) (gs_id (bx_session cx)) (bi_cartelaId item) (bx_userId cx)")
      case (Some c)
      then show ?thesis using Inl assms answered_success [OF mine [OF Some] assms] by simp
    qed (use Inl assms in simp)
  next
    case (Inr p)
    then show ?thesis using create by (cases p) simp
  qed
  have planned: "answers_item item st (case bulk_plan cx st of Inl e \<Rightarrow> Inl (e, st) | Inr plan \<Rightarrow> f plan)"
    if "\<And>plan. answers_item item st (f plan)" for f
    using that assms by (simp split: sum.splits)
  show ?thesis
    using None fail planned [OF entered]
    by (simp add: bulk_try_def Let_def del: answers_item_simps)
qed

lemma bulk_item_answers:
  assumes "bulk_item_step cx item st = Inr st'" "mine_keyed st"
  shows "answered st' = add_mset (bi_cartelaId item) (answered st)" "mine_keyed st'"
proof -
  note a = bulk_try_answers [OF assms(2), of item cx]
  have "answered st' = add_mset (bi_cartelaId item) (answered st) \<and> mine_keyed st'"
    using assms a
    by (auto simp: bulk_item_step_def split: option.splits sum.splits http_error.splits)
  then show "answered st' = add_mset (bi_cartelaId item) (answered st)" "mine_keyed st'" by simp_all
qed

lemma bulk_loop_answers:
  "bulk_loop cx items st = Inr st' \<Longrightarrow> mine_keyed st \<Longrightarrow>
   answered st' = answered st + mset (map bi_cartelaId items)"
proof (induction items arbitrary: st)
  case (Cons item items)
  obtain st1 where 1: "bulk_item_step cx item st = Inr st1" "bulk_loop cx items st1 = Inr st'"
    using Cons.prems(1) by (auto simp: bind_result_eq_Inr_iff)
  show ?case using bulk_item_answers [OF 1(1) Cons.prems(2)] Cons.IH [OF 1(2)] by simp
qed simp

lemma bulk_tx_answers:
  assumes "bulk_tx now newIds sid u requested db = Inr (r, db')"
  shows "answers (bz_successes r) (bz_failures r) = mset (map bi_cartelaId requested)"
proof -
  obtain s slot cx st st1 where t: "bulk_start now newIds s slot u requested db = Inr (cx, st)"
    "bulk_loop cx requested st = Inr st1" "bulk_finish now cx st1 = Inr (r, db')"
    using assms(1) by (auto simp: bulk_tx_def bind_result_eq_Inr_iff split: option.splits)
  have "mine_keyed st" "answered st = {#}"
    using t(1) by (auto simp: bulk_start_def Let_def bind_result_eq_Inr_iff mine_keyed_def answers_def dest: js_index_Some)
  then show ?thesis
    using bulk_loop_answers [OF t(2)] bulk_finish_state(2,3) [OF t(3)] by simp
qed

lemma fail_all_answers:
  "answers (bp_successes (fail_all items m p)) (bp_failures (fail_all items m p)) =
   answers (bp_successes p) (bp_failures p) + mset (map bi_cartelaId items)"
proof -
  have "mset (map bf_cartelaId (map (\<lambda>c. buildBulkRegistrationFailure c m) items)) = mset (map bi_cartelaId items)"
    by (simp add: buildBulkRegistrationFailure_def comp_def)
  then show ?thesis by (simp add: fail_all_def answers_def)
qed

lemma bulk_chunks_answers:
  assumes "bulk_chunks (registerCartelasBulkChunkWithRetry busy now newIds sid u) chunks p db = (Inr p', db')"
  shows "answers (bp_successes p') (bp_failures p') =
    answers (bp_successes p) (bp_failures p) + mset (map bi_cartelaId (concat chunks))"
  using assms
proof (induction chunks arbitrary: p db)
  case (Cons chunk chunks)
  let ?run = "registerCartelasBulkChunkWithRetry busy now newIds sid u"
  consider (closed) reason where "bp_closed p = Some reason"
    | (failed) e reason where "bp_closed p = None" "?run chunk db = Inl e" "extractRegistrationClosedReason e = Some reason"
    | (ran) r db1 where "bp_closed p = None" "?run chunk db = Inr (r, db1)"
    using Cons.prems by (auto split: option.splits sum.splits)
  then show ?case
  proof cases
    case closed
    then show ?thesis using Cons.prems Cons.IH by (auto simp: fail_all_answers)
  next
    case failed
    then show ?thesis using Cons.prems Cons.IH by (auto simp: fail_all_answers)
  next
    case ran
    have "bulk_tx now newIds sid u chunk db = Inr (r, db1)"
      using ran(2) unfolding registerCartelasBulkChunkWithRetry_def by (rule bulk_attempts_run)
    then show ?thesis
      using ran Cons.prems Cons.IH bulk_tx_answers by (fastforce simp: answers_def)
  qed
qed simp

lemma chunks_concat: "0 < k \<Longrightarrow> concat (chunkCartelaItems items k) = items"
proof (induction items k rule: chunkCartelaItems.induct)
  case (1 items k)
  show ?case
  proof (cases "items = []")
    case False
    have "concat (chunkCartelaItems items k) = take k items @ concat (chunkCartelaItems (drop k items) k)"
      using False 1(2) by (subst chunkCartelaItems.simps) simp
    then show ?thesis using 1 False by simp
  qed (simp add: chunkCartelaItems.simps)
qed

lemma chunks_size: "chunk \<in> set (chunkCartelaItems items k) \<Longrightarrow> length chunk \<le> k"
proof (induction items k rule: chunkCartelaItems.induct)
  case (1 items k)
  show ?case
  proof (cases "items = [] \<or> k = 0")
    case False
    then have "chunk = take k items \<or> chunk \<in> set (chunkCartelaItems (drop k items) k)"
      using 1(2) by (subst (asm) chunkCartelaItems.simps) simp
    then show ?thesis using 1(1) [OF False] by auto
  qed (use 1(2) in \<open>simp add: chunkCartelaItems.simps\<close>)
qed

text \<open>The cartelas a request adds are among its successes.\<close>

lemma bulk_chunks_rows:
  assumes "bulk_chunks (registerCartelasBulkChunkWithRetry busy now idsOf sid u) chunks p db = (Inr p', db')"
    and "all_fresh sid idsOf K db" "\<forall>chunk\<in>set chunks. bi_cartelaId ` set chunk \<subseteq> K"
  shows "\<exists>cs more. gd_cartelas db' = gd_cartelas db @ cs \<and> bp_successes p' = bp_successes p @ more \<and>
    set cs \<subseteq> set more \<and> (\<forall>c\<in>set more. c \<in> set (gd_cartelas db') \<and> gc_sessionId c = sid \<and> gc_userId c = u)"
  using assms
proof (induction chunks arbitrary: p db)
  case (Cons chunk chunks)
  let ?run = "registerCartelasBulkChunkWithRetry busy now idsOf sid u"
  have rest: "\<forall>chunk\<in>set chunks. bi_cartelaId ` set chunk \<subseteq> K" using Cons.prems(3) by simp
  consider (closed) q where "bulk_chunks ?run chunks q db = (Inr p', db')" "bp_successes q = bp_successes p"
    | (ran) r db1 q where "?run chunk db = Inr (r, db1)" "bulk_chunks ?run chunks q db1 = (Inr p', db')"
      "bp_successes q = bp_successes p @ bz_successes r"
    using Cons.prems(1) by (auto simp: fail_all_def split: option.splits sum.splits)
  then show ?case
  proof cases
    case closed
    then show ?thesis using Cons.IH [OF closed(1) Cons.prems(2) rest] by simp
  next
    case ran
    have tx: "bulk_tx now idsOf sid u chunk db = Inr (r, db1)"
      using ran(1) unfolding registerCartelasBulkChunkWithRetry_def by (rule bulk_attempts_run)
    have sub: "bi_cartelaId ` set chunk \<subseteq> K" using Cons.prems(3) by simp
    obtain s slot cs where s: "getSessionForRegistrationWrite db sid = Some (s, slot)"
      "registers now s slot u idsOf db cs db1" "gc_cartelaId ` set cs \<subseteq> bi_cartelaId ` set chunk"
      "\<forall>c\<in>set (bz_successes r). c \<in> set (gd_cartelas db1) \<and> gc_sessionId c = sid \<and> gc_userId c = u"
      "set cs \<subseteq> set (bz_successes r)"
      using bulk_tx_registers [OF tx all_fresh_subset [OF Cons.prems(2) sub]] by (elim exE conjE)
    have "all_fresh sid idsOf K db1"
      using all_fresh_registers [OF s(2)] session_for_write(3) [OF s(1)] Cons.prems(2) s(3) sub by auto
    then obtain cs' more where m: "gd_cartelas db' = gd_cartelas db1 @ cs'" "bp_successes p' = bp_successes q @ more"
      "set cs' \<subseteq> set more" "\<forall>c\<in>set more. c \<in> set (gd_cartelas db') \<and> gc_sessionId c = sid \<and> gc_userId c = u"
      using Cons.IH [OF ran(2) _ rest] by blast
    have "gd_cartelas db' = gd_cartelas db @ (cs @ cs')" using m(1) registers_rows(2) [OF s(2)] by simp
    moreover have "bp_successes p' = bp_successes p @ (bz_successes r @ more)" using m(2) ran(3) by simp
    moreover have "set (cs @ cs') \<subseteq> set (bz_successes r @ more)" using m(3) s(5) by auto
    moreover have "\<forall>c\<in>set (bz_successes r @ more). c \<in> set (gd_cartelas db') \<and> gc_sessionId c = sid \<and> gc_userId c = u"
      using m(1,4) s(4) by auto
    ultimately show ?thesis by blast
  qed
qed simp

section \<open>Limits of the categories\<close>

definition category_limit :: "slot_row \<Rightarrow> int option" where
  "category_limit slot =
     (if isBonusLikeCategory (Some (sl_category slot)) then Some (getBonusCartelaLimit (sl_maxCartelasPerPlayer slot))
      else if isBigGameCategory (Some (sl_category slot)) then sl_maxCartelasPerPlayer slot else None)"

lemma under_limit:
  "assertCategoryCartelaLimit db sid u (Some (sl_category slot)) (sl_maxCartelasPerPlayer slot) = Inr () \<Longrightarrow>
   category_limit slot = Some k \<Longrightarrow> int (length (user_cartelas db sid u)) < k"
  by (simp add: assertCategoryCartelaLimit_def category_limit_def Let_def split: if_splits option.splits)

lemma registers_count:
  assumes "registers now s slot u ids db cs db'"
  shows "length (user_cartelas db' (gs_id s) u) = length (user_cartelas db (gs_id s) u) + length cs"
proof -
  obtain db1 where "seated s slot u ids db cs db1" using assms unfolding registers_def by blast
  then have "\<forall>c\<in>set cs. gc_sessionId c = gs_id s \<and> gc_userId c = u \<and> gc_status c = REGISTERED"
    using seated_rows by (fastforce simp: seat_of_def)
  then have "filter (\<lambda>c. gc_userId c = u) (filter (\<lambda>c. gc_sessionId c = gs_id s \<and> gc_status c \<noteq> CARTELA_CANCELLED) cs) = cs"
    by (induction cs) simp_all
  then show ?thesis
    by (simp add: user_cartelas_def active_cartelas_def registers_rows(2) [OF assms])
qed

lemma may_register_limit:
  "assertMayRegister now db s slot u cid = Inr () \<Longrightarrow> category_limit slot = Some k \<Longrightarrow>
   int (length (user_cartelas db (gs_id s) u)) < k"
  using under_limit by (auto simp: assertMayRegister_def bind_result_eq_Inr_iff)

end
