(* ===== verification/RegistrationProperties.thy ===== *)
theory RegistrationProperties
  imports RegistrationOutcomes GameProperties
begin

text \<open>
  The properties of registering and reserving cartelas, with runs on a sample database: one session
  whose registration is open.
\<close>

section \<open>A sample database\<close>

definition open_db :: game_db where
  "open_db = playing_db
     \<lparr>gd_slots := [sample_slot\<lparr>sl_status := NEXT\<rparr>],
      gd_sessions := [sample_session\<lparr>gs_status := READY, gs_prizeAmount := 0, gs_companyRevenue := 0,
         gs_autoCallEnabled := False, gs_nextAutoCallAt := None\<rparr>],
      gd_cartelas := [], gd_numbers := []\<rparr>"

definition held_db :: game_db where
  "held_db = open_db
     \<lparr>gd_reservations :=
        [\<lparr>rv_id = ''r1'', rv_sessionId = ''game'', rv_cartelaId = ''c1'', rv_userId = ''ana'',
          rv_expiresAt = 100, rv_status = ACTIVE\<rparr>]\<rparr>"

lemmas open_defs = open_db_def held_db_def sample_defs

lemma open_db_ok: "game_ok open_db"
proof -
  have "keys_ok open_db" by (simp add: keys_ok_def open_defs paid_def posted_def)
  moreover have "sessions_ok open_db"
    by (simp add: sessions_ok_def session_ok_def cartelas_of_def claims_of_def open_defs)
  moreover have "one_live open_db" by (simp add: one_live_def open_defs)
  moreover have "numbers_ok (numbers_of open_db sid)" for sid
    by (simp add: numbers_of_def numbers_ok_def open_defs)
  moreover have "db_ok (gd_wallet open_db)"
    using playing_db_ok by (simp add: game_ok_def open_db_def)
  ultimately show ?thesis by (simp add: game_ok_def)
qed

lemma open_fresh: "fresh_ids (''x'', ''t'') open_db"
  by (simp add: fresh_ids_def open_defs paid_def posted_def ledger_ids_def)

text \<open>Ana registers the first cartela.\<close>

definition ana_entered :: "game_cartela game_outcome" where
  "ana_entered = registerCartela 5 (''x'', ''t'') id ''game'' ''ana'' ''c1'' open_db"

lemma ana_enters:
  "(case ana_entered of (Inr c, _) \<Rightarrow> gc_id c = ''x'' \<and> gc_paymentSource c = Some MONEY_WALLET | _ \<Rightarrow> False)"
  unfolding ana_entered_def by code_simp

lemma ana_result:
  obtains c db' where "ana_entered = (Inr c, db')" "gc_id c = ''x''" "gc_paymentSource c = Some MONEY_WALLET"
  using ana_enters by (cases ana_entered) (auto split: sum.splits)

lemma ana_unregistered: "myRegistration open_db ''game'' ''c1'' ''ana'' = None"
  by (simp add: myRegistration_def open_defs)

section \<open>One cartela\<close>

text \<open>
  C2. A registration that goes through takes a free cartela in a session whose registration is open,
  while no other player holds it: it adds one row for the player, with the account of the session and
  its category, charges the wallet accordingly, adds the contributions to the amounts of the session,
  confirms the player's own hold, and changes nothing else.
\<close>

theorem registration_takes_seat:
  assumes "registerCartela now newIds id sid u cid db = (Inr c, db')" "myRegistration db sid cid u = None"
    and "fresh_ids newIds db"
  shows "\<exists>s slot w. find_session db sid = Some s \<and> slot_of db s = Some slot \<and>
    canRegisterForSession now s slot (hasActiveBlockingSession db) \<and>
    (\<forall>r. activeReservation now db sid cid = Some r \<longrightarrow> rv_userId r = u) \<and>
    \<not> seat_taken db sid cid \<and> gc_cartelaId c = cid \<and> gc_id c = fst newIds \<and> gc_sessionId c = sid \<and>
    gc_userId c = u \<and> gc_status c = REGISTERED \<and> accounted s slot c \<and>
    charged s (snd newIds) c (gd_wallet db) w \<and>
    db' = db\<lparr>gd_sessions := map (counted now s slot 1) (gd_sessions db), gd_cartelas := gd_cartelas db @ [c],
      gd_reservations := confirmed_own u (activeReservation now db sid cid) (gd_reservations db), gd_wallet := w\<rparr>"
proof -
  obtain e where e: "register_tx now newIds sid u cid db = Inr (e, db')" "c = rg_cartela e"
    using registerCartela_Inr [OF assms(1,2)] by blast
  obtain s slot w where r: "find_session db sid = Some s" "slot_of db s = Some slot"
    "assertSessionRegistrationAllowed now db s slot = Inr ()"
    "\<forall>r. activeReservation now db sid cid = Some r \<longrightarrow> rv_userId r = u"
    "seat_row s slot u (fst newIds) db c" "gc_cartelaId c = cid" "charged s (snd newIds) c (gd_wallet db) w"
    "db' = db\<lparr>gd_sessions := map (counted now s slot 1) (gd_sessions db), gd_cartelas := gd_cartelas db @ [c],
      gd_reservations := confirmed_own u (activeReservation now db sid cid) (gd_reservations db), gd_wallet := w\<rparr>"
    using register_tx_effect [OF e(1) assms(3)] unfolding e(2) by blast
  have "gs_id s = sid" using find_in r(1) unfolding find_session_def by fastforce
  then show ?thesis using r registration_open unfolding seat_row_def by blast
qed

theorem registration_takes_seat_witness:
  "\<exists>c db'. ana_entered = (Inr c, db') \<and> gc_cartelaId c = ''c1'' \<and> gc_userId c = ''ana'' \<and>
     gd_cartelas db' = gd_cartelas open_db @ [c]"
proof -
  obtain c db' where c: "ana_entered = (Inr c, db')" by (rule ana_result)
  obtain w ss rs where "gc_cartelaId c = ''c1''" "gc_userId c = ''ana''"
    "db' = open_db\<lparr>gd_sessions := ss, gd_cartelas := gd_cartelas open_db @ [c], gd_reservations := rs, gd_wallet := w\<rparr>"
    using registration_takes_seat [OF c [unfolded ana_entered_def] ana_unregistered open_fresh]
    by (elim exE conjE)
  then show ?thesis by (intro exI [of _ c] exI [of _ db'] conjI c) simp_all
qed

text \<open>
  Asking again for a cartela one has gives the same row and changes nothing: no second row, no
  second charge, whatever other transactions committed during the calls.
\<close>

theorem registration_repeated_is_free:
  assumes "registerCartela now newIds others sid u cid db = (Inr c, db')"
  shows "registerCartela now' newIds' others' sid u cid db' = (Inr c, db')"
  using registerCartela_found [OF assms] by (simp add: registerCartela_def)

theorem registration_repeated_is_free_witness:
  "\<exists>c db'. ana_entered = (Inr c, db') \<and>
     registerCartela 6 (''y'', ''t2'') id ''game'' ''ana'' ''c1'' db' = (Inr c, db')"
proof -
  obtain c db' where c: "ana_entered = (Inr c, db')" by (rule ana_result)
  show ?thesis using registration_repeated_is_free [OF c [unfolded ana_entered_def]] c by blast
qed

text \<open>
  The player's screen and the server agree: a session is shown as open for registration exactly
  when the check inside the transaction lets a registration through.
\<close>

theorem registration_window_consistent:
  "canRegisterForSession now session slot (hasActiveBlockingSession db) \<longleftrightarrow>
   assertSessionRegistrationAllowed now db session slot = Inr ()"
  by (rule registration_open [symmetric])

section \<open>Runs\<close>


lemma ana_run: "game_tx\<^sup>*\<^sup>* open_db (snd ana_entered)"
  unfolding ana_entered_def by (rule run_registerCartela [OF open_fresh])


text \<open>
  C11. Over any run the cartelas of the sessions keep their row, their owner and their account, a
  session never has a cartela twice, no cartela of a session is held twice, and every cartela paid from
  a money wallet has its row in the ledger.
\<close>

theorem seats_unique_and_paid:
  assumes "game_ok db" "game_tx\<^sup>*\<^sup>* db db'"
    and "distinct (seats db)" "holds_ok db" "entries_paid db"
  shows "distinct (map (\<lambda>c. (gc_sessionId c, gc_cartelaId c)) (gd_cartelas db')) \<and>
    distinct (map (\<lambda>r. (rv_sessionId r, rv_cartelaId r)) (filter (\<lambda>r. rv_status r = ACTIVE) (gd_reservations db'))) \<and>
    (\<forall>c\<in>set (gd_cartelas db'). gc_paymentSource c = Some MONEY_WALLET \<longrightarrow>
       (gc_userId c, GAME_ENTRY, ''GAME_CARTELA'', gc_id c) \<in> posted (gd_wallet db')) \<and>
    (\<exists>more. map cartela_entry (gd_cartelas db') = map cartela_entry (gd_cartelas db) @ more)"
proof -
  have "distinct (seats db')" by (rule book_run.run_stable [where P = "\<lambda>d. distinct (seats d)", OF assms(2,1,3)]) (rule books_seats)
  moreover have "holds_ok db'" by (rule book_run.run_stable [where P = "\<lambda>d. holds_ok d", OF assms(2,1,4)]) (rule books_holds)
  moreover have "entries_paid db'" by (rule book_run.run_stable [where P = "\<lambda>d. entries_paid d", OF assms(2,1,5)]) (rule books_entries_paid)
  moreover have "\<exists>more. map cartela_entry (gd_cartelas db') = map cartela_entry (gd_cartelas db) @ more"
    using run_entries [OF assms(2,1)] by (auto simp: entries_def prefix_def)
  ultimately show ?thesis
    by (simp add: seats_def holds_ok_def active_seats_def entries_paid_def entry_key_def paid_def)
qed

theorem seats_unique_and_paid_witness:
  "\<exists>c db'. ana_entered = (Inr c, db') \<and> (''ana'', GAME_ENTRY, ''GAME_CARTELA'', gc_id c) \<in> posted (gd_wallet db')"
proof -
  obtain c db' where c: "ana_entered = (Inr c, db')" "gc_paymentSource c = Some MONEY_WALLET" by (rule ana_result)
  have "gc_userId c = ''ana''" "c \<in> set (gd_cartelas db')"
    using registerCartela_found [OF c(1) [unfolded ana_entered_def]] find_in unfolding myRegistration_def by fastforce+
  moreover have "distinct (seats open_db)" "holds_ok open_db" "entries_paid open_db"
    by (simp_all add: seats_def holds_ok_def active_seats_def entries_paid_def open_defs)
  ultimately have "(gc_userId c, GAME_ENTRY, ''GAME_CARTELA'', gc_id c) \<in> posted (gd_wallet db')"
    using seats_unique_and_paid [OF open_db_ok ana_run, unfolded c(1) snd_conv] c(2) by blast
  then show ?thesis using c(1) \<open>gc_userId c = ''ana''\<close> by (intro exI [of _ c] exI [of _ db']) simp
qed

section \<open>Many cartelas\<close>

text \<open>
  C27. A bulk registration answers every requested cartela once, as a success or as a failure with its
  reason. Every success is a row of the player in the session, and every row the request adds is among
  the successes: nothing is charged that is not reported.
\<close>

theorem bulk_request_answered:
  assumes "registerCartelasForSlotBulk busy now codes idsOf slotId u items db = (Inr a, db')"
    and "inj_on (fst \<circ> idsOf) (bi_cartelaId ` set items)" "inj_on (snd \<circ> idsOf) (bi_cartelaId ` set items)"
    and "\<forall>i\<in>bi_cartelaId ` set items. fresh_ids (idsOf i) db"
  shows "length items \<le> MAX_BULK_CARTELAS_PER_REQUEST \<and>
    mset (map gc_cartelaId (ba_successes a)) + mset (map bf_cartelaId (ba_failures a)) = mset (map bi_cartelaId items) \<and>
    (\<forall>c\<in>set (ba_successes a). c \<in> set (gd_cartelas db') \<and> gc_sessionId c = ba_sessionId a \<and> gc_userId c = u) \<and>
    (\<exists>added. gd_cartelas db' = gd_cartelas db @ added \<and> set added \<subseteq> set (ba_successes a))"
proof -
  obtain s db1 p where r: "length items \<le> MAX_BULK_CARTELAS_PER_REQUEST"
    "resolveRegistrationSessionForSlot now codes slotId db = (Inr s, db1)"
    "bulk_chunks (registerCartelasBulkChunkWithRetry busy now idsOf (gs_id s) u)
       (chunkCartelaItems items BULK_COMMIT_CHUNK_SIZE) \<lparr>bp_successes = [], bp_failures = [], bp_closed = None\<rparr> db1 = (Inr p, db')"
    "ba_sessionId a = gs_id s" "ba_successes a = bp_successes p" "ba_failures a = bp_failures p"
    using assms(1)
    by (auto simp: registerCartelasForSlotBulk_def registerCartelasBulkInternal_def assertBulkCartelasWithinLimit_def
        split: sum.splits prod.splits if_splits)
  have same: "gd_cartelas db1 = gd_cartelas db" "gd_wallet db1 = gd_wallet db"
    using resolved_same [of now codes slotId db] r(2) by simp_all
  have fresh: "all_fresh (gs_id s) idsOf (bi_cartelaId ` set items) db1"
    using assms(2-4) fresh_ids_same [OF same] by (intro all_freshI) auto
  have within: "\<forall>chunk\<in>set (chunkCartelaItems items BULK_COMMIT_CHUNK_SIZE). bi_cartelaId ` set chunk \<subseteq> bi_cartelaId ` set items"
    using chunks_within by (intro ballI image_mono) blast
  have "concat (chunkCartelaItems items BULK_COMMIT_CHUNK_SIZE) = items"
    by (rule chunks_concat) (simp add: BULK_COMMIT_CHUNK_SIZE_def)
  then have "mset (map gc_cartelaId (ba_successes a)) + mset (map bf_cartelaId (ba_failures a)) = mset (map bi_cartelaId items)"
    using bulk_chunks_answers [OF r(3)] r(5,6) by (simp add: answers_def)
  then show ?thesis
    using bulk_chunks_rows [OF r(3) fresh within] r(1,4-6) same by auto
qed

definition sample_request :: "bulk_item list" where
  "sample_request = map (\<lambda>i. \<lparr>bi_cartelaId = i, bi_cartelaNumber = 1\<rparr>) [''c1'', ''c9'', ''c1'']"

definition sample_bulk :: "bulk_answer game_outcome" where
  "sample_bulk = registerCartelasForSlotBulk (None, None) 5 (''next'', ''G2'') (\<lambda>i. (''x'' @ i, ''t'' @ i)) ''slot'' ''ana''
     sample_request open_db"

lemma sample_bulk_answer:
  obtains a db' where "sample_bulk = (Inr a, db')" "map gc_cartelaId (ba_successes a) = [''c1'', ''c1'']"
    "map bf_cartelaId (ba_failures a) = [''c9'']"
proof -
  have "(case sample_bulk of (Inr a, _) \<Rightarrow> map gc_cartelaId (ba_successes a) = [''c1'', ''c1''] \<and>
      map bf_cartelaId (ba_failures a) = [''c9''] | _ \<Rightarrow> False)"
    unfolding sample_bulk_def by code_simp
  then show ?thesis using that by (cases sample_bulk) (auto split: sum.splits)
qed

theorem bulk_request_answered_witness:
  "\<exists>a db' added. sample_bulk = (Inr a, db') \<and> map bf_cartelaId (ba_failures a) = [''c9''] \<and>
     gd_cartelas db' = gd_cartelas open_db @ added \<and> set added \<subseteq> set (ba_successes a)"
proof -
  obtain a db' where a: "sample_bulk = (Inr a, db')" "map bf_cartelaId (ba_failures a) = [''c9'']"
    using sample_bulk_answer by metis
  have "inj_on (fst \<circ> (\<lambda>i. (''x'' @ i, ''t'' @ i))) K" "inj_on (snd \<circ> (\<lambda>i. (''x'' @ i, ''t'' @ i))) K" for K
    by (simp_all add: inj_on_def)
  moreover have "fresh_ids (''x'' @ i, ''t'' @ i) open_db" for i
    by (simp add: fresh_ids_def open_defs paid_def posted_def ledger_ids_def)
  ultimately obtain added where "gd_cartelas db' = gd_cartelas open_db @ added" "set added \<subseteq> set (ba_successes a)"
    using bulk_request_answered [OF a(1) [unfolded sample_bulk_def]] by blast
  then show ?thesis by (intro exI conjI) (rule a, rule a, assumption+)
qed

section \<open>Limits\<close>

text \<open>
  C28. The limit of a bonus, Big GOTD or Big Game slot holds: after a registration or a confirmation the
  player has at most as many active cartelas in the session as the slot allows, and a bulk request never
  exceeds the limit of a bonus or Big GOTD slot.
\<close>

theorem registration_limits_kept:
  assumes "find_session db sid = Some s" "slot_of db s = Some slot" "category_limit slot = Some k"
    and "fresh_ids newIds db" "all_fresh sid idsOf (bi_cartelaId ` set items) db"
  shows "(\<forall>e db'. register_tx now newIds sid u cid db = Inr (e, db') \<longrightarrow> int (length (user_cartelas db' sid u)) \<le> k) \<and>
    (\<forall>r e db'. confirm_tx now newIds rid u db = Inr (e, db') \<and> find_reservation db rid = Some r \<and>
       rv_sessionId r = sid \<longrightarrow> int (length (user_cartelas db' sid u)) \<le> k) \<and>
    (isBonusLikeCategory (Some (sl_category slot)) \<longrightarrow> (\<forall>r db'. bulk_tx now idsOf sid u items db = Inr (r, db') \<longrightarrow>
       int (length (user_cartelas db' sid u)) \<le> max k (int (length (user_cartelas db sid u)))))"
proof (intro conjI allI impI)
  have sid: "gs_id s = sid" using find_in assms(1) unfolding find_session_def by fastforce
  have found: "getSessionForRegistrationWrite db sid = Some (s, slot)"
    using assms(1,2) by (simp add: getSessionForRegistrationWrite_def)
  fix e db'
  have one: "int (length (user_cartelas db' sid u)) \<le> k"
    if "registers now s slot u ids db [c] db'" "assertMayRegister now db s slot u i = Inr ()" for ids c i
    using registers_count [OF that(1)] may_register_limit [OF that(2) assms(3)] sid by simp
  show "int (length (user_cartelas db' sid u)) \<le> k" if t: "register_tx now newIds sid u cid db = Inr (e, db')"
  proof -
    have "registers now s slot u (\<lambda>_. newIds) db [rg_cartela e] db'" "assertMayRegister now db s slot u cid = Inr ()"
      using register_tx_registers [OF t assms(4)] unfolding found by simp_all
    then show ?thesis by (rule one)
  qed
  fix r
  show "int (length (user_cartelas db' sid u)) \<le> k"
    if t: "confirm_tx now newIds rid u db = Inr (e, db') \<and> find_reservation db rid = Some r \<and> rv_sessionId r = sid"
  proof -
    have "registers now s slot u (\<lambda>_. newIds) db [rg_cartela e] db'"
      "assertMayRegister now db s slot u (rv_cartelaId r) = Inr ()"
      using confirm_tx_registers [OF conjunct1 [OF t] assms(4)] t found by simp_all
    then show ?thesis by (rule one)
  qed
next
  fix r db'
  assume b: "isBonusLikeCategory (Some (sl_category slot))" "bulk_tx now idsOf sid u items db = Inr (r, db')"
  have sid: "gs_id s = sid" using find_in assms(1) unfolding find_session_def by fastforce
  obtain cs where cs: "registers now s slot u idsOf db cs db'" "cs = [] \<or>
      int (length (user_cartelas db sid u)) + int (length cs) \<le> getBonusCartelaLimit (sl_maxCartelasPerPlayer slot)"
    using bulk_tx_registers [OF b(2) assms(5)] assms(1,2) b(1) by (auto simp: getSessionForRegistrationWrite_def)
  have "k = getBonusCartelaLimit (sl_maxCartelasPerPlayer slot)" using assms(3) b(1) by (simp add: category_limit_def)
  then show "int (length (user_cartelas db' sid u)) \<le> max k (int (length (user_cartelas db sid u)))"
    using registers_count [OF cs(1)] cs(2) sid by auto
qed

definition gotd_db :: game_db where
  "gotd_db = open_db\<lparr>gd_slots := [sample_slot\<lparr>sl_status := NEXT, sl_category := BIG_GOTD, sl_maxCartelasPerPlayer := Some 1\<rparr>]\<rparr>"

theorem registration_limits_kept_witness:
  "\<exists>e db'. register_tx 5 (''x'', ''t'') ''game'' ''ana'' ''c1'' gotd_db = Inr (e, db') \<and>
     int (length (user_cartelas db' ''game'' ''ana'')) \<le> 1"
proof -
  let ?s = "hd (gd_sessions open_db)" and ?slot = "hd (gd_slots gotd_db)"
  have db: "find_session gotd_db ''game'' = Some ?s" "slot_of gotd_db ?s = Some ?slot" "category_limit ?slot = Some 1"
    "fresh_ids (''x'', ''t'') gotd_db" "all_fresh ''game'' (\<lambda>i. (''x'' @ i, ''t'' @ i)) (bi_cartelaId ` set []) gotd_db"
    by (simp_all add: find_session_def slot_of_def find_slot_def category_limit_def getBonusCartelaLimit_def or_else_def
        isBonusLikeCategory_def isBigGotdCategory_def fresh_ids_def paid_def posted_def ledger_ids_def
        all_fresh_def gotd_db_def open_defs)
  have "(case register_tx 5 (''x'', ''t'') ''game'' ''ana'' ''c1'' gotd_db of Inr _ \<Rightarrow> True | _ \<Rightarrow> False)"
    by code_simp
  then obtain e db' where "register_tx 5 (''x'', ''t'') ''game'' ''ana'' ''c1'' gotd_db = Inr (e, db')"
    by (auto split: sum.splits)
  then show ?thesis using registration_limits_kept [OF db] by blast
qed

text \<open>A Big Game slot that allows one cartela.\<close>

definition big_db :: game_db where
  "big_db = open_db\<lparr>gd_slots := [sample_slot\<lparr>sl_status := NEXT, sl_category := BIG_GAME, sl_maxCartelasPerPlayer := Some 1\<rparr>],
     gd_sessions := map (\<lambda>s. s\<lparr>gs_registrationOpensAt := Some 0, gs_scheduledStartAt := Some 100\<rparr>) (gd_sessions open_db)\<rparr>"

definition two_items :: "bulk_item list" where
  "two_items = map (\<lambda>i. \<lparr>bi_cartelaId = i, bi_cartelaNumber = 1\<rparr>) [''c1'', ''c2'']"

lemma big_limit: "category_limit (hd (gd_slots big_db)) = Some 1"
  by code_simp

lemma big_bulk:
  "(case bulk_tx 5 (\<lambda>i. (''x'' @ i, ''t'' @ i)) ''game'' ''ana'' two_items big_db of
     Inr (_, db') \<Rightarrow> length (user_cartelas db' ''game'' ''ana'') = 2 | _ \<Rightarrow> False)"
  by code_simp

lemma big_single:
  "(case register_tx 5 (''x'', ''t'') ''game'' ''ana'' ''c1'' big_db of
     Inr (_, db') \<Rightarrow> (case register_tx 5 (''y'', ''t2'') ''game'' ''ana'' ''c2'' db' of
        Inl e \<Rightarrow> e = Coded_Request ''Big Game cartela limit reached for this session'' ''BIG_GAME_CARTELA_LIMIT_REACHED''
      | _ \<Rightarrow> False)
   | _ \<Rightarrow> False)"
  by code_simp

text \<open>
  A bulk request does not look at the limit of a Big Game slot: where the slot allows one cartela,
  one request registers two, although a second registration on its own is refused.
\<close>

theorem bulk_exceeds_big_game_limit:
  "category_limit (hd (gd_slots big_db)) = Some 1 \<and>
   (case bulk_tx 5 (\<lambda>i. (''x'' @ i, ''t'' @ i)) ''game'' ''ana'' two_items big_db of
      Inr (_, db') \<Rightarrow> length (user_cartelas db' ''game'' ''ana'') = 2 | _ \<Rightarrow> False) \<and>
   (case register_tx 5 (''x'', ''t'') ''game'' ''ana'' ''c1'' big_db of
      Inr (_, db') \<Rightarrow> (case register_tx 5 (''y'', ''t2'') ''game'' ''ana'' ''c2'' db' of
         Inl e \<Rightarrow> e = Coded_Request ''Big Game cartela limit reached for this session'' ''BIG_GAME_CARTELA_LIMIT_REACHED''
       | _ \<Rightarrow> False)
    | _ \<Rightarrow> False)"
  by (intro conjI big_limit big_bulk big_single)

section \<open>Reservations\<close>

text \<open>
  Confirming a reservation whose time is over is refused, and the reservation stays active: the
  mark the code sets is in the transaction that the exception rolls back. The expirer ends every
  reservation it read as due, whatever became of it meanwhile.
\<close>

theorem expired_reservations:
  "(\<forall>r. find_reservation db rid = Some r \<and> rv_userId r = u \<and> rv_status r = ACTIVE \<and> rv_expiresAt r \<le> now \<longrightarrow>
      confirmReservation now True newIds rid u db = (Inl (Bad_Request ''Reservation has expired''), db)) \<and>
   (\<forall>r\<in>set (due_reservations now db). \<forall>r'\<in>set (gd_reservations (expireDueReservations now others db)).
      rv_id r' = rv_id r \<longrightarrow> rv_status r' = EXPIRED) \<and>
   (distinct (map rv_id (gd_reservations db)) \<longrightarrow> gd_reservations (expireDueReservations now id db) =
      map (\<lambda>r. if rv_status r = ACTIVE \<and> rv_expiresAt r \<le> now then r\<lparr>rv_status := EXPIRED\<rparr> else r) (gd_reservations db))"
proof (intro conjI allI impI ballI)
  fix r
  assume "find_reservation db rid = Some r \<and> rv_userId r = u \<and> rv_status r = ACTIVE \<and> rv_expiresAt r \<le> now"
  then show "confirmReservation now True newIds rid u db = (Inl (Bad_Request ''Reservation has expired''), db)"
    by (simp add: confirmReservation_def confirm_tx_def update_reservation_def)
next
  fix r r'
  assume "r \<in> set (due_reservations now db)" "r' \<in> set (gd_reservations (expireDueReservations now others db))"
    "rv_id r' = rv_id r"
  then show "rv_status r' = EXPIRED"
    by (auto simp: expireDueReservations_def Let_def update_reservations_def update_where_def set_reservation_status_def
        split: if_splits)
next
  assume d: "distinct (map rv_id (gd_reservations db))"
  have "rv_id r \<in> rv_id ` set (due_reservations now db) \<longleftrightarrow> rv_status r = ACTIVE \<and> rv_expiresAt r \<le> now"
    if "r \<in> set (gd_reservations db)" for r
    using d that by (auto simp: due_reservations_def distinct_map inj_on_def)
  then show "gd_reservations (expireDueReservations now id db) =
      map (\<lambda>r. if rv_status r = ACTIVE \<and> rv_expiresAt r \<le> now then r\<lparr>rv_status := EXPIRED\<rparr> else r) (gd_reservations db)"
    by (auto simp: expireDueReservations_def Let_def update_reservations_def update_where_def set_reservation_status_def
        due_reservations_def filter_empty_conv map_idI)
qed

text \<open>
  Ana's hold runs out; she confirms it in time by her own clock while the expirer has read it as due:
  the reservation ends as expired, with the cartela registered and paid.
\<close>

theorem expired_reservations_witness:
  "confirmReservation 100 True (''x'', ''t'') ''r1'' ''ana'' held_db = (Inl (Bad_Request ''Reservation has expired''), held_db) \<and>
   (let db' = expireDueReservations 100 (\<lambda>db. snd (confirmReservation 99 True (''x'', ''t'') ''r1'' ''ana'' db)) held_db
    in map rv_status (gd_reservations db') = [EXPIRED])"
proof
  have "find_reservation held_db ''r1'' = Some (hd (gd_reservations held_db))"
    by (simp add: find_reservation_def open_defs)
  then show "confirmReservation 100 True (''x'', ''t'') ''r1'' ''ana'' held_db =
      (Inl (Bad_Request ''Reservation has expired''), held_db)"
    using expired_reservations [of held_db "''r1''" "''ana''" 100 "(''x'', ''t'')" id] by (simp add: held_db_def)
  show "let db' = expireDueReservations 100 (\<lambda>db. snd (confirmReservation 99 True (''x'', ''t'') ''r1'' ''ana'' db)) held_db
    in map rv_status (gd_reservations db') = [EXPIRED]"
    by code_simp
qed

end
