(* ===== verification/RateLimit.thy ===== *)
theory RateLimit
  imports Wallet
begin

text \<open>
  The limiter of user actions: \<open>src/src/common/rate-limit\<close>. Its state is the map of buckets; the time
  \<open>Date.now()\<close> of a call is an argument. The second part follows a sequence of calls: what one key
  sees of it, and how many calls of a key a span of one window can pass.
\<close>

section \<open>The limiter\<close>

record rate_bucket =
  rb_count :: int
  rb_windowStartMs :: int

type_synonym buckets = "string \<Rightarrow> rate_bucket option"

definition consume :: "int \<Rightarrow> buckets \<Rightarrow> string \<Rightarrow> int \<Rightarrow> int \<Rightarrow> bool \<times> buckets" where
  "consume now buckets key limit windowMs =
     (case buckets key of
        None \<Rightarrow> (True, buckets(key \<mapsto> \<lparr>rb_count = 1, rb_windowStartMs = now\<rparr>))
      | Some bucket \<Rightarrow>
          (if windowMs \<le> now - rb_windowStartMs bucket then
             (True, buckets(key \<mapsto> \<lparr>rb_count = 1, rb_windowStartMs = now\<rparr>))
           else if limit \<le> rb_count bucket then (False, buckets)
           else (True, buckets(key \<mapsto> bucket\<lparr>rb_count := rb_count bucket + 1\<rparr>))))"

section \<open>The limits of the actions\<close>

datatype user_action =
    Reserve | Confirm | Cancel_Action | Bingo_Claim | Withdrawal_Request | Deposit_Request
  | Deposit_Check_Ref | Support_Message

fun action_name :: "user_action \<Rightarrow> string" where
  "action_name Reserve = ''reserve''"
| "action_name Confirm = ''confirm''"
| "action_name Cancel_Action = ''cancel''"
| "action_name Bingo_Claim = ''bingo_claim''"
| "action_name Withdrawal_Request = ''withdrawal_request''"
| "action_name Deposit_Request = ''deposit_request''"
| "action_name Deposit_Check_Ref = ''deposit_check_ref''"
| "action_name Support_Message = ''support_message''"

text \<open>limit and windowMs\<close>

fun ACTION_LIMITS :: "user_action \<Rightarrow> int \<times> int" where
  "ACTION_LIMITS Reserve = (300, 60000)"
| "ACTION_LIMITS Confirm = (300, 60000)"
| "ACTION_LIMITS Cancel_Action = (300, 60000)"
| "ACTION_LIMITS Bingo_Claim = (120, 60000)"
| "ACTION_LIMITS Withdrawal_Request = (60, 60000)"
| "ACTION_LIMITS Deposit_Request = (100000, 60000)"
| "ACTION_LIMITS Deposit_Check_Ref = (100000, 60000)"
| "ACTION_LIMITS Support_Message = (30, 3600000)"

text \<open>An empty scope key is falsy.\<close>

definition limit_key :: "user_action \<Rightarrow> string \<Rightarrow> string option \<Rightarrow> string" where
  "limit_key action userId scopeKey =
     (case scopeKey of
        None \<Rightarrow> action_name action @ '':'' @ userId
      | Some scope \<Rightarrow>
          (if scope = [] then action_name action @ '':'' @ userId
           else action_name action @ '':'' @ userId @ '':'' @ scope))"

definition assertWithinLimit ::
  "int \<Rightarrow> buckets \<Rightarrow> user_action \<Rightarrow> string \<Rightarrow> string option \<Rightarrow> (http_error + unit) \<times> buckets" where
  "assertWithinLimit now buckets action userId scopeKey =
     (let (limit, windowMs) = ACTION_LIMITS action;
          (allowed, buckets') = consume now buckets (limit_key action userId scopeKey) limit windowMs
      in (if allowed then Inr () else Inl (Too_Many_Requests ''Too many attempts. Please wait a moment.''),
          buckets'))"

section \<open>Sequences of calls\<close>

text \<open>A call: its time, the action, the user and the scope. \<open>limiter_run\<close> lists the answers.\<close>

type_synonym limiter_call = "int \<times> user_action \<times> string \<times> string option"

definition call_key :: "limiter_call \<Rightarrow> string" where
  "call_key c = (case c of (now, action, userId, scope) \<Rightarrow> limit_key action userId scope)"

fun limiter_run :: "buckets \<Rightarrow> limiter_call list \<Rightarrow> (limiter_call \<times> bool) list" where
  "limiter_run buckets [] = []"
| "limiter_run buckets ((now, action, userId, scope) # calls) =
     (let (r, buckets') = assertWithinLimit now buckets action userId scope
      in ((now, action, userId, scope), \<not> isl r) # limiter_run buckets' calls)"

text \<open>The same for one key: its bucket, one limit and one window.\<close>

definition consume_one :: "int \<Rightarrow> int \<Rightarrow> rate_bucket option \<Rightarrow> int \<Rightarrow> bool \<times> rate_bucket option" where
  "consume_one limit windowMs bucket now =
     (let (ok, m) = consume now (\<lambda>_. bucket) [] limit windowMs in (ok, m []))"

fun passes :: "int \<Rightarrow> int \<Rightarrow> rate_bucket option \<Rightarrow> int list \<Rightarrow> int list" where
  "passes limit windowMs bucket [] = []"
| "passes limit windowMs bucket (t # ts) =
     (let (ok, bucket') = consume_one limit windowMs bucket t
      in (if ok then [t] else []) @ passes limit windowMs bucket' ts)"

lemma consume_one_simps:
  "consume_one limit windowMs None now = (True, Some \<lparr>rb_count = 1, rb_windowStartMs = now\<rparr>)"
  "windowMs \<le> now - rb_windowStartMs b \<Longrightarrow>
   consume_one limit windowMs (Some b) now = (True, Some \<lparr>rb_count = 1, rb_windowStartMs = now\<rparr>)"
  "now - rb_windowStartMs b < windowMs \<Longrightarrow> limit \<le> rb_count b \<Longrightarrow>
   consume_one limit windowMs (Some b) now = (False, Some b)"
  "now - rb_windowStartMs b < windowMs \<Longrightarrow> rb_count b < limit \<Longrightarrow>
   consume_one limit windowMs (Some b) now = (True, Some (b\<lparr>rb_count := rb_count b + 1\<rparr>))"
  by (simp_all add: consume_one_def consume_def)

lemma consume_by_key:
  "fst (consume now bs key limit windowMs) = fst (consume_one limit windowMs (bs key) now)"
  "snd (consume now bs key limit windowMs) key = snd (consume_one limit windowMs (bs key) now)"
  "k \<noteq> key \<Longrightarrow> snd (consume now bs key limit windowMs) k = bs k"
  by (auto simp: consume_one_def consume_def split: option.splits)

section \<open>A span of one window\<close>

lemma passes_in: "t \<in> set (passes limit w bucket ts) \<Longrightarrow> t \<in> set ts"
  by (induction limit w bucket ts rule: passes.induct) (auto split: prod.splits if_splits)

text \<open>What the current window of a bucket still lets pass.\<close>

lemma passes_current:
  assumes "rb_count b \<le> limit" "\<forall>t\<in>set ts. t < rb_windowStartMs b + w"
  shows "int (length (passes limit w (Some b) ts)) \<le> limit - rb_count b"
  using assms
proof (induction ts arbitrary: b)
  case (Cons t ts)
  have inside: "t - rb_windowStartMs b < w" using Cons.prems(2) by simp
  show ?case
  proof (cases "limit \<le> rb_count b")
    case True
    then show ?thesis using Cons.IH [of b] Cons.prems consume_one_simps(3) [OF inside True] by simp
  next
    case False
    then have less: "rb_count b < limit" by simp
    have "int (length (passes limit w (Some (b\<lparr>rb_count := rb_count b + 1\<rparr>)) ts)) \<le>
        limit - (rb_count b + 1)"
      using Cons.IH [of "b\<lparr>rb_count := rb_count b + 1\<rparr>"] Cons.prems less by simp
    then show ?thesis using consume_one_simps(4) [OF inside less] by simp
  qed
qed simp

lemma passes_fresh:
  assumes "0 < limit" "\<forall>t\<in>set ts. t < now + w"
  shows "int (length (passes limit w (Some \<lparr>rb_count = 1, rb_windowStartMs = now\<rparr>) ts)) \<le> limit - 1"
  using passes_current [of "\<lparr>rb_count = 1, rb_windowStartMs = now\<rparr>" limit ts w] assms by simp

text \<open>From any bucket, the calls of a span of one window pass at most two windows.\<close>

lemma passes_span:
  assumes "0 < limit" "sorted ts" "\<forall>t\<in>set ts. a \<le> t \<and> t < a + w"
    and "case bucket of None \<Rightarrow> True | Some b \<Rightarrow> rb_count b \<le> limit \<and> 0 \<le> rb_count b"
  shows "int (length (passes limit w bucket ts)) \<le>
    2 * limit - (case bucket of None \<Rightarrow> limit | Some b \<Rightarrow> rb_count b)"
  using assms(2-)
proof (induction ts arbitrary: bucket)
  case Nil
  then show ?case using assms(1) by (auto split: option.splits)
next
  case (Cons t ts)
  have rest: "sorted ts" "\<forall>t'\<in>set ts. t \<le> t' \<and> a \<le> t' \<and> t' < a + w" "a \<le> t"
    using Cons.prems by auto
  have restart: "int (length (passes limit w (Some \<lparr>rb_count = 1, rb_windowStartMs = t\<rparr>) ts)) \<le> limit - 1"
    by (rule passes_fresh) (use assms(1) rest in auto)
  show ?case
  proof (cases bucket)
    case None
    then show ?thesis using restart by (simp add: consume_one_simps)
  next
    case (Some b)
    have count: "rb_count b \<le> limit" "0 \<le> rb_count b" using Cons.prems(3) Some by auto
    consider (new) "w \<le> t - rb_windowStartMs b"
      | (full) "t - rb_windowStartMs b < w" "limit \<le> rb_count b"
      | (room) "t - rb_windowStartMs b < w" "rb_count b < limit"
      by linarith
    then show ?thesis
    proof cases
      case new
      then show ?thesis using restart Some count consume_one_simps(2) [OF new] by simp
    next
      case full
      then show ?thesis
        using Cons.IH [of "Some b"] Cons.prems rest Some count consume_one_simps(3) [OF full] by simp
    next
      case room
      have "int (length (passes limit w (Some (b\<lparr>rb_count := rb_count b + 1\<rparr>)) ts)) \<le>
          2 * limit - (rb_count b + 1)"
        using Cons.IH [of "Some (b\<lparr>rb_count := rb_count b + 1\<rparr>)"] Cons.prems rest count room by simp
      then show ?thesis using Some consume_one_simps(4) [OF room] by simp
    qed
  qed
qed

text \<open>The bucket after a list of calls; a split of the calls splits what passes.\<close>

definition bucket_after :: "int \<Rightarrow> int \<Rightarrow> rate_bucket option \<Rightarrow> int list \<Rightarrow> rate_bucket option" where
  "bucket_after limit w bucket ts = fold (\<lambda>t b. snd (consume_one limit w b t)) ts bucket"

lemma passes_append:
  "passes limit w bucket (xs @ ys) =
   passes limit w bucket xs @ passes limit w (bucket_after limit w bucket xs) ys"
  by (induction limit w bucket xs rule: passes.induct) (auto simp: bucket_after_def split: prod.splits)

definition bucket_ok :: "int \<Rightarrow> rate_bucket option \<Rightarrow> bool" where
  "bucket_ok limit bucket \<longleftrightarrow>
     (case bucket of None \<Rightarrow> True | Some b \<Rightarrow> rb_count b \<le> limit \<and> 0 \<le> rb_count b)"

lemma consume_one_ok:
  "0 < limit \<Longrightarrow> bucket_ok limit bucket \<Longrightarrow> bucket_ok limit (snd (consume_one limit w bucket t))"
  by (auto simp: bucket_ok_def consume_one_def consume_def split: option.splits)

lemma bucket_after_ok: "0 < limit \<Longrightarrow> bucket_ok limit bucket \<Longrightarrow> bucket_ok limit (bucket_after limit w bucket xs)"
  by (induction xs arbitrary: bucket) (auto simp: bucket_after_def consume_one_ok)

lemma sorted_span:
  "sorted xs \<Longrightarrow> \<exists>before after. xs = before @ filter (\<lambda>t. a \<le> t \<and> t < b) xs @ after \<and>
     (\<forall>t\<in>set before. t < a) \<and> (\<forall>t\<in>set after. b \<le> t)" if "a \<le> b" for xs :: "int list"
proof (induction xs)
  case (Cons x xs)
  then obtain before after where
    ih: "xs = before @ filter (\<lambda>t. a \<le> t \<and> t < b) xs @ after"
      "\<forall>t\<in>set before. t < a" "\<forall>t\<in>set after. b \<le> t" by auto
  have le: "\<forall>t\<in>set xs. x \<le> t" using Cons.prems by simp
  consider "x < a" | "a \<le> x" "x < b" | "b \<le> x" using that by linarith
  then show ?case
  proof cases
    case 1
    then show ?thesis using ih by (intro exI [of _ "x # before"] exI [of _ after]) auto
  next
    case 2
    have "set before \<subseteq> set xs" using arg_cong [OF ih(1), of set] by auto
    then have "before = []" using ih(2) le 2(1) by (cases before) fastforce+
    then show ?thesis using ih 2 by (intro exI [of _ "[]"] exI [of _ after]) auto
  next
    case 3
    then have none: "filter (\<lambda>t. a \<le> t \<and> t < b) xs = []" using le by (auto simp: filter_empty_conv)
    show ?thesis using none le 3 that by (intro exI [of _ "[]"] exI [of _ "x # xs"]) fastforce
  qed
qed simp

lemma passes_bound:
  assumes "0 < limit" "0 \<le> w" "sorted ts" "bucket_ok limit bucket"
  shows "int (length (filter (\<lambda>t. a \<le> t \<and> t < a + w) (passes limit w bucket ts))) \<le> 2 * limit"
proof -
  let ?in = "\<lambda>t. a \<le> t \<and> t < a + w"
  obtain before after where
    split: "ts = before @ filter ?in ts @ after"
      "\<forall>t\<in>set before. t < a" "\<forall>t\<in>set after. a + w \<le> t"
    using sorted_span [of a "a + w" ts] assms by auto
  define mid where "mid = filter ?in ts"
  have mid: "sorted mid" "\<forall>t\<in>set mid. ?in t"
    using assms(3) by (auto simp: mid_def sorted_filter [where f = id, simplified])
  let ?b1 = "bucket_after limit w bucket before"
  let ?b2 = "bucket_after limit w ?b1 mid"
  have parts: "passes limit w bucket ts =
      passes limit w bucket before @ passes limit w ?b1 mid @ passes limit w ?b2 after"
    using split(1) unfolding mid_def [symmetric] by (metis passes_append)
  have outer: "filter ?in (passes limit w bucket before) = []" "filter ?in (passes limit w ?b2 after) = []"
    using split(2,3) passes_in by (fastforce simp: filter_empty_conv)+
  have "bucket_ok limit ?b1" by (rule bucket_after_ok [OF assms(1,4)])
  then have "int (length (passes limit w ?b1 mid)) \<le>
      2 * limit - (case ?b1 of None \<Rightarrow> limit | Some b \<Rightarrow> rb_count b)"
    by (intro passes_span [OF assms(1) mid]) (auto simp: bucket_ok_def)
  moreover have "0 \<le> (case ?b1 of None \<Rightarrow> limit | Some b \<Rightarrow> rb_count b)"
    using \<open>bucket_ok limit ?b1\<close> assms(1) by (auto simp: bucket_ok_def split: option.splits)
  moreover have "int (length (filter ?in (passes limit w ?b1 mid))) \<le> int (length (passes limit w ?b1 mid))"
    by simp
  ultimately have "int (length (filter ?in (passes limit w ?b1 mid))) \<le> 2 * limit" by linarith
  then show ?thesis unfolding parts filter_append outer by simp
qed

section \<open>What a key sees of a sequence\<close>

lemma limit_key_action: "takeWhile (\<lambda>c. c \<noteq> CHR '':'') (limit_key action userId scope) = action_name action"
  by (cases action) (simp_all add: limit_key_def split: option.splits)

lemma action_name_inject: "action_name x = action_name y \<Longrightarrow> x = y"
  by (cases x; cases y) simp_all

lemma limit_key_eq: "limit_key x u s = limit_key y v t \<Longrightarrow> x = y"
  using limit_key_action action_name_inject by metis

lemma limiter_run_key:
  assumes "key = limit_key action userId scope" "ACTION_LIMITS action = (limit, w)"
  shows "map (\<lambda>p. fst (fst p)) (filter (\<lambda>p. snd p \<and> call_key (fst p) = key) (limiter_run bs calls)) =
    passes limit w (bs key) (map fst (filter (\<lambda>c. call_key c = key) calls))"
proof (induction calls arbitrary: bs)
  case (Cons call calls)
  obtain now a u s where call: "call = (now, a, u, s)" by (cases call)
  let ?k = "limit_key a u s"
  show ?case
  proof (cases "?k = key")
    case True
    then have "a = action" using assms(1) limit_key_eq by metis
    with True show ?thesis
      using Cons.IH assms(2) consume_by_key(1,2) [of now bs key limit w]
      by (auto simp: call assertWithinLimit_def call_key_def split: prod.splits)
  next
    case False
    have other: "snd (assertWithinLimit now bs a u s) key = bs key"
      using consume_by_key(3) [of key ?k now bs] False
      by (auto simp: assertWithinLimit_def split: prod.splits) (metis snd_conv)
    obtain r bs' where r: "assertWithinLimit now bs a u s = (r, bs')" by fastforce
    show ?thesis using Cons.IH [of bs'] False other by (simp add: call call_key_def r)
  qed
qed simp

text \<open>A key that has seen no more calls than its limit refuses none of them.\<close>

lemma passes_few:
  assumes "bucket_ok limit bucket"
    and "(case bucket of None \<Rightarrow> 0 | Some b \<Rightarrow> rb_count b) + int (length ts) \<le> limit"
  shows "passes limit w bucket ts = ts"
  using assms
proof (induction ts arbitrary: bucket)
  case (Cons t ts)
  have fresh: "passes limit w (Some \<lparr>rb_count = 1, rb_windowStartMs = t\<rparr>) ts = ts"
    using Cons.prems
    by (intro Cons.IH) (auto simp: bucket_ok_def split: option.splits)
  show ?case
  proof (cases bucket)
    case None
    then show ?thesis using fresh by (simp add: consume_one_simps)
  next
    case (Some b)
    show ?thesis
    proof (cases "w \<le> t - rb_windowStartMs b")
      case True
      then show ?thesis using fresh Some by (simp add: consume_one_simps)
    next
      case False
      then have "t - rb_windowStartMs b < w" "rb_count b < limit" using Cons.prems Some by auto
      then show ?thesis
        using Cons.IH [of "Some (b\<lparr>rb_count := rb_count b + 1\<rparr>)"] Cons.prems Some
        by (simp add: consume_one_simps bucket_ok_def)
    qed
  qed
qed simp

end
