(* ===== verification/PaymentStore.thy ===== *)
theory PaymentStore
  imports RateLimit
begin

text \<open>
  The part of the database the payment services share: the wallet store, the tables of withdrawals
  and deposits, the audit rows an administrator leaves (\<open>common/services/audit-log.service.ts\<close>,
  without their metadata), the approval modes of the deposit providers and, in the memory of the
  process, the copy of those modes and the buckets of the limiter. A call gets
  from its environment the time, the identifiers the database client chooses, and \<open>others\<close>: what
  other requests commit between its reads and its first write. The \<open>updatedAt\<close> columns are left out.

  Columns of type \<open>Decimal\<close> are exact (\<open>rat\<close>). \<open>new Prisma.Decimal(text)\<close> belongs to a library: it
  is the parameter \<open>decimal\<close>, \<open>None\<close> when the text is no number.
\<close>

section \<open>Data\<close>

datatype payment_provider = CBE | TELEBIRR | AWASH | BOA

fun provider_name :: "payment_provider \<Rightarrow> string" where
  "provider_name CBE = ''CBE''"
| "provider_name TELEBIRR = ''TELEBIRR''"
| "provider_name AWASH = ''AWASH''"
| "provider_name BOA = ''BOA''"

datatype withdraw_status = WD_PENDING | WD_APPROVED | WD_PAID | WD_REJECTED | WD_FAILED | WD_REFUNDED

datatype deposit_status = DP_PENDING | DP_APPROVED | DP_REJECTED

record withdrawal_row =
  wd_id :: string
  wd_userId :: string
  wd_provider :: payment_provider
  wd_amount :: rat
  wd_receiverPhone :: "string option"
  wd_receiverAccount :: "string option"
  wd_payoutRef :: "string option"
  wd_payoutTransactionUrl :: "string option"
  wd_status :: withdraw_status
  wd_adminNote :: "string option"
  wd_createdAt :: int
  wd_paidAt :: "int option"

record deposit_row =
  dp_id :: string
  dp_userId :: string
  dp_provider :: payment_provider
  dp_amount :: rat
  dp_transactionRef :: string
  dp_status :: deposit_status
  dp_receiptUrl :: "string option"
  dp_walletTransactionId :: "string option"
  dp_verifiedData :: js
  dp_rejectionReason :: "string option"
  dp_verifyEtRequestId :: "string option"
  dp_verifyEtRawResponse :: js
  dp_verifiedAmount :: "rat option"
  dp_verifiedReceiverName :: "string option"
  dp_createdAt :: int
  dp_verifiedAt :: "int option"

record audit_row =
  au_actorId :: "string option"
  au_action :: string
  au_entity :: string
  au_entityId :: "string option"

text \<open>The approval mode of a provider, and the copy of the table the process keeps for 30 seconds.\<close>

datatype approval_mode = AUTOMATIC | MANUAL | LOCAL

record approval_config =
  ac_provider :: payment_provider
  ac_enabled :: bool
  ac_approvalMode :: approval_mode
  ac_updatedById :: "string option"

record payment_db =
  pd_wallet :: wallet_db
  pd_configs :: "approval_config list"
  pd_cachedConfigs :: "approval_config list option"
  pd_cacheExpiresAt :: int
  pd_withdrawals :: "withdrawal_row list"
  pd_deposits :: "deposit_row list"
  pd_audit :: "audit_row list"
  pd_buckets :: buckets

type_synonym 'a payment = "(http_error + 'a) \<times> payment_db"

section \<open>Shared operations\<close>

definition create_audit :: "audit_row \<Rightarrow> payment_db \<Rightarrow> payment_db" where
  "create_audit row db = db\<lparr>pd_audit := pd_audit db @ [row]\<rparr>"

text \<open>A transaction that throws is rolled back to the state it started from.\<close>

definition in_transaction :: "payment_db \<Rightarrow> 'a payment \<Rightarrow> 'a payment" where
  "in_transaction db out = (case out of (Inl e, _) \<Rightarrow> (Inl e, db) | (Inr x, db') \<Rightarrow> (Inr x, db'))"

definition on_wallet :: "(wallet_db \<Rightarrow> 'a outcome) \<Rightarrow> payment_db \<Rightarrow> 'a payment" where
  "on_wallet f db = (let (r, w) = f (pd_wallet db) in (r, db\<lparr>pd_wallet := w\<rparr>))"

definition limit_payment :: "int \<Rightarrow> user_action \<Rightarrow> string \<Rightarrow> payment_db \<Rightarrow> unit payment" where
  "limit_payment now action userId db =
     (let (r, bs) = assertWithinLimit now (pd_buckets db) action userId None in (r, db\<lparr>pd_buckets := bs\<rparr>))"

text \<open>\<open>text?.trim() || null\<close>\<close>

definition trimmed :: "string option \<Rightarrow> string option" where
  "trimmed v = (case v of None \<Rightarrow> None | Some s \<Rightarrow> if js_trim s = [] then None else Some (js_trim s))"

section \<open>Amounts\<close>

text \<open>\<open>new Prisma.Decimal\<close> throws on a text that is no number.\<close>

definition parse_limited ::
  "(string \<Rightarrow> rat option) \<Rightarrow> rat \<Rightarrow> string \<Rightarrow> rat \<Rightarrow> string \<Rightarrow> string \<Rightarrow> http_error + rat" where
  "parse_limited decimal lowest lowMessage highest highMessage amount =
     (case decimal amount of
        None \<Rightarrow> Inl (Db_Error ''DecimalError'')
      | Some decimalAmount \<Rightarrow>
          (if decimalAmount \<le> 0 then Inl (Bad_Request ''Amount must be greater than zero'')
           else if decimalAmount < lowest then Inl (Bad_Request lowMessage)
           else if highest < decimalAmount then Inl (Bad_Request highMessage)
           else Inr decimalAmount))"

section \<open>The filters of the administrator's lists\<close>

text \<open>
  \<open>new Date(text)\<close> and \<open>setHours\<close> depend on the time zone of the host: \<open>dt_parse\<close> gives the time or
  \<open>None\<close> for an invalid date, \<open>dt_first\<close> and \<open>dt_last\<close> the first and the last millisecond of the
  day of a time. \<open>contains\<close> in the insensitive mode is an operation of the database.
\<close>

record dates =
  dt_parse :: "string \<Rightarrow> int option"
  dt_first :: "int \<Rightarrow> int"
  dt_last :: "int \<Rightarrow> int"

datatype date_boundary = Start_Boundary | End_Boundary

definition parseDateBoundary :: "dates \<Rightarrow> string \<Rightarrow> date_boundary \<Rightarrow> http_error + int" where
  "parseDateBoundary dates rawValue boundary =
     (case dt_parse dates rawValue of
        None \<Rightarrow> Inl (Bad_Request (case boundary of
            Start_Boundary \<Rightarrow> ''Invalid start date'' | End_Boundary \<Rightarrow> ''Invalid end date''))
      | Some parsedDate \<Rightarrow>
          Inr (if List.member rawValue (CHR ''T'') then parsedDate
               else case boundary of
                 Start_Boundary \<Rightarrow> dt_first dates parsedDate | End_Boundary \<Rightarrow> dt_last dates parsedDate))"

text \<open>\<open>from ? parse(from) : undefined\<close>; an empty text is falsy.\<close>

definition optional_boundary ::
  "dates \<Rightarrow> string option \<Rightarrow> date_boundary \<Rightarrow> http_error + int option" where
  "optional_boundary dates v boundary =
     (case v of
        None \<Rightarrow> Inr None
      | Some s \<Rightarrow> if s = [] then Inr None else map_sum id Some (parseDateBoundary dates s boundary))"

type_synonym date_range = "int option \<times> int option"

definition buildCreatedAtFilter ::
  "dates \<Rightarrow> string option \<Rightarrow> string option \<Rightarrow> http_error + date_range option" where
  "buildCreatedAtFilter dates from_date to_date =
     bind_result (optional_boundary dates from_date Start_Boundary) (\<lambda>gte.
     bind_result (optional_boundary dates to_date End_Boundary) (\<lambda>lte.
       if gte = None \<and> lte = None then Inr None
       else (case (gte, lte) of
          (Some g, Some l) \<Rightarrow>
            if l < g then Inl (Bad_Request ''from must be earlier than or equal to to'')
            else Inr (Some (gte, lte))
        | _ \<Rightarrow> Inr (Some (gte, lte)))))"

definition in_range :: "date_range option \<Rightarrow> int \<Rightarrow> bool" where
  "in_range period t \<longleftrightarrow>
     (case period of
        None \<Rightarrow> True
      | Some (gte, lte) \<Rightarrow>
          (case gte of None \<Rightarrow> True | Some g \<Rightarrow> g \<le> t) \<and> (case lte of None \<Rightarrow> True | Some l \<Rightarrow> t \<le> l))"

section \<open>Pages\<close>

text \<open>Rows ordered by \<open>createdAt\<close>, the latest first, and one page of them.\<close>

definition page_of :: "('a \<Rightarrow> int) \<Rightarrow> ('a \<Rightarrow> bool) \<Rightarrow> pagination_query \<Rightarrow> 'a list \<Rightarrow>
    'a list \<times> pagination_meta" where
  "page_of createdAt P query rows =
     (let (page, pageSize, skip, take_n) = getPaginationParams query;
          matching = filter P rows
      in (take (nat take_n) (drop (nat skip) (sort_by (\<lambda>x y. createdAt y - createdAt x) (rev matching))),
          buildPaginationMeta page pageSize (int (length matching))))"

end
