(* ===== verification/VerifyEt.thy ===== *)
theory VerifyEt
  imports PaymentStore
begin

text \<open>
  The client of the verification service: \<open>src/src/verify-et\<close>. The HTTP exchange is a parameter,
  what is modelled is everything the program does with the replies: the submission and the polling
  loop, the reading of a reply, the merge of the records of the first and the last reply, and the
  judgement of a deposit. \<open>Inl\<close> is an exception that leaves the client: a missing setting or a
  \<open>TypeError\<close> on a reply of an unexpected shape.

  A JSON number of a reply is an integer here; an amount with decimals arrives as text.
\<close>

section \<open>JSON values of a reply\<close>

definition js_nullish :: "js \<Rightarrow> bool" where
  "js_nullish v \<longleftrightarrow> v = Undefined \<or> v = Null"

text \<open>\<open>a ?? b\<close>\<close>

definition js_default :: "js \<Rightarrow> js \<Rightarrow> js" where
  "js_default a b = (if js_nullish a then b else a)"

fun js_truthy :: "js \<Rightarrow> bool" where
  "js_truthy Undefined = False"
| "js_truthy Null = False"
| "js_truthy (Bool b) = b"
| "js_truthy (Num k) = (k \<noteq> 0)"
| "js_truthy (Str s) = (s \<noteq> [])"
| "js_truthy _ = True"

text \<open>\<open>String(value)\<close>; the elements \<open>null\<close> and \<open>undefined\<close> of an array are empty.\<close>

fun js_string :: "js \<Rightarrow> string" where
  "js_string Undefined = ''undefined''"
| "js_string Null = ''null''"
| "js_string (Bool b) = (if b then ''true'' else ''false'')"
| "js_string (Num k) = show_int k"
| "js_string (Str s) = s"
| "js_string (Arr xs) = js_join (map (\<lambda>x. if js_nullish x then [] else js_string x) xs)"
| "js_string (Obj kvs) = ''[object Object]''"

definition js_fields :: "js \<Rightarrow> (string \<times> js) list" where
  "js_fields v = (case v of Obj kvs \<Rightarrow> kvs | _ \<Rightarrow> [])"

definition asObject :: "js \<Rightarrow> js" where
  "asObject v = (case v of Obj kvs \<Rightarrow> v | _ \<Rightarrow> Undefined)"

definition pickString :: "js \<Rightarrow> string option" where
  "pickString v = (case v of Str s \<Rightarrow> if js_trim s = [] then None else Some (js_trim s) | _ \<Rightarrow> None)"

definition first_some :: "'a option list \<Rightarrow> 'a option" where
  "first_some vs = (case filter (\<lambda>v. v \<noteq> None) vs of [] \<Rightarrow> None | v # _ \<Rightarrow> v)"

section \<open>Reading a reply\<close>

record normalized_reply =
  nr_requestId :: "string option"
  nr_processingStatus :: "string option"
  nr_verified :: "bool option"
  nr_record :: js

definition isVerificationRecord :: "js \<Rightarrow> bool" where
  "isVerificationRecord v \<longleftrightarrow>
     asObject v \<noteq> Undefined \<and>
     list_ex (\<lambda>k. js_prop v k \<noteq> Undefined)
       [''verified'', ''status'', ''amount'', ''settlementAccountMatch'', ''transactionNumber'', ''referenceNumber'']"

text \<open>A property of \<open>null\<close> or \<open>undefined\<close> is a \<open>TypeError\<close>.\<close>

definition normalizeVerifyEtResponse :: "js \<Rightarrow> string + normalized_reply" where
  "normalizeVerifyEtResponse body =
     (if js_nullish body then Inl ''TypeError'' else
      let verification = asObject (js_prop body ''verification'');
          data = js_prop body ''data'';
          arrayRecord = (case data of Arr (x # _) \<Rightarrow> x | _ \<Rightarrow> Undefined);
          objectRecord = (if isVerificationRecord data then data else Undefined);
          sources = [body, verification, objectRecord, arrayRecord]
      in Inr
        \<lparr>nr_requestId = pickString (js_prop body ''requestId''),
         nr_processingStatus =
           first_some (map (\<lambda>v. pickString (js_prop v ''processingStatus'')) [body, verification, objectRecord]),
         nr_verified =
           (if list_ex (\<lambda>v. js_prop v ''verified'' = Bool True) sources then Some True
            else if list_ex (\<lambda>v. js_prop v ''verified'' = Bool False) sources then Some False
            else None),
         nr_record = js_default arrayRecord objectRecord\<rparr>)"

definition mergeVerificationRecords :: "js \<Rightarrow> js \<Rightarrow> js" where
  "mergeVerificationRecords submitRecord finalRecord =
     (if \<not> js_truthy submitRecord \<and> \<not> js_truthy finalRecord then Undefined
      else if \<not> js_truthy submitRecord then finalRecord
      else if \<not> js_truthy finalRecord then submitRecord
      else
        let pick = (\<lambda>k. js_default (js_prop finalRecord k) (js_prop submitRecord k))
        in Obj
          ([(''amount'', pick ''amount''),
            (''settlementAccountMatch'', pick ''settlementAccountMatch''),
            (''receiverName'', pick ''receiverName''),
            (''verified'',
              if js_prop finalRecord ''verified'' = Bool False \<or> js_prop submitRecord ''verified'' = Bool False
              then Bool False else pick ''verified''),
            (''status'', pick ''status'')]
           @ js_fields finalRecord @ js_fields submitRecord))"

definition VERIFY_ET_COMPLETED_STATUS :: string where
  "VERIFY_ET_COMPLETED_STATUS = ''completed''"

definition VERIFY_ET_UNAVAILABLE_STATUSES :: "string list" where
  "VERIFY_ET_UNAVAILABLE_STATUSES = [''failed'', ''error'']"

definition isCompletedStatus :: "string option \<Rightarrow> bool" where
  "isCompletedStatus processingStatus \<longleftrightarrow>
     (case processingStatus of None \<Rightarrow> False | Some s \<Rightarrow> js_lower (js_trim s) = VERIFY_ET_COMPLETED_STATUS)"

definition isTerminal :: "normalized_reply \<Rightarrow> bool" where
  "isTerminal normalized \<longleftrightarrow>
     isCompletedStatus (nr_processingStatus normalized) \<or>
     List.member VERIFY_ET_UNAVAILABLE_STATUSES
       (case nr_processingStatus normalized of None \<Rightarrow> [] | Some s \<Rightarrow> js_lower (js_trim s))"

section \<open>The exchange\<close>

text \<open>
  \<open>ht_submit\<close> answers the submission of a body under an idempotency seed, \<open>ht_poll\<close> the poll of a
  request at an attempt: the status and the text of the reply, or no reply. \<open>ht_json\<close> is
  \<open>JSON.parse\<close>.
\<close>

type_synonym request_body = "(string \<times> string) list"

record http =
  ht_submit :: "request_body \<Rightarrow> string \<Rightarrow> (int \<times> string) option"
  ht_poll :: "string \<Rightarrow> nat \<Rightarrow> (int \<times> string) option"
  ht_json :: "string \<Rightarrow> js option"

record http_response =
  hr_httpStatus :: int
  hr_body :: js

text \<open>\<open>None\<close> when the exchange, the parser or the check of the status throws.\<close>

definition parseHttpResponse :: "http \<Rightarrow> (int \<times> string) option \<Rightarrow> http_response option" where
  "parseHttpResponse http reply =
     (case reply of
        None \<Rightarrow> None
      | Some (status, text) \<Rightarrow>
          (case (if text = [] then Some (Obj []) else ht_json http text) of
             None \<Rightarrow> None
           | Some body \<Rightarrow>
               (if 200 \<le> status \<and> status \<le> 299 \<or> status = 202
                then Some \<lparr>hr_httpStatus = status, hr_body = body\<rparr> else None)))"

fun pollForCompletion :: "http \<Rightarrow> string \<Rightarrow> nat \<Rightarrow> nat \<Rightarrow> http_response" where
  "pollForCompletion http requestId attempt 0 =
     \<lparr>hr_httpStatus = 504, hr_body = Obj [(''requestId'', Str requestId),
        (''processingStatus'', Str ''pending''), (''verified'', Bool False)]\<rparr>"
| "pollForCompletion http requestId attempt (Suc left) =
     (case parseHttpResponse http (ht_poll http requestId attempt) of
        None \<Rightarrow>
          \<lparr>hr_httpStatus = 500, hr_body = Obj [(''requestId'', Str requestId),
             (''processingStatus'', Str ''error''), (''verified'', Bool False)]\<rparr>
      | Some response \<Rightarrow>
          (case normalizeVerifyEtResponse (hr_body response) of
             Inl _ \<Rightarrow>
               \<lparr>hr_httpStatus = 500, hr_body = Obj [(''requestId'', Str requestId),
                  (''processingStatus'', Str ''error''), (''verified'', Bool False)]\<rparr>
           | Inr normalized \<Rightarrow>
               (if isTerminal normalized then response
                else pollForCompletion http requestId (Suc attempt) left)))"

type_synonym settings = "string \<Rightarrow> string option"

definition client_config :: "settings \<Rightarrow> string \<Rightarrow> string + string" where
  "client_config config key =
     (case config key of
        None \<Rightarrow> Inl (key @ '' is not configured'')
      | Some v \<Rightarrow> if v = [] then Inl (key @ '' is not configured'') else Inr v)"

text \<open>\<open>Number(text)\<close> as the bound of the loop: \<open>NaN\<close> and negative numbers give no attempt.\<close>

definition poll_attempts :: "string \<Rightarrow> nat" where
  "poll_attempts s = (case js_number (js_upper (js_trim s)) of None \<Rightarrow> 0 | Some k \<Rightarrow> nat k)"

record client_result =
  cr_requestId :: "string option"
  cr_processingStatus :: "string option"
  cr_verified :: bool
  cr_record :: js
  cr_rawResponse :: js
  cr_unavailable :: bool

definition optional_str :: "string option \<Rightarrow> js" where
  "optional_str v = (case v of None \<Rightarrow> Undefined | Some s \<Rightarrow> Str s)"

definition finish_exchange ::
  "request_body \<Rightarrow> http_response \<Rightarrow> normalized_reply \<Rightarrow> http_response \<Rightarrow> string + client_result" where
  "finish_exchange requestBody submitted submitNormalized final =
     bind_result (normalizeVerifyEtResponse (hr_body final)) (\<lambda>finalNormalized.
       let processingStatus =
             first_some [nr_processingStatus finalNormalized, nr_processingStatus submitNormalized];
           verified = nr_verified finalNormalized = Some True \<or> nr_verified submitNormalized = Some True;
           completed = isCompletedStatus processingStatus
       in Inr
         \<lparr>cr_requestId = nr_requestId submitNormalized, cr_processingStatus = processingStatus,
          cr_verified = (completed \<and> verified),
          cr_record = mergeVerificationRecords (nr_record submitNormalized) (nr_record finalNormalized),
          cr_rawResponse = Obj
            [(''requestId'', optional_str (nr_requestId submitNormalized)),
             (''request'', Obj (map (\<lambda>(k, v). (k, Str v)) requestBody)),
             (''submitResponse'', hr_body submitted),
             (''submitHttpStatus'', Num (hr_httpStatus submitted)),
             (''finalResponse'', hr_body final),
             (''finalHttpStatus'', Num (hr_httpStatus final))],
          cr_unavailable = (\<not> completed)\<rparr>)"

definition submitAndPoll :: "settings \<Rightarrow> http \<Rightarrow> request_body \<Rightarrow> string \<Rightarrow> string + client_result" where
  "submitAndPoll config http requestBody idempotencySeed =
     bind_result (client_config config ''VERIFY_ET_BASE_URL'') (\<lambda>baseUrl.
     bind_result (client_config config ''VERIFY_ET_WAIT_MS'') (\<lambda>waitMs.
     bind_result (client_config config ''VERIFY_ET_POLL_ATTEMPTS'') (\<lambda>attempts.
     bind_result (client_config config ''VERIFY_ET_POLL_INTERVAL_MS'') (\<lambda>pollIntervalMs.
     bind_result (client_config config ''VERIFY_ET_API_KEY'') (\<lambda>apiKey.
       case parseHttpResponse http (ht_submit http requestBody idempotencySeed) of
         None \<Rightarrow> Inr \<lparr>cr_requestId = None, cr_processingStatus = None, cr_verified = False,
           cr_record = Undefined, cr_rawResponse = Obj [(''error'', Str ''submit_failed'')],
           cr_unavailable = True\<rparr>
       | Some submitted \<Rightarrow>
           bind_result (normalizeVerifyEtResponse (hr_body submitted)) (\<lambda>submitNormalized.
             case nr_requestId submitNormalized of
               None \<Rightarrow> finish_exchange requestBody submitted submitNormalized submitted
             | Some requestId \<Rightarrow>
                 finish_exchange requestBody submitted submitNormalized
                   (if hr_httpStatus submitted = 202 \<or> \<not> isTerminal submitNormalized
                    then pollForCompletion http requestId 0 (poll_attempts attempts)
                    else submitted)))))))"

section \<open>The judgement of a deposit\<close>

datatype deposit_error =
    ALREADY_USED | UNDER_REVIEW | AMOUNT_MISMATCH | SETTLEMENT_MISMATCH | INVALID_RECEIPT
  | VERIFICATION_UNAVAILABLE

fun DEPOSIT_ERROR_MESSAGES :: "deposit_error \<Rightarrow> string" where
  "DEPOSIT_ERROR_MESSAGES ALREADY_USED = ''This receipt has already been used.''"
| "DEPOSIT_ERROR_MESSAGES UNDER_REVIEW =
     ''This receipt is already under review. Please wait for admin approval.''"
| "DEPOSIT_ERROR_MESSAGES INVALID_RECEIPT =
     ''Receipt could not be verified. Check the reference number.''"
| "DEPOSIT_ERROR_MESSAGES AMOUNT_MISMATCH =
     ''Amount does not match this receipt. Please enter the correct amount.''"
| "DEPOSIT_ERROR_MESSAGES SETTLEMENT_MISMATCH =
     ''This receipt was not paid to the configured settlement account.''"
| "DEPOSIT_ERROR_MESSAGES VERIFICATION_UNAVAILABLE =
     ''Payment verification is temporarily unavailable. Please try again.''"

record verify_result =
  vr_verified :: bool
  vr_amount :: "string option"
  vr_receiverName :: "string option"
  vr_settlementMatched :: bool
  vr_matchedSettlementAccount :: "string option"
  vr_rawResponse :: js
  vr_requestId :: "string option"
  vr_errorCode :: "deposit_error option"
  vr_reason :: "string option"

text \<open>\<open>value?.trim()\<close>: absent, the trimmed text, or a \<open>TypeError\<close> on any other value.\<close>

definition trim_field :: "js \<Rightarrow> string + string option" where
  "trim_field v =
     (if js_nullish v then Inr None
      else case v of Str s \<Rightarrow> Inr (Some (js_trim s)) | _ \<Rightarrow> Inl ''TypeError'')"

definition toOptionalString :: "js \<Rightarrow> string option" where
  "toOptionalString v = (if js_nullish v \<or> v = Str [] then None else Some (js_string v))"

definition submitAndEvaluate ::
  "(request_body \<Rightarrow> string \<Rightarrow> string + client_result) \<Rightarrow> payment_provider \<Rightarrow> string \<Rightarrow> request_body \<Rightarrow>
   string + verify_result" where
  "submitAndEvaluate client provider reference requestBody =
     bind_result (client requestBody (js_lower (provider_name provider) @ ''-'' @ reference)) (\<lambda>clientResult.
       let raw = cr_rawResponse clientResult; requestId = cr_requestId clientResult in
       if cr_unavailable clientResult then
         Inr \<lparr>vr_verified = False, vr_amount = None, vr_receiverName = None, vr_settlementMatched = False,
           vr_matchedSettlementAccount = None, vr_rawResponse = raw, vr_requestId = requestId,
           vr_errorCode = Some VERIFICATION_UNAVAILABLE,
           vr_reason = Some ''Payment verification is temporarily unavailable. Please try again.''\<rparr>
       else
         let rec = cr_record clientResult in
         bind_result (trim_field (js_prop rec ''status'')) (\<lambda>status.
         let recordStatus = map_option js_lower status;
             recordSuccess = (recordStatus = None \<or> recordStatus = Some ''success'' \<or> recordStatus = Some ''completed'');
             verified = (cr_verified clientResult \<and> js_truthy rec \<and>
               js_prop rec ''verified'' \<noteq> Bool False \<and> recordSuccess);
             settlementMatched = (js_prop (js_prop rec ''settlementAccountMatch'') ''matched'' = Bool True);
             amount = toOptionalString (js_prop rec ''amount'') in
         bind_result (trim_field (js_prop rec ''receiverName'')) (\<lambda>name.
         let receiverName = (if name = Some [] then None else name);
             result = \<lparr>vr_verified = True, vr_amount = amount, vr_receiverName = receiverName,
               vr_settlementMatched = settlementMatched, vr_matchedSettlementAccount = None,
               vr_rawResponse = raw, vr_requestId = requestId, vr_errorCode = None, vr_reason = None\<rparr> in
         if \<not> verified then
           Inr (result\<lparr>vr_verified := False, vr_errorCode := Some INVALID_RECEIPT,
             vr_reason := Some ''Receipt could not be verified. Check the reference number.''\<rparr>)
         else if \<not> settlementMatched then
           Inr (result\<lparr>vr_errorCode := Some SETTLEMENT_MISMATCH,
             vr_reason := Some ''This receipt was not paid to the configured settlement account.''\<rparr>)
         else bind_result (trim_field (js_prop rec ''currency'')) (\<lambda>currency.
           if currency \<noteq> None \<and> currency \<noteq> Some [] \<and> map_option js_upper currency \<noteq> Some ''ETB'' then
             Inr (result\<lparr>vr_verified := False, vr_errorCode := Some INVALID_RECEIPT,
               vr_reason := Some ''Deposit currency is not supported.''\<rparr>)
           else if amount = None then
             Inr (result\<lparr>vr_errorCode := Some INVALID_RECEIPT,
               vr_reason := Some ''Provider amount could not be confirmed.''\<rparr>)
           else Inr result))))"

section \<open>The request of a provider\<close>

definition digitsOnly :: "string \<Rightarrow> string" where
  "digitsOnly s = filter (\<lambda>c. 48 \<le> (of_char c :: nat) \<and> (of_char c :: nat) \<le> 57) s"

text \<open>\<open>text.slice(-k)\<close>\<close>

definition last_chars :: "nat \<Rightarrow> string \<Rightarrow> string" where
  "last_chars k s = drop (length s - k) s"

definition getRequiredConfig :: "settings \<Rightarrow> string \<Rightarrow> string + string" where
  "getRequiredConfig config key =
     (case config key of
        None \<Rightarrow> Inl (key @ '' is not configured'')
      | Some v \<Rightarrow> if js_trim v = [] then Inl (key @ '' is not configured'') else Inr (js_trim v))"

definition getTelebirrSettlementAccounts :: "settings \<Rightarrow> string + string list" where
  "getTelebirrSettlementAccounts config =
     bind_result (getRequiredConfig config ''TELEBIRR_SETTLEMENT_ACCOUNT'') (\<lambda>primary.
       Inr (case trimmed (config ''TELEBIRR_SETTLEMENT_ACCOUNT_2'') of
          None \<Rightarrow> [primary] | Some secondary \<Rightarrow> [primary, secondary]))"

definition getBoaAccountSuffix :: "settings \<Rightarrow> string + string" where
  "getBoaAccountSuffix config =
     (let explicitDigits = digitsOnly (or_else (config ''BOA_ACCOUNT_SUFFIX'') []) in
      if 5 \<le> length explicitDigits then Inr (last_chars 5 explicitDigits)
      else bind_result (getRequiredConfig config ''BOA_SETTLEMENT_ACCOUNT'') (\<lambda>account.
        let derivedSuffix = last_chars 5 (digitsOnly account) in
        if length derivedSuffix = 5 then Inr derivedSuffix
        else Inl (''BOA_ACCOUNT_SUFFIX must resolve to 5 digits for Verify.ET '' @
          ''(set it explicitly or use a BOA_SETTLEMENT_ACCOUNT with at least 5 digits)'')))"

definition getCbeAccountSuffix :: "settings \<Rightarrow> string + string" where
  "getCbeAccountSuffix config =
     (let explicit = (case config ''CBE_ACCOUNT_SUFFIX'' of
            None \<Rightarrow> config ''CBE_ACCOUNT_LAST8'' | Some v \<Rightarrow> Some v);
          explicitDigits = digitsOnly (or_else explicit []) in
      if 8 \<le> length explicitDigits then Inr (last_chars 8 explicitDigits)
      else bind_result (getRequiredConfig config ''CBE_SETTLEMENT_ACCOUNT'') (\<lambda>account.
        let derivedSuffix = last_chars 8 (digitsOnly account) in
        if length derivedSuffix = 8 then Inr derivedSuffix
        else Inl ''CBE_ACCOUNT_SUFFIX must be configured as 8 digits for Verify.ET''))"

definition buildRequestBody :: "settings \<Rightarrow> payment_provider \<Rightarrow> string \<Rightarrow> string + request_body" where
  "buildRequestBody config provider reference =
     (case provider of
        TELEBIRR \<Rightarrow>
          bind_result (getRequiredConfig config ''TELEBIRR_SETTLEMENT_ACCOUNT'') (\<lambda>account.
            Inr [(''bank'', ''telebirr''), (''transactionNumber'', reference), (''settlementAccount'', account)])
      | CBE \<Rightarrow>
          bind_result (getCbeAccountSuffix config) (\<lambda>accountSuffix.
          bind_result (getRequiredConfig config ''CBE_SETTLEMENT_ACCOUNT'') (\<lambda>account.
            Inr [(''bank'', ''cbe''), (''referenceNumber'', reference), (''settlementAccount'', account),
                 (''accountSuffix'', accountSuffix), (''suffix'', accountSuffix)]))
      | AWASH \<Rightarrow>
          bind_result (getRequiredConfig config ''AWASH_SETTLEMENT_ACCOUNT'') (\<lambda>account.
            Inr [(''bank'', ''awash''), (''referenceNumber'', reference), (''settlementAccount'', account)])
      | BOA \<Rightarrow>
          bind_result (getBoaAccountSuffix config) (\<lambda>accountSuffix.
          bind_result (getRequiredConfig config ''BOA_SETTLEMENT_ACCOUNT'') (\<lambda>account.
            Inr [(''bank'', ''boa''), (''referenceNumber'', reference), (''settlementAccount'', account),
                 (''accountSuffix'', accountSuffix)])))"

text \<open>The accounts of Telebirr are tried in turn while the receipt is good but paid to another one.\<close>

fun verify_accounts ::
  "(request_body \<Rightarrow> string \<Rightarrow> string + client_result) \<Rightarrow> string \<Rightarrow> string list \<Rightarrow> verify_result option \<Rightarrow>
   string + verify_result" where
  "verify_accounts client reference [] lastResult =
     Inr (case lastResult of
        Some r \<Rightarrow> r
      | None \<Rightarrow> \<lparr>vr_verified = False, vr_amount = None, vr_receiverName = None, vr_settlementMatched = False,
          vr_matchedSettlementAccount = None, vr_rawResponse = Obj [], vr_requestId = None,
          vr_errorCode = Some INVALID_RECEIPT,
          vr_reason = Some ''Receipt could not be verified. Check the reference number.''\<rparr>)"
| "verify_accounts client reference (account # accounts) lastResult =
     bind_result (submitAndEvaluate client TELEBIRR reference
         [(''bank'', ''telebirr''), (''transactionNumber'', reference), (''settlementAccount'', account)])
       (\<lambda>result.
         if vr_verified result \<and> vr_settlementMatched result
         then Inr (result\<lparr>vr_matchedSettlementAccount := Some account\<rparr>)
         else if \<not> vr_verified result then Inr result
         else if \<not> vr_settlementMatched result \<and> accounts \<noteq> []
         then verify_accounts client reference accounts (Some result)
         else Inr result)"

definition verifyDeposit ::
  "settings \<Rightarrow> (request_body \<Rightarrow> string \<Rightarrow> string + client_result) \<Rightarrow> payment_provider \<Rightarrow> string \<Rightarrow>
   string + verify_result" where
  "verifyDeposit config client provider reference =
     (if provider = TELEBIRR then
        bind_result (getTelebirrSettlementAccounts config) (\<lambda>accounts.
          verify_accounts client reference accounts None)
      else
        bind_result (buildRequestBody config provider reference) (\<lambda>requestBody.
          submitAndEvaluate client provider reference requestBody))"

end
