(* ===== verification/Receipts.thy ===== *)
theory Receipts
  imports VerifyEt
begin

text \<open>
  What a player hands in with a deposit: the transaction reference
  (\<open>src/src/deposits/deposit-transaction-reference.ts\<close>) and the Telebirr receipt his phone has read
  (\<open>src/src/deposit-approval-config/telebirr-local-receipt.validator.ts\<close>). The URL parser of the
  host is a parameter.
\<close>

section \<open>Transaction references\<close>

record url =
  ur_protocol :: string
  ur_origin :: string
  ur_pathname :: string
  ur_param :: "string \<Rightarrow> string option"

text \<open>\<open>new URL\<close> and \<open>decodeURIComponent\<close>; \<open>None\<close> when they throw.\<close>

record url_reader =
  ur_parse :: "string \<Rightarrow> url option"
  ur_decode :: "string \<Rightarrow> string option"

definition reference_char :: "char \<Rightarrow> bool" where
  "reference_char c \<longleftrightarrow> (let k = of_char c :: nat in
     48 \<le> k \<and> k \<le> 57 \<or> 65 \<le> k \<and> k \<le> 90 \<or> 97 \<le> k \<and> k \<le> 122 \<or> k = 45)"

definition REFERENCE_PATTERN :: "string \<Rightarrow> bool" where
  "REFERENCE_PATTERN s \<longleftrightarrow> 6 \<le> length s \<and> length s \<le> 120 \<and> list_all reference_char s"

definition isUrlInput :: "url_reader \<Rightarrow> string \<Rightarrow> bool" where
  "isUrlInput urls v \<longleftrightarrow>
     (case ur_parse urls v of
        None \<Rightarrow> False
      | Some url \<Rightarrow> ur_protocol url = ''https:'' \<or> ur_protocol url = ''http:'')"

text \<open>\<open>text.split('/')\<close>\<close>

fun split_slash :: "string \<Rightarrow> string list" where
  "split_slash [] = [[]]"
| "split_slash (c # cs) =
     (if c = CHR ''/'' then [] # split_slash cs
      else (case split_slash cs of [] \<Rightarrow> [[c]] | s # ss \<Rightarrow> (c # s) # ss))"

fun map_option_list :: "('a \<Rightarrow> 'b option) \<Rightarrow> 'a list \<Rightarrow> 'b list option" where
  "map_option_list f [] = Some []"
| "map_option_list f (x # xs) =
     (case f x of
        None \<Rightarrow> None
      | Some y \<Rightarrow> map_option (\<lambda>ys. y # ys) (map_option_list f xs))"

definition pathSegments :: "url_reader \<Rightarrow> url \<Rightarrow> string list option" where
  "pathSegments urls url =
     map_option_list (ur_decode urls) (filter (\<lambda>s. s \<noteq> []) (split_slash (ur_pathname url)))"

fun startsWithSegments :: "string list \<Rightarrow> string list \<Rightarrow> bool" where
  "startsWithSegments v [] = True"
| "startsWithSegments [] (p # ps) = False"
| "startsWithSegments (v # vs) (p # ps) = (js_lower v = js_lower p \<and> startsWithSegments vs ps)"

definition extractCbeReferenceFromOfficialUrl :: "url_reader \<Rightarrow> string \<Rightarrow> string \<Rightarrow> string option" where
  "extractCbeReferenceFromOfficialUrl urls v receiptBaseUrl =
     (case (ur_parse urls v, ur_parse urls receiptBaseUrl) of
        (Some url, Some baseUrl) \<Rightarrow>
          (if js_lower (ur_origin url) \<noteq> js_lower (ur_origin baseUrl) then None
           else
             (case first_some (map (\<lambda>key. trimmed (ur_param url key)) [''id'', ''token'', ''reference'', ''ref'']) of
                Some queryValue \<Rightarrow> Some queryValue
              | None \<Rightarrow>
                  (case (pathSegments urls baseUrl, pathSegments urls url) of
                     (Some baseSegments, Some candidateSegments) \<Rightarrow>
                       (if \<not> startsWithSegments candidateSegments baseSegments then None
                        else if length baseSegments < length candidateSegments
                        then Some (js_trim (candidateSegments ! length baseSegments))
                        else None)
                   | _ \<Rightarrow> None)))
      | _ \<Rightarrow> None)"

definition canonicalizeDepositTransactionRef ::
  "url_reader \<Rightarrow> payment_provider \<Rightarrow> approval_mode \<Rightarrow> string \<Rightarrow> string \<Rightarrow> string option" where
  "canonicalizeDepositTransactionRef urls provider approvalMode transactionRef cbeReceiptBaseUrl =
     (let text = js_trim transactionRef in
      if text = [] then None
      else if provider = CBE \<and> approvalMode = MANUAL then
        (case (if isUrlInput urls text then extractCbeReferenceFromOfficialUrl urls text cbeReceiptBaseUrl
               else Some text) of
           None \<Rightarrow> None
         | Some reference \<Rightarrow>
             (if reference = [] \<or> \<not> REFERENCE_PATTERN reference then None
              else if take 2 (js_upper reference) = ''FT'' then Some (js_upper reference)
              else Some reference))
      else
        (let normalized = js_upper text in
         if REFERENCE_PATTERN normalized then Some normalized else None))"

section \<open>Receipts read by the phone\<close>

record client_receipt =
  re_invoiceNumber :: string
  re_transactionStatus :: string
  re_settledAmount :: string
  re_creditedPartyName :: string
  re_creditedPartyAccountNo :: string

datatype parse_status = PARSED | UNAVAILABLE

record telebirr_account =
  ta_settlementAccount :: string
  ta_receiverName :: string
  ta_receiverPhoneLast4 :: string

definition normalizeCode :: "string \<Rightarrow> string" where
  "normalizeCode v = js_upper (js_trim v)"

text \<open>\<open>replace\<close> of every run of spaces by one blank\<close>

function squeeze :: "string \<Rightarrow> string" where
  "squeeze [] = []"
| "squeeze (c # cs) =
     (if js_space c then CHR '' '' # squeeze (dropWhile js_space cs) else c # squeeze cs)"
  by pat_completeness auto
termination
  by (relation "measure length") (simp_all add: less_Suc_eq_le length_dropWhile_le)

definition normalizeText :: "string \<Rightarrow> string" where
  "normalizeText v = js_lower (squeeze (js_trim v))"

text \<open>\<open>hay.includes(needle)\<close> and \<open>text.endsWith(end)\<close>\<close>

fun js_includes :: "string \<Rightarrow> string \<Rightarrow> bool" where
  "js_includes [] needle = (needle = [])"
| "js_includes (c # cs) needle = (take (length needle) (c # cs) = needle \<or> js_includes cs needle)"

definition js_ends_with :: "string \<Rightarrow> string \<Rightarrow> bool" where
  "js_ends_with s tail \<longleftrightarrow> length tail \<le> length s \<and> drop (length s - length tail) s = tail"

definition resolveConfiguredLast4 :: "telebirr_account \<Rightarrow> string option" where
  "resolveConfiguredLast4 account =
     first_some (map (\<lambda>candidate.
        let digits = digitsOnly candidate in if 4 \<le> length digits then Some (last_chars 4 digits) else None)
      [ta_receiverPhoneLast4 account, ta_settlementAccount account])"

definition accountReceiverMatches :: "telebirr_account \<Rightarrow> string \<Rightarrow> string \<Rightarrow> bool" where
  "accountReceiverMatches account receiverName receiverAccount =
     (case resolveConfiguredLast4 account of
        Some configuredLast4 \<Rightarrow>
          (let receiverLast4 = digitsOnly receiverAccount
           in 4 \<le> length receiverLast4 \<and> js_ends_with receiverLast4 configuredLast4)
      | None \<Rightarrow>
          (let configuredName = normalizeText (ta_receiverName account)
           in configuredName \<noteq> [] \<and> normalizeText receiverName = configuredName))"

definition receiverMatches :: "telebirr_account list \<Rightarrow> string \<Rightarrow> string \<Rightarrow> bool" where
  "receiverMatches accounts receiverName receiverAccount =
     list_ex (\<lambda>account. accountReceiverMatches account receiverName receiverAccount) accounts"

record local_validation =
  lv_verifiedAmount :: rat
  lv_verifiedReceiverName :: string
  lv_clientReceipt :: client_receipt

definition validateTelebirrLocalReceipt ::
  "(string \<Rightarrow> rat option) \<Rightarrow> string \<Rightarrow> rat \<Rightarrow> parse_status option \<Rightarrow> client_receipt option \<Rightarrow>
   telebirr_account list \<Rightarrow> deposit_error + local_validation" where
  "validateTelebirrLocalReceipt decimal transactionRef amount receiptParseStatus receipt accounts =
     (case receipt of
        None \<Rightarrow> Inl VERIFICATION_UNAVAILABLE
      | Some clientReceipt \<Rightarrow>
          (if receiptParseStatus \<noteq> Some PARSED then Inl VERIFICATION_UNAVAILABLE
           else if normalizeText (re_transactionStatus clientReceipt) \<noteq> ''completed'' then Inl INVALID_RECEIPT
           else if \<not> js_includes (normalizeCode (re_invoiceNumber clientReceipt)) (normalizeCode transactionRef)
           then Inl INVALID_RECEIPT
           else
             (case decimal (re_settledAmount clientReceipt) of
                None \<Rightarrow> Inl INVALID_RECEIPT
              | Some settledAmount \<Rightarrow>
                  (if settledAmount \<noteq> amount then Inl AMOUNT_MISMATCH
                   else if \<not> receiverMatches accounts (re_creditedPartyName clientReceipt)
                               (re_creditedPartyAccountNo clientReceipt)
                   then Inl SETTLEMENT_MISMATCH
                   else Inr \<lparr>lv_verifiedAmount = settledAmount,
                          lv_verifiedReceiverName = js_trim (re_creditedPartyName clientReceipt),
                          lv_clientReceipt = clientReceipt\<rparr>))))"

text \<open>The variant that throws.\<close>

definition assertTelebirrLocalReceipt ::
  "(string \<Rightarrow> rat option) \<Rightarrow> string \<Rightarrow> rat \<Rightarrow> parse_status option \<Rightarrow> client_receipt option \<Rightarrow>
   telebirr_account list \<Rightarrow> http_error + local_validation" where
  "assertTelebirrLocalReceipt decimal transactionRef amount receiptParseStatus receipt accounts =
     (case validateTelebirrLocalReceipt decimal transactionRef amount receiptParseStatus receipt accounts of
        Inl code \<Rightarrow> Inl (Coded_Request (DEPOSIT_ERROR_MESSAGES code) (case code of
            ALREADY_USED \<Rightarrow> ''ALREADY_USED'' | UNDER_REVIEW \<Rightarrow> ''UNDER_REVIEW''
          | AMOUNT_MISMATCH \<Rightarrow> ''AMOUNT_MISMATCH'' | SETTLEMENT_MISMATCH \<Rightarrow> ''SETTLEMENT_MISMATCH''
          | INVALID_RECEIPT \<Rightarrow> ''INVALID_RECEIPT'' | VERIFICATION_UNAVAILABLE \<Rightarrow> ''VERIFICATION_UNAVAILABLE''))
      | Inr result \<Rightarrow> Inr result)"

section \<open>The accounts of Telebirr\<close>

definition getTelebirrAccounts :: "settings \<Rightarrow> telebirr_account list" where
  "getTelebirrAccounts config =
     (let primaryPhone = or_else (config ''TELEBIRR_RECEIVER_PHONE'') [];
          primary =
            \<lparr>ta_settlementAccount = or_else (config ''TELEBIRR_SETTLEMENT_ACCOUNT'') primaryPhone,
             ta_receiverName = or_else (config ''TELEBIRR_RECEIVER_NAME'') [],
             ta_receiverPhoneLast4 =
               or_else (config ''TELEBIRR_RECEIVER_PHONE_LAST4'') (last_chars 4 (digitsOnly primaryPhone))\<rparr>
      in (case trimmed (config ''TELEBIRR_SETTLEMENT_ACCOUNT_2'') of
            None \<Rightarrow> [primary]
          | Some secondarySettlement \<Rightarrow>
              let secondaryPhone = or_else (config ''TELEBIRR_RECEIVER_PHONE_2'') secondarySettlement
              in [primary,
                  \<lparr>ta_settlementAccount = secondarySettlement,
                   ta_receiverName = or_else (config ''TELEBIRR_RECEIVER_NAME_2'') [],
                   ta_receiverPhoneLast4 =
                     or_else (config ''TELEBIRR_RECEIVER_PHONE_LAST4_2'')
                       (last_chars 4 (digitsOnly secondaryPhone))\<rparr>]))"

end
