(* ===== verification/DepositConfig.thy ===== *)
theory DepositConfig
  imports PaymentStore
begin

text \<open>
  The approval mode of each deposit provider:
  \<open>src/src/deposit-approval-config/deposit-approval-config.service.ts\<close>. The process keeps a copy of
  the table for 30 seconds; an update drops it. The columns \<open>updatedAt\<close> are left out.
\<close>

definition CACHE_TTL_MS :: int where
  "CACHE_TTL_MS = 30000"

definition ALL_DEPOSIT_PROVIDERS :: "payment_provider list" where
  "ALL_DEPOSIT_PROVIDERS = [TELEBIRR, CBE, AWASH, BOA]"

definition TELEBIRR_APPROVAL_MODES :: "approval_mode list" where
  "TELEBIRR_APPROVAL_MODES = [AUTOMATIC, MANUAL, LOCAL]"

definition STANDARD_APPROVAL_MODES :: "approval_mode list" where
  "STANDARD_APPROVAL_MODES = [AUTOMATIC, MANUAL]"

fun mode_name :: "approval_mode \<Rightarrow> string" where
  "mode_name AUTOMATIC = ''AUTOMATIC''"
| "mode_name MANUAL = ''MANUAL''"
| "mode_name LOCAL = ''LOCAL''"

definition default_config :: "payment_provider \<Rightarrow> approval_config" where
  "default_config provider =
     \<lparr>ac_provider = provider, ac_enabled = True, ac_approvalMode = AUTOMATIC, ac_updatedById = None\<rparr>"

definition stored_configs :: "payment_db \<Rightarrow> approval_config list" where
  "stored_configs db =
     map (\<lambda>provider. case find (\<lambda>row. ac_provider row = provider) (pd_configs db) of
         None \<Rightarrow> default_config provider | Some row \<Rightarrow> row) ALL_DEPOSIT_PROVIDERS"

definition getAllConfigs :: "int \<Rightarrow> payment_db \<Rightarrow> approval_config list \<times> payment_db" where
  "getAllConfigs now db =
     (case pd_cachedConfigs db of
        Some configs \<Rightarrow>
          (if now < pd_cacheExpiresAt db then (configs, db)
           else (stored_configs db,
                 db\<lparr>pd_cachedConfigs := Some (stored_configs db), pd_cacheExpiresAt := now + CACHE_TTL_MS\<rparr>))
      | None \<Rightarrow>
          (stored_configs db,
           db\<lparr>pd_cachedConfigs := Some (stored_configs db), pd_cacheExpiresAt := now + CACHE_TTL_MS\<rparr>))"

definition getProviderConfig :: "int \<Rightarrow> payment_db \<Rightarrow> payment_provider \<Rightarrow> approval_config \<times> payment_db" where
  "getProviderConfig now db provider =
     (let (configs, db') = getAllConfigs now db
      in (case find (\<lambda>entry. ac_provider entry = provider) configs of
            None \<Rightarrow> (default_config provider, db')
          | Some config \<Rightarrow> (config, db')))"

definition getMode :: "int \<Rightarrow> payment_provider \<Rightarrow> payment_db \<Rightarrow> approval_mode payment" where
  "getMode now provider db =
     (let (config, db') = getProviderConfig now db provider
      in (if \<not> ac_enabled config
          then (Inl (Bad_Request (provider_name provider @ '' deposits are currently unavailable.'')), db')
          else (Inr (ac_approvalMode config), db')))"

definition isProviderEnabled :: "int \<Rightarrow> payment_provider \<Rightarrow> payment_db \<Rightarrow> bool \<times> payment_db" where
  "isProviderEnabled now provider db =
     (let (config, db') = getProviderConfig now db provider in (ac_enabled config, db'))"

definition getAllowedModes :: "payment_provider \<Rightarrow> approval_mode list" where
  "getAllowedModes provider = (if provider = TELEBIRR then TELEBIRR_APPROVAL_MODES else STANDARD_APPROVAL_MODES)"

definition assertModeAllowed :: "payment_provider \<Rightarrow> approval_mode \<Rightarrow> http_error + unit" where
  "assertModeAllowed provider approvalMode =
     (if \<not> List.member (getAllowedModes provider) approvalMode
      then Inl (Bad_Request (mode_name approvalMode @ '' is not allowed for '' @ provider_name provider @ ''.''))
      else Inr ())"

record config_entry =
  ce_provider :: payment_provider
  ce_enabled :: bool
  ce_approvalMode :: approval_mode

definition upsert_config :: "string \<Rightarrow> config_entry \<Rightarrow> approval_config list \<Rightarrow> approval_config list" where
  "upsert_config actorId entry rows =
     (if list_ex (\<lambda>row. ac_provider row = ce_provider entry) rows
      then update_where (\<lambda>row. ac_provider row = ce_provider entry)
        (\<lambda>row. row\<lparr>ac_enabled := ce_enabled entry, ac_approvalMode := ce_approvalMode entry,
                   ac_updatedById := Some actorId\<rparr>) rows
      else rows @ [\<lparr>ac_provider = ce_provider entry, ac_enabled = ce_enabled entry,
                    ac_approvalMode = ce_approvalMode entry, ac_updatedById = Some actorId\<rparr>])"

fun update_entries :: "string \<Rightarrow> config_entry list \<Rightarrow> payment_db \<Rightarrow> unit payment" where
  "update_entries actorId [] db = (Inr (), db)"
| "update_entries actorId (entry # entries) db =
     (case assertModeAllowed (ce_provider entry) (ce_approvalMode entry) of
        Inl e \<Rightarrow> (Inl e, db)
      | Inr _ \<Rightarrow>
          update_entries actorId entries (db\<lparr>pd_configs := upsert_config actorId entry (pd_configs db)\<rparr>))"

definition invalidateCache :: "payment_db \<Rightarrow> payment_db" where
  "invalidateCache db = db\<lparr>pd_cachedConfigs := None, pd_cacheExpiresAt := 0\<rparr>"

text \<open>The answer lists the stored configurations with the modes each provider allows.\<close>

definition getAdminConfig :: "int \<Rightarrow> payment_db \<Rightarrow> (approval_config \<times> approval_mode list) list \<times> payment_db" where
  "getAdminConfig now db =
     (let (configs, db') = getAllConfigs now db
      in (map (\<lambda>config. (config, getAllowedModes (ac_provider config))) configs, db'))"

definition getPlayerProviderConfigs ::
  "int \<Rightarrow> payment_db \<Rightarrow> (payment_provider \<times> bool \<times> approval_mode) list \<times> payment_db" where
  "getPlayerProviderConfigs now db =
     (let (configs, db') = getAllConfigs now db
      in (map (\<lambda>config. (ac_provider config, ac_enabled config, ac_approvalMode config)) configs, db'))"

definition updateConfig ::
  "int \<Rightarrow> config_entry list \<Rightarrow> string \<Rightarrow> payment_db \<Rightarrow> (approval_config \<times> approval_mode list) list payment" where
  "updateConfig now providers actorId db =
     (if providers = [] then (Inl (Bad_Request ''At least one provider config is required.''), db)
      else
        (case in_transaction db
            (case update_entries actorId providers db of
               (Inl e, db') \<Rightarrow> (Inl e, db')
             | (Inr _, db') \<Rightarrow>
                 (Inr (), create_audit \<lparr>au_actorId = Some actorId, au_action = ''admin.deposit_config.update'',
                    au_entity = ''DepositApprovalConfig'', au_entityId = Some ''providers''\<rparr> db')) of
           (Inl e, db') \<Rightarrow> (Inl e, db')
         | (Inr _, db') \<Rightarrow>
             (let (answer, db'') = getAdminConfig now (invalidateCache db') in (Inr answer, db''))))"

section \<open>The copy in memory\<close>

text \<open>
  As long as this process is the only one that changes the table, the copy never differs from it:
  a deposit is judged by the mode the administrator set last.
\<close>

definition cache_ok :: "payment_db \<Rightarrow> bool" where
  "cache_ok db \<longleftrightarrow> (case pd_cachedConfigs db of None \<Rightarrow> True | Some configs \<Rightarrow> configs = stored_configs db)"

lemma stored_configs_cong [simp]:
  "stored_configs (db\<lparr>pd_cachedConfigs := c\<rparr>) = stored_configs db"
  "stored_configs (db\<lparr>pd_cacheExpiresAt := t\<rparr>) = stored_configs db"
  "stored_configs (create_audit a db) = stored_configs db"
  by (simp_all add: stored_configs_def create_audit_def)

definition read_configs :: "int \<Rightarrow> payment_db \<Rightarrow> payment_db" where
  "read_configs now db =
     db\<lparr>pd_cachedConfigs := Some (stored_configs db), pd_cacheExpiresAt := now + CACHE_TTL_MS\<rparr>"

lemma getAllConfigs_cases:
  obtains (kept) cs where "pd_cachedConfigs db = Some cs" "getAllConfigs now db = (cs, db)"
    | (read) "getAllConfigs now db = (stored_configs db, read_configs now db)"
proof (cases "pd_cachedConfigs db")
  case None
  then show ?thesis using that(2) by (simp add: getAllConfigs_def read_configs_def)
next
  case (Some cs)
  then show ?thesis
    using that by (cases "now < pd_cacheExpiresAt db") (simp_all add: getAllConfigs_def read_configs_def)
qed

lemma read_configs_sel [simp]:
  "pd_wallet (read_configs now db) = pd_wallet db" "pd_withdrawals (read_configs now db) = pd_withdrawals db"
  "pd_deposits (read_configs now db) = pd_deposits db" "pd_configs (read_configs now db) = pd_configs db"
  "pd_cachedConfigs (read_configs now db) = Some (stored_configs db)"
  "stored_configs (read_configs now db) = stored_configs db"
  by (simp_all add: read_configs_def)

lemma getAllConfigs_current:
  assumes "cache_ok db"
  shows "fst (getAllConfigs now db) = stored_configs db" "cache_ok (snd (getAllConfigs now db))"
    "stored_configs (snd (getAllConfigs now db)) = stored_configs db"
proof -
  have "fst (getAllConfigs now db) = stored_configs db \<and> cache_ok (snd (getAllConfigs now db)) \<and>
    stored_configs (snd (getAllConfigs now db)) = stored_configs db"
    by (cases rule: getAllConfigs_cases [of db now]) (use assms in \<open>auto simp: cache_ok_def\<close>)
  then show "fst (getAllConfigs now db) = stored_configs db" "cache_ok (snd (getAllConfigs now db))"
    "stored_configs (snd (getAllConfigs now db)) = stored_configs db" by simp_all
qed

lemma getAllConfigs_frame:
  "pd_wallet (snd (getAllConfigs now db)) = pd_wallet db"
  "pd_withdrawals (snd (getAllConfigs now db)) = pd_withdrawals db"
  "pd_deposits (snd (getAllConfigs now db)) = pd_deposits db"
  "pd_configs (snd (getAllConfigs now db)) = pd_configs db"
  by (cases rule: getAllConfigs_cases [of db now]; simp)+

definition stored_config :: "payment_db \<Rightarrow> payment_provider \<Rightarrow> approval_config" where
  "stored_config db provider =
     (case find (\<lambda>row. ac_provider row = provider) (pd_configs db) of
        None \<Rightarrow> default_config provider | Some row \<Rightarrow> row)"

lemma stored_config_provider: "ac_provider (stored_config db provider) = provider"
  by (auto simp: stored_config_def default_config_def dest: find_in split: option.splits)

lemma stored_config_of:
  "find (\<lambda>entry. ac_provider entry = provider) (stored_configs db) = Some (stored_config db provider)"
proof -
  have "stored_configs db = map (stored_config db) ALL_DEPOSIT_PROVIDERS"
    by (simp add: stored_configs_def stored_config_def)
  then show ?thesis
    by (cases provider) (simp_all add: ALL_DEPOSIT_PROVIDERS_def stored_config_provider)
qed

text \<open>With a sound copy the mode of a provider is the stored one.\<close>

lemma getMode_current:
  assumes "cache_ok db"
  shows "fst (getMode now provider db) =
      (if ac_enabled (stored_config db provider) then Inr (ac_approvalMode (stored_config db provider))
       else Inl (Bad_Request (provider_name provider @ '' deposits are currently unavailable.'')))"
    and "cache_ok (snd (getMode now provider db))"
    and "stored_configs (snd (getMode now provider db)) = stored_configs db"
  using getAllConfigs_current [OF assms, of now]
  by (auto simp: getMode_def getProviderConfig_def stored_config_of Let_def split: prod.splits)

lemma getMode_frame:
  "pd_wallet (snd (getMode now provider db)) = pd_wallet db"
  "pd_withdrawals (snd (getMode now provider db)) = pd_withdrawals db"
  "pd_deposits (snd (getMode now provider db)) = pd_deposits db"
  "pd_configs (snd (getMode now provider db)) = pd_configs db"
  using getAllConfigs_frame [of now db]
  by (auto simp: getMode_def getProviderConfig_def Let_def split: prod.splits option.splits)

text \<open>An update stores every entry, the last one of a provider winning, or changes nothing.\<close>

lemma upsert_stored:
  "stored_config (db\<lparr>pd_configs := upsert_config actorId entry (pd_configs db)\<rparr>) provider =
   (if provider = ce_provider entry
    then \<lparr>ac_provider = provider, ac_enabled = ce_enabled entry, ac_approvalMode = ce_approvalMode entry,
          ac_updatedById = Some actorId\<rparr>
    else stored_config db provider)"
proof -
  let ?P = "\<lambda>p row. ac_provider row = p"
  let ?f = "\<lambda>row. row\<lparr>ac_enabled := ce_enabled entry, ac_approvalMode := ce_approvalMode entry,
      ac_updatedById := Some actorId\<rparr>"
  have upd: "find (?P p) (update_where (?P q) ?f rows) =
      map_option (\<lambda>row. if p = q then ?f row else row) (find (?P p) rows)" for p q rows
    by (induction rows) (auto simp: update_where_def)
  have app: "find (?P p) (rows @ [row]) =
      (case find (?P p) rows of None \<Rightarrow> if ac_provider row = p then Some row else None | Some r \<Rightarrow> Some r)" for p rows row
    by (induction rows) auto
  have ex: "list_ex (?P p) rows \<longleftrightarrow> find (?P p) rows \<noteq> None" for p rows
    by (induction rows) auto
  show ?thesis
    by (auto simp: stored_config_def upsert_config_def upd app ex dest: find_in split: option.splits)
qed

lemma update_entries_done:
  "update_entries actorId entries db = (Inr r, db') \<Longrightarrow>
   (\<forall>entry\<in>set entries. List.member (getAllowedModes (ce_provider entry)) (ce_approvalMode entry)) \<and>
   (\<forall>provider. stored_config db' provider =
      (case find (\<lambda>entry. ce_provider entry = provider) (rev entries) of
         None \<Rightarrow> stored_config db provider
       | Some entry \<Rightarrow> \<lparr>ac_provider = provider, ac_enabled = ce_enabled entry,
           ac_approvalMode = ce_approvalMode entry, ac_updatedById = Some actorId\<rparr>)) \<and>
   pd_wallet db' = pd_wallet db \<and> pd_deposits db' = pd_deposits db \<and> pd_withdrawals db' = pd_withdrawals db"
proof (induction entries arbitrary: db)
  case (Cons entry entries)
  have app: "find P (xs @ [x]) = (case find P xs of None \<Rightarrow> if P x then Some x else None | Some r \<Rightarrow> Some r)"
    for P and xs :: "config_entry list" and x
    by (induction xs) auto
  have allowed: "List.member (getAllowedModes (ce_provider entry)) (ce_approvalMode entry)"
    using Cons.prems by (auto simp: assertModeAllowed_def split: if_splits)
  then have "update_entries actorId entries (db\<lparr>pd_configs := upsert_config actorId entry (pd_configs db)\<rparr>) = (Inr r, db')"
    using Cons.prems by (simp add: assertModeAllowed_def)
  note ih = Cons.IH [OF this]
  show ?case
    using ih allowed by (auto simp: app upsert_stored split: option.splits)
qed simp

end
