(* ===== verification/Deposits.thy ===== *)
theory Deposits
  imports Receipts DepositConfig
begin

text \<open>
  The deposits: \<open>src/src/deposits/deposits.service.ts\<close>. A player hands in a transaction reference;
  by the mode of its provider the deposit waits for an administrator, is judged from the receipt his
  phone has read, or is judged by the verification service. An approved deposit credits the wallet.
  What is sent to sockets and to the push service afterwards is left out.
\<close>

section \<open>Requests\<close>

record deposit_env =
  de_decimal :: "string \<Rightarrow> rat option"
  de_urls :: url_reader
  de_config :: settings
  de_http :: http

record create_deposit_dto =
  cd_provider :: payment_provider
  cd_amount :: string
  cd_transactionRef :: string
  cd_receiptParseStatus :: "parse_status option"
  cd_clientReceipt :: "client_receipt option"

definition updatableDepositStatuses :: "deposit_status list" where
  "updatableDepositStatuses = [DP_PENDING]"

definition DEPOSIT_MANUAL_APPROVAL_PIN :: string where
  "DEPOSIT_MANUAL_APPROVAL_PIN = ''121921''"

fun deposit_error_name :: "deposit_error \<Rightarrow> string" where
  "deposit_error_name ALREADY_USED = ''ALREADY_USED''"
| "deposit_error_name UNDER_REVIEW = ''UNDER_REVIEW''"
| "deposit_error_name AMOUNT_MISMATCH = ''AMOUNT_MISMATCH''"
| "deposit_error_name SETTLEMENT_MISMATCH = ''SETTLEMENT_MISMATCH''"
| "deposit_error_name INVALID_RECEIPT = ''INVALID_RECEIPT''"
| "deposit_error_name VERIFICATION_UNAVAILABLE = ''VERIFICATION_UNAVAILABLE''"

definition buildDepositException :: "deposit_error \<Rightarrow> string option \<Rightarrow> http_error" where
  "buildDepositException code message =
     (let resolvedMessage = or_else message (DEPOSIT_ERROR_MESSAGES code)
      in if code = ALREADY_USED \<or> code = UNDER_REVIEW
         then Coded_Conflict resolvedMessage (deposit_error_name code)
         else Coded_Request resolvedMessage (deposit_error_name code))"

definition parseDepositAmount :: "(string \<Rightarrow> rat option) \<Rightarrow> string \<Rightarrow> http_error + rat" where
  "parseDepositAmount decimal amount =
     parse_limited decimal 10 ''Minimum deposit is 10 ETB'' 10000 ''Maximum deposit is 10000 ETB'' amount"

definition getCbeReceiptBaseUrl :: "settings \<Rightarrow> string" where
  "getCbeReceiptBaseUrl config = or_else (config ''CBE_RECEIPT_BASE_URL'') ''https://mbreciept.cbe.com.et/receipt''"

definition normalizeTransactionRef ::
  "deposit_env \<Rightarrow> string \<Rightarrow> payment_provider \<Rightarrow> approval_mode \<Rightarrow> http_error + string" where
  "normalizeTransactionRef env transactionRef provider approvalMode =
     (case canonicalizeDepositTransactionRef (de_urls env) provider approvalMode transactionRef
             (getCbeReceiptBaseUrl (de_config env)) of
        None \<Rightarrow> Inl (Bad_Request
          (if provider = CBE \<and> approvalMode = MANUAL
           then ''Enter a valid CBE receipt ID or official receipt URL.''
           else ''transactionRef must be 6 to 120 alphanumeric characters''))
      | Some normalized \<Rightarrow> Inr normalized)"

definition ensureTransactionRefFormat :: "string \<Rightarrow> http_error + unit" where
  "ensureTransactionRefFormat transactionRef =
     (if \<not> REFERENCE_PATTERN transactionRef
      then Inl (Bad_Request ''transactionRef must be 6 to 120 alphanumeric characters'') else Inr ())"

section \<open>The table\<close>

definition active_deposit :: "deposit_row \<Rightarrow> bool" where
  "active_deposit d \<longleftrightarrow> dp_status d = DP_PENDING \<or> dp_status d = DP_APPROVED"

definition same_reference :: "payment_provider \<Rightarrow> string \<Rightarrow> deposit_row \<Rightarrow> bool" where
  "same_reference provider transactionRef d \<longleftrightarrow> dp_provider d = provider \<and> dp_transactionRef d = transactionRef"

text \<open>
  \<open>create\<close>: the identifier is unique, and so are the provider and the reference among the active
  deposits (the partial unique index of the migrations); the user must exist.
\<close>

definition insert_deposit :: "deposit_row \<Rightarrow> payment_db \<Rightarrow> unit payment" where
  "insert_deposit row db =
     (if list_ex (\<lambda>d. dp_id d = dp_id row) (pd_deposits db) \<or>
         active_deposit row \<and>
         list_ex (\<lambda>d. active_deposit d \<and> same_reference (dp_provider row) (dp_transactionRef row) d) (pd_deposits db)
      then (Inl (Db_Error ''P2002''), db)
      else if dp_userId row \<notin> db_users (pd_wallet db) then (Inl (Db_Error ''P2003''), db)
      else (Inr (), db\<lparr>pd_deposits := pd_deposits db @ [row]\<rparr>))"

definition find_deposit :: "payment_db \<Rightarrow> string \<Rightarrow> deposit_row option" where
  "find_deposit db depositId = find (\<lambda>d. dp_id d = depositId) (pd_deposits db)"

definition update_deposit :: "string \<Rightarrow> (deposit_row \<Rightarrow> deposit_row) \<Rightarrow> payment_db \<Rightarrow> payment_db" where
  "update_deposit depositId f db = db\<lparr>pd_deposits := update_where (\<lambda>d. dp_id d = depositId) f (pd_deposits db)\<rparr>"

definition refreshed_deposit :: "string \<Rightarrow> payment_db \<Rightarrow> deposit_row payment" where
  "refreshed_deposit depositId db =
     (case find_deposit db depositId of
        None \<Rightarrow> (Inl (Not_Found ''Deposit not found after approval''), db)
      | Some d \<Rightarrow> (Inr d, db))"

definition findActiveDepositByReference :: "payment_db \<Rightarrow> payment_provider \<Rightarrow> string \<Rightarrow> deposit_row option" where
  "findActiveDepositByReference db provider transactionRef =
     find (\<lambda>d. same_reference provider transactionRef d \<and> active_deposit d) (pd_deposits db)"

definition ensureReferenceAvailable ::
  "payment_db \<Rightarrow> payment_provider \<Rightarrow> string \<Rightarrow> string \<Rightarrow> http_error + deposit_row option" where
  "ensureReferenceAvailable db provider transactionRef userId =
     (case findActiveDepositByReference db provider transactionRef of
        None \<Rightarrow> Inr None
      | Some existing \<Rightarrow>
          (if userId \<noteq> [] \<and> dp_userId existing = userId then Inr (Some existing)
           else if dp_status existing = DP_PENDING then Inl (buildDepositException UNDER_REVIEW None)
           else Inl (buildDepositException ALREADY_USED None)))"

text \<open>The handler of a failed \<open>create\<close>.\<close>

definition used_reference :: "'a payment \<Rightarrow> 'a payment" where
  "used_reference out =
     (case out of
        (Inl e, db) \<Rightarrow> (Inl (if e = Db_Error ''P2002'' then buildDepositException ALREADY_USED None else e), db)
      | (Inr x, db) \<Rightarrow> (Inr x, db))"

section \<open>A deposit that waits\<close>

definition receipt_json :: "client_receipt \<Rightarrow> js" where
  "receipt_json r = Obj
     [(''invoiceNumber'', Str (re_invoiceNumber r)), (''transactionStatus'', Str (re_transactionStatus r)),
      (''settledAmount'', Str (re_settledAmount r)), (''creditedPartyName'', Str (re_creditedPartyName r)),
      (''creditedPartyAccountNo'', Str (re_creditedPartyAccountNo r))]"

fun parse_status_json :: "parse_status \<Rightarrow> js" where
  "parse_status_json PARSED = Str ''parsed''"
| "parse_status_json UNAVAILABLE = Str ''unavailable''"

text \<open>\<open>/^https?:\/\//i\<close>\<close>

definition http_text :: "string \<Rightarrow> bool" where
  "http_text s \<longleftrightarrow> take 7 (js_lower s) = ''http://'' \<or> take 8 (js_lower s) = ''https://''"

definition pending_deposit ::
  "int \<Rightarrow> string \<Rightarrow> string \<Rightarrow> payment_provider \<Rightarrow> rat \<Rightarrow> string \<Rightarrow> create_deposit_dto \<Rightarrow> deposit_row" where
  "pending_deposit now newId userId provider amount transactionRef dto =
     \<lparr>dp_id = newId, dp_userId = userId, dp_provider = provider, dp_amount = amount,
      dp_transactionRef = transactionRef, dp_status = DP_PENDING,
      dp_receiptUrl = (if provider = CBE \<and> http_text (cd_transactionRef dto)
        then Some (js_trim (cd_transactionRef dto)) else None),
      dp_walletTransactionId = None,
      dp_verifiedData = Obj
        ([(''verificationSource'', Str ''manual.pending''), (''approvalModeAtSubmit'', Str ''manual'')] @
         (case cd_clientReceipt dto of None \<Rightarrow> [] | Some r \<Rightarrow> [(''clientReceipt'', receipt_json r)]) @
         (case cd_receiptParseStatus dto of None \<Rightarrow> [] | Some s \<Rightarrow> [(''receiptParseStatus'', parse_status_json s)])),
      dp_rejectionReason = None, dp_verifyEtRequestId = None, dp_verifyEtRawResponse = Null,
      dp_verifiedAmount = None, dp_verifiedReceiverName = None, dp_createdAt = now, dp_verifiedAt = None\<rparr>"

definition createManualPendingDeposit ::
  "int \<Rightarrow> string \<Rightarrow> payment_db \<Rightarrow> string \<Rightarrow> payment_provider \<Rightarrow> rat \<Rightarrow> string \<Rightarrow> create_deposit_dto \<Rightarrow>
   deposit_row payment" where
  "createManualPendingDeposit now newId db userId provider amount transactionRef dto =
     (let deposit = pending_deposit now newId userId provider amount transactionRef dto
      in used_reference
        (case insert_deposit deposit db of (Inl e, db') \<Rightarrow> (Inl e, db') | (Inr _, db') \<Rightarrow> (Inr deposit, db')))"

section \<open>A deposit that is approved at once\<close>

definition deposit_meta :: "deposit_row \<Rightarrow> ledger_meta" where
  "deposit_meta d =
     \<lparr>me_type = DEPOSIT, me_referenceType = ''deposit'', me_referenceId = dp_id d,
      me_description = Some (''Approved '' @ provider_name (dp_provider d) @ '' deposit'')\<rparr>"

text \<open>The credit, and the identifier of its ledger row in the deposit when there is one.\<close>

definition credit_deposit :: "string \<Rightarrow> deposit_row \<Rightarrow> payment_db \<Rightarrow> unit payment" where
  "credit_deposit ledgerId d db =
     (case on_wallet (\<lambda>w. creditWallet ledgerId id w (dp_userId d) (dp_amount d) (deposit_meta d)) db of
        (Inl e, db') \<Rightarrow> (Inl e, db')
      | (Inr walletTransactionId, db') \<Rightarrow>
          (Inr (), if walletTransactionId \<noteq> []
             then update_deposit (dp_id d) (\<lambda>x. x\<lparr>dp_walletTransactionId := Some walletTransactionId\<rparr>) db'
             else db'))"

record approved_params =
  ap_userId :: string
  ap_provider :: payment_provider
  ap_amount :: rat
  ap_transactionRef :: string
  ap_verification :: "verify_result option"
  ap_verifiedData :: js
  ap_verifiedAmount :: "rat option"
  ap_verifiedReceiverName :: "string option"

text \<open>\<open>verifiedAmount ?? (verification?.amount ? new Prisma.Decimal(...) : null)\<close>\<close>

definition verified_amount :: "(string \<Rightarrow> rat option) \<Rightarrow> approved_params \<Rightarrow> http_error + rat option" where
  "verified_amount decimal params =
     (case ap_verifiedAmount params of
        Some a \<Rightarrow> Inr (Some a)
      | None \<Rightarrow>
          (case ap_verification params of
             None \<Rightarrow> Inr None
           | Some verification \<Rightarrow>
               (case vr_amount verification of
                  None \<Rightarrow> Inr None
                | Some text \<Rightarrow>
                    (if text = [] then Inr None
                     else case decimal text of None \<Rightarrow> Inl (Db_Error ''DecimalError'') | Some a \<Rightarrow> Inr (Some a)))))"

definition approved_deposit :: "int \<Rightarrow> string \<Rightarrow> rat option \<Rightarrow> approved_params \<Rightarrow> deposit_row" where
  "approved_deposit now newId verifiedAmount params =
     \<lparr>dp_id = newId, dp_userId = ap_userId params, dp_provider = ap_provider params,
      dp_amount = ap_amount params, dp_transactionRef = ap_transactionRef params, dp_status = DP_APPROVED,
      dp_receiptUrl = None, dp_walletTransactionId = None, dp_verifiedData = ap_verifiedData params,
      dp_rejectionReason = None,
      dp_verifyEtRequestId = (case ap_verification params of None \<Rightarrow> None | Some v \<Rightarrow> vr_requestId v),
      dp_verifyEtRawResponse = (case ap_verification params of None \<Rightarrow> Null | Some v \<Rightarrow> vr_rawResponse v),
      dp_verifiedAmount = verifiedAmount,
      dp_verifiedReceiverName =
        (case ap_verifiedReceiverName params of
           Some n \<Rightarrow> Some n
         | None \<Rightarrow> (case ap_verification params of None \<Rightarrow> None | Some v \<Rightarrow> vr_receiverName v)),
      dp_createdAt = now, dp_verifiedAt = Some now\<rparr>"

definition createApprovedDeposit ::
  "(string \<Rightarrow> rat option) \<Rightarrow> int \<Rightarrow> string \<Rightarrow> string \<Rightarrow> payment_db \<Rightarrow> approved_params \<Rightarrow> deposit_row payment" where
  "createApprovedDeposit decimal now newId ledgerId db params =
     (case verified_amount decimal params of
        Inl e \<Rightarrow> (Inl e, db)
      | Inr verifiedAmount \<Rightarrow>
          (let deposit = approved_deposit now newId verifiedAmount params in
           used_reference (in_transaction db
             (case insert_deposit deposit db of
                (Inl e, db1) \<Rightarrow> (Inl e, db1)
              | (Inr _, db1) \<Rightarrow>
                  (case credit_deposit ledgerId deposit db1 of
                     (Inl e, db2) \<Rightarrow> (Inl e, db2)
                   | (Inr _, db2) \<Rightarrow> refreshed_deposit newId db2)))))"

section \<open>The three modes\<close>

text \<open>\<open>Inl\<close> the code and the message of a rejection.\<close>

definition evaluateVerification ::
  "(string \<Rightarrow> rat option) \<Rightarrow> rat \<Rightarrow> verify_result \<Rightarrow> (deposit_error \<times> string) + unit" where
  "evaluateVerification decimal submittedAmount verification =
     (if vr_errorCode verification = Some VERIFICATION_UNAVAILABLE
      then Inl (VERIFICATION_UNAVAILABLE, DEPOSIT_ERROR_MESSAGES VERIFICATION_UNAVAILABLE)
      else if \<not> vr_verified verification
      then Inl (or_else (vr_errorCode verification) INVALID_RECEIPT,
                or_else (vr_reason verification) (DEPOSIT_ERROR_MESSAGES INVALID_RECEIPT))
      else if \<not> vr_settlementMatched verification
      then Inl (SETTLEMENT_MISMATCH, DEPOSIT_ERROR_MESSAGES SETTLEMENT_MISMATCH)
      else
        (case vr_amount verification of
           None \<Rightarrow> Inl (INVALID_RECEIPT, DEPOSIT_ERROR_MESSAGES INVALID_RECEIPT)
         | Some text \<Rightarrow>
             (if text = [] then Inl (INVALID_RECEIPT, DEPOSIT_ERROR_MESSAGES INVALID_RECEIPT)
              else
                (case decimal text of
                   None \<Rightarrow> Inl (INVALID_RECEIPT, DEPOSIT_ERROR_MESSAGES INVALID_RECEIPT)
                 | Some providerAmount \<Rightarrow>
                     (if providerAmount \<noteq> submittedAmount
                      then Inl (AMOUNT_MISMATCH, DEPOSIT_ERROR_MESSAGES AMOUNT_MISMATCH)
                      else Inr ())))))"

definition createAutomaticDeposit ::
  "deposit_env \<Rightarrow> int \<Rightarrow> string \<Rightarrow> string \<Rightarrow> payment_db \<Rightarrow> string \<Rightarrow> rat \<Rightarrow> string \<Rightarrow> create_deposit_dto \<Rightarrow>
   deposit_row payment" where
  "createAutomaticDeposit env now newId ledgerId db userId amount transactionRef dto =
     (case verifyDeposit (de_config env) (submitAndPoll (de_config env) (de_http env)) (cd_provider dto) transactionRef of
        Inl _ \<Rightarrow> createManualPendingDeposit now newId db userId (cd_provider dto) amount transactionRef dto
      | Inr verification \<Rightarrow>
          (case evaluateVerification (de_decimal env) amount verification of
             Inl (errorCode, rejectionReason) \<Rightarrow>
               (if errorCode = VERIFICATION_UNAVAILABLE
                then createManualPendingDeposit now newId db userId (cd_provider dto) amount transactionRef dto
                else (Inl (buildDepositException errorCode (Some rejectionReason)), db))
           | Inr _ \<Rightarrow>
               createApprovedDeposit (de_decimal env) now newId ledgerId db
                 \<lparr>ap_userId = userId, ap_provider = cd_provider dto, ap_amount = amount,
                  ap_transactionRef = transactionRef, ap_verification = Some verification,
                  ap_verifiedData = Obj
                    ([(''verificationSource'', Str ''verify.et''), (''approvalModeAtSubmit'', Str ''automatic''),
                      (''decision'', Str ''APPROVED'')] @
                     (case vr_matchedSettlementAccount verification of
                        None \<Rightarrow> []
                      | Some a \<Rightarrow> if a = [] then [] else [(''matchedSettlementAccount'', Str a)])),
                  ap_verifiedAmount = None, ap_verifiedReceiverName = None\<rparr>))"

definition createLocalTelebirrDeposit ::
  "deposit_env \<Rightarrow> int \<Rightarrow> string \<Rightarrow> string \<Rightarrow> payment_db \<Rightarrow> string \<Rightarrow> rat \<Rightarrow> string \<Rightarrow> create_deposit_dto \<Rightarrow>
   deposit_row payment" where
  "createLocalTelebirrDeposit env now newId ledgerId db userId amount transactionRef dto =
     (if cd_receiptParseStatus dto = Some UNAVAILABLE \<or> cd_clientReceipt dto = None
      then createManualPendingDeposit now newId db userId TELEBIRR amount transactionRef dto
      else
        (case validateTelebirrLocalReceipt (de_decimal env) transactionRef amount (cd_receiptParseStatus dto)
                (cd_clientReceipt dto) (getTelebirrAccounts (de_config env)) of
           Inl errorCode \<Rightarrow>
             (Inl (buildDepositException errorCode (Some (DEPOSIT_ERROR_MESSAGES errorCode))), db)
         | Inr validation \<Rightarrow>
             createApprovedDeposit (de_decimal env) now newId ledgerId db
               \<lparr>ap_userId = userId, ap_provider = TELEBIRR, ap_amount = amount,
                ap_transactionRef = transactionRef, ap_verification = None,
                ap_verifiedData = Obj
                  [(''verificationSource'', Str ''telebirr.local''), (''approvalModeAtSubmit'', Str ''local''),
                   (''decision'', Str ''APPROVED''), (''clientReceipt'', receipt_json (lv_clientReceipt validation)),
                   (''receiptParseStatus'', Str ''parsed'')],
                ap_verifiedAmount = Some (lv_verifiedAmount validation),
                ap_verifiedReceiverName = Some (lv_verifiedReceiverName validation)\<rparr>))"

text \<open>\<open>others\<close> is what other requests commit between the check of the reference and the insertion.\<close>

definition createDeposit ::
  "deposit_env \<Rightarrow> (payment_db \<Rightarrow> payment_db) \<Rightarrow> int \<Rightarrow> string \<Rightarrow> string \<Rightarrow> payment_db \<Rightarrow> string \<Rightarrow>
   create_deposit_dto \<Rightarrow> deposit_row payment" where
  "createDeposit env others now newId ledgerId db0 userId dto =
     (case limit_payment now Deposit_Request userId db0 of
        (Inl e, db1) \<Rightarrow> (Inl e, db1)
      | (Inr _, db1) \<Rightarrow>
     (case parseDepositAmount (de_decimal env) (cd_amount dto) of
        Inl e \<Rightarrow> (Inl e, db1)
      | Inr amount \<Rightarrow>
     (case getMode now (cd_provider dto) db1 of
        (Inl e, db2) \<Rightarrow> (Inl e, db2)
      | (Inr approvalMode, db2) \<Rightarrow>
     (case bind_result (normalizeTransactionRef env (cd_transactionRef dto) (cd_provider dto) approvalMode) (\<lambda>ref.
             bind_result (ensureTransactionRefFormat ref) (\<lambda>_.
             bind_result (ensureReferenceAvailable db2 (cd_provider dto) ref userId) (\<lambda>existing.
               Inr (ref, existing)))) of
        Inl e \<Rightarrow> (Inl e, db2)
      | Inr (transactionRef, Some existing) \<Rightarrow> (Inr existing, db2)
      | Inr (transactionRef, None) \<Rightarrow>
          (let db = others db2 in
           if approvalMode = MANUAL
           then createManualPendingDeposit now newId db userId (cd_provider dto) amount transactionRef dto
           else if approvalMode = LOCAL \<and> cd_provider dto = TELEBIRR
           then createLocalTelebirrDeposit env now newId ledgerId db userId amount transactionRef dto
           else if approvalMode = LOCAL \<and> cd_provider dto \<noteq> TELEBIRR
           then (Inl (Bad_Request ''Local approval mode is only supported for Telebirr.''), db)
           else createAutomaticDeposit env now newId ledgerId db userId amount transactionRef dto)))))"

section \<open>Questions about a reference\<close>

datatype reference_answer = OK_ANSWER | ALREADY_USED_ANSWER | UNDER_REVIEW_ANSWER

definition checkDepositReference ::
  "deposit_env \<Rightarrow> int \<Rightarrow> payment_db \<Rightarrow> string \<Rightarrow> payment_provider \<Rightarrow> string \<Rightarrow>
   (reference_answer \<times> string) payment" where
  "checkDepositReference env now db0 userId provider rawRef =
     (case limit_payment now Deposit_Check_Ref userId db0 of
        (Inl e, db1) \<Rightarrow> (Inl e, db1)
      | (Inr _, db1) \<Rightarrow>
     (case getMode now provider db1 of
        (Inl e, db2) \<Rightarrow> (Inl e, db2)
      | (Inr approvalMode, db2) \<Rightarrow>
     (case bind_result (normalizeTransactionRef env rawRef provider approvalMode) (\<lambda>ref.
             bind_result (ensureTransactionRefFormat ref) (\<lambda>_. Inr ref)) of
        Inl e \<Rightarrow> (Inl e, db2)
      | Inr transactionRef \<Rightarrow>
          (case findActiveDepositByReference db2 provider transactionRef of
             Some existing \<Rightarrow>
               (if dp_status existing = DP_PENDING
                then (Inr (UNDER_REVIEW_ANSWER, DEPOSIT_ERROR_MESSAGES UNDER_REVIEW), db2)
                else if dp_status existing = DP_APPROVED
                then (Inr (ALREADY_USED_ANSWER, DEPOSIT_ERROR_MESSAGES ALREADY_USED), db2)
                else (Inr (OK_ANSWER, ''Reference is available for deposit submission.''), db2))
           | None \<Rightarrow> (Inr (OK_ANSWER, ''Reference is available for deposit submission.''), db2)))))"

section \<open>The decisions of an administrator\<close>

definition assertDepositApprovalPin :: "string \<Rightarrow> http_error + unit" where
  "assertDepositApprovalPin approvalPin =
     (if approvalPin \<noteq> DEPOSIT_MANUAL_APPROVAL_PIN
      then Inl (Coded_Request ''Invalid approval PIN.'' ''INVALID_APPROVAL_PIN'') else Inr ())"

definition given_actor :: "string option \<Rightarrow> bool" where
  "given_actor actorId \<longleftrightarrow> actorId \<noteq> None \<and> actorId \<noteq> Some []"

text \<open>\<open>{...existing, ...}\<close>: the new fields win.\<close>

definition extend_data :: "(string \<times> js) list \<Rightarrow> js \<Rightarrow> js" where
  "extend_data extra v = Obj (extra @ js_fields v)"

definition approveDepositRecord ::
  "(payment_db \<Rightarrow> payment_db) \<Rightarrow> int \<Rightarrow> string \<Rightarrow> payment_db \<Rightarrow> string \<Rightarrow> string \<Rightarrow> string option \<Rightarrow>
   deposit_row payment" where
  "approveDepositRecord others now ledgerId db0 depositId verificationSource actorId =
     (case find_deposit db0 depositId of
        None \<Rightarrow> (Inl (Not_Found ''Deposit not found''), db0)
      | Some existing \<Rightarrow>
     (if dp_status existing = DP_APPROVED then (Inr existing, db0)
      else if \<not> List.member updatableDepositStatuses (dp_status existing)
      then (Inl (Bad_Request ''Deposit cannot be approved''), db0)
      else let db = others db0 in in_transaction db
     (let P = (\<lambda>d. dp_id d = depositId \<and> List.member updatableDepositStatuses (dp_status d));
          count = count_where P (pd_deposits db);
          db1 = db\<lparr>pd_deposits := update_where P
            (\<lambda>d. d\<lparr>dp_status := DP_APPROVED, dp_verifiedAt := Some now, dp_rejectionReason := None,
                   dp_verifiedData := extend_data [(''verificationSource'', Str verificationSource),
                     (''decision'', Str ''APPROVED''), (''approvedByAdmin'', Bool True)]
                     (dp_verifiedData existing)\<rparr>) (pd_deposits db)\<rparr>
      in if count \<noteq> 1 then (Inl (Bad_Request ''Deposit cannot be approved''), db1)
         else
           (case credit_deposit ledgerId existing db1 of
              (Inl e, db2) \<Rightarrow> (Inl e, db2)
            | (Inr _, db2) \<Rightarrow>
                refreshed_deposit depositId
                  (if given_actor actorId
                   then create_audit \<lparr>au_actorId = actorId, au_action = ''admin.deposit.approve'',
                     au_entity = ''Deposit'', au_entityId = Some (dp_id existing)\<rparr> db2
                   else db2)))))"

definition approveDeposit ::
  "(payment_db \<Rightarrow> payment_db) \<Rightarrow> int \<Rightarrow> string \<Rightarrow> payment_db \<Rightarrow> string \<Rightarrow> string \<Rightarrow> string option \<Rightarrow>
   deposit_row payment" where
  "approveDeposit others now ledgerId db depositId approvalPin actorId =
     (case assertDepositApprovalPin approvalPin of
        Inl e \<Rightarrow> (Inl e, db)
      | Inr _ \<Rightarrow> approveDepositRecord others now ledgerId db depositId ''Manual admin approval'' actorId)"

text \<open>The update has no condition on the status; a missing row is the error \<open>P2025\<close>.\<close>

definition rejectDeposit ::
  "(payment_db \<Rightarrow> payment_db) \<Rightarrow> payment_db \<Rightarrow> string \<Rightarrow> string \<Rightarrow> string option \<Rightarrow> deposit_row payment" where
  "rejectDeposit others db0 depositId rejectionReason actorId =
     (case find_deposit db0 depositId of
        None \<Rightarrow> (Inl (Not_Found ''Deposit not found''), db0)
      | Some existing \<Rightarrow>
     (if \<not> List.member updatableDepositStatuses (dp_status existing)
      then (Inl (Bad_Request ''Deposit cannot be rejected''), db0)
      else let db = others db0 in in_transaction db
     (let db1 = (if given_actor actorId
            then create_audit \<lparr>au_actorId = actorId, au_action = ''admin.deposit.reject'',
              au_entity = ''Deposit'', au_entityId = Some depositId\<rparr> db
            else db);
          db2 = update_deposit depositId
            (\<lambda>d. d\<lparr>dp_status := DP_REJECTED, dp_rejectionReason := Some (js_trim rejectionReason),
                   dp_verifiedData := extend_data [(''verificationSource'', Str ''manual.admin.reject''),
                     (''rejectedByAdmin'', Bool True), (''decision'', Str ''REJECTED'')]
                     (dp_verifiedData existing)\<rparr>) db1
      in (case find_deposit db2 depositId of
            None \<Rightarrow> (Inl (Db_Error ''P2025''), db2)
          | Some updatedDeposit \<Rightarrow> (Inr updatedDeposit, db2)))))"

section \<open>Lists\<close>

definition getMyDeposits :: "payment_db \<Rightarrow> string \<Rightarrow> pagination_query \<Rightarrow> deposit_row list \<times> pagination_meta" where
  "getMyDeposits db userId query = page_of dp_createdAt (\<lambda>d. dp_userId d = userId) query (pd_deposits db)"

record admin_deposits_query = pagination_query +
  ad_search :: "string option"
  ad_provider :: "payment_provider option"
  ad_status :: "deposit_status option"
  ad_from :: "string option"
  ad_to :: "string option"

definition buildAdminDepositsWhere ::
  "dates \<Rightarrow> (string \<Rightarrow> string \<Rightarrow> bool) \<Rightarrow> (string \<Rightarrow> string \<times> string) \<Rightarrow> admin_deposits_query \<Rightarrow>
   http_error + (deposit_row \<Rightarrow> bool)" where
  "buildAdminDepositsWhere dates contains profile query =
     (let search = trimmed (ad_search query)
      in bind_result (buildCreatedAtFilter dates (ad_from query) (ad_to query)) (\<lambda>createdAt.
           Inr (\<lambda>d.
             (case ad_provider query of None \<Rightarrow> True | Some p \<Rightarrow> dp_provider d = p) \<and>
             (case ad_status query of None \<Rightarrow> True | Some s \<Rightarrow> dp_status d = s) \<and>
             in_range createdAt (dp_createdAt d) \<and>
             (case search of
                None \<Rightarrow> True
              | Some s \<Rightarrow>
                  contains (dp_transactionRef d) s \<or>
                  contains (fst (profile (dp_userId d))) s \<or>
                  contains (snd (profile (dp_userId d))) s))))"

definition getPendingDepositCount :: "payment_db \<Rightarrow> nat" where
  "getPendingDepositCount db = count_where (\<lambda>d. dp_status d = DP_PENDING) (pd_deposits db)"

section \<open>What a client is told about the providers\<close>

text \<open>\<open>requiresAmount\<close> is always true and left out.\<close>

record provider_info =
  pi_key :: payment_provider
  pi_name :: string
  pi_receiptCodeLabel :: string
  pi_helpText :: string
  pi_settlementAccount :: string
  pi_receiverName :: string
  pi_enabled :: bool
  pi_approvalMode :: approval_mode
  pi_receiptBaseUrl :: "string option"

record telebirr_info =
  ti_providerName :: string
  ti_receiptHelpText :: string
  ti_receiptBaseUrl :: string
  ti_receiverPhoneLast4 :: string
  ti_receiverName :: string
  ti_accounts :: "telebirr_account list"

fun providerHelpText :: "payment_provider \<Rightarrow> string" where
  "providerHelpText TELEBIRR = ''Enter the receipt code and the Settled Amount, not the Total Paid Amount.''"
| "providerHelpText CBE =
     ''Send money with CBE, then enter the payment reference number and exact transferred amount.''"
| "providerHelpText AWASH =
     ''Send money with Awash Bank, then enter the payment reference number and exact transferred amount.''"
| "providerHelpText BOA = ''Send money with Bank of Abyssinia, then enter the payment reference number '' @
     ''and exact transferred amount.''"

fun provider_setting :: "settings \<Rightarrow> payment_provider \<Rightarrow> string \<times> string \<times> string" where
  "provider_setting config TELEBIRR =
     (let primary = hd (getTelebirrAccounts config)
      in (or_else (config ''TELEBIRR_PROVIDER_NAME'') ''Telebirr'', ta_settlementAccount primary, ta_receiverName primary))"
| "provider_setting config CBE =
     (or_else (config ''CBE_PROVIDER_NAME'') ''CBE Bank'', or_else (config ''CBE_SETTLEMENT_ACCOUNT'') [],
      or_else (config ''CBE_RECEIVER_NAME'') [])"
| "provider_setting config AWASH =
     (or_else (config ''AWASH_PROVIDER_NAME'') ''Awash Bank'', or_else (config ''AWASH_SETTLEMENT_ACCOUNT'') [],
      or_else (config ''AWASH_RECEIVER_NAME'') [])"
| "provider_setting config BOA =
     (or_else (config ''BOA_PROVIDER_NAME'') ''Bank of Abyssinia'', or_else (config ''BOA_SETTLEMENT_ACCOUNT'') [],
      or_else (config ''BOA_RECEIVER_NAME'') [])"

definition getDepositConfig :: "settings \<Rightarrow> int \<Rightarrow> payment_db \<Rightarrow> (provider_info list \<times> telebirr_info) \<times> payment_db" where
  "getDepositConfig config now db =
     (let (approvalConfigs, db') = getPlayerProviderConfigs now db;
          accounts = getTelebirrAccounts config
      in ((map (\<lambda>key.
             let (name, settlementAccount, receiverName) = provider_setting config key;
                 approvalConfig = find (\<lambda>entry. fst entry = key) approvalConfigs
             in \<lparr>pi_key = key, pi_name = name,
                 pi_receiptCodeLabel = (if key = TELEBIRR then ''Receipt code'' else ''Reference number''),
                 pi_helpText = providerHelpText key, pi_settlementAccount = settlementAccount,
                 pi_receiverName = receiverName,
                 pi_enabled = (case approvalConfig of None \<Rightarrow> True | Some c \<Rightarrow> fst (snd c)),
                 pi_approvalMode = (case approvalConfig of None \<Rightarrow> AUTOMATIC | Some c \<Rightarrow> snd (snd c)),
                 pi_receiptBaseUrl = (if key = CBE then Some (getCbeReceiptBaseUrl config) else None)\<rparr>)
             [TELEBIRR, CBE, AWASH, BOA],
           \<lparr>ti_providerName = or_else (config ''TELEBIRR_PROVIDER_NAME'') ''Telebirr'',
            ti_receiptHelpText = providerHelpText TELEBIRR,
            ti_receiptBaseUrl = or_else (config ''TELEBIRR_RECEIPT_BASE_URL'')
              ''https://transactioninfo.ethiotelecom.et/receipt'',
            ti_receiverPhoneLast4 = ta_receiverPhoneLast4 (hd accounts),
            ti_receiverName = ta_receiverName (hd accounts), ti_accounts = accounts\<rparr>), db'))"

text \<open>The administrator's list also names the providers.\<close>

definition getAllDeposits ::
  "settings \<Rightarrow> dates \<Rightarrow> (string \<Rightarrow> string \<Rightarrow> bool) \<Rightarrow> (string \<Rightarrow> string \<times> string) \<Rightarrow> int \<Rightarrow> payment_db \<Rightarrow>
   admin_deposits_query \<Rightarrow> (deposit_row list \<times> pagination_meta \<times> (payment_provider \<times> string) list) payment" where
  "getAllDeposits config dates contains profile now db query =
     (case buildAdminDepositsWhere dates contains profile query of
        Inl e \<Rightarrow> (Inl e, db)
      | Inr P \<Rightarrow>
          (let (items, pagination) = page_of dp_createdAt P (pagination_query.truncate query) (pd_deposits db);
               ((providers, telebirr), db') = getDepositConfig config now db
           in (Inr (items, pagination, map (\<lambda>p. (pi_key p, pi_name p)) providers), db')))"

end
