(* ===== verification/Withdrawals.thy ===== *)
theory Withdrawals
  imports PaymentStore
begin

text \<open>
  The withdrawals: \<open>src/src/withdrawals/withdrawals.service.ts\<close>. A request locks the amount, an
  approval pays it out of the locked balance, a rejection gives it back. A handler returns the row
  it would serialize, or the exception it throws, and the state it leaves; what it sends to sockets,
  to the push service and to the SMS service afterwards is left out.
\<close>

section \<open>Requests\<close>

record create_withdrawal_dto =
  cw_provider :: payment_provider
  cw_amount :: string
  cw_receiverPhone :: "string option"
  cw_receiverAccount :: "string option"

definition supportedWithdrawalProviders :: "payment_provider list" where
  "supportedWithdrawalProviders = [TELEBIRR, CBE]"

definition reversibleWithdrawalStatuses :: "withdraw_status list" where
  "reversibleWithdrawalStatuses = [WD_PENDING]"

definition parseWithdrawalAmount :: "(string \<Rightarrow> rat option) \<Rightarrow> string \<Rightarrow> http_error + rat" where
  "parseWithdrawalAmount decimal amount =
     parse_limited decimal 500 ''Minimum withdrawal is 500 ETB'' 10000 ''Maximum withdrawal is 10000 ETB'' amount"

definition withdrawal_meta :: "wallet_transaction_type \<Rightarrow> string \<Rightarrow> withdrawal_row \<Rightarrow> ledger_meta" where
  "withdrawal_meta type verb w =
     \<lparr>me_type = type, me_referenceType = ''withdrawal'', me_referenceId = wd_id w,
      me_description = Some (verb @ '' via '' @ provider_name (wd_provider w))\<rparr>"

definition requested :: "int \<Rightarrow> string \<Rightarrow> string \<Rightarrow> rat \<Rightarrow> create_withdrawal_dto \<Rightarrow> withdrawal_row" where
  "requested now newId userId a dto =
     \<lparr>wd_id = newId, wd_userId = userId, wd_provider = cw_provider dto, wd_amount = a,
      wd_receiverPhone = trimmed (cw_receiverPhone dto),
      wd_receiverAccount = trimmed (cw_receiverAccount dto), wd_payoutRef = None,
      wd_payoutTransactionUrl = None, wd_status = WD_PENDING, wd_adminNote = None,
      wd_createdAt = now, wd_paidAt = None\<rparr>"

definition createWithdrawal ::
  "(string \<Rightarrow> rat option) \<Rightarrow> int \<Rightarrow> string \<Rightarrow> string \<Rightarrow> payment_db \<Rightarrow> string \<Rightarrow> create_withdrawal_dto \<Rightarrow>
   withdrawal_row payment" where
  "createWithdrawal decimal now newId ledgerId db0 userId dto =
     (case limit_payment now Withdrawal_Request userId db0 of
        (Inl e, db) \<Rightarrow> (Inl e, db)
      | (Inr _, db) \<Rightarrow>
     (if \<not> List.member supportedWithdrawalProviders (cw_provider dto) then
        (Inl (Bad_Request ''Unsupported withdrawal provider''), db)
      else if trimmed (cw_receiverPhone dto) = None \<and> trimmed (cw_receiverAccount dto) = None then
        (Inl (Bad_Request ''receiverPhone or receiverAccount is required''), db)
      else
     (case parseWithdrawalAmount decimal (cw_amount dto) of
        Inl e \<Rightarrow> (Inl e, db)
      | Inr amount \<Rightarrow>
          in_transaction db
            (case getWalletOrThrow (pd_wallet db) userId of
               Inl e \<Rightarrow> (Inl e, db)
             | Inr _ \<Rightarrow>
                 let created = requested now newId userId amount dto;
                     db' = db\<lparr>pd_withdrawals := pd_withdrawals db @ [created]\<rparr>
                 in (case on_wallet (\<lambda>w. moveBalanceToLocked ledgerId id w userId amount
                            (withdrawal_meta WITHDRAW_REQUEST ''Withdrawal request'' created)) db' of
                       (Inl e, db'') \<Rightarrow> (Inl e, db'')
                     | (Inr _, db'') \<Rightarrow> (Inr created, db''))))))"

section \<open>Lists\<close>

definition getMyWithdrawals ::
  "payment_db \<Rightarrow> string \<Rightarrow> pagination_query \<Rightarrow> withdrawal_row list \<times> pagination_meta" where
  "getMyWithdrawals db userId query =
     page_of wd_createdAt (\<lambda>w. wd_userId w = userId) query (pd_withdrawals db)"

record admin_withdrawals_query = pagination_query +
  aw_search :: "string option"
  aw_provider :: "payment_provider option"
  aw_status :: "withdraw_status option"
  aw_from :: "string option"
  aw_to :: "string option"

text \<open>\<open>profile\<close> gives the full name and the phone number of a user.\<close>

definition buildAdminWithdrawalsWhere ::
  "dates \<Rightarrow> (string \<Rightarrow> string \<Rightarrow> bool) \<Rightarrow> (string \<Rightarrow> string \<times> string) \<Rightarrow> admin_withdrawals_query \<Rightarrow>
   http_error + (withdrawal_row \<Rightarrow> bool)" where
  "buildAdminWithdrawalsWhere dates contains profile query =
     (let search = trimmed (aw_search query)
      in bind_result (buildCreatedAtFilter dates (aw_from query) (aw_to query)) (\<lambda>createdAt.
           Inr (\<lambda>w.
             (case aw_provider query of None \<Rightarrow> True | Some p \<Rightarrow> wd_provider w = p) \<and>
             (case aw_status query of None \<Rightarrow> True | Some s \<Rightarrow> wd_status w = s) \<and>
             in_range createdAt (wd_createdAt w) \<and>
             (case search of
                None \<Rightarrow> True
              | Some s \<Rightarrow>
                  contains (fst (profile (wd_userId w))) s \<or>
                  contains (snd (profile (wd_userId w))) s \<or>
                  (\<exists>x \<in> set_option (wd_receiverPhone w). contains x s) \<or>
                  (\<exists>x \<in> set_option (wd_receiverAccount w). contains x s) \<or>
                  (\<exists>x \<in> set_option (wd_payoutRef w). contains x s) \<or>
                  (\<exists>x \<in> set_option (wd_payoutTransactionUrl w). contains x s)))))"

definition getAllWithdrawals ::
  "dates \<Rightarrow> (string \<Rightarrow> string \<Rightarrow> bool) \<Rightarrow> (string \<Rightarrow> string \<times> string) \<Rightarrow> payment_db \<Rightarrow>
   admin_withdrawals_query \<Rightarrow> http_error + (withdrawal_row list \<times> pagination_meta)" where
  "getAllWithdrawals dates contains profile db query =
     map_sum id (\<lambda>P. page_of wd_createdAt P (pagination_query.truncate query) (pd_withdrawals db))
       (buildAdminWithdrawalsWhere dates contains profile query)"

definition getPendingWithdrawalCount :: "payment_db \<Rightarrow> nat" where
  "getPendingWithdrawalCount db = count_where (\<lambda>w. wd_status w = WD_PENDING) (pd_withdrawals db)"

section \<open>Decisions\<close>

definition find_withdrawal :: "payment_db \<Rightarrow> string \<Rightarrow> withdrawal_row option" where
  "find_withdrawal db withdrawalId = find (\<lambda>w. wd_id w = withdrawalId) (pd_withdrawals db)"

text \<open>\<open>updateMany\<close> where the identifier and the status match: the number of rows, and the state.\<close>

definition update_withdrawals ::
  "string \<Rightarrow> withdraw_status list \<Rightarrow> (withdrawal_row \<Rightarrow> withdrawal_row) \<Rightarrow> payment_db \<Rightarrow> nat \<times> payment_db" where
  "update_withdrawals withdrawalId statuses f db =
     (let P = (\<lambda>w. wd_id w = withdrawalId \<and> List.member statuses (wd_status w))
      in (count_where P (pd_withdrawals db),
          db\<lparr>pd_withdrawals := update_where P f (pd_withdrawals db)\<rparr>))"

definition refreshed_withdrawal :: "string \<Rightarrow> string \<Rightarrow> payment_db \<Rightarrow> withdrawal_row payment" where
  "refreshed_withdrawal message withdrawalId db =
     (case find_withdrawal db withdrawalId of
        None \<Rightarrow> (Inl (Not_Found message), db)
      | Some w \<Rightarrow> (Inr w, db))"

definition approveWithdrawal ::
  "(payment_db \<Rightarrow> payment_db) \<Rightarrow> int \<Rightarrow> string \<Rightarrow> payment_db \<Rightarrow> string \<Rightarrow> string \<Rightarrow> string option \<Rightarrow>
   withdrawal_row payment" where
  "approveWithdrawal others now ledgerId db0 withdrawalId url actorId =
     (case find_withdrawal db0 withdrawalId of
        None \<Rightarrow> (Inl (Not_Found ''Withdrawal not found''), db0)
      | Some existing \<Rightarrow>
     (if wd_status existing \<noteq> WD_PENDING then (Inl (Bad_Request ''Withdrawal cannot be approved''), db0)
      else let db = others db0 in in_transaction db
     (let (count, db1) = update_withdrawals withdrawalId [WD_PENDING]
            (\<lambda>w. w\<lparr>wd_status := WD_PAID, wd_paidAt := Some now,
                   wd_payoutTransactionUrl := Some (js_trim url)\<rparr>) db
      in if count \<noteq> 1 then (Inl (Bad_Request ''Withdrawal cannot be approved''), db1)
         else
           (case on_wallet (\<lambda>w. consumeLockedFunds ledgerId id w (wd_userId existing) (wd_amount existing)
                   (withdrawal_meta WITHDRAW_PAID ''Paid withdrawal'' existing)) db1 of
              (Inl e, db2) \<Rightarrow> (Inl e, db2)
            | (Inr _, db2) \<Rightarrow>
                refreshed_withdrawal ''Withdrawal not found after approval'' withdrawalId
                  (create_audit \<lparr>au_actorId = actorId, au_action = ''admin.withdrawal.approve'',
                     au_entity = ''Withdrawal'', au_entityId = Some withdrawalId\<rparr> db2)))))"

definition rejectWithdrawal ::
  "(payment_db \<Rightarrow> payment_db) \<Rightarrow> string \<Rightarrow> payment_db \<Rightarrow> string \<Rightarrow> string option \<Rightarrow> string option \<Rightarrow>
   withdrawal_row payment" where
  "rejectWithdrawal others ledgerId db0 withdrawalId adminNote actorId =
     (case find_withdrawal db0 withdrawalId of
        None \<Rightarrow> (Inl (Not_Found ''Withdrawal not found''), db0)
      | Some existing \<Rightarrow>
     (if \<not> List.member reversibleWithdrawalStatuses (wd_status existing)
      then (Inl (Bad_Request ''Withdrawal cannot be rejected''), db0)
      else let db = others db0 in in_transaction db
     (let (count, db1) = update_withdrawals withdrawalId reversibleWithdrawalStatuses
            (\<lambda>w. w\<lparr>wd_status := WD_REJECTED, wd_adminNote := trimmed adminNote\<rparr>) db
      in if count \<noteq> 1 then (Inl (Bad_Request ''Withdrawal cannot be rejected''), db1)
         else
           (case on_wallet (\<lambda>w. releaseLockedFunds ledgerId id w (wd_userId existing) (wd_amount existing)
                   (withdrawal_meta WITHDRAW_REFUND ''Rejected withdrawal'' existing)) db1 of
              (Inl e, db2) \<Rightarrow> (Inl e, db2)
            | (Inr _, db2) \<Rightarrow>
                refreshed_withdrawal ''Withdrawal not found after rejection'' withdrawalId
                  (create_audit \<lparr>au_actorId = actorId, au_action = ''admin.withdrawal.reject'',
                     au_entity = ''Withdrawal'', au_entityId = Some (wd_id existing)\<rparr> db2)))))"

text \<open>The payout reference is unique in the table.\<close>

definition markWithdrawalPaid ::
  "(payment_db \<Rightarrow> payment_db) \<Rightarrow> int \<Rightarrow> string \<Rightarrow> payment_db \<Rightarrow> string \<Rightarrow> string option \<Rightarrow>
   string option \<Rightarrow> withdrawal_row payment" where
  "markWithdrawalPaid others now ledgerId db0 withdrawalId payoutRef actorId =
     (case find_withdrawal db0 withdrawalId of
        None \<Rightarrow> (Inl (Not_Found ''Withdrawal not found''), db0)
      | Some existing \<Rightarrow>
     (if wd_status existing \<noteq> WD_APPROVED
      then (Inl (Bad_Request ''Only approved withdrawals can be marked paid''), db0)
      else let db = others db0 in in_transaction db
     (if trimmed payoutRef \<noteq> None \<and>
         list_ex (\<lambda>w. wd_id w \<noteq> withdrawalId \<and> wd_payoutRef w = trimmed payoutRef) (pd_withdrawals db)
         \<and> 0 < fst (update_withdrawals withdrawalId [WD_APPROVED] id db)
      then (Inl (Db_Error ''P2002''), db)
      else
      (let (count, db1) = update_withdrawals withdrawalId [WD_APPROVED]
            (\<lambda>w. w\<lparr>wd_status := WD_PAID, wd_paidAt := Some now, wd_payoutRef := trimmed payoutRef\<rparr>) db
      in if count \<noteq> 1 then (Inl (Bad_Request ''Only approved withdrawals can be marked paid''), db1)
         else
           (case on_wallet (\<lambda>w. consumeLockedFunds ledgerId id w (wd_userId existing) (wd_amount existing)
                   (withdrawal_meta WITHDRAW_PAID ''Paid withdrawal'' existing)) db1 of
              (Inl e, db2) \<Rightarrow> (Inl e, db2)
            | (Inr _, db2) \<Rightarrow>
                refreshed_withdrawal ''Withdrawal not found after payment'' withdrawalId
                  (create_audit \<lparr>au_actorId = actorId, au_action = ''admin.withdrawal.mark_paid'',
                     au_entity = ''Withdrawal'', au_entityId = Some (wd_id existing)\<rparr> db2))))))"

end
