(* ===== verification/WithdrawalSteps.thy ===== *)
theory WithdrawalSteps
  imports Withdrawals WalletLedger
begin

text \<open>
  The invariant of the withdrawals. The money a user has locked is the sum of his open withdrawals,
  and the ledger holds for each withdrawal its request, its payment exactly when the withdrawal is
  paid and its refund exactly when it is rejected, each over the amount of the withdrawal. Every
  handler keeps it, whatever other requests commit between its reads and its writes.
\<close>

section \<open>The invariant\<close>

definition withdrawal_key :: "wallet_transaction_type \<Rightarrow> withdrawal_row \<Rightarrow> ledger_key" where
  "withdrawal_key type w = (wd_userId w, type, ''withdrawal'', wd_id w)"

definition open_withdrawal :: "withdrawal_row \<Rightarrow> bool" where
  "open_withdrawal w \<longleftrightarrow> wd_status w = WD_PENDING \<or> wd_status w = WD_APPROVED"

definition open_amount :: "string \<Rightarrow> withdrawal_row list \<Rightarrow> rat" where
  "open_amount u ws = sum_list (map (\<lambda>w. if wd_userId w = u \<and> open_withdrawal w then wd_amount w else 0) ws)"

definition withdrawal_ok :: "wallet_db \<Rightarrow> withdrawal_row \<Rightarrow> bool" where
  "withdrawal_ok W w \<longleftrightarrow>
     0 < wd_amount w \<and> js_trim (wd_id w) \<noteq> [] \<and> wd_userId w \<in> db_users W \<and>
     db_wallets W (wd_userId w) \<noteq> None \<and>
     withdrawal_key WITHDRAW_REQUEST w \<in> posted W \<and>
     (withdrawal_key WITHDRAW_PAID w \<in> posted W \<longleftrightarrow> wd_status w = WD_PAID) \<and>
     (withdrawal_key WITHDRAW_REFUND w \<in> posted W \<longleftrightarrow> wd_status w = WD_REJECTED)"

definition withdrawal_entry :: "withdrawal_row list \<Rightarrow> ledger_row \<Rightarrow> bool" where
  "withdrawal_entry ws row \<longleftrightarrow>
     wt_referenceType row = ''withdrawal'' \<longrightarrow>
     (\<exists>w\<in>set ws. wt_userId row = wd_userId w \<and> wt_referenceId row = wd_id w \<and> wt_amount row = wd_amount w)"

definition withdrawal_books :: "wallet_db \<Rightarrow> withdrawal_row list \<Rightarrow> bool" where
  "withdrawal_books W ws \<longleftrightarrow>
     db_ok W \<and> distinct (map wd_id ws) \<and> (\<forall>w\<in>set ws. withdrawal_ok W w) \<and>
     (\<forall>row\<in>set (db_ledger W). withdrawal_entry ws row) \<and>
     (\<forall>u w. db_wallets W u = Some w \<longrightarrow> wa_lockedBalance w = open_amount u ws)"

definition withdrawals_ok :: "payment_db \<Rightarrow> bool" where
  "withdrawals_ok db \<longleftrightarrow> withdrawal_books (pd_wallet db) (pd_withdrawals db)"

section \<open>What a step may do to a withdrawal\<close>

definition withdrawal_move :: "withdraw_status \<Rightarrow> withdraw_status \<Rightarrow> bool" where
  "withdrawal_move s s' \<longleftrightarrow>
     s = s' \<or> s = WD_PENDING \<and> (s' = WD_PAID \<or> s' = WD_REJECTED) \<or> s = WD_APPROVED \<and> s' = WD_PAID"

definition withdrawal_follows :: "withdrawal_row \<Rightarrow> withdrawal_row \<Rightarrow> bool" where
  "withdrawal_follows w w' \<longleftrightarrow>
     wd_id w' = wd_id w \<and> wd_userId w' = wd_userId w \<and> wd_amount w' = wd_amount w \<and>
     wd_provider w' = wd_provider w \<and> withdrawal_move (wd_status w) (wd_status w')"

definition withdrawals_follow :: "payment_db \<Rightarrow> payment_db \<Rightarrow> bool" where
  "withdrawals_follow db db' \<longleftrightarrow>
     (\<forall>w\<in>set (pd_withdrawals db). \<exists>w'\<in>set (pd_withdrawals db'). withdrawal_follows w w')"

lemma withdrawal_follows_refl [simp]: "withdrawal_follows w w"
  by (simp add: withdrawal_follows_def withdrawal_move_def)

lemma withdrawal_follows_trans:
  "withdrawal_follows x y \<Longrightarrow> withdrawal_follows y z \<Longrightarrow> withdrawal_follows x z"
  by (auto simp: withdrawal_follows_def withdrawal_move_def)

lemma withdrawals_follow_refl [simp]: "withdrawals_follow db db"
  by (auto simp: withdrawals_follow_def intro: withdrawal_follows_refl)

lemma withdrawals_follow_same [simp]:
  "pd_withdrawals db' = pd_withdrawals db \<Longrightarrow> withdrawals_follow db db'"
  by (auto simp: withdrawals_follow_def intro: withdrawal_follows_refl)

lemma withdrawals_follow_trans:
  "withdrawals_follow x y \<Longrightarrow> withdrawals_follow y z \<Longrightarrow> withdrawals_follow x z"
  by (meson withdrawals_follow_def withdrawal_follows_trans)

lemma find_withdrawal_in: "find_withdrawal db i = Some w \<Longrightarrow> w \<in> set (pd_withdrawals db) \<and> wd_id w = i"
  unfolding find_withdrawal_def by (drule find_in) simp

lemma find_withdrawal_iff:
  "distinct (map wd_id (pd_withdrawals db)) \<Longrightarrow>
   find_withdrawal db i = Some w \<longleftrightarrow> w \<in> set (pd_withdrawals db) \<and> wd_id w = i"
  using find_key [of wd_id "pd_withdrawals db" w] find_withdrawal_in [of db i w]
  by (auto simp: find_withdrawal_def)

text \<open>The row another request may have changed is still the same withdrawal.\<close>

lemma follow_same_id:
  assumes "withdrawals_follow db db'" "distinct (map wd_id (pd_withdrawals db'))"
    and "w \<in> set (pd_withdrawals db)" "w' \<in> set (pd_withdrawals db')" "wd_id w' = wd_id w"
  shows "withdrawal_follows w w'"
proof -
  obtain v where "v \<in> set (pd_withdrawals db')" "withdrawal_follows w v"
    using assms(1,3) by (auto simp: withdrawals_follow_def)
  moreover from this have "v = w'"
    using assms(2,4,5) by (metis distinct_map inj_onD withdrawal_follows_def)
  ultimately show ?thesis by simp
qed

section \<open>Sums over a table\<close>

lemma sum_list_update_key:
  fixes g :: "'a \<Rightarrow> rat"
  assumes "distinct (map key xs)" "x \<in> set xs" "\<And>y. y \<in> set xs \<Longrightarrow> P y \<longleftrightarrow> key y = key x"
  shows "sum_list (map g (update_where P f xs)) = sum_list (map g xs) - g x + g (f x)"
  using assms
proof (induction xs)
  case (Cons y ys)
  show ?case
  proof (cases "y = x")
    case True
    have "\<not> P z" if z: "z \<in> set ys" for z
    proof
      assume "P z"
      then have "key z = key y" using Cons.prems(3) [of z] z True by simp
      then show False using Cons.prems(1) z by (metis distinct.simps(2) image_eqI list.set_map list.simps(9))
    qed
    then have "update_where P f ys = ys" by (intro update_where_none) blast
    then show ?thesis using True Cons.prems(3) by (simp add: update_where_def)
  next
    case False
    then have x: "x \<in> set ys" "\<not> P y" using Cons.prems by (auto simp: rev_image_eqI)
    then have "sum_list (map g (update_where P f ys)) = sum_list (map g ys) - g x + g (f x)"
      using Cons.prems by (intro Cons.IH) auto
    then show ?thesis using x by (simp add: update_where_def)
  qed
qed simp

lemma open_amount_at_least:
  assumes "w \<in> set ws" "open_withdrawal w" "\<forall>w\<in>set ws. 0 < wd_amount w"
  shows "wd_amount w \<le> open_amount (wd_userId w) ws"
proof -
  have nonneg: "0 \<le> open_amount u xs" if "\<forall>w\<in>set xs. 0 < wd_amount w" for u xs
    using that unfolding open_amount_def by (intro sum_list_nonneg) auto
  show ?thesis
    using assms
  proof (induction ws)
    case (Cons v vs)
    then show ?case using nonneg [of vs] by (cases "w = v") (auto simp: open_amount_def)
  qed simp
qed

section \<open>Settling a withdrawal\<close>

text \<open>The booking of a mutation that has what it needs.\<close>

lemma posting_success:
  assumes "valid_params p" "params_key p \<notin> posted W" "newId \<notin> ledger_ids W" "mp_userId p \<in> db_users W"
    and "db_wallets W (mp_userId p) = Some w" "intended_on p w = Some w'"
  shows "applyWalletMutation newId id W p =
    (Inr \<lparr>mr_applied = True, mr_ledgerId = newId, mr_wallet = w'\<rparr>, posting_of W p newId w w')"
  using applyWalletMutation_posting [OF assms(1,2), of "W" newId id] assms by (simp add: posting_of_def)

text \<open>
  What approval, rejection and payment share: one row leaves the open ones and its amount leaves
  the locked balance. \<open>m\<close> says where the amount goes, \<open>type\<close> how it is booked.
\<close>

definition settle_mode :: "wallet_transaction_type \<Rightarrow> mutation_direction \<Rightarrow> balance_mode \<Rightarrow> bool" where
  "settle_mode type d m \<longleftrightarrow>
     type = WITHDRAW_PAID \<and> d = DEBIT \<and> m = LOCKED_ONLY \<or>
     type = WITHDRAW_REFUND \<and> d = CREDIT \<and> m = LOCKED_TO_AVAILABLE"

definition settled_status :: "wallet_transaction_type \<Rightarrow> withdraw_status" where
  "settled_status type = (if type = WITHDRAW_PAID then WD_PAID else WD_REJECTED)"

definition settle_on :: "mutation_direction \<Rightarrow> rat \<Rightarrow> wallet_row \<Rightarrow> wallet_row" where
  "settle_on d a w = set_balances
     (if d = CREDIT then wa_balance w + a else wa_balance w, wa_lockedBalance w - a) w"

lemma settle_intended:
  "settle_mode type d m \<Longrightarrow> a \<le> wa_lockedBalance w \<Longrightarrow>
   intended_on (with_meta meta u a d m) w = Some (settle_on d a w)"
  by (auto simp: settle_mode_def intended_on_def settle_on_def balances_def)

lemma ledger_entry_sel [simp]:
  "row_key (ledger_entry i p x y) = params_key p" "wt_id (ledger_entry i p x y) = i"
  "wt_amount (ledger_entry i p x y) = mp_amount p"
  "wt_userId (ledger_entry i p x y) = mp_userId p"
  "wt_referenceType (ledger_entry i p x y) = me_referenceType p"
  "wt_referenceId (ledger_entry i p x y) = me_referenceId p"
  by (simp_all add: row_key_def params_key_def ledger_entry_def)

lemma with_meta_reference [simp]:
  "me_referenceType (with_meta meta u a d m) = me_referenceType meta"
  "me_referenceId (with_meta meta u a d m) = me_referenceId meta"
  by (simp_all add: with_meta_def ledger_meta.defs)

lemma withdrawal_meta_sel [simp]:
  "me_referenceType (withdrawal_meta t v w) = ''withdrawal''" "me_referenceId (withdrawal_meta t v w) = wd_id w"
  "meta_key (wd_userId w) (withdrawal_meta t v w) = withdrawal_key t w"
  by (simp_all add: withdrawal_meta_def meta_key_def withdrawal_key_def)

lemma posting_of_sel [simp]:
  "db_users (posting_of W p i w w') = db_users W"
  "db_wallets (posting_of W p i w w') = (db_wallets W)(mp_userId p \<mapsto> w')"
  "posted (posting_of W p i w w') = insert (params_key p) (posted W)"
  by (simp_all add: posting_of_def posted_def)

text \<open>The ledger rows of one kind of reference; a posting of another kind leaves them alone.\<close>

definition rows_of :: "string \<Rightarrow> wallet_db \<Rightarrow> ledger_row list" where
  "rows_of k W = filter (\<lambda>row. wt_referenceType row = k) (db_ledger W)"

lemma rows_of_posting: "me_referenceType p \<noteq> k \<Longrightarrow> rows_of k (posting_of W p i w w') = rows_of k W"
  by (simp add: rows_of_def posting_of_def)

lemma posted_rows: "(u, t, k, i) \<in> posted W \<longleftrightarrow> (u, t, k, i) \<in> row_key ` set (rows_of k W)"
  by (auto simp: posted_def rows_of_def row_key_def)

lemma withdrawal_word [simp]: "js_trim ''withdrawal'' \<noteq> []"
  by code_simp


lemma withdrawal_key_eq [simp]:
  "withdrawal_key t w = withdrawal_key t' w' \<longleftrightarrow> t = t' \<and> wd_userId w = wd_userId w' \<and> wd_id w = wd_id w'"
  by (auto simp: withdrawal_key_def)

lemma settle_wallet:
  assumes books: "withdrawal_books W ws" and w: "w \<in> set ws" "open_withdrawal w"
    and mode: "settle_mode type d m" and fresh: "l \<notin> ledger_ids W"
  shows "\<exists>wa. db_wallets W (wd_userId w) = Some wa \<and>
    applyWalletMutation l id W (with_meta (withdrawal_meta type v w) (wd_userId w) (wd_amount w) d m) =
      (Inr \<lparr>mr_applied = True, mr_ledgerId = l, mr_wallet = settle_on d (wd_amount w) wa\<rparr>,
       posting_of W (with_meta (withdrawal_meta type v w) (wd_userId w) (wd_amount w) d m) l wa
         (settle_on d (wd_amount w) wa)) \<and>
    db_ok (posting_of W (with_meta (withdrawal_meta type v w) (wd_userId w) (wd_amount w) d m) l wa
         (settle_on d (wd_amount w) wa))"
proof -
  let ?p = "with_meta (withdrawal_meta type v w) (wd_userId w) (wd_amount w) d m"
  have ok: "withdrawal_ok W w" "db_ok W" using books w by (auto simp: withdrawal_books_def)
  have amounts: "\<forall>w\<in>set ws. 0 < wd_amount w" using books by (auto simp: withdrawal_books_def withdrawal_ok_def)
  obtain wa where wa: "db_wallets W (wd_userId w) = Some wa" using ok(1) by (auto simp: withdrawal_ok_def)
  have "wd_amount w \<le> wa_lockedBalance wa"
    using books wa open_amount_at_least [OF w amounts] by (simp add: withdrawal_books_def)
  then have intended: "intended_on ?p wa = Some (settle_on d (wd_amount w) wa)"
    by (rule settle_intended [OF mode])
  have key: "params_key ?p \<notin> posted W"
    using ok(1) w(2) mode by (auto simp: withdrawal_ok_def open_withdrawal_def settle_mode_def)
  have valid: "valid_params ?p" using ok(1) by (simp add: withdrawal_ok_def)
  have user: "mp_userId ?p \<in> db_users W" "db_wallets W (mp_userId ?p) = Some wa"
    using ok(1) wa by (simp_all add: withdrawal_ok_def)
  show ?thesis
    using posting_success [OF valid key fresh user intended]
      posting_ok [OF ok(2) fresh valid key user intended] wa by blast
qed

lemma settle_rows:
  assumes books: "withdrawal_books W ws" and w: "w \<in> set ws" "open_withdrawal w"
    and P: "\<And>y. y \<in> set ws \<Longrightarrow> P y \<longleftrightarrow> wd_id y = wd_id w"
    and f: "\<And>y. wd_id (f y) = wd_id y \<and> wd_userId (f y) = wd_userId y \<and> wd_amount (f y) = wd_amount y \<and>
      wd_status (f y) = settled_status type"
    and mode: "settle_mode type d m" and fresh: "l \<notin> ledger_ids W"
    and wa: "db_wallets W (wd_userId w) = Some wa"
    and W': "W' = posting_of W (with_meta (withdrawal_meta type v w) (wd_userId w) (wd_amount w) d m) l wa
       (settle_on d (wd_amount w) wa)" "db_ok W'"
  shows "withdrawal_books W' (update_where P f ws)"
proof -
  let ?ws = "update_where P f ws"
  have distinct: "distinct (map wd_id ws)" using books by (simp add: withdrawal_books_def)
  have same: "y = w" if "y \<in> set ws" "wd_id y = wd_id w" for y
    using that distinct w(1) by (metis distinct_map inj_onD)
  have types: "type = WITHDRAW_PAID \<or> type = WITHDRAW_REFUND" using mode by (auto simp: settle_mode_def)
  have ids: "map wd_id ?ws = map wd_id ws" by (rule map_update_where) (use f in simp)
  have row: "withdrawal_ok W' y" if y: "y \<in> set ?ws" for y
  proof -
    obtain x where x: "x \<in> set ws" "y = (if P x then f x else x)" using y by (auto simp: in_update_where)
    have okx: "withdrawal_ok W x" using books x(1) by (simp add: withdrawal_books_def)
    show ?thesis
    proof (cases "x = w")
      case True
      then show ?thesis
        using okx x(2) P [OF x(1)] f [of x] w(2) types
        by (auto simp: W'(1) withdrawal_ok_def settled_status_def open_withdrawal_def withdrawal_key_def)
    next
      case False
      then have "wd_id x \<noteq> wd_id w" using same x(1) by blast
      then show ?thesis
        using okx x(2) P [OF x(1)] by (auto simp: W'(1) withdrawal_ok_def)
    qed
  qed
  have old: "withdrawal_entry ?ws r" if "withdrawal_entry ws r" for r
  proof -
    have "\<exists>x'\<in>set ?ws. wd_userId x' = wd_userId x \<and> wd_id x' = wd_id x \<and> wd_amount x' = wd_amount x"
      if "x \<in> set ws" for x
      using that f by (intro bexI [of _ "if P x then f x else x"]) (auto simp: in_update_where)
    then show ?thesis using that unfolding withdrawal_entry_def by metis
  qed
  have entry: "withdrawal_entry ?ws r" if r: "r \<in> set (db_ledger W')" for r
  proof (cases "r \<in> set (db_ledger W)")
    case True
    then show ?thesis using books old by (simp add: withdrawal_books_def)
  next
    case False
    then have "withdrawal_entry ws r"
      using r w(1) by (auto simp: W'(1) posting_of_def withdrawal_entry_def)
    then show ?thesis by (rule old)
  qed
  have locked: "wa_lockedBalance x = open_amount u ?ws" if x: "db_wallets W' u = Some x" for u x
  proof -
    have "open_amount u ?ws = open_amount u ws - (if wd_userId w = u then wd_amount w else 0)"
      unfolding open_amount_def
      using sum_list_update_key [OF distinct w(1) P] w(2) f [of w] types
      by (auto simp: open_withdrawal_def settled_status_def)
    moreover have "wa_lockedBalance wa = open_amount (wd_userId w) ws"
      using books wa by (simp add: withdrawal_books_def)
    ultimately show ?thesis
      using x books by (auto simp: W'(1) withdrawal_books_def settle_on_def set_balances_def split: if_splits)
  qed
  show ?thesis
    using distinct ids row entry locked W'(2) by (simp add: withdrawal_books_def)
qed


section \<open>The shape of the three decisions\<close>

definition settle_step ::
  "wallet_transaction_type \<Rightarrow> mutation_direction \<Rightarrow> balance_mode \<Rightarrow> withdraw_status list \<Rightarrow>
   (withdrawal_row \<Rightarrow> withdrawal_row) \<Rightarrow> string \<Rightarrow> string \<Rightarrow> string \<Rightarrow> audit_row \<Rightarrow>
   (payment_db \<Rightarrow> payment_db) \<Rightarrow> string \<Rightarrow> payment_db \<Rightarrow> string \<Rightarrow> withdrawal_row payment" where
  "settle_step type d m statuses f verb refused missing audit others l db0 wid =
     (case find_withdrawal db0 wid of
        None \<Rightarrow> (Inl (Not_Found ''Withdrawal not found''), db0)
      | Some existing \<Rightarrow>
     (if \<not> List.member statuses (wd_status existing) then (Inl (Bad_Request refused), db0)
      else let db = others db0 in in_transaction db
     (let (count, db1) = update_withdrawals wid statuses f db
      in if count \<noteq> 1 then (Inl (Bad_Request refused), db1)
         else
           (case on_wallet (\<lambda>w. map_outcome (\<lambda>r. serializeWallet (mr_wallet r) None)
                   (applyWalletMutation l id w (with_meta (withdrawal_meta type verb existing)
                      (wd_userId existing) (wd_amount existing) d m))) db1 of
              (Inl e, db2) \<Rightarrow> (Inl e, db2)
            | (Inr _, db2) \<Rightarrow> refreshed_withdrawal missing wid (create_audit audit db2)))))"

lemma approveWithdrawal_shape:
  "approveWithdrawal others now l db wid url actorId =
   settle_step WITHDRAW_PAID DEBIT LOCKED_ONLY [WD_PENDING]
     (\<lambda>w. w\<lparr>wd_status := WD_PAID, wd_paidAt := Some now, wd_payoutTransactionUrl := Some (js_trim url)\<rparr>)
     ''Paid withdrawal'' ''Withdrawal cannot be approved'' ''Withdrawal not found after approval''
     \<lparr>au_actorId = actorId, au_action = ''admin.withdrawal.approve'', au_entity = ''Withdrawal'',
      au_entityId = Some wid\<rparr> others l db wid"
  unfolding approveWithdrawal_def settle_step_def consumeLockedFunds_def by (cases "find_withdrawal db wid") simp_all

lemma rejectWithdrawal_shape:
  "rejectWithdrawal others l db wid adminNote actorId =
   settle_step WITHDRAW_REFUND CREDIT LOCKED_TO_AVAILABLE [WD_PENDING]
     (\<lambda>w. w\<lparr>wd_status := WD_REJECTED, wd_adminNote := trimmed adminNote\<rparr>)
     ''Rejected withdrawal'' ''Withdrawal cannot be rejected'' ''Withdrawal not found after rejection''
     \<lparr>au_actorId = actorId, au_action = ''admin.withdrawal.reject'', au_entity = ''Withdrawal'',
      au_entityId = Some wid\<rparr> others l db wid"
proof (cases "find_withdrawal db wid")
  case None
  then show ?thesis by (simp add: rejectWithdrawal_def settle_step_def)
next
  case (Some a)
  then have a: "wd_id a = wid" by (simp add: find_withdrawal_in)
  show ?thesis
    unfolding rejectWithdrawal_def settle_step_def releaseLockedFunds_def
      reversibleWithdrawalStatuses_def Some option.case a by simp
qed

lemma markWithdrawalPaid_shape:
  "markWithdrawalPaid others now l db wid payoutRef actorId =
   settle_step WITHDRAW_PAID DEBIT LOCKED_ONLY [WD_APPROVED]
     (\<lambda>w. w\<lparr>wd_status := WD_PAID, wd_paidAt := Some now, wd_payoutRef := trimmed payoutRef\<rparr>)
     ''Paid withdrawal'' ''Only approved withdrawals can be marked paid''
     ''Withdrawal not found after payment''
     \<lparr>au_actorId = actorId, au_action = ''admin.withdrawal.mark_paid'', au_entity = ''Withdrawal'',
      au_entityId = Some wid\<rparr> others l db wid \<or>
   markWithdrawalPaid others now l db wid payoutRef actorId = (Inl (Db_Error ''P2002''), others db)"
proof (cases "find_withdrawal db wid")
  case None
  then show ?thesis by (simp add: markWithdrawalPaid_def settle_step_def)
next
  case (Some a)
  then have a: "wd_id a = wid" by (simp add: find_withdrawal_in)
  show ?thesis
    unfolding markWithdrawalPaid_def settle_step_def consumeLockedFunds_def Some option.case a
    by (simp add: in_transaction_def Let_def)
qed

text \<open>Every outcome of a decision.\<close>

definition settle_change :: "(withdrawal_row \<Rightarrow> withdrawal_row) \<Rightarrow> wallet_transaction_type \<Rightarrow> bool" where
  "settle_change f type \<longleftrightarrow>
     (\<forall>y. wd_id (f y) = wd_id y \<and> wd_userId (f y) = wd_userId y \<and> wd_amount (f y) = wd_amount y \<and>
        wd_provider (f y) = wd_provider y \<and> wd_status (f y) = settled_status type)"

definition settle_guard :: "wallet_transaction_type \<Rightarrow> withdraw_status list \<Rightarrow> bool" where
  "settle_guard type statuses \<longleftrightarrow>
     statuses = [WD_PENDING] \<or> statuses = [WD_APPROVED] \<and> type = WITHDRAW_PAID"

definition settled :: "withdrawal_row \<Rightarrow> withdrawal_row \<Rightarrow> wallet_transaction_type \<Rightarrow> mutation_direction \<Rightarrow>
    payment_db \<Rightarrow> payment_db \<Rightarrow> bool" where
  "settled w w' type d db db' \<longleftrightarrow>
     pd_withdrawals db' = update_where (\<lambda>x. wd_id x = wd_id w) (\<lambda>_. w') (pd_withdrawals db) \<and>
     posted (pd_wallet db') = insert (withdrawal_key type w) (posted (pd_wallet db)) \<and>
     pd_deposits db' = pd_deposits db \<and> pd_configs db' = pd_configs db \<and>
     pd_cachedConfigs db' = pd_cachedConfigs db \<and>
     db_users (pd_wallet db') = db_users (pd_wallet db) \<and>
     (\<forall>k. k \<noteq> ''withdrawal'' \<longrightarrow> rows_of k (pd_wallet db') = rows_of k (pd_wallet db)) \<and>
     (\<exists>wa. db_wallets (pd_wallet db) (wd_userId w) = Some wa \<and>
        db_wallets (pd_wallet db') = (db_wallets (pd_wallet db))(wd_userId w \<mapsto> settle_on d (wd_amount w) wa))"

lemma settle_step_success:
  assumes ok: "withdrawals_ok (others db0)" and follow: "withdrawals_follow db0 (others db0)"
    and mode: "settle_mode type d m" and guard: "settle_guard type statuses" and f: "settle_change f type"
    and fresh: "l \<notin> ledger_ids (pd_wallet (others db0))"
    and e: "find_withdrawal db0 wid = Some e" "List.member statuses (wd_status e)"
    and w: "find_withdrawal (others db0) wid = Some w" "List.member statuses (wd_status w)"
  shows "\<exists>db'. settle_step type d m statuses f verb refused missing audit others l db0 wid = (Inr (f w), db') \<and>
    withdrawals_ok db' \<and> settled w (f w) type d (others db0) db'"
proof -
  let ?db = "others db0" let ?ws = "pd_withdrawals ?db" let ?W = "pd_wallet ?db"
  let ?P = "\<lambda>y. wd_id y = wid \<and> List.member statuses (wd_status y)"
  have books: "withdrawal_books ?W ?ws" using ok by (simp add: withdrawals_ok_def)
  then have distinct: "distinct (map wd_id ?ws)" by (simp add: withdrawal_books_def)
  have inw: "w \<in> set ?ws" "wd_id w = wid" and ine: "e \<in> set (pd_withdrawals db0)" "wd_id e = wid"
    using find_withdrawal_in [OF w(1)] find_withdrawal_in [OF e(1)] by auto
  have "withdrawal_follows e w"
    using follow_same_id [OF follow distinct ine(1) inw(1)] inw(2) ine(2) by simp
  then have same: "wd_userId e = wd_userId w" "wd_amount e = wd_amount w" "wd_provider e = wd_provider w"
    by (auto simp: withdrawal_follows_def)
  have meta: "withdrawal_meta type verb e = withdrawal_meta type verb w"
    using same inw(2) ine(2) by (simp add: withdrawal_meta_def)
  have open_w: "open_withdrawal w"
    using w(2) guard by (auto simp: settle_guard_def open_withdrawal_def)
  have P: "?P y \<longleftrightarrow> wd_id y = wd_id w" if "y \<in> set ?ws" for y
    using that distinct inw w(2) by (metis distinct_map inj_onD)
  have f': "\<And>y. wd_id (f y) = wd_id y \<and> wd_userId (f y) = wd_userId y \<and> wd_amount (f y) = wd_amount y \<and>
      wd_status (f y) = settled_status type"
    using f by (simp add: settle_change_def)
  have "filter ?P ?ws = filter (\<lambda>y. wd_id y = wd_id w) ?ws" using P by (intro filter_cong) auto
  moreover have "length (filter (\<lambda>y. wd_id y = wd_id w) ?ws) = 1"
  proof -
    have "count_where (\<lambda>y. wd_id y = wd_id w) ?ws \<le> 1" by (rule count_where_key [OF distinct])
    moreover have "0 < count_where (\<lambda>y. wd_id y = wd_id w) ?ws" using inw(1) by (auto simp: count_where_pos)
    ultimately show ?thesis unfolding count_where_def by linarith
  qed
  ultimately have count: "count_where ?P ?ws = 1" by (simp add: count_where_def)
  let ?p = "with_meta (withdrawal_meta type verb w) (wd_userId w) (wd_amount w) d m"
  obtain wa where wa: "db_wallets ?W (wd_userId w) = Some wa"
    and posts: "applyWalletMutation l id ?W ?p =
      (Inr \<lparr>mr_applied = True, mr_ledgerId = l, mr_wallet = settle_on d (wd_amount w) wa\<rparr>,
       posting_of ?W ?p l wa (settle_on d (wd_amount w) wa))"
    and W': "db_ok (posting_of ?W ?p l wa (settle_on d (wd_amount w) wa))"
    using settle_wallet [OF books inw(1) open_w mode fresh] by blast
  let ?W' = "posting_of ?W ?p l wa (settle_on d (wd_amount w) wa)"
  let ?ws' = "update_where ?P f ?ws"
  have books': "withdrawal_books ?W' ?ws'"
    by (rule settle_rows [OF books inw(1) open_w P f' mode fresh wa refl W'])
  let ?db' = "create_audit audit (?db\<lparr>pd_withdrawals := ?ws', pd_wallet := ?W'\<rparr>)"
  have fw: "f w \<in> set ?ws'" using inw(1) P [OF inw(1)] by (auto simp: in_update_where)
  have "find_withdrawal ?db' wid = Some (f w)"
    using books' fw f' inw(2) by (subst find_withdrawal_iff) (auto simp: withdrawal_books_def create_audit_def)
  then have result: "settle_step type d m statuses f verb refused missing audit others l db0 wid = (Inr (f w), ?db')"
    by (simp add: settle_step_def e same meta update_withdrawals_def count Let_def on_wallet_def posts
        map_outcome_def refreshed_withdrawal_def in_transaction_def del: List.member_iff)
  have "?ws' = update_where (\<lambda>x. wd_id x = wd_id w) (\<lambda>_. f w) ?ws"
    unfolding update_where_def using P distinct inw(1) by (auto intro!: map_cong) (metis distinct_map inj_onD)
  then show ?thesis
    using result books' wa
    by (auto simp: withdrawals_ok_def create_audit_def settled_def rows_of_posting)
qed


lemma settle_step_refused:
  assumes distinct: "distinct (map wd_id (pd_withdrawals (others db0)))"
    and no: "\<not> (\<exists>e w. find_withdrawal db0 wid = Some e \<and> List.member statuses (wd_status e) \<and>
      find_withdrawal (others db0) wid = Some w \<and> List.member statuses (wd_status w))"
  shows "\<exists>err s. settle_step type d m statuses f verb refused missing audit others l db0 wid = (Inl err, s) \<and>
    (s = db0 \<or> s = others db0)"
proof (cases "\<exists>e. find_withdrawal db0 wid = Some e \<and> List.member statuses (wd_status e)")
  case True
  then obtain e where e: "find_withdrawal db0 wid = Some e" "List.member statuses (wd_status e)" by blast
  then have none: "\<forall>w. find_withdrawal (others db0) wid = Some w \<longrightarrow> \<not> List.member statuses (wd_status w)"
    using no by blast
  have "count_where (\<lambda>w. wd_id w = wid \<and> List.member statuses (wd_status w)) (pd_withdrawals (others db0)) = 0"
    using none find_withdrawal_iff [OF distinct] by (auto simp: count_where_zero)
  then show ?thesis
    by (simp add: settle_step_def e Let_def update_withdrawals_def in_transaction_def del: List.member_iff)
next
  case False
  then show ?thesis
    by (cases "find_withdrawal db0 wid") (simp_all add: settle_step_def del: List.member_iff)
qed

text \<open>A decision keeps the invariant and moves withdrawals only forwards.\<close>

lemma settle_step_keeps:
  assumes ok: "withdrawals_ok (others db0)" and follow: "withdrawals_follow db0 (others db0)"
    and mode: "settle_mode type d m" and guard: "settle_guard type statuses" and f: "settle_change f type"
    and fresh: "l \<notin> ledger_ids (pd_wallet (others db0))"
    and out: "settle_step type d m statuses f verb refused missing audit others l db0 wid = (r, db')"
  shows "db' = db0 \<and> isl r \<or> withdrawals_ok db' \<and> withdrawals_follow (others db0) db'"
proof (cases "\<exists>e w. find_withdrawal db0 wid = Some e \<and> List.member statuses (wd_status e) \<and>
      find_withdrawal (others db0) wid = Some w \<and> List.member statuses (wd_status w)")
  case False
  have "distinct (map wd_id (pd_withdrawals (others db0)))"
    using ok by (simp add: withdrawals_ok_def withdrawal_books_def)
  from settle_step_refused [where others = others and ?db0.0 = db0, OF this False,
      of type d m f verb refused missing audit l]
  show ?thesis using out ok by fastforce
next
  case True
  then obtain e w where e: "find_withdrawal db0 wid = Some e" "List.member statuses (wd_status e)"
    and w: "find_withdrawal (others db0) wid = Some w" "List.member statuses (wd_status w)" by blast
  have res: "withdrawals_ok db'" "settled w (f w) type d (others db0) db'"
    using settle_step_success [where others = others and ?db0.0 = db0, OF ok follow mode guard f fresh e w] out by (metis prod.inject)+
  have step: "withdrawal_follows w (f w)"
    using f w(2) guard mode
    by (auto simp: settle_change_def withdrawal_follows_def withdrawal_move_def settle_guard_def
        settled_status_def settle_mode_def)
  have one: "\<forall>x\<in>set (pd_withdrawals (others db0)). wd_id x = wd_id w \<longrightarrow> x = w"
    using ok find_withdrawal_in [OF w(1)]
    by (auto simp: withdrawals_ok_def withdrawal_books_def distinct_map inj_on_def)
  have "withdrawals_follow (others db0) db'"
    using res(2) one step unfolding withdrawals_follow_def settled_def
    by (metis (mono_tags, lifting) in_update_where withdrawal_follows_refl)
  then show ?thesis using res(1) by blast
qed

section \<open>A request\<close>

lemma new_key_free:
  "withdrawal_books W ws \<Longrightarrow> i \<notin> wd_id ` set ws \<Longrightarrow> (u, t, ''withdrawal'', i) \<notin> posted W"
  by (auto simp: withdrawal_books_def posted_def row_key_def withdrawal_entry_def)

definition lock_on :: "rat \<Rightarrow> wallet_row \<Rightarrow> wallet_row" where
  "lock_on a w = set_balances (wa_balance w - a, wa_lockedBalance w + a) w"

lemma request_books:
  assumes books: "withdrawal_books W ws" and fresh: "l \<notin> ledger_ids W" "wd_id c \<notin> wd_id ` set ws"
    and c: "0 < wd_amount c" "js_trim (wd_id c) \<noteq> []" "wd_status c = WD_PENDING"
    and user: "wd_userId c \<in> db_users W" "db_wallets W (wd_userId c) = Some wa" "wd_amount c \<le> wa_balance wa"
    and p: "p = with_meta (withdrawal_meta WITHDRAW_REQUEST v c) (wd_userId c) (wd_amount c) DEBIT AVAILABLE_TO_LOCKED"
  shows "applyWalletMutation l id W p =
      (Inr \<lparr>mr_applied = True, mr_ledgerId = l, mr_wallet = lock_on (wd_amount c) wa\<rparr>,
       posting_of W p l wa (lock_on (wd_amount c) wa))"
    and "withdrawal_books (posting_of W p l wa (lock_on (wd_amount c) wa)) (ws @ [c])"
proof -
  let ?W' = "posting_of W p l wa (lock_on (wd_amount c) wa)"
  have ok: "db_ok W" using books by (simp add: withdrawal_books_def)
  have key: "params_key p \<notin> posted W"
    using new_key_free [OF books fresh(2)] by (simp add: p withdrawal_key_def)
  have valid: "valid_params p" using c by (simp add: p)
  have intended: "intended_on p wa = Some (lock_on (wd_amount c) wa)"
    using user(3) by (simp add: p intended_on_def lock_on_def balances_def)
  have who: "mp_userId p \<in> db_users W" "db_wallets W (mp_userId p) = Some wa" using user by (simp_all add: p)
  show "applyWalletMutation l id W p =
      (Inr \<lparr>mr_applied = True, mr_ledgerId = l, mr_wallet = lock_on (wd_amount c) wa\<rparr>, ?W')"
    by (rule posting_success [OF valid key fresh(1) who intended])
  have ok': "db_ok ?W'" by (rule posting_ok [OF ok fresh(1) valid key who intended])
  have old: "withdrawal_ok ?W' w" if w: "w \<in> set ws" for w
  proof -
    have "wd_id w \<noteq> wd_id c" using fresh(2) w by (metis image_eqI)
    moreover have "withdrawal_ok W w" using books w by (simp add: withdrawal_books_def)
    ultimately show ?thesis by (auto simp: withdrawal_ok_def p)
  qed
  have new: "withdrawal_ok ?W' c"
    using c user new_key_free [OF books fresh(2)]
    by (simp add: withdrawal_ok_def p withdrawal_key_def)
  have entry: "withdrawal_entry (ws @ [c]) r" if r: "r \<in> set (db_ledger ?W')" for r
  proof (cases "r \<in> set (db_ledger W)")
    case True
    then show ?thesis using books by (force simp: withdrawal_books_def withdrawal_entry_def)
  next
    case False
    then show ?thesis using r by (auto simp: p posting_of_def withdrawal_entry_def)
  qed
  have locked: "wa_lockedBalance x = open_amount u (ws @ [c])" if x: "db_wallets ?W' u = Some x" for u x
  proof -
    have "open_amount u (ws @ [c]) = open_amount u ws + (if wd_userId c = u then wd_amount c else 0)"
      using c(3) by (simp add: open_amount_def open_withdrawal_def)
    moreover have "wa_lockedBalance wa = open_amount (wd_userId c) ws"
      using books user(2) by (simp add: withdrawal_books_def)
    ultimately show ?thesis
      using x books by (auto simp: p withdrawal_books_def lock_on_def set_balances_def split: if_splits)
  qed
  show "withdrawal_books ?W' (ws @ [c])"
    using books ok' old new entry locked fresh(2) by (auto simp: withdrawal_books_def)
qed


section \<open>The handler of a request\<close>

text \<open>What the handler checks before it opens the transaction, and the amount it reads.\<close>

definition request_amount ::
  "(string \<Rightarrow> rat option) \<Rightarrow> int \<Rightarrow> payment_db \<Rightarrow> string \<Rightarrow> create_withdrawal_dto \<Rightarrow> rat option" where
  "request_amount decimal now db userId dto =
     (if isl (fst (limit_payment now Withdrawal_Request userId db)) then None
      else if cw_provider dto \<noteq> TELEBIRR \<and> cw_provider dto \<noteq> CBE then None
      else if trimmed (cw_receiverPhone dto) = None \<and> trimmed (cw_receiverAccount dto) = None then None
      else (case decimal (cw_amount dto) of
         None \<Rightarrow> None
       | Some a \<Rightarrow> if 500 \<le> a \<and> a \<le> 10000 then Some a else None))"

lemma limit_payment_state:
  "limit_payment now action u db = (r, db') \<Longrightarrow> db' = db\<lparr>pd_buckets := pd_buckets db'\<rparr>"
  by (auto simp: limit_payment_def split: prod.splits)

lemma parse_limited_iff:
  "0 < lowest \<Longrightarrow> parse_limited decimal lowest m highest m' amount = Inr a \<longleftrightarrow>
   decimal amount = Some a \<and> lowest \<le> a \<and> a \<le> highest"
  by (auto simp: parse_limited_def split: option.splits if_splits)

lemma createWithdrawal_refused:
  assumes "request_amount decimal now db u dto = None"
  shows "\<exists>e. createWithdrawal decimal now newId l db u dto =
    (Inl e, snd (limit_payment now Withdrawal_Request u db))"
proof -
  obtain r db1 where l: "limit_payment now Withdrawal_Request u db = (r, db1)" by fastforce
  have "\<exists>e. parseWithdrawalAmount decimal (cw_amount dto) = Inl e"
    if "\<not> (case decimal (cw_amount dto) of None \<Rightarrow> False | Some a \<Rightarrow> 500 \<le> a \<and> a \<le> 10000)"
  proof (cases "parseWithdrawalAmount decimal (cw_amount dto)")
    case (Inr a)
    then show ?thesis using that by (simp add: parseWithdrawalAmount_def parse_limited_iff)
  qed simp
  then show ?thesis
    using assms
    by (cases r) (auto simp: request_amount_def l createWithdrawal_def supportedWithdrawalProviders_def
        split: option.splits if_splits)
qed

lemma createWithdrawal_opens:
  assumes "request_amount decimal now db u dto = Some a"
  shows "createWithdrawal decimal now newId l db u dto =
    (let db1 = snd (limit_payment now Withdrawal_Request u db); c = requested now newId u a dto
     in in_transaction db1
       (case getWalletOrThrow (pd_wallet db1) u of
          Inl e \<Rightarrow> (Inl e, db1)
        | Inr _ \<Rightarrow>
            (case on_wallet (\<lambda>w. moveBalanceToLocked l id w u a
                   (withdrawal_meta WITHDRAW_REQUEST ''Withdrawal request'' c))
                 (db1\<lparr>pd_withdrawals := pd_withdrawals db1 @ [c]\<rparr>) of
               (Inl e, db2) \<Rightarrow> (Inl e, db2)
             | (Inr _, db2) \<Rightarrow> (Inr c, db2))))"
proof -
  obtain r db1 where l: "limit_payment now Withdrawal_Request u db = (r, db1)" by fastforce
  have "parseWithdrawalAmount decimal (cw_amount dto) = Inr a"
    using assms by (auto simp: request_amount_def parseWithdrawalAmount_def parse_limited_iff
        split: option.splits if_splits)
  then show ?thesis
    using assms
    by (cases r; cases "getWalletOrThrow (pd_wallet db1) u")
      (auto simp: request_amount_def l createWithdrawal_def supportedWithdrawalProviders_def
        Let_def split: if_splits)
qed

lemma request_amount_bounds:
  "request_amount decimal now db u dto = Some a \<Longrightarrow> 500 \<le> a \<and> a \<le> 10000"
  by (auto simp: request_amount_def split: option.splits if_splits)

text \<open>The request goes through exactly when the available balance covers it.\<close>

lemma createWithdrawal_outcome:
  assumes ok: "withdrawals_ok db" and a: "request_amount decimal now db u dto = Some a"
    and fresh: "newId \<notin> wd_id ` set (pd_withdrawals db)" "js_trim newId \<noteq> []"
      "l \<notin> ledger_ids (pd_wallet db)"
    and user: "\<forall>v. db_wallets (pd_wallet db) v \<noteq> None \<longrightarrow> v \<in> db_users (pd_wallet db)"
  shows "case db_wallets (pd_wallet db) u of
      None \<Rightarrow> createWithdrawal decimal now newId l db u dto =
        (Inl (Not_Found ''Wallet not found''), snd (limit_payment now Withdrawal_Request u db))
    | Some wa \<Rightarrow>
        (if a \<le> wa_balance wa then
           \<exists>db'. createWithdrawal decimal now newId l db u dto = (Inr (requested now newId u a dto), db') \<and>
             withdrawals_ok db' \<and> pd_withdrawals db' = pd_withdrawals db @ [requested now newId u a dto] \<and>
             pd_deposits db' = pd_deposits db \<and>
             db_wallets (pd_wallet db') = (db_wallets (pd_wallet db))(u \<mapsto> lock_on a wa) \<and>
             db_users (pd_wallet db') = db_users (pd_wallet db) \<and>
             pd_configs db' = pd_configs db \<and> pd_cachedConfigs db' = pd_cachedConfigs db \<and>
             (\<forall>k. k \<noteq> ''withdrawal'' \<longrightarrow> rows_of k (pd_wallet db') = rows_of k (pd_wallet db)) \<and>
             posted (pd_wallet db') = insert (u, WITHDRAW_REQUEST, ''withdrawal'', newId) (posted (pd_wallet db))
         else createWithdrawal decimal now newId l db u dto =
           (Inl (Bad_Request ''Insufficient wallet balance''), snd (limit_payment now Withdrawal_Request u db)))"
proof -
  obtain r db1 where lim: "limit_payment now Withdrawal_Request u db = (r, db1)" by fastforce
  have same: "pd_wallet db1 = pd_wallet db" "pd_withdrawals db1 = pd_withdrawals db" "pd_deposits db1 = pd_deposits db"
    "pd_configs db1 = pd_configs db" "pd_cachedConfigs db1 = pd_cachedConfigs db"
    using limit_payment_state [OF lim] by (metis payment_db.select_convs payment_db.surjective payment_db.update_convs)+
  let ?W = "pd_wallet db" let ?ws = "pd_withdrawals db" let ?c = "requested now newId u a dto"
  let ?p = "with_meta (withdrawal_meta WITHDRAW_REQUEST ''Withdrawal request'' ?c) u a DEBIT AVAILABLE_TO_LOCKED"
  have books: "withdrawal_books ?W ?ws" using ok by (simp add: withdrawals_ok_def)
  have c: "wd_id ?c = newId" "wd_userId ?c = u" "wd_amount ?c = a" "wd_status ?c = WD_PENDING"
    by (simp_all add: requested_def)
  have a0: "0 < a" using request_amount_bounds [OF a] by simp
  show ?thesis
  proof (cases "db_wallets ?W u")
    case None
    then show ?thesis
      by (simp add: createWithdrawal_opens [OF a] lim same getWalletOrThrow_def in_transaction_def)
  next
    case (Some wa)
    have who: "u \<in> db_users ?W" using user Some by auto
    show ?thesis
    proof (cases "a \<le> wa_balance wa")
      case True
      let ?W' = "posting_of ?W ?p l wa (lock_on a wa)"
      have posts: "applyWalletMutation l id ?W ?p =
          (Inr \<lparr>mr_applied = True, mr_ledgerId = l, mr_wallet = lock_on a wa\<rparr>, ?W')"
        and books': "withdrawal_books ?W' (?ws @ [?c])"
        using request_books [OF books fresh(3), of ?c wa ?p "''Withdrawal request''"] fresh(1,2) c a0 who Some True
        by auto
      have key: "meta_key u (withdrawal_meta WITHDRAW_REQUEST ''Withdrawal request'' ?c) =
          (u, WITHDRAW_REQUEST, ''withdrawal'', newId)"
        by (simp add: meta_key_def withdrawal_meta_def c)
      show ?thesis
        using True Some books'
        by (simp add: createWithdrawal_opens [OF a] lim same getWalletOrThrow_def in_transaction_def
            on_wallet_def moveBalanceToLocked_def posts map_outcome_def withdrawals_ok_def Let_def key rows_of_posting)
    next
      case False
      have key: "params_key ?p \<notin> posted ?W"
        using new_key_free [OF books fresh(1)] by (simp add: withdrawal_key_def c meta_key_def withdrawal_meta_def)
      have valid: "valid_params ?p" using a0 fresh(2) by (simp add: c)
      have no: "intended_on ?p wa = None" using False by (simp add: intended_on_def balances_def)
      have "applyWalletMutation l id ?W ?p = (Inl (Bad_Request ''Insufficient wallet balance''), ?W)"
        using applyWalletMutation_posting [OF valid key, of ?W l id] key fresh(3) who Some no
        by (simp add: resolveMutationPlan_def)
      then show ?thesis
        using False Some
        by (simp add: createWithdrawal_opens [OF a] lim same getWalletOrThrow_def in_transaction_def
            on_wallet_def moveBalanceToLocked_def map_outcome_def)
    qed
  qed
qed

end
