(* ===== verification/DepositSteps.thy ===== *)
theory DepositSteps
  imports Deposits WithdrawalSteps
begin

text \<open>
  The invariant of the deposits. The ledger holds a credit for a deposit exactly when the deposit is
  approved, over the amount of the deposit, and no two active deposits have the same provider and
  reference: a payment is credited once. The handlers keep it, whatever other requests commit
  between their reads and their writes, with one exception: a rejection that another request's
  approval overtakes.
\<close>

section \<open>The invariant\<close>

definition deposit_key :: "deposit_row \<Rightarrow> ledger_key" where
  "deposit_key d = (dp_userId d, DEPOSIT, ''deposit'', dp_id d)"

definition deposit_ok :: "wallet_db \<Rightarrow> deposit_row \<Rightarrow> bool" where
  "deposit_ok W d \<longleftrightarrow>
     0 < dp_amount d \<and> js_trim (dp_id d) \<noteq> [] \<and> dp_userId d \<in> db_users W \<and>
     (deposit_key d \<in> posted W \<longleftrightarrow> dp_status d = DP_APPROVED)"

definition deposit_entry :: "deposit_row list \<Rightarrow> ledger_row \<Rightarrow> bool" where
  "deposit_entry ds row \<longleftrightarrow>
     (\<exists>d\<in>set ds. row_key row = deposit_key d \<and> wt_amount row = dp_amount d)"

definition reference_of :: "deposit_row \<Rightarrow> payment_provider \<times> string" where
  "reference_of d = (dp_provider d, dp_transactionRef d)"

definition references_unique :: "deposit_row list \<Rightarrow> bool" where
  "references_unique ds \<longleftrightarrow> distinct (map reference_of (filter active_deposit ds))"

definition deposit_books :: "wallet_db \<Rightarrow> deposit_row list \<Rightarrow> bool" where
  "deposit_books W ds \<longleftrightarrow>
     distinct (map dp_id ds) \<and> references_unique ds \<and> (\<forall>d\<in>set ds. deposit_ok W d) \<and>
     (\<forall>row\<in>set (rows_of ''deposit'' W). deposit_entry ds row)"

text \<open>What the whole store keeps.\<close>

definition payments_ok :: "payment_db \<Rightarrow> bool" where
  "payments_ok db \<longleftrightarrow>
     withdrawals_ok db \<and> deposit_books (pd_wallet db) (pd_deposits db) \<and> cache_ok db \<and>
     (\<forall>u. db_wallets (pd_wallet db) u \<noteq> None \<longrightarrow> u \<in> db_users (pd_wallet db))"

section \<open>Frames\<close>

lemma rows_posted:
  "rows_of k W' = rows_of k W \<Longrightarrow> (u, t, k, i) \<in> posted W' \<longleftrightarrow> (u, t, k, i) \<in> posted W"
  by (simp add: posted_rows)

lemma deposit_books_frame:
  assumes "deposit_books W ds" "rows_of ''deposit'' W' = rows_of ''deposit'' W" "db_users W' = db_users W"
  shows "deposit_books W' ds"
  using assms(1) unfolding deposit_books_def deposit_ok_def deposit_key_def
  by (simp add: rows_posted [OF assms(2)] assms(2,3))

lemma withdrawal_books_frame:
  assumes books: "withdrawal_books W ws" and W': "db_ok W'" "rows_of ''withdrawal'' W' = rows_of ''withdrawal'' W"
      "db_users W' = db_users W"
    and dom: "\<And>u. map_option wa_lockedBalance (db_wallets W' u) = map_option wa_lockedBalance (db_wallets W u)"
  shows "withdrawal_books W' ws"
proof -
  have some: "db_wallets W' u \<noteq> None \<longleftrightarrow> db_wallets W u \<noteq> None" for u
    using dom [of u] by (cases "db_wallets W u"; cases "db_wallets W' u") auto
  have "withdrawal_ok W' w" if "withdrawal_ok W w" for w
    using that some unfolding withdrawal_ok_def withdrawal_key_def
    by (simp add: rows_posted [OF W'(2)] W'(3))
  moreover have "withdrawal_entry ws row" if row: "row \<in> set (db_ledger W')" for row
  proof (cases "wt_referenceType row = ''withdrawal''")
    case True
    then have "row \<in> set (rows_of ''withdrawal'' W')" using row by (simp add: rows_of_def)
    then have "row \<in> set (rows_of ''withdrawal'' W)" using W'(2) by simp
    then show ?thesis using books by (auto simp: withdrawal_books_def rows_of_def)
  qed (simp add: withdrawal_entry_def)
  moreover have "wa_lockedBalance x = open_amount u ws" if x: "db_wallets W' u = Some x" for u x
  proof -
    obtain y where "db_wallets W u = Some y" "wa_lockedBalance x = wa_lockedBalance y"
      using dom [of u] x by (cases "db_wallets W u") auto
    then show ?thesis using books by (simp add: withdrawal_books_def)
  qed
  ultimately show ?thesis using books W'(1) by (simp add: withdrawal_books_def)
qed

text \<open>A posting for another purpose on the available balance is a frame for both tables.\<close>

lemma available_posting_frame:
  assumes "withdrawal_books W ws" "deposit_books W ds" "db_ok (posting_of W p l w w')"
    and "me_referenceType p \<noteq> ''withdrawal''" "me_referenceType p \<noteq> ''deposit''"
    and "db_wallets W (mp_userId p) = Some w" "wa_lockedBalance w' = wa_lockedBalance w"
  shows "withdrawal_books (posting_of W p l w w') ws" "deposit_books (posting_of W p l w w') ds"
  using assms
  by (auto intro: withdrawal_books_frame deposit_books_frame simp: rows_of_posting)

section \<open>What a step may do to a deposit\<close>

definition deposit_follows :: "deposit_row \<Rightarrow> deposit_row \<Rightarrow> bool" where
  "deposit_follows d d' \<longleftrightarrow>
     dp_id d' = dp_id d \<and> dp_userId d' = dp_userId d \<and> dp_amount d' = dp_amount d \<and>
     dp_provider d' = dp_provider d \<and> dp_transactionRef d' = dp_transactionRef d \<and>
     (dp_status d \<noteq> DP_PENDING \<longrightarrow> dp_status d' = dp_status d)"

definition deposits_follow :: "payment_db \<Rightarrow> payment_db \<Rightarrow> bool" where
  "deposits_follow db db' \<longleftrightarrow>
     (\<forall>d\<in>set (pd_deposits db). \<exists>d'\<in>set (pd_deposits db'). deposit_follows d d')"

lemma deposit_follows_refl [simp]: "deposit_follows d d"
  by (simp add: deposit_follows_def)

lemma deposit_follows_trans: "deposit_follows x y \<Longrightarrow> deposit_follows y z \<Longrightarrow> deposit_follows x z"
  by (auto simp: deposit_follows_def)

lemma deposits_follow_same [simp]: "pd_deposits db' = pd_deposits db \<Longrightarrow> deposits_follow db db'"
  by (auto simp: deposits_follow_def intro: deposit_follows_refl)

lemma deposits_follow_trans: "deposits_follow x y \<Longrightarrow> deposits_follow y z \<Longrightarrow> deposits_follow x z"
  by (meson deposits_follow_def deposit_follows_trans)

lemma find_deposit_in: "find_deposit db i = Some d \<Longrightarrow> d \<in> set (pd_deposits db) \<and> dp_id d = i"
  unfolding find_deposit_def by (drule find_in) simp

lemma find_deposit_iff:
  "distinct (map dp_id (pd_deposits db)) \<Longrightarrow>
   find_deposit db i = Some d \<longleftrightarrow> d \<in> set (pd_deposits db) \<and> dp_id d = i"
  using find_key [of dp_id "pd_deposits db" d] find_deposit_in [of db i d]
  by (auto simp: find_deposit_def)

lemma deposits_follow_update:
  "pd_deposits db' = update_where P f (pd_deposits db) \<Longrightarrow>
   (\<And>d. d \<in> set (pd_deposits db) \<Longrightarrow> P d \<Longrightarrow> deposit_follows d (f d)) \<Longrightarrow> deposits_follow db db'"
  unfolding deposits_follow_def by (metis in_update_where deposit_follows_refl)

lemma update_where_in: "x \<in> set xs \<Longrightarrow> (if P x then f x else x) \<in> set (update_where P f xs)"
  by (simp add: update_where_def)

section \<open>A new deposit\<close>

lemma new_deposit_key_free:
  "deposit_books W ds \<Longrightarrow> i \<notin> dp_id ` set ds \<Longrightarrow> (u, t, ''deposit'', i) \<notin> posted W"
  by (auto simp: posted_rows deposit_books_def deposit_entry_def deposit_key_def)

lemma insert_deposit_done:
  assumes "insert_deposit row db = (Inr r, db')"
  shows "dp_id row \<notin> dp_id ` set (pd_deposits db) \<and> dp_userId row \<in> db_users (pd_wallet db) \<and>
    (active_deposit row \<longrightarrow> reference_of row \<notin> reference_of ` set (filter active_deposit (pd_deposits db))) \<and>
    db' = db\<lparr>pd_deposits := pd_deposits db @ [row]\<rparr>"
  using assms
  by (auto simp: insert_deposit_def reference_of_def same_reference_def list_ex_iff split: if_splits)

lemma insert_deposit_failed: "insert_deposit row db = (Inl e, db') \<Longrightarrow> db' = db"
  by (auto simp: insert_deposit_def split: if_splits)

text \<open>The tables after a new row: \<open>W'\<close> has its credit exactly when it is approved.\<close>

lemma new_deposit_books:
  assumes books: "deposit_books W ds" and fresh: "dp_id d \<notin> dp_id ` set ds"
    and ref: "active_deposit d \<Longrightarrow> reference_of d \<notin> reference_of ` set (filter active_deposit ds)"
    and d: "0 < dp_amount d" "js_trim (dp_id d) \<noteq> []" "dp_userId d \<in> db_users W"
    and users: "db_users W' = db_users W"
    and rows: "rows_of ''deposit'' W' = rows_of ''deposit'' W @ new"
    and new: "if dp_status d = DP_APPROVED
      then \<exists>row. new = [row] \<and> row_key row = deposit_key d \<and> wt_amount row = dp_amount d else new = []"
  shows "deposit_books W' (ds @ [d])"
proof -
  have keys: "(u, t, ''deposit'', i) \<in> posted W' \<longleftrightarrow>
      (u, t, ''deposit'', i) \<in> posted W \<or> dp_status d = DP_APPROVED \<and> (u, t, ''deposit'', i) = deposit_key d" for u t i
    using new by (auto simp: posted_rows rows split: if_splits)
  have old: "deposit_ok W' x" if x: "x \<in> set ds" for x
  proof -
    have "dp_id x \<noteq> dp_id d" using fresh x by (metis image_eqI)
    moreover have "deposit_ok W x" using books x by (simp add: deposit_books_def)
    ultimately show ?thesis using users by (auto simp: deposit_ok_def deposit_key_def keys)
  qed
  have "deposit_ok W' d"
    using d users new_deposit_key_free [OF books fresh] by (auto simp: deposit_ok_def deposit_key_def keys)
  moreover have "deposit_entry (ds @ [d]) row" if "row \<in> set (rows_of ''deposit'' W')" for row
    using that books new by (auto simp: rows deposit_books_def deposit_entry_def split: if_splits)
  ultimately show ?thesis
    using books fresh ref old by (auto simp: deposit_books_def references_unique_def)
qed

section \<open>The credit\<close>

definition deposit_credit :: "deposit_row \<Rightarrow> mutation_params" where
  "deposit_credit d = with_meta (deposit_meta d) (dp_userId d) (dp_amount d) CREDIT AVAILABLE"

definition credited :: "rat \<Rightarrow> wallet_row \<Rightarrow> wallet_row" where
  "credited a w = set_balances (wa_balance w + a, wa_lockedBalance w) w"

lemma deposit_word [simp]: "js_trim ''deposit'' \<noteq> []"
  by code_simp

lemma deposit_meta_sel [simp]:
  "meta_key (dp_userId d) (deposit_meta d) = deposit_key d"
  "me_referenceType (deposit_meta d) = ''deposit''" "me_referenceId (deposit_meta d) = dp_id d"
  by (simp_all add: meta_key_def deposit_meta_def deposit_key_def)

lemma deposit_credit_sel [simp]:
  "mp_userId (deposit_credit d) = dp_userId d" "params_key (deposit_credit d) = deposit_key d"
  "me_referenceType (deposit_credit d) = ''deposit''" "mp_amount (deposit_credit d) = dp_amount d"
  "valid_params (deposit_credit d) \<longleftrightarrow> 0 < dp_amount d \<and> js_trim (dp_id d) \<noteq> []"
  by (simp_all add: deposit_credit_def)

lemma credit_wallet:
  assumes ok: "db_ok W" and d: "0 < dp_amount d" "js_trim (dp_id d) \<noteq> []" "dp_userId d \<in> db_users W"
    and fresh: "l \<notin> ledger_ids W" "deposit_key d \<notin> posted W"
  shows "creditWallet l id W (dp_userId d) (dp_amount d) (deposit_meta d) =
    (case db_wallets W (dp_userId d) of
       None \<Rightarrow> (Inl (Not_Found ''Wallet not found''), W)
     | Some w \<Rightarrow> (Inr l, posting_of W (deposit_credit d) l w (credited (dp_amount d) w)))"
    and "db_wallets W (dp_userId d) = Some w \<Longrightarrow> db_ok (posting_of W (deposit_credit d) l w (credited (dp_amount d) w))"
proof -
  have valid: "valid_params (deposit_credit d)" and key: "params_key (deposit_credit d) \<notin> posted W"
    and user: "mp_userId (deposit_credit d) \<in> db_users W" using d fresh by simp_all
  have intended: "intended_on (deposit_credit d) w = Some (credited (dp_amount d) w)" for w
    by (simp add: deposit_credit_def intended_on_def credited_def balances_def)
  show "creditWallet l id W (dp_userId d) (dp_amount d) (deposit_meta d) =
    (case db_wallets W (dp_userId d) of
       None \<Rightarrow> (Inl (Not_Found ''Wallet not found''), W)
     | Some w \<Rightarrow> (Inr l, posting_of W (deposit_credit d) l w (credited (dp_amount d) w)))"
  proof (cases "db_wallets W (dp_userId d)")
    case None
    have "applyWalletMutation l id W (deposit_credit d) = (Inl (Not_Found ''Wallet not found''), W)"
      using applyWalletMutation_posting [OF valid key, of W l id] fresh d None
      by (simp add: deposit_credit_def resolveMutationPlan_def)
    then show ?thesis using None by (simp add: creditWallet_def deposit_credit_def map_outcome_def)
  next
    case (Some w)
    have "applyWalletMutation l id W (deposit_credit d) =
      (Inr \<lparr>mr_applied = True, mr_ledgerId = l, mr_wallet = credited (dp_amount d) w\<rparr>,
       posting_of W (deposit_credit d) l w (credited (dp_amount d) w))"
      by (rule posting_success [OF valid key fresh(1) user _ intended]) (simp add: Some)
    then show ?thesis using Some by (simp add: creditWallet_def deposit_credit_def map_outcome_def)
  qed
  show "db_ok (posting_of W (deposit_credit d) l w (credited (dp_amount d) w))"
    if "db_wallets W (dp_userId d) = Some w"
    by (rule posting_ok [OF ok fresh(1) valid key user _ intended]) (simp add: that)
qed

lemma rows_of_credit:
  "rows_of ''deposit'' (posting_of W (deposit_credit d) l w w') =
   rows_of ''deposit'' W @ [ledger_entry l (deposit_credit d) (wa_balance w) (wa_balance w')]"
  by (simp add: rows_of_def posting_of_def)

text \<open>The booking of the identifier in the deposit changes nothing the invariant reads.\<close>

lemma link_books:
  "deposit_books W (update_where P (\<lambda>x. x\<lparr>dp_walletTransactionId := t\<rparr>) ds) \<longleftrightarrow> deposit_books W ds"
proof -
  let ?f = "\<lambda>x. if P x then x\<lparr>dp_walletTransactionId := t\<rparr> else x"
  have sel: "dp_id (?f x) = dp_id x" "reference_of (?f x) = reference_of x" "active_deposit (?f x) = active_deposit x"
    "deposit_ok W (?f x) = deposit_ok W x" "deposit_key (?f x) = deposit_key x" "dp_amount (?f x) = dp_amount x" for x
    by (simp_all add: reference_of_def active_deposit_def deposit_ok_def deposit_key_def)
  have "map reference_of (filter active_deposit (map ?f ds)) = map reference_of (filter active_deposit ds)"
    by (induction ds) (simp_all add: sel)
  then show ?thesis
    by (simp add: deposit_books_def update_where_def references_unique_def deposit_entry_def sel o_def
        del: if_image_distrib)
qed


section \<open>The effect of a handler\<close>

definition deposit_effect :: "payment_db \<Rightarrow> payment_db \<Rightarrow> bool" where
  "deposit_effect db db' \<longleftrightarrow>
     pd_withdrawals db' = pd_withdrawals db \<and> pd_configs db' = pd_configs db \<and>
     pd_cachedConfigs db' = pd_cachedConfigs db \<and>
     db_users (pd_wallet db') = db_users (pd_wallet db) \<and>
     (\<forall>u. map_option wa_lockedBalance (db_wallets (pd_wallet db') u) =
          map_option wa_lockedBalance (db_wallets (pd_wallet db) u)) \<and>
     db_ok (pd_wallet db') \<and>
     rows_of ''withdrawal'' (pd_wallet db') = rows_of ''withdrawal'' (pd_wallet db) \<and>
     deposit_books (pd_wallet db') (pd_deposits db') \<and> deposits_follow db db'"

lemma stored_configs_same: "pd_configs db' = pd_configs db \<Longrightarrow> stored_configs db' = stored_configs db"
  by (simp add: stored_configs_def)

lemma deposit_effect_ok:
  assumes ok: "payments_ok db" and step: "deposit_effect db db'"
  shows "payments_ok db'"
proof -
  have "withdrawal_books (pd_wallet db') (pd_withdrawals db)"
    by (rule withdrawal_books_frame [of "pd_wallet db"])
      (use ok step in \<open>simp_all add: payments_ok_def withdrawals_ok_def deposit_effect_def\<close>)
  moreover have "db_wallets (pd_wallet db') u \<noteq> None \<Longrightarrow> db_wallets (pd_wallet db) u \<noteq> None" for u
    using step by (metis deposit_effect_def map_option_is_None)
  moreover have "cache_ok db'"
    using ok step stored_configs_same [of db' db]
    by (auto simp: payments_ok_def deposit_effect_def cache_ok_def split: option.splits)
  ultimately show ?thesis
    using ok step by (auto simp: payments_ok_def withdrawals_ok_def deposit_effect_def)
qed

lemma deposit_effect_refl: "payments_ok db \<Longrightarrow> deposit_effect db db"
  by (simp add: deposit_effect_def payments_ok_def withdrawals_ok_def withdrawal_books_def)

lemma used_reference_cases:
  "used_reference out = (r, db') \<Longrightarrow>
   (\<exists>e e'. out = (Inl e, db') \<and> r = Inl e') \<or> (\<exists>x. out = (Inr x, db') \<and> r = Inr x)"
  by (auto simp: used_reference_def split: prod.splits sum.splits)

lemma books_of [simp]:
  "payments_ok db \<Longrightarrow> deposit_books (pd_wallet db) (pd_deposits db)"
  "payments_ok db \<Longrightarrow> db_ok (pd_wallet db)"
  by (simp_all add: payments_ok_def withdrawals_ok_def withdrawal_books_def)

lemma pending_deposit_sel [simp]:
  "dp_id (pending_deposit now i u p a ref dto) = i" "dp_userId (pending_deposit now i u p a ref dto) = u"
  "dp_amount (pending_deposit now i u p a ref dto) = a" "dp_provider (pending_deposit now i u p a ref dto) = p"
  "dp_transactionRef (pending_deposit now i u p a ref dto) = ref"
  "dp_status (pending_deposit now i u p a ref dto) = DP_PENDING"
  by (simp_all add: pending_deposit_def)

lemma approved_deposit_sel [simp]:
  "dp_id (approved_deposit now i v params) = i" "dp_userId (approved_deposit now i v params) = ap_userId params"
  "dp_amount (approved_deposit now i v params) = ap_amount params"
  "dp_provider (approved_deposit now i v params) = ap_provider params"
  "dp_transactionRef (approved_deposit now i v params) = ap_transactionRef params"
  "dp_status (approved_deposit now i v params) = DP_APPROVED"
  by (simp_all add: approved_deposit_def)

lemma deposits_follow_append: "deposits_follow db (db\<lparr>pd_deposits := pd_deposits db @ ds\<rparr>)"
  by (auto simp: deposits_follow_def intro: deposit_follows_refl)

lemma create_pending_effect:
  assumes ok: "payments_ok db" and a: "0 < amount" "js_trim newId \<noteq> []"
    and out: "createManualPendingDeposit now newId db userId provider amount ref dto = (r, db')"
  shows "case r of Inl e \<Rightarrow> db' = db
    | Inr d \<Rightarrow> d = pending_deposit now newId userId provider amount ref dto \<and>
        db' = db\<lparr>pd_deposits := pd_deposits db @ [d]\<rparr> \<and> deposit_effect db db'"
proof -
  let ?d = "pending_deposit now newId userId provider amount ref dto"
  obtain res db1 where ins: "insert_deposit ?d db = (res, db1)" by fastforce
  show ?thesis
  proof (cases res)
    case (Inl e)
    then show ?thesis
      using out ins insert_deposit_failed [of ?d db e db1]
      by (auto simp: createManualPendingDeposit_def used_reference_def Let_def)
  next
    case (Inr x)
    note new = insert_deposit_done [of ?d db x db1]
    have "deposit_books (pd_wallet db) (pd_deposits db @ [?d])"
      by (rule new_deposit_books [where new = "[]"]) (use new ins Inr ok a in auto)
    then show ?thesis
      using out ins Inr new ok deposits_follow_append [of db "[?d]"]
      by (auto simp: createManualPendingDeposit_def used_reference_def Let_def deposit_effect_def)
  qed
qed

text \<open>The credit of a deposit that is in the table.\<close>

lemma credit_deposit_outcome:
  assumes W: "db_ok (pd_wallet db)" and d: "0 < dp_amount d" "js_trim (dp_id d) \<noteq> []"
      "dp_userId d \<in> db_users (pd_wallet db)"
    and fresh: "l \<notin> ledger_ids (pd_wallet db)" "deposit_key d \<notin> posted (pd_wallet db)"
  shows "credit_deposit l d db =
    (case db_wallets (pd_wallet db) (dp_userId d) of
       None \<Rightarrow> (Inl (Not_Found ''Wallet not found''), db)
     | Some w \<Rightarrow>
         (Inr (), db\<lparr>pd_wallet := posting_of (pd_wallet db) (deposit_credit d) l w (credited (dp_amount d) w),
            pd_deposits := update_where (\<lambda>x. dp_id x = dp_id d \<and> l \<noteq> [])
              (\<lambda>x. x\<lparr>dp_walletTransactionId := Some l\<rparr>) (pd_deposits db)\<rparr>))"
proof (cases "db_wallets (pd_wallet db) (dp_userId d)")
  case None
  then show ?thesis
    using credit_wallet(1) [OF W d fresh] by (simp add: credit_deposit_def on_wallet_def)
next
  case (Some w)
  have none: "update_where (\<lambda>x. False) f xs = xs" for f and xs :: "deposit_row list"
    by (rule update_where_none) simp
  show ?thesis
    using credit_wallet(1) [OF W d fresh] Some none
    by (cases "l = []") (simp_all add: credit_deposit_def on_wallet_def update_deposit_def)
qed

lemma credit_effect:
  assumes ok: "payments_ok db" and W: "db_wallets (pd_wallet db) (dp_userId d) = Some w"
    and W': "W' = posting_of (pd_wallet db) (deposit_credit d) l w (credited (dp_amount d) w)" "db_ok W'"
    and books: "deposit_books W' ds"
    and db': "pd_wallet db' = W'" "pd_withdrawals db' = pd_withdrawals db" "pd_configs db' = pd_configs db"
      "pd_cachedConfigs db' = pd_cachedConfigs db"
      "pd_deposits db' = update_where P (\<lambda>x. x\<lparr>dp_walletTransactionId := t\<rparr>) ds"
    and follow: "deposits_follow db db'"
  shows "deposit_effect db db'"
  using assms
  by (auto simp: deposit_effect_def link_books rows_of_posting credited_def set_balances_def)

lemma create_approved_effect:
  assumes ok: "payments_ok db" and a: "0 < ap_amount params" "js_trim newId \<noteq> []"
    and fresh: "l \<notin> ledger_ids (pd_wallet db)"
    and out: "createApprovedDeposit decimal now newId l db params = (r, db')"
  shows "case r of Inl e \<Rightarrow> db' = db
    | Inr d \<Rightarrow> dp_id d = newId \<and> dp_userId d = ap_userId params \<and> dp_amount d = ap_amount params \<and>
        dp_provider d = ap_provider params \<and> dp_transactionRef d = ap_transactionRef params \<and>
        dp_status d = DP_APPROVED \<and>
        reference_of d \<notin> reference_of ` set (filter active_deposit (pd_deposits db)) \<and>
        pd_deposits db' = pd_deposits db @ [d] \<and>
        (\<exists>w. db_wallets (pd_wallet db) (ap_userId params) = Some w \<and>
           db_wallets (pd_wallet db') = (db_wallets (pd_wallet db))(ap_userId params \<mapsto> credited (ap_amount params) w)) \<and>
        deposit_effect db db'"
proof (cases "verified_amount decimal params")
  case (Inl e)
  then show ?thesis using out by (auto simp: createApprovedDeposit_def)
next
  case (Inr v)
  let ?d = "approved_deposit now newId v params"
  obtain res db1 where ins: "insert_deposit ?d db = (res, db1)" by fastforce
  show ?thesis
  proof (cases res)
    case failed: (Inl e)
    then show ?thesis
      using out ins Inr by (auto simp: createApprovedDeposit_def used_reference_def Let_def in_transaction_def)
  next
    case inserted: (Inr x)
    have new: "newId \<notin> dp_id ` set (pd_deposits db)" "ap_userId params \<in> db_users (pd_wallet db)"
      "reference_of ?d \<notin> reference_of ` set (filter active_deposit (pd_deposits db))"
      "db1 = db\<lparr>pd_deposits := pd_deposits db @ [?d]\<rparr>"
      using insert_deposit_done [of ?d db x db1] ins inserted by (auto simp: active_deposit_def)
    have key: "deposit_key ?d \<notin> posted (pd_wallet db1)"
      using new_deposit_key_free [OF books_of(1) [OF ok] new(1)] new(4) by (simp add: deposit_key_def)
    have credit: "credit_deposit l ?d db1 =
      (case db_wallets (pd_wallet db) (ap_userId params) of
         None \<Rightarrow> (Inl (Not_Found ''Wallet not found''), db1)
       | Some w \<Rightarrow>
           (Inr (), db1\<lparr>pd_wallet := posting_of (pd_wallet db) (deposit_credit ?d) l w (credited (ap_amount params) w),
              pd_deposits := update_where (\<lambda>x. dp_id x = newId \<and> l \<noteq> [])
                (\<lambda>x. x\<lparr>dp_walletTransactionId := Some l\<rparr>) (pd_deposits db1)\<rparr>))"
      using credit_deposit_outcome [of db1 ?d l] ok a fresh new key
      by (cases "db_wallets (pd_wallet db) (ap_userId params)") simp_all
    show ?thesis
    proof (cases "db_wallets (pd_wallet db) (ap_userId params)")
      case None
      then show ?thesis
        using out ins Inr inserted credit
        by (auto simp: createApprovedDeposit_def used_reference_def Let_def in_transaction_def)
    next
      case (Some w)
      let ?W' = "posting_of (pd_wallet db) (deposit_credit ?d) l w (credited (ap_amount params) w)"
      let ?link = "\<lambda>x. x\<lparr>dp_walletTransactionId := Some l\<rparr>"
      let ?d' = "if l \<noteq> [] then ?link ?d else ?d"
      have old: "update_where (\<lambda>x. dp_id x = newId \<and> l \<noteq> []) ?link (pd_deposits db) = pd_deposits db"
        using new(1) by (intro update_where_none) auto
      have rows: "update_where (\<lambda>x. dp_id x = newId \<and> l \<noteq> []) ?link (pd_deposits db @ [?d]) =
          pd_deposits db @ [?d']"
        using old by (simp add: update_where_def)
      have books: "deposit_books ?W' (pd_deposits db @ [?d])"
        by (rule new_deposit_books [OF books_of(1) [OF ok],
              where new = "[ledger_entry l (deposit_credit ?d) (wa_balance w) (wa_balance (credited (ap_amount params) w))]"])
          (use new a in \<open>auto simp: rows_of_credit\<close>)
      have W': "db_ok ?W'"
        using credit_wallet(2) [of "pd_wallet db" ?d l w] ok a new key fresh Some by simp
      let ?db' = "db\<lparr>pd_wallet := ?W', pd_deposits := pd_deposits db @ [?d']\<rparr>"
      have effect: "deposit_effect db ?db'"
        by (rule credit_effect [OF ok, where d = ?d and w = w and l = l
              and P = "\<lambda>x. dp_id x = newId \<and> l \<noteq> []" and t = "Some l", OF _ _ W' books])
          (use Some deposits_follow_append [of "db\<lparr>pd_wallet := ?W'\<rparr>" "[?d']"] in
            \<open>simp_all add: deposits_follow_def rows\<close>)
      have "find_deposit ?db' newId = Some ?d'"
        using new(1) by (subst find_deposit_iff) (use ok in \<open>auto simp: payments_ok_def deposit_books_def\<close>)
      then have "r = Inr ?d'" "db' = ?db'"
        using out ins Inr inserted credit Some new(4) rows
        by (auto simp: createApprovedDeposit_def used_reference_def Let_def in_transaction_def refreshed_deposit_def
            split: if_splits)
      then show ?thesis using effect Some new(3) by (auto simp: reference_of_def)
    qed
  qed
qed


section \<open>The effect of a decision\<close>

lemma references_unique_update:
  assumes "references_unique ds" "\<And>y. y \<in> set ds \<Longrightarrow> P y \<Longrightarrow> reference_of (f y) = reference_of y"
    and "\<And>y. y \<in> set ds \<Longrightarrow> P y \<Longrightarrow> active_deposit (f y) \<Longrightarrow> active_deposit y"
  shows "references_unique (update_where P f ds)"
proof -
  have "subseq (map reference_of (filter active_deposit (update_where P f ds)))
      (map reference_of (filter active_deposit ds))"
    using assms(2,3) by (induction ds) (auto simp: update_where_def)
  then show ?thesis using assms(1) unfolding references_unique_def by (rule subseq_distinct)
qed

lemma approve_rows:
  assumes books: "deposit_books W ds" and d: "d \<in> set ds" "dp_status d = DP_PENDING"
    and P: "\<And>y. y \<in> set ds \<Longrightarrow> P y \<longleftrightarrow> y = d"
    and f: "dp_id (f d) = dp_id d" "dp_userId (f d) = dp_userId d" "dp_amount (f d) = dp_amount d"
      "reference_of (f d) = reference_of d" "dp_status (f d) = DP_APPROVED"
    and users: "db_users W' = db_users W"
    and rows: "rows_of ''deposit'' W' = rows_of ''deposit'' W @ [row]"
    and row: "row_key row = deposit_key d" "wt_amount row = dp_amount d"
  shows "deposit_books W' (update_where P f ds)"
proof -
  have distinct: "distinct (map dp_id ds)" using books by (simp add: deposit_books_def)
  have keys: "(u, t, ''deposit'', i) \<in> posted W' \<longleftrightarrow>
      (u, t, ''deposit'', i) \<in> posted W \<or> (u, t, ''deposit'', i) = deposit_key d" for u t i
    using row by (auto simp: posted_rows rows)
  have ok: "deposit_ok W' y" if y: "y \<in> set (update_where P f ds)" for y
  proof -
    obtain x where x: "x \<in> set ds" "y = (if P x then f x else x)" using y by (auto simp: in_update_where)
    have okx: "deposit_ok W x" using books x(1) by (simp add: deposit_books_def)
    show ?thesis
    proof (cases "x = d")
      case True
      then show ?thesis using okx x P [OF x(1)] f users by (simp add: deposit_ok_def deposit_key_def keys)
    next
      case False
      then have "dp_id x \<noteq> dp_id d" using distinct x(1) d(1) by (metis distinct_map inj_onD)
      then show ?thesis
        using okx x P [OF x(1)] False users by (auto simp: deposit_ok_def deposit_key_def keys)
    qed
  qed
  have fd: "f d \<in> set (update_where P f ds)" using d(1) P by (auto simp: in_update_where)
  have entry: "deposit_entry (update_where P f ds) r" if r: "deposit_entry ds r" for r
  proof -
    obtain x where x: "x \<in> set ds" "row_key r = deposit_key x" "wt_amount r = dp_amount x"
      using r by (auto simp: deposit_entry_def)
    show ?thesis
    proof (cases "x = d")
      case True
      then show ?thesis using x f fd unfolding deposit_entry_def by (intro bexI [of _ "f d"]) (auto simp: deposit_key_def)
    next
      case False
      then have "x \<in> set (update_where P f ds)" using x(1) P [OF x(1)] by (force simp: in_update_where)
      then show ?thesis using x unfolding deposit_entry_def by blast
    qed
  qed
  have "deposit_entry (update_where P f ds) row"
    using row f fd unfolding deposit_entry_def by (intro bexI [of _ "f d"]) (auto simp: deposit_key_def)
  moreover have "map dp_id (update_where P f ds) = map dp_id ds"
    using P f(1) by (intro map_update_where') simp
  moreover have "references_unique (update_where P f ds)"
    by (rule references_unique_update)
      (use books P f d in \<open>auto simp: deposit_books_def active_deposit_def\<close>)
  ultimately show ?thesis
    using distinct ok entry books by (auto simp: deposit_books_def rows)
qed

lemma deposit_same_id:
  assumes "deposits_follow db db'" "distinct (map dp_id (pd_deposits db'))"
    and "d \<in> set (pd_deposits db)" "d' \<in> set (pd_deposits db')" "dp_id d' = dp_id d"
  shows "deposit_follows d d'"
proof -
  obtain v where "v \<in> set (pd_deposits db')" "deposit_follows d v"
    using assms(1,3) by (auto simp: deposits_follow_def)
  moreover from this have "v = d'"
    using assms(2,4,5) by (metis distinct_map inj_onD deposit_follows_def)
  ultimately show ?thesis by simp
qed

definition approval :: "int \<Rightarrow> string \<Rightarrow> js \<Rightarrow> deposit_row \<Rightarrow> deposit_row" where
  "approval now source old d =
     d\<lparr>dp_status := DP_APPROVED, dp_verifiedAt := Some now, dp_rejectionReason := None,
       dp_verifiedData := extend_data [(''verificationSource'', Str source),
         (''decision'', Str ''APPROVED''), (''approvedByAdmin'', Bool True)] old\<rparr>"

lemma approval_sel [simp]:
  "dp_id (approval now source old d) = dp_id d" "dp_userId (approval now source old d) = dp_userId d"
  "dp_amount (approval now source old d) = dp_amount d" "dp_provider (approval now source old d) = dp_provider d"
  "dp_transactionRef (approval now source old d) = dp_transactionRef d"
  "dp_status (approval now source old d) = DP_APPROVED"
  "reference_of (approval now source old d) = reference_of d"
  by (simp_all add: approval_def reference_of_def)

text \<open>Every outcome of an approval.\<close>

lemma approve_effect:
  assumes ok: "payments_ok (others db0)" and follow: "deposits_follow db0 (others db0)"
    and fresh: "l \<notin> ledger_ids (pd_wallet (others db0))"
    and e: "find_deposit db0 i = Some e" "dp_status e = DP_PENDING"
    and d: "find_deposit (others db0) i = Some d" "dp_status d = DP_PENDING"
  shows "case db_wallets (pd_wallet (others db0)) (dp_userId d) of
      None \<Rightarrow> approveDepositRecord others now l db0 i source actorId =
        (Inl (Not_Found ''Wallet not found''), others db0)
    | Some w \<Rightarrow> \<exists>d' db'. approveDepositRecord others now l db0 i source actorId = (Inr d', db') \<and>
        deposit_effect (others db0) db' \<and>
        d' \<in> set (pd_deposits db') \<and> deposit_follows d d' \<and> dp_status d' = DP_APPROVED \<and>
        db_wallets (pd_wallet db') =
          (db_wallets (pd_wallet (others db0)))(dp_userId d \<mapsto> credited (dp_amount d) w)"
proof -
  let ?db = "others db0" let ?W = "pd_wallet ?db" let ?ds = "pd_deposits ?db"
  let ?P = "\<lambda>x. dp_id x = i \<and> dp_status x = DP_PENDING"
  let ?f = "approval now source (dp_verifiedData e)"
  have books: "deposit_books ?W ?ds" and W: "db_ok ?W" using ok by simp_all
  have distinct: "distinct (map dp_id ?ds)" using books by (simp add: deposit_books_def)
  have ind: "d \<in> set ?ds" "dp_id d = i" and ine: "e \<in> set (pd_deposits db0)" "dp_id e = i"
    using find_deposit_in [OF d(1)] find_deposit_in [OF e(1)] by auto
  have same: "dp_userId e = dp_userId d" "dp_amount e = dp_amount d" "dp_provider e = dp_provider d"
    using deposit_same_id [OF follow distinct ine(1) ind(1)] ind(2) ine(2) by (auto simp: deposit_follows_def)
  then have meta: "deposit_meta e = deposit_meta d" "deposit_key e = deposit_key d" "deposit_credit e = deposit_credit d"
    using ind(2) ine(2) by (auto simp: deposit_meta_def deposit_key_def deposit_credit_def)
  have P: "?P y \<longleftrightarrow> y = d" if "y \<in> set ?ds" for y
    using that distinct ind d(2) by (auto simp: distinct_map inj_on_def)
  have count: "count_where ?P ?ds = 1"
  proof -
    have "count_where ?P ?ds \<le> 1" by (rule count_where_key [OF distinct]) simp
    moreover have "0 < count_where ?P ?ds" using ind(1) P by (auto simp: count_where_pos)
    ultimately show ?thesis by linarith
  qed
  have okd: "0 < dp_amount d" "js_trim (dp_id d) \<noteq> []" "dp_userId d \<in> db_users ?W" "deposit_key d \<notin> posted ?W"
    using books ind(1) d(2) by (auto simp: deposit_books_def deposit_ok_def)
  let ?db1 = "?db\<lparr>pd_deposits := update_where ?P ?f ?ds\<rparr>"
  have shape: "approveDepositRecord others now l db0 i source actorId =
      in_transaction ?db
        (case credit_deposit l e ?db1 of
           (Inl err, db2) \<Rightarrow> (Inl err, db2)
         | (Inr _, db2) \<Rightarrow> refreshed_deposit i
             (if given_actor actorId
              then create_audit \<lparr>au_actorId = actorId, au_action = ''admin.deposit.approve'',
                au_entity = ''Deposit'', au_entityId = Some (dp_id e)\<rparr> db2
              else db2))"
    unfolding approveDepositRecord_def e option.case
    by (simp add: e(2) count Let_def approval_def [symmetric] updatableDepositStatuses_def)
  have credit: "credit_deposit l e ?db1 =
    (case db_wallets ?W (dp_userId d) of
       None \<Rightarrow> (Inl (Not_Found ''Wallet not found''), ?db1)
     | Some w \<Rightarrow>
         (Inr (), ?db1\<lparr>pd_wallet := posting_of ?W (deposit_credit d) l w (credited (dp_amount d) w),
            pd_deposits := update_where (\<lambda>x. dp_id x = i \<and> l \<noteq> [])
              (\<lambda>x. x\<lparr>dp_walletTransactionId := Some l\<rparr>) (update_where ?P ?f ?ds)\<rparr>))"
    using credit_deposit_outcome [of ?db1 e l] W okd fresh same meta ind(2) ine(2)
    by (cases "db_wallets ?W (dp_userId d)") simp_all
  show ?thesis
  proof (cases "db_wallets ?W (dp_userId d)")
    case None
    then show ?thesis by (simp add: shape credit in_transaction_def)
  next
    case (Some w)
    let ?W' = "posting_of ?W (deposit_credit d) l w (credited (dp_amount d) w)"
    let ?ds1 = "update_where ?P ?f ?ds"
    let ?link = "\<lambda>x. x\<lparr>dp_walletTransactionId := Some l\<rparr>"
    let ?ds' = "update_where (\<lambda>x. dp_id x = i \<and> l \<noteq> []) ?link ?ds1"
    let ?d' = "if l \<noteq> [] then ?link (?f d) else ?f d"
    have W': "db_ok ?W'" using credit_wallet(2) [OF W okd(1,2,3) fresh okd(4)] Some by simp
    have books1: "deposit_books ?W' ?ds1"
      by (rule approve_rows [OF books ind(1) d(2) P _ _ _ _ _ _ rows_of_credit]) simp_all
    have ind': "?d' \<in> set ?ds'"
    proof -
      have "?f d \<in> set ?ds1" using update_where_in [OF ind(1), of ?P ?f] P [OF ind(1)] by simp
      from update_where_in [OF this, of "\<lambda>x. dp_id x = i \<and> l \<noteq> []" ?link] show ?thesis
        using ind(2) by simp
    qed
    let ?db2 = "if given_actor actorId
        then create_audit \<lparr>au_actorId = actorId, au_action = ''admin.deposit.approve'',
          au_entity = ''Deposit'', au_entityId = Some (dp_id e)\<rparr>
          (?db1\<lparr>pd_wallet := ?W', pd_deposits := ?ds'\<rparr>)
        else ?db1\<lparr>pd_wallet := ?W', pd_deposits := ?ds'\<rparr>"
    have sel: "pd_wallet ?db2 = ?W'" "pd_withdrawals ?db2 = pd_withdrawals ?db" "pd_deposits ?db2 = ?ds'"
      "pd_configs ?db2 = pd_configs ?db" "pd_cachedConfigs ?db2 = pd_cachedConfigs ?db"
      by (simp_all add: create_audit_def)
    have follow': "deposits_follow ?db ?db2"
    proof -
      have "deposits_follow ?db ?db1"
        by (rule deposits_follow_update [where P = ?P and f = ?f])
          (use P d(2) in \<open>auto simp: deposit_follows_def\<close>)
      moreover have "deposits_follow ?db1 ?db2"
        by (rule deposits_follow_update [where P = "\<lambda>x. dp_id x = i \<and> l \<noteq> []" and f = ?link])
          (simp_all add: sel deposit_follows_def)
      ultimately show ?thesis by (rule deposits_follow_trans)
    qed
    have effect: "deposit_effect ?db ?db2"
      by (rule credit_effect [OF ok Some refl W' books1 sel(1,2,4,5,3) follow'])
    have "distinct (map dp_id ?ds')"
      using effect sel(3) by (simp only: deposit_effect_def deposit_books_def)
    then have found: "find_deposit ?db2 i = Some ?d'"
      using ind' ind(2) sel(3) by (subst find_deposit_iff) auto
    have res: "approveDepositRecord others now l db0 i source actorId = (Inr ?d', ?db2)"
      unfolding shape credit Some option.case prod.case sum.case refreshed_deposit_def found in_transaction_def
      by (rule refl)
    have fd: "deposit_follows d ?d'" "dp_status ?d' = DP_APPROVED" using d(2) by (simp_all add: deposit_follows_def)
    have "db_wallets (pd_wallet ?db2) = (db_wallets ?W)(dp_userId d \<mapsto> credited (dp_amount d) w)"
      by (simp only: sel posting_of_sel deposit_credit_sel)
    then show ?thesis using res effect ind' fd Some sel(3) by auto
  qed
qed


lemma approve_other:
  assumes distinct: "distinct (map dp_id (pd_deposits (others db0)))"
    and no: "\<not> (\<exists>e d. find_deposit db0 i = Some e \<and> dp_status e = DP_PENDING \<and>
      find_deposit (others db0) i = Some d \<and> dp_status d = DP_PENDING)"
    and out: "approveDepositRecord others now l db0 i source actorId = (r, db')"
  shows "db' = db0 \<or> db' = others db0"
proof (cases "find_deposit db0 i")
  case None
  then show ?thesis using out by (simp add: approveDepositRecord_def)
next
  case (Some e)
  show ?thesis
  proof (cases "dp_status e = DP_PENDING")
    case True
    have "count_where (\<lambda>d. dp_id d = i \<and> dp_status d = DP_PENDING) (pd_deposits (others db0)) = 0"
      using no Some True find_deposit_iff [OF distinct] by (auto simp: count_where_zero)
    then show ?thesis
      using out unfolding approveDepositRecord_def Some option.case
      by (simp add: True Let_def updatableDepositStatuses_def in_transaction_def)
  next
    case False
    then show ?thesis
      using out Some by (auto simp: approveDepositRecord_def updatableDepositStatuses_def split: if_splits)
  qed
qed

definition rejection :: "string \<Rightarrow> js \<Rightarrow> deposit_row \<Rightarrow> deposit_row" where
  "rejection reason old d =
     d\<lparr>dp_status := DP_REJECTED, dp_rejectionReason := Some (js_trim reason),
       dp_verifiedData := extend_data [(''verificationSource'', Str ''manual.admin.reject''),
         (''rejectedByAdmin'', Bool True), (''decision'', Str ''REJECTED'')] old\<rparr>"

lemma rejection_sel [simp]:
  "dp_id (rejection reason old d) = dp_id d" "dp_userId (rejection reason old d) = dp_userId d"
  "dp_amount (rejection reason old d) = dp_amount d" "dp_provider (rejection reason old d) = dp_provider d"
  "dp_transactionRef (rejection reason old d) = dp_transactionRef d"
  "dp_status (rejection reason old d) = DP_REJECTED"
  "reference_of (rejection reason old d) = reference_of d"
  by (simp_all add: rejection_def reference_of_def)

text \<open>A rejection writes its row whatever the status of the row is by then.\<close>

lemma reject_state:
  assumes e: "find_deposit db0 i = Some e" "dp_status e = DP_PENDING"
    and d: "find_deposit (others db0) i = Some d"
    and distinct: "distinct (map dp_id (pd_deposits (others db0)))"
    and out: "rejectDeposit others db0 i reason actorId = (r, db')"
  shows "r = Inr (rejection reason (dp_verifiedData e) d) \<and>
    pd_deposits db' = update_where (\<lambda>x. dp_id x = i) (rejection reason (dp_verifiedData e)) (pd_deposits (others db0)) \<and>
    pd_wallet db' = pd_wallet (others db0) \<and> pd_withdrawals db' = pd_withdrawals (others db0) \<and>
    pd_configs db' = pd_configs (others db0) \<and> pd_cachedConfigs db' = pd_cachedConfigs (others db0)"
proof -
  let ?f = "rejection reason (dp_verifiedData e)"
  let ?db2 = "update_deposit i ?f (if given_actor actorId
      then create_audit \<lparr>au_actorId = actorId, au_action = ''admin.deposit.reject'',
        au_entity = ''Deposit'', au_entityId = Some i\<rparr> (others db0) else others db0)"
  have rows: "pd_deposits ?db2 = update_where (\<lambda>x. dp_id x = i) ?f (pd_deposits (others db0))"
    by (simp add: update_deposit_def create_audit_def)
  have ind: "d \<in> set (pd_deposits (others db0))" "dp_id d = i" using find_deposit_in [OF d] by auto
  have "map dp_id (pd_deposits ?db2) = map dp_id (pd_deposits (others db0))"
    unfolding rows by (rule map_update_where) simp
  then have "distinct (map dp_id (pd_deposits ?db2))" using distinct by simp
  moreover have "?f d \<in> set (pd_deposits ?db2)" unfolding rows using ind by (auto simp: in_update_where)
  ultimately have found: "find_deposit ?db2 i = Some (?f d)" using ind(2) by (subst find_deposit_iff) auto
  have "rejectDeposit others db0 i reason actorId = (Inr (?f d), ?db2)"
    unfolding rejectDeposit_def e option.case
    using found by (simp add: e(2) Let_def updatableDepositStatuses_def rejection_def [symmetric] in_transaction_def)
  moreover have "pd_wallet ?db2 = pd_wallet (others db0) \<and> pd_withdrawals ?db2 = pd_withdrawals (others db0) \<and>
      pd_configs ?db2 = pd_configs (others db0) \<and> pd_cachedConfigs ?db2 = pd_cachedConfigs (others db0)"
    by (simp add: update_deposit_def create_audit_def)
  ultimately show ?thesis using out rows by auto
qed

lemma reject_effect:
  assumes ok: "payments_ok (others db0)" and follow: "deposits_follow db0 (others db0)"
    and unapproved: "\<And>d. find_deposit (others db0) i = Some d \<Longrightarrow> dp_status d \<noteq> DP_APPROVED"
    and out: "rejectDeposit others db0 i reason actorId = (r, db')"
  shows "db' = db0 \<or> deposit_effect (others db0) db'"
proof (cases "\<exists>e. find_deposit db0 i = Some e \<and> dp_status e = DP_PENDING")
  case False
  then show ?thesis
    using out by (cases "find_deposit db0 i") (auto simp: rejectDeposit_def updatableDepositStatuses_def)
next
  case True
  then obtain e where e: "find_deposit db0 i = Some e" "dp_status e = DP_PENDING" by blast
  let ?W = "pd_wallet (others db0)" let ?ds = "pd_deposits (others db0)"
  let ?f = "rejection reason (dp_verifiedData e)"
  have books: "deposit_books ?W ?ds" using ok by simp
  then have distinct: "distinct (map dp_id ?ds)" by (simp add: deposit_books_def)
  obtain d where "d \<in> set ?ds" "deposit_follows e d"
    using follow find_deposit_in [OF e(1)] by (auto simp: deposits_follow_def)
  then have d: "find_deposit (others db0) i = Some d"
    using find_deposit_iff [OF distinct] find_deposit_in [OF e(1)] by (simp add: deposit_follows_def)
  have only: "x = d" if "x \<in> set ?ds" "dp_id x = i" for x
    using that find_deposit_in [OF d] distinct by (metis distinct_map inj_onD)
  note st = reject_state [where others = others, OF e d distinct out]
  have status: "dp_status d \<noteq> DP_APPROVED" by (rule unapproved [OF d])
  have ok_row: "deposit_ok ?W y" if y: "y \<in> set (update_where (\<lambda>x. dp_id x = i) ?f ?ds)" for y
  proof -
    obtain x where x: "x \<in> set ?ds" "y = (if dp_id x = i then ?f x else x)" using y by (auto simp: in_update_where)
    then have "deposit_ok ?W x" using books by (simp add: deposit_books_def)
    then show ?thesis using x status only by (auto simp: deposit_ok_def deposit_key_def)
  qed
  have entry: "deposit_entry (update_where (\<lambda>x. dp_id x = i) ?f ?ds) row" if "deposit_entry ?ds row" for row
  proof -
    obtain x where x: "x \<in> set ?ds" "row_key row = deposit_key x" "wt_amount row = dp_amount x"
      using \<open>deposit_entry ?ds row\<close> by (auto simp: deposit_entry_def)
    have "(if dp_id x = i then ?f x else x) \<in> set (update_where (\<lambda>x. dp_id x = i) ?f ?ds)"
      by (rule update_where_in [OF x(1)])
    then show ?thesis unfolding deposit_entry_def
      by (rule rev_bexI) (use x(2,3) in \<open>simp add: deposit_key_def\<close>)
  qed
  have "references_unique (update_where (\<lambda>x. dp_id x = i) ?f ?ds)"
    by (rule references_unique_update) (use books in \<open>auto simp: deposit_books_def active_deposit_def\<close>)
  moreover have "map dp_id (update_where (\<lambda>x. dp_id x = i) ?f ?ds) = map dp_id ?ds"
    by (rule map_update_where) simp
  ultimately have books': "deposit_books ?W (update_where (\<lambda>x. dp_id x = i) ?f ?ds)"
    using books ok_row entry by (auto simp: deposit_books_def)
  have follow': "deposits_follow (others db0) db'"
    by (rule deposits_follow_update [where P = "\<lambda>x. dp_id x = i" and f = ?f])
      (use st status only in \<open>auto simp: deposit_follows_def\<close>, metis deposit_status.exhaust)
  show ?thesis using st books' ok follow' by (simp add: deposit_effect_def)
qed

end
