(* ===== verification/PaymentRuns.thy ===== *)
theory PaymentRuns
  imports DepositSteps
begin

text \<open>
  Runs of the payment services over one store: requests and decisions about withdrawals and
  deposits, changes of the approval modes and the bookings of other components, in any order. What
  a handler's \<open>others\<close> does is itself a run, so that a handler may be overtaken by any other request
  between its reads and its writes. The only restriction is on a rejection of a deposit: it must not
  be overtaken by an approval of the same deposit.
\<close>

section \<open>Keeping the invariant\<close>

definition payment_follows :: "payment_db \<Rightarrow> payment_db \<Rightarrow> bool" where
  "payment_follows s t \<longleftrightarrow> withdrawals_follow s t \<and> deposits_follow s t"

lemma payment_follows_refl [simp]: "payment_follows s s"
  by (simp add: payment_follows_def)

lemma payment_follows_trans: "payment_follows r s \<Longrightarrow> payment_follows s t \<Longrightarrow> payment_follows r t"
  unfolding payment_follows_def using withdrawals_follow_trans deposits_follow_trans by blast

lemma cache_ok_same:
  "payments_ok s \<Longrightarrow> pd_configs t = pd_configs s \<Longrightarrow> pd_cachedConfigs t = pd_cachedConfigs s \<Longrightarrow> cache_ok t"
  using stored_configs_same [of t s] by (auto simp: payments_ok_def cache_ok_def split: option.splits)

text \<open>A change of the limiter or of the copy of the modes.\<close>

lemma payments_ok_memory:
  assumes "payments_ok s" "pd_wallet t = pd_wallet s" "pd_withdrawals t = pd_withdrawals s"
    and "pd_deposits t = pd_deposits s" "cache_ok t"
  shows "payments_ok t \<and> payment_follows s t"
  using assms by (simp add: payments_ok_def withdrawals_ok_def payment_follows_def)

lemma limit_payment_ok:
  assumes "payments_ok s"
  shows "payments_ok (snd (limit_payment now action u s)) \<and> payment_follows s (snd (limit_payment now action u s))"
proof -
  obtain r t where t: "limit_payment now action u s = (r, t)" by fastforce
  then have "t = s\<lparr>pd_buckets := pd_buckets t\<rparr>" by (rule limit_payment_state)
  then have "pd_wallet t = pd_wallet s" "pd_withdrawals t = pd_withdrawals s" "pd_deposits t = pd_deposits s"
    "pd_cachedConfigs t = pd_cachedConfigs s" "pd_configs t = pd_configs s"
    by (metis payment_db.select_convs payment_db.surjective payment_db.update_convs)+
  moreover from this have "cache_ok t"
    using cache_ok_same [OF assms] by simp
  ultimately show ?thesis using payments_ok_memory [OF assms, of t] t by simp
qed

lemma getMode_ok:
  assumes "payments_ok s"
  shows "payments_ok (snd (getMode now provider s)) \<and> payment_follows s (snd (getMode now provider s))"
  using assms
  by (intro payments_ok_memory) (simp_all add: getMode_frame getMode_current payments_ok_def)

lemma settled_ok:
  assumes ok: "payments_ok s" and t: "withdrawals_ok t" "pd_deposits t = pd_deposits s"
    "pd_configs t = pd_configs s" "pd_cachedConfigs t = pd_cachedConfigs s"
    "db_users (pd_wallet t) = db_users (pd_wallet s)"
    "rows_of ''deposit'' (pd_wallet t) = rows_of ''deposit'' (pd_wallet s)"
    "\<And>u. db_wallets (pd_wallet t) u \<noteq> None \<Longrightarrow> db_wallets (pd_wallet s) u \<noteq> None"
  shows "payments_ok t"
proof -
  have "deposit_books (pd_wallet t) (pd_deposits s)"
    by (rule deposit_books_frame [OF books_of(1) [OF ok] t(6,5)])
  moreover have "cache_ok t"
    by (rule cache_ok_same [OF ok t(3,4)])
  moreover have "u \<in> db_users (pd_wallet t)" if "db_wallets (pd_wallet t) u \<noteq> None" for u
    using t(5) t(7) [OF that] ok by (simp add: payments_ok_def)
  ultimately show ?thesis using t(1,2) by (simp add: payments_ok_def)
qed

lemma request_ok:
  assumes ok: "payments_ok s" and fresh: "newId \<notin> wd_id ` set (pd_withdrawals s)" "js_trim newId \<noteq> []"
    "l \<notin> ledger_ids (pd_wallet s)"
  shows "payments_ok (snd (createWithdrawal decimal now newId l s u dto)) \<and>
    payment_follows s (snd (createWithdrawal decimal now newId l s u dto))"
proof (cases "request_amount decimal now s u dto")
  case None
  then show ?thesis
    using createWithdrawal_refused [OF None, of newId l] limit_payment_ok [OF ok] by auto
next
  case (Some a)
  have wok: "withdrawals_ok s" and users: "\<forall>v. db_wallets (pd_wallet s) v \<noteq> None \<longrightarrow> v \<in> db_users (pd_wallet s)"
    using ok by (auto simp: payments_ok_def)
  note out = createWithdrawal_outcome [OF wok Some fresh users]
  show ?thesis
  proof (cases "db_wallets (pd_wallet s) u")
    case None
    then show ?thesis using out limit_payment_ok [OF ok] by simp
  next
    case (Some w)
    show ?thesis
    proof (cases "a \<le> wa_balance w")
      case True
      let ?c = "requested now newId u a dto"
      obtain t where t: "createWithdrawal decimal now newId l s u dto = (Inr ?c, t)" "withdrawals_ok t"
          "pd_withdrawals t = pd_withdrawals s @ [?c]" "pd_deposits t = pd_deposits s"
          "db_wallets (pd_wallet t) = (db_wallets (pd_wallet s))(u \<mapsto> lock_on a w)"
          "db_users (pd_wallet t) = db_users (pd_wallet s)"
          "pd_configs t = pd_configs s" "pd_cachedConfigs t = pd_cachedConfigs s"
          "\<forall>k. k \<noteq> ''withdrawal'' \<longrightarrow> rows_of k (pd_wallet t) = rows_of k (pd_wallet s)"
        using out Some True by auto
      have "payments_ok t"
        by (rule settled_ok [OF ok t(2,4,7,8,6)]) (use t(5,9) Some in \<open>auto split: if_splits\<close>)
      moreover have "payment_follows s t"
        using t(3,4) by (auto simp: payment_follows_def withdrawals_follow_def intro: withdrawal_follows_refl)
      ultimately show ?thesis using t(1) by simp
    next
      case False
      then show ?thesis using out Some limit_payment_ok [OF ok] by simp
    qed
  qed
qed

lemma decision_ok:
  assumes ok: "payments_ok (others s)" and follow: "payment_follows s (others s)" "payments_ok s"
    and mode: "settle_mode type d m" and guard: "settle_guard type statuses" and f: "settle_change f type"
    and fresh: "l \<notin> ledger_ids (pd_wallet (others s))"
  shows "payments_ok (snd (settle_step type d m statuses f verb refused missing audit others l s wid)) \<and>
    payment_follows s (snd (settle_step type d m statuses f verb refused missing audit others l s wid))"
proof -
  let ?out = "settle_step type d m statuses f verb refused missing audit others l s wid"
  have wok: "withdrawals_ok (others s)" and wf: "withdrawals_follow s (others s)"
    using ok follow by (simp_all add: payments_ok_def payment_follows_def)
  show ?thesis
  proof (cases "\<exists>e w. find_withdrawal s wid = Some e \<and> List.member statuses (wd_status e) \<and>
      find_withdrawal (others s) wid = Some w \<and> List.member statuses (wd_status w)")
    case False
    have "distinct (map wd_id (pd_withdrawals (others s)))"
      using wok by (simp add: withdrawals_ok_def withdrawal_books_def)
    from settle_step_refused [where others = others and ?db0.0 = s, OF this False,
        of type d m f verb refused missing audit l]
    have "snd ?out = s \<or> snd ?out = others s" by auto
    then show ?thesis using ok follow by auto
  next
    case True
    then obtain e w where ew: "find_withdrawal s wid = Some e" "List.member statuses (wd_status e)"
      "find_withdrawal (others s) wid = Some w" "List.member statuses (wd_status w)" by blast
    obtain t where t: "?out = (Inr (f w), t)" "withdrawals_ok t" "settled w (f w) type d (others s) t"
      using settle_step_success [where others = others and ?db0.0 = s, OF wok wf mode guard f fresh ew] by blast
    have "payments_ok t"
      by (rule settled_ok [OF ok t(2)]) (use t(3) in \<open>auto simp: settled_def split: if_splits\<close>)
    moreover have "withdrawals_follow (others s) t"
      using settle_step_keeps [where others = others and ?db0.0 = s, OF wok wf mode guard f fresh t(1)] by simp
    moreover have "deposits_follow (others s) t" using t(3) by (simp add: settled_def)
    ultimately show ?thesis
      using t(1) follow payment_follows_trans [of s "others s" t] by (simp add: payment_follows_def)
  qed
qed

lemma decisions_shape:
  "settle_change (\<lambda>w. w\<lparr>wd_status := WD_PAID, wd_paidAt := Some now, wd_payoutTransactionUrl := Some url\<rparr>) WITHDRAW_PAID"
  "settle_change (\<lambda>w. w\<lparr>wd_status := WD_REJECTED, wd_adminNote := note'\<rparr>) WITHDRAW_REFUND"
  "settle_change (\<lambda>w. w\<lparr>wd_status := WD_PAID, wd_paidAt := Some now, wd_payoutRef := ref\<rparr>) WITHDRAW_PAID"
  "settle_mode WITHDRAW_PAID DEBIT LOCKED_ONLY" "settle_mode WITHDRAW_REFUND CREDIT LOCKED_TO_AVAILABLE"
  "settle_guard t [WD_PENDING]" "settle_guard WITHDRAW_PAID [WD_APPROVED]"
  by (simp_all add: settle_change_def settled_status_def settle_mode_def settle_guard_def)

text \<open>A handler that leaves the state of one of its three moments.\<close>

lemma deposit_effect_follows:
  "deposit_effect s t \<Longrightarrow> payment_follows s t"
  by (simp add: deposit_effect_def payment_follows_def)

text \<open>The state after the checks of a deposit request that come before its reference.\<close>

definition deposit_checked :: "int \<Rightarrow> string \<Rightarrow> payment_provider \<Rightarrow> payment_db \<Rightarrow> payment_db" where
  "deposit_checked now u provider s = snd (getMode now provider (snd (limit_payment now Deposit_Request u s)))"

lemma deposit_checked_ok:
  "payments_ok s \<Longrightarrow> payments_ok (deposit_checked now u p s) \<and> payment_follows s (deposit_checked now u p s)"
  unfolding deposit_checked_def using limit_payment_ok getMode_ok payment_follows_trans by blast

lemma parseDepositAmount_pos: "parseDepositAmount decimal text = Inr a \<Longrightarrow> 10 \<le> a \<and> a \<le> 10000 \<and> decimal text = Some a"
  by (simp add: parseDepositAmount_def parse_limited_iff)

text \<open>What a handler of a new deposit leaves: the state it found, or that state and the deposit.\<close>

definition deposit_result :: "payment_db \<Rightarrow> deposit_row payment \<Rightarrow> bool" where
  "deposit_result s out \<longleftrightarrow> (case fst out of Inl e \<Rightarrow> snd out = s | Inr d \<Rightarrow> deposit_effect s (snd out))"

lemma pending_result:
  "payments_ok s \<Longrightarrow> 0 < a \<Longrightarrow> js_trim newId \<noteq> [] \<Longrightarrow>
   deposit_result s (createManualPendingDeposit now newId s u p a ref dto)"
  using create_pending_effect [of s a newId now u p ref dto]
  by (cases "createManualPendingDeposit now newId s u p a ref dto") (auto simp: deposit_result_def split: sum.splits)

lemma approved_result:
  "payments_ok s \<Longrightarrow> 0 < ap_amount params \<Longrightarrow> js_trim newId \<noteq> [] \<Longrightarrow> l \<notin> ledger_ids (pd_wallet s) \<Longrightarrow>
   deposit_result s (createApprovedDeposit decimal now newId l s params)"
  using create_approved_effect [of s params newId l decimal now]
  by (cases "createApprovedDeposit decimal now newId l s params") (auto simp: deposit_result_def split: sum.splits)

lemma refused_result [simp]: "deposit_result s (Inl e, s)"
  by (simp add: deposit_result_def)

lemma modes_result:
  assumes "payments_ok s" "0 < a" "js_trim newId \<noteq> []" "l \<notin> ledger_ids (pd_wallet s)"
  shows "deposit_result s (createAutomaticDeposit env now newId l s u a ref dto)"
    and "deposit_result s (createLocalTelebirrDeposit env now newId l s u a ref dto)"
  using assms pending_result [of s a newId now u] approved_result [of s _ newId l "de_decimal env" now]
  by (auto simp: createAutomaticDeposit_def createLocalTelebirrDeposit_def split: sum.splits prod.splits)


text \<open>The handler of a new deposit, read from its last checks on.\<close>

definition deposit_by_mode ::
  "deposit_env \<Rightarrow> int \<Rightarrow> string \<Rightarrow> string \<Rightarrow> payment_db \<Rightarrow> string \<Rightarrow> rat \<Rightarrow> string \<Rightarrow> create_deposit_dto \<Rightarrow>
   approval_mode \<Rightarrow> deposit_row payment" where
  "deposit_by_mode env now newId l db u a ref dto mode =
     (if mode = MANUAL then createManualPendingDeposit now newId db u (cd_provider dto) a ref dto
      else if mode = LOCAL \<and> cd_provider dto = TELEBIRR
      then createLocalTelebirrDeposit env now newId l db u a ref dto
      else if mode = LOCAL
      then (Inl (Bad_Request ''Local approval mode is only supported for Telebirr.''), db)
      else createAutomaticDeposit env now newId l db u a ref dto)"

lemma by_mode_result:
  "payments_ok s \<Longrightarrow> 0 < a \<Longrightarrow> js_trim newId \<noteq> [] \<Longrightarrow> l \<notin> ledger_ids (pd_wallet s) \<Longrightarrow>
   deposit_result s (deposit_by_mode env now newId l s u a ref dto mode)"
  by (simp add: deposit_by_mode_def modes_result pending_result)

lemma createDeposit_cases:
  obtains (limited) e where
      "createDeposit env others now newId l s u dto = (Inl e, snd (limit_payment now Deposit_Request u s))"
    | (refused) e where
      "createDeposit env others now newId l s u dto = (Inl e, deposit_checked now u (cd_provider dto) s)"
    | (repeated) mode ref d where
      "createDeposit env others now newId l s u dto = (Inr d, deposit_checked now u (cd_provider dto) s)"
      "fst (getMode now (cd_provider dto) (snd (limit_payment now Deposit_Request u s))) = Inr mode"
      "normalizeTransactionRef env (cd_transactionRef dto) (cd_provider dto) mode = Inr ref"
      "ensureReferenceAvailable (deposit_checked now u (cd_provider dto) s) (cd_provider dto) ref u = Inr (Some d)"
    | (created) a mode ref where
      "createDeposit env others now newId l s u dto =
         deposit_by_mode env now newId l (others (deposit_checked now u (cd_provider dto) s)) u a ref dto mode"
      "parseDepositAmount (de_decimal env) (cd_amount dto) = Inr a"
      "fst (getMode now (cd_provider dto) (snd (limit_payment now Deposit_Request u s))) = Inr mode"
      "normalizeTransactionRef env (cd_transactionRef dto) (cd_provider dto) mode = Inr ref"
      "REFERENCE_PATTERN ref"
      "ensureReferenceAvailable (deposit_checked now u (cd_provider dto) s) (cd_provider dto) ref u = Inr None"
proof -
  let ?out = "createDeposit env others now newId l s u dto"
  obtain r s1 where lim: "limit_payment now Deposit_Request u s = (r, s1)" by fastforce
  obtain m s2 where mode: "getMode now (cd_provider dto) s1 = (m, s2)" by fastforce
  have s2: "deposit_checked now u (cd_provider dto) s = s2" by (simp add: deposit_checked_def lim mode)
  show ?thesis
  proof (cases r)
    case (Inl e)
    then show ?thesis using limited [of e] by (simp add: createDeposit_def lim)
  next
    case r: (Inr x)
    show ?thesis
    proof (cases "parseDepositAmount (de_decimal env) (cd_amount dto)")
      case (Inl e)
      then show ?thesis using limited [of e] r by (simp add: createDeposit_def lim)
    next
      case a: (Inr a)
      show ?thesis
      proof (cases m)
        case (Inl e)
        then show ?thesis using refused [of e] r a by (simp add: createDeposit_def lim mode s2)
      next
        case m: (Inr mo)
        show ?thesis
        proof (cases "normalizeTransactionRef env (cd_transactionRef dto) (cd_provider dto) mo")
          case (Inl e)
          then show ?thesis using refused [of e] r a m by (simp add: createDeposit_def lim mode s2)
        next
          case ref: (Inr ref)
          show ?thesis
          proof (cases "ensureTransactionRefFormat ref")
            case (Inl e)
            then show ?thesis using refused [of e] r a m ref by (simp add: createDeposit_def lim mode s2)
          next
            case format: (Inr y)
            have pattern: "REFERENCE_PATTERN ref" using format by (simp add: ensureTransactionRefFormat_def split: if_splits)
            show ?thesis
            proof (cases "ensureReferenceAvailable s2 (cd_provider dto) ref u")
              case (Inl e)
              then show ?thesis using refused [of e] r a m ref format by (simp add: createDeposit_def lim mode s2)
            next
              case (Inr found)
              then show ?thesis
                using repeated [where d = "the found" and mode = mo and ref = ref]
                  created [where a = a and mode = mo and ref = ref] r a m ref format pattern
                by (cases found) (simp_all add: createDeposit_def lim mode s2 deposit_by_mode_def Let_def)
            qed
          qed
        qed
      qed
    qed
  qed
qed

lemma createDeposit_ok:
  assumes ok: "payments_ok s" and s2: "s2 = deposit_checked now u (cd_provider dto) s"
    and others: "payments_ok (others s2)" "payment_follows s2 (others s2)"
    and fresh: "js_trim newId \<noteq> []" "l \<notin> ledger_ids (pd_wallet (others s2))"
  shows "payments_ok (snd (createDeposit env others now newId l s u dto)) \<and>
    payment_follows s (snd (createDeposit env others now newId l s u dto))"
proof (cases rule: createDeposit_cases [of env others now newId l s u dto])
  case (limited e)
  then show ?thesis using limit_payment_ok [OF ok] by simp
next
  case (refused e)
  then show ?thesis using deposit_checked_ok [OF ok] by simp
next
  case (repeated mode ref d)
  then show ?thesis using deposit_checked_ok [OF ok] by simp
next
  case (created a mode ref)
  have a: "0 < a" using parseDepositAmount_pos [OF created(2)] by simp
  let ?out = "deposit_by_mode env now newId l (others s2) u a ref dto mode"
  have res: "deposit_result (others s2) ?out" by (rule by_mode_result [OF others(1) a fresh])
  have upto: "payment_follows s (others s2)"
    using deposit_checked_ok [OF ok] others(2) payment_follows_trans unfolding s2 by blast
  show ?thesis
  proof (cases "fst ?out")
    case (Inl e)
    then have "snd ?out = others s2" using res by (simp add: deposit_result_def)
    then show ?thesis using created(1) others(1) upto s2 by simp
  next
    case (Inr d)
    then have "deposit_effect (others s2) (snd ?out)" using res by (simp add: deposit_result_def)
    then show ?thesis
      using created(1) s2 deposit_effect_ok [OF others(1)] deposit_effect_follows payment_follows_trans [OF upto] by simp
  qed
qed

lemma approval_ok:
  assumes ok: "payments_ok s" "payments_ok (others s)" "payment_follows s (others s)"
    and fresh: "l \<notin> ledger_ids (pd_wallet (others s))"
  shows "payments_ok (snd (approveDeposit others now l s i pin actorId)) \<and>
    payment_follows s (snd (approveDeposit others now l s i pin actorId))"
proof (cases "assertDepositApprovalPin pin")
  case (Inl e)
  then show ?thesis using ok(1) by (simp add: approveDeposit_def)
next
  case (Inr x)
  let ?out = "approveDepositRecord others now l s i ''Manual admin approval'' actorId"
  have out: "approveDeposit others now l s i pin actorId = ?out" using Inr by (simp add: approveDeposit_def)
  have df: "deposits_follow s (others s)" using ok(3) by (simp add: payment_follows_def)
  show ?thesis
  proof (cases "\<exists>e d. find_deposit s i = Some e \<and> dp_status e = DP_PENDING \<and>
      find_deposit (others s) i = Some d \<and> dp_status d = DP_PENDING")
    case False
    have "distinct (map dp_id (pd_deposits (others s)))"
      using books_of(1) [OF ok(2)] by (simp add: deposit_books_def)
    then have "snd ?out = s \<or> snd ?out = others s"
      using approve_other [where others = others and ?db0.0 = s, OF _ False] by (metis prod.collapse)
    then show ?thesis using out ok by auto
  next
    case True
    then obtain e d where ed: "find_deposit s i = Some e" "dp_status e = DP_PENDING"
      "find_deposit (others s) i = Some d" "dp_status d = DP_PENDING" by blast
    have "snd ?out = others s \<or> deposit_effect (others s) (snd ?out)"
      using approve_effect [where others = others and ?db0.0 = s, OF ok(2) df fresh ed,
          of now "''Manual admin approval''" actorId]
      by (cases "db_wallets (pd_wallet (others s)) (dp_userId d)") auto
    then show ?thesis
      using out ok deposit_effect_ok [OF ok(2)] deposit_effect_follows payment_follows_trans [OF ok(3)] by auto
  qed
qed

lemma rejection_ok:
  assumes ok: "payments_ok s" "payments_ok (others s)" "payment_follows s (others s)"
    and unapproved: "\<And>d. find_deposit (others s) i = Some d \<Longrightarrow> dp_status d \<noteq> DP_APPROVED"
  shows "payments_ok (snd (rejectDeposit others s i reason actorId)) \<and>
    payment_follows s (snd (rejectDeposit others s i reason actorId))"
proof -
  have df: "deposits_follow s (others s)" using ok(3) by (simp add: payment_follows_def)
  have "snd (rejectDeposit others s i reason actorId) = s \<or>
      deposit_effect (others s) (snd (rejectDeposit others s i reason actorId))"
    using reject_effect [where others = others and ?db0.0 = s, OF ok(2) df unapproved] by (metis prod.collapse)
  then show ?thesis
    using ok deposit_effect_ok [OF ok(2)] deposit_effect_follows payment_follows_trans [OF ok(3)] by auto
qed

lemma update_modes_ok:
  assumes ok: "payments_ok s"
  shows "payments_ok (snd (updateConfig now entries actorId s)) \<and>
    payment_follows s (snd (updateConfig now entries actorId s))"
proof (cases "entries = []")
  case True
  then show ?thesis using ok by (simp add: updateConfig_def)
next
  case False
  show ?thesis
  proof (cases "update_entries actorId entries s")
    case (Pair r t)
    show ?thesis
    proof (cases r)
      case (Inl e)
      then show ?thesis using ok False Pair by (simp add: updateConfig_def in_transaction_def)
    next
      case (Inr x)
      let ?t = "invalidateCache (create_audit \<lparr>au_actorId = Some actorId,
          au_action = ''admin.deposit_config.update'', au_entity = ''DepositApprovalConfig'',
          au_entityId = Some ''providers''\<rparr> t)"
      have cache: "cache_ok ?t" by (simp add: invalidateCache_def cache_ok_def)
      have state: "snd (updateConfig now entries actorId s) = snd (getAllConfigs now ?t)"
        using False Pair Inr
        by (simp add: updateConfig_def in_transaction_def getAdminConfig_def Let_def split: prod.splits)
      have "pd_wallet ?t = pd_wallet s" "pd_withdrawals ?t = pd_withdrawals s" "pd_deposits ?t = pd_deposits s"
        using update_entries_done [of actorId entries s x t] Pair Inr
        by (simp_all add: invalidateCache_def create_audit_def)
      then show ?thesis
        unfolding state
        by (intro payments_ok_memory [OF ok]) (simp_all add: getAllConfigs_frame getAllConfigs_current(2) [OF cache])
    qed
  qed
qed

lemma booking_ok:
  assumes ok: "payments_ok s" and fresh: "l \<notin> ledger_ids (pd_wallet s)"
    and p: "mode_of p = AVAILABLE" "me_referenceType p \<noteq> ''withdrawal''" "me_referenceType p \<noteq> ''deposit''"
  shows "payments_ok (s\<lparr>pd_wallet := snd (applyWalletMutation l id (pd_wallet s) p)\<rparr>)"
proof -
  let ?W = "pd_wallet s" let ?out = "applyWalletMutation l id ?W p"
  have same: "payments_ok (s\<lparr>pd_wallet := ?W\<rparr>)" using ok by simp
  show ?thesis
  proof (cases "snd ?out = ?W")
    case True
    then show ?thesis using same by simp
  next
    case False
    obtain r W' where rW: "?out = (r, W')" by fastforce
    have "\<exists>w w'. W' = posting_of ?W p l w w' \<and> db_wallets ?W (mp_userId p) = Some w \<and> intended_on p w = Some w' \<and>
        mp_userId p \<in> db_users ?W"
      using mutation_state [OF fresh, of p] False rW by (cases r) (auto split: if_splits)
    then obtain w w' where W': "W' = posting_of ?W p l w w'" "db_wallets ?W (mp_userId p) = Some w"
        "intended_on p w = Some w'" "mp_userId p \<in> db_users ?W" by blast
    have locked: "wa_lockedBalance w' = wa_lockedBalance w"
      using intended_on_Some [OF W'(3)] p(1) by (cases "mp_direction p") (auto split: if_splits)
    have dbok: "db_ok W'" using mutation_ok [OF books_of(2) [OF ok] fresh, of p] rW by simp
    have "withdrawal_books W' (pd_withdrawals s)" "deposit_books W' (pd_deposits s)"
      using available_posting_frame [of ?W "pd_withdrawals s" "pd_deposits s" p l w w'] ok W' dbok p locked
      by (auto simp: payments_ok_def withdrawals_ok_def)
    moreover have "cache_ok (s\<lparr>pd_wallet := W'\<rparr>)" by (rule cache_ok_same [OF ok]) simp_all
    moreover have "\<forall>u. db_wallets W' u \<noteq> None \<longrightarrow> u \<in> db_users W'"
      using ok W' by (auto simp: payments_ok_def)
    ultimately show ?thesis using rW by (simp add: payments_ok_def withdrawals_ok_def)
  qed
qed

section \<open>Runs\<close>

inductive payment_step :: "payment_db \<Rightarrow> payment_db \<Rightarrow> bool"
  and payment_run :: "payment_db \<Rightarrow> payment_db \<Rightarrow> bool" where
  rest: "payment_run s s"
| extend: "payment_run s t \<Longrightarrow> payment_step t u \<Longrightarrow> payment_run s u"
| request_withdrawal:
    "newId \<notin> wd_id ` set (pd_withdrawals s) \<Longrightarrow> js_trim newId \<noteq> [] \<Longrightarrow> l \<notin> ledger_ids (pd_wallet s) \<Longrightarrow>
     payment_step s (snd (createWithdrawal decimal now newId l s u dto))"
| approve_withdrawal:
    "payment_run s (others s) \<Longrightarrow> l \<notin> ledger_ids (pd_wallet (others s)) \<Longrightarrow>
     payment_step s (snd (approveWithdrawal others now l s i url actorId))"
| reject_withdrawal:
    "payment_run s (others s) \<Longrightarrow> l \<notin> ledger_ids (pd_wallet (others s)) \<Longrightarrow>
     payment_step s (snd (rejectWithdrawal others l s i adminNote actorId))"
| mark_paid:
    "payment_run s (others s) \<Longrightarrow> l \<notin> ledger_ids (pd_wallet (others s)) \<Longrightarrow>
     payment_step s (snd (markWithdrawalPaid others now l s i payoutRef actorId))"
| request_deposit:
    "s2 = deposit_checked now u (cd_provider dto') s \<Longrightarrow> payment_run s2 (others s2) \<Longrightarrow> js_trim newId \<noteq> [] \<Longrightarrow>
     l \<notin> ledger_ids (pd_wallet (others s2)) \<Longrightarrow>
     payment_step s (snd (createDeposit env others now newId l s u dto'))"
| approve_deposit:
    "payment_run s (others s) \<Longrightarrow> l \<notin> ledger_ids (pd_wallet (others s)) \<Longrightarrow>
     payment_step s (snd (approveDeposit others now l s i pin actorId))"
| reject_deposit:
    "payment_run s (others s) \<Longrightarrow>
     (\<And>d. find_deposit (others s) i = Some d \<Longrightarrow> dp_status d \<noteq> DP_APPROVED) \<Longrightarrow>
     payment_step s (snd (rejectDeposit others s i reason actorId))"
| update_modes: "payment_step s (snd (updateConfig now entries actor s))"
| booking:
    "l \<notin> ledger_ids (pd_wallet s) \<Longrightarrow> mode_of p = AVAILABLE \<Longrightarrow> me_referenceType p \<noteq> ''withdrawal'' \<Longrightarrow>
     me_referenceType p \<noteq> ''deposit'' \<Longrightarrow>
     payment_step s (s\<lparr>pd_wallet := snd (applyWalletMutation l id (pd_wallet s) p)\<rparr>)"

lemma payment_steps_keep:
  "(payment_step s t \<longrightarrow> payments_ok s \<longrightarrow> payments_ok t \<and> payment_follows s t) \<and>
   (payment_run s t \<longrightarrow> payments_ok s \<longrightarrow> payments_ok t \<and> payment_follows s t)"
proof (induction rule: payment_step_payment_run.induct)
  case (extend s t u)
  then show ?case using payment_follows_trans by blast
next
  case (request_withdrawal newId s l decimal now u dto)
  then show ?case using request_ok by blast
next
  case (approve_withdrawal s others l now i url actorId)
  then show ?case
    unfolding approveWithdrawal_shape
    by (intro conjI impI; simp add: decision_ok [OF _ _ _ decisions_shape(4,6,1)])
next
  case (reject_withdrawal s others l i adminNote actorId)
  then show ?case
    unfolding rejectWithdrawal_shape
    by (intro conjI impI; simp add: decision_ok [OF _ _ _ decisions_shape(5,6,2)])
next
  case (mark_paid s others l now i payoutRef actorId)
  show ?case
    using markWithdrawalPaid_shape [of others now l s i payoutRef actorId]
  proof
    assume eq: "markWithdrawalPaid others now l s i payoutRef actorId = (Inl (Db_Error ''P2002''), others s)"
    show ?thesis unfolding eq using mark_paid by simp
  next
    assume eq: "markWithdrawalPaid others now l s i payoutRef actorId = settle_step WITHDRAW_PAID DEBIT LOCKED_ONLY
      [WD_APPROVED] (\<lambda>w. w\<lparr>wd_status := WD_PAID, wd_paidAt := Some now, wd_payoutRef := trimmed payoutRef\<rparr>)
      ''Paid withdrawal'' ''Only approved withdrawals can be marked paid'' ''Withdrawal not found after payment''
      \<lparr>au_actorId = actorId, au_action = ''admin.withdrawal.mark_paid'', au_entity = ''Withdrawal'',
       au_entityId = Some i\<rparr> others l s i"
    show ?thesis
      unfolding eq using mark_paid by (intro conjI impI; simp add: decision_ok [OF _ _ _ decisions_shape(4,7,3)])
  qed
next
  case (request_deposit s2 now u dto' s others newId l env)
  then show ?case using createDeposit_ok deposit_checked_ok by blast
next
  case (approve_deposit s others l now i pin actorId)
  then show ?case using approval_ok by blast
next
  case (reject_deposit s others i reason actorId)
  then show ?case using rejection_ok by blast
next
  case (update_modes s now entries actor)
  then show ?case using update_modes_ok by blast
next
  case (booking l s p)
  then show ?case using booking_ok by (simp add: payment_follows_def)
qed simp

interpretation payment: protocol payment_step payments_ok payment_follows
  by unfold_locales (use payment_steps_keep in blast)+

lemma payment_run_steps: "payment_run s t \<longleftrightarrow> payment_step\<^sup>*\<^sup>* s t"
proof
  have "(payment_step s t \<longrightarrow> True) \<and> (payment_run s t \<longrightarrow> payment_step\<^sup>*\<^sup>* s t)"
    by (induction rule: payment_step_payment_run.induct) auto
  then show "payment_run s t \<Longrightarrow> payment_step\<^sup>*\<^sup>* s t" by simp
  show "payment_step\<^sup>*\<^sup>* s t \<Longrightarrow> payment_run s t"
    by (induction rule: rtranclp_induct) (auto intro: payment_step_payment_run.intros)
qed

end
