(* ===== verification/PaymentProperties.thy ===== *)
theory PaymentProperties
  imports PaymentRuns
begin

text \<open>
  The properties of the payments, with their instances on a sample store: a user with one pending
  withdrawal and one with one pending deposit.
\<close>

section \<open>A sample store\<close>

definition sample_withdrawal_dto :: create_withdrawal_dto where
  "sample_withdrawal_dto =
     \<lparr>cw_provider = TELEBIRR, cw_amount = ''500'', cw_receiverPhone = Some ''0911000000'', cw_receiverAccount = None\<rparr>"

definition sample_withdrawal :: withdrawal_row where
  "sample_withdrawal = requested 0 ''w1'' ''ana'' 500 sample_withdrawal_dto"

definition sample_deposit_dto :: create_deposit_dto where
  "sample_deposit_dto =
     \<lparr>cd_provider = CBE, cd_amount = ''40'', cd_transactionRef = ''FT12345'', cd_receiptParseStatus = None,
      cd_clientReceipt = None\<rparr>"

definition sample_deposit :: deposit_row where
  "sample_deposit = pending_deposit 0 ''d1'' ''ben'' CBE 40 ''FT12345'' sample_deposit_dto"

definition ana_wallet :: wallet_row where
  "ana_wallet = \<lparr>wa_id = ''wa'', wa_userId = ''ana'', wa_balance = 700, wa_lockedBalance = 500,
     wa_bonusCartelaBalance = 0\<rparr>"

definition ben_wallet :: wallet_row where
  "ben_wallet = \<lparr>wa_id = ''wb'', wa_userId = ''ben'', wa_balance = 0, wa_lockedBalance = 0,
     wa_bonusCartelaBalance = 0\<rparr>"

definition request_entry :: ledger_row where
  "request_entry = \<lparr>wt_id = ''l0'', wt_userId = ''ana'', wt_type = WITHDRAW_REQUEST, wt_amount = 500,
     wt_balanceBefore = 1200, wt_balanceAfter = 700, wt_referenceType = ''withdrawal'', wt_referenceId = ''w1'',
     wt_description = None\<rparr>"

definition pay_db :: payment_db where
  "pay_db =
     \<lparr>pd_wallet = \<lparr>db_users = {''ana'', ''ben''}, db_wallets = [''ana'' \<mapsto> ana_wallet, ''ben'' \<mapsto> ben_wallet],
        db_ledger = [request_entry]\<rparr>,
      pd_configs = [], pd_cachedConfigs = None, pd_cacheExpiresAt = 0, pd_withdrawals = [sample_withdrawal],
      pd_deposits = [sample_deposit], pd_audit = [], pd_buckets = (\<lambda>_. None)\<rparr>"

lemmas pay_defs = pay_db_def sample_withdrawal_def requested_def sample_deposit_def request_entry_def
  ana_wallet_def ben_wallet_def

lemma sample_words [simp]: "js_trim ''w1'' \<noteq> []" "js_trim ''d1'' \<noteq> []" "js_trim ''d2'' \<noteq> []" "js_trim ''w2'' \<noteq> []"
  by code_simp+

lemma pay_db_ok: "payments_ok pay_db"
proof -
  have "db_ok (pd_wallet pay_db)"
    by (auto simp: db_ok_def pay_defs wallet_ok_def row_ok_def row_key_def split: if_splits)
  moreover have "withdrawal_ok (pd_wallet pay_db) sample_withdrawal"
    by (simp add: withdrawal_ok_def pay_defs withdrawal_key_def posted_def row_key_def)
  moreover have "open_amount u (pd_withdrawals pay_db) = (if u = ''ana'' then 500 else 0)" for u
    by (auto simp: open_amount_def pay_defs open_withdrawal_def)
  ultimately have "withdrawals_ok pay_db"
    by (auto simp: withdrawals_ok_def withdrawal_books_def withdrawal_entry_def pay_defs split: if_splits)
  moreover have "deposit_books (pd_wallet pay_db) (pd_deposits pay_db)"
    by (simp add: deposit_books_def references_unique_def deposit_ok_def deposit_key_def posted_def row_key_def
        rows_of_def pay_defs active_deposit_def)
  ultimately show ?thesis by (simp add: payments_ok_def cache_ok_def pay_db_def)
qed

section \<open>Withdrawals\<close>

text \<open>
  C7. In every run of the payment services, with any requests overlapping, the money a user has locked
  is the sum of his open withdrawals, his available balance is not negative, and the ledger holds for
  each withdrawal its request, its payment exactly when it is paid, its refund exactly when it is
  rejected, and no other row about a withdrawal or over another amount.
\<close>

theorem withdrawals_lock_money:
  assumes "payments_ok s" "payment_run s t" "db_wallets (pd_wallet t) u = Some wallet"
  shows "wa_lockedBalance wallet =
      sum_list (map wd_amount (filter (\<lambda>w. wd_userId w = u \<and> (wd_status w = WD_PENDING \<or> wd_status w = WD_APPROVED))
        (pd_withdrawals t))) \<and>
    0 \<le> wa_balance wallet \<and>
    (\<forall>w\<in>set (pd_withdrawals t).
       withdrawal_key WITHDRAW_REQUEST w \<in> posted (pd_wallet t) \<and>
       (withdrawal_key WITHDRAW_PAID w \<in> posted (pd_wallet t) \<longleftrightarrow> wd_status w = WD_PAID) \<and>
       (withdrawal_key WITHDRAW_REFUND w \<in> posted (pd_wallet t) \<longleftrightarrow> wd_status w = WD_REJECTED)) \<and>
    (\<forall>row\<in>set (db_ledger (pd_wallet t)). wt_referenceType row = ''withdrawal'' \<longrightarrow>
       (\<exists>w\<in>set (pd_withdrawals t). wt_userId row = wd_userId w \<and> wt_referenceId row = wd_id w \<and>
          wt_amount row = wd_amount w))"
proof -
  have "payments_ok t"
    using payment.run_inv assms(1,2) by (simp add: payment_run_steps)
  then have books: "withdrawal_books (pd_wallet t) (pd_withdrawals t)" "db_ok (pd_wallet t)"
    by (simp_all add: payments_ok_def withdrawals_ok_def)
  have "open_amount u ws = sum_list (map wd_amount (filter (\<lambda>w. wd_userId w = u \<and>
      (wd_status w = WD_PENDING \<or> wd_status w = WD_APPROVED)) ws))" for ws
    by (induction ws) (auto simp: open_amount_def open_withdrawal_def)
  moreover have "0 \<le> wa_balance wallet" using books(2) assms(3) by (auto simp: db_ok_def wallet_ok_def)
  ultimately show ?thesis
    using books assms(3) by (auto simp: withdrawal_books_def withdrawal_ok_def withdrawal_entry_def)
qed

theorem withdrawals_lock_money_witness:
  "wa_lockedBalance ana_wallet = sum_list (map wd_amount (filter (\<lambda>w. wd_userId w = ''ana'' \<and>
     (wd_status w = WD_PENDING \<or> wd_status w = WD_APPROVED)) (pd_withdrawals pay_db)))"
  using withdrawals_lock_money [OF pay_db_ok rest, of "''ana''" ana_wallet] by (simp add: pay_db_def)

definition paid_db :: payment_db where
  "paid_db = snd (approveWithdrawal id 5 ''l1'' pay_db ''w1'' ''receipt'' (Some ''admin''))"

lemma paid_db_run: "payment_run pay_db paid_db"
  unfolding paid_db_def
  by (rule extend [OF rest approve_withdrawal [OF _ ]]) (simp_all add: rest ledger_ids_def pay_defs)

text \<open>
  A withdrawal is decided once: in every later state it is still there with its user, its amount
  and its provider, a paid or rejected one keeps its status, and it is never both paid out and given
  back, whichever decisions run at the same time.
\<close>

theorem withdrawal_decided_once:
  assumes "payments_ok s" "payment_run s t" "w \<in> set (pd_withdrawals s)"
  shows "\<exists>w'\<in>set (pd_withdrawals t).
    wd_id w' = wd_id w \<and> wd_userId w' = wd_userId w \<and> wd_amount w' = wd_amount w \<and> wd_provider w' = wd_provider w \<and>
    (wd_status w = WD_PAID \<or> wd_status w = WD_REJECTED \<longrightarrow> wd_status w' = wd_status w) \<and>
    \<not> (withdrawal_key WITHDRAW_PAID w' \<in> posted (pd_wallet t) \<and>
       withdrawal_key WITHDRAW_REFUND w' \<in> posted (pd_wallet t))"
proof -
  have run: "payment_step\<^sup>*\<^sup>* s t" using assms(2) by (simp add: payment_run_steps)
  have "payment_follows s t"
    by (rule payment.run_relates [OF run assms(1)]) (simp_all add: payment_follows_trans)
  then obtain w' where w': "w' \<in> set (pd_withdrawals t)" "withdrawal_follows w w'"
    using assms(3) by (auto simp: payment_follows_def withdrawals_follow_def)
  have "payments_ok t" by (rule payment.run_inv [OF run assms(1)])
  then have "withdrawal_books (pd_wallet t) (pd_withdrawals t)" by (simp add: payments_ok_def withdrawals_ok_def)
  then have "withdrawal_ok (pd_wallet t) w'" using w'(1) unfolding withdrawal_books_def by blast
  then have "\<not> (withdrawal_key WITHDRAW_PAID w' \<in> posted (pd_wallet t) \<and>
      withdrawal_key WITHDRAW_REFUND w' \<in> posted (pd_wallet t))"
    by (simp add: withdrawal_ok_def)
  moreover have "wd_status w = WD_PAID \<or> wd_status w = WD_REJECTED \<longrightarrow> wd_status w' = wd_status w"
    using w'(2) by (cases "wd_status w") (simp_all add: withdrawal_follows_def withdrawal_move_def)
  moreover have "wd_id w' = wd_id w \<and> wd_userId w' = wd_userId w \<and> wd_amount w' = wd_amount w \<and>
      wd_provider w' = wd_provider w"
    using w'(2) by (simp add: withdrawal_follows_def)
  ultimately show ?thesis using w'(1) by (intro bexI [of _ w']) simp_all
qed

theorem withdrawal_decided_once_witness:
  "\<exists>w'\<in>set (pd_withdrawals paid_db). wd_id w' = ''w1'' \<and> wd_amount w' = 500 \<and>
    \<not> (withdrawal_key WITHDRAW_PAID w' \<in> posted (pd_wallet paid_db) \<and>
       withdrawal_key WITHDRAW_REFUND w' \<in> posted (pd_wallet paid_db))"
  using withdrawal_decided_once [OF pay_db_ok paid_db_run, of sample_withdrawal]
  by (auto simp: pay_db_def sample_withdrawal_def requested_def)

text \<open>
  C15. A pending withdrawal can always be settled: whatever other requests commit in between, as long
  as it is still pending an approval and a rejection both go through, the approval takes its amount
  out of the locked balance and the rejection moves it back to the available one.
\<close>

theorem pending_withdrawal_settles:
  assumes "payments_ok s" "payment_run s (others s)" "l \<notin> ledger_ids (pd_wallet (others s))"
    and "find_withdrawal s i = Some e" "find_withdrawal (others s) i = Some w" "wd_status w = WD_PENDING"
  shows "\<exists>wallet t t'. db_wallets (pd_wallet (others s)) (wd_userId w) = Some wallet \<and>
    approveWithdrawal others now l s i url actor =
      (Inr (w\<lparr>wd_status := WD_PAID, wd_paidAt := Some now, wd_payoutTransactionUrl := Some (js_trim url)\<rparr>), t) \<and>
    db_wallets (pd_wallet t) = (db_wallets (pd_wallet (others s)))(wd_userId w \<mapsto>
      wallet\<lparr>wa_lockedBalance := wa_lockedBalance wallet - wd_amount w\<rparr>) \<and>
    rejectWithdrawal others l s i adminNote actor =
      (Inr (w\<lparr>wd_status := WD_REJECTED, wd_adminNote := trimmed adminNote\<rparr>), t') \<and>
    db_wallets (pd_wallet t') = (db_wallets (pd_wallet (others s)))(wd_userId w \<mapsto>
      wallet\<lparr>wa_balance := wa_balance wallet + wd_amount w, wa_lockedBalance := wa_lockedBalance wallet - wd_amount w\<rparr>)"
proof -
  have run: "payment_step\<^sup>*\<^sup>* s (others s)" using assms(2) by (simp add: payment_run_steps)
  have "payments_ok (others s)" by (rule payment.run_inv [OF run assms(1)])
  then have ok: "withdrawals_ok (others s)" by (simp add: payments_ok_def)
  have "payment_follows s (others s)"
    by (rule payment.run_relates [OF run assms(1)]) (simp_all add: payment_follows_trans)
  then have follow: "withdrawals_follow s (others s)" by (simp add: payment_follows_def)
  have "distinct (map wd_id (pd_withdrawals (others s)))" using ok by (simp add: withdrawals_ok_def withdrawal_books_def)
  then have "withdrawal_follows e w"
    using follow_same_id [OF follow] find_withdrawal_in assms(4,5) by metis
  then have pending: "List.member [WD_PENDING] (wd_status e)" "List.member [WD_PENDING] (wd_status w)"
    using assms(6) by (auto simp: withdrawal_follows_def withdrawal_move_def)
  note step = settle_step_success [where others = others and ?db0.0 = s, OF ok follow _ _ _ assms(3,4) pending(1) assms(5) pending(2)]
  obtain t where t: "approveWithdrawal others now l s i url actor =
      (Inr (w\<lparr>wd_status := WD_PAID, wd_paidAt := Some now, wd_payoutTransactionUrl := Some (js_trim url)\<rparr>), t)"
      "settled w (w\<lparr>wd_status := WD_PAID, wd_paidAt := Some now, wd_payoutTransactionUrl := Some (js_trim url)\<rparr>)
        WITHDRAW_PAID DEBIT (others s) t"
    unfolding approveWithdrawal_shape using step [OF decisions_shape(4,6,1)] by blast
  obtain t' where t': "rejectWithdrawal others l s i adminNote actor =
      (Inr (w\<lparr>wd_status := WD_REJECTED, wd_adminNote := trimmed adminNote\<rparr>), t')"
      "settled w (w\<lparr>wd_status := WD_REJECTED, wd_adminNote := trimmed adminNote\<rparr>)
        WITHDRAW_REFUND CREDIT (others s) t'"
    unfolding rejectWithdrawal_shape using step [OF decisions_shape(5,6,2)] by blast
  have on: "settle_on DEBIT a x = x\<lparr>wa_lockedBalance := wa_lockedBalance x - a\<rparr>"
    "settle_on CREDIT a x = x\<lparr>wa_balance := wa_balance x + a, wa_lockedBalance := wa_lockedBalance x - a\<rparr>" for a x
    by (simp_all add: settle_on_def set_balances_def)
  show ?thesis
    using t t' by (auto simp: settled_def on)
qed

theorem pending_withdrawal_settles_witness:
  "\<exists>t t'. approveWithdrawal id 5 ''l1'' pay_db ''w1'' ''receipt'' None =
      (Inr (sample_withdrawal\<lparr>wd_status := WD_PAID, wd_paidAt := Some 5,
         wd_payoutTransactionUrl := Some (js_trim ''receipt'')\<rparr>), t) \<and>
    rejectWithdrawal id ''l1'' pay_db ''w1'' None None =
      (Inr (sample_withdrawal\<lparr>wd_status := WD_REJECTED, wd_adminNote := trimmed None\<rparr>), t')"
proof -
  have "find_withdrawal pay_db ''w1'' = Some sample_withdrawal" "wd_status sample_withdrawal = WD_PENDING"
    "''l1'' \<notin> ledger_ids (pd_wallet pay_db)"
    by (simp_all add: find_withdrawal_def ledger_ids_def pay_defs)
  then show ?thesis
    using pending_withdrawal_settles [OF pay_db_ok, of id "''l1''" "''w1''" sample_withdrawal sample_withdrawal 5
        "''receipt''" None None] rest
    by auto
qed

text \<open>
  A request for a withdrawal goes through exactly when it passes its checks (the limiter, a
  provider that pays out, a receiver, an amount from 500 to 10000) and the available balance covers
  it; then one row is added and the amount moves from the available to the locked balance. In every
  other case it is refused and changes nothing but the limiter.
\<close>

theorem withdrawal_request_outcome:
  assumes "payments_ok s" "newId \<notin> wd_id ` set (pd_withdrawals s)" "js_trim newId \<noteq> []"
    "l \<notin> ledger_ids (pd_wallet s)"
  shows "case request_amount decimal now s u dto of
      None \<Rightarrow> \<exists>e. createWithdrawal decimal now newId l s u dto =
        (Inl e, snd (limit_payment now Withdrawal_Request u s))
    | Some a \<Rightarrow> 500 \<le> a \<and> a \<le> 10000 \<and>
        (case db_wallets (pd_wallet s) u of
           None \<Rightarrow> createWithdrawal decimal now newId l s u dto =
             (Inl (Not_Found ''Wallet not found''), snd (limit_payment now Withdrawal_Request u s))
         | Some wallet \<Rightarrow>
             (if a \<le> wa_balance wallet then
                \<exists>t. createWithdrawal decimal now newId l s u dto = (Inr (requested now newId u a dto), t) \<and>
                  pd_withdrawals t = pd_withdrawals s @ [requested now newId u a dto] \<and>
                  db_wallets (pd_wallet t) = (db_wallets (pd_wallet s))(u \<mapsto>
                    wallet\<lparr>wa_balance := wa_balance wallet - a, wa_lockedBalance := wa_lockedBalance wallet + a\<rparr>) \<and>
                  posted (pd_wallet t) = insert (u, WITHDRAW_REQUEST, ''withdrawal'', newId) (posted (pd_wallet s))
              else createWithdrawal decimal now newId l s u dto =
                (Inl (Bad_Request ''Insufficient wallet balance''), snd (limit_payment now Withdrawal_Request u s))))"
proof (cases "request_amount decimal now s u dto")
  case None
  then show ?thesis using createWithdrawal_refused [OF None] by simp
next
  case (Some a)
  have "withdrawals_ok s" "\<forall>v. db_wallets (pd_wallet s) v \<noteq> None \<longrightarrow> v \<in> db_users (pd_wallet s)"
    using assms(1) by (auto simp: payments_ok_def)
  note out = createWithdrawal_outcome [OF this(1) Some assms(2-4) this(2)]
  have lock: "lock_on a x = x\<lparr>wa_balance := wa_balance x - a, wa_lockedBalance := wa_lockedBalance x + a\<rparr>" for x
    by (simp add: lock_on_def set_balances_def)
  show ?thesis
    using out request_amount_bounds [OF Some] Some
    by (cases "db_wallets (pd_wallet s) u") (auto simp: lock split: if_splits)
qed

theorem withdrawal_request_outcome_witness:
  "\<exists>t. createWithdrawal (\<lambda>_. Some 600) 7 ''w2'' ''l1'' pay_db ''ana'' sample_withdrawal_dto =
      (Inr (requested 7 ''w2'' ''ana'' 600 sample_withdrawal_dto), t) \<and>
    map_option wa_balance (db_wallets (pd_wallet t) ''ana'') = Some 100"
proof -
  have "request_amount (\<lambda>_. Some 600) 7 pay_db ''ana'' sample_withdrawal_dto = Some 600"
    by code_simp
  moreover have "db_wallets (pd_wallet pay_db) ''ana'' = Some ana_wallet" "wa_balance ana_wallet = 700"
    by (simp_all add: pay_db_def ana_wallet_def)
  ultimately show ?thesis
    using withdrawal_request_outcome [OF pay_db_ok, of "''w2''" "''l1''" "\<lambda>_. Some 600" 7 "''ana''" sample_withdrawal_dto]
    by (auto simp: pay_defs ledger_ids_def)
qed

section \<open>The limiter\<close>

lemma limiter_run_calls: "map fst (limiter_run bs calls) = calls"
  by (induction bs calls rule: limiter_run.induct) (auto split: prod.splits)

lemma span_of_calls:
  "length (filter (\<lambda>(call, passed). passed \<and> P call \<and> a \<le> fst call \<and> fst call < b) run) =
   length (filter (\<lambda>t. a \<le> t \<and> t < b) (map (\<lambda>p. fst (fst p)) (filter (\<lambda>p. snd p \<and> P (fst p)) run)))"
  by (induction run) auto

text \<open>When as many pass as there are calls, all pass.\<close>

lemma all_pass:
  "length (filter (\<lambda>p. snd p \<and> P (fst p)) run) = length (filter P (map fst run)) \<Longrightarrow>
   map fst (filter (\<lambda>p. snd p \<and> P (fst p)) run) = filter P (map fst run)"
proof (induction run)
  case (Cons p run)
  have "length (filter (\<lambda>p. snd p \<and> P (fst p)) run) \<le> length (filter P (map fst run))"
    by (induction run) auto
  then show ?case using Cons by (auto split: if_splits)
qed simp

text \<open>
  For any sequence of calls in the order of time, within a span as long as the window of an action
  the limiter lets at most twice the limit of the action pass for a key, and when a key makes no more
  calls than the limit none of them is refused, whatever other users and actions do.
\<close>

theorem action_rate_bounded:
  assumes "sorted (map fst calls)" "key = limit_key action userId scope" "ACTION_LIMITS action = (limit, window)"
  shows "int (length (filter (\<lambda>(call, passed). passed \<and> call_key call = key \<and> a \<le> fst call \<and> fst call < a + window)
      (limiter_run (\<lambda>_. None) calls))) \<le> 2 * limit \<and>
    (int (length (filter (\<lambda>call. call_key call = key) calls)) \<le> limit \<longrightarrow>
     map fst (filter (\<lambda>(call, passed). passed \<and> call_key call = key) (limiter_run (\<lambda>_. None) calls)) =
     filter (\<lambda>call. call_key call = key) calls)"
proof -
  have pos: "0 < limit" "0 \<le> window" using assms(3) by (cases action; auto)+
  let ?run = "limiter_run (\<lambda>_. None) calls"
  let ?times = "map fst (filter (\<lambda>c. call_key c = key) calls)"
  let ?mine = "filter (\<lambda>p. snd p \<and> call_key (fst p) = key) ?run"
  have seen: "map (\<lambda>p. fst (fst p)) ?mine = passes limit window None ?times"
    by (rule limiter_run_key [OF assms(2,3)])
  have "sorted ?times" using assms(1) by (rule sorted_filter)
  then have "int (length (filter (\<lambda>t. a \<le> t \<and> t < a + window) (map (\<lambda>p. fst (fst p)) ?mine))) \<le> 2 * limit"
    unfolding seen by (rule passes_bound [OF pos]) (simp add: bucket_ok_def)
  then have bound: "int (length (filter (\<lambda>(call, passed). passed \<and> call_key call = key \<and> a \<le> fst call \<and>
      fst call < a + window) ?run)) \<le> 2 * limit"
    unfolding span_of_calls [where P = "\<lambda>c. call_key c = key"] .
  have few: "map fst (filter (\<lambda>(call, passed). passed \<and> call_key call = key) ?run) = filter (\<lambda>c. call_key c = key) calls"
    if "int (length (filter (\<lambda>c. call_key c = key) calls)) \<le> limit"
  proof -
    have "passes limit window None ?times = ?times"
      by (rule passes_few) (use that in \<open>simp_all add: bucket_ok_def\<close>)
    then have "length ?mine = length (filter (\<lambda>c. call_key c = key) calls)"
      using arg_cong [OF seen, of length] by simp
    then have "map fst ?mine = filter (\<lambda>c. call_key c = key) calls"
      using all_pass [of "\<lambda>c. call_key c = key" ?run] unfolding limiter_run_calls by simp
    then show ?thesis by (simp add: case_prod_unfold)
  qed
  show ?thesis using bound few by blast
qed

theorem action_rate_bounded_witness:
  "int (length (filter (\<lambda>(call, passed). passed \<and> call_key call = ''withdrawal_request:ana'' \<and>
      0 \<le> fst call \<and> fst call < 0 + 60000)
    (limiter_run (\<lambda>_. None) [(1, Withdrawal_Request, ''ana'', None), (2, Withdrawal_Request, ''ana'', None)]))) \<le> 2 * 60"
  using action_rate_bounded [of "[(1, Withdrawal_Request, ''ana'', None), (2, Withdrawal_Request, ''ana'', None)]"
      "''withdrawal_request:ana''" Withdrawal_Request "''ana''" None 60 60000 0]
  by (simp add: limit_key_def)

section \<open>The approval modes\<close>

text \<open>
  After an administrator's update of the approval modes, a deposit of a provider is judged by the
  last entry for it, however long the copy in memory had been valid, a provider without an entry keeps
  its mode, only Telebirr can get the local mode, and no money moves.
\<close>

theorem deposit_mode_current:
  assumes "updateConfig now entries admin s = (Inr answer, t)"
  shows "(case find (\<lambda>entry. ce_provider entry = p) (rev entries) of
      Some entry \<Rightarrow> fst (getMode later p t) =
        (if ce_enabled entry then Inr (ce_approvalMode entry)
         else Inl (Bad_Request (provider_name p @ '' deposits are currently unavailable.'')))
    | None \<Rightarrow> fst (getMode later p t) =
        (if ac_enabled (stored_config s p) then Inr (ac_approvalMode (stored_config s p))
         else Inl (Bad_Request (provider_name p @ '' deposits are currently unavailable.'')))) \<and>
    (\<forall>entry\<in>set entries. ce_approvalMode entry = LOCAL \<longrightarrow> ce_provider entry = TELEBIRR) \<and>
    pd_wallet t = pd_wallet s \<and> pd_deposits t = pd_deposits s"
proof -
  have entries: "entries \<noteq> []" using assms by (auto simp: updateConfig_def)
  obtain r s1 where upd: "update_entries admin entries s = (r, s1)" by fastforce
  obtain x where r: "r = Inr x" using assms upd entries
    by (cases r) (auto simp: updateConfig_def in_transaction_def)
  let ?audit = "\<lparr>au_actorId = Some admin, au_action = ''admin.deposit_config.update'',
      au_entity = ''DepositApprovalConfig'', au_entityId = Some ''providers''\<rparr>"
  let ?t = "invalidateCache (create_audit ?audit s1)"
  have t: "t = snd (getAllConfigs now ?t)"
    using assms upd r entries by (auto simp: updateConfig_def in_transaction_def getAdminConfig_def Let_def split: prod.splits)
  have cache: "cache_ok ?t" by (simp add: invalidateCache_def cache_ok_def)
  note read = getAllConfigs_current [OF cache, of now]
  have cok: "cache_ok t" using read(2) t by simp
  have configs: "stored_config t p = stored_config s1 p"
    using getAllConfigs_frame(4) [of now ?t] t by (simp add: stored_config_def invalidateCache_def create_audit_def)
  note stored = update_entries_done [OF upd [unfolded r]]
  have "pd_wallet t = pd_wallet s" "pd_deposits t = pd_deposits s"
    using stored t by (simp_all add: getAllConfigs_frame invalidateCache_def create_audit_def)
  moreover have "ce_provider entry = TELEBIRR" if "entry \<in> set entries" "ce_approvalMode entry = LOCAL" for entry
    using stored that by (auto simp: getAllowedModes_def STANDARD_APPROVAL_MODES_def split: if_splits)
  ultimately show ?thesis
    using getMode_current(1) [OF cok, of later p] stored configs by (auto split: option.splits)
qed

theorem deposit_mode_current_witness:
  "fst (getMode 10 TELEBIRR (snd (updateConfig 9 [\<lparr>ce_provider = TELEBIRR, ce_enabled = True,
     ce_approvalMode = LOCAL\<rparr>] ''admin'' pay_db))) = Inr LOCAL"
proof -
  let ?entry = "\<lparr>ce_provider = TELEBIRR, ce_enabled = True, ce_approvalMode = LOCAL\<rparr>"
  have "\<not> isl (fst (updateConfig 9 [?entry] ''admin'' pay_db))" by code_simp
  then obtain answer where "updateConfig 9 [?entry] ''admin'' pay_db = (Inr answer, snd (updateConfig 9 [?entry] ''admin'' pay_db))"
    by (metis isl_def old.sum.exhaust prod.collapse)
  from deposit_mode_current [OF this, where p = TELEBIRR and later = 10] show ?thesis by simp
qed

end
