(* ===== verification/ReceiptFacts.thy ===== *)
theory ReceiptFacts
  imports Deposits
begin

text \<open>
  What the readers of receipts and references guarantee: a canonical reference is a fixed point of
  the reader, a part of an invoice number is accepted like the number itself, and the verification
  client reports a deposit as verified only on a reply that says so.
\<close>

section \<open>Characters\<close>

lemma reference_char_upper: "reference_char c \<Longrightarrow> reference_char (upper_char c)"
  by (auto simp: reference_char_def upper_char_def Let_def)

lemma reference_char_no_space: "reference_char c \<Longrightarrow> \<not> js_space c"
  by (auto simp: reference_char_def js_space_def Let_def)

lemma reference_upper: "REFERENCE_PATTERN s \<Longrightarrow> REFERENCE_PATTERN (js_upper s)"
  by (auto simp: REFERENCE_PATTERN_def js_upper_def list_all_iff reference_char_upper)

lemma reference_trim: "REFERENCE_PATTERN s \<Longrightarrow> js_trim s = s"
proof -
  assume "REFERENCE_PATTERN s"
  then have all: "\<forall>c\<in>set s. \<not> js_space c"
    by (auto simp: REFERENCE_PATTERN_def list_all_iff reference_char_no_space)
  have "dropWhile js_space s = s" "dropWhile js_space (rev s) = rev s"
    unfolding dropWhile_eq_self_iff using all hd_in_set [of s] hd_in_set [of "rev s"] by auto
  then show "js_trim s = s" by (simp add: js_trim_def)
qed

section \<open>Canonical references\<close>

lemma canonical_pattern:
  "canonicalizeDepositTransactionRef urls p m ref base = Some r \<Longrightarrow> REFERENCE_PATTERN r"
  by (auto simp: canonicalizeDepositTransactionRef_def Let_def reference_upper split: if_splits option.splits)

lemma canonical_fixed:
  assumes canon: "canonicalizeDepositTransactionRef urls p m ref base = Some r"
    and bare: "\<And>s. REFERENCE_PATTERN s \<Longrightarrow> ur_parse urls s = None"
  shows "canonicalizeDepositTransactionRef urls p m r base = Some r"
proof -
  have pattern: "REFERENCE_PATTERN r" by (rule canonical_pattern [OF canon])
  then have r: "js_trim r = r" "r \<noteq> []" "\<not> isUrlInput urls r"
    using reference_trim bare by (auto simp: REFERENCE_PATTERN_def isUrlInput_def)
  show ?thesis
  proof (cases "p = CBE \<and> m = MANUAL")
    case True
    have "r = js_upper r \<or> take 2 (js_upper r) \<noteq> ''FT''"
      using canon True by (auto simp: canonicalizeDepositTransactionRef_def Let_def js_upper_idem split: if_splits option.splits)
    then show ?thesis using True r pattern by (auto simp: canonicalizeDepositTransactionRef_def Let_def)
  next
    case False
    then have "r = js_upper r"
      using canon by (auto simp: canonicalizeDepositTransactionRef_def Let_def js_upper_idem split: if_splits)
    then have "js_upper r = r" by simp
    then show ?thesis
      using False r pattern unfolding canonicalizeDepositTransactionRef_def by (auto simp: Let_def)
  qed
qed

text \<open>Outside the manual mode of CBE the case of a reference does not matter.\<close>

lemma canonical_case:
  assumes "\<not> (p = CBE \<and> m = MANUAL)" "js_upper (js_trim ref) = js_upper (js_trim ref')"
  shows "canonicalizeDepositTransactionRef urls p m ref base = canonicalizeDepositTransactionRef urls p m ref' base"
proof -
  have "js_trim ref = [] \<longleftrightarrow> js_trim ref' = []" using assms(2) by (metis js_upper_def map_is_Nil_conv)
  then show ?thesis using assms by (auto simp: canonicalizeDepositTransactionRef_def Let_def)
qed

section \<open>Parts of an invoice number\<close>

lemma js_includes_iff: "js_includes hay needle \<longleftrightarrow> (\<exists>xs ys. hay = xs @ needle @ ys)"
proof (induction hay needle rule: js_includes.induct)
  case (2 c cs needle)
  have "take (length needle) (c # cs) = needle \<longleftrightarrow> (\<exists>ys. c # cs = needle @ ys)"
    by (metis append_eq_conv_conj)
  moreover have "(\<exists>xs ys. c # cs = xs @ needle @ ys) \<longleftrightarrow>
      (\<exists>ys. c # cs = needle @ ys) \<or> (\<exists>xs ys. cs = xs @ needle @ ys)"
    by (metis append_Cons append_Nil list.inject neq_Nil_conv)
  ultimately show ?case using 2 by simp
qed auto

lemma js_includes_trans: "js_includes a b \<Longrightarrow> js_includes b c \<Longrightarrow> js_includes a c"
  unfolding js_includes_iff by (metis append.assoc)

lemma local_receipt_part:
  assumes "validateTelebirrLocalReceipt decimal ref amount status receipt accounts = Inr v"
    and "js_includes (normalizeCode ref) (normalizeCode ref')"
  shows "validateTelebirrLocalReceipt decimal ref' amount status receipt accounts = Inr v"
  using assms js_includes_trans
  by (auto simp: validateTelebirrLocalReceipt_def split: option.splits if_splits)

lemma local_receipt_sound:
  "validateTelebirrLocalReceipt decimal ref amount status receipt accounts = Inr v \<Longrightarrow>
   \<exists>r. receipt = Some r \<and> status = Some PARSED \<and> normalizeText (re_transactionStatus r) = ''completed'' \<and>
     js_includes (normalizeCode (re_invoiceNumber r)) (normalizeCode ref) \<and>
     decimal (re_settledAmount r) = Some amount \<and> lv_verifiedAmount v = amount \<and>
     (\<exists>account\<in>set accounts.
        accountReceiverMatches account (re_creditedPartyName r) (re_creditedPartyAccountNo r))"
  by (auto simp: validateTelebirrLocalReceipt_def receiverMatches_def list_ex_iff split: option.splits if_splits)

section \<open>Verified deposits\<close>

text \<open>What a result of the client must say for a deposit over an amount to be approved.\<close>

definition confirms :: "(string \<Rightarrow> rat option) \<Rightarrow> rat \<Rightarrow> client_result \<Rightarrow> bool" where
  "confirms decimal amount c \<longleftrightarrow>
     \<not> cr_unavailable c \<and> cr_verified c \<and> js_truthy (cr_record c) \<and>
     js_prop (cr_record c) ''verified'' \<noteq> Bool False \<and>
     js_prop (js_prop (cr_record c) ''settlementAccountMatch'') ''matched'' = Bool True \<and>
     (\<exists>status. trim_field (js_prop (cr_record c) ''status'') = Inr status \<and>
        (status = None \<or> map_option js_lower status = Some ''success'' \<or>
         map_option js_lower status = Some ''completed'')) \<and>
     (\<exists>currency. trim_field (js_prop (cr_record c) ''currency'') = Inr currency \<and>
        (currency = None \<or> currency = Some [] \<or> map_option js_upper currency = Some ''ETB'')) \<and>
     (\<exists>text. toOptionalString (js_prop (cr_record c) ''amount'') = Some text \<and> decimal text = Some amount)"

lemma submitAndEvaluate_confirms:
  assumes "submitAndEvaluate client p ref body = Inr r" "vr_verified r" "vr_settlementMatched r"
    and "vr_amount r = Some text" "decimal text = Some a"
  shows "\<exists>c. client body (js_lower (provider_name p) @ ''-'' @ ref) = Inr c \<and> confirms decimal a c"
proof -
  obtain c where c: "client body (js_lower (provider_name p) @ ''-'' @ ref) = Inr c"
    using assms(1) by (auto simp: submitAndEvaluate_def bind_result_eq_Inr_iff)
  have available: "\<not> cr_unavailable c"
    using assms(1,2) c by (auto simp: submitAndEvaluate_def Let_def)
  let ?rec = "cr_record c"
  obtain status where status: "trim_field (js_prop ?rec ''status'') = Inr status"
    using assms(1) c available by (auto simp: submitAndEvaluate_def bind_result_eq_Inr_iff Let_def)
  obtain name where name: "trim_field (js_prop ?rec ''receiverName'') = Inr name"
    using assms(1) c available status by (auto simp: submitAndEvaluate_def bind_result_eq_Inr_iff Let_def)
  define good where "good \<longleftrightarrow> cr_verified c \<and> js_truthy ?rec \<and> js_prop ?rec ''verified'' \<noteq> Bool False \<and>
      (status = None \<or> map_option js_lower status = Some ''success'' \<or>
       map_option js_lower status = Some ''completed'')"
  define matched where "matched \<longleftrightarrow> js_prop (js_prop ?rec ''settlementAccountMatch'') ''matched'' = Bool True"
  define amount where "amount = toOptionalString (js_prop ?rec ''amount'')"
  define result where "result =
      \<lparr>vr_verified = True, vr_amount = amount, vr_receiverName = (if name = Some [] then None else name),
       vr_settlementMatched = matched, vr_matchedSettlementAccount = None,
       vr_rawResponse = cr_rawResponse c, vr_requestId = cr_requestId c, vr_errorCode = None, vr_reason = None\<rparr>"
  have judged: "(if \<not> good then
           Inr (result\<lparr>vr_verified := False, vr_errorCode := Some INVALID_RECEIPT,
             vr_reason := Some ''Receipt could not be verified. Check the reference number.''\<rparr>)
         else if \<not> matched then
           Inr (result\<lparr>vr_errorCode := Some SETTLEMENT_MISMATCH,
             vr_reason := Some ''This receipt was not paid to the configured settlement account.''\<rparr>)
         else bind_result (trim_field (js_prop ?rec ''currency'')) (\<lambda>currency.
           if currency \<noteq> None \<and> currency \<noteq> Some [] \<and> map_option js_upper currency \<noteq> Some ''ETB'' then
             Inr (result\<lparr>vr_verified := False, vr_errorCode := Some INVALID_RECEIPT,
               vr_reason := Some ''Deposit currency is not supported.''\<rparr>)
           else if amount = None then
             Inr (result\<lparr>vr_errorCode := Some INVALID_RECEIPT,
               vr_reason := Some ''Provider amount could not be confirmed.''\<rparr>)
           else Inr result)) = Inr r"
    using assms(1) available
    unfolding submitAndEvaluate_def c bind_result_simps Let_def good_def matched_def amount_def result_def
    by (simp add: status name)
  have good
    by (rule ccontr) (use judged assms(2) in \<open>auto\<close>)
  moreover have matched
    by (rule ccontr) (use judged assms(3) \<open>good\<close> in \<open>auto simp: result_def\<close>)
  moreover obtain currency where currency: "trim_field (js_prop ?rec ''currency'') = Inr currency"
    using judged \<open>good\<close> \<open>matched\<close> by (auto simp: bind_result_eq_Inr_iff)
  moreover have "currency = None \<or> currency = Some [] \<or> map_option js_upper currency = Some ''ETB''"
    by (rule ccontr) (use judged assms(2) \<open>good\<close> \<open>matched\<close> currency in \<open>auto\<close>)
  moreover have "amount = Some text"
    using judged assms(4) \<open>good\<close> \<open>matched\<close> currency by (auto simp: result_def split: if_splits)
  ultimately have "confirms decimal a c"
    unfolding confirms_def good_def matched_def amount_def
    using available status assms(5) by blast
  then show ?thesis using c by blast
qed

lemma telebirr_lower [simp]: "js_lower ''TELEBIRR'' = ''telebirr''"
  by code_simp

lemma verify_accounts_confirms:
  assumes "verify_accounts client ref accounts lastResult = Inr r" "vr_verified r" "vr_settlementMatched r"
    and "vr_amount r = Some text" "decimal text = Some a"
    and "\<And>x. lastResult = Some x \<Longrightarrow> \<not> (vr_verified x \<and> vr_settlementMatched x)"
  shows "\<exists>body c. client body (''telebirr-'' @ ref) = Inr c \<and> confirms decimal a c"
  using assms
proof (induction accounts arbitrary: lastResult)
  case Nil
  then show ?case by (cases lastResult) auto
next
  case (Cons account accounts)
  let ?body = "[(''bank'', ''telebirr''), (''transactionNumber'', ref), (''settlementAccount'', account)]"
  have seed: "js_lower (provider_name TELEBIRR) @ ''-'' @ ref = ''telebirr-'' @ ref"
    by simp
  obtain x where x: "submitAndEvaluate client TELEBIRR ref ?body = Inr x"
    using Cons.prems(1) by (auto simp: bind_result_eq_Inr_iff)
  show ?case
  proof (cases "vr_verified x \<and> vr_settlementMatched x")
    case True
    then have "vr_amount x = Some text" using Cons.prems(1,4) x by auto
    then show ?thesis
      using submitAndEvaluate_confirms [where decimal = decimal, OF x _ _ _ Cons.prems(5)] True unfolding seed by blast
  next
    case False
    have "vr_verified x" "accounts \<noteq> []" "verify_accounts client ref accounts (Some x) = Inr r"
      using Cons.prems(1-3) x False by (auto split: if_splits)
    then show ?thesis using Cons.IH [of "Some x"] Cons.prems(2-5) False by blast
  qed
qed

lemma verifyDeposit_confirms:
  assumes "verifyDeposit config client p ref = Inr r" "evaluateVerification decimal a r = Inr ()"
  shows "\<exists>body c. client body (js_lower (provider_name p) @ ''-'' @ ref) = Inr c \<and> confirms decimal a c"
proof -
  obtain amountText where r: "vr_verified r" "vr_settlementMatched r" "vr_amount r = Some amountText" "decimal amountText = Some a"
    using assms(2) by (auto simp: evaluateVerification_def split: if_splits option.splits)
  show ?thesis
  proof (cases "p = TELEBIRR")
    case True
    then obtain accounts where "verify_accounts client ref accounts None = Inr r"
      using assms(1) by (auto simp: verifyDeposit_def bind_result_eq_Inr_iff)
    from verify_accounts_confirms [where decimal = decimal, OF this r] show ?thesis
      using True by auto
  next
    case False
    then obtain body where "submitAndEvaluate client p ref body = Inr r"
      using assms(1) by (auto simp: verifyDeposit_def bind_result_eq_Inr_iff)
    from submitAndEvaluate_confirms [where decimal = decimal, OF this r] show ?thesis by blast
  qed
qed

text \<open>The client calls a deposit verified only when a reply is complete and says so.\<close>

lemma finish_exchange_verified:
  assumes "finish_exchange body submitted n final = Inr c" "cr_verified c"
  shows "isCompletedStatus (cr_processingStatus c) \<and>
    (\<exists>m. normalizeVerifyEtResponse (hr_body final) = Inr m \<and> (nr_verified m = Some True \<or> nr_verified n = Some True))"
  using assms by (auto simp: finish_exchange_def bind_result_eq_Inr_iff Let_def)

lemma submitAndPoll_verified:
  assumes "submitAndPoll config http body seed = Inr c" "cr_verified c"
  shows "isCompletedStatus (cr_processingStatus c) \<and> \<not> cr_unavailable c"
proof -
  have "\<exists>submitted n final. finish_exchange body submitted n final = Inr c"
    using assms by (auto simp: submitAndPoll_def bind_result_eq_Inr_iff split: option.splits; blast)
  then show ?thesis
    using assms(2) by (auto simp: finish_exchange_def bind_result_eq_Inr_iff Let_def)
qed

end
