(* ===== verification/DepositProperties.thy ===== *)
theory DepositProperties
  imports PaymentProperties ReceiptFacts
begin

text \<open>
  The properties of the deposits: what is credited and when, what a deposit that is approved at once
  rests on, and two ways in which a payment can still be credited twice.
\<close>

section \<open>Sample requests\<close>

definition sample_receipt :: client_receipt where
  "sample_receipt =
     \<lparr>re_invoiceNumber = ''ABC1234567'', re_transactionStatus = ''Completed'', re_settledAmount = ''40'',
      re_creditedPartyName = ''Bingo'', re_creditedPartyAccountNo = ''2519****4321''\<rparr>"

definition local_dto :: create_deposit_dto where
  "local_dto =
     \<lparr>cd_provider = TELEBIRR, cd_amount = ''40'', cd_transactionRef = ''ABC1234567'',
      cd_receiptParseStatus = Some PARSED, cd_clientReceipt = Some sample_receipt\<rparr>"

definition sample_env :: deposit_env where
  "sample_env =
     \<lparr>de_decimal = (\<lambda>v. if v = ''40'' then Some 40 else None),
      de_urls = \<lparr>ur_parse = (\<lambda>_. None), ur_decode = Some\<rparr>,
      de_config = (\<lambda>k. if k = ''TELEBIRR_RECEIVER_PHONE'' then Some ''0911004321'' else None),
      de_http = \<lparr>ht_submit = (\<lambda>_ _. None), ht_poll = (\<lambda>_ _. None), ht_json = (\<lambda>_. None)\<rparr>\<rparr>"

text \<open>The sample store with the local mode for Telebirr.\<close>

definition local_db :: payment_db where
  "local_db = pay_db\<lparr>pd_configs := [\<lparr>ac_provider = TELEBIRR, ac_enabled = True, ac_approvalMode = LOCAL,
     ac_updatedById = None\<rparr>]\<rparr>"

lemma local_db_ok: "payments_ok local_db"
  using pay_db_ok by (simp add: payments_ok_def withdrawals_ok_def local_db_def cache_ok_def pay_db_def)

section \<open>The credits of the deposits\<close>





section \<open>A deposit that is approved at once\<close>

lemma limit_payment_configs: "stored_config (snd (limit_payment now action u s)) p = stored_config s p"
proof -
  obtain r t where "limit_payment now action u s = (r, t)" by fastforce
  then show ?thesis using limit_payment_state [of now action u s r t]
    by (metis payment_db.select_convs payment_db.surjective payment_db.update_convs(8) snd_conv stored_config_def)
qed

lemma limited_cache: "payments_ok s \<Longrightarrow> cache_ok (snd (limit_payment now action u s))"
  using limit_payment_ok [of s now action u] by (simp add: payments_ok_def)

text \<open>What an answer of the verification service, or a receipt, must say of a deposit.\<close>

definition verified_by_service :: "deposit_env \<Rightarrow> deposit_row \<Rightarrow> bool" where
  "verified_by_service env d \<longleftrightarrow>
     (\<exists>body c. submitAndPoll (de_config env) (de_http env) body
         (js_lower (provider_name (dp_provider d)) @ ''-'' @ dp_transactionRef d) = Inr c \<and>
       confirms (de_decimal env) (dp_amount d) c \<and> isCompletedStatus (cr_processingStatus c))"

definition verified_by_receipt :: "deposit_env \<Rightarrow> create_deposit_dto \<Rightarrow> deposit_row \<Rightarrow> bool" where
  "verified_by_receipt env dto d \<longleftrightarrow>
     dp_provider d = TELEBIRR \<and> cd_receiptParseStatus dto = Some PARSED \<and>
     (\<exists>receipt. cd_clientReceipt dto = Some receipt \<and>
       normalizeText (re_transactionStatus receipt) = ''completed'' \<and>
       js_includes (normalizeCode (re_invoiceNumber receipt)) (normalizeCode (dp_transactionRef d)) \<and>
       de_decimal env (re_settledAmount receipt) = Some (dp_amount d) \<and>
       (\<exists>account\<in>set (getTelebirrAccounts (de_config env)).
          accountReceiverMatches account (re_creditedPartyName receipt) (re_creditedPartyAccountNo receipt)))"

lemma pending_not_approved:
  "dp_status d = DP_APPROVED \<Longrightarrow> createManualPendingDeposit now newId s u p a ref dto \<noteq> (Inr d, t)"
  by (auto simp: createManualPendingDeposit_def used_reference_def Let_def split: prod.splits sum.splits)

lemma automatic_approves:
  assumes "createAutomaticDeposit env now newId l s u a ref dto = (Inr d, t)" "dp_status d = DP_APPROVED"
  obtains v params where
    "verifyDeposit (de_config env) (submitAndPoll (de_config env) (de_http env)) (cd_provider dto) ref = Inr v"
    "evaluateVerification (de_decimal env) a v = Inr ()"
    "createApprovedDeposit (de_decimal env) now newId l s params = (Inr d, t)"
    "ap_amount params = a" "ap_userId params = u" "ap_provider params = cd_provider dto" "ap_transactionRef params = ref"
  using assms pending_not_approved [OF assms(2), of now newId s u "cd_provider dto" a ref dto t]
  by (auto simp: createAutomaticDeposit_def split: sum.splits prod.splits if_splits)

lemma local_approves:
  assumes "createLocalTelebirrDeposit env now newId l s u a ref dto = (Inr d, t)" "dp_status d = DP_APPROVED"
  obtains v params where
    "validateTelebirrLocalReceipt (de_decimal env) ref a (cd_receiptParseStatus dto) (cd_clientReceipt dto)
       (getTelebirrAccounts (de_config env)) = Inr v"
    "createApprovedDeposit (de_decimal env) now newId l s params = (Inr d, t)"
    "ap_amount params = a" "ap_userId params = u" "ap_provider params = TELEBIRR" "ap_transactionRef params = ref"
  using assms pending_not_approved [OF assms(2), of now newId s u TELEBIRR a ref dto t]
  by (auto simp: createLocalTelebirrDeposit_def split: sum.splits if_splits)

lemma by_mode_evidence:
  assumes ok: "payments_ok s" "js_trim newId \<noteq> []" "l \<notin> ledger_ids (pd_wallet s)" and a: "0 < a"
    and out: "deposit_by_mode env now newId l s u a ref dto mode = (Inr d, t)" and d: "dp_status d = DP_APPROVED"
  shows "dp_id d = newId \<and> dp_userId d = u \<and> dp_provider d = cd_provider dto \<and> dp_amount d = a \<and>
    dp_transactionRef d = ref \<and>
    (mode = AUTOMATIC \<and> verified_by_service env d \<or> mode = LOCAL \<and> verified_by_receipt env dto d)"
proof -
  have approved: "dp_id d = newId \<and> dp_userId d = ap_userId params \<and> dp_amount d = ap_amount params \<and>
      dp_provider d = ap_provider params \<and> dp_transactionRef d = ap_transactionRef params"
    if "createApprovedDeposit (de_decimal env) now newId l s params = (Inr d, t)" "ap_amount params = a" for params
    using create_approved_effect [OF ok(1) _ ok(2,3) that(1)] that(2) a by simp
  consider (auto) "mode = AUTOMATIC" "createAutomaticDeposit env now newId l s u a ref dto = (Inr d, t)"
    | (local) "mode = LOCAL" "cd_provider dto = TELEBIRR" "createLocalTelebirrDeposit env now newId l s u a ref dto = (Inr d, t)"
    using out pending_not_approved [OF d] by (cases mode) (auto simp: deposit_by_mode_def split: if_splits)
  then show ?thesis
  proof cases
    case auto
    obtain v params where v: "verifyDeposit (de_config env) (submitAndPoll (de_config env) (de_http env)) (cd_provider dto) ref = Inr v"
        "evaluateVerification (de_decimal env) a v = Inr ()"
      and params: "createApprovedDeposit (de_decimal env) now newId l s params = (Inr d, t)"
        "ap_amount params = a" "ap_userId params = u" "ap_provider params = cd_provider dto" "ap_transactionRef params = ref"
      using automatic_approves [OF auto(2) d] by blast
    obtain body c where c: "submitAndPoll (de_config env) (de_http env) body (js_lower (provider_name (cd_provider dto)) @ ''-'' @ ref) = Inr c"
        "confirms (de_decimal env) a c"
      using verifyDeposit_confirms [OF v] by blast
    have "isCompletedStatus (cr_processingStatus c)"
      using submitAndPoll_verified [OF c(1)] c(2) by (simp add: confirms_def)
    then have "verified_by_service env d"
      unfolding verified_by_service_def using c approved [OF params(1,2)] params(2-) by auto
    then show ?thesis using approved [OF params(1,2)] params(2-) auto(1) by simp
  next
    case local
    obtain v params where v: "validateTelebirrLocalReceipt (de_decimal env) ref a (cd_receiptParseStatus dto)
        (cd_clientReceipt dto) (getTelebirrAccounts (de_config env)) = Inr v"
      and params: "createApprovedDeposit (de_decimal env) now newId l s params = (Inr d, t)"
        "ap_amount params = a" "ap_userId params = u" "ap_provider params = TELEBIRR" "ap_transactionRef params = ref"
      using local_approves [OF local(3) d] by blast
    have "verified_by_receipt env dto d"
      unfolding verified_by_receipt_def using local_receipt_sound [OF v] approved [OF params(1,2)] params(2-) by auto
    then show ?thesis using approved [OF params(1,2)] params(2-) local(1,2) by simp
  qed
qed

text \<open>
  C9. A deposit that is approved by its own request rests on evidence: its provider is enabled and not
  in the manual mode, and either the last reply of the verification service is complete, says that the
  payment was verified, settled to the configured account, in birr, over exactly the amount of the
  request, or, in the local mode of Telebirr, the receipt is completed, names the reference, the same
  amount and a configured receiver.
\<close>

theorem approved_deposit_evidence:
  assumes "payments_ok s" "payments_ok (others (deposit_checked now u (cd_provider dto) s))"
    and "js_trim newId \<noteq> []" "l \<notin> ledger_ids (pd_wallet (others (deposit_checked now u (cd_provider dto) s)))"
    and "createDeposit env others now newId l s u dto = (Inr d, t)"
    and "dp_status d = DP_APPROVED" "d \<notin> set (pd_deposits s)"
  shows "dp_id d = newId \<and> dp_userId d = u \<and> dp_provider d = cd_provider dto \<and>
    de_decimal env (cd_amount dto) = Some (dp_amount d) \<and> 10 \<le> dp_amount d \<and> dp_amount d \<le> 10000 \<and>
    REFERENCE_PATTERN (dp_transactionRef d) \<and> ac_enabled (stored_config s (dp_provider d)) \<and>
    (ac_approvalMode (stored_config s (dp_provider d)) = AUTOMATIC \<and> verified_by_service env d \<or>
     ac_approvalMode (stored_config s (dp_provider d)) = LOCAL \<and> verified_by_receipt env dto d)"
proof (cases rule: createDeposit_cases [of env others now newId l s u dto])
  case (limited e)
  then show ?thesis using assms(5) by simp
next
  case (refused e)
  then show ?thesis using assms(5) by simp
next
  case (repeated mode ref d')
  have "pd_deposits (deposit_checked now u (cd_provider dto) s) = pd_deposits s"
  proof -
    obtain r t where "limit_payment now Deposit_Request u s = (r, t)" by fastforce
    then show ?thesis using limit_payment_state [of now Deposit_Request u s r t]
      by (metis deposit_checked_def getMode_frame(3) payment_db.select_convs(6) payment_db.surjective payment_db.update_convs(8) snd_conv)
  qed
  then have "d' \<in> set (pd_deposits s)"
    using repeated(4)
    by (auto simp: ensureReferenceAvailable_def findActiveDepositByReference_def dest: find_in split: option.splits if_splits)
  then show ?thesis using repeated(1) assms(5,7) by simp
next
  case (created a mode ref)
  let ?S = "others (deposit_checked now u (cd_provider dto) s)"
  have mode: "ac_enabled (stored_config s (cd_provider dto))" "ac_approvalMode (stored_config s (cd_provider dto)) = mode"
    using created(3) getMode_current(1) [OF limited_cache [OF assms(1)]]
    by (auto simp: limit_payment_configs split: if_splits)
  have a: "10 \<le> a" "a \<le> 10000" "de_decimal env (cd_amount dto) = Some a" using parseDepositAmount_pos [OF created(2)] by auto
  have out: "deposit_by_mode env now newId l ?S u a ref dto mode = (Inr d, t)"
    using created(1) assms(5) by simp
  show ?thesis
    using by_mode_evidence [OF assms(2,3,4) _ out assms(6)] a mode created(5) by auto
qed

theorem approved_deposit_evidence_witness:
  "\<exists>d. fst (createDeposit sample_env id 5 ''d2'' ''l1'' local_db ''ben'' local_dto) = Inr d \<and> dp_amount d = 40 \<and>
    dp_status d = DP_APPROVED \<and>
    js_includes (normalizeCode (re_invoiceNumber sample_receipt)) (normalizeCode (dp_transactionRef d))"
proof -
  let ?out = "createDeposit sample_env id 5 ''d2'' ''l1'' local_db ''ben'' local_dto"
  have "case fst ?out of Inl e \<Rightarrow> False | Inr d \<Rightarrow> dp_id d = ''d2'' \<and> dp_status d = DP_APPROVED"
    by code_simp
  then obtain d where d: "fst ?out = Inr d" "dp_id d = ''d2''" "dp_status d = DP_APPROVED" by (auto split: sum.splits)
  have new: "d \<notin> set (pd_deposits local_db)" using d(2) by (auto simp: local_db_def pay_defs)
  have wallet: "pd_wallet (deposit_checked 5 ''ben'' (cd_provider local_dto) local_db) = pd_wallet local_db"
    by (simp add: deposit_checked_def getMode_frame limit_payment_def split: prod.splits)
  have ok: "payments_ok (id (deposit_checked 5 ''ben'' (cd_provider local_dto) local_db))"
    using deposit_checked_ok [OF local_db_ok] by simp
  have "''l1'' \<notin> ledger_ids (pd_wallet (id (deposit_checked 5 ''ben'' (cd_provider local_dto) local_db)))"
    using wallet by (simp add: local_db_def pay_defs ledger_ids_def)
  moreover have "createDeposit sample_env id 5 ''d2'' ''l1'' local_db ''ben'' local_dto = (Inr d, snd ?out)"
    using d(1) by (metis prod.collapse)
  ultimately have "de_decimal sample_env (cd_amount local_dto) = Some (dp_amount d)" "dp_provider d = TELEBIRR"
    "ac_approvalMode (stored_config local_db TELEBIRR) = AUTOMATIC \<or> verified_by_receipt sample_env local_dto d"
    using approved_deposit_evidence [where others = id, OF local_db_ok ok, of "''d2''" "''l1''" sample_env d "snd ?out"] d(3) new
    by (auto simp: local_dto_def)
  then show ?thesis using d by (auto simp: sample_env_def local_dto_def stored_config_def local_db_def verified_by_receipt_def)
qed

section \<open>A receipt that is credited under several references\<close>

lemma find_update_where:
  "(\<And>x. Q (f x) = Q x) \<Longrightarrow> find Q (update_where P f xs) = None \<longleftrightarrow> find Q xs = None"
  by (induction xs) (auto simp: update_where_def)

lemma createApprovedDeposit_succeeds:
  assumes ok: "payments_ok s" and a: "0 < ap_amount params" "js_trim newId \<noteq> []"
    and fresh: "l \<notin> ledger_ids (pd_wallet s)" "newId \<notin> dp_id ` set (pd_deposits s)"
    and free: "findActiveDepositByReference s (ap_provider params) (ap_transactionRef params) = None"
    and w: "db_wallets (pd_wallet s) (ap_userId params) = Some w" and v: "verified_amount decimal params = Inr v"
  shows "\<exists>d t. createApprovedDeposit decimal now newId l s params = (Inr d, t) \<and>
    dp_status d = DP_APPROVED \<and> dp_amount d = ap_amount params \<and> dp_transactionRef d = ap_transactionRef params \<and>
    pd_deposits t = pd_deposits s @ [d] \<and>
    db_wallets (pd_wallet t) = (db_wallets (pd_wallet s))(ap_userId params \<mapsto> credited (ap_amount params) w)"
proof -
  let ?d = "approved_deposit now newId v params"
  let ?s1 = "s\<lparr>pd_deposits := pd_deposits s @ [?d]\<rparr>"
  have user: "ap_userId params \<in> db_users (pd_wallet s)" using ok w by (auto simp: payments_ok_def)
  have ins: "insert_deposit ?d s = (Inr (), ?s1)"
    using fresh(2) free user
    by (auto simp: insert_deposit_def list_ex_iff findActiveDepositByReference_def find_None_iff)
  have key: "deposit_key ?d \<notin> posted (pd_wallet ?s1)"
    using new_deposit_key_free [OF books_of(1) [OF ok] fresh(2)] by (simp add: deposit_key_def)
  obtain s2 where credit: "credit_deposit l ?d ?s1 = (Inr (), s2)"
      "pd_deposits s2 = update_where (\<lambda>x. dp_id x = newId \<and> l \<noteq> []) (\<lambda>x. x\<lparr>dp_walletTransactionId := Some l\<rparr>)
         (pd_deposits s @ [?d])"
    using credit_deposit_outcome [of ?s1 ?d l] ok a fresh(1) user key w by simp
  have "find_deposit s2 newId \<noteq> None"
    unfolding find_deposit_def credit(2) by (subst find_update_where) (auto simp: find_None_iff)
  then obtain d where "find_deposit s2 newId = Some d" by auto
  then have out: "createApprovedDeposit decimal now newId l s params = (Inr d, s2)"
    by (simp add: createApprovedDeposit_def v ins credit(1) refreshed_deposit_def in_transaction_def used_reference_def Let_def)
  show ?thesis using create_approved_effect [OF ok a fresh(1) out] out w by auto
qed

text \<open>
  C32. In the local mode one receipt can be credited more than once: a receipt that is accepted for a
  reference is accepted and credited in full for every other reference that is a part of it, as the
  invoice number need only contain the reference and only equal references exclude each other.
\<close>

theorem one_receipt_many_references:
  assumes "payments_ok s" "0 < a" "js_trim newId \<noteq> []" "l \<notin> ledger_ids (pd_wallet s)"
    and "newId \<notin> dp_id ` set (pd_deposits s)" "db_wallets (pd_wallet s) u = Some wallet"
    and "cd_receiptParseStatus dto = Some PARSED" "cd_clientReceipt dto = Some receipt"
    and "validateTelebirrLocalReceipt (de_decimal env) ref a (Some PARSED) (Some receipt)
      (getTelebirrAccounts (de_config env)) = Inr v"
    and "js_includes (normalizeCode ref) (normalizeCode ref')"
    and "findActiveDepositByReference s TELEBIRR ref' = None"
  shows "\<exists>d t. createLocalTelebirrDeposit env now newId l s u a ref' dto = (Inr d, t) \<and>
    dp_status d = DP_APPROVED \<and> dp_transactionRef d = ref' \<and>
    db_wallets (pd_wallet t) =
      (db_wallets (pd_wallet s))(u \<mapsto> wallet\<lparr>wa_balance := wa_balance wallet + a\<rparr>)"
proof -
  have v: "validateTelebirrLocalReceipt (de_decimal env) ref' a (Some PARSED) (Some receipt)
      (getTelebirrAccounts (de_config env)) = Inr v"
    by (rule local_receipt_part [OF assms(9,10)])
  have c: "credited a w = w\<lparr>wa_balance := wa_balance w + a\<rparr>" for w
    by (simp add: credited_def set_balances_def)
  obtain params where params: "createLocalTelebirrDeposit env now newId l s u a ref' dto =
      createApprovedDeposit (de_decimal env) now newId l s params"
      "ap_amount params = a" "ap_userId params = u" "ap_provider params = TELEBIRR" "ap_transactionRef params = ref'"
      "verified_amount (de_decimal env) params = Inr (Some (lv_verifiedAmount v))"
    using v assms(7,8) by (simp add: createLocalTelebirrDeposit_def verified_amount_def)
  from createApprovedDeposit_succeeds [OF assms(1) _ assms(3,4,5) _ _ params(6), where now = now and w = wallet] assms(2,6,11)
  show ?thesis unfolding params(1) by (simp add: params(2-) c) blast
qed

theorem one_receipt_many_references_witness:
  "\<exists>d t. createLocalTelebirrDeposit sample_env 5 ''d2'' ''l1'' local_db ''ben'' 40 ''BC1234567'' local_dto = (Inr d, t) \<and>
    dp_status d = DP_APPROVED \<and> dp_transactionRef d = ''BC1234567'' \<and>
    map_option wa_balance (db_wallets (pd_wallet t) ''ben'') = Some 40"
proof -
  have "\<not> isl (validateTelebirrLocalReceipt (de_decimal sample_env) ''ABC1234567'' 40 (Some PARSED) (Some sample_receipt)
      (getTelebirrAccounts (de_config sample_env)))" by code_simp
  then obtain v where v: "validateTelebirrLocalReceipt (de_decimal sample_env) ''ABC1234567'' 40 (Some PARSED)
      (Some sample_receipt) (getTelebirrAccounts (de_config sample_env)) = Inr v"
    by (metis isl_def old.sum.exhaust)
  have part: "js_includes (normalizeCode ''ABC1234567'') (normalizeCode ''BC1234567'')" by code_simp
  have "\<exists>d t. createLocalTelebirrDeposit sample_env 5 ''d2'' ''l1'' local_db ''ben'' 40 ''BC1234567'' local_dto = (Inr d, t) \<and>
    dp_status d = DP_APPROVED \<and> dp_transactionRef d = ''BC1234567'' \<and>
    db_wallets (pd_wallet t) =
      (db_wallets (pd_wallet local_db))(''ben'' \<mapsto> ben_wallet\<lparr>wa_balance := wa_balance ben_wallet + 40\<rparr>)"
    by (rule one_receipt_many_references [OF local_db_ok _ _ _ _ _ _ _ v part])
      (simp_all add: local_db_def pay_defs ledger_ids_def local_dto_def findActiveDepositByReference_def same_reference_def)
  then show ?thesis by (force simp: ben_wallet_def)
qed

section \<open>A rejection that an approval overtakes\<close>

text \<open>
  C31. A rejection does not look at the status when it writes: when an approval commits between its read
  and its write, the deposit ends as rejected although its credit is in the ledger and in the balance,
  and its reference is free for a new deposit.
\<close>

theorem overtaken_rejection:
  assumes "payments_ok s" "l \<notin> ledger_ids (pd_wallet s)" "find_deposit s i = Some e" "dp_status e = DP_PENDING"
    and "db_wallets (pd_wallet s) (dp_userId e) = Some wallet"
  shows "\<exists>d t. rejectDeposit (\<lambda>s. snd (approveDeposit id now l s i DEPOSIT_MANUAL_APPROVAL_PIN approver))
      s i reason rejecter = (Inr d, t) \<and>
    dp_status d = DP_REJECTED \<and> deposit_key d \<in> posted (pd_wallet t) \<and>
    db_wallets (pd_wallet t) = (db_wallets (pd_wallet s))(dp_userId e \<mapsto>
      wallet\<lparr>wa_balance := wa_balance wallet + dp_amount e\<rparr>) \<and>
    findActiveDepositByReference t (dp_provider e) (dp_transactionRef e) = None"
proof -
  let ?others = "\<lambda>s. snd (approveDeposit id now l s i DEPOSIT_MANUAL_APPROVAL_PIN approver)"
  obtain d' s' where s': "approveDeposit id now l s i DEPOSIT_MANUAL_APPROVAL_PIN approver = (Inr d', s')"
      "deposit_effect s s'" "d' \<in> set (pd_deposits s')" "deposit_follows e d'" "dp_status d' = DP_APPROVED"
      "db_wallets (pd_wallet s') = (db_wallets (pd_wallet s))(dp_userId e \<mapsto> credited (dp_amount e) wallet)"
    using approve_effect [where others = id and ?db0.0 = s and i = i and e = e and d = e and l = l
        and now = now and source = "''Manual admin approval''" and actorId = approver] assms
    by (auto simp: approveDeposit_def assertDepositApprovalPin_def)
  have books: "deposit_books (pd_wallet s') (pd_deposits s')"
    using deposit_effect_ok [OF assms(1) s'(2)] by simp
  then have distinct: "distinct (map dp_id (pd_deposits s'))" by (simp add: deposit_books_def)
  have id: "dp_id d' = i" "dp_provider d' = dp_provider e" "dp_transactionRef d' = dp_transactionRef e"
    using s'(4) find_deposit_in [OF assms(3)] by (simp_all add: deposit_follows_def)
  have found: "find_deposit (?others s) i = Some d'"
    using find_deposit_iff [OF distinct] s'(1,3) id(1) by simp
  obtain r t where rt: "rejectDeposit ?others s i reason rejecter = (r, t)" by fastforce
  note st = reject_state [where others = ?others, OF assms(3,4) found _ rt]
  let ?f = "rejection reason (dp_verifiedData e)"
  have t: "r = Inr (?f d')" "pd_deposits t = update_where (\<lambda>x. dp_id x = i) ?f (pd_deposits s')" "pd_wallet t = pd_wallet s'"
    using st distinct s'(1) by simp_all
  have key: "deposit_key (?f d') \<in> posted (pd_wallet s')"
    using books s'(3,5) by (simp add: deposit_books_def deposit_ok_def deposit_key_def)
  have free: "\<not> (same_reference (dp_provider e) (dp_transactionRef e) x \<and> active_deposit x)" if "x \<in> set (pd_deposits t)" for x
  proof
    assume x: "same_reference (dp_provider e) (dp_transactionRef e) x \<and> active_deposit x"
    obtain y where y: "y \<in> set (pd_deposits s')" "x = (if dp_id y = i then ?f y else y)"
      using \<open>x \<in> set (pd_deposits t)\<close> t(2) by (auto simp: in_update_where)
    have other: "dp_id y \<noteq> i" "x = y" using x y(2) by (auto simp: active_deposit_def split: if_splits)
    have "active_deposit d'" using s'(5) by (simp add: active_deposit_def)
    moreover have "reference_of y = reference_of d'" using x other id by (simp add: same_reference_def reference_of_def)
    ultimately have "y = d'"
      using books y(1) s'(3) x other
      by (auto simp: deposit_books_def references_unique_def distinct_map dest: inj_onD)
    then show False using other id by simp
  qed
  have c: "credited a w = w\<lparr>wa_balance := wa_balance w + a\<rparr>" for a w
    by (simp add: credited_def set_balances_def)
  show ?thesis
    using rt t key s'(6) free
    by (auto simp: findActiveDepositByReference_def find_None_iff c)
qed

theorem overtaken_rejection_witness:
  "\<exists>d t. rejectDeposit (\<lambda>s. snd (approveDeposit id 6 ''l1'' s ''d1'' DEPOSIT_MANUAL_APPROVAL_PIN None))
      pay_db ''d1'' ''no receipt'' None = (Inr d, t) \<and>
    dp_status d = DP_REJECTED \<and> map_option wa_balance (db_wallets (pd_wallet t) ''ben'') = Some 40"
proof -
  have "find_deposit pay_db ''d1'' = Some sample_deposit" "dp_status sample_deposit = DP_PENDING"
    "''l1'' \<notin> ledger_ids (pd_wallet pay_db)" "db_wallets (pd_wallet pay_db) (dp_userId sample_deposit) = Some ben_wallet"
    by (simp_all add: find_deposit_def ledger_ids_def pay_defs)
  from overtaken_rejection [OF pay_db_ok this(3,1,2,4), of 6 None "''no receipt''" None]
  show ?thesis by (force simp: sample_deposit_def ben_wallet_def)
qed

section \<open>References\<close>

text \<open>
  A reference that the reader has accepted has the form of a reference and is read as itself again,
  if no bare reference parses as a URL.
\<close>

theorem reference_canonical:
  assumes "canonicalizeDepositTransactionRef urls p m ref base = Some r"
    and "\<And>v. REFERENCE_PATTERN v \<Longrightarrow> ur_parse urls v = None"
  shows "REFERENCE_PATTERN r \<and> canonicalizeDepositTransactionRef urls p m r base = Some r"
  using canonical_pattern [OF assms(1)] canonical_fixed [OF assms] by blast

theorem reference_canonical_witness:
  "canonicalizeDepositTransactionRef (de_urls sample_env) CBE MANUAL ''FT12AB'' [] = Some ''FT12AB''"
proof -
  have "canonicalizeDepositTransactionRef (de_urls sample_env) CBE MANUAL '' ft12ab '' [] = Some ''FT12AB''"
    by code_simp
  from reference_canonical [OF this] show ?thesis by (simp add: sample_env_def)
qed

end
