(* ===== verification/Accounts.thy ===== *)
theory Accounts
  imports RateLimit VerifyEt
begin

text \<open>
  The part of the database the authentication uses (\<open>prisma/schema.prisma\<close>): users, one-time codes,
  refresh tokens, the grants of the welcome bonus and the wallets; with the buckets of the limiter.
  Phone numbers are read by \<open>common/utils/phone.util.ts\<close>.

  \<open>bcrypt\<close>, the hash of a token and the signature of an access token belong to libraries: they are
  the record \<open>crypto\<close>. Random tokens, salts and identifiers are arguments of the operations.
\<close>

section \<open>Phone numbers\<close>

definition normalizeEthiopianPhone :: "string \<Rightarrow> string" where
  "normalizeEthiopianPhone phone =
     (let digits = digitsOnly phone in
      if take 3 digits = ''251'' then digits
      else if take 1 digits = ''0'' then ''251'' @ drop 1 digits
      else if take 1 digits = ''9'' \<and> length digits = 9 then ''251'' @ digits
      else digits)"

definition toLocalEthiopianPhone :: "string \<Rightarrow> string" where
  "toLocalEthiopianPhone normalizedPhone =
     (if take 3 normalizedPhone = ''251'' \<and> 12 \<le> length normalizedPhone
      then CHR ''0'' # drop 3 normalizedPhone else normalizedPhone)"

definition ethiopianPhoneLookupVariants :: "string \<Rightarrow> string list" where
  "ethiopianPhoneLookupVariants phone =
     (let normalized = normalizeEthiopianPhone phone; local_form = toLocalEthiopianPhone normalized
      in if local_form = normalized then [normalized] else [normalized, local_form])"

definition maskEthiopianPhone :: "string \<Rightarrow> string" where
  "maskEthiopianPhone phone =
     (let local_form = toLocalEthiopianPhone (normalizeEthiopianPhone phone)
      in if length local_form \<le> 4 then local_form
         else take 4 local_form @ replicate (length local_form - 4) (CHR ''*''))"

section \<open>Data\<close>

datatype user_role = ADMIN | PLAYER

datatype user_status = USER_ACTIVE | USER_BLOCKED

datatype otp_purpose = OTP_LOGIN | OTP_REGISTER | OTP_PASSWORD_RESET

record user_row =
  us_id :: string
  us_fullName :: string
  us_phoneNumber :: string
  us_password :: "string option"
  us_role :: user_role
  us_status :: user_status
  us_createdAt :: int

record otp_challenge =
  oc_id :: string
  oc_phoneNumber :: string
  oc_purpose :: otp_purpose
  oc_codeHash :: string
  oc_expiresAt :: int
  oc_attemptCount :: int
  oc_consumedAt :: "int option"
  oc_requestIp :: "string option"
  oc_deviceId :: "string option"
  oc_createdAt :: int

record refresh_token =
  rt_id :: string
  rt_tokenHash :: string
  rt_userId :: string
  rt_deviceId :: "string option"
  rt_expiresAt :: int
  rt_revokedAt :: "int option"
  rt_createdAt :: int

record bonus_grant =
  bg_deviceId :: string
  bg_userId :: string
  bg_phoneNumber :: string
  bg_bonusAmount :: int

record auth_db =
  ad_users :: "user_row list"
  ad_otps :: "otp_challenge list"
  ad_tokens :: "refresh_token list"
  ad_grants :: "bonus_grant list"
  ad_wallet :: wallet_db
  ad_buckets :: buckets

type_synonym 'a auth = "(http_error + 'a) \<times> auth_db"

record crypto =
  cy_hash :: "string \<Rightarrow> string \<Rightarrow> string"
  cy_compare :: "string \<Rightarrow> string \<Rightarrow> bool"
  cy_token :: "string \<Rightarrow> string"
  cy_sign :: "string \<times> string \<times> user_role \<Rightarrow> string"

section \<open>Reading\<close>

text \<open>\<open>configService.get<number>(key) ?? default\<close>\<close>

type_synonym number_settings = "string \<Rightarrow> int option"

text \<open>\<open>findFirst\<close> with \<open>orderBy createdAt desc\<close>; of rows of one instant, the one created last.\<close>

fun latest_by :: "('a \<Rightarrow> int) \<Rightarrow> 'a list \<Rightarrow> 'a option" where
  "latest_by key [] = None"
| "latest_by key (x # xs) =
     (case latest_by key xs of None \<Rightarrow> Some x | Some y \<Rightarrow> if key x \<le> key y then Some y else Some x)"

definition find_user :: "auth_db \<Rightarrow> string \<Rightarrow> user_row option" where
  "find_user db userId = find (\<lambda>u. us_id u = userId) (ad_users db)"

text \<open>Without an order the database may return either of two variants; here the first row.\<close>

definition findUserByPhone :: "auth_db \<Rightarrow> string \<Rightarrow> user_row option" where
  "findUserByPhone db phoneNumber =
     find (\<lambda>u. List.member (ethiopianPhoneLookupVariants phoneNumber) (us_phoneNumber u)) (ad_users db)"

definition update_user :: "string \<Rightarrow> (user_row \<Rightarrow> user_row) \<Rightarrow> auth_db \<Rightarrow> auth_db" where
  "update_user userId f db = db\<lparr>ad_users := update_where (\<lambda>u. us_id u = userId) f (ad_users db)\<rparr>"

definition auth_transaction :: "auth_db \<Rightarrow> 'a auth \<Rightarrow> 'a auth" where
  "auth_transaction db out = (case out of (Inl e, _) \<Rightarrow> (Inl e, db) | (Inr x, db') \<Rightarrow> (Inr x, db'))"

text \<open>\<open>deviceId || null\<close>\<close>

definition nonempty :: "string option \<Rightarrow> string option" where
  "nonempty v = (if v = Some [] then None else v)"

end
