(* ===== verification/OneTimeCodes.thy ===== *)
theory OneTimeCodes
  imports Accounts
begin

text \<open>
  The one-time codes: \<open>src/src/auth/otp.service.ts\<close>. The SMS provider makes the code and answers
  with it, or fails: that answer is an argument. \<open>others\<close> is what other requests commit between the
  reading of a challenge and its update.
\<close>

section \<open>Settings\<close>

definition INVALID_OTP_MESSAGE :: string where
  "INVALID_OTP_MESSAGE = ''Invalid or expired code''"

definition GEEZSMS_OTP_LENGTH :: nat where
  "GEEZSMS_OTP_LENGTH = 4"

definition digit_char :: "char \<Rightarrow> bool" where
  "digit_char c \<longleftrightarrow> 48 \<le> (of_char c :: nat) \<and> (of_char c :: nat) \<le> 57"

definition ETHIO_TELECOM_MOBILE :: "string \<Rightarrow> bool" where
  "ETHIO_TELECOM_MOBILE s \<longleftrightarrow> take 4 s = ''2519'' \<and> length s = 12 \<and> list_all digit_char (drop 4 s)"

definition OTP_DIGITS_PATTERN :: "string \<Rightarrow> bool" where
  "OTP_DIGITS_PATTERN s \<longleftrightarrow> length s = GEEZSMS_OTP_LENGTH \<and> list_all digit_char s"

definition getOtpExpiresMinutes :: "number_settings \<Rightarrow> int" where
  "getOtpExpiresMinutes config = or_else (config ''OTP_EXPIRES_MINUTES'') 5"

definition getOtpMaxAttempts :: "number_settings \<Rightarrow> int" where
  "getOtpMaxAttempts config = or_else (config ''OTP_MAX_ATTEMPTS'') 8"

definition getResendCooldownSeconds :: "number_settings \<Rightarrow> int" where
  "getResendCooldownSeconds config = or_else (config ''OTP_RESEND_COOLDOWN_SECONDS'') 30"

definition getSendLimitPerPhone :: "number_settings \<Rightarrow> int" where
  "getSendLimitPerPhone config = or_else (config ''OTP_SEND_LIMIT_PER_PHONE'') 30"

definition getSendLimitPerIp :: "number_settings \<Rightarrow> int" where
  "getSendLimitPerIp config = or_else (config ''OTP_SEND_LIMIT_PER_IP'') 200"

definition getSendWindowMinutes :: "number_settings \<Rightarrow> int" where
  "getSendWindowMinutes config = or_else (config ''OTP_SEND_WINDOW_MINUTES'') 15"

definition maskPhone :: "string \<Rightarrow> string" where
  "maskPhone phoneNumber =
     (if length phoneNumber \<le> 7 then phoneNumber
      else take 7 phoneNumber @ replicate (length phoneNumber - 7) (CHR ''*''))"

section \<open>Sending a code\<close>

definition assertValidGeezPhone :: "string \<Rightarrow> http_error + unit" where
  "assertValidGeezPhone phoneNumber =
     (if \<not> ETHIO_TELECOM_MOBILE phoneNumber
      then Inl (Bad_Request ''Phone number must be a valid Ethiopian mobile (2519xxxxxxxx)'') else Inr ())"

definition assertPurposeAllowed :: "auth_db \<Rightarrow> string \<Rightarrow> otp_purpose \<Rightarrow> http_error + unit" where
  "assertPurposeAllowed db phoneNumber purpose =
     (if purpose = OTP_REGISTER then
        (if findUserByPhone db phoneNumber \<noteq> None
         then Inl (Conflict ''Phone number is already registered'') else Inr ())
      else if findUserByPhone db phoneNumber = None \<and> purpose = OTP_LOGIN
      then Inl (Not_Found ''User not found'') else Inr ())"

definition too_many_codes :: http_error where
  "too_many_codes = Too_Many_Requests ''Too many OTP requests. Please try again later.''"

definition assertSendRateLimits ::
  "number_settings \<Rightarrow> int \<Rightarrow> auth_db \<Rightarrow> string \<Rightarrow> string option \<Rightarrow> unit auth" where
  "assertSendRateLimits config now db phoneNumber requestIp =
     (let windowMs = getSendWindowMinutes config * 60000;
          (phoneAllowed, bs1) = consume now (ad_buckets db) (''otp-send:phone:'' @ phoneNumber)
            (getSendLimitPerPhone config) windowMs
      in if \<not> phoneAllowed then (Inl too_many_codes, db\<lparr>ad_buckets := bs1\<rparr>)
         else
           (case nonempty requestIp of
              None \<Rightarrow> (Inr (), db\<lparr>ad_buckets := bs1\<rparr>)
            | Some ip \<Rightarrow>
                (let (ipAllowed, bs2) = consume now bs1 (''otp-send:ip:'' @ ip) (getSendLimitPerIp config) windowMs
                 in (if ipAllowed then Inr () else Inl too_many_codes, db\<lparr>ad_buckets := bs2\<rparr>))))"

text \<open>\<open>Math.ceil(ms / 1000)\<close>\<close>

definition ceil_seconds :: "int \<Rightarrow> int" where
  "ceil_seconds ms = - ((- ms) div 1000)"

definition assertResendCooldown ::
  "number_settings \<Rightarrow> int \<Rightarrow> auth_db \<Rightarrow> string \<Rightarrow> otp_purpose \<Rightarrow> http_error + unit" where
  "assertResendCooldown config now db phoneNumber purpose =
     (case latest_by oc_createdAt
             (filter (\<lambda>c. oc_phoneNumber c = phoneNumber \<and> oc_purpose c = purpose) (ad_otps db)) of
        None \<Rightarrow> Inr ()
      | Some latest \<Rightarrow>
          (let elapsedMs = now - oc_createdAt latest; cooldownMs = getResendCooldownSeconds config * 1000
           in if elapsedMs < cooldownMs
              then Inl (Too_Many_Requests (''Please wait '' @ show_int (ceil_seconds (cooldownMs - elapsedMs)) @
                '' seconds before requesting another code.''))
              else Inr ()))"

text \<open>The answer of the SMS service: a code, one of its own exceptions, or any other failure.\<close>

datatype sms_answer = Sms_Code string | Sms_Exception http_error | Sms_Failure

definition sms_unavailable :: http_error where
  "sms_unavailable = Unavailable ''SMS service is temporarily unavailable. Please try again.''"

definition deliverOtp :: "sms_answer \<Rightarrow> http_error + string" where
  "deliverOtp answer =
     (case answer of
        Sms_Code code \<Rightarrow> if \<not> OTP_DIGITS_PATTERN code then Inl sms_unavailable else Inr code
      | Sms_Exception e \<Rightarrow> Inl e
      | Sms_Failure \<Rightarrow> Inl sms_unavailable)"

definition new_challenge ::
  "number_settings \<Rightarrow> int \<Rightarrow> string \<Rightarrow> string \<Rightarrow> otp_purpose \<Rightarrow> string \<Rightarrow> string option \<Rightarrow> string option \<Rightarrow>
   otp_challenge" where
  "new_challenge config now newId phoneNumber purpose codeHash requestIp deviceId =
     \<lparr>oc_id = newId, oc_phoneNumber = phoneNumber, oc_purpose = purpose, oc_codeHash = codeHash,
      oc_expiresAt = now + getOtpExpiresMinutes config * 60000, oc_attemptCount = 0, oc_consumedAt = None,
      oc_requestIp = requestIp, oc_deviceId = deviceId, oc_createdAt = now\<rparr>"

text \<open>The answer is the masked number. The code is sent before the row is there.\<close>

definition requestOtp ::
  "number_settings \<Rightarrow> crypto \<Rightarrow> sms_answer \<Rightarrow> int \<Rightarrow> string \<Rightarrow> string \<Rightarrow> auth_db \<Rightarrow> string \<Rightarrow> otp_purpose \<Rightarrow>
   string option \<Rightarrow> string option \<Rightarrow> string auth" where
  "requestOtp config crypto sms now salt newId db rawPhone purpose requestIp deviceId =
     (let phoneNumber = normalizeEthiopianPhone rawPhone in
      case bind_result (assertValidGeezPhone phoneNumber) (\<lambda>_. assertPurposeAllowed db phoneNumber purpose) of
        Inl e \<Rightarrow> (Inl e, db)
      | Inr _ \<Rightarrow>
     (case assertSendRateLimits config now db phoneNumber requestIp of
        (Inl e, db1) \<Rightarrow> (Inl e, db1)
      | (Inr _, db1) \<Rightarrow>
     (case bind_result (assertResendCooldown config now db1 phoneNumber purpose) (\<lambda>_. deliverOtp sms) of
        Inl e \<Rightarrow> (Inl e, db1)
      | Inr code \<Rightarrow>
          (Inr (maskPhone phoneNumber),
           db1\<lparr>ad_otps := ad_otps db1 @ [new_challenge config now newId phoneNumber purpose
             (cy_hash crypto salt code) requestIp deviceId]\<rparr>))))"

definition requestRegisterOtp ::
  "number_settings \<Rightarrow> crypto \<Rightarrow> sms_answer \<Rightarrow> int \<Rightarrow> string \<Rightarrow> string \<Rightarrow> auth_db \<Rightarrow> string \<Rightarrow> string option \<Rightarrow>
   string auth" where
  "requestRegisterOtp config crypto sms now salt newId db phoneNumber requestIp =
     requestOtp config crypto sms now salt newId db phoneNumber OTP_REGISTER requestIp None"

definition requestPasswordResetOtp ::
  "number_settings \<Rightarrow> crypto \<Rightarrow> sms_answer \<Rightarrow> int \<Rightarrow> string \<Rightarrow> string \<Rightarrow> auth_db \<Rightarrow> string \<Rightarrow> string option \<Rightarrow>
   string auth" where
  "requestPasswordResetOtp config crypto sms now salt newId db phoneNumber requestIp =
     (let normalized = normalizeEthiopianPhone phoneNumber in
      if findUserByPhone db normalized = None
      then (Inr ''If the account exists, a password reset OTP has been prepared'', db)
      else
        (case requestOtp config crypto sms now salt newId db normalized OTP_PASSWORD_RESET requestIp None of
           (Inl e, db') \<Rightarrow> (Inl e, db')
         | (Inr _, db') \<Rightarrow> (Inr ''Password reset OTP sent successfully'', db')))"

section \<open>Checking a code\<close>

definition current_challenge :: "auth_db \<Rightarrow> string \<Rightarrow> otp_purpose \<Rightarrow> otp_challenge option" where
  "current_challenge db phoneNumber purpose =
     latest_by oc_createdAt
       (filter (\<lambda>c. oc_phoneNumber c = phoneNumber \<and> oc_purpose c = purpose \<and> oc_consumedAt c = None) (ad_otps db))"

definition update_challenge :: "string \<Rightarrow> (otp_challenge \<Rightarrow> otp_challenge) \<Rightarrow> auth_db \<Rightarrow> auth_db" where
  "update_challenge challengeId f db = db\<lparr>ad_otps := update_where (\<lambda>c. oc_id c = challengeId) f (ad_otps db)\<rparr>"

definition verifyOtpOrThrow ::
  "number_settings \<Rightarrow> crypto \<Rightarrow> (auth_db \<Rightarrow> auth_db) \<Rightarrow> int \<Rightarrow> auth_db \<Rightarrow> string \<Rightarrow> string \<Rightarrow> otp_purpose \<Rightarrow>
   unit auth" where
  "verifyOtpOrThrow config crypto others now db0 rawPhone otp purpose =
     (let phoneNumber = normalizeEthiopianPhone rawPhone; trimmedOtp = js_trim otp;
          invalid = Inl (Unauthorized INVALID_OTP_MESSAGE) in
      if \<not> OTP_DIGITS_PATTERN trimmedOtp then (invalid, db0)
      else
        (case current_challenge db0 phoneNumber purpose of
           None \<Rightarrow> (invalid, db0)
         | Some challenge \<Rightarrow>
             (if oc_expiresAt challenge \<le> now then (invalid, db0)
              else if getOtpMaxAttempts config \<le> oc_attemptCount challenge then (invalid, db0)
              else let db = others db0 in
                if \<not> cy_compare crypto trimmedOtp (oc_codeHash challenge)
                then (invalid, update_challenge (oc_id challenge)
                  (\<lambda>c. c\<lparr>oc_attemptCount := oc_attemptCount c + 1\<rparr>) db)
                else (Inr (), update_challenge (oc_id challenge) (\<lambda>c. c\<lparr>oc_consumedAt := Some now\<rparr>) db))))"

definition verifyRegistrationOtp ::
  "number_settings \<Rightarrow> crypto \<Rightarrow> (auth_db \<Rightarrow> auth_db) \<Rightarrow> int \<Rightarrow> auth_db \<Rightarrow> string \<Rightarrow> string \<Rightarrow> unit auth" where
  "verifyRegistrationOtp config crypto others now db phoneNumber otp =
     verifyOtpOrThrow config crypto others now db phoneNumber otp OTP_REGISTER"

definition verifyPasswordResetOtp ::
  "number_settings \<Rightarrow> crypto \<Rightarrow> (auth_db \<Rightarrow> auth_db) \<Rightarrow> int \<Rightarrow> auth_db \<Rightarrow> string \<Rightarrow> string \<Rightarrow> unit auth" where
  "verifyPasswordResetOtp config crypto others now db phoneNumber otp =
     (if findUserByPhone db (normalizeEthiopianPhone phoneNumber) = None
      then (Inl (Not_Found ''User not found''), db)
      else verifyOtpOrThrow config crypto others now db phoneNumber otp OTP_PASSWORD_RESET)"

definition verifyLoginOtp ::
  "number_settings \<Rightarrow> crypto \<Rightarrow> (auth_db \<Rightarrow> auth_db) \<Rightarrow> int \<Rightarrow> auth_db \<Rightarrow> string \<Rightarrow> string \<Rightarrow> unit auth" where
  "verifyLoginOtp config crypto others now db phoneNumber otp =
     verifyOtpOrThrow config crypto others now db phoneNumber otp OTP_LOGIN"

end
