(* ===== verification/RefreshTokens.thy ===== *)
theory RefreshTokens
  imports Accounts
begin

text \<open>
  The refresh tokens: \<open>src/src/auth/refresh-token.service.ts\<close>. Only the hash of a token is stored.
  \<open>others\<close> is what other requests commit between the validation of a token and its revocation.
\<close>

definition getRefreshTokenExpiresDays :: "number_settings \<Rightarrow> int" where
  "getRefreshTokenExpiresDays config = or_else (config ''REFRESH_TOKEN_EXPIRES_DAYS'') 90"

definition new_refresh_token ::
  "number_settings \<Rightarrow> crypto \<Rightarrow> int \<Rightarrow> string \<Rightarrow> string \<Rightarrow> string \<Rightarrow> string option \<Rightarrow> refresh_token" where
  "new_refresh_token config crypto now newId token userId deviceId =
     \<lparr>rt_id = newId, rt_tokenHash = cy_token crypto token, rt_userId = userId, rt_deviceId = nonempty deviceId,
      rt_expiresAt = now + getRefreshTokenExpiresDays config * 24 * 60 * 60 * 1000,
      rt_revokedAt = None, rt_createdAt = now\<rparr>"

text \<open>The identifier and the hash are unique; the user must exist.\<close>

definition createRefreshToken ::
  "number_settings \<Rightarrow> crypto \<Rightarrow> int \<Rightarrow> string \<Rightarrow> string \<Rightarrow> auth_db \<Rightarrow> string \<Rightarrow> string option \<Rightarrow>
   (string \<times> int) auth" where
  "createRefreshToken config crypto now newId token db userId deviceId =
     (let row = new_refresh_token config crypto now newId token userId deviceId in
      if list_ex (\<lambda>t. rt_id t = newId \<or> rt_tokenHash t = rt_tokenHash row) (ad_tokens db)
      then (Inl (Db_Error ''P2002''), db)
      else if find_user db userId = None then (Inl (Db_Error ''P2003''), db)
      else (Inr (token, rt_expiresAt row), db\<lparr>ad_tokens := ad_tokens db @ [row]\<rparr>))"

definition find_token :: "crypto \<Rightarrow> auth_db \<Rightarrow> string \<Rightarrow> refresh_token option" where
  "find_token crypto db token = find (\<lambda>t. rt_tokenHash t = cy_token crypto token) (ad_tokens db)"

definition validateRefreshToken ::
  "crypto \<Rightarrow> int \<Rightarrow> auth_db \<Rightarrow> string \<Rightarrow> string option \<Rightarrow> http_error + (string \<times> string)" where
  "validateRefreshToken crypto now db token deviceId =
     (case find_token crypto db token of
        None \<Rightarrow> Inl (Unauthorized ''Invalid refresh token'')
      | Some refreshToken \<Rightarrow>
          (if rt_revokedAt refreshToken \<noteq> None then Inl (Unauthorized ''Refresh token has been revoked'')
           else if rt_expiresAt refreshToken < now then Inl (Unauthorized ''Refresh token has expired'')
           else if nonempty deviceId \<noteq> None \<and> nonempty (rt_deviceId refreshToken) \<noteq> None \<and>
               rt_deviceId refreshToken \<noteq> deviceId
           then Inl (Unauthorized ''Refresh token device mismatch'')
           else Inr (rt_userId refreshToken, rt_id refreshToken)))"

definition update_tokens :: "(refresh_token \<Rightarrow> bool) \<Rightarrow> (refresh_token \<Rightarrow> refresh_token) \<Rightarrow> auth_db \<Rightarrow> auth_db" where
  "update_tokens P f db = db\<lparr>ad_tokens := update_where P f (ad_tokens db)\<rparr>"

definition revokeRefreshToken :: "crypto \<Rightarrow> int \<Rightarrow> string \<Rightarrow> auth_db \<Rightarrow> auth_db" where
  "revokeRefreshToken crypto now token =
     update_tokens (\<lambda>t. rt_tokenHash t = cy_token crypto token) (\<lambda>t. t\<lparr>rt_revokedAt := Some now\<rparr>)"

text \<open>\<open>update\<close> of a row that is gone is the error \<open>P2025\<close>.\<close>

definition revokeRefreshTokenById :: "int \<Rightarrow> string \<Rightarrow> auth_db \<Rightarrow> unit auth" where
  "revokeRefreshTokenById now tokenId db =
     (if list_ex (\<lambda>t. rt_id t = tokenId) (ad_tokens db)
      then (Inr (), update_tokens (\<lambda>t. rt_id t = tokenId) (\<lambda>t. t\<lparr>rt_revokedAt := Some now\<rparr>) db)
      else (Inl (Db_Error ''P2025''), db))"

definition rotateRefreshToken ::
  "number_settings \<Rightarrow> crypto \<Rightarrow> (auth_db \<Rightarrow> auth_db) \<Rightarrow> int \<Rightarrow> string \<Rightarrow> string \<Rightarrow> auth_db \<Rightarrow> string \<Rightarrow>
   string option \<Rightarrow> (string \<times> string) auth" where
  "rotateRefreshToken config crypto others now newId newToken db0 oldToken deviceId =
     (case validateRefreshToken crypto now db0 oldToken deviceId of
        Inl e \<Rightarrow> (Inl e, db0)
      | Inr (userId, tokenId) \<Rightarrow>
          (case revokeRefreshTokenById now tokenId (others db0) of
             (Inl e, db) \<Rightarrow> (Inl e, db)
           | (Inr _, db) \<Rightarrow>
               (case createRefreshToken config crypto now newId newToken db userId deviceId of
                  (Inl e, db') \<Rightarrow> (Inl e, db')
                | (Inr _, db') \<Rightarrow> (Inr (userId, newToken), db'))))"

definition revokeAllUserRefreshTokens :: "int \<Rightarrow> string \<Rightarrow> string option \<Rightarrow> auth_db \<Rightarrow> auth_db" where
  "revokeAllUserRefreshTokens now userId exceptTokenId =
     update_tokens (\<lambda>t. rt_userId t = userId \<and> rt_revokedAt t = None \<and>
         (nonempty exceptTokenId = None \<or> exceptTokenId \<noteq> Some (rt_id t)))
       (\<lambda>t. t\<lparr>rt_revokedAt := Some now\<rparr>)"

definition revokeDeviceRefreshTokens :: "int \<Rightarrow> string \<Rightarrow> string \<Rightarrow> auth_db \<Rightarrow> auth_db" where
  "revokeDeviceRefreshTokens now userId deviceId =
     update_tokens (\<lambda>t. rt_userId t = userId \<and> rt_deviceId t = Some deviceId \<and> rt_revokedAt t = None)
       (\<lambda>t. t\<lparr>rt_revokedAt := Some now\<rparr>)"

definition cleanupExpiredTokens :: "int \<Rightarrow> auth_db \<Rightarrow> nat \<times> auth_db" where
  "cleanupExpiredTokens now db =
     (count_where (\<lambda>t. rt_expiresAt t < now) (ad_tokens db),
      db\<lparr>ad_tokens := filter (\<lambda>t. \<not> rt_expiresAt t < now) (ad_tokens db)\<rparr>)"

end
