(* ===== verification/Authentication.thy ===== *)
theory Authentication
  imports OneTimeCodes RefreshTokens
begin

text \<open>
  Registration, login, passwords and the welcome bonus: \<open>src/src/auth/auth.service.ts\<close>. \<open>enabled\<close> is
  whether the environment has the welcome bonus switched on. \<open>others\<close> is what other requests commit
  between the first read of a handler and its next write.
\<close>

section \<open>The welcome bonus\<close>

definition WELCOME_BONUS_CARTELAS_WHEN_ENABLED :: int where
  "WELCOME_BONUS_CARTELAS_WHEN_ENABLED = 10"

definition resolveWelcomeBonusCartelasAmount :: "bool \<Rightarrow> int" where
  "resolveWelcomeBonusCartelasAmount enabled = (if enabled then WELCOME_BONUS_CARTELAS_WHEN_ENABLED else 0)"

datatype bonus_denied = DEVICE_ALREADY_CLAIMED | USER_ALREADY_CLAIMED | DEVICE_ID_MISSING

definition find_grant :: "auth_db \<Rightarrow> string \<Rightarrow> bonus_grant option" where
  "find_grant db userId = find (\<lambda>g. bg_userId g = userId) (ad_grants db)"

definition device_award :: "string \<Rightarrow> bonus_grant \<Rightarrow> bool" where
  "device_award deviceId g \<longleftrightarrow> bg_deviceId g = deviceId \<and> 0 < bg_bonusAmount g"

text \<open>\<open>text?.trim()\<close> that is truthy\<close>

definition device_of :: "string option \<Rightarrow> string option" where
  "device_of v = nonempty (map_option js_trim v)"

definition resolveWelcomeBonusCartelasToAward ::
  "bool \<Rightarrow> auth_db \<Rightarrow> string \<Rightarrow> string option \<Rightarrow> int \<times> bonus_denied option" where
  "resolveWelcomeBonusCartelasToAward enabled db userId deviceId =
     (if \<not> enabled then (0, None)
      else
        (case device_of deviceId of
           None \<Rightarrow> (0, Some DEVICE_ID_MISSING)
         | Some normalizedDeviceId \<Rightarrow>
             (if find_grant db userId \<noteq> None then (0, Some USER_ALREADY_CLAIMED)
              else if list_ex (device_award normalizedDeviceId) (ad_grants db) then (0, Some DEVICE_ALREADY_CLAIMED)
              else (resolveWelcomeBonusCartelasAmount enabled, None))))"

text \<open>
  \<open>create\<close>: one grant for a user, and one grant with an amount for a device (a partial unique
  index); \<open>Inr (Some reason)\<close> is a failure on one of them.
\<close>

definition tryCreateWelcomeBonusGrant :: "bonus_grant \<Rightarrow> auth_db \<Rightarrow> bonus_denied option auth" where
  "tryCreateWelcomeBonusGrant row db =
     (if 0 < bg_bonusAmount row \<and> list_ex (device_award (bg_deviceId row)) (ad_grants db)
      then (Inr (Some DEVICE_ALREADY_CLAIMED), db)
      else if find_grant db (bg_userId row) \<noteq> None then (Inr (Some USER_ALREADY_CLAIMED), db)
      else if find_user db (bg_userId row) = None then (Inl (Db_Error ''P2003''), db)
      else (Inr None, db\<lparr>ad_grants := ad_grants db @ [row]\<rparr>))"

text \<open>Whether a grant was created, its amount and the reason of a denial.\<close>

definition recordWelcomeBonusDecision ::
  "string \<Rightarrow> string \<Rightarrow> string \<Rightarrow> int \<Rightarrow> bonus_denied option \<Rightarrow> auth_db \<Rightarrow>
   (bool \<times> int \<times> bonus_denied option) auth" where
  "recordWelcomeBonusDecision deviceId userId phoneNumber bonusAmount deniedReason db =
     (let grant = \<lparr>bg_deviceId = deviceId, bg_userId = userId, bg_phoneNumber = phoneNumber, bg_bonusAmount = bonusAmount\<rparr>;
          refuse = (\<lambda>reason db'.
            if reason = Some DEVICE_ALREADY_CLAIMED \<or> reason = Some USER_ALREADY_CLAIMED then
              (case tryCreateWelcomeBonusGrant (grant\<lparr>bg_bonusAmount := 0\<rparr>) db' of
                 (Inl e, db'') \<Rightarrow> (Inl e, db'')
               | (Inr failed, db'') \<Rightarrow> (Inr (failed = None, 0, reason), db''))
            else (Inr (False, 0, reason), db'))
      in if find_grant db userId \<noteq> None then (Inr (False, 0, Some USER_ALREADY_CLAIMED), db)
         else if 0 < bonusAmount then
           (case tryCreateWelcomeBonusGrant grant db of
              (Inl e, db') \<Rightarrow> (Inl e, db')
            | (Inr None, db') \<Rightarrow> (Inr (True, bonusAmount, None), db')
            | (Inr (Some reason), db') \<Rightarrow> refuse (Some reason) db')
         else refuse deniedReason db)"

definition add_bonus :: "string \<Rightarrow> int \<Rightarrow> auth_db \<Rightarrow> unit auth" where
  "add_bonus userId amount db =
     (case db_wallets (ad_wallet db) userId of
        None \<Rightarrow> (Inl (Db_Error ''P2025''), db)
      | Some w \<Rightarrow>
          (Inr (), db\<lparr>ad_wallet := (ad_wallet db)\<lparr>db_wallets := (db_wallets (ad_wallet db))(userId \<mapsto>
             w\<lparr>wa_bonusCartelaBalance := wa_bonusCartelaBalance w + amount\<rparr>)\<rparr>\<rparr>))"

definition applyWelcomeBonusIfEligible ::
  "bool \<Rightarrow> (auth_db \<Rightarrow> auth_db) \<Rightarrow> auth_db \<Rightarrow> user_row \<Rightarrow> string option \<Rightarrow> (user_row \<times> int) auth" where
  "applyWelcomeBonusIfEligible enabled others db0 user deviceId =
     (case device_of deviceId of
        None \<Rightarrow> (Inr (user, 0), db0)
      | Some normalizedDeviceId \<Rightarrow>
          (let (amount, deniedReason) =
             resolveWelcomeBonusCartelasToAward enabled db0 (us_id user) (Some normalizedDeviceId);
               db = others db0
           in auth_transaction db
             (case recordWelcomeBonusDecision normalizedDeviceId (us_id user) (us_phoneNumber user) amount
                     deniedReason db of
                (Inl e, db1) \<Rightarrow> (Inl e, db1)
              | (Inr (created, bonusAmount, _), db1) \<Rightarrow>
                  (case (if 0 < bonusAmount \<and> created then add_bonus (us_id user) bonusAmount db1 else (Inr (), db1)) of
                     (Inl e, db2) \<Rightarrow> (Inl e, db2)
                   | (Inr _, db2) \<Rightarrow>
                       (case find_user db2 (us_id user) of
                          None \<Rightarrow> (Inl (Unauthorized ''User not found''), db2)
                        | Some refreshed \<Rightarrow> (Inr (refreshed, if created then bonusAmount else 0), db2))))))"

section \<open>Tokens\<close>

text \<open>The random choices of a request: identifiers of a user, a wallet, a token row, and the token.\<close>

record auth_choices =
  ch_userId :: string
  ch_walletId :: string
  ch_tokenId :: string
  ch_token :: string
  ch_salt :: string

definition signAccessToken :: "crypto \<Rightarrow> user_row \<Rightarrow> string" where
  "signAccessToken crypto user = cy_sign crypto (us_id user, us_phoneNumber user, us_role user)"

definition createTokenPair ::
  "number_settings \<Rightarrow> crypto \<Rightarrow> int \<Rightarrow> auth_choices \<Rightarrow> auth_db \<Rightarrow> user_row \<Rightarrow> string option \<Rightarrow> (string \<times> string) auth" where
  "createTokenPair config crypto now ch db user deviceId =
     (case createRefreshToken config crypto now (ch_tokenId ch) (ch_token ch) db (us_id user) deviceId of
        (Inl e, db') \<Rightarrow> (Inl e, db')
      | (Inr (refreshToken, _), db') \<Rightarrow> (Inr (signAccessToken crypto user, refreshToken), db'))"

record auth_answer =
  an_accessToken :: string
  an_refreshToken :: string
  an_user :: user_row
  an_awarded :: int

definition normalizePhoneNumber :: "string \<Rightarrow> string" where
  "normalizePhoneNumber phoneNumber = normalizeEthiopianPhone (js_trim phoneNumber)"

definition auth_requestRegisterOtp ::
  "number_settings \<Rightarrow> crypto \<Rightarrow> sms_answer \<Rightarrow> int \<Rightarrow> string \<Rightarrow> string \<Rightarrow> auth_db \<Rightarrow> string \<Rightarrow> string option \<Rightarrow>
   string auth" where
  "auth_requestRegisterOtp config crypto sms now salt newId db phoneNumber requestIp =
     requestRegisterOtp config crypto sms now salt newId db (normalizePhoneNumber phoneNumber) requestIp"

definition auth_requestOtp ::
  "number_settings \<Rightarrow> crypto \<Rightarrow> sms_answer \<Rightarrow> int \<Rightarrow> string \<Rightarrow> string \<Rightarrow> auth_db \<Rightarrow> string \<Rightarrow>
   otp_purpose option \<Rightarrow> string option \<Rightarrow> string auth" where
  "auth_requestOtp config crypto sms now salt newId db phone purpose requestIp =
     requestOtp config crypto sms now salt newId db (normalizePhoneNumber phone) (or_else purpose OTP_LOGIN) requestIp None"

definition auth_requestPasswordResetOtp ::
  "number_settings \<Rightarrow> crypto \<Rightarrow> sms_answer \<Rightarrow> int \<Rightarrow> string \<Rightarrow> string \<Rightarrow> auth_db \<Rightarrow> string \<Rightarrow> string option \<Rightarrow>
   string auth" where
  "auth_requestPasswordResetOtp config crypto sms now salt newId db phoneNumber requestIp =
     requestPasswordResetOtp config crypto sms now salt newId db (normalizePhoneNumber phoneNumber) requestIp"

text \<open>What login by password and by code share once the user has shown who he is.\<close>

definition authenticated ::
  "number_settings \<Rightarrow> crypto \<Rightarrow> bool \<Rightarrow> (auth_db \<Rightarrow> auth_db) \<Rightarrow> int \<Rightarrow> auth_choices \<Rightarrow> auth_db \<Rightarrow> user_row \<Rightarrow>
   string option \<Rightarrow> auth_answer auth" where
  "authenticated config crypto enabled others now ch db user deviceId =
     (case applyWelcomeBonusIfEligible enabled others db user deviceId of
        (Inl e, db1) \<Rightarrow> (Inl e, db1)
      | (Inr (authenticatedUser, awarded), db1) \<Rightarrow>
          (case createTokenPair config crypto now ch db1 authenticatedUser deviceId of
             (Inl e, db2) \<Rightarrow> (Inl e, db2)
           | (Inr (accessToken, refreshToken), db2) \<Rightarrow>
               (Inr \<lparr>an_accessToken = accessToken, an_refreshToken = refreshToken,
                  an_user = authenticatedUser\<lparr>us_password := None\<rparr>, an_awarded = awarded\<rparr>, db2)))"

section \<open>Login\<close>

definition verifyOtp ::
  "number_settings \<Rightarrow> crypto \<Rightarrow> bool \<Rightarrow> (auth_db \<Rightarrow> auth_db) \<Rightarrow> int \<Rightarrow> auth_choices \<Rightarrow> auth_db \<Rightarrow> string \<Rightarrow> string \<Rightarrow>
   string option \<Rightarrow> auth_answer auth" where
  "verifyOtp config crypto enabled others now ch db phone otp deviceId =
     (let phoneNumber = normalizePhoneNumber phone in
      case verifyLoginOtp config crypto others now db phoneNumber otp of
        (Inl e, db1) \<Rightarrow> (Inl e, db1)
      | (Inr _, db1) \<Rightarrow>
          (case findUserByPhone db1 phoneNumber of
             None \<Rightarrow> (Inl (Not_Found ''User not found''), db1)
           | Some user \<Rightarrow>
               (if us_status user = USER_BLOCKED then (Inl (Forbidden ''User account is blocked''), db1)
                else authenticated config crypto enabled id now ch db1 user deviceId)))"

definition login ::
  "number_settings \<Rightarrow> crypto \<Rightarrow> bool \<Rightarrow> (auth_db \<Rightarrow> auth_db) \<Rightarrow> int \<Rightarrow> auth_choices \<Rightarrow> auth_db \<Rightarrow> string \<Rightarrow> string \<Rightarrow>
   string option \<Rightarrow> auth_answer auth" where
  "login config crypto enabled others now ch db phone password deviceId =
     (case findUserByPhone db (normalizePhoneNumber phone) of
        None \<Rightarrow> (Inl (Unauthorized ''Invalid phone number or password''), db)
      | Some user \<Rightarrow>
          (case nonempty (us_password user) of
             None \<Rightarrow> (Inl (Unauthorized ''Invalid phone number or password''), db)
           | Some hashed \<Rightarrow>
               (if us_status user = USER_BLOCKED then (Inl (Forbidden ''User account is blocked''), db)
                else if \<not> cy_compare crypto password hashed
                then (Inl (Unauthorized ''Invalid phone number or password''), db)
                else authenticated config crypto enabled others now ch db user deviceId)))"

definition refreshTokens ::
  "number_settings \<Rightarrow> crypto \<Rightarrow> (auth_db \<Rightarrow> auth_db) \<Rightarrow> int \<Rightarrow> auth_choices \<Rightarrow> auth_db \<Rightarrow> string \<Rightarrow> string option \<Rightarrow>
   auth_answer auth" where
  "refreshTokens config crypto others now ch db refreshToken deviceId =
     (case rotateRefreshToken config crypto others now (ch_tokenId ch) (ch_token ch) db refreshToken deviceId of
        (Inl e, db1) \<Rightarrow> (Inl e, db1)
      | (Inr (userId, newToken), db1) \<Rightarrow>
          (case find_user db1 userId of
             None \<Rightarrow> (Inl (Unauthorized ''User not found''), db1)
           | Some user \<Rightarrow>
               (if us_status user = USER_BLOCKED then (Inl (Forbidden ''User account is blocked''), db1)
                else (Inr \<lparr>an_accessToken = signAccessToken crypto user, an_refreshToken = newToken,
                        an_user = user\<lparr>us_password := None\<rparr>, an_awarded = 0\<rparr>, db1))))"

definition logout :: "crypto \<Rightarrow> int \<Rightarrow> auth_db \<Rightarrow> string \<Rightarrow> string option \<Rightarrow> auth_db" where
  "logout crypto now db refreshToken deviceId =
     (case validateRefreshToken crypto now db refreshToken deviceId of
        Inl _ \<Rightarrow> db
      | Inr _ \<Rightarrow> revokeRefreshToken crypto now refreshToken db)"

section \<open>Registration\<close>

record register_dto =
  re_fullName :: string
  re_phoneNumber :: string
  re_password :: string
  re_otp :: string
  re_deviceId :: "string option"

definition new_user :: "int \<Rightarrow> string \<Rightarrow> string \<Rightarrow> string \<Rightarrow> string \<Rightarrow> user_row" where
  "new_user now newId fullName phoneNumber passwordHash =
     \<lparr>us_id = newId, us_fullName = js_trim fullName, us_phoneNumber = phoneNumber,
      us_password = Some passwordHash, us_role = PLAYER, us_status = USER_ACTIVE, us_createdAt = now\<rparr>"

definition create_user :: "user_row \<Rightarrow> auth_db \<Rightarrow> unit auth" where
  "create_user user db =
     (if list_ex (\<lambda>u. us_id u = us_id user \<or> us_phoneNumber u = us_phoneNumber user) (ad_users db)
      then (Inl (Db_Error ''P2002''), db)
      else (Inr (), db\<lparr>ad_users := ad_users db @ [user],
              ad_wallet := (ad_wallet db)\<lparr>db_users := insert (us_id user) (db_users (ad_wallet db))\<rparr>\<rparr>))"

definition create_wallet :: "string \<Rightarrow> string \<Rightarrow> int \<Rightarrow> auth_db \<Rightarrow> unit auth" where
  "create_wallet walletId userId bonusAmount db =
     (if db_wallets (ad_wallet db) userId \<noteq> None then (Inl (Db_Error ''P2002''), db)
      else (Inr (), db\<lparr>ad_wallet := (ad_wallet db)\<lparr>db_wallets := (db_wallets (ad_wallet db))(userId \<mapsto>
        \<lparr>wa_id = walletId, wa_userId = userId, wa_balance = 0, wa_lockedBalance = 0,
         wa_bonusCartelaBalance = bonusAmount\<rparr>)\<rparr>\<rparr>))"

definition registration_bonus ::
  "bool \<Rightarrow> string \<Rightarrow> string \<Rightarrow> string option \<Rightarrow> auth_db \<Rightarrow> (int \<times> bonus_denied option) auth" where
  "registration_bonus enabled userId phoneNumber deviceId db =
     (let (amount, denied) = resolveWelcomeBonusCartelasToAward enabled db userId deviceId in
      case deviceId of
        None \<Rightarrow> (Inr (amount, denied), db)
      | Some device \<Rightarrow>
          (case recordWelcomeBonusDecision device userId phoneNumber amount denied db of
             (Inl e, db') \<Rightarrow> (Inl e, db')
           | (Inr (_, bonusAmount, deniedReason), db') \<Rightarrow> (Inr (bonusAmount, deniedReason), db')))"

definition register_user ::
  "bool \<Rightarrow> (auth_db \<Rightarrow> auth_db) \<Rightarrow> int \<Rightarrow> auth_choices \<Rightarrow> string \<Rightarrow> string option \<Rightarrow> register_dto \<Rightarrow> string \<Rightarrow> auth_db \<Rightarrow>
   (user_row \<times> int \<times> bonus_denied option) auth" where
  "register_user enabled others now ch phoneNumber deviceId dto passwordHash db0 =
     (if list_ex (\<lambda>u. us_phoneNumber u = phoneNumber) (ad_users db0)
      then (Inl (Conflict ''Phone number is already registered''), db0)
      else let db = others db0 in auth_transaction db
        (let user = new_user now (ch_userId ch) (re_fullName dto) phoneNumber passwordHash in
         case create_user user db of
           (Inl e, db1) \<Rightarrow> (Inl e, db1)
         | (Inr _, db1) \<Rightarrow>
        (case registration_bonus enabled (us_id user) phoneNumber deviceId db1 of
           (Inl e, db2) \<Rightarrow> (Inl e, db2)
         | (Inr (bonusAmount, deniedReason), db2) \<Rightarrow>
             (case create_wallet (ch_walletId ch) (us_id user) bonusAmount db2 of
                (Inl e, db3) \<Rightarrow> (Inl e, db3)
              | (Inr _, db3) \<Rightarrow>
                  (Inr (user, bonusAmount, if 0 < bonusAmount then None else deniedReason), db3)))))"

text \<open>\<open>handlePrismaError\<close>: every unique constraint is reported as the phone number.\<close>

definition handlePrismaError :: "http_error \<Rightarrow> http_error" where
  "handlePrismaError e = (if e = Db_Error ''P2002'' then Conflict ''Phone number is already registered'' else e)"

definition register ::
  "number_settings \<Rightarrow> crypto \<Rightarrow> bool \<Rightarrow> (auth_db \<Rightarrow> auth_db) \<Rightarrow> int \<Rightarrow> auth_choices \<Rightarrow> auth_db \<Rightarrow> register_dto \<Rightarrow>
   (auth_answer \<times> bonus_denied option) auth" where
  "register config crypto enabled others now ch db dto =
     (let phoneNumber = normalizePhoneNumber (re_phoneNumber dto); deviceId = device_of (re_deviceId dto) in
      case verifyRegistrationOtp config crypto id now db phoneNumber (re_otp dto) of
        (Inl e, db1) \<Rightarrow> (Inl e, db1)
      | (Inr _, db1) \<Rightarrow>
          (case register_user enabled others now ch phoneNumber deviceId dto
                  (cy_hash crypto (ch_salt ch) (re_password dto)) db1 of
             (Inl e, db2) \<Rightarrow> (Inl (handlePrismaError e), db2)
           | (Inr (createdUser, awarded, denied), db2) \<Rightarrow>
               (case createTokenPair config crypto now ch db2 createdUser deviceId of
                  (Inl e, db3) \<Rightarrow> (Inl (handlePrismaError e), db3)
                | (Inr (accessToken, refreshToken), db3) \<Rightarrow>
                    (Inr (\<lparr>an_accessToken = accessToken, an_refreshToken = refreshToken,
                       an_user = createdUser\<lparr>us_password := None\<rparr>, an_awarded = awarded\<rparr>, denied), db3))))"

section \<open>Passwords\<close>

definition resetPassword ::
  "number_settings \<Rightarrow> crypto \<Rightarrow> (auth_db \<Rightarrow> auth_db) \<Rightarrow> int \<Rightarrow> string \<Rightarrow> auth_db \<Rightarrow> string \<Rightarrow> string \<Rightarrow> string \<Rightarrow>
   unit auth" where
  "resetPassword config crypto others now salt db phone otp newPassword =
     (let phoneNumber = normalizePhoneNumber phone in
      case verifyPasswordResetOtp config crypto others now db phoneNumber otp of
        (Inl e, db1) \<Rightarrow> (Inl e, db1)
      | (Inr _, db1) \<Rightarrow>
          (case findUserByPhone db1 phoneNumber of
             None \<Rightarrow> (Inl (Not_Found ''User not found''), db1)
           | Some user \<Rightarrow>
               (Inr (), update_user (us_id user) (\<lambda>u. u\<lparr>us_password := Some (cy_hash crypto salt newPassword)\<rparr>) db1)))"

definition changeAdminPassword ::
  "crypto \<Rightarrow> int \<Rightarrow> string \<Rightarrow> auth_db \<Rightarrow> string \<Rightarrow> string \<Rightarrow> string \<Rightarrow> unit auth" where
  "changeAdminPassword crypto now salt db userId currentPassword newPassword =
     (case find_user db userId of
        None \<Rightarrow> (Inl (Not_Found ''User not found''), db)
      | Some user \<Rightarrow>
     (if us_role user \<noteq> ADMIN then (Inl (Forbidden ''Only admins can change admin password''), db)
      else if us_status user = USER_BLOCKED then (Inl (Forbidden ''User account is blocked''), db)
      else
     (case nonempty (us_password user) of
        None \<Rightarrow> (Inl (Bad_Request ''Password is not set for this account''), db)
      | Some hashed \<Rightarrow>
          (if \<not> cy_compare crypto currentPassword hashed
           then (Inl (Unauthorized ''Current password is incorrect''), db)
           else if newPassword = currentPassword
           then (Inl (Bad_Request ''New password must be different from the current password''), db)
           else
             (Inr (), revokeAllUserRefreshTokens now (us_id user) None
                (update_user (us_id user) (\<lambda>u. u\<lparr>us_password := Some (cy_hash crypto salt newPassword)\<rparr>) db))))))"

end
