(* ===== verification/TokenFacts.thy ===== *)
theory TokenFacts
  imports Authentication
begin

text \<open>
  What the refresh tokens guarantee: the answers of the validation, of a created token and of a
  rotation, and the sessions a change of password ends.
\<close>

section \<open>Rows\<close>

text \<open>The unique indexes of the table.\<close>

definition token_keys :: "auth_db \<Rightarrow> bool" where
  "token_keys db \<longleftrightarrow> distinct (map rt_id (ad_tokens db)) \<and> distinct (map rt_tokenHash (ad_tokens db))"

lemma find_token_member:
  "find_token crypto db token = Some t \<Longrightarrow> t \<in> set (ad_tokens db) \<and> rt_tokenHash t = cy_token crypto token"
  by (auto simp: find_token_def find_Some_iff)

lemma find_update_tokens:
  assumes "\<And>t. rt_tokenHash (f t) = rt_tokenHash t"
  shows "find_token crypto (update_tokens P f db) token =
    map_option (\<lambda>t. if P t then f t else t) (find_token crypto db token)"
proof -
  have "find (\<lambda>t. rt_tokenHash t = h) (update_where P f ts) =
    map_option (\<lambda>t. if P t then f t else t) (find (\<lambda>t. rt_tokenHash t = h) ts)" for h ts
    using assms by (induction ts) (auto simp: update_where_def)
  then show ?thesis by (simp add: find_token_def update_tokens_def)
qed

lemma find_token_appended:
  "find_token crypto (db\<lparr>ad_tokens := ad_tokens db @ [row]\<rparr>) token =
   (case find_token crypto db token of
      Some t \<Rightarrow> Some t
    | None \<Rightarrow> if rt_tokenHash row = cy_token crypto token then Some row else None)"
proof -
  have "find P (ts @ [row]) = (case find P ts of Some t \<Rightarrow> Some t | None \<Rightarrow> if P row then Some row else None)" for P ts
    by (induction ts) auto
  then show ?thesis by (simp add: find_token_def)
qed

section \<open>Validation\<close>

definition device_fits :: "string option \<Rightarrow> string option \<Rightarrow> bool" where
  "device_fits asked stored \<longleftrightarrow> nonempty asked = None \<or> nonempty stored = None \<or> stored = asked"

lemma validate_Inr_iff:
  "validateRefreshToken crypto now db token deviceId = Inr (u, i) \<longleftrightarrow>
   (\<exists>t. find_token crypto db token = Some t \<and> rt_revokedAt t = None \<and> now \<le> rt_expiresAt t \<and>
      device_fits deviceId (rt_deviceId t) \<and> u = rt_userId t \<and> i = rt_id t)"
  by (auto simp: validateRefreshToken_def device_fits_def split: option.split)

lemma validate_revoked:
  "find_token crypto db token = Some t \<Longrightarrow> rt_revokedAt t \<noteq> None \<Longrightarrow>
   validateRefreshToken crypto now db token deviceId = Inl (Unauthorized ''Refresh token has been revoked'')"
  by (simp add: validateRefreshToken_def)

section \<open>Creation\<close>

lemma createRefreshToken_Inr:
  assumes "createRefreshToken config crypto now newId token db userId deviceId = (Inr (tok, till), db')"
  shows "tok = token" and "db' = db\<lparr>ad_tokens := ad_tokens db @ [new_refresh_token config crypto now newId token userId deviceId]\<rparr>"
    and "newId \<notin> rt_id ` set (ad_tokens db)" and "cy_token crypto token \<notin> rt_tokenHash ` set (ad_tokens db)"
    and "find_user db userId \<noteq> None"
  using assms
  by (auto simp: createRefreshToken_def Let_def new_refresh_token_def list_ex_iff image_iff eq_commute split: if_splits)

lemma createRefreshToken_keeps:
  assumes "createRefreshToken config crypto now newId token db userId deviceId = (Inr (tok, till), db')"
    and "token_keys db"
  shows "token_keys db'"
  using createRefreshToken_Inr [OF assms(1)] assms(2)
  by (auto simp: token_keys_def new_refresh_token_def)

lemma created_token:
  assumes "createRefreshToken config crypto now newId token db userId deviceId = (Inr (tok, till), db')"
    and "0 \<le> getRefreshTokenExpiresDays config"
  shows "validateRefreshToken crypto now db' token deviceId = Inr (userId, newId)"
proof -
  note made = createRefreshToken_Inr [OF assms(1)]
  have "find_token crypto db token = None"
    using made(4) by (force simp: find_token_def find_None_iff)
  then show ?thesis
    unfolding validate_Inr_iff made(2) find_token_appended
    using assms(2) by (auto simp: new_refresh_token_def device_fits_def nonempty_def)
qed

lemma created_others:
  assumes "createRefreshToken config crypto now newId token db userId deviceId = (Inr (tok, till), db')"
    and "cy_token crypto other \<noteq> cy_token crypto token"
  shows "find_token crypto db' other = find_token crypto db other"
  unfolding createRefreshToken_Inr(2) [OF assms(1)] find_token_appended
  using assms(2) by (simp add: new_refresh_token_def split: option.split)

section \<open>Rotation\<close>

lemma revokeById_Inr:
  "revokeRefreshTokenById now i db = (r, db') \<Longrightarrow> r = Inr () \<Longrightarrow>
   db' = update_tokens (\<lambda>t. rt_id t = i) (\<lambda>t. t\<lparr>rt_revokedAt := Some now\<rparr>) db"
  by (auto simp: revokeRefreshTokenById_def split: if_splits)

lemma rotate_Inr:
  assumes "rotateRefreshToken config crypto others now newId newToken db oldToken deviceId = (Inr (u, tok), db')"
  obtains t db1 till where "find_token crypto db oldToken = Some t" "rt_revokedAt t = None" "now \<le> rt_expiresAt t"
    "device_fits deviceId (rt_deviceId t)" "u = rt_userId t" "tok = newToken"
    "db1 = update_tokens (\<lambda>s. rt_id s = rt_id t) (\<lambda>s. s\<lparr>rt_revokedAt := Some now\<rparr>) (others db)"
    "createRefreshToken config crypto now newId newToken db1 u deviceId = (Inr (newToken, till), db')"
proof -
  obtain i where v: "validateRefreshToken crypto now db oldToken deviceId = Inr (u, i)"
    using assms by (auto simp: rotateRefreshToken_def split: sum.splits prod.splits)
  then obtain t where t: "find_token crypto db oldToken = Some t" "rt_revokedAt t = None" "now \<le> rt_expiresAt t"
    "device_fits deviceId (rt_deviceId t)" "u = rt_userId t" "i = rt_id t"
    using validate_Inr_iff by blast
  obtain r db1 where rv: "revokeRefreshTokenById now i (others db) = (r, db1)" by fastforce
  have r: "r = Inr ()" using assms rv by (cases r) (simp_all add: rotateRefreshToken_def v)
  obtain s db2 where cr: "createRefreshToken config crypto now newId newToken db1 u deviceId = (s, db2)" by fastforce
  have out: "(case (s, db2) of (Inl e, db') \<Rightarrow> (Inl e, db') | (Inr _, db') \<Rightarrow> (Inr (u, newToken), db')) = (Inr (u, tok), db')"
    using assms unfolding rotateRefreshToken_def v by (simp add: rv r cr)
  then obtain a where s: "s = Inr a" "tok = newToken" "db2 = db'" by (cases s) auto
  obtain tok' till where a: "a = (tok', till)" by (cases a)
  have "tok' = newToken" using createRefreshToken_Inr(1) [of config crypto now newId newToken db1 u deviceId tok' till db2] cr s(1) a by simp
  then have created: "createRefreshToken config crypto now newId newToken db1 u deviceId = (Inr (newToken, till), db')"
    using cr s a by simp
  have "db1 = update_tokens (\<lambda>s. rt_id s = rt_id t) (\<lambda>s. s\<lparr>rt_revokedAt := Some now\<rparr>) (others db)"
    using revokeById_Inr [OF rv r] unfolding t(6) .
  then show thesis by (rule that [OF t(1-5) s(2) _ created])
qed

lemma unique_token:
  "token_keys db \<Longrightarrow> t \<in> set (ad_tokens db) \<Longrightarrow> s \<in> set (ad_tokens db) \<Longrightarrow> rt_id s = rt_id t \<Longrightarrow> s = t"
  by (auto simp: token_keys_def distinct_map dest: inj_onD)

lemma find_revoked_by_id:
  "find_token crypto (update_tokens (\<lambda>s. rt_id s = i) (\<lambda>s. s\<lparr>rt_revokedAt := Some now\<rparr>) db) token =
   map_option (\<lambda>s. if rt_id s = i then s\<lparr>rt_revokedAt := Some now\<rparr> else s) (find_token crypto db token)"
  by (rule find_update_tokens) simp

lemma update_tokens_keys:
  "(\<And>t. rt_id (f t) = rt_id t \<and> rt_tokenHash (f t) = rt_tokenHash t) \<Longrightarrow> token_keys (update_tokens P f db) = token_keys db"
  by (simp add: token_keys_def update_tokens_def map_update_where)

text \<open>A rotation that finds its token valid goes through when the new row is fresh.\<close>

lemma rotate_succeeds:
  assumes "validateRefreshToken crypto now db oldToken deviceId = Inr (u, i)"
    and "i \<in> rt_id ` set (ad_tokens (others db))" and "find_user (others db) u \<noteq> None"
    and "newId \<notin> rt_id ` set (ad_tokens (others db))"
    and "cy_token crypto newToken \<notin> rt_tokenHash ` set (ad_tokens (others db))"
  defines "db1 \<equiv> update_tokens (\<lambda>s. rt_id s = i) (\<lambda>s. s\<lparr>rt_revokedAt := Some now\<rparr>) (others db)"
  shows "rotateRefreshToken config crypto others now newId newToken db oldToken deviceId =
    (Inr (u, newToken), db1\<lparr>ad_tokens := ad_tokens db1 @ [new_refresh_token config crypto now newId newToken u deviceId]\<rparr>)"
proof -
  have revoked: "revokeRefreshTokenById now i (others db) = (Inr (), db1)"
    using assms(2) by (auto simp: revokeRefreshTokenById_def db1_def list_ex_iff)
  have "map rt_id (ad_tokens db1) = map rt_id (ad_tokens (others db))"
    "map rt_tokenHash (ad_tokens db1) = map rt_tokenHash (ad_tokens (others db))"
    by (auto simp: db1_def update_tokens_def intro!: map_update_where)
  then have same: "rt_id ` set (ad_tokens db1) = rt_id ` set (ad_tokens (others db))"
    "rt_tokenHash ` set (ad_tokens db1) = rt_tokenHash ` set (ad_tokens (others db))"
    using arg_cong [of _ _ set] by (simp_all only: set_map [symmetric])
  have fresh: "newId \<notin> rt_id ` set (ad_tokens db1)" "cy_token crypto newToken \<notin> rt_tokenHash ` set (ad_tokens db1)"
    unfolding same by (rule assms(4), rule assms(5))
  have "\<not> list_ex (\<lambda>t. rt_id t = newId \<or> rt_tokenHash t = cy_token crypto newToken) (ad_tokens db1)"
    unfolding list_ex_iff using fresh by (metis imageI)
  moreover have "find_user db1 u \<noteq> None"
    using assms(3) by (simp add: find_user_def db1_def update_tokens_def)
  ultimately show ?thesis
    by (simp add: rotateRefreshToken_def assms(1) revoked createRefreshToken_def Let_def new_refresh_token_def)
qed

section \<open>The end of all sessions of a user\<close>

lemma revokeAll_ends:
  assumes "find_token crypto db token = Some t" "rt_userId t = u"
  shows "\<exists>t'. find_token crypto (revokeAllUserRefreshTokens now u None db) token = Some t' \<and> rt_revokedAt t' \<noteq> None"
  using assms by (simp add: revokeAllUserRefreshTokens_def find_update_tokens nonempty_def)

end
