(* ===== verification/CodeFacts.thy ===== *)
theory CodeFacts
  imports OneTimeCodes
begin

text \<open>
  What the one-time codes guarantee along a sequence of requests and checks: how often a challenge is
  compared with a guess, and that it is used up once; and what is left of that when checks overlap.
\<close>

section \<open>Phone numbers\<close>

lemma digit_char_digits: "list_all digit_char s \<Longrightarrow> digitsOnly s = s"
  by (simp add: digitsOnly_def digit_char_def filter_id_conv list_all_iff)

lemma digitsOnly_digits: "list_all digit_char (digitsOnly s)"
  by (simp add: digitsOnly_def digit_char_def list_all_iff)

lemma normalize_digits: "list_all digit_char (normalizeEthiopianPhone s)"
  using digitsOnly_digits [of s] set_drop_subset [of 1 "digitsOnly s"]
  by (auto simp: normalizeEthiopianPhone_def Let_def list_all_iff digit_char_def)

lemma normalize_idem: "normalizeEthiopianPhone (normalizeEthiopianPhone s) = normalizeEthiopianPhone s"
proof -
  let ?d = "digitsOnly s"
  have d: "digitsOnly (normalizeEthiopianPhone s) = normalizeEthiopianPhone s"
    by (rule digit_char_digits [OF normalize_digits])
  show ?thesis
    unfolding normalizeEthiopianPhone_def [of "normalizeEthiopianPhone s"] d
    by (simp add: normalizeEthiopianPhone_def Let_def)
qed

section \<open>The current challenge\<close>

lemma latest_by_in: "latest_by key xs = Some x \<Longrightarrow> x \<in> set xs"
  by (induction key xs arbitrary: x rule: latest_by.induct) (auto split: option.splits if_splits)

lemma latest_by_None [simp]: "latest_by key xs = None \<longleftrightarrow> xs = []"
  by (cases xs) (auto split: option.splits)

lemma latest_by_greatest: "latest_by key xs = Some x \<Longrightarrow> y \<in> set xs \<Longrightarrow> key y \<le> key x"
  by (induction key xs arbitrary: x rule: latest_by.induct) (auto split: option.splits if_splits)

lemma current_challengeD:
  "current_challenge db p purpose = Some c \<Longrightarrow>
   c \<in> set (ad_otps db) \<and> oc_phoneNumber c = p \<and> oc_purpose c = purpose \<and> oc_consumedAt c = None"
  unfolding current_challenge_def by (drule latest_by_in) simp

section \<open>One check\<close>

text \<open>The challenge a guess is compared with, when it gets that far.\<close>

definition compared :: "number_settings \<Rightarrow> int \<Rightarrow> auth_db \<Rightarrow> string \<Rightarrow> string \<Rightarrow> otp_purpose \<Rightarrow> otp_challenge option" where
  "compared config now db rawPhone otp purpose =
     (if \<not> OTP_DIGITS_PATTERN (js_trim otp) then None
      else case current_challenge db (normalizeEthiopianPhone rawPhone) purpose of
        None \<Rightarrow> None
      | Some c \<Rightarrow> if now < oc_expiresAt c \<and> oc_attemptCount c < getOtpMaxAttempts config then Some c else None)"

lemma verifyOtp_uncompared:
  "compared config now db rawPhone otp purpose = None \<Longrightarrow>
   verifyOtpOrThrow config crypto others now db rawPhone otp purpose = (Inl (Unauthorized INVALID_OTP_MESSAGE), db)"
  by (cases "current_challenge db (normalizeEthiopianPhone rawPhone) purpose")
     (auto simp: verifyOtpOrThrow_def compared_def Let_def split: if_splits)

lemma verifyOtp_compared:
  "compared config now db rawPhone otp purpose = Some c \<Longrightarrow>
   verifyOtpOrThrow config crypto others now db rawPhone otp purpose =
     (if cy_compare crypto (js_trim otp) (oc_codeHash c)
      then (Inr (), update_challenge (oc_id c) (\<lambda>c. c\<lparr>oc_consumedAt := Some now\<rparr>) (others db))
      else (Inl (Unauthorized INVALID_OTP_MESSAGE),
        update_challenge (oc_id c) (\<lambda>c. c\<lparr>oc_attemptCount := oc_attemptCount c + 1\<rparr>) (others db)))"
  by (cases "current_challenge db (normalizeEthiopianPhone rawPhone) purpose")
     (auto simp: verifyOtpOrThrow_def compared_def Let_def split: if_splits)

lemma comparedD:
  "compared config now db rawPhone otp purpose = Some c \<Longrightarrow>
   c \<in> set (ad_otps db) \<and> oc_consumedAt c = None \<and> now < oc_expiresAt c \<and>
   oc_attemptCount c < getOtpMaxAttempts config"
  by (auto simp: compared_def dest: current_challengeD split: if_splits option.splits)

section \<open>Sequences of calls\<close>

datatype code_call =
    Request_Code otp_purpose string sms_answer int string string
  | Check_Code otp_purpose string string int

text \<open>
  What a sequence of calls compares: the challenge, and whether the check accepted. A check that gets
  no challenge to compare with is rejected (\<open>verifyOtp_uncompared\<close>) and leaves no entry.
\<close>

fun guesses :: "number_settings \<Rightarrow> crypto \<Rightarrow> auth_db \<Rightarrow> code_call list \<Rightarrow> (string \<times> bool) list" where
  "guesses config crypto db [] = []"
| "guesses config crypto db (Request_Code purpose phone sms now salt newId # calls) =
     guesses config crypto (snd (requestOtp config crypto sms now salt newId db phone purpose None None)) calls"
| "guesses config crypto db (Check_Code purpose phone otp now # calls) =
     (let (answer, db') = verifyOtpOrThrow config crypto id now db phone otp purpose in
      (case compared config now db phone otp purpose of None \<Rightarrow> [] | Some c \<Rightarrow> [(oc_id c, answer = Inr ())]) @
      guesses config crypto db' calls)"

text \<open>The identifiers the requests draw.\<close>

fun drawn :: "code_call list \<Rightarrow> string list" where
  "drawn [] = []"
| "drawn (Request_Code purpose phone sms now salt newId # calls) = newId # drawn calls"
| "drawn (Check_Code purpose phone otp now # calls) = drawn calls"

lemma requestOtp_rows:
  "ad_otps (snd (requestOtp config crypto sms now salt newId db phone purpose ip device)) = ad_otps db \<or>
   (\<exists>c. ad_otps (snd (requestOtp config crypto sms now salt newId db phone purpose ip device)) = ad_otps db @ [c] \<and>
      oc_id c = newId \<and> oc_attemptCount c = 0 \<and> oc_consumedAt c = None)"
proof -
  have buckets: "ad_otps db1 = ad_otps db" if "assertSendRateLimits config now db p ip = (r, db1)" for p r db1
    using that by (auto simp: assertSendRateLimits_def Let_def split: prod.splits option.splits if_splits)
  show ?thesis
    unfolding requestOtp_def Let_def
    by (auto simp: new_challenge_def dest: buckets split: sum.splits prod.splits)
qed

text \<open>How many wrong guesses a challenge still admits, and whether it can still be accepted.\<close>

definition find_challenge :: "auth_db \<Rightarrow> string \<Rightarrow> otp_challenge option" where
  "find_challenge db i = find (\<lambda>c. oc_id c = i) (ad_otps db)"

definition remaining :: "number_settings \<Rightarrow> auth_db \<Rightarrow> string \<Rightarrow> int" where
  "remaining config db i =
     (case find_challenge db i of
        None \<Rightarrow> max 0 (getOtpMaxAttempts config)
      | Some c \<Rightarrow> max 0 (getOtpMaxAttempts config - oc_attemptCount c))"

definition usable :: "auth_db \<Rightarrow> string \<Rightarrow> bool" where
  "usable db i \<longleftrightarrow> (case find_challenge db i of None \<Rightarrow> True | Some c \<Rightarrow> oc_consumedAt c = None)"

lemma find_challengeI:
  "distinct (map oc_id (ad_otps db)) \<Longrightarrow> c \<in> set (ad_otps db) \<Longrightarrow> find_challenge db (oc_id c) = Some c"
  using find_key [of oc_id "ad_otps db" c] by (auto simp: find_challenge_def)

lemma find_update_challenge:
  assumes "\<And>c. oc_id (f c) = oc_id c"
  shows "find_challenge (update_challenge j f db) i =
    map_option (\<lambda>c. if i = j then f c else c) (find_challenge db i)"
proof -
  have "find (\<lambda>c. oc_id c = i) (update_where (\<lambda>c. oc_id c = j) f cs) =
    map_option (\<lambda>c. if i = j then f c else c) (find (\<lambda>c. oc_id c = i) cs)" for cs
    using assms by (induction cs) (auto simp: update_where_def)
  then show ?thesis by (simp add: find_challenge_def update_challenge_def)
qed

lemma find_appended:
  "oc_id c \<notin> set (map oc_id cs) \<Longrightarrow>
   find (\<lambda>c. oc_id c = i) (cs @ [c]) = (if i = oc_id c then Some c else find (\<lambda>c. oc_id c = i) cs)"
  by (induction cs) auto

text \<open>A request changes what no challenge admits.\<close>

lemma request_budget:
  assumes "newId \<notin> set (map oc_id (ad_otps db))"
    and db': "db' = snd (requestOtp config crypto sms now salt newId db phone purpose ip device)"
  shows "remaining config db' i = remaining config db i" and "usable db' i = usable db i"
proof -
  have fresh: "find_challenge db newId = None"
    using assms(1) by (auto simp: find_challenge_def find_None_iff)
  consider "ad_otps db' = ad_otps db"
    | c where "ad_otps db' = ad_otps db @ [c]" "oc_id c = newId" "oc_attemptCount c = 0" "oc_consumedAt c = None"
    unfolding db' using requestOtp_rows by blast
  then have "remaining config db' i = remaining config db i \<and> usable db' i = usable db i"
  proof cases
    case 1
    then show ?thesis by (simp add: remaining_def usable_def find_challenge_def)
  next
    case 2
    then have "find_challenge db' i = (if i = newId then Some c else find_challenge db i)"
      using find_appended [of c "ad_otps db" i] assms(1) by (simp add: find_challenge_def)
    then show ?thesis using 2 fresh by (simp add: remaining_def usable_def)
  qed
  then show "remaining config db' i = remaining config db i" and "usable db' i = usable db i" by simp_all
qed

text \<open>A check that compares takes one from the challenge it compares with.\<close>

lemma check_budget:
  assumes c: "compared config now db phone otp purpose = Some c" and d: "distinct (map oc_id (ad_otps db))"
    and out: "verifyOtpOrThrow config crypto id now db phone otp purpose = (answer, db')"
  shows "usable db (oc_id c)"
    and "int (if i = oc_id c \<and> answer \<noteq> Inr () then 1 else 0) + remaining config db' i \<le> remaining config db i"
    and "usable db' i \<longleftrightarrow> usable db i \<and> \<not> (i = oc_id c \<and> answer = Inr ())"
proof -
  note facts = comparedD [OF c]
  have found: "find_challenge db (oc_id c) = Some c"
    using find_challengeI [OF d] facts by simp
  show "usable db (oc_id c)" using found facts by (simp add: usable_def)
  have attempt: "find_challenge (update_challenge j (\<lambda>c. c\<lparr>oc_attemptCount := oc_attemptCount c + 1\<rparr>) db) i =
      map_option (\<lambda>c. if i = j then c\<lparr>oc_attemptCount := oc_attemptCount c + 1\<rparr> else c) (find_challenge db i)" for i j
    by (rule find_update_challenge) simp
  have consume: "find_challenge (update_challenge j (\<lambda>c. c\<lparr>oc_consumedAt := Some now\<rparr>) db) i =
      map_option (\<lambda>c. if i = j then c\<lparr>oc_consumedAt := Some now\<rparr> else c) (find_challenge db i)" for i j
    by (rule find_update_challenge) simp
  have result: "answer = (if cy_compare crypto (js_trim otp) (oc_codeHash c) then Inr () else Inl (Unauthorized INVALID_OTP_MESSAGE))"
    "db' = (if cy_compare crypto (js_trim otp) (oc_codeHash c)
       then update_challenge (oc_id c) (\<lambda>c. c\<lparr>oc_consumedAt := Some now\<rparr>) db
       else update_challenge (oc_id c) (\<lambda>c. c\<lparr>oc_attemptCount := oc_attemptCount c + 1\<rparr>) db)"
    using out verifyOtp_compared [OF c, of crypto id] by (simp_all split: if_splits)
  show "int (if i = oc_id c \<and> answer \<noteq> Inr () then 1 else 0) + remaining config db' i \<le> remaining config db i"
    using found facts by (cases "find_challenge db i") (auto simp: result remaining_def attempt consume)
  show "usable db' i \<longleftrightarrow> usable db i \<and> \<not> (i = oc_id c \<and> answer = Inr ())"
    using found by (cases "find_challenge db i") (auto simp: result usable_def attempt consume)
qed

lemma verify_ids:
  "map oc_id (ad_otps (snd (verifyOtpOrThrow config crypto id now db phone otp purpose))) = map oc_id (ad_otps db)"
  by (cases "compared config now db phone otp purpose")
     (auto simp: verifyOtp_compared verifyOtp_uncompared update_challenge_def intro!: map_update_where)

lemma request_ids:
  "map oc_id (ad_otps (snd (requestOtp config crypto sms now salt newId db phone purpose ip device)))
     \<in> {map oc_id (ad_otps db), map oc_id (ad_otps db) @ [newId]}"
  using requestOtp_rows [of config crypto sms now salt newId db phone purpose ip device] by auto

lemma guesses_budget:
  assumes "distinct (map oc_id (ad_otps db) @ drawn calls)"
  shows "int (length (filter ((=) (i, False)) (guesses config crypto db calls))) \<le> remaining config db i \<and>
    length (filter ((=) (i, True)) (guesses config crypto db calls)) \<le> (if usable db i then 1 else 0)"
  using assms
proof (induction config crypto db calls rule: guesses.induct)
  case (1 config crypto db)
  show ?case by (simp add: remaining_def split: option.split)
next
  case (2 config crypto db purpose phone sms now salt newId calls)
  let ?db = "snd (requestOtp config crypto sms now salt newId db phone purpose None None)"
  have "distinct (map oc_id (ad_otps ?db) @ drawn calls)"
    using 2(2) request_ids [of config crypto sms now salt newId db phone purpose None None]
    by (auto simp del: set_map)
  moreover have "newId \<notin> set (map oc_id (ad_otps db))" using 2(2) by auto
  ultimately show ?case using 2(1) by (simp add: request_budget)
next
  case (3 config crypto db purpose phone otp now calls)
  obtain answer db' where out: "verifyOtpOrThrow config crypto id now db phone otp purpose = (answer, db')"
    by fastforce
  have d: "distinct (map oc_id (ad_otps db') @ drawn calls)"
    using 3(2) verify_ids [of config crypto now db phone otp purpose] out by simp
  note IH = 3(1) [OF out [symmetric] refl d]
  show ?case
  proof (cases "compared config now db phone otp purpose")
    case None
    then have "db' = db" using verifyOtp_uncompared [OF None] out by simp
    then show ?thesis using IH None out by simp
  next
    case (Some c)
    have "distinct (map oc_id (ad_otps db))" using 3(2) by simp
    note budget = check_budget [OF Some this out]
    show ?thesis using IH budget(1) budget(2) [of i] budget(3) [of i] Some out
      by (cases "answer = Inr ()"; cases "i = oc_id c") (simp_all split: if_splits)
  qed
qed

section \<open>Overlapping checks\<close>

text \<open>Checks that all read the challenge before the first of them updates it.\<close>

fun overlapping ::
  "number_settings \<Rightarrow> crypto \<Rightarrow> int \<Rightarrow> string \<Rightarrow> otp_purpose \<Rightarrow> string list \<Rightarrow> auth_db \<Rightarrow> auth_db" where
  "overlapping config crypto now phone purpose [] db = db"
| "overlapping config crypto now phone purpose (otp # otps) db =
     snd (verifyOtpOrThrow config crypto (overlapping config crypto now phone purpose otps) now db phone otp purpose)"

definition open_challenge :: "number_settings \<Rightarrow> int \<Rightarrow> auth_db \<Rightarrow> string \<Rightarrow> otp_purpose \<Rightarrow> otp_challenge \<Rightarrow> bool" where
  "open_challenge config now db phone purpose c \<longleftrightarrow>
     current_challenge db (normalizeEthiopianPhone phone) purpose = Some c \<and> now < oc_expiresAt c \<and>
     oc_attemptCount c < getOtpMaxAttempts config"

lemma open_compared:
  "open_challenge config now db phone purpose c \<Longrightarrow> OTP_DIGITS_PATTERN (js_trim otp) \<Longrightarrow>
   compared config now db phone otp purpose = Some c"
  by (simp add: open_challenge_def compared_def)

lemma overlapping_counts:
  assumes o: "open_challenge config now db phone purpose c" and d: "distinct (map oc_id (ad_otps db))"
    and wrong: "list_all (\<lambda>otp. OTP_DIGITS_PATTERN (js_trim otp) \<and> \<not> cy_compare crypto (js_trim otp) (oc_codeHash c)) otps"
  shows "find_challenge (overlapping config crypto now phone purpose otps db) (oc_id c) =
    Some (c\<lparr>oc_attemptCount := oc_attemptCount c + int (length otps)\<rparr>)"
  using wrong
proof (induction otps)
  case Nil
  have "c \<in> set (ad_otps db)" using o current_challengeD by (auto simp: open_challenge_def)
  then show ?case using find_challengeI [OF d] by simp
next
  case (Cons otp otps)
  then have "compared config now db phone otp purpose = Some c" "\<not> cy_compare crypto (js_trim otp) (oc_codeHash c)"
    using open_compared [OF o] by simp_all
  then show ?case
    using Cons by (simp add: verifyOtp_compared find_update_challenge)
qed

end
