(* ===== verification/BonusFacts.thy ===== *)
theory BonusFacts
  imports Authentication
begin

text \<open>
  The books of the welcome bonus: one grant for a user, one grant with an amount for a device, and the
  bonus of a wallet moved by the amount granted, whatever the interleaving of logins and registrations.
\<close>

section \<open>The books\<close>

definition granted :: "auth_db \<Rightarrow> string \<Rightarrow> int" where
  "granted db u = (\<Sum>g\<leftarrow>ad_grants db. if bg_userId g = u then bg_bonusAmount g else 0)"

definition bonus_balance :: "auth_db \<Rightarrow> string \<Rightarrow> int" where
  "bonus_balance db u = (case db_wallets (ad_wallet db) u of None \<Rightarrow> 0 | Some w \<Rightarrow> wa_bonusCartelaBalance w)"

definition grant_keys :: "bonus_grant list \<Rightarrow> bool" where
  "grant_keys gs \<longleftrightarrow> distinct (map bg_userId gs) \<and>
     distinct (map bg_deviceId (filter (\<lambda>g. 0 < bg_bonusAmount g) gs)) \<and>
     list_all (\<lambda>g. bg_bonusAmount g \<in> {0, WELCOME_BONUS_CARTELAS_WHEN_ENABLED}) gs"

text \<open>What a step must respect: the keys are kept, and wallets move with the grants.\<close>

definition welcome_step :: "auth_db \<Rightarrow> auth_db \<Rightarrow> bool" where
  "welcome_step db db' \<longleftrightarrow> (grant_keys (ad_grants db) \<longrightarrow> grant_keys (ad_grants db')) \<and>
     (\<forall>u. bonus_balance db' u - granted db' u = bonus_balance db u - granted db u)"

lemma welcome_step_refl [simp]: "welcome_step db db"
  by (simp add: welcome_step_def)

lemma welcome_step_trans [trans]: "welcome_step a b \<Longrightarrow> welcome_step b c \<Longrightarrow> welcome_step a c"
  by (simp add: welcome_step_def)

lemma welcome_step_same:
  "ad_grants db' = ad_grants db \<Longrightarrow> ad_wallet db' = ad_wallet db \<Longrightarrow> welcome_step db db'"
  by (simp add: welcome_step_def bonus_balance_def granted_def)

lemma grant_keys_append:
  "grant_keys gs \<Longrightarrow> bg_userId g \<notin> bg_userId ` set gs \<Longrightarrow> bg_bonusAmount g \<in> {0, WELCOME_BONUS_CARTELAS_WHEN_ENABLED} \<Longrightarrow>
   (0 < bg_bonusAmount g \<Longrightarrow> \<not> list_ex (device_award (bg_deviceId g)) gs) \<Longrightarrow> grant_keys (gs @ [g])"
  by (auto simp: grant_keys_def device_award_def list_ex_iff)

section \<open>Grants\<close>

text \<open>The outcome of \<open>create\<close>: the row is there, or nothing has changed.\<close>

lemma tryCreate_outcome:
  assumes "tryCreateWelcomeBonusGrant row db = (Inr r, db')"
    and "bg_bonusAmount row \<in> {0, WELCOME_BONUS_CARTELAS_WHEN_ENABLED}"
  shows "r = None \<Longrightarrow> db' = db\<lparr>ad_grants := ad_grants db @ [row]\<rparr> \<and> (grant_keys (ad_grants db) \<longrightarrow> grant_keys (ad_grants db'))"
    and "r \<noteq> None \<Longrightarrow> db' = db"
proof -
  show "db' = db" if "r \<noteq> None"
    using assms(1) that by (auto simp: tryCreateWelcomeBonusGrant_def split: if_splits)
  show "db' = db\<lparr>ad_grants := ad_grants db @ [row]\<rparr> \<and> (grant_keys (ad_grants db) \<longrightarrow> grant_keys (ad_grants db'))" if "r = None"
  proof -
    have row: "\<not> (0 < bg_bonusAmount row \<and> list_ex (device_award (bg_deviceId row)) (ad_grants db))"
      "find_grant db (bg_userId row) = None" "db' = db\<lparr>ad_grants := ad_grants db @ [row]\<rparr>"
      using assms(1) that by (auto simp: tryCreateWelcomeBonusGrant_def split: if_splits)
    then have "bg_userId row \<notin> bg_userId ` set (ad_grants db)"
      by (auto simp: find_grant_def find_None_iff)
    then show ?thesis using row assms(2) by (auto intro!: grant_keys_append)
  qed
qed

text \<open>
  The outcome of a decision: nothing has changed, or one grant of the amount answered has been added
  for the user.
\<close>

lemma decision_outcome:
  assumes rec: "recordWelcomeBonusDecision deviceId u phone amount denied db = (Inr (created, b, reason), db')"
    and amount: "amount \<in> {0, WELCOME_BONUS_CARTELAS_WHEN_ENABLED}"
  shows "(\<not> created \<and> b = 0 \<and> db' = db) \<or>
    (\<exists>g. created \<and> bg_userId g = u \<and> bg_bonusAmount g = b \<and> db' = db\<lparr>ad_grants := ad_grants db @ [g]\<rparr> \<and>
       (grant_keys (ad_grants db) \<longrightarrow> grant_keys (ad_grants db')))"
proof -
  define row where "row = \<lparr>bg_deviceId = deviceId, bg_userId = u, bg_phoneNumber = phone, bg_bonusAmount = amount\<rparr>"
  define zero where "zero = row\<lparr>bg_bonusAmount := 0\<rparr>"
  define refuse where "refuse = (\<lambda>reason db'.
            if reason = Some DEVICE_ALREADY_CLAIMED \<or> reason = Some USER_ALREADY_CLAIMED then
              (case tryCreateWelcomeBonusGrant zero db' of
                 (Inl e, db'') \<Rightarrow> (Inl e :: http_error + (bool \<times> int \<times> bonus_denied option), db'')
               | (Inr failed, db'') \<Rightarrow> (Inr (failed = None, 0, reason), db''))
            else (Inr (False, 0, reason), db'))"
  have rec': "(if find_grant db u \<noteq> None then (Inr (False, 0, Some USER_ALREADY_CLAIMED), db)
         else if 0 < amount then
           (case tryCreateWelcomeBonusGrant row db of
              (Inl e, db') \<Rightarrow> (Inl e, db')
            | (Inr None, db') \<Rightarrow> (Inr (True, amount, None), db')
            | (Inr (Some reason), db') \<Rightarrow> refuse (Some reason) db')
         else refuse denied db) = (Inr (created, b, reason), db')"
    using rec unfolding recordWelcomeBonusDecision_def row_def zero_def refuse_def Let_def by simp
  let ?goal = "(\<not> created \<and> b = 0 \<and> db' = db) \<or>
    (\<exists>g. created \<and> bg_userId g = u \<and> bg_bonusAmount g = b \<and> db' = db\<lparr>ad_grants := ad_grants db @ [g]\<rparr> \<and>
       (grant_keys (ad_grants db) \<longrightarrow> grant_keys (ad_grants db')))"
  have rows: "bg_userId row = u" "bg_bonusAmount row = amount" "bg_userId zero = u" "bg_bonusAmount zero = 0"
    by (simp_all add: row_def zero_def)
  have refused: ?goal if r: "refuse r db = (Inr (created, b, reason), db')" for r
  proof (cases "r = Some DEVICE_ALREADY_CLAIMED \<or> r = Some USER_ALREADY_CLAIMED")
    case True
    then obtain failed where f: "tryCreateWelcomeBonusGrant zero db = (Inr failed, db')" "created = (failed = None)" "b = 0"
      using r by (auto simp: refuse_def split: sum.splits prod.splits)
    then show ?thesis using tryCreate_outcome [OF f(1)] rows by (cases failed) auto
  next
    case False
    then show ?thesis using r by (auto simp: refuse_def)
  qed
  consider "find_grant db u \<noteq> None" | "find_grant db u = None" "\<not> 0 < amount" | "find_grant db u = None" "0 < amount"
    by blast
  then show ?thesis
  proof cases
    case 1
    then show ?thesis using rec' by simp
  next
    case 2
    then show ?thesis using rec' refused [of denied] by simp
  next
    case 3
    obtain r db1 where t: "tryCreateWelcomeBonusGrant row db = (r, db1)" by fastforce
    show ?thesis
    proof (cases r)
      case (Inl e)
      then show ?thesis using rec' 3 t by simp
    next
      case (Inr failed)
      note made = tryCreate_outcome [OF t [unfolded Inr]] 
      show ?thesis
        using rec' 3 t Inr made rows amount refused by (cases failed) auto
    qed
  qed
qed

lemma granted_append: "granted (db\<lparr>ad_grants := ad_grants db @ [g]\<rparr>) u =
    granted db u + (if bg_userId g = u then bg_bonusAmount g else 0)"
  by (simp add: granted_def)

lemma resolve_amount:
  "fst (resolveWelcomeBonusCartelasToAward enabled db u deviceId) \<in> {0, WELCOME_BONUS_CARTELAS_WHEN_ENABLED}"
  by (simp add: resolveWelcomeBonusCartelasToAward_def resolveWelcomeBonusCartelasAmount_def split: option.split)

section \<open>Login\<close>

lemma transaction_step:
  assumes "\<And>x db'. out = (Inr x, db') \<Longrightarrow> welcome_step db db'"
  shows "welcome_step db (snd (auth_transaction db out))"
  using assms by (cases out; cases "fst out") (auto simp: auth_transaction_def)

lemma add_bonus_Inr:
  "add_bonus u b db = (Inr (), db') \<Longrightarrow> ad_grants db' = ad_grants db \<and> ad_users db' = ad_users db \<and>
   (\<forall>v. bonus_balance db' v = bonus_balance db v + (if v = u then b else 0))"
  by (auto simp: add_bonus_def bonus_balance_def split: option.splits)

lemma apply_bonus_commit:
  assumes "recordWelcomeBonusDecision deviceId u phone amount denied db = (Inr (created, b, reason), db1)"
    and "amount \<in> {0, WELCOME_BONUS_CARTELAS_WHEN_ENABLED}"
    and "(if 0 < b \<and> created then add_bonus u b db1 else (Inr (), db1)) = (Inr (), db2)"
  shows "welcome_step db db2"
  using decision_outcome [OF assms(1,2)]
proof (elim disjE exE conjE)
  assume "\<not> created" "db1 = db"
  then show ?thesis using assms(3) by simp
next
  fix g assume created: created and g: "bg_userId g = u" "bg_bonusAmount g = b"
    and db1: "db1 = db\<lparr>ad_grants := ad_grants db @ [g]\<rparr>" and keys: "grant_keys (ad_grants db) \<longrightarrow> grant_keys (ad_grants db1)"
  have base: "bonus_balance db1 v = bonus_balance db v" "granted db1 v = granted db v + (if u = v then b else 0)" for v
    unfolding db1 granted_append using g by (simp_all add: bonus_balance_def)
  show ?thesis
  proof (cases "0 < b")
    case True
    then have "add_bonus u b db1 = (Inr (), db2)" using assms(3) created by simp
    from add_bonus_Inr [OF this] show ?thesis
      using base keys by (auto simp: welcome_step_def granted_def)
  next
    case False
    have "b \<ge> 0"
      using assms(1,2) by (auto simp: recordWelcomeBonusDecision_def Let_def WELCOME_BONUS_CARTELAS_WHEN_ENABLED_def
        split: if_splits sum.splits option.splits prod.splits)
    then show ?thesis using False assms(3) base keys by (auto simp: welcome_step_def)
  qed
qed

lemma apply_bonus_step:
  assumes "welcome_step db (others db)"
  shows "welcome_step db (snd (applyWelcomeBonusIfEligible enabled others db user deviceId))"
proof (cases "device_of deviceId")
  case None
  then show ?thesis by (simp add: applyWelcomeBonusIfEligible_def)
next
  case (Some device)
  obtain amount denied where r: "resolveWelcomeBonusCartelasToAward enabled db (us_id user) (Some device) = (amount, denied)"
    by fastforce
  then have amount: "amount \<in> {0, WELCOME_BONUS_CARTELAS_WHEN_ENABLED}"
    using resolve_amount [of enabled db "us_id user" "Some device"] by simp
  let ?out = "case recordWelcomeBonusDecision device (us_id user) (us_phoneNumber user) amount denied (others db) of
                (Inl e, db1) \<Rightarrow> (Inl e, db1)
              | (Inr (created, bonusAmount, _), db1) \<Rightarrow>
                  (case (if 0 < bonusAmount \<and> created then add_bonus (us_id user) bonusAmount db1 else (Inr (), db1)) of
                     (Inl e, db2) \<Rightarrow> (Inl e, db2)
                   | (Inr _, db2) \<Rightarrow>
                       (case find_user db2 (us_id user) of
                          None \<Rightarrow> (Inl (Unauthorized ''User not found''), db2)
                        | Some refreshed \<Rightarrow> (Inr (refreshed, if created then bonusAmount else 0), db2)))"
  have "welcome_step (others db) (snd (auth_transaction (others db) ?out))"
  proof (rule transaction_step)
    fix x db' assume out: "?out = (Inr x, db')"
    obtain created b reason db1 where rec:
      "recordWelcomeBonusDecision device (us_id user) (us_phoneNumber user) amount denied (others db) = (Inr (created, b, reason), db1)"
      using out by (auto split: prod.splits sum.splits)
    obtain s db2 where add: "(if 0 < b \<and> created then add_bonus (us_id user) b db1 else (Inr (), db1)) = (s, db2)"
      by (meson surj_pair)
    have "s = Inr () \<and> db2 = db'"
      using out unfolding rec by (simp add: add split: sum.splits option.splits)
    then show "welcome_step (others db) db'"
      using apply_bonus_commit [OF rec amount] add by simp
  qed
  then show ?thesis
    using welcome_step_trans [OF assms] by (simp add: applyWelcomeBonusIfEligible_def Some r Let_def)
qed

section \<open>Registration\<close>

lemma create_user_Inr:
  "create_user user db = (Inr (), db') \<Longrightarrow> ad_grants db' = ad_grants db \<and> db_wallets (ad_wallet db') = db_wallets (ad_wallet db)"
  by (auto simp: create_user_def split: if_splits)

lemma create_wallet_Inr:
  "create_wallet i u b db = (Inr (), db') \<Longrightarrow> ad_grants db' = ad_grants db \<and> db_wallets (ad_wallet db) u = None \<and>
   (\<forall>v. bonus_balance db' v = (if v = u then b else bonus_balance db v))"
  by (auto simp: create_wallet_def bonus_balance_def split: if_splits)

lemma registration_bonus_outcome:
  assumes "registration_bonus enabled u phone deviceId db = (Inr (b, reason), db')"
  shows "ad_grants db' = ad_grants db \<and> b = 0 \<or>
      (\<exists>g. ad_grants db' = ad_grants db @ [g] \<and> bg_userId g = u \<and> bg_bonusAmount g = b)"
    and "grant_keys (ad_grants db) \<longrightarrow> grant_keys (ad_grants db')" and "ad_wallet db' = ad_wallet db"
proof -
  obtain amount denied where r: "resolveWelcomeBonusCartelasToAward enabled db u deviceId = (amount, denied)" by fastforce
  have amount: "amount \<in> {0, WELCOME_BONUS_CARTELAS_WHEN_ENABLED}"
    using resolve_amount [of enabled db u deviceId] r by simp
  have "(ad_grants db' = ad_grants db \<and> b = 0 \<or>
      (\<exists>g. ad_grants db' = ad_grants db @ [g] \<and> bg_userId g = u \<and> bg_bonusAmount g = b)) \<and>
    (grant_keys (ad_grants db) \<longrightarrow> grant_keys (ad_grants db')) \<and> ad_wallet db' = ad_wallet db"
  proof (cases deviceId)
    case None
    then have r0: "resolveWelcomeBonusCartelasToAward enabled db u None = (amount, denied)" using r by simp
    then have "amount = 0"
      by (auto simp: resolveWelcomeBonusCartelasToAward_def device_of_def nonempty_def split: if_splits)
    then show ?thesis using assms None by (simp add: registration_bonus_def r0)
  next
    case (Some device)
    obtain created where "recordWelcomeBonusDecision device u phone amount denied db = (Inr (created, b, reason), db')"
      using assms r unfolding registration_bonus_def Some by (auto split: prod.splits sum.splits)
    from decision_outcome [OF this amount] show ?thesis by auto
  qed
  then show "ad_grants db' = ad_grants db \<and> b = 0 \<or>
      (\<exists>g. ad_grants db' = ad_grants db @ [g] \<and> bg_userId g = u \<and> bg_bonusAmount g = b)"
    and "grant_keys (ad_grants db) \<longrightarrow> grant_keys (ad_grants db')" and "ad_wallet db' = ad_wallet db" by blast+
qed

text \<open>The three writes of a registration that goes through.\<close>

lemma register_user_Inr:
  assumes "register_user enabled others now ch phoneNumber deviceId dto passwordHash db = (Inr (user, b, denied), db')"
  obtains db1 db2 reason where "user = new_user now (ch_userId ch) (re_fullName dto) phoneNumber passwordHash"
    "create_user user (others db) = (Inr (), db1)"
    "registration_bonus enabled (us_id user) phoneNumber deviceId db1 = (Inr (b, reason), db2)"
    "create_wallet (ch_walletId ch) (us_id user) b db2 = (Inr (), db')"
proof -
  let ?user = "new_user now (ch_userId ch) (re_fullName dto) phoneNumber passwordHash"
  obtain r1 db1 where c: "create_user ?user (others db) = (r1, db1)" by fastforce
  obtain r2 db2 where d: "registration_bonus enabled (us_id ?user) phoneNumber deviceId db1 = (r2, db2)" by fastforce
  have r1: "r1 = Inr ()" using assms c by (cases r1) (auto simp: register_user_def auth_transaction_def split: if_splits)
  obtain a where r2: "r2 = Inr a"
    using assms c d r1 by (cases r2) (auto simp: register_user_def auth_transaction_def split: if_splits)
  obtain b' reason where a: "a = (b', reason)" by (cases a)
  obtain r3 db3 where w: "create_wallet (ch_walletId ch) (us_id ?user) b' db2 = (r3, db3)" by fastforce
  have r3: "r3 = Inr ()"
    using assms c d w r1 r2 a by (cases r3) (auto simp: register_user_def auth_transaction_def split: if_splits)
  have "user = ?user" "b' = b" "db3 = db'"
    using assms c d w r1 r2 a r3 by (auto simp: register_user_def auth_transaction_def Let_def split: if_splits)
  then show thesis using that [of db1 reason db2] c d w r1 r2 a r3 by simp
qed

lemma register_user_step:
  assumes "welcome_step db (others db)"
  shows "welcome_step db (snd (register_user enabled others now ch phoneNumber deviceId dto passwordHash db))"
proof (cases "register_user enabled others now ch phoneNumber deviceId dto passwordHash db")
  case (Pair r db')
  show ?thesis
  proof (cases r)
    case (Inl e)
    then have "db' = db \<or> db' = others db"
      using Pair by (auto simp: register_user_def auth_transaction_def Let_def split: if_splits prod.splits sum.splits)
    then show ?thesis using Pair assms by auto
  next
    case (Inr a)
    obtain user b denied where a: "a = (user, b, denied)" by (cases a)
    from register_user_Inr [OF Pair [unfolded Inr a]] obtain db1 db2 reason where
      c: "create_user user (others db) = (Inr (), db1)"
      and d: "registration_bonus enabled (us_id user) phoneNumber deviceId db1 = (Inr (b, reason), db2)"
      and w: "create_wallet (ch_walletId ch) (us_id user) b db2 = (Inr (), db')" by blast
    note facts = create_user_Inr [OF c] registration_bonus_outcome [OF d] create_wallet_Inr [OF w]
    have "bonus_balance db' v - granted db' v = bonus_balance (others db) v - granted (others db) v" for v
      using facts by (auto simp: bonus_balance_def granted_def)
    then have "welcome_step (others db) db'" using facts by (simp add: welcome_step_def)
    then show ?thesis using Pair welcome_step_trans [OF assms] by simp
  qed
qed

section \<open>Interleavings\<close>

text \<open>Logins and registrations, each with others inside it, one after the other.\<close>

inductive bonus_run :: "auth_db \<Rightarrow> auth_db \<Rightarrow> bool" where
  run_none: "bonus_run db db"
| run_login: "bonus_run db1 db2 \<Longrightarrow> bonus_run db2 (others db2) \<Longrightarrow>
    bonus_run db1 (snd (applyWelcomeBonusIfEligible enabled others db2 user deviceId))"
| run_register: "bonus_run db1 db2 \<Longrightarrow> bonus_run db2 (others db2) \<Longrightarrow>
    bonus_run db1 (snd (register_user enabled others now ch phoneNumber deviceId dto passwordHash db2))"

lemma bonus_run_step: "bonus_run db db' \<Longrightarrow> welcome_step db db'"
proof (induction rule: bonus_run.induct)
  case (run_none db)
  show ?case by simp
next
  case (run_login db1 db2 others enabled user deviceId)
  then show ?case using apply_bonus_step welcome_step_trans by blast
next
  case (run_register db1 db2 others enabled now ch phoneNumber deviceId dto passwordHash)
  then show ?case using register_user_step welcome_step_trans by blast
qed

lemma granted_values:
  assumes "grant_keys (ad_grants db)"
  shows "granted db u \<in> {0, WELCOME_BONUS_CARTELAS_WHEN_ENABLED}"
proof -
  have none: "v \<notin> bg_userId ` set gs \<Longrightarrow> (\<Sum>g\<leftarrow>gs. if bg_userId g = v then bg_bonusAmount g else 0) = 0" for gs v
    by (induction gs) auto
  have "distinct (map bg_userId gs) \<Longrightarrow> list_all (\<lambda>g. bg_bonusAmount g \<in> A) gs \<Longrightarrow> 0 \<in> A \<Longrightarrow>
      (\<Sum>g\<leftarrow>gs. if bg_userId g = u then bg_bonusAmount g else 0) \<in> A" for gs A
    by (induction gs) (auto simp: none)
  from this [of "ad_grants db" "{0, WELCOME_BONUS_CARTELAS_WHEN_ENABLED}"] show ?thesis
    using assms by (simp add: granted_def grant_keys_def)
qed

lemma device_awards:
  assumes "grant_keys gs"
  shows "length (filter (device_award d) gs) \<le> 1"
proof -
  have "length (filter (\<lambda>g. bg_deviceId g = d) hs) \<le> 1" if "distinct (map bg_deviceId hs)" for hs
    using that by (induction hs) (auto simp: filter_empty_conv, metis image_eqI)
  moreover have "filter (device_award d) gs = filter (\<lambda>g. bg_deviceId g = d) (filter (\<lambda>g. 0 < bg_bonusAmount g) gs)"
    unfolding filter_filter by (rule filter_cong) (auto simp: device_award_def)
  moreover have "distinct (map bg_deviceId (filter (\<lambda>g. 0 < bg_bonusAmount g) gs))"
    using assms by (simp add: grant_keys_def)
  ultimately show ?thesis by metis
qed

end
