(* ===== verification/LoginFacts.thy ===== *)
theory LoginFacts
  imports TokenFacts CodeFacts BonusFacts
begin

text \<open>What a login, a registration and a change of password leave behind.\<close>

section \<open>Phone numbers\<close>

lemma mobile_local:
  assumes "ETHIO_TELECOM_MOBILE p"
  shows "normalizeEthiopianPhone p = p" and "normalizeEthiopianPhone (toLocalEthiopianPhone p) = p"
    and "toLocalEthiopianPhone p \<noteq> p"
proof -
  from assms have parts: "take 4 p = ''2519''" "length p = 12" "list_all digit_char (drop 4 p)"
    by (simp_all add: ETHIO_TELECOM_MOBILE_def)
  define r where "r = drop 4 p"
  have p: "p = ''2519'' @ r" using append_take_drop_id [of 4 p] parts(1) by (simp add: r_def)
  have r: "list_all digit_char r" "length r = 8" using parts(2,3) by (simp_all add: r_def)
  have lead: "list_all digit_char ''2519''" "list_all digit_char ''09''" by (simp_all add: digit_char_def)
  have d: "digitsOnly p = p" "digitsOnly (''09'' @ r) = ''09'' @ r"
    using digit_char_digits [of p] digit_char_digits [of "''09'' @ r"] r(1) lead unfolding p list_all_append by blast+
  show "normalizeEthiopianPhone p = p"
    using d(1) by (simp add: normalizeEthiopianPhone_def p)
  have l: "toLocalEthiopianPhone p = ''09'' @ r" using r(2) by (simp add: toLocalEthiopianPhone_def p)
  show "toLocalEthiopianPhone p \<noteq> p" using l by (simp add: p)
  show "normalizeEthiopianPhone (toLocalEthiopianPhone p) = p"
    unfolding l normalizeEthiopianPhone_def d(2) Let_def using r(2) by (cases r) (simp_all add: p)
qed

section \<open>Login\<close>

lemma find_user_id: "find_user db i = Some u \<Longrightarrow> us_id u = i"
  by (auto simp: find_user_def find_Some_iff)

lemma apply_bonus_user:
  assumes "applyWelcomeBonusIfEligible enabled others db user deviceId = (Inr (v, awarded), db')"
  shows "us_id v = us_id user"
proof (cases "device_of deviceId")
  case None
  then show ?thesis using assms by (simp add: applyWelcomeBonusIfEligible_def)
next
  case (Some device)
  then show ?thesis
    using assms find_user_id
    by (auto simp: applyWelcomeBonusIfEligible_def auth_transaction_def Let_def split: prod.splits sum.splits option.splits)
qed

lemma createTokenPair_Inr:
  assumes "createTokenPair config crypto now ch db user deviceId = (Inr (access, refresh), db')"
  shows "access = signAccessToken crypto user" "refresh = ch_token ch"
    "\<exists>till. createRefreshToken config crypto now (ch_tokenId ch) (ch_token ch) db (us_id user) deviceId = (Inr (ch_token ch, till), db')"
proof -
  obtain tok till where c: "createRefreshToken config crypto now (ch_tokenId ch) (ch_token ch) db (us_id user) deviceId = (Inr (tok, till), db')"
    and out: "access = signAccessToken crypto user" "refresh = tok"
    using assms by (auto simp: createTokenPair_def split: prod.splits sum.splits)
  have "tok = ch_token ch" by (rule createRefreshToken_Inr(1) [OF c])
  then show "access = signAccessToken crypto user" "refresh = ch_token ch"
    "\<exists>till. createRefreshToken config crypto now (ch_tokenId ch) (ch_token ch) db (us_id user) deviceId = (Inr (ch_token ch, till), db')"
    using c out by auto
qed

lemma authenticated_Inr:
  assumes "authenticated config crypto enabled others now ch db user deviceId = (Inr a, db')"
    and "0 \<le> getRefreshTokenExpiresDays config"
  shows "us_id (an_user a) = us_id user" and "us_password (an_user a) = None"
    and "validateRefreshToken crypto now db' (an_refreshToken a) deviceId = Inr (us_id user, ch_tokenId ch)"
    and "\<exists>phone role. an_accessToken a = cy_sign crypto (us_id user, phone, role)"
proof -
  obtain v awarded db1 where b: "applyWelcomeBonusIfEligible enabled others db user deviceId = (Inr (v, awarded), db1)"
    using assms(1) by (auto simp: authenticated_def split: prod.splits sum.splits)
  have v: "us_id v = us_id user" by (rule apply_bonus_user [OF b])
  obtain access refresh db2 where t: "createTokenPair config crypto now ch db1 v deviceId = (Inr (access, refresh), db2)"
    using assms(1) by (auto simp: authenticated_def b split: prod.splits sum.splits)
  have a: "a = \<lparr>an_accessToken = access, an_refreshToken = refresh, an_user = v\<lparr>us_password := None\<rparr>, an_awarded = awarded\<rparr>"
    "db' = db2"
    using assms(1) by (simp_all add: authenticated_def b t)
  from createTokenPair_Inr [OF t] obtain till where
    c: "access = signAccessToken crypto v" "refresh = ch_token ch"
      "createRefreshToken config crypto now (ch_tokenId ch) (ch_token ch) db1 (us_id v) deviceId = (Inr (ch_token ch, till), db2)"
    by blast
  show "us_id (an_user a) = us_id user" "us_password (an_user a) = None" using a v by simp_all
  show "validateRefreshToken crypto now db' (an_refreshToken a) deviceId = Inr (us_id user, ch_tokenId ch)"
    using created_token [OF c(3) assms(2)] by (simp add: a c v)
  show "\<exists>phone role. an_accessToken a = cy_sign crypto (us_id user, phone, role)"
    using c(1) v by (auto simp: a signAccessToken_def)
qed

section \<open>Registration\<close>

lemma recordWelcomeBonus_users:
  "recordWelcomeBonusDecision deviceId u phone amount denied db = (r, db') \<Longrightarrow> ad_users db' = ad_users db"
  by (auto simp: recordWelcomeBonusDecision_def tryCreateWelcomeBonusGrant_def Let_def
      split: if_splits sum.splits option.splits prod.splits)

lemma registration_bonus_users:
  "registration_bonus enabled u phone deviceId db = (r, db') \<Longrightarrow> ad_users db' = ad_users db"
  by (auto simp: registration_bonus_def split: option.splits prod.splits sum.splits dest: recordWelcomeBonus_users)

lemma create_wallet_row:
  "create_wallet i u b db = (Inr (), db') \<Longrightarrow> ad_users db' = ad_users db \<and>
   db_wallets (ad_wallet db') u = Some \<lparr>wa_id = i, wa_userId = u, wa_balance = 0, wa_lockedBalance = 0, wa_bonusCartelaBalance = b\<rparr>"
  by (auto simp: create_wallet_def split: if_splits)

lemma create_user_row:
  "create_user user db = (Inr (), db') \<Longrightarrow> ad_users db' = ad_users db @ [user] \<and>
   us_phoneNumber user \<notin> us_phoneNumber ` set (ad_users db) \<and> us_id user \<notin> us_id ` set (ad_users db)"
  by (force simp: create_user_def list_ex_iff split: if_splits)

lemma createRefreshToken_rest:
  "createRefreshToken config crypto now i token db u deviceId = (r, db') \<Longrightarrow> ad_users db' = ad_users db \<and> ad_wallet db' = ad_wallet db"
  by (auto simp: createRefreshToken_def Let_def split: if_splits)

section \<open>Passwords\<close>

lemma verify_rest:
  "ad_tokens (snd (verifyOtpOrThrow config crypto id now db phone otp purpose)) = ad_tokens db"
  by (cases "compared config now db phone otp purpose")
     (simp_all add: verifyOtp_compared verifyOtp_uncompared update_challenge_def)

lemma find_user_updated:
  "find_user (update_user i (\<lambda>u. u\<lparr>us_password := p\<rparr>) db) i = map_option (\<lambda>u. u\<lparr>us_password := p\<rparr>) (find_user db i)"
proof -
  have "find (\<lambda>u. us_id u = i) (update_where (\<lambda>u. us_id u = i) (\<lambda>u. u\<lparr>us_password := p\<rparr>) us) =
      map_option (\<lambda>u. u\<lparr>us_password := p\<rparr>) (find (\<lambda>u. us_id u = i) us)" for us
    by (induction us) (auto simp: update_where_def)
  then show ?thesis by (simp add: find_user_def update_user_def)
qed

end
