(* ===== verification/AccountProperties.thy ===== *)
theory AccountProperties
  imports LoginFacts
begin

text \<open>
  The properties of the authentication: one-time codes, refresh tokens, login, passwords and the
  welcome bonus.
\<close>

section \<open>Example\<close>

definition example_crypto :: crypto where
  "example_crypto =
     \<lparr>cy_hash = (\<lambda>salt text. salt @ text), cy_compare = (\<lambda>text hash. drop 2 hash = text),
      cy_token = (\<lambda>token. ''h:'' @ token), cy_sign = (\<lambda>(i, phone, role). i @ phone)\<rparr>"

definition example_user :: user_row where
  "example_user =
     \<lparr>us_id = ''u1'', us_fullName = ''Abel'', us_phoneNumber = ''251911223344'', us_password = Some ''s:secret'',
      us_role = PLAYER, us_status = USER_ACTIVE, us_createdAt = 0\<rparr>"

definition example_token :: refresh_token where
  "example_token =
     \<lparr>rt_id = ''t0'', rt_tokenHash = ''h:old'', rt_userId = ''u1'', rt_deviceId = None, rt_expiresAt = 1000,
      rt_revokedAt = None, rt_createdAt = 0\<rparr>"

definition example_challenge :: otp_challenge where
  "example_challenge =
     \<lparr>oc_id = ''c1'', oc_phoneNumber = ''251911223344'', oc_purpose = OTP_LOGIN, oc_codeHash = ''s:1234'',
      oc_expiresAt = 1000, oc_attemptCount = 0, oc_consumedAt = None, oc_requestIp = None, oc_deviceId = None,
      oc_createdAt = 0\<rparr>"

definition example_auth :: auth_db where
  "example_auth =
     \<lparr>ad_users = [example_user], ad_otps = [example_challenge], ad_tokens = [example_token], ad_grants = [],
      ad_wallet =
        \<lparr>db_users = {''u1''},
         db_wallets = [''u1'' \<mapsto> \<lparr>wa_id = ''w1'', wa_userId = ''u1'', wa_balance = 0, wa_lockedBalance = 0,
           wa_bonusCartelaBalance = 0\<rparr>],
         db_ledger = []\<rparr>,
      ad_buckets = Map.empty\<rparr>"

section \<open>Refresh tokens\<close>

text \<open>
  C26. After a rotation the old token is refused as revoked whenever and from whatever device it
  comes, the new one is accepted at once for the user of the old one, the unique indexes hold, and no
  other token is answered differently.
\<close>

lemma refresh_rotation:
  assumes keys: "token_keys db" and days: "0 \<le> getRefreshTokenExpiresDays config"
    and rotated: "rotateRefreshToken config crypto id now newId newToken db oldToken deviceId = (Inr (u, tok), db')"
  shows "tok = newToken \<and>
    validateRefreshToken crypto later db' oldToken device' = Inl (Unauthorized ''Refresh token has been revoked'') \<and>
    validateRefreshToken crypto now db' newToken deviceId = Inr (u, newId) \<and>
    map_option rt_userId (find_token crypto db oldToken) = Some u \<and> token_keys db' \<and>
    (cy_token crypto other \<noteq> cy_token crypto oldToken \<and> cy_token crypto other \<noteq> cy_token crypto newToken \<longrightarrow>
     validateRefreshToken crypto later db' other device' = validateRefreshToken crypto later db other device')"
  using rotated
proof (rule rotate_Inr)
  fix t db1 till
  assume t: "find_token crypto db oldToken = Some t" "u = rt_userId t" and tok: "tok = newToken"
    and db1: "db1 = update_tokens (\<lambda>s. rt_id s = rt_id t) (\<lambda>s. s\<lparr>rt_revokedAt := Some now\<rparr>) (id db)"
    and made: "createRefreshToken config crypto now newId newToken db1 u deviceId = (Inr (newToken, till), db')"
  have keys1: "token_keys db1" unfolding db1 using keys by (simp add: update_tokens_keys)
  have found: "find_token crypto db1 token =
      map_option (\<lambda>s. if rt_id s = rt_id t then s\<lparr>rt_revokedAt := Some now\<rparr> else s) (find_token crypto db token)" for token
    unfolding db1 by (simp add: find_revoked_by_id)
  have old: "find_token crypto db' oldToken = Some (t\<lparr>rt_revokedAt := Some now\<rparr>)"
    unfolding createRefreshToken_Inr(2) [OF made] find_token_appended by (simp add: found t(1))
  have same: "validateRefreshToken crypto later db' other device' = validateRefreshToken crypto later db other device'"
    if "cy_token crypto other \<noteq> cy_token crypto oldToken" "cy_token crypto other \<noteq> cy_token crypto newToken"
  proof -
    have "rt_id s \<noteq> rt_id t" if "find_token crypto db other = Some s" for s
      using unique_token [OF keys, of t s] find_token_member [OF t(1)] find_token_member [OF that]
        \<open>cy_token crypto other \<noteq> cy_token crypto oldToken\<close> by metis
    then have "find_token crypto db' other = find_token crypto db other"
      unfolding created_others [OF made that(2)] found by (cases "find_token crypto db other") auto
    then show ?thesis by (simp add: validateRefreshToken_def)
  qed
  have accepted: "validateRefreshToken crypto now db' newToken deviceId = Inr (u, newId)"
    by (rule created_token [OF made days])
  have refused: "validateRefreshToken crypto later db' oldToken device' = Inl (Unauthorized ''Refresh token has been revoked'')"
    by (rule validate_revoked [OF old]) simp
  show ?thesis
    using tok t same accepted refused createRefreshToken_keeps [OF made keys1] by simp
qed

lemma refresh_rotation_witness:
  "validateRefreshToken example_crypto 10
     (snd (rotateRefreshToken Map.empty example_crypto id 5 ''t1'' ''new'' example_auth ''old'' None)) ''old'' None =
   Inl (Unauthorized ''Refresh token has been revoked'')"
proof -
  have "rotateRefreshToken Map.empty example_crypto id 5 ''t1'' ''new'' example_auth ''old'' None =
      (Inr (''u1'', ''new''), snd (rotateRefreshToken Map.empty example_crypto id 5 ''t1'' ''new'' example_auth ''old'' None))"
    by (rule prod_eqI) (simp only: fst_conv, code_simp, simp)
  moreover have "token_keys example_auth" "0 \<le> getRefreshTokenExpiresDays Map.empty"
    by (simp_all add: token_keys_def example_auth_def getRefreshTokenExpiresDays_def or_else_def)
  ultimately show ?thesis using refresh_rotation by blast
qed

text \<open>
  C30. The validation and the revocation of a rotation are two requests to the database, and the
  revocation does not look at whether the token is still good: two overlapping refreshes of one token
  both succeed, and both new tokens are accepted afterwards.
\<close>

lemma overlapping_rotation:
  assumes keys: "token_keys db" and days: "0 \<le> getRefreshTokenExpiresDays config"
    and valid: "validateRefreshToken crypto now db oldToken deviceId = Inr (u, i)" and user: "find_user db u \<noteq> None"
    and ids: "distinct [id1, id2]" "id1 \<notin> rt_id ` set (ad_tokens db)" "id2 \<notin> rt_id ` set (ad_tokens db)"
    and hashes: "distinct [cy_token crypto tok1, cy_token crypto tok2]"
      "cy_token crypto tok1 \<notin> rt_tokenHash ` set (ad_tokens db)" "cy_token crypto tok2 \<notin> rt_tokenHash ` set (ad_tokens db)"
    and first: "rotateRefreshToken config crypto id now id1 tok1 db oldToken deviceId = (r1, db1)"
    and second: "rotateRefreshToken config crypto (\<lambda>_. db1) now id2 tok2 db oldToken deviceId = (r2, db2)"
  shows "r1 = Inr (u, tok1) \<and> r2 = Inr (u, tok2) \<and>
    validateRefreshToken crypto now db2 tok1 deviceId = Inr (u, id1) \<and>
    validateRefreshToken crypto now db2 tok2 deviceId = Inr (u, id2)"
proof -
  let ?revoke = "update_tokens (\<lambda>s. rt_id s = i) (\<lambda>s. s\<lparr>rt_revokedAt := Some now\<rparr>)"
  let ?row = "\<lambda>j tok. new_refresh_token config crypto now j tok u deviceId"
  have row: "i \<in> rt_id ` set (ad_tokens db)"
    using valid by (auto simp: validate_Inr_iff dest!: find_token_member)
  have one: "rotateRefreshToken config crypto id now id1 tok1 db oldToken deviceId =
    (Inr (u, tok1), (?revoke db)\<lparr>ad_tokens := ad_tokens (?revoke db) @ [?row id1 tok1]\<rparr>)"
    using rotate_succeeds [where others = id, OF valid] row user ids(2) hashes(2) by simp
  have r1: "r1 = Inr (u, tok1)" and db1: "db1 = (?revoke db)\<lparr>ad_tokens := ad_tokens (?revoke db) @ [?row id1 tok1]\<rparr>"
    using first unfolding one by simp_all
  have "map rt_id (ad_tokens (?revoke db)) = map rt_id (ad_tokens db)"
    "map rt_tokenHash (ad_tokens (?revoke db)) = map rt_tokenHash (ad_tokens db)"
    by (auto simp: update_tokens_def intro!: map_update_where)
  from arg_cong [OF this(1), of set] arg_cong [OF this(2), of set]
  have keys1: "rt_id ` set (ad_tokens db1) = insert id1 (rt_id ` set (ad_tokens db))"
    "rt_tokenHash ` set (ad_tokens db1) = insert (cy_token crypto tok1) (rt_tokenHash ` set (ad_tokens db))"
    unfolding db1 by (simp_all add: new_refresh_token_def)
  have user1: "find_user db1 u \<noteq> None" using user by (simp add: db1 find_user_def update_tokens_def)
  have i: "i \<noteq> id1" using row ids(2) by blast
  have two: "rotateRefreshToken config crypto (\<lambda>_. db1) now id2 tok2 db oldToken deviceId =
    (Inr (u, tok2), (?revoke db1)\<lparr>ad_tokens := ad_tokens (?revoke db1) @ [?row id2 tok2]\<rparr>)"
    by (rule rotate_succeeds [OF valid]) (use user1 row ids hashes in \<open>simp_all add: keys1\<close>)
  have none: "find_token crypto db tok1 = None" "find_token crypto db tok2 = None"
    using hashes(2,3) by (force simp: find_token_def find_None_iff)+
  have db2: "r2 = Inr (u, tok2)" "db2 = (?revoke db1)\<lparr>ad_tokens := ad_tokens (?revoke db1) @ [?row id2 tok2]\<rparr>"
    using second unfolding two by simp_all
  have "find_token crypto db1 tok1 = Some (?row id1 tok1)" "find_token crypto db1 tok2 = None"
    unfolding db1 find_token_appended find_revoked_by_id using none hashes(1) by (simp_all add: new_refresh_token_def)
  then have "find_token crypto db2 tok1 = Some (?row id1 tok1)" "find_token crypto db2 tok2 = Some (?row id2 tok2)"
    unfolding db2 find_token_appended find_revoked_by_id using i by (simp_all add: new_refresh_token_def)
  then show ?thesis
    using r1 db2(1) days by (simp add: validate_Inr_iff) (simp add: new_refresh_token_def device_fits_def nonempty_def)
qed

lemma overlapping_rotation_witness:
  "fst (rotateRefreshToken Map.empty example_crypto
      (\<lambda>_. snd (rotateRefreshToken Map.empty example_crypto id 5 ''t1'' ''new'' example_auth ''old'' None))
      5 ''t2'' ''newer'' example_auth ''old'' None) = Inr (''u1'', ''newer'')"
proof -
  let ?first = "rotateRefreshToken Map.empty example_crypto id 5 ''t1'' ''new'' example_auth ''old'' None"
  let ?second = "rotateRefreshToken Map.empty example_crypto (\<lambda>_. snd ?first) 5 ''t2'' ''newer'' example_auth ''old'' None"
  have valid: "validateRefreshToken example_crypto 5 example_auth ''old'' None = Inr (''u1'', ''t0'')" by code_simp
  have setting: "token_keys example_auth" "0 \<le> getRefreshTokenExpiresDays Map.empty" "find_user example_auth ''u1'' \<noteq> None"
    by (simp_all add: token_keys_def example_auth_def getRefreshTokenExpiresDays_def or_else_def find_user_def example_user_def)
  have ids: "distinct [''t1'', ''t2'']" "''t1'' \<notin> rt_id ` set (ad_tokens example_auth)"
    "''t2'' \<notin> rt_id ` set (ad_tokens example_auth)"
    by (simp_all add: example_auth_def example_token_def)
  have hashes: "distinct [cy_token example_crypto ''new'', cy_token example_crypto ''newer'']"
    "cy_token example_crypto ''new'' \<notin> rt_tokenHash ` set (ad_tokens example_auth)"
    "cy_token example_crypto ''newer'' \<notin> rt_tokenHash ` set (ad_tokens example_auth)"
    by (simp_all add: example_auth_def example_token_def example_crypto_def)
  show ?thesis
    using overlapping_rotation [OF setting(1,2) valid setting(3) ids hashes surjective_pairing surjective_pairing] by blast
qed

section \<open>One-time codes\<close>

text \<open>
  C23. Along any sequence of requests and checks that do not overlap, a challenge is compared with at
  most as many wrong codes as the settings allow, and is accepted at most once.
\<close>

lemma otp_guesses_bounded:
  assumes "distinct (map oc_id (ad_otps db) @ drawn calls)" and "list_all (\<lambda>c. 0 \<le> oc_attemptCount c) (ad_otps db)"
  shows "length (filter ((=) (i, False)) (guesses config crypto db calls)) \<le> nat (getOtpMaxAttempts config) \<and>
    length (filter ((=) (i, True)) (guesses config crypto db calls)) \<le> 1"
proof -
  have "0 \<le> oc_attemptCount c" if "find_challenge db i = Some c" for c
    using assms(2) that by (auto simp: find_challenge_def find_Some_iff list_all_length)
  then have "remaining config db i \<le> max 0 (getOtpMaxAttempts config)"
    by (auto simp: remaining_def split: option.split)
  then show ?thesis using guesses_budget [OF assms(1), of i config crypto] by (auto split: if_splits)
qed

definition wrong_checks :: "code_call list" where
  "wrong_checks = replicate 10 (Check_Code OTP_LOGIN ''0911223344'' ''9999'' 5)"

lemma otp_guesses_bounded_witness:
  "length (filter ((=) (''c1'', False)) (guesses Map.empty example_crypto example_auth wrong_checks)) \<le> 8 \<and>
   length (guesses Map.empty example_crypto example_auth wrong_checks) = 8"
proof -
  have "drawn wrong_checks = []" by code_simp
  then have "distinct (map oc_id (ad_otps example_auth) @ drawn wrong_checks)"
    "list_all (\<lambda>c. 0 \<le> oc_attemptCount c) (ad_otps example_auth)"
    by (simp_all add: example_auth_def example_challenge_def)
  moreover have "length (guesses Map.empty example_crypto example_auth wrong_checks) = 8" by code_simp
  ultimately show ?thesis
    using otp_guesses_bounded [of example_auth wrong_checks "''c1''" Map.empty example_crypto]
    by (simp add: getOtpMaxAttempts_def or_else_def)
qed

text \<open>
  C29. The number of attempts is looked at when the challenge is read and counted after the comparison:
  checks that overlap are all compared, however many they are, so the limit does not bound them; and a
  right code that is checked twice at the same time is accepted twice.
\<close>

lemma overlapping_guesses:
  assumes "open_challenge config now db phone purpose c" and "distinct (map oc_id (ad_otps db))"
    and "list_all (\<lambda>otp. OTP_DIGITS_PATTERN (js_trim otp) \<and> \<not> cy_compare crypto (js_trim otp) (oc_codeHash c)) otps"
    and "OTP_DIGITS_PATTERN (js_trim right)" and "cy_compare crypto (js_trim right) (oc_codeHash c)"
  shows "map_option oc_attemptCount (find_challenge (overlapping config crypto now phone purpose otps db) (oc_id c)) =
      Some (oc_attemptCount c + int (length otps)) \<and>
    fst (verifyOtpOrThrow config crypto (overlapping config crypto now phone purpose (right # otps)) now db phone right purpose) = Inr () \<and>
    fst (verifyOtpOrThrow config crypto (overlapping config crypto now phone purpose otps) now db phone right purpose) = Inr ()"
  using overlapping_counts [OF assms(1-3)] open_compared [OF assms(1,4)] assms(5)
  by (simp add: verifyOtp_compared)

lemma overlapping_guesses_witness:
  "map_option oc_attemptCount (find_challenge
     (overlapping Map.empty example_crypto 5 ''0911223344'' OTP_LOGIN (replicate 100 ''9999'') example_auth) ''c1'') = Some 100"
proof -
  have "current_challenge example_auth (normalizeEthiopianPhone ''0911223344'') OTP_LOGIN = Some example_challenge"
    unfolding normalizeEthiopianPhone_def digitsOnly_def
    by (simp add: current_challenge_def example_auth_def example_challenge_def)
  then have o: "open_challenge Map.empty 5 example_auth ''0911223344'' OTP_LOGIN example_challenge"
    by (simp add: open_challenge_def example_challenge_def getOtpMaxAttempts_def or_else_def)
  have codes: "OTP_DIGITS_PATTERN (js_trim ''9999'')" "\<not> cy_compare example_crypto (js_trim ''9999'') (oc_codeHash example_challenge)"
    "OTP_DIGITS_PATTERN (js_trim ''1234'')" "cy_compare example_crypto (js_trim ''1234'') (oc_codeHash example_challenge)"
    by code_simp+
  have "distinct (map oc_id (ad_otps example_auth))" by (simp add: example_auth_def)
  moreover have "list_all (\<lambda>otp. OTP_DIGITS_PATTERN (js_trim otp) \<and>
      \<not> cy_compare example_crypto (js_trim otp) (oc_codeHash example_challenge)) (replicate 100 ''9999'')"
    using codes(1,2) by (simp add: list_all_iff)
  ultimately show ?thesis
    using overlapping_guesses [OF o _ _ codes(3,4), of "replicate 100 ''9999''"] by (simp add: example_challenge_def)
qed

section \<open>The welcome bonus\<close>

text \<open>
  C22. Whatever the interleaving of logins and registrations: a user is granted the welcome bonus at
  most once, a device brings it to one user at most, and the bonus cartelas of a wallet rise by
  exactly what its user was granted.
\<close>

lemma welcome_bonus_once:
  assumes "bonus_run db db'" and "grant_keys (ad_grants db)"
  shows "granted db' u \<in> {0, WELCOME_BONUS_CARTELAS_WHEN_ENABLED} \<and>
    length (filter (device_award d) (ad_grants db')) \<le> 1 \<and>
    bonus_balance db' u - bonus_balance db u = granted db' u - granted db u"
proof -
  have s: "welcome_step db db'" by (rule bonus_run_step [OF assms(1)])
  then have keys: "grant_keys (ad_grants db')" using assms(2) by (simp add: welcome_step_def)
  have "bonus_balance db' u - granted db' u = bonus_balance db u - granted db u" using s by (simp add: welcome_step_def)
  then have "bonus_balance db' u - bonus_balance db u = granted db' u - granted db u" by (simp add: algebra_simps)
  then show ?thesis using granted_values [OF keys] device_awards [OF keys] by blast
qed

definition bonus_login :: "auth_db \<Rightarrow> auth_db" where
  "bonus_login db = snd (applyWelcomeBonusIfEligible True id db example_user (Some ''phone''))"

lemma welcome_bonus_once_witness:
  "bonus_balance (bonus_login (bonus_login example_auth)) ''u1'' = 10 \<and>
   bonus_balance (bonus_login (bonus_login example_auth)) ''u1'' - bonus_balance example_auth ''u1'' =
     granted (bonus_login (bonus_login example_auth)) ''u1'' - granted example_auth ''u1''"
proof -
  have login: "bonus_run db (bonus_login db')" if "bonus_run db db'" for db db'
    unfolding bonus_login_def by (rule run_login [OF that]) (simp add: run_none)
  have "bonus_run example_auth (bonus_login (bonus_login example_auth))"
    by (intro login run_none)
  moreover have "grant_keys (ad_grants example_auth)" by (simp add: grant_keys_def example_auth_def)
  moreover have "bonus_balance (bonus_login (bonus_login example_auth)) ''u1'' = 10" by code_simp
  ultimately show ?thesis using welcome_bonus_once by blast
qed

section \<open>Login and registration\<close>

text \<open>
  C25. A login that is answered was made with the password of an account that has the number in one of
  its spellings and is not blocked; the access token is signed for that user, the password is not in
  the answer, and the refresh token of the answer is accepted for that user.
\<close>

lemma login_sound:
  assumes "login config crypto enabled others now ch db phone password deviceId = (Inr a, db')"
    and "0 \<le> getRefreshTokenExpiresDays config"
  shows "\<exists>user hash number role. findUserByPhone db (normalizePhoneNumber phone) = Some user \<and>
    us_status user \<noteq> USER_BLOCKED \<and> us_password user = Some hash \<and> cy_compare crypto password hash \<and>
    us_id (an_user a) = us_id user \<and> us_password (an_user a) = None \<and>
    an_accessToken a = cy_sign crypto (us_id user, number, role) \<and>
    validateRefreshToken crypto now db' (an_refreshToken a) deviceId = Inr (us_id user, ch_tokenId ch)"
proof -
  obtain user where user: "findUserByPhone db (normalizePhoneNumber phone) = Some user"
    using assms(1) by (cases "findUserByPhone db (normalizePhoneNumber phone)") (simp_all add: login_def)
  obtain hash where hash: "nonempty (us_password user) = Some hash"
    using assms(1) user by (cases "nonempty (us_password user)") (simp_all add: login_def)
  then have stored: "us_password user = Some hash" by (auto simp: nonempty_def split: if_splits)
  have checked: "us_status user \<noteq> USER_BLOCKED" "cy_compare crypto password hash"
    "authenticated config crypto enabled others now ch db user deviceId = (Inr a, db')"
    using assms(1) by (simp_all add: login_def user hash split: if_splits)
  show ?thesis
    using user stored checked(1,2) authenticated_Inr [OF checked(3) assms(2)] by blast
qed

definition example_choices :: auth_choices where
  "example_choices = \<lparr>ch_userId = ''u2'', ch_walletId = ''w2'', ch_tokenId = ''t1'', ch_token = ''new'', ch_salt = ''s:''\<rparr>"

lemma login_sound_witness:
  "\<exists>a db'. login Map.empty example_crypto True id 5 example_choices example_auth ''0911223344'' ''secret'' (Some ''phone'') = (Inr a, db') \<and>
     us_id (an_user a) = ''u1'' \<and> an_awarded a = 10 \<and>
     validateRefreshToken example_crypto 5 db' (an_refreshToken a) (Some ''phone'') = Inr (''u1'', ''t1'')"
proof -
  let ?out = "login Map.empty example_crypto True id 5 example_choices example_auth ''0911223344'' ''secret'' (Some ''phone'')"
  have ok: "(case fst ?out of Inl e \<Rightarrow> False | Inr a \<Rightarrow> us_id (an_user a) = ''u1'' \<and> an_awarded a = 10)" by code_simp
  then obtain a where a: "fst ?out = Inr a" "us_id (an_user a) = ''u1''" "an_awarded a = 10" by (auto split: sum.splits)
  then have out: "?out = (Inr a, snd ?out)" by (simp add: prod_eq_iff)
  have "0 \<le> getRefreshTokenExpiresDays Map.empty" by (simp add: getRefreshTokenExpiresDays_def or_else_def)
  from login_sound [OF out this] have
    "validateRefreshToken example_crypto 5 (snd ?out) (an_refreshToken a) (Some ''phone'') = Inr (''u1'', ''t1'')"
    using a(2) by (auto simp: example_choices_def)
  then show ?thesis using out a by blast
qed

text \<open>
  C24. A registration that is answered had its code accepted, and leaves one new account, an active
  player, for a number no account had, with an empty wallet but for the bonus cartelas it was awarded,
  and with a refresh token that is accepted.
\<close>

lemma registration_creates_account:
  assumes "register config crypto enabled others now ch db dto = (Inr (a, denied), db')"
    and "0 \<le> getRefreshTokenExpiresDays config"
  defines "phone \<equiv> normalizePhoneNumber (re_phoneNumber dto)"
  defines "user \<equiv> new_user now (ch_userId ch) (re_fullName dto) phone (cy_hash crypto (ch_salt ch) (re_password dto))"
  shows "\<exists>db1. verifyRegistrationOtp config crypto id now db phone (re_otp dto) = (Inr (), db1) \<and>
    ad_users db' = ad_users (others db1) @ [user] \<and> phone \<notin> us_phoneNumber ` set (ad_users (others db1)) \<and>
    us_role user = PLAYER \<and> us_status user = USER_ACTIVE \<and> an_user a = user\<lparr>us_password := None\<rparr> \<and>
    db_wallets (ad_wallet db') (us_id user) = Some \<lparr>wa_id = ch_walletId ch, wa_userId = us_id user, wa_balance = 0,
      wa_lockedBalance = 0, wa_bonusCartelaBalance = an_awarded a\<rparr> \<and>
    validateRefreshToken crypto now db' (an_refreshToken a) (device_of (re_deviceId dto)) = Inr (us_id user, ch_tokenId ch)"
proof -
  let ?hash = "cy_hash crypto (ch_salt ch) (re_password dto)" and ?device = "device_of (re_deviceId dto)"
  obtain db1 where otp: "verifyRegistrationOtp config crypto id now db phone (re_otp dto) = (Inr (), db1)"
    using assms(1) by (auto simp: register_def phone_def Let_def split: prod.splits sum.splits)
  obtain v b den db2 where reg: "register_user enabled others now ch phone ?device dto ?hash db1 = (Inr (v, b, den), db2)"
    using assms(1) otp by (auto simp: register_def phone_def Let_def split: prod.splits sum.splits)
  obtain access refresh db3 where pair: "createTokenPair config crypto now ch db2 v ?device = (Inr (access, refresh), db3)"
    using assms(1) otp reg by (auto simp: register_def phone_def Let_def split: prod.splits sum.splits)
  have a: "a = \<lparr>an_accessToken = access, an_refreshToken = refresh, an_user = v\<lparr>us_password := None\<rparr>, an_awarded = b\<rparr>" "db' = db3"
    using assms(1) otp reg pair by (simp_all add: register_def phone_def Let_def)
  from register_user_Inr [OF reg] obtain dba dbb reason where v: "v = user" and c: "create_user v (others db1) = (Inr (), dba)"
    and d: "registration_bonus enabled (us_id v) phone ?device dba = (Inr (b, reason), dbb)"
    and w: "create_wallet (ch_walletId ch) (us_id v) b dbb = (Inr (), db2)" unfolding user_def by blast
  from createTokenPair_Inr [OF pair] obtain till where t: "refresh = ch_token ch"
    "createRefreshToken config crypto now (ch_tokenId ch) (ch_token ch) db2 (us_id v) ?device = (Inr (ch_token ch, till), db3)" by blast
  have users: "ad_users db3 = ad_users (others db1) @ [user]" "us_phoneNumber user \<notin> us_phoneNumber ` set (ad_users (others db1))"
    using create_user_row [OF c] registration_bonus_users [OF d] create_wallet_row [OF w] createRefreshToken_rest [OF t(2)] v by simp_all
  have wallet: "db_wallets (ad_wallet db3) (us_id user) = Some \<lparr>wa_id = ch_walletId ch, wa_userId = us_id user, wa_balance = 0,
      wa_lockedBalance = 0, wa_bonusCartelaBalance = b\<rparr>"
    using create_wallet_row [OF w] createRefreshToken_rest [OF t(2)] v by simp
  have fields: "us_phoneNumber user = phone" "us_role user = PLAYER" "us_status user = USER_ACTIVE"
    by (simp_all add: user_def new_user_def)
  show ?thesis
    using otp users wallet created_token [OF t(2) assms(2)] fields a v t(1) by (intro exI [of _ db1]) simp
qed

definition example_registration :: auth_db where
  "example_registration = example_auth\<lparr>ad_otps := [example_challenge\<lparr>oc_phoneNumber := ''251922334455'', oc_purpose := OTP_REGISTER\<rparr>]\<rparr>"

definition example_dto :: register_dto where
  "example_dto = \<lparr>re_fullName = ''Sara'', re_phoneNumber = ''0922334455'', re_password = ''pw'', re_otp = ''1234'', re_deviceId = Some ''phone''\<rparr>"

lemma registration_creates_account_witness:
  "\<exists>a denied db'. register Map.empty example_crypto True id 5 example_choices example_registration example_dto = (Inr (a, denied), db') \<and>
     an_awarded a = 10 \<and> map_option wa_bonusCartelaBalance (db_wallets (ad_wallet db') ''u2'') = Some 10"
proof -
  let ?out = "register Map.empty example_crypto True id 5 example_choices example_registration example_dto"
  have ok: "(case fst ?out of Inl e \<Rightarrow> False | Inr (a, denied) \<Rightarrow> an_awarded a = 10)" by code_simp
  then obtain a denied where a: "fst ?out = Inr (a, denied)" "an_awarded a = 10" by (auto split: sum.splits)
  then have out: "?out = (Inr (a, denied), snd ?out)" by (simp add: prod_eq_iff)
  have "0 \<le> getRefreshTokenExpiresDays Map.empty" by (simp add: getRefreshTokenExpiresDays_def or_else_def)
  from registration_creates_account [OF out this] have
    "map_option wa_bonusCartelaBalance (db_wallets (ad_wallet (snd ?out)) ''u2'') = Some 10"
    using a(2) by (auto simp: example_choices_def new_user_def)
  then show ?thesis using out a by blast
qed

section \<open>Passwords\<close>

text \<open>
  A change of an administrator's password that goes through was asked for with the current
  password of an administrator who is not blocked, sets the new one, and ends every session of that
  user. A reset by code leaves every refresh token as it was: the sessions opened with the old
  password go on.
\<close>

lemma password_changes:
  assumes "changeAdminPassword crypto now salt db userId currentPassword newPassword = (Inr (), db')"
  shows "(\<exists>user hash. find_user db userId = Some user \<and> us_role user = ADMIN \<and> us_status user \<noteq> USER_BLOCKED \<and>
      us_password user = Some hash \<and> cy_compare crypto currentPassword hash \<and> newPassword \<noteq> currentPassword \<and>
      find_user db' userId = Some (user\<lparr>us_password := Some (cy_hash crypto salt newPassword)\<rparr>)) \<and>
    validateRefreshToken crypto later db' token deviceId \<noteq> Inr (userId, i) \<and>
    ad_tokens (snd (resetPassword config crypto id now salt db phone otp newPassword)) = ad_tokens db"
proof -
  obtain user where user: "find_user db userId = Some user"
    using assms by (cases "find_user db userId") (simp_all add: changeAdminPassword_def)
  obtain hash where hash: "nonempty (us_password user) = Some hash"
    using assms user by (cases "nonempty (us_password user)") (simp_all add: changeAdminPassword_def split: if_splits)
  then have stored: "us_password user = Some hash" by (auto simp: nonempty_def split: if_splits)
  have id: "us_id user = userId" by (rule find_user_id [OF user])
  let ?db = "update_user userId (\<lambda>u. u\<lparr>us_password := Some (cy_hash crypto salt newPassword)\<rparr>) db"
  have checked: "us_role user = ADMIN" "us_status user \<noteq> USER_BLOCKED" "cy_compare crypto currentPassword hash"
    "newPassword \<noteq> currentPassword" "db' = revokeAllUserRefreshTokens now userId None ?db"
    using assms by (simp_all add: changeAdminPassword_def user hash id split: if_splits)
  have "find_user db' userId = find_user ?db userId"
    by (simp add: checked(5) find_user_def revokeAllUserRefreshTokens_def update_tokens_def)
  then have changed: "find_user db' userId = Some (user\<lparr>us_password := Some (cy_hash crypto salt newPassword)\<rparr>)"
    by (simp add: find_user_updated user)
  have ended: "validateRefreshToken crypto later db' token deviceId \<noteq> Inr (userId, i)"
  proof (cases "find_token crypto ?db token")
    case None
    then show ?thesis
      by (simp add: checked(5) revokeAllUserRefreshTokens_def find_update_tokens validateRefreshToken_def)
  next
    case (Some t)
    then show ?thesis
      by (auto simp: validate_Inr_iff checked(5) revokeAllUserRefreshTokens_def find_update_tokens nonempty_def split: if_splits)
  qed
  have "ad_tokens (snd (resetPassword config crypto id now salt db phone otp newPassword)) = ad_tokens db"
    using verify_rest [of config crypto now db "normalizePhoneNumber phone" otp OTP_PASSWORD_RESET]
    by (auto simp: resetPassword_def verifyPasswordResetOtp_def update_user_def Let_def split: prod.splits sum.splits option.splits)
  then show ?thesis using user stored checked(1-4) changed ended by blast
qed

definition example_admin :: auth_db where
  "example_admin = example_auth\<lparr>ad_users := [example_user\<lparr>us_role := ADMIN\<rparr>]\<rparr>"

lemma password_changes_witness:
  "\<exists>db'. changeAdminPassword example_crypto 5 ''s:'' example_admin ''u1'' ''secret'' ''other'' = (Inr (), db') \<and>
     validateRefreshToken example_crypto 6 db' ''old'' None \<noteq> Inr (''u1'', ''t0'')"
proof -
  let ?out = "changeAdminPassword example_crypto 5 ''s:'' example_admin ''u1'' ''secret'' ''other''"
  have "fst ?out = Inr ()" by code_simp
  then have out: "?out = (Inr (), snd ?out)" by (simp add: prod_eq_iff)
  then show ?thesis using password_changes [OF out] by blast
qed

section \<open>Phone numbers\<close>

text \<open>
  Normalizing a number twice changes nothing; for a mobile number, the local spelling leads back
  to the same number, and a user is looked up under both spellings whichever was typed.
\<close>

lemma phone_forms:
  "normalizeEthiopianPhone (normalizeEthiopianPhone s) = normalizeEthiopianPhone s \<and>
   (ETHIO_TELECOM_MOBILE (normalizeEthiopianPhone s) \<longrightarrow>
    normalizeEthiopianPhone (toLocalEthiopianPhone (normalizeEthiopianPhone s)) = normalizeEthiopianPhone s \<and>
    ethiopianPhoneLookupVariants s = [normalizeEthiopianPhone s, toLocalEthiopianPhone (normalizeEthiopianPhone s)] \<and>
    ethiopianPhoneLookupVariants (toLocalEthiopianPhone (normalizeEthiopianPhone s)) = ethiopianPhoneLookupVariants s)"
  using mobile_local [of "normalizeEthiopianPhone s"] normalize_idem [of s]
  by (auto simp: ethiopianPhoneLookupVariants_def Let_def)

lemma phone_forms_witness:
  "normalizeEthiopianPhone (toLocalEthiopianPhone (normalizeEthiopianPhone ''0911-22 33 44'')) =
   normalizeEthiopianPhone ''0911-22 33 44''"
proof -
  have "ETHIO_TELECOM_MOBILE (normalizeEthiopianPhone ''0911-22 33 44'')" by code_simp
  then show ?thesis using phone_forms [of "''0911-22 33 44''"] by blast
qed

end
