(* ===== verification/AutoStartFacts.thy ===== *)
theory AutoStartFacts
  imports GameRuns
begin

text \<open>
  What the clock achieves: an ordinary game that is due starts when the engine admits it and otherwise
  stays due, and a Big Game that is due never starts.
\<close>

section \<open>Lists\<close>

lemma sort_by_least:
  assumes "x \<in> set xs" "cmp x x \<le> 0" "\<And>y. y \<in> set xs \<Longrightarrow> y \<noteq> x \<Longrightarrow> cmp x y \<le> 0 \<and> 0 < cmp y x"
  shows "\<exists>ys. sort_by cmp xs = x # ys"
  using assms(1,3)
proof (induction xs)
  case (Cons a xs)
  have unfold: "sort_by cmp (a # xs) = insert_by cmp a (sort_by cmp xs)" by (simp add: sort_by_def)
  show ?case
  proof (cases "a = x")
    case True
    show ?thesis
    proof (cases "sort_by cmp xs")
      case (Cons z zs)
      then have "z \<in> set xs" using set_sort_by [of cmp xs] by auto
      then have "cmp x z \<le> 0" using Cons.prems(2) [of z] assms(2) by auto
      then show ?thesis unfolding unfold using True Cons by simp
    next
      case Nil
      then show ?thesis unfolding unfold using True by simp
    qed
  next
    case False
    then obtain ys where "sort_by cmp xs = x # ys" using Cons by auto
    moreover have "0 < cmp a x" using Cons.prems(2) [of a] False by simp
    ultimately show ?thesis unfolding unfold by simp
  qed
qed simp

section \<open>The claim of a due session\<close>

lemma find_session_scheduled:
  "find_session (snd (update_sessions now P (set_start t) db)) i =
   map_option (\<lambda>s. if P s then (set_start t s)\<lparr>gs_updatedAt := now\<rparr> else s) (find_session db i)"
proof -
  have "find (\<lambda>s. gs_id s = i) (update_where P (\<lambda>s. (set_start t s)\<lparr>gs_updatedAt := now\<rparr>) xs) =
    map_option (\<lambda>s. if P s then (set_start t s)\<lparr>gs_updatedAt := now\<rparr> else s) (find (\<lambda>s. gs_id s = i) xs)" for xs
    by (induction xs) (auto simp: update_where_def set_start_def)
  then show ?thesis by (simp add: find_session_def update_sessions_def)
qed

lemma scheduled_tables [simp]:
  "gd_slots (snd (update_sessions now P (set_start t) db)) = gd_slots db"
  "gd_cartelas (snd (update_sessions now P (set_start t) db)) = gd_cartelas db"
  "statuses (snd (update_sessions now P (set_start t) db)) = statuses db"
  by (simp_all add: update_sessions_def) (simp add: statuses_def map_update_where set_start_def)

lemma blocking_statuses: "hasBlockingSession db = list_ex (live \<circ> snd) (statuses db)"
  by (simp add: hasBlockingSession_def statuses_def list_ex_iff)

lemma scheduled_views [simp]:
  "hasBlockingSession (snd (update_sessions now P (set_start t) db)) = hasBlockingSession db"
  "has_players (snd (update_sessions now P (set_start t) db)) i = has_players db i"
  "find_slot (snd (update_sessions now P (set_start t) db)) k = find_slot db k"
  by (simp_all add: blocking_statuses has_players_def find_slot_def)

lemma scheduled_keys [simp]:
  "keys_ok (snd (update_sessions now P (set_start t) db)) = keys_ok db"
proof -
  let ?db = "snd (update_sessions now P (set_start t) db)"
  have m: "map gs_id (gd_sessions ?db) = map gs_id (gd_sessions db)" "map gs_slotId (gd_sessions ?db) = map gs_slotId (gd_sessions db)"
    by (simp_all add: update_sessions_def map_update_where set_start_def)
  have s: "gs_id ` set (gd_sessions ?db) = gs_id ` set (gd_sessions db)" "gs_slotId ` set (gd_sessions ?db) = gs_slotId ` set (gd_sessions db)"
    using arg_cong [OF m(1), of set] arg_cong [OF m(2), of set] by (simp_all only: set_map)
  have rest: "gd_slots ?db = gd_slots db" "gd_cartelas ?db = gd_cartelas db" "gd_claims ?db = gd_claims db"
    "gd_numbers ?db = gd_numbers db" "paid ?db = paid db"
    by (simp_all add: update_sessions_def paid_def)
  show ?thesis unfolding keys_ok_def m s rest ..
qed

lemma claim_count:
  assumes "keys_ok db" "find_session db i = Some s" "gs_status s = READY" "start_due now s"
  shows "fst (claim_start now i db) = 1"
proof -
  let ?P = "\<lambda>s. gs_id s = i \<and> gs_status s = READY \<and> start_due now s"
  have s: "s \<in> set (gd_sessions db)" "gs_id s = i"
    using find_session_iff [OF assms(1)] assms(2) by blast+
  have "count_where ?P (gd_sessions db) \<le> 1"
    using assms(1) by (intro count_where_key [where key = gs_id and k = i]) (auto simp: keys_ok_def)
  moreover have "0 < count_where ?P (gd_sessions db)"
    unfolding count_where_pos using s assms(3,4) by blast
  ultimately show ?thesis by (simp add: claim_start_def update_sessions_def)
qed

text \<open>A session in the way of which nothing stands, its slot and the claimed row.\<close>

definition due_session :: "int \<Rightarrow> game_db \<Rightarrow> string \<Rightarrow> session_row \<Rightarrow> slot_row \<Rightarrow> bool" where
  "due_session now db i s slot \<longleftrightarrow>
     keys_ok db \<and> \<not> hasBlockingSession db \<and> has_players db i \<and> find_session db i = Some s \<and>
     gs_status s = READY \<and> start_due now s \<and> find_slot db (gs_slotId s) = Some slot \<and>
     (\<forall>x\<in>set (gd_sessions db). gs_slotId x = gs_slotId s \<and> gs_status x = READY \<longrightarrow> gs_id x = i)"

lemma due_session_claimed:
  assumes "due_session now db i s slot" "sl_category slot = BIG_GAME \<or> sl_operationMode slot = AUTO"
  shows "processDueSession cfg now sv (id, id) i slotId db =
    (Inr True, start_due_session cfg now sv i slotId (sl_operationMode slot = AUTO) (snd (claim_start now i db)))"
proof -
  have d: "keys_ok db" "\<not> hasBlockingSession db" "has_players db i" "find_session db i = Some s"
    "gs_status s = READY" "start_due now s" "find_slot db (gs_slotId s) = Some slot"
    using assms(1) by (simp_all add: due_session_def)
  have id: "gs_id s = i" using find_session_iff [OF d(1)] d(4) by blast
  have f: "find_session (snd (claim_start now i db)) i = Some ((set_start None s)\<lparr>gs_updatedAt := now\<rparr>)"
    using d(4-6) id by (simp add: claim_start_def find_session_scheduled)
  have sl: "slot_of (snd (claim_start now i db)) ((set_start None s)\<lparr>gs_updatedAt := now\<rparr>) = Some slot"
    using d(7) by (simp add: slot_of_def set_start_def claim_start_def)
  have p: "has_players (snd (claim_start now i db)) i" using d(3) by (simp add: claim_start_def)
  show ?thesis
    using assms(2) d(2) f sl p claim_count [OF d(1,4,5,6)]
    by (auto simp: processDueSession_def Let_def case_prod_beta isBigGameCategory_def)
qed

section \<open>A Big Game\<close>

lemma claimed_start:
  assumes "due_session now db i s slot"
  shows "ready_start (snd (claim_start now i db)) slot = None"
proof -
  let ?db = "snd (claim_start now i db)"
  have "sl_id slot = gs_slotId s"
    using assms by (auto simp: due_session_def find_slot_def find_Some_iff)
  moreover have "gs_scheduledStartAt x = None"
    if x: "x \<in> set (gd_sessions ?db)" "gs_slotId x = gs_slotId s" "gs_status x = READY" for x
  proof -
    obtain y where y: "y \<in> set (gd_sessions db)"
      "x = (if gs_id y = i \<and> gs_status y = READY \<and> start_due now y then (set_start None y)\<lparr>gs_updatedAt := now\<rparr> else y)"
      using x(1) by (auto simp: claim_start_def update_sessions_def update_where_def)
    then have "gs_slotId y = gs_slotId s" "gs_status y = READY" using x(2,3) by (auto simp: set_start_def split: if_splits)
    then have i: "gs_id y = i" using assms y(1) by (auto simp: due_session_def)
    then have "find_session db i = Some y" using find_session_iff [of db i y] y(1) assms by (simp add: due_session_def)
    then have "y = s" using assms by (simp add: due_session_def)
    then show ?thesis using y(2) i assms by (simp add: due_session_def set_start_def)
  qed
  ultimately have none: "gs_scheduledStartAt x = None"
    if "x \<in> set (filter (\<lambda>x. gs_slotId x = sl_id slot \<and> gs_status x = READY) (gd_sessions ?db))" for x
    using that by simp
  show ?thesis
  proof (cases "rev (filter (\<lambda>x. gs_slotId x = sl_id slot \<and> gs_status x = READY) (gd_sessions ?db))")
    case (Cons x xs)
    then have "x \<in> set (rev (filter (\<lambda>x. gs_slotId x = sl_id slot \<and> gs_status x = READY) (gd_sessions ?db)))" by simp
    then show ?thesis using none [of x] Cons unfolding ready_start_def set_rev by simp
  qed (simp add: ready_start_def)
qed

lemma unscheduled_big_game_refused:
  assumes "keys_ok db" "find_slot db slotId = Some slot" "sl_category slot = BIG_GAME" "ready_start db slot = None"
  shows "\<exists>e. assertSlotReady now db slotId = Inl e"
proof -
  let ?cands = "filter (\<lambda>s. sl_status s = NEXT \<or> sl_status s = READY) (gd_slots db)"
  let ?due = "filter (\<lambda>s. isDueBigGameReady (Some (sl_category s)) (Some READY) (ready_start db s) now) ?cands"
  have none: "sl_id x \<noteq> slotId" if "x \<in> set ?due" for x
  proof
    assume "sl_id x = slotId"
    moreover have "distinct (map sl_id (gd_slots db))" using keys_okD(1) [OF assms(1)] .
    ultimately have "find_slot db slotId = Some x"
      using find_key [of sl_id "gd_slots db" x] that by (simp add: find_slot_def)
    then show False using that assms(2,4) by (auto simp: isDueBigGameReady_def)
  qed
  have other: "sl_id x \<noteq> slotId" if "sort_by (due_cmp db) ?due = x # xs" for x xs
  proof (rule none)
    have "x \<in> set (sort_by (due_cmp db) ?due)" unfolding that by simp
    then show "x \<in> set ?due" by (simp only: set_sort_by)
  qed
  show ?thesis
  proof (cases "sl_status slot \<noteq> NEXT \<and> sl_status slot \<noteq> READY")
    case True
    then show ?thesis by (simp add: assertSlotReady_def assms(2))
  next
    case False
    note open_slot = False
    show ?thesis
    proof (cases "sort_by (due_cmp db) ?due")
      case Nil
      then show ?thesis
        using open_slot unfolding assertSlotReady_def Let_def assms(2) by (simp add: assms(3) isBigGameCategory_def)
    next
      case (Cons x xs)
      then show ?thesis
        using open_slot other [OF Cons] unfolding assertSlotReady_def Let_def assms(2) by simp
    qed
  qed
qed

lemma refused_start:
  assumes "\<not> hasBlockingSession db" "find_slot db slotId = Some slot" "assertSlotReady now db slotId = Inl e"
  shows "startGame cfg now lockFree codes nextCodes slotId config db = (Inl e, db)"
proof -
  have none: "find (\<lambda>s. gs_slotId s = slotId \<and> live (gs_status s)) (gd_sessions db) = None"
    using assms(1) by (auto simp: hasBlockingSession_def list_ex_iff find_None_iff)
  have "\<not> list_ex (\<lambda>s. live (gs_status s)) (gd_sessions db)"
    using assms(1) by (simp add: hasBlockingSession_def)
  then have "start_session now codes slotId config db = Inl e"
    using assms(2,3) by (simp add: start_session_def)
  then show ?thesis using none by (simp add: startGame_def)
qed

text \<open>The claim and the retry together only move the countdown to the current instant.\<close>

lemma claim_and_retry:
  assumes "due_session now db i s slot"
  shows "retry_start now i (snd (claim_start now i db)) =
    snd (update_sessions now (\<lambda>x. gs_id x = i) (set_start (Some now)) db)"
proof -
  have only: "x = s" if "x \<in> set (gd_sessions db)" "gs_id x = i" for x
    using assms find_session_iff [of db i x] that by (simp add: due_session_def)
  have "update_where (\<lambda>x. gs_id x = i \<and> gs_status x = READY \<and> gs_scheduledStartAt x = None)
      (\<lambda>x. (set_start (Some now) x)\<lparr>gs_updatedAt := now\<rparr>)
      (update_where (\<lambda>x. gs_id x = i \<and> gs_status x = READY \<and> start_due now x)
        (\<lambda>x. (set_start None x)\<lparr>gs_updatedAt := now\<rparr>) (gd_sessions db)) =
    update_where (\<lambda>x. gs_id x = i) (\<lambda>x. (set_start (Some now) x)\<lparr>gs_updatedAt := now\<rparr>) (gd_sessions db)"
    unfolding update_where_def map_map
  proof (rule map_cong [OF refl])
    fix x assume x: "x \<in> set (gd_sessions db)"
    have "gs_status s = READY" "start_due now s" using assms by (simp_all add: due_session_def)
    then show "((\<lambda>x. if gs_id x = i \<and> gs_status x = READY \<and> gs_scheduledStartAt x = None
          then (set_start (Some now) x)\<lparr>gs_updatedAt := now\<rparr> else x) \<circ>
        (\<lambda>x. if gs_id x = i \<and> gs_status x = READY \<and> start_due now x
          then (set_start None x)\<lparr>gs_updatedAt := now\<rparr> else x)) x =
      (if gs_id x = i then (set_start (Some now) x)\<lparr>gs_updatedAt := now\<rparr> else x)"
      using only [OF x] by (cases "gs_id x = i") (simp_all add: set_start_def)
  qed
  then show ?thesis by (simp add: retry_start_def claim_start_def update_sessions_def)
qed

lemma big_game_turned_away:
  assumes "due_session now db i s slot" "sl_category slot = BIG_GAME"
  shows "processDueSession cfg now sv (id, id) i (gs_slotId s) db =
    (Inr True, snd (update_sessions now (\<lambda>x. gs_id x = i) (set_start (Some now)) db))"
proof -
  let ?db = "snd (claim_start now i db)"
  have d: "keys_ok ?db" "\<not> hasBlockingSession ?db" "find_slot ?db (gs_slotId s) = Some slot"
    using assms(1) by (simp_all add: due_session_def claim_start_def)
  obtain e where "assertSlotReady now ?db (gs_slotId s) = Inl e"
    using unscheduled_big_game_refused [OF d(1,3) assms(2) claimed_start [OF assms(1)]] by blast
  from refused_start [OF d(2,3) this] show ?thesis
    using due_session_claimed [OF assms(1)] assms(2) claim_and_retry [OF assms(1)]
    by (simp add: start_due_session_def)
qed

section \<open>Tick after tick\<close>

text \<open>The only \<open>READY\<close> Big Game has players and is due, and no game is live.\<close>

definition big_game_waits :: "int \<Rightarrow> game_db \<Rightarrow> string \<Rightarrow> bool" where
  "big_game_waits now db i \<longleftrightarrow>
     (\<exists>s slot. due_session now db i s slot \<and> sl_category slot = BIG_GAME \<and> sl_status slot \<noteq> CANCELLED) \<and>
     (\<forall>x\<in>set (gd_sessions db). gs_status x = READY \<and> gs_id x \<noteq> i \<longrightarrow> session_category db x \<noteq> Some BIG_GAME)"

lemma big_game_waits_later: "big_game_waits now db i \<Longrightarrow> now \<le> later \<Longrightarrow> big_game_waits later db i"
  unfolding big_game_waits_def due_session_def start_due_def by (fastforce split: option.splits)

lemma scheduled_row:
  assumes "x \<in> set (gd_sessions (snd (update_sessions now P (set_start t) db)))"
  obtains y where "y \<in> set (gd_sessions db)" "gs_id x = gs_id y" "gs_slotId x = gs_slotId y" "gs_status x = gs_status y"
  using assms by (auto simp: update_sessions_def update_where_def set_start_def)

lemma big_game_waits_scheduled:
  assumes w: "big_game_waits now db i"
    and t: "\<And>s. find_session db i = Some s \<Longrightarrow> P s \<Longrightarrow> start_due now (set_start t s)"
  shows "big_game_waits now (snd (update_sessions now P (set_start t) db)) i"
proof -
  let ?db = "snd (update_sessions now P (set_start t) db)"
  from w obtain s slot where d: "due_session now db i s slot" "sl_category slot = BIG_GAME" "sl_status slot \<noteq> CANCELLED"
    unfolding big_game_waits_def by blast
  let ?s = "if P s then (set_start t s)\<lparr>gs_updatedAt := now\<rparr> else s"
  have f: "find_session db i = Some s" "start_due now s" "gs_status s = READY" using d(1) by (simp_all add: due_session_def)
  have row: "gs_slotId ?s = gs_slotId s" "gs_status ?s = READY" "start_due now ?s"
    using f t [OF f(1)] by (simp_all add: set_start_def start_due_def)
  have only: "gs_id x = i" if "x \<in> set (gd_sessions ?db)" "gs_slotId x = gs_slotId s" "gs_status x = READY" for x
    using that(1) by (rule scheduled_row) (use that(2,3) d(1) in \<open>simp add: due_session_def\<close>)
  have "due_session now ?db i ?s slot"
    using d(1) row only by (simp add: due_session_def find_session_scheduled)
  moreover have "session_category ?db x \<noteq> Some BIG_GAME"
    if "x \<in> set (gd_sessions ?db)" "gs_status x = READY" "gs_id x \<noteq> i" for x
    using that(1)
  proof (rule scheduled_row)
    fix y assume "y \<in> set (gd_sessions db)" "gs_id x = gs_id y" "gs_slotId x = gs_slotId y" "gs_status x = gs_status y"
    moreover from this have "session_category ?db x = session_category db y"
      by (simp add: session_category_def slot_of_def)
    ultimately show ?thesis using w that(2,3) by (simp add: big_game_waits_def)
  qed
  ultimately show ?thesis using d(2,3) unfolding big_game_waits_def by blast
qed

lemma repair_keeps_waiting:
  assumes "big_game_waits now db i" and db1: "db1 = snd (repairAllMissingAutoReadyCountdowns cfg now db)"
  shows "big_game_waits now db1 i \<and> statuses db1 = statuses db"
proof -
  have due: "start_due now s" if "find_session db i = Some s" for s
    using assms(1) that by (auto simp: big_game_waits_def due_session_def)
  have free: "\<not> hasBlockingSession db"
    using assms(1) by (auto simp: big_game_waits_def due_session_def)
  have kept: "big_game_waits now (snd (update_sessions now
      (\<lambda>s. gs_id s = j \<and> gs_status s = READY \<and> gs_scheduledStartAt s = None \<and> slot_where db auto_slot s) (set_start t) db)) i" for j t
    by (rule big_game_waits_scheduled [OF assms(1)]) (use due in \<open>force simp: start_due_def\<close>)
  have "big_game_waits now (snd (ensureAutoReadySessionHasCountdown cfg now j db)) i \<and>
      statuses (snd (ensureAutoReadySessionHasCountdown cfg now j db)) = statuses db" for j
    using kept free assms(1) by (simp add: ensureAutoReadySessionHasCountdown_def Let_def case_prod_beta)
  then show ?thesis
    using assms(1) free
    by (simp add: db1 repairAllMissingAutoReadyCountdowns_def repairBlockedExpiredReadyCountdowns_def Let_def
        case_prod_beta split: list.split)
qed

lemma waiting_first:
  assumes "big_game_waits now db i"
  shows "\<exists>s slot rest. due_session now db i s slot \<and> sl_category slot = BIG_GAME \<and> prioritizedDueSessions now db = s # rest"
proof -
  from assms obtain s slot where d: "due_session now db i s slot" "sl_category slot = BIG_GAME"
    unfolding big_game_waits_def by blast
  have f: "find_session db i = Some s" "start_due now s" "gs_status s = READY" "keys_ok db"
    "find_slot db (gs_slotId s) = Some slot" using d(1) by (simp_all add: due_session_def)
  have s: "s \<in> set (gd_sessions db)" "gs_id s = i" using find_session_iff [OF f(4)] f(1) by blast+
  have cat: "session_category db s = Some BIG_GAME" using f(5) d(2) by (simp add: session_category_def slot_of_def)
  have big: "ready_priority db now s = 0"
    using f(2) cat by (simp add: ready_priority_def getRuntimeQueuePriority_def isDueBigGameReady_def isBigGameCategory_def start_due_def)
  have others: "ready_priority db now x = 2" if "x \<in> set (gd_sessions db)" "gs_status x = READY" "x \<noteq> s" for x
  proof -
    have "gs_id x \<noteq> i" using find_session_iff [OF f(4), of i x] f(1) that(1,3) by auto
    then have "session_category db x \<noteq> Some BIG_GAME" using assms that(1,2) by (simp add: big_game_waits_def)
    then show ?thesis
      by (simp add: ready_priority_def getRuntimeQueuePriority_def isDueBigGameReady_def isBigGameCategory_def)
  qed
  have "\<not> isStandardQueueCategory (session_category db s)"
    unfolding cat by (simp add: isStandardQueueCategory_def isBigGameCategory_def)
  then have "\<exists>rest. prioritizedDueSessions now db = s # rest"
    unfolding prioritizedDueSessions_def Let_def
    by (intro sort_by_least) (use s f(2,3) big others in \<open>auto simp: compareSortOrder_def\<close>)
  then show ?thesis using d by blast
qed

lemma tick_keeps_waiting:
  assumes "big_game_waits now db i"
  shows "big_game_waits now (scheduler_tick cfg now sv codes db) i \<and> statuses (scheduler_tick cfg now sv codes db) = statuses db"
proof -
  define db1 where "db1 = snd (repairAllMissingAutoReadyCountdowns cfg now db)"
  have w1: "big_game_waits now db1 i" "statuses db1 = statuses db"
    using repair_keeps_waiting [OF assms db1_def] by simp_all
  obtain s slot rest where d: "due_session now db1 i s slot" "sl_category slot = BIG_GAME"
    "prioritizedDueSessions now db1 = s # rest" using waiting_first [OF w1(1)] by blast
  have id: "gs_id s = i" using d(1) find_session_iff [of db1 i s] by (simp add: due_session_def)
  define db2 where "db2 = snd (update_sessions now (\<lambda>x. gs_id x = i) (set_start (Some now)) db1)"
  have w2: "big_game_waits now db2 i"
    unfolding db2_def by (rule big_game_waits_scheduled [OF w1(1)]) (simp add: set_start_def start_due_def)
  have p: "process_due cfg now sv (map (\<lambda>s. (gs_id s, gs_slotId s)) (prioritizedDueSessions now db1)) db1 = (Inr (), db2)"
    using big_game_turned_away [OF d(1,2)] by (simp add: d(3) id db2_def)
  from w2 obtain s2 slot2 where d2: "due_session now db2 i s2 slot2" "sl_category slot2 = BIG_GAME" "sl_status slot2 \<noteq> CANCELLED"
    unfolding big_game_waits_def by blast
  have "s2 \<in> set (gd_sessions db2)"
    using d2(1) find_session_iff [of db2 i s2] by (simp add: due_session_def)
  moreover have "gs_status s2 = READY \<and> (case gs_scheduledStartAt s2 of None \<Rightarrow> False | Some start \<Rightarrow> start \<le> now) \<and>
      slot_where db2 (\<lambda>slot. sl_category slot = BIG_GAME \<and> sl_status slot \<noteq> CANCELLED) s2"
    using d2 by (simp add: due_session_def start_due_def slot_where_def slot_of_def)
  ultimately have blocked: "list_ex (\<lambda>s. gs_status s = READY \<and>
      (case gs_scheduledStartAt s of None \<Rightarrow> False | Some start \<Rightarrow> start \<le> now) \<and>
      slot_where db2 (\<lambda>slot. sl_category slot = BIG_GAME \<and> sl_status slot \<noteq> CANCELLED) s) (gd_sessions db2)"
    unfolding list_ex_iff by blast
  have "\<not> list_ex (\<lambda>s. live (gs_status s)) (gd_sessions db2)" using d2(1) by (simp add: due_session_def hasBlockingSession_def)
  then have "snd (openNextAutoQueueRegistration cfg now (sv_lockFree sv) codes deferred_options db2) = db2"
    using blocked by (simp add: openNextAutoQueueRegistration_def openNextAutoQueueRegistrationInTransaction_def transaction_def Let_def)
  then have "scheduler_tick cfg now sv codes db = db2"
    unfolding scheduler_tick_def Let_def db1_def [symmetric] p by simp
  moreover have "statuses db2 = statuses db" using w1(2) by (simp add: db2_def)
  ultimately show ?thesis using w2 by simp
qed

text \<open>Ticks at the given instants, each with its draws.\<close>

fun scheduler_ticks :: "timing_config \<Rightarrow> (int \<times> start_values \<times> string \<times> string) list \<Rightarrow> game_db \<Rightarrow> game_db" where
  "scheduler_ticks cfg [] db = db"
| "scheduler_ticks cfg ((now, sv, codes) # ticks) db = scheduler_ticks cfg ticks (scheduler_tick cfg now sv codes db)"

lemma ticks_keep_waiting:
  "big_game_waits start db i \<Longrightarrow> sorted (start # map fst ticks) \<Longrightarrow>
   big_game_waits (last (start # map fst ticks)) (scheduler_ticks cfg ticks db) i \<and> statuses (scheduler_ticks cfg ticks db) = statuses db"
proof (induction cfg ticks db arbitrary: start rule: scheduler_ticks.induct)
  case (2 cfg now sv codes ticks db)
  have "big_game_waits now db i" using big_game_waits_later [OF 2(2)] 2(3) by simp
  from tick_keeps_waiting [OF this] 2(1) [of now] 2(3) show ?case by simp
qed simp

section \<open>An ordinary game\<close>

definition playing :: "string \<Rightarrow> game_db \<Rightarrow> bool" where
  "playing i db \<longleftrightarrow> (i, PLAYING) \<in> set (statuses db)"

lemma playing_found: "game_ok db \<Longrightarrow> playing i db \<Longrightarrow> \<exists>x. find_session db i = Some x \<and> gs_status x = PLAYING"
  using find_session_iff [of db i] by (auto simp: playing_def statuses_def game_ok_def)

lemma playing_opens:
  assumes "opens newId db db'" "playing i db"
  shows "playing i db'"
proof -
  obtain slots old new where o: "db' = db\<lparr>gd_slots := slots, gd_sessions := old @ new\<rparr>"
    "list_all2 quiet (gd_sessions db) old" using assms(1) unfolding opens_def by blast
  from assms(2) obtain x where x: "x \<in> set (gd_sessions db)" "gs_id x = i" "gs_status x = PLAYING"
    by (auto simp: playing_def statuses_def)
  then obtain y where "y \<in> set old" "quiet x y"
    using o(2) by (metis in_set_conv_nth list_all2_conv_all_nth)
  then have "(i, PLAYING) \<in> (\<lambda>s. (gs_id s, gs_status s)) ` set old"
    using x by (auto simp: quiet_def image_iff intro!: bexI [of _ y])
  then show ?thesis by (simp add: playing_def statuses_def o(1))
qed

lemma call_keeps_statuses: "statuses (snd (call_transaction id sid letter number db)) = statuses db"
  by (auto simp: call_transaction_def transaction_def statuses_def create_number_def Let_def bind_result_def
      split: option.splits sum.splits if_splits)

lemma attempts_keep_statuses: "statuses (snd (call_attempts [id, id] sid letter number db)) = statuses db"
proof -
  obtain r db1 where 1: "call_transaction id sid letter number db = (r, db1)" by fastforce
  have s1: "statuses db1 = statuses db" using call_keeps_statuses [of sid letter number db] 1 by simp
  obtain r2 db2 where 2: "call_transaction id sid letter number db1 = (r2, db2)" by fastforce
  have s2: "statuses db2 = statuses db1" using call_keeps_statuses [of sid letter number db1] 2 by simp
  show ?thesis using s1 s2 by (simp add: 1 2 split: sum.split)
qed

lemma grace_keeps_statuses: "statuses (snd (startNoWinnerGrace cfg now sid db)) = statuses db"
  by (simp add: startNoWinnerGrace_def Let_def case_prod_beta statuses_update)

lemma random_keeps_statuses: "statuses (snd (callRandomNumber cfg now draw (id, id) sid db)) = statuses db"
proof -
  have "statuses (snd (callNumber cfg now (id, id) sid letter number db)) = statuses db" for letter number
    using attempts_keep_statuses [of sid letter number db] grace_keeps_statuses [of cfg now sid]
    by (auto simp: callNumber_def Let_def case_prod_beta split: sum.split prod.split)
  then show ?thesis by (simp add: callRandomNumber_def case_prod_beta split: option.split)
qed

lemma autoCall_keeps_playing:
  assumes "game_ok db" "playing i db"
  shows "\<exists>first. fst (startAutoCall cfg now draw i immediately db) = Inr first"
    and "statuses (snd (startAutoCall cfg now draw i immediately db)) = statuses db"
proof -
  obtain x where x: "find_session db i = Some x" "gs_status x = PLAYING" using playing_found [OF assms] by blast
  let ?f = "\<lambda>s. s\<lparr>gs_autoCallEnabled := True, gs_nextAutoCallAt := Some (now + or_else (gs_autoCallIntervalMs x) (getAutoCallIntervalMs cfg))\<rparr>"
  have u: "update_session now i ?f db = Inr (snd (update_sessions now (\<lambda>s. gs_id s = i) ?f db))"
    using x(1) by (simp add: update_session_Inr)
  have s: "statuses (snd (update_sessions now (\<lambda>s. gs_id s = i) ?f db)) = statuses db" by (rule statuses_update) simp
  show "\<exists>first. fst (startAutoCall cfg now draw i immediately db) = Inr first"
    by (auto simp: startAutoCall_def x u Let_def)
  show "statuses (snd (startAutoCall cfg now draw i immediately db)) = statuses db"
    by (simp add: startAutoCall_def x u Let_def s random_keeps_statuses)
qed

text \<open>The engine starts the session it finds: the only \<open>READY\<close> one of the slot.\<close>

lemma admitted_start:
  assumes ok: "game_ok db" and free: "\<not> hasBlockingSession db" and sl: "find_slot db slotId = Some slot"
    and r: "find_session db i = Some r" "gs_status r = READY" "gs_slotId r = slotId"
    and only: "\<And>x. x \<in> set (gd_sessions db) \<Longrightarrow> gs_slotId x = slotId \<Longrightarrow> gs_status x = READY \<Longrightarrow> gs_id x = i"
    and admitted: "assertSlotReady now db slotId = Inr ()"
  shows "\<exists>open_next db'. start_session now codes slotId config db = Inr ((i, open_next), db') \<and> playing i db'"
proof -
  have keys: "keys_ok db" using ok by (simp add: game_ok_def)
  have mem: "r \<in> set (gd_sessions db)" "gs_id r = i" using find_session_iff [OF keys] r(1) by blast+
  obtain x where x: "find (\<lambda>s. gs_slotId s = slotId \<and> gs_status s = READY) (gd_sessions db) = Some x"
    using mem r(2,3) by (cases "find (\<lambda>s. gs_slotId s = slotId \<and> gs_status s = READY) (gd_sessions db)") (auto simp: find_None_iff)
  then have xi: "gs_id x = i" using find_in [OF x] only by blast
  obtain db1 where u: "update_slot slotId (\<lambda>s. s\<lparr>sl_status := PLAYING\<rparr>) db = Inr db1" "gd_sessions db1 = gd_sessions db"
    using sl by (simp add: update_slot_def)
  let ?P = "\<lambda>s. gs_id s = i \<and> gs_status s = READY"
  have "count_where ?P (gd_sessions db1) \<le> 1"
    using keys unfolding u(2) by (intro count_where_key [where key = gs_id and k = i]) (auto simp: keys_ok_def)
  moreover have "0 < count_where ?P (gd_sessions db1)" unfolding count_where_pos u(2) using mem r(2) by blast
  ultimately have count: "fst (update_sessions now ?P (\<lambda>s. s\<lparr>gs_status := PLAYING, gs_startedAt := now\<rparr>) db1) = 1"
    by (simp add: update_sessions_def)
  have "playing i (snd (update_sessions now ?P (\<lambda>s. s\<lparr>gs_status := PLAYING, gs_startedAt := now\<rparr>) db1))"
    using mem r(2) u(2) by (force simp: playing_def statuses_def update_sessions_def update_where_def)
  moreover have "\<not> list_ex (\<lambda>s. live (gs_status s)) (gd_sessions db)" using free by (simp add: hasBlockingSession_def)
  ultimately show ?thesis
    using count by (simp add: start_session_def sl x xi u(1) admitted Let_def case_prod_beta)
qed

lemma due_session_plays:
  assumes ok: "game_ok db" and due: "due_session now db i s slot" and auto: "sl_operationMode slot = AUTO"
    and ids: "values_ready sv db"
    and admitted: "assertSlotReady now (snd (claim_start now i db)) (gs_slotId s) = Inr ()"
  shows "fst (processDueSession cfg now sv (id, id) i (gs_slotId s) db) = Inr True \<and>
    playing i (snd (processDueSession cfg now sv (id, id) i (gs_slotId s) db))"
proof -
  let ?db = "snd (claim_start now i db)" and ?slot = "gs_slotId s"
  have ok1: "game_ok ?db" unfolding claim_start_def using schedule_ok [OF ok] by blast
  have d: "\<not> hasBlockingSession ?db" "find_slot ?db ?slot = Some slot"
    using due by (simp_all add: due_session_def claim_start_def)
  have id: "gs_id s = i" using due find_session_iff [of db i s] by (simp add: due_session_def)
  have f: "find_session ?db i = Some ((set_start None s)\<lparr>gs_updatedAt := now\<rparr>)"
    using due id by (simp add: claim_start_def find_session_scheduled due_session_def)
  have row: "gs_status ((set_start None s)\<lparr>gs_updatedAt := now\<rparr>) = READY"
    "gs_slotId ((set_start None s)\<lparr>gs_updatedAt := now\<rparr>) = ?slot"
    using due by (simp_all add: set_start_def due_session_def)
  have only: "gs_id x = i" if "x \<in> set (gd_sessions ?db)" "gs_slotId x = ?slot" "gs_status x = READY" for x
    using that(1) unfolding claim_start_def by (rule scheduled_row) (use that(2,3) due in \<open>simp add: due_session_def\<close>)
  obtain open_next db2 where st: "start_session now (sv_start sv) ?slot no_config ?db = Inr ((i, open_next), db2)" "playing i db2"
    using admitted_start [OF ok1 d f row only admitted, of "sv_start sv" no_config] by blast
  have v: "fst (sv_start sv) \<notin> gs_id ` set (gd_sessions ?db)" "fst (sv_deferred sv) \<notin> gs_id ` set (gd_sessions ?db)"
    "fst (sv_deferred sv) \<noteq> fst (sv_start sv)"
    using ids by (simp_all add: values_ready_def claim_start_def scheduled_same)
  have ok2: "game_ok db2" using game_tx_ok [OF game_tx.start [OF st(1) v(1)] ok1] by blast
  obtain g db3 where g: "startGame cfg now (sv_lockFree sv) (sv_start sv) (sv_deferred sv) ?slot no_config ?db = (g, db3)" by fastforce
  have "find (\<lambda>s. gs_slotId s = ?slot \<and> live (gs_status s)) (gd_sessions ?db) = None"
    using d(1) by (auto simp: hasBlockingSession_def list_ex_iff find_None_iff)
  then have g3: "g = Inr i" "db3 = db2 \<or> db3 = snd (openNextAutoQueueRegistration cfg now (sv_lockFree sv) (sv_deferred sv)
      \<lparr>op_ignoreReviewGrace = True, op_allowBehindActiveLive = True, op_deferred = True\<rparr> db2)"
    using g st(1) by (auto simp: startGame_def split: if_splits)
  have ok3: "game_ok db3"
    using game_run.run_inv [OF run_startGame [OF v] ok1, of cfg now "sv_lockFree sv" ?slot no_config] g by simp
  have play3: "playing i db3"
  proof (cases "openNextAutoQueueRegistrationInTransaction cfg now (sv_lockFree sv) (sv_deferred sv)
      \<lparr>op_ignoreReviewGrace = True, op_allowBehindActiveLive = True, op_deferred = True\<rparr> db2")
    case (Inl e)
    then show ?thesis using g3(2) st(2) by (auto simp: openNextAutoQueueRegistration_def transaction_def)
  next
    case (Inr p)
    obtain x d' where p: "p = (x, d')" by fastforce
    have "playing i d'" by (rule playing_opens [OF opener_opens [OF game_okD(1) [OF ok2] Inr [unfolded p]] st(2)])
    then show ?thesis using g3(2) st(2) Inr p by (auto simp: openNextAutoQueueRegistration_def transaction_def)
  qed
  let ?ms = "Some (tc_autoCallIntervalSeconds cfg * 1000)"
  let ?db4 = "snd (update_sessions now (\<lambda>s. gs_id s = i) (set_interval ?ms) db3)"
  have u: "update_session now i (set_interval ?ms) db3 = Inr ?db4"
    using playing_found [OF ok3 play3] by (auto simp: update_session_Inr)
  have ok4: "game_ok ?db4" using interval_ok [OF ok3] by blast
  have play4: "playing i ?db4"
    using play3 statuses_update [of "set_interval ?ms" now "\<lambda>s. gs_id s = i" db3] by (simp add: playing_def set_interval_def)
  obtain first db5 where c: "startAutoCall cfg now (sv_draw sv) i True ?db4 = (Inr first, db5)"
    using autoCall_keeps_playing(1) [OF ok4 play4] by (metis prod.collapse)
  have "playing i db5"
    using autoCall_keeps_playing(2) [OF ok4 play4, of cfg now "sv_draw sv" True] play4 c by (simp add: playing_def)
  then show ?thesis
    using due_session_claimed [OF due] auto g g3(1) u c by (simp add: start_due_session_def)
qed

lemma refused_stays_due:
  assumes "due_session now db i s slot" "sl_operationMode slot = AUTO"
    and "assertSlotReady now (snd (claim_start now i db)) (gs_slotId s) = Inl e"
  shows "processDueSession cfg now sv (id, id) i (gs_slotId s) db =
    (Inr True, snd (update_sessions now (\<lambda>x. gs_id x = i) (set_start (Some now)) db))"
proof -
  have d: "\<not> hasBlockingSession (snd (claim_start now i db))" "find_slot (snd (claim_start now i db)) (gs_slotId s) = Some slot"
    using assms(1) by (simp_all add: due_session_def claim_start_def)
  show ?thesis
    using due_session_claimed [OF assms(1)] assms(2) claim_and_retry [OF assms(1)] refused_start [OF d assms(3)]
    by (simp add: start_due_session_def)
qed

end
