(* ===== verification/AutoStartProperties.thy ===== *)
theory AutoStartProperties
  imports AutoStartFacts GameProperties
begin

text \<open>The properties of the clock that starts games, on the sample database before its game starts.\<close>

section \<open>A sample database\<close>

definition waiting_db :: game_db where
  "waiting_db = playing_db
     \<lparr>gd_slots := [sample_slot\<lparr>sl_status := NEXT\<rparr>],
      gd_sessions := [sample_session\<lparr>gs_status := READY, gs_autoCallEnabled := False, gs_nextAutoCallAt := None,
         gs_scheduledStartAt := Some 0\<rparr>],
      gd_numbers := []\<rparr>"

definition big_waiting_db :: game_db where
  "big_waiting_db = waiting_db\<lparr>gd_slots := [sample_slot\<lparr>sl_status := NEXT, sl_category := BIG_GAME\<rparr>]\<rparr>"

definition sample_values :: start_values where
  "sample_values =
     \<lparr>sv_lockFree = True, sv_start = (''s1'', ''P1''), sv_deferred = (''s2'', ''P2''), sv_cancel = (''s3'', ''P3''),
      sv_refund = (\<lambda>u. ''r'' @ u), sv_draw = 0\<rparr>"

lemma waiting_db_ok: "game_ok waiting_db"
proof -
  have "keys_ok waiting_db" by (simp add: keys_ok_def waiting_db_def sample_defs paid_def posted_def)
  moreover have "sessions_ok waiting_db"
    by (simp add: sessions_ok_def session_ok_def cartela_ok_def cartelas_of_def claims_of_def paid_def
        posted_def waiting_db_def sample_defs)
  moreover have "one_live waiting_db" by (simp add: one_live_def waiting_db_def sample_defs)
  moreover have "numbers_ok (numbers_of waiting_db sid)" for sid
    by (simp add: numbers_ok_def numbers_of_def waiting_db_def)
  moreover have "db_ok (gd_wallet waiting_db)"
    using playing_db_ok by (simp add: game_ok_def waiting_db_def)
  ultimately show ?thesis by (simp add: game_ok_def)
qed

lemma waiting_due:
  "due_session 5 waiting_db ''game'' (hd (gd_sessions waiting_db)) (hd (gd_slots waiting_db))"
  "due_session 5 big_waiting_db ''game'' (hd (gd_sessions big_waiting_db)) (hd (gd_slots big_waiting_db))"
proof -
  have k: "keys_ok waiting_db" using waiting_db_ok by (simp add: game_ok_def)
  then have k2: "keys_ok big_waiting_db"
    by (simp add: keys_ok_def big_waiting_db_def waiting_db_def playing_db_def sample_slot_def paid_def)
  show "due_session 5 waiting_db ''game'' (hd (gd_sessions waiting_db)) (hd (gd_slots waiting_db))"
    using k by (simp add: due_session_def hasBlockingSession_def has_players_def find_session_def find_slot_def start_due_def
        live_def waiting_db_def playing_db_def sample_session_def sample_slot_def sample_game_cartela_def)
  show "due_session 5 big_waiting_db ''game'' (hd (gd_sessions big_waiting_db)) (hd (gd_slots big_waiting_db))"
    using k2 by (simp add: due_session_def hasBlockingSession_def has_players_def find_session_def find_slot_def start_due_def
        live_def big_waiting_db_def waiting_db_def playing_db_def sample_session_def sample_slot_def sample_game_cartela_def)
qed

section \<open>Properties\<close>

text \<open>
  C20. A session of an automatic slot that is due, with players, while no game is live, and the only
  \<open>READY\<close> one of its slot: when the engine admits the slot, the clock leaves it playing, and
  otherwise it leaves it due at this instant and changes nothing else, so it is never stranded.
\<close>

theorem due_game_starts:
  assumes "game_ok db" "due_session now db i s slot" "sl_operationMode slot = AUTO" "values_ready sv db"
  shows "fst (processDueSession cfg now sv (id, id) i (gs_slotId s) db) = Inr True \<and>
    (case assertSlotReady now (snd (claim_start now i db)) (gs_slotId s) of
       Inr _ \<Rightarrow> (i, PLAYING) \<in> set (statuses (snd (processDueSession cfg now sv (id, id) i (gs_slotId s) db)))
     | Inl _ \<Rightarrow> snd (processDueSession cfg now sv (id, id) i (gs_slotId s) db) =
         snd (update_sessions now (\<lambda>x. gs_id x = i) (set_start (Some now)) db))"
proof (cases "assertSlotReady now (snd (claim_start now i db)) (gs_slotId s)")
  case (Inl e)
  then show ?thesis using refused_stays_due [OF assms(2,3)] by simp
next
  case (Inr u)
  then show ?thesis using due_session_plays [OF assms] by (simp add: playing_def)
qed

theorem due_game_starts_witness:
  "(''game'', PLAYING) \<in> set (statuses (snd (processDueSession sample_cfg 5 sample_values (id, id) ''game'' ''slot'' waiting_db)))"
proof -
  have facts: "sl_operationMode (hd (gd_slots waiting_db)) = AUTO" "gs_slotId (hd (gd_sessions waiting_db)) = ''slot''"
    "values_ready sample_values waiting_db"
    by (simp_all add: values_ready_def waiting_db_def playing_db_def sample_session_def sample_slot_def sample_values_def)
  have "assertSlotReady 5 (snd (claim_start 5 ''game'' waiting_db)) ''slot'' = Inr ()" by code_simp
  then show ?thesis
    using due_game_starts [OF waiting_db_ok waiting_due(1) facts(1,3), of sample_cfg] by (simp add: facts(2))
qed

text \<open>
  C21. A Big Game never starts by the clock: the claim takes the start time off the session, and the
  engine then refuses a Big Game without one. While the only \<open>READY\<close> Big Game is due and has players
  and no game is live, no tick at any later instant changes the status of any session, so the whole
  table waits.
\<close>

theorem big_game_never_starts:
  assumes "big_game_waits start db i" "sorted (start # map fst clock)"
  shows "statuses (scheduler_ticks cfg clock db) = statuses db \<and>
    big_game_waits (last (start # map fst clock)) (scheduler_ticks cfg clock db) i"
  using ticks_keep_waiting [OF assms] by simp

theorem big_game_never_starts_witness:
  "statuses (scheduler_ticks sample_cfg (replicate 60 (5, sample_values, ''s4'', ''P4'')) big_waiting_db) = [(''game'', READY)]"
proof -
  have "session_category big_waiting_db x \<noteq> Some BIG_GAME"
    if "x \<in> set (gd_sessions big_waiting_db)" "gs_id x \<noteq> ''game''" for x
    using that by (simp add: big_waiting_db_def waiting_db_def sample_session_def)
  moreover have "sl_category (hd (gd_slots big_waiting_db)) = BIG_GAME" "sl_status (hd (gd_slots big_waiting_db)) \<noteq> CANCELLED"
    by (simp_all add: big_waiting_db_def)
  ultimately have waits: "big_game_waits 5 big_waiting_db ''game''"
    using waiting_due(2) unfolding big_game_waits_def by blast
  have instants: "sorted (5 # map fst (replicate 60 (5 :: int, sample_values, ''s4'', ''P4'')))" by (simp add: map_replicate)
  have before: "statuses big_waiting_db = [(''game'', READY)]"
    by (simp add: statuses_def big_waiting_db_def waiting_db_def sample_session_def)
  show ?thesis by (rule trans [OF conjunct1 [OF big_game_never_starts [OF waits instants]] before])
qed

end
