(* ===== verification/Spec2Isabelle.thy ===== *)
theory Spec2Isabelle
  imports GameProperties WalletProperties RegistrationProperties DepositProperties
    AccountProperties AutoStartProperties
begin

text \<open>
  Verification of FriendsBingo, the server of a bingo game with money (\<open>src/src\<close>, TypeScript on
  NestJS, with a PostgreSQL database behind the Prisma client).

  The program. A slot of the queue gets a session; players register cartelas (5 by 5 cards) in it and
  pay with their wallet; when the session plays, numbers from 1 to 75 are called, by an admin or by the
  clock; a player claims bingo and the rule of the slot decides. The first accepted claim opens a
  winner window in which others may join; when it ends, the prize is split and credited, the session is
  finished, its slot goes to the back of the queue and the registration of the next slot opens. Without
  a winner after the last number the session ends after a grace period. An admin may cancel a session,
  which refunds the players.

  Rules of the game (\<open>game-rules/\<close>). \<open>Board\<close> models \<open>evaluators/board.util.ts\<close>, \<open>Shapes\<close> the cell
  groups of \<open>combo/*-pattern-definitions.ts\<close>, \<open>Instances\<close> the \<open>base-pattern-generator.ts\<close>,
  \<open>ComboSolver\<close> the \<open>combo-solver.ts\<close>, \<open>RuleCatalog\<close> the rule definitions, \<open>RuleJson\<close> the stored JSON
  of \<open>patterns/game-rule.patterns.ts\<close>, \<open>SeedRules\<close> the seed list and the clean-up of rules,
  \<open>PatternEvaluator\<close> the evaluators and \<open>game-rule-evaluation.service.ts\<close>. \<open>Selections\<close> specifies the
  solver (its searches find exactly the selections that serve every requirement), \<open>RuleVerdicts\<close> holds
  the locale of a sound verdict, interpreted on the pattern and the combo evaluator, and
  \<open>GameRuleProperties\<close> their properties. A JSON value is the datatype \<open>js\<close> of \<open>Prelude\<close>, so
  that cells and patterns keep what \<open>typeof\<close>, \<open>Number.isInteger\<close> and \<open>===\<close> see.

  Wallet (\<open>wallet/\<close>). \<open>Wallet\<close> models \<open>wallet.service.ts\<close> statement by statement: the pending ledger
  row, the conditional update, the deletion of the row when the update fails. \<open>WalletLedger\<close> abstracts
  it to pairs of balances and a set of keys, with the locale of a booking that is made once;
  \<open>WalletProperties\<close> holds its properties.

  The game. \<open>GameState\<close> holds the rows of \<open>prisma/schema.prisma\<close> a game uses, as tables in order of
  creation, and the updates over them; \<open>GameMoney\<close> the fees and the split of a prize; \<open>GameQueue\<close> the
  queue (\<open>game-queue.service.ts\<close>) and the opening of the next registration
  (\<open>post-game-registration-opener.service.ts\<close>); \<open>GameEngine\<close> start, finish and the end without a
  winner; \<open>CalledNumbers\<close> the numbers and the automatic caller; \<open>BingoClaims\<close> claims, the winner window
  and its scheduler; \<open>GameLifecycle\<close> cancellation and refunds.

  Registration. \<open>Registration\<close> holds when the registration of a session is open
  (\<open>games/games.operation-mode.ts\<close>), the limits, the cartelas locked by a live round, and the entry of one
  cartela with its account, its payment and the amounts of the session; \<open>Reservations\<close> the holds of
  cartelas, their confirmation and expiry, and the registration of one cartela, in a session or through
  its slot; \<open>BulkRegistration\<close> the requests for many, in chunks of twenty (\<open>games/games.service.ts\<close>,
  \<open>games/registration-limits.ts\<close>, \<open>games/cartela-reservation-expirer.service.ts\<close>).

  Payments. \<open>RateLimit\<close> models the limiter (\<open>common/rate-limit\<close>), \<open>PaymentStore\<close> the tables and the
  filters the payment services share, \<open>Withdrawals\<close> the \<open>withdrawals.service.ts\<close>, \<open>DepositConfig\<close> the
  approval modes of the providers with their copy in memory (\<open>deposit-approval-config.service.ts\<close>),
  \<open>Receipts\<close> the references and receipts (\<open>deposit-transaction-reference.ts\<close>,
  \<open>telebirr-local-receipt.validator.ts\<close>), \<open>VerifyEt\<close> the client of the verification service
  (\<open>verify-et/\<close>), \<open>Deposits\<close> the \<open>deposits.service.ts\<close>. They book through the wallet, so that
  \<open>WithdrawalSteps\<close> and \<open>DepositSteps\<close> can state their invariants on its ledger and its balances and
  prove that every handler keeps them, whatever other requests commit while it runs. \<open>PaymentRuns\<close>
  makes the services a state machine whose handlers may overlap (\<open>payment_step\<close> and \<open>payment_run\<close>, one
  defined by the other) and interprets \<open>protocol\<close> on it; \<open>ReceiptFacts\<close> shows what an accepted receipt
  or reply says. \<open>PaymentProperties\<close> and \<open>DepositProperties\<close> hold the properties. A rejection of a
  deposit that an approval overtakes breaks the invariant: it is the one step \<open>payment_step\<close> leaves
  out, and \<open>overtaken_rejection\<close> shows what it does.

  How the parts interact. A database transaction is a function from the database to an exception or a
  result with the new database; PostgreSQL commits them one after the other, so \<open>game_tx\<close> of
  \<open>GameRuns\<close>, with one rule for each transaction of the services, makes the game a state machine, and
  \<open>game_op\<close> lists the calls of the services. \<open>GameInvariant\<close> states what holds between transactions
  (\<open>game_ok\<close>) and how a transaction may change the table (\<open>advances\<close>); \<open>GameSteps\<close>, \<open>ClaimSteps\<close>,
  \<open>WindowSteps\<close>, \<open>EndSteps\<close>, \<open>CancelSteps\<close> and \<open>RegistrationSteps\<close> prove that each transaction keeps it, what the winner
  window pays and what a cancellation refunds; the locale \<open>protocol\<close> of \<open>Prelude\<close> turns that into
  facts about runs, for the game, its books and the wallet. \<open>GameBooks\<close> and \<open>BookSteps\<close> show that
  every transaction keeps the books: what is booked on the cartelas, what the session counts and what
  the ledger holds agree. \<open>RegistrationOutcomes\<close> and \<open>RegistrationProperties\<close> show what a registration, a
  bulk request and a reservation answer and leave. \<open>GameOutcomes\<close> shows that calls achieve
  something: a window that is due closes, a claim is decided by its verdict, a cancellation refunds,
  the automatic caller calls every number. \<open>GameProperties\<close> holds the properties of playing and the sample databases
  of their witnesses.

  The clock that starts games. \<open>AutoStart\<close> models a tick of \<open>game-auto-start-scheduler.service.ts\<close> and the
  repair of countdowns it begins with, over the lifecycle, the engine, the automatic caller and the
  opener; its own writes are the rules \<open>schedule\<close> and \<open>interval\<close> of \<open>game_tx\<close>, and a tick is a call in
  \<open>game_op\<close>. \<open>AutoStartFacts\<close> and \<open>AutoStartProperties\<close> show that a due game starts or stays due, and that
  a Big Game never starts this way.

  Authentication (\<open>src/src/auth\<close>). \<open>Accounts\<close> holds the rows and the phone numbers, \<open>OneTimeCodes\<close> the codes
  sent by SMS (\<open>otp.service.ts\<close>), \<open>RefreshTokens\<close> the sessions (\<open>refresh-token.service.ts\<close>) and
  \<open>Authentication\<close> login, registration, passwords and the welcome bonus (\<open>auth.service.ts\<close>). \<open>CodeFacts\<close>
  bounds the guesses along a sequence of calls and shows what overlapping checks escape, \<open>TokenFacts\<close>
  and \<open>LoginFacts\<close> show what a rotation, a login and a registration leave, \<open>BonusFacts\<close> keeps the
  books of the welcome bonus over interleavings (\<open>bonus_run\<close>); \<open>AccountProperties\<close> holds the
  properties. bcrypt, the hash of a token and the signature of an access token are the record
  \<open>crypto\<close>, about which no property assumes anything but that two tokens in play have different hashes.

  Decisions. Decimals are exact rationals (the columns hold two decimals and the amounts computed have
  no more, the split of a prize excepted, whose rounding is written out); JavaScript numbers are
  integers or rationals, none of those computed here leaves the exact range. The clock, random draws,
  fresh identifiers and play codes, and whether the advisory lock is free, are arguments. What other
  transactions commit between two reads of one call is the argument \<open>others\<close> where the code defends
  against it. A statement that fails inside a transaction is an exception the code may catch, as the code
  has it, although PostgreSQL refuses what follows in that transaction; serially no such branch is
  reached. A normal session without an entry fee takes no registrations: the wallet refuses to debit
  nothing, and the model refuses with it. Recursion is structural or has a measure, so there is no fuel.

  Parameters of the payments, none of them restricted unless a property says so: the reader of
  decimals (\<open>new Prisma.Decimal\<close>), the URL parser, dates of the host's time zone, the search operator
  of the database, the settings, and the exchange with the verification service with \<open>JSON.parse\<close>. The
  polling of that service is bounded by its configured number of attempts.

  Not modelled: rows of the audit log outside the payments and their metadata, \<open>updatedAt\<close> columns,
  web sockets, push and SMS messages, log lines and the timeouts of database transactions (they change
  no row of the model); the checks of the HTTP layer on requests; the screens of the admin for the
  queue, users and the services that only call other systems or list rows.
\<close>

end
